(* ===== verification/Prelude.thy ===== *)
theory Prelude
  imports Main "HOL-Library.Word"
begin

text \<open>
  Shared vocabulary of the development: bytes and buffers, JavaScript's safe integers,
  errors as values with their sequencing combinator, big- and little-endian integers
  over byte lists, and the codec interfaces (locales) that the wire formats provide.

  A \<open>Buffer\<close> or \<open>Uint8Array\<close> is a \<open>byte list\<close>. A JavaScript \<open>number\<close> that the code
  checks with \<open>Number.isSafeInteger\<close> is an \<open>int\<close>; lengths and offsets that come from a
  buffer are \<open>nat\<close>. A thrown exception is the left value of a sum; the text carried by
  an error is the constant part of the message, without its interpolated values.
\<close>

type_synonym byte = "8 word"
type_synonym bytes = "byte list"

section \<open>Errors as values\<close>

datatype js_error =
    RangeError string
  | TypeError string
  | PlainError string
  | CodedError string string  \<comment> \<open>an error class of the source with its \<open>code\<close> field\<close>

type_synonym 'a result = "js_error + 'a"

definition rbind :: "'e + 'a \<Rightarrow> ('a \<Rightarrow> 'e + 'b) \<Rightarrow> 'e + 'b" where
  "rbind m f = (case m of Inl e \<Rightarrow> Inl e | Inr x \<Rightarrow> f x)"

definition guard_that :: "bool \<Rightarrow> 'e \<Rightarrow> 'e + unit" where
  "guard_that c e = (if c then Inr () else Inl e)"

fun map_result :: "('a \<Rightarrow> 'e + 'b) \<Rightarrow> 'a list \<Rightarrow> 'e + 'b list" where
  "map_result f [] = Inr []"
| "map_result f (x # xs) = rbind (f x) (\<lambda>y. rbind (map_result f xs) (\<lambda>ys. Inr (y # ys)))"

lemma rbind_Inl [simp]: "rbind (Inl e) f = Inl e"
  by (simp add: rbind_def)

lemma rbind_Inr [simp]: "rbind (Inr x) f = f x"
  by (simp add: rbind_def)

lemma rbind_eq_Inr [simp]: "rbind m f = Inr y \<longleftrightarrow> (\<exists>x. m = Inr x \<and> f x = Inr y)"
  by (cases m) auto

lemma Inr_eq_rbind [simp]: "Inr y = rbind m f \<longleftrightarrow> (\<exists>x. m = Inr x \<and> f x = Inr y)"
  by (cases m) auto

lemma Inl_eq_rbind: "Inl e = rbind m f \<longleftrightarrow> m = Inl e \<or> (\<exists>x. m = Inr x \<and> f x = Inl e)"
  by (cases m) auto

lemma rbind_eq_Inl: "rbind m f = Inl e \<longleftrightarrow> m = Inl e \<or> (\<exists>x. m = Inr x \<and> f x = Inl e)"
  by (cases m) auto

lemma rbind_assoc: "rbind (rbind m f) g = rbind m (\<lambda>x. rbind (f x) g)"
  by (cases m) auto

lemma guard_that_eq_Inr [simp]: "guard_that c e = Inr u \<longleftrightarrow> c"
  by (simp add: guard_that_def)

lemma guard_that_True [simp]: "guard_that True e = Inr ()"
  by (simp add: guard_that_def)

lemma guard_that_False [simp]: "guard_that False e = Inl e"
  by (simp add: guard_that_def)

lemma map_result_length: "map_result f xs = Inr ys \<Longrightarrow> length ys = length xs"
  by (induction xs arbitrary: ys) auto

lemma map_result_nth:
  "map_result f xs = Inr ys \<Longrightarrow> i < length xs \<Longrightarrow> f (xs ! i) = Inr (ys ! i)"
proof (induction xs arbitrary: ys i)
  case Nil
  then show ?case by simp
next
  case (Cons x xs)
  then show ?case by (cases i) auto
qed

lemma map_result_total:
  "(\<And>x. x \<in> set xs \<Longrightarrow> \<exists>y. f x = Inr y) \<Longrightarrow> \<exists>ys. map_result f xs = Inr ys"
  by (induction xs) fastforce+

section \<open>Defaults\<close>

text \<open>\<open>v ?? d\<close>, also \<open>v === undefined ? d : v\<close>.\<close>

definition or_else :: "'a option \<Rightarrow> 'a \<Rightarrow> 'a" where
  "or_else v d = (case v of None \<Rightarrow> d | Some x \<Rightarrow> x)"

lemma or_else_simps [simp]: "or_else None d = d" "or_else (Some x) d = x"
  by (simp_all add: or_else_def)

section \<open>Safe integers\<close>

definition max_safe_integer :: int where
  "max_safe_integer = 9007199254740991"

definition is_safe_integer :: "int \<Rightarrow> bool" where
  "is_safe_integer v \<longleftrightarrow> - max_safe_integer \<le> v \<and> v \<le> max_safe_integer"

lemma is_safe_integer_of_small:
  "\<bar>v\<bar> \<le> 9007199254740991 \<Longrightarrow> is_safe_integer v"
  by (auto simp: is_safe_integer_def max_safe_integer_def)

section \<open>Endianness\<close>

definition be_decode :: "bytes \<Rightarrow> nat" where
  "be_decode bs = foldl (\<lambda>acc b. acc * 256 + unat b) 0 bs"

fun be_encode :: "nat \<Rightarrow> nat \<Rightarrow> bytes" where
  "be_encode 0 v = []"
| "be_encode (Suc n) v = be_encode n (v div 256) @ [word_of_nat v]"

fun le_decode :: "bytes \<Rightarrow> nat" where
  "le_decode [] = 0"
| "le_decode (b # bs) = unat b + 256 * le_decode bs"

fun le_encode :: "nat \<Rightarrow> nat \<Rightarrow> bytes" where
  "le_encode 0 v = []"
| "le_encode (Suc n) v = word_of_nat v # le_encode n (v div 256)"

text \<open>Two's complement over \<open>8 * n\<close> bits, as the \<open>readInt\<close> and \<open>writeInt\<close> methods use it.\<close>

definition to_signed :: "nat \<Rightarrow> nat \<Rightarrow> int" where
  "to_signed n v = (if 2 * v < 256 ^ n then int v else int v - 256 ^ n)"

definition from_signed :: "nat \<Rightarrow> int \<Rightarrow> nat" where
  "from_signed n v = nat (v mod 256 ^ n)"

lemma unat_byte_less [simp]: "unat (b :: byte) < 256"
  using unsigned_less [of b, where ?'a = nat] by simp

lemma unat_word_of_nat_byte [simp]: "unat (word_of_nat v :: byte) = v mod 256"
  by (simp add: unat_of_nat)

named_theorems byte_eval

lemma be_encode_numeral [byte_eval]:
  "be_encode (numeral k) v = be_encode (pred_numeral k) (v div 256) @ [word_of_nat v]"
  by (simp only: numeral_eq_Suc [of k] be_encode.simps)

lemma le_encode_numeral [byte_eval]:
  "le_encode (numeral k) v = word_of_nat v # le_encode (pred_numeral k) (v div 256)"
  by (simp only: numeral_eq_Suc [of k] le_encode.simps)

lemma be_decode_Nil [simp]: "be_decode [] = 0"
  by (simp add: be_decode_def)

lemma be_decode_snoc [simp]: "be_decode (bs @ [b]) = be_decode bs * 256 + unat b"
  by (simp add: be_decode_def)

lemma be_decode_zeros: "be_decode (replicate n 0) = 0"
  by (induction n) (simp_all add: replicate_append_same [symmetric])

lemma length_be_encode [simp]: "length (be_encode n v) = n"
  by (induction n arbitrary: v) auto

lemma length_le_encode [simp]: "length (le_encode n v) = n"
  by (induction n arbitrary: v) auto

lemma be_decode_encode: "be_decode (be_encode n v) = v mod 256 ^ n"
proof (induction n arbitrary: v)
  case 0
  then show ?case by simp
next
  case (Suc n)
  have "v mod (256 * 256 ^ n) = 256 * (v div 256 mod 256 ^ n) + v mod 256"
    by (simp add: mod_mult2_eq)
  with Suc show ?case by simp
qed

lemma le_decode_encode: "le_decode (le_encode n v) = v mod 256 ^ n"
proof (induction n arbitrary: v)
  case 0
  then show ?case by simp
next
  case (Suc n)
  have "v mod (256 * 256 ^ n) = 256 * (v div 256 mod 256 ^ n) + v mod 256"
    by (simp add: mod_mult2_eq)
  with Suc show ?case by simp
qed

lemma be_decode_less: "be_decode bs < 256 ^ length bs"
proof (induction bs rule: rev_induct)
  case Nil
  then show ?case by simp
next
  case (snoc b bs)
  then have "Suc (be_decode bs) * 256 \<le> 256 ^ length bs * 256"
    by (intro mult_le_mono) auto
  then have "256 + 256 * be_decode bs \<le> 256 * 256 ^ length bs" by simp
  with unat_byte_less [of b] show ?case by (simp del: unat_byte_less)
qed

lemma le_decode_less: "le_decode bs < 256 ^ length bs"
proof (induction bs)
  case Nil
  then show ?case by simp
next
  case (Cons b bs)
  then have "Suc (le_decode bs) * 256 \<le> 256 ^ length bs * 256"
    by (intro mult_le_mono) auto
  then have "256 + 256 * le_decode bs \<le> 256 * 256 ^ length bs" by simp
  with unat_byte_less [of b] show ?case by (simp del: unat_byte_less)
qed

lemma be_decode_encode_id [simp]: "v < 256 ^ n \<Longrightarrow> be_decode (be_encode n v) = v"
  by (simp add: be_decode_encode)

lemma le_decode_encode_id [simp]: "v < 256 ^ n \<Longrightarrow> le_decode (le_encode n v) = v"
  by (simp add: le_decode_encode)

lemma word_of_nat_mult_add [simp]: "(word_of_nat (a * 256 + unat b) :: byte) = b"
proof -
  have "unat (word_of_nat (a * 256 + unat b) :: byte) = unat b"
    by (simp only: unat_word_of_nat_byte) simp
  then show ?thesis by (simp only: word_unat_eq_iff)
qed

lemma be_encode_decode: "be_encode (length bs) (be_decode bs) = bs"
  by (induction bs rule: rev_induct) (simp_all add: div_mult_self3 del: of_nat_add of_nat_mult)

lemma le_encode_decode: "le_encode (length bs) (le_decode bs) = bs"
proof (induction bs)
  case Nil
  then show ?case by simp
next
  case (Cons b bs)
  have "(word_of_nat (unat b + 256 * le_decode bs) :: byte) = b"
    using word_of_nat_mult_add [of "le_decode bs" b]
    by (simp only: add.commute mult.commute)
  moreover have "(unat b + 256 * le_decode bs) div 256 = le_decode bs"
    by simp
  ultimately show ?case using Cons by (simp only: length_Cons le_decode.simps le_encode.simps)
qed

lemma to_from_signed:
  assumes "- (256 ^ n) \<le> 2 * v" and "2 * v < 256 ^ n"
  shows "to_signed n (from_signed n v) = v"
proof (cases "0 \<le> v")
  case True
  with assms(2) have "v mod 256 ^ n = v" by (simp add: mod_pos_pos_trivial)
  moreover from True assms(2) have "2 * nat v < 256 ^ n"
    by (metis (no_types, opaque_lifting) nat_less_iff nat_mult_distrib nat_numeral
        of_nat_numeral of_nat_power zero_le_numeral mult_nonneg_nonneg)
  ultimately show ?thesis using True by (simp add: to_signed_def from_signed_def)
next
  case False
  have "v mod 256 ^ n = (v + 256 ^ n) mod 256 ^ n" by simp
  also have "\<dots> = v + 256 ^ n"
    using False assms(1) by (intro mod_pos_pos_trivial) auto
  finally have eq: "v mod 256 ^ n = v + 256 ^ n" .
  have "int (256 ^ n) \<le> int (2 * nat (v + 256 ^ n))"
    using False assms(1) by simp
  then have "\<not> 2 * nat (v + 256 ^ n) < 256 ^ n" by linarith
  then show ?thesis using False assms(1) eq by (simp add: to_signed_def from_signed_def)
qed

lemma from_signed_less: "from_signed n v < 256 ^ n"
proof -
  have "v mod 256 ^ n < int (256 ^ n)" by simp
  then show ?thesis by (simp add: from_signed_def nat_less_iff)
qed

lemma to_signed_bounds:
  assumes "v < 256 ^ n"
  shows "- (256 ^ n) \<le> 2 * to_signed n v \<and> 2 * to_signed n v < 256 ^ n"
proof -
  have less: "int v < 256 ^ n"
    using assms by (metis of_nat_less_iff of_nat_numeral of_nat_power)
  have half: "2 * v < 256 ^ n \<longleftrightarrow> 2 * int v < 256 ^ n"
    by (metis of_nat_less_iff of_nat_mult of_nat_numeral of_nat_power)
  show ?thesis
  proof (cases "2 * v < 256 ^ n")
    case True
    then have "2 * int v < 256 ^ n" using half by simp
    with True show ?thesis by (simp add: to_signed_def)
  next
    case False
    then have "\<not> 2 * int v < 256 ^ n" using half by simp
    moreover have "to_signed n v = int v - 256 ^ n" using False by (simp add: to_signed_def)
    ultimately show ?thesis using less by linarith
  qed
qed

lemma from_to_signed: "v < 256 ^ n \<Longrightarrow> from_signed n (to_signed n v) = v"
proof -
  assume "v < 256 ^ n"
  then have "int v < 256 ^ n" by (metis of_nat_less_iff of_nat_numeral of_nat_power)
  then show ?thesis
    by (auto simp: to_signed_def from_signed_def mod_pos_pos_trivial)
qed

section \<open>Byte windows of a buffer\<close>

text \<open>\<open>subarray(offset, offset + n)\<close> of a buffer that holds the whole window.\<close>

definition slice :: "nat \<Rightarrow> nat \<Rightarrow> 'a list \<Rightarrow> 'a list" where
  "slice off n xs = take n (drop off xs)"

text \<open>\<open>source.copy(target, offset)\<close> where the copied bytes fit behind the offset.\<close>

definition splice :: "nat \<Rightarrow> 'a list \<Rightarrow> 'a list \<Rightarrow> 'a list" where
  "splice off ys xs = take off xs @ ys @ drop (off + length ys) xs"

lemma length_slice [simp]: "off + n \<le> length xs \<Longrightarrow> length (slice off n xs) = n"
  by (simp add: slice_def)

lemma slice_0 [simp]: "slice off 0 xs = []"
  by (simp add: slice_def)

lemma slice_append_take:
  "off + n \<le> length xs \<Longrightarrow> take off xs @ slice off n xs = take (off + n) xs"
  by (simp add: slice_def take_add)

lemma length_splice [simp]: "off + length ys \<le> length xs \<Longrightarrow> length (splice off ys xs) = length xs"
  by (simp add: splice_def)

lemma take_splice:
  "off + length ys \<le> length xs \<Longrightarrow> take (off + length ys) (splice off ys xs) = take off xs @ ys"
  by (simp add: splice_def)

lemma slice_splice:
  "off + length ys \<le> length xs \<Longrightarrow> slice off (length ys) (splice off ys xs) = ys"
  by (simp add: splice_def slice_def)

section \<open>Codec interfaces\<close>

text \<open>
  A self-delimiting encoding: the decoder recovers the value from any stream that starts
  with its encoding and hands back the rest. Wire formats that are read one item at a
  time rely on it.
\<close>

locale prefix_codec =
  fixes enc :: "'a \<Rightarrow> bytes"
    and dec :: "bytes \<Rightarrow> js_error + 'a \<times> bytes"
    and ok :: "'a \<Rightarrow> bool"
  assumes dec_enc: "ok x \<Longrightarrow> dec (enc x @ rest) = Inr (x, rest)"
    and enc_nonempty: "ok x \<Longrightarrow> enc x \<noteq> []"
begin

lemma prefix_free:
  assumes "ok x" and "ok y" and "enc x @ r = enc y @ s"
  shows "x = y \<and> r = s"
proof -
  have "(Inr (x, r) :: js_error + 'a \<times> bytes) = Inr (y, s)"
    using dec_enc [OF assms(1), of r] dec_enc [OF assms(2), of s] assms(3) by metis
  then show ?thesis by simp
qed

lemma stream_unambiguous:
  assumes "list_all ok xs" and "list_all ok ys"
    and "concat (map enc xs) = concat (map enc ys)"
  shows "xs = ys"
  using assms
proof (induction xs arbitrary: ys)
  case Nil
  then show ?case by (cases ys) (auto simp: enc_nonempty)
next
  case (Cons x xs)
  show ?case
  proof (cases ys)
    case Nil
    with Cons.prems show ?thesis by (auto simp: enc_nonempty)
  next
    case (Cons y ys')
    with Cons.prems have "x = y \<and> concat (map enc xs) = concat (map enc ys')"
      by (intro prefix_free) auto
    with Cons Cons.IH [of ys'] Cons.prems show ?thesis by auto
  qed
qed

end

text \<open>
  A fallible whole-value codec: every admissible value encodes, and decoding what was
  encoded gives it back.
\<close>

locale exact_codec =
  fixes enc :: "'a \<Rightarrow> js_error + 'b"
    and dec :: "'b \<Rightarrow> js_error + 'a"
    and ok :: "'a \<Rightarrow> bool"
  assumes enc_total: "ok x \<Longrightarrow> \<exists>b. enc x = Inr b"
    and dec_of_enc: "ok x \<Longrightarrow> enc x = Inr b \<Longrightarrow> dec b = Inr x"
begin

lemma roundtrip: "ok x \<Longrightarrow> rbind (enc x) dec = Inr x"
  using enc_total [of x] dec_of_enc [of x] by auto

lemma enc_injective: "ok x \<Longrightarrow> ok y \<Longrightarrow> enc x = enc y \<Longrightarrow> x = y"
  by (metis enc_total dec_of_enc sum.inject(2))

end

text \<open>
  An incremental decoder of a byte stream: it is fed chunks as they arrive and emits
  items. Its provider states what one feed does to the bytes still pending, by a
  whole-buffer specification that may be continued where it stopped; its client gets that
  the chunk boundaries of the transport do not matter.
\<close>

fun feed_all :: "('s \<Rightarrow> bytes \<Rightarrow> js_error + 'o list \<times> 's) \<Rightarrow> 's \<Rightarrow> bytes list
    \<Rightarrow> js_error + 'o list \<times> 's" where
  "feed_all feed s [] = Inr ([], s)"
| "feed_all feed s (c # cs) = rbind (feed s c) (\<lambda>(os, s').
     rbind (feed_all feed s' cs) (\<lambda>(os', s''). Inr (os @ os', s'')))"

definition parse_more :: "(bytes \<Rightarrow> js_error + 'o list \<times> bytes) \<Rightarrow> bytes \<Rightarrow> 'o list \<times> bytes
    \<Rightarrow> js_error + 'o list \<times> bytes" where
  "parse_more parse b = (\<lambda>(os, r). rbind (parse (r @ b)) (\<lambda>(os', r'). Inr (os @ os', r')))"

locale stream_decoder =
  fixes feed :: "'s \<Rightarrow> bytes \<Rightarrow> js_error + 'o list \<times> 's"
    and pending :: "'s \<Rightarrow> bytes"
    and inv :: "'s \<Rightarrow> bool"
    and parse :: "bytes \<Rightarrow> js_error + 'o list \<times> bytes"
  assumes feed_ok: "inv s \<Longrightarrow> parse (pending s @ c) = Inr (os, r) \<Longrightarrow>
      \<exists>s'. feed s c = Inr (os, s') \<and> pending s' = r \<and> inv s'"
    and feed_err: "inv s \<Longrightarrow> parse (pending s @ c) = Inl e \<Longrightarrow> feed s c = Inl e"
    and parse_append: "parse (a @ b) = rbind (parse a) (parse_more parse b)"
begin

lemma parse_idle:
  assumes "parse a = Inr (os, r)"
  shows "parse r = Inr ([], r)"
  using parse_append [of a "[]"] assms by (auto simp: parse_more_def)

lemma feed_all_ok:
  assumes "inv s" and "parse (pending s) = Inr ([], pending s)"
    and "parse (pending s @ concat cs) = Inr (os, r)"
  shows "\<exists>s'. feed_all feed s cs = Inr (os, s') \<and> pending s' = r \<and> inv s'"
  using assms
proof (induction cs arbitrary: s os)
  case Nil
  then show ?case by simp
next
  case (Cons c cs)
  from Cons.prems(3) parse_append [of "pending s @ c" "concat cs"]
  obtain os1 r1 os2 where first: "parse (pending s @ c) = Inr (os1, r1)"
    and rest: "parse (r1 @ concat cs) = Inr (os2, r)" and os: "os = os1 @ os2"
    by (auto simp: parse_more_def)
  from feed_ok [OF Cons.prems(1) first] obtain s1
    where s1: "feed s c = Inr (os1, s1)" "pending s1 = r1" "inv s1" by blast
  from Cons.IH [of s1 os2] s1 rest parse_idle [OF first] obtain s'
    where "feed_all feed s1 cs = Inr (os2, s')" "pending s' = r" "inv s'" by auto
  with s1 os show ?case by auto
qed

lemma feed_all_err:
  assumes "inv s" and "parse (pending s) = Inr ([], pending s)"
    and "parse (pending s @ concat cs) = Inl e"
  shows "feed_all feed s cs = Inl e"
  using assms
proof (induction cs arbitrary: s)
  case Nil
  then show ?case by simp
next
  case (Cons c cs)
  show ?case
  proof (cases "parse (pending s @ c)")
    case (Inl e')
    with Cons.prems parse_append [of "pending s @ c" "concat cs"]
    have "e' = e" by simp
    with feed_err [OF Cons.prems(1) Inl] show ?thesis by simp
  next
    case (Inr p)
    then obtain os1 r1 where first: "parse (pending s @ c) = Inr (os1, r1)" by (cases p) auto
    from feed_ok [OF Cons.prems(1) first] obtain s1
      where s1: "feed s c = Inr (os1, s1)" "pending s1 = r1" "inv s1" by blast
    from Cons.prems(3) parse_append [of "pending s @ c" "concat cs"] first
    have "Inl e = rbind (parse (r1 @ concat cs)) (\<lambda>(os', r'). Inr (os1 @ os', r'))"
      by (simp add: parse_more_def)
    then have "parse (r1 @ concat cs) = Inl e" by (auto simp: parse_more_def Inl_eq_rbind)
    with Cons.IH [of s1] s1 parse_idle [OF first] show ?thesis by simp
  qed
qed

text \<open>Two ways of cutting the same bytes into chunks emit the same items.\<close>

lemma chunking_irrelevant:
  assumes "inv s" and "parse (pending s) = Inr ([], pending s)" and "concat cs = concat ds"
  shows "map_sum id fst (feed_all feed s cs) = map_sum id fst (feed_all feed s ds)"
proof (cases "parse (pending s @ concat cs)")
  case (Inl e)
  with assms show ?thesis by (simp add: feed_all_err)
next
  case (Inr p)
  then obtain os r where "parse (pending s @ concat cs) = Inr (os, r)" by (cases p) auto
  with feed_all_ok [OF assms(1,2) this] feed_all_ok [OF assms(1,2), of ds os r] assms(3)
  show ?thesis by auto
qed

end

end
