(* ===== verification/Bytes.thy ===== *)
theory Bytes
  imports Prelude
begin

text \<open>
  The bounds-checked record reader and writer of \<open>src/protocol/bytes.ts\<close>, which every
  fixed-layout codec of the protocol layer is written against. A reader is the data and
  the private offset; a method that throws is an error value, a method that succeeds
  returns the advanced reader. The label arguments (\<open>context\<close>, \<open>field\<close>) only reach
  error messages and are left out.
\<close>

section \<open>The reader\<close>

record reader =
  rdata :: bytes
  roffset :: nat

definition validateLength :: "int \<Rightarrow> unit result" where
  "validateLength v = guard_that (is_safe_integer v \<and> 0 \<le> v)
     (RangeError ''length must be a non-negative safe integer'')"

definition reader_new :: "bytes \<Rightarrow> reader" where
  "reader_new bs = \<lparr>rdata = bs, roffset = 0\<rparr>"

definition reader_remaining :: "reader \<Rightarrow> int" where
  "reader_remaining r = int (length (rdata r)) - int (roffset r)"

definition reader_ensure :: "reader \<Rightarrow> int \<Rightarrow> unit result" where
  "reader_ensure r n = rbind (validateLength n) (\<lambda>_.
     guard_that (n \<le> reader_remaining r) (RangeError ''need bytes''))"

definition reader_advance :: "reader \<Rightarrow> nat \<Rightarrow> reader" where
  "reader_advance r n = r\<lparr>roffset := roffset r + n\<rparr>"

definition readUInt8 :: "reader \<Rightarrow> (nat \<times> reader) result" where
  "readUInt8 r = rbind (reader_ensure r 1) (\<lambda>_.
     Inr (be_decode (slice (roffset r) 1 (rdata r)), reader_advance r 1))"

definition readUInt16BE :: "reader \<Rightarrow> (nat \<times> reader) result" where
  "readUInt16BE r = rbind (reader_ensure r 2) (\<lambda>_.
     Inr (be_decode (slice (roffset r) 2 (rdata r)), reader_advance r 2))"

definition readUInt32BE :: "reader \<Rightarrow> (nat \<times> reader) result" where
  "readUInt32BE r = rbind (reader_ensure r 4) (\<lambda>_.
     Inr (be_decode (slice (roffset r) 4 (rdata r)), reader_advance r 4))"

definition readUInt32LE :: "reader \<Rightarrow> (nat \<times> reader) result" where
  "readUInt32LE r = rbind (reader_ensure r 4) (\<lambda>_.
     Inr (le_decode (slice (roffset r) 4 (rdata r)), reader_advance r 4))"

definition readInt32BE :: "reader \<Rightarrow> (int \<times> reader) result" where
  "readInt32BE r = rbind (reader_ensure r 4) (\<lambda>_.
     Inr (to_signed 4 (be_decode (slice (roffset r) 4 (rdata r))), reader_advance r 4))"

definition readInt32LE :: "reader \<Rightarrow> (int \<times> reader) result" where
  "readInt32LE r = rbind (reader_ensure r 4) (\<lambda>_.
     Inr (to_signed 4 (le_decode (slice (roffset r) 4 (rdata r))), reader_advance r 4))"

definition readBytes :: "reader \<Rightarrow> int \<Rightarrow> (bytes \<times> reader) result" where
  "readBytes r n = rbind (reader_ensure r n) (\<lambda>_.
     Inr (slice (roffset r) (nat n) (rdata r), reader_advance r (nat n)))"

definition reader_skip :: "reader \<Rightarrow> int \<Rightarrow> reader result" where
  "reader_skip r n = rbind (reader_ensure r n) (\<lambda>_. Inr (reader_advance r (nat n)))"

definition reader_finish :: "reader \<Rightarrow> unit result" where
  "reader_finish r = guard_that (reader_remaining r = 0) (RangeError ''unread bytes remain'')"

section \<open>The writer\<close>

record writer =
  wdata :: bytes
  woffset :: nat

definition writer_new :: "int \<Rightarrow> writer result" where
  "writer_new n = rbind (validateLength n) (\<lambda>_.
     Inr \<lparr>wdata = replicate (nat n) 0, woffset = 0\<rparr>)"

definition writer_remaining :: "writer \<Rightarrow> int" where
  "writer_remaining w = int (length (wdata w)) - int (woffset w)"

definition writer_ensure :: "writer \<Rightarrow> int \<Rightarrow> unit result" where
  "writer_ensure w n = rbind (validateLength n) (\<lambda>_.
     guard_that (n \<le> writer_remaining w) (RangeError ''need bytes''))"

definition writer_integer :: "int \<Rightarrow> int \<Rightarrow> int \<Rightarrow> unit result" where
  "writer_integer v lo hi = guard_that (is_safe_integer v \<and> lo \<le> v \<and> v \<le> hi)
     (RangeError ''value must be an integer in range'')"

definition writer_put :: "writer \<Rightarrow> bytes \<Rightarrow> writer" where
  "writer_put w bs = w\<lparr>wdata := splice (woffset w) bs (wdata w), woffset := woffset w + length bs\<rparr>"

definition writeUInt8 :: "writer \<Rightarrow> int \<Rightarrow> writer result" where
  "writeUInt8 w v = rbind (writer_integer v 0 0xff) (\<lambda>_.
     rbind (writer_ensure w 1) (\<lambda>_. Inr (writer_put w (be_encode 1 (nat v)))))"

definition writeUInt16BE :: "writer \<Rightarrow> int \<Rightarrow> writer result" where
  "writeUInt16BE w v = rbind (writer_integer v 0 0xffff) (\<lambda>_.
     rbind (writer_ensure w 2) (\<lambda>_. Inr (writer_put w (be_encode 2 (nat v)))))"

definition writeUInt32BE :: "writer \<Rightarrow> int \<Rightarrow> writer result" where
  "writeUInt32BE w v = rbind (writer_integer v 0 0xffffffff) (\<lambda>_.
     rbind (writer_ensure w 4) (\<lambda>_. Inr (writer_put w (be_encode 4 (nat v)))))"

definition writeInt32BE :: "writer \<Rightarrow> int \<Rightarrow> writer result" where
  "writeInt32BE w v = rbind (writer_integer v (- 0x80000000) 0x7fffffff) (\<lambda>_.
     rbind (writer_ensure w 4) (\<lambda>_. Inr (writer_put w (be_encode 4 (from_signed 4 v)))))"

definition writeBytes :: "writer \<Rightarrow> bytes \<Rightarrow> writer result" where
  "writeBytes w bs = rbind (writer_ensure w (int (length bs))) (\<lambda>_. Inr (writer_put w bs))"

definition writer_finish :: "writer \<Rightarrow> bytes result" where
  "writer_finish w = rbind (guard_that (writer_remaining w = 0)
     (RangeError ''unwritten bytes remain'')) (\<lambda>_. Inr (wdata w))"

section \<open>What a reader has left, what a writer has produced\<close>

text \<open>
  The abstract view: a reader is the suffix it has not read, a writer the prefix it has
  written together with its capacity. All codec proofs go through these views.
\<close>

definition unread :: "reader \<Rightarrow> bytes" where
  "unread r = drop (roffset r) (rdata r)"

definition reader_ok :: "reader \<Rightarrow> bool" where
  "reader_ok r \<longleftrightarrow> roffset r \<le> length (rdata r) \<and> int (length (rdata r)) \<le> max_safe_integer"

definition written :: "writer \<Rightarrow> bytes" where
  "written w = take (woffset w) (wdata w)"

definition writer_ok :: "writer \<Rightarrow> bool" where
  "writer_ok w \<longleftrightarrow> woffset w \<le> length (wdata w)"

named_theorems reader_simps
named_theorems writer_simps

lemma validateLength_Inr [simp]:
  "validateLength v = Inr u \<longleftrightarrow> is_safe_integer v \<and> 0 \<le> v"
  by (simp add: validateLength_def)

lemma unread_new [simp]: "unread (reader_new bs) = bs"
  by (simp add: unread_def reader_new_def)

lemma unread_advance [simp]: "unread (reader_advance r n) = drop n (unread r)"
  by (simp add: unread_def reader_advance_def add.commute)

lemma reader_ok_new: "int (length bs) \<le> max_safe_integer \<Longrightarrow> reader_ok (reader_new bs)"
  by (simp add: reader_ok_def reader_new_def)

lemma reader_ok_advance:
  "reader_ok r \<Longrightarrow> n \<le> length (unread r) \<Longrightarrow> reader_ok (reader_advance r n)"
  by (auto simp: reader_ok_def reader_advance_def unread_def)

lemma slice_unread: "slice (roffset r) n (rdata r) = take n (unread r)"
  by (simp add: slice_def unread_def)

text \<open>Fixed-width reads need no invariant: their widths are safe integers.\<close>

lemma reader_ensure_small:
  assumes "0 < n" and "n \<le> 9007199254740991"
  shows "reader_ensure r n = (if nat n \<le> length (unread r) then Inr ()
           else Inl (RangeError ''need bytes''))"
proof -
  have "n \<le> int (length (rdata r)) - int (roffset r) \<longleftrightarrow> nat n \<le> length (unread r)"
    using assms by (auto simp: unread_def)
  then show ?thesis
    using assms by (simp add: reader_ensure_def validateLength_def guard_that_def
        is_safe_integer_def max_safe_integer_def reader_remaining_def)
qed

lemma readUInt8_eq [reader_simps]:
  "readUInt8 r = (if 1 \<le> length (unread r)
     then Inr (be_decode (take 1 (unread r)), reader_advance r 1)
     else Inl (RangeError ''need bytes''))"
  by (simp add: readUInt8_def reader_ensure_small slice_unread)

lemma readUInt16BE_eq [reader_simps]:
  "readUInt16BE r = (if 2 \<le> length (unread r)
     then Inr (be_decode (take 2 (unread r)), reader_advance r 2)
     else Inl (RangeError ''need bytes''))"
  by (simp add: readUInt16BE_def reader_ensure_small slice_unread)

lemma readUInt32BE_eq [reader_simps]:
  "readUInt32BE r = (if 4 \<le> length (unread r)
     then Inr (be_decode (take 4 (unread r)), reader_advance r 4)
     else Inl (RangeError ''need bytes''))"
  by (simp add: readUInt32BE_def reader_ensure_small slice_unread)

lemma readUInt32LE_eq [reader_simps]:
  "readUInt32LE r = (if 4 \<le> length (unread r)
     then Inr (le_decode (take 4 (unread r)), reader_advance r 4)
     else Inl (RangeError ''need bytes''))"
  by (simp add: readUInt32LE_def reader_ensure_small slice_unread)

lemma readInt32BE_eq [reader_simps]:
  "readInt32BE r = (if 4 \<le> length (unread r)
     then Inr (to_signed 4 (be_decode (take 4 (unread r))), reader_advance r 4)
     else Inl (RangeError ''need bytes''))"
  by (simp add: readInt32BE_def reader_ensure_small slice_unread)

lemma readInt32LE_eq [reader_simps]:
  "readInt32LE r = (if 4 \<le> length (unread r)
     then Inr (to_signed 4 (le_decode (take 4 (unread r))), reader_advance r 4)
     else Inl (RangeError ''need bytes''))"
  by (simp add: readInt32LE_def reader_ensure_small slice_unread)

lemma readBytes_eq [reader_simps]:
  assumes "0 < n" and "n \<le> 9007199254740991"
  shows "readBytes r n = (if nat n \<le> length (unread r)
     then Inr (take (nat n) (unread r), reader_advance r (nat n))
     else Inl (RangeError ''need bytes''))"
  using assms by (simp add: readBytes_def reader_ensure_small slice_unread)

lemma reader_finish_eq [reader_simps]:
  assumes "roffset r \<le> length (rdata r)"
  shows "reader_finish r = (if unread r = [] then Inr () else Inl (RangeError ''unread bytes remain''))"
  using assms by (auto simp: reader_finish_def unread_def reader_remaining_def guard_that_def)

text \<open>
  The reader's contract: a successful read of \<open>n\<close> bytes returns exactly the next \<open>n\<close>
  unread bytes and leaves the rest; it fails just when fewer remain.
\<close>

lemma readBytes_nat:
  assumes "reader_ok r"
  shows "readBytes r (int n) = (if n \<le> length (unread r)
     then Inr (take n (unread r), reader_advance r n)
     else Inl (if int n \<le> max_safe_integer then RangeError ''need bytes''
               else RangeError ''length must be a non-negative safe integer''))"
proof (cases "int n \<le> max_safe_integer")
  case True
  then have "reader_ensure r (int n) = (if n \<le> length (unread r) then Inr ()
      else Inl (RangeError ''need bytes''))"
    using assms
    by (auto simp: reader_ensure_def validateLength_def guard_that_def unread_def reader_ok_def
        is_safe_integer_def max_safe_integer_def reader_remaining_def)
  with True show ?thesis by (simp add: readBytes_def slice_unread)
next
  case False
  moreover from False assms have "\<not> n \<le> length (unread r)"
    by (auto simp: reader_ok_def unread_def)
  ultimately show ?thesis
    by (simp add: readBytes_def reader_ensure_def validateLength_def is_safe_integer_def)
qed

lemma readBytes_spec:
  assumes "reader_ok r" and "readBytes r (int n) = Inr (bs, r')"
  shows "unread r = bs @ unread r' \<and> length bs = n \<and> reader_ok r'"
  using assms by (auto simp: readBytes_nat reader_ok_advance split: if_splits)

section \<open>Writing\<close>

text \<open>
  Every writer the code can build has a fixed shape: the bytes written so far, then the
  zeros of the allocation. In this normal form each operation is one rewrite rule.
\<close>

definition writer_at :: "nat \<Rightarrow> bytes \<Rightarrow> writer" where
  "writer_at cap bs = \<lparr>wdata = bs @ replicate (cap - length bs) 0, woffset = length bs\<rparr>"

lemma splice_at_end:
  "length bs + length ys \<le> cap \<Longrightarrow>
     splice (length bs) ys (bs @ replicate (cap - length bs) (0 :: byte)) =
     (bs @ ys) @ replicate (cap - length (bs @ ys)) 0"
  by (simp add: splice_def)

lemma writer_put_at:
  "length bs + length ys \<le> cap \<Longrightarrow> writer_put (writer_at cap bs) ys = writer_at cap (bs @ ys)"
  by (simp add: writer_put_def writer_at_def splice_at_end)

lemma writer_ensure_at:
  "length bs \<le> cap \<Longrightarrow> writer_ensure (writer_at cap bs) n = Inr () \<longleftrightarrow>
     0 \<le> n \<and> n \<le> max_safe_integer \<and> int (length bs) + n \<le> int cap"
  by (auto simp: writer_ensure_def is_safe_integer_def max_safe_integer_def writer_remaining_def
      writer_at_def)

lemma writer_new_at [writer_simps]:
  "0 \<le> n \<Longrightarrow> n \<le> max_safe_integer \<Longrightarrow> writer_new n = Inr (writer_at (nat n) [])"
  by (simp add: writer_new_def writer_at_def validateLength_def guard_that_def is_safe_integer_def
      max_safe_integer_def)

lemma writeUInt8_at [writer_simps]:
  "length bs + 1 \<le> cap \<Longrightarrow> 0 \<le> v \<Longrightarrow> v \<le> 0xff \<Longrightarrow>
     writeUInt8 (writer_at cap bs) v = Inr (writer_at cap (bs @ be_encode 1 (nat v)))"
  by (simp add: writeUInt8_def writer_integer_def is_safe_integer_def max_safe_integer_def
      writer_ensure_at writer_put_at)

lemma writeUInt16BE_at [writer_simps]:
  "length bs + 2 \<le> cap \<Longrightarrow> 0 \<le> v \<Longrightarrow> v \<le> 0xffff \<Longrightarrow>
     writeUInt16BE (writer_at cap bs) v = Inr (writer_at cap (bs @ be_encode 2 (nat v)))"
  by (simp add: writeUInt16BE_def writer_integer_def is_safe_integer_def max_safe_integer_def
      writer_ensure_at writer_put_at)

lemma writeUInt32BE_at [writer_simps]:
  "length bs + 4 \<le> cap \<Longrightarrow> 0 \<le> v \<Longrightarrow> v \<le> 0xffffffff \<Longrightarrow>
     writeUInt32BE (writer_at cap bs) v = Inr (writer_at cap (bs @ be_encode 4 (nat v)))"
  by (simp add: writeUInt32BE_def writer_integer_def is_safe_integer_def max_safe_integer_def
      writer_ensure_at writer_put_at)

lemma writeInt32BE_at [writer_simps]:
  "length bs + 4 \<le> cap \<Longrightarrow> - 0x80000000 \<le> v \<Longrightarrow> v \<le> 0x7fffffff \<Longrightarrow>
     writeInt32BE (writer_at cap bs) v = Inr (writer_at cap (bs @ be_encode 4 (from_signed 4 v)))"
  by (simp add: writeInt32BE_def writer_integer_def is_safe_integer_def max_safe_integer_def
      writer_ensure_at writer_put_at)

lemma writeBytes_at [writer_simps]:
  "length bs + length ys \<le> cap \<Longrightarrow> int (length ys) \<le> max_safe_integer \<Longrightarrow>
     writeBytes (writer_at cap bs) ys = Inr (writer_at cap (bs @ ys))"
  by (simp add: writeBytes_def writer_ensure_at writer_put_at)

lemma writer_finish_at [writer_simps]:
  "length bs \<le> cap \<Longrightarrow> writer_finish (writer_at cap bs) =
     (if length bs = cap then Inr bs else Inl (RangeError ''unwritten bytes remain''))"
  by (auto simp: writer_finish_def writer_at_def writer_remaining_def guard_that_def)

text \<open>Read backwards: when a write to a writer in normal form succeeded, and with what.\<close>

named_theorems writer_invs

lemma writeUInt8_inv [writer_invs]:
  "length bs \<le> cap \<Longrightarrow> writeUInt8 (writer_at cap bs) v = Inr w' \<longleftrightarrow>
     0 \<le> v \<and> v \<le> 0xff \<and> length bs + 1 \<le> cap \<and> w' = writer_at cap (bs @ be_encode 1 (nat v))"
  by (auto simp: writeUInt8_def writer_integer_def writer_ensure_at writer_put_at
      is_safe_integer_def max_safe_integer_def)

lemma writeUInt16BE_inv [writer_invs]:
  "length bs \<le> cap \<Longrightarrow> writeUInt16BE (writer_at cap bs) v = Inr w' \<longleftrightarrow>
     0 \<le> v \<and> v \<le> 0xffff \<and> length bs + 2 \<le> cap \<and> w' = writer_at cap (bs @ be_encode 2 (nat v))"
  by (auto simp: writeUInt16BE_def writer_integer_def writer_ensure_at writer_put_at
      is_safe_integer_def max_safe_integer_def)

lemma writeUInt32BE_inv [writer_invs]:
  "length bs \<le> cap \<Longrightarrow> writeUInt32BE (writer_at cap bs) v = Inr w' \<longleftrightarrow>
     0 \<le> v \<and> v \<le> 0xffffffff \<and> length bs + 4 \<le> cap \<and> w' = writer_at cap (bs @ be_encode 4 (nat v))"
  by (auto simp: writeUInt32BE_def writer_integer_def writer_ensure_at writer_put_at
      is_safe_integer_def max_safe_integer_def)

lemma writeInt32BE_inv [writer_invs]:
  "length bs \<le> cap \<Longrightarrow> writeInt32BE (writer_at cap bs) v = Inr w' \<longleftrightarrow>
     - 0x80000000 \<le> v \<and> v \<le> 0x7fffffff \<and> length bs + 4 \<le> cap \<and>
     w' = writer_at cap (bs @ be_encode 4 (from_signed 4 v))"
  by (auto simp: writeInt32BE_def writer_integer_def writer_ensure_at writer_put_at
      is_safe_integer_def max_safe_integer_def)

lemma writeBytes_inv [writer_invs]:
  "length bs \<le> cap \<Longrightarrow> writeBytes (writer_at cap bs) ys = Inr w' \<longleftrightarrow>
     int (length ys) \<le> max_safe_integer \<and> length bs + length ys \<le> cap \<and> w' = writer_at cap (bs @ ys)"
  by (auto simp: writeBytes_def writer_ensure_at writer_put_at)

lemma writer_new_inv [writer_invs]:
  "writer_new n = Inr w \<longleftrightarrow> 0 \<le> n \<and> n \<le> max_safe_integer \<and> w = writer_at (nat n) []"
  by (auto simp: writer_new_def writer_at_def is_safe_integer_def max_safe_integer_def)

text \<open>The writer's contract: a successful write appends to the prefix and nothing else.\<close>

definition writer_reach :: "nat \<Rightarrow> writer \<Rightarrow> bytes \<Rightarrow> bool" where
  "writer_reach cap w bs \<longleftrightarrow> w = writer_at cap bs \<and> length bs \<le> cap"

lemma writer_step_inversion:
  assumes "writer_reach cap w bs"
  shows "writeUInt8 w v = Inr w' \<Longrightarrow>
      writer_reach cap w' (bs @ be_encode 1 (nat v)) \<and> 0 \<le> v \<and> v \<le> 0xff"
    and "writeUInt16BE w v = Inr w' \<Longrightarrow>
      writer_reach cap w' (bs @ be_encode 2 (nat v)) \<and> 0 \<le> v \<and> v \<le> 0xffff"
    and "writeUInt32BE w v = Inr w' \<Longrightarrow>
      writer_reach cap w' (bs @ be_encode 4 (nat v)) \<and> 0 \<le> v \<and> v \<le> 0xffffffff"
    and "writeInt32BE w v = Inr w' \<Longrightarrow>
      writer_reach cap w' (bs @ be_encode 4 (from_signed 4 v)) \<and> - 0x80000000 \<le> v \<and> v \<le> 0x7fffffff"
    and "writeBytes w ys = Inr w' \<Longrightarrow> writer_reach cap w' (bs @ ys)"
    and "writer_finish w = Inr out \<Longrightarrow> out = bs \<and> length bs = cap"
  using assms
  by (auto simp: writer_reach_def writeUInt8_def writeUInt16BE_def writeUInt32BE_def
      writeInt32BE_def writeBytes_def writer_integer_def writer_ensure_at writer_put_at writer_finish_at
      split: if_splits)

section \<open>Reading what was written\<close>

text \<open>
  A reader between the bytes it has consumed and the bytes ahead; reading an encoded field
  moves the field from one side to the other.
\<close>

definition reader_on :: "bytes \<Rightarrow> bytes \<Rightarrow> reader" where
  "reader_on pre rest = \<lparr>rdata = pre @ rest, roffset = length pre\<rparr>"

named_theorems reader_fields

lemma reader_new_on [reader_fields]: "reader_new bs = reader_on [] bs"
  by (simp add: reader_new_def reader_on_def)

lemma unread_on [simp]: "unread (reader_on pre rest) = rest"
  by (simp add: unread_def reader_on_def)

lemma reader_advance_on [simp]:
  "n \<le> length rest \<Longrightarrow> reader_advance (reader_on pre rest) n = reader_on (pre @ take n rest) (drop n rest)"
  by (simp add: reader_advance_def reader_on_def)

lemma reads_uint8 [reader_fields]:
  "v < 256 \<Longrightarrow> readUInt8 (reader_on pre (be_encode 1 v @ rest)) =
     Inr (v, reader_on (pre @ be_encode 1 v) rest)"
  by (simp add: readUInt8_eq del: be_encode.simps)

lemma reads_uint16 [reader_fields]:
  "v < 65536 \<Longrightarrow> readUInt16BE (reader_on pre (be_encode 2 v @ rest)) =
     Inr (v, reader_on (pre @ be_encode 2 v) rest)"
  by (simp add: readUInt16BE_eq)

lemma reads_uint32 [reader_fields]:
  "v < 4294967296 \<Longrightarrow> readUInt32BE (reader_on pre (be_encode 4 v @ rest)) =
     Inr (v, reader_on (pre @ be_encode 4 v) rest)"
  by (simp add: readUInt32BE_eq)

lemma reads_int32 [reader_fields]:
  assumes "- 0x80000000 \<le> v" and "v \<le> 0x7fffffff"
  shows "readInt32BE (reader_on pre (be_encode 4 (from_signed 4 v) @ rest)) =
     Inr (v, reader_on (pre @ be_encode 4 (from_signed 4 v)) rest)"
proof -
  have "to_signed 4 (from_signed 4 v) = v" using assms by (intro to_from_signed) auto
  moreover have "be_decode (be_encode 4 (from_signed 4 v)) = from_signed 4 v"
    using from_signed_less [of 4 v] by (intro be_decode_encode_id)
  ultimately show ?thesis by (simp add: readInt32BE_eq)
qed

lemma reads_bytes [reader_fields]:
  "0 < n \<Longrightarrow> n \<le> 9007199254740991 \<Longrightarrow> length bs = nat n \<Longrightarrow>
     readBytes (reader_on pre (bs @ rest)) n = Inr (bs, reader_on (pre @ bs) rest)"
  by (simp add: readBytes_eq)

lemma reads_end [reader_fields]: "reader_finish (reader_on pre []) = Inr ()"
  by (simp add: reader_finish_def reader_remaining_def reader_on_def)

text \<open>The same rules where the field is the last one of the record.\<close>

lemmas reads_last [reader_fields] = reads_uint8 [where rest = "[]", unfolded append_Nil2]
  reads_uint16 [where rest = "[]", unfolded append_Nil2]
  reads_uint32 [where rest = "[]", unfolded append_Nil2]
  reads_int32 [where rest = "[]", unfolded append_Nil2]
  reads_bytes [where rest = "[]", unfolded append_Nil2]

lemmas reads_one_byte [reader_fields] = reads_uint8 [unfolded One_nat_def]
  reads_uint8 [where rest = "[]", unfolded append_Nil2 One_nat_def]

declare be_encode.simps(2) [simp del]

end
