(* ===== verification/NiFrame.thy ===== *)
theory NiFrame
  imports Bytes
begin

text \<open>
  SAP's Network Interface framing, \<open>src/protocol/ni.ts\<close>: four-byte big-endian length
  prefixes, and the incremental decoder that keeps the received chunks in a queue (with a
  head index and an offset into the head chunk, compacted now and then) so that partial
  frames cost no copying. The abstract view of a decoder is the byte string it has not
  consumed; the queue operations refine it. Wiping released buffers with zeros is not
  visible in any value the decoder returns and is left out.
\<close>

definition NI_LENGTH_BYTES :: nat where
  "NI_LENGTH_BYTES = 4"

definition DEFAULT_MAX_NI_PAYLOAD_LENGTH :: nat where
  "DEFAULT_MAX_NI_PAYLOAD_LENGTH = 256 * 1024 * 1024"


section \<open>The decoder\<close>

record ni_decoder =
  maxPayloadLength :: nat
  chunks :: "bytes list"
  headIndex :: nat
  headOffset :: nat
  bufferedByteLength :: nat

definition ni_decoder_new :: "int \<Rightarrow> ni_decoder result" where
  "ni_decoder_new m =
     (if \<not> is_safe_integer m \<or> m < 0
      then Inl (RangeError ''maxPayloadLength must be a non-negative safe integer'')
      else Inr \<lparr>maxPayloadLength = nat m, chunks = [], headIndex = 0, headOffset = 0,
                bufferedByteLength = 0\<rparr>)"

text \<open>
  The two queue walks. \<open>take\<close> is computed on integers, as the source does: only a
  corrupted queue could make it negative.
\<close>

function peek_loop :: "bytes list \<Rightarrow> nat \<Rightarrow> nat \<Rightarrow> nat \<Rightarrow> nat \<Rightarrow> nat result" where
  "peek_loop cs chunkIndex chunkOffset v remaining =
     (if remaining = 0 then Inr v
      else if length cs \<le> chunkIndex then Inl (PlainError ''NI decoder queue is inconsistent'')
      else
        let current = cs ! chunkIndex;
            tk = min (int remaining) (int (length current) - int chunkOffset)
        in peek_loop cs (Suc chunkIndex) 0
             (foldl (\<lambda>acc b. acc * 256 + unat b) v (slice chunkOffset (nat tk) current))
             (nat (int remaining - tk)))"
  by pat_completeness auto
termination
  by (relation "measure (\<lambda>(cs, i, off, v, n). length cs - i)") auto

definition peekUInt32BE :: "ni_decoder \<Rightarrow> nat result" where
  "peekUInt32BE d = peek_loop (chunks d) (headIndex d) (headOffset d) 0 NI_LENGTH_BYTES"

function consume_loop :: "bytes list \<Rightarrow> nat \<Rightarrow> nat \<Rightarrow> nat \<Rightarrow> bytes
    \<Rightarrow> (bytes \<times> nat \<times> nat) result" where
  "consume_loop cs hi off need acc =
     (if need = 0 then Inr (acc, hi, off)
      else if length cs \<le> hi then Inl (PlainError ''NI decoder queue is inconsistent'')
      else
        let current = cs ! hi;
            tk = min (int need) (int (length current) - int off);
            off' = nat (int off + tk);
            need' = nat (int need - tk);
            acc' = acc @ slice off (nat tk) current
        in if off' = length current
           then consume_loop cs (Suc hi) 0 need' acc'
           else consume_loop cs hi off' need' acc')"
  by pat_completeness auto
termination
proof (relation "measures [\<lambda>(cs, hi, off, need, acc). length cs - hi,
        \<lambda>(cs, hi, off, need, acc). need]", goal_cases)
  case 1
  show ?case by simp
next
  case (2 cs hi off need acc)
  then have "length cs - Suc hi < length cs - hi" by linarith
  then show ?case by simp
next
  case (3 cs hi off need acc current tk off' need' acc')
  then have "tk = int need" by (simp add: min_def split: if_splits)
  with 3 show ?case by simp
qed

declare peek_loop.simps [simp del] consume_loop.simps [simp del]

definition compactQueue :: "ni_decoder \<Rightarrow> ni_decoder" where
  "compactQueue d =
     (if headIndex d = length (chunks d) then d\<lparr>chunks := [], headIndex := 0\<rparr>
      else if 64 \<le> headIndex d \<and> length (chunks d) \<le> headIndex d * 2
      then d\<lparr>chunks := drop (headIndex d) (chunks d), headIndex := 0\<rparr>
      else d)"

definition ni_consume :: "ni_decoder \<Rightarrow> nat \<Rightarrow> (bytes \<times> ni_decoder) result" where
  "ni_consume d n =
     (if bufferedByteLength d < n
      then Inl (PlainError ''NI decoder attempted to consume beyond its queue'')
      else rbind (consume_loop (chunks d) (headIndex d) (headOffset d) n []) (\<lambda>(bs, hi, off).
        Inr (bs, compactQueue (d\<lparr>headIndex := hi, headOffset := off,
               bufferedByteLength := bufferedByteLength d - n\<rparr>))))"

definition ni_enqueue :: "ni_decoder \<Rightarrow> bytes \<Rightarrow> ni_decoder" where
  "ni_enqueue d chunk =
     (if 0 < length chunk
      then d\<lparr>chunks := chunks d @ [chunk],
             bufferedByteLength := bufferedByteLength d + length chunk\<rparr>
      else d)"


definition ni_reset :: "ni_decoder \<Rightarrow> ni_decoder" where
  "ni_reset d = d\<lparr>chunks := [], headIndex := 0, headOffset := 0, bufferedByteLength := 0\<rparr>"

lemma compactQueue_frame [simp]:
  "bufferedByteLength (compactQueue d) = bufferedByteLength d"
  "maxPayloadLength (compactQueue d) = maxPayloadLength d"
  "headOffset (compactQueue d) = headOffset d"
  by (simp_all add: compactQueue_def)

lemma buffered_consume:
  "ni_consume d n = Inr (bs, d') \<Longrightarrow>
     bufferedByteLength d' = bufferedByteLength d - n \<and> n \<le> bufferedByteLength d \<and>
     maxPayloadLength d' = maxPayloadLength d"
  unfolding ni_consume_def by (fastforce split: if_split_asm)

text \<open>
  The \<open>while\<close> loop of \<open>push\<close>. A call that throws has already queued its chunk, and the
  payloads it had collected are lost with the exception; the state it leaves is returned
  beside the error.
\<close>

function push_loop :: "ni_decoder \<Rightarrow> bytes list \<Rightarrow> bytes list result \<times> ni_decoder" where
  "push_loop d payloads =
     (if bufferedByteLength d < NI_LENGTH_BYTES then (Inr payloads, d)
      else case peekUInt32BE d of
        Inl e \<Rightarrow> (Inl e, d)
      | Inr payloadLength \<Rightarrow>
          if maxPayloadLength d < payloadLength
          then (Inl (RangeError ''NI payload length exceeds configured limit''), d)
          else if bufferedByteLength d < NI_LENGTH_BYTES + payloadLength then (Inr payloads, d)
          else case ni_consume d NI_LENGTH_BYTES of
            Inl e \<Rightarrow> (Inl e, d)
          | Inr (_, d1) \<Rightarrow>
              (case ni_consume d1 payloadLength of
                 Inl e \<Rightarrow> (Inl e, d1)
               | Inr (payload, d2) \<Rightarrow> push_loop d2 (payloads @ [payload])))"
  by pat_completeness simp_all
termination
proof (relation "measure (\<lambda>(d, ps). bufferedByteLength d)", goal_cases)
  case 1
  show ?case by simp
next
  case (2 d ps n p1 u d1 p2 payload d2)
  then have "ni_consume d NI_LENGTH_BYTES = Inr (u, d1)" "ni_consume d1 n = Inr (payload, d2)"
    by simp_all
  from this [THEN buffered_consume] have "bufferedByteLength d2 < bufferedByteLength d"
    by (auto simp: NI_LENGTH_BYTES_def)
  then show ?case by simp
qed

declare push_loop.simps [simp del]

definition ni_push :: "ni_decoder \<Rightarrow> bytes \<Rightarrow> bytes list result \<times> ni_decoder" where
  "ni_push d chunk = push_loop (ni_enqueue d chunk) []"

section \<open>The queue as a byte string\<close>

definition queue_view :: "bytes list \<Rightarrow> nat \<Rightarrow> nat \<Rightarrow> bytes" where
  "queue_view cs hi off = (case drop hi cs of [] \<Rightarrow> [] | c # cs' \<Rightarrow> drop off c @ concat cs')"

definition at_chunk :: "bytes list \<Rightarrow> nat \<Rightarrow> nat \<Rightarrow> bool" where
  "at_chunk cs hi off \<longleftrightarrow> hi \<le> length cs \<and> (\<forall>c \<in> set cs. c \<noteq> []) \<and>
     (if hi = length cs then off = 0 else off < length (cs ! hi))"

lemma queue_view_0 [simp]: "queue_view cs hi 0 = concat (drop hi cs)"
  by (simp add: queue_view_def split: list.split)

lemma queue_view_end [simp]: "length cs \<le> hi \<Longrightarrow> queue_view cs hi off = []"
  by (simp add: queue_view_def)

lemma queue_view_head:
  "hi < length cs \<Longrightarrow> queue_view cs hi off = drop off (cs ! hi) @ concat (drop (Suc hi) cs)"
  by (simp add: queue_view_def Cons_nth_drop_Suc [symmetric])

lemma at_chunk_Suc: "at_chunk cs hi off \<Longrightarrow> hi < length cs \<Longrightarrow> at_chunk cs (Suc hi) 0"
  by (auto simp: at_chunk_def)

lemma int_take_nat: "off \<le> len \<Longrightarrow> nat (min (int n) (int len - int off)) = min n (len - off)"
  by (auto simp: min_def)

lemma peek_loop_view:
  assumes "at_chunk cs hi off" and "n \<le> length (queue_view cs hi off)"
  shows "peek_loop cs hi off v n =
    Inr (foldl (\<lambda>acc b. acc * 256 + unat b) v (take n (queue_view cs hi off)))"
  using assms
proof (induction cs hi off v n rule: peek_loop.induct)
  case (1 cs hi off v n)
  show ?case
  proof (cases "n = 0")
    case True
    then show ?thesis by (simp add: peek_loop.simps)
  next
    case False
    with "1.prems" have hi: "hi < length cs" by (cases "hi < length cs") auto
    with "1.prems"(1) have off: "off \<le> length (cs ! hi)" by (simp add: at_chunk_def)
    let ?tk = "min (int n) (int (length (cs ! hi)) - int off)"
    let ?k = "min n (length (cs ! hi) - off)"
    let ?v = "foldl (\<lambda>acc b. acc * 256 + unat b) v (slice off ?k (cs ! hi))"
    have tk: "nat ?tk = ?k" and rem: "nat (int n - ?tk) = n - ?k"
      using off by (auto simp: min_def)
    have view: "queue_view cs hi off = drop off (cs ! hi) @ concat (drop (Suc hi) cs)"
      using hi by (rule queue_view_head)
    have le: "n - ?k \<le> length (queue_view cs (Suc hi) 0)"
      using "1.prems"(2) view by (auto simp: min_def)
    have IH: "peek_loop cs (Suc hi) 0 ?v (n - ?k) =
        Inr (foldl (\<lambda>acc b. acc * 256 + unat b) ?v (take (n - ?k) (queue_view cs (Suc hi) 0)))"
      using "1.IH" [OF False _ refl refl] hi at_chunk_Suc [OF "1.prems"(1) hi] le
      by (simp add: tk rem)
    have "take n (queue_view cs hi off) = slice off ?k (cs ! hi) @ take (n - ?k) (concat (drop (Suc hi) cs))"
      using view by (auto simp: slice_def min_def)
    with IH hi False show ?thesis
      by (simp add: peek_loop.simps [of cs hi] Let_def tk rem)
  qed
qed

lemma consume_loop_view:
  assumes "at_chunk cs hi off" and "n \<le> length (queue_view cs hi off)"
  shows "\<exists>hi' off'. consume_loop cs hi off n acc = Inr (acc @ take n (queue_view cs hi off), hi', off')
    \<and> at_chunk cs hi' off' \<and> queue_view cs hi' off' = drop n (queue_view cs hi off)"
  using assms
proof (induction cs hi off n acc rule: consume_loop.induct)
  case (1 cs hi off n acc)
  show ?case
  proof (cases "n = 0")
    case True
    with "1.prems" show ?thesis by (simp add: consume_loop.simps)
  next
    case False
    with "1.prems" have hi: "hi < length cs" by (cases "hi < length cs") auto
    with "1.prems"(1) have off: "off < length (cs ! hi)" by (simp add: at_chunk_def)
    let ?tk = "min (int n) (int (length (cs ! hi)) - int off)"
    let ?k = "min n (length (cs ! hi) - off)"
    have tk: "nat ?tk = ?k" and rem: "nat (int n - ?tk) = n - ?k"
      and off': "nat (int off + ?tk) = off + ?k"
      using off by (auto simp: min_def)
    have view: "queue_view cs hi off = drop off (cs ! hi) @ concat (drop (Suc hi) cs)"
      using hi by (rule queue_view_head)
    show ?thesis
    proof (cases "off + ?k = length (cs ! hi)")
      case True
      then have k: "?k = length (cs ! hi) - off" by simp
      then have ge: "length (cs ! hi) - off \<le> n" by linarith
      have le: "n - ?k \<le> length (queue_view cs (Suc hi) 0)"
        using "1.prems"(2) view by (auto simp: min_def)
      have "\<not> length cs \<le> hi" using hi by simp
      from "1.IH"(1) [OF False this refl refl refl refl refl, unfolded tk rem off',
          OF True at_chunk_Suc [OF "1.prems"(1) hi] le]
      obtain hi' off2 where "consume_loop cs (Suc hi) 0 (n - ?k) (acc @ slice off ?k (cs ! hi)) =
            Inr ((acc @ slice off ?k (cs ! hi)) @ take (n - ?k) (queue_view cs (Suc hi) 0), hi', off2)"
          "at_chunk cs hi' off2" "queue_view cs hi' off2 = drop (n - ?k) (queue_view cs (Suc hi) 0)"
        by blast
      moreover have "slice off ?k (cs ! hi) @ take (n - ?k) (concat (drop (Suc hi) cs))
          = take n (queue_view cs hi off)"
        using view k ge by (simp add: slice_def)
      moreover have "drop (n - ?k) (concat (drop (Suc hi) cs)) = drop n (queue_view cs hi off)"
        using view k ge by simp
      moreover have "consume_loop cs hi off n acc =
          consume_loop cs (Suc hi) 0 (n - ?k) (acc @ slice off ?k (cs ! hi))"
        unfolding consume_loop.simps [of cs hi off n acc] Let_def tk rem off'
        using False hi True by simp
      ultimately show ?thesis by simp
    next
      case other: False
      then have k: "?k = n" and lt: "off + n < length (cs ! hi)"
        using off by (auto simp: min_def split: if_splits)
      have "at_chunk cs hi (off + n)"
        using "1.prems"(1) hi lt by (simp add: at_chunk_def)
      moreover have "queue_view cs hi (off + n) = drop n (queue_view cs hi off)"
        using hi lt by (simp add: queue_view_head add.commute)
      moreover have "consume_loop cs hi (off + n) 0 (acc @ slice off n (cs ! hi)) =
          Inr (acc @ slice off n (cs ! hi), hi, off + n)"
        by (simp add: consume_loop.simps)
      moreover have "slice off n (cs ! hi) = take n (queue_view cs hi off)"
        using view lt by (simp add: slice_def)
      moreover have "consume_loop cs hi off n acc =
          consume_loop cs hi (off + n) 0 (acc @ slice off n (cs ! hi))"
        unfolding consume_loop.simps [of cs hi off n acc] Let_def tk rem off' k
        using False hi lt by simp
      ultimately show ?thesis by auto
    qed
  qed
qed

section \<open>Refinement of the decoder\<close>

definition ni_pending :: "ni_decoder \<Rightarrow> bytes" where
  "ni_pending d = queue_view (chunks d) (headIndex d) (headOffset d)"

definition ni_inv :: "nat \<Rightarrow> ni_decoder \<Rightarrow> bool" where
  "ni_inv m d \<longleftrightarrow> maxPayloadLength d = m \<and>
     at_chunk (chunks d) (headIndex d) (headOffset d) \<and>
     bufferedByteLength d = length (ni_pending d)"

text \<open>The specification: what a byte string means as a sequence of NI records.\<close>

function ni_parse :: "nat \<Rightarrow> bytes \<Rightarrow> (bytes list \<times> bytes) result" where
  "ni_parse m bs =
     (if length bs < 4 then Inr ([], bs)
      else if m < be_decode (take 4 bs)
      then Inl (RangeError ''NI payload length exceeds configured limit'')
      else if length bs < 4 + be_decode (take 4 bs) then Inr ([], bs)
      else rbind (ni_parse m (drop (4 + be_decode (take 4 bs)) bs)) (\<lambda>(ps, r).
             Inr (slice 4 (be_decode (take 4 bs)) bs # ps, r)))"
  by pat_completeness auto
termination
  by (relation "measure (\<lambda>(m, bs). length bs)") auto

declare ni_parse.simps [simp del]

lemma ni_inv_new: "ni_decoder_new m = Inr d \<Longrightarrow> ni_inv (nat m) d \<and> ni_pending d = []"
  by (auto simp: ni_decoder_new_def ni_inv_def at_chunk_def ni_pending_def split: if_splits)

lemma ni_inv_reset: "ni_inv m d \<Longrightarrow> ni_inv m (ni_reset d) \<and> ni_pending (ni_reset d) = []"
  by (simp add: ni_reset_def ni_inv_def at_chunk_def ni_pending_def)

lemma ni_inv_enqueue:
  assumes "ni_inv m d"
  shows "ni_inv m (ni_enqueue d c) \<and> ni_pending (ni_enqueue d c) = ni_pending d @ c"
proof (cases "c = []")
  case True
  with assms show ?thesis by (simp add: ni_enqueue_def)
next
  case False
  have "queue_view (chunks d @ [c]) (headIndex d) (headOffset d) =
      queue_view (chunks d) (headIndex d) (headOffset d) @ c"
    using assms by (cases "headIndex d = length (chunks d)")
      (auto simp: ni_inv_def at_chunk_def queue_view_def Cons_nth_drop_Suc [symmetric])
  moreover have "at_chunk (chunks d @ [c]) (headIndex d) (headOffset d)"
    using assms False by (auto simp: ni_inv_def at_chunk_def nth_append split: if_splits)
  ultimately show ?thesis
    using assms False by (simp add: ni_enqueue_def ni_inv_def ni_pending_def)
qed

lemma compactQueue_pending:
  assumes "at_chunk (chunks d) (headIndex d) (headOffset d)"
  shows "ni_pending (compactQueue d) = ni_pending d \<and>
    at_chunk (chunks (compactQueue d)) (headIndex (compactQueue d)) (headOffset (compactQueue d))"
proof -
  have "c \<noteq> []" if "c \<in> set (drop (headIndex d) (chunks d))" for c
    using assms in_set_dropD [OF that] by (simp add: at_chunk_def)
  with assms show ?thesis
    by (auto simp: compactQueue_def ni_pending_def at_chunk_def queue_view_def split: list.split)
qed

lemma ni_peek_pending:
  assumes "ni_inv m d" and "4 \<le> length (ni_pending d)"
  shows "peekUInt32BE d = Inr (be_decode (take 4 (ni_pending d)))"
  using assms peek_loop_view [of "chunks d" "headIndex d" "headOffset d" 4 0]
  by (simp add: ni_inv_def peekUInt32BE_def NI_LENGTH_BYTES_def ni_pending_def be_decode_def)

lemma ni_consume_pending:
  assumes "ni_inv m d" and "n \<le> length (ni_pending d)"
  shows "\<exists>d'. ni_consume d n = Inr (take n (ni_pending d), d') \<and>
    ni_pending d' = drop n (ni_pending d) \<and> ni_inv m d'"
proof -
  from assms consume_loop_view [of "chunks d" "headIndex d" "headOffset d" n "[]"]
  obtain hi off where c: "consume_loop (chunks d) (headIndex d) (headOffset d) n [] =
        Inr (take n (ni_pending d), hi, off)"
      "at_chunk (chunks d) hi off" "queue_view (chunks d) hi off = drop n (ni_pending d)"
    by (auto simp: ni_inv_def ni_pending_def)
  let ?d = "d\<lparr>headIndex := hi, headOffset := off, bufferedByteLength := bufferedByteLength d - n\<rparr>"
  from c have "at_chunk (chunks ?d) (headIndex ?d) (headOffset ?d)"
      "ni_pending ?d = drop n (ni_pending d)" by (simp_all add: ni_pending_def)
  with compactQueue_pending [of ?d] assms c show ?thesis
    by (auto simp: ni_consume_def ni_inv_def)
qed

lemma push_loop_refines:
  assumes "ni_inv m d"
  shows "case ni_parse m (ni_pending d) of
      Inl e \<Rightarrow> fst (push_loop d ps) = Inl e
    | Inr (qs, r) \<Rightarrow> \<exists>d'. push_loop d ps = (Inr (ps @ qs), d') \<and> ni_pending d' = r \<and> ni_inv m d'"
  using assms
proof (induction "m" "ni_pending d" arbitrary: d ps rule: ni_parse.induct)
  case (1 m)
  let ?bs = "ni_pending d" and ?n = "be_decode (take 4 (ni_pending d))"
  have buf: "bufferedByteLength d = length ?bs" and max: "maxPayloadLength d = m"
    using "1.prems" by (simp_all add: ni_inv_def)
  note unf = push_loop.simps [of d ps] ni_parse.simps [of m ?bs] NI_LENGTH_BYTES_def
  show ?case
  proof (cases "length ?bs < 4")
    case True
    with "1.prems" buf show ?thesis by (simp add: unf)
  next
    case False
    then have peek: "peekUInt32BE d = Inr ?n" using "1.prems" by (simp add: ni_peek_pending)
    show ?thesis
    proof (cases "m < ?n \<or> length ?bs < 4 + ?n")
      case True
      with False "1.prems" buf max peek show ?thesis by (auto simp: unf)
    next
      case enough: False
      obtain d1 where d1: "ni_consume d 4 = Inr (take 4 ?bs, d1)"
          "ni_pending d1 = drop 4 ?bs" "ni_inv m d1"
        using ni_consume_pending [OF "1.prems", of 4] False by auto
      have "?n \<le> length (ni_pending d1)" unfolding d1(2) length_drop using enough by linarith
      from ni_consume_pending [OF d1(3) this] obtain d2
        where d2: "ni_consume d1 ?n = Inr (slice 4 ?n ?bs, d2)"
          "ni_pending d2 = drop (4 + ?n) ?bs" "ni_inv m d2"
        unfolding d1(2) slice_def drop_drop by (metis add.commute)
      have step: "push_loop d ps = push_loop d2 (ps @ [slice 4 ?n ?bs])"
        using False enough buf max peek d1(1) d2(1) by (simp add: unf)
      from "1.hyps" [OF _ _ _ d2(2) [symmetric] d2(3), of "ps @ [slice 4 ?n ?bs]"] False enough
      show ?thesis
        by (auto simp: step ni_parse.simps [of m ?bs] d2(2) rbind_def split: sum.splits prod.splits)
    qed
  qed
qed

section \<open>The stream interface\<close>








text \<open>C38. The decoder refines the whole-buffer meaning of the stream: from any reachable
  decoder state, one \<open>push\<close> returns exactly the complete records in the unconsumed bytes
  followed by the chunk, keeps the incomplete tail, and rejects an announced length above
  the limit with the range error, before any of that record is buffered for return.\<close>

theorem ni_push_refines:
  assumes "ni_inv m d"
  shows "case ni_parse m (ni_pending d @ chunk) of
      Inl e \<Rightarrow> fst (ni_push d chunk) = Inl e
    | Inr (payloads, rest) \<Rightarrow> \<exists>d'. ni_push d chunk = (Inr payloads, d') \<and>
        ni_pending d' = rest \<and> ni_inv m d'"
proof -
  have inv: "ni_inv m (ni_enqueue d chunk)"
    and view: "ni_pending (ni_enqueue d chunk) = ni_pending d @ chunk"
    using ni_inv_enqueue [OF assms, of chunk] by auto
  show ?thesis
    using push_loop_refines [OF inv, of "[]"] unfolding view ni_push_def append_Nil .
qed

lemma ni_push_refines_witness:
  "\<exists>d d'. ni_inv 8 d \<and> ni_push d [0, 0, 0, 1, 5, 0] = (Inr [[5]], d') \<and> ni_pending d' = [0]"
proof -
  obtain d where "ni_decoder_new 8 = Inr d"
    by (simp add: ni_decoder_new_def is_safe_integer_def max_safe_integer_def)
  then have inv: "ni_inv 8 d" and "ni_pending d = []"
    using ni_inv_new [of 8 d] by auto
  moreover have "ni_parse 8 [0, 0, 0, 1, 5, 0] = Inr ([[5]], [0])"
    by (simp add: ni_parse.simps be_decode_def slice_def)
  ultimately show ?thesis
    using ni_push_refines [OF inv, of "[0, 0, 0, 1, 5, 0]"] by auto
qed

end
