(* ===== verification/Lz4Block.thy ===== *)
theory Lz4Block
  imports Bytes
begin

text \<open>
  The LZ4 block codec of \<open>src/protocol/lz4-block.ts\<close>: the hardened decoder and the greedy,
  deterministic encoder with its 65536-entry hash table. Offsets into the compressed source
  are kept as the unread suffix, the output buffer as the bytes produced so far; wiping
  buffers after use is left out.
\<close>

definition MAX_LZ4_BLOCK_LENGTH :: nat where
  "MAX_LZ4_BLOCK_LENGTH = 16 * 1024 * 1024"

definition MAX_LZ4_ENCODED_BLOCK_LENGTH :: nat where
  "MAX_LZ4_ENCODED_BLOCK_LENGTH = MAX_LZ4_BLOCK_LENGTH + MAX_LZ4_BLOCK_LENGTH div 255 + 16"

abbreviation lz4_error :: "string \<Rightarrow> js_error" where
  "lz4_error code \<equiv> CodedError ''Lz4BlockDecodeError'' code"

abbreviation lz4_encode_error :: "string \<Rightarrow> js_error" where
  "lz4_encode_error code \<equiv> CodedError ''Lz4BlockEncodeError'' code"

section \<open>Limits\<close>

definition lz4_boundedLength :: "int \<Rightarrow> nat \<Rightarrow> string \<Rightarrow> nat result" where
  "lz4_boundedLength v maximum maximumCode =
     (if \<not> is_safe_integer v \<or> v < 0 then Inl (lz4_error ''INVALID_LENGTH'')
      else if int maximum < v then Inl (lz4_error maximumCode)
      else Inr (nat v))"

definition lz4_configuredLimit :: "int option \<Rightarrow> nat \<Rightarrow> nat \<Rightarrow> nat result" where
  "lz4_configuredLimit v fallback maximum =
    (let limit = (case v of None \<Rightarrow> int fallback | Some l \<Rightarrow> l)
     in if \<not> is_safe_integer limit \<or> limit < 0 \<or> int maximum < limit
        then Inl (lz4_error ''INVALID_LENGTH'') else Inr (nat limit))"

definition lz4_configuredEncodeLimit :: "int option \<Rightarrow> nat \<Rightarrow> nat \<Rightarrow> nat result" where
  "lz4_configuredEncodeLimit v fallback maximum =
    (let limit = (case v of None \<Rightarrow> int fallback | Some l \<Rightarrow> l)
     in if \<not> is_safe_integer limit \<or> limit < 0 \<or> int maximum < limit
        then Inl (lz4_encode_error ''INVALID_LENGTH'') else Inr (nat limit))"

section \<open>Decoder\<close>

text \<open>The \<open>while (true)\<close> loop of \<open>readExtendedLength\<close>, then the function itself.\<close>

fun lz4_extension :: "nat \<Rightarrow> nat \<Rightarrow> bytes \<Rightarrow> (nat \<times> bytes) result" where
  "lz4_extension maxOut len [] = Inl (lz4_error ''TRUNCATED_INPUT'')"
| "lz4_extension maxOut len (extension # src) =
    (let len' = len + unat extension
     in if \<not> is_safe_integer (int len') \<or> maxOut < len'
        then Inl (lz4_error ''OUTPUT_OVERRUN'')
        else if extension \<noteq> 0xff then Inr (len', src)
        else lz4_extension maxOut len' src)"

definition lz4_readExtendedLength :: "nat \<Rightarrow> nat \<Rightarrow> bytes \<Rightarrow> (nat \<times> bytes) result" where
  "lz4_readExtendedLength maxOut base src =
     (if base \<noteq> 15 then Inr (base, src) else lz4_extension maxOut base src)"

text \<open>Byte-by-byte match copy: each byte may have been produced by this very copy.\<close>

fun lz4_copyMatch :: "nat \<Rightarrow> nat \<Rightarrow> bytes \<Rightarrow> bytes" where
  "lz4_copyMatch 0 matchOffset out = out"
| "lz4_copyMatch (Suc n) matchOffset out =
     lz4_copyMatch n matchOffset (out @ [out ! (length out - matchOffset)])"

lemma lz4_extension_shorter:
  "lz4_extension maxOut len src = Inr (l, src') \<Longrightarrow> length src' < length src"
  by (induction maxOut len src rule: lz4_extension.induct) (auto simp: Let_def split: if_splits)

lemma lz4_readExtendedLength_shorter:
  "lz4_readExtendedLength maxOut base src = Inr (l, src') \<Longrightarrow> length src' \<le> length src"
  using lz4_extension_shorter by (auto simp: lz4_readExtendedLength_def split: if_splits intro: less_imp_le)

function lz4_loop :: "nat \<Rightarrow> nat \<Rightarrow> bytes \<Rightarrow> bytes \<Rightarrow> bytes result" where
  "lz4_loop maxOut outLen src out =
    (case src of
       [] \<Rightarrow> Inr out
     | token # src1 \<Rightarrow>
       (case lz4_readExtendedLength maxOut (unat token div 16) src1 of
          Inl e \<Rightarrow> Inl e
        | Inr (literalLength, src2) \<Rightarrow>
          if length src2 < literalLength then Inl (lz4_error ''TRUNCATED_INPUT'')
          else if int outLen - int (length out) < int literalLength
          then Inl (lz4_error ''OUTPUT_OVERRUN'')
          else let out1 = out @ take literalLength src2; src3 = drop literalLength src2
          in if src3 = [] then Inr out1
          else if length src3 < 2 then Inl (lz4_error ''TRUNCATED_INPUT'')
          else let matchOffset = le_decode (take 2 src3); src4 = drop 2 src3
          in if matchOffset = 0 \<or> length out1 < matchOffset
          then Inl (lz4_error ''INVALID_OFFSET'')
          else (case lz4_readExtendedLength maxOut (unat token mod 16) src4 of
             Inl e \<Rightarrow> Inl e
           | Inr (m, src5) \<Rightarrow>
             if int outLen - int (length out1) < int (m + 4)
             then Inl (lz4_error ''OUTPUT_OVERRUN'')
             else lz4_loop maxOut outLen src5 (lz4_copyMatch (m + 4) matchOffset out1))))"
  by pat_completeness auto
termination
  by (relation "measure (\<lambda>(maxOut, outLen, src, out). length src)")
     (auto dest!: lz4_readExtendedLength_shorter)

declare lz4_loop.simps [simp del]

definition decodeLz4Block :: "bytes \<Rightarrow> int \<Rightarrow> int option \<Rightarrow> int option \<Rightarrow> bytes result" where
  "decodeLz4Block input outputLength optMaxInput optMaxOutput =
     rbind (lz4_configuredLimit optMaxInput MAX_LZ4_ENCODED_BLOCK_LENGTH MAX_LZ4_ENCODED_BLOCK_LENGTH)
       (\<lambda>maxIn.
     rbind (lz4_configuredLimit optMaxOutput MAX_LZ4_BLOCK_LENGTH MAX_LZ4_BLOCK_LENGTH) (\<lambda>maxOut.
     rbind (lz4_boundedLength (int (length input)) maxIn ''INPUT_LIMIT_EXCEEDED'') (\<lambda>_.
     rbind (lz4_boundedLength outputLength maxOut ''OUTPUT_LIMIT_EXCEEDED'') (\<lambda>outLen.
     if input = [] then Inl (lz4_error ''TRUNCATED_INPUT'')
     else rbind (lz4_loop maxOut outLen input []) (\<lambda>out.
       if length out \<noteq> outLen then Inl (lz4_error ''OUTPUT_LENGTH_MISMATCH'') else Inr out)))))"

section \<open>Encoder\<close>

definition encodedLengthBound :: "nat \<Rightarrow> nat" where
  "encodedLengthBound n = (if n = 0 then 1 else n + n div 255 + 16)"

text \<open>\<open>requireOutput\<close> followed by the write it guards.\<close>

definition lz4_put :: "nat \<Rightarrow> bytes \<Rightarrow> bytes \<Rightarrow> bytes result" where
  "lz4_put cap out bs =
     (if int cap - int (length out) < int (length bs)
      then Inl (lz4_encode_error ''OUTPUT_LIMIT_EXCEEDED'') else Inr (out @ bs))"

fun lz4_writeRemainder :: "nat \<Rightarrow> nat \<Rightarrow> bytes \<Rightarrow> bytes result" where
  "lz4_writeRemainder cap remainder out =
     (if 0xff \<le> remainder
      then rbind (lz4_put cap out [0xff]) (lz4_writeRemainder cap (remainder - 0xff))
      else lz4_put cap out [word_of_nat remainder])"

declare lz4_writeRemainder.simps [simp del]

definition lz4_writeExtendedLength :: "nat \<Rightarrow> nat \<Rightarrow> bytes \<Rightarrow> bytes result" where
  "lz4_writeExtendedLength cap len out =
     (if len < 15 then Inr out else lz4_writeRemainder cap (len - 15) out)"

definition lz4_writeSource :: "nat \<Rightarrow> bytes \<Rightarrow> nat \<Rightarrow> nat \<Rightarrow> bytes \<Rightarrow> bytes result" where
  "lz4_writeSource cap source start len out = lz4_put cap out (slice start len source)"

text \<open>\<open>Math.imul(readUInt32LE(offset), 0x9e3779b1) >>> 16\<close>: a 32-bit product, then its top half.\<close>

definition lz4_read32 :: "bytes \<Rightarrow> nat \<Rightarrow> nat" where
  "lz4_read32 source off = le_decode (slice off 4 source)"

definition lz4_hashAt :: "bytes \<Rightarrow> nat \<Rightarrow> nat" where
  "lz4_hashAt source off =
     unat (drop_bit 16 (word_of_nat (lz4_read32 source off) * 0x9e3779b1 :: 32 word))"

function lz4_extendMatch :: "bytes \<Rightarrow> nat \<Rightarrow> nat \<Rightarrow> nat \<Rightarrow> nat" where
  "lz4_extendMatch source candidate position matchLength =
     (if int position + int matchLength < int (length source) - 5 \<and>
         source ! (candidate + matchLength) = source ! (position + matchLength)
      then lz4_extendMatch source candidate position (matchLength + 1)
      else matchLength)"
  by pat_completeness auto
termination
  by (relation "measure (\<lambda>(source, c, p, m). length source - (p + m))") auto

declare lz4_extendMatch.simps [simp del]

text \<open>The hash table is a total function; a slot that was never written holds -1.\<close>

type_synonym lz4_table = "nat \<Rightarrow> int"

function lz4_updateTable :: "bytes \<Rightarrow> nat \<Rightarrow> nat \<Rightarrow> lz4_table \<Rightarrow> lz4_table" where
  "lz4_updateTable source position update t =
     (if update < position \<and> update + 4 \<le> length source
      then lz4_updateTable source position (update + 1) (t(lz4_hashAt source update := int update))
      else t)"
  by pat_completeness auto
termination
  by (relation "measure (\<lambda>(source, p, u, t). p - u)") auto

declare lz4_updateTable.simps [simp del]

text \<open>The token and the payload of one sequence that ends in a match.\<close>

definition lz4_writeSequence :: "nat \<Rightarrow> bytes \<Rightarrow> nat \<Rightarrow> nat \<Rightarrow> nat \<Rightarrow> nat \<Rightarrow> bytes \<Rightarrow> bytes result" where
  "lz4_writeSequence cap source anchor position distance matchLength out =
    (let literalLength = position - anchor; encodedMatchLength = matchLength - 4
     in rbind (lz4_put cap out [word_of_nat (min literalLength 15 * 16 + min encodedMatchLength 15)]) (\<lambda>out.
        rbind (lz4_writeExtendedLength cap literalLength out) (\<lambda>out.
        rbind (lz4_writeSource cap source anchor literalLength out) (\<lambda>out.
        rbind (lz4_put cap out (le_encode 2 distance)) (\<lambda>out.
        lz4_writeExtendedLength cap encodedMatchLength out)))))"

lemma lz4_extendMatch_ge: "m \<le> lz4_extendMatch source c p m"
proof (induction source c p m rule: lz4_extendMatch.induct)
  case (1 source c p m)
  then show ?case
    by (subst lz4_extendMatch.simps) (auto simp del: of_nat_add)
qed

function lz4_encodeLoop :: "nat \<Rightarrow> bytes \<Rightarrow> nat \<Rightarrow> nat \<Rightarrow> lz4_table \<Rightarrow> bytes
    \<Rightarrow> (nat \<times> bytes) result" where
  "lz4_encodeLoop cap source anchor position t out =
     (if int position \<le> int (length source) - 12
      then
        let hash = lz4_hashAt source position;
            candidate = t hash;
            t1 = t(hash := int position);
            distance = int position - candidate
        in if candidate < 0 \<or> 0xffff < distance \<or>
              lz4_read32 source (nat candidate) \<noteq> lz4_read32 source position
           then lz4_encodeLoop cap source anchor (position + 1) t1 out
           else
             let matchLength = lz4_extendMatch source (nat candidate) position 4
             in (case lz4_writeSequence cap source anchor position (nat distance) matchLength out of
                   Inl e \<Rightarrow> Inl e
                 | Inr out1 \<Rightarrow>
                     lz4_encodeLoop cap source (position + matchLength) (position + matchLength)
                       (lz4_updateTable source (position + matchLength) (position + 1) t1) out1)
      else Inr (anchor, out))"
  by pat_completeness auto
termination
proof (relation "measure (\<lambda>(cap, source, a, p, t, out). length source - p)", goal_cases)
  case 1
  show ?case by simp
next
  case 2
  then show ?case by simp
next
  case (3 cap source a p t out h c t1 d m x)
  then show ?case using lz4_extendMatch_ge [of 4 source "nat c" p] by auto
qed

declare lz4_encodeLoop.simps [simp del]

definition encodeLz4Block :: "bytes \<Rightarrow> int option \<Rightarrow> int option \<Rightarrow> bytes result" where
  "encodeLz4Block source optMaxInput optMaxOutput =
     rbind (lz4_configuredEncodeLimit optMaxInput MAX_LZ4_BLOCK_LENGTH MAX_LZ4_BLOCK_LENGTH) (\<lambda>maxIn.
     rbind (lz4_configuredEncodeLimit optMaxOutput MAX_LZ4_ENCODED_BLOCK_LENGTH
       MAX_LZ4_ENCODED_BLOCK_LENGTH) (\<lambda>maxOut.
     if maxIn < length source then Inl (lz4_encode_error ''INPUT_LIMIT_EXCEEDED'')
     else let cap = min (encodedLengthBound (length source)) maxOut
     in if source = [] then lz4_put cap [] [0]
     else rbind (lz4_encodeLoop cap source 0 0 (\<lambda>_. - 1) []) (\<lambda>(anchor, out).
       let finalLiteralLength = length source - anchor
       in rbind (lz4_put cap out [word_of_nat (min finalLiteralLength 15 * 16)]) (\<lambda>out.
          rbind (lz4_writeExtendedLength cap finalLiteralLength out) (\<lambda>out.
          lz4_writeSource cap source anchor finalLiteralLength out)))))"

section \<open>What the encoder emits\<close>

definition lz4_ext_bytes :: "nat \<Rightarrow> bytes" where
  "lz4_ext_bytes len = (if len < 15 then []
     else replicate ((len - 15) div 255) 0xff @ [word_of_nat ((len - 15) mod 255)])"

definition lz4_seq_bytes :: "bytes \<Rightarrow> nat \<Rightarrow> nat \<Rightarrow> bytes" where
  "lz4_seq_bytes lits distance matchLength =
     [word_of_nat (min (length lits) 15 * 16 + min (matchLength - 4) 15)] @
     lz4_ext_bytes (length lits) @ lits @ le_encode 2 distance @ lz4_ext_bytes (matchLength - 4)"

definition lz4_last_bytes :: "bytes \<Rightarrow> bytes" where
  "lz4_last_bytes lits =
     [word_of_nat (min (length lits) 15 * 16)] @ lz4_ext_bytes (length lits) @ lits"

lemma lz4_put_Inr [simp]:
  "lz4_put cap out bs = Inr out' \<longleftrightarrow> out' = out @ bs \<and> length out + length bs \<le> cap"
  by (auto simp: lz4_put_def)

lemma lz4_put_put:
  "rbind (lz4_put cap out a) (\<lambda>out. lz4_put cap out b) = lz4_put cap out (a @ b)"
  by (simp add: lz4_put_def)

lemma lz4_writeRemainder_put:
  "lz4_writeRemainder cap r out =
     lz4_put cap out (replicate (r div 255) 0xff @ [word_of_nat (r mod 255)])"
proof (induction cap r out rule: lz4_writeRemainder.induct)
  case (1 cap r out)
  show ?case
  proof (cases "255 \<le> r")
    case True
    then have "r div 255 = Suc ((r - 255) div 255)" and "r mod 255 = (r - 255) mod 255"
      by (auto simp: le_div_geq le_mod_geq)
    with True "1.IH" show ?thesis
      by (simp add: lz4_writeRemainder.simps [of cap r] lz4_put_def rbind_def)
  next
    case False
    then show ?thesis by (simp add: lz4_writeRemainder.simps)
  qed
qed

lemma lz4_writeExtendedLength_put:
  "length out \<le> cap \<Longrightarrow> lz4_writeExtendedLength cap len out = lz4_put cap out (lz4_ext_bytes len)"
  by (simp add: lz4_writeExtendedLength_def lz4_ext_bytes_def lz4_writeRemainder_put lz4_put_def)

text \<open>A guarded write followed by further guarded writes is one guarded write.\<close>

lemma lz4_put_bind:
  assumes "\<And>o'. length o' \<le> cap \<Longrightarrow> f o' = lz4_put cap o' b"
  shows "rbind (lz4_put cap out a) f = lz4_put cap out (a @ b)"
proof (cases "int cap - int (length out) < int (length a)")
  case True
  then show ?thesis by (simp add: lz4_put_def)
next
  case False
  then have "length (out @ a) \<le> cap" by simp
  with False show ?thesis by (simp add: assms lz4_put_def)
qed

lemma lz4_writeSequence_put:
  assumes "anchor \<le> position" and "position \<le> length source"
  shows "lz4_writeSequence cap source anchor position distance matchLength out =
    lz4_put cap out (lz4_seq_bytes (slice anchor (position - anchor) source) distance matchLength)"
proof -
  have len: "length (slice anchor (position - anchor) source) = position - anchor"
    using assms by simp
  show ?thesis
    unfolding lz4_writeSequence_def lz4_seq_bytes_def len Let_def lz4_writeSource_def
    by (intro lz4_put_bind lz4_writeExtendedLength_put | simp add: lz4_writeExtendedLength_put lz4_put_bind)+
qed

lemma lz4_writeLast_put:
  assumes "anchor \<le> length source"
  shows "rbind (lz4_put cap out [word_of_nat (min (length source - anchor) 15 * 16)]) (\<lambda>out.
      rbind (lz4_writeExtendedLength cap (length source - anchor) out) (\<lambda>out.
      lz4_writeSource cap source anchor (length source - anchor) out)) =
    lz4_put cap out (lz4_last_bytes (slice anchor (length source - anchor) source))"
proof -
  have len: "length (slice anchor (length source - anchor) source) = length source - anchor"
    using assms by simp
  show ?thesis
    unfolding lz4_last_bytes_def len lz4_writeSource_def
    by (intro lz4_put_bind lz4_writeExtendedLength_put | simp add: lz4_writeExtendedLength_put lz4_put_bind)+
qed

section \<open>Reading the emitted bytes back\<close>

lemma lz4_extension_reads:
  assumes "len + 255 * k + r \<le> maxOut" and "r < 255" and "int maxOut \<le> max_safe_integer"
  shows "lz4_extension maxOut len (replicate k 0xff @ word_of_nat r # rest) = Inr (len + 255 * k + r, rest)"
  using assms(1)
proof (induction k arbitrary: len)
  case 0
  have "(word_of_nat r :: byte) \<noteq> 0xff"
  proof
    assume "(word_of_nat r :: byte) = 0xff"
    then have "unat (word_of_nat r :: byte) = unat (0xff :: byte)" by simp
    with assms(2) show False by simp
  qed
  with 0 assms show ?case
    by (simp add: Let_def is_safe_integer_def max_safe_integer_def)
next
  case (Suc k)
  have ff: "unat (0xff :: byte) = 255" by simp
  from Suc.prems assms(3) have "len + 255 \<le> maxOut" "int (len + 255) \<le> max_safe_integer" by auto
  moreover have "lz4_extension maxOut (len + 255) (replicate k 0xff @ word_of_nat r # rest) =
      Inr (len + 255 * Suc k + r, rest)"
    using Suc.IH [of "len + 255"] Suc.prems by (simp add: algebra_simps)
  ultimately show ?case
    by (simp only: replicate_Suc append_Cons lz4_extension.simps ff Let_def)
      (simp add: is_safe_integer_def max_safe_integer_def)
qed

lemma lz4_readExtendedLength_reads:
  assumes "len \<le> maxOut" and "int maxOut \<le> max_safe_integer"
  shows "lz4_readExtendedLength maxOut (min len 15) (lz4_ext_bytes len @ rest) = Inr (len, rest)"
proof (cases "len < 15")
  case True
  then show ?thesis by (simp add: lz4_readExtendedLength_def lz4_ext_bytes_def)
next
  case False
  have "15 + 255 * ((len - 15) div 255) + (len - 15) mod 255 = len"
    using False by simp
  with False assms lz4_extension_reads [of 15 "(len - 15) div 255" "(len - 15) mod 255" maxOut rest]
  show ?thesis by (simp add: lz4_readExtendedLength_def lz4_ext_bytes_def)
qed

lemma lz4_copyMatch_take:
  assumes "0 < d" and "d \<le> p" and "p + n \<le> length src"
    and "\<forall>i < n. src ! (p - d + i) = src ! (p + i)"
  shows "lz4_copyMatch n d (take p src) = take (p + n) src"
  using assms(2-4)
proof (induction n arbitrary: p)
  case 0
  then show ?case by simp
next
  case (Suc n)
  have "take p src @ [take p src ! (p - d)] = take (Suc p) src"
    using Suc.prems assms(1) spec [OF Suc.prems(3), of 0]
    by (simp add: take_Suc_conv_app_nth)
  moreover have "\<forall>i < n. src ! (Suc p - d + i) = src ! (Suc p + i)"
  proof (intro allI impI)
    fix i
    assume "i < n"
    with Suc.prems(3) have "src ! (p - d + Suc i) = src ! (p + Suc i)" by blast
    then show "src ! (Suc p - d + i) = src ! (Suc p + i)"
      using Suc.prems(1) by (simp add: Suc_diff_le)
  qed
  ultimately show ?case
    using Suc.IH [of "Suc p"] Suc.prems by simp
qed

lemma lz4_token_split:
  assumes "a \<le> 15" and "b \<le> 15"
  shows "unat (word_of_nat (a * 16 + b) :: byte) div 16 = a"
    and "unat (word_of_nat (a * 16 + b) :: byte) mod 16 = b"
proof -
  have "a * 16 + b < 256" using assms by linarith
  then have "unat (word_of_nat (a * 16 + b) :: byte) = a * 16 + b"
    by (simp only: unat_word_of_nat_byte mod_less)
  with assms show "unat (word_of_nat (a * 16 + b) :: byte) div 16 = a"
    and "unat (word_of_nat (a * 16 + b) :: byte) mod 16 = b" by simp_all
qed

lemma lz4_loop_sequence:
  assumes "a + length lits = p" and "slice a (length lits) src = lits"
    and "0 < d" and "d \<le> p" and "d < 65536" and "4 \<le> m" and "p + m \<le> length src"
    and "\<forall>i < m. src ! (p - d + i) = src ! (p + i)"
    and "length src \<le> maxOut" and "int maxOut \<le> max_safe_integer"
  shows "lz4_loop maxOut (length src) (lz4_seq_bytes lits d m @ rest) (take a src) =
    lz4_loop maxOut (length src) rest (take (p + m) src)"
proof -
  have lits: "take a src @ lits = take p src"
    using assms(1,2,7) slice_append_take [of a "length lits" src] by simp
  have len_lits: "length lits \<le> maxOut" "m - 4 \<le> maxOut" using assms by auto
  have d: "le_decode (le_encode 2 d) = d" using assms(5) by simp
  have copy: "lz4_copyMatch m d (take p src) = take (p + m) src"
    using assms by (intro lz4_copyMatch_take) auto
  define tk :: byte where "tk = word_of_nat (min (length lits) 15 * 16 + min (m - 4) 15)"
  have tok: "unat tk div 16 = min (length lits) 15" "unat tk mod 16 = min (m - 4) 15"
    unfolding tk_def by (rule lz4_token_split; simp)+
  have nonempty: "le_encode 2 d \<noteq> []" by (simp add: byte_eval)
  have seq: "lz4_seq_bytes lits d m @ rest =
      tk # lz4_ext_bytes (length lits) @ lits @ le_encode 2 d @ lz4_ext_bytes (m - 4) @ rest"
    by (simp add: lz4_seq_bytes_def tk_def)
  show ?thesis
    unfolding seq
    using assms(1,3-7) copy
    by (subst lz4_loop.simps)
      (simp add: tok lits d nonempty Let_def lz4_readExtendedLength_reads [OF len_lits(1) assms(10)]
        lz4_readExtendedLength_reads [OF len_lits(2) assms(10)])
qed

lemma lz4_loop_last:
  assumes "slice a (length lits) src = lits" and "a + length lits = length src"
    and "length src \<le> maxOut" and "int maxOut \<le> max_safe_integer"
  shows "lz4_loop maxOut (length src) (lz4_last_bytes lits) (take a src) = Inr src"
proof -
  have lits: "take a src @ lits = src"
    using assms(1,2) slice_append_take [of a "length lits" src] by simp
  have "length lits \<le> maxOut" using assms by auto
  note read = lz4_readExtendedLength_reads [OF this assms(4), of lits]
  define tk :: byte where "tk = word_of_nat (min (length lits) 15 * 16)"
  have tok: "unat tk div 16 = min (length lits) 15"
    using lz4_token_split(1) [of "min (length lits) 15" 0] by (simp add: tk_def)
  have seq: "lz4_last_bytes lits = tk # lz4_ext_bytes (length lits) @ lits"
    by (simp add: lz4_last_bytes_def tk_def)
  show ?thesis
    unfolding seq using assms(1,2) read
    by (subst lz4_loop.simps) (simp add: tok lits Let_def)
qed

section \<open>The search loop\<close>

lemma lz4_extendMatch_spec:
  assumes "position + m \<le> length source - 5" and "\<forall>i < m. source ! (c + i) = source ! (position + i)"
  shows "position + lz4_extendMatch source c position m \<le> length source - 5 \<and>
    (\<forall>i < lz4_extendMatch source c position m. source ! (c + i) = source ! (position + i))"
  using assms
proof (induction source c position m rule: lz4_extendMatch.induct)
  case (1 source c p m)
  show ?case
  proof (cases "int p + int m < int (length source) - 5 \<and> source ! (c + m) = source ! (p + m)")
    case True
    then have "p + (m + 1) \<le> length source - 5" by linarith
    moreover have "\<forall>i < m + 1. source ! (c + i) = source ! (p + i)"
      using True "1.prems"(2) by (auto simp: less_Suc_eq)
    ultimately show ?thesis
      using "1.IH" [OF True] True by (simp add: lz4_extendMatch.simps [of source c p m])
  next
    case False
    show ?thesis
      unfolding lz4_extendMatch.simps [of source c p m] if_not_P [OF False] using "1.prems" by blast
  qed
qed

lemma lz4_read32_equal:
  assumes "c + 4 \<le> length source" and "p + 4 \<le> length source"
    and "lz4_read32 source c = lz4_read32 source p"
  shows "\<forall>i < 4. source ! (c + i) = source ! (p + i)"
proof -
  have "slice c 4 source = slice p 4 source"
    using assms le_encode_decode [of "slice c 4 source"] le_encode_decode [of "slice p 4 source"]
    by (simp add: lz4_read32_def)
  then have "\<forall>i < 4. slice c 4 source ! i = slice p 4 source ! i" by simp
  then show ?thesis using assms by (simp add: slice_def)
qed

definition lz4_table_below :: "lz4_table \<Rightarrow> nat \<Rightarrow> bool" where
  "lz4_table_below t p \<longleftrightarrow> (\<forall>h. t h < int p)"

lemma lz4_updateTable_below:
  "lz4_table_below t p \<Longrightarrow> lz4_table_below (lz4_updateTable source p u t) p"
proof (induction source p u t rule: lz4_updateTable.induct)
  case (1 source p u t)
  have "lz4_table_below (t(lz4_hashAt source u := int u)) p" if "u < p"
    using "1.prems" that by (simp add: lz4_table_below_def)
  with "1.IH" "1.prems" show ?case
    unfolding lz4_updateTable.simps [of source p u t] by (metis (full_types))
qed

text \<open>
  One sequence costs at most its literals, its match and one extra byte per 255 literals;
  that is where the bound of the output buffer comes from.
\<close>

lemma length_lz4_ext_bytes:
  "length (lz4_ext_bytes len) = (if len < 15 then 0 else (len - 15) div 255 + 1)"
  by (simp add: lz4_ext_bytes_def)

lemma length_lz4_seq_bytes:
  assumes "4 \<le> m"
  shows "length (lz4_seq_bytes lits d m) \<le> length lits + m + length lits div 255"
proof -
  have "length (lz4_ext_bytes (length lits)) \<le> 1 + length lits div 255"
    by (simp add: length_lz4_ext_bytes div_le_mono)
  moreover have "length (lz4_ext_bytes (m - 4)) + 4 \<le> m"
    using assms by (auto simp: length_lz4_ext_bytes)
  ultimately show ?thesis by (simp add: lz4_seq_bytes_def)
qed

lemma length_lz4_last_bytes:
  "length (lz4_last_bytes lits) \<le> length lits + length lits div 255 + 2"
proof -
  have "length (lz4_ext_bytes (length lits)) \<le> 1 + length lits div 255"
    by (simp add: length_lz4_ext_bytes div_le_mono)
  then show ?thesis by (simp add: lz4_last_bytes_def)
qed

lemma div_add_le: "a div 255 + b div 255 \<le> (a + b) div (255 :: nat)"
  by linarith

text \<open>What a run of the search loop achieves, as a relation between its start and its end.\<close>

definition lz4_progress :: "nat \<Rightarrow> bytes \<Rightarrow> nat \<Rightarrow> bytes \<Rightarrow> nat \<Rightarrow> bytes \<Rightarrow> bool" where
  "lz4_progress maxOut source anchor out anchor' out' \<longleftrightarrow>
     anchor \<le> anchor' \<and> anchor' \<le> length source \<and>
     (\<exists>emitted. out' = out @ emitted \<and>
        length emitted \<le> (anchor' - anchor) + (anchor' - anchor) div 255 \<and>
        (\<forall>rest. lz4_loop maxOut (length source) (emitted @ rest) (take anchor source) =
                lz4_loop maxOut (length source) rest (take anchor' source)))"

lemma lz4_progress_refl: "a \<le> length source \<Longrightarrow> lz4_progress maxOut source a out a out"
  by (simp add: lz4_progress_def)

lemma lz4_progress_trans:
  assumes "lz4_progress maxOut source a out b out1" and "lz4_progress maxOut source b out1 c out2"
  shows "lz4_progress maxOut source a out c out2"
proof -
  from assms obtain e1 e2 where e: "out1 = out @ e1" "out2 = out1 @ e2"
      "length e1 \<le> (b - a) + (b - a) div 255" "length e2 \<le> (c - b) + (c - b) div 255"
      "\<forall>rest. lz4_loop maxOut (length source) (e1 @ rest) (take a source) =
              lz4_loop maxOut (length source) rest (take b source)"
      "\<forall>rest. lz4_loop maxOut (length source) (e2 @ rest) (take b source) =
              lz4_loop maxOut (length source) rest (take c source)"
    by (auto simp: lz4_progress_def)
  have "a \<le> b" "b \<le> c" "c \<le> length source" using assms by (auto simp: lz4_progress_def)
  moreover from this have eq: "(b - a) + (c - b) = c - a" by simp
  moreover have "length (e1 @ e2) \<le> (c - a) + (c - a) div 255"
    using e(3,4) div_add_le [of "b - a" "c - b"] eq unfolding length_append by linarith
  ultimately show ?thesis
    unfolding lz4_progress_def using e by (intro conjI exI [of _ "e1 @ e2"]) auto
qed

lemma lz4_match_step:
  assumes "a \<le> p" and "int p \<le> int (length source) - 12"
    and "c < p" and "p - c < 65536" and "lz4_read32 source c = lz4_read32 source p"
    and "length source \<le> maxOut" and "int maxOut \<le> max_safe_integer"
  defines "m \<equiv> lz4_extendMatch source c p 4"
  shows "4 \<le> m \<and> p + m \<le> length source \<and>
    lz4_progress maxOut source a out (p + m) (out @ lz4_seq_bytes (slice a (p - a) source) (p - c) m)"
proof -
  let ?lits = "slice a (p - a) source"
  have m4: "4 \<le> m" unfolding m_def by (rule lz4_extendMatch_ge)
  have "\<forall>i < 4. source ! (c + i) = source ! (p + i)"
    using assms(2,3,5) by (intro lz4_read32_equal) auto
  then have m: "p + m \<le> length source - 5" "\<forall>i < m. source ! (c + i) = source ! (p + i)"
    using assms(2) lz4_extendMatch_spec [of p 4 source c] unfolding m_def by auto
  have lits: "length ?lits = p - a" using assms(1,2) by simp
  have pc: "p - (p - c) = c" using assms(3) by simp
  have "lz4_loop maxOut (length source) (lz4_seq_bytes ?lits (p - c) m @ rest) (take a source) =
      lz4_loop maxOut (length source) rest (take (p + m) source)" for rest
    by (rule lz4_loop_sequence) (use assms m4 m lits pc in auto)
  moreover have "length (lz4_seq_bytes ?lits (p - c) m) \<le> (p + m - a) + (p + m - a) div 255"
  proof -
    have "(p - a) div 255 \<le> (p + m - a) div 255" by (rule div_le_mono) simp
    with length_lz4_seq_bytes [OF m4, of ?lits "p - c"] lits assms(1)
    show ?thesis by linarith
  qed
  ultimately show ?thesis
    using m4 m(1) assms(1,2) unfolding lz4_progress_def by auto
qed

lemma lz4_encodeLoop_progress:
  assumes "a \<le> p" and "p \<le> length source" and "lz4_table_below t p"
    and "length source \<le> maxOut" and "int maxOut \<le> max_safe_integer"
    and "length out \<le> a + a div 255" and "length source + length source div 255 \<le> cap"
  shows "\<exists>a' out'. lz4_encodeLoop cap source a p t out = Inr (a', out') \<and>
    lz4_progress maxOut source a out a' out'"
  using assms
proof (induction cap source a p t out rule: lz4_encodeLoop.induct)
  case (1 cap source a p t out)
  let ?h = "lz4_hashAt source p"
  let ?c = "t ?h"
  let ?t1 = "t(?h := int p)"
  note unf = lz4_encodeLoop.simps [of cap source a p t out]
  show ?case
  proof (cases "int p \<le> int (length source) - 12")
    case False
    with "1.prems" show ?thesis by (auto simp: unf lz4_progress_refl)
  next
    case inside: True
    show ?thesis
    proof (cases "?c < 0 \<or> 0xffff < int p - ?c \<or> lz4_read32 source (nat ?c) \<noteq> lz4_read32 source p")
      case True
      have "lz4_table_below ?t1 (p + 1)"
        unfolding lz4_table_below_def
      proof
        fix h
        have "t h < int p" using "1.prems"(3) by (simp add: lz4_table_below_def)
        then show "?t1 h < int (p + 1)" by simp
      qed
      moreover have "a \<le> p + 1" "p + 1 \<le> length source" using "1.prems"(1) inside by auto
      moreover have "lz4_encodeLoop cap source a p t out = lz4_encodeLoop cap source a (p + 1) ?t1 out"
        unfolding unf Let_def if_P [OF inside] if_P [OF True] by (rule refl)
      ultimately show ?thesis
        using "1.IH"(1) [OF inside refl refl refl refl True _ _ _ "1.prems"(4-7)] by metis
    next
      case False
      define c where "c = nat ?c"
      define m where "m = lz4_extendMatch source c p 4"
      have "?c < int p" using "1.prems"(3) by (simp add: lz4_table_below_def)
      with False have c: "?c = int c" "c < p" "p - c < 65536"
          "lz4_read32 source c = lz4_read32 source p" and d: "nat (int p - ?c) = p - c"
        unfolding c_def by auto
      let ?seq = "lz4_seq_bytes (slice a (p - a) source) (p - c) m"
      have step: "4 \<le> m" "p + m \<le> length source" "lz4_progress maxOut source a out (p + m) (out @ ?seq)"
        using lz4_match_step [OF "1.prems"(1) inside c(2-4) "1.prems"(4,5)] unfolding m_def by blast+
      have seq: "length ?seq \<le> (p + m - a) + (p + m - a) div 255"
        using step(3) unfolding lz4_progress_def by auto
      have "a + (p + m - a) = p + m" using "1.prems"(1) by simp
      with seq have len: "length (out @ ?seq) \<le> (p + m) + (p + m) div 255"
        using "1.prems"(6) div_add_le [of a "p + m - a"] unfolding length_append by linarith
      also have "\<dots> \<le> cap"
        using step(2) "1.prems"(7) div_le_mono [OF step(2), of 255] by linarith
      finally have emit: "lz4_writeSequence cap source a p (nat (int p - ?c))
          (lz4_extendMatch source (nat ?c) p 4) out = Inr (out @ ?seq)"
        using "1.prems"(1,2) by (simp add: lz4_writeSequence_put d flip: m_def c_def)
      have below: "lz4_table_below (lz4_updateTable source (p + m) (p + 1) ?t1) (p + m)"
      proof (rule lz4_updateTable_below)
        show "lz4_table_below ?t1 (p + m)"
          using "1.prems"(3) step(1) by (auto simp: lz4_table_below_def intro: less_le_trans)
      qed
      have eq: "lz4_encodeLoop cap source a p t out = lz4_encodeLoop cap source (p + m) (p + m)
          (lz4_updateTable source (p + m) (p + 1) ?t1) (out @ ?seq)"
        unfolding unf using inside False emit by (simp add: Let_def flip: m_def c_def)
      obtain a' out' where "lz4_encodeLoop cap source (p + m) (p + m)
            (lz4_updateTable source (p + m) (p + 1) ?t1) (out @ ?seq) = Inr (a', out')"
          "lz4_progress maxOut source (p + m) (out @ ?seq) a' out'"
        using "1.IH"(2) [OF inside refl refl refl refl False refl emit,
            folded c_def, folded m_def, OF order.refl step(2) below "1.prems"(4,5) len "1.prems"(7)]
        by blast
      with eq step(3) show ?thesis by (auto intro: lz4_progress_trans)
    qed
  qed
qed

section \<open>The codec\<close>

lemma lz4_default_limits [simp]:
  "lz4_configuredLimit None MAX_LZ4_ENCODED_BLOCK_LENGTH MAX_LZ4_ENCODED_BLOCK_LENGTH =
     Inr MAX_LZ4_ENCODED_BLOCK_LENGTH"
  "lz4_configuredLimit None MAX_LZ4_BLOCK_LENGTH MAX_LZ4_BLOCK_LENGTH = Inr MAX_LZ4_BLOCK_LENGTH"
  "lz4_configuredEncodeLimit None MAX_LZ4_BLOCK_LENGTH MAX_LZ4_BLOCK_LENGTH = Inr MAX_LZ4_BLOCK_LENGTH"
  "lz4_configuredEncodeLimit None MAX_LZ4_ENCODED_BLOCK_LENGTH MAX_LZ4_ENCODED_BLOCK_LENGTH =
     Inr MAX_LZ4_ENCODED_BLOCK_LENGTH"
  by (simp_all add: lz4_configuredLimit_def lz4_configuredEncodeLimit_def
      MAX_LZ4_ENCODED_BLOCK_LENGTH_def MAX_LZ4_BLOCK_LENGTH_def is_safe_integer_def max_safe_integer_def)

lemma lz4_encodedLengthBound_max:
  "n \<le> MAX_LZ4_BLOCK_LENGTH \<Longrightarrow> encodedLengthBound n \<le> MAX_LZ4_ENCODED_BLOCK_LENGTH"
  using div_le_mono [of n MAX_LZ4_BLOCK_LENGTH 255]
  by (simp add: encodedLengthBound_def MAX_LZ4_ENCODED_BLOCK_LENGTH_def MAX_LZ4_BLOCK_LENGTH_def)

lemma encodeLz4Block_emits:
  assumes "source \<noteq> []" and "length source \<le> MAX_LZ4_BLOCK_LENGTH"
  shows "\<exists>out. encodeLz4Block source None None = Inr out \<and> out \<noteq> [] \<and>
    length out \<le> encodedLengthBound (length source) \<and>
    lz4_loop MAX_LZ4_BLOCK_LENGTH (length source) out [] = Inr source"
proof -
  let ?n = "length source"
  let ?cap = "encodedLengthBound ?n"
  have cap: "min ?cap MAX_LZ4_ENCODED_BLOCK_LENGTH = ?cap"
    using lz4_encodedLengthBound_max [OF assms(2)] by simp
  have room: "?n + ?n div 255 + 2 \<le> ?cap" using assms(1) by (simp add: encodedLengthBound_def)
  have safe: "int MAX_LZ4_BLOCK_LENGTH \<le> max_safe_integer"
    by (simp add: MAX_LZ4_BLOCK_LENGTH_def max_safe_integer_def)
  obtain a out where run: "lz4_encodeLoop ?cap source 0 0 (\<lambda>_. - 1) [] = Inr (a, out)"
      and prog: "lz4_progress MAX_LZ4_BLOCK_LENGTH source 0 [] a out"
    using lz4_encodeLoop_progress [of 0 0 source "\<lambda>_. - 1" MAX_LZ4_BLOCK_LENGTH "[]" ?cap] assms(2) room safe
    by (auto simp: lz4_table_below_def)
  let ?lits = "slice a (?n - a) source"
  have a: "a \<le> ?n" and out: "length out \<le> a + a div 255"
      and loop: "lz4_loop MAX_LZ4_BLOCK_LENGTH ?n (out @ rest) [] =
        lz4_loop MAX_LZ4_BLOCK_LENGTH ?n rest (take a source)" for rest
    using prog by (auto simp: lz4_progress_def)
  have lits: "length ?lits = ?n - a" using a by simp
  have "length (out @ lz4_last_bytes ?lits) \<le> a + (?n - a) + (a div 255 + (?n - a) div 255) + 2"
    using out length_lz4_last_bytes [of ?lits] unfolding length_append lits by linarith
  also have "\<dots> \<le> ?cap"
    using room a div_add_le [of a "?n - a"] by simp
  finally have len: "length (out @ lz4_last_bytes ?lits) \<le> ?cap" .
  have "encodeLz4Block source None None = lz4_put ?cap out (lz4_last_bytes ?lits)"
    using assms run cap unfolding lz4_writeLast_put [OF a, symmetric]
    by (simp add: encodeLz4Block_def Let_def not_less)
  moreover have "lz4_loop MAX_LZ4_BLOCK_LENGTH ?n (lz4_last_bytes ?lits) (take a source) = Inr source"
    using a assms(2) safe by (intro lz4_loop_last) auto
  ultimately show ?thesis
    using len loop [of "lz4_last_bytes ?lits"] by (simp add: lz4_last_bytes_def)
qed

text \<open>C39. Lossless compression: every input up to the 16 MiB ceiling encodes under the
  default limits, and decoding the block with the input's length gives the input back.\<close>

theorem lz4_roundtrip:
  assumes "length source \<le> MAX_LZ4_BLOCK_LENGTH"
  shows "rbind (encodeLz4Block source None None)
    (\<lambda>block. decodeLz4Block block (int (length source)) None None) = Inr source"
proof (cases "source = []")
  case True
  have "int (Suc 0) \<le> int MAX_LZ4_ENCODED_BLOCK_LENGTH" and "0 < MAX_LZ4_ENCODED_BLOCK_LENGTH"
    by (simp_all add: MAX_LZ4_ENCODED_BLOCK_LENGTH_def)
  with True show ?thesis
    by (simp add: encodeLz4Block_def decodeLz4Block_def lz4_put_def encodedLengthBound_def
        lz4_boundedLength_def lz4_loop.simps lz4_readExtendedLength_def is_safe_integer_def
        max_safe_integer_def)
next
  case False
  from encodeLz4Block_emits [OF False assms] obtain out
    where out: "encodeLz4Block source None None = Inr out" "out \<noteq> []"
      "length out \<le> encodedLengthBound (length source)"
      "lz4_loop MAX_LZ4_BLOCK_LENGTH (length source) out [] = Inr source" by blast
  have "length out \<le> MAX_LZ4_ENCODED_BLOCK_LENGTH"
    using out(3) lz4_encodedLengthBound_max [OF assms] by simp
  moreover have "int MAX_LZ4_ENCODED_BLOCK_LENGTH \<le> max_safe_integer"
      "int MAX_LZ4_BLOCK_LENGTH \<le> max_safe_integer"
    by (simp_all add: MAX_LZ4_ENCODED_BLOCK_LENGTH_def MAX_LZ4_BLOCK_LENGTH_def max_safe_integer_def)
  ultimately show ?thesis
    using out assms by (simp add: decodeLz4Block_def lz4_boundedLength_def is_safe_integer_def)
qed

lemma lz4_roundtrip_witness:
  "rbind (encodeLz4Block (replicate 300 7 @ [1, 2, 3]) None None)
     (\<lambda>block. decodeLz4Block block 303 None None) = Inr (replicate 300 7 @ [1, 2, 3])"
  using lz4_roundtrip [of "replicate 300 7 @ [1, 2, 3]"] by (simp add: MAX_LZ4_BLOCK_LENGTH_def)

text \<open>The encoder never fails under the default limits and never writes more than the
  published bound \<open>n + n/255 + 16\<close>, so the output buffer of that size suffices.\<close>

theorem lz4_encode_bounded:
  assumes "length source \<le> MAX_LZ4_BLOCK_LENGTH"
  shows "\<exists>block. encodeLz4Block source None None = Inr block \<and> block \<noteq> [] \<and>
    length block \<le> encodedLengthBound (length source) \<and> length block \<le> MAX_LZ4_ENCODED_BLOCK_LENGTH"
proof (cases "source = []")
  case True
  then show ?thesis
    using MAX_LZ4_ENCODED_BLOCK_LENGTH_def by (simp add: encodeLz4Block_def lz4_put_def encodedLengthBound_def)
next
  case False
  from encodeLz4Block_emits [OF False assms] lz4_encodedLengthBound_max [OF assms] show ?thesis
    by (meson le_trans)
qed

lemma lz4_encode_bounded_witness:
  "\<exists>block. encodeLz4Block (replicate 510 9) None None = Inr block \<and> length block \<le> 528"
  using lz4_encode_bounded [of "replicate 510 9"]
  by (auto simp: MAX_LZ4_BLOCK_LENGTH_def encodedLengthBound_def)

end
