(* ===== verification/AppcRecord.thy ===== *)
theory AppcRecord
  imports Bytes
begin

text \<open>
  APPC records of \<open>src/protocol/appc.ts\<close>: the 48-byte common header, the 32-byte
  operation-information blocks and the record encoder. Function codes stay numbers, as a
  received code may be none of the enumerated ones.
\<close>

definition APPC_PROTOCOL_VERSION :: nat where
  "APPC_PROTOCOL_VERSION = 0x06"

definition APPC_COMMON_HEADER_LENGTH :: nat where
  "APPC_COMMON_HEADER_LENGTH = 48"

definition APPC_RECORD_HEADER_LENGTH :: nat where
  "APPC_RECORD_HEADER_LENGTH = 80"

definition MAX_APPC_APPLICATION_DATA_FRAGMENT_LENGTH :: nat where
  "MAX_APPC_APPLICATION_DATA_FRAGMENT_LENGTH = 28000"

lemmas appc_lengths = APPC_PROTOCOL_VERSION_def APPC_COMMON_HEADER_LENGTH_def
  APPC_RECORD_HEADER_LENGTH_def MAX_APPC_APPLICATION_DATA_FRAGMENT_LENGTH_def

text \<open>\<open>enum AppcFunction\<close>.\<close>

abbreviation (input) F_Initialize :: nat where "F_Initialize \<equiv> 0x01"
abbreviation (input) F_Allocate :: nat where "F_Allocate \<equiv> 0x05"
abbreviation (input) F_SendData :: nat where "F_SendData \<equiv> 0x07"
abbreviation (input) F_AsyncSendData :: nat where "F_AsyncSendData \<equiv> 0x08"
abbreviation (input) F_Receive :: nat where "F_Receive \<equiv> 0x09"
abbreviation (input) F_AsyncReceive :: nat where "F_AsyncReceive \<equiv> 0x0a"
abbreviation (input) F_Deallocate :: nat where "F_Deallocate \<equiv> 0x0b"
abbreviation (input) F_SetTpName :: nat where "F_SetTpName \<equiv> 0x0d"
abbreviation (input) F_SetPartnerLuName :: nat where "F_SetPartnerLuName \<equiv> 0x0f"
abbreviation (input) F_Flush :: nat where "F_Flush \<equiv> 0x1b"
abbreviation (input) F_SapSend :: nat where "F_SapSend \<equiv> 0xcb"

section \<open>Header\<close>

record appc_header =
  h_protocolVersion :: nat
  h_functionCode :: nat
  h_protocol :: nat
  h_mode :: nat
  h_uid :: nat
  h_gatewayId :: nat
  h_errorLength :: nat
  h_info2 :: nat
  h_traceLevel :: nat
  h_time :: nat
  h_info3 :: nat
  h_timeout :: int
  h_info4 :: nat
  h_sequenceNumber :: nat
  h_sapParameterLength :: nat
  h_padding :: nat
  h_info :: nat
  h_vector :: nat
  h_appcReturnCode :: nat
  h_sapReturnCode :: nat
  h_conversationId :: bytes

definition inspectAppcPayload :: "bytes \<Rightarrow> (nat \<times> nat) result" where
  "inspectAppcPayload payload =
    (case payload of
       v # f # _ \<Rightarrow>
         if unat v \<noteq> APPC_PROTOCOL_VERSION
         then Inl (PlainError ''unsupported APPC protocol version'')
         else Inr (unat v, unat f)
     | _ \<Rightarrow> Inl (RangeError ''an APPC payload needs at least a version and function byte''))"

definition decodeAppcHeader :: "bytes \<Rightarrow> appc_header result" where
  "decodeAppcHeader payload =
    (if length payload < APPC_COMMON_HEADER_LENGTH
     then Inl (RangeError ''an APPC common header needs 48 bytes'')
     else
       rbind (readUInt8 (reader_new (take APPC_COMMON_HEADER_LENGTH payload))) (\<lambda>(protocolVersion, r).
       rbind (readUInt8 r) (\<lambda>(functionCode, r).
       rbind (inspectAppcPayload [word_of_nat protocolVersion, word_of_nat functionCode]) (\<lambda>(version, code).
       rbind (readUInt8 r) (\<lambda>(protocol, r).
       rbind (readUInt8 r) (\<lambda>(mode, r).
       rbind (readUInt16BE r) (\<lambda>(uid, r).
       rbind (readUInt16BE r) (\<lambda>(gatewayId, r).
       rbind (readUInt16BE r) (\<lambda>(errorLength, r).
       rbind (readUInt8 r) (\<lambda>(info2, r).
       rbind (readUInt8 r) (\<lambda>(traceLevel, r).
       rbind (readUInt32BE r) (\<lambda>(time, r).
       rbind (readUInt8 r) (\<lambda>(info3, r).
       rbind (readInt32BE r) (\<lambda>(timeout, r).
       rbind (readUInt8 r) (\<lambda>(info4, r).
       rbind (readUInt32BE r) (\<lambda>(sequenceNumber, r).
       rbind (readUInt16BE r) (\<lambda>(sapParameterLength, r).
       rbind (readUInt16BE r) (\<lambda>(padding, r).
       rbind (readUInt8 r) (\<lambda>(info, r).
       rbind (readUInt8 r) (\<lambda>(vector, r).
       rbind (readUInt32BE r) (\<lambda>(appcReturnCode, r).
       rbind (readUInt32BE r) (\<lambda>(sapReturnCode, r).
       rbind (readBytes r 8) (\<lambda>(conversationId, r).
       rbind (reader_finish r) (\<lambda>_.
       Inr \<lparr>h_protocolVersion = version, h_functionCode = code, h_protocol = protocol,
            h_mode = mode, h_uid = uid, h_gatewayId = gatewayId, h_errorLength = errorLength,
            h_info2 = info2, h_traceLevel = traceLevel, h_time = time, h_info3 = info3,
            h_timeout = timeout, h_info4 = info4, h_sequenceNumber = sequenceNumber,
            h_sapParameterLength = sapParameterLength, h_padding = padding, h_info = info,
            h_vector = vector, h_appcReturnCode = appcReturnCode,
            h_sapReturnCode = sapReturnCode, h_conversationId = conversationId\<rparr>))))))))))))))))))))))))"

section \<open>Encoder input\<close>

text \<open>\<open>AppcRecordHeaderInput\<close>: every field is optional; \<open>or_else\<close> is the operator \<open>??\<close>.\<close>

record appc_input =
  in_protocol :: "int option"
  in_mode :: "int option"
  in_uid :: "int option"
  in_gatewayId :: "int option"
  in_errorLength :: "int option"
  in_info2 :: "int option"
  in_traceLevel :: "int option"
  in_time :: "int option"
  in_info3 :: "int option"
  in_timeout :: "int option"
  in_info4 :: "int option"
  in_sequenceNumber :: "int option"
  in_padding :: "int option"
  in_info :: "int option"
  in_vector :: "int option"
  in_appcReturnCode :: "int option"
  in_sapReturnCode :: "int option"
  in_conversationId :: "bytes option"

definition appc_exactBytes :: "bytes \<Rightarrow> nat \<Rightarrow> bytes result" where
  "appc_exactBytes v n = (if length v \<noteq> n
     then Inl (RangeError ''must contain an exact number of bytes'') else Inr v)"

fun writeParts :: "writer \<Rightarrow> bytes list \<Rightarrow> writer result" where
  "writeParts w [] = Inr w"
| "writeParts w (part # parts) = rbind (writeBytes w part) (\<lambda>w. writeParts w parts)"

definition encodeAppcRecord :: "nat \<Rightarrow> 'z appc_input_scheme \<Rightarrow> bytes \<Rightarrow> int \<Rightarrow> bytes list \<Rightarrow> bytes result" where
  "encodeAppcRecord functionCode input operationInfo sapParameterLength dataParts =
    (let conversationId = or_else (in_conversationId input) (replicate 8 0) in
     if length conversationId \<noteq> 8
     then Inl (RangeError ''conversationId must contain exactly 8 bytes'')
     else rbind (appc_exactBytes operationInfo 32) (\<lambda>encodedOperationInfo.
     if \<not> is_safe_integer sapParameterLength \<or> sapParameterLength < 0 \<or> 0xffff < sapParameterLength
     then Inl (RangeError ''sapParameterLength must be an integer in 0..65535'')
     else let trailingDataLength = int (sum_list (map length dataParts)) in
     if \<not> is_safe_integer trailingDataLength
     then Inl (RangeError ''trailingData length exceeds the safe integer range'')
     else
       rbind (writer_new (int APPC_RECORD_HEADER_LENGTH + trailingDataLength)) (\<lambda>w.
       rbind (writeUInt8 w (int APPC_PROTOCOL_VERSION)) (\<lambda>w.
       rbind (writeUInt8 w (int functionCode)) (\<lambda>w.
       rbind (writeUInt8 w (or_else (in_protocol input) 2)) (\<lambda>w.
       rbind (writeUInt8 w (or_else (in_mode input) 0)) (\<lambda>w.
       rbind (writeUInt16BE w (or_else (in_uid input) 0xffff)) (\<lambda>w.
       rbind (writeUInt16BE w (or_else (in_gatewayId input) 0)) (\<lambda>w.
       rbind (writeUInt16BE w (or_else (in_errorLength input) 0)) (\<lambda>w.
       rbind (writeUInt8 w (or_else (in_info2 input) 0)) (\<lambda>w.
       rbind (writeUInt8 w (or_else (in_traceLevel input) 0)) (\<lambda>w.
       rbind (writeUInt32BE w (or_else (in_time input) 0)) (\<lambda>w.
       rbind (writeUInt8 w (or_else (in_info3 input) 0)) (\<lambda>w.
       rbind (writeInt32BE w (or_else (in_timeout input) 0)) (\<lambda>w.
       rbind (writeUInt8 w (or_else (in_info4 input) 0)) (\<lambda>w.
       rbind (writeUInt32BE w (or_else (in_sequenceNumber input) 0)) (\<lambda>w.
       rbind (writeUInt16BE w sapParameterLength) (\<lambda>w.
       rbind (writeUInt16BE w (or_else (in_padding input) 0)) (\<lambda>w.
       rbind (writeUInt8 w (or_else (in_info input) 0)) (\<lambda>w.
       rbind (writeUInt8 w (or_else (in_vector input) 0)) (\<lambda>w.
       rbind (writeUInt32BE w (or_else (in_appcReturnCode input) 0)) (\<lambda>w.
       rbind (writeUInt32BE w (or_else (in_sapReturnCode input) 0)) (\<lambda>w.
       rbind (writeBytes w conversationId) (\<lambda>w.
       rbind (writeBytes w encodedOperationInfo) (\<lambda>w.
       rbind (writeParts w dataParts) (\<lambda>w.
       writer_finish w))))))))))))))))))))))))))"

section \<open>The bytes of a header\<close>

text \<open>
  \<open>header_of\<close> is the header the encoder's defaults and arguments describe, \<open>header_bytes\<close>
  its 48 bytes on the wire; \<open>header_fits\<close> collects the field widths.
\<close>

definition header_of :: "nat \<Rightarrow> 'z appc_input_scheme \<Rightarrow> nat \<Rightarrow> appc_header" where
  "header_of functionCode input sapLength =
    \<lparr>h_protocolVersion = APPC_PROTOCOL_VERSION, h_functionCode = functionCode,
     h_protocol = nat (or_else (in_protocol input) 2), h_mode = nat (or_else (in_mode input) 0),
     h_uid = nat (or_else (in_uid input) 0xffff),
     h_gatewayId = nat (or_else (in_gatewayId input) 0),
     h_errorLength = nat (or_else (in_errorLength input) 0),
     h_info2 = nat (or_else (in_info2 input) 0),
     h_traceLevel = nat (or_else (in_traceLevel input) 0),
     h_time = nat (or_else (in_time input) 0), h_info3 = nat (or_else (in_info3 input) 0),
     h_timeout = or_else (in_timeout input) 0, h_info4 = nat (or_else (in_info4 input) 0),
     h_sequenceNumber = nat (or_else (in_sequenceNumber input) 0),
     h_sapParameterLength = sapLength, h_padding = nat (or_else (in_padding input) 0),
     h_info = nat (or_else (in_info input) 0), h_vector = nat (or_else (in_vector input) 0),
     h_appcReturnCode = nat (or_else (in_appcReturnCode input) 0),
     h_sapReturnCode = nat (or_else (in_sapReturnCode input) 0),
     h_conversationId = or_else (in_conversationId input) (replicate 8 0)\<rparr>"

definition header_bytes :: "appc_header \<Rightarrow> bytes" where
  "header_bytes h = be_encode 1 (h_protocolVersion h) @ be_encode 1 (h_functionCode h) @
     be_encode 1 (h_protocol h) @ be_encode 1 (h_mode h) @ be_encode 2 (h_uid h) @
     be_encode 2 (h_gatewayId h) @ be_encode 2 (h_errorLength h) @ be_encode 1 (h_info2 h) @
     be_encode 1 (h_traceLevel h) @ be_encode 4 (h_time h) @ be_encode 1 (h_info3 h) @
     be_encode 4 (from_signed 4 (h_timeout h)) @ be_encode 1 (h_info4 h) @
     be_encode 4 (h_sequenceNumber h) @ be_encode 2 (h_sapParameterLength h) @
     be_encode 2 (h_padding h) @ be_encode 1 (h_info h) @ be_encode 1 (h_vector h) @
     be_encode 4 (h_appcReturnCode h) @ be_encode 4 (h_sapReturnCode h) @ h_conversationId h"

definition header_fits :: "appc_header \<Rightarrow> bool" where
  "header_fits h \<longleftrightarrow> h_protocolVersion h = APPC_PROTOCOL_VERSION \<and> h_functionCode h < 256 \<and>
     h_protocol h < 256 \<and> h_mode h < 256 \<and> h_uid h < 65536 \<and> h_gatewayId h < 65536 \<and>
     h_errorLength h < 65536 \<and> h_info2 h < 256 \<and> h_traceLevel h < 256 \<and>
     h_time h < 4294967296 \<and> h_info3 h < 256 \<and> - 0x80000000 \<le> h_timeout h \<and>
     h_timeout h \<le> 0x7fffffff \<and> h_info4 h < 256 \<and> h_sequenceNumber h < 4294967296 \<and>
     h_sapParameterLength h < 65536 \<and> h_padding h < 65536 \<and> h_info h < 256 \<and>
     h_vector h < 256 \<and> h_appcReturnCode h < 4294967296 \<and> h_sapReturnCode h < 4294967296 \<and>
     length (h_conversationId h) = 8"

lemma length_header_bytes [simp]:
  "length (h_conversationId h) = 8 \<Longrightarrow> length (header_bytes h) = 48"
  by (simp add: header_bytes_def)

text \<open>\<open>input_fits\<close> is what the encoder checks of the optional fields.\<close>

definition between :: "int \<Rightarrow> int \<Rightarrow> int \<Rightarrow> bool" where
  "between lo hi v \<longleftrightarrow> lo \<le> v \<and> v \<le> hi"

definition input_fits :: "'z appc_input_scheme \<Rightarrow> bool" where
  "input_fits input \<longleftrightarrow> between 0 0xff (or_else (in_protocol input) 2) \<and>
     between 0 0xff (or_else (in_mode input) 0) \<and> between 0 0xffff (or_else (in_uid input) 0xffff) \<and>
     between 0 0xffff (or_else (in_gatewayId input) 0) \<and>
     between 0 0xffff (or_else (in_errorLength input) 0) \<and>
     between 0 0xff (or_else (in_info2 input) 0) \<and> between 0 0xff (or_else (in_traceLevel input) 0) \<and>
     between 0 0xffffffff (or_else (in_time input) 0) \<and> between 0 0xff (or_else (in_info3 input) 0) \<and>
     between (- 0x80000000) 0x7fffffff (or_else (in_timeout input) 0) \<and>
     between 0 0xff (or_else (in_info4 input) 0) \<and>
     between 0 0xffffffff (or_else (in_sequenceNumber input) 0) \<and>
     between 0 0xffff (or_else (in_padding input) 0) \<and> between 0 0xff (or_else (in_info input) 0) \<and>
     between 0 0xff (or_else (in_vector input) 0) \<and>
     between 0 0xffffffff (or_else (in_appcReturnCode input) 0) \<and>
     between 0 0xffffffff (or_else (in_sapReturnCode input) 0) \<and>
     length (or_else (in_conversationId input) (replicate 8 0)) = 8"

lemma writeParts_inv:
  "length bs \<le> cap \<Longrightarrow> writeParts (writer_at cap bs) parts = Inr w \<longleftrightarrow>
     list_all (\<lambda>p. int (length p) \<le> max_safe_integer) parts \<and>
     length bs + sum_list (map length parts) \<le> cap \<and> w = writer_at cap (bs @ concat parts)"
proof (induction parts arbitrary: bs)
  case Nil
  then show ?case by auto
next
  case (Cons p parts)
  show ?case
  proof (cases "length bs + length p \<le> cap")
    case True
    with Cons show ?thesis by (auto simp: writeBytes_inv)
  next
    case False
    with Cons.prems show ?thesis by (auto simp: writeBytes_inv)
  qed
qed

text \<open>
  When the encoder succeeds, and with which bytes: the checks of the fields one by one, the
  operation information of 32 bytes, and a record within the safe integers.
\<close>

lemma encodeAppcRecord_iff:
  "encodeAppcRecord f input op sap parts = Inr out \<longleftrightarrow>
     f \<le> 255 \<and> input_fits input \<and> length op = 32 \<and> 0 \<le> sap \<and> sap \<le> 0xffff \<and>
     80 + int (sum_list (map length parts)) \<le> max_safe_integer \<and>
     out = header_bytes (header_of f input (nat sap)) @ op @ concat parts"
  (is "?enc \<longleftrightarrow> ?rhs")
proof -
  let ?n = "sum_list (map length parts)"
  have lengths: "list_all (\<lambda>p. int (length p) \<le> max_safe_integer) parts"
    if "80 + int ?n \<le> max_safe_integer"
  proof -
    have "length p \<le> ?n" if "p \<in> set parts" for p
      using that by (intro member_le_sum_list) auto
    with that show ?thesis by (force simp: list_all_iff)
  qed
  show ?thesis
  proof (cases "length (or_else (in_conversationId input) (replicate 8 0)) = 8 \<and> length op = 32 \<and>
      0 \<le> sap \<and> sap \<le> 0xffff \<and> 80 + int ?n \<le> max_safe_integer")
    case True
    then show ?thesis using lengths
      by (simp add: eq_commute [of out] encodeAppcRecord_def appc_exactBytes_def appc_lengths Let_def
          is_safe_integer_def max_safe_integer_def writer_new_at nat_add_distrib
          writer_invs writeParts_inv writer_finish_at input_fits_def between_def
          header_of_def header_bytes_def length_concat)
  next
    case False
    then show ?thesis
      by (auto simp: encodeAppcRecord_def appc_exactBytes_def Let_def is_safe_integer_def input_fits_def
          writer_new_inv appc_lengths  split: if_splits)
  qed
qed

lemma header_of_fits:
  "f \<le> 255 \<Longrightarrow> input_fits input \<Longrightarrow> sap \<le> 0xffff \<Longrightarrow> header_fits (header_of f input (nat sap))"
  by (simp add: header_fits_def header_of_def input_fits_def between_def APPC_PROTOCOL_VERSION_def
      nat_less_iff nat_le_iff)

lemma decodeAppcHeader_header:
  assumes "header_fits h"
  shows "decodeAppcHeader (header_bytes h @ rest) = Inr h"
proof -
  have "length (header_bytes h) = 48" using assms by (simp add: header_fits_def)
  moreover have "inspectAppcPayload [word_of_nat 6, word_of_nat (h_functionCode h)] = Inr (6, h_functionCode h)"
    using assms by (simp add: inspectAppcPayload_def header_fits_def APPC_PROTOCOL_VERSION_def)
  ultimately show ?thesis
    using assms
    by (simp add: decodeAppcHeader_def APPC_COMMON_HEADER_LENGTH_def del: rbind_eq_Inr)
      (simp add: header_bytes_def header_fits_def reader_fields APPC_PROTOCOL_VERSION_def
        del: rbind_eq_Inr)
qed

lemma encodeAppcRecord_sound:
  assumes "encodeAppcRecord f input op sap parts = Inr out"
  shows "decodeAppcHeader out = Inr (header_of f input (nat sap)) \<and>
    slice APPC_COMMON_HEADER_LENGTH 32 out = op \<and> drop APPC_RECORD_HEADER_LENGTH out = concat parts"
proof -
  let ?h = "header_of f input (nat sap)"
  from assms have fits: "header_fits ?h" "length op = 32"
    and out: "out = header_bytes ?h @ op @ concat parts"
    by (auto simp: encodeAppcRecord_iff intro: header_of_fits)
  then have "length (header_bytes ?h) = 48" by (simp add: header_fits_def)
  with out fits show ?thesis
    using decodeAppcHeader_header [OF fits(1)] by (simp add: slice_def appc_lengths)
qed

text \<open>C36. The record codec: whenever the encoder accepts a function code, header fields,
  operation information and data, decoding the header of the record gives back the function
  code, every field given or its default, and the SAP parameter length; the operation
  information follows in bytes 48 to 80, and the rest of the record is the data.\<close>

theorem appc_record_roundtrip:
  assumes "encodeAppcRecord f input op sap parts = Inr out"
  shows "decodeAppcHeader out = Inr (header_of f input (nat sap)) \<and>
    slice APPC_COMMON_HEADER_LENGTH 32 out = op \<and> drop APPC_RECORD_HEADER_LENGTH out = concat parts"
  using assms by (rule encodeAppcRecord_sound)

definition no_input :: appc_input where
  "no_input = \<lparr>in_protocol = None, in_mode = None, in_uid = None, in_gatewayId = None,
     in_errorLength = None, in_info2 = None, in_traceLevel = None, in_time = None, in_info3 = None,
     in_timeout = None, in_info4 = None, in_sequenceNumber = None, in_padding = None, in_info = None,
     in_vector = None, in_appcReturnCode = None, in_sapReturnCode = None, in_conversationId = None\<rparr>"

lemma appc_record_roundtrip_witness:
  "\<exists>out. encodeAppcRecord F_Flush (no_input\<lparr>in_timeout := Some (- 2)\<rparr>) (replicate 32 0) 3 [[1, 2], [3]] = Inr out \<and>
     drop 80 out = [1, 2, 3] \<and> map_result (\<lambda>b. map_sum id h_timeout (decodeAppcHeader b)) [out] = Inr [- 2]"
proof -
  let ?i = "no_input\<lparr>in_timeout := Some (- 2)\<rparr>"
  have "\<exists>out. encodeAppcRecord F_Flush ?i (replicate 32 0) 3 [[1, 2], [3]] = Inr out"
    by (simp add: encodeAppcRecord_iff input_fits_def between_def no_input_def max_safe_integer_def)
  then obtain out where out: "encodeAppcRecord F_Flush ?i (replicate 32 0) 3 [[1, 2], [3]] = Inr out" ..
  from appc_record_roundtrip [OF out] out show ?thesis
    by (simp add: header_of_def APPC_RECORD_HEADER_LENGTH_def no_input_def)
qed

end
