(* ===== verification/Ascii.thy ===== *)
theory Ascii
  imports Bytes
begin

text \<open>
  The text fields of the fixed-layout records of \<open>src/protocol/appc.ts\<close>: names in eight
  bytes, names padded to a width, hexadecimal identifiers. A \<open>Buffer\<close> read with
  \<open>toString("ascii")\<close> loses the highest bit of every byte, as Node documents.
\<close>

definition ascii_bytes :: "string \<Rightarrow> bytes" where
  "ascii_bytes s = map (\<lambda>c. word_of_nat (of_char c)) s"

definition ascii_string :: "bytes \<Rightarrow> string" where
  "ascii_string bs = map (\<lambda>b. char_of (unat b mod 128)) bs"

text \<open>The class \<open>[\x20-\x7e]\<close> of the regular expressions, on characters and on bytes.\<close>

definition printable :: "char \<Rightarrow> bool" where
  "printable c \<longleftrightarrow> 0x20 \<le> (of_char c :: nat) \<and> (of_char c :: nat) \<le> 0x7e"

definition printable_byte :: "byte \<Rightarrow> bool" where
  "printable_byte b \<longleftrightarrow> 0x20 \<le> unat b \<and> unat b \<le> 0x7e"

definition encodeFixedAscii :: "string \<Rightarrow> bytes result" where
  "encodeFixedAscii value =
    (if \<not> list_all printable value \<or> 8 < length value
     then Inl (RangeError ''must contain at most 8 ASCII bytes'')
     else Inr (splice 0 (ascii_bytes value) (replicate 8 (if length value = 0 then 0 else 0x20))))"

definition strip_padding :: "string \<Rightarrow> string" where
  "strip_padding s = rev (dropWhile (\<lambda>c. c = CHR 0x00 \<or> c = CHR 0x20) (rev s))"

definition decodeFixedAscii :: "bytes \<Rightarrow> string result" where
  "decodeFixedAscii value =
    (if list_ex (\<lambda>b. b \<noteq> 0 \<and> \<not> printable_byte b) value
     then Inl (PlainError ''contains a non-ASCII byte'')
     else Inr (strip_padding (ascii_string value)))"

definition encodePaddedAscii :: "string \<Rightarrow> nat \<Rightarrow> byte \<Rightarrow> bytes result" where
  "encodePaddedAscii value width padding =
    (if \<not> list_all printable value \<or> width < length value
     then Inl (RangeError ''must contain at most width ASCII bytes'')
     else Inr (splice 0 (ascii_bytes value) (replicate width padding)))"

definition decodePaddedAscii :: "bytes \<Rightarrow> byte \<Rightarrow> string result" where
  "decodePaddedAscii encoded padding =
    (let body = takeWhile (\<lambda>b. b \<noteq> padding) encoded in
     if list_ex (\<lambda>b. \<not> printable_byte b) body
     then Inl (PlainError ''contains a non-ASCII byte'')
     else if list_ex (\<lambda>b. b \<noteq> padding) (drop (length body) encoded)
     then Inl (PlainError ''contains data after its first padding byte'')
     else Inr (ascii_string body))"

definition is_upper_hex :: "char \<Rightarrow> bool" where
  "is_upper_hex c \<longleftrightarrow> (0x30 \<le> (of_char c :: nat) \<and> (of_char c :: nat) \<le> 0x39) \<or>
     (0x41 \<le> (of_char c :: nat) \<and> (of_char c :: nat) \<le> 0x46)"

definition fixedHexId :: "string \<Rightarrow> bytes result" where
  "fixedHexId value =
    (if length value = 16 \<and> list_all is_upper_hex value then Inr (ascii_bytes value)
     else Inl (RangeError ''must contain exactly 16 uppercase hexadecimal characters''))"

section \<open>Round trips\<close>

lemma length_ascii_bytes [simp]: "length (ascii_bytes s) = length s"
  by (simp add: ascii_bytes_def)

lemma unat_of_char_byte [simp]: "unat (word_of_nat (of_char c) :: byte) = of_char c"
  by (simp add: unat_of_nat)

lemma printable_byte_of_char [simp]: "printable_byte (word_of_nat (of_char c)) = printable c"
  by (simp add: printable_byte_def printable_def)

lemma ascii_string_bytes: "list_all printable s \<Longrightarrow> ascii_string (ascii_bytes s) = s"
  by (induction s) (simp_all add: ascii_string_def ascii_bytes_def printable_def)

lemma ascii_string_append [simp]: "ascii_string (a @ b) = ascii_string a @ ascii_string b"
  by (simp add: ascii_string_def)

lemma upper_hex_printable: "is_upper_hex c \<Longrightarrow> printable c"
  by (auto simp: is_upper_hex_def printable_def)

definition fixed_name :: "string \<Rightarrow> bool" where
  "fixed_name v \<longleftrightarrow> list_all printable v \<and> length v \<le> 8 \<and> (v \<noteq> [] \<longrightarrow> last v \<noteq> CHR 0x20)"

definition fixed_field :: "string \<Rightarrow> bytes" where
  "fixed_field v = ascii_bytes v @ replicate (8 - length v) (if v = [] then 0 else 0x20)"

lemma encodeFixedAscii_iff [simp]:
  "encodeFixedAscii v = Inr b \<longleftrightarrow> list_all printable v \<and> length v \<le> 8 \<and> b = fixed_field v"
  by (auto simp: encodeFixedAscii_def fixed_field_def splice_def)

lemma encodeFixedAscii_eq:
  "list_all printable v \<Longrightarrow> length v \<le> 8 \<Longrightarrow> encodeFixedAscii v = Inr (fixed_field v)"
  by simp

lemma length_fixed_field [simp]: "length v \<le> 8 \<Longrightarrow> length (fixed_field v) = 8"
  by (simp add: fixed_field_def)

lemma strip_padding_pads:
  assumes "list_all printable v" and "v \<noteq> [] \<longrightarrow> last v \<noteq> CHR 0x20" and "c = CHR 0x00 \<or> c = CHR 0x20"
  shows "strip_padding (v @ replicate n c) = v"
proof -
  have "last v \<noteq> CHR 0x00" if "v \<noteq> []"
    using assms(1) last_in_set [OF that] by (auto simp: printable_def list_all_iff)
  then have "dropWhile (\<lambda>c. c = CHR 0x00 \<or> c = CHR 0x20) (replicate n c @ rev v) = rev v"
    using assms by (induction n) (auto simp: dropWhile_eq_self_iff hd_rev)
  then show ?thesis by (simp add: strip_padding_def)
qed

lemma decodeFixedAscii_field:
  assumes "fixed_name v"
  shows "decodeFixedAscii (fixed_field v) = Inr v"
proof -
  let ?p = "if v = [] then (0 :: byte) else 0x20"
  have "\<not> list_ex (\<lambda>b. b \<noteq> 0 \<and> \<not> printable_byte b) (fixed_field v)"
    using assms by (auto simp: fixed_name_def fixed_field_def ascii_bytes_def list_ex_iff list_all_iff
        printable_byte_def [of "0x20"])
  moreover have "ascii_string (fixed_field v) = v @ replicate (8 - length v) (char_of (unat ?p mod 128))"
    using assms by (simp add: fixed_name_def fixed_field_def ascii_string_bytes)
      (simp add: ascii_string_def)
  moreover have "strip_padding (v @ replicate (8 - length v) (char_of (unat ?p mod 128))) = v"
    using assms by (intro strip_padding_pads) (auto simp: fixed_name_def char_of_def)
  ultimately show ?thesis by (simp add: decodeFixedAscii_def)
qed

definition padded_name :: "nat \<Rightarrow> byte \<Rightarrow> string \<Rightarrow> bool" where
  "padded_name width pad v \<longleftrightarrow> list_all printable v \<and> length v \<le> width \<and> pad \<notin> set (ascii_bytes v)"

definition padded_field :: "nat \<Rightarrow> byte \<Rightarrow> string \<Rightarrow> bytes" where
  "padded_field width pad v = ascii_bytes v @ replicate (width - length v) pad"

lemma encodePaddedAscii_iff [simp]:
  "encodePaddedAscii v width pad = Inr b \<longleftrightarrow>
     list_all printable v \<and> length v \<le> width \<and> b = padded_field width pad v"
  by (auto simp: encodePaddedAscii_def padded_field_def splice_def)

lemma length_padded_field [simp]: "length v \<le> width \<Longrightarrow> length (padded_field width pad v) = width"
  by (simp add: padded_field_def)

lemma encodePaddedAscii_eq:
  "padded_name width pad v \<Longrightarrow> encodePaddedAscii v width pad = Inr (padded_field width pad v)"
  by (simp add: padded_name_def)

lemma decodePaddedAscii_field:
  assumes "padded_name width pad v"
  shows "decodePaddedAscii (padded_field width pad v) pad = Inr v"
proof -
  have "takeWhile (\<lambda>b. b \<noteq> pad) (padded_field width pad v) = ascii_bytes v"
    using assms by (auto simp: padded_name_def padded_field_def takeWhile_append)
  moreover have "\<not> list_ex (\<lambda>b. \<not> printable_byte b) (ascii_bytes v)"
    using assms by (auto simp: padded_name_def ascii_bytes_def list_ex_iff list_all_iff)
  moreover have "\<not> list_ex (\<lambda>b. b \<noteq> pad) (drop (length v) (padded_field width pad v))"
    by (auto simp: padded_field_def list_ex_iff)
  ultimately show ?thesis
    using assms by (simp add: decodePaddedAscii_def padded_name_def ascii_string_bytes)
qed

lemma fixedHexId_string: "fixedHexId v = Inr b \<Longrightarrow> length b = 16 \<and> ascii_string b = v"
  by (auto simp: fixedHexId_def list_all_iff upper_hex_printable intro!: ascii_string_bytes split: if_splits)

interpretation fixed_ascii: exact_codec encodeFixedAscii decodeFixedAscii fixed_name
  by unfold_locales (auto simp: decodeFixedAscii_field fixed_name_def)

interpretation padded_ascii: exact_codec "\<lambda>v. encodePaddedAscii v width pad"
  "\<lambda>b. decodePaddedAscii b pad" "padded_name width pad" for width pad
  by unfold_locales (auto simp: decodePaddedAscii_field padded_name_def)

end
