(* ===== verification/AppcInfo.thy ===== *)
theory AppcInfo
  imports AppcRecord Ascii
begin

text \<open>
  The operation-information blocks and setup parameters of \<open>src/protocol/appc.ts\<close>, and the
  setup records that carry them. Each encoder and its decoder is a codec for the values the
  decoder accepts, and provides the codec interface of the prelude.
\<close>

section \<open>Extended connection information\<close>

record appc_extended_info =
  x_shortDestinationName :: string
  x_logicalUnitName :: string
  x_transactionProgramName :: string
  x_connectionType :: int
  x_clientInfo :: int
  x_communicationIndex :: int
  x_connectionIndex :: int

definition encodeAppcExtendedInfo :: "appc_extended_info \<Rightarrow> bytes result" where
  "encodeAppcExtendedInfo info =
     rbind (writer_new 32) (\<lambda>w.
     rbind (encodeFixedAscii (x_shortDestinationName info)) (\<lambda>b.
     rbind (writeBytes w b) (\<lambda>w.
     rbind (encodeFixedAscii (x_logicalUnitName info)) (\<lambda>b.
     rbind (writeBytes w b) (\<lambda>w.
     rbind (encodeFixedAscii (x_transactionProgramName info)) (\<lambda>b.
     rbind (writeBytes w b) (\<lambda>w.
     rbind (writeUInt8 w (x_connectionType info)) (\<lambda>w.
     rbind (writeUInt8 w (x_clientInfo info)) (\<lambda>w.
     rbind (writeUInt16BE w 0) (\<lambda>w.
     rbind (writeUInt16BE w (x_communicationIndex info)) (\<lambda>w.
     rbind (writeUInt16BE w (x_connectionIndex info)) (\<lambda>w.
     writer_finish w))))))))))))"

definition decodeAppcExtendedInfo :: "bytes \<Rightarrow> appc_extended_info result" where
  "decodeAppcExtendedInfo data =
    (if length data \<noteq> 32 then Inl (RangeError ''APPC extended info needs exactly 32 bytes'')
     else
       rbind (readBytes (reader_new data) 8) (\<lambda>(b, r).
       rbind (decodeFixedAscii b) (\<lambda>shortDestinationName.
       rbind (readBytes r 8) (\<lambda>(b, r).
       rbind (decodeFixedAscii b) (\<lambda>logicalUnitName.
       rbind (readBytes r 8) (\<lambda>(b, r).
       rbind (decodeFixedAscii b) (\<lambda>transactionProgramName.
       rbind (readUInt8 r) (\<lambda>(connectionType, r).
       rbind (readUInt8 r) (\<lambda>(clientInfo, r).
       rbind (readUInt16BE r) (\<lambda>(reserved, r).
       if reserved \<noteq> 0 then Inl (PlainError ''APPC extended info reserved field must be zero'')
       else
       rbind (readUInt16BE r) (\<lambda>(communicationIndex, r).
       rbind (readUInt16BE r) (\<lambda>(connectionIndex, r).
       rbind (reader_finish r) (\<lambda>_.
       Inr \<lparr>x_shortDestinationName = shortDestinationName, x_logicalUnitName = logicalUnitName,
            x_transactionProgramName = transactionProgramName,
            x_connectionType = int connectionType, x_clientInfo = int clientInfo,
            x_communicationIndex = int communicationIndex,
            x_connectionIndex = int connectionIndex\<rparr>)))))))))))))"

definition extended_info_bytes :: "appc_extended_info \<Rightarrow> bytes" where
  "extended_info_bytes i = fixed_field (x_shortDestinationName i) @ fixed_field (x_logicalUnitName i) @
     fixed_field (x_transactionProgramName i) @ be_encode 1 (nat (x_connectionType i)) @
     be_encode 1 (nat (x_clientInfo i)) @ be_encode 2 0 @
     be_encode 2 (nat (x_communicationIndex i)) @ be_encode 2 (nat (x_connectionIndex i))"

definition extended_info_ok :: "appc_extended_info \<Rightarrow> bool" where
  "extended_info_ok i \<longleftrightarrow> fixed_name (x_shortDestinationName i) \<and> fixed_name (x_logicalUnitName i) \<and>
     fixed_name (x_transactionProgramName i) \<and> between 0 0xff (x_connectionType i) \<and>
     between 0 0xff (x_clientInfo i) \<and> between 0 0xffff (x_communicationIndex i) \<and>
     between 0 0xffff (x_connectionIndex i)"

lemma encodeAppcExtendedInfo_eq:
  "extended_info_ok i \<Longrightarrow> encodeAppcExtendedInfo i = Inr (extended_info_bytes i)"
  by (simp add: encodeAppcExtendedInfo_def extended_info_ok_def extended_info_bytes_def between_def
      fixed_name_def max_safe_integer_def writer_simps encodeFixedAscii_eq del: rbind_eq_Inr)

lemma decodeAppcExtendedInfo_eq:
  "extended_info_ok i \<Longrightarrow> decodeAppcExtendedInfo (extended_info_bytes i) = Inr i"
  by (simp add: decodeAppcExtendedInfo_def extended_info_ok_def extended_info_bytes_def between_def
      fixed_name_def decodeFixedAscii_field reader_fields nat_less_iff del: rbind_eq_Inr)

interpretation extended_info: exact_codec encodeAppcExtendedInfo decodeAppcExtendedInfo extended_info_ok
  by unfold_locales (auto simp: encodeAppcExtendedInfo_eq decodeAppcExtendedInfo_eq)

definition defaultExtendedInfo :: appc_extended_info where
  "defaultExtendedInfo = \<lparr>x_shortDestinationName = [], x_logicalUnitName = [],
     x_transactionProgramName = [], x_connectionType = 0, x_clientInfo = 0,
     x_communicationIndex = 0, x_connectionIndex = 0\<rparr>"

section \<open>Partner logical unit\<close>

record appc_partner_input =
  pi_logicalUnitName :: string
  pi_partnerHostAddress :: bytes
  pi_communicationIndex :: int
  pi_connectionIndex :: int

record appc_partner_info =
  pl_logicalUnitNamePrefix :: string
  pl_logicalUnitNameLength :: nat
  pl_partnerHostAddress :: bytes
  pl_communicationIndex :: int
  pl_connectionIndex :: int

definition encodeAppcPartnerLogicalUnitInfo :: "appc_partner_input \<Rightarrow> bytes result" where
  "encodeAppcPartnerLogicalUnitInfo info =
    (if \<not> list_all printable (pi_logicalUnitName info) \<or> 128 < length (pi_logicalUnitName info)
     then Inl (RangeError ''logicalUnitName must contain at most 128 ASCII bytes'')
     else rbind (encodeFixedAscii (take 8 (pi_logicalUnitName info))) (\<lambda>prefix.
     if length (pi_partnerHostAddress info) \<noteq> 16
     then Inl (RangeError ''partnerHostAddress must contain exactly 16 bytes'')
     else
       rbind (writer_new 32) (\<lambda>w.
       rbind (writeBytes w prefix) (\<lambda>w.
       rbind (writeUInt32BE w (int (length (pi_logicalUnitName info)))) (\<lambda>w.
       rbind (writeBytes w (pi_partnerHostAddress info)) (\<lambda>w.
       rbind (writeUInt16BE w (pi_communicationIndex info)) (\<lambda>w.
       rbind (writeUInt16BE w (pi_connectionIndex info)) (\<lambda>w.
       writer_finish w))))))))"

definition decodeAppcPartnerLogicalUnitInfo :: "bytes \<Rightarrow> appc_partner_info result" where
  "decodeAppcPartnerLogicalUnitInfo data =
    (if length data \<noteq> 32
     then Inl (RangeError ''APPC partner logical-unit info needs exactly 32 bytes'')
     else
       rbind (readBytes (reader_new data) 8) (\<lambda>(encodedName, r).
       rbind (readUInt32BE r) (\<lambda>(nameLength, r).
       if 128 < nameLength
       then Inl (PlainError ''APPC partner logical-unit name length must be at most 128'')
       else rbind (decodeFixedAscii encodedName) (\<lambda>prefix.
       if length prefix \<noteq> min nameLength 8
       then Inl (PlainError ''name prefix length does not match declared length'')
       else
       rbind (readBytes r 16) (\<lambda>(partnerHostAddress, r).
       rbind (readUInt16BE r) (\<lambda>(communicationIndex, r).
       rbind (readUInt16BE r) (\<lambda>(connectionIndex, r).
       rbind (reader_finish r) (\<lambda>_.
       Inr \<lparr>pl_logicalUnitNamePrefix = prefix, pl_logicalUnitNameLength = nameLength,
            pl_partnerHostAddress = partnerHostAddress,
            pl_communicationIndex = int communicationIndex,
            pl_connectionIndex = int connectionIndex\<rparr>))))))))"

text \<open>What a partner record keeps of the name: its first eight characters and its length.\<close>

definition partner_info_of :: "appc_partner_input \<Rightarrow> appc_partner_info" where
  "partner_info_of i = \<lparr>pl_logicalUnitNamePrefix = take 8 (pi_logicalUnitName i),
     pl_logicalUnitNameLength = length (pi_logicalUnitName i),
     pl_partnerHostAddress = pi_partnerHostAddress i,
     pl_communicationIndex = pi_communicationIndex i, pl_connectionIndex = pi_connectionIndex i\<rparr>"

definition partner_info_bytes :: "appc_partner_input \<Rightarrow> bytes" where
  "partner_info_bytes i = fixed_field (take 8 (pi_logicalUnitName i)) @
     be_encode 4 (length (pi_logicalUnitName i)) @ pi_partnerHostAddress i @
     be_encode 2 (nat (pi_communicationIndex i)) @ be_encode 2 (nat (pi_connectionIndex i))"

definition partner_input_ok :: "appc_partner_input \<Rightarrow> bool" where
  "partner_input_ok i \<longleftrightarrow> fixed_name (take 8 (pi_logicalUnitName i)) \<and>
     list_all printable (pi_logicalUnitName i) \<and> length (pi_logicalUnitName i) \<le> 128 \<and>
     length (pi_partnerHostAddress i) = 16 \<and> between 0 0xffff (pi_communicationIndex i) \<and>
     between 0 0xffff (pi_connectionIndex i)"

lemma encodeAppcPartnerLogicalUnitInfo_eq:
  "partner_input_ok i \<Longrightarrow> encodeAppcPartnerLogicalUnitInfo i = Inr (partner_info_bytes i)"
  by (simp add: encodeAppcPartnerLogicalUnitInfo_def partner_input_ok_def partner_info_bytes_def
      between_def fixed_name_def max_safe_integer_def writer_simps encodeFixedAscii_eq del: rbind_eq_Inr)

lemma decodeAppcPartnerLogicalUnitInfo_eq:
  assumes "partner_input_ok i"
  shows "decodeAppcPartnerLogicalUnitInfo (partner_info_bytes i) = Inr (partner_info_of i)"
proof -
  have "length (fixed_field (take 8 (pi_logicalUnitName i))) = 8" by simp
  with assms show ?thesis
    by (simp add: decodeAppcPartnerLogicalUnitInfo_def partner_input_ok_def partner_info_bytes_def
        between_def partner_info_of_def decodeFixedAscii_field reader_fields nat_less_iff
        del: rbind_eq_Inr)
qed

section \<open>Extended initialization options\<close>

record appc_init_options =
  o_optionFlags :: int
  o_rootId :: string
  o_connectionId :: string
  o_connectionIdSuffix :: int
  o_timeout :: int
  o_keepaliveTimeout :: int
  o_exportTrace :: int
  o_startType :: int
  o_networkProtocol :: int
  o_localAddressV6 :: bytes
  o_longLogicalUnitName :: string
  o_operatingSystemUser :: string
  o_localAddressV4 :: bytes
  o_longTransactionProgramName :: string

definition APPC_EXTENDED_INITIALIZE_OPTIONS_LENGTH :: nat where
  "APPC_EXTENDED_INITIALIZE_OPTIONS_LENGTH = 341"

definition encodeAppcExtendedInitializeOptions :: "appc_init_options \<Rightarrow> bytes result" where
  "encodeAppcExtendedInitializeOptions opts =
     rbind (writer_new (int APPC_EXTENDED_INITIALIZE_OPTIONS_LENGTH)) (\<lambda>w.
     rbind (writeUInt8 w 1) (\<lambda>w.
     rbind (writeUInt8 w (o_optionFlags opts)) (\<lambda>w.
     rbind (encodePaddedAscii ''CPIC'' 8 0) (\<lambda>b.
     rbind (writeBytes w b) (\<lambda>w.
     rbind (fixedHexId (o_rootId opts)) (\<lambda>b.
     rbind (writeBytes w b) (\<lambda>w.
     rbind (fixedHexId (o_connectionId opts)) (\<lambda>b.
     rbind (writeBytes w b) (\<lambda>w.
     rbind (writeUInt32BE w (o_connectionIdSuffix opts)) (\<lambda>w.
     rbind (writeInt32BE w (o_timeout opts)) (\<lambda>w.
     rbind (writeInt32BE w (o_keepaliveTimeout opts)) (\<lambda>w.
     rbind (writeUInt8 w (o_exportTrace opts)) (\<lambda>w.
     rbind (writeUInt8 w (o_startType opts)) (\<lambda>w.
     rbind (writeUInt8 w (o_networkProtocol opts)) (\<lambda>w.
     rbind (appc_exactBytes (o_localAddressV6 opts) 16) (\<lambda>b.
     rbind (writeBytes w b) (\<lambda>w.
     rbind (encodePaddedAscii (o_longLogicalUnitName opts) 128 0) (\<lambda>b.
     rbind (writeBytes w b) (\<lambda>w.
     rbind (writeBytes w (replicate 16 0)) (\<lambda>w.
     rbind (encodePaddedAscii (o_operatingSystemUser opts) 12 0x20) (\<lambda>b.
     rbind (writeBytes w b) (\<lambda>w.
     rbind (writeBytes w (replicate 8 0)) (\<lambda>w.
     rbind (writeBytes w (replicate 4 0)) (\<lambda>w.
     rbind (writeBytes w (replicate 12 0)) (\<lambda>w.
     rbind (writeBytes w (replicate 16 0)) (\<lambda>w.
     rbind (appc_exactBytes (o_localAddressV4 opts) 4) (\<lambda>b.
     rbind (writeBytes w b) (\<lambda>w.
     rbind (writeBytes w (replicate 4 0)) (\<lambda>w.
     rbind (encodePaddedAscii (o_longTransactionProgramName opts) 64 0) (\<lambda>b.
     rbind (writeBytes w b) (\<lambda>w.
     writer_finish w)))))))))))))))))))))))))))))))"

text \<open>The two loops over reserved fields, which must be zero.\<close>

fun readReserved :: "reader \<Rightarrow> int list \<Rightarrow> reader result" where
  "readReserved r [] = Inr r"
| "readReserved r (n # ns) = rbind (readBytes r n) (\<lambda>(reserved, r).
     if list_ex (\<lambda>b. b \<noteq> 0) reserved
     then Inl (PlainError ''APPC extended initialize reserved field must be zero'')
     else readReserved r ns)"

definition decodeAppcExtendedInitializeOptions :: "bytes \<Rightarrow> appc_init_options result" where
  "decodeAppcExtendedInitializeOptions data =
    (if length data \<noteq> APPC_EXTENDED_INITIALIZE_OPTIONS_LENGTH
     then Inl (RangeError ''APPC extended initialize options need exactly 341 bytes'')
     else
       rbind (readUInt8 (reader_new data)) (\<lambda>(version, r).
       if version \<noteq> 1
       then Inl (PlainError ''unsupported APPC extended initialize options version'')
       else
       rbind (readUInt8 r) (\<lambda>(optionFlags, r).
       rbind (readBytes r 8) (\<lambda>(b, r).
       rbind (decodePaddedAscii b 0) (\<lambda>protocolName.
       if protocolName \<noteq> ''CPIC''
       then Inl (PlainError ''unsupported APPC extended initialize protocol'')
       else
       rbind (readBytes r 16) (\<lambda>(b, r).
       let rootId = ascii_string b in
       rbind (fixedHexId rootId) (\<lambda>_.
       rbind (readBytes r 16) (\<lambda>(b, r).
       let connectionId = ascii_string b in
       rbind (fixedHexId connectionId) (\<lambda>_.
       rbind (readUInt32BE r) (\<lambda>(connectionIdSuffix, r).
       rbind (readInt32BE r) (\<lambda>(timeout, r).
       rbind (readInt32BE r) (\<lambda>(keepaliveTimeout, r).
       rbind (readUInt8 r) (\<lambda>(exportTrace, r).
       rbind (readUInt8 r) (\<lambda>(startType, r).
       rbind (readUInt8 r) (\<lambda>(networkProtocol, r).
       rbind (readBytes r 16) (\<lambda>(localAddressV6, r).
       rbind (readBytes r 128) (\<lambda>(b, r).
       rbind (decodePaddedAscii b 0) (\<lambda>longLogicalUnitName.
       rbind (readReserved r [16]) (\<lambda>r.
       rbind (readBytes r 12) (\<lambda>(b, r).
       rbind (decodePaddedAscii b 0x20) (\<lambda>operatingSystemUser.
       rbind (readReserved r [8, 4, 12, 16]) (\<lambda>r.
       rbind (readBytes r 4) (\<lambda>(localAddressV4, r).
       rbind (readReserved r [4]) (\<lambda>r.
       rbind (readBytes r 64) (\<lambda>(b, r).
       rbind (decodePaddedAscii b 0) (\<lambda>longTransactionProgramName.
       rbind (reader_finish r) (\<lambda>_.
       Inr \<lparr>o_optionFlags = int optionFlags, o_rootId = rootId, o_connectionId = connectionId,
            o_connectionIdSuffix = int connectionIdSuffix, o_timeout = timeout,
            o_keepaliveTimeout = keepaliveTimeout, o_exportTrace = int exportTrace,
            o_startType = int startType, o_networkProtocol = int networkProtocol,
            o_localAddressV6 = localAddressV6, o_longLogicalUnitName = longLogicalUnitName,
            o_operatingSystemUser = operatingSystemUser, o_localAddressV4 = localAddressV4,
            o_longTransactionProgramName = longTransactionProgramName\<rparr>)))))))))))))))))))))))))))"

definition init_options_with :: "bytes \<Rightarrow> bytes \<Rightarrow> appc_init_options \<Rightarrow> bytes" where
  "init_options_with rootId connectionId x = be_encode 1 1 @ be_encode 1 (nat (o_optionFlags x)) @
     padded_field 8 0 ''CPIC'' @ rootId @ connectionId @
     be_encode 4 (nat (o_connectionIdSuffix x)) @ be_encode 4 (from_signed 4 (o_timeout x)) @
     be_encode 4 (from_signed 4 (o_keepaliveTimeout x)) @ be_encode 1 (nat (o_exportTrace x)) @
     be_encode 1 (nat (o_startType x)) @ be_encode 1 (nat (o_networkProtocol x)) @
     o_localAddressV6 x @ padded_field 128 0 (o_longLogicalUnitName x) @ replicate 16 0 @
     padded_field 12 0x20 (o_operatingSystemUser x) @ replicate 8 0 @ replicate 4 0 @
     replicate 12 0 @ replicate 16 0 @ o_localAddressV4 x @ replicate 4 0 @
     padded_field 64 0 (o_longTransactionProgramName x)"

definition init_options_bytes :: "appc_init_options \<Rightarrow> bytes" where
  "init_options_bytes x = init_options_with (ascii_bytes (o_rootId x)) (ascii_bytes (o_connectionId x)) x"

definition hex_id :: "string \<Rightarrow> bool" where
  "hex_id v \<longleftrightarrow> length v = 16 \<and> list_all is_upper_hex v"

definition init_options_ok :: "appc_init_options \<Rightarrow> bool" where
  "init_options_ok x \<longleftrightarrow> between 0 0xff (o_optionFlags x) \<and> hex_id (o_rootId x) \<and>
     hex_id (o_connectionId x) \<and> between 0 0xffffffff (o_connectionIdSuffix x) \<and>
     between (- 0x80000000) 0x7fffffff (o_timeout x) \<and>
     between (- 0x80000000) 0x7fffffff (o_keepaliveTimeout x) \<and> between 0 0xff (o_exportTrace x) \<and>
     between 0 0xff (o_startType x) \<and> between 0 0xff (o_networkProtocol x) \<and>
     length (o_localAddressV6 x) = 16 \<and> padded_name 128 0 (o_longLogicalUnitName x) \<and>
     padded_name 12 0x20 (o_operatingSystemUser x) \<and> length (o_localAddressV4 x) = 4 \<and>
     padded_name 64 0 (o_longTransactionProgramName x)"

lemma padded_name_length: "padded_name width pad v \<Longrightarrow> length v \<le> width"
  by (simp add: padded_name_def)

lemma hex_id_codec:
  assumes "hex_id v"
  shows "fixedHexId v = Inr (ascii_bytes v)" and "ascii_string (ascii_bytes v) = v" and "length v = 16"
  using assms by (auto simp: hex_id_def fixedHexId_def list_all_iff upper_hex_printable intro!: ascii_string_bytes)

lemma cpic_name: "padded_name 8 0 ''CPIC''"
  by (simp add: padded_name_def printable_def ascii_bytes_def)

lemma encodeAppcExtendedInitializeOptions_eq:
  assumes "init_options_ok x"
  shows "encodeAppcExtendedInitializeOptions x = Inr (init_options_bytes x)"
  using assms padded_name_length [of 128 0 "o_longLogicalUnitName x"]
    padded_name_length [of 12 "0x20" "o_operatingSystemUser x"]
    padded_name_length [of 64 0 "o_longTransactionProgramName x"]
  by (simp add: encodeAppcExtendedInitializeOptions_def init_options_ok_def init_options_bytes_def init_options_with_def
      between_def max_safe_integer_def writer_simps encodePaddedAscii_eq hex_id_codec cpic_name
      appc_exactBytes_def APPC_EXTENDED_INITIALIZE_OPTIONS_LENGTH_def del: rbind_eq_Inr)

lemma readReserved_zero [reader_fields]:
  assumes "0 < n" and "n \<le> 9007199254740991" and "k = nat n"
  shows "readReserved (reader_on pre (replicate k 0 @ rest)) (n # ns) =
    readReserved (reader_on (pre @ replicate k 0) rest) ns"
  using assms by (simp add: reads_bytes list_ex_iff del: rbind_eq_Inr)

lemma length_init_options_with:
  assumes "init_options_ok x" and "length r = 16" and "length c = 16"
  shows "length (init_options_with r c x) = 341"
  using assms padded_name_length [of 128 0 "o_longLogicalUnitName x"]
    padded_name_length [of 12 "0x20" "o_operatingSystemUser x"]
    padded_name_length [of 64 0 "o_longTransactionProgramName x"]
  by (simp add: init_options_ok_def init_options_with_def)

text \<open>The identifiers are checked after the conversion to text, so the decoder accepts every pair
  of 16-byte fields that convert to them.\<close>

lemma decode_init_options_with:
  assumes "init_options_ok x" and "length r = 16" and "ascii_string r = o_rootId x"
    and "length c = 16" and "ascii_string c = o_connectionId x"
  shows "decodeAppcExtendedInitializeOptions (init_options_with r c x) = Inr x"
  using assms length_init_options_with [OF assms(1,2,4)] padded_name_length [of 128 0 "o_longLogicalUnitName x"]
    padded_name_length [of 12 "0x20" "o_operatingSystemUser x"]
    padded_name_length [of 64 0 "o_longTransactionProgramName x"] decodePaddedAscii_field [OF cpic_name]
  by (simp add: decodeAppcExtendedInitializeOptions_def APPC_EXTENDED_INITIALIZE_OPTIONS_LENGTH_def
      del: rbind_eq_Inr readReserved.simps(2))
    (simp add: init_options_with_def init_options_ok_def between_def decodePaddedAscii_field
      reader_fields nat_less_iff hex_id_codec Let_def del: rbind_eq_Inr readReserved.simps(2))

lemma decodeAppcExtendedInitializeOptions_eq:
  "init_options_ok x \<Longrightarrow> decodeAppcExtendedInitializeOptions (init_options_bytes x) = Inr x"
  unfolding init_options_bytes_def
  by (intro decode_init_options_with) (auto simp: init_options_ok_def hex_id_codec)

interpretation init_options: exact_codec encodeAppcExtendedInitializeOptions
  decodeAppcExtendedInitializeOptions init_options_ok
  by unfold_locales
    (auto simp: encodeAppcExtendedInitializeOptions_eq decodeAppcExtendedInitializeOptions_eq)

section \<open>Setup parameters\<close>

record appc_init_parameters =
  ip_clientIdentifier :: string
  ip_options :: appc_init_options

definition encodeAppcInitializeParameters :: "appc_init_parameters \<Rightarrow> bytes result" where
  "encodeAppcInitializeParameters ps =
     rbind (writer_new 373) (\<lambda>w.
     rbind (encodePaddedAscii (ip_clientIdentifier ps) 32 0x20) (\<lambda>b.
     rbind (writeBytes w b) (\<lambda>w.
     rbind (encodeAppcExtendedInitializeOptions (ip_options ps)) (\<lambda>b.
     rbind (writeBytes w b) (\<lambda>w.
     writer_finish w)))))"

definition decodeAppcInitializeParameters :: "bytes \<Rightarrow> appc_init_parameters result" where
  "decodeAppcInitializeParameters data =
    (if length data \<noteq> 373
     then Inl (RangeError ''APPC initialize parameters need exactly 373 bytes'')
     else
       rbind (readBytes (reader_new data) 32) (\<lambda>(b, r).
       rbind (decodePaddedAscii b 0x20) (\<lambda>clientIdentifier.
       rbind (readBytes r (int APPC_EXTENDED_INITIALIZE_OPTIONS_LENGTH)) (\<lambda>(b, r).
       rbind (decodeAppcExtendedInitializeOptions b) (\<lambda>options.
       rbind (reader_finish r) (\<lambda>_.
       Inr \<lparr>ip_clientIdentifier = clientIdentifier, ip_options = options\<rparr>))))))"

record appc_partner_parameters =
  pp_longLogicalUnitName :: string
  pp_partnerHostAddress :: bytes

definition encodeAppcPartnerLogicalUnitParameters :: "appc_partner_parameters \<Rightarrow> bytes result" where
  "encodeAppcPartnerLogicalUnitParameters ps =
     rbind (writer_new 144) (\<lambda>w.
     rbind (encodePaddedAscii (pp_longLogicalUnitName ps) 128 0x20) (\<lambda>b.
     rbind (writeBytes w b) (\<lambda>w.
     rbind (appc_exactBytes (pp_partnerHostAddress ps) 16) (\<lambda>b.
     rbind (writeBytes w b) (\<lambda>w.
     writer_finish w)))))"

definition decodeAppcPartnerLogicalUnitParameters :: "bytes \<Rightarrow> appc_partner_parameters result" where
  "decodeAppcPartnerLogicalUnitParameters data =
    (if length data \<noteq> 144
     then Inl (RangeError ''APPC partner logical-unit parameters need exactly 144 bytes'')
     else
       rbind (readBytes (reader_new data) 128) (\<lambda>(b, r).
       rbind (decodePaddedAscii b 0x20) (\<lambda>longLogicalUnitName.
       rbind (readBytes r 16) (\<lambda>(partnerHostAddress, r).
       rbind (reader_finish r) (\<lambda>_.
       Inr \<lparr>pp_longLogicalUnitName = longLogicalUnitName,
            pp_partnerHostAddress = partnerHostAddress\<rparr>)))))"

definition init_parameters_ok :: "appc_init_parameters \<Rightarrow> bool" where
  "init_parameters_ok ps \<longleftrightarrow> padded_name 32 0x20 (ip_clientIdentifier ps) \<and> init_options_ok (ip_options ps)"

definition partner_parameters_ok :: "appc_partner_parameters \<Rightarrow> bool" where
  "partner_parameters_ok ps \<longleftrightarrow> padded_name 128 0x20 (pp_longLogicalUnitName ps) \<and>
     length (pp_partnerHostAddress ps) = 16"

lemma length_init_options_bytes: "init_options_ok x \<Longrightarrow> length (init_options_bytes x) = 341"
  unfolding init_options_bytes_def
  by (intro length_init_options_with) (auto simp: init_options_ok_def hex_id_codec)

lemma encodeAppcInitializeParameters_eq:
  assumes "init_parameters_ok ps"
  shows "encodeAppcInitializeParameters ps =
    Inr (padded_field 32 0x20 (ip_clientIdentifier ps) @ init_options_bytes (ip_options ps))"
  using assms padded_name_length [of 32 "0x20" "ip_clientIdentifier ps"]
    length_init_options_bytes [of "ip_options ps"]
  by (simp add: encodeAppcInitializeParameters_def init_parameters_ok_def max_safe_integer_def
      writer_simps encodePaddedAscii_eq encodeAppcExtendedInitializeOptions_eq del: rbind_eq_Inr)

lemma decodeAppcInitializeParameters_eq:
  assumes "init_parameters_ok ps"
  shows "decodeAppcInitializeParameters
    (padded_field 32 0x20 (ip_clientIdentifier ps) @ init_options_bytes (ip_options ps)) = Inr ps"
  using assms padded_name_length [of 32 "0x20" "ip_clientIdentifier ps"]
    length_init_options_bytes [of "ip_options ps"]
  by (simp add: decodeAppcInitializeParameters_def init_parameters_ok_def reader_fields
      APPC_EXTENDED_INITIALIZE_OPTIONS_LENGTH_def decodePaddedAscii_field
      decodeAppcExtendedInitializeOptions_eq del: rbind_eq_Inr)

interpretation init_parameters: exact_codec encodeAppcInitializeParameters
  decodeAppcInitializeParameters init_parameters_ok
  by unfold_locales (auto simp: encodeAppcInitializeParameters_eq decodeAppcInitializeParameters_eq)

lemma encodeAppcPartnerLogicalUnitParameters_eq:
  assumes "partner_parameters_ok ps"
  shows "encodeAppcPartnerLogicalUnitParameters ps =
    Inr (padded_field 128 0x20 (pp_longLogicalUnitName ps) @ pp_partnerHostAddress ps)"
  using assms padded_name_length [of 128 "0x20" "pp_longLogicalUnitName ps"]
  by (simp add: encodeAppcPartnerLogicalUnitParameters_def partner_parameters_ok_def max_safe_integer_def
      writer_simps encodePaddedAscii_eq appc_exactBytes_def del: rbind_eq_Inr)

lemma decodeAppcPartnerLogicalUnitParameters_eq:
  assumes "partner_parameters_ok ps"
  shows "decodeAppcPartnerLogicalUnitParameters
    (padded_field 128 0x20 (pp_longLogicalUnitName ps) @ pp_partnerHostAddress ps) = Inr ps"
  using assms padded_name_length [of 128 "0x20" "pp_longLogicalUnitName ps"]
  by (simp add: decodeAppcPartnerLogicalUnitParameters_def partner_parameters_ok_def reader_fields
      decodePaddedAscii_field del: rbind_eq_Inr)

interpretation partner_parameters: exact_codec encodeAppcPartnerLogicalUnitParameters
  decodeAppcPartnerLogicalUnitParameters partner_parameters_ok
  by unfold_locales
    (auto simp: encodeAppcPartnerLogicalUnitParameters_eq decodeAppcPartnerLogicalUnitParameters_eq)

section \<open>Setup records\<close>

definition controlFunctions :: "nat list" where
  "controlFunctions = [F_Initialize, F_Allocate, F_Deallocate, F_SetTpName, F_SetPartnerLuName, F_Flush]"

definition encodeAppcControlRecord :: "nat \<Rightarrow> 'z appc_input_scheme \<Rightarrow> appc_extended_info option \<Rightarrow>
    appc_partner_input option \<Rightarrow> bytes option \<Rightarrow> bytes result" where
  "encodeAppcControlRecord functionCode input extendedInfo partnerInfo parametersOpt =
    (if functionCode \<notin> set controlFunctions
     then Inl (PlainError ''is not a setup/control function'')
     else let parameters = or_else parametersOpt [] in
     if 0xffff < length parameters
     then Inl (RangeError ''APPC control parameter length exceeds 65535'')
     else if extendedInfo \<noteq> None \<and> partnerInfo \<noteq> None
     then Inl (PlainError ''an APPC control record cannot contain two operation-info variants'')
     else if partnerInfo \<noteq> None \<and> functionCode \<noteq> F_SetPartnerLuName
     then Inl (PlainError ''partnerLogicalUnitInfo is only valid for F_SET_PARTNER_LU_NAME'')
     else if functionCode = F_SetPartnerLuName \<and> partnerInfo = None
     then Inl (PlainError ''F_SET_PARTNER_LU_NAME requires partnerLogicalUnitInfo'')
     else rbind (case partnerInfo of
                   None \<Rightarrow> encodeAppcExtendedInfo (or_else extendedInfo defaultExtendedInfo)
                 | Some p \<Rightarrow> encodeAppcPartnerLogicalUnitInfo p) (\<lambda>operationInfo.
       encodeAppcRecord functionCode input operationInfo (int (length parameters)) [parameters]))"

text \<open>Setup parameters: for every admissible client identifier and option block the
  initialize parameters encode, to exactly 373 bytes, and decode to the same values; every
  name, identifier, address, time-out and flag survives.\<close>

theorem appc_initialize_parameters_roundtrip:
  assumes "init_parameters_ok ps"
  shows "rbind (encodeAppcInitializeParameters ps) decodeAppcInitializeParameters = Inr ps \<and>
    map_sum id length (encodeAppcInitializeParameters ps) = Inr 373"
  using assms init_parameters.roundtrip [OF assms] padded_name_length [of 32 "0x20" "ip_clientIdentifier ps"]
    length_init_options_bytes [of "ip_options ps"]
  by (simp add: encodeAppcInitializeParameters_eq init_parameters_ok_def)

definition sample_options :: appc_init_options where
  "sample_options = \<lparr>o_optionFlags = 3, o_rootId = ''0123456789ABCDEF'', o_connectionId = ''FEDCBA9876543210'',
     o_connectionIdSuffix = 1, o_timeout = - 1, o_keepaliveTimeout = 300, o_exportTrace = 0,
     o_startType = 1, o_networkProtocol = 2, o_localAddressV6 = replicate 16 0,
     o_longLogicalUnitName = ''host a'', o_operatingSystemUser = ''user'',
     o_localAddressV4 = [127, 0, 0, 1], o_longTransactionProgramName = ''sapdp00''\<rparr>"

lemma sample_options_ok: "init_options_ok sample_options"
  by (simp add: sample_options_def init_options_ok_def between_def hex_id_def is_upper_hex_def
      padded_name_def printable_def ascii_bytes_def)

lemma appc_initialize_parameters_roundtrip_witness:
  "rbind (encodeAppcInitializeParameters \<lparr>ip_clientIdentifier = ''client'', ip_options = sample_options\<rparr>)
     decodeAppcInitializeParameters = Inr \<lparr>ip_clientIdentifier = ''client'', ip_options = sample_options\<rparr>"
  by (intro conjunct1 [OF appc_initialize_parameters_roundtrip])
    (simp add: init_parameters_ok_def sample_options_ok padded_name_def printable_def ascii_bytes_def)

text \<open>Setup records: a setup record that encodes has a setup function code and carries
  its parameters unchanged with their true length in the header, and only
  \<open>F_SET_PARTNER_LU_NAME\<close> carries the partner variant of the operation information, which
  then decodes to the prefix and the length of the partner's name.\<close>

theorem appc_control_record_sound:
  assumes "encodeAppcControlRecord f input ext partner ps = Inr out"
    and "case partner of None \<Rightarrow> extended_info_ok (or_else ext defaultExtendedInfo) | Some p \<Rightarrow> partner_input_ok p"
  shows "f \<in> set controlFunctions \<and>
    decodeAppcHeader out = Inr (header_of f input (length (or_else ps []))) \<and>
    drop APPC_RECORD_HEADER_LENGTH out = or_else ps [] \<and>
    (partner \<noteq> None \<longleftrightarrow> f = F_SetPartnerLuName) \<and>
    (case partner of
       None \<Rightarrow> decodeAppcExtendedInfo (slice 48 32 out) = Inr (or_else ext defaultExtendedInfo)
     | Some p \<Rightarrow> decodeAppcPartnerLogicalUnitInfo (slice 48 32 out) = Inr (partner_info_of p))"
proof -
  obtain op where rec: "encodeAppcRecord f input op (int (length (or_else ps []))) [or_else ps []] = Inr out"
    and op: "(case partner of None \<Rightarrow> encodeAppcExtendedInfo (or_else ext defaultExtendedInfo)
        | Some p \<Rightarrow> encodeAppcPartnerLogicalUnitInfo p) = Inr op"
    and f: "f \<in> set controlFunctions" "partner \<noteq> None \<longleftrightarrow> f = F_SetPartnerLuName"
    using assms(1) unfolding encodeAppcControlRecord_def Let_def
    by (auto simp del: encodeAppcRecord_iff split: if_splits)
  note layout = encodeAppcRecord_sound [OF rec, unfolded APPC_COMMON_HEADER_LENGTH_def, simplified]
  have "case partner of
       None \<Rightarrow> decodeAppcExtendedInfo op = Inr (or_else ext defaultExtendedInfo)
     | Some p \<Rightarrow> decodeAppcPartnerLogicalUnitInfo op = Inr (partner_info_of p)"
    using op assms(2)
    by (auto simp: encodeAppcExtendedInfo_eq decodeAppcExtendedInfo_eq encodeAppcPartnerLogicalUnitInfo_eq
        decodeAppcPartnerLogicalUnitInfo_eq split: option.splits)
  with f layout show ?thesis by (simp split: option.splits)
qed

lemma appc_control_record_sound_witness:
  "\<exists>out. encodeAppcControlRecord F_SetPartnerLuName no_input None
      (Some \<lparr>pi_logicalUnitName = ''app.example'', pi_partnerHostAddress = replicate 16 1,
             pi_communicationIndex = 2, pi_connectionIndex = 3\<rparr>) (Some [7, 8, 9]) = Inr out \<and>
     drop 80 out = [7, 8, 9]"
proof -
  let ?p = "\<lparr>pi_logicalUnitName = ''app.example'', pi_partnerHostAddress = replicate 16 1,
     pi_communicationIndex = 2, pi_connectionIndex = 3\<rparr>"
  have ok: "partner_input_ok ?p"
    by (simp add: partner_input_ok_def between_def fixed_name_def printable_def)
  then have "\<exists>out. encodeAppcControlRecord F_SetPartnerLuName no_input None (Some ?p) (Some [7, 8, 9]) = Inr out"
    by (simp add: encodeAppcControlRecord_def controlFunctions_def encodeAppcPartnerLogicalUnitInfo_eq
        encodeAppcRecord_iff input_fits_def between_def no_input_def max_safe_integer_def Let_def)
      (simp add: partner_info_bytes_def)
  then obtain out
    where out: "encodeAppcControlRecord F_SetPartnerLuName no_input None (Some ?p) (Some [7, 8, 9]) = Inr out" ..
  from appc_control_record_sound [OF out] ok out show ?thesis
    by (simp add: APPC_RECORD_HEADER_LENGTH_def)
qed

text \<open>The identifiers are not checked byte by byte: setting the highest bit of any of the
  bytes of an encoded root identifier changes nothing of what the decoder returns, although
  the bytes are then not the ASCII characters that the encoder insists on.\<close>

theorem appc_identifier_high_bit_ignored:
  assumes "init_options_ok x" and "length hb = 16" and "set hb \<subseteq> {0, 0x80}"
  shows "decodeAppcExtendedInitializeOptions (init_options_with
      (map2 (+) (ascii_bytes (o_rootId x)) hb) (ascii_bytes (o_connectionId x)) x) = Inr x"
proof -
  have hex: "hex_id (o_rootId x)" "hex_id (o_connectionId x)" using assms(1) by (auto simp: init_options_ok_def)
  have "char_of (unat (word_of_nat (of_char c) + m :: byte) mod 128) = c"
    if "m \<in> {0, 0x80}" "is_upper_hex c" for c m
  proof -
    have "(of_char c :: nat) < 128" using that(2) by (auto simp: is_upper_hex_def)
    then have "unat (word_of_nat (of_char c) + 0x80 :: byte) = of_char c + 128"
      by (subst unat_add_lem [THEN iffD1]) auto
    with \<open>of_char c < 128\<close> that(1) show ?thesis by auto
  qed
  then have "ascii_string (map2 (+) (ascii_bytes v) hb) = v"
    if "list_all is_upper_hex v" "length v = length hb" "set hb \<subseteq> {0, 0x80}" for v hb
    using that
  proof (induction v arbitrary: hb)
    case Nil
    then show ?case by (simp add: ascii_string_def)
  next
    case (Cons a v)
    then show ?case by (cases hb) (auto simp: ascii_string_def ascii_bytes_def)
  qed
  with hex assms show ?thesis
    by (intro decode_init_options_with) (auto simp: hex_id_codec hex_id_def)
qed

lemma appc_identifier_high_bit_ignored_witness:
  "decodeAppcExtendedInitializeOptions (init_options_with
      (map2 (+) (ascii_bytes ''0123456789ABCDEF'') (0x80 # replicate 15 0))
      (ascii_bytes ''FEDCBA9876543210'') sample_options) = Inr sample_options"
  using appc_identifier_high_bit_ignored [OF sample_options_ok, of "0x80 # replicate 15 0"]
  by (simp add: sample_options_def)

end
