(* ===== verification/AppcPlan.thy ===== *)
theory AppcPlan
  imports AppcInfo
begin

text \<open>
  Outgoing messages of \<open>src/protocol/appc.ts\<close>: the data operation information, the planner
  that cuts a message into fragments, and the encoder of one fragment. Long messages go out
  as asynchronous slices of at most 28000 bytes with a synchronous barrier after every
  twenty-first, closed by an empty \<open>F_RECEIVE\<close>; short ones are a single \<open>F_SAP_SEND\<close>.
\<close>

definition APPC_FINAL_SAP_PARAMETER_LENGTH :: nat where
  "APPC_FINAL_SAP_PARAMETER_LENGTH = 8"

definition MAX_APPC_ASYNC_SENDS_BEFORE_SYNC :: int where
  "MAX_APPC_ASYNC_SENDS_BEFORE_SYNC = 21"

definition MAX_APPC_OUTGOING_MESSAGE_LENGTH :: int where
  "MAX_APPC_OUTGOING_MESSAGE_LENGTH = 0x7fffffff"

definition DEFAULT_MAX_APPC_OUTGOING_MESSAGE_LENGTH :: int where
  "DEFAULT_MAX_APPC_OUTGOING_MESSAGE_LENGTH = 1400000"

definition DEFAULT_MAX_APPC_MESSAGE_FRAGMENTS :: int where
  "DEFAULT_MAX_APPC_MESSAGE_FRAGMENTS = 65536"

lemmas plan_limits = APPC_FINAL_SAP_PARAMETER_LENGTH_def MAX_APPC_ASYNC_SENDS_BEFORE_SYNC_def
  MAX_APPC_OUTGOING_MESSAGE_LENGTH_def DEFAULT_MAX_APPC_OUTGOING_MESSAGE_LENGTH_def
  DEFAULT_MAX_APPC_MESSAGE_FRAGMENTS_def

section \<open>Data operation information\<close>

definition encodeAppcAsyncDataInfo :: "int \<Rightarrow> int \<Rightarrow> int \<Rightarrow> bytes result" where
  "encodeAppcAsyncDataInfo dataLength communicationIndex connectionIndex =
    (if \<not> is_safe_integer dataLength \<or> dataLength < 1 \<or>
        int MAX_APPC_APPLICATION_DATA_FRAGMENT_LENGTH < dataLength
     then Inl (RangeError ''async APPC data length must be an integer in 1..28000'')
     else
       rbind (writer_new 32) (\<lambda>w.
       rbind (writeUInt16BE w 0) (\<lambda>w.
       rbind (writeUInt16BE w dataLength) (\<lambda>w.
       rbind (writeBytes w (replicate 24 0)) (\<lambda>w.
       rbind (writeUInt16BE w communicationIndex) (\<lambda>w.
       rbind (writeUInt16BE w connectionIndex) (\<lambda>w.
       writer_finish w)))))))"

record appc_data_info =
  d_dataLength :: nat
  d_communicationIndex :: nat
  d_connectionIndex :: nat

definition decodeAppcDataOperationInfo :: "bytes \<Rightarrow> appc_data_info result" where
  "decodeAppcDataOperationInfo data =
    (if length data \<noteq> 32
     then Inl (RangeError ''APPC data operation info must contain exactly 32 bytes'')
     else
       rbind (readUInt16BE (reader_new data)) (\<lambda>(reserved, r).
       if reserved \<noteq> 0 then Inl (RangeError ''APPC data operation reserved word must be zero'')
       else
       rbind (readUInt16BE r) (\<lambda>(dataLength, r).
       rbind (readBytes r 24) (\<lambda>(reserved, r).
       if list_ex (\<lambda>b. b \<noteq> 0) reserved
       then Inl (RangeError ''APPC data operation reserved bytes must be zero'')
       else
       rbind (readUInt16BE r) (\<lambda>(communicationIndex, r).
       rbind (readUInt16BE r) (\<lambda>(connectionIndex, r).
       rbind (reader_finish r) (\<lambda>_.
       Inr \<lparr>d_dataLength = dataLength, d_communicationIndex = communicationIndex,
            d_connectionIndex = connectionIndex\<rparr>)))))))"

definition decodeAppcAsyncDataInfo :: "bytes \<Rightarrow> appc_data_info result" where
  "decodeAppcAsyncDataInfo data = rbind (decodeAppcDataOperationInfo data) (\<lambda>decoded.
     if d_dataLength decoded < 1 \<or> MAX_APPC_APPLICATION_DATA_FRAGMENT_LENGTH < d_dataLength decoded
     then Inl (RangeError ''APPC async-send data length must be in 1..28000'')
     else Inr decoded)"

definition decodeAppcIncomingDataOperationInfo :: "bytes \<Rightarrow> appc_data_info result" where
  "decodeAppcIncomingDataOperationInfo data =
    (if length data \<noteq> 32
     then Inl (RangeError ''incoming APPC data operation info must contain exactly 32 bytes'')
     else Inr \<lparr>d_dataLength = be_decode (slice 10 2 data),
               d_communicationIndex = be_decode (slice 28 2 data),
               d_connectionIndex = be_decode (slice 30 2 data)\<rparr>)"

definition async_info_bytes :: "int \<Rightarrow> int \<Rightarrow> int \<Rightarrow> bytes" where
  "async_info_bytes n ci cx = be_encode 2 0 @ be_encode 2 (nat n) @ replicate 24 0 @
     be_encode 2 (nat ci) @ be_encode 2 (nat cx)"

lemma length_async_info_bytes [simp]: "length (async_info_bytes n ci cx) = 32"
  by (simp add: async_info_bytes_def)

lemma encodeAppcAsyncDataInfo_iff:
  "encodeAppcAsyncDataInfo n ci cx = Inr b \<longleftrightarrow> between 1 28000 n \<and> between 0 0xffff ci \<and>
     between 0 0xffff cx \<and> b = async_info_bytes n ci cx"
  by (auto simp: encodeAppcAsyncDataInfo_def between_def async_info_bytes_def is_safe_integer_def
      max_safe_integer_def writer_invs writer_finish_at appc_lengths)

lemma decodeAppcAsyncDataInfo_bytes:
  "between 1 28000 n \<Longrightarrow> between 0 0xffff ci \<Longrightarrow> between 0 0xffff cx \<Longrightarrow>
     decodeAppcAsyncDataInfo (async_info_bytes n ci cx) =
     Inr \<lparr>d_dataLength = nat n, d_communicationIndex = nat ci, d_connectionIndex = nat cx\<rparr>"
  by (simp add: decodeAppcAsyncDataInfo_def decodeAppcDataOperationInfo_def async_info_bytes_def
      between_def reader_fields appc_lengths nat_less_iff list_ex_iff del: rbind_eq_Inr)
    (auto simp: zless_nat_eq_int_zless)

interpretation async_data_info: exact_codec
  "\<lambda>i. encodeAppcAsyncDataInfo (int (d_dataLength i)) (int (d_communicationIndex i)) (int (d_connectionIndex i))"
  decodeAppcAsyncDataInfo
  "\<lambda>i. between 1 28000 (int (d_dataLength i)) \<and> between 0 0xffff (int (d_communicationIndex i)) \<and>
     between 0 0xffff (int (d_connectionIndex i))"
  by unfold_locales (auto simp: encodeAppcAsyncDataInfo_iff decodeAppcAsyncDataInfo_bytes)

definition outgoingOperationInfo :: "nat \<Rightarrow> int \<Rightarrow> int \<Rightarrow> int \<Rightarrow> bytes result" where
  "outgoingOperationInfo functionCode dataLength communicationIndex connectionIndex =
    (if functionCode = F_AsyncSendData \<or> functionCode = F_SendData
     then encodeAppcAsyncDataInfo dataLength communicationIndex connectionIndex
     else encodeAppcExtendedInfo (defaultExtendedInfo\<lparr>x_communicationIndex := communicationIndex,
            x_connectionIndex := connectionIndex\<rparr>))"

section \<open>Fragments\<close>

record appc_semantics =
  s_functionCode :: nat
  s_isFinal :: bool
  s_info :: int
  s_vector :: int
  s_sapParameterLength :: int

definition outgoingFragmentSemantics :: "int \<Rightarrow> int \<Rightarrow> appc_semantics" where
  "outgoingFragmentSemantics fragmentIndex fragmentCount =
    (let isSingle = fragmentCount = 1;
         isFinal = isSingle \<or> fragmentIndex = fragmentCount - 1;
         isSynchronousStreamingData = \<not> isSingle \<and> \<not> isFinal \<and>
           MAX_APPC_ASYNC_SENDS_BEFORE_SYNC \<le> fragmentIndex \<and>
           (fragmentIndex - MAX_APPC_ASYNC_SENDS_BEFORE_SYNC) mod MAX_APPC_ASYNC_SENDS_BEFORE_SYNC = 0
     in \<lparr>s_functionCode = (if isSingle then F_SapSend else if isFinal then F_Receive
           else if isSynchronousStreamingData then F_SendData else F_AsyncSendData),
         s_isFinal = isFinal,
         s_info = (if isSingle then 5 else if isFinal \<or> isSynchronousStreamingData then 1 else 0),
         s_vector = (if isSingle then 0x0c else 0),
         s_sapParameterLength = (if isSingle then 8 else 0)\<rparr>)"

definition validateFinalSapParameters :: "bytes \<Rightarrow> int \<Rightarrow> unit result" where
  "validateFinalSapParameters parameters applicationDataLength =
    (if length parameters \<noteq> APPC_FINAL_SAP_PARAMETER_LENGTH
     then Inl (RangeError ''finalSapParameters must contain exactly 8 bytes'')
     else if be_decode (slice 0 2 parameters) \<noteq> 0
     then Inl (RangeError ''finalSapParameters reserved field must be zero'')
     else if int (be_decode (slice 2 2 parameters)) \<noteq> applicationDataLength
     then Inl (RangeError ''finalSapParameters declare another number of application bytes'')
     else Inr ())"

record appc_plan_input = appc_input +
  p_applicationData :: bytes
  p_finalSapParameters :: "bytes option"
  p_communicationIndex :: int
  p_connectionIndex :: int

record appc_plan_options =
  po_maxApplicationDataLength :: "int option"
  po_maxFragments :: "int option"
  po_cpicStreaming :: "string option"

record appc_fragment = appc_input +
  f_functionCode :: nat
  f_fragmentIndex :: int
  f_fragmentCount :: int
  f_applicationData :: bytes
  f_finalSapParameters :: bytes
  f_messageApplicationDataLength :: int
  f_communicationIndex :: int
  f_connectionIndex :: int
  f_isFinal :: bool
  f_sapParameterLength :: int

section \<open>The planner\<close>

definition plan_options :: "appc_plan_options \<Rightarrow> (int \<times> int \<times> bool) result" where
  "plan_options opts =
    (let maxApplicationDataLength =
           or_else (po_maxApplicationDataLength opts) DEFAULT_MAX_APPC_OUTGOING_MESSAGE_LENGTH;
         maxFragments = or_else (po_maxFragments opts) DEFAULT_MAX_APPC_MESSAGE_FRAGMENTS;
         cpicStreaming = or_else (po_cpicStreaming opts) ''disabled''
     in if \<not> is_safe_integer maxApplicationDataLength \<or> maxApplicationDataLength < 0 \<or>
           MAX_APPC_OUTGOING_MESSAGE_LENGTH < maxApplicationDataLength
     then Inl (RangeError ''maxApplicationDataLength must be an integer in range'')
     else if \<not> is_safe_integer maxFragments \<or> maxFragments < 1
     then Inl (RangeError ''maxFragments must be a positive safe integer'')
     else if cpicStreaming \<noteq> ''disabled'' \<and> cpicStreaming \<noteq> ''enabled''
     then Inl (RangeError ''cpicStreaming must be disabled or enabled'')
     else Inr (maxApplicationDataLength, maxFragments, cpicStreaming = ''enabled''))"

text \<open>The compact tail: its bytes, empty for a streamed packet.\<close>

definition plan_sap_parameters :: "bytes option \<Rightarrow> nat \<Rightarrow> bytes result" where
  "plan_sap_parameters given messageLength =
    (case given of
       Some parameters \<Rightarrow>
         if length parameters \<noteq> APPC_FINAL_SAP_PARAMETER_LENGTH
         then Inl (RangeError ''finalSapParameters must contain exactly 8 bytes'')
         else rbind (validateFinalSapParameters parameters (int messageLength)) (\<lambda>_.
           if MAX_APPC_APPLICATION_DATA_FRAGMENT_LENGTH < messageLength
           then Inl (RangeError ''compact CPIC application data cannot exceed 28000 bytes'')
           else Inr parameters)
     | None \<Rightarrow>
         if messageLength \<le> MAX_APPC_APPLICATION_DATA_FRAGMENT_LENGTH
         then Inl (RangeError ''a streamed CPIC packet without final SAP parameters must exceed 28000 bytes'')
         else Inr [])"

definition plan_fragment :: "'z appc_plan_input_scheme \<Rightarrow> bytes \<Rightarrow> bytes \<Rightarrow> nat \<Rightarrow> nat \<Rightarrow> appc_fragment" where
  "plan_fragment input conversationId finalSapParameters fragmentCount fragmentIndex =
    (let semantics = outgoingFragmentSemantics (int fragmentIndex) (int fragmentCount);
         messageLength = length (p_applicationData input);
         start = fragmentIndex * MAX_APPC_APPLICATION_DATA_FRAGMENT_LENGTH;
         end' = (if s_functionCode semantics = F_Receive then start
                 else min messageLength (start + MAX_APPC_APPLICATION_DATA_FRAGMENT_LENGTH))
     in \<lparr>in_protocol = in_protocol input, in_mode = in_mode input, in_uid = in_uid input,
         in_gatewayId = in_gatewayId input, in_errorLength = in_errorLength input,
         in_info2 = in_info2 input, in_traceLevel = in_traceLevel input, in_time = in_time input,
         in_info3 = in_info3 input, in_timeout = in_timeout input, in_info4 = in_info4 input,
         in_sequenceNumber = Some (or_else (in_sequenceNumber input) 0),
         in_padding = in_padding input, in_info = Some (s_info semantics),
         in_vector = Some (s_vector semantics), in_appcReturnCode = in_appcReturnCode input,
         in_sapReturnCode = in_sapReturnCode input, in_conversationId = Some conversationId,
         f_functionCode = s_functionCode semantics, f_fragmentIndex = int fragmentIndex,
         f_fragmentCount = int fragmentCount,
         f_applicationData = slice start (end' - start) (p_applicationData input),
         f_finalSapParameters = finalSapParameters,
         f_messageApplicationDataLength = int messageLength,
         f_communicationIndex = p_communicationIndex input,
         f_connectionIndex = p_connectionIndex input, f_isFinal = s_isFinal semantics,
         f_sapParameterLength = s_sapParameterLength semantics\<rparr>)"

definition planOutgoingAppcDataFragments ::
    "'z appc_plan_input_scheme \<Rightarrow> appc_plan_options \<Rightarrow> appc_fragment list result" where
  "planOutgoingAppcDataFragments input opts =
     rbind (plan_options opts) (\<lambda>(maxApplicationDataLength, maxFragments, streaming).
     let messageLength = length (p_applicationData input) in
     if \<not> is_safe_integer (int messageLength)
     then Inl (RangeError ''outgoing APPC message length is unsafe'')
     else if maxApplicationDataLength < int messageLength
     then Inl (RangeError ''CPIC application data length exceeds configured limit'')
     else rbind (plan_sap_parameters (p_finalSapParameters input) messageLength) (\<lambda>finalSapParameters.
     let useSingleRecord = p_finalSapParameters input \<noteq> None \<and>
           messageLength \<le> MAX_APPC_APPLICATION_DATA_FRAGMENT_LENGTH in
     if \<not> useSingleRecord \<and> \<not> streaming
     then Inl (PlainError ''CPIC streaming is disabled'')
     else
     let dataFragmentCount = (if useSingleRecord then 1
           else (messageLength + MAX_APPC_APPLICATION_DATA_FRAGMENT_LENGTH - 1) div
             MAX_APPC_APPLICATION_DATA_FRAGMENT_LENGTH);
         fragmentCount = (if useSingleRecord then 1 else dataFragmentCount + 1) in
     if maxFragments < int fragmentCount
     then Inl (RangeError ''APPC fragment count exceeds configured limit'')
     else
     let conversationId = or_else (in_conversationId input) (replicate 8 0) in
     if length conversationId \<noteq> 8
     then Inl (RangeError ''conversationId must contain exactly 8 bytes'')
     else
     let functionCode = (if useSingleRecord then F_SapSend else F_AsyncSendData) in
     rbind (outgoingOperationInfo functionCode
              (if useSingleRecord then int (messageLength + length finalSapParameters)
               else int (min messageLength MAX_APPC_APPLICATION_DATA_FRAGMENT_LENGTH))
              (p_communicationIndex input) (p_connectionIndex input)) (\<lambda>operationInfo.
     rbind (encodeAppcRecord functionCode input operationInfo
              (if useSingleRecord then int APPC_FINAL_SAP_PARAMETER_LENGTH else 0) [[]]) (\<lambda>_.
     Inr (map (plan_fragment input conversationId
                (if useSingleRecord then finalSapParameters else []) fragmentCount)
            [0..<fragmentCount])))))"

section \<open>Encoding a fragment\<close>

definition invalidOutgoingFragment :: "string \<Rightarrow> 'a result" where
  "invalidOutgoingFragment reason = Inl (RangeError (''invalid outgoing APPC fragment: '' @ reason))"

definition snapshotOutgoingAppcDataFragment :: "appc_fragment \<Rightarrow> appc_fragment result" where
  "snapshotOutgoingAppcDataFragment input =
    (if length (or_else (in_conversationId input) []) \<noteq> 8
     then invalidOutgoingFragment ''conversationId must contain exactly 8 bytes''
     else if MAX_APPC_APPLICATION_DATA_FRAGMENT_LENGTH < length (f_applicationData input)
     then invalidOutgoingFragment ''applicationData exceeds the 28000-byte slice bound''
     else if APPC_FINAL_SAP_PARAMETER_LENGTH < length (f_finalSapParameters input)
     then invalidOutgoingFragment ''finalSapParameters exceeds 8 bytes''
     else Inr input)"

definition fragment_contents_valid :: "appc_fragment \<Rightarrow> unit result" where
  "fragment_contents_valid fragment =
    (if f_fragmentCount fragment = 1
     then if MAX_APPC_APPLICATION_DATA_FRAGMENT_LENGTH < length (f_applicationData fragment)
       then invalidOutgoingFragment ''compact F_SAP_SEND data length is invalid''
       else case validateFinalSapParameters (f_finalSapParameters fragment)
                   (f_messageApplicationDataLength fragment) of
              Inl (RangeError message) \<Rightarrow> invalidOutgoingFragment message
            | Inl _ \<Rightarrow> invalidOutgoingFragment ''SAP parameters are invalid''
            | Inr _ \<Rightarrow> Inr ()
     else if f_functionCode fragment = F_AsyncSendData \<or> f_functionCode fragment = F_SendData
     then if length (f_applicationData fragment) < 1 \<or>
            MAX_APPC_APPLICATION_DATA_FRAGMENT_LENGTH < length (f_applicationData fragment)
       then invalidOutgoingFragment ''slice length is invalid''
       else if length (f_finalSapParameters fragment) \<noteq> 0
       then invalidOutgoingFragment ''cannot carry SAP parameters''
       else Inr ()
     else if length (f_applicationData fragment) \<noteq> 0 \<or> length (f_finalSapParameters fragment) \<noteq> 0
     then invalidOutgoingFragment ''the async F_RECEIVE terminator must be empty''
     else Inr ())"

definition encodeOutgoingAppcDataFragment :: "appc_fragment \<Rightarrow> bytes result" where
  "encodeOutgoingAppcDataFragment input =
     rbind (snapshotOutgoingAppcDataFragment input) (\<lambda>fragment.
     if \<not> is_safe_integer (f_fragmentCount fragment) \<or> f_fragmentCount fragment < 1
     then invalidOutgoingFragment ''fragmentCount must be a positive safe integer''
     else if \<not> is_safe_integer (f_fragmentIndex fragment) \<or> f_fragmentIndex fragment < 0 \<or>
        f_fragmentCount fragment \<le> f_fragmentIndex fragment
     then invalidOutgoingFragment ''fragmentIndex must identify a fragment in the plan''
     else if \<not> is_safe_integer (f_messageApplicationDataLength fragment) \<or>
        f_messageApplicationDataLength fragment < 0 \<or>
        MAX_APPC_OUTGOING_MESSAGE_LENGTH < f_messageApplicationDataLength fragment
     then invalidOutgoingFragment ''messageApplicationDataLength is outside the proven range''
     else
     let expected = outgoingFragmentSemantics (f_fragmentIndex fragment) (f_fragmentCount fragment) in
     if f_functionCode fragment \<noteq> s_functionCode expected \<or>
        f_isFinal fragment \<noteq> s_isFinal expected \<or> in_info fragment \<noteq> Some (s_info expected) \<or>
        in_vector fragment \<noteq> Some (s_vector expected) \<or>
        f_sapParameterLength fragment \<noteq> s_sapParameterLength expected
     then invalidOutgoingFragment ''function, final marker, info, vector, or parameter length is inconsistent''
     else rbind (fragment_contents_valid fragment) (\<lambda>_.
     rbind (if f_functionCode fragment = F_Receive \<and> 1 < f_fragmentCount fragment
            then encodeAppcAsyncDataInfo (int MAX_APPC_APPLICATION_DATA_FRAGMENT_LENGTH)
                   (f_communicationIndex fragment) (f_connectionIndex fragment)
            else outgoingOperationInfo (f_functionCode fragment) (int (length (f_applicationData fragment)))
                   (f_communicationIndex fragment) (f_connectionIndex fragment)) (\<lambda>operationInfo.
     encodeAppcRecord (f_functionCode fragment) fragment operationInfo (f_sapParameterLength fragment)
       [f_applicationData fragment, f_finalSapParameters fragment])))"

text \<open>\<open>encodeAppcDataRecord\<close>, whose optional fields default by the position of the record.\<close>

record appc_data_input = appc_input +
  di_functionCode :: "nat option"
  di_data :: bytes
  di_communicationIndex :: int
  di_connectionIndex :: int
  di_isFinal :: "bool option"

definition encodeAppcDataRecord :: "appc_data_input \<Rightarrow> bytes result" where
  "encodeAppcDataRecord input =
    (let isFinal = or_else (di_isFinal input) True;
         functionCode = or_else (di_functionCode input) F_SapSend
     in rbind (encodeAppcExtendedInfo (defaultExtendedInfo
          \<lparr>x_communicationIndex := di_communicationIndex input,
           x_connectionIndex := di_connectionIndex input\<rparr>)) (\<lambda>operationInfo.
        encodeAppcRecord functionCode
          (input\<lparr>in_info := Some (or_else (in_info input) (if isFinal then 5 else 1)),
                 in_vector := Some (or_else (in_vector input)
                   (if isFinal then 0x0c else if functionCode = F_SapSend then 0x08 else 0))\<rparr>)
          operationInfo (if isFinal then 8 else 0) [di_data input]))"

section \<open>What a plan looks like\<close>

text \<open>The two shapes an accepted plan can have, with everything the planner has checked.\<close>

definition plan_count :: "nat \<Rightarrow> bool \<Rightarrow> nat" where
  "plan_count messageLength single = (if single then 1 else (27999 + messageLength) div 28000 + 1)"

definition index_fits :: "'z appc_plan_input_scheme \<Rightarrow> bool" where
  "index_fits input \<longleftrightarrow> between 0 0xffff (p_communicationIndex input) \<and>
     between 0 0xffff (p_connectionIndex input)"

lemma extended_op_iff:
  "encodeAppcExtendedInfo (defaultExtendedInfo\<lparr>x_communicationIndex := ci, x_connectionIndex := cx\<rparr>) = Inr b \<longleftrightarrow>
     between 0 0xffff ci \<and> between 0 0xffff cx \<and>
     b = extended_info_bytes (defaultExtendedInfo\<lparr>x_communicationIndex := ci, x_connectionIndex := cx\<rparr>)"
  by (auto simp: encodeAppcExtendedInfo_def defaultExtendedInfo_def extended_info_bytes_def
        writer_invs writer_finish_at max_safe_integer_def between_def)

lemma extended_op_eq:
  "between 0 0xffff ci \<Longrightarrow> between 0 0xffff cx \<Longrightarrow>
     encodeAppcExtendedInfo (defaultExtendedInfo\<lparr>x_communicationIndex := ci, x_connectionIndex := cx\<rparr>) =
     Inr (extended_info_bytes (defaultExtendedInfo\<lparr>x_communicationIndex := ci, x_connectionIndex := cx\<rparr>))"
  by (simp add: extended_op_iff)

lemma length_extended_op [simp]:
  "length (extended_info_bytes (defaultExtendedInfo\<lparr>x_communicationIndex := ci, x_connectionIndex := cx\<rparr>)) = 32"
  by (simp add: extended_info_bytes_def defaultExtendedInfo_def)

text \<open>When the planner succeeds, and with which fragments.\<close>

lemma plan_sap_parameters_iff:
  "plan_sap_parameters given n = Inr ps \<longleftrightarrow>
     (case given of Some g \<Rightarrow> ps = g \<and> validateFinalSapParameters g (int n) = Inr () \<and> n \<le> 28000
      | None \<Rightarrow> ps = [] \<and> 28000 < n)"
  by (auto simp: plan_sap_parameters_def appc_lengths validateFinalSapParameters_def split: option.splits)

lemma plan_inversion:
  assumes "planOutgoingAppcDataFragments input opts = Inr frags"
  obtains single ps where
    "single \<longleftrightarrow> p_finalSapParameters input \<noteq> None"
    "if single then length (p_applicationData input) \<le> 28000 else 28000 < length (p_applicationData input)"
    "if single then validateFinalSapParameters ps (int (length (p_applicationData input))) = Inr () else ps = []"
    "int (length (p_applicationData input)) \<le> 0x7fffffff"
    "length (or_else (in_conversationId input) (replicate 8 0)) = 8"
    "input_fits input" "index_fits input"
    "frags = map (plan_fragment input (or_else (in_conversationId input) (replicate 8 0)) ps
       (plan_count (length (p_applicationData input)) single))
       [0..<plan_count (length (p_applicationData input)) single]"
    "int (plan_count (length (p_applicationData input)) single) \<le> max_safe_integer"
proof -
  show ?thesis
  proof (cases "p_finalSapParameters input")
    case None
    with assms show ?thesis
      by (intro that [of False "[]"]) (auto simp: planOutgoingAppcDataFragments_def plan_options_def Let_def plan_sap_parameters_iff plan_limits
          appc_lengths outgoingOperationInfo_def encodeAppcAsyncDataInfo_iff encodeAppcRecord_iff
          index_fits_def plan_count_def is_safe_integer_def split: if_splits)
  next
    case (Some g)
    with assms show ?thesis
      by (intro that [of True g]) (auto simp: planOutgoingAppcDataFragments_def plan_options_def Let_def plan_sap_parameters_iff plan_limits
          appc_lengths outgoingOperationInfo_def extended_op_iff encodeAppcRecord_iff
          index_fits_def plan_count_def is_safe_integer_def max_safe_integer_def split: if_splits)
  qed
qed

lemma plan_final_parameters:
  assumes "planOutgoingAppcDataFragments input opts = Inr frags" and "f \<in> set frags"
  shows "f_finalSapParameters f = or_else (p_finalSapParameters input) []"
  using assms
  by (cases "p_finalSapParameters input")
    (auto simp: planOutgoingAppcDataFragments_def Let_def plan_sap_parameters_iff plan_fragment_def
      appc_lengths split: if_splits)

text \<open>When the planner accepts, and with how many fragments.\<close>

lemma plan_accepts:
  assumes "plan_options opts = Inr (maxLength, maxFragments, streams)"
    and "n = length (p_applicationData input)" and "single \<longleftrightarrow> p_finalSapParameters input \<noteq> None"
    and "int n \<le> maxLength" and "int n \<le> max_safe_integer"
    and "plan_sap_parameters (p_finalSapParameters input) n = Inr ps"
    and "single \<or> streams" and "int (plan_count n single) \<le> maxFragments"
    and "input_fits input" and "index_fits input"
  shows "\<exists>frags. planOutgoingAppcDataFragments input opts = Inr frags \<and> length frags = plan_count n single"
proof (cases single)
  case True
  then obtain g where g: "p_finalSapParameters input = Some g" "ps = g" "n \<le> 28000"
    using assms(3,6) by (auto simp: plan_sap_parameters_iff split: option.splits)
  have "length (or_else (in_conversationId input) (replicate 8 0)) = 8"
    using assms(9) by (simp add: input_fits_def)
  with assms True g show ?thesis
    by (simp add: planOutgoingAppcDataFragments_def Let_def appc_lengths outgoingOperationInfo_def
        extended_op_iff encodeAppcRecord_iff index_fits_def is_safe_integer_def max_safe_integer_def
        plan_count_def plan_limits)
next
  case False
  then have g: "p_finalSapParameters input = None" "ps = []" "28000 < n"
    using assms(3,6) by (auto simp: plan_sap_parameters_iff split: option.splits)
  have "length (or_else (in_conversationId input) (replicate 8 0)) = 8"
    using assms(9) by (simp add: input_fits_def)
  with assms False g show ?thesis
    by (simp add: planOutgoingAppcDataFragments_def Let_def appc_lengths outgoingOperationInfo_def
        encodeAppcAsyncDataInfo_iff encodeAppcRecord_iff index_fits_def is_safe_integer_def max_safe_integer_def
        plan_count_def plan_limits between_def del: upt_Suc)
qed

section \<open>Properties of a plan\<close>

lemma concat_slices:
  "concat (map (\<lambda>i. slice (i * c) (min (length xs) (i * c + c) - i * c) xs) [0..<k]) = take (k * c) xs"
proof (induction k)
  case 0
  then show ?case by simp
next
  case (Suc k)
  have "slice (k * c) (min (length xs) (k * c + c) - k * c) xs = take c (drop (k * c) xs)"
    by (auto simp: slice_def min_def)
  moreover have "take (Suc k * c) xs = take (k * c) xs @ take c (drop (k * c) xs)"
    by (metis take_add mult_Suc add.commute)
  ultimately show ?case using Suc by simp
qed

lemma plan_semantics:
  "i < m \<Longrightarrow> s_functionCode (outgoingFragmentSemantics (int i) (int m)) =
     (if m = 1 then F_SapSend else if i = m - 1 then F_Receive
      else if 0 < i \<and> 21 dvd i then F_SendData else F_AsyncSendData)"
  "i < m \<Longrightarrow> s_isFinal (outgoingFragmentSemantics (int i) (int m)) = (i = m - 1)"
proof -
  assume "i < m"
  moreover have "int i mod 21 = 0 \<longleftrightarrow> 21 dvd i" by presburger
  moreover have "21 \<le> i" if "0 < i" "21 dvd i" using that by (auto dest: dvd_imp_le)
  moreover have "(int i - 21) mod 21 = int i mod 21" by (rule minus_mod_self2)
  ultimately show "s_functionCode (outgoingFragmentSemantics (int i) (int m)) =
     (if m = 1 then F_SapSend else if i = m - 1 then F_Receive
      else if 0 < i \<and> 21 dvd i then F_SendData else F_AsyncSendData)"
    by (auto simp: outgoingFragmentSemantics_def Let_def MAX_APPC_ASYNC_SENDS_BEFORE_SYNC_def)
  show "s_isFinal (outgoingFragmentSemantics (int i) (int m)) = (i = m - 1)"
    using \<open>i < m\<close> by (auto simp: outgoingFragmentSemantics_def Let_def)
qed

lemma plan_fragment_simps [simp]:
  "f_functionCode (plan_fragment input cid ps m i) = s_functionCode (outgoingFragmentSemantics (int i) (int m))"
  "f_isFinal (plan_fragment input cid ps m i) = s_isFinal (outgoingFragmentSemantics (int i) (int m))"
  "f_sapParameterLength (plan_fragment input cid ps m i) =
     s_sapParameterLength (outgoingFragmentSemantics (int i) (int m))"
  "in_info (plan_fragment input cid ps m i) = Some (s_info (outgoingFragmentSemantics (int i) (int m)))"
  "in_vector (plan_fragment input cid ps m i) = Some (s_vector (outgoingFragmentSemantics (int i) (int m)))"
  "in_conversationId (plan_fragment input cid ps m i) = Some cid"
  "f_fragmentIndex (plan_fragment input cid ps m i) = int i"
  "f_fragmentCount (plan_fragment input cid ps m i) = int m"
  "f_finalSapParameters (plan_fragment input cid ps m i) = ps"
  "f_messageApplicationDataLength (plan_fragment input cid ps m i) = int (length (p_applicationData input))"
  "f_communicationIndex (plan_fragment input cid ps m i) = p_communicationIndex input"
  "f_connectionIndex (plan_fragment input cid ps m i) = p_connectionIndex input"
  by (simp_all add: plan_fragment_def Let_def)

lemma plan_fragment_data:
  assumes "i < m"
  shows "f_applicationData (plan_fragment input cid ps m i) =
    (if m \<noteq> 1 \<and> i = m - 1 then []
     else slice (i * 28000) (min (length (p_applicationData input)) (i * 28000 + 28000) - i * 28000)
            (p_applicationData input))"
  using assms plan_semantics(1) [OF assms] by (simp add: plan_fragment_def Let_def appc_lengths)

lemma plan_fragment_input_fits:
  "input_fits input \<Longrightarrow> length cid = 8 \<Longrightarrow> input_fits (plan_fragment input cid ps m i)"
  by (simp add: input_fits_def plan_fragment_def Let_def outgoingFragmentSemantics_def between_def)

lemma plan_data_concat:
  assumes "if single then length (p_applicationData input) \<le> 28000 else 28000 < length (p_applicationData input)"
    and "m = plan_count (length (p_applicationData input)) single"
  shows "concat (map f_applicationData (map (plan_fragment input cid ps m) [0..<m])) = p_applicationData input"
proof (cases single)
  case True
  with assms show ?thesis by (simp add: plan_count_def plan_fragment_data slice_def)
next
  case False
  define n where "n = length (p_applicationData input)"
  define k where "k = (27999 + n) div 28000"
  have "k * 28000 + (27999 + n) mod 28000 = 27999 + n" by (simp add: k_def)
  moreover have "(27999 + n) mod 28000 < 28000" by simp
  ultimately have k: "n \<le> k * 28000" by linarith
  with assms False have "k \<noteq> 0" by (intro notI) (simp add: n_def)
  have m: "m = Suc k" using assms(2) False by (simp add: plan_count_def n_def k_def)
  have "concat (map (f_applicationData \<circ> plan_fragment input cid ps m) [0..<k]) =
      concat (map (\<lambda>i. slice (i * 28000) (min (length (p_applicationData input)) (i * 28000 + 28000) - i * 28000)
             (p_applicationData input)) [0..<k])"
    using m \<open>k \<noteq> 0\<close> by (intro arg_cong [of _ _ concat] map_cong refl) (simp add: plan_fragment_data)
  moreover have "f_applicationData (plan_fragment input cid ps m k) = []"
    using m \<open>k \<noteq> 0\<close> by (simp add: plan_fragment_data)
  ultimately show ?thesis
    using k concat_slices [of 28000 "p_applicationData input" k] by (simp add: m n_def)
qed

text \<open>A plan is a partition of the message: the slices of an accepted plan, in order, are
  exactly the application data; none exceeds 28000 bytes; the fragments are numbered from
  zero and only the last one is final.\<close>

theorem appc_plan_partitions_message:
  assumes "planOutgoingAppcDataFragments input opts = Inr frags"
  shows "concat (map f_applicationData frags) = p_applicationData input \<and>
    list_all (\<lambda>f. length (f_applicationData f) \<le> 28000) frags \<and>
    map f_fragmentIndex frags = map int [0..<length frags] \<and>
    frags \<noteq> [] \<and> map f_isFinal frags = replicate (length frags - 1) False @ [True]"
proof -
  from plan_inversion [OF assms] obtain single ps where
    size: "if single then length (p_applicationData input) \<le> 28000 else 28000 < length (p_applicationData input)"
    and frags: "frags = map (plan_fragment input (or_else (in_conversationId input) (replicate 8 0)) ps
       (plan_count (length (p_applicationData input)) single))
       [0..<plan_count (length (p_applicationData input)) single]" by metis
  define m where "m = plan_count (length (p_applicationData input)) single"
  have "0 < m" by (simp add: m_def plan_count_def)
  then have "map (\<lambda>i. i = m - 1) [0..<m] = replicate (m - 1) False @ [True]"
    by (intro nth_equalityI) (auto simp: nth_append nth_Cons')
  moreover have "map f_isFinal frags = map (\<lambda>i. i = m - 1) [0..<m]"
    using frags by (simp add: m_def [symmetric] plan_semantics(2))
  moreover have "length (f_applicationData (plan_fragment input c ps m i)) \<le> 28000" if "i < m" for c i
    using that by (auto simp: plan_fragment_data slice_def min_def)
  ultimately show ?thesis
    using plan_data_concat [OF size m_def] frags \<open>0 < m\<close> unfolding m_def [symmetric]
    by (simp add: list_all_iff)
qed

text \<open>Where the barriers are: a compact message is one \<open>F_SAP_SEND\<close>; in a streamed one the
  last fragment is the \<open>F_RECEIVE\<close> terminator, the fragments at the positive multiples of
  twenty-one are synchronous \<open>F_SEND_DATA\<close>, and all others are \<open>F_ASEND_DATA\<close>.\<close>

theorem appc_plan_barriers:
  assumes "planOutgoingAppcDataFragments input opts = Inr frags" and "i < length frags"
  shows "f_functionCode (frags ! i) =
    (if p_finalSapParameters input \<noteq> None then F_SapSend else if i = length frags - 1 then F_Receive
     else if 0 < i \<and> 21 dvd i then F_SendData else F_AsyncSendData) \<and>
    (p_finalSapParameters input \<noteq> None \<longleftrightarrow> length frags = 1)"
proof -
  from plan_inversion [OF assms(1)] obtain single ps where
    single: "single \<longleftrightarrow> p_finalSapParameters input \<noteq> None"
    and size: "if single then length (p_applicationData input) \<le> 28000 else 28000 < length (p_applicationData input)"
    and frags: "frags = map (plan_fragment input (or_else (in_conversationId input) (replicate 8 0)) ps
       (plan_count (length (p_applicationData input)) single))
       [0..<plan_count (length (p_applicationData input)) single]" by metis
  have "plan_count (length (p_applicationData input)) single = 1 \<longleftrightarrow> single"
    using size by (auto simp: plan_count_def)
  with assms(2) frags single show ?thesis by (auto simp: plan_semantics(1))
qed

definition sample_plan_input :: "nat \<Rightarrow> appc_plan_input" where
  "sample_plan_input n = appc_input.extend no_input
     \<lparr>p_applicationData = replicate n 7, p_finalSapParameters = None,
      p_communicationIndex = 1, p_connectionIndex = 2\<rparr>"

definition streaming :: appc_plan_options where
  "streaming = \<lparr>po_maxApplicationDataLength = None, po_maxFragments = None,
     po_cpicStreaming = Some ''enabled''\<rparr>"

lemmas sample_plan_defs = sample_plan_input_def no_input_def appc_input.defs streaming_def

lemma sample_plan_accepted:
  assumes "28000 < n" and "n \<le> 1400000"
  shows "\<exists>frags. planOutgoingAppcDataFragments (sample_plan_input n) streaming = Inr frags \<and>
    length frags = plan_count n False"
  using assms
  by (auto simp: planOutgoingAppcDataFragments_def plan_options_def Let_def plan_sap_parameters_iff plan_limits
      appc_lengths outgoingOperationInfo_def encodeAppcAsyncDataInfo_iff encodeAppcRecord_iff sample_plan_defs
      input_fits_def between_def plan_count_def is_safe_integer_def max_safe_integer_def
      simp del: upt_Suc)

lemma appc_plan_partitions_message_witness:
  "\<exists>frags. planOutgoingAppcDataFragments (sample_plan_input 600000) streaming = Inr frags \<and>
     length frags = 23 \<and> concat (map f_applicationData frags) = replicate 600000 7"
proof -
  obtain frags where frags: "planOutgoingAppcDataFragments (sample_plan_input 600000) streaming = Inr frags"
    "length frags = 23" using sample_plan_accepted [of 600000] by (auto simp: plan_count_def)
  with appc_plan_partitions_message [OF frags(1)] show ?thesis
    by (auto simp: sample_plan_defs)
qed

lemma appc_plan_barriers_witness:
  "\<exists>frags. planOutgoingAppcDataFragments (sample_plan_input 600000) streaming = Inr frags \<and>
     f_functionCode (frags ! 20) = F_AsyncSendData \<and> f_functionCode (frags ! 21) = F_SendData \<and>
     f_functionCode (frags ! 22) = F_Receive"
proof -
  obtain frags where frags: "planOutgoingAppcDataFragments (sample_plan_input 600000) streaming = Inr frags"
    "length frags = 23" using sample_plan_accepted [of 600000] by (auto simp: plan_count_def)
  then show ?thesis
    using appc_plan_barriers [OF frags(1), of 20] appc_plan_barriers [OF frags(1), of 21]
      appc_plan_barriers [OF frags(1), of 22]
    by (intro exI [of _ frags]) (auto simp: sample_plan_defs)
qed

definition fragment_operation_info :: "appc_fragment \<Rightarrow> bytes result" where
  "fragment_operation_info f = (if f_functionCode f = F_Receive \<and> 1 < f_fragmentCount f
     then encodeAppcAsyncDataInfo (int MAX_APPC_APPLICATION_DATA_FRAGMENT_LENGTH)
            (f_communicationIndex f) (f_connectionIndex f)
     else outgoingOperationInfo (f_functionCode f) (int (length (f_applicationData f)))
            (f_communicationIndex f) (f_connectionIndex f))"

lemma plan_fragment_encodes:
  assumes "if single then length (p_applicationData input) \<le> 28000 else 28000 < length (p_applicationData input)"
    and "if single then validateFinalSapParameters ps (int (length (p_applicationData input))) = Inr () else ps = []"
    and "int (length (p_applicationData input)) \<le> 0x7fffffff"
    and "length cid = 8" and "input_fits input" and "index_fits input"
    and "m = plan_count (length (p_applicationData input)) single"
    and "int m \<le> max_safe_integer" and "i < m" and "f = plan_fragment input cid ps m i"
  shows "\<exists>out op. encodeOutgoingAppcDataFragment f = Inr out \<and> fragment_operation_info f = Inr op \<and>
    encodeAppcRecord (f_functionCode f) f op (f_sapParameterLength f)
      [f_applicationData f, f_finalSapParameters f] = Inr out"
proof -
  have m: "m = 1 \<longleftrightarrow> single" using assms(1,7) by (auto simp: plan_count_def)
  have ps: "length ps \<le> 8"
    using assms(2) by (auto simp: validateFinalSapParameters_def plan_limits split: if_splits)
  have len: "length (f_applicationData f) \<le> 28000"
    using assms(9,10) by (auto simp: plan_fragment_data slice_def min_def)
  have nonempty: "0 < length (f_applicationData f)" if "i < m - 1"
  proof -
    define n where "n = length (p_applicationData input)"
    have "m = Suc ((27999 + n) div 28000)"
      using that assms(7) m by (cases single) (auto simp: plan_count_def n_def)
    moreover have "(27999 + n) div 28000 * 28000 \<le> 27999 + n" by (rule div_times_less_eq_dividend)
    moreover have "(i + 1) * 28000 \<le> (m - 1) * 28000" using that by (intro mult_le_mono1) simp
    ultimately have "i * 28000 < n" by simp
    then show ?thesis using that assms(9,10) by (auto simp: plan_fragment_data slice_def n_def)
  qed
  have contents: "fragment_contents_valid f = Inr ()"
    using m assms(2,9,10) len nonempty
    by (auto simp: fragment_contents_valid_def plan_semantics appc_lengths plan_fragment_data)
  have "snapshotOutgoingAppcDataFragment f = Inr f"
    using assms(4,10) len ps by (simp add: snapshotOutgoingAppcDataFragment_def appc_lengths plan_limits)
  moreover have "is_safe_integer (int m)" "is_safe_integer (int i)"
      "is_safe_integer (int (length (p_applicationData input)))"
    using assms(3,8,9) by (auto simp: is_safe_integer_def max_safe_integer_def)
  ultimately have "encodeOutgoingAppcDataFragment f =
      rbind (fragment_operation_info f) (\<lambda>op. encodeAppcRecord (f_functionCode f) f op (f_sapParameterLength f)
        [f_applicationData f, f_finalSapParameters f])"
    using contents assms(3,9,10)
    by (simp add: encodeOutgoingAppcDataFragment_def fragment_operation_info_def Let_def
        MAX_APPC_OUTGOING_MESSAGE_LENGTH_def del: rbind_eq_Inr)
  moreover have "\<exists>op. fragment_operation_info f = Inr op \<and> length op = 32"
    using assms(6,9,10) len nonempty
    by (auto simp: fragment_operation_info_def outgoingOperationInfo_def encodeAppcAsyncDataInfo_iff
        extended_op_iff plan_semantics appc_lengths index_fits_def between_def Suc_le_eq)
  moreover have "input_fits f" using plan_fragment_input_fits [OF assms(5,4)] assms(10) by simp
  moreover have "f_functionCode f \<le> 255" "0 \<le> f_sapParameterLength f" "f_sapParameterLength f \<le> 0xffff"
    using assms(10) by (auto simp: outgoingFragmentSemantics_def Let_def)
  ultimately show ?thesis
    using len ps assms(10) by (auto simp: encodeAppcRecord_iff max_safe_integer_def)
qed

lemma plan_fragment_record:
  assumes "planOutgoingAppcDataFragments input opts = Inr frags" and "f \<in> set frags"
  shows "\<exists>out. encodeOutgoingAppcDataFragment f = Inr out \<and>
    decodeAppcHeader out = Inr (header_of (f_functionCode f) f (nat (f_sapParameterLength f))) \<and>
    drop APPC_RECORD_HEADER_LENGTH out = f_applicationData f @ f_finalSapParameters f"
proof -
  from plan_inversion [OF assms(1)] obtain single ps where shape:
    "if single then length (p_applicationData input) \<le> 28000 else 28000 < length (p_applicationData input)"
    "if single then validateFinalSapParameters ps (int (length (p_applicationData input))) = Inr () else ps = []"
    "int (length (p_applicationData input)) \<le> 0x7fffffff"
    "length (or_else (in_conversationId input) (replicate 8 0)) = 8" "input_fits input" "index_fits input"
    and frags: "frags = map (plan_fragment input (or_else (in_conversationId input) (replicate 8 0)) ps
       (plan_count (length (p_applicationData input)) single))
       [0..<plan_count (length (p_applicationData input)) single]"
    and safe: "int (plan_count (length (p_applicationData input)) single) \<le> max_safe_integer" by metis
  from assms(2) frags obtain i where "i < plan_count (length (p_applicationData input)) single"
    and "f = plan_fragment input (or_else (in_conversationId input) (replicate 8 0)) ps
       (plan_count (length (p_applicationData input)) single) i" by auto
  from plan_fragment_encodes [OF shape refl safe this] obtain out op
    where out: "encodeOutgoingAppcDataFragment f = Inr out"
      and rec: "encodeAppcRecord (f_functionCode f) f op (f_sapParameterLength f)
        [f_applicationData f, f_finalSapParameters f] = Inr out" by blast
  with encodeAppcRecord_sound [OF rec] show ?thesis by simp
qed

text \<open>Every planned fragment can be sent: the fragment encoder accepts each fragment of an
  accepted plan, and the record it produces is the header the fragment describes followed,
  after the operation information, by the slice and the SAP parameters.\<close>

theorem appc_plan_fragments_encode:
  assumes "planOutgoingAppcDataFragments input opts = Inr frags" and "f \<in> set frags"
  shows "\<exists>out. encodeOutgoingAppcDataFragment f = Inr out \<and>
    decodeAppcHeader out = Inr (header_of (f_functionCode f) f (nat (f_sapParameterLength f))) \<and>
    drop APPC_RECORD_HEADER_LENGTH out = f_applicationData f @ f_finalSapParameters f"
  using assms by (rule plan_fragment_record)

lemma appc_plan_fragments_encode_witness:
  "\<exists>frags out. planOutgoingAppcDataFragments (sample_plan_input 600000) streaming = Inr frags \<and>
     encodeOutgoingAppcDataFragment (frags ! 21) = Inr out \<and>
     drop 80 out = f_applicationData (frags ! 21) @ f_finalSapParameters (frags ! 21)"
proof -
  obtain frags where frags: "planOutgoingAppcDataFragments (sample_plan_input 600000) streaming = Inr frags"
    "length frags = 23" using sample_plan_accepted [of 600000] by (auto simp: plan_count_def)
  then have "frags ! 21 \<in> set frags" by simp
  from appc_plan_fragments_encode [OF frags(1) this] frags(1) show ?thesis
    by (auto simp: APPC_RECORD_HEADER_LENGTH_def)
qed

end
