(* ===== verification/AppcSession.thy ===== *)
theory AppcSession
  imports AppcPlan
begin

text \<open>
  The client side of an APPC conversation in \<open>src/protocol/appc.ts\<close>: the setup state machine
  and the acknowledgement of a synchronous send. A method of the machine returns its result
  together with the state it leaves behind, as a throwing method may change the state first.
\<close>

datatype setup_state = New | InitializePending | Initialized | TpSet | PartnerSet | AllocatePending
  | SendContinuation | SendBarrierPending | ResponsePending | Ready | Closed

datatype disposition = Accepted | NormalDeallocation

definition responseComplete :: "setup_state \<Rightarrow> unit result \<times> setup_state" where
  "responseComplete state =
    (if state \<noteq> ResponsePending
     then (Inl (PlainError ''cannot complete an APPC response unless one is pending''), Closed)
     else (Inr (), Ready))"

definition sent_allowed :: "setup_state \<Rightarrow> nat \<Rightarrow> bool" where
  "sent_allowed state f \<longleftrightarrow>
     (state = New \<and> f = F_Initialize) \<or>
     (state = Initialized \<and> (f = F_SetTpName \<or> f = F_SetPartnerLuName)) \<or>
     (state = TpSet \<and> f = F_SetPartnerLuName) \<or>
     (state = PartnerSet \<and> f = F_Allocate) \<or>
     (state = Ready \<and> (f = F_SapSend \<or> f = F_AsyncSendData \<or> f = F_Deallocate)) \<or>
     (state = SendContinuation \<and> (f = F_AsyncSendData \<or> f = F_SendData \<or> f = F_Receive))"

definition sent_state :: "setup_state \<Rightarrow> nat \<Rightarrow> bool \<Rightarrow> setup_state" where
  "sent_state state f isFinal =
    (let state = (if f = F_Initialize then InitializePending else state);
         state = (if f = F_SetTpName then TpSet else state);
         state = (if f = F_SetPartnerLuName then PartnerSet else state);
         state = (if f = F_Allocate then AllocatePending else state);
         state = (if f = F_AsyncSendData then SendContinuation else state);
         state = (if f = F_SapSend then ResponsePending else state);
         state = (if f = F_SendData then SendBarrierPending else state);
         state = (if f = F_Receive \<and> isFinal then ResponsePending else state);
         state = (if f = F_Deallocate then Closed else state)
     in state)"

definition sent :: "setup_state \<Rightarrow> nat \<Rightarrow> bool \<Rightarrow> unit result \<times> setup_state" where
  "sent state f isFinal =
    (if f = F_SapSend \<and> \<not> isFinal
     then (Inl (PlainError ''F_SAP_SEND cannot start a streamed outgoing message''), state)
     else if f = F_AsyncSendData \<and> isFinal
     then (Inl (PlainError ''F_ASEND_DATA must be followed by F_RECEIVE''), state)
     else if f = F_SendData \<and> isFinal
     then (Inl (PlainError ''streaming F_SEND_DATA must be followed by its acknowledgement''), state)
     else if f = F_Receive \<and> state = SendContinuation \<and> \<not> isFinal
     then (Inl (PlainError ''the streamed outgoing F_RECEIVE terminator must be final''), state)
     else if \<not> sent_allowed state f
     then (Inl (PlainError ''cannot send while APPC client is in this state''), state)
     else (Inr (), sent_state state f isFinal))"

definition received_allowed :: "setup_state \<Rightarrow> nat \<Rightarrow> bool" where
  "received_allowed state f \<longleftrightarrow>
     (state = InitializePending \<and> f = F_Initialize) \<or>
     (state = AllocatePending \<and> f = F_Allocate) \<or>
     (state = SendBarrierPending \<and> f = F_SendData) \<or>
     (state = ResponsePending \<and> (f = F_SapSend \<or> f = F_Receive))"

definition received :: "setup_state \<Rightarrow> bytes \<Rightarrow> disposition result \<times> setup_state" where
  "received state payload =
    (if length payload < APPC_RECORD_HEADER_LENGTH
     then (Inl (RangeError ''an APPC reply needs 80 bytes''), Closed)
     else case decodeAppcHeader payload of
       Inl cause \<Rightarrow> (Inl cause, Closed)
     | Inr header \<Rightarrow>
         if h_appcReturnCode header = 18 \<and> h_sapReturnCode header = 0 \<and> state = ResponsePending \<and>
            (h_functionCode header = F_SapSend \<or> h_functionCode header = F_Receive)
         then (Inr NormalDeallocation, Closed)
         else if h_appcReturnCode header \<noteq> 0 \<or> h_sapReturnCode header \<noteq> 0
         then (Inl (CodedError ''AppcPeerReturnCodeError'' ''failed with a return code''), Closed)
         else if \<not> received_allowed state (h_functionCode header)
         then (Inl (PlainError ''cannot receive while APPC client is closed''), Closed)
         else (Inr Accepted,
               if state = InitializePending then Initialized
               else if state = AllocatePending then Ready
               else if state = SendBarrierPending then SendContinuation
               else state))"

record appc_ack =
  a_header :: appc_header
  a_connectionIndex :: nat

definition ack_header_canonical :: "appc_header \<Rightarrow> bool" where
  "ack_header_canonical h \<longleftrightarrow> h_functionCode h = F_SendData \<and> h_protocol h = 2 \<and> h_mode h = 0 \<and>
     h_uid h = 0xffff \<and> h_gatewayId h = 0 \<and> h_errorLength h = 0 \<and> h_info2 h = 0 \<and>
     h_traceLevel h = 0 \<and> h_time h = 0 \<and> h_info3 h = 0 \<and> h_timeout h = 0 \<and> h_info4 h = 2 \<and>
     h_sequenceNumber h = 0 \<and> h_info h = 1 \<and> h_vector h = 0 \<and> h_sapParameterLength h = 0 \<and>
     h_padding h = 0 \<and> h_appcReturnCode h = 0 \<and> h_sapReturnCode h = 0"

definition decodeAppcSynchronousSendAcknowledgement :: "bytes \<Rightarrow> appc_ack result" where
  "decodeAppcSynchronousSendAcknowledgement payload =
    (if length payload \<noteq> APPC_RECORD_HEADER_LENGTH
     then Inl (RangeError ''APPC synchronous-send acknowledgement must contain exactly 80 bytes'')
     else rbind (decodeAppcHeader payload) (\<lambda>header.
     if \<not> ack_header_canonical header
     then Inl (PlainError ''APPC synchronous-send acknowledgement header is not canonical'')
     else let encodedOperationInfo = slice APPC_COMMON_HEADER_LENGTH 32 payload in
     rbind (decodeAppcIncomingDataOperationInfo encodedOperationInfo) (\<lambda>operationInfo.
     if list_ex (\<lambda>b. b \<noteq> 0) (take 30 encodedOperationInfo) \<or> d_dataLength operationInfo \<noteq> 0 \<or>
        d_communicationIndex operationInfo \<noteq> 0
     then Inl (PlainError ''acknowledgement operation information is not canonical'')
     else Inr \<lparr>a_header = header, a_connectionIndex = d_connectionIndex operationInfo\<rparr>)))"

section \<open>Runs of the machine\<close>

datatype setup_event = Sent nat bool | Received bytes | Completed

fun setup_apply :: "setup_event \<Rightarrow> setup_state \<Rightarrow> bool \<times> setup_state" where
  "setup_apply (Sent f isFinal) s = (case sent s f isFinal of (r, s') \<Rightarrow> (\<not> isl r, s'))"
| "setup_apply (Received payload) s = (case received s payload of (r, s') \<Rightarrow> (\<not> isl r, s'))"
| "setup_apply Completed s = (case responseComplete s of (r, s') \<Rightarrow> (\<not> isl r, s'))"

text \<open>One call of a method, successful (\<open>True\<close>) or throwing.\<close>

inductive setup_step :: "setup_state \<Rightarrow> setup_event \<times> bool \<Rightarrow> setup_state \<Rightarrow> bool" where
  step: "setup_apply e s = (ok, s') \<Longrightarrow> setup_step s (e, ok) s'"

inductive setup_run :: "setup_state \<Rightarrow> (setup_event \<times> bool) list \<Rightarrow> setup_state \<Rightarrow> bool" where
  run_nil: "setup_run s [] s"
| run_snoc: "setup_run s es t \<Longrightarrow> setup_step t e u \<Longrightarrow> setup_run s (es @ [e]) u"

inductive_cases setup_step_E: "setup_step s e t"
inductive_simps setup_step_simps: "setup_step s (e, ok) t"

text \<open>The setup functions a run has sent with success, in order.\<close>

definition setup_sent :: "(setup_event \<times> bool) list \<Rightarrow> nat list" where
  "setup_sent es = concat (map (\<lambda>(e, ok). case e of
     Sent f _ \<Rightarrow> if ok \<and> f \<in> {F_Initialize, F_SetTpName, F_SetPartnerLuName, F_Allocate} then [f] else []
   | _ \<Rightarrow> []) es)"

lemma setup_sent_snoc [simp]:
  "setup_sent (es @ [(e, ok)]) = setup_sent es @ (case e of
     Sent f _ \<Rightarrow> if ok \<and> f \<in> {F_Initialize, F_SetTpName, F_SetPartnerLuName, F_Allocate} then [f] else []
   | _ \<Rightarrow> [])"
  by (simp add: setup_sent_def)

definition handshakes :: "nat list list" where
  "handshakes = [[F_Initialize, F_SetPartnerLuName, F_Allocate],
     [F_Initialize, F_SetTpName, F_SetPartnerLuName, F_Allocate]]"

fun setup_history :: "setup_state \<Rightarrow> nat list \<Rightarrow> bool" where
  "setup_history New h \<longleftrightarrow> h = []"
| "setup_history InitializePending h \<longleftrightarrow> h = [F_Initialize]"
| "setup_history Initialized h \<longleftrightarrow> h = [F_Initialize]"
| "setup_history TpSet h \<longleftrightarrow> h = [F_Initialize, F_SetTpName]"
| "setup_history PartnerSet h \<longleftrightarrow> h \<in> {[F_Initialize, F_SetPartnerLuName],
     [F_Initialize, F_SetTpName, F_SetPartnerLuName]}"
| "setup_history Closed h \<longleftrightarrow> True"
| "setup_history s h \<longleftrightarrow> h \<in> set handshakes"

lemma received_fails_closed: "received s p = (Inl e, s') \<Longrightarrow> s' = Closed"
  by (auto simp: received_def split: if_splits sum.splits)

lemma sent_fails_unchanged: "sent s f fin = (Inl e, s') \<Longrightarrow> s' = s"
  by (auto simp: sent_def split: if_splits)

lemma closed_absorbing: "setup_apply e Closed = (ok, t) \<Longrightarrow> \<not> ok \<and> t = Closed"
  by (cases e) (auto simp: sent_def sent_allowed_def received_def received_allowed_def responseComplete_def
      split: if_splits sum.splits prod.splits)

lemma setup_history_step:
  assumes "setup_history s (setup_sent es)" and "setup_step s (e, ok) t"
  shows "setup_history t (setup_sent (es @ [(e, ok)]))"
proof (cases e)
  case (Sent f fin)
  with assms show ?thesis
    by (cases s) (auto simp: setup_step_simps sent_def sent_allowed_def sent_state_def handshakes_def split: if_splits)
next
  case (Received p)
  with assms show ?thesis
    by (cases s) (auto simp: setup_step_simps received_def received_allowed_def split: if_splits sum.splits)
next
  case Completed
  with assms show ?thesis
    by (cases s) (auto simp: setup_step_simps responseComplete_def split: if_splits)
qed

lemma setup_history_run:
  assumes "setup_run s es t" and "s = New"
  shows "setup_history t (setup_sent es)"
  using assms
proof induction
  case (run_nil s)
  then show ?case by (simp add: setup_sent_def)
next
  case (run_snoc s es t e u)
  then show ?case using setup_history_step by (cases e) blast
qed

text \<open>C34. The handshake cannot be skipped: in every run of the machine from its initial state,
  with any calls in any order and any bytes from the peer, an open state past the handshake
  is reached only after exactly \<open>F_INITIALIZE\<close>, optionally \<open>F_SET_TP_NAME\<close>,
  \<open>F_SET_PARTNER_LU_NAME\<close> and \<open>F_ALLOCATE\<close> went out, once each and in this order.\<close>

theorem appc_setup_handshake:
  assumes "setup_run New es t"
    and "t \<in> {AllocatePending, Ready, SendContinuation, SendBarrierPending, ResponsePending}"
  shows "setup_sent es \<in> set handshakes"
  using setup_history_run [OF assms(1)] assms(2) by auto

text \<open>C35. The machine fails closed: a reply that is refused, or a completion out of turn, leaves
  it closed; a refused send leaves the state alone; and a closed machine accepts nothing and
  stays closed.\<close>

theorem appc_setup_fails_closed:
  assumes "setup_apply e s = (False, t)"
  shows "(case e of Sent _ _ \<Rightarrow> t = s | _ \<Rightarrow> t = Closed) \<and> setup_apply e Closed = (False, Closed)"
proof -
  have "setup_apply e Closed = (False, Closed)"
    using closed_absorbing [of e] by (cases "setup_apply e Closed") auto
  moreover have "case e of Sent _ _ \<Rightarrow> t = s | _ \<Rightarrow> t = Closed"
    using assms
    by (cases e) (auto simp: isl_def responseComplete_def split: prod.splits if_splits
        dest: sent_fails_unchanged received_fails_closed)
  ultimately show ?thesis by simp
qed

definition reply_bytes :: "nat \<Rightarrow> bytes" where
  "reply_bytes f = header_bytes (header_of f no_input 0) @ replicate 32 0"

lemma no_input_fits: "input_fits no_input"
  by (simp add: input_fits_def between_def no_input_def)

lemma received_reply:
  assumes "f \<le> 255"
  shows "received s (reply_bytes f) =
    (if received_allowed s f
     then (Inr Accepted, if s = InitializePending then Initialized else if s = AllocatePending then Ready
             else if s = SendBarrierPending then SendContinuation else s)
     else (Inl (PlainError ''cannot receive while APPC client is closed''), Closed))"
proof -
  have "header_fits (header_of f no_input 0)"
    using header_of_fits [OF assms no_input_fits, of 0] by simp
  then have "decodeAppcHeader (reply_bytes f) = Inr (header_of f no_input 0)"
    unfolding reply_bytes_def by (rule decodeAppcHeader_header)
  moreover have "length (reply_bytes f) = 80"
    by (simp add: reply_bytes_def header_of_def no_input_def)
  ultimately show ?thesis
    by (simp add: received_def APPC_RECORD_HEADER_LENGTH_def) (simp add: header_of_def no_input_def)
qed

lemma setup_run_snocI: "setup_run s es t \<Longrightarrow> setup_apply e t = (ok, u) \<Longrightarrow> setup_run s (es @ [(e, ok)]) u"
  by (blast intro: setup_run.run_snoc setup_step.step)

lemma appc_setup_handshake_witness:
  "\<exists>es. setup_run New es Ready \<and> length es = 5 \<and>
     setup_sent es = [F_Initialize, F_SetPartnerLuName, F_Allocate]"
proof -
  define es where "es = [(Sent F_Initialize True, True), (Received (reply_bytes F_Initialize), True),
    (Sent F_SetPartnerLuName True, True), (Sent F_Allocate True, True),
    (Received (reply_bytes F_Allocate), True)]"
  have "setup_run New (((([] @ [(Sent F_Initialize True, True)]) @
      [(Received (reply_bytes F_Initialize), True)]) @ [(Sent F_SetPartnerLuName True, True)]) @
      [(Sent F_Allocate True, True)] @ [(Received (reply_bytes F_Allocate), True)]) Ready"
    unfolding append_assoc [symmetric]
    by (rule setup_run_snocI setup_run.run_nil |
        simp add: received_reply received_allowed_def sent_def sent_allowed_def sent_state_def)+
  then have run: "setup_run New es Ready" by (simp add: es_def)
  from appc_setup_handshake [OF run] have "setup_sent es \<in> set handshakes" by simp
  moreover have "setup_sent es = [F_Initialize, F_SetPartnerLuName, F_Allocate]"
    by (simp add: es_def setup_sent_def)
  ultimately show ?thesis using run by (intro exI [of _ es]) (simp add: es_def)
qed

lemma appc_setup_fails_closed_witness:
  "setup_apply (Received [6, 1]) ResponsePending = (False, Closed) \<and>
   setup_apply (Received [6, 1]) Closed = (False, Closed)"
proof -
  have f: "setup_apply (Received [6, 1]) ResponsePending = (False, Closed)"
    by (simp add: received_def APPC_RECORD_HEADER_LENGTH_def)
  with appc_setup_fails_closed [OF f] show ?thesis by simp
qed

end
