(* ===== verification/AppcDecoder.thy ===== *)
theory AppcDecoder
  imports AppcSession
begin

text \<open>
  The conversation decoder of \<open>src/protocol/appc.ts\<close>, which reassembles application messages
  from \<open>F_SAP_SEND\<close> and \<open>F_RECEIVE\<close> records. A push returns its result together with the
  decoder it leaves behind, whether it throws or not.
\<close>

record appc_data_fragment =
  df_header :: appc_header
  df_data :: bytes
  df_isFinal :: bool

definition decodeAppcDataFragment :: "bytes \<Rightarrow> appc_data_fragment result" where
  "decodeAppcDataFragment payload =
    (if length payload < APPC_RECORD_HEADER_LENGTH
     then Inl (RangeError ''an APPC data record needs 80 bytes'')
     else rbind (decodeAppcHeader payload) (\<lambda>header.
     if h_functionCode header \<noteq> F_SapSend \<and> h_functionCode header \<noteq> F_Receive
     then Inl (PlainError ''is not an APPC RFC data fragment'')
     else Inr \<lparr>df_header = header, df_data = drop APPC_RECORD_HEADER_LENGTH payload,
               df_isFinal = odd (h_vector header div 4)\<rparr>))"

record appc_pending =
  pm_chunks :: "bytes list"
  pm_conversationId :: bytes
  pm_sequenceNumber :: nat
  pm_byteLength :: int
  pm_fragmentCount :: int
  pm_communicationIndex :: nat
  pm_connectionIndex :: nat

record appc_message =
  m_data :: bytes
  m_conversationId :: bytes
  m_sequenceNumber :: nat
  m_fragmentCount :: int
  m_communicationIndex :: nat
  m_connectionIndex :: nat

record appc_decoder =
  ad_maxMessageLength :: int
  ad_maxFragments :: int
  ad_allowInitialReceive :: bool
  ad_validateInfo :: bool
  ad_pending :: "appc_pending option"

definition DEFAULT_MAX_APPC_MESSAGE_LENGTH :: int where
  "DEFAULT_MAX_APPC_MESSAGE_LENGTH = 256 * 1024 * 1024"

definition appc_decoder_new :: "int option \<Rightarrow> int option \<Rightarrow> bool option \<Rightarrow> bool option \<Rightarrow> appc_decoder result" where
  "appc_decoder_new maxMessageLength maxFragments allowInitialReceive validateInfo =
    (let d = \<lparr>ad_maxMessageLength = or_else maxMessageLength DEFAULT_MAX_APPC_MESSAGE_LENGTH,
              ad_maxFragments = or_else maxFragments DEFAULT_MAX_APPC_MESSAGE_FRAGMENTS,
              ad_allowInitialReceive = or_else allowInitialReceive False,
              ad_validateInfo = or_else validateInfo False, ad_pending = None\<rparr>
     in if \<not> is_safe_integer (ad_maxMessageLength d) \<or> ad_maxMessageLength d < 0
     then Inl (RangeError ''maxMessageLength must be a non-negative safe integer'')
     else if \<not> is_safe_integer (ad_maxFragments d) \<or> ad_maxFragments d < 1
     then Inl (RangeError ''maxFragments must be a positive safe integer'')
     else Inr d)"

definition checkLimits :: "appc_decoder \<Rightarrow> int \<Rightarrow> int \<Rightarrow> unit result" where
  "checkLimits d byteLength fragmentCount =
    (if ad_maxMessageLength d < byteLength
     then Inl (RangeError ''APPC message length exceeds configured limit'')
     else if ad_maxFragments d < fragmentCount
     then Inl (RangeError ''APPC fragment count exceeds configured limit'')
     else Inr ())"

definition bufferedByteLength :: "appc_decoder \<Rightarrow> int" where
  "bufferedByteLength d = (case ad_pending d of None \<Rightarrow> 0 | Some p \<Rightarrow> pm_byteLength p)"

definition bufferedFragments :: "appc_decoder \<Rightarrow> int" where
  "bufferedFragments d = (case ad_pending d of None \<Rightarrow> 0 | Some p \<Rightarrow> pm_fragmentCount p)"

definition status_check :: "appc_header \<Rightarrow> bool \<Rightarrow> unit result" where
  "status_check header terminal =
    (let deallocated = h_appcReturnCode header = 18 \<and> h_sapReturnCode header = 0 in
     if terminal
     then if \<not> deallocated
       then Inl (PlainError ''terminal APPC deallocation requires APPC return code 18 and SAP return code 0'')
       else Inr ()
     else if deallocated
     then Inl (PlainError ''normal deallocation must use the terminal decoder'')
     else if h_appcReturnCode header \<noteq> 0 \<or> h_sapReturnCode header \<noteq> 0
     then Inl (PlainError ''cannot be decoded after an APPC return code'')
     else Inr ())"

definition identity_check :: "appc_pending \<Rightarrow> appc_header \<Rightarrow> appc_data_info \<Rightarrow> unit result" where
  "identity_check pending header info =
    (if pm_conversationId pending \<noteq> h_conversationId header
     then Inl (PlainError ''APPC conversation ID changed'')
     else if pm_sequenceNumber pending \<noteq> h_sequenceNumber header
     then Inl (PlainError ''APPC sequence number changed'')
     else if pm_communicationIndex pending \<noteq> d_communicationIndex info \<or>
             pm_connectionIndex pending \<noteq> d_connectionIndex info
     then Inl (PlainError ''APPC connection indices changed'')
     else Inr ())"

definition single_message :: "appc_data_fragment \<Rightarrow> appc_data_info \<Rightarrow> appc_message" where
  "single_message fragment info =
     \<lparr>m_data = df_data fragment, m_conversationId = h_conversationId (df_header fragment),
      m_sequenceNumber = h_sequenceNumber (df_header fragment), m_fragmentCount = 1,
      m_communicationIndex = d_communicationIndex info, m_connectionIndex = d_connectionIndex info\<rparr>"

definition first_pending :: "appc_data_fragment \<Rightarrow> appc_data_info \<Rightarrow> appc_pending" where
  "first_pending fragment info =
     \<lparr>pm_chunks = [df_data fragment], pm_conversationId = h_conversationId (df_header fragment),
      pm_sequenceNumber = h_sequenceNumber (df_header fragment),
      pm_byteLength = int (length (df_data fragment)), pm_fragmentCount = 1,
      pm_communicationIndex = d_communicationIndex info, pm_connectionIndex = d_connectionIndex info\<rparr>"

text \<open>The pending message with one more chunk, and the message it makes.\<close>

definition more_pending :: "appc_pending \<Rightarrow> bytes \<Rightarrow> appc_pending" where
  "more_pending pending chunk = pending\<lparr>pm_chunks := pm_chunks pending @ [chunk],
     pm_byteLength := pm_byteLength pending + int (length chunk),
     pm_fragmentCount := pm_fragmentCount pending + 1\<rparr>"

definition pending_message :: "appc_pending \<Rightarrow> appc_message" where
  "pending_message pending = \<lparr>m_data = concat (pm_chunks pending),
     m_conversationId = pm_conversationId pending, m_sequenceNumber = pm_sequenceNumber pending,
     m_fragmentCount = pm_fragmentCount pending,
     m_communicationIndex = pm_communicationIndex pending,
     m_connectionIndex = pm_connectionIndex pending\<rparr>"

text \<open>A first record: at once a message when final, otherwise the start of a pending one.\<close>

definition push_first :: "appc_decoder \<Rightarrow> appc_data_fragment \<Rightarrow> appc_data_info
    \<Rightarrow> appc_message list result \<times> appc_decoder" where
  "push_first d fragment info =
    (case checkLimits d (int (length (df_data fragment))) 1 of
       Inl e \<Rightarrow> (Inl e, d)
     | Inr _ \<Rightarrow>
         if df_isFinal fragment then (Inr [single_message fragment info], d)
         else (Inr [], d\<lparr>ad_pending := Some (first_pending fragment info)\<rparr>))"

definition push_terminal :: "appc_decoder \<Rightarrow> appc_data_fragment \<Rightarrow> appc_data_info
    \<Rightarrow> appc_message list result \<times> appc_decoder" where
  "push_terminal d fragment info =
    (if length (df_data fragment) = 0
     then (Inl (CodedError ''AppcNormalDeallocationWithoutDataError'' ''connection closed without message''), d)
     else case ad_pending d of
       None \<Rightarrow>
         if h_functionCode (df_header fragment) = F_Receive \<and> \<not> ad_allowInitialReceive d
         then (Inl (PlainError ''received terminal F_RECEIVE without a preceding F_SAP_SEND''), d)
         else (case checkLimits d (int (length (df_data fragment))) 1 of
             Inl e \<Rightarrow> (Inl e, d)
           | Inr _ \<Rightarrow> (Inr [single_message fragment info], d))
     | Some pending \<Rightarrow>
         if h_functionCode (df_header fragment) \<noteq> F_Receive
         then (Inl (PlainError ''normal deallocation started a new F_SAP_SEND during a fragmented message''), d)
         else case rbind (identity_check pending (df_header fragment) info) (\<lambda>_.
                checkLimits d (pm_byteLength pending + int (length (df_data fragment)))
                  (pm_fragmentCount pending + 1)) of
             Inl e \<Rightarrow> (Inl e, d)
           | Inr _ \<Rightarrow> (Inr [pending_message (more_pending pending (df_data fragment))],
                        d\<lparr>ad_pending := None\<rparr>))"

definition push_continuing :: "appc_decoder \<Rightarrow> appc_data_fragment \<Rightarrow> appc_data_info
    \<Rightarrow> appc_message list result \<times> appc_decoder" where
  "push_continuing d fragment info =
    (if h_functionCode (df_header fragment) = F_SapSend
     then if ad_pending d \<noteq> None
       then (Inl (PlainError ''received a new F_SAP_SEND during an unfinished fragmented message''), d)
       else push_first d fragment info
     else case ad_pending d of
       None \<Rightarrow>
         if \<not> ad_allowInitialReceive d
         then (Inl (PlainError ''received F_RECEIVE without a preceding fragmented F_SAP_SEND''), d)
         else push_first d fragment info
     | Some pending \<Rightarrow>
         case rbind (identity_check pending (df_header fragment) info) (\<lambda>_.
                checkLimits d (pm_byteLength pending + int (length (df_data fragment)))
                  (pm_fragmentCount pending + 1)) of
           Inl e \<Rightarrow> (Inl e, d)
         | Inr _ \<Rightarrow>
             let pending = more_pending pending (df_data fragment) in
             if \<not> df_isFinal fragment then (Inr [], d\<lparr>ad_pending := Some pending\<rparr>)
             else (Inr [pending_message pending], d\<lparr>ad_pending := None\<rparr>))"

text \<open>The record as the decoder reads it: the size check before the copy, the fragment, and the
  operation information.\<close>

definition push_record :: "appc_decoder \<Rightarrow> bytes \<Rightarrow> (appc_data_fragment \<times> appc_data_info) result" where
  "push_record d payload =
     rbind (if APPC_RECORD_HEADER_LENGTH \<le> length payload
            then checkLimits d (bufferedByteLength d + int (length payload - APPC_RECORD_HEADER_LENGTH))
                   (bufferedFragments d + 1)
            else Inr ()) (\<lambda>_.
     rbind (decodeAppcDataFragment payload) (\<lambda>fragment.
     rbind (decodeAppcIncomingDataOperationInfo
              (slice APPC_COMMON_HEADER_LENGTH (APPC_RECORD_HEADER_LENGTH - APPC_COMMON_HEADER_LENGTH) payload))
       (\<lambda>info.
     if ad_validateInfo d \<and> d_dataLength info \<noteq> length (df_data fragment)
     then Inl (PlainError ''incoming APPC data length does not match record payload length'')
     else Inr (fragment, info))))"

definition appc_push :: "appc_decoder \<Rightarrow> bytes \<Rightarrow> bool \<Rightarrow> appc_message list result \<times> appc_decoder" where
  "appc_push d payload terminal =
    (case rbind (decodeAppcHeader payload) (\<lambda>header. rbind (status_check header terminal) (\<lambda>_. Inr header)) of
       Inl e \<Rightarrow> (Inl e, d)
     | Inr header \<Rightarrow>
         if h_functionCode header \<noteq> F_SapSend \<and> h_functionCode header \<noteq> F_Receive
         then if ad_pending d \<noteq> None
           then (Inl (PlainError ''interrupted a fragmented message before its final APPC record''), d)
           else if terminal
           then (Inl (CodedError ''AppcNormalDeallocationWithoutDataError'' ''connection closed without message''), d)
           else (Inr [], d)
         else case push_record d payload of
           Inl e \<Rightarrow> (Inl e, d)
         | Inr (fragment, info) \<Rightarrow>
             if terminal then push_terminal d fragment info else push_continuing d fragment info)"

definition appc_decoder_finish :: "appc_decoder \<Rightarrow> unit result" where
  "appc_decoder_finish d = (if ad_pending d \<noteq> None then Inl (PlainError ''truncated APPC message'') else Inr ())"

section \<open>Bounded buffering\<close>

text \<open>What the decoder holds is within its limits, and its counters count it.\<close>

definition decoder_inv :: "appc_decoder \<Rightarrow> bool" where
  "decoder_inv d \<longleftrightarrow> (case ad_pending d of None \<Rightarrow> True
     | Some p \<Rightarrow> pm_chunks p \<noteq> [] \<and> pm_byteLength p = int (length (concat (pm_chunks p))) \<and>
         pm_fragmentCount p = int (length (pm_chunks p)) \<and>
         pm_byteLength p \<le> ad_maxMessageLength d \<and> pm_fragmentCount p \<le> ad_maxFragments d)"

definition message_within :: "appc_decoder \<Rightarrow> appc_message \<Rightarrow> bool" where
  "message_within d m \<longleftrightarrow> int (length (m_data m)) \<le> ad_maxMessageLength d \<and>
     1 \<le> m_fragmentCount m \<and> m_fragmentCount m \<le> ad_maxFragments d"

definition same_limits :: "appc_decoder \<Rightarrow> appc_decoder \<Rightarrow> bool" where
  "same_limits d d' \<longleftrightarrow> ad_maxMessageLength d' = ad_maxMessageLength d \<and>
     ad_maxFragments d' = ad_maxFragments d \<and> ad_allowInitialReceive d' = ad_allowInitialReceive d \<and>
     ad_validateInfo d' = ad_validateInfo d"

lemma push_first_inv:
  assumes "push_first d fragment info = (r, d')" and "decoder_inv d"
  shows "decoder_inv d' \<and> same_limits d d' \<and> (isl r \<longrightarrow> d' = d) \<and>
    (\<forall>ms. r = Inr ms \<longrightarrow> (\<forall>m \<in> set ms. message_within d m))"
  using assms by (auto simp: push_first_def decoder_inv_def same_limits_def checkLimits_def first_pending_def
      single_message_def message_within_def split: if_splits sum.splits)

lemma push_terminal_inv:
  assumes "push_terminal d fragment info = (r, d')" and "decoder_inv d"
  shows "decoder_inv d' \<and> same_limits d d' \<and> (isl r \<longrightarrow> d' = d) \<and>
    (\<forall>ms. r = Inr ms \<longrightarrow> (\<forall>m \<in> set ms. message_within d m))"
  using assms by (auto simp: push_terminal_def decoder_inv_def same_limits_def checkLimits_def
      more_pending_def pending_message_def single_message_def message_within_def split: if_splits sum.splits option.splits)

lemma push_continuing_inv:
  assumes "push_continuing d fragment info = (r, d')" and "decoder_inv d"
  shows "decoder_inv d' \<and> same_limits d d' \<and> (isl r \<longrightarrow> d' = d) \<and>
    (\<forall>ms. r = Inr ms \<longrightarrow> (\<forall>m \<in> set ms. message_within d m))"
proof (cases "h_functionCode (df_header fragment) = F_SapSend \<or> ad_pending d = None")
  case True
  with assms show ?thesis
    using push_first_inv [of d fragment info r d']
    by (auto simp: push_continuing_def same_limits_def split: if_splits option.splits)
next
  case False
  with assms show ?thesis
    by (auto simp: push_continuing_def decoder_inv_def same_limits_def checkLimits_def Let_def
        more_pending_def pending_message_def message_within_def split: if_splits sum.splits option.splits)
qed

lemma appc_push_inv:
  assumes "appc_push d payload terminal = (r, d')" and "decoder_inv d"
  shows "decoder_inv d' \<and> same_limits d d' \<and> (isl r \<longrightarrow> d' = d) \<and>
    (\<forall>ms. r = Inr ms \<longrightarrow> (\<forall>m \<in> set ms. message_within d m))"
proof -
  consider "(\<exists>e. r = Inl e) \<and> d' = d" | "r = Inr [] \<and> d' = d"
    | fragment info where "push_terminal d fragment info = (r, d')"
    | fragment info where "push_continuing d fragment info = (r, d')"
  proof (cases "rbind (decodeAppcHeader payload) (\<lambda>header. rbind (status_check header terminal) (\<lambda>_. Inr header))")
    case (Inl e)
    then have "appc_push d payload terminal = (Inl e, d)" unfolding appc_push_def by simp
    with assms(1) show thesis by (intro that(1)) auto
  next
    case (Inr header)
    note push = assms(1) [unfolded appc_push_def Inr sum.case]
    show thesis
    proof (cases "push_record d payload")
      case (Inl e)
      with push that(1,2) show thesis by (auto split: if_splits)
    next
      case (Inr p)
      obtain fragment info where p: "p = (fragment, info)" by fastforce
      show thesis
      proof (cases "h_functionCode header \<noteq> F_SapSend \<and> h_functionCode header \<noteq> F_Receive")
        case True
        with push that(1,2) show thesis by (auto split: if_splits)
      next
        case False
        with push Inr p have "(if terminal then push_terminal d fragment info
            else push_continuing d fragment info) = (r, d')" by simp
        then show thesis using that(3,4) by (cases terminal) simp_all
      qed
    qed
  qed
  then show ?thesis
  proof cases
    case 1
    with assms(2) show ?thesis by (auto simp: same_limits_def)
  next
    case 2
    with assms(2) show ?thesis by (simp add: same_limits_def)
  next
    case 3
    from push_terminal_inv [OF this assms(2)] show ?thesis .
  next
    case 4
    from push_continuing_inv [OF this assms(2)] show ?thesis .
  qed
qed

lemma length_concat_int: "int (length (concat xss)) = sum_list (map (\<lambda>xs. int (length xs)) xss)"
  by (induction xss) simp_all

lemma appc_decoder_new_inv:
  "appc_decoder_new ml mf ai vi = Inr d \<Longrightarrow> decoder_inv d \<and> ad_pending d = None \<and> 0 \<le> ad_maxMessageLength d \<and>
     1 \<le> ad_maxFragments d"
  by (auto simp: appc_decoder_new_def decoder_inv_def Let_def split: if_splits)

text \<open>Any number of records, ordinary and terminal ones mixed, pushed whatever the outcome.\<close>

fun appc_pushes :: "appc_decoder \<Rightarrow> (bytes \<times> bool) list \<Rightarrow> appc_message list result list \<times> appc_decoder" where
  "appc_pushes d [] = ([], d)"
| "appc_pushes d ((payload, terminal) # ps) =
    (case appc_push d payload terminal of (r, d') \<Rightarrow>
     case appc_pushes d' ps of (rs, d'') \<Rightarrow> (r # rs, d''))"

lemma appc_pushes_inv:
  assumes "appc_pushes d ps = (rs, d')" and "decoder_inv d"
  shows "decoder_inv d' \<and> same_limits d d' \<and>
    (\<forall>ms. Inr ms \<in> set rs \<longrightarrow> (\<forall>m \<in> set ms. message_within d m))"
  using assms
proof (induction d ps arbitrary: rs rule: appc_pushes.induct)
  case (1 d)
  then show ?case by (simp add: same_limits_def)
next
  case (2 d payload terminal ps)
  obtain r d1 where first: "appc_push d payload terminal = (r, d1)" by fastforce
  obtain rs1 d2 where rest: "appc_pushes d1 ps = (rs1, d2)" by fastforce
  from first rest 2(2) have eq: "rs = r # rs1" "d' = d2" by auto
  from appc_push_inv [OF first 2(3)] have d1: "decoder_inv d1" "same_limits d d1"
    and r: "\<forall>ms. r = Inr ms \<longrightarrow> (\<forall>m \<in> set ms. message_within d m)" by auto
  from 2(1) [OF first [symmetric], of rs1] rest eq d1(1)
  have "decoder_inv d2 \<and> same_limits d1 d2 \<and>
      (\<forall>ms. Inr ms \<in> set rs1 \<longrightarrow> (\<forall>m \<in> set ms. message_within d1 m))"
    by auto
  with d1(2) r eq show ?case by (auto simp: same_limits_def message_within_def)
qed

text \<open>C33. Bounded memory: whatever records a peer sends, in any number, valid or not, a decoder
never holds more bytes or more fragments than its configured limits; its byte counter is the number of bytes
and its fragment counter the number of fragments it really holds, both 0 between messages; and no message it
delivers is longer than the byte limit or made of more fragments than the fragment limit.\<close>

theorem appc_decoder_bounded:
  assumes "appc_decoder_new ml mf ai vi = Inr d" and "appc_pushes d ps = (rs, d')"
  shows "0 \<le> bufferedByteLength d' \<and> bufferedByteLength d' \<le> ad_maxMessageLength d \<and>
    bufferedFragments d' \<le> ad_maxFragments d \<and>
    bufferedByteLength d' = sum_list (map (\<lambda>chunk. int (length chunk)) (case ad_pending d' of None \<Rightarrow> [] | Some p \<Rightarrow> pm_chunks p)) \<and>
    bufferedFragments d' = int (length (case ad_pending d' of None \<Rightarrow> [] | Some p \<Rightarrow> pm_chunks p)) \<and>
    (\<forall>p. ad_pending d' = Some p \<longrightarrow> bufferedByteLength d' = int (length (concat (pm_chunks p)))) \<and>
    (\<forall>ms. Inr ms \<in> set rs \<longrightarrow> (\<forall>m \<in> set ms. int (length (m_data m)) \<le> ad_maxMessageLength d \<and>
       m_fragmentCount m \<le> ad_maxFragments d))"
proof -
  from appc_decoder_new_inv [OF assms(1)] have d: "decoder_inv d" "0 \<le> ad_maxMessageLength d" "1 \<le> ad_maxFragments d"
    by simp_all
  from appc_pushes_inv [OF assms(2) d(1)] have d': "decoder_inv d'" "same_limits d d'"
    and messages: "\<forall>ms. Inr ms \<in> set rs \<longrightarrow> (\<forall>m \<in> set ms. message_within d m)" by simp_all
  show ?thesis
  proof (cases "ad_pending d'")
    case None
    with d messages show ?thesis by (simp add: bufferedByteLength_def bufferedFragments_def message_within_def)
  next
    case (Some p)
    with d' have "pm_byteLength p = int (length (concat (pm_chunks p)))" "pm_fragmentCount p = int (length (pm_chunks p))"
      "pm_byteLength p \<le> ad_maxMessageLength d" "pm_fragmentCount p \<le> ad_maxFragments d"
      by (simp_all add: decoder_inv_def same_limits_def)
    with Some messages length_concat_int [of "pm_chunks p"] show ?thesis
      by (simp only: bufferedByteLength_def bufferedFragments_def message_within_def option.case option.inject) simp
  qed
qed

lemma appc_decoder_bounded_witness:
  "\<exists>d rs d'. appc_decoder_new (Some 10) (Some 2) None None = Inr d \<and>
     appc_pushes d [(reply_bytes F_SapSend, False), (reply_bytes F_Receive, True)] = (rs, d') \<and>
     bufferedByteLength d' \<le> 10 \<and> bufferedFragments d' \<le> 2"
proof -
  obtain d where d: "appc_decoder_new (Some 10) (Some 2) None None = Inr d"
    by (simp add: appc_decoder_new_def is_safe_integer_def max_safe_integer_def)
  then have "ad_maxMessageLength d = 10" "ad_maxFragments d = 2"
    by (auto simp: appc_decoder_new_def Let_def split: if_splits)
  moreover obtain rs d' where
    "appc_pushes d [(reply_bytes F_SapSend, False), (reply_bytes F_Receive, True)] = (rs, d')" by fastforce
  ultimately show ?thesis using appc_decoder_bounded [OF d] d by metis
qed

text \<open>A record that is refused changes nothing: after any history, a push that throws leaves
  the decoder, its pending message included, as it was.\<close>

theorem appc_failed_push_keeps_state:
  assumes "appc_decoder_new ml mf ai vi = Inr d0" and "appc_pushes d0 ps = (rs, d)"
    and "appc_push d payload terminal = (Inl e, d')"
  shows "d' = d"
  using appc_push_inv [OF assms(3)] appc_pushes_inv [OF assms(2)] appc_decoder_new_inv [OF assms(1)] by simp

lemma appc_failed_push_keeps_state_witness:
  "\<exists>d. appc_decoder_new None None None None = Inr d \<and> fst (appc_push d [6, 1] False) \<noteq> Inr [] \<and>
     snd (appc_push d [6, 1] False) = d"
proof -
  obtain d where d: "appc_decoder_new None None None None = Inr d"
    by (simp add: appc_decoder_new_def is_safe_integer_def max_safe_integer_def DEFAULT_MAX_APPC_MESSAGE_LENGTH_def
        plan_limits)
  have push: "\<exists>e d'. appc_push d [6, 1] False = (Inl e, d')"
    by (simp add: appc_push_def decodeAppcHeader_def appc_lengths)
  then obtain e d' where e: "appc_push d [6, 1] False = (Inl e, d')" by blast
  with appc_failed_push_keeps_state [OF d appc_pushes.simps(1) e] d show ?thesis by auto
qed

section \<open>Reassembly\<close>

definition push_ok :: "appc_decoder \<Rightarrow> bytes \<Rightarrow> js_error + appc_message list \<times> appc_decoder" where
  "push_ok d payload = (case appc_push d payload False of (r, d') \<Rightarrow> rbind r (\<lambda>ms. Inr (ms, d')))"

text \<open>The records of one message sent in chunks: a first \<open>F_SAP_SEND\<close>, then \<open>F_RECEIVE\<close>s.\<close>

record identity =
  id_conversation :: bytes
  id_sequence :: nat
  id_communication :: nat
  id_connection :: nat

definition identity_ok :: "identity \<Rightarrow> bool" where
  "identity_ok i \<longleftrightarrow> length (id_conversation i) = 8 \<and> id_sequence i < 4294967296 \<and>
     id_communication i < 65536 \<and> id_connection i < 65536"

definition chunk_input :: "identity \<Rightarrow> bool \<Rightarrow> bool \<Rightarrow> bytes \<Rightarrow> appc_data_input" where
  "chunk_input i isFirst isFinal chunk = appc_input.extend
     (no_input\<lparr>in_conversationId := Some (id_conversation i), in_sequenceNumber := Some (int (id_sequence i))\<rparr>)
     \<lparr>di_functionCode = Some (if isFirst then F_SapSend else F_Receive), di_data = chunk,
      di_communicationIndex = int (id_communication i), di_connectionIndex = int (id_connection i),
      di_isFinal = Some isFinal\<rparr>"

lemma data_record_decodes:
  assumes "identity_ok i" and "int (length chunk) \<le> 0x7fffffff"
  shows "\<exists>out h. encodeAppcDataRecord (chunk_input i isFirst isFinal chunk) = Inr out \<and>
    length out = 80 + length chunk \<and> drop 80 out = chunk \<and> decodeAppcHeader out = Inr h \<and>
    h_functionCode h = (if isFirst then F_SapSend else F_Receive) \<and>
    odd (h_vector h div 4) = isFinal \<and> h_conversationId h = id_conversation i \<and>
    h_sequenceNumber h = id_sequence i \<and> h_appcReturnCode h = 0 \<and> h_sapReturnCode h = 0 \<and>
    slice 48 32 out = extended_info_bytes (defaultExtendedInfo
      \<lparr>x_communicationIndex := int (id_communication i), x_connectionIndex := int (id_connection i)\<rparr>)"
proof -
  let ?inp = "chunk_input i isFirst isFinal chunk"
  let ?f = "if isFirst then F_SapSend else F_Receive"
  let ?op = "extended_info_bytes (defaultExtendedInfo
        \<lparr>x_communicationIndex := int (id_communication i), x_connectionIndex := int (id_connection i)\<rparr>)"
  let ?inp' = "?inp\<lparr>in_info := Some (if isFinal then 5 else 1),
        in_vector := Some (if isFinal then 0x0c else if isFirst then 0x08 else 0)\<rparr>"
  let ?sap = "if isFinal then 8 else (0 :: int)"
  have fits: "input_fits ?inp'"
    using assms(1) by (simp add: chunk_input_def input_fits_def between_def no_input_def appc_input.defs
        identity_ok_def)
  then obtain out where rec: "encodeAppcRecord ?f ?inp' ?op ?sap [chunk] = Inr out"
    using assms(2) by (simp add: encodeAppcRecord_iff max_safe_integer_def)
  have "encodeAppcDataRecord ?inp = encodeAppcRecord ?f ?inp' ?op ?sap [chunk]"
    using assms(1) by (simp add: encodeAppcDataRecord_def Let_def extended_op_eq identity_ok_def
        chunk_input_def appc_input.defs no_input_def between_def)
  moreover have "length out = 80 + length chunk"
    using rec assms(1) by (auto simp: encodeAppcRecord_iff header_of_def chunk_input_def identity_ok_def
        appc_input.defs)
  ultimately show ?thesis
    using encodeAppcRecord_sound [OF rec] rec
    by (auto simp: appc_lengths header_of_def chunk_input_def appc_input.defs no_input_def)
qed

fun rest_records :: "identity \<Rightarrow> bytes list \<Rightarrow> bytes list result" where
  "rest_records i [] = Inr []"
| "rest_records i (c # cs) = rbind (encodeAppcDataRecord (chunk_input i False (cs = []) c)) (\<lambda>b.
     rbind (rest_records i cs) (\<lambda>bs. Inr (b # bs)))"

fun message_records :: "identity \<Rightarrow> bytes list \<Rightarrow> bytes list result" where
  "message_records i [] = Inr []"
| "message_records i (c # cs) = rbind (encodeAppcDataRecord (chunk_input i True (cs = []) c)) (\<lambda>b.
     rbind (rest_records i cs) (\<lambda>bs. Inr (b # bs)))"

definition info_of :: "identity \<Rightarrow> appc_data_info" where
  "info_of i = \<lparr>d_dataLength = 0, d_communicationIndex = id_communication i,
     d_connectionIndex = id_connection i\<rparr>"

definition message_of :: "identity \<Rightarrow> bytes list \<Rightarrow> appc_message" where
  "message_of i chunks = \<lparr>m_data = concat chunks, m_conversationId = id_conversation i,
     m_sequenceNumber = id_sequence i, m_fragmentCount = int (length chunks),
     m_communicationIndex = id_communication i, m_connectionIndex = id_connection i\<rparr>"

definition pending_of :: "identity \<Rightarrow> bytes list \<Rightarrow> appc_pending" where
  "pending_of i chunks = \<lparr>pm_chunks = chunks, pm_conversationId = id_conversation i,
     pm_sequenceNumber = id_sequence i, pm_byteLength = int (length (concat chunks)),
     pm_fragmentCount = int (length chunks), pm_communicationIndex = id_communication i,
     pm_connectionIndex = id_connection i\<rparr>"

lemma pending_of_step [simp]:
  "more_pending (pending_of i chunks) c = pending_of i (chunks @ [c])"
  "pending_message (pending_of i chunks) = message_of i chunks"
  by (simp_all add: more_pending_def pending_of_def pending_message_def message_of_def)

lemma incoming_info_of:
  assumes "identity_ok i"
  shows "decodeAppcIncomingDataOperationInfo (extended_info_bytes (defaultExtendedInfo
      \<lparr>x_communicationIndex := int (id_communication i), x_connectionIndex := int (id_connection i)\<rparr>)) =
    Inr (info_of i)"
  using assms
  by (simp add: decodeAppcIncomingDataOperationInfo_def extended_info_bytes_def defaultExtendedInfo_def
      info_of_def slice_def fixed_field_def ascii_bytes_def identity_ok_def)
    (simp add: be_decode_zeros)

lemma push_data_record:
  assumes "identity_ok i" and "int (length chunk) \<le> 0x7fffffff" and "\<not> ad_validateInfo d"
    and "bufferedByteLength d + int (length chunk) \<le> ad_maxMessageLength d"
    and "bufferedFragments d + 1 \<le> ad_maxFragments d"
  shows "\<exists>out h. encodeAppcDataRecord (chunk_input i isFirst isFinal chunk) = Inr out \<and>
    h_functionCode h = (if isFirst then F_SapSend else F_Receive) \<and>
    h_conversationId h = id_conversation i \<and> h_sequenceNumber h = id_sequence i \<and>
    appc_push d out False =
      push_continuing d \<lparr>df_header = h, df_data = chunk, df_isFinal = isFinal\<rparr> (info_of i)"
proof -
  from data_record_decodes [OF assms(1,2)] obtain out h where out:
    "encodeAppcDataRecord (chunk_input i isFirst isFinal chunk) = Inr out"
    "length out = 80 + length chunk" "drop 80 out = chunk" "decodeAppcHeader out = Inr h"
    "h_functionCode h = (if isFirst then F_SapSend else F_Receive)" "odd (h_vector h div 4) = isFinal"
    "h_conversationId h = id_conversation i" "h_sequenceNumber h = id_sequence i"
    "h_appcReturnCode h = 0" "h_sapReturnCode h = 0"
    "slice 48 32 out = extended_info_bytes (defaultExtendedInfo
      \<lparr>x_communicationIndex := int (id_communication i), x_connectionIndex := int (id_connection i)\<rparr>)"
    by blast
  have "push_record d out = Inr (\<lparr>df_header = h, df_data = chunk, df_isFinal = isFinal\<rparr>, info_of i)"
    using out assms(3-5) incoming_info_of [OF assms(1)]
    by (simp add: push_record_def appc_lengths checkLimits_def decodeAppcDataFragment_def)
  with out show ?thesis
    by (intro exI [of _ out] exI [of _ h]) (simp add: appc_push_def status_check_def)
qed

lemma rest_records_reassemble:
  assumes "identity_ok i" and "\<not> ad_validateInfo d" and "ad_pending d = Some (pending_of i chunks)"
    and "int (length (concat (chunks @ cs))) \<le> ad_maxMessageLength d"
    and "int (length (concat (chunks @ cs))) \<le> 0x7fffffff"
    and "int (length (chunks @ cs)) \<le> ad_maxFragments d" and "cs \<noteq> []"
  shows "\<exists>bs. rest_records i cs = Inr bs \<and>
    feed_all push_ok d bs = Inr ([message_of i (chunks @ cs)], d\<lparr>ad_pending := None\<rparr>)"
  using assms
proof (induction cs arbitrary: d chunks)
  case Nil
  then show ?case by simp
next
  case (Cons c cs)
  have "bufferedByteLength d + int (length c) \<le> ad_maxMessageLength d"
      "bufferedFragments d + 1 \<le> ad_maxFragments d" "int (length c) \<le> 0x7fffffff"
    using Cons.prems(3-6) by (auto simp: bufferedByteLength_def bufferedFragments_def pending_of_def)
  from push_data_record [OF Cons.prems(1) this(3) Cons.prems(2) this(1,2), of False "cs = []"]
  obtain out h where out: "encodeAppcDataRecord (chunk_input i False (cs = []) c) = Inr out"
    "h_functionCode h = F_Receive" "h_conversationId h = id_conversation i" "h_sequenceNumber h = id_sequence i"
    "appc_push d out False =
      push_continuing d \<lparr>df_header = h, df_data = c, df_isFinal = (cs = [])\<rparr> (info_of i)" by auto
  have "identity_check (pending_of i chunks) h (info_of i) = Inr ()"
    using out by (simp add: identity_check_def pending_of_def info_of_def)
  moreover have "checkLimits d (pm_byteLength (pending_of i chunks) + int (length c))
      (pm_fragmentCount (pending_of i chunks) + 1) = Inr ()"
    using Cons.prems(4,6) by (simp add: checkLimits_def pending_of_def)
  ultimately have push: "push_ok d out = (if cs = []
      then Inr ([message_of i (chunks @ [c])], d\<lparr>ad_pending := None\<rparr>)
      else Inr ([], d\<lparr>ad_pending := Some (pending_of i (chunks @ [c]))\<rparr>))"
    using out Cons.prems(3) by (simp add: push_ok_def push_continuing_def)
  show ?case
  proof (cases "cs = []")
    case True
    with out push show ?thesis by simp
  next
    case False
    let ?d = "d\<lparr>ad_pending := Some (pending_of i (chunks @ [c]))\<rparr>"
    have "\<exists>bs. rest_records i cs = Inr bs \<and>
        feed_all push_ok ?d bs = Inr ([message_of i ((chunks @ [c]) @ cs)], ?d\<lparr>ad_pending := None\<rparr>)"
      using Cons.prems False by (intro Cons.IH) auto
    with False out push show ?thesis by auto
  qed
qed

text \<open>C32. Reassembly: for a decoder configured not to validate the operation information (the option
\<open>validateIncomingDataOperationInfo\<close> is false; the records of the client's own encoder leave the length in that
information 0, which a validating decoder refuses), a message sent in one chunk or many under one identity, first
\<open>F_SAP_SEND\<close> then \<open>F_RECEIVE\<close>, with the end mark on the last, comes out of an idle decoder as a single
message whose data is the concatenation of the chunks, after which the decoder is idle again, whenever the whole
stays within the limits.\<close>

theorem appc_decoder_reassembles:
  assumes "identity_ok i" and "appc_decoder_new (Some ml) (Some mf) ai (Some False) = Inr d" and "chunks \<noteq> []"
    and "int (length (concat chunks)) \<le> ml" and "int (length (concat chunks)) \<le> 0x7fffffff"
    and "int (length chunks) \<le> mf"
  shows "rbind (message_records i chunks) (feed_all push_ok d) = Inr ([message_of i chunks], d) \<and>
    appc_decoder_finish d = Inr ()"
proof -
  from assms(2) have d: "ad_maxMessageLength d = ml" "ad_maxFragments d = mf" "\<not> ad_validateInfo d"
    "ad_pending d = None" by (auto simp: appc_decoder_new_def Let_def split: if_splits)
  obtain c cs where chunks: "chunks = c # cs" using assms(3) by (cases chunks) auto
  have fits: "bufferedByteLength d + int (length c) \<le> ad_maxMessageLength d"
      "bufferedFragments d + 1 \<le> ad_maxFragments d" "int (length c) \<le> 0x7fffffff"
    using assms(4-6) d chunks by (auto simp: bufferedByteLength_def bufferedFragments_def)
  from push_data_record [OF assms(1) this(3) d(3) this(1,2), of True "cs = []"]
  obtain out h where out: "encodeAppcDataRecord (chunk_input i True (cs = []) c) = Inr out"
    "h_functionCode h = F_SapSend" "h_conversationId h = id_conversation i" "h_sequenceNumber h = id_sequence i"
    "appc_push d out False =
      push_continuing d \<lparr>df_header = h, df_data = c, df_isFinal = (cs = [])\<rparr> (info_of i)" by auto
  have "checkLimits d (int (length c)) 1 = Inr ()"
    using fits d(4) by (simp add: checkLimits_def bufferedByteLength_def bufferedFragments_def)
  then have push: "push_ok d out = (if cs = [] then Inr ([message_of i [c]], d)
      else Inr ([], d\<lparr>ad_pending := Some (pending_of i [c])\<rparr>))"
    using out d(4) by (simp add: push_ok_def push_continuing_def push_first_def single_message_def
        message_of_def first_pending_def pending_of_def info_of_def)
  have "rbind (message_records i chunks) (feed_all push_ok d) = Inr ([message_of i chunks], d)"
  proof (cases "cs = []")
    case True
    with out push chunks show ?thesis by simp
  next
    case False
    let ?d = "d\<lparr>ad_pending := Some (pending_of i [c])\<rparr>"
    have "\<exists>bs. rest_records i cs = Inr bs \<and>
        feed_all push_ok ?d bs = Inr ([message_of i ([c] @ cs)], ?d\<lparr>ad_pending := None\<rparr>)"
      using assms(1,4-6) d chunks False by (intro rest_records_reassemble) auto
    with False out push chunks d(4) show ?thesis by auto
  qed
  with d(4) show ?thesis by (simp add: appc_decoder_finish_def)
qed

lemma appc_decoder_reassembles_witness:
  "\<exists>d. appc_decoder_new (Some 100) (Some 3) None (Some False) = Inr d \<and>
     rbind (message_records \<lparr>id_conversation = replicate 8 49, id_sequence = 7, id_communication = 1,
         id_connection = 2\<rparr> [[1, 2], [3], [4, 5]]) (feed_all push_ok d) =
     Inr ([\<lparr>m_data = [1, 2, 3, 4, 5], m_conversationId = replicate 8 49, m_sequenceNumber = 7,
            m_fragmentCount = 3, m_communicationIndex = 1, m_connectionIndex = 2\<rparr>], d)"
proof -
  let ?i = "\<lparr>id_conversation = replicate 8 49, id_sequence = 7, id_communication = 1, id_connection = 2\<rparr>"
  obtain d where d: "appc_decoder_new (Some 100) (Some 3) None (Some False) = Inr d"
    by (simp add: appc_decoder_new_def is_safe_integer_def max_safe_integer_def)
  have "rbind (message_records ?i [[1, 2], [3], [4, 5]]) (feed_all push_ok d) =
      Inr ([message_of ?i [[1, 2], [3], [4, 5]]], d)"
    using appc_decoder_reassembles [OF _ d, of ?i "[[1, 2], [3], [4, 5]]"] by (simp add: identity_ok_def)
  with d show ?thesis by (simp add: message_of_def)
qed

end
