(* ===== verification/RfcPro.thy ===== *)
theory RfcPro
  imports Bytes
begin

text \<open>
  The RFCPRO tag/length header of \<open>src/protocol/rfcpro.ts\<close>: a 16-bit tag, and either a
  compact 16-bit length or the sentinel \<open>0xffff\<close> followed by a signed 32-bit length.
\<close>

definition RFC_PRO_EXTENDED_LENGTH_SENTINEL :: int where
  "RFC_PRO_EXTENDED_LENGTH_SENTINEL = 0xffff"

definition RFC_PRO_COMPACT_LENGTH_MAX :: int where
  "RFC_PRO_COMPACT_LENGTH_MAX = RFC_PRO_EXTENDED_LENGTH_SENTINEL - 1"

definition RFC_PRO_VALUE_LENGTH_MAX :: int where
  "RFC_PRO_VALUE_LENGTH_MAX = 0x7fffffff"

datatype rfc_pro_encoding = Compact | Extended

record rfc_pro_header =
  rp_tag :: int
  rp_length :: int
  rp_encoding :: rfc_pro_encoding
  rp_bytesConsumed :: nat

definition rp_boundedInteger :: "int \<Rightarrow> int \<Rightarrow> int \<Rightarrow> string \<Rightarrow> unit result" where
  "rp_boundedInteger v lo hi field = guard_that (is_safe_integer v \<and> lo \<le> v \<and> v \<le> hi)
     (RangeError (field @ '' must be an integer in range''))"

definition rp_validateTag :: "int \<Rightarrow> unit result" where
  "rp_validateTag tag = rp_boundedInteger tag 0 0xffff ''RFCPRO tag''"

definition rp_validateValueLength :: "int \<Rightarrow> unit result" where
  "rp_validateValueLength len = rp_boundedInteger len 0 RFC_PRO_VALUE_LENGTH_MAX ''RFCPRO length''"

definition rfcProFieldHeaderByteLength :: "int \<Rightarrow> int result" where
  "rfcProFieldHeaderByteLength len = rbind (rp_validateValueLength len) (\<lambda>_.
     Inr (if len \<le> RFC_PRO_COMPACT_LENGTH_MAX then 4 else 8))"

definition encodeRfcProFieldHeader :: "int \<Rightarrow> int \<Rightarrow> bytes result" where
  "encodeRfcProFieldHeader tag len =
     rbind (rp_validateTag tag) (\<lambda>_.
     rbind (rfcProFieldHeaderByteLength len) (\<lambda>byteLength.
     rbind (writer_new byteLength) (\<lambda>w.
     rbind (writeUInt16BE w tag) (\<lambda>w.
     rbind (if byteLength = 4 then writeUInt16BE w len
            else rbind (writeUInt16BE w RFC_PRO_EXTENDED_LENGTH_SENTINEL) (\<lambda>w.
                   writeInt32BE w len)) (\<lambda>w.
     writer_finish w)))))"

definition decodeRfcProFieldHeader :: "bytes \<Rightarrow> int option \<Rightarrow> rfc_pro_header result" where
  "decodeRfcProFieldHeader data maxOpt =
    (let maxValueLength = (case maxOpt of None \<Rightarrow> RFC_PRO_VALUE_LENGTH_MAX | Some m \<Rightarrow> m);
         bs = take 8 data
     in rbind (rp_boundedInteger maxValueLength 0 RFC_PRO_VALUE_LENGTH_MAX ''maxValueLength'') (\<lambda>_.
        if length bs < 2 then Inl (RangeError ''RFCPRO field header.tag: need 2 bytes'')
        else let tag = int (be_decode (slice 0 2 bs)) in
        if length bs < 4 then Inl (RangeError ''RFCPRO field header.length: need 2 bytes'')
        else let compactLength = int (be_decode (slice 2 2 bs)) in
        if compactLength \<noteq> RFC_PRO_EXTENDED_LENGTH_SENTINEL
        then if maxValueLength < compactLength
             then Inl (RangeError ''RFCPRO length exceeds configured limit'')
             else Inr \<lparr>rp_tag = tag, rp_length = compactLength, rp_encoding = Compact,
                       rp_bytesConsumed = 4\<rparr>
        else if length bs < 8
        then Inl (RangeError ''RFCPRO field header.extendedLength: need 4 bytes'')
        else let extendedLength = to_signed 4 (be_decode (slice 4 4 bs)) in
        if extendedLength < 0 then Inl (RangeError ''RFCPRO extended length is negative'')
        else if maxValueLength < extendedLength
        then Inl (RangeError ''RFCPRO length exceeds configured limit'')
        else Inr \<lparr>rp_tag = tag, rp_length = extendedLength, rp_encoding = Extended,
                  rp_bytesConsumed = 8\<rparr>))"

section \<open>What the encoder produces\<close>

lemmas rfc_pro_limits = RFC_PRO_EXTENDED_LENGTH_SENTINEL_def RFC_PRO_COMPACT_LENGTH_MAX_def
  RFC_PRO_VALUE_LENGTH_MAX_def

definition rfc_pro_header_bytes :: "int \<Rightarrow> int \<Rightarrow> bytes" where
  "rfc_pro_header_bytes tag len =
     (if len \<le> 0xfffe then be_encode 2 (nat tag) @ be_encode 2 (nat len)
      else be_encode 2 (nat tag) @ be_encode 2 0xffff @ be_encode 4 (nat len))"

definition rfc_pro_ok :: "int \<times> int \<Rightarrow> bool" where
  "rfc_pro_ok = (\<lambda>(tag, len). 0 \<le> tag \<and> tag \<le> 0xffff \<and> 0 \<le> len \<and> len \<le> 0x7fffffff)"

lemma rfc_pro_ok_ranges:
  assumes "rfc_pro_ok (tag, len)"
  shows "0 \<le> tag" "tag \<le> 0xffff" "0 \<le> len" "len \<le> 0x7fffffff"
    and "nat tag < 256 ^ 2" and "nat len < 256 ^ 4" and "len \<le> 0xfffe \<Longrightarrow> nat len < 256 ^ 2"
  using assms by (auto simp: rfc_pro_ok_def)

lemma encodeRfcProFieldHeader_eq:
  assumes "rfc_pro_ok (tag, len)"
  shows "encodeRfcProFieldHeader tag len = Inr (rfc_pro_header_bytes tag len)"
proof -
  have signed: "from_signed 4 len = nat len"
    using rfc_pro_ok_ranges [OF assms] by (simp add: from_signed_def mod_pos_pos_trivial)
  have checks: "rp_validateTag tag = Inr ()" "rp_validateValueLength len = Inr ()"
    using rfc_pro_ok_ranges [OF assms]
    by (simp_all add: rp_validateTag_def rp_validateValueLength_def rp_boundedInteger_def rfc_pro_limits
        is_safe_integer_def max_safe_integer_def)
  show ?thesis
    using rfc_pro_ok_ranges(1-4) [OF assms] checks
    by (simp add: encodeRfcProFieldHeader_def rfcProFieldHeaderByteLength_def writer_simps
        max_safe_integer_def rfc_pro_header_bytes_def rfc_pro_limits signed)
qed

lemma encodeRfcProFieldHeader_rejects:
  "\<not> rfc_pro_ok (tag, len) \<Longrightarrow> \<exists>e. encodeRfcProFieldHeader tag len = Inl (RangeError e)"
  by (auto simp: rfc_pro_ok_def encodeRfcProFieldHeader_def rfcProFieldHeaderByteLength_def
      rp_validateTag_def rp_validateValueLength_def rp_boundedInteger_def rfc_pro_limits guard_that_def)

definition rfc_pro_decode_stream :: "bytes \<Rightarrow> js_error + (int \<times> int) \<times> bytes" where
  "rfc_pro_decode_stream bs = rbind (decodeRfcProFieldHeader bs None) (\<lambda>h.
     Inr ((rp_tag h, rp_length h), drop (rp_bytesConsumed h) bs))"

lemma decodeRfcProFieldHeader_header:
  assumes "rfc_pro_ok (tag, len)" and "case maxOpt of None \<Rightarrow> True | Some m \<Rightarrow> len \<le> m \<and> m \<le> 0x7fffffff"
  shows "decodeRfcProFieldHeader (rfc_pro_header_bytes tag len @ rest) maxOpt =
    Inr \<lparr>rp_tag = tag, rp_length = len, rp_encoding = (if len \<le> 0xfffe then Compact else Extended),
         rp_bytesConsumed = length (rfc_pro_header_bytes tag len)\<rparr>"
proof -
  note r = rfc_pro_ok_ranges [OF assms(1)]
  have limit: "rp_boundedInteger (case maxOpt of None \<Rightarrow> RFC_PRO_VALUE_LENGTH_MAX | Some m \<Rightarrow> m)
      0 RFC_PRO_VALUE_LENGTH_MAX ''maxValueLength'' = Inr ()"
    using assms(2) r(3) by (auto simp: rp_boundedInteger_def rfc_pro_limits is_safe_integer_def
        max_safe_integer_def split: option.splits)
  have bound: "len \<le> (case maxOpt of None \<Rightarrow> RFC_PRO_VALUE_LENGTH_MAX | Some m \<Rightarrow> m)"
    using assms(2) r(4) by (auto simp: rfc_pro_limits split: option.splits)
  show ?thesis
  proof (cases "len \<le> 0xfffe")
    case True
    then show ?thesis
      using limit bound r by (simp add: decodeRfcProFieldHeader_def rfc_pro_header_bytes_def Let_def
          slice_def RFC_PRO_EXTENDED_LENGTH_SENTINEL_def)
  next
    case False
    then show ?thesis
      using limit bound r by (simp add: decodeRfcProFieldHeader_def rfc_pro_header_bytes_def Let_def
          slice_def RFC_PRO_EXTENDED_LENGTH_SENTINEL_def to_signed_def)
  qed
qed

interpretation rfc_pro: prefix_codec "\<lambda>(tag, len). rfc_pro_header_bytes tag len"
  rfc_pro_decode_stream rfc_pro_ok
proof (unfold_locales, goal_cases)
  case (1 x rest)
  then show ?case
    using decodeRfcProFieldHeader_header [of "fst x" "snd x" None rest]
    by (cases x) (simp add: rfc_pro_decode_stream_def)
next
  case (2 x)
  then show ?case
    by (cases x) (simp add: rfc_pro_header_bytes_def byte_eval)
qed

text \<open>The header codec: every admissible tag and length encodes, in four bytes up to
  \<open>0xfffe\<close> and in eight above, and decoding the header from any stream that starts with it
  under a limit that admits the length gives back tag, length, form and size.\<close>

theorem rfc_pro_header_roundtrip:
  assumes "0 \<le> tag" and "tag \<le> 0xffff" and "0 \<le> len" and "len \<le> m" and "m \<le> 0x7fffffff"
  shows "rbind (encodeRfcProFieldHeader tag len) (\<lambda>h. decodeRfcProFieldHeader (h @ rest) (Some m)) =
    Inr \<lparr>rp_tag = tag, rp_length = len, rp_encoding = (if len \<le> 0xfffe then Compact else Extended),
         rp_bytesConsumed = (if len \<le> 0xfffe then 4 else 8)\<rparr>"
proof -
  from assms have ok: "rfc_pro_ok (tag, len)" by (simp add: rfc_pro_ok_def)
  show ?thesis
    using encodeRfcProFieldHeader_eq [OF ok] decodeRfcProFieldHeader_header [OF ok, of "Some m" rest] assms
    by (auto simp: rfc_pro_header_bytes_def)
qed

lemma rfc_pro_header_roundtrip_witness:
  "rbind (encodeRfcProFieldHeader 0x3c05 70000) (\<lambda>h. decodeRfcProFieldHeader (h @ [1, 2]) (Some 100000)) =
    Inr \<lparr>rp_tag = 0x3c05, rp_length = 70000, rp_encoding = Extended, rp_bytesConsumed = 8\<rparr>"
  using rfc_pro_header_roundtrip [where tag = "0x3c05" and len = 70000 and m = 100000 and rest = "[1, 2]"] by simp

text \<open>The allocation policy of the decoder: whatever the bytes, an accepted header
  announces a value of at most the configured limit, its tag fits 16 bits, and it consumed
  no more bytes than were there, so no caller allocates beyond its limit.\<close>

theorem rfc_pro_decode_bounded:
  assumes "decodeRfcProFieldHeader data (Some m) = Inr h"
  shows "0 \<le> rp_length h \<and> rp_length h \<le> m \<and> 0 \<le> rp_tag h \<and> rp_tag h \<le> 0xffff \<and>
    rp_bytesConsumed h \<le> length data"
proof -
  have "be_decode (slice 0 2 (take 8 data)) \<le> 65535" if "2 \<le> length data"
    using be_decode_less [of "slice 0 2 (take 8 data)"] that by simp
  then show ?thesis
    using assms by (auto simp: decodeRfcProFieldHeader_def Let_def split: if_splits)
qed

lemma rfc_pro_decode_bounded_witness:
  "\<exists>h. decodeRfcProFieldHeader [60, 5, 255, 255, 0, 1, 0, 0] (Some 65536) = Inr h \<and>
     rp_length h = 65536 \<and> rp_length h \<le> 65536"
proof -
  obtain h where h: "decodeRfcProFieldHeader [60, 5, 255, 255, 0, 1, 0, 0] (Some 65536) = Inr h"
      "rp_length h = 65536"
    by (simp add: decodeRfcProFieldHeader_def rp_boundedInteger_def rfc_pro_limits
        is_safe_integer_def max_safe_integer_def slice_def be_decode_def to_signed_def)
  then show ?thesis using rfc_pro_decode_bounded [OF h(1)] by blast
qed

end
