(* ===== verification/CpicFields.thy ===== *)
theory CpicFields
  imports RfcPro AppcRecord
begin

text \<open>
  The chained CPIC field grammar of \<open>src/protocol/cpic.ts\<close>. Every field carries the tag of
  its predecessor, an RFCPRO tag/length header and its value; the decoder checks the chain
  and its configured limits before it copies a value.
\<close>

record cpic_field =
  cf_tag :: int
  cf_value :: bytes

record cpic_limits =
  cl_maxFieldLength :: "int option"
  cl_maxChainLength :: "int option"
  cl_maxFieldCount :: "int option"

record cpic_resolved =
  rl_maxFieldLength :: int
  rl_maxChainLength :: int
  rl_maxFieldCount :: int

definition DEFAULT_MAX_CPIC_FIELD_LENGTH :: int where
  "DEFAULT_MAX_CPIC_FIELD_LENGTH = 256 * 1024 * 1024"

definition DEFAULT_MAX_CPIC_FIELD_CHAIN_LENGTH :: int where
  "DEFAULT_MAX_CPIC_FIELD_CHAIN_LENGTH = 256 * 1024 * 1024"

definition DEFAULT_MAX_CPIC_FIELD_COUNT :: int where
  "DEFAULT_MAX_CPIC_FIELD_COUNT = 100000"

lemmas cpic_defaults = DEFAULT_MAX_CPIC_FIELD_LENGTH_def DEFAULT_MAX_CPIC_FIELD_CHAIN_LENGTH_def
  DEFAULT_MAX_CPIC_FIELD_COUNT_def

definition cpic_uint16 :: "int \<Rightarrow> unit result" where
  "cpic_uint16 v = guard_that (is_safe_integer v \<and> 0 \<le> v \<and> v \<le> 0xffff)
     (RangeError ''must be an integer in 0..65535'')"

definition cpic_boundedInteger :: "int \<Rightarrow> int \<Rightarrow> int \<Rightarrow> unit result" where
  "cpic_boundedInteger v lo hi = guard_that (is_safe_integer v \<and> lo \<le> v \<and> v \<le> hi)
     (RangeError ''must be an integer in range'')"

definition resolveCpicFieldChainLimits :: "cpic_limits \<Rightarrow> cpic_resolved result" where
  "resolveCpicFieldChainLimits limits =
    (let resolved = \<lparr>rl_maxFieldLength = or_else (cl_maxFieldLength limits) DEFAULT_MAX_CPIC_FIELD_LENGTH,
           rl_maxChainLength = or_else (cl_maxChainLength limits) DEFAULT_MAX_CPIC_FIELD_CHAIN_LENGTH,
           rl_maxFieldCount = or_else (cl_maxFieldCount limits) DEFAULT_MAX_CPIC_FIELD_COUNT\<rparr>
     in rbind (cpic_boundedInteger (rl_maxFieldLength resolved) 0 RFC_PRO_VALUE_LENGTH_MAX) (\<lambda>_.
        rbind (cpic_boundedInteger (rl_maxChainLength resolved) 0 RFC_PRO_VALUE_LENGTH_MAX) (\<lambda>_.
        rbind (cpic_boundedInteger (rl_maxFieldCount resolved) 0 max_safe_integer) (\<lambda>_.
        Inr resolved))))"

section \<open>Encoder\<close>

fun chain_length_loop :: "cpic_resolved \<Rightarrow> cpic_field list \<Rightarrow> int \<Rightarrow> int result" where
  "chain_length_loop limits [] byteLength = Inr byteLength"
| "chain_length_loop limits (f # fs) byteLength =
     rbind (cpic_uint16 (cf_tag f)) (\<lambda>_.
     if rl_maxFieldLength limits < int (length (cf_value f))
     then Inl (RangeError ''CPIC field length exceeds configured limit'')
     else rbind (rfcProFieldHeaderByteLength (int (length (cf_value f)))) (\<lambda>headerLength.
     let byteLength = byteLength + (2 + headerLength + int (length (cf_value f))) in
     if \<not> is_safe_integer byteLength \<or> rl_maxChainLength limits < byteLength
     then Inl (RangeError ''CPIC field chain length exceeds configured limit'')
     else chain_length_loop limits fs byteLength))"

definition cpicFieldChainByteLength :: "int \<Rightarrow> cpic_field list \<Rightarrow> cpic_limits \<Rightarrow> int result" where
  "cpicFieldChainByteLength initialPreviousTag fs limits =
     rbind (cpic_uint16 initialPreviousTag) (\<lambda>_.
     rbind (resolveCpicFieldChainLimits limits) (\<lambda>resolved.
     if rl_maxFieldCount resolved < int (length fs)
     then Inl (RangeError ''CPIC field count exceeds configured limit'')
     else chain_length_loop resolved fs 0))"

fun encode_chain_loop :: "nat \<Rightarrow> bytes \<Rightarrow> int \<Rightarrow> cpic_field list \<Rightarrow> bytes result" where
  "encode_chain_loop offset encoded previousTag [] = Inr encoded"
| "encode_chain_loop offset encoded previousTag (f # fs) =
    (let encoded = splice offset (be_encode 2 (nat previousTag)) encoded; offset = offset + 2 in
     rbind (encodeRfcProFieldHeader (cf_tag f) (int (length (cf_value f)))) (\<lambda>header.
     let encoded = splice offset header encoded; offset = offset + length header;
         encoded = splice offset (cf_value f) encoded;
         offset = offset + length (cf_value f) in
     encode_chain_loop offset encoded (cf_tag f) fs))"

definition encodeCpicFieldChain :: "int \<Rightarrow> cpic_field list \<Rightarrow> cpic_limits \<Rightarrow> bytes result" where
  "encodeCpicFieldChain initialPreviousTag fs limits =
     rbind (cpicFieldChainByteLength initialPreviousTag fs limits) (\<lambda>byteLength.
     encode_chain_loop 0 (replicate (nat byteLength) 0) initialPreviousTag fs)"

section \<open>Decoder\<close>

definition enforceCpicChainLength :: "int \<Rightarrow> int \<Rightarrow> unit result" where
  "enforceCpicChainLength byteLength maximum = guard_that (byteLength \<le> maximum)
     (RangeError ''CPIC field chain length exceeds configured limit'')"

definition requireCpicInput :: "bytes \<Rightarrow> nat \<Rightarrow> int \<Rightarrow> unit result" where
  "requireCpicInput data offset byteLength =
     guard_that (byteLength \<le> max 0 (int (length data) - int offset)) (RangeError ''need bytes'')"

text \<open>The body of the decoding loop: one field at an offset, and the offset behind it.\<close>

definition decode_chain_field :: "cpic_resolved \<Rightarrow> bytes \<Rightarrow> int \<Rightarrow> nat \<Rightarrow> (cpic_field \<times> nat) result" where
  "decode_chain_field limits data expectedPreviousTag offset =
     rbind (enforceCpicChainLength (int offset + 6) (rl_maxChainLength limits)) (\<lambda>_.
     rbind (requireCpicInput data offset 6) (\<lambda>_.
     let minimumHeader = slice offset 6 data in
     if int (be_decode (slice 0 2 minimumHeader)) \<noteq> expectedPreviousTag
     then Inl (PlainError ''CPIC field chain expected another previous tag'')
     else
     rbind (if int (be_decode (slice 4 2 minimumHeader)) = RFC_PRO_EXTENDED_LENGTH_SENTINEL
            then rbind (enforceCpicChainLength (int offset + 10) (rl_maxChainLength limits)) (\<lambda>_.
                 rbind (requireCpicInput data (offset + 6) 4) (\<lambda>_.
                 Inr (drop 2 minimumHeader @ slice (offset + 6) 4 data)))
            else Inr (drop 2 minimumHeader)) (\<lambda>headerSnapshot.
     rbind (decodeRfcProFieldHeader headerSnapshot (Some (rl_maxFieldLength limits))) (\<lambda>header.
     let valueOffset = offset + 2 + rp_bytesConsumed header;
         nextOffset = valueOffset + nat (rp_length header) in
     rbind (enforceCpicChainLength (int nextOffset) (rl_maxChainLength limits)) (\<lambda>_.
     rbind (requireCpicInput data valueOffset (rp_length header)) (\<lambda>_.
     Inr (\<lparr>cf_tag = rp_tag header, cf_value = slice valueOffset (nat (rp_length header)) data\<rparr>,
          nextOffset)))))))"

lemma decode_chain_field_advances:
  assumes "decode_chain_field limits data expected offset = Inr (f, next')"
  shows "offset < next'"
  using assms by (auto simp: decode_chain_field_def Let_def split: if_splits)

function decode_chain_loop :: "cpic_resolved \<Rightarrow> bytes \<Rightarrow> int option \<Rightarrow> int \<Rightarrow> nat \<Rightarrow> cpic_field list
    \<Rightarrow> (cpic_field list \<times> nat) result" where
  "decode_chain_loop limits data terminalTag expectedPreviousTag offset acc =
    (if offset < length data
     then if rl_maxFieldCount limits \<le> int (length acc)
       then Inl (RangeError ''CPIC field count exceeds configured limit'')
       else case decode_chain_field limits data expectedPreviousTag offset of
         Inl e \<Rightarrow> Inl e
       | Inr (f, nextOffset) \<Rightarrow>
           if terminalTag = Some (cf_tag f) then Inr (acc @ [f], nextOffset)
           else decode_chain_loop limits data terminalTag (cf_tag f) nextOffset (acc @ [f])
     else if terminalTag \<noteq> None
     then Inl (PlainError ''CPIC field chain ended before terminal tag'')
     else Inr (acc, offset))"
  by pat_completeness auto
termination
  by (relation "measure (\<lambda>(limits, data, t, e, offset, acc). length data - offset)")
    (auto dest: decode_chain_field_advances)

declare decode_chain_loop.simps [simp del]

definition decodeCpicFieldChainRegion :: "bytes \<Rightarrow> int \<Rightarrow> int option \<Rightarrow> cpic_limits
    \<Rightarrow> (cpic_field list \<times> nat) result" where
  "decodeCpicFieldChainRegion data initialPreviousTag terminalTag limits =
     rbind (cpic_uint16 initialPreviousTag) (\<lambda>_.
     rbind (resolveCpicFieldChainLimits limits) (\<lambda>resolved.
     if terminalTag = None \<and> rl_maxChainLength resolved < int (length data)
     then Inl (RangeError ''CPIC field chain length exceeds configured limit'')
     else decode_chain_loop resolved data terminalTag initialPreviousTag 0 []))"

definition decodeCpicFieldChain :: "bytes \<Rightarrow> int \<Rightarrow> cpic_limits \<Rightarrow> cpic_field list result" where
  "decodeCpicFieldChain data initialPreviousTag limits =
     rbind (decodeCpicFieldChainRegion data initialPreviousTag None limits) (\<lambda>(fs, bytesConsumed).
     if bytesConsumed \<noteq> length data
     then Inl (PlainError ''CPIC field-chain decoder invariant failed'')
     else Inr fs)"

definition decodeCpicFieldChainPrefix :: "bytes \<Rightarrow> int \<Rightarrow> int \<Rightarrow> cpic_limits
    \<Rightarrow> (cpic_field list \<times> nat) result" where
  "decodeCpicFieldChainPrefix data initialPreviousTag terminalTag limits =
     rbind (cpic_uint16 terminalTag) (\<lambda>_.
     decodeCpicFieldChainRegion data initialPreviousTag (Some terminalTag) limits)"

section \<open>The bytes of a chain\<close>

text \<open>The encoding as a function of the fields, independent of the buffer it is built in.\<close>

definition field_bytes :: "int \<Rightarrow> cpic_field \<Rightarrow> bytes" where
  "field_bytes previousTag f =
     be_encode 2 (nat previousTag) @ rfc_pro_header_bytes (cf_tag f) (int (length (cf_value f))) @ cf_value f"

fun chain_bytes :: "int \<Rightarrow> cpic_field list \<Rightarrow> bytes" where
  "chain_bytes previousTag [] = []"
| "chain_bytes previousTag (f # fs) = field_bytes previousTag f @ chain_bytes (cf_tag f) fs"

definition field_fits :: "cpic_resolved \<Rightarrow> cpic_field \<Rightarrow> bool" where
  "field_fits l f \<longleftrightarrow> 0 \<le> cf_tag f \<and> cf_tag f \<le> 0xffff \<and>
     int (length (cf_value f)) \<le> rl_maxFieldLength l \<and> int (length (cf_value f)) \<le> 0x7fffffff"

lemma rfc_pro_header_length:
  "length (rfc_pro_header_bytes tag len) = (if len \<le> 0xfffe then 4 else 8)"
  by (simp add: rfc_pro_header_bytes_def)

lemma headerLength_iff:
  "rfcProFieldHeaderByteLength len = Inr n \<longleftrightarrow> 0 \<le> len \<and> len \<le> 0x7fffffff \<and> n = (if len \<le> 0xfffe then 4 else 8)"
  by (auto simp: rfcProFieldHeaderByteLength_def rp_validateValueLength_def rp_boundedInteger_def rfc_pro_limits
      is_safe_integer_def max_safe_integer_def)

lemma chain_length_loop_iff:
  assumes "0 \<le> n" and "rl_maxChainLength l \<le> 0x7fffffff"
  shows "chain_length_loop l fs n = Inr m \<longleftrightarrow> list_all (field_fits l) fs \<and>
    m = n + int (length (chain_bytes p fs)) \<and> (fs = [] \<or> m \<le> rl_maxChainLength l)"
  using assms
proof (induction fs arbitrary: n p)
  case Nil
  then show ?case by auto
next
  case (Cons f fs)
  let ?k = "n + int (length (field_bytes p f))"
  have size: "n + (2 + (if int (length (cf_value f)) \<le> 0xfffe then 4 else 8) + int (length (cf_value f))) = ?k"
    by (simp add: field_bytes_def rfc_pro_header_length)
  have IH: "chain_length_loop l fs ?k = Inr m \<longleftrightarrow> list_all (field_fits l) fs \<and>
      m = ?k + int (length (chain_bytes (cf_tag f) fs)) \<and> (fs = [] \<or> m \<le> rl_maxChainLength l)"
    using Cons.prems by (intro Cons.IH) auto
  have "chain_length_loop l (f # fs) n = Inr m \<longleftrightarrow> field_fits l f \<and> ?k \<le> rl_maxChainLength l \<and>
      chain_length_loop l fs ?k = Inr m"
    using Cons.prems size
    by (auto simp: cpic_uint16_def headerLength_iff field_fits_def Let_def is_safe_integer_def
        max_safe_integer_def)
  with IH show ?case by auto
qed

lemma splice_zeros:
  "splice (length pre) bs (pre @ replicate (length bs + k) (0 :: byte)) = pre @ bs @ replicate k 0"
  by (simp add: splice_def)

lemma encode_chain_loop_eq:
  assumes "list_all (field_fits l) fs"
  shows "encode_chain_loop (length pre) (pre @ replicate (length (chain_bytes p fs)) 0) p fs =
    Inr (pre @ chain_bytes p fs)"
  using assms
proof (induction fs arbitrary: p pre)
  case Nil
  then show ?case by simp
next
  case (Cons f fs)
  let ?h = "rfc_pro_header_bytes (cf_tag f) (int (length (cf_value f)))"
  let ?t = "be_encode 2 (nat p)"
  let ?k = "length (chain_bytes (cf_tag f) fs)"
  have head: "encodeRfcProFieldHeader (cf_tag f) (int (length (cf_value f))) = Inr ?h"
    using Cons.prems by (intro encodeRfcProFieldHeader_eq) (simp add: field_fits_def rfc_pro_ok_def)
  have "splice (length pre) ?t (pre @ replicate (length (chain_bytes p (f # fs))) 0) =
      (pre @ ?t) @ replicate (length ?h + (length (cf_value f) + ?k)) 0"
    using splice_zeros [of pre ?t "length ?h + (length (cf_value f) + ?k)"]
    by (simp add: field_bytes_def add.assoc)
  moreover have "splice (length (pre @ ?t)) ?h ((pre @ ?t) @ replicate (length ?h + (length (cf_value f) + ?k)) 0) =
      (pre @ ?t @ ?h) @ replicate (length (cf_value f) + ?k) 0"
    using splice_zeros [of "pre @ ?t" ?h] by simp
  moreover have "splice (length (pre @ ?t @ ?h)) (cf_value f)
      ((pre @ ?t @ ?h) @ replicate (length (cf_value f) + ?k) 0) =
      (pre @ ?t @ ?h @ cf_value f) @ replicate ?k 0"
    using splice_zeros [of "pre @ ?t @ ?h" "cf_value f"] by simp
  ultimately have "encode_chain_loop (length pre) (pre @ replicate (length (chain_bytes p (f # fs))) 0) p (f # fs) =
      encode_chain_loop (length (pre @ ?t @ ?h @ cf_value f)) ((pre @ ?t @ ?h @ cf_value f) @ replicate ?k 0) (cf_tag f) fs"
    using head by (simp add: Let_def add.assoc)
  with Cons.IH [of "pre @ ?t @ ?h @ cf_value f" "cf_tag f"] Cons.prems show ?case
    by (simp add: field_bytes_def)
qed

definition limits_ok :: "cpic_resolved \<Rightarrow> bool" where
  "limits_ok l \<longleftrightarrow> 0 \<le> rl_maxFieldLength l \<and> rl_maxFieldLength l \<le> 0x7fffffff \<and> 0 \<le> rl_maxChainLength l \<and>
     rl_maxChainLength l \<le> 0x7fffffff \<and> 0 \<le> rl_maxFieldCount l \<and> rl_maxFieldCount l \<le> max_safe_integer"

lemma resolve_limits_ok: "resolveCpicFieldChainLimits limits = Inr l \<Longrightarrow> limits_ok l"
  by (auto simp: resolveCpicFieldChainLimits_def Let_def cpic_boundedInteger_def limits_ok_def rfc_pro_limits)

text \<open>When a chain encodes, and to what.\<close>

lemma encodeCpicFieldChain_iff:
  "encodeCpicFieldChain p fs limits = Inr b \<longleftrightarrow>
     0 \<le> p \<and> p \<le> 0xffff \<and> b = chain_bytes p fs \<and>
     (\<exists>l. resolveCpicFieldChainLimits limits = Inr l \<and> int (length fs) \<le> rl_maxFieldCount l \<and>
        list_all (field_fits l) fs \<and> int (length (chain_bytes p fs)) \<le> rl_maxChainLength l)"
proof (cases "resolveCpicFieldChainLimits limits")
  case (Inl e)
  then show ?thesis by (simp add: encodeCpicFieldChain_def cpicFieldChainByteLength_def)
next
  case (Inr l)
  have ok: "limits_ok l" using resolve_limits_ok [OF Inr] .
  then have "chain_length_loop l fs 0 = Inr m \<longleftrightarrow> list_all (field_fits l) fs \<and>
      m = int (length (chain_bytes p fs)) \<and> (fs = [] \<or> m \<le> rl_maxChainLength l)" for m
    using chain_length_loop_iff [of 0 l fs m p] by (simp add: limits_ok_def)
  moreover have "encode_chain_loop 0 (replicate (length (chain_bytes p fs)) 0) p fs = Inr (chain_bytes p fs)"
    if "list_all (field_fits l) fs"
    using encode_chain_loop_eq [OF that, of "[]" p] by simp
  moreover have "fs = [] \<or> int (length (chain_bytes p fs)) \<le> rl_maxChainLength l \<longleftrightarrow>
      int (length (chain_bytes p fs)) \<le> rl_maxChainLength l"
    using ok by (cases fs) (auto simp: limits_ok_def)
  ultimately show ?thesis
    using Inr by (auto simp: encodeCpicFieldChain_def cpicFieldChainByteLength_def cpic_uint16_def
        is_safe_integer_def max_safe_integer_def simp del: encode_chain_loop.simps chain_length_loop.simps)
qed

section \<open>Decoding a chain\<close>

text \<open>One well-formed field ahead of anything is read whole; one with another predecessor is
  refused.\<close>

lemma decode_chain_field_other:
  assumes "length pre = offset" and "int (offset + 6) \<le> rl_maxChainLength l"
    and "0 \<le> p" and "p \<le> 0xffff" and "p \<noteq> expected"
  shows "\<exists>e. decode_chain_field l (pre @ field_bytes p f @ rest) expected offset = Inl e"
proof -
  let ?data = "pre @ field_bytes p f @ rest"
  have "slice 0 2 (slice offset 6 ?data) = take 2 (field_bytes p f @ rest)"
    using assms(1) by (auto simp: slice_def min_def)
  moreover have "be_decode (take 2 (field_bytes p f @ rest)) = nat p"
    using assms(3,4) by (simp add: field_bytes_def)
  ultimately have prev: "int (be_decode (slice 0 2 (slice offset 6 ?data))) \<noteq> expected"
    using assms(3,5) by simp
  have "6 \<le> length (field_bytes p f @ rest)"
    by (simp add: field_bytes_def rfc_pro_header_length)
  then have checks: "enforceCpicChainLength (int offset + 6) (rl_maxChainLength l) = Inr ()"
      "requireCpicInput ?data offset 6 = Inr ()"
    using assms(1,2) by (simp_all add: enforceCpicChainLength_def requireCpicInput_def)
  show ?thesis
    unfolding decode_chain_field_def checks Let_def rbind_Inr if_P [OF prev] by blast
qed

lemma decode_chain_field_reads:
  assumes "length pre = offset" and "field_fits l f" and "limits_ok l" and "0 \<le> p" and "p \<le> 0xffff"
    and "int (offset + length (field_bytes p f)) \<le> rl_maxChainLength l"
  shows "decode_chain_field l (pre @ field_bytes p f @ rest) p offset =
    Inr (f, offset + length (field_bytes p f))"
proof -
  let ?len = "int (length (cf_value f))"
  let ?data = "pre @ field_bytes p f @ rest"
  have size: "length (field_bytes p f) = 2 + length (rfc_pro_header_bytes (cf_tag f) ?len) + length (cf_value f)"
    by (simp add: field_bytes_def)
  have tag: "0 \<le> cf_tag f" "cf_tag f \<le> 0xffff" and len: "?len \<le> rl_maxFieldLength l" "?len \<le> 0x7fffffff"
    using assms(2) by (auto simp: field_fits_def)
  have header: "decodeRfcProFieldHeader (rfc_pro_header_bytes (cf_tag f) ?len) (Some (rl_maxFieldLength l)) =
      Inr \<lparr>rp_tag = cf_tag f, rp_length = ?len, rp_encoding = (if ?len \<le> 0xfffe then Compact else Extended),
           rp_bytesConsumed = length (rfc_pro_header_bytes (cf_tag f) ?len)\<rparr>"
    using decodeRfcProFieldHeader_header [of "cf_tag f" ?len "Some (rl_maxFieldLength l)" "[]"] tag len assms(3)
    by (simp add: rfc_pro_ok_def limits_ok_def)
  have "be_decode (take 2 (drop offset ?data)) = nat p"
    using assms(1,4,5) by (simp add: field_bytes_def)
  have val: "slice (offset + 2 + length (rfc_pro_header_bytes (cf_tag f) ?len)) (length (cf_value f)) ?data = cf_value f"
    using assms(1) by (simp add: slice_def field_bytes_def)
  have f: "\<lparr>cf_tag = cf_tag f, cf_value = cf_value f\<rparr> = f" by simp
  let ?t = "be_encode 2 (nat p)"
  let ?g = "be_encode 2 (nat (cf_tag f))"
  have rest: "decode_chain_field l ?data p offset = Inr (f, offset + length (field_bytes p f))"
    if "slice offset 6 ?data = take 6 (?t @ rfc_pro_header_bytes (cf_tag f) ?len)"
      "be_decode (take 2 (?t @ rfc_pro_header_bytes (cf_tag f) ?len)) = nat p"
      "(if int (be_decode (slice 4 2 (take 6 (?t @ rfc_pro_header_bytes (cf_tag f) ?len)))) = 0xffff
        then 10 \<le> length (?t @ rfc_pro_header_bytes (cf_tag f) ?len) \<and>
          drop 2 (take 6 (?t @ rfc_pro_header_bytes (cf_tag f) ?len)) @ slice (offset + 6) 4 ?data =
            rfc_pro_header_bytes (cf_tag f) ?len
        else drop 2 (take 6 (?t @ rfc_pro_header_bytes (cf_tag f) ?len)) = rfc_pro_header_bytes (cf_tag f) ?len)"
  proof -
    have "6 \<le> length (?t @ rfc_pro_header_bytes (cf_tag f) ?len)" by (simp add: rfc_pro_header_length)
    then show ?thesis
      using that assms(1,4-6) header val size f
      by (auto simp: decode_chain_field_def enforceCpicChainLength_def requireCpicInput_def Let_def
          RFC_PRO_EXTENDED_LENGTH_SENTINEL_def slice_def [of 0] min_def split: if_splits)
  qed
  show ?thesis
  proof (cases "?len \<le> 0xfffe")
    case True
    then have h: "rfc_pro_header_bytes (cf_tag f) ?len = ?g @ be_encode 2 (length (cf_value f))"
      by (simp add: rfc_pro_header_bytes_def)
    show ?thesis
      using True assms(1,4,5) by (intro rest) (simp_all add: h slice_def field_bytes_def)
  next
    case False
    then have h: "rfc_pro_header_bytes (cf_tag f) ?len = ?g @ be_encode 2 0xffff @ be_encode 4 (length (cf_value f))"
      by (simp add: rfc_pro_header_bytes_def)
    show ?thesis
      using False assms(1,4,5) by (intro rest) (simp_all add: h slice_def field_bytes_def)
  qed
qed

lemma chain_bytes_append:
  "chain_bytes p (xs @ ys) = chain_bytes p xs @ chain_bytes (if xs = [] then p else cf_tag (last xs)) ys"
  by (induction xs arbitrary: p) auto

lemma field_bytes_nonempty [simp]: "field_bytes p f \<noteq> []"
  by (simp add: field_bytes_def rfc_pro_header_bytes_def byte_eval)

text \<open>Reading over well-formed fields, none of which is the terminal one.\<close>

lemma decode_chain_loop_reads:
  assumes "limits_ok l" and "list_all (field_fits l) fs" and "0 \<le> p" and "p \<le> 0xffff"
    and "int (length (pre @ chain_bytes p fs)) \<le> rl_maxChainLength l"
    and "int (length acc + length fs) \<le> rl_maxFieldCount l"
    and "list_all (\<lambda>f. terminal \<noteq> Some (cf_tag f)) fs"
  shows "decode_chain_loop l (pre @ chain_bytes p fs @ rest) terminal p (length pre) acc =
    decode_chain_loop l (pre @ chain_bytes p fs @ rest) terminal (if fs = [] then p else cf_tag (last fs))
      (length (pre @ chain_bytes p fs)) (acc @ fs)"
  using assms
proof (induction fs arbitrary: p pre acc)
  case Nil
  then show ?case by simp
next
  case (Cons f fs)
  let ?d = "pre @ field_bytes p f @ chain_bytes (cf_tag f) fs @ rest"
  have f: "field_fits l f" "0 \<le> cf_tag f" "cf_tag f \<le> 0xffff" "terminal \<noteq> Some (cf_tag f)"
    using Cons.prems by (auto simp: field_fits_def)
  have "decode_chain_field l ?d p (length pre) = Inr (f, length pre + length (field_bytes p f))"
    using Cons.prems f by (intro decode_chain_field_reads) auto
  moreover have "length pre < length ?d" by simp
  ultimately have "decode_chain_loop l ?d terminal p (length pre) acc =
      decode_chain_loop l ?d terminal (cf_tag f) (length pre + length (field_bytes p f)) (acc @ [f])"
    using Cons.prems(6) f(4) by (subst decode_chain_loop.simps) simp
  moreover have "decode_chain_loop l ((pre @ field_bytes p f) @ chain_bytes (cf_tag f) fs @ rest) terminal
        (cf_tag f) (length (pre @ field_bytes p f)) (acc @ [f]) =
      decode_chain_loop l ((pre @ field_bytes p f) @ chain_bytes (cf_tag f) fs @ rest) terminal
        (if fs = [] then cf_tag f else cf_tag (last fs))
        (length ((pre @ field_bytes p f) @ chain_bytes (cf_tag f) fs)) ((acc @ [f]) @ fs)"
    using Cons.prems f by (intro Cons.IH) auto
  ultimately show ?case by (simp add: add.assoc)
qed

text \<open>The field chain: whatever fields and limits the encoder accepts, decoding the chain
  with the same initial tag and the same limits gives back exactly the fields.\<close>

theorem cpic_chain_roundtrip:
  assumes "encodeCpicFieldChain p fs limits = Inr b"
  shows "decodeCpicFieldChain b p limits = Inr fs"
proof -
  from assms obtain l where p: "0 \<le> p" "p \<le> 0xffff" and b: "b = chain_bytes p fs"
    and l: "resolveCpicFieldChainLimits limits = Inr l" "int (length fs) \<le> rl_maxFieldCount l"
      "list_all (field_fits l) fs" "int (length (chain_bytes p fs)) \<le> rl_maxChainLength l"
    by (auto simp: encodeCpicFieldChain_iff)
  have "decode_chain_loop l b None p 0 [] =
      decode_chain_loop l b None (if fs = [] then p else cf_tag (last fs)) (length b) fs"
    using decode_chain_loop_reads [of l fs p "[]" "[]" None "[]"] resolve_limits_ok [OF l(1)] p l b
    by (simp add: list_all_iff)
  also have "\<dots> = Inr (fs, length b)" by (subst decode_chain_loop.simps) simp
  finally show ?thesis
    using p l b by (simp add: decodeCpicFieldChain_def decodeCpicFieldChainRegion_def cpic_uint16_def
        is_safe_integer_def max_safe_integer_def)
qed

definition no_limits :: cpic_limits where
  "no_limits = \<lparr>cl_maxFieldLength = None, cl_maxChainLength = None, cl_maxFieldCount = None\<rparr>"

definition default_limits :: cpic_resolved where
  "default_limits = \<lparr>rl_maxFieldLength = 268435456, rl_maxChainLength = 268435456, rl_maxFieldCount = 100000\<rparr>"

lemma resolve_no_limits [simp]: "resolveCpicFieldChainLimits no_limits = Inr default_limits"
  by (simp add: resolveCpicFieldChainLimits_def no_limits_def default_limits_def cpic_defaults
      cpic_boundedInteger_def rfc_pro_limits is_safe_integer_def max_safe_integer_def)

lemma cpic_chain_roundtrip_witness:
  "\<exists>b. encodeCpicFieldChain 0x0101 [\<lparr>cf_tag = 0x0103, cf_value = [1, 2]\<rparr>,
       \<lparr>cf_tag = 0xffff, cf_value = []\<rparr>] no_limits = Inr b \<and>
     decodeCpicFieldChain b 0x0101 no_limits = Inr [\<lparr>cf_tag = 0x0103, cf_value = [1, 2]\<rparr>,
       \<lparr>cf_tag = 0xffff, cf_value = []\<rparr>]"
proof -
  have "\<exists>b. encodeCpicFieldChain 0x0101 [\<lparr>cf_tag = 0x0103, cf_value = [1, 2]\<rparr>,
       \<lparr>cf_tag = 0xffff, cf_value = []\<rparr>] no_limits = Inr b"
    by (simp add: encodeCpicFieldChain_iff default_limits_def field_fits_def field_bytes_def
        rfc_pro_header_length)
  then show ?thesis using cpic_chain_roundtrip by blast
qed

lemma decode_encoded_prefix:
  assumes "encodeCpicFieldChain p (fs @ [f]) limits = Inr b"
    and "\<forall>g \<in> set fs. cf_tag g \<noteq> cf_tag f"
  shows "decodeCpicFieldChainPrefix (b @ trailer) p (cf_tag f) limits = Inr (fs @ [f], length b)"
proof -
  let ?p = "if fs = [] then p else cf_tag (last fs)"
  from assms obtain l where p: "0 \<le> p" "p \<le> 0xffff" and b: "b = chain_bytes p fs @ field_bytes ?p f"
    and l: "resolveCpicFieldChainLimits limits = Inr l" "int (length fs + 1) \<le> rl_maxFieldCount l"
      "list_all (field_fits l) fs" "field_fits l f"
      "int (length (chain_bytes p fs @ field_bytes ?p f)) \<le> rl_maxChainLength l"
    by (auto simp: encodeCpicFieldChain_iff chain_bytes_append)
  have ok: "limits_ok l" using resolve_limits_ok [OF l(1)] .
  have q: "0 \<le> ?p" "?p \<le> 0xffff"
    using p l(3) by (cases fs rule: rev_cases; auto simp: field_fits_def)+
  have other: "list_all (\<lambda>g. Some (cf_tag f) \<noteq> Some (cf_tag g)) fs"
    using assms(2) by (auto simp: list_all_iff)
  have "decode_chain_loop l (b @ trailer) (Some (cf_tag f)) p 0 [] =
      decode_chain_loop l (b @ trailer) (Some (cf_tag f)) ?p (length (chain_bytes p fs)) fs"
    using decode_chain_loop_reads [of l fs p "[]" "[]" "Some (cf_tag f)" "field_bytes ?p f @ trailer"]
      ok p l b other by simp
  also have "decode_chain_field l (b @ trailer) ?p (length (chain_bytes p fs)) = Inr (f, length b)"
    using decode_chain_field_reads [of "chain_bytes p fs" _ l f ?p trailer] ok l q b by simp
  then have "decode_chain_loop l (b @ trailer) (Some (cf_tag f)) ?p (length (chain_bytes p fs)) fs =
      Inr (fs @ [f], length b)"
    using b l(2) by (subst decode_chain_loop.simps) simp
  finally show ?thesis
    using p l q by (simp add: decodeCpicFieldChainPrefix_def decodeCpicFieldChainRegion_def cpic_uint16_def
        is_safe_integer_def max_safe_integer_def field_fits_def)
qed

text \<open>A prefix of a stream: when the last of the encoded fields carries the terminal tag and
  no earlier one does, the prefix decoder returns the fields and the exact number of bytes
  of the chain, whatever follows it.\<close>

theorem cpic_chain_prefix_roundtrip:
  assumes "encodeCpicFieldChain p (fs @ [f]) limits = Inr b"
    and "\<forall>g \<in> set fs. cf_tag g \<noteq> cf_tag f"
  shows "decodeCpicFieldChainPrefix (b @ trailer) p (cf_tag f) limits = Inr (fs @ [f], length b)"
  using assms by (rule decode_encoded_prefix)

text \<open>Dropped fields are noticed: if one field is cut out of an encoded chain, with another
  field behind it, the decoder refuses the chain, unless the lost field repeats the tag of
  its predecessor.\<close>

theorem cpic_chain_detects_drop:
  assumes "encodeCpicFieldChain p (xs @ f # g # ys) limits = Inr b"
    and "cf_tag f \<noteq> (if xs = [] then p else cf_tag (last xs))"
  shows "\<exists>e. decodeCpicFieldChain (chain_bytes p xs @ chain_bytes (cf_tag f) (g # ys)) p limits = Inl e"
proof -
  let ?p = "if xs = [] then p else cf_tag (last xs)"
  let ?d = "chain_bytes p xs @ chain_bytes (cf_tag f) (g # ys)"
  from assms obtain l where p: "0 \<le> p" "p \<le> 0xffff"
    and l: "resolveCpicFieldChainLimits limits = Inr l" "int (length xs + length ys + 2) \<le> rl_maxFieldCount l"
      "list_all (field_fits l) xs" "field_fits l f"
      "int (length (chain_bytes p xs @ chain_bytes ?p (f # g # ys))) \<le> rl_maxChainLength l"
    by (auto simp: encodeCpicFieldChain_iff chain_bytes_append)
  have ok: "limits_ok l" using resolve_limits_ok [OF l(1)] .
  have "6 \<le> length (field_bytes (cf_tag f) g)"
    by (simp add: field_bytes_def rfc_pro_header_length)
  then have "\<exists>e. decode_chain_field l ?d ?p (length (chain_bytes p xs)) = Inl e"
    using decode_chain_field_other [of "chain_bytes p xs" _ l "cf_tag f" ?p g "chain_bytes (cf_tag g) ys"]
      l(4,5) assms(2) by (simp add: field_fits_def)
  moreover have "length (chain_bytes p xs) < length ?d" by simp
  ultimately have "\<exists>e. decode_chain_loop l ?d None ?p (length (chain_bytes p xs)) xs = Inl e"
    using l(2) by (subst decode_chain_loop.simps) (auto split: prod.splits)
  moreover have "decode_chain_loop l ?d None p 0 [] =
      decode_chain_loop l ?d None ?p (length (chain_bytes p xs)) xs"
    using decode_chain_loop_reads [of l xs p "[]" "[]" None "chain_bytes (cf_tag f) (g # ys)"] ok p l
    by (simp add: list_all_iff)
  ultimately show ?thesis
    using p l by (auto simp: decodeCpicFieldChain_def decodeCpicFieldChainRegion_def cpic_uint16_def
        is_safe_integer_def max_safe_integer_def)
qed

lemma cpic_chain_prefix_roundtrip_witness:
  "\<exists>b. encodeCpicFieldChain 0x0101 ([\<lparr>cf_tag = 0x0103, cf_value = [1, 2]\<rparr>] @ [\<lparr>cf_tag = 0xffff, cf_value = []\<rparr>])
       no_limits = Inr b \<and>
     decodeCpicFieldChainPrefix (b @ [255, 255]) 0x0101 0xffff no_limits =
       Inr ([\<lparr>cf_tag = 0x0103, cf_value = [1, 2]\<rparr>] @ [\<lparr>cf_tag = 0xffff, cf_value = []\<rparr>], length b)"
proof -
  let ?fs = "[\<lparr>cf_tag = 0x0103, cf_value = [1, 2]\<rparr>]"
  let ?f = "\<lparr>cf_tag = 0xffff, cf_value = []\<rparr>"
  have "\<exists>b. encodeCpicFieldChain 0x0101 (?fs @ [?f]) no_limits = Inr b"
    by (simp add: encodeCpicFieldChain_iff default_limits_def field_fits_def field_bytes_def
        rfc_pro_header_length)
  then obtain b where b: "encodeCpicFieldChain 0x0101 (?fs @ [?f]) no_limits = Inr b" ..
  with cpic_chain_prefix_roundtrip [OF b, of "[255, 255]"] show ?thesis by auto
qed

lemma cpic_chain_detects_drop_witness:
  "\<exists>e. decodeCpicFieldChain (chain_bytes 0x0101 [] @ chain_bytes 0x0103 [\<lparr>cf_tag = 0xffff, cf_value = []\<rparr>])
     0x0101 no_limits = Inl e"
proof -
  have "\<exists>b. encodeCpicFieldChain 0x0101 ([] @ \<lparr>cf_tag = 0x0103, cf_value = [1, 2]\<rparr> #
       \<lparr>cf_tag = 0xffff, cf_value = []\<rparr> # []) no_limits = Inr b"
    by (simp add: encodeCpicFieldChain_iff default_limits_def field_fits_def field_bytes_def
        rfc_pro_header_length)
  then obtain b where b: "encodeCpicFieldChain 0x0101 ([] @ \<lparr>cf_tag = 0x0103, cf_value = [1, 2]\<rparr> #
       \<lparr>cf_tag = 0xffff, cf_value = []\<rparr> # []) no_limits = Inr b" ..
  from cpic_chain_detects_drop [OF b] show ?thesis by simp
qed

end
