(* ===== verification/CpicRequest.thy ===== *)
theory CpicRequest
  imports CpicFields
begin

text \<open>
  The RFC call requests of \<open>src/protocol/cpic.ts\<close>: the first call after logon and the classic
  Unicode (CUT) call, their packet trailer, and the inspection of that trailer before the
  request goes to the APPC planner. A JavaScript string is its list of UTF-16 code units.
\<close>

type_synonym js_string = "16 word list"

section \<open>Field values\<close>

definition is_high_surrogate :: "16 word \<Rightarrow> bool" where
  "is_high_surrogate c \<longleftrightarrow> 0xd800 \<le> unat c \<and> unat c \<le> 0xdbff"

definition is_low_surrogate :: "16 word \<Rightarrow> bool" where
  "is_low_surrogate c \<longleftrightarrow> 0xdc00 \<le> unat c \<and> unat c \<le> 0xdfff"

text \<open>\<open>/[\uD800-\uDFFF]/u\<close> reads the string by code points, so it only finds lone surrogates.\<close>

fun has_lone_surrogate :: "js_string \<Rightarrow> bool" where
  "has_lone_surrogate [] = False"
| "has_lone_surrogate [c] = (is_high_surrogate c \<or> is_low_surrogate c)"
| "has_lone_surrogate (c # d # cs) =
    (if is_high_surrogate c
     then if is_low_surrogate d then has_lone_surrogate cs else True
     else is_low_surrogate c \<or> has_lone_surrogate (d # cs))"

definition utf16le :: "js_string \<Rightarrow> bytes" where
  "utf16le s = concat (map (\<lambda>c. le_encode 2 (unat c)) s)"

definition cpic_unicode :: "js_string \<Rightarrow> nat \<Rightarrow> bytes result" where
  "cpic_unicode value maximumCharacters =
    (if length value < 1 \<or> maximumCharacters < length value \<or> 0 \<in> set value \<or> has_lone_surrogate value
     then Inl (RangeError ''must contain Unicode scalar characters without NUL'')
     else Inr (utf16le value))"

definition cpic_exactBytes :: "bytes \<Rightarrow> nat \<Rightarrow> bytes result" where
  "cpic_exactBytes value n = (if length value \<noteq> n
     then Inl (RangeError ''must contain an exact number of bytes'') else Inr value)"

definition is_digit :: "16 word \<Rightarrow> bool" where
  "is_digit c \<longleftrightarrow> 0x30 \<le> unat c \<and> unat c \<le> 0x39"

definition is_release :: "js_string \<Rightarrow> bool" where
  "is_release s \<longleftrightarrow> length s = 3 \<and> list_all is_digit s"

section \<open>The packet trailer\<close>

definition packetTrailer :: "int \<Rightarrow> int \<Rightarrow> bytes" where
  "packetTrailer packetPrefixAndChainLength maximumRfcPacketSize =
    (let cpicPacketSize = packetPrefixAndChainLength + 2 in
     if int MAX_APPC_APPLICATION_DATA_FRAGMENT_LENGTH < cpicPacketSize then [0xff, 0xff]
     else be_encode 2 0xffff @ be_encode 2 0 @ be_encode 2 (nat cpicPacketSize) @
       be_encode 4 (nat maximumRfcPacketSize))"

datatype framing_mode = CompactFraming | StreamedFraming

record cpic_framing =
  fr_mode :: framing_mode
  fr_applicationDataLength :: nat
  fr_finalSapParameterLength :: nat

definition inspectCpicRequestAppcFraming :: "bytes \<Rightarrow> cpic_framing result" where
  "inspectCpicRequestAppcFraming bs =
    (let n = length bs in
     if 10 \<le> n \<and> be_decode (slice (n - 10) 2 bs) = 0xffff \<and> be_decode (slice (n - 8) 2 bs) = 0 \<and>
        be_decode (slice (n - 6) 2 bs) = n - 8 \<and> n - 8 \<le> MAX_APPC_APPLICATION_DATA_FRAGMENT_LENGTH
     then Inr \<lparr>fr_mode = CompactFraming, fr_applicationDataLength = n - 8, fr_finalSapParameterLength = 8\<rparr>
     else if MAX_APPC_APPLICATION_DATA_FRAGMENT_LENGTH < n \<and> 6 \<le> n \<and>
        be_decode (slice (n - 6) 2 bs) = 0xffff \<and> be_decode (slice (n - 4) 2 bs) = 0 \<and>
        be_decode (slice (n - 2) 2 bs) = 0xffff
     then Inr \<lparr>fr_mode = StreamedFraming, fr_applicationDataLength = n, fr_finalSapParameterLength = 0\<rparr>
     else Inl (PlainError ''CPIC request has an invalid APPC framing trailer''))"

definition checkedMaximumRfcPacketSize :: "int option \<Rightarrow> int result" where
  "checkedMaximumRfcPacketSize value =
    (let maximumRfcPacketSize = or_else value 0x8500 in
     if \<not> is_safe_integer maximumRfcPacketSize \<or> maximumRfcPacketSize < 0 \<or> 0xffffffff < maximumRfcPacketSize
     then Inl (RangeError ''maximumRfcPacketSize must be an unsigned 32-bit integer'')
     else Inr maximumRfcPacketSize)"

section \<open>Tags\<close>

text \<open>\<open>enum CpicTag\<close>, as far as the requests use it.\<close>

abbreviation (input) T_Start :: int where "T_Start \<equiv> 0x0101"
abbreviation (input) T_Function :: int where "T_Function \<equiv> 0x0102"
abbreviation (input) T_ProtocolVersion :: int where "T_ProtocolVersion \<equiv> 0x0103"
abbreviation (input) T_Capabilities :: int where "T_Capabilities \<equiv> 0x0106"
abbreviation (input) T_Kernel :: int where "T_Kernel \<equiv> 0x000b"
abbreviation (input) T_ParameterName :: int where "T_ParameterName \<equiv> 0x0201"
abbreviation (input) T_ParameterValue :: int where "T_ParameterValue \<equiv> 0x0203"
abbreviation (input) T_RequestedOutput :: int where "T_RequestedOutput \<equiv> 0x0205"
abbreviation (input) T_TableName :: int where "T_TableName \<equiv> 0x0301"
abbreviation (input) T_TableHeader :: int where "T_TableHeader \<equiv> 0x0302"
abbreviation (input) T_TableCompr :: int where "T_TableCompr \<equiv> 0x0304"
abbreviation (input) T_LogonMarker :: int where "T_LogonMarker \<equiv> 0x0337"
abbreviation (input) T_ContextEnd :: int where "T_ContextEnd \<equiv> 0x0502"
abbreviation (input) T_CallContext :: int where "T_CallContext \<equiv> 0x0512"
abbreviation (input) T_Session :: int where "T_Session \<equiv> 0x0514"
abbreviation (input) T_XRfcParameter :: int where "T_XRfcParameter \<equiv> 0x3c02"
abbreviation (input) T_XRfcData :: int where "T_XRfcData \<equiv> 0x3c05"
abbreviation (input) T_End :: int where "T_End \<equiv> 0xffff"

definition fld :: "int \<Rightarrow> bytes \<Rightarrow> cpic_field" where
  "fld tag v = \<lparr>cf_tag = tag, cf_value = v\<rparr>"

definition INITIAL_PROTOCOL_VERSION :: bytes where
  "INITIAL_PROTOCOL_VERSION = [0x00, 0x00, 0x0e, 0x09]"

definition INITIAL_CAPABILITIES :: bytes where
  "INITIAL_CAPABILITIES = [0x04, 0x01, 0x00, 0x03, 0x00, 0x0a, 0x02, 0x00, 0x00, 0x00, 0x23]"

definition CPIC_FUNCTION_REQUEST_PREFIX :: bytes where
  "CPIC_FUNCTION_REQUEST_PREFIX = [0x01, 0x01, 0x00, 0x08, 0x03, 0x01, 0x01, 0x05, 0x04, 0x01, 0x00, 0x03]"

definition CPIC_CUT_FUNCTION_REQUEST_PREFIX :: bytes where
  "CPIC_CUT_FUNCTION_REQUEST_PREFIX = [0x05, 0x02, 0x00, 0x00]"

definition default_release :: js_string where
  "default_release = [0x37, 0x35, 0x34]"

text \<open>The end of both encoders: measure the chain, choose the trailer, encode.\<close>

definition finish_request :: "bytes \<Rightarrow> int \<Rightarrow> cpic_field list \<Rightarrow> int \<Rightarrow> bytes result" where
  "finish_request prefix initialTag fs maximumRfcPacketSize =
     rbind (cpicFieldChainByteLength initialTag fs no_limits) (\<lambda>chainByteLength.
     let trailer = packetTrailer (int (length prefix) + chainByteLength) maximumRfcPacketSize in
     rbind (encodeCpicFieldChain initialTag fs no_limits) (\<lambda>chain.
     Inr (prefix @ chain @ trailer)))"

section \<open>Function request\<close>

record cpic_function_input =
  fi_functionName :: js_string
  fi_sessionId :: bytes
  fi_kernelRelease :: "js_string option"
  fi_maximumRfcPacketSize :: "int option"

definition encodeCpicFunctionRequest :: "cpic_function_input \<Rightarrow> bytes result" where
  "encodeCpicFunctionRequest input =
    (let kernelRelease = or_else (fi_kernelRelease input) default_release in
     if \<not> is_release kernelRelease
     then Inl (RangeError ''kernelRelease must contain exactly three ASCII digits'')
     else
     rbind (checkedMaximumRfcPacketSize (fi_maximumRfcPacketSize input)) (\<lambda>maximumRfcPacketSize.
     rbind (cpic_exactBytes (fi_sessionId input) 16) (\<lambda>sessionId.
     rbind (cpic_unicode (fi_functionName input) 40) (\<lambda>functionName.
     finish_request CPIC_FUNCTION_REQUEST_PREFIX T_Start
       [fld T_ProtocolVersion INITIAL_PROTOCOL_VERSION, fld T_Capabilities INITIAL_CAPABILITIES,
        fld T_LogonMarker [], fld T_Session sessionId, fld T_ContextEnd [],
        fld T_Kernel (utf16le kernelRelease), fld T_Function functionName, fld T_CallContext [],
        fld T_End []] maximumRfcPacketSize))))"

section \<open>CUT request\<close>

record cpic_table =
  ct_name :: js_string
  ct_rowByteLength :: int
  ct_rows :: "bytes list"

record cpic_cut_input =
  cu_functionName :: js_string
  cu_requestedOutputs :: "js_string list"
  cu_imports :: "(js_string \<times> bytes) list"
  cu_tables :: "cpic_table list"
  cu_xrfcParameters :: "(js_string \<times> bytes) list"
  cu_kernelRelease :: "js_string option"
  cu_maximumRfcPacketSize :: "int option"

fun rejectDuplicates :: "js_string list \<Rightarrow> js_string list \<Rightarrow> unit result" where
  "rejectDuplicates seen [] = Inr ()"
| "rejectDuplicates seen (v # vs) =
    (if v \<in> set seen then Inl (PlainError ''duplicate'') else rejectDuplicates (v # seen) vs)"

definition output_field :: "js_string \<Rightarrow> cpic_field list result" where
  "output_field name = rbind (cpic_unicode name 30) (\<lambda>n. Inr [fld T_RequestedOutput n])"

definition import_fields :: "js_string \<times> bytes \<Rightarrow> cpic_field list result" where
  "import_fields parameter = rbind (cpic_unicode (fst parameter) 30) (\<lambda>n.
     Inr [fld T_ParameterName n, fld T_ParameterValue (snd parameter)])"

fun table_rows :: "int \<Rightarrow> bytes list \<Rightarrow> cpic_field list result" where
  "table_rows rowByteLength [] = Inr []"
| "table_rows rowByteLength (row # rows) =
    (if int (length row) \<noteq> rowByteLength then Inl (RangeError ''row contains another number of bytes'')
     else rbind (table_rows rowByteLength rows) (\<lambda>fs. Inr (fld T_TableCompr row # fs)))"

definition table_fields :: "cpic_table \<Rightarrow> cpic_field list result" where
  "table_fields table =
    (if \<not> is_safe_integer (ct_rowByteLength table) \<or> ct_rowByteLength table < 0 \<or>
        0xffffffff < ct_rowByteLength table
     then Inl (RangeError ''rowByteLength must be an unsigned 32-bit integer'')
     else if 0xffffffff < length (ct_rows table)
     then Inl (RangeError ''row count exceeds the unsigned 32-bit range'')
     else if length (ct_rows table) \<noteq> 0 \<and> ct_rowByteLength table = 0
     then Inl (RangeError ''cannot contain zero-width rows'')
     else rbind (cpic_unicode (ct_name table) 30) (\<lambda>n.
       rbind (table_rows (ct_rowByteLength table) (ct_rows table)) (\<lambda>rows.
       Inr (fld T_TableName n #
            fld T_TableHeader (be_encode 4 (nat (ct_rowByteLength table)) @ be_encode 4 (length (ct_rows table))) #
            rows))))"

definition CLASSIC_XRFC_XML_CHUNK_LENGTH :: nat where
  "CLASSIC_XRFC_XML_CHUNK_LENGTH = 16 * 1024"

function xrfc_chunks :: "bytes \<Rightarrow> cpic_field list" where
  "xrfc_chunks v = (if v = [] then []
     else fld T_XRfcData (take CLASSIC_XRFC_XML_CHUNK_LENGTH v) # xrfc_chunks (drop CLASSIC_XRFC_XML_CHUNK_LENGTH v))"
  by pat_completeness auto
termination
  by (relation "measure length") (auto simp: CLASSIC_XRFC_XML_CHUNK_LENGTH_def)

declare xrfc_chunks.simps [simp del]

definition xrfc_fields :: "js_string \<times> bytes \<Rightarrow> cpic_field list result" where
  "xrfc_fields parameter = rbind (cpic_unicode (fst parameter) 30) (\<lambda>_.
     if length (snd parameter) = 0 then Inl (RangeError ''xRFC XML value must not be empty'')
     else Inr (fld T_XRfcParameter [] # xrfc_chunks (snd parameter) @ [fld T_XRfcParameter []]))"

text \<open>The fields of the call between the head and the end field.\<close>

definition cut_fields :: "cpic_cut_input \<Rightarrow> cpic_field list result" where
  "cut_fields input =
     rbind (map_result output_field (cu_requestedOutputs input)) (\<lambda>outputs.
     rbind (map_result import_fields (cu_imports input)) (\<lambda>imports.
     rbind (map_result table_fields (cu_tables input)) (\<lambda>tables.
     rbind (map_result xrfc_fields (cu_xrfcParameters input)) (\<lambda>xrfc.
     Inr (concat outputs @ concat imports @ concat tables @ concat xrfc)))))"

definition cut_names_unique :: "cpic_cut_input \<Rightarrow> unit result" where
  "cut_names_unique input =
     rbind (rejectDuplicates [] (cu_requestedOutputs input)) (\<lambda>_.
     rbind (rejectDuplicates [] (map fst (cu_imports input))) (\<lambda>_.
     rbind (rejectDuplicates [] (map ct_name (cu_tables input))) (\<lambda>_.
     rbind (rejectDuplicates [] (map fst (cu_xrfcParameters input))) (\<lambda>_.
     rejectDuplicates [] (map fst (cu_imports input) @ map ct_name (cu_tables input) @
       map fst (cu_xrfcParameters input))))))"

definition encodeCpicCutFunctionRequest :: "cpic_cut_input \<Rightarrow> bytes result" where
  "encodeCpicCutFunctionRequest input =
    (let kernelRelease = or_else (cu_kernelRelease input) default_release in
     if \<not> is_release kernelRelease
     then Inl (RangeError ''kernelRelease must contain exactly three ASCII digits'')
     else
     rbind (checkedMaximumRfcPacketSize (cu_maximumRfcPacketSize input)) (\<lambda>maximumRfcPacketSize.
     rbind (cut_names_unique input) (\<lambda>_.
     rbind (cpic_unicode (cu_functionName input) 40) (\<lambda>functionName.
     rbind (cut_fields input) (\<lambda>fs.
     finish_request CPIC_CUT_FUNCTION_REQUEST_PREFIX T_ContextEnd
       ([fld T_Kernel (utf16le kernelRelease), fld T_Function functionName, fld T_CallContext []] @
        fs @ [fld T_End []]) maximumRfcPacketSize)))))"

section \<open>What a finished request looks like\<close>

lemma finish_request_layout:
  assumes "finish_request prefix p (fs @ [fld T_End []]) m = Inr data"
  shows "\<exists>body. data = body @ be_encode 2 0xffff @ be_encode 2 0 @ packetTrailer (int (length body) + 4) m \<and>
    encodeCpicFieldChain p (fs @ [fld T_End []]) no_limits = Inr (chain_bytes p (fs @ [fld T_End []])) \<and>
    data = prefix @ chain_bytes p (fs @ [fld T_End []]) @ packetTrailer (int (length body) + 4) m"
proof -
  let ?q = "if fs = [] then p else cf_tag (last fs)"
  let ?body = "prefix @ chain_bytes p fs @ be_encode 2 (nat ?q)"
  from assms obtain n chain where n: "cpicFieldChainByteLength p (fs @ [fld T_End []]) no_limits = Inr n"
    and chain: "encodeCpicFieldChain p (fs @ [fld T_End []]) no_limits = Inr chain"
    and data: "data = prefix @ chain @ packetTrailer (int (length prefix) + n) m"
    by (auto simp: finish_request_def Let_def simp del: encodeCpicFieldChain_iff)
  have bytes: "chain = chain_bytes p (fs @ [fld T_End []])"
    using chain by (simp add: encodeCpicFieldChain_iff)
  have fields: "chain_bytes p (fs @ [fld T_End []]) =
      chain_bytes p fs @ be_encode 2 (nat ?q) @ be_encode 2 0xffff @ be_encode 2 0"
    by (simp add: chain_bytes_append field_bytes_def fld_def rfc_pro_header_bytes_def)
  have "n = int (length chain)"
  proof -
    have "limits_ok default_limits" by (simp add: limits_ok_def default_limits_def max_safe_integer_def)
    then show ?thesis
      using n chain_length_loop_iff [of 0 default_limits "fs @ [fld T_End []]" n p] bytes
      by (auto simp: cpicFieldChainByteLength_def limits_ok_def split: if_splits)
  qed
  then have "int (length prefix) + n = int (length ?body) + 4" using bytes fields by simp
  with data chain bytes fields show ?thesis by (intro exI [of _ ?body]) simp
qed

lemma tail_slice:
  "length xs = n \<Longrightarrow> k = length ys \<Longrightarrow> slice (length (pre @ xs @ ys) - k - n) n (pre @ xs @ ys) = xs"
  by (simp add: slice_def)

text \<open>The trailer is recognised: short requests are compact, long ones streamed.\<close>

lemma inspect_finished:
  assumes "data = body @ be_encode 2 0xffff @ be_encode 2 0 @ packetTrailer (int (length body) + 4) m"
  shows "inspectCpicRequestAppcFraming data =
    (if length body + 6 \<le> 28000
     then Inr \<lparr>fr_mode = CompactFraming, fr_applicationDataLength = length body + 6, fr_finalSapParameterLength = 8\<rparr>
     else Inr \<lparr>fr_mode = StreamedFraming, fr_applicationDataLength = length data, fr_finalSapParameterLength = 0\<rparr>)"
proof (cases "length body + 6 \<le> 28000")
  case True
  let ?pre = "body @ be_encode 2 0xffff @ be_encode 2 0"
  let ?size = "be_encode 2 (length body + 6)"
  have t: "packetTrailer (int (length body) + 4) m =
      be_encode 2 0xffff @ be_encode 2 0 @ ?size @ be_encode 4 (nat m)"
    using True by (simp add: packetTrailer_def appc_lengths nat_add_distrib add.commute)
  have n: "length data = length body + 14" using assms t by simp
  have "slice (length data - 10) 2 data = be_encode 2 0xffff" "slice (length data - 8) 2 data = be_encode 2 0"
    "slice (length data - 6) 2 data = ?size"
    using n by (simp_all add: assms t slice_def)
  with True n show ?thesis
    by (simp add: inspectCpicRequestAppcFraming_def Let_def appc_lengths)
next
  case False
  have t: "packetTrailer (int (length body) + 4) m = be_encode 2 0xffff"
    using False by (simp add: packetTrailer_def appc_lengths byte_eval be_encode.simps(2))
  have n: "length data = length body + 6" using assms t by simp
  have "slice (length data - 6) 2 data = be_encode 2 0xffff" "slice (length data - 4) 2 data = be_encode 2 0"
    "slice (length data - 2) 2 data = be_encode 2 0xffff"
    using n by (simp_all add: assms t slice_def)
  with False n show ?thesis
    by (simp add: inspectCpicRequestAppcFraming_def Let_def appc_lengths)
qed

lemma xrfc_chunks_concat:
  "concat (map cf_value (xrfc_chunks v)) = v \<and>
   list_all (\<lambda>f. cf_tag f = T_XRfcData \<and> cf_value f \<noteq> [] \<and> length (cf_value f) \<le> CLASSIC_XRFC_XML_CHUNK_LENGTH) (xrfc_chunks v)"
proof (induction v rule: xrfc_chunks.induct)
  case (1 v)
  then show ?case
    by (subst (1 2) xrfc_chunks.simps) (auto simp: fld_def CLASSIC_XRFC_XML_CHUNK_LENGTH_def)
qed

lemma concat_results:
  assumes "map_result f xs = Inr ys" and "\<And>x y. f x = Inr y \<Longrightarrow> \<forall>g\<in>set y. P g"
  shows "\<forall>g\<in>set (concat ys). P g"
  using assms(1)
proof (induction xs arbitrary: ys)
  case (Cons x xs)
  then obtain y zs where "f x = Inr y" "map_result f xs = Inr zs" "ys = y # zs" by auto
  with Cons.IH assms(2) show ?case by (metis Un_iff concat.simps(2) set_append)
qed auto

lemma table_rows_iff:
  "table_rows n rs = Inr fs \<longleftrightarrow>
    list_all (\<lambda>r. int (length r) = n) rs \<and> fs = map (fld T_TableCompr) rs"
  by (induction n rs arbitrary: fs rule: table_rows.induct) auto

lemma cut_fields_no_end:
  assumes "cut_fields input = Inr fs" and "f \<in> set fs"
  shows "cf_tag f \<noteq> T_End"
proof -
  let ?P = "\<lambda>g. cf_tag g \<noteq> T_End"
  from assms(1) obtain os ims ts xs where parts:
    "map_result output_field (cu_requestedOutputs input) = Inr os"
    "map_result import_fields (cu_imports input) = Inr ims"
    "map_result table_fields (cu_tables input) = Inr ts"
    "map_result xrfc_fields (cu_xrfcParameters input) = Inr xs"
    and fs: "fs = concat os @ concat ims @ concat ts @ concat xs"
    unfolding cut_fields_def by auto
  have "\<forall>g\<in>set (concat os). ?P g"
    by (rule concat_results [OF parts(1)]) (auto simp: output_field_def fld_def)
  moreover have "\<forall>g\<in>set (concat ims). ?P g"
    by (rule concat_results [OF parts(2)]) (auto simp: import_fields_def fld_def)
  moreover have "\<forall>g\<in>set (concat ts). ?P g"
    by (rule concat_results [OF parts(3)]) (auto simp: table_fields_def table_rows_iff fld_def split: if_splits)
  moreover have "\<forall>g\<in>set (concat xs). ?P g"
    by (rule concat_results [OF parts(4)])
      (use xrfc_chunks_concat in \<open>fastforce simp: xrfc_fields_def fld_def list_all_iff split: if_splits\<close>)
  ultimately show ?thesis using assms(2) unfolding fs set_append by blast
qed

section \<open>The request that is sent\<close>

lemma encode_function_inv:
  assumes "encodeCpicFunctionRequest input = Inr data"
  shows "\<exists>fs m. finish_request CPIC_FUNCTION_REQUEST_PREFIX T_Start (fs @ [fld T_End []]) m = Inr data"
proof -
  from assms obtain m sid fn where "finish_request CPIC_FUNCTION_REQUEST_PREFIX T_Start
      ([fld T_ProtocolVersion INITIAL_PROTOCOL_VERSION, fld T_Capabilities INITIAL_CAPABILITIES,
        fld T_LogonMarker [], fld T_Session sid, fld T_ContextEnd [],
        fld T_Kernel (utf16le (or_else (fi_kernelRelease input) default_release)), fld T_Function fn,
        fld T_CallContext []] @ [fld T_End []]) m = Inr data"
    by (auto simp: encodeCpicFunctionRequest_def Let_def split: if_splits)
  then show ?thesis by blast
qed

definition cut_head :: "cpic_cut_input \<Rightarrow> bytes \<Rightarrow> cpic_field list" where
  "cut_head input functionName =
    [fld T_Kernel (utf16le (or_else (cu_kernelRelease input) default_release)), fld T_Function functionName,
     fld T_CallContext []]"

lemma encode_cut_inv:
  assumes "encodeCpicCutFunctionRequest input = Inr data"
  shows "\<exists>fs fn m. cpic_unicode (cu_functionName input) 40 = Inr fn \<and> cut_fields input = Inr fs \<and>
    cut_names_unique input = Inr () \<and>
    checkedMaximumRfcPacketSize (cu_maximumRfcPacketSize input) = Inr m \<and>
    finish_request CPIC_CUT_FUNCTION_REQUEST_PREFIX T_ContextEnd
      ((cut_head input fn @ fs) @ [fld T_End []]) m = Inr data"
proof -
  from assms obtain m fn fs where "checkedMaximumRfcPacketSize (cu_maximumRfcPacketSize input) = Inr m"
    "cut_names_unique input = Inr ()"
    "cpic_unicode (cu_functionName input) 40 = Inr fn" "cut_fields input = Inr fs"
    "finish_request CPIC_CUT_FUNCTION_REQUEST_PREFIX T_ContextEnd
      ((cut_head input fn @ fs) @ [fld T_End []]) m = Inr data"
    by (auto simp: encodeCpicCutFunctionRequest_def cut_head_def Let_def split: if_splits)
  then show ?thesis by blast
qed

text \<open>Either request is recognised before it is handed to the planner.\<close>

definition is_encoded_request :: "bytes \<Rightarrow> bool" where
  "is_encoded_request data \<longleftrightarrow> (\<exists>input. encodeCpicFunctionRequest input = Inr data) \<or>
     (\<exists>input. encodeCpicCutFunctionRequest input = Inr data)"

lemma encoded_request_layout:
  assumes "is_encoded_request data"
  shows "\<exists>body m. data = body @ be_encode 2 0xffff @ be_encode 2 0 @ packetTrailer (int (length body) + 4) m"
proof -
  from assms obtain pre p fs m where "finish_request pre p (fs @ [fld T_End []]) m = Inr data"
    unfolding is_encoded_request_def using encode_function_inv encode_cut_inv by metis
  from finish_request_layout [OF this] show ?thesis by blast
qed

lemma encoded_request_framing:
  assumes "is_encoded_request data"
  shows "(\<exists>body m. length body \<le> 27994 \<and>
      data = body @ be_encode 2 0xffff @ be_encode 2 0 @ be_encode 2 0xffff @ be_encode 2 0 @
        be_encode 2 (length body + 6) @ be_encode 4 m \<and>
      inspectCpicRequestAppcFraming data = Inr \<lparr>fr_mode = CompactFraming,
        fr_applicationDataLength = length data - 8, fr_finalSapParameterLength = 8\<rparr>) \<or>
    (\<exists>body. 27994 < length body \<and>
      data = body @ be_encode 2 0xffff @ be_encode 2 0 @ be_encode 2 0xffff \<and>
      inspectCpicRequestAppcFraming data = Inr \<lparr>fr_mode = StreamedFraming,
        fr_applicationDataLength = length data, fr_finalSapParameterLength = 0\<rparr>)"
proof -
  from encoded_request_layout [OF assms] obtain body m where
    data: "data = body @ be_encode 2 0xffff @ be_encode 2 0 @ packetTrailer (int (length body) + 4) m"
    by blast
  note framing = inspect_finished [OF data]
  show ?thesis
  proof (cases "length body \<le> 27994")
    case True
    then have "packetTrailer (int (length body) + 4) m =
        be_encode 2 0xffff @ be_encode 2 0 @ be_encode 2 (length body + 6) @ be_encode 4 (nat m)"
      by (simp add: packetTrailer_def appc_lengths nat_add_distrib add.commute)
    with True data framing show ?thesis by (intro disjI1 exI [of _ body] exI [of _ "nat m"]) simp
  next
    case False
    then have "packetTrailer (int (length body) + 4) m = be_encode 2 0xffff"
      by (simp add: packetTrailer_def appc_lengths byte_eval be_encode.simps(2))
    with False data framing show ?thesis by (intro disjI2 exI [of _ body]) simp
  qed
qed

text \<open>Every request either encoder produces is recognised by the trailer inspection: a short
one as compact, its last eight bytes the final SAP parameters (the length of the rest, then the
maximum packet size), a long one as streamed; and the two parts always make up the request.\<close>

theorem cpic_request_framing_recognised:
  assumes "is_encoded_request data"
  shows "\<exists>framing. inspectCpicRequestAppcFraming data = Inr framing \<and>
    fr_applicationDataLength framing + fr_finalSapParameterLength framing = length data \<and>
    (case fr_mode framing of
       CompactFraming \<Rightarrow> fr_applicationDataLength framing \<le> 28000 \<and>
         (\<exists>m. drop (fr_applicationDataLength framing) data =
            be_encode 2 0 @ be_encode 2 (fr_applicationDataLength framing) @ be_encode 4 m)
     | StreamedFraming \<Rightarrow> 28000 < fr_applicationDataLength framing)"
proof (rule disjE [OF encoded_request_framing [OF assms]], goal_cases)
  case 1
  then obtain body m where short: "length body \<le> 27994"
    and data: "data = (body @ be_encode 2 0xffff @ be_encode 2 0 @ be_encode 2 0xffff) @
      be_encode 2 0 @ be_encode 2 (length body + 6) @ be_encode 4 m"
    and framing: "inspectCpicRequestAppcFraming data = Inr \<lparr>fr_mode = CompactFraming,
      fr_applicationDataLength = length data - 8, fr_finalSapParameterLength = 8\<rparr>"
    by auto
  have n: "length data = length body + 14" by (simp add: data)
  then have "drop (length data - 8) data = be_encode 2 0 @ be_encode 2 (length data - 8) @ be_encode 4 m"
    by (simp add: data add.commute)
  with short n framing show ?case by auto
next
  case 2
  then show ?case by auto
qed

section \<open>What a CUT request says\<close>

text \<open>Reading a parameter group out of the fields: the values carried under a tag, in order.\<close>

definition tagged :: "int \<Rightarrow> cpic_field list \<Rightarrow> bytes list" where
  "tagged tag fs = map cf_value (filter (\<lambda>f. cf_tag f = tag) fs)"

lemma tagged_simps [simp]:
  "tagged tag [] = []"
  "tagged tag (xs @ ys) = tagged tag xs @ tagged tag ys"
  "tagged tag (f # fs) = (if cf_tag f = tag then [cf_value f] else []) @ tagged tag fs"
  by (simp_all add: tagged_def)

lemma fld_simps [simp]: "cf_tag (fld t v) = t" "cf_value (fld t v) = v"
  by (simp_all add: fld_def)

lemma concat_results_tagged:
  assumes "map_result f xs = Inr ys" and "\<And>x y. f x = Inr y \<Longrightarrow> x \<in> set xs \<Longrightarrow> tagged t y = g x"
  shows "tagged t (concat ys) = concat (map g xs)"
  using assms
proof (induction xs arbitrary: ys)
  case (Cons x xs)
  then obtain y zs where y: "f x = Inr y" "map_result f xs = Inr zs" "ys = y # zs" by auto
  with Cons.IH [of zs] Cons.prems(2) show ?case by simp
qed auto

lemma tagged_none: "list_all (\<lambda>f. cf_tag f \<noteq> t) fs \<Longrightarrow> tagged t fs = []"
  by (induction fs) auto

lemma xrfc_chunks_tagged: "tagged t (xrfc_chunks v) = (if t = T_XRfcData then map cf_value (xrfc_chunks v) else [])"
  using xrfc_chunks_concat [of v] by (auto simp: tagged_def list_all_iff filter_empty_conv intro: arg_cong)

lemma unicode_value [simp]: "cpic_unicode s n = Inr v \<Longrightarrow> v = utf16le s"
  by (auto simp: cpic_unicode_def split: if_splits)

lemma tagged_rows: "tagged t (map (fld T_TableCompr) rows) = (if t = T_TableCompr then rows else [])"
  by (induction rows) auto

lemmas cut_field_defs = output_field_def import_fields_def table_fields_def xrfc_fields_def table_rows_iff
  tagged_rows xrfc_chunks_tagged

lemma outputs_tagged:
  assumes "map_result output_field os = Inr ys"
  shows "tagged t (concat ys) = (if t = T_RequestedOutput then map utf16le os else [])"
  by (subst concat_results_tagged [OF assms, of t "\<lambda>x. if t = T_RequestedOutput then [utf16le x] else []"])
    (auto simp: cut_field_defs dest!: unicode_value)

lemma imports_tagged:
  assumes "map_result import_fields ims = Inr ys"
  shows "tagged t (concat ys) = (if t = T_ParameterName then map (\<lambda>x. utf16le (fst x)) ims
    else if t = T_ParameterValue then map snd ims else [])"
  by (subst concat_results_tagged [OF assms, of t "\<lambda>x. if t = T_ParameterName then [utf16le (fst x)]
        else if t = T_ParameterValue then [snd x] else []"])
    (auto simp: cut_field_defs dest!: unicode_value)

definition table_header :: "cpic_table \<Rightarrow> bytes" where
  "table_header table = be_encode 4 (nat (ct_rowByteLength table)) @ be_encode 4 (length (ct_rows table))"

lemma tables_tagged:
  assumes "map_result table_fields ts = Inr ys"
  shows "tagged t (concat ys) = (if t = T_TableName then map (\<lambda>x. utf16le (ct_name x)) ts
    else if t = T_TableHeader then map table_header ts
    else if t = T_TableCompr then concat (map ct_rows ts) else [])"
  by (subst concat_results_tagged [OF assms, of t "\<lambda>x. if t = T_TableName then [utf16le (ct_name x)]
        else if t = T_TableHeader then [table_header x] else if t = T_TableCompr then ct_rows x else []"])
    (auto simp: cut_field_defs table_header_def dest!: unicode_value split: if_splits)

lemma xrfc_tagged:
  assumes "map_result xrfc_fields xs = Inr ys"
  shows "tagged t (concat ys) = (if t = T_XRfcParameter then concat (map (\<lambda>x. [[], []]) xs)
    else if t = T_XRfcData then concat (map (\<lambda>x. map cf_value (xrfc_chunks (snd x))) xs) else [])"
  by (subst concat_results_tagged [OF assms, of t "\<lambda>x. if t = T_XRfcParameter then [[], []]
        else if t = T_XRfcData then map cf_value (xrfc_chunks (snd x)) else []"])
    (auto simp: cut_field_defs split: if_splits)

text \<open>C31. Everything the caller passed is in the CUT request and can be read back from it: after
the four-byte prefix the field chain decodes up to its end field, and under their tags it carries,
in the caller's order, the function name, the requested outputs, the import names and values, the
table names, headers and rows, and the xRFC documents cut into chunks.\<close>

theorem cpic_cut_request_content:
  assumes "encodeCpicCutFunctionRequest input = Inr data"
  shows "take 4 data = CPIC_CUT_FUNCTION_REQUEST_PREFIX \<and>
    (\<exists>fs n. decodeCpicFieldChainPrefix (drop 4 data) T_ContextEnd T_End no_limits = Inr (fs, n) \<and>
      tagged T_Function fs = [utf16le (cu_functionName input)] \<and>
      tagged T_RequestedOutput fs = map utf16le (cu_requestedOutputs input) \<and>
      tagged T_ParameterName fs = map (\<lambda>p. utf16le (fst p)) (cu_imports input) \<and>
      tagged T_ParameterValue fs = map snd (cu_imports input) \<and>
      tagged T_TableName fs = map (\<lambda>t. utf16le (ct_name t)) (cu_tables input) \<and>
      tagged T_TableHeader fs = map table_header (cu_tables input) \<and>
      tagged T_TableCompr fs = concat (map ct_rows (cu_tables input)) \<and>
      concat (tagged T_XRfcData fs) = concat (map snd (cu_xrfcParameters input)) \<and>
      tagged T_End fs = [[]])"
proof -
  from encode_cut_inv [OF assms] obtain fs fn m where fn: "cpic_unicode (cu_functionName input) 40 = Inr fn"
    and fs: "cut_fields input = Inr fs"
    and finish: "finish_request CPIC_CUT_FUNCTION_REQUEST_PREFIX T_ContextEnd
      ((cut_head input fn @ fs) @ [fld T_End []]) m = Inr data"
    by auto
  let ?fs = "(cut_head input fn @ fs) @ [fld T_End []]"
  from finish_request_layout [OF finish] obtain trailer where
    chain: "encodeCpicFieldChain T_ContextEnd ?fs no_limits = Inr (chain_bytes T_ContextEnd ?fs)"
    and data: "data = CPIC_CUT_FUNCTION_REQUEST_PREFIX @ chain_bytes T_ContextEnd ?fs @ trailer"
    by auto
  have "cf_tag g \<noteq> cf_tag (fld T_End [])" if "g \<in> set (cut_head input fn @ fs)" for g
    using that cut_fields_no_end [OF fs] by (auto simp: cut_head_def)
  then have decoded: "decodeCpicFieldChainPrefix (drop 4 data) T_ContextEnd T_End no_limits =
      Inr (?fs, length (chain_bytes T_ContextEnd ?fs))"
    using decode_encoded_prefix [OF chain, of trailer] by (simp add: data CPIC_CUT_FUNCTION_REQUEST_PREFIX_def)
  from fs obtain os ims ts xs where parts:
    "map_result output_field (cu_requestedOutputs input) = Inr os"
    "map_result import_fields (cu_imports input) = Inr ims"
    "map_result table_fields (cu_tables input) = Inr ts"
    "map_result xrfc_fields (cu_xrfcParameters input) = Inr xs"
    and parts_of: "fs = concat os @ concat ims @ concat ts @ concat xs"
    unfolding cut_fields_def by auto
  note tags = parts_of outputs_tagged [OF parts(1)] imports_tagged [OF parts(2)] tables_tagged [OF parts(3)]
    xrfc_tagged [OF parts(4)] cut_head_def
  have chunks: "concat (concat (map (\<lambda>x. map cf_value (xrfc_chunks (snd x))) ys)) = concat (map snd ys)" for ys :: "(js_string \<times> bytes) list"
    using xrfc_chunks_concat by (induction ys) auto
  show ?thesis
    unfolding decoded using unicode_value [OF fn]
    by (simp add: tags chunks data CPIC_CUT_FUNCTION_REQUEST_PREFIX_def del: concat_append set_concat)
qed

definition sample_cut :: cpic_cut_input where
  "sample_cut = \<lparr>cu_functionName = [0x52, 0x46, 0x43], cu_requestedOutputs = [[0x41]],
     cu_imports = [([0x42], [1, 2, 3])],
     cu_tables = [\<lparr>ct_name = [0x43], ct_rowByteLength = 2, ct_rows = [[4, 5], [6, 7]]\<rparr>],
     cu_xrfcParameters = [([0x44], [8])], cu_kernelRelease = None, cu_maximumRfcPacketSize = None\<rparr>"

section \<open>What a CUT request never says\<close>

lemma rejectDuplicates_iff: "rejectDuplicates seen vs = Inr () \<longleftrightarrow> distinct vs \<and> set vs \<inter> set seen = {}"
  by (induction seen vs rule: rejectDuplicates.induct) auto

lemma map_result_all: "map_result f xs = Inr ys \<Longrightarrow> x \<in> set xs \<Longrightarrow> \<exists>y. f x = Inr y"
  by (induction xs arbitrary: ys) auto

definition rfc_name :: "nat \<Rightarrow> js_string \<Rightarrow> bool" where
  "rfc_name n s \<longleftrightarrow> 1 \<le> length s \<and> length s \<le> n \<and> 0 \<notin> set s \<and> \<not> has_lone_surrogate s"

lemma unicode_name: "cpic_unicode s n = Inr v \<longleftrightarrow> rfc_name n s \<and> v = utf16le s"
  by (auto simp: cpic_unicode_def rfc_name_def Suc_le_eq)

lemma map_result_ok: "(\<exists>ys. map_result f xs = Inr ys) \<longleftrightarrow> list_all (\<lambda>x. \<exists>y. f x = Inr y) xs"
  by (induction xs) auto

lemma cut_fields_ok:
  "(\<exists>fs. cut_fields input = Inr fs) \<longleftrightarrow>
    list_all (rfc_name 30) (cu_requestedOutputs input) \<and>
    list_all (\<lambda>p. rfc_name 30 (fst p)) (cu_imports input) \<and>
    list_all (\<lambda>t. rfc_name 30 (ct_name t) \<and> 0 \<le> ct_rowByteLength t \<and> ct_rowByteLength t \<le> 0xffffffff \<and>
      length (ct_rows t) \<le> 0xffffffff \<and> (ct_rows t = [] \<or> 0 < ct_rowByteLength t) \<and>
      list_all (\<lambda>r. int (length r) = ct_rowByteLength t) (ct_rows t)) (cu_tables input) \<and>
    list_all (\<lambda>p. rfc_name 30 (fst p) \<and> snd p \<noteq> []) (cu_xrfcParameters input)"
proof -
  have "(\<exists>fs. cut_fields input = Inr fs) \<longleftrightarrow>
      (\<exists>ys. map_result output_field (cu_requestedOutputs input) = Inr ys) \<and>
      (\<exists>ys. map_result import_fields (cu_imports input) = Inr ys) \<and>
      (\<exists>ys. map_result table_fields (cu_tables input) = Inr ys) \<and>
      (\<exists>ys. map_result xrfc_fields (cu_xrfcParameters input) = Inr ys)"
    unfolding cut_fields_def by auto
  also have "... \<longleftrightarrow> list_all (\<lambda>x. \<exists>y. output_field x = Inr y) (cu_requestedOutputs input) \<and>
      list_all (\<lambda>x. \<exists>y. import_fields x = Inr y) (cu_imports input) \<and>
      list_all (\<lambda>x. \<exists>y. table_fields x = Inr y) (cu_tables input) \<and>
      list_all (\<lambda>x. \<exists>y. xrfc_fields x = Inr y) (cu_xrfcParameters input)"
    unfolding map_result_ok ..
  also have "(\<lambda>x. \<exists>y. output_field x = Inr y) = rfc_name 30"
    by (auto simp: output_field_def unicode_name fun_eq_iff)
  also have "(\<lambda>x. \<exists>y. import_fields x = Inr y) = (\<lambda>p. rfc_name 30 (fst p))"
    by (auto simp: import_fields_def unicode_name fun_eq_iff)
  also have "(\<lambda>x. \<exists>y. xrfc_fields x = Inr y) = (\<lambda>p. rfc_name 30 (fst p) \<and> snd p \<noteq> [])"
    by (auto simp: xrfc_fields_def unicode_name fun_eq_iff)
  also have "(\<lambda>x. \<exists>y. table_fields x = Inr y) = (\<lambda>t. rfc_name 30 (ct_name t) \<and> 0 \<le> ct_rowByteLength t \<and>
      ct_rowByteLength t \<le> 0xffffffff \<and>
      length (ct_rows t) \<le> 0xffffffff \<and> (ct_rows t = [] \<or> 0 < ct_rowByteLength t) \<and>
      list_all (\<lambda>r. int (length r) = ct_rowByteLength t) (ct_rows t))"
    by (auto simp: table_fields_def unicode_name table_rows_iff fun_eq_iff is_safe_integer_def max_safe_integer_def)
  finally show ?thesis by simp
qed

lemma finish_request_ok:
  "(\<exists>data. finish_request prefix p fs m = Inr data) \<longleftrightarrow> (\<exists>chain. encodeCpicFieldChain p fs no_limits = Inr chain)"
  unfolding finish_request_def Let_def
  by (cases "cpicFieldChainByteLength p fs no_limits"; cases "encodeCpicFieldChain p fs no_limits")
    (auto simp: encodeCpicFieldChain_def)

lemma cut_names_ok: "cut_names_unique input = Inr () \<longleftrightarrow> distinct (cu_requestedOutputs input) \<and>
    distinct (map fst (cu_imports input) @ map ct_name (cu_tables input) @ map fst (cu_xrfcParameters input))"
  by (auto simp: cut_names_unique_def rejectDuplicates_iff)

lemma cut_accepts:
  "(\<exists>data. encodeCpicCutFunctionRequest input = Inr data) \<longleftrightarrow>
    is_release (or_else (cu_kernelRelease input) default_release) \<and>
    0 \<le> or_else (cu_maximumRfcPacketSize input) 0x8500 \<and>
    or_else (cu_maximumRfcPacketSize input) 0x8500 \<le> 0xffffffff \<and>
    distinct (cu_requestedOutputs input) \<and>
    distinct (map fst (cu_imports input) @ map ct_name (cu_tables input) @ map fst (cu_xrfcParameters input)) \<and>
    rfc_name 40 (cu_functionName input) \<and>
    list_all (rfc_name 30) (cu_requestedOutputs input) \<and>
    list_all (\<lambda>p. rfc_name 30 (fst p)) (cu_imports input) \<and>
    list_all (\<lambda>t. rfc_name 30 (ct_name t) \<and> 0 \<le> ct_rowByteLength t \<and> ct_rowByteLength t \<le> 0xffffffff \<and>
      length (ct_rows t) \<le> 0xffffffff \<and> (ct_rows t = [] \<or> 0 < ct_rowByteLength t) \<and>
      list_all (\<lambda>r. int (length r) = ct_rowByteLength t) (ct_rows t)) (cu_tables input) \<and>
    list_all (\<lambda>p. rfc_name 30 (fst p) \<and> snd p \<noteq> []) (cu_xrfcParameters input) \<and>
    (\<exists>fs chain. cut_fields input = Inr fs \<and> encodeCpicFieldChain T_ContextEnd
      (cut_head input (utf16le (cu_functionName input)) @ fs @ [fld T_End []]) no_limits = Inr chain)"
proof -
  have packet: "(\<exists>m. checkedMaximumRfcPacketSize (cu_maximumRfcPacketSize input) = Inr m) \<longleftrightarrow>
      0 \<le> or_else (cu_maximumRfcPacketSize input) 0x8500 \<and> or_else (cu_maximumRfcPacketSize input) 0x8500 \<le> 0xffffffff"
    by (auto simp: checkedMaximumRfcPacketSize_def Let_def is_safe_integer_def max_safe_integer_def)
  have "(\<exists>data. encodeCpicCutFunctionRequest input = Inr data) \<longleftrightarrow>
      is_release (or_else (cu_kernelRelease input) default_release) \<and>
      (\<exists>m. checkedMaximumRfcPacketSize (cu_maximumRfcPacketSize input) = Inr m) \<and>
      cut_names_unique input = Inr () \<and> rfc_name 40 (cu_functionName input) \<and>
      (\<exists>fs. cut_fields input = Inr fs) \<and>
      (\<forall>fs. cut_fields input = Inr fs \<longrightarrow> (\<exists>chain. encodeCpicFieldChain T_ContextEnd
        (cut_head input (utf16le (cu_functionName input)) @ fs @ [fld T_End []]) no_limits = Inr chain))"
    unfolding finish_request_ok [symmetric, where prefix = CPIC_CUT_FUNCTION_REQUEST_PREFIX and
      m = "or_else (cu_maximumRfcPacketSize input) 0x8500"]
    by (cases "cut_fields input")
      (auto simp: encodeCpicCutFunctionRequest_def Let_def cut_head_def unicode_name
        checkedMaximumRfcPacketSize_def)
  then show ?thesis unfolding packet cut_names_ok using cut_fields_ok [of input] by auto
qed

text \<open>The CUT encoder accepts exactly the calls it should: the release is three digits, the packet
size a 32-bit number, output names are unique and input names are unique over imports, tables and
xRFC parameters together, every name is non-empty, bounded and well formed, every table is of rows of
its declared width, no xRFC document is empty, and the fields fit the chain limits.\<close>

theorem cpic_cut_request_accepts:
  "(\<exists>data. encodeCpicCutFunctionRequest input = Inr data) \<longleftrightarrow>
    is_release (or_else (cu_kernelRelease input) default_release) \<and>
    0 \<le> or_else (cu_maximumRfcPacketSize input) 0x8500 \<and>
    or_else (cu_maximumRfcPacketSize input) 0x8500 \<le> 0xffffffff \<and>
    distinct (cu_requestedOutputs input) \<and>
    distinct (map fst (cu_imports input) @ map ct_name (cu_tables input) @ map fst (cu_xrfcParameters input)) \<and>
    rfc_name 40 (cu_functionName input) \<and>
    list_all (rfc_name 30) (cu_requestedOutputs input) \<and>
    list_all (\<lambda>p. rfc_name 30 (fst p)) (cu_imports input) \<and>
    list_all (\<lambda>t. rfc_name 30 (ct_name t) \<and> 0 \<le> ct_rowByteLength t \<and> ct_rowByteLength t \<le> 0xffffffff \<and>
      length (ct_rows t) \<le> 0xffffffff \<and> (ct_rows t = [] \<or> 0 < ct_rowByteLength t) \<and>
      list_all (\<lambda>r. int (length r) = ct_rowByteLength t) (ct_rows t)) (cu_tables input) \<and>
    list_all (\<lambda>p. rfc_name 30 (fst p) \<and> snd p \<noteq> []) (cu_xrfcParameters input) \<and>
    (\<exists>fs chain. cut_fields input = Inr fs \<and> encodeCpicFieldChain T_ContextEnd
      (cut_head input (utf16le (cu_functionName input)) @ fs @ [fld T_End []]) no_limits = Inr chain)"
  by (rule cut_accepts)

lemma length_utf16le [simp]: "length (utf16le s) = 2 * length s"
  by (induction s) (simp_all add: utf16le_def)

lemma sample_names [simp]: "rfc_name n [c] \<longleftrightarrow> 1 \<le> n \<and> c \<noteq> 0 \<and> \<not> is_high_surrogate c \<and> \<not> is_low_surrogate c"
  by (auto simp: rfc_name_def)

lemma sample_fields: "\<exists>fs. cut_fields sample_cut = Inr fs \<and>
    fs = [fld T_RequestedOutput (utf16le [0x41]), fld T_ParameterName (utf16le [0x42]),
      fld T_ParameterValue [1, 2, 3], fld T_TableName (utf16le [0x43]),
      fld T_TableHeader (be_encode 4 2 @ be_encode 4 (Suc (Suc 0))), fld T_TableCompr [4, 5], fld T_TableCompr [6, 7],
      fld T_XRfcParameter [], fld T_XRfcData [8], fld T_XRfcParameter []]"
  by (simp add: cut_fields_def sample_cut_def output_field_def import_fields_def table_fields_def xrfc_fields_def
      cpic_unicode_def is_high_surrogate_def is_low_surrogate_def is_safe_integer_def max_safe_integer_def
      xrfc_chunks.simps CLASSIC_XRFC_XML_CHUNK_LENGTH_def)

lemma sample_cut_accepted: "\<exists>data. encodeCpicCutFunctionRequest sample_cut = Inr data"
  unfolding cut_accepts using sample_fields
  by (simp add: sample_cut_def is_release_def default_release_def is_digit_def cut_head_def
      encodeCpicFieldChain_iff default_limits_def field_fits_def field_bytes_def rfc_pro_header_bytes_def
      rfc_name_def is_high_surrogate_def is_low_surrogate_def)

lemma sample_cut_short:
  assumes "encodeCpicCutFunctionRequest sample_cut = Inr data"
  shows "length data \<le> 200"
proof -
  from encode_cut_inv [OF assms] sample_fields obtain fs fn m where
    fn: "cpic_unicode (cu_functionName sample_cut) 40 = Inr fn"
    and fs: "cut_fields sample_cut = Inr fs" and finish: "finish_request CPIC_CUT_FUNCTION_REQUEST_PREFIX T_ContextEnd
      ((cut_head sample_cut fn @ fs) @ [fld T_End []]) m = Inr data" by auto
  from finish_request_layout [OF finish] obtain k where
    "data = CPIC_CUT_FUNCTION_REQUEST_PREFIX @
       chain_bytes T_ContextEnd ((cut_head sample_cut fn @ fs) @ [fld T_End []]) @ packetTrailer k m" by auto
  moreover have "length (packetTrailer k m) \<le> 10" by (simp add: packetTrailer_def Let_def)
  ultimately show ?thesis
    using fs sample_fields unicode_value [OF fn]
    by (auto simp: cut_head_def sample_cut_def default_release_def field_bytes_def rfc_pro_header_bytes_def
        CPIC_CUT_FUNCTION_REQUEST_PREFIX_def)
qed

lemma cpic_cut_request_content_witness:
  "\<exists>fs n data. encodeCpicCutFunctionRequest sample_cut = Inr data \<and>
     decodeCpicFieldChainPrefix (drop 4 data) T_ContextEnd T_End no_limits = Inr (fs, n) \<and>
     tagged T_TableCompr fs = [[4, 5], [6, 7]]"
proof -
  obtain data where "encodeCpicCutFunctionRequest sample_cut = Inr data"
    using sample_cut_accepted by blast
  with cpic_cut_request_content [OF this] show ?thesis by (auto simp: sample_cut_def)
qed

lemma cpic_request_framing_recognised_witness:
  "\<exists>data framing. encodeCpicCutFunctionRequest sample_cut = Inr data \<and>
     inspectCpicRequestAppcFraming data = Inr framing \<and>
     fr_applicationDataLength framing + fr_finalSapParameterLength framing = length data"
proof -
  obtain data where data: "encodeCpicCutFunctionRequest sample_cut = Inr data"
    using sample_cut_accepted by blast
  then have "is_encoded_request data" by (auto simp: is_encoded_request_def)
  from cpic_request_framing_recognised [OF this] data show ?thesis by blast
qed

end
