(* ===== verification/DirectWrite.thy ===== *)
theory DirectWrite
  imports AppcSession
begin

text \<open>
  Writing an outgoing plan, \<open>writeOutgoingAppcDataPlan\<close> of \<open>src/client/direct-cpic-session.ts\<close>:
  everything is checked and encoded before the first byte goes out, then one record is sent
  at a time, each synchronous barrier waits for its acknowledgement, and any failure closes
  the transport. The transport is a parameter: whether its send of the n-th record settles,
  and what it receives after it.
\<close>

record transport =
  tr_hasReceive :: bool
  tr_send :: "nat \<Rightarrow> bool"
  tr_receive :: "nat \<Rightarrow> bytes option"

datatype transmission = Partial | Unknown

text \<open>How a write ends: rejected before anything is sent, failed with the known transmission
  state, or complete.\<close>

datatype write_end = Rejected js_error | WriteFailed transmission | Written

fun plan_order_loop :: "appc_fragment \<Rightarrow> nat \<Rightarrow> nat \<Rightarrow> appc_fragment list \<Rightarrow> int \<Rightarrow> int result" where
  "plan_order_loop first count index [] dataLength = Inr dataLength"
| "plan_order_loop first count index (fragment # rest) dataLength =
    (if f_fragmentIndex fragment \<noteq> int index \<or> f_fragmentCount fragment \<noteq> int count
     then Inl (RangeError ''outgoing APPC plan fragment order is inconsistent'')
     else if in_sequenceNumber fragment \<noteq> in_sequenceNumber first \<or>
        f_communicationIndex fragment \<noteq> f_communicationIndex first \<or>
        f_connectionIndex fragment \<noteq> f_connectionIndex first \<or>
        f_messageApplicationDataLength fragment \<noteq> f_messageApplicationDataLength first \<or>
        in_conversationId fragment \<noteq> in_conversationId first
     then Inl (RangeError ''outgoing APPC plan identity changed between fragments'')
     else let dataLength = dataLength + int (length (f_applicationData fragment)) in
     if \<not> is_safe_integer dataLength
     then Inl (RangeError ''outgoing APPC plan application length is unsafe'')
     else plan_order_loop first count (index + 1) rest dataLength)"

definition validateOutgoingPlanOrder :: "appc_fragment list \<Rightarrow> unit result" where
  "validateOutgoingPlanOrder fragments =
    (case fragments of
       [] \<Rightarrow> Inl (RangeError ''outgoing APPC plan must contain at least one fragment'')
     | first # _ \<Rightarrow>
       if DEFAULT_MAX_APPC_MESSAGE_FRAGMENTS < int (length fragments)
       then Inl (RangeError ''outgoing APPC plan fragment count exceeds limit'')
       else rbind (plan_order_loop first (length fragments) 0 fragments 0) (\<lambda>dataLength.
         if dataLength \<noteq> f_messageApplicationDataLength first
         then Inl (RangeError ''outgoing APPC plan application length is inconsistent'')
         else Inr ()))"

record prepared =
  st_record :: bytes
  st_functionCode :: nat
  st_isFinal :: bool
  st_conversationId :: bytes
  st_barrierConnectionIndex :: "nat option"

definition prepare_step :: "appc_fragment \<Rightarrow> prepared result" where
  "prepare_step fragment =
     rbind (encodeOutgoingAppcDataFragment fragment) (\<lambda>rec.
     rbind (decodeAppcHeader rec) (\<lambda>header.
     rbind (if h_functionCode header = F_SendData
            then rbind (decodeAppcAsyncDataInfo (slice 48 32 rec)) (\<lambda>b. Inr (Some (d_connectionIndex b)))
            else Inr None) (\<lambda>barrier.
     Inr \<lparr>st_record = rec, st_functionCode = h_functionCode header,
          st_isFinal = (h_functionCode header = F_SapSend \<or> h_functionCode header = F_Receive),
          st_conversationId = h_conversationId header, st_barrierConnectionIndex = barrier\<rparr>)))"

text \<open>One step of the sending loop: the state machine it leaves, whether the record was handed
  to the transport, and whether the step succeeded.\<close>

definition write_step :: "transport \<Rightarrow> nat \<Rightarrow> prepared \<Rightarrow> setup_state \<Rightarrow> bool \<times> bool \<times> setup_state" where
  "write_step tr index step setup =
    (case sent setup (st_functionCode step) (st_isFinal step) of
       (Inl _, s) \<Rightarrow> (False, False, s)
     | (Inr _, s) \<Rightarrow>
         if \<not> tr_send tr index then (False, True, s)
         else if st_functionCode step \<noteq> F_SendData then (True, True, s)
         else case tr_receive tr index of
           None \<Rightarrow> (False, True, s)
         | Some acknowledgement \<Rightarrow>
             case decodeAppcSynchronousSendAcknowledgement acknowledgement of
               Inl _ \<Rightarrow> (False, True, s)
             | Inr decoded \<Rightarrow>
                 if h_conversationId (a_header decoded) \<noteq> st_conversationId step \<or>
                    Some (a_connectionIndex decoded) \<noteq> st_barrierConnectionIndex step
                 then (False, True, s)
                 else case received s acknowledgement of
                   (Inl _, s') \<Rightarrow> (False, True, s')
                 | (Inr _, s') \<Rightarrow> (True, True, s'))"

text \<open>The loop; it returns the end, the state machine, the records handed over in order, and
  whether the transport was closed.\<close>

fun write_loop :: "transport \<Rightarrow> nat \<Rightarrow> prepared list \<Rightarrow> setup_state \<Rightarrow> bytes list
    \<Rightarrow> write_end \<times> setup_state \<times> bytes list \<times> bool" where
  "write_loop tr index [] setup log = (Written, setup, log, False)"
| "write_loop tr index (step # steps) setup log =
    (case write_step tr index step setup of (ok, handed, s) \<Rightarrow>
     let log = (if handed then log @ [st_record step] else log) in
     if ok then write_loop tr (index + 1) steps s log
     else (WriteFailed (if index = 0 then Unknown else Partial), s, log, True))"

definition prepare_plan :: "transport \<Rightarrow> setup_state \<Rightarrow> appc_fragment list \<Rightarrow> int \<Rightarrow> prepared list result" where
  "prepare_plan tr setup fragments barrierTimeoutMs =
    (let fragmentCount = int (length fragments) in
     if \<not> is_safe_integer fragmentCount
     then Inl (RangeError ''outgoing APPC plan fragment count is unsafe'')
     else if fragmentCount < 1
     then Inl (RangeError ''outgoing APPC plan must contain at least one fragment'')
     else if DEFAULT_MAX_APPC_MESSAGE_FRAGMENTS < fragmentCount
     then Inl (RangeError ''outgoing APPC plan fragment count exceeds limit'')
     else
     rbind (map_result snapshotOutgoingAppcDataFragment fragments) (\<lambda>snapshot.
     rbind (validateOutgoingPlanOrder snapshot) (\<lambda>_.
     if \<not> is_safe_integer barrierTimeoutMs \<or> barrierTimeoutMs < 0 \<or> 0x7fffffff < barrierTimeoutMs
     then Inl (RangeError ''barrierTimeoutMs must be an integer in 0..2147483647'')
     else rbind (map_result prepare_step snapshot) (\<lambda>steps.
     if list_ex (\<lambda>st. st_functionCode st = F_SendData) steps \<and> \<not> tr_hasReceive tr
     then Inl (TypeError ''outgoing APPC transport needs receive for synchronous streaming barriers'')
     else if setup \<noteq> Ready
     then Inl (PlainError ''cannot start an outgoing APPC message while client is not ready'')
     else Inr steps))))"

definition writeOutgoingAppcDataPlan :: "transport \<Rightarrow> setup_state \<Rightarrow> appc_fragment list \<Rightarrow> int
    \<Rightarrow> write_end \<times> setup_state \<times> bytes list \<times> bool" where
  "writeOutgoingAppcDataPlan tr setup fragments barrierTimeoutMs =
    (case prepare_plan tr setup fragments barrierTimeoutMs of
       Inl e \<Rightarrow> (Rejected e, setup, [], False)
     | Inr steps \<Rightarrow> write_loop tr 0 steps setup [])"

section \<open>Each record at most once\<close>

lemma write_loop_log:
  assumes "write_loop tr index steps su log = (r, s, out, closed)"
  shows "\<exists>n \<le> length steps. out = log @ map st_record (take n steps) \<and>
    (r = Written \<longrightarrow> n = length steps \<and> \<not> closed) \<and> (\<forall>e. r \<noteq> Rejected e) \<and>
    (r \<noteq> Written \<longrightarrow> closed) \<and>
    (r = WriteFailed Unknown \<longrightarrow> index = 0 \<and> n \<le> 1) \<and>
    (r = WriteFailed Partial \<longrightarrow> 1 \<le> index + n)"
  using assms
proof (induction steps arbitrary: index su log)
  case Nil
  then show ?case by auto
next
  case (Cons st steps)
  obtain ok handed s1 where w: "write_step tr index st su = (ok, handed, s1)" by (metis prod_cases3)
  show ?case
  proof (cases ok)
    case False
    with Cons.prems w show ?thesis
      by (intro exI [of _ "if handed then 1 else 0"]) (auto split: if_splits)
  next
    case True
    then have handed using w by (auto simp: write_step_def split: prod.splits sum.splits if_splits option.splits)
    with Cons.prems w True
    have "write_loop tr (index + 1) steps s1 (log @ [st_record st]) = (r, s, out, closed)" by simp
    from Cons.IH [OF this] obtain n where "n \<le> length steps"
      "out = (log @ [st_record st]) @ map st_record (take n steps)"
      "r = Written \<longrightarrow> n = length steps \<and> \<not> closed" "\<forall>e. r \<noteq> Rejected e" "r \<noteq> Written \<longrightarrow> closed"
      "r \<noteq> WriteFailed Unknown" by auto
    then show ?thesis by (intro exI [of _ "Suc n"]) auto
  qed
qed

lemma prepare_step_record: "prepare_step f = Inr st \<Longrightarrow> encodeOutgoingAppcDataFragment f = Inr (st_record st)"
  by (auto simp: prepare_step_def)

lemma snapshot_same: "snapshotOutgoingAppcDataFragment f = Inr g \<Longrightarrow> g = f"
  by (auto simp: snapshotOutgoingAppcDataFragment_def invalidOutgoingFragment_def split: if_splits)

lemma map_snapshot_same: "map_result snapshotOutgoingAppcDataFragment fs = Inr gs \<Longrightarrow> gs = fs"
  by (induction fs arbitrary: gs) (auto dest: snapshot_same)

lemma map_prepare_records:
  "map_result prepare_step fs = Inr steps \<Longrightarrow>
     map_result encodeOutgoingAppcDataFragment fs = Inr (map st_record steps)"
  by (induction fs arbitrary: steps) (auto dest: prepare_step_record)

lemma prepare_plan_steps:
  assumes "prepare_plan tr setup fragments t = Inr steps"
  shows "map_result encodeOutgoingAppcDataFragment fragments = Inr (map st_record steps)"
proof -
  from assms have "map_result prepare_step fragments = Inr steps"
    by (auto simp: prepare_plan_def Let_def dest!: map_snapshot_same split: if_splits)
  then show ?thesis by (rule map_prepare_records)
qed

text \<open>At most once, in order: whatever the transport does, a write hands over a prefix of the
  plan's encoded records, each once; nothing at all when it is rejected; all of them when it
  completes. A failed write closed the transport, reports \<open>Unknown\<close> only if the first record
  failed and \<open>Partial\<close> only after the first record went out.\<close>

theorem direct_write_at_most_once:
  assumes "writeOutgoingAppcDataPlan tr setup fragments t = (r, s, log, closed)"
  shows "(case r of
      Rejected _ \<Rightarrow> log = [] \<and> s = setup \<and> \<not> closed
    | Written \<Rightarrow> map_result encodeOutgoingAppcDataFragment fragments = Inr log \<and> \<not> closed
    | WriteFailed k \<Rightarrow> closed \<and> (\<exists>records n. map_result encodeOutgoingAppcDataFragment fragments = Inr records \<and>
        log = take n records \<and> (k = Unknown \<longrightarrow> n \<le> 1) \<and> (k = Partial \<longrightarrow> 1 \<le> n)))"
proof (cases "prepare_plan tr setup fragments t")
  case (Inl e)
  with assms show ?thesis by (auto simp: writeOutgoingAppcDataPlan_def)
next
  case (Inr steps)
  with assms have "write_loop tr 0 steps setup [] = (r, s, log, closed)"
    by (simp add: writeOutgoingAppcDataPlan_def)
  from write_loop_log [OF this] obtain n where n: "n \<le> length steps" "log = map st_record (take n steps)"
    "r = Written \<longrightarrow> n = length steps \<and> \<not> closed" "\<forall>e. r \<noteq> Rejected e" "r \<noteq> Written \<longrightarrow> closed"
    "r = WriteFailed Unknown \<longrightarrow> n \<le> 1" "r = WriteFailed Partial \<longrightarrow> 1 \<le> n" by auto
  then show ?thesis
    using prepare_plan_steps [OF Inr] by (cases r) (auto simp: take_map intro!: exI [of _ n])
qed

section \<open>A conforming peer\<close>

text \<open>The acknowledgement a peer sends for a barrier of this conversation.\<close>

definition ack_header :: "bytes \<Rightarrow> appc_header" where
  "ack_header cid = \<lparr>h_protocolVersion = 6, h_functionCode = F_SendData, h_protocol = 2, h_mode = 0,
     h_uid = 0xffff, h_gatewayId = 0, h_errorLength = 0, h_info2 = 0, h_traceLevel = 0, h_time = 0,
     h_info3 = 0, h_timeout = 0, h_info4 = 2, h_sequenceNumber = 0, h_sapParameterLength = 0,
     h_padding = 0, h_info = 1, h_vector = 0, h_appcReturnCode = 0, h_sapReturnCode = 0,
     h_conversationId = cid\<rparr>"

definition ack_bytes :: "bytes \<Rightarrow> nat \<Rightarrow> bytes" where
  "ack_bytes cid connectionIndex = header_bytes (ack_header cid) @ replicate 30 0 @ be_encode 2 connectionIndex"

lemma ack_bytes_decodes:
  assumes "length cid = 8" and "cx < 65536"
  shows "decodeAppcHeader (ack_bytes cid cx) = Inr (ack_header cid)"
    and "length (ack_bytes cid cx) = 80"
    and "decodeAppcSynchronousSendAcknowledgement (ack_bytes cid cx) =
      Inr \<lparr>a_header = ack_header cid, a_connectionIndex = cx\<rparr>"
proof -
  have "header_fits (ack_header cid)"
    using assms by (simp add: header_fits_def ack_header_def APPC_PROTOCOL_VERSION_def)
  then show header: "decodeAppcHeader (ack_bytes cid cx) = Inr (ack_header cid)"
    unfolding ack_bytes_def by (rule decodeAppcHeader_header)
  have len: "length (header_bytes (ack_header cid)) = 48"
    using assms by (simp add: ack_header_def)
  then show len80: "length (ack_bytes cid cx) = 80" by (simp add: ack_bytes_def)
  have "slice 48 32 (ack_bytes cid cx) = replicate 30 0 @ be_encode 2 cx"
    using len by (simp add: slice_def ack_bytes_def)
  then show "decodeAppcSynchronousSendAcknowledgement (ack_bytes cid cx) =
      Inr \<lparr>a_header = ack_header cid, a_connectionIndex = cx\<rparr>"
    using header len80 assms(2)
    by (simp add: decodeAppcSynchronousSendAcknowledgement_def appc_lengths
        decodeAppcIncomingDataOperationInfo_def Let_def list_ex_iff)
      (simp add: slice_def be_decode_zeros ack_header_canonical_def ack_header_def)
qed

lemma received_ack:
  assumes "length cid = 8" and "cx < 65536"
  shows "received SendBarrierPending (ack_bytes cid cx) = (Inr Accepted, SendContinuation)"
  using ack_bytes_decodes [OF assms]
  by (simp add: received_def APPC_RECORD_HEADER_LENGTH_def ack_header_def received_allowed_def)

section \<open>A plan goes through\<close>

lemma plan_order_loop_ok:
  assumes "\<And>j. j < length fs \<Longrightarrow> f_fragmentIndex (fs ! j) = int (index + j) \<and> f_fragmentCount (fs ! j) = int count \<and>
      in_sequenceNumber (fs ! j) = in_sequenceNumber first \<and>
      f_communicationIndex (fs ! j) = f_communicationIndex first \<and>
      f_connectionIndex (fs ! j) = f_connectionIndex first \<and>
      f_messageApplicationDataLength (fs ! j) = f_messageApplicationDataLength first \<and>
      in_conversationId (fs ! j) = in_conversationId first"
    and "0 \<le> dataLength" and "dataLength + int (length (concat (map f_applicationData fs))) \<le> max_safe_integer"
  shows "plan_order_loop first count index fs dataLength =
    Inr (dataLength + int (length (concat (map f_applicationData fs))))"
  using assms
proof (induction fs arbitrary: index dataLength)
  case Nil
  then show ?case by simp
next
  case (Cons f fs)
  have "is_safe_integer (dataLength + int (length (f_applicationData f)))"
    using Cons.prems(2,3) by (simp add: is_safe_integer_def max_safe_integer_def)
  moreover have "plan_order_loop first count (index + 1) fs (dataLength + int (length (f_applicationData f))) =
      Inr (dataLength + int (length (f_applicationData f)) + int (length (concat (map f_applicationData fs))))"
  proof (rule Cons.IH, goal_cases)
    case (1 j)
    with Cons.prems(1) [of "Suc j"] show ?case by simp
  qed (use Cons.prems in auto)
  ultimately show ?case using Cons.prems(1) [of 0] by simp
qed

lemma plan_steps_prepare:
  assumes "if single then length (p_applicationData input) \<le> 28000 else 28000 < length (p_applicationData input)"
    and "if single then validateFinalSapParameters ps (int (length (p_applicationData input))) = Inr () else ps = []"
    and "int (length (p_applicationData input)) \<le> 0x7fffffff"
    and "length cid = 8" and "input_fits input" and "index_fits input"
    and "m = plan_count (length (p_applicationData input)) single"
    and "int m \<le> max_safe_integer" and "i < m"
  shows "\<exists>st. prepare_step (plan_fragment input cid ps m i) = Inr st \<and>
    st_functionCode st = s_functionCode (outgoingFragmentSemantics (int i) (int m)) \<and>
    st_isFinal st = (i = m - 1) \<and> st_conversationId st = cid \<and>
    st_barrierConnectionIndex st = (if st_functionCode st = F_SendData then Some (nat (p_connectionIndex input)) else None)"
proof -
  let ?f = "plan_fragment input cid ps m i"
  from plan_fragment_encodes [OF assms refl] obtain out op where out: "encodeOutgoingAppcDataFragment ?f = Inr out"
    and op: "fragment_operation_info ?f = Inr op"
    and rec: "encodeAppcRecord (f_functionCode ?f) ?f op (f_sapParameterLength ?f)
      [f_applicationData ?f, f_finalSapParameters ?f] = Inr out" by blast
  define h where "h = header_of (f_functionCode ?f) ?f (nat (f_sapParameterLength ?f))"
  have dec: "decodeAppcHeader out = Inr h" "slice 48 32 out = op"
    using encodeAppcRecord_sound [OF rec] by (simp_all add: h_def appc_lengths)
  have h: "h_functionCode h = s_functionCode (outgoingFragmentSemantics (int i) (int m))"
      "h_conversationId h = cid" by (simp_all add: h_def header_of_def)
  have async: "decodeAppcAsyncDataInfo op = Inr \<lparr>d_dataLength = length (f_applicationData ?f),
      d_communicationIndex = nat (p_communicationIndex input), d_connectionIndex = nat (p_connectionIndex input)\<rparr>"
    if "h_functionCode h = F_SendData"
    using op that decodeAppcAsyncDataInfo_bytes [of "int (length (f_applicationData ?f))"
        "p_communicationIndex input" "p_connectionIndex input"]
    by (auto simp: fragment_operation_info_def outgoingOperationInfo_def encodeAppcAsyncDataInfo_iff h)
  have final: "h_functionCode h = F_SapSend \<or> h_functionCode h = F_Receive \<longleftrightarrow> i = m - 1"
    using plan_semantics(1) [OF assms(9)] assms(9) h by auto
  show ?thesis
    using out dec async final h(2) by (simp add: prepare_step_def h(1) [symmetric] del: rbind_eq_Inr)
qed

lemma snapshots_pass:
  assumes "\<And>f. f \<in> set frags \<Longrightarrow> \<exists>out. encodeOutgoingAppcDataFragment f = Inr out"
  shows "map_result snapshotOutgoingAppcDataFragment frags = Inr frags"
  using assms
proof (induction frags)
  case Nil
  then show ?case by simp
next
  case (Cons f frags)
  from Cons.prems [of f] obtain g where g: "snapshotOutgoingAppcDataFragment f = Inr g"
    by (auto simp: encodeOutgoingAppcDataFragment_def)
  with snapshot_same [OF g] Cons show ?case by simp
qed

lemma plan_order_valid:
  assumes "if single then length (p_applicationData input) \<le> 28000 else 28000 < length (p_applicationData input)"
    and "int (length (p_applicationData input)) \<le> 0x7fffffff"
    and "m = plan_count (length (p_applicationData input)) single" and "int m \<le> 65536"
    and "frags = map (plan_fragment input cid ps m) [0..<m]"
  shows "validateOutgoingPlanOrder frags = Inr ()"
proof -
  have m: "0 < m" "length frags = m" using assms(3,5) by (simp_all add: plan_count_def)
  then obtain first rest where fr: "frags = first # rest" by (cases frags) auto
  then have first: "first = plan_fragment input cid ps m 0" using assms(5) m(1) by (metis nth_Cons_0 nth_map_upt add_0 minus_nat.diff_0)
  have "concat (map f_applicationData frags) = p_applicationData input"
    using plan_data_concat [OF assms(1,3)] assms(5) by simp
  then have "plan_order_loop first (length frags) 0 frags 0 = Inr (int (length (p_applicationData input)))"
    using plan_order_loop_ok [of frags 0 "length frags" first 0] assms(2,5) m first
    by (simp add: max_safe_integer_def) (simp add: plan_fragment_def Let_def)
  then show ?thesis
    using fr first assms(4) m
    by (simp add: validateOutgoingPlanOrder_def plan_limits del: plan_order_loop.simps)
qed

text \<open>The machine before each step of a plan of \<open>m\<close> fragments.\<close>

definition plan_state :: "nat \<Rightarrow> nat \<Rightarrow> setup_state" where
  "plan_state m i = (if i = m then ResponsePending else if i = 0 then Ready else SendContinuation)"

lemma write_loop_states:
  assumes "\<And>i. i < length steps \<Longrightarrow> write_step tr (k + i) (steps ! i) (\<sigma> (k + i)) = (True, True, \<sigma> (k + i + 1))"
  shows "write_loop tr k steps (\<sigma> k) log = (Written, \<sigma> (k + length steps), log @ map st_record steps, False)"
  using assms
proof (induction steps arbitrary: k log)
  case Nil
  then show ?case by simp
next
  case (Cons st steps)
  have "write_loop tr (k + 1) steps (\<sigma> (k + 1)) (log @ [st_record st]) =
      (Written, \<sigma> (k + 1 + length steps), (log @ [st_record st]) @ map st_record steps, False)"
  proof (rule Cons.IH)
    fix i assume "i < length steps"
    with Cons.prems [of "Suc i"]
    show "write_step tr (k + 1 + i) (steps ! i) (\<sigma> (k + 1 + i)) = (True, True, \<sigma> (k + 1 + i + 1))"
      by simp
  qed
  with Cons.prems [of 0] show ?case by simp
qed

lemma plan_step_state:
  assumes "i < m" and "st_functionCode st = s_functionCode (outgoingFragmentSemantics (int i) (int m))"
    and "st_isFinal st = (i = m - 1)" and "st_conversationId st = cid" and "length cid = 8" and "cx < 65536"
    and "st_barrierConnectionIndex st = (if st_functionCode st = F_SendData then Some cx else None)"
    and "tr_send tr i" and "st_functionCode st = F_SendData \<Longrightarrow> tr_receive tr i = Some (ack_bytes cid cx)"
  shows "write_step tr i st (plan_state m i) = (True, True, plan_state m (i + 1))"
proof -
  note code = plan_semantics(1) [OF assms(1), folded assms(2)]
  consider "m = 1" "st_functionCode st = F_SapSend" | "m \<noteq> 1" "i = m - 1" "st_functionCode st = F_Receive"
    | "i < m - 1" "0 < i" "st_functionCode st = F_SendData" | "i < m - 1" "st_functionCode st = F_AsyncSendData"
    using code assms(1) by (cases "m = 1"; cases "i = m - 1"; cases "0 < i \<and> 21 dvd i") auto
  then show ?thesis
  proof cases
    case 3
    then have "tr_receive tr i = Some (ack_bytes cid cx)" using assms(9) by simp
    with 3 show ?thesis
      using assms ack_bytes_decodes(3) [OF assms(5,6)] received_ack [OF assms(5,6)]
      by (simp add: write_step_def plan_state_def sent_def sent_allowed_def sent_state_def)
        (simp add: ack_header_def)
  qed (use assms in \<open>auto simp: write_step_def plan_state_def sent_def sent_allowed_def sent_state_def\<close>)
qed

text \<open>An accepted plan is accepted by the writer, step by step.\<close>

lemma plan_prepared:
  assumes "planOutgoingAppcDataFragments input opts = Inr frags" and "int (length frags) \<le> 65536"
    and "0 \<le> t" and "t \<le> 0x7fffffff" and "tr_hasReceive tr"
  shows "\<exists>steps. prepare_plan tr Ready frags t = Inr steps \<and> length steps = length frags \<and> index_fits input \<and>
    length (or_else (in_conversationId input) (replicate 8 0)) = 8 \<and>
    (\<forall>i < length frags.
       st_functionCode (steps ! i) = s_functionCode (outgoingFragmentSemantics (int i) (int (length frags))) \<and>
       f_functionCode (frags ! i) = st_functionCode (steps ! i) \<and> st_isFinal (steps ! i) = (i = length frags - 1) \<and>
       st_conversationId (steps ! i) = or_else (in_conversationId input) (replicate 8 0) \<and>
       st_barrierConnectionIndex (steps ! i) = (if st_functionCode (steps ! i) = F_SendData
         then Some (nat (p_connectionIndex input)) else None))"
proof -
  define cid where "cid = or_else (in_conversationId input) (replicate 8 0)"
  from plan_inversion [OF assms(1)] obtain single ps where shape:
    "if single then length (p_applicationData input) \<le> 28000 else 28000 < length (p_applicationData input)"
    "if single then validateFinalSapParameters ps (int (length (p_applicationData input))) = Inr () else ps = []"
    "int (length (p_applicationData input)) \<le> 0x7fffffff"
    "length cid = 8" "input_fits input" "index_fits input"
    and frags: "frags = map (plan_fragment input cid ps
       (plan_count (length (p_applicationData input)) single))
       [0..<plan_count (length (p_applicationData input)) single]"
    and safe: "int (plan_count (length (p_applicationData input)) single) \<le> max_safe_integer"
    unfolding cid_def by metis
  define m where "m = plan_count (length (p_applicationData input)) single"
  have m: "0 < m" "length frags = m" by (simp_all add: m_def plan_count_def frags)
  have frag: "frags ! i = plan_fragment input cid ps m i" if "i < m" for i
    using that by (simp add: frags m_def)
  note prepare = plan_steps_prepare [OF shape refl safe, folded m_def]
  have "\<exists>st. prepare_step f = Inr st" if "f \<in> set frags" for f
    using that prepare frag m by (metis in_set_conv_nth)
  then obtain steps where steps: "map_result prepare_step frags = Inr steps" using map_result_total by blast
  have "map_result snapshotOutgoingAppcDataFragment frags = Inr frags"
    using prepare frag m by (intro snapshots_pass) (metis in_set_conv_nth prepare_step_record)
  moreover have "validateOutgoingPlanOrder frags = Inr ()"
    using frags assms(2) m unfolding m_def by (intro plan_order_valid [OF shape(1,3)]) auto
  moreover have "is_safe_integer t" "is_safe_integer (int (length frags))"
    using assms(2-4) by (auto simp: is_safe_integer_def max_safe_integer_def)
  ultimately have "prepare_plan tr Ready frags t = Inr steps"
    using steps m assms(2-5) by (simp add: prepare_plan_def plan_limits)
  then show ?thesis
    using map_result_length [OF steps] map_result_nth [OF steps] prepare frag m shape(4,6)
    unfolding cid_def [symmetric] by (intro exI [of _ steps]) fastforce
qed

lemma planned_write_completes:
  assumes "planOutgoingAppcDataFragments input opts = Inr frags" and "int (length frags) \<le> 65536"
    and "0 \<le> t" and "t \<le> 0x7fffffff"
    and "tr_hasReceive tr" and "\<And>i. i < length frags \<Longrightarrow> tr_send tr i"
    and "\<And>i. i < length frags \<Longrightarrow> f_functionCode (frags ! i) = F_SendData \<Longrightarrow>
      tr_receive tr i = Some (ack_bytes (or_else (in_conversationId input) (replicate 8 0))
        (nat (p_connectionIndex input)))"
  shows "\<exists>records. map_result encodeOutgoingAppcDataFragment frags = Inr records \<and>
    writeOutgoingAppcDataPlan tr Ready frags t = (Written, ResponsePending, records, False)"
proof -
  define m where "m = length frags"
  from plan_prepared [OF assms(1-5)] obtain steps where prep: "prepare_plan tr Ready frags t = Inr steps"
    and len: "length steps = m" and fits: "index_fits input"
      "length (or_else (in_conversationId input) (replicate 8 0)) = 8"
    and st: "\<forall>i < m. st_functionCode (steps ! i) = s_functionCode (outgoingFragmentSemantics (int i) (int m)) \<and>
       f_functionCode (frags ! i) = st_functionCode (steps ! i) \<and> st_isFinal (steps ! i) = (i = m - 1) \<and>
       st_conversationId (steps ! i) = or_else (in_conversationId input) (replicate 8 0) \<and>
       st_barrierConnectionIndex (steps ! i) = (if st_functionCode (steps ! i) = F_SendData
         then Some (nat (p_connectionIndex input)) else None)" unfolding m_def by blast
  have "0 < m" using prep by (auto simp: prepare_plan_def m_def Let_def split: if_splits)
  moreover have "write_loop tr 0 steps (plan_state m 0) [] =
      (Written, plan_state m (0 + length steps), [] @ map st_record steps, False)"
  proof (rule write_loop_states)
    fix i assume "i < length steps"
    then have i: "i < m" using len by simp
    have "write_step tr i (steps ! i) (plan_state m i) = (True, True, plan_state m (i + 1))"
      using st fits i assms(6,7) [of i] m_def
      by (intro plan_step_state [OF i, where cid = "or_else (in_conversationId input) (replicate 8 0)"
            and cx = "nat (p_connectionIndex input)"]) (auto simp: index_fits_def between_def nat_less_iff)
    then show "write_step tr (0 + i) (steps ! i) (plan_state m (0 + i)) = (True, True, plan_state m (0 + i + 1))"
      by simp
  qed
  ultimately show ?thesis
    using prepare_plan_steps [OF prep] prep len by (simp add: writeOutgoingAppcDataPlan_def plan_state_def)
qed

text \<open>A plan goes through: when every send settles and the peer acknowledges each barrier of
  the plan for this conversation, writing an accepted plan from the ready state hands over
  all its records in order, leaves the machine waiting for the response, and does not close
  the transport.\<close>

theorem direct_write_completes:
  assumes "planOutgoingAppcDataFragments input opts = Inr frags" and "int (length frags) \<le> 65536"
    and "0 \<le> t" and "t \<le> 0x7fffffff"
    and "tr_hasReceive tr" and "\<And>i. i < length frags \<Longrightarrow> tr_send tr i"
    and "\<And>i. i < length frags \<Longrightarrow> f_functionCode (frags ! i) = F_SendData \<Longrightarrow>
      tr_receive tr i = Some (ack_bytes (or_else (in_conversationId input) (replicate 8 0))
        (nat (p_connectionIndex input)))"
  shows "\<exists>records. map_result encodeOutgoingAppcDataFragment frags = Inr records \<and>
    writeOutgoingAppcDataPlan tr Ready frags t = (Written, ResponsePending, records, False)"
  using assms by (rule planned_write_completes)

definition sample_transport :: "(nat \<Rightarrow> bool) \<Rightarrow> transport" where
  "sample_transport ok = \<lparr>tr_hasReceive = True, tr_send = ok, tr_receive = (\<lambda>_. Some (ack_bytes (replicate 8 0) 2))\<rparr>"

lemma direct_write_completes_witness:
  "\<exists>frags records. planOutgoingAppcDataFragments (sample_plan_input 600000) streaming = Inr frags \<and>
     map_result encodeOutgoingAppcDataFragment frags = Inr records \<and> length records = 23 \<and>
     writeOutgoingAppcDataPlan (sample_transport (\<lambda>_. True)) Ready frags 30000 =
       (Written, ResponsePending, records, False)"
proof -
  obtain frags where frags: "planOutgoingAppcDataFragments (sample_plan_input 600000) streaming = Inr frags"
    "length frags = 23" using sample_plan_accepted [of 600000] by (auto simp: plan_count_def)
  with direct_write_completes [OF frags(1), of 30000 "sample_transport (\<lambda>_. True)"]
  obtain records where "map_result encodeOutgoingAppcDataFragment frags = Inr records"
    "writeOutgoingAppcDataPlan (sample_transport (\<lambda>_. True)) Ready frags 30000 =
       (Written, ResponsePending, records, False)"
    by (auto simp: sample_transport_def sample_plan_defs)
  with frags map_result_length show ?thesis by fastforce
qed

lemma direct_write_at_most_once_witness:
  "\<exists>frags log closed records. planOutgoingAppcDataFragments (sample_plan_input 30000) streaming = Inr frags \<and>
     writeOutgoingAppcDataPlan (sample_transport (\<lambda>_. False)) Ready frags 30000 =
       (WriteFailed Unknown, SendContinuation, log, closed) \<and> closed \<and>
     map_result encodeOutgoingAppcDataFragment frags = Inr records \<and> (\<exists>n \<le> 1. log = take n records)"
proof -
  let ?tr = "sample_transport (\<lambda>_. False)"
  obtain frags where frags: "planOutgoingAppcDataFragments (sample_plan_input 30000) streaming = Inr frags"
    "length frags = 3" using sample_plan_accepted [of 30000] by (auto simp: plan_count_def)
  with plan_prepared [OF frags(1), of 30000 ?tr] obtain steps
    where steps: "prepare_plan ?tr Ready frags 30000 = Inr steps" "length steps = 3"
      "st_functionCode (steps ! 0) = F_AsyncSendData" "\<not> st_isFinal (steps ! 0)"
    by (auto simp: sample_transport_def outgoingFragmentSemantics_def plan_limits Let_def)
  then obtain st rest where "steps = st # rest" by (cases steps) auto
  with steps have w: "writeOutgoingAppcDataPlan ?tr Ready frags 30000 =
      (WriteFailed Unknown, SendContinuation, [st_record st], True)"
    by (simp add: writeOutgoingAppcDataPlan_def write_step_def sent_def sent_allowed_def sent_state_def
        sample_transport_def)
  from direct_write_at_most_once [OF w] frags(1) w show ?thesis by auto
qed

end
