(* ===== verification/DirectRequest.thy ===== *)
theory DirectRequest
  imports CpicRequest DirectWrite
begin

text \<open>
  How a direct session of \<open>src/client/direct-cpic-session.ts\<close> turns an encoded RFC request into
  APPC fragments: \<open>#planOutgoingRequest\<close> bounds the request, inspects its trailer, and gives
  the application data and the final SAP parameters to the planner.
\<close>

record direct_session =
  ds_conversationId :: bytes
  ds_connectionIndex :: int
  ds_cpicStreaming :: string

definition request_plan_input :: "direct_session \<Rightarrow> bytes \<Rightarrow> cpic_framing \<Rightarrow> appc_plan_input" where
  "request_plan_input session request framing = appc_input.extend (no_input\<lparr>in_conversationId := Some (ds_conversationId session)\<rparr>)
     \<lparr>p_applicationData = take (fr_applicationDataLength framing) request,
      p_finalSapParameters = (if fr_finalSapParameterLength framing = 0 then None
        else Some (drop (fr_applicationDataLength framing) request)),
      p_communicationIndex = 0xffff, p_connectionIndex = ds_connectionIndex session\<rparr>"

definition session_plan_options :: "direct_session \<Rightarrow> appc_plan_options" where
  "session_plan_options session = \<lparr>po_maxApplicationDataLength = None, po_maxFragments = None,
     po_cpicStreaming = Some (ds_cpicStreaming session)\<rparr>"

definition planOutgoingRequest :: "direct_session \<Rightarrow> bytes \<Rightarrow> appc_fragment list result" where
  "planOutgoingRequest session data =
    (if DEFAULT_MAX_APPC_OUTGOING_MESSAGE_LENGTH + int APPC_FINAL_SAP_PARAMETER_LENGTH < int (length data)
     then Inl (RangeError ''RFC request exceeds the direct CPIC request envelope'')
     else rbind (inspectCpicRequestAppcFraming data) (\<lambda>framing.
       planOutgoingAppcDataFragments (request_plan_input session data framing) (session_plan_options session)))"

section \<open>Nothing of a request is lost\<close>

lemma request_plan_input_simps [simp]:
  "p_applicationData (request_plan_input s data fr) = take (fr_applicationDataLength fr) data"
  "p_finalSapParameters (request_plan_input s data fr) = (if fr_finalSapParameterLength fr = 0 then None
     else Some (drop (fr_applicationDataLength fr) data))"
  "p_communicationIndex (request_plan_input s data fr) = 0xffff"
  "p_connectionIndex (request_plan_input s data fr) = ds_connectionIndex s"
  "in_conversationId (request_plan_input s data fr) = Some (ds_conversationId s)"
  by (simp_all add: request_plan_input_def appc_input.defs no_input_def)

lemma inspected_framing:
  assumes "inspectCpicRequestAppcFraming data = Inr fr"
  shows "(fr_mode fr = CompactFraming \<and> fr_finalSapParameterLength fr = 8 \<and> fr_applicationDataLength fr + 8 = length data) \<or>
    (fr_mode fr = StreamedFraming \<and> fr_finalSapParameterLength fr = 0 \<and> fr_applicationDataLength fr = length data)"
  using assms by (auto simp: inspectCpicRequestAppcFraming_def Let_def split: if_splits)

text \<open>What each planned fragment carries behind its header.\<close>

definition fragment_payload :: "appc_fragment \<Rightarrow> bytes" where
  "fragment_payload f = f_applicationData f @ f_finalSapParameters f"

lemma planned_payloads:
  assumes "planOutgoingAppcDataFragments input opts = Inr frags"
  shows "concat (map fragment_payload frags) = p_applicationData input @ or_else (p_finalSapParameters input) []"
proof -
  from plan_inversion [OF assms] obtain single ps where
    single: "single \<longleftrightarrow> p_finalSapParameters input \<noteq> None"
    and size: "if single then length (p_applicationData input) \<le> 28000 else 28000 < length (p_applicationData input)"
    and frags: "frags = map (plan_fragment input (or_else (in_conversationId input) (replicate 8 0)) ps
       (plan_count (length (p_applicationData input)) single))
       [0..<plan_count (length (p_applicationData input)) single]" by metis
  note data = plan_data_concat [OF size refl, of "or_else (in_conversationId input) (replicate 8 0)" ps, folded frags]
  note final = plan_final_parameters [OF assms]
  show ?thesis
  proof (cases single)
    case True
    with frags data final show ?thesis by (simp add: plan_count_def fragment_payload_def)
  next
    case False
    with final single have "map fragment_payload frags = map f_applicationData frags"
      by (intro map_cong) (simp_all add: fragment_payload_def)
    with data show ?thesis using False single by (simp del: map_eq_conv)
  qed
qed

text \<open>Nothing of a request is lost or reordered on its way into the APPC fragments: whatever bytes
the caller hands in, if they are planned at all, the slices and the final SAP parameters of the
fragments, one after the other, are exactly these bytes.\<close>

theorem direct_request_preserved:
  assumes "planOutgoingRequest session data = Inr frags"
  shows "concat (map fragment_payload frags) = data"
proof -
  from assms obtain fr where fr: "inspectCpicRequestAppcFraming data = Inr fr"
    and plan: "planOutgoingAppcDataFragments (request_plan_input session data fr) (session_plan_options session) = Inr frags"
    by (auto simp: planOutgoingRequest_def split: if_splits)
  from inspected_framing [OF fr] planned_payloads [OF plan] show ?thesis by auto
qed

section \<open>Every encoded request can be sent\<close>

definition session_ok :: "direct_session \<Rightarrow> bool" where
  "session_ok session \<longleftrightarrow> length (ds_conversationId session) = 8 \<and>
     0 \<le> ds_connectionIndex session \<and> ds_connectionIndex session \<le> 0xffff"

lemma request_fits:
  "session_ok s \<Longrightarrow> input_fits (request_plan_input s data fr) \<and> index_fits (request_plan_input s data fr)"
  by (simp add: session_ok_def input_fits_def index_fits_def request_plan_input_def appc_input.defs no_input_def
      between_def)

lemma session_options:
  "ds_cpicStreaming s \<in> {''enabled'', ''disabled''} \<Longrightarrow> plan_options (session_plan_options s) =
     Inr (1400000, 65536, ds_cpicStreaming s = ''enabled'')"
  by (auto simp: plan_options_def session_plan_options_def plan_limits Let_def is_safe_integer_def max_safe_integer_def)

lemma encoded_request_planned:
  assumes "is_encoded_request data" and "session_ok s" and "length data \<le> 1400000"
    and "ds_cpicStreaming s = ''enabled'' \<or> ds_cpicStreaming s = ''disabled'' \<and> length data \<le> 28000"
  shows "\<exists>frags. planOutgoingRequest s data = Inr frags \<and> length frags \<le> 51"
proof -
  have opts: "plan_options (session_plan_options s) = Inr (1400000, 65536, ds_cpicStreaming s = ''enabled'')"
    using assms(4) by (intro session_options) auto
  show ?thesis
  proof (rule disjE [OF encoded_request_framing [OF assms(1)]], goal_cases)
  case 1
  from 1 obtain body m where short: "length body \<le> 27994"
    and data: "data = (body @ be_encode 2 0xffff @ be_encode 2 0 @ be_encode 2 0xffff) @
      be_encode 2 0 @ be_encode 2 (length body + 6) @ be_encode 4 m"
    and framing: "inspectCpicRequestAppcFraming data = Inr \<lparr>fr_mode = CompactFraming,
      fr_applicationDataLength = length data - 8, fr_finalSapParameterLength = 8\<rparr>" (is "_ = Inr ?fr")
    by auto
  let ?i = "request_plan_input s data ?fr"
  have n: "length data = length body + 14" by (simp add: data)
  then have tail: "drop (length data - 8) data = be_encode 2 0 @ be_encode 2 (length body + 6) @ be_encode 4 m"
    by (simp add: data)
  have "plan_sap_parameters (p_finalSapParameters ?i) (length body + 6) =
      Inr (be_encode 2 0 @ be_encode 2 (length body + 6) @ be_encode 4 m)"
    using short by (simp add: plan_sap_parameters_iff tail validateFinalSapParameters_def plan_limits slice_def)
  with plan_accepts [OF opts, of "length body + 6" ?i True] request_fits [OF assms(2)]
  obtain frags where "planOutgoingAppcDataFragments ?i (session_plan_options s) = Inr frags" "length frags = 1"
    using short n by (auto simp: plan_count_def max_safe_integer_def)
  then show ?case
    using framing assms(3) by (auto simp: planOutgoingRequest_def plan_limits)
next
  case 2
  then obtain body where long: "27994 < length body"
    and data: "data = body @ be_encode 2 0xffff @ be_encode 2 0 @ be_encode 2 0xffff"
    and framing: "inspectCpicRequestAppcFraming data = Inr \<lparr>fr_mode = StreamedFraming,
      fr_applicationDataLength = length data, fr_finalSapParameterLength = 0\<rparr>" (is "_ = Inr ?fr")
    by auto
  let ?i = "request_plan_input s data ?fr"
  have n: "length data = length body + 6" by (simp add: data)
  then have "plan_sap_parameters (p_finalSapParameters ?i) (length data) = Inr []"
    using long by (simp add: plan_sap_parameters_iff)
  moreover have "plan_count (length data) False \<le> 51"
    using assms(3) div_le_mono [of "27999 + length data" 1427999 28000] by (simp add: plan_count_def)
  ultimately obtain frags where "planOutgoingAppcDataFragments ?i (session_plan_options s) = Inr frags"
    "length frags \<le> 51"
    using plan_accepts [OF opts, of "length data" ?i False "[]"] request_fits [OF assms(2)] assms(3,4) long n
    by (auto simp: max_safe_integer_def)
  then show ?case
    using framing assms(3) by (auto simp: planOutgoingRequest_def plan_limits)
  qed
qed

lemma record_payloads:
  assumes "planOutgoingAppcDataFragments input opts = Inr frags"
    and "map_result encodeOutgoingAppcDataFragment frags = Inr records"
  shows "concat (map (drop 80) records) = concat (map fragment_payload frags)"
proof -
  have "map (drop 80) records = map fragment_payload frags"
  proof (rule nth_equalityI)
    show "length (map (drop 80) records) = length (map fragment_payload frags)"
      using map_result_length [OF assms(2)] by simp
    fix i assume "i < length (map (drop 80) records)"
    then have i: "i < length frags" using map_result_length [OF assms(2)] by simp
    then have "frags ! i \<in> set frags" by simp
    from plan_fragment_record [OF assms(1) this] map_result_nth [OF assms(2) i]
    show "map (drop 80) records ! i = map fragment_payload frags ! i"
      using i map_result_length [OF assms(2)] by (simp add: fragment_payload_def APPC_RECORD_HEADER_LENGTH_def)
  qed
  then show ?thesis by simp
qed

text \<open>C7. From an RFC call to the wire: a request the function or CUT encoder produces - of at most 1400000 bytes when
the session has CPIC streaming enabled, of at most 28000 bytes when streaming is disabled, the session's default - is
planned and written by a ready session whose transport settles every send and acknowledges every barrier; the session
then waits for the response with its transport open, and the bodies of the records sent are, in order, the request.\<close>

theorem direct_request_written:
  assumes "is_encoded_request data" and "session_ok s" and "length data \<le> 1400000"
    and "ds_cpicStreaming s = ''enabled'' \<or> ds_cpicStreaming s = ''disabled'' \<and> length data \<le> 28000"
    and "0 \<le> t" and "t \<le> 0x7fffffff" and "tr_hasReceive tr" and "\<And>i. tr_send tr i"
    and "\<And>i. tr_receive tr i = Some (ack_bytes (ds_conversationId s) (nat (ds_connectionIndex s)))"
  shows "\<exists>frags records. planOutgoingRequest s data = Inr frags \<and>
    writeOutgoingAppcDataPlan tr Ready frags t = (Written, ResponsePending, records, False) \<and>
    concat (map (drop 80) records) = data"
proof -
  from encoded_request_planned [OF assms(1-4)] obtain frags where
    frags: "planOutgoingRequest s data = Inr frags" "length frags \<le> 51" by blast
  then obtain fr where fr: "inspectCpicRequestAppcFraming data = Inr fr"
    and plan: "planOutgoingAppcDataFragments (request_plan_input s data fr) (session_plan_options s) = Inr frags"
    by (auto simp: planOutgoingRequest_def split: if_splits)
  from planned_write_completes [OF plan _ assms(5-8)] assms(9) frags(2) obtain records where
    records: "map_result encodeOutgoingAppcDataFragment frags = Inr records"
      "writeOutgoingAppcDataPlan tr Ready frags t = (Written, ResponsePending, records, False)" by auto
  have "concat (map fragment_payload frags) = data"
    using inspected_framing [OF fr] planned_payloads [OF plan] by auto
  with frags(1) records record_payloads [OF plan records(1)] show ?thesis by auto
qed

definition sample_session :: direct_session where
  "sample_session = \<lparr>ds_conversationId = replicate 8 0, ds_connectionIndex = 2, ds_cpicStreaming = ''enabled''\<rparr>"

lemma sample_session_ok: "session_ok sample_session"
  by (simp add: session_ok_def sample_session_def)

lemma sample_request: "\<exists>data. encodeCpicCutFunctionRequest sample_cut = Inr data \<and> is_encoded_request data \<and>
    length data \<le> 200"
  using sample_cut_accepted sample_cut_short by (auto simp: is_encoded_request_def)

lemma direct_request_preserved_witness:
  "\<exists>data frags. encodeCpicCutFunctionRequest sample_cut = Inr data \<and>
     planOutgoingRequest sample_session data = Inr frags \<and> concat (map fragment_payload frags) = data"
proof -
  obtain data where data: "encodeCpicCutFunctionRequest sample_cut = Inr data" "is_encoded_request data"
    "length data \<le> 200" using sample_request by blast
  obtain frags where "planOutgoingRequest sample_session data = Inr frags"
    using encoded_request_planned [OF data(2) sample_session_ok] data(3) by (auto simp: sample_session_def)
  with direct_request_preserved [OF this] data(1) show ?thesis by blast
qed

lemma direct_request_written_witness:
  "\<exists>data frags records. encodeCpicCutFunctionRequest sample_cut = Inr data \<and>
     planOutgoingRequest sample_session data = Inr frags \<and>
     writeOutgoingAppcDataPlan (sample_transport (\<lambda>_. True)) Ready frags 30000 = (Written, ResponsePending, records, False) \<and>
     concat (map (drop 80) records) = data"
proof -
  obtain data where data: "encodeCpicCutFunctionRequest sample_cut = Inr data" "is_encoded_request data"
    "length data \<le> 200" using sample_request by blast
  then show ?thesis
    using direct_request_written [OF data(2) sample_session_ok, of 30000 "sample_transport (\<lambda>_. True)"]
    by (auto simp: sample_session_def sample_transport_def)
qed

end
