(* ===== verification/PoolState.thy ===== *)
theory PoolState
  imports Prelude
begin

text \<open>
  The connection pool of \<open>src/pool/connection-pool-runtime.ts\<close>: its options, its state, and the
  private operations that run without a break. The code is one class whose methods interleave
  at their \<open>await\<close>s; here an object is a number into a heap, a \<open>Set\<close> or \<open>Map\<close> of objects is the
  list of its members in insertion order, and a suspended method is a field of the state. The
  factory, the scheduler and the abort signals are the environment: what they answer arrives as
  an argument. Diagnostics do not touch the state and are left out.
\<close>

section \<open>Options\<close>

record pool_options =
  po_hasValidate :: bool
  po_hasReset :: bool
  po_maxConnections :: int
  po_maxWaiters :: int
  po_acquireTimeoutMs :: int
  po_lifecycleTimeoutMs :: "int option"
  po_shutdownTimeoutMs :: "int option"
  po_lowWater :: "int option"
  po_idleHigh :: "int option"
  po_validateOnCheckout :: "bool option"
  po_resetOnRelease :: "bool option"

record pool_config =
  pc_maxConnections :: nat
  pc_maxWaiters :: nat
  pc_acquireTimeoutMs :: int
  pc_lifecycleTimeoutMs :: int
  pc_shutdownTimeoutMs :: int
  pc_lowWater :: nat
  pc_idleHigh :: nat
  pc_validateOnCheckout :: bool
  pc_resetOnRelease :: bool
  pc_hasReset :: bool

definition MAX_TIMER_MS :: int where
  "MAX_TIMER_MS = 2147483647"

definition MAX_EARLY_TIMEOUT_REARMS :: nat where
  "MAX_EARLY_TIMEOUT_REARMS = 64"

definition pool_integer :: "int \<Rightarrow> int \<Rightarrow> int \<Rightarrow> nat result" where
  "pool_integer value minimum maximum =
    (if \<not> is_safe_integer value \<or> value < minimum \<or> maximum < value
     then Inl (RangeError ''must be an integer in range'') else Inr (nat value))"

definition pool_timeout :: "int \<Rightarrow> int result" where
  "pool_timeout value = (if value < 1 \<or> MAX_TIMER_MS < value
     then Inl (RangeError ''must be finite and in range'') else Inr value)"

definition pool_configure :: "pool_options \<Rightarrow> pool_config result" where
  "pool_configure options =
     rbind (pool_integer (po_maxConnections options) 1 max_safe_integer) (\<lambda>maxConnections.
     rbind (pool_integer (po_maxWaiters options) 1 max_safe_integer) (\<lambda>maxWaiters.
     rbind (pool_timeout (po_acquireTimeoutMs options)) (\<lambda>acquireTimeoutMs.
     rbind (pool_timeout (or_else (po_lifecycleTimeoutMs options) acquireTimeoutMs)) (\<lambda>lifecycleTimeoutMs.
     rbind (pool_timeout (or_else (po_shutdownTimeoutMs options) lifecycleTimeoutMs)) (\<lambda>shutdownTimeoutMs.
     rbind (pool_integer (or_else (po_lowWater options) 0) 0 (int maxConnections)) (\<lambda>lowWater.
     rbind (pool_integer (or_else (po_idleHigh options) (int maxConnections)) 0 (int maxConnections)) (\<lambda>idleHigh.
     if idleHigh < lowWater then Inl (RangeError ''lowWater must not exceed idleHigh'')
     else let validateOnCheckout = or_else (po_validateOnCheckout options) False;
              resetOnRelease = or_else (po_resetOnRelease options) False
     in if validateOnCheckout \<and> \<not> po_hasValidate options
     then Inl (TypeError ''validateOnCheckout requires factory.validate'')
     else if resetOnRelease \<and> \<not> po_hasReset options
     then Inl (TypeError ''resetOnRelease requires factory.reset'')
     else Inr \<lparr>pc_maxConnections = maxConnections, pc_maxWaiters = maxWaiters,
       pc_acquireTimeoutMs = acquireTimeoutMs, pc_lifecycleTimeoutMs = lifecycleTimeoutMs,
       pc_shutdownTimeoutMs = shutdownTimeoutMs, pc_lowWater = lowWater, pc_idleHigh = idleHigh,
       pc_validateOnCheckout = validateOnCheckout, pc_resetOnRelease = resetOnRelease,
       pc_hasReset = po_hasReset options\<rparr>)))))))"

section \<open>State\<close>

datatype pool_phase = PoolOpen | PoolRetiring | PoolClosing | PoolClosed

datatype physical_state = PIdle | PValidating | PLeased | PResetting | PClosing

text \<open>Who waits for a running reset: the release of the connection or a reset under its lease.\<close>

datatype reset_owner = ReleaseReset | LeaseReset nat

text \<open>How far \<open>destroyPromise\<close> has come.\<close>

datatype destroy_state = NotDestroyed | DestroyRunning | DestroyExpired | DestroyFailed

record physical =
  p_resource :: nat
  p_state :: physical_state
  p_generation :: nat
  p_recycleIdleHigh :: "nat option"
  p_destroy :: destroy_state
  p_destroyError :: "js_error option"
  p_reset :: "reset_owner option"

record creation =
  c_id :: nat
  c_ownerWaiterId :: "nat option"
  c_aborted :: bool
  c_abortRequested :: bool
  c_expired :: bool
  c_terminalError :: "js_error option"

text \<open>A waiter is active exactly as long as it is in the queue.\<close>

record waiter =
  w_id :: nat
  w_count :: nat
  w_deadline :: int
  w_timeoutGeneration :: nat
  w_earlyTimeoutRearms :: nat

text \<open>A lease token is known by its generation; \<open>l_physical\<close> is its connection.\<close>

record lease =
  l_physical :: nat
  l_active :: bool
  l_activeOperations :: nat

datatype validation = Healthy | Unhealthy | ValidateThrew | ValidateExpired js_error

text \<open>A checkout that waits for the validation of its candidates.\<close>

record checkout =
  k_waiter :: waiter
  k_candidates :: "nat list"
  k_results :: "nat \<Rightarrow> validation option"

datatype close_promise = NotClosing | ClosePending | CloseResolved | CloseRejected js_error

record pool =
  pl_config :: pool_config
  pl_phase :: pool_phase
  pl_records :: "nat list"
  pl_heap :: "nat \<Rightarrow> physical"
  pl_nextPhysical :: nat
  pl_idle :: "nat list"
  pl_creating :: "creation list"
  pl_waiters :: "waiter list"
  pl_leases :: "nat \<Rightarrow> lease option"
  pl_nextCreationId :: nat
  pl_nextWaiterId :: nat
  pl_lastLeaseGeneration :: nat
  pl_lastClockValue :: "int option"
  pl_pumpScheduled :: bool
  pl_dispatching :: bool
  pl_pumpRequested :: bool
  pl_lowWaterBlocked :: bool
  pl_checkout :: "checkout option"
  pl_close :: close_promise
  pl_shutdownDeadline :: bool
  pl_creationFailures :: nat
  pl_creationAborts :: nat
  pl_healthFailures :: nat
  pl_resetFailures :: nat
  pl_destroyFailures :: nat
  pl_lifecycleTimeouts :: nat
  pl_shutdownTimeouts :: nat
  pl_settled :: "(nat \<times> (js_error + nat list)) list"

definition pool_error :: "string \<Rightarrow> js_error" where
  "pool_error code = CodedError code ''connection pool''"

definition upd_physical :: "nat \<Rightarrow> (physical \<Rightarrow> physical) \<Rightarrow> pool \<Rightarrow> pool" where
  "upd_physical p f s = s\<lparr>pl_heap := (pl_heap s)(p := f (pl_heap s p))\<rparr>"

definition waiter_active :: "nat \<Rightarrow> pool \<Rightarrow> bool" where
  "waiter_active i s \<longleftrightarrow> i \<in> w_id ` set (pl_waiters s)"

section \<open>The pump\<close>

definition requestPump :: "pool \<Rightarrow> pool" where
  "requestPump s =
    (if pl_phase s \<noteq> PoolOpen then s
     else if pl_dispatching s then s\<lparr>pl_pumpRequested := True\<rparr>
     else if pl_pumpScheduled s then s
     else s\<lparr>pl_pumpScheduled := True\<rparr>)"

definition pool_new :: "pool_config \<Rightarrow> pool" where
  "pool_new config = requestPump
     \<lparr>pl_config = config, pl_phase = PoolOpen, pl_records = [], pl_heap = (\<lambda>_. \<lparr>p_resource = 0,
        p_state = PIdle, p_generation = 0, p_recycleIdleHigh = None, p_destroy = NotDestroyed,
        p_destroyError = None, p_reset = None\<rparr>), pl_nextPhysical = 0,
      pl_idle = [], pl_creating = [], pl_waiters = [], pl_leases = (\<lambda>_. None), pl_nextCreationId = 1,
      pl_nextWaiterId = 1, pl_lastLeaseGeneration = 0, pl_lastClockValue = None,
      pl_pumpScheduled = False, pl_dispatching = False, pl_pumpRequested = False,
      pl_lowWaterBlocked = False, pl_checkout = None, pl_close = NotClosing, pl_shutdownDeadline = False,
      pl_creationFailures = 0, pl_creationAborts = 0, pl_healthFailures = 0, pl_resetFailures = 0,
      pl_destroyFailures = 0, pl_lifecycleTimeouts = 0, pl_shutdownTimeouts = 0, pl_settled = []\<rparr>"

definition pool_readClock :: "int \<Rightarrow> pool \<Rightarrow> pool result" where
  "pool_readClock value s =
    (if (case pl_lastClockValue s of None \<Rightarrow> False | Some previous \<Rightarrow> value < previous)
     then Inl (PlainError ''connection pool scheduler clock must be finite and monotonic'')
     else Inr (s\<lparr>pl_lastClockValue := Some value\<rparr>))"

section \<open>Creations\<close>

definition abortCreation :: "creation \<Rightarrow> creation" where
  "abortCreation c = c\<lparr>c_abortRequested := True, c_aborted := True\<rparr>"

definition resetting_count :: "pool \<Rightarrow> nat" where
  "resetting_count s = length (filter (\<lambda>p. p_state (pl_heap s p) = PResetting) (pl_records s))"

fun reconcile_loop :: "nat option \<Rightarrow> nat \<Rightarrow> creation list \<Rightarrow> creation list" where
  "reconcile_loop owner needed [] = []"
| "reconcile_loop owner needed (c # cs) =
    (if c_aborted c then c # reconcile_loop owner needed cs
     else if 0 < needed then c\<lparr>c_ownerWaiterId := owner\<rparr> # reconcile_loop owner (needed - 1) cs
     else abortCreation (c\<lparr>c_ownerWaiterId := None\<rparr>) # reconcile_loop owner needed cs)"

definition reconcileCreations :: "pool \<Rightarrow> pool" where
  "reconcileCreations s =
    (let head = (if pl_phase s = PoolOpen then (case pl_waiters s of [] \<Rightarrow> None | w # _ \<Rightarrow> Some w) else None);
         availableWithoutCreating = length (pl_idle s) + resetting_count s;
         desired = (case head of Some w \<Rightarrow> w_count w
           | None \<Rightarrow> if pl_phase s = PoolOpen \<and> \<not> pl_lowWaterBlocked s then pc_lowWater (pl_config s) else 0);
         needed = desired - availableWithoutCreating
     in s\<lparr>pl_creating := reconcile_loop (map_option w_id head) needed (pl_creating s)\<rparr>)"

definition pool_capacity :: "pool \<Rightarrow> nat" where
  "pool_capacity s = length (pl_records s) + length (pl_creating s)"

definition expectedAvailable :: "pool \<Rightarrow> nat" where
  "expectedAvailable s = length (pl_idle s) +
     length (filter (\<lambda>c. \<not> c_aborted c) (pl_creating s)) + resetting_count s"

definition startCreation :: "nat option \<Rightarrow> pool \<Rightarrow> pool" where
  "startCreation ownerWaiterId s =
    (if pl_phase s \<noteq> PoolOpen \<or> pc_maxConnections (pl_config s) \<le> pool_capacity s then s
     else s\<lparr>pl_creating := pl_creating s @ [\<lparr>c_id = pl_nextCreationId s, c_ownerWaiterId = ownerWaiterId,
              c_aborted = False, c_abortRequested = False, c_expired = False, c_terminalError = None\<rparr>],
            pl_nextCreationId := Suc (pl_nextCreationId s)\<rparr>)"

definition pool_starts :: "nat \<Rightarrow> pool \<Rightarrow> nat" where
  "pool_starts desired s =
     min (desired - expectedAvailable s) (pc_maxConnections (pl_config s) - pool_capacity s)"

definition ensureWaiterCapacity :: "waiter \<Rightarrow> pool \<Rightarrow> pool" where
  "ensureWaiterCapacity w s = (startCreation (Some (w_id w)) ^^ pool_starts (w_count w) s) s"

definition ensureLowWater :: "pool \<Rightarrow> pool" where
  "ensureLowWater s =
    (if pl_lowWaterBlocked s \<or> pc_lowWater (pl_config s) = 0 then s
     else (startCreation None ^^ pool_starts (pc_lowWater (pl_config s)) s) s)"

section \<open>Waiters\<close>

definition cleanupWaiter :: "nat \<Rightarrow> pool \<Rightarrow> pool" where
  "cleanupWaiter i s = reconcileCreations (s\<lparr>pl_waiters := filter (\<lambda>w. w_id w \<noteq> i) (pl_waiters s)\<rparr>)"

definition rejectWaiter :: "nat \<Rightarrow> js_error \<Rightarrow> pool \<Rightarrow> pool" where
  "rejectWaiter i e s =
    (if \<not> waiter_active i s then s
     else requestPump ((cleanupWaiter i s)\<lparr>pl_settled := pl_settled s @ [(i, Inl e)]\<rparr>))"

text \<open>Whether the head waiter is still to be served, with the state after the check.\<close>

definition waiterCannotDispatch :: "waiter \<Rightarrow> int \<Rightarrow> pool \<Rightarrow> bool \<times> pool" where
  "waiterCannotDispatch w now s =
    (if pl_phase s \<noteq> PoolOpen \<or> map w_id (take 1 (pl_waiters s)) \<noteq> [w_id w] then (True, s)
     else case pool_readClock now s of
       Inl e \<Rightarrow> (True, rejectWaiter (w_id w) e s)
     | Inr s \<Rightarrow>
         if now < w_deadline w then (False, s)
         else (True, rejectWaiter (w_id w) (pool_error ''ACQUIRE_TIMEOUT'') s))"

section \<open>Closing\<close>

definition failClose :: "js_error \<Rightarrow> pool \<Rightarrow> pool" where
  "failClose e s = (if pl_close s = ClosePending
     then s\<lparr>pl_close := CloseRejected e, pl_shutdownDeadline := False\<rparr> else s)"

definition first_terminal_error :: "pool \<Rightarrow> js_error option" where
  "first_terminal_error s = (case List.map_filter c_terminalError (pl_creating s) of [] \<Rightarrow> None | e # _ \<Rightarrow> Some e)"

definition first_destroy_error :: "pool \<Rightarrow> js_error option" where
  "first_destroy_error s =
    (case List.map_filter (\<lambda>p. p_destroyError (pl_heap s p)) (pl_records s) of [] \<Rightarrow> None | e # _ \<Rightarrow> Some e)"

definition checkClosed :: "pool \<Rightarrow> pool" where
  "checkClosed s =
    (if pl_phase s \<noteq> PoolRetiring \<and> pl_phase s \<noteq> PoolClosing then s
     else let s = (case first_terminal_error s of None \<Rightarrow> s | Some e \<Rightarrow> failClose e s);
              s = (case first_destroy_error s of None \<Rightarrow> s | Some e \<Rightarrow> failClose e s)
          in if pl_creating s = [] \<and> pl_records s = []
             then s\<lparr>pl_phase := PoolClosed, pl_shutdownDeadline := False,
                    pl_close := (if pl_close s = ClosePending then CloseResolved else pl_close s)\<rparr>
             else s)"

section \<open>Physical connections\<close>

definition pool_destroy :: "nat \<Rightarrow> pool \<Rightarrow> pool" where
  "pool_destroy p s =
    (if p_destroy (pl_heap s p) \<noteq> NotDestroyed then s
     else upd_physical p (\<lambda>x. x\<lparr>p_state := PClosing, p_destroy := DestroyRunning\<rparr>)
       (s\<lparr>pl_idle := remove1 p (pl_idle s)\<rparr>))"

definition returnToPool :: "nat \<Rightarrow> pool \<Rightarrow> pool" where
  "returnToPool p s =
    (if p \<notin> set (pl_records s) then s
     else if pl_phase s \<noteq> PoolOpen then pool_destroy p s
     else let idleHigh = or_else (p_recycleIdleHigh (pl_heap s p)) (pc_idleHigh (pl_config s)) in
       if pl_waiters s \<noteq> [] \<or> length (pl_idle s) < idleHigh
       then upd_physical p (\<lambda>x. x\<lparr>p_state := PIdle, p_recycleIdleHigh :=
                (if pl_waiters s = [] then None else p_recycleIdleHigh x)\<rparr>)
              (if p \<in> set (pl_idle s) then s else s\<lparr>pl_idle := pl_idle s @ [p]\<rparr>)
       else pool_destroy p (upd_physical p (\<lambda>x. x\<lparr>p_recycleIdleHigh := None\<rparr>) s))"

definition pool_lease :: "nat \<Rightarrow> pool \<Rightarrow> pool" where
  "pool_lease p s =
    (let g = Suc (pl_lastLeaseGeneration s) in
     upd_physical p (\<lambda>x. x\<lparr>p_recycleIdleHigh := None, p_state := PLeased, p_generation := g\<rparr>)
       (s\<lparr>pl_lastLeaseGeneration := g,
          pl_leases := (pl_leases s)(g \<mapsto> \<lparr>l_physical = p, l_active = True, l_activeOperations = 0\<rparr>)\<rparr>))"

definition effective_high :: "pool \<Rightarrow> nat" where
  "effective_high s = foldl (\<lambda>h p. min h (or_else (p_recycleIdleHigh (pl_heap s p)) (pc_idleHigh (pl_config s))))
     (pc_idleHigh (pl_config s)) (pl_idle s)"

text \<open>The trimming loop; every round takes one connection off the list, so its length is enough fuel.\<close>

fun trim_loop :: "nat \<Rightarrow> nat \<Rightarrow> pool \<Rightarrow> pool" where
  "trim_loop 0 high s = s"
| "trim_loop (Suc fuel) high s =
    (if high < length (pl_idle s) then trim_loop fuel high (pool_destroy (last (pl_idle s)) s) else s)"

definition trimIdleHigh :: "pool \<Rightarrow> pool" where
  "trimIdleHigh s =
    (if pl_phase s \<noteq> PoolOpen \<or> pl_waiters s \<noteq> [] then s
     else let s = trim_loop (length (pl_idle s)) (effective_high s) s in
       s\<lparr>pl_heap := (\<lambda>p. if p \<in> set (pl_idle s) then (pl_heap s p)\<lparr>p_recycleIdleHigh := None\<rparr> else pl_heap s p)\<rparr>)"

section \<open>Monitor\<close>

record monitor =
  m_phase :: pool_phase
  m_connections :: nat
  m_idle :: nat
  m_leased :: nat
  m_creating :: nat
  m_validating :: nat
  m_resetting :: nat
  m_closing :: nat
  m_waiting :: nat
  m_lastLeaseGeneration :: nat
  m_failed :: nat

definition state_count :: "physical_state \<Rightarrow> pool \<Rightarrow> nat" where
  "state_count x s = length (filter (\<lambda>p. p_state (pl_heap s p) = x) (pl_records s))"

definition pool_monitor :: "pool \<Rightarrow> monitor" where
  "pool_monitor s =
    (let idle = state_count PIdle s; leased = state_count PLeased s; validating = state_count PValidating s;
         resetting = state_count PResetting s; closing = state_count PClosing s; creating = length (pl_creating s)
     in \<lparr>m_phase = pl_phase s, m_connections = idle + leased + creating + validating + resetting + closing,
       m_idle = idle, m_leased = leased, m_creating = creating, m_validating = validating,
       m_resetting = resetting, m_closing = closing, m_waiting = length (pl_waiters s),
       m_lastLeaseGeneration = pl_lastLeaseGeneration s,
       m_failed = pl_creationFailures s + pl_creationAborts s + pl_healthFailures s + pl_resetFailures s +
         pl_destroyFailures s + pl_lifecycleTimeouts s + pl_shutdownTimeouts s\<rparr>)"

lemma monitor_connections: "m_connections (pool_monitor s) = pool_capacity s"
proof -
  have "length (filter (\<lambda>p. f p = PIdle) ps) + length (filter (\<lambda>p. f p = PLeased) ps) +
      length (filter (\<lambda>p. f p = PValidating) ps) + length (filter (\<lambda>p. f p = PResetting) ps) +
      length (filter (\<lambda>p. f p = PClosing) ps) = length ps" for f and ps :: "nat list"
  proof (induction ps)
    case (Cons p ps)
    then show ?case by (cases "f p") simp_all
  qed simp
  from this [of "\<lambda>p. p_state (pl_heap s p)" "pl_records s"] show ?thesis
    by (simp add: pool_monitor_def state_count_def pool_capacity_def Let_def)
qed

end
