(* ===== verification/PoolSteps.thy ===== *)
theory PoolSteps
  imports PoolState
begin

text \<open>
  The steps of the pool: the dispatcher, the public operations and the reactions to what the
  factory and the timers report. A step is one run of the code from an \<open>await\<close>, a callback or
  a call up to the next suspension. The environment does not call back into the pool while one
  of its functions is being called, and one reading of the clock serves a step.
\<close>

section \<open>Dispatch\<close>

text \<open>How a run of \<open>#dispatch\<close> ends: the flag is cleared and a request made meanwhile is honoured.\<close>

definition end_dispatch :: "pool \<Rightarrow> pool" where
  "end_dispatch s = (let s = s\<lparr>pl_dispatching := False\<rparr> in if pl_pumpRequested s then requestPump s else s)"

definition begin_checkout :: "waiter \<Rightarrow> pool \<Rightarrow> pool" where
  "begin_checkout w s =
    (let candidates = take (w_count w) (pl_idle s) in
     s\<lparr>pl_idle := drop (w_count w) (pl_idle s),
       pl_heap := (\<lambda>p. if p \<in> set candidates then (pl_heap s p)\<lparr>p_state := PValidating\<rparr> else pl_heap s p),
       pl_checkout := Some \<lparr>k_waiter = w, k_candidates = candidates,
         k_results = (\<lambda>p. if pc_validateOnCheckout (pl_config s) then None else Some Healthy)\<rparr>\<rparr>)"

lemma rejectWaiter_shorter:
  assumes "pl_waiters s = w # ws"
  shows "length (pl_waiters (rejectWaiter (w_id w) e s)) < length (pl_waiters s)"
  using assms le_imp_less_Suc [OF length_filter_le [of "\<lambda>v. w_id v \<noteq> w_id w" ws]]
  by (simp add: rejectWaiter_def waiter_active_def requestPump_def cleanupWaiter_def reconcileCreations_def Let_def)

function pool_dispatch :: "int \<Rightarrow> pool \<Rightarrow> pool" where
  "pool_dispatch now s =
    (if pl_phase s \<noteq> PoolOpen then end_dispatch s
     else case pl_waiters s of
       [] \<Rightarrow> end_dispatch (ensureLowWater (trimIdleHigh s))
     | w # ws \<Rightarrow>
         (case pool_readClock now s of
            Inl e \<Rightarrow> pool_dispatch now (rejectWaiter (w_id w) e s)
          | Inr s' \<Rightarrow>
              if w_deadline w \<le> now
              then pool_dispatch now (rejectWaiter (w_id w) (pool_error ''ACQUIRE_TIMEOUT'') s')
              else if length (pl_idle s') < w_count w then end_dispatch (ensureWaiterCapacity w s')
              else begin_checkout w s'))"
  by pat_completeness auto
termination
proof (relation "measure (\<lambda>(now, s). length (pl_waiters s))", goal_cases)
  case (2 now s w ws e)
  then show ?case using rejectWaiter_shorter by simp
next
  case (3 now s w ws s')
  then have "pl_waiters s' = pl_waiters s" by (auto simp: pool_readClock_def split: if_splits)
  with 3 show ?case using rejectWaiter_shorter [of s' w ws] by simp
qed simp

declare pool_dispatch.simps [simp del]

definition pump_step :: "int \<Rightarrow> pool \<Rightarrow> pool" where
  "pump_step now s =
    (if \<not> pl_pumpScheduled s then s
     else let s = s\<lparr>pl_pumpScheduled := False\<rparr> in
       if pl_phase s \<noteq> PoolOpen \<or> pl_dispatching s then s
       else pool_dispatch now (s\<lparr>pl_dispatching := True, pl_pumpRequested := False\<rparr>))"

definition is_healthy :: "checkout \<Rightarrow> nat \<Rightarrow> bool" where
  "is_healthy k p \<longleftrightarrow> k_results k p = Some Healthy"

definition validation_error :: "validation option \<Rightarrow> js_error option" where
  "validation_error v = (case v of Some (ValidateExpired e) \<Rightarrow> Some e | _ \<Rightarrow> None)"

definition first_validation_error :: "checkout \<Rightarrow> js_error option" where
  "first_validation_error k =
    (case List.map_filter (\<lambda>p. validation_error (k_results k p)) (k_candidates k) of [] \<Rightarrow> None | e # _ \<Rightarrow> Some e)"

definition lease_all :: "nat list \<Rightarrow> pool \<Rightarrow> pool" where
  "lease_all ps s = fold pool_lease ps s"

text \<open>The rest of a loop round of \<open>#dispatch\<close>, once every candidate has been validated.\<close>

definition finish_checkout :: "checkout \<Rightarrow> int \<Rightarrow> pool \<Rightarrow> pool" where
  "finish_checkout k now s =
    (let w = k_waiter k;
         healthy = filter (is_healthy k) (k_candidates k);
         s = fold pool_destroy (filter (\<lambda>p. \<not> is_healthy k p) (k_candidates k)) s
     in case first_validation_error k of
       Some e \<Rightarrow> rejectWaiter (w_id w) e (fold returnToPool healthy s)
     | None \<Rightarrow>
       (case waiterCannotDispatch w now s of (cannot, s) \<Rightarrow>
        if cannot
        then let s = fold returnToPool healthy s in
          if pl_phase s \<noteq> PoolOpen then checkClosed s else s
        else if length healthy \<noteq> w_count w then fold returnToPool healthy s
        else let s = cleanupWaiter (w_id w) s;
                 generations = [Suc (pl_lastLeaseGeneration s)..<Suc (pl_lastLeaseGeneration s + length healthy)]
             in (lease_all healthy s)\<lparr>pl_settled := pl_settled s @ [(w_id w, Inr generations)]\<rparr>))"

definition checkout_step :: "int \<Rightarrow> pool \<Rightarrow> pool" where
  "checkout_step now s =
    (case pl_checkout s of
       None \<Rightarrow> s
     | Some k \<Rightarrow>
         if \<exists>p\<in>set (k_candidates k). k_results k p = None then s
         else pool_dispatch now (finish_checkout k now (s\<lparr>pl_checkout := None\<rparr>)))"

section \<open>Acquire\<close>

definition upd_waiter :: "nat \<Rightarrow> (waiter \<Rightarrow> waiter) \<Rightarrow> pool \<Rightarrow> pool" where
  "upd_waiter i f s = s\<lparr>pl_waiters := map (\<lambda>w. if w_id w = i then f w else w) (pl_waiters s)\<rparr>"

definition find_waiter :: "nat \<Rightarrow> pool \<Rightarrow> waiter option" where
  "find_waiter i s = find (\<lambda>w. w_id w = i) (pl_waiters s)"

text \<open>Arming a timeout reads the clock and starts a new generation of the timer.\<close>

definition armTimeout :: "nat \<Rightarrow> int \<Rightarrow> pool \<Rightarrow> pool" where
  "armTimeout i now s =
    (case pool_readClock now s of
       Inl e \<Rightarrow> rejectWaiter i e s
     | Inr s \<Rightarrow>
         if \<not> waiter_active i s then s
         else if pl_phase s \<noteq> PoolOpen then rejectWaiter i (pool_error ''POOL_CLOSED'') s
         else upd_waiter i (\<lambda>w. w\<lparr>w_timeoutGeneration := Suc (w_timeoutGeneration w)\<rparr>) s)"

definition pool_acquire :: "int \<Rightarrow> int option \<Rightarrow> bool \<Rightarrow> int \<Rightarrow> pool \<Rightarrow> (js_error + nat) \<times> pool" where
  "pool_acquire count timeoutMs initiallyAborted now s =
    (let checked = rbind (pool_integer count 1 (int (pc_maxConnections (pl_config s)))) (\<lambda>n.
       rbind (pool_timeout (or_else timeoutMs (pc_acquireTimeoutMs (pl_config s)))) (\<lambda>timeoutMs.
       if pl_phase s \<noteq> PoolOpen then Inl (pool_error ''POOL_CLOSED'')
       else if initiallyAborted then Inl (pool_error ''ACQUIRE_ABORTED'')
       else if pc_maxWaiters (pl_config s) \<le> length (pl_waiters s) then Inl (pool_error ''POOL_OVERLOADED'')
       else Inr (n, timeoutMs)))
     in case checked of
       Inl e \<Rightarrow> (Inl (if pl_phase s = PoolOpen then e else pool_error ''POOL_CLOSED''), s)
     | Inr (n, timeoutMs) \<Rightarrow>
       (case pool_readClock now s of
          Inl e \<Rightarrow> (Inl e, s)
        | Inr s \<Rightarrow>
          let i = pl_nextWaiterId s;
              w = \<lparr>w_id = i, w_count = n, w_deadline = now + timeoutMs, w_timeoutGeneration = 0,
                   w_earlyTimeoutRearms = 0\<rparr>;
              s = s\<lparr>pl_nextWaiterId := Suc i, pl_waiters := pl_waiters s @ [w], pl_lowWaterBlocked := False\<rparr>
          in (Inr i, requestPump (armTimeout i now s))))"

definition abort_step :: "nat \<Rightarrow> pool \<Rightarrow> pool" where
  "abort_step i s = rejectWaiter i (pool_error ''ACQUIRE_ABORTED'') s"

definition handleTimeout :: "nat \<Rightarrow> nat \<Rightarrow> int \<Rightarrow> int \<Rightarrow> pool \<Rightarrow> pool" where
  "handleTimeout i generation scheduledRemaining now s =
    (case find_waiter i s of
       None \<Rightarrow> s
     | Some w \<Rightarrow>
       if w_timeoutGeneration w \<noteq> generation then s
       else case pool_readClock now s of
         Inl e \<Rightarrow> rejectWaiter i e s
       | Inr s \<Rightarrow>
         let remaining = w_deadline w - now in
         if pl_phase s \<noteq> PoolOpen then rejectWaiter i (pool_error ''POOL_CLOSED'') s
         else if 0 < remaining
         then let rearms = Suc (w_earlyTimeoutRearms w);
                  s = upd_waiter i (\<lambda>w. w\<lparr>w_earlyTimeoutRearms := rearms\<rparr>) s
           in if scheduledRemaining \<le> remaining \<or> MAX_EARLY_TIMEOUT_REARMS < rearms
           then rejectWaiter i (PlainError ''connection pool scheduler fired acquire timeout before its deadline without bounded progress'') s
           else upd_waiter i (\<lambda>w. w\<lparr>w_timeoutGeneration := Suc generation\<rparr>) s
         else rejectWaiter i (pool_error ''ACQUIRE_TIMEOUT'') s)"

definition rearm_step :: "nat \<Rightarrow> nat \<Rightarrow> int \<Rightarrow> pool \<Rightarrow> pool" where
  "rearm_step i rearmGeneration now s =
    (case find_waiter i s of
       None \<Rightarrow> s
     | Some w \<Rightarrow>
       if w_timeoutGeneration w \<noteq> rearmGeneration then s
       else if pl_phase s \<noteq> PoolOpen then rejectWaiter i (pool_error ''POOL_CLOSED'') s
       else armTimeout i now s)"

section \<open>Reports on creations\<close>

definition find_creation :: "nat \<Rightarrow> pool \<Rightarrow> creation option" where
  "find_creation i s = find (\<lambda>c. c_id c = i) (pl_creating s)"

definition drop_creation :: "nat \<Rightarrow> pool \<Rightarrow> pool" where
  "drop_creation i s = s\<lparr>pl_creating := filter (\<lambda>c. c_id c \<noteq> i) (pl_creating s)\<rparr>"

definition reject_owner :: "creation \<Rightarrow> js_error \<Rightarrow> pool \<Rightarrow> pool" where
  "reject_owner c e s = (case c_ownerWaiterId c of None \<Rightarrow> s | Some i \<Rightarrow> rejectWaiter i e s)"

definition creationFailedAfterRemoval :: "creation \<Rightarrow> js_error \<Rightarrow> pool \<Rightarrow> pool" where
  "creationFailedAfterRemoval c e s =
    (let s = (if c_aborted c then s\<lparr>pl_creationAborts := Suc (pl_creationAborts s)\<rparr>
              else s\<lparr>pl_creationFailures := Suc (pl_creationFailures s)\<rparr>);
         s = s\<lparr>pl_lowWaterBlocked := True\<rparr>
     in checkClosed (requestPump (reject_owner c e s)))"

definition creationFailed :: "nat \<Rightarrow> js_error \<Rightarrow> pool \<Rightarrow> pool" where
  "creationFailed i e s =
    (case find_creation i s of
       None \<Rightarrow> s
     | Some c \<Rightarrow>
       let s = drop_creation i s in
       if c_expired c then checkClosed (requestPump s) else creationFailedAfterRemoval c e s)"

text \<open>The factory's value: no object, or the object with its identity.\<close>

definition creationSucceeded :: "nat \<Rightarrow> nat option \<Rightarrow> pool \<Rightarrow> pool" where
  "creationSucceeded i resource s =
    (case find_creation i s of
       None \<Rightarrow> s
     | Some c \<Rightarrow>
       let late = c_expired c; s = drop_creation i s in
       case resource of
         None \<Rightarrow>
           if late then checkClosed (requestPump s)
           else creationFailedAfterRemoval c (TypeError ''connection factory must create a non-null object'') s
       | Some r \<Rightarrow>
           if r \<in> (\<lambda>p. p_resource (pl_heap s p)) ` set (pl_records s)
           then if late then checkClosed (requestPump s)
             else creationFailedAfterRemoval c
               (PlainError ''connection factory returned a resource already owned by the pool'') s
           else
             let s = (if c_aborted c \<and> \<not> late then s\<lparr>pl_creationAborts := Suc (pl_creationAborts s)\<rparr> else s);
                 p = pl_nextPhysical s;
                 s = upd_physical p (\<lambda>_. \<lparr>p_resource = r, p_state = PIdle, p_generation = 0,
                       p_recycleIdleHigh = None, p_destroy = NotDestroyed, p_destroyError = None, p_reset = None\<rparr>)
                     (s\<lparr>pl_nextPhysical := Suc p, pl_records := pl_records s @ [p]\<rparr>)
             in if c_aborted c then checkClosed (requestPump (pool_destroy p s))
             else let s = s\<lparr>pl_lowWaterBlocked := False\<rparr>;
                      s = (if pl_phase s \<noteq> PoolOpen then pool_destroy p s else returnToPool p s)
                  in checkClosed (requestPump s))"

definition count_timeout :: "js_error \<Rightarrow> pool \<Rightarrow> pool" where
  "count_timeout e s = (if e = pool_error ''LIFECYCLE_TIMEOUT''
     then s\<lparr>pl_lifecycleTimeouts := Suc (pl_lifecycleTimeouts s)\<rparr> else s)"

text \<open>The deadline of a creation passes: its signal aborts, its owner is told, its slot stays taken.\<close>

definition creationExpired :: "nat \<Rightarrow> js_error \<Rightarrow> pool \<Rightarrow> pool" where
  "creationExpired i e s =
    (case find_creation i s of
       None \<Rightarrow> s
     | Some c \<Rightarrow>
       if c_expired c then s
       else
         let s = count_timeout e s;
             s = s\<lparr>pl_creating := map (\<lambda>c. if c_id c = i then c\<lparr>c_aborted := True, c_expired := True,
                     c_terminalError := Some e\<rparr> else c) (pl_creating s)\<rparr>;
             s = (if c_abortRequested c then s\<lparr>pl_creationAborts := Suc (pl_creationAborts s)\<rparr>
                  else s\<lparr>pl_creationFailures := Suc (pl_creationFailures s)\<rparr>);
             s = reject_owner c e (s\<lparr>pl_lowWaterBlocked := True\<rparr>);
             s = (if pl_phase s \<noteq> PoolOpen then failClose e s else s)
         in checkClosed (requestPump s))"

section \<open>Reports on connections\<close>

definition validate_step :: "nat \<Rightarrow> validation \<Rightarrow> pool \<Rightarrow> pool" where
  "validate_step p v s =
    (case pl_checkout s of
       None \<Rightarrow> s
     | Some k \<Rightarrow>
       if p \<notin> set (k_candidates k) \<or> k_results k p \<noteq> None then s
       else let s = (case v of ValidateExpired e \<Rightarrow> count_timeout e s | _ \<Rightarrow> s);
                s = (if v = Healthy then s else s\<lparr>pl_healthFailures := Suc (pl_healthFailures s)\<rparr>)
            in s\<lparr>pl_checkout := Some (k\<lparr>k_results := (k_results k)(p \<mapsto> v)\<rparr>)\<rparr>)"

definition finish_destroy :: "nat \<Rightarrow> pool \<Rightarrow> pool" where
  "finish_destroy p s =
    checkClosed (requestPump ((upd_physical p (\<lambda>x. x\<lparr>p_destroyError := None\<rparr>) s)
      \<lparr>pl_records := filter (\<lambda>q. q \<noteq> p) (pl_records s)\<rparr>))"

definition fail_destroy :: "nat \<Rightarrow> js_error \<Rightarrow> pool \<Rightarrow> pool" where
  "fail_destroy p e s =
    (let s = upd_physical p (\<lambda>x. x\<lparr>p_destroyError := Some e\<rparr>) (s\<lparr>pl_destroyFailures := Suc (pl_destroyFailures s)\<rparr>);
         s = (if pl_phase s \<noteq> PoolOpen then failClose e s else s)
     in checkClosed (requestPump s))"

text \<open>The factory's \<open>destroy\<close> settles, possibly after its deadline; or the deadline passes.\<close>

definition destroy_settled :: "nat \<Rightarrow> js_error option \<Rightarrow> pool \<Rightarrow> pool" where
  "destroy_settled p failure s =
    (if p \<notin> set (pl_records s) then s
     else case p_destroy (pl_heap s p) of
       DestroyRunning \<Rightarrow>
         (case failure of None \<Rightarrow> finish_destroy p s
          | Some e \<Rightarrow> fail_destroy p e (upd_physical p (\<lambda>x. x\<lparr>p_destroy := DestroyFailed\<rparr>) s))
     | DestroyExpired \<Rightarrow>
         (case failure of None \<Rightarrow> finish_destroy p s
          | Some e \<Rightarrow> upd_physical p (\<lambda>x. x\<lparr>p_destroy := DestroyFailed\<rparr>) s)
     | _ \<Rightarrow> s)"

definition destroy_expired :: "nat \<Rightarrow> js_error \<Rightarrow> pool \<Rightarrow> pool" where
  "destroy_expired p e s =
    (if p \<in> set (pl_records s) \<and> p_destroy (pl_heap s p) = DestroyRunning
     then fail_destroy p e (upd_physical p (\<lambda>x. x\<lparr>p_destroy := DestroyExpired\<rparr>) (count_timeout e s))
     else s)"

section \<open>Leases\<close>

text \<open>A token as the caller presents it: the pool number it names and the object it is, by the
generation of the lease it was issued for, if it is a token of this pool at all.\<close>

record token =
  t_ownPool :: bool
  t_lease :: "nat option"

definition activeLeaseRecord :: "token \<Rightarrow> pool \<Rightarrow> (nat \<times> lease) result" where
  "activeLeaseRecord t s =
    (if \<not> t_ownPool t then Inl (pool_error ''WRONG_POOL'')
     else case Option.bind (t_lease t) (\<lambda>g. map_option (\<lambda>l. (g, l)) (pl_leases s g)) of
       None \<Rightarrow> Inl (pool_error ''STALE_LEASE'')
     | Some (g, l) \<Rightarrow>
         if l_active l then Inr (g, l)
         else if p_generation (pl_heap s (l_physical l)) \<noteq> g then Inl (pool_error ''STALE_LEASE'')
         else Inl (pool_error ''DOUBLE_RELEASE''))"

definition upd_lease :: "nat \<Rightarrow> lease \<Rightarrow> pool \<Rightarrow> pool" where
  "upd_lease g l s = s\<lparr>pl_leases := (pl_leases s)(g \<mapsto> l)\<rparr>"

text \<open>\<open>withActiveLease\<close> up to the call of the operation, and after it settled.\<close>

definition use_begin :: "token \<Rightarrow> pool \<Rightarrow> nat result \<times> pool" where
  "use_begin t s =
    (case activeLeaseRecord t s of
       Inl e \<Rightarrow> (Inl e, s)
     | Inr (g, l) \<Rightarrow>
         if pl_phase s = PoolClosing \<or> pl_phase s = PoolClosed then (Inl (pool_error ''POOL_CLOSED''), s)
         else if l_activeOperations l \<noteq> 0 then (Inl (pool_error ''POOL_LEASE_BUSY''), s)
         else (Inr (p_resource (pl_heap s (l_physical l))),
               upd_lease g (l\<lparr>l_activeOperations := Suc (l_activeOperations l)\<rparr>) s))"

definition use_end :: "nat \<Rightarrow> pool \<Rightarrow> pool" where
  "use_end g s =
    (case pl_leases s g of
       None \<Rightarrow> s
     | Some l \<Rightarrow>
         if l_activeOperations l = 0 \<or> p_reset (pl_heap s (l_physical l)) = Some (LeaseReset g) then s
         else upd_lease g (l\<lparr>l_activeOperations := l_activeOperations l - 1\<rparr>) s)"

definition resetActiveLease :: "token \<Rightarrow> pool \<Rightarrow> unit result \<times> pool" where
  "resetActiveLease t s =
    (case activeLeaseRecord t s of
       Inl e \<Rightarrow> (Inl e, s)
     | Inr (g, l) \<Rightarrow>
         if pl_phase s \<noteq> PoolOpen then (Inl (pool_error ''POOL_CLOSED''), s)
         else if \<not> pc_hasReset (pl_config s)
         then (Inl (TypeError ''connection pool factory does not provide reset''), s)
         else if l_activeOperations l \<noteq> 0 then (Inl (pool_error ''POOL_LEASE_BUSY''), s)
         else (Inr (), upd_physical (l_physical l) (\<lambda>x. x\<lparr>p_state := PResetting, p_reset := Some (LeaseReset g)\<rparr>)
                (upd_lease g (l\<lparr>l_activeOperations := Suc (l_activeOperations l)\<rparr>) s)))"

text \<open>The end of \<open>release\<close>: a returned connection is offered at once, a surplus one is destroyed first.\<close>

definition release_returned :: "nat \<Rightarrow> pool \<Rightarrow> pool" where
  "release_returned p s =
    (let s = returnToPool p s in if p_destroy (pl_heap s p) = NotDestroyed then requestPump s else s)"

definition release_physical :: "nat \<Rightarrow> bool \<Rightarrow> nat option \<Rightarrow> pool \<Rightarrow> pool" where
  "release_physical p reusable recycleIdleHigh s =
    (if \<not> reusable \<or> pl_phase s \<noteq> PoolOpen then pool_destroy p s
     else let s = upd_physical p (\<lambda>x. x\<lparr>p_recycleIdleHigh := recycleIdleHigh\<rparr>) s in
       if pc_resetOnRelease (pl_config s)
       then upd_physical p (\<lambda>x. x\<lparr>p_state := PResetting, p_reset := Some ReleaseReset\<rparr>) s
       else release_returned p (s\<lparr>pl_lowWaterBlocked := False\<rparr>))"

definition pool_release :: "token \<Rightarrow> bool option \<Rightarrow> int option \<Rightarrow> pool \<Rightarrow> unit result \<times> pool" where
  "pool_release t reusable idleHigh s =
    (case (case idleHigh of None \<Rightarrow> Inr None
           | Some h \<Rightarrow> rbind (pool_integer h 0 (int (pc_maxConnections (pl_config s)))) (\<lambda>h. Inr (Some h))) of
       Inl e \<Rightarrow> (Inl e, s)
     | Inr recycleIdleHigh \<Rightarrow>
       (case activeLeaseRecord t s of
          Inl e \<Rightarrow> (Inl e, s)
        | Inr (g, l) \<Rightarrow>
          if l_activeOperations l \<noteq> 0 then (Inl (pool_error ''ACTIVE_LEASE''), s)
          else (Inr (), release_physical (l_physical l) (or_else reusable True) recycleIdleHigh
                 (upd_lease g (l\<lparr>l_active := False\<rparr>) s))))"

text \<open>A reset settles: \<open>release\<close> or \<open>resetActiveLease\<close> goes on.\<close>

definition reset_settled :: "nat \<Rightarrow> js_error option \<Rightarrow> pool \<Rightarrow> pool" where
  "reset_settled p failure s =
    (let s' = (case failure of None \<Rightarrow> s
               | Some e \<Rightarrow> (count_timeout e s)\<lparr>pl_resetFailures := Suc (pl_resetFailures s)\<rparr>);
         s' = upd_physical p (\<lambda>x. x\<lparr>p_reset := None\<rparr>) s'
     in case (if p \<in> set (pl_records s) then p_reset (pl_heap s p) else None) of
       None \<Rightarrow> s
     | Some ReleaseReset \<Rightarrow>
         if failure \<noteq> None \<or> pl_phase s' \<noteq> PoolOpen then pool_destroy p s'
         else release_returned p (s'\<lparr>pl_lowWaterBlocked := False\<rparr>)
     | Some (LeaseReset g) \<Rightarrow>
         (case pl_leases s' g of
            None \<Rightarrow> s'
          | Some l \<Rightarrow>
              let s' = upd_lease g (l\<lparr>l_activeOperations := l_activeOperations l - 1\<rparr>) s' in
              if l_active l \<and> p_state (pl_heap s' p) = PResetting
              then upd_physical p (\<lambda>x. x\<lparr>p_state := PLeased\<rparr>) s' else s'))"

text \<open>\<open>release\<close> after the destruction it waited for.\<close>

definition release_resumed :: "nat \<Rightarrow> pool \<Rightarrow> pool" where
  "release_resumed p s =
    (if p < pl_nextPhysical s \<and> (p \<notin> set (pl_records s) \<or> p_destroy (pl_heap s p) \<in> {DestroyExpired, DestroyFailed})
     then checkClosed (requestPump s) else s)"

section \<open>Shutdown\<close>

definition beginShutdown :: "bool \<Rightarrow> int option \<Rightarrow> pool \<Rightarrow> unit result \<times> pool" where
  "beginShutdown retire timeoutMs s =
    (case pool_timeout (or_else timeoutMs (pc_shutdownTimeoutMs (pl_config s))) of
       Inl e \<Rightarrow> (Inl e, s)
     | Inr _ \<Rightarrow> (Inr (),
         case pl_phase s of
           PoolClosed \<Rightarrow> s
         | PoolClosing \<Rightarrow> s
         | PoolRetiring \<Rightarrow> if retire then s else s\<lparr>pl_phase := PoolClosing\<rparr>
         | PoolOpen \<Rightarrow>
             let s = s\<lparr>pl_phase := (if retire then PoolRetiring else PoolClosing), pl_close := ClosePending,
                       pl_shutdownDeadline := True\<rparr>;
                 s = fold (\<lambda>i. rejectWaiter i (pool_error ''POOL_CLOSED'')) (map w_id (pl_waiters s)) s;
                 s = s\<lparr>pl_creating := map abortCreation (pl_creating s)\<rparr>;
                 s = fold pool_destroy (pl_idle s) s
             in checkClosed s))"

definition shutdown_expired :: "js_error \<Rightarrow> pool \<Rightarrow> pool" where
  "shutdown_expired e s =
    (if \<not> pl_shutdownDeadline s then s
     else let s = s\<lparr>pl_shutdownDeadline := False\<rparr>;
              s = (if e = pool_error ''POOL_SHUTDOWN_TIMEOUT''
                   then s\<lparr>pl_shutdownTimeouts := Suc (pl_shutdownTimeouts s)\<rparr> else s)
          in failClose e s)"

section \<open>The machine\<close>

datatype pool_event =
    Acquire int "int option" bool int
  | AbortAcquire nat
  | AcquireTimer nat nat int int
  | RearmTimer nat nat int
  | Pump int
  | CreationSettled nat "nat option"
  | CreationRejected nat js_error
  | CreationDeadline nat js_error
  | ValidationSettled nat validation
  | CheckoutResumed int
  | UseBegin token
  | UseEnd nat
  | ResetLease token
  | Release token "bool option" "int option"
  | ResetSettled nat "js_error option"
  | ReleaseResumed nat
  | DestroySettled nat "js_error option"
  | DestroyDeadline nat js_error
  | Shutdown bool "int option"
  | ShutdownDeadline js_error

fun pool_step :: "pool_event \<Rightarrow> pool \<Rightarrow> pool" where
  "pool_step (Acquire count timeoutMs aborted now) s = snd (pool_acquire count timeoutMs aborted now s)"
| "pool_step (AbortAcquire i) s = abort_step i s"
| "pool_step (AcquireTimer i g r now) s = handleTimeout i g r now s"
| "pool_step (RearmTimer i g now) s = rearm_step i g now s"
| "pool_step (Pump now) s = pump_step now s"
| "pool_step (CreationSettled i r) s = creationSucceeded i r s"
| "pool_step (CreationRejected i e) s = creationFailed i e s"
| "pool_step (CreationDeadline i e) s = creationExpired i e s"
| "pool_step (ValidationSettled p v) s = validate_step p v s"
| "pool_step (CheckoutResumed now) s = checkout_step now s"
| "pool_step (UseBegin t) s = snd (use_begin t s)"
| "pool_step (UseEnd g) s = use_end g s"
| "pool_step (ResetLease t) s = snd (resetActiveLease t s)"
| "pool_step (Release t reusable idleHigh) s = snd (pool_release t reusable idleHigh s)"
| "pool_step (ResetSettled p failure) s = reset_settled p failure s"
| "pool_step (ReleaseResumed p) s = release_resumed p s"
| "pool_step (DestroySettled p failure) s = destroy_settled p failure s"
| "pool_step (DestroyDeadline p e) s = destroy_expired p e s"
| "pool_step (Shutdown retire timeoutMs) s = snd (beginShutdown retire timeoutMs s)"
| "pool_step (ShutdownDeadline e) s = shutdown_expired e s"

inductive pool_reachable :: "pool \<Rightarrow> bool" where
  pool_started: "pool_configure options = Inr config \<Longrightarrow> pool_reachable (pool_new config)"
| pool_stepped: "pool_reachable s \<Longrightarrow> pool_reachable (pool_step e s)"

end
