(* ===== verification/PoolFrame.thy ===== *)
theory PoolFrame
  imports PoolSteps
begin

text \<open>
  Which fields the pool's operations leave alone. All are simplification rules: a fact about
  some fields passes unchanged through every operation that does not write them.
\<close>

lemma upd_physical_frame [simp]:
  "pl_config (upd_physical p f s) = pl_config s"
  "pl_phase (upd_physical p f s) = pl_phase s"
  "pl_records (upd_physical p f s) = pl_records s"
  "pl_nextPhysical (upd_physical p f s) = pl_nextPhysical s"
  "pl_idle (upd_physical p f s) = pl_idle s"
  "pl_creating (upd_physical p f s) = pl_creating s"
  "pl_waiters (upd_physical p f s) = pl_waiters s"
  "pl_leases (upd_physical p f s) = pl_leases s"
  "pl_nextCreationId (upd_physical p f s) = pl_nextCreationId s"
  "pl_nextWaiterId (upd_physical p f s) = pl_nextWaiterId s"
  "pl_lastLeaseGeneration (upd_physical p f s) = pl_lastLeaseGeneration s"
  "pl_lastClockValue (upd_physical p f s) = pl_lastClockValue s"
  "pl_pumpScheduled (upd_physical p f s) = pl_pumpScheduled s"
  "pl_dispatching (upd_physical p f s) = pl_dispatching s"
  "pl_pumpRequested (upd_physical p f s) = pl_pumpRequested s"
  "pl_lowWaterBlocked (upd_physical p f s) = pl_lowWaterBlocked s"
  "pl_checkout (upd_physical p f s) = pl_checkout s"
  "pl_close (upd_physical p f s) = pl_close s"
  "pl_shutdownDeadline (upd_physical p f s) = pl_shutdownDeadline s"
  "pl_settled (upd_physical p f s) = pl_settled s"
  by (simp_all add: upd_physical_def)

lemma requestPump_frame [simp]:
  "pl_config (requestPump s) = pl_config s"
  "pl_phase (requestPump s) = pl_phase s"
  "pl_records (requestPump s) = pl_records s"
  "pl_heap (requestPump s) = pl_heap s"
  "pl_nextPhysical (requestPump s) = pl_nextPhysical s"
  "pl_idle (requestPump s) = pl_idle s"
  "pl_creating (requestPump s) = pl_creating s"
  "pl_waiters (requestPump s) = pl_waiters s"
  "pl_leases (requestPump s) = pl_leases s"
  "pl_nextCreationId (requestPump s) = pl_nextCreationId s"
  "pl_nextWaiterId (requestPump s) = pl_nextWaiterId s"
  "pl_lastLeaseGeneration (requestPump s) = pl_lastLeaseGeneration s"
  "pl_lastClockValue (requestPump s) = pl_lastClockValue s"
  "pl_dispatching (requestPump s) = pl_dispatching s"
  "pl_lowWaterBlocked (requestPump s) = pl_lowWaterBlocked s"
  "pl_checkout (requestPump s) = pl_checkout s"
  "pl_close (requestPump s) = pl_close s"
  "pl_shutdownDeadline (requestPump s) = pl_shutdownDeadline s"
  "pl_settled (requestPump s) = pl_settled s"
  by (simp_all add: requestPump_def)

lemma reconcileCreations_frame [simp]:
  "pl_config (reconcileCreations s) = pl_config s"
  "pl_phase (reconcileCreations s) = pl_phase s"
  "pl_records (reconcileCreations s) = pl_records s"
  "pl_heap (reconcileCreations s) = pl_heap s"
  "pl_nextPhysical (reconcileCreations s) = pl_nextPhysical s"
  "pl_idle (reconcileCreations s) = pl_idle s"
  "pl_waiters (reconcileCreations s) = pl_waiters s"
  "pl_leases (reconcileCreations s) = pl_leases s"
  "pl_nextCreationId (reconcileCreations s) = pl_nextCreationId s"
  "pl_nextWaiterId (reconcileCreations s) = pl_nextWaiterId s"
  "pl_lastLeaseGeneration (reconcileCreations s) = pl_lastLeaseGeneration s"
  "pl_lastClockValue (reconcileCreations s) = pl_lastClockValue s"
  "pl_pumpScheduled (reconcileCreations s) = pl_pumpScheduled s"
  "pl_dispatching (reconcileCreations s) = pl_dispatching s"
  "pl_pumpRequested (reconcileCreations s) = pl_pumpRequested s"
  "pl_lowWaterBlocked (reconcileCreations s) = pl_lowWaterBlocked s"
  "pl_checkout (reconcileCreations s) = pl_checkout s"
  "pl_close (reconcileCreations s) = pl_close s"
  "pl_shutdownDeadline (reconcileCreations s) = pl_shutdownDeadline s"
  "pl_settled (reconcileCreations s) = pl_settled s"
  by (simp_all add: reconcileCreations_def Let_def)

lemma startCreation_frame [simp]:
  "pl_config (startCreation i s) = pl_config s"
  "pl_phase (startCreation i s) = pl_phase s"
  "pl_records (startCreation i s) = pl_records s"
  "pl_heap (startCreation i s) = pl_heap s"
  "pl_nextPhysical (startCreation i s) = pl_nextPhysical s"
  "pl_idle (startCreation i s) = pl_idle s"
  "pl_waiters (startCreation i s) = pl_waiters s"
  "pl_leases (startCreation i s) = pl_leases s"
  "pl_nextWaiterId (startCreation i s) = pl_nextWaiterId s"
  "pl_lastLeaseGeneration (startCreation i s) = pl_lastLeaseGeneration s"
  "pl_lastClockValue (startCreation i s) = pl_lastClockValue s"
  "pl_pumpScheduled (startCreation i s) = pl_pumpScheduled s"
  "pl_dispatching (startCreation i s) = pl_dispatching s"
  "pl_pumpRequested (startCreation i s) = pl_pumpRequested s"
  "pl_lowWaterBlocked (startCreation i s) = pl_lowWaterBlocked s"
  "pl_checkout (startCreation i s) = pl_checkout s"
  "pl_close (startCreation i s) = pl_close s"
  "pl_shutdownDeadline (startCreation i s) = pl_shutdownDeadline s"
  "pl_settled (startCreation i s) = pl_settled s"
  by (simp_all add: startCreation_def)

lemma startCreations_frame [simp]:
  "pl_config ((startCreation i ^^ n) s) = pl_config s"
  "pl_phase ((startCreation i ^^ n) s) = pl_phase s"
  "pl_records ((startCreation i ^^ n) s) = pl_records s"
  "pl_heap ((startCreation i ^^ n) s) = pl_heap s"
  "pl_nextPhysical ((startCreation i ^^ n) s) = pl_nextPhysical s"
  "pl_idle ((startCreation i ^^ n) s) = pl_idle s"
  "pl_waiters ((startCreation i ^^ n) s) = pl_waiters s"
  "pl_leases ((startCreation i ^^ n) s) = pl_leases s"
  "pl_nextWaiterId ((startCreation i ^^ n) s) = pl_nextWaiterId s"
  "pl_lastLeaseGeneration ((startCreation i ^^ n) s) = pl_lastLeaseGeneration s"
  "pl_lastClockValue ((startCreation i ^^ n) s) = pl_lastClockValue s"
  "pl_pumpScheduled ((startCreation i ^^ n) s) = pl_pumpScheduled s"
  "pl_dispatching ((startCreation i ^^ n) s) = pl_dispatching s"
  "pl_pumpRequested ((startCreation i ^^ n) s) = pl_pumpRequested s"
  "pl_lowWaterBlocked ((startCreation i ^^ n) s) = pl_lowWaterBlocked s"
  "pl_checkout ((startCreation i ^^ n) s) = pl_checkout s"
  "pl_close ((startCreation i ^^ n) s) = pl_close s"
  "pl_shutdownDeadline ((startCreation i ^^ n) s) = pl_shutdownDeadline s"
  "pl_settled ((startCreation i ^^ n) s) = pl_settled s"
  by (induction n) simp_all

lemma ensureWaiterCapacity_frame [simp]:
  "pl_config (ensureWaiterCapacity w s) = pl_config s"
  "pl_phase (ensureWaiterCapacity w s) = pl_phase s"
  "pl_records (ensureWaiterCapacity w s) = pl_records s"
  "pl_heap (ensureWaiterCapacity w s) = pl_heap s"
  "pl_nextPhysical (ensureWaiterCapacity w s) = pl_nextPhysical s"
  "pl_idle (ensureWaiterCapacity w s) = pl_idle s"
  "pl_waiters (ensureWaiterCapacity w s) = pl_waiters s"
  "pl_leases (ensureWaiterCapacity w s) = pl_leases s"
  "pl_nextWaiterId (ensureWaiterCapacity w s) = pl_nextWaiterId s"
  "pl_lastLeaseGeneration (ensureWaiterCapacity w s) = pl_lastLeaseGeneration s"
  "pl_lastClockValue (ensureWaiterCapacity w s) = pl_lastClockValue s"
  "pl_pumpScheduled (ensureWaiterCapacity w s) = pl_pumpScheduled s"
  "pl_dispatching (ensureWaiterCapacity w s) = pl_dispatching s"
  "pl_pumpRequested (ensureWaiterCapacity w s) = pl_pumpRequested s"
  "pl_lowWaterBlocked (ensureWaiterCapacity w s) = pl_lowWaterBlocked s"
  "pl_checkout (ensureWaiterCapacity w s) = pl_checkout s"
  "pl_close (ensureWaiterCapacity w s) = pl_close s"
  "pl_shutdownDeadline (ensureWaiterCapacity w s) = pl_shutdownDeadline s"
  "pl_settled (ensureWaiterCapacity w s) = pl_settled s"
  by (simp_all add: ensureWaiterCapacity_def)

lemma ensureLowWater_frame [simp]:
  "pl_config (ensureLowWater s) = pl_config s"
  "pl_phase (ensureLowWater s) = pl_phase s"
  "pl_records (ensureLowWater s) = pl_records s"
  "pl_heap (ensureLowWater s) = pl_heap s"
  "pl_nextPhysical (ensureLowWater s) = pl_nextPhysical s"
  "pl_idle (ensureLowWater s) = pl_idle s"
  "pl_waiters (ensureLowWater s) = pl_waiters s"
  "pl_leases (ensureLowWater s) = pl_leases s"
  "pl_nextWaiterId (ensureLowWater s) = pl_nextWaiterId s"
  "pl_lastLeaseGeneration (ensureLowWater s) = pl_lastLeaseGeneration s"
  "pl_lastClockValue (ensureLowWater s) = pl_lastClockValue s"
  "pl_pumpScheduled (ensureLowWater s) = pl_pumpScheduled s"
  "pl_dispatching (ensureLowWater s) = pl_dispatching s"
  "pl_pumpRequested (ensureLowWater s) = pl_pumpRequested s"
  "pl_lowWaterBlocked (ensureLowWater s) = pl_lowWaterBlocked s"
  "pl_checkout (ensureLowWater s) = pl_checkout s"
  "pl_close (ensureLowWater s) = pl_close s"
  "pl_shutdownDeadline (ensureLowWater s) = pl_shutdownDeadline s"
  "pl_settled (ensureLowWater s) = pl_settled s"
  by (simp_all add: ensureLowWater_def)

lemma cleanupWaiter_frame [simp]:
  "pl_config (cleanupWaiter i s) = pl_config s"
  "pl_phase (cleanupWaiter i s) = pl_phase s"
  "pl_records (cleanupWaiter i s) = pl_records s"
  "pl_heap (cleanupWaiter i s) = pl_heap s"
  "pl_nextPhysical (cleanupWaiter i s) = pl_nextPhysical s"
  "pl_idle (cleanupWaiter i s) = pl_idle s"
  "pl_leases (cleanupWaiter i s) = pl_leases s"
  "pl_nextCreationId (cleanupWaiter i s) = pl_nextCreationId s"
  "pl_nextWaiterId (cleanupWaiter i s) = pl_nextWaiterId s"
  "pl_lastLeaseGeneration (cleanupWaiter i s) = pl_lastLeaseGeneration s"
  "pl_lastClockValue (cleanupWaiter i s) = pl_lastClockValue s"
  "pl_pumpScheduled (cleanupWaiter i s) = pl_pumpScheduled s"
  "pl_dispatching (cleanupWaiter i s) = pl_dispatching s"
  "pl_pumpRequested (cleanupWaiter i s) = pl_pumpRequested s"
  "pl_lowWaterBlocked (cleanupWaiter i s) = pl_lowWaterBlocked s"
  "pl_checkout (cleanupWaiter i s) = pl_checkout s"
  "pl_close (cleanupWaiter i s) = pl_close s"
  "pl_shutdownDeadline (cleanupWaiter i s) = pl_shutdownDeadline s"
  "pl_settled (cleanupWaiter i s) = pl_settled s"
  by (simp_all add: cleanupWaiter_def)

lemma rejectWaiter_frame [simp]:
  "pl_config (rejectWaiter i e s) = pl_config s"
  "pl_phase (rejectWaiter i e s) = pl_phase s"
  "pl_records (rejectWaiter i e s) = pl_records s"
  "pl_heap (rejectWaiter i e s) = pl_heap s"
  "pl_nextPhysical (rejectWaiter i e s) = pl_nextPhysical s"
  "pl_idle (rejectWaiter i e s) = pl_idle s"
  "pl_leases (rejectWaiter i e s) = pl_leases s"
  "pl_nextCreationId (rejectWaiter i e s) = pl_nextCreationId s"
  "pl_nextWaiterId (rejectWaiter i e s) = pl_nextWaiterId s"
  "pl_lastLeaseGeneration (rejectWaiter i e s) = pl_lastLeaseGeneration s"
  "pl_lastClockValue (rejectWaiter i e s) = pl_lastClockValue s"
  "pl_dispatching (rejectWaiter i e s) = pl_dispatching s"
  "pl_lowWaterBlocked (rejectWaiter i e s) = pl_lowWaterBlocked s"
  "pl_checkout (rejectWaiter i e s) = pl_checkout s"
  "pl_close (rejectWaiter i e s) = pl_close s"
  "pl_shutdownDeadline (rejectWaiter i e s) = pl_shutdownDeadline s"
  by (simp_all add: rejectWaiter_def)

lemma failClose_frame [simp]:
  "pl_config (failClose e s) = pl_config s"
  "pl_phase (failClose e s) = pl_phase s"
  "pl_records (failClose e s) = pl_records s"
  "pl_heap (failClose e s) = pl_heap s"
  "pl_nextPhysical (failClose e s) = pl_nextPhysical s"
  "pl_idle (failClose e s) = pl_idle s"
  "pl_creating (failClose e s) = pl_creating s"
  "pl_waiters (failClose e s) = pl_waiters s"
  "pl_leases (failClose e s) = pl_leases s"
  "pl_nextCreationId (failClose e s) = pl_nextCreationId s"
  "pl_nextWaiterId (failClose e s) = pl_nextWaiterId s"
  "pl_lastLeaseGeneration (failClose e s) = pl_lastLeaseGeneration s"
  "pl_lastClockValue (failClose e s) = pl_lastClockValue s"
  "pl_pumpScheduled (failClose e s) = pl_pumpScheduled s"
  "pl_dispatching (failClose e s) = pl_dispatching s"
  "pl_pumpRequested (failClose e s) = pl_pumpRequested s"
  "pl_lowWaterBlocked (failClose e s) = pl_lowWaterBlocked s"
  "pl_checkout (failClose e s) = pl_checkout s"
  "pl_settled (failClose e s) = pl_settled s"
  by (simp_all add: failClose_def)

lemma checkClosed_frame [simp]:
  "pl_config (checkClosed s) = pl_config s"
  "pl_records (checkClosed s) = pl_records s"
  "pl_heap (checkClosed s) = pl_heap s"
  "pl_nextPhysical (checkClosed s) = pl_nextPhysical s"
  "pl_idle (checkClosed s) = pl_idle s"
  "pl_creating (checkClosed s) = pl_creating s"
  "pl_waiters (checkClosed s) = pl_waiters s"
  "pl_leases (checkClosed s) = pl_leases s"
  "pl_nextCreationId (checkClosed s) = pl_nextCreationId s"
  "pl_nextWaiterId (checkClosed s) = pl_nextWaiterId s"
  "pl_lastLeaseGeneration (checkClosed s) = pl_lastLeaseGeneration s"
  "pl_lastClockValue (checkClosed s) = pl_lastClockValue s"
  "pl_pumpScheduled (checkClosed s) = pl_pumpScheduled s"
  "pl_dispatching (checkClosed s) = pl_dispatching s"
  "pl_pumpRequested (checkClosed s) = pl_pumpRequested s"
  "pl_lowWaterBlocked (checkClosed s) = pl_lowWaterBlocked s"
  "pl_checkout (checkClosed s) = pl_checkout s"
  "pl_settled (checkClosed s) = pl_settled s"
  by (simp_all add: checkClosed_def Let_def split: option.split)

lemma pool_destroy_frame [simp]:
  "pl_config (pool_destroy p s) = pl_config s"
  "pl_phase (pool_destroy p s) = pl_phase s"
  "pl_records (pool_destroy p s) = pl_records s"
  "pl_nextPhysical (pool_destroy p s) = pl_nextPhysical s"
  "pl_creating (pool_destroy p s) = pl_creating s"
  "pl_waiters (pool_destroy p s) = pl_waiters s"
  "pl_leases (pool_destroy p s) = pl_leases s"
  "pl_nextCreationId (pool_destroy p s) = pl_nextCreationId s"
  "pl_nextWaiterId (pool_destroy p s) = pl_nextWaiterId s"
  "pl_lastLeaseGeneration (pool_destroy p s) = pl_lastLeaseGeneration s"
  "pl_lastClockValue (pool_destroy p s) = pl_lastClockValue s"
  "pl_pumpScheduled (pool_destroy p s) = pl_pumpScheduled s"
  "pl_dispatching (pool_destroy p s) = pl_dispatching s"
  "pl_pumpRequested (pool_destroy p s) = pl_pumpRequested s"
  "pl_lowWaterBlocked (pool_destroy p s) = pl_lowWaterBlocked s"
  "pl_checkout (pool_destroy p s) = pl_checkout s"
  "pl_close (pool_destroy p s) = pl_close s"
  "pl_shutdownDeadline (pool_destroy p s) = pl_shutdownDeadline s"
  "pl_settled (pool_destroy p s) = pl_settled s"
  by (simp_all add: pool_destroy_def)

lemma returnToPool_frame [simp]:
  "pl_config (returnToPool p s) = pl_config s"
  "pl_phase (returnToPool p s) = pl_phase s"
  "pl_records (returnToPool p s) = pl_records s"
  "pl_nextPhysical (returnToPool p s) = pl_nextPhysical s"
  "pl_creating (returnToPool p s) = pl_creating s"
  "pl_waiters (returnToPool p s) = pl_waiters s"
  "pl_leases (returnToPool p s) = pl_leases s"
  "pl_nextCreationId (returnToPool p s) = pl_nextCreationId s"
  "pl_nextWaiterId (returnToPool p s) = pl_nextWaiterId s"
  "pl_lastLeaseGeneration (returnToPool p s) = pl_lastLeaseGeneration s"
  "pl_lastClockValue (returnToPool p s) = pl_lastClockValue s"
  "pl_pumpScheduled (returnToPool p s) = pl_pumpScheduled s"
  "pl_dispatching (returnToPool p s) = pl_dispatching s"
  "pl_pumpRequested (returnToPool p s) = pl_pumpRequested s"
  "pl_lowWaterBlocked (returnToPool p s) = pl_lowWaterBlocked s"
  "pl_checkout (returnToPool p s) = pl_checkout s"
  "pl_close (returnToPool p s) = pl_close s"
  "pl_shutdownDeadline (returnToPool p s) = pl_shutdownDeadline s"
  "pl_settled (returnToPool p s) = pl_settled s"
  by (simp_all add: returnToPool_def Let_def)

lemma trim_loop_frame [simp]:
  "pl_config (trim_loop n h s) = pl_config s"
  "pl_phase (trim_loop n h s) = pl_phase s"
  "pl_records (trim_loop n h s) = pl_records s"
  "pl_nextPhysical (trim_loop n h s) = pl_nextPhysical s"
  "pl_creating (trim_loop n h s) = pl_creating s"
  "pl_waiters (trim_loop n h s) = pl_waiters s"
  "pl_leases (trim_loop n h s) = pl_leases s"
  "pl_nextCreationId (trim_loop n h s) = pl_nextCreationId s"
  "pl_nextWaiterId (trim_loop n h s) = pl_nextWaiterId s"
  "pl_lastLeaseGeneration (trim_loop n h s) = pl_lastLeaseGeneration s"
  "pl_lastClockValue (trim_loop n h s) = pl_lastClockValue s"
  "pl_pumpScheduled (trim_loop n h s) = pl_pumpScheduled s"
  "pl_dispatching (trim_loop n h s) = pl_dispatching s"
  "pl_pumpRequested (trim_loop n h s) = pl_pumpRequested s"
  "pl_lowWaterBlocked (trim_loop n h s) = pl_lowWaterBlocked s"
  "pl_checkout (trim_loop n h s) = pl_checkout s"
  "pl_close (trim_loop n h s) = pl_close s"
  "pl_shutdownDeadline (trim_loop n h s) = pl_shutdownDeadline s"
  "pl_settled (trim_loop n h s) = pl_settled s"
  by (induction n h s rule: trim_loop.induct) simp_all

lemma trimIdleHigh_frame [simp]:
  "pl_config (trimIdleHigh s) = pl_config s"
  "pl_phase (trimIdleHigh s) = pl_phase s"
  "pl_records (trimIdleHigh s) = pl_records s"
  "pl_nextPhysical (trimIdleHigh s) = pl_nextPhysical s"
  "pl_creating (trimIdleHigh s) = pl_creating s"
  "pl_waiters (trimIdleHigh s) = pl_waiters s"
  "pl_leases (trimIdleHigh s) = pl_leases s"
  "pl_nextCreationId (trimIdleHigh s) = pl_nextCreationId s"
  "pl_nextWaiterId (trimIdleHigh s) = pl_nextWaiterId s"
  "pl_lastLeaseGeneration (trimIdleHigh s) = pl_lastLeaseGeneration s"
  "pl_lastClockValue (trimIdleHigh s) = pl_lastClockValue s"
  "pl_pumpScheduled (trimIdleHigh s) = pl_pumpScheduled s"
  "pl_dispatching (trimIdleHigh s) = pl_dispatching s"
  "pl_pumpRequested (trimIdleHigh s) = pl_pumpRequested s"
  "pl_lowWaterBlocked (trimIdleHigh s) = pl_lowWaterBlocked s"
  "pl_checkout (trimIdleHigh s) = pl_checkout s"
  "pl_close (trimIdleHigh s) = pl_close s"
  "pl_shutdownDeadline (trimIdleHigh s) = pl_shutdownDeadline s"
  "pl_settled (trimIdleHigh s) = pl_settled s"
  by (simp_all add: trimIdleHigh_def Let_def)

lemma pool_lease_frame [simp]:
  "pl_config (pool_lease p s) = pl_config s"
  "pl_phase (pool_lease p s) = pl_phase s"
  "pl_records (pool_lease p s) = pl_records s"
  "pl_nextPhysical (pool_lease p s) = pl_nextPhysical s"
  "pl_idle (pool_lease p s) = pl_idle s"
  "pl_creating (pool_lease p s) = pl_creating s"
  "pl_waiters (pool_lease p s) = pl_waiters s"
  "pl_nextCreationId (pool_lease p s) = pl_nextCreationId s"
  "pl_nextWaiterId (pool_lease p s) = pl_nextWaiterId s"
  "pl_lastClockValue (pool_lease p s) = pl_lastClockValue s"
  "pl_pumpScheduled (pool_lease p s) = pl_pumpScheduled s"
  "pl_dispatching (pool_lease p s) = pl_dispatching s"
  "pl_pumpRequested (pool_lease p s) = pl_pumpRequested s"
  "pl_lowWaterBlocked (pool_lease p s) = pl_lowWaterBlocked s"
  "pl_checkout (pool_lease p s) = pl_checkout s"
  "pl_close (pool_lease p s) = pl_close s"
  "pl_shutdownDeadline (pool_lease p s) = pl_shutdownDeadline s"
  "pl_settled (pool_lease p s) = pl_settled s"
  by (simp_all add: pool_lease_def Let_def)

lemma count_timeout_frame [simp]:
  "pl_config (count_timeout e s) = pl_config s"
  "pl_phase (count_timeout e s) = pl_phase s"
  "pl_records (count_timeout e s) = pl_records s"
  "pl_heap (count_timeout e s) = pl_heap s"
  "pl_nextPhysical (count_timeout e s) = pl_nextPhysical s"
  "pl_idle (count_timeout e s) = pl_idle s"
  "pl_creating (count_timeout e s) = pl_creating s"
  "pl_waiters (count_timeout e s) = pl_waiters s"
  "pl_leases (count_timeout e s) = pl_leases s"
  "pl_nextCreationId (count_timeout e s) = pl_nextCreationId s"
  "pl_nextWaiterId (count_timeout e s) = pl_nextWaiterId s"
  "pl_lastLeaseGeneration (count_timeout e s) = pl_lastLeaseGeneration s"
  "pl_lastClockValue (count_timeout e s) = pl_lastClockValue s"
  "pl_pumpScheduled (count_timeout e s) = pl_pumpScheduled s"
  "pl_dispatching (count_timeout e s) = pl_dispatching s"
  "pl_pumpRequested (count_timeout e s) = pl_pumpRequested s"
  "pl_lowWaterBlocked (count_timeout e s) = pl_lowWaterBlocked s"
  "pl_checkout (count_timeout e s) = pl_checkout s"
  "pl_close (count_timeout e s) = pl_close s"
  "pl_shutdownDeadline (count_timeout e s) = pl_shutdownDeadline s"
  "pl_settled (count_timeout e s) = pl_settled s"
  by (simp_all add: count_timeout_def)

lemma end_dispatch_frame [simp]:
  "pl_config (end_dispatch s) = pl_config s"
  "pl_phase (end_dispatch s) = pl_phase s"
  "pl_records (end_dispatch s) = pl_records s"
  "pl_heap (end_dispatch s) = pl_heap s"
  "pl_nextPhysical (end_dispatch s) = pl_nextPhysical s"
  "pl_idle (end_dispatch s) = pl_idle s"
  "pl_creating (end_dispatch s) = pl_creating s"
  "pl_waiters (end_dispatch s) = pl_waiters s"
  "pl_leases (end_dispatch s) = pl_leases s"
  "pl_nextCreationId (end_dispatch s) = pl_nextCreationId s"
  "pl_nextWaiterId (end_dispatch s) = pl_nextWaiterId s"
  "pl_lastLeaseGeneration (end_dispatch s) = pl_lastLeaseGeneration s"
  "pl_lastClockValue (end_dispatch s) = pl_lastClockValue s"
  "pl_pumpRequested (end_dispatch s) = pl_pumpRequested s"
  "pl_lowWaterBlocked (end_dispatch s) = pl_lowWaterBlocked s"
  "pl_checkout (end_dispatch s) = pl_checkout s"
  "pl_close (end_dispatch s) = pl_close s"
  "pl_shutdownDeadline (end_dispatch s) = pl_shutdownDeadline s"
  "pl_settled (end_dispatch s) = pl_settled s"
  by (simp_all add: end_dispatch_def requestPump_def Let_def)

lemma begin_checkout_frame [simp]:
  "pl_config (begin_checkout w s) = pl_config s"
  "pl_phase (begin_checkout w s) = pl_phase s"
  "pl_records (begin_checkout w s) = pl_records s"
  "pl_nextPhysical (begin_checkout w s) = pl_nextPhysical s"
  "pl_creating (begin_checkout w s) = pl_creating s"
  "pl_waiters (begin_checkout w s) = pl_waiters s"
  "pl_leases (begin_checkout w s) = pl_leases s"
  "pl_nextCreationId (begin_checkout w s) = pl_nextCreationId s"
  "pl_nextWaiterId (begin_checkout w s) = pl_nextWaiterId s"
  "pl_lastLeaseGeneration (begin_checkout w s) = pl_lastLeaseGeneration s"
  "pl_lastClockValue (begin_checkout w s) = pl_lastClockValue s"
  "pl_pumpScheduled (begin_checkout w s) = pl_pumpScheduled s"
  "pl_dispatching (begin_checkout w s) = pl_dispatching s"
  "pl_pumpRequested (begin_checkout w s) = pl_pumpRequested s"
  "pl_lowWaterBlocked (begin_checkout w s) = pl_lowWaterBlocked s"
  "pl_close (begin_checkout w s) = pl_close s"
  "pl_shutdownDeadline (begin_checkout w s) = pl_shutdownDeadline s"
  "pl_settled (begin_checkout w s) = pl_settled s"
  by (simp_all add: begin_checkout_def Let_def)

lemma upd_waiter_frame [simp]:
  "pl_config (upd_waiter i f s) = pl_config s"
  "pl_phase (upd_waiter i f s) = pl_phase s"
  "pl_records (upd_waiter i f s) = pl_records s"
  "pl_heap (upd_waiter i f s) = pl_heap s"
  "pl_nextPhysical (upd_waiter i f s) = pl_nextPhysical s"
  "pl_idle (upd_waiter i f s) = pl_idle s"
  "pl_creating (upd_waiter i f s) = pl_creating s"
  "pl_leases (upd_waiter i f s) = pl_leases s"
  "pl_nextCreationId (upd_waiter i f s) = pl_nextCreationId s"
  "pl_nextWaiterId (upd_waiter i f s) = pl_nextWaiterId s"
  "pl_lastLeaseGeneration (upd_waiter i f s) = pl_lastLeaseGeneration s"
  "pl_lastClockValue (upd_waiter i f s) = pl_lastClockValue s"
  "pl_pumpScheduled (upd_waiter i f s) = pl_pumpScheduled s"
  "pl_dispatching (upd_waiter i f s) = pl_dispatching s"
  "pl_pumpRequested (upd_waiter i f s) = pl_pumpRequested s"
  "pl_lowWaterBlocked (upd_waiter i f s) = pl_lowWaterBlocked s"
  "pl_checkout (upd_waiter i f s) = pl_checkout s"
  "pl_close (upd_waiter i f s) = pl_close s"
  "pl_shutdownDeadline (upd_waiter i f s) = pl_shutdownDeadline s"
  "pl_settled (upd_waiter i f s) = pl_settled s"
  by (simp_all add: upd_waiter_def)

lemma drop_creation_frame [simp]:
  "pl_config (drop_creation i s) = pl_config s"
  "pl_phase (drop_creation i s) = pl_phase s"
  "pl_records (drop_creation i s) = pl_records s"
  "pl_heap (drop_creation i s) = pl_heap s"
  "pl_nextPhysical (drop_creation i s) = pl_nextPhysical s"
  "pl_idle (drop_creation i s) = pl_idle s"
  "pl_waiters (drop_creation i s) = pl_waiters s"
  "pl_leases (drop_creation i s) = pl_leases s"
  "pl_nextCreationId (drop_creation i s) = pl_nextCreationId s"
  "pl_nextWaiterId (drop_creation i s) = pl_nextWaiterId s"
  "pl_lastLeaseGeneration (drop_creation i s) = pl_lastLeaseGeneration s"
  "pl_lastClockValue (drop_creation i s) = pl_lastClockValue s"
  "pl_pumpScheduled (drop_creation i s) = pl_pumpScheduled s"
  "pl_dispatching (drop_creation i s) = pl_dispatching s"
  "pl_pumpRequested (drop_creation i s) = pl_pumpRequested s"
  "pl_lowWaterBlocked (drop_creation i s) = pl_lowWaterBlocked s"
  "pl_checkout (drop_creation i s) = pl_checkout s"
  "pl_close (drop_creation i s) = pl_close s"
  "pl_shutdownDeadline (drop_creation i s) = pl_shutdownDeadline s"
  "pl_settled (drop_creation i s) = pl_settled s"
  by (simp_all add: drop_creation_def)

lemma upd_lease_frame [simp]:
  "pl_config (upd_lease g l s) = pl_config s"
  "pl_phase (upd_lease g l s) = pl_phase s"
  "pl_records (upd_lease g l s) = pl_records s"
  "pl_heap (upd_lease g l s) = pl_heap s"
  "pl_nextPhysical (upd_lease g l s) = pl_nextPhysical s"
  "pl_idle (upd_lease g l s) = pl_idle s"
  "pl_creating (upd_lease g l s) = pl_creating s"
  "pl_waiters (upd_lease g l s) = pl_waiters s"
  "pl_nextCreationId (upd_lease g l s) = pl_nextCreationId s"
  "pl_nextWaiterId (upd_lease g l s) = pl_nextWaiterId s"
  "pl_lastLeaseGeneration (upd_lease g l s) = pl_lastLeaseGeneration s"
  "pl_lastClockValue (upd_lease g l s) = pl_lastClockValue s"
  "pl_pumpScheduled (upd_lease g l s) = pl_pumpScheduled s"
  "pl_dispatching (upd_lease g l s) = pl_dispatching s"
  "pl_pumpRequested (upd_lease g l s) = pl_pumpRequested s"
  "pl_lowWaterBlocked (upd_lease g l s) = pl_lowWaterBlocked s"
  "pl_checkout (upd_lease g l s) = pl_checkout s"
  "pl_close (upd_lease g l s) = pl_close s"
  "pl_shutdownDeadline (upd_lease g l s) = pl_shutdownDeadline s"
  "pl_settled (upd_lease g l s) = pl_settled s"
  by (simp_all add: upd_lease_def)

lemma fold_destroy_frame [simp]:
  "pl_config (fold pool_destroy ps s) = pl_config s"
  "pl_phase (fold pool_destroy ps s) = pl_phase s"
  "pl_records (fold pool_destroy ps s) = pl_records s"
  "pl_nextPhysical (fold pool_destroy ps s) = pl_nextPhysical s"
  "pl_creating (fold pool_destroy ps s) = pl_creating s"
  "pl_waiters (fold pool_destroy ps s) = pl_waiters s"
  "pl_leases (fold pool_destroy ps s) = pl_leases s"
  "pl_nextCreationId (fold pool_destroy ps s) = pl_nextCreationId s"
  "pl_nextWaiterId (fold pool_destroy ps s) = pl_nextWaiterId s"
  "pl_lastLeaseGeneration (fold pool_destroy ps s) = pl_lastLeaseGeneration s"
  "pl_lastClockValue (fold pool_destroy ps s) = pl_lastClockValue s"
  "pl_pumpScheduled (fold pool_destroy ps s) = pl_pumpScheduled s"
  "pl_dispatching (fold pool_destroy ps s) = pl_dispatching s"
  "pl_pumpRequested (fold pool_destroy ps s) = pl_pumpRequested s"
  "pl_lowWaterBlocked (fold pool_destroy ps s) = pl_lowWaterBlocked s"
  "pl_checkout (fold pool_destroy ps s) = pl_checkout s"
  "pl_close (fold pool_destroy ps s) = pl_close s"
  "pl_shutdownDeadline (fold pool_destroy ps s) = pl_shutdownDeadline s"
  "pl_settled (fold pool_destroy ps s) = pl_settled s"
  by (induction ps arbitrary: s) simp_all

lemma fold_return_frame [simp]:
  "pl_config (fold returnToPool ps s) = pl_config s"
  "pl_phase (fold returnToPool ps s) = pl_phase s"
  "pl_records (fold returnToPool ps s) = pl_records s"
  "pl_nextPhysical (fold returnToPool ps s) = pl_nextPhysical s"
  "pl_creating (fold returnToPool ps s) = pl_creating s"
  "pl_waiters (fold returnToPool ps s) = pl_waiters s"
  "pl_leases (fold returnToPool ps s) = pl_leases s"
  "pl_nextCreationId (fold returnToPool ps s) = pl_nextCreationId s"
  "pl_nextWaiterId (fold returnToPool ps s) = pl_nextWaiterId s"
  "pl_lastLeaseGeneration (fold returnToPool ps s) = pl_lastLeaseGeneration s"
  "pl_lastClockValue (fold returnToPool ps s) = pl_lastClockValue s"
  "pl_pumpScheduled (fold returnToPool ps s) = pl_pumpScheduled s"
  "pl_dispatching (fold returnToPool ps s) = pl_dispatching s"
  "pl_pumpRequested (fold returnToPool ps s) = pl_pumpRequested s"
  "pl_lowWaterBlocked (fold returnToPool ps s) = pl_lowWaterBlocked s"
  "pl_checkout (fold returnToPool ps s) = pl_checkout s"
  "pl_close (fold returnToPool ps s) = pl_close s"
  "pl_shutdownDeadline (fold returnToPool ps s) = pl_shutdownDeadline s"
  "pl_settled (fold returnToPool ps s) = pl_settled s"
  by (induction ps arbitrary: s) simp_all

lemma lease_all_frame [simp]:
  "pl_config (lease_all ps s) = pl_config s"
  "pl_phase (lease_all ps s) = pl_phase s"
  "pl_records (lease_all ps s) = pl_records s"
  "pl_nextPhysical (lease_all ps s) = pl_nextPhysical s"
  "pl_idle (lease_all ps s) = pl_idle s"
  "pl_creating (lease_all ps s) = pl_creating s"
  "pl_waiters (lease_all ps s) = pl_waiters s"
  "pl_nextCreationId (lease_all ps s) = pl_nextCreationId s"
  "pl_nextWaiterId (lease_all ps s) = pl_nextWaiterId s"
  "pl_lastClockValue (lease_all ps s) = pl_lastClockValue s"
  "pl_pumpScheduled (lease_all ps s) = pl_pumpScheduled s"
  "pl_dispatching (lease_all ps s) = pl_dispatching s"
  "pl_pumpRequested (lease_all ps s) = pl_pumpRequested s"
  "pl_lowWaterBlocked (lease_all ps s) = pl_lowWaterBlocked s"
  "pl_checkout (lease_all ps s) = pl_checkout s"
  "pl_close (lease_all ps s) = pl_close s"
  "pl_shutdownDeadline (lease_all ps s) = pl_shutdownDeadline s"
  "pl_settled (lease_all ps s) = pl_settled s"
  by (induction ps arbitrary: s; simp add: lease_all_def)+

lemma fold_reject_frame [simp]:
  "pl_config (fold (\<lambda>i. rejectWaiter i e) js s) = pl_config s"
  "pl_phase (fold (\<lambda>i. rejectWaiter i e) js s) = pl_phase s"
  "pl_records (fold (\<lambda>i. rejectWaiter i e) js s) = pl_records s"
  "pl_heap (fold (\<lambda>i. rejectWaiter i e) js s) = pl_heap s"
  "pl_nextPhysical (fold (\<lambda>i. rejectWaiter i e) js s) = pl_nextPhysical s"
  "pl_idle (fold (\<lambda>i. rejectWaiter i e) js s) = pl_idle s"
  "pl_leases (fold (\<lambda>i. rejectWaiter i e) js s) = pl_leases s"
  "pl_nextCreationId (fold (\<lambda>i. rejectWaiter i e) js s) = pl_nextCreationId s"
  "pl_nextWaiterId (fold (\<lambda>i. rejectWaiter i e) js s) = pl_nextWaiterId s"
  "pl_lastLeaseGeneration (fold (\<lambda>i. rejectWaiter i e) js s) = pl_lastLeaseGeneration s"
  "pl_lastClockValue (fold (\<lambda>i. rejectWaiter i e) js s) = pl_lastClockValue s"
  "pl_dispatching (fold (\<lambda>i. rejectWaiter i e) js s) = pl_dispatching s"
  "pl_lowWaterBlocked (fold (\<lambda>i. rejectWaiter i e) js s) = pl_lowWaterBlocked s"
  "pl_checkout (fold (\<lambda>i. rejectWaiter i e) js s) = pl_checkout s"
  "pl_close (fold (\<lambda>i. rejectWaiter i e) js s) = pl_close s"
  "pl_shutdownDeadline (fold (\<lambda>i. rejectWaiter i e) js s) = pl_shutdownDeadline s"
  by (induction js arbitrary: s) simp_all

lemma readClock_frame:
  "pool_readClock now s = Inr s' \<longleftrightarrow> s' = s\<lparr>pl_lastClockValue := Some now\<rparr> \<and>
    (case pl_lastClockValue s of None \<Rightarrow> True | Some previous \<Rightarrow> previous \<le> now)"
  by (auto simp: pool_readClock_def split: option.splits)

section \<open>Reasoning about the dispatcher\<close>

text \<open>What the loop keeps up to its exit, and what each exit gives.\<close>

lemma pool_dispatch_rule:
  assumes start: "P s"
    and shut: "\<And>s. P s \<Longrightarrow> pl_phase s \<noteq> PoolOpen \<Longrightarrow> Q (end_dispatch s)"
    and idle: "\<And>s. P s \<Longrightarrow> pl_phase s = PoolOpen \<Longrightarrow> pl_waiters s = [] \<Longrightarrow>
      Q (end_dispatch (ensureLowWater (trimIdleHigh s)))"
    and reject: "\<And>s w ws e. P s \<Longrightarrow> pl_phase s = PoolOpen \<Longrightarrow> pl_waiters s = w # ws \<Longrightarrow> P (rejectWaiter (w_id w) e s)"
    and clock: "\<And>s. P s \<Longrightarrow> P (s\<lparr>pl_lastClockValue := Some now\<rparr>)"
    and more: "\<And>s w ws. P s \<Longrightarrow> pl_phase s = PoolOpen \<Longrightarrow> pl_waiters s = w # ws \<Longrightarrow>
      length (pl_idle s) < w_count w \<Longrightarrow> Q (end_dispatch (ensureWaiterCapacity w s))"
    and checkout: "\<And>s w ws. P s \<Longrightarrow> pl_phase s = PoolOpen \<Longrightarrow> pl_waiters s = w # ws \<Longrightarrow>
      w_count w \<le> length (pl_idle s) \<Longrightarrow> now < w_deadline w \<Longrightarrow> Q (begin_checkout w s)"
  shows "Q (pool_dispatch now s)"
  using start clock reject more checkout
proof (induction now s rule: pool_dispatch.induct)
  case (1 now s)
  note IH = "1.IH" and P = "1.prems"
  show ?case
  proof (cases "pl_phase s = PoolOpen \<and> pl_waiters s \<noteq> []")
    case False
    then show ?thesis using P(1) shut idle by (subst pool_dispatch.simps) (auto split: list.split)
  next
    case True
    then obtain w ws where w: "pl_phase s = PoolOpen" "pl_waiters s = w # ws" by (auto simp: neq_Nil_conv)
    show ?thesis
    proof (cases "pool_readClock now s")
      case (Inl e)
      then have "pool_dispatch now s = pool_dispatch now (rejectWaiter (w_id w) e s)"
        using w by (subst pool_dispatch.simps) simp
      moreover have "Q (pool_dispatch now (rejectWaiter (w_id w) e s))"
        by (rule IH(1) [OF _ w(2) Inl P(3) [OF P(1) w] P(2-5)]) (use w in simp_all)
      ultimately show ?thesis by simp
    next
      case (Inr s')
      then have s': "s' = s\<lparr>pl_lastClockValue := Some now\<rparr>" by (simp add: readClock_frame)
      have P': "P s'" "pl_phase s' = PoolOpen" "pl_waiters s' = w # ws" using P(1,2) w s' by simp_all
      show ?thesis
      proof (cases "w_deadline w \<le> now")
        case True
        have "Q (pool_dispatch now (rejectWaiter (w_id w) (pool_error ''ACQUIRE_TIMEOUT'') s'))"
          by (rule IH(2) [OF _ w(2) Inr True P(3) [OF P'] P(2-5)]) (use w in simp_all)
        with True w Inr show ?thesis by (subst pool_dispatch.simps) simp
      next
        case False
        with P(4,5) [OF P'] w Inr show ?thesis by (subst pool_dispatch.simps) simp
      qed
    qed
  qed
qed

end
