(* ===== verification/PoolInvariant.thy ===== *)
theory PoolInvariant
  imports PoolFrame
begin

text \<open>
  What holds of the pool between any two steps. While a step runs, connections may be in its
  hands, in no pool at all; the invariant of the connections is stated for a set of such
  connections, and every private operation takes some into hand or puts some back.
\<close>

section \<open>Connections\<close>

definition pl_candidates :: "pool \<Rightarrow> nat list" where
  "pl_candidates s = (case pl_checkout s of None \<Rightarrow> [] | Some k \<Rightarrow> k_candidates k)"

definition leased :: "pool \<Rightarrow> nat \<Rightarrow> bool" where
  "leased s p \<longleftrightarrow> (\<exists>l. pl_leases s (p_generation (pl_heap s p)) = Some l \<and> l_active l \<and> l_physical l = p)"

text \<open>A connection is in hand, or in exactly the one place its state names.\<close>

definition hand_ok :: "pool \<Rightarrow> nat \<Rightarrow> bool" where
  "hand_ok s p \<longleftrightarrow> p \<notin> set (pl_idle s) \<and> p \<notin> set (pl_candidates s) \<and> \<not> leased s p \<and>
     p_destroy (pl_heap s p) = NotDestroyed \<and> p_reset (pl_heap s p) = None"

definition lease_reset_ok :: "pool \<Rightarrow> nat \<Rightarrow> bool" where
  "lease_reset_ok s p \<longleftrightarrow> (\<forall>g. p_reset (pl_heap s p) = Some (LeaseReset g) \<longrightarrow> g = p_generation (pl_heap s p) \<and>
     (\<exists>l. pl_leases s g = Some l \<and> l_activeOperations l = 1))"

definition place_ok :: "pool \<Rightarrow> nat \<Rightarrow> bool" where
  "place_ok s p \<longleftrightarrow> (p \<in> set (pl_idle s) \<longleftrightarrow> p_state (pl_heap s p) = PIdle) \<and>
     (p \<in> set (pl_candidates s) \<longleftrightarrow> p_state (pl_heap s p) = PValidating) \<and>
     (p_destroy (pl_heap s p) \<noteq> NotDestroyed \<longleftrightarrow> p_state (pl_heap s p) = PClosing) \<and>
     (p_reset (pl_heap s p) \<noteq> None \<longleftrightarrow> p_state (pl_heap s p) = PResetting) \<and>
     (leased s p \<longleftrightarrow> p_state (pl_heap s p) = PLeased \<or> (\<exists>g. p_reset (pl_heap s p) = Some (LeaseReset g))) \<and>
     lease_reset_ok s p"

definition physical_ok :: "nat set \<Rightarrow> pool \<Rightarrow> nat \<Rightarrow> bool" where
  "physical_ok H s p \<longleftrightarrow> (if p \<in> H then hand_ok s p else place_ok s p)"

definition phys_inv :: "nat set \<Rightarrow> pool \<Rightarrow> bool" where
  "phys_inv H s \<longleftrightarrow> distinct (pl_records s) \<and> (\<forall>p\<in>set (pl_records s). p < pl_nextPhysical s) \<and>
     distinct (pl_idle s) \<and> set (pl_idle s) \<subseteq> set (pl_records s) \<and> H \<subseteq> set (pl_records s) \<and>
     distinct (pl_candidates s) \<and> set (pl_candidates s) \<subseteq> set (pl_records s) \<and>
     inj_on (\<lambda>p. p_resource (pl_heap s p)) (set (pl_records s)) \<and>
     (\<forall>p\<in>set (pl_records s). physical_ok H s p)"

definition lease_inv :: "pool \<Rightarrow> bool" where
  "lease_inv s \<longleftrightarrow> (\<forall>g l. pl_leases s g = Some l \<longrightarrow> 0 < g \<and> g \<le> pl_lastLeaseGeneration s \<and>
     l_activeOperations l \<le> 1 \<and> (\<not> l_active l \<longrightarrow> l_activeOperations l = 0) \<and>
     (l_active l \<longrightarrow> l_physical l \<in> set (pl_records s) \<and> p_generation (pl_heap s (l_physical l)) = g))"

lemma lease_inv_D:
  assumes "lease_inv s" and "pl_leases s g = Some l"
  shows "0 < g" "g \<le> pl_lastLeaseGeneration s" "l_activeOperations l \<le> 1"
    "\<not> l_active l \<Longrightarrow> l_activeOperations l = 0"
    "l_active l \<Longrightarrow> l_physical l \<in> set (pl_records s)"
    "l_active l \<Longrightarrow> p_generation (pl_heap s (l_physical l)) = g"
  using assms by (auto simp: lease_inv_def)

lemmas phys_defs = phys_inv_def physical_ok_def hand_ok_def place_ok_def lease_reset_ok_def leased_def
  pl_candidates_def upd_physical_def

lemma phys_inv_cong:
  assumes "pl_records t = pl_records s" "pl_heap t = pl_heap s" "pl_nextPhysical t = pl_nextPhysical s"
    "pl_idle t = pl_idle s" "pl_checkout t = pl_checkout s" "pl_leases t = pl_leases s"
  shows "phys_inv H t = phys_inv H s"
  using assms by (simp add: phys_defs)

lemma lease_inv_cong:
  assumes "pl_records t = pl_records s" "pl_heap t = pl_heap s" "pl_leases t = pl_leases s"
    "pl_lastLeaseGeneration t = pl_lastLeaseGeneration s"
  shows "lease_inv t = lease_inv s"
  using assms by (simp add: lease_inv_def)

lemma phys_inv_D:
  assumes "phys_inv H s"
  shows "distinct (pl_records s)" "\<And>p. p \<in> set (pl_records s) \<Longrightarrow> p < pl_nextPhysical s" "distinct (pl_idle s)"
    "set (pl_idle s) \<subseteq> set (pl_records s)" "H \<subseteq> set (pl_records s)" "distinct (pl_candidates s)"
    "set (pl_candidates s) \<subseteq> set (pl_records s)" "inj_on (\<lambda>p. p_resource (pl_heap s p)) (set (pl_records s))"
    "\<And>p. p \<in> set (pl_records s) \<Longrightarrow> physical_ok H s p"
  using assms by (simp_all add: phys_inv_def)

text \<open>An operation that keeps the records changes few connections; the others need no proof.\<close>

lemma phys_inv_moveI:
  assumes "phys_inv H s" and "pl_records t = pl_records s" and "pl_nextPhysical t = pl_nextPhysical s"
    and "distinct (pl_idle t)" and "set (pl_idle t) \<subseteq> set (pl_records s)" and "H' \<subseteq> set (pl_records s)"
    and "distinct (pl_candidates t)" and "set (pl_candidates t) \<subseteq> set (pl_records s)"
    and "\<And>q. p_resource (pl_heap t q) = p_resource (pl_heap s q)"
    and "\<And>q. q \<in> P \<Longrightarrow> q \<in> set (pl_records s) \<Longrightarrow> physical_ok H' t q"
    and "\<And>q. q \<notin> P \<Longrightarrow> pl_heap t q = pl_heap s q \<and> (q \<in> set (pl_idle t) \<longleftrightarrow> q \<in> set (pl_idle s)) \<and>
      (q \<in> set (pl_candidates t) \<longleftrightarrow> q \<in> set (pl_candidates s)) \<and> (q \<in> H' \<longleftrightarrow> q \<in> H)"
    and "\<And>q. q \<notin> P \<Longrightarrow> q \<in> set (pl_records s) \<Longrightarrow> leased t q \<longleftrightarrow> leased s q"
    and "\<And>q. q \<notin> P \<Longrightarrow> q \<in> set (pl_records s) \<Longrightarrow> leased s q \<Longrightarrow> lease_reset_ok s q \<Longrightarrow> lease_reset_ok t q"
  shows "phys_inv H' t"
proof -
  have "physical_ok H' t q" if q: "q \<in> set (pl_records s)" for q
  proof (cases "q \<in> P")
    case False
    have ok: "physical_ok H s q" using assms(1) q by (simp add: phys_inv_def)
    note same = assms(11) [OF False] assms(12) [OF False q]
    show ?thesis
    proof (cases "q \<in> H")
      case True
      with ok same show ?thesis by (simp add: physical_ok_def hand_ok_def)
    next
      case out: False
      have "lease_reset_ok t q"
      proof (cases "leased s q")
        case True
        with assms(13) [OF False q] ok out show ?thesis by (simp add: physical_ok_def place_ok_def)
      next
        case free: False
        with ok out same show ?thesis by (simp add: physical_ok_def place_ok_def lease_reset_ok_def)
      qed
      with out ok same show ?thesis by (simp add: physical_ok_def place_ok_def)
    qed
  qed (use assms(10) q in simp)
  then show ?thesis
    using assms(2-9) phys_inv_D [OF assms(1)] by (simp add: phys_inv_def)
qed

lemma in_hand:
  assumes "phys_inv H s" and "p \<in> H \<union> set (pl_idle s)"
  shows "p \<in> set (pl_records s)" "p_destroy (pl_heap s p) = NotDestroyed" "p_reset (pl_heap s p) = None"
    "\<not> leased s p" "p \<notin> set (pl_candidates s)"
proof -
  show p: "p \<in> set (pl_records s)" using phys_inv_D(4,5) [OF assms(1)] assms(2) by auto
  then have "physical_ok H s p" by (rule phys_inv_D(9) [OF assms(1)])
  with assms(2) show "p_destroy (pl_heap s p) = NotDestroyed" "p_reset (pl_heap s p) = None" "\<not> leased s p"
      "p \<notin> set (pl_candidates s)"
    by (auto simp: physical_ok_def hand_ok_def place_ok_def split: if_splits)
qed

lemma phys_inv_destroy:
  assumes "phys_inv H s" and "p \<in> H \<union> set (pl_idle s)"
  shows "phys_inv (H - {p}) (pool_destroy p s)"
proof (rule phys_inv_moveI [OF assms(1), where P = "{p}"], goal_cases)
  case (9 q)
  then show ?case using in_hand [OF assms] phys_inv_D [OF assms(1)]
    by (auto simp: physical_ok_def place_ok_def lease_reset_ok_def pool_destroy_def upd_physical_def leased_def pl_candidates_def)
qed (use in_hand [OF assms] phys_inv_D [OF assms(1)] in
  \<open>auto simp: pool_destroy_def upd_physical_def leased_def lease_reset_ok_def pl_candidates_def\<close>)

lemmas ok_defs = physical_ok_def hand_ok_def place_ok_def lease_reset_ok_def leased_def pl_candidates_def
  upd_physical_def

text \<open>Fields of a connection that no invariant reads.\<close>

lemma phys_inv_touch:
  assumes "phys_inv H s" and "\<And>x. p_resource (f x) = p_resource x \<and> p_state (f x) = p_state x \<and>
    p_generation (f x) = p_generation x \<and> p_reset (f x) = p_reset x"
    and "p_destroy (f (pl_heap s p)) = NotDestroyed \<longleftrightarrow> p_destroy (pl_heap s p) = NotDestroyed"
  shows "phys_inv H (upd_physical p f s)"
proof (rule phys_inv_moveI [OF assms(1), where P = "{p}"], goal_cases)
  case (9 q)
  then have "physical_ok H s q" by (simp add: phys_inv_D [OF assms(1)])
  with 9 assms(2,3) show ?case by (auto simp: ok_defs)
qed (use phys_inv_D [OF assms(1)] assms(2) in \<open>auto simp: upd_physical_def leased_def lease_reset_ok_def pl_candidates_def\<close>)

lemma phys_inv_touch_many:
  assumes "phys_inv H s"
  shows "phys_inv H (s\<lparr>pl_heap := (\<lambda>p. if p \<in> A then (pl_heap s p)\<lparr>p_recycleIdleHigh := None\<rparr> else pl_heap s p)\<rparr>)"
proof (rule phys_inv_moveI [OF assms(1), where P = A], goal_cases)
  case (9 q)
  then have "physical_ok H s q" by (simp add: phys_inv_D [OF assms(1)])
  with 9 show ?case by (auto simp: ok_defs)
qed (use phys_inv_D [OF assms(1)] in \<open>auto simp: upd_physical_def leased_def lease_reset_ok_def pl_candidates_def\<close>)

lemma phys_inv_idle:
  assumes "phys_inv H s" and "p \<in> H"
  shows "phys_inv (H - {p}) (upd_physical p (\<lambda>x. x\<lparr>p_state := PIdle, p_recycleIdleHigh := h x\<rparr>)
    (s\<lparr>pl_idle := pl_idle s @ [p]\<rparr>))"
proof -
  have "hand_ok s p" using phys_inv_D(5,9) [OF assms(1)] assms(2) by (auto simp: physical_ok_def)
  note p = this [unfolded hand_ok_def]
  show ?thesis
  proof (rule phys_inv_moveI [OF assms(1), where P = "{p}"], goal_cases)
    case (9 q)
    then show ?case using p by (auto simp: ok_defs)
  qed (use phys_inv_D [OF assms(1)] assms(2) p in
    \<open>auto simp: upd_physical_def leased_def lease_reset_ok_def pl_candidates_def\<close>)
qed

lemma phys_inv_return:
  assumes "phys_inv H s" and "p \<in> H"
  shows "phys_inv (H - {p}) (returnToPool p s)"
proof -
  have "hand_ok s p" "p \<in> set (pl_records s)"
    using phys_inv_D(5,9) [OF assms(1)] assms(2) by (auto simp: physical_ok_def)
  then have "p \<notin> set (pl_idle s)" "p \<in> set (pl_records s)" by (simp_all add: hand_ok_def)
  moreover have "phys_inv (H - {p}) (pool_destroy p (upd_physical p (\<lambda>x. x\<lparr>p_recycleIdleHigh := None\<rparr>) s))"
    using assms(2) by (intro phys_inv_destroy phys_inv_touch assms(1)) simp_all
  ultimately show ?thesis
    using assms phys_inv_destroy [OF assms(1)] phys_inv_idle [OF assms] by (auto simp: returnToPool_def Let_def)
qed

lemma phys_inv_fold:
  assumes "\<And>H s p. phys_inv H s \<Longrightarrow> p \<in> H \<Longrightarrow> phys_inv (H - {p}) (f p s)"
    and "phys_inv H s" and "distinct ps" and "set ps \<subseteq> H"
  shows "phys_inv (H - set ps) (fold f ps s)"
  using assms(2-4)
proof (induction ps arbitrary: H s)
  case (Cons p ps)
  then have "phys_inv (H - {p}) (f p s)" using assms(1) by simp
  moreover have "set ps \<subseteq> H - {p}" "distinct ps" using Cons.prems by auto
  ultimately have "phys_inv (H - {p} - set ps) (fold f ps (f p s))" by (intro Cons.IH)
  then show ?case by (simp add: Diff_insert2 [of H p "set ps"])
qed simp

lemma phys_inv_destroy_hand: "phys_inv H s \<Longrightarrow> p \<in> H \<Longrightarrow> phys_inv (H - {p}) (pool_destroy p s)"
  by (rule phys_inv_destroy) simp_all

lemma phys_inv_fold_destroy:
  "phys_inv H s \<Longrightarrow> distinct ps \<Longrightarrow> set ps \<subseteq> H \<Longrightarrow> phys_inv (H - set ps) (fold pool_destroy ps s)"
  by (rule phys_inv_fold) (rule phys_inv_destroy_hand)

lemma phys_inv_fold_return:
  "phys_inv H s \<Longrightarrow> distinct ps \<Longrightarrow> set ps \<subseteq> H \<Longrightarrow> phys_inv (H - set ps) (fold returnToPool ps s)"
  by (rule phys_inv_fold) (rule phys_inv_return)

text \<open>Issuing a lease for a connection in hand.\<close>

lemma phys_inv_lease:
  assumes "phys_inv H s" and "lease_inv s" and "p \<in> H"
  shows "phys_inv (H - {p}) (pool_lease p s)"
proof -
  have "hand_ok s p" using phys_inv_D(5,9) [OF assms(1)] assms(3) by (auto simp: physical_ok_def)
  note p = this [unfolded hand_ok_def]
  have fresh: "pl_leases s (Suc (pl_lastLeaseGeneration s)) = None"
    using lease_inv_D(2) [OF assms(2), of "Suc (pl_lastLeaseGeneration s)"] by fastforce
  show ?thesis
  proof (rule phys_inv_moveI [OF assms(1), where P = "{p}"], goal_cases)
    case (9 q)
    then show ?case using p by (auto simp: ok_defs pool_lease_def Let_def)
  next
    case (11 q)
    then show ?case using fresh by (auto simp: pool_lease_def Let_def leased_def upd_physical_def)
  next
    case (12 q)
    then show ?case using fresh by (auto simp: pool_lease_def Let_def lease_reset_ok_def upd_physical_def)
  qed (use phys_inv_D [OF assms(1)] assms(2,3) p in
    \<open>auto simp: pool_lease_def Let_def upd_physical_def pl_candidates_def\<close>)
qed

lemma lease_inv_lease:
  assumes "phys_inv H s" and "lease_inv s" and "p \<in> H"
  shows "lease_inv (pool_lease p s)"
proof -
  have "\<not> leased s p" "p \<in> set (pl_records s)" using in_hand [OF assms(1)] assms(3) by auto
  moreover note lease_inv_D [OF assms(2)]
  ultimately show ?thesis
    by (auto simp: lease_inv_def pool_lease_def Let_def upd_physical_def leased_def intro: le_SucI)
qed

lemma phys_inv_lease_all:
  assumes "phys_inv H s" and "lease_inv s" and "distinct ps" and "set ps \<subseteq> H"
  shows "phys_inv (H - set ps) (lease_all ps s) \<and> lease_inv (lease_all ps s)"
  using assms
proof (induction ps arbitrary: H s)
  case (Cons p ps)
  then have "phys_inv (H - {p}) (pool_lease p s)" "lease_inv (pool_lease p s)"
    using phys_inv_lease lease_inv_lease by simp_all
  with Cons have "phys_inv (H - {p} - set ps) (lease_all ps (pool_lease p s)) \<and>
      lease_inv (lease_all ps (pool_lease p s))" by (intro Cons.IH) auto
  then show ?case by (simp add: lease_all_def Diff_insert2 [of H p "set ps"])
qed (simp add: lease_all_def)

section \<open>Leases under the other operations\<close>

lemma lease_inv_gen:
  assumes "pl_records t = pl_records s" "pl_leases t = pl_leases s"
    "pl_lastLeaseGeneration t = pl_lastLeaseGeneration s"
    "\<And>q. p_generation (pl_heap t q) = p_generation (pl_heap s q)"
  shows "lease_inv t = lease_inv s"
  using assms by (simp add: lease_inv_def)

lemma generation_frame [simp]:
  "p_generation (pl_heap (pool_destroy p s) q) = p_generation (pl_heap s q)"
  "p_generation (pl_heap (returnToPool p s) q) = p_generation (pl_heap s q)"
  "p_generation (pl_heap (begin_checkout w s) q) = p_generation (pl_heap s q)"
  "p_generation (pl_heap (fold pool_destroy ps s) q) = p_generation (pl_heap s q)"
  "p_generation (pl_heap (fold returnToPool ps s) q) = p_generation (pl_heap s q)"
  "p_generation (pl_heap (trim_loop n h s) q) = p_generation (pl_heap s q)"
  "p_generation (pl_heap (trimIdleHigh s) q) = p_generation (pl_heap s q)"
proof -
  show d: "p_generation (pl_heap (pool_destroy p s) q) = p_generation (pl_heap s q)" for p s q
    by (simp add: pool_destroy_def upd_physical_def)
  then show r: "p_generation (pl_heap (returnToPool p s) q) = p_generation (pl_heap s q)" for p s q
    by (simp add: returnToPool_def upd_physical_def Let_def)
  show "p_generation (pl_heap (begin_checkout w s) q) = p_generation (pl_heap s q)"
    by (simp add: begin_checkout_def Let_def)
  show "p_generation (pl_heap (fold pool_destroy ps s) q) = p_generation (pl_heap s q)"
    by (induction ps arbitrary: s) (simp_all add: d)
  show "p_generation (pl_heap (fold returnToPool ps s) q) = p_generation (pl_heap s q)"
    by (induction ps arbitrary: s) (simp_all add: r)
  show t: "p_generation (pl_heap (trim_loop n h s) q) = p_generation (pl_heap s q)" for n h s
    by (induction n h s rule: trim_loop.induct) (simp_all add: d)
  show "p_generation (pl_heap (trimIdleHigh s) q) = p_generation (pl_heap s q)"
    by (simp add: trimIdleHigh_def t Let_def)
qed

lemma lease_inv_frame [simp]:
  "lease_inv (pool_destroy p s) = lease_inv s"
  "lease_inv (returnToPool p s) = lease_inv s"
  "lease_inv (begin_checkout w s) = lease_inv s"
  "lease_inv (fold pool_destroy ps s) = lease_inv s"
  "lease_inv (fold returnToPool ps s) = lease_inv s"
  "lease_inv (trimIdleHigh s) = lease_inv s"
  "lease_inv (requestPump s) = lease_inv s"
  "lease_inv (rejectWaiter i e s) = lease_inv s"
  "lease_inv (cleanupWaiter i s) = lease_inv s"
  "lease_inv (ensureLowWater s) = lease_inv s"
  "lease_inv (ensureWaiterCapacity w s) = lease_inv s"
  "lease_inv (end_dispatch s) = lease_inv s"
  "lease_inv (checkClosed s) = lease_inv s"
  "lease_inv (failClose e s) = lease_inv s"
  "lease_inv (drop_creation i s) = lease_inv s"
  "lease_inv (count_timeout e s) = lease_inv s"
  "lease_inv (upd_waiter i f s) = lease_inv s"
  "lease_inv (fold (\<lambda>i. rejectWaiter i e) js s) = lease_inv s"
  by (rule lease_inv_gen; simp)+

lemma phys_inv_frame [simp]:
  "phys_inv H (requestPump s) = phys_inv H s"
  "phys_inv H (rejectWaiter i e s) = phys_inv H s"
  "phys_inv H (cleanupWaiter i s) = phys_inv H s"
  "phys_inv H (ensureLowWater s) = phys_inv H s"
  "phys_inv H (ensureWaiterCapacity w s) = phys_inv H s"
  "phys_inv H (end_dispatch s) = phys_inv H s"
  "phys_inv H (checkClosed s) = phys_inv H s"
  "phys_inv H (failClose e s) = phys_inv H s"
  "phys_inv H (drop_creation i s) = phys_inv H s"
  "phys_inv H (count_timeout e s) = phys_inv H s"
  "phys_inv H (upd_waiter i f s) = phys_inv H s"
  "phys_inv H (fold (\<lambda>i. rejectWaiter i e) js s) = phys_inv H s"
  by (rule phys_inv_cong; simp)+

section \<open>Taking connections into hand\<close>

lemma phys_inv_begin_checkout:
  assumes "phys_inv {} s" and "pl_checkout s = None"
  shows "phys_inv {} (begin_checkout w s)"
proof (rule phys_inv_moveI [OF assms(1), where P = "set (take (w_count w) (pl_idle s))"], goal_cases)
  case (9 q)
  then have "q \<in> set (pl_idle s)" by (auto dest: in_set_takeD)
  then have "q \<notin> set (drop (w_count w) (pl_idle s))" "place_ok s q"
    using 9 phys_inv_D(3,9) [OF assms(1)] set_take_disj_set_drop_if_distinct [of "pl_idle s" "w_count w" "w_count w"]
    by (auto simp: physical_ok_def)
  with 9 \<open>q \<in> set (pl_idle s)\<close> show ?case by (auto simp: begin_checkout_def Let_def ok_defs)
next
  case (10 q)
  then have "q \<in> set (drop (w_count w) (pl_idle s)) \<longleftrightarrow> q \<in> set (pl_idle s)"
    by (metis append_take_drop_id Un_iff set_append)
  with 10 assms(2) show ?case by (simp add: begin_checkout_def Let_def pl_candidates_def)
qed (use phys_inv_D(3,4) [OF assms(1)] in
  \<open>auto simp: begin_checkout_def Let_def pl_candidates_def leased_def lease_reset_ok_def dest: in_set_takeD in_set_dropD\<close>)

lemma phys_inv_take_candidates:
  assumes "phys_inv {} s"
  shows "phys_inv (set (pl_candidates s)) (s\<lparr>pl_checkout := None\<rparr>)"
proof (rule phys_inv_moveI [OF assms, where P = "set (pl_candidates s)"], goal_cases)
  case (9 q)
  then have "place_ok s q" using phys_inv_D(9) [OF assms] by (simp add: physical_ok_def)
  with 9 show ?case by (auto simp: ok_defs)
qed (use phys_inv_D [OF assms] in \<open>auto simp: pl_candidates_def leased_def lease_reset_ok_def\<close>)

lemma active_lease_place:
  assumes "phys_inv {} s" and "lease_inv s" and "pl_leases s g = Some l" and "l_active l"
  shows "l_physical l \<in> set (pl_records s)" "leased s (l_physical l)" "g = p_generation (pl_heap s (l_physical l))"
    "place_ok s (l_physical l)"
  using assms(3,4) lease_inv_D [OF assms(2,3)] phys_inv_D(9) [OF assms(1), of "l_physical l"]
  by (auto simp: leased_def physical_ok_def)

lemma phys_inv_release:
  assumes "phys_inv {} s" and "lease_inv s" and "pl_leases s g = Some l" and "l_active l" and "l_activeOperations l = 0"
  shows "phys_inv {l_physical l} (upd_lease g (l\<lparr>l_active := False\<rparr>) s)"
proof (rule phys_inv_moveI [OF assms(1), where P = "{l_physical l}"], goal_cases)
  case (9 q)
  then show ?case using active_lease_place [OF assms(1-4)] assms(3,5) by (auto simp: ok_defs upd_lease_def)
next
  case (11 q)
  then show ?case using assms(3,4) by (auto simp: leased_def upd_lease_def)
next
  case (12 q)
  then show ?case using assms(3,5) by (auto simp: lease_reset_ok_def upd_lease_def)
qed (use phys_inv_D [OF assms(1)] active_lease_place [OF assms(1-4)] in \<open>auto simp: upd_lease_def pl_candidates_def\<close>)

lemma phys_inv_start_reset:
  assumes "phys_inv H s" and "p \<in> H"
  shows "phys_inv (H - {p}) (upd_physical p (\<lambda>x. x\<lparr>p_state := PResetting, p_reset := Some ReleaseReset\<rparr>) s)"
proof -
  have "hand_ok s p" using phys_inv_D(5,9) [OF assms(1)] assms(2) by (auto simp: physical_ok_def)
  note p = this [unfolded hand_ok_def]
  show ?thesis
  proof (rule phys_inv_moveI [OF assms(1), where P = "{p}"], goal_cases)
    case (9 q)
    then show ?case using p by (auto simp: ok_defs)
  qed (use phys_inv_D [OF assms(1)] assms(2) p in
    \<open>auto simp: upd_physical_def leased_def lease_reset_ok_def pl_candidates_def\<close>)
qed

lemma phys_inv_end_reset:
  assumes "phys_inv {} s" and "p \<in> set (pl_records s)" and "p_reset (pl_heap s p) = Some ReleaseReset"
  shows "phys_inv {p} (upd_physical p (\<lambda>x. x\<lparr>p_reset := None\<rparr>) s)"
proof (rule phys_inv_moveI [OF assms(1), where P = "{p}"], goal_cases)
  case (9 q)
  then have "place_ok s q" using phys_inv_D(9) [OF assms(1)] by (simp add: physical_ok_def)
  with 9 assms(3) show ?case by (auto simp: ok_defs)
qed (use phys_inv_D [OF assms(1)] assms(2) in \<open>auto simp: upd_physical_def leased_def lease_reset_ok_def pl_candidates_def\<close>)

lemma phys_inv_lease_reset_begin:
  assumes "phys_inv {} s" and "lease_inv s" and "pl_leases s g = Some l" and "l_active l" and "l_activeOperations l = 0"
  shows "phys_inv {} (upd_physical (l_physical l) (\<lambda>x. x\<lparr>p_state := PResetting, p_reset := Some (LeaseReset g)\<rparr>)
    (upd_lease g (l\<lparr>l_activeOperations := Suc 0\<rparr>) s))"
proof (rule phys_inv_moveI [OF assms(1), where P = "{l_physical l}"], goal_cases)
  case (9 q)
  then show ?case using active_lease_place [OF assms(1-4)] assms(3-5) by (auto simp: ok_defs upd_lease_def)
next
  case (11 q)
  then show ?case using assms(3,4) by (auto simp: leased_def upd_lease_def upd_physical_def)
next
  case (12 q)
  then show ?case using assms(3,5) by (auto simp: lease_reset_ok_def upd_lease_def upd_physical_def)
qed (use phys_inv_D [OF assms(1)] active_lease_place [OF assms(1-4)] in
  \<open>auto simp: upd_lease_def pl_candidates_def upd_physical_def\<close>)

lemma phys_inv_lease_reset_end:
  assumes "phys_inv {} s" and "lease_inv s" and "p \<in> set (pl_records s)"
    and "p_reset (pl_heap s p) = Some (LeaseReset g)" and "pl_leases s g = Some l"
  shows "l_active l" "l_physical l = p" "p_state (pl_heap s p) = PResetting" "l_activeOperations l = 1"
    "phys_inv {} (upd_physical p (\<lambda>x. x\<lparr>p_reset := None, p_state := PLeased\<rparr>)
      (upd_lease g (l\<lparr>l_activeOperations := 0\<rparr>) s))"
proof -
  have p: "place_ok s p" using phys_inv_D(9) [OF assms(1,3)] by (simp add: physical_ok_def)
  then have "leased s p" "lease_reset_ok s p" and st: "p_state (pl_heap s p) = PResetting"
    using assms(4) by (auto simp: place_ok_def)
  have "g = p_generation (pl_heap s p) \<and> (\<exists>k. pl_leases s g = Some k \<and> l_activeOperations k = 1)"
    using \<open>lease_reset_ok s p\<close> assms(4) unfolding lease_reset_ok_def by (elim allE [of _ g] impE) assumption
  then obtain k where g: "p_generation (pl_heap s p) = g" and k: "pl_leases s g = Some k" "l_activeOperations k = 1"
    by auto
  obtain k' where k': "pl_leases s g = Some k'" "l_active k'" "l_physical k' = p"
    using \<open>leased s p\<close> unfolding leased_def g by auto
  have kk: "k = l" "k' = l" using k(1) k'(1) assms(5) by (rule_tac [!] option.inject [THEN iffD1]) (simp_all only:)
  show l: "l_active l" "l_physical l = p" "p_state (pl_heap s p) = PResetting" "l_activeOperations l = 1"
    using st k(2) k'(2,3) unfolding kk by (simp_all only:)
  show "phys_inv {} (upd_physical p (\<lambda>x. x\<lparr>p_reset := None, p_state := PLeased\<rparr>)
      (upd_lease g (l\<lparr>l_activeOperations := 0\<rparr>) s))"
  proof (rule phys_inv_moveI [OF assms(1), where P = "{p}"], goal_cases)
    case (9 q)
    then show ?case using p l assms(4,5) by (auto simp: ok_defs upd_lease_def)
  next
    case (11 q)
    then show ?case using assms(5) l by (auto simp: leased_def upd_lease_def upd_physical_def)
  next
    case (12 q)
    then have "p_generation (pl_heap s q) \<noteq> g" using assms(5) l(2) by (auto simp: leased_def)
    with 12 have "p_reset (pl_heap s q) \<noteq> Some (LeaseReset g)" unfolding lease_reset_ok_def by blast
    with 12 show ?case by (simp add: lease_reset_ok_def upd_lease_def upd_physical_def)
  qed (use phys_inv_D [OF assms(1)] in \<open>auto simp: upd_lease_def pl_candidates_def upd_physical_def\<close>)
qed

lemma phys_inv_use:
  assumes "phys_inv {} s" and "pl_leases s g = Some l" and "p_reset (pl_heap s (l_physical l)) \<noteq> Some (LeaseReset g)"
    and "lease_inv s"
  shows "phys_inv {} (upd_lease g (l\<lparr>l_activeOperations := n\<rparr>) s)"
proof (rule phys_inv_moveI [OF assms(1), where P = "{}"], goal_cases)
  case (11 q)
  then show ?case using assms(2) by (auto simp: leased_def upd_lease_def)
next
  case (12 q)
  then show ?case using assms(2,3) by (auto simp: lease_reset_ok_def upd_lease_def leased_def)
qed (use phys_inv_D [OF assms(1)] in \<open>auto simp: upd_lease_def pl_candidates_def\<close>)

text \<open>New connections and destroyed ones.\<close>

definition fresh_physical :: "nat \<Rightarrow> physical" where
  "fresh_physical r = \<lparr>p_resource = r, p_state = PIdle, p_generation = 0, p_recycleIdleHigh = None,
     p_destroy = NotDestroyed, p_destroyError = None, p_reset = None\<rparr>"

definition add_physical :: "nat \<Rightarrow> pool \<Rightarrow> pool" where
  "add_physical r s = upd_physical (pl_nextPhysical s) (\<lambda>_. fresh_physical r)
     (s\<lparr>pl_nextPhysical := Suc (pl_nextPhysical s), pl_records := pl_records s @ [pl_nextPhysical s]\<rparr>)"

lemma phys_inv_add:
  assumes "phys_inv {} s" and "lease_inv s" and "r \<notin> (\<lambda>p. p_resource (pl_heap s p)) ` set (pl_records s)"
  shows "phys_inv {pl_nextPhysical s} (add_physical r s)" "lease_inv (add_physical r s)"
proof -
  note D = phys_inv_D [OF assms(1)]
  have new: "pl_nextPhysical s \<notin> set (pl_records s)" using D(2) by blast
  have "pl_leases s 0 = None" using lease_inv_D(1) [OF assms(2)] by (cases "pl_leases s 0") auto
  then have "hand_ok (add_physical r s) (pl_nextPhysical s)"
    using new D(4,7) by (auto simp: add_physical_def hand_ok_def leased_def upd_physical_def pl_candidates_def fresh_physical_def)
  moreover have "place_ok (add_physical r s) q" if "q \<in> set (pl_records s)" for q
  proof -
    have "q \<noteq> pl_nextPhysical s" "place_ok s q" using that new D(9) [of q] by (auto simp: physical_ok_def)
    then show ?thesis
      by (simp add: add_physical_def place_ok_def lease_reset_ok_def leased_def upd_physical_def pl_candidates_def)
  qed
  ultimately have "physical_ok {pl_nextPhysical s} (add_physical r s) q"
    if "q = pl_nextPhysical s \<or> q \<in> set (pl_records s)" for q
    using that new by (auto simp: physical_ok_def)
  then show "phys_inv {pl_nextPhysical s} (add_physical r s)"
    using D new assms(3)
    by (auto simp: phys_inv_def add_physical_def upd_physical_def pl_candidates_def inj_on_def less_Suc_eq
        fresh_physical_def)
  show "lease_inv (add_physical r s)"
  proof -
    have "l_physical l \<noteq> pl_nextPhysical s" if "pl_leases s g = Some l" "l_active l" for g l
      using lease_inv_D(5) [OF assms(2) that] new by auto
    with lease_inv_D [OF assms(2)] show ?thesis by (auto simp: lease_inv_def add_physical_def upd_physical_def)
  qed
qed

lemma phys_inv_remove:
  assumes "phys_inv {} s" and "lease_inv s" and "p_destroy (pl_heap s p) \<noteq> NotDestroyed"
  shows "phys_inv {} (s\<lparr>pl_records := filter (\<lambda>q. q \<noteq> p) (pl_records s)\<rparr>)"
    "lease_inv (s\<lparr>pl_records := filter (\<lambda>q. q \<noteq> p) (pl_records s)\<rparr>)"
proof -
  note D = phys_inv_D [OF assms(1)]
  have p: "p \<notin> set (pl_idle s)" "p \<notin> set (pl_candidates s)" "\<not> leased s p"
  proof -
    have "p \<notin> set (pl_idle s) \<and> p \<notin> set (pl_candidates s) \<and> \<not> leased s p"
    proof (cases "p \<in> set (pl_records s)")
      case True
      with D(9) [OF True] assms(3) show ?thesis by (auto simp: physical_ok_def place_ok_def)
    next
      case False
      with D(4,7) active_lease_place(1) [OF assms(1,2)] show ?thesis by (auto simp: leased_def)
    qed
    then show "p \<notin> set (pl_idle s)" "p \<notin> set (pl_candidates s)" "\<not> leased s p" by simp_all
  qed
  then show "phys_inv {} (s\<lparr>pl_records := filter (\<lambda>q. q \<noteq> p) (pl_records s)\<rparr>)"
    using D by (auto simp: phys_inv_def ok_defs inj_on_def)
  show "lease_inv (s\<lparr>pl_records := filter (\<lambda>q. q \<noteq> p) (pl_records s)\<rparr>)"
    using lease_inv_D [OF assms(2)] active_lease_place(2) [OF assms(1,2)] p(3) by (auto simp: lease_inv_def)
qed

end
