(* ===== verification/PoolSafety.thy ===== *)
theory PoolSafety
  imports PoolInvariant
begin

text \<open>
  Every step of the pool keeps its invariants: first the one of connections and leases, then
  capacity, the queue of waiters and the phases of shutdown.
\<close>

section \<open>Connections and leases, step by step\<close>

definition core_inv :: "pool \<Rightarrow> bool" where
  "core_inv s \<longleftrightarrow> phys_inv {} s \<and> lease_inv s \<and> (pl_dispatching s \<longleftrightarrow> pl_checkout s \<noteq> None)"

lemma phys_inv_destroy_idle:
  "phys_inv {} s \<Longrightarrow> p \<in> set (pl_idle s) \<Longrightarrow> phys_inv {} (pool_destroy p s)"
  using phys_inv_destroy [of "{}" s p] by simp

lemma phys_inv_trim_loop: "phys_inv {} s \<Longrightarrow> phys_inv {} (trim_loop n h s)"
proof (induction n h s rule: trim_loop.induct)
  case (2 fuel high s)
  then show ?case using phys_inv_destroy_idle [of s "last (pl_idle s)"] by (cases "pl_idle s") auto
qed simp

lemma phys_inv_trim: "phys_inv {} s \<Longrightarrow> phys_inv {} (trimIdleHigh s)"
  by (simp add: trimIdleHigh_def Let_def phys_inv_trim_loop phys_inv_touch_many)

lemma end_dispatch_idle: "pl_dispatching (end_dispatch s) = False"
  by (simp add: end_dispatch_def Let_def requestPump_def)

lemma core_inv_end_dispatch:
  assumes "phys_inv {} s" and "lease_inv s" and "pl_checkout s = None"
  shows "core_inv (end_dispatch s)"
  using assms by (simp add: core_inv_def end_dispatch_idle)

lemma phys_inv_clock [simp]:
  "phys_inv H (s\<lparr>pl_lastClockValue := v\<rparr>) = phys_inv H s"
  "lease_inv (s\<lparr>pl_lastClockValue := v\<rparr>) = lease_inv s"
  by (rule phys_inv_cong; simp) (rule lease_inv_cong; simp)

lemma core_inv_dispatch:
  assumes "phys_inv {} s" and "lease_inv s" and "pl_checkout s = None" and "pl_dispatching s"
  shows "core_inv (pool_dispatch now s)"
proof (rule pool_dispatch_rule [where P = "\<lambda>s. phys_inv {} s \<and> lease_inv s \<and> pl_checkout s = None \<and> pl_dispatching s"],
    goal_cases)
  case (7 s w ws)
  then show ?case using phys_inv_begin_checkout [of s w]
    by (simp add: core_inv_def) (simp add: begin_checkout_def Let_def)
qed (use assms in \<open>auto intro!: core_inv_end_dispatch phys_inv_trim\<close>)

lemma phys_inv_finish_checkout:
  assumes "phys_inv {} s" and "lease_inv s" and "pl_checkout s = Some k"
  shows "phys_inv {} (finish_checkout k now (s\<lparr>pl_checkout := None\<rparr>))"
    "lease_inv (finish_checkout k now (s\<lparr>pl_checkout := None\<rparr>))"
proof -
  let ?bad = "filter (\<lambda>p. \<not> is_healthy k p) (k_candidates k)" and ?good = "filter (is_healthy k) (k_candidates k)"
  let ?t = "fold pool_destroy ?bad (s\<lparr>pl_checkout := None\<rparr>)"
  have cands: "pl_candidates s = k_candidates k" using assms(3) by (simp add: pl_candidates_def)
  have dist: "distinct (k_candidates k)" using phys_inv_D(6) [OF assms(1)] cands by simp
  have "phys_inv (set (k_candidates k)) (s\<lparr>pl_checkout := None\<rparr>)"
    using phys_inv_take_candidates [OF assms(1)] cands by simp
  then have "phys_inv (set (k_candidates k) - set ?bad) ?t"
    using dist by (intro phys_inv_fold_destroy) auto
  moreover have "set (k_candidates k) - set ?bad = set ?good" by auto
  ultimately have t: "phys_inv (set ?good) ?t" by metis
  have lt: "lease_inv ?t" using assms(2) by (simp add: lease_inv_def)
  have ret: "phys_inv {} (fold returnToPool ?good u)" if "phys_inv (set ?good) u" for u
    using phys_inv_fold_return [OF that, of ?good] dist by simp
  have lea: "phys_inv {} (lease_all ?good u) \<and> lease_inv (lease_all ?good u)" if "phys_inv (set ?good) u" "lease_inv u" for u
    using phys_inv_lease_all [OF that, of ?good] dist by simp
  obtain b u where u: "waiterCannotDispatch (k_waiter k) now ?t = (b, u)" by fastforce
  then have pu: "phys_inv (set ?good) u" "lease_inv u"
    using t lt by (auto simp: waiterCannotDispatch_def readClock_frame split: if_splits sum.splits)
  have "phys_inv {} (lease_all ?good (cleanupWaiter i u))" "lease_inv (lease_all ?good (cleanupWaiter i u))" for i
    using lea [of "cleanupWaiter i u"] pu by simp_all
  then show "phys_inv {} (finish_checkout k now (s\<lparr>pl_checkout := None\<rparr>))"
    using ret [OF t] ret [OF pu(1)] u by (simp add: finish_checkout_def Let_def phys_inv_def split: option.split) (simp add: phys_defs)
  show "lease_inv (finish_checkout k now (s\<lparr>pl_checkout := None\<rparr>))"
    using \<open>\<And>i. lease_inv (lease_all ?good (cleanupWaiter i u))\<close> lt pu u
    by (simp add: finish_checkout_def Let_def split: option.split) (simp add: lease_inv_def)
qed

lemma core_inv_cong:
  assumes "pl_records t = pl_records s" "pl_heap t = pl_heap s" "pl_nextPhysical t = pl_nextPhysical s"
    "pl_idle t = pl_idle s" "pl_checkout t = pl_checkout s" "pl_leases t = pl_leases s"
    "pl_lastLeaseGeneration t = pl_lastLeaseGeneration s" "pl_dispatching t = pl_dispatching s"
  shows "core_inv t = core_inv s"
  using assms phys_inv_cong [of t s "{}"] lease_inv_cong [of t s] by (simp add: core_inv_def)

text \<open>Steps that only touch the queue, the creations, the close promise or the counters.\<close>

lemma core_inv_frame [simp]:
  "core_inv (requestPump s) = core_inv s"
  "core_inv (rejectWaiter i e s) = core_inv s"
  "core_inv (ensureLowWater s) = core_inv s"
  "core_inv (checkClosed s) = core_inv s"
  "core_inv (failClose e s) = core_inv s"
  "core_inv (drop_creation i s) = core_inv s"
  "core_inv (count_timeout e s) = core_inv s"
  "core_inv (upd_waiter i f s) = core_inv s"
  "core_inv (fold (\<lambda>i. rejectWaiter i e) js s) = core_inv s"
  "core_inv (s\<lparr>pl_lastClockValue := v\<rparr>) = core_inv s"
  "core_inv (s\<lparr>pl_lowWaterBlocked := b\<rparr>) = core_inv s"
  "core_inv (s\<lparr>pl_creationAborts := n\<rparr>) = core_inv s"
  "core_inv (s\<lparr>pl_creationFailures := n\<rparr>) = core_inv s"
  "core_inv (s\<lparr>pl_healthFailures := n\<rparr>) = core_inv s"
  "core_inv (s\<lparr>pl_resetFailures := n\<rparr>) = core_inv s"
  "core_inv (s\<lparr>pl_destroyFailures := n\<rparr>) = core_inv s"
  "core_inv (s\<lparr>pl_shutdownTimeouts := n\<rparr>) = core_inv s"
  "core_inv (s\<lparr>pl_shutdownDeadline := b\<rparr>) = core_inv s"
  "core_inv (s\<lparr>pl_creating := cs\<rparr>) = core_inv s"
  "core_inv (s\<lparr>pl_waiters := ws\<rparr>) = core_inv s"
  "core_inv (s\<lparr>pl_nextWaiterId := n\<rparr>) = core_inv s"
  "core_inv (s\<lparr>pl_phase := ph\<rparr>) = core_inv s"
  "core_inv (s\<lparr>pl_close := cl\<rparr>) = core_inv s"
  "core_inv (s\<lparr>pl_pumpScheduled := b\<rparr>) = core_inv s"
  by (rule core_inv_cong; simp)+

lemma core_inv_clock: "pool_readClock now s = Inr t \<Longrightarrow> core_inv t = core_inv s"
  by (simp add: readClock_frame)

lemma core_acquire: "core_inv s \<Longrightarrow> core_inv (snd (pool_acquire count timeoutMs aborted now s))"
  by (auto simp: pool_acquire_def armTimeout_def Let_def core_inv_clock split: sum.splits)

lemma core_timeout: "core_inv s \<Longrightarrow> core_inv (handleTimeout i g r now s)"
  by (auto simp: handleTimeout_def Let_def core_inv_clock split: sum.splits option.splits)

lemma core_rearm: "core_inv s \<Longrightarrow> core_inv (rearm_step i g now s)"
  by (auto simp: rearm_step_def armTimeout_def core_inv_clock split: sum.splits option.splits)

lemma core_pump: "core_inv s \<Longrightarrow> core_inv (pump_step now s)"
proof (cases "pl_pumpScheduled s \<and> pl_phase s = PoolOpen \<and> \<not> pl_dispatching s")
  case True
  assume inv: "core_inv s"
  let ?t = "s\<lparr>pl_pumpScheduled := False, pl_dispatching := True, pl_pumpRequested := False\<rparr>"
  have "phys_inv {} ?t = phys_inv {} s" by (rule phys_inv_cong) simp_all
  moreover have "lease_inv ?t = lease_inv s" by (rule lease_inv_cong) simp_all
  ultimately have "core_inv (pool_dispatch now ?t)"
    using True inv by (intro core_inv_dispatch) (auto simp: core_inv_def)
  with True show ?thesis by (simp add: pump_step_def Let_def)
qed (auto simp: pump_step_def Let_def)

lemma core_destroy_idle: "core_inv s \<Longrightarrow> p \<in> set (pl_idle s) \<Longrightarrow> core_inv (pool_destroy p s)"
  by (simp add: core_inv_def phys_inv_destroy_idle)

lemma core_reject_owner: "core_inv (reject_owner c e s) = core_inv s"
  by (simp add: reject_owner_def split: option.split)

lemma core_failed_after: "core_inv s \<Longrightarrow> core_inv (creationFailedAfterRemoval c e s)"
  by (simp add: creationFailedAfterRemoval_def Let_def core_reject_owner)

lemma core_created_failed: "core_inv s \<Longrightarrow> core_inv (creationFailed i e s)"
  by (simp add: creationFailed_def Let_def core_failed_after split: option.split)

lemma core_created_expired: "core_inv s \<Longrightarrow> core_inv (creationExpired i e s)"
  by (simp add: creationExpired_def Let_def core_reject_owner split: option.split)

text \<open>A new connection is in hand until it is returned or destroyed.\<close>

lemma core_placed:
  assumes "phys_inv {p} s" and "lease_inv s" and "pl_dispatching s \<longleftrightarrow> pl_checkout s \<noteq> None"
  shows "core_inv (returnToPool p s)" "core_inv (pool_destroy p s)"
  using assms phys_inv_return [OF assms(1), of p] phys_inv_destroy [OF assms(1), of p] by (simp_all add: core_inv_def)

lemma core_created: "core_inv s \<Longrightarrow> core_inv (creationSucceeded i r s)"
proof (cases "find_creation i s")
  case None
  assume "core_inv s"
  with None show ?thesis by (simp add: creationSucceeded_def)
next
  case (Some c)
  assume inv: "core_inv s"
  define t where "t = (if c_aborted c \<and> \<not> c_expired c
    then (drop_creation i s)\<lparr>pl_creationAborts := Suc (pl_creationAborts (drop_creation i s))\<rparr> else drop_creation i s)"
  have t: "core_inv t" using inv by (simp add: t_def)
  show ?thesis
  proof (cases "r = None \<or> the r \<in> (\<lambda>p. p_resource (pl_heap s p)) ` set (pl_records s)")
    case True
    with Some inv show ?thesis
      by (cases r) (auto simp: creationSucceeded_def Let_def core_failed_after)
  next
    case False
    then obtain x where x: "r = Some x" "x \<notin> (\<lambda>p. p_resource (pl_heap t p)) ` set (pl_records t)"
      by (cases r) (auto simp: t_def)
    note added = phys_inv_add [of t x] t [unfolded core_inv_def]
    define u where "u = add_physical x t"
    have dis: "pl_dispatching u \<longleftrightarrow> pl_checkout u \<noteq> None" using t by (simp add: u_def add_physical_def core_inv_def)
    have u: "phys_inv {pl_nextPhysical t} u" "lease_inv u" using added x by (simp_all add: u_def)
    let ?p = "pl_nextPhysical t"
    have u': "phys_inv {?p} (u\<lparr>pl_lowWaterBlocked := False\<rparr>)" "lease_inv (u\<lparr>pl_lowWaterBlocked := False\<rparr>)"
      using u phys_inv_cong [of "u\<lparr>pl_lowWaterBlocked := False\<rparr>" u] lease_inv_cong [of "u\<lparr>pl_lowWaterBlocked := False\<rparr>" u]
      by simp_all
    have "creationSucceeded i r s = (if c_aborted c then checkClosed (requestPump (pool_destroy ?p u))
        else checkClosed (requestPump (if pl_phase u \<noteq> PoolOpen then pool_destroy ?p (u\<lparr>pl_lowWaterBlocked := False\<rparr>)
          else returnToPool ?p (u\<lparr>pl_lowWaterBlocked := False\<rparr>))))"
      using Some False x(1) by (auto simp: creationSucceeded_def Let_def u_def add_physical_def t_def fresh_physical_def)
    then show ?thesis using core_placed [OF u dis] core_placed [OF u'] dis by simp
  qed
qed

lemma core_validate: "core_inv s \<Longrightarrow> core_inv (validate_step p v s)"
proof (cases "pl_checkout s")
  case (Some k)
  assume "core_inv s"
  moreover have "core_inv (t\<lparr>pl_checkout := Some (k\<lparr>k_results := f\<rparr>)\<rparr>) = core_inv t"
    if "pl_checkout t = Some k" for t f
    using that by (simp add: core_inv_def phys_defs lease_inv_def)
  ultimately show ?thesis using Some
    by (auto simp: validate_step_def Let_def split: validation.split)
qed (simp add: validate_step_def)

lemma core_checkout:
  assumes "core_inv s"
  shows "core_inv (checkout_step now s)"
proof (cases "pl_checkout s")
  case (Some k)
  have t: "pl_checkout (finish_checkout k now (s\<lparr>pl_checkout := None\<rparr>)) = None"
    "pl_dispatching (finish_checkout k now (s\<lparr>pl_checkout := None\<rparr>)) = pl_dispatching s"
    by (auto simp: finish_checkout_def waiterCannotDispatch_def Let_def readClock_frame split: option.splits prod.splits sum.splits if_splits)
  show ?thesis
    using assms Some phys_inv_finish_checkout [of s k now] t
    by (auto simp: checkout_step_def core_inv_def [of s] intro!: core_inv_dispatch)
qed (use assms in \<open>simp add: checkout_step_def\<close>)

lemma core_touch:
  assumes "core_inv s" and "\<And>x. p_resource (f x) = p_resource x \<and> p_state (f x) = p_state x \<and>
      p_generation (f x) = p_generation x \<and> p_reset (f x) = p_reset x"
    and "p_destroy (f (pl_heap s p)) = NotDestroyed \<longleftrightarrow> p_destroy (pl_heap s p) = NotDestroyed"
  shows "core_inv (upd_physical p f s)"
proof -
  have "lease_inv (upd_physical p f s) = lease_inv s"
    using assms(2) by (intro lease_inv_gen) (auto simp: upd_physical_def)
  with assms phys_inv_touch [OF _ assms(2,3)] show ?thesis by (simp add: core_inv_def)
qed

lemma core_finish_destroy:
  assumes "core_inv s" and "p_destroy (pl_heap s p) \<noteq> NotDestroyed"
  shows "core_inv (finish_destroy p s)"
proof -
  let ?t = "upd_physical p (\<lambda>x. x\<lparr>p_destroyError := None\<rparr>) s"
  have "core_inv ?t" using assms(1) by (intro core_touch) auto
  moreover have "p_destroy (pl_heap ?t p) \<noteq> NotDestroyed" using assms(2) by (simp add: upd_physical_def)
  ultimately show ?thesis
    using phys_inv_remove [of ?t p] by (simp add: finish_destroy_def) (simp add: core_inv_def)
qed

lemma core_fail_destroy:
  assumes "core_inv s"
  shows "core_inv (fail_destroy p e s)"
proof -
  let ?t = "upd_physical p (\<lambda>x. x\<lparr>p_destroyError := Some e\<rparr>) (s\<lparr>pl_destroyFailures := Suc (pl_destroyFailures s)\<rparr>)"
  have "core_inv ?t" using assms by (intro core_touch) auto
  then show ?thesis by (simp add: fail_destroy_def Let_def)
qed

lemma core_destroy_state:
  assumes "core_inv s" and "p_destroy (pl_heap s p) \<noteq> NotDestroyed" and "d \<noteq> NotDestroyed"
  shows "core_inv (upd_physical p (\<lambda>x. x\<lparr>p_destroy := d\<rparr>) s)"
  using assms by (intro core_touch) auto

lemma core_destroy_settled: "core_inv s \<Longrightarrow> core_inv (destroy_settled p failure s)"
  by (auto simp: destroy_settled_def split: destroy_state.split option.split
      intro!: core_finish_destroy core_fail_destroy core_destroy_state)

lemma core_destroy_expired: "core_inv s \<Longrightarrow> core_inv (destroy_expired p e s)"
  by (auto simp: destroy_expired_def intro!: core_fail_destroy core_destroy_state)

lemma activeLeaseRecord_iff:
  "activeLeaseRecord t s = Inr (g, l) \<longleftrightarrow>
    t_ownPool t \<and> t_lease t = Some g \<and> pl_leases s g = Some l \<and> l_active l"
  by (auto simp: activeLeaseRecord_def bind_eq_Some_conv split: option.splits)

lemma core_use:
  assumes "core_inv s" and "pl_leases s g = Some l" and "p_reset (pl_heap s (l_physical l)) \<noteq> Some (LeaseReset g)"
    and "n \<le> 1" and "\<not> l_active l \<Longrightarrow> n = 0"
  shows "core_inv (upd_lease g (l\<lparr>l_activeOperations := n\<rparr>) s)"
proof -
  note inv = assms(1) [unfolded core_inv_def]
  have "lease_inv (upd_lease g (l\<lparr>l_activeOperations := n\<rparr>) s)"
    using inv lease_inv_D [of s g l] assms by (auto simp: lease_inv_def upd_lease_def)
  with inv phys_inv_use [of s g l n] assms show ?thesis by (auto simp: core_inv_def)
qed

lemma not_lease_reset:
  assumes "core_inv s" and "pl_leases s g = Some l" and "l_active l" and "l_activeOperations l = 0"
  shows "p_reset (pl_heap s (l_physical l)) \<noteq> Some (LeaseReset g)"
proof -
  note inv = assms(1) [unfolded core_inv_def]
  have "place_ok s (l_physical l)" using active_lease_place [of s g l] inv assms by simp
  with assms show ?thesis by (auto simp: place_ok_def lease_reset_ok_def)
qed

lemma core_use_begin: "core_inv s \<Longrightarrow> core_inv (snd (use_begin t s))"
  using not_lease_reset by (auto simp: use_begin_def activeLeaseRecord_iff intro!: core_use split: sum.split)

lemma core_use_end: "core_inv s \<Longrightarrow> core_inv (use_end g s)"
  using lease_inv_D(3,4) by (fastforce simp: use_end_def core_inv_def [of s] split: option.split intro!: core_use)

text \<open>Moving one connection between hand and places keeps the lease facts.\<close>

lemma lease_inv_upd_physical [simp]:
  "(\<And>x. p_generation (f x) = p_generation x) \<Longrightarrow> lease_inv (upd_physical p f s) = lease_inv s"
  by (rule lease_inv_gen) (auto simp: upd_physical_def)

lemma core_start_reset:
  assumes "phys_inv {p} s" and "lease_inv s" and "pl_dispatching s \<longleftrightarrow> pl_checkout s \<noteq> None"
  shows "core_inv (upd_physical p (\<lambda>x. x\<lparr>p_state := PResetting, p_reset := Some ReleaseReset\<rparr>) s)"
  using assms phys_inv_start_reset [OF assms(1), of p] by (simp add: core_inv_def)

lemma core_release_returned:
  assumes "phys_inv {p} s" and "lease_inv s" and "pl_dispatching s \<longleftrightarrow> pl_checkout s \<noteq> None"
  shows "core_inv (release_returned p s)"
  using core_placed [OF assms] by (simp add: release_returned_def Let_def)

lemma core_unblock:
  "phys_inv H (s\<lparr>pl_lowWaterBlocked := b\<rparr>) = phys_inv H s" "lease_inv (s\<lparr>pl_lowWaterBlocked := b\<rparr>) = lease_inv s"
  by (rule phys_inv_cong; simp) (rule lease_inv_cong; simp)

lemma core_release_physical:
  assumes "phys_inv {p} s" and "lease_inv s" and "pl_dispatching s \<longleftrightarrow> pl_checkout s \<noteq> None"
  shows "core_inv (release_physical p b h s)"
proof -
  have "phys_inv {p} (upd_physical p (\<lambda>x. x\<lparr>p_recycleIdleHigh := h\<rparr>) s)"
    using assms(1) by (rule phys_inv_touch) simp_all
  then show ?thesis
    using assms core_placed(2) [OF assms]
    by (auto simp: release_physical_def Let_def core_unblock intro!: core_start_reset core_release_returned)
qed

lemma core_release:
  assumes "core_inv s"
  shows "core_inv (snd (pool_release t reusable idleHigh s))"
proof -
  note inv = assms [unfolded core_inv_def]
  have "phys_inv {l_physical l} (upd_lease g (l\<lparr>l_active := False\<rparr>) s)" "lease_inv (upd_lease g (l\<lparr>l_active := False\<rparr>) s)"
    if "pl_leases s g = Some l" "l_active l" "l_activeOperations l = 0" for g l
  proof -
    show "phys_inv {l_physical l} (upd_lease g (l\<lparr>l_active := False\<rparr>) s)" using inv that by (simp add: phys_inv_release)
    show "lease_inv (upd_lease g (l\<lparr>l_active := False\<rparr>) s)"
      using inv that lease_inv_D [of s g l] by (auto simp: lease_inv_def upd_lease_def)
  qed
  with assms inv show ?thesis
    by (auto simp: pool_release_def activeLeaseRecord_iff split: sum.split option.split intro!: core_release_physical)
qed

lemma core_reset_lease:
  assumes "core_inv s"
  shows "core_inv (snd (resetActiveLease t s))"
proof -
  note inv = assms [unfolded core_inv_def]
  have "core_inv (upd_physical (l_physical l) (\<lambda>x. x\<lparr>p_state := PResetting, p_reset := Some (LeaseReset g)\<rparr>)
      (upd_lease g (l\<lparr>l_activeOperations := Suc 0\<rparr>) s))"
    if "pl_leases s g = Some l" "l_active l" "l_activeOperations l = 0" for g l
  proof -
    have "lease_inv (upd_lease g (l\<lparr>l_activeOperations := Suc 0\<rparr>) s)"
      using inv that lease_inv_D [of s g l] by (auto simp: lease_inv_def upd_lease_def)
    with inv phys_inv_lease_reset_begin [of s g l] that show ?thesis by (auto simp: core_inv_def)
  qed
  with assms show ?thesis by (auto simp: resetActiveLease_def activeLeaseRecord_iff split: sum.split)
qed

lemma core_reset_settled:
  assumes "core_inv s"
  shows "core_inv (reset_settled p failure s)"
proof -
  define u where "u = (case failure of None \<Rightarrow> s
     | Some e \<Rightarrow> (count_timeout e s)\<lparr>pl_resetFailures := Suc (pl_resetFailures s)\<rparr>)"
  have u: "core_inv u" "pl_records u = pl_records s" "pl_heap u = pl_heap s" "pl_leases u = pl_leases s"
    "pl_phase u = pl_phase s"
    using assms by (auto simp: u_def split: option.split)
  note inv = u(1) [unfolded core_inv_def]
  show ?thesis
  proof (cases "if p \<in> set (pl_records s) then p_reset (pl_heap s p) else None")
    case None
    then show ?thesis using assms by (simp add: reset_settled_def Let_def)
  next
    case (Some ow)
    then have p: "p \<in> set (pl_records u)" "p_reset (pl_heap u p) = Some ow" using u by (auto split: if_splits)
    show ?thesis
    proof (cases ow)
      case ReleaseReset
      have h: "phys_inv {p} (upd_physical p (\<lambda>x. x\<lparr>p_reset := None\<rparr>) u)"
        using inv p ReleaseReset by (simp add: phys_inv_end_reset)
      then show ?thesis
        using Some ReleaseReset inv core_placed [OF h] unfolding reset_settled_def Let_def u_def [symmetric]
        by (auto simp: core_unblock intro!: core_release_returned)
    next
      case (LeaseReset g)
      have place: "place_ok u p" using inv p(1) phys_inv_D(9) [of "{}" u p] by (simp add: physical_ok_def)
      with p(2) LeaseReset obtain l where l: "pl_leases u g = Some l"
        unfolding place_ok_def lease_reset_ok_def by blast
      from phys_inv_lease_reset_end [of u p g l] inv p LeaseReset l
      have e: "l_active l" "l_physical l = p" "p_state (pl_heap u p) = PResetting" "l_activeOperations l = 1"
        "phys_inv {} (upd_physical p (\<lambda>x. x\<lparr>p_reset := None, p_state := PLeased\<rparr>)
          (upd_lease g (l\<lparr>l_activeOperations := 0\<rparr>) u))" by simp_all
      have "lease_inv (upd_lease g (l\<lparr>l_activeOperations := 0\<rparr>) u)"
        using inv l e lease_inv_D [of u g l] by (auto simp: lease_inv_def upd_lease_def)
      with e(5) inv have "core_inv (upd_physical p (\<lambda>x. x\<lparr>p_reset := None, p_state := PLeased\<rparr>)
          (upd_lease g (l\<lparr>l_activeOperations := 0\<rparr>) u))" by (simp add: core_inv_def)
      then show ?thesis
        using Some LeaseReset l e(1-4) unfolding reset_settled_def Let_def u_def [symmetric]
        by (simp add: upd_physical_def upd_lease_def)
    qed
  qed
qed

lemma core_shutdown: "core_inv s \<Longrightarrow> core_inv (snd (beginShutdown retire timeoutMs s))"
proof -
  have "core_inv (fold pool_destroy ps s)" if "core_inv s" "distinct ps" "set ps \<subseteq> set (pl_idle s)" for ps s
    using that
  proof (induction ps arbitrary: s)
    case (Cons p ps)
    moreover have "set ps \<subseteq> set (pl_idle (pool_destroy p s))"
      using Cons.prems by (auto simp: pool_destroy_def intro!: in_set_remove1 [THEN iffD2])
    ultimately show ?case by (simp add: core_destroy_idle)
  qed simp
  moreover have "distinct (pl_idle s)" if "core_inv s" for s
    using that phys_inv_D(3) by (auto simp: core_inv_def)
  moreover assume "core_inv s"
  ultimately show ?thesis
    by (auto simp: beginShutdown_def Let_def split: sum.split pool_phase.split)
qed

lemma core_shutdown_expired: "core_inv s \<Longrightarrow> core_inv (shutdown_expired e s)"
  by (simp add: shutdown_expired_def Let_def)

lemma core_resumed: "core_inv s \<Longrightarrow> core_inv (release_resumed p s)"
  by (simp add: release_resumed_def)

theorem core_inv_step: "core_inv s \<Longrightarrow> core_inv (pool_step e s)"
  by (cases e) (simp_all add: core_acquire core_timeout core_rearm core_pump core_created core_created_failed
      core_created_expired core_validate core_checkout core_use_begin core_use_end core_reset_lease core_release
      core_reset_settled core_resumed core_destroy_settled core_destroy_expired core_shutdown core_shutdown_expired
      abort_step_def)

lemma core_inv_new: "core_inv (pool_new config)"
  by (simp add: pool_new_def core_inv_def phys_inv_def lease_inv_def pl_candidates_def)

lemma core_inv_reachable: "pool_reachable s \<Longrightarrow> core_inv s"
  by (induction rule: pool_reachable.induct) (simp_all add: core_inv_new core_inv_step)

end
