(* ===== verification/PoolQueue.thy ===== *)
theory PoolQueue
  imports PoolSafety
begin

text \<open>
  Capacity, the waiters' queue and the phases of shutdown.
\<close>

section \<open>Capacity\<close>

definition cap_inv :: "pool \<Rightarrow> bool" where
  "cap_inv s \<longleftrightarrow> pool_capacity s \<le> pc_maxConnections (pl_config s)"

lemma length_reconcile_loop [simp]: "length (reconcile_loop ow n cs) = length cs"
  by (induction ow n cs rule: reconcile_loop.induct) simp_all

lemma cap_cong:
  assumes "pl_records t = pl_records s" "length (pl_creating t) = length (pl_creating s)" "pl_config t = pl_config s"
  shows "pool_capacity t = pool_capacity s" "cap_inv t = cap_inv s"
  using assms by (simp_all add: cap_inv_def pool_capacity_def)

lemma length_creating [simp]:
  "length (pl_creating (reconcileCreations s)) = length (pl_creating s)"
  "length (pl_creating (cleanupWaiter i s)) = length (pl_creating s)"
  "length (pl_creating (rejectWaiter i e s)) = length (pl_creating s)"
  by (simp_all add: reconcileCreations_def cleanupWaiter_def rejectWaiter_def Let_def)

lemma length_creating_fold [simp]:
  "length (pl_creating (fold (\<lambda>i. rejectWaiter i e) js s)) = length (pl_creating s)"
  by (induction js arbitrary: s) simp_all

lemma cap_frame [simp]:
  "cap_inv (requestPump s) = cap_inv s" "cap_inv (rejectWaiter i e s) = cap_inv s"
  "cap_inv (cleanupWaiter i s) = cap_inv s" "cap_inv (checkClosed s) = cap_inv s"
  "cap_inv (failClose e s) = cap_inv s" "cap_inv (pool_destroy p s) = cap_inv s"
  "cap_inv (returnToPool p s) = cap_inv s" "cap_inv (trimIdleHigh s) = cap_inv s"
  "cap_inv (end_dispatch s) = cap_inv s" "cap_inv (begin_checkout w s) = cap_inv s"
  "cap_inv (lease_all ps s) = cap_inv s" "cap_inv (upd_waiter i f s) = cap_inv s"
  "cap_inv (upd_physical p g s) = cap_inv s" "cap_inv (upd_lease n l s) = cap_inv s"
  "cap_inv (count_timeout e s) = cap_inv s" "cap_inv (fold pool_destroy ps s) = cap_inv s"
  "cap_inv (fold returnToPool ps s) = cap_inv s" "cap_inv (fold (\<lambda>i. rejectWaiter i e) js s) = cap_inv s"
  "cap_inv (s\<lparr>pl_lastClockValue := v\<rparr>) = cap_inv s" "cap_inv (s\<lparr>pl_checkout := k\<rparr>) = cap_inv s"
  "cap_inv (s\<lparr>pl_lowWaterBlocked := b\<rparr>) = cap_inv s" "cap_inv (s\<lparr>pl_settled := st\<rparr>) = cap_inv s"
  "cap_inv (s\<lparr>pl_pumpScheduled := b\<rparr>) = cap_inv s" "cap_inv (s\<lparr>pl_dispatching := b\<rparr>) = cap_inv s"
  "cap_inv (s\<lparr>pl_pumpRequested := b\<rparr>) = cap_inv s" "cap_inv (s\<lparr>pl_waiters := ws\<rparr>) = cap_inv s"
  "cap_inv (s\<lparr>pl_nextWaiterId := n\<rparr>) = cap_inv s" "cap_inv (s\<lparr>pl_creationAborts := n\<rparr>) = cap_inv s"
  "cap_inv (s\<lparr>pl_creationFailures := n\<rparr>) = cap_inv s" "cap_inv (s\<lparr>pl_healthFailures := n\<rparr>) = cap_inv s"
  "cap_inv (s\<lparr>pl_resetFailures := n\<rparr>) = cap_inv s" "cap_inv (s\<lparr>pl_destroyFailures := n\<rparr>) = cap_inv s"
  "cap_inv (s\<lparr>pl_shutdownTimeouts := n\<rparr>) = cap_inv s" "cap_inv (s\<lparr>pl_shutdownDeadline := b\<rparr>) = cap_inv s"
  "cap_inv (s\<lparr>pl_phase := ph\<rparr>) = cap_inv s" "cap_inv (s\<lparr>pl_close := cl\<rparr>) = cap_inv s"
  by (rule cap_cong; simp)+

lemma cap_startCreation: "cap_inv s \<Longrightarrow> cap_inv (startCreation i s)"
  by (auto simp: startCreation_def cap_inv_def pool_capacity_def)

lemma cap_startCreations: "cap_inv s \<Longrightarrow> cap_inv ((startCreation i ^^ n) s)"
  by (induction n) (simp_all add: cap_startCreation)

lemma cap_ensure: "cap_inv s \<Longrightarrow> cap_inv (ensureLowWater s)" "cap_inv s \<Longrightarrow> cap_inv (ensureWaiterCapacity w s)"
  by (simp_all add: ensureLowWater_def ensureWaiterCapacity_def cap_startCreations)

lemma cap_dispatch: "cap_inv s \<Longrightarrow> cap_inv (pool_dispatch now s)"
  by (rule pool_dispatch_rule [where P = cap_inv]) (simp_all add: cap_ensure)

lemma cap_finish_checkout: "cap_inv s \<Longrightarrow> cap_inv (finish_checkout k now s)"
  by (auto simp: finish_checkout_def waiterCannotDispatch_def Let_def readClock_frame
      split: option.splits prod.splits sum.splits if_splits)

lemma find_creation_in:
  "find_creation i s = Some c \<Longrightarrow> c \<in> set (pl_creating s) \<and> c_id c = i"
  by (auto simp: find_creation_def find_Some_iff)

lemma drop_creation_shorter:
  assumes "find_creation i s = Some c"
  shows "length (pl_creating (drop_creation i s)) < length (pl_creating s)"
proof -
  from find_creation_in [OF assms] show ?thesis
    by (auto simp: drop_creation_def intro: length_filter_less)
qed

lemma cap_less_mono:
  assumes "cap_inv s" and "length (pl_records t) + length (pl_creating t) \<le> length (pl_records s) + length (pl_creating s)"
    and "pl_config t = pl_config s"
  shows "cap_inv t"
  using assms by (simp add: cap_inv_def pool_capacity_def)

lemma cap_failed_after: "cap_inv (creationFailedAfterRemoval c e s) = cap_inv s"
  by (auto simp: creationFailedAfterRemoval_def reject_owner_def Let_def split: option.split)

lemma cap_drop: "cap_inv s \<Longrightarrow> cap_inv (drop_creation i s)"
  by (rule cap_less_mono) (auto simp: drop_creation_def)

lemma cap_created: "cap_inv s \<Longrightarrow> cap_inv (creationSucceeded i r s)"
proof (cases "find_creation i s")
  case (Some c)
  assume cap: "cap_inv s"
  have "cap_inv (t\<lparr>pl_nextPhysical := n, pl_records := pl_records (drop_creation i s) @ [p]\<rparr>)"
    if "pl_creating t = pl_creating (drop_creation i s)" "pl_config t = pl_config s" for t n p
    using drop_creation_shorter [OF Some] that by (intro cap_less_mono [OF cap]) simp_all
  then show ?thesis using Some cap
    by (auto simp: creationSucceeded_def Let_def cap_failed_after cap_drop split: option.split)
qed (simp add: creationSucceeded_def)

lemma cap_step: "cap_inv s \<Longrightarrow> cap_inv (pool_step e s)"
proof (cases e)
  case (Acquire count timeoutMs aborted now)
  then show "cap_inv s \<Longrightarrow> ?thesis"
    by (auto simp: pool_acquire_def armTimeout_def Let_def readClock_frame split: sum.splits)
next
  case (AcquireTimer i g r now)
  then show "cap_inv s \<Longrightarrow> ?thesis" by (auto simp: handleTimeout_def Let_def readClock_frame split: sum.splits option.splits)
next
  case (RearmTimer i g now)
  then show "cap_inv s \<Longrightarrow> ?thesis"
    by (auto simp: rearm_step_def armTimeout_def readClock_frame split: sum.splits option.splits)
next
  case (CreationRejected i e)
  then show "cap_inv s \<Longrightarrow> ?thesis" by (auto simp: creationFailed_def Let_def cap_failed_after cap_drop split: option.split)
next
  case (CreationDeadline i e)
  have "cap_inv (t\<lparr>pl_creating := map f (pl_creating s)\<rparr>) = cap_inv t" if "pl_creating t = pl_creating s" for t f
    using that by (intro cap_cong) simp_all
  with CreationDeadline show "cap_inv s \<Longrightarrow> ?thesis"
    by (auto simp: creationExpired_def Let_def reject_owner_def split: option.split)
next
  case (DestroySettled p failure)
  have "cap_inv (t\<lparr>pl_records := filter f (pl_records t)\<rparr>)" if "cap_inv t" for t f
    using that by (rule cap_less_mono) auto
  from this [of "upd_physical p (\<lambda>x. x\<lparr>p_destroyError := None\<rparr>) s"] DestroySettled show "cap_inv s \<Longrightarrow> ?thesis"
    by (auto simp: destroy_settled_def finish_destroy_def fail_destroy_def Let_def split: destroy_state.split option.split)
next
  case (Shutdown retire timeoutMs)
  have "cap_inv (t\<lparr>pl_creating := map f (pl_creating t)\<rparr>) = cap_inv t" for t f by (rule cap_cong) simp_all
  with Shutdown show "cap_inv s \<Longrightarrow> ?thesis"
    by (auto simp: beginShutdown_def Let_def split: sum.split pool_phase.split)
qed (auto simp: abort_step_def pump_step_def cap_dispatch cap_created validate_step_def checkout_step_def
    cap_finish_checkout use_begin_def use_end_def resetActiveLease_def pool_release_def release_physical_def
    release_returned_def reset_settled_def release_resumed_def destroy_expired_def fail_destroy_def
    shutdown_expired_def Let_def split: sum.split option.split prod.split validation.split reset_owner.split)

lemma cap_inv_reachable: "pool_reachable s \<Longrightarrow> cap_inv s"
  by (induction rule: pool_reachable.induct) (simp_all add: cap_step, simp add: pool_new_def cap_inv_def pool_capacity_def)

section \<open>The queue of waiters\<close>

text \<open>Waiters are served in the order of their numbers, and every number given out is either
waiting or settled exactly once.\<close>

definition queue_inv :: "pool \<Rightarrow> bool" where
  "queue_inv s \<longleftrightarrow> sorted_wrt (<) (map w_id (pl_waiters s)) \<and> distinct (map fst (pl_settled s)) \<and>
     {1..<pl_nextWaiterId s} = w_id ` set (pl_waiters s) \<union> fst ` set (pl_settled s) \<and>
     w_id ` set (pl_waiters s) \<inter> fst ` set (pl_settled s) = {} \<and>
     length (pl_waiters s) \<le> pc_maxWaiters (pl_config s) \<and> 1 \<le> pl_nextWaiterId s"

lemma queue_cong:
  assumes "map w_id (pl_waiters t) = map w_id (pl_waiters s)" "pl_settled t = pl_settled s"
    "pl_nextWaiterId t = pl_nextWaiterId s" "pl_config t = pl_config s"
  shows "queue_inv t = queue_inv s"
proof -
  have "w_id ` set (pl_waiters t) = w_id ` set (pl_waiters s)"
    using arg_cong [OF assms(1), of set] by simp
  moreover have "length (pl_waiters t) = length (pl_waiters s)" using arg_cong [OF assms(1), of length] by simp
  ultimately show ?thesis using assms by (simp only: queue_inv_def)
qed

lemma queue_settle:
  assumes "queue_inv s" and "waiter_active i s"
  shows "queue_inv (s\<lparr>pl_waiters := filter (\<lambda>w. w_id w \<noteq> i) (pl_waiters s), pl_settled := pl_settled s @ [(i, r)]\<rparr>)"
proof -
  note q = assms(1) [unfolded queue_inv_def]
  have "sorted_wrt (<) (map w_id (filter (\<lambda>w. w_id w \<noteq> i) (pl_waiters s)))"
    using q by (auto simp: sorted_wrt_map sorted_wrt_filter)
  moreover have "w_id ` set (filter (\<lambda>w. w_id w \<noteq> i) (pl_waiters s)) = w_id ` set (pl_waiters s) - {i}" by auto
  moreover have "length (filter (\<lambda>w. w_id w \<noteq> i) (pl_waiters s)) \<le> pc_maxWaiters (pl_config s)"
    using q length_filter_le [of "\<lambda>w. w_id w \<noteq> i" "pl_waiters s"] by linarith
  moreover have "i \<in> w_id ` set (pl_waiters s)" using assms(2) by (simp add: waiter_active_def)
  moreover from this have "i \<notin> fst ` set (pl_settled s)" using q by blast
  ultimately show ?thesis using q unfolding queue_inv_def by simp blast
qed

lemma queue_reject [simp]: "queue_inv s \<Longrightarrow> queue_inv (rejectWaiter i e s)"
proof (cases "waiter_active i s")
  case True
  assume "queue_inv s"
  from queue_settle [OF this True, of "Inl e"] have "queue_inv (requestPump ((cleanupWaiter i s)\<lparr>pl_settled := pl_settled s @ [(i, Inl e)]\<rparr>))
    = queue_inv (s\<lparr>pl_waiters := filter (\<lambda>w. w_id w \<noteq> i) (pl_waiters s), pl_settled := pl_settled s @ [(i, Inl e)]\<rparr>)"
    by (intro queue_cong) (simp_all add: cleanupWaiter_def)
  with queue_settle [OF \<open>queue_inv s\<close> True, of "Inl e"] True show ?thesis by (simp add: rejectWaiter_def)
qed (simp add: rejectWaiter_def)

lemma queue_fold_reject [simp]: "queue_inv s \<Longrightarrow> queue_inv (fold (\<lambda>i. rejectWaiter i e) js s)"
  by (induction js arbitrary: s) simp_all

lemma queue_frame [simp]:
  "queue_inv (requestPump s) = queue_inv s" "queue_inv (checkClosed s) = queue_inv s"
  "queue_inv (failClose e s) = queue_inv s" "queue_inv (pool_destroy p s) = queue_inv s"
  "queue_inv (returnToPool p s) = queue_inv s" "queue_inv (trimIdleHigh s) = queue_inv s"
  "queue_inv (end_dispatch s) = queue_inv s" "queue_inv (begin_checkout w s) = queue_inv s"
  "queue_inv (lease_all ps s) = queue_inv s" "queue_inv (drop_creation i s) = queue_inv s"
  "queue_inv (ensureLowWater s) = queue_inv s" "queue_inv (ensureWaiterCapacity w s) = queue_inv s"
  "queue_inv (upd_physical p g s) = queue_inv s" "queue_inv (upd_lease n l s) = queue_inv s"
  "queue_inv (count_timeout e s) = queue_inv s" "queue_inv (fold pool_destroy ps s) = queue_inv s"
  "queue_inv (fold returnToPool ps s) = queue_inv s"
  "queue_inv (s\<lparr>pl_lastClockValue := v\<rparr>) = queue_inv s" "queue_inv (s\<lparr>pl_checkout := k\<rparr>) = queue_inv s"
  "queue_inv (s\<lparr>pl_lowWaterBlocked := b\<rparr>) = queue_inv s" "queue_inv (s\<lparr>pl_creating := cs\<rparr>) = queue_inv s"
  "queue_inv (s\<lparr>pl_pumpScheduled := b\<rparr>) = queue_inv s" "queue_inv (s\<lparr>pl_dispatching := b\<rparr>) = queue_inv s"
  "queue_inv (s\<lparr>pl_pumpRequested := b\<rparr>) = queue_inv s" "queue_inv (s\<lparr>pl_records := rs\<rparr>) = queue_inv s"
  "queue_inv (s\<lparr>pl_nextPhysical := n\<rparr>) = queue_inv s" "queue_inv (s\<lparr>pl_creationAborts := n\<rparr>) = queue_inv s"
  "queue_inv (s\<lparr>pl_creationFailures := n\<rparr>) = queue_inv s" "queue_inv (s\<lparr>pl_healthFailures := n\<rparr>) = queue_inv s"
  "queue_inv (s\<lparr>pl_resetFailures := n\<rparr>) = queue_inv s" "queue_inv (s\<lparr>pl_destroyFailures := n\<rparr>) = queue_inv s"
  "queue_inv (s\<lparr>pl_shutdownTimeouts := n\<rparr>) = queue_inv s" "queue_inv (s\<lparr>pl_shutdownDeadline := b\<rparr>) = queue_inv s"
  "queue_inv (s\<lparr>pl_phase := ph\<rparr>) = queue_inv s" "queue_inv (s\<lparr>pl_close := cl\<rparr>) = queue_inv s"
  by (rule queue_cong; simp)+

lemma queue_upd_waiter:
  assumes "\<And>w. w_id (f w) = w_id w"
  shows "queue_inv (upd_waiter i f s) = queue_inv s"
  using assms by (intro queue_cong) (simp_all add: upd_waiter_def)

lemma queue_dispatch: "queue_inv s \<Longrightarrow> queue_inv (pool_dispatch now s)"
  by (rule pool_dispatch_rule [where P = queue_inv]) simp_all

lemma waiterCannotDispatch_cases:
  assumes "waiterCannotDispatch w now s = (b, t)"
  shows "t = s \<or> t = s\<lparr>pl_lastClockValue := Some now\<rparr> \<or> (\<exists>e. t = rejectWaiter (w_id w) e s) \<or>
    (\<exists>e. t = rejectWaiter (w_id w) e (s\<lparr>pl_lastClockValue := Some now\<rparr>))"
    "\<not> b \<Longrightarrow> pl_phase s = PoolOpen \<and> t = s\<lparr>pl_lastClockValue := Some now\<rparr> \<and>
      (\<exists>v vs. pl_waiters s = v # vs \<and> w_id v = w_id w)"
  using assms by (auto simp: waiterCannotDispatch_def readClock_frame take_Suc split: if_splits sum.splits list.splits)
    (cases "pl_waiters s"; simp)+

lemma queue_finish_checkout:
  assumes "queue_inv s"
  shows "queue_inv (finish_checkout k now s)"
proof -
  let ?s = "fold pool_destroy (filter (\<lambda>p. \<not> is_healthy k p) (k_candidates k)) s"
  obtain b t where bt: "waiterCannotDispatch (k_waiter k) now ?s = (b, t)" by fastforce
  have t: "queue_inv t" using waiterCannotDispatch_cases(1) [OF bt] assms by auto
  have "queue_inv ((lease_all ps (cleanupWaiter (w_id (k_waiter k)) t))\<lparr>pl_settled := pl_settled t @ [(w_id (k_waiter k), r)]\<rparr>)"
    if "\<not> b" for ps r
  proof -
    have "waiter_active (w_id (k_waiter k)) t"
      using waiterCannotDispatch_cases(2) [OF bt that] by (auto simp: waiter_active_def image_iff)
    from queue_settle [OF t this, of r] show ?thesis
      by (subst queue_cong) (simp_all add: cleanupWaiter_def)
  qed
  with bt t assms show ?thesis
    by (auto simp: finish_checkout_def Let_def split: option.split)
qed

lemma queue_arm: "queue_inv s \<Longrightarrow> queue_inv (armTimeout i now s)"
  by (auto simp: armTimeout_def readClock_frame queue_upd_waiter split: sum.splits)

lemma queue_enqueue:
  assumes "queue_inv s" and "pl_waiters t = pl_waiters s @ [w]" and "pl_nextWaiterId t = Suc (pl_nextWaiterId s)"
    and "pl_settled t = pl_settled s" and "pl_config t = pl_config s"
    and "w_id w = pl_nextWaiterId s" and "length (pl_waiters s) < pc_maxWaiters (pl_config s)"
  shows "queue_inv t"
proof -
  have ids: "w_id ` set (pl_waiters s) \<union> fst ` set (pl_settled s) = {1..<pl_nextWaiterId s}" "1 \<le> pl_nextWaiterId s"
    using assms(1) by (simp_all add: queue_inv_def)
  moreover from this have "\<forall>x\<in>set (pl_waiters s). w_id x < pl_nextWaiterId s"
    "\<forall>x\<in>set (pl_settled s). fst x < pl_nextWaiterId s"
    by (metis UnCI atLeastLessThan_iff image_eqI)+
  ultimately show ?thesis
    using assms by (auto simp: queue_inv_def sorted_wrt_append atLeastLessThanSuc)
qed

lemma queue_acquire: "queue_inv s \<Longrightarrow> queue_inv (snd (pool_acquire count timeoutMs aborted now s))"
  by (auto simp: pool_acquire_def Let_def readClock_frame split: sum.splits if_splits
      intro!: queue_arm intro: queue_enqueue)

lemma queue_step: "queue_inv s \<Longrightarrow> queue_inv (pool_step e s)"
proof (cases e)
  case (AcquireTimer i g r now)
  then show "queue_inv s \<Longrightarrow> ?thesis"
    by (auto simp: handleTimeout_def Let_def readClock_frame queue_upd_waiter split: sum.splits option.splits)
next
  case (CreationSettled i r)
  then show "queue_inv s \<Longrightarrow> ?thesis"
    by (auto simp: creationSucceeded_def creationFailedAfterRemoval_def reject_owner_def Let_def split: option.split)
qed (auto simp: queue_acquire abort_step_def rearm_step_def queue_arm pump_step_def queue_dispatch creationFailed_def
    creationFailedAfterRemoval_def reject_owner_def creationExpired_def validate_step_def checkout_step_def
    queue_finish_checkout use_begin_def use_end_def resetActiveLease_def pool_release_def release_physical_def
    release_returned_def reset_settled_def release_resumed_def destroy_settled_def finish_destroy_def
    destroy_expired_def fail_destroy_def beginShutdown_def shutdown_expired_def Let_def
    split: sum.split option.split prod.split validation.split reset_owner.split destroy_state.split pool_phase.split)

lemma queue_inv_reachable: "pool_reachable s \<Longrightarrow> queue_inv s"
  by (induction rule: pool_reachable.induct) (simp_all add: queue_step, simp add: pool_new_def queue_inv_def)

section \<open>Phases\<close>

definition phase_pre :: "pool \<Rightarrow> bool" where
  "phase_pre s \<longleftrightarrow> (pl_phase s = PoolOpen \<longleftrightarrow> pl_close s = NotClosing) \<and>
     (pl_phase s \<noteq> PoolOpen \<longrightarrow> pl_waiters s = [] \<and> pl_idle s = []) \<and>
     (pl_phase s = PoolClosed \<longrightarrow> pl_records s = [] \<and> pl_creating s = [] \<and> pl_close s \<noteq> ClosePending) \<and>
     (pl_close s = CloseResolved \<longrightarrow> pl_phase s = PoolClosed) \<and>
     (pl_shutdownDeadline s \<longrightarrow> pl_close s = ClosePending)"

definition phase_inv :: "pool \<Rightarrow> bool" where
  "phase_inv s \<longleftrightarrow> phase_pre s \<and>
     (pl_phase s \<in> {PoolRetiring, PoolClosing} \<longrightarrow> pl_records s \<noteq> [] \<or> pl_creating s \<noteq> [])"

lemma phase_pre_failClose: "phase_pre s \<Longrightarrow> phase_pre (failClose e s)"
  by (auto simp: phase_pre_def failClose_def)

lemma phase_checkClosed: "phase_pre s \<Longrightarrow> phase_inv (checkClosed s)"
proof -
  assume pre: "phase_pre s"
  have close: "phase_inv (if pl_creating t = [] \<and> pl_records t = []
      then t\<lparr>pl_phase := PoolClosed, pl_shutdownDeadline := False,
        pl_close := (if pl_close t = ClosePending then CloseResolved else pl_close t)\<rparr> else t)"
    if "phase_pre t" "pl_phase t \<in> {PoolRetiring, PoolClosing}" for t
    using that by (auto simp: phase_inv_def phase_pre_def)
  show ?thesis
  proof (cases "pl_phase s \<in> {PoolRetiring, PoolClosing}")
    case True
    define t where "t = (case first_terminal_error s of None \<Rightarrow> s | Some e \<Rightarrow> failClose e s)"
    define u where "u = (case first_destroy_error t of None \<Rightarrow> t | Some e \<Rightarrow> failClose e t)"
    have "phase_pre u" "pl_phase u = pl_phase s"
      using pre by (auto simp: u_def t_def phase_pre_failClose split: option.split)
    with close [of u] True show ?thesis
      unfolding checkClosed_def Let_def t_def [symmetric] u_def [symmetric] by auto
  next
    case False
    with pre show ?thesis by (auto simp: checkClosed_def phase_inv_def)
  qed
qed

lemma phase_cong:
  assumes "phase_inv s" and "pl_phase t = pl_phase s" "pl_close t = pl_close s" "pl_shutdownDeadline t = pl_shutdownDeadline s"
    and "pl_phase s \<noteq> PoolOpen \<Longrightarrow> pl_waiters t = pl_waiters s \<and> pl_idle t = [] \<and>
      pl_records t = pl_records s \<and> length (pl_creating t) = length (pl_creating s)"
  shows "phase_inv t"
proof -
  have "pl_creating t = [] \<longleftrightarrow> pl_creating s = []" if "pl_phase s \<noteq> PoolOpen"
    using assms(5) [OF that] by (metis length_0_conv)
  then show ?thesis using assms by (auto simp: phase_inv_def phase_pre_def)
qed

lemma shut_frame [simp]:
  "pl_waiters s = [] \<Longrightarrow> rejectWaiter i e s = s"
  "pl_phase s \<noteq> PoolOpen \<Longrightarrow> requestPump s = s"
  "pl_waiters s = [] \<Longrightarrow> reject_owner c e s = s"
  by (simp_all add: rejectWaiter_def waiter_active_def requestPump_def reject_owner_def split: option.split)

lemma dispatch_frame:
  "pl_phase (pool_dispatch now s) = pl_phase s \<and> pl_close (pool_dispatch now s) = pl_close s \<and>
   pl_shutdownDeadline (pool_dispatch now s) = pl_shutdownDeadline s \<and> pl_records (pool_dispatch now s) = pl_records s \<and>
   (pl_phase s \<noteq> PoolOpen \<longrightarrow> pl_waiters (pool_dispatch now s) = pl_waiters s \<and> pl_idle (pool_dispatch now s) = pl_idle s \<and>
     pl_creating (pool_dispatch now s) = pl_creating s)"
  by (rule pool_dispatch_rule [where P = "\<lambda>t. pl_phase t = pl_phase s \<and> pl_close t = pl_close s \<and>
      pl_shutdownDeadline t = pl_shutdownDeadline s \<and> pl_records t = pl_records s \<and>
      (pl_phase s \<noteq> PoolOpen \<longrightarrow> pl_waiters t = pl_waiters s \<and> pl_idle t = pl_idle s \<and> pl_creating t = pl_creating s)"])
    simp_all

lemma idle_destroy_shut: "pl_idle s = [] \<Longrightarrow> pl_idle (pool_destroy p s) = []"
  by (simp add: pool_destroy_def)

lemma idle_destroys_shut: "pl_idle s = [] \<Longrightarrow> pl_idle (fold pool_destroy ps s) = []"
  by (induction ps arbitrary: s) (simp_all add: idle_destroy_shut)

lemma idle_return_shut: "pl_phase s \<noteq> PoolOpen \<Longrightarrow> pl_idle s = [] \<Longrightarrow> pl_idle (returnToPool p s) = []"
  by (simp add: returnToPool_def idle_destroy_shut)

lemma idle_returns_shut: "pl_phase s \<noteq> PoolOpen \<Longrightarrow> pl_idle s = [] \<Longrightarrow> pl_idle (fold returnToPool ps s) = []"
  by (induction ps arbitrary: s) (simp_all add: idle_return_shut)

lemma waiterCannotDispatch_shut [simp]:
  "pl_phase s \<noteq> PoolOpen \<Longrightarrow> waiterCannotDispatch w now s = (True, s)"
  by (simp add: waiterCannotDispatch_def)

lemma phase_pre_inv: "phase_inv s \<Longrightarrow> phase_pre s"
  by (simp add: phase_inv_def)

lemma checkClosed_open [simp]: "pl_phase s = PoolOpen \<Longrightarrow> checkClosed s = s"
  by (simp add: checkClosed_def)

lemma failClose_open [simp]: "pl_close s = NotClosing \<Longrightarrow> failClose e s = s"
  by (simp add: failClose_def)

text \<open>While the pool is open, only \<open>close\<close> and \<open>retire\<close> leave that phase.\<close>

definition stays_open :: "pool \<Rightarrow> pool \<Rightarrow> bool" where
  "stays_open s t \<longleftrightarrow> pl_phase t = PoolOpen \<and> pl_close t = pl_close s \<and> pl_shutdownDeadline t = pl_shutdownDeadline s"

lemma stays_open_acquire:
  assumes "pl_phase s = PoolOpen"
  shows "stays_open s (snd (pool_acquire count timeoutMs aborted now s))" "stays_open s (armTimeout i now s)"
    "stays_open s (handleTimeout i g r now s)"
  using assms
  by (auto simp: stays_open_def pool_acquire_def armTimeout_def handleTimeout_def Let_def readClock_frame
      split: sum.splits option.splits)

lemma stays_open_creation:
  assumes "pl_phase s = PoolOpen" "pl_close s = NotClosing"
  shows "stays_open s (creationSucceeded i r s)" "stays_open s (creationFailed i e s)" "stays_open s (creationExpired i e s)"
  using assms
  by (auto simp: stays_open_def creationSucceeded_def creationFailed_def creationExpired_def reject_owner_def
      creationFailedAfterRemoval_def Let_def split: option.splits)

lemma stays_open_finish:
  assumes "pl_phase s = PoolOpen"
  shows "stays_open s (finish_checkout k now s)"
proof -
  let ?s = "fold pool_destroy (filter (\<lambda>p. \<not> is_healthy k p) (k_candidates k)) s"
  obtain b t where bt: "waiterCannotDispatch (k_waiter k) now ?s = (b, t)" by fastforce
  then have "pl_phase t = PoolOpen" "pl_close t = pl_close s" "pl_shutdownDeadline t = pl_shutdownDeadline s"
    using waiterCannotDispatch_cases(1) [OF bt] assms by auto
  with bt assms show ?thesis by (auto simp: stays_open_def finish_checkout_def Let_def split: option.split)
qed

lemma stays_open_step:
  assumes "pl_phase s = PoolOpen" "pl_close s = NotClosing" "\<not> pl_shutdownDeadline s" "\<And>r t. e \<noteq> Shutdown r t"
  shows "stays_open s (pool_step e s)"
proof (cases e)
  case (Pump now)
  have "pl_phase (pool_dispatch now u) = PoolOpen \<and> pl_close (pool_dispatch now u) = pl_close u \<and>
      pl_shutdownDeadline (pool_dispatch now u) = pl_shutdownDeadline u" if "pl_phase u = PoolOpen" for u
    using dispatch_frame [of now u] that by simp
  with assms Pump show ?thesis by (auto simp: stays_open_def pump_step_def Let_def)
next
  case (CheckoutResumed now)
  then show ?thesis
    using assms stays_open_finish [of "s\<lparr>pl_checkout := None\<rparr>"] dispatch_frame
    by (auto simp: stays_open_def checkout_step_def split: option.split)
next
  case (RearmTimer i g now)
  then show ?thesis using assms stays_open_acquire(2) [OF assms(1)]
    by (auto simp: rearm_step_def stays_open_def split: option.split)
qed (use assms stays_open_acquire [OF assms(1)] stays_open_creation [OF assms(1,2)] in
    \<open>auto simp: stays_open_def abort_step_def validate_step_def use_begin_def use_end_def resetActiveLease_def
      pool_release_def release_physical_def release_returned_def reset_settled_def release_resumed_def
      destroy_settled_def finish_destroy_def destroy_expired_def fail_destroy_def shutdown_expired_def Let_def
      split: sum.split option.split prod.split validation.split reset_owner.split destroy_state.split\<close>)

text \<open>Once it is not, there are no waiters and no idle connections, and every operation ends in a check
whether everything is gone.\<close>


lemma shut_empty:
  assumes inv: "phase_inv s" and shut: "pl_phase s \<noteq> PoolOpen"
  shows "pl_waiters s = []" "pl_idle s = []"
  using inv shut by (auto simp: phase_inv_def phase_pre_def)

lemma shut_pre:
  assumes inv: "phase_inv s" and shut: "pl_phase s \<noteq> PoolOpen"
  shows "phase_pre s"
  using inv by (rule phase_pre_inv)

lemma shut_not_closed:
  assumes inv: "phase_inv s" and shut: "pl_phase s \<noteq> PoolOpen"
  shows "pl_creating s \<noteq> [] \<or> pl_records s \<noteq> [] \<Longrightarrow> pl_phase s \<noteq> PoolClosed"
  using inv by (auto simp: phase_inv_def phase_pre_def)

text \<open>What a check after some change makes of a state that has kept the empty queue and idle list.\<close>

lemma shut_checked:
  assumes inv: "phase_inv s" and shut: "pl_phase s \<noteq> PoolOpen"
    and "pl_phase t = pl_phase s" "pl_close t = pl_close s" "pl_shutdownDeadline t = pl_shutdownDeadline s"
    "pl_waiters t = []" "pl_idle t = []" "pl_phase s \<noteq> PoolClosed"
  shows "phase_inv (checkClosed t)" "phase_inv (checkClosed (failClose e t))"
  using assms phase_pre_inv [OF inv] by (auto intro!: phase_checkClosed phase_pre_failClose simp: phase_pre_def)

lemma shut_kept:
  assumes inv: "phase_inv s" and shut: "pl_phase s \<noteq> PoolOpen"
    and "pl_phase t = pl_phase s" "pl_close t = pl_close s" "pl_shutdownDeadline t = pl_shutdownDeadline s"
    "pl_waiters t = []" "pl_idle t = []" "pl_records t = pl_records s" "length (pl_creating t) = length (pl_creating s)"
  shows "phase_inv t"
  using assms shut_empty [OF inv shut] by (intro phase_cong [OF inv]) simp_all

lemma shut_created:
  assumes inv: "phase_inv s" and shut: "pl_phase s \<noteq> PoolOpen"
  shows "phase_inv (creationSucceeded i r s)"
proof (cases "find_creation i s")
  case (Some c)
  then have nc: "pl_phase s \<noteq> PoolClosed" using find_creation_in [OF Some] by (intro shut_not_closed [OF inv shut]) auto
  show ?thesis
    using Some shut shut_empty [OF inv shut] idle_destroy_shut
    by (auto simp: creationSucceeded_def creationFailedAfterRemoval_def Let_def split: option.split intro!: shut_checked [OF inv shut] nc)
qed (simp add: creationSucceeded_def inv)

lemma shut_creation_failed:
  assumes inv: "phase_inv s" and shut: "pl_phase s \<noteq> PoolOpen"
  shows "phase_inv (creationFailed i e s)"
proof (cases "find_creation i s")
  case (Some c)
  then have nc: "pl_phase s \<noteq> PoolClosed" using find_creation_in [OF Some] by (intro shut_not_closed [OF inv shut]) auto
  show ?thesis
    using Some shut shut_empty [OF inv shut]
    by (auto simp: creationFailed_def creationFailedAfterRemoval_def Let_def intro!: shut_checked [OF inv shut] nc)
qed (simp add: creationFailed_def inv)

lemma shut_creation_expired:
  assumes inv: "phase_inv s" and shut: "pl_phase s \<noteq> PoolOpen"
  shows "phase_inv (creationExpired i e s)"
proof (cases "find_creation i s")
  case (Some c)
  then have nc: "pl_phase s \<noteq> PoolClosed" using find_creation_in [OF Some] by (intro shut_not_closed [OF inv shut]) auto
  show ?thesis
    using Some shut shut_empty [OF inv shut] inv
    by (auto simp: creationExpired_def Let_def intro!: shut_checked [OF inv shut] nc)
qed (simp add: creationExpired_def inv)

lemma shut_finished_checkout:
  assumes inv: "phase_inv s" and shut: "pl_phase s \<noteq> PoolOpen"
  shows "phase_inv (finish_checkout k now (s\<lparr>pl_checkout := None\<rparr>))"
proof -
  let ?t = "fold pool_destroy (filter (\<lambda>p. \<not> is_healthy k p) (k_candidates k)) (s\<lparr>pl_checkout := None\<rparr>)"
  let ?u = "fold returnToPool (filter (is_healthy k) (k_candidates k)) ?t"
  have idle: "pl_idle ?t = []" "pl_idle ?u = []"
    using shut_empty [OF inv shut] shut by (simp_all add: idle_destroys_shut idle_returns_shut)
  have u: "phase_inv ?u" by (rule shut_kept [OF inv shut]) (simp_all add: shut_empty [OF inv shut] idle)
  have "phase_inv (checkClosed ?u)" using u by (intro phase_checkClosed phase_pre_inv)
  with u shut shut_empty [OF inv shut] show ?thesis by (simp add: finish_checkout_def Let_def split: option.split)
qed

lemma shut_checkout:
  assumes inv: "phase_inv s" and shut: "pl_phase s \<noteq> PoolOpen"
  shows "phase_inv (checkout_step now s)"
proof (cases "pl_checkout s")
  case (Some k)
  let ?t = "finish_checkout k now (s\<lparr>pl_checkout := None\<rparr>)"
  have "phase_inv (pool_dispatch now t)" if "phase_inv t" "pl_phase t \<noteq> PoolOpen" for t
    using dispatch_frame [of now t] that by (intro phase_cong [OF that(1)]) (auto simp: phase_inv_def phase_pre_def)
  moreover have "pl_phase ?t \<noteq> PoolOpen"
    using shut shut_empty [OF inv shut] by (auto simp: finish_checkout_def checkClosed_def Let_def split: option.split)
  ultimately show ?thesis using Some shut_finished_checkout [OF inv shut] inv by (simp add: checkout_step_def)
qed (simp add: checkout_step_def inv)

lemma shut_destroy_reported:
  assumes inv: "phase_inv s" and shut: "pl_phase s \<noteq> PoolOpen"
  shows "phase_inv (destroy_settled p failure s)" "phase_inv (destroy_expired p e s)"
proof -
  have nc: "pl_phase s \<noteq> PoolClosed" if "p \<in> set (pl_records s)" using that by (intro shut_not_closed [OF inv shut]) auto
  show "phase_inv (destroy_settled p failure s)"
    using shut shut_empty [OF inv shut] inv nc
    by (auto simp: destroy_settled_def finish_destroy_def fail_destroy_def Let_def split: destroy_state.split option.split
        intro!: shut_checked [OF inv shut] shut_kept [OF inv shut])
  show "phase_inv (destroy_expired p e s)"
    using shut shut_empty [OF inv shut] inv nc by (auto simp: destroy_expired_def fail_destroy_def Let_def intro!: shut_checked [OF inv shut])
qed

lemma shut_released:
  assumes inv: "phase_inv s" and shut: "pl_phase s \<noteq> PoolOpen"
  shows "phase_inv (snd (pool_release t b h s))"
  using shut shut_empty [OF inv shut] inv
  by (auto simp: pool_release_def release_physical_def idle_destroy_shut intro!: shut_kept [OF inv shut] split: sum.split option.split)

lemma shut_reset:
  assumes inv: "phase_inv s" and shut: "pl_phase s \<noteq> PoolOpen"
  shows "phase_inv (reset_settled p failure s)"
  using shut shut_empty [OF inv shut] inv
  by (auto simp: reset_settled_def Let_def idle_destroy_shut intro!: shut_kept [OF inv shut] split: option.split reset_owner.split)

lemma shut_shutdown_again:
  assumes inv: "phase_inv s" and shut: "pl_phase s \<noteq> PoolOpen"
  shows "phase_inv (snd (beginShutdown b t s))"
  using shut inv by (auto simp: beginShutdown_def phase_inv_def phase_pre_def split: sum.split pool_phase.split)

lemma shut_shutdown_deadline:
  assumes inv: "phase_inv s" and shut: "pl_phase s \<noteq> PoolOpen"
  shows "phase_inv (shutdown_expired e s)"
  using inv shut by (auto simp: shutdown_expired_def failClose_def Let_def phase_inv_def phase_pre_def)

lemma shut_step:
  assumes inv: "phase_inv s" and shut: "pl_phase s \<noteq> PoolOpen"
  shows "phase_inv (pool_step e s)"
proof (cases e)
  case (Acquire count timeoutMs aborted now)
  have "pool_acquire count timeoutMs aborted now s = (Inl (pool_error ''POOL_CLOSED''), s)"
    using shut by (auto simp: pool_acquire_def Let_def split: sum.split)
  with Acquire inv show ?thesis by simp
next
  case (Pump now)
  have "phase_inv (s\<lparr>pl_pumpScheduled := False\<rparr>)" by (rule shut_kept [OF inv shut]) (simp_all add: shut_empty [OF inv shut])
  with Pump inv shut show ?thesis by (simp add: pump_step_def Let_def)
next
  case (ReleaseResumed p)
  then show ?thesis using inv shut phase_checkClosed [OF phase_pre_inv [OF inv]] by (simp add: release_resumed_def)
next
  case (ValidationSettled p v)
  then show ?thesis using inv shut_empty [OF inv shut]
    by (auto simp: validate_step_def Let_def intro!: shut_kept [OF inv shut] split: option.split validation.split)
qed (use inv shut shut_empty [OF inv shut] shut_created [OF inv shut] shut_creation_failed [OF inv shut] shut_creation_expired [OF inv shut] shut_checkout [OF inv shut] shut_destroy_reported [OF inv shut] shut_released [OF inv shut] shut_reset [OF inv shut] shut_shutdown_again [OF inv shut]
      shut_shutdown_deadline [OF inv shut] in \<open>auto simp: abort_step_def handleTimeout_def rearm_step_def find_waiter_def use_begin_def
        use_end_def resetActiveLease_def intro!: shut_kept [OF inv shut] split: sum.split option.split\<close>)

lemma waiters_reject: "pl_waiters (rejectWaiter i e s) = filter (\<lambda>w. w_id w \<noteq> i) (pl_waiters s)"
proof (cases "waiter_active i s")
  case False
  then have "filter (\<lambda>w. w_id w \<noteq> i) (pl_waiters s) = pl_waiters s" by (auto simp: waiter_active_def filter_id_conv)
  with False show ?thesis by (simp add: rejectWaiter_def)
qed (simp add: rejectWaiter_def cleanupWaiter_def)

lemma waiters_fold_reject:
  "pl_waiters (fold (\<lambda>i. rejectWaiter i e) js s) = filter (\<lambda>w. w_id w \<notin> set js) (pl_waiters s)"
  by (induction js arbitrary: s) (auto simp: waiters_reject intro!: filter_cong)

lemma idle_destroy_all:
  assumes "pl_idle s = ps" and "\<forall>p\<in>set ps. p_destroy (pl_heap s p) = NotDestroyed" and "distinct ps"
  shows "pl_idle (fold pool_destroy ps s) = []"
  using assms
proof (induction ps arbitrary: s)
  case (Cons p ps)
  then have "pl_idle (pool_destroy p s) = ps" by (simp add: pool_destroy_def)
  moreover have "\<forall>q\<in>set ps. p_destroy (pl_heap (pool_destroy p s) q) = NotDestroyed"
    using Cons.prems by (auto simp: pool_destroy_def upd_physical_def)
  ultimately show ?case using Cons by simp
qed simp

lemma idle_not_destroyed: "core_inv s \<Longrightarrow> p \<in> set (pl_idle s) \<Longrightarrow> p_destroy (pl_heap s p) = NotDestroyed"
  using in_hand(2) [of "{}" s p] by (simp add: core_inv_def)

lemma phase_open_shutdown:
  assumes "phase_inv s" and "core_inv s" and "pl_phase s = PoolOpen"
  shows "phase_inv (snd (beginShutdown retire timeoutMs s))"
proof -
  define a where "a = s\<lparr>pl_phase := (if retire then PoolRetiring else PoolClosing), pl_close := ClosePending,
    pl_shutdownDeadline := True\<rparr>"
  define b where "b = fold (\<lambda>i. rejectWaiter i (pool_error ''POOL_CLOSED'')) (map w_id (pl_waiters a)) a"
  define c where "c = b\<lparr>pl_creating := map abortCreation (pl_creating b)\<rparr>"
  define d where "d = fold pool_destroy (pl_idle c) c"
  have core: "core_inv c" using assms(2) by (simp add: c_def b_def a_def)
  have "pl_waiters b = []" by (simp add: b_def waiters_fold_reject)
  moreover have "pl_idle d = []"
    unfolding d_def using core idle_not_destroyed phys_inv_D(3)
    by (intro idle_destroy_all) (auto simp: core_inv_def)
  ultimately have "phase_pre d" by (simp add: phase_pre_def d_def c_def b_def a_def)
  then have "phase_inv (checkClosed d)" by (rule phase_checkClosed)
  then show ?thesis
    using assms unfolding beginShutdown_def Let_def a_def [symmetric]
    by (auto simp: d_def c_def b_def split: sum.split)
qed

lemma phase_step: "phase_inv s \<Longrightarrow> core_inv s \<Longrightarrow> phase_inv (pool_step e s)"
proof (cases "pl_phase s = PoolOpen")
  case True
  assume inv: "phase_inv s" and core: "core_inv s"
  show ?thesis
  proof (cases "\<exists>r t. e = Shutdown r t")
    case True
    with phase_open_shutdown [OF inv core \<open>pl_phase s = PoolOpen\<close>] show ?thesis by auto
  next
    case False
    have "stays_open s (pool_step e s)"
      using True inv False by (intro stays_open_step) (auto simp: phase_inv_def phase_pre_def)
    with True show ?thesis by (intro phase_cong [OF inv]) (auto simp: stays_open_def)
  qed
qed (rule shut_step)

lemma phase_inv_reachable: "pool_reachable s \<Longrightarrow> phase_inv s"
  by (induction rule: pool_reachable.induct)
    (simp_all add: phase_step core_inv_reachable, simp add: pool_new_def phase_inv_def phase_pre_def)

end
