(* ===== verification/PoolLiveness.thy ===== *)
theory PoolLiveness
  imports PoolQueue
begin

text \<open>
  No waiter is forgotten: whenever an open pool is at rest with requests in its queue, the first
  of them is waiting for something that will wake the pool again.
\<close>

section \<open>Waking up\<close>

text \<open>What the head waiter may wait for at rest: connections that are on their way, room in the pool,
or the end of a destruction, after which the pump runs again.\<close>

definition head_waits :: "pool \<Rightarrow> waiter \<Rightarrow> bool" where
  "head_waits s w \<longleftrightarrow> length (pl_idle s) < w_count w \<and>
     (w_count w \<le> expectedAvailable s \<or> pc_maxConnections (pl_config s) \<le> pool_capacity s \<or>
      (\<exists>p\<in>set (pl_records s). p_destroy (pl_heap s p) = DestroyRunning))"

definition awake :: "pool \<Rightarrow> bool" where
  "awake s \<longleftrightarrow> (pl_phase s = PoolOpen \<and> \<not> pl_pumpScheduled s \<and> \<not> pl_dispatching s \<longrightarrow>
     (case pl_waiters s of [] \<Rightarrow> True | w # ws \<Rightarrow> head_waits s w))"

lemma awake_requestPump [simp]: "awake (requestPump s)"
  by (simp add: awake_def requestPump_def)

lemma awake_checkClosed: "awake s \<Longrightarrow> awake (checkClosed s)"
proof (cases "pl_phase s = PoolOpen")
  case False
  then have "pl_phase (checkClosed s) \<noteq> PoolOpen"
    by (auto simp: checkClosed_def Let_def split: option.split)
  then show ?thesis by (simp add: awake_def)
qed simp

lemma awake_reject: "awake s \<Longrightarrow> awake (rejectWaiter i e s)"
  by (simp add: rejectWaiter_def)

lemma awake_empty: "pl_waiters s = [] \<Longrightarrow> awake s"
  by (simp add: awake_def)

lemma awake_shut: "pl_phase s \<noteq> PoolOpen \<Longrightarrow> awake s"
  by (simp add: awake_def)

lemma awake_dispatching: "pl_dispatching s \<Longrightarrow> awake s"
  by (simp add: awake_def)

lemma awake_cong:
  assumes "awake s" "pl_phase t = pl_phase s" "pl_pumpScheduled t = pl_pumpScheduled s" "pl_dispatching t = pl_dispatching s"
    "map w_count (pl_waiters t) = map w_count (pl_waiters s)" "pl_config t = pl_config s" "length (pl_idle t) = length (pl_idle s)"
    "expectedAvailable s \<le> expectedAvailable t" "pool_capacity s \<le> pool_capacity t"
    "\<And>p. p \<in> set (pl_records s) \<Longrightarrow> p_destroy (pl_heap s p) = DestroyRunning \<Longrightarrow>
      p \<in> set (pl_records t) \<and> p_destroy (pl_heap t p) = DestroyRunning"
  shows "awake t"
proof (cases "pl_waiters t")
  case (Cons w ws)
  then obtain v vs where v: "pl_waiters s = v # vs" "w_count v = w_count w"
    using assms(5) by (cases "pl_waiters s") auto
  have "head_waits s v \<Longrightarrow> head_waits t w"
    using assms(6-10) v(2) unfolding head_waits_def by fastforce
  with assms(1-4) Cons v show ?thesis by (simp add: awake_def)
qed (rule awake_empty)

lemma startCreation_count:
  assumes "pl_phase s = PoolOpen" and "pool_capacity s < pc_maxConnections (pl_config s)"
  shows "expectedAvailable (startCreation i s) = Suc (expectedAvailable s)"
    "pool_capacity (startCreation i s) = Suc (pool_capacity s)"
  using assms by (simp_all add: startCreation_def expectedAvailable_def pool_capacity_def resetting_count_def)

lemma startCreations_count:
  assumes "pl_phase s = PoolOpen" and "n \<le> pc_maxConnections (pl_config s) - pool_capacity s"
  shows "expectedAvailable ((startCreation i ^^ n) s) = expectedAvailable s + n \<and>
    pool_capacity ((startCreation i ^^ n) s) = pool_capacity s + n"
  using assms
proof (induction n)
  case (Suc n)
  let ?t = "(startCreation i ^^ n) s"
  have t: "expectedAvailable ?t = expectedAvailable s + n" "pool_capacity ?t = pool_capacity s + n"
    using Suc by auto
  then have "pool_capacity ?t < pc_maxConnections (pl_config ?t)" "pl_phase ?t = PoolOpen"
    using Suc.prems by simp_all
  with t startCreation_count [of ?t i] show ?case by simp
qed simp

text \<open>Asking for more connections always leaves enough on the way, or a full pool.\<close>

lemma ensureWaiterCapacity_enough:
  assumes "pl_phase s = PoolOpen" and "length (pl_idle s) < w_count w"
  shows "head_waits (ensureWaiterCapacity w s) w"
  using assms startCreations_count [OF assms(1), of "pool_starts (w_count w) s" "Some (w_id w)"]
  by (auto simp: head_waits_def ensureWaiterCapacity_def pool_starts_def min_def split: if_splits)

lemma awake_end_dispatch:
  assumes "\<And>w ws. pl_waiters s = w # ws \<Longrightarrow> head_waits s w"
  shows "awake (end_dispatch s)"
proof (cases "pl_pumpRequested s")
  case False
  then have "awake (s\<lparr>pl_dispatching := False\<rparr>)"
    using assms by (auto simp: awake_def head_waits_def expectedAvailable_def pool_capacity_def resetting_count_def
        split: list.split)
  with False show ?thesis by (simp add: end_dispatch_def)
qed (simp add: end_dispatch_def)

lemma awake_dispatch: "pl_dispatching s \<Longrightarrow> awake (pool_dispatch now s)"
proof (rule pool_dispatch_rule [where P = pl_dispatching], goal_cases)
  case (6 s w ws)
  then show ?case by (intro awake_end_dispatch) (auto intro: ensureWaiterCapacity_enough)
next
  case (7 s w ws)
  then show ?case by (intro awake_dispatching) simp
qed (auto simp: awake_def)

section \<open>Without resets under a lease\<close>

definition no_lease_reset :: "pool \<Rightarrow> bool" where
  "no_lease_reset s \<longleftrightarrow> (\<forall>p g. p_reset (pl_heap s p) \<noteq> Some (LeaseReset g))"

lemma no_lease_reset_upd [simp]:
  assumes "no_lease_reset s" "\<And>x. p_reset (f x) = p_reset x \<or> p_reset (f x) \<in> {None, Some ReleaseReset}"
  shows "no_lease_reset (upd_physical p f s)"
proof -
  have "p_reset (f (pl_heap s p)) \<noteq> Some (LeaseReset g)" for g
    using assms(1) assms(2) [of "pl_heap s p"] by (auto simp: no_lease_reset_def)
  with assms(1) show ?thesis by (simp add: no_lease_reset_def upd_physical_def)
qed

lemma no_lease_reset_same:
  "pl_heap t = pl_heap s \<Longrightarrow> no_lease_reset t = no_lease_reset s"
  by (simp add: no_lease_reset_def)

lemma reset_frame:
  "p_reset (pl_heap (pool_destroy p s) q) = p_reset (pl_heap s q)"
  "p_reset (pl_heap (returnToPool p s) q) = p_reset (pl_heap s q)"
  "p_reset (pl_heap (pool_lease p s) q) = p_reset (pl_heap s q)"
  by (simp_all add: pool_destroy_def returnToPool_def pool_lease_def upd_physical_def Let_def)

lemma reset_folds:
  "p_reset (pl_heap (fold pool_destroy ps s) q) = p_reset (pl_heap s q)"
  "p_reset (pl_heap (fold returnToPool ps s) q) = p_reset (pl_heap s q)"
  "p_reset (pl_heap (lease_all ps s) q) = p_reset (pl_heap s q)"
  "p_reset (pl_heap (trim_loop n h s) q) = p_reset (pl_heap s q)"
  "p_reset (pl_heap (trimIdleHigh s) q) = p_reset (pl_heap s q)"
proof -
  show "p_reset (pl_heap (fold pool_destroy ps s) q) = p_reset (pl_heap s q)"
    by (induction ps arbitrary: s) (simp_all add: reset_frame)
  show "p_reset (pl_heap (fold returnToPool ps s) q) = p_reset (pl_heap s q)"
    by (induction ps arbitrary: s) (simp_all add: reset_frame)
  show "p_reset (pl_heap (lease_all ps s) q) = p_reset (pl_heap s q)"
    unfolding lease_all_def by (induction ps arbitrary: s) (simp_all add: reset_frame)
  show t: "p_reset (pl_heap (trim_loop n h s) q) = p_reset (pl_heap s q)" for n h s
    by (induction n h s rule: trim_loop.induct) (simp_all add: reset_frame)
  show "p_reset (pl_heap (trimIdleHigh s) q) = p_reset (pl_heap s q)"
    by (simp add: trimIdleHigh_def t Let_def)
qed

lemma no_lease_reset_frame [simp]:
  "no_lease_reset (pool_destroy p s) = no_lease_reset s" "no_lease_reset (returnToPool p s) = no_lease_reset s"
  "no_lease_reset (fold pool_destroy ps s) = no_lease_reset s" "no_lease_reset (fold returnToPool ps s) = no_lease_reset s"
  "no_lease_reset (lease_all ps s) = no_lease_reset s" "no_lease_reset (trimIdleHigh s) = no_lease_reset s"
  "no_lease_reset (begin_checkout w s) = no_lease_reset s"
  by (auto simp: no_lease_reset_def reset_frame reset_folds begin_checkout_def Let_def)

lemma no_lease_reset_frame2 [simp]:
  "no_lease_reset (requestPump s) = no_lease_reset s" "no_lease_reset (rejectWaiter i e s) = no_lease_reset s"
  "no_lease_reset (cleanupWaiter i s) = no_lease_reset s" "no_lease_reset (checkClosed s) = no_lease_reset s"
  "no_lease_reset (failClose e s) = no_lease_reset s" "no_lease_reset (end_dispatch s) = no_lease_reset s"
  "no_lease_reset (ensureLowWater s) = no_lease_reset s" "no_lease_reset (ensureWaiterCapacity w s) = no_lease_reset s"
  "no_lease_reset (drop_creation i s) = no_lease_reset s" "no_lease_reset (count_timeout e s) = no_lease_reset s"
  "no_lease_reset (upd_waiter i f s) = no_lease_reset s" "no_lease_reset (upd_lease g l s) = no_lease_reset s"
  "no_lease_reset (fold (\<lambda>i. rejectWaiter i e) js s) = no_lease_reset s"
  "no_lease_reset (s\<lparr>pl_lastClockValue := v\<rparr>) = no_lease_reset s" "no_lease_reset (s\<lparr>pl_checkout := k\<rparr>) = no_lease_reset s"
  "no_lease_reset (s\<lparr>pl_lowWaterBlocked := b\<rparr>) = no_lease_reset s" "no_lease_reset (s\<lparr>pl_creating := cs\<rparr>) = no_lease_reset s"
  "no_lease_reset (s\<lparr>pl_pumpScheduled := b\<rparr>) = no_lease_reset s" "no_lease_reset (s\<lparr>pl_dispatching := b\<rparr>) = no_lease_reset s"
  "no_lease_reset (s\<lparr>pl_pumpRequested := b\<rparr>) = no_lease_reset s" "no_lease_reset (s\<lparr>pl_records := rs\<rparr>) = no_lease_reset s"
  "no_lease_reset (s\<lparr>pl_nextPhysical := n\<rparr>) = no_lease_reset s" "no_lease_reset (s\<lparr>pl_creationAborts := n\<rparr>) = no_lease_reset s"
  "no_lease_reset (s\<lparr>pl_creationFailures := n\<rparr>) = no_lease_reset s" "no_lease_reset (s\<lparr>pl_healthFailures := n\<rparr>) = no_lease_reset s"
  "no_lease_reset (s\<lparr>pl_resetFailures := n\<rparr>) = no_lease_reset s" "no_lease_reset (s\<lparr>pl_destroyFailures := n\<rparr>) = no_lease_reset s"
  "no_lease_reset (s\<lparr>pl_shutdownTimeouts := n\<rparr>) = no_lease_reset s" "no_lease_reset (s\<lparr>pl_shutdownDeadline := b\<rparr>) = no_lease_reset s"
  "no_lease_reset (s\<lparr>pl_phase := ph\<rparr>) = no_lease_reset s" "no_lease_reset (s\<lparr>pl_close := cl\<rparr>) = no_lease_reset s"
  "no_lease_reset (s\<lparr>pl_waiters := ws\<rparr>) = no_lease_reset s" "no_lease_reset (s\<lparr>pl_settled := st\<rparr>) = no_lease_reset s"
  "no_lease_reset (s\<lparr>pl_nextWaiterId := n\<rparr>) = no_lease_reset s"
  by (rule no_lease_reset_same; simp)+

lemma no_lease_reset_dispatch: "no_lease_reset s \<Longrightarrow> no_lease_reset (pool_dispatch now s)"
  by (rule pool_dispatch_rule [where P = no_lease_reset]) simp_all

lemma no_lease_reset_finish: "no_lease_reset s \<Longrightarrow> no_lease_reset (finish_checkout k now s)"
  by (auto simp: finish_checkout_def waiterCannotDispatch_def Let_def readClock_frame
      split: option.splits prod.splits sum.splits if_splits)

lemma no_lease_reset_step:
  assumes "no_lease_reset s" and "\<And>t. e \<noteq> ResetLease t"
  shows "no_lease_reset (pool_step e s)"
proof -
  have keep: "p_reset (pl_heap s p) \<noteq> Some (LeaseReset g)" for p g using assms(1) by (simp add: no_lease_reset_def)
  show ?thesis
  proof (cases e)
    case (AcquireTimer i g r now)
    then show ?thesis using assms(1)
      by (auto simp: handleTimeout_def Let_def readClock_frame split: sum.splits option.splits)
  next
    case (Acquire count timeoutMs aborted now)
    then show ?thesis using assms(1)
      by (auto simp: pool_acquire_def armTimeout_def Let_def readClock_frame split: sum.splits)
  next
    case (RearmTimer i g now)
    then show ?thesis using assms(1)
      by (auto simp: rearm_step_def armTimeout_def readClock_frame split: sum.splits option.splits)
  qed (use assms keep in \<open>auto simp: abort_step_def pump_step_def no_lease_reset_dispatch creationSucceeded_def
      creationFailed_def creationFailedAfterRemoval_def creationExpired_def reject_owner_def validate_step_def
      checkout_step_def no_lease_reset_finish use_begin_def use_end_def pool_release_def release_physical_def
      release_returned_def reset_settled_def release_resumed_def destroy_settled_def finish_destroy_def
      destroy_expired_def fail_destroy_def beginShutdown_def shutdown_expired_def Let_def
      split: sum.split option.split prod.split validation.split reset_owner.split destroy_state.split pool_phase.split\<close>)
qed

section \<open>Every step leaves the pool awake\<close>

lemma awake_same:
  assumes "pl_phase t = pl_phase s" "pl_pumpScheduled t = pl_pumpScheduled s" "pl_dispatching t = pl_dispatching s"
    "pl_waiters t = pl_waiters s" "pl_config t = pl_config s" "pl_idle t = pl_idle s" "pl_creating t = pl_creating s"
    "pl_records t = pl_records s" "pl_heap t = pl_heap s"
  shows "awake t = awake s"
  using assms
  by (cases "pl_waiters s") (simp_all add: awake_def head_waits_def expectedAvailable_def pool_capacity_def resetting_count_def)

lemma upd_physical_at: "pl_heap (upd_physical p f s) p = f (pl_heap s p)"
  by (simp add: upd_physical_def)

lemma awake_frame [simp]:
  "awake (s\<lparr>pl_lastClockValue := v\<rparr>) = awake s" "awake (s\<lparr>pl_checkout := k\<rparr>) = awake s"
  "awake (s\<lparr>pl_lowWaterBlocked := b\<rparr>) = awake s" "awake (s\<lparr>pl_healthFailures := n\<rparr>) = awake s"
  "awake (s\<lparr>pl_resetFailures := n\<rparr>) = awake s" "awake (s\<lparr>pl_shutdownTimeouts := n\<rparr>) = awake s"
  "awake (s\<lparr>pl_shutdownDeadline := b\<rparr>) = awake s" "awake (count_timeout e s) = awake s"
  "awake (upd_lease g l s) = awake s" "awake (failClose e s) = awake s"
  by (rule awake_same; simp)+

lemma awake_upd_waiter: "(\<And>w. w_count (f w) = w_count w) \<Longrightarrow> awake s \<Longrightarrow> awake (upd_waiter i f s)"
  by (rule awake_cong [of s]) (simp_all add: upd_waiter_def expectedAvailable_def pool_capacity_def resetting_count_def)

lemma filter_length_mono: "(\<And>x. x \<in> set xs \<Longrightarrow> P x \<Longrightarrow> Q x) \<Longrightarrow> length (filter P xs) \<le> length (filter Q xs)"
  by (induction xs) (auto intro: le_SucI)

lemma awake_upd_physical:
  assumes "awake s" and "p_state (pl_heap s p) = PResetting \<Longrightarrow> p_state (f (pl_heap s p)) = PResetting"
    and "p_destroy (pl_heap s p) = DestroyRunning \<Longrightarrow> p_destroy (f (pl_heap s p)) = DestroyRunning"
  shows "awake (upd_physical p f s)"
  using assms(2,3)
  by (intro awake_cong [OF assms(1)])
    (auto simp: upd_physical_def expectedAvailable_def pool_capacity_def resetting_count_def intro!: filter_length_mono)

text \<open>A destruction under way is a promise to pump again.\<close>

lemma awake_destroy:
  assumes "awake s" and "p \<in> set (pl_records s)" and "p_destroy (pl_heap s p) = NotDestroyed"
  shows "awake (pool_destroy p s)"
proof -
  have "head_waits (pool_destroy p s) w" if "head_waits s w" for w
    using that assms(2,3) length_remove1 [of p "pl_idle s"]
    by (auto simp: head_waits_def pool_destroy_def upd_physical_def split: if_splits)
  with assms(1) show ?thesis by (cases "pl_waiters s") (simp_all add: awake_def)
qed

lemma awake_release_returned:
  assumes "awake s" and "p \<in> set (pl_records s)" and "p_destroy (pl_heap s p) = NotDestroyed"
  shows "awake (release_returned p s)"
proof -
  let ?u = "upd_physical p (\<lambda>x. x\<lparr>p_recycleIdleHigh := None\<rparr>) s"
  have u: "awake (pool_destroy p ?u)" "awake (pool_destroy p s)"
    using assms awake_upd_physical [of s p] by (auto intro!: awake_destroy simp: upd_physical_at)
  show ?thesis
    using u assms by (auto simp: release_returned_def returnToPool_def Let_def upd_physical_at)
qed

lemma awake_release_physical:
  assumes "awake s" and "p \<in> set (pl_records s)" and "p_destroy (pl_heap s p) = NotDestroyed"
  shows "awake (release_physical p b h s)"
proof -
  let ?u = "upd_physical p (\<lambda>x. x\<lparr>p_recycleIdleHigh := h\<rparr>) s"
  have u: "awake ?u" "p \<in> set (pl_records ?u)" "p_destroy (pl_heap ?u p) = NotDestroyed"
    using assms by (auto intro!: awake_upd_physical simp: upd_physical_at)
  have "awake (upd_physical p (\<lambda>x. x\<lparr>p_state := PResetting, p_reset := Some ReleaseReset\<rparr>) ?u)"
    using u(1) by (rule awake_upd_physical) simp_all
  moreover have "awake (release_returned p (?u\<lparr>pl_lowWaterBlocked := False\<rparr>))"
    using u by (intro awake_release_returned) simp_all
  ultimately show ?thesis using awake_destroy [OF assms] by (simp add: release_physical_def Let_def)
qed

lemma awake_reset_settled:
  assumes "awake s" and "core_inv s" and "no_lease_reset s"
  shows "awake (reset_settled p failure s)"
proof -
  define u where "u = (case failure of None \<Rightarrow> s
     | Some e \<Rightarrow> (count_timeout e s)\<lparr>pl_resetFailures := Suc (pl_resetFailures s)\<rparr>)"
  have u: "awake u" "pl_records u = pl_records s" "pl_heap u = pl_heap s" "pl_phase u = pl_phase s"
    using assms(1) by (auto simp: u_def split: option.split)
  show ?thesis
  proof (cases "p \<in> set (pl_records s) \<and> p_reset (pl_heap s p) = Some ReleaseReset")
    case True
    then have "place_ok s p" using phys_inv_D(9) [of "{}" s p] assms(2) by (simp add: core_inv_def physical_ok_def)
    with True have nd: "p_destroy (pl_heap s p) = NotDestroyed" by (auto simp: place_ok_def)
    let ?v = "upd_physical p (\<lambda>x. x\<lparr>p_reset := None\<rparr>) u"
    have v: "awake ?v" "p \<in> set (pl_records ?v)" "p_destroy (pl_heap ?v p) = NotDestroyed"
      using u True nd by (auto intro!: awake_upd_physical simp: upd_physical_at)
    have "awake (pool_destroy p ?v)" "awake (release_returned p (?v\<lparr>pl_lowWaterBlocked := False\<rparr>))"
      using v by (auto intro!: awake_destroy awake_release_returned)
    with True show ?thesis unfolding reset_settled_def Let_def u_def [symmetric] by simp
  next
    case False
    have "p_reset (pl_heap s p) \<noteq> Some (LeaseReset g)" for g using assms(3) by (simp add: no_lease_reset_def)
    with False assms(1) show ?thesis
      by (auto simp: reset_settled_def Let_def split: option.split reset_owner.split)
  qed
qed

lemma awake_step:
  assumes "awake s" and "core_inv s" and "no_lease_reset s" and "\<And>t. e \<noteq> ResetLease t"
  shows "awake (pool_step e s)"
proof (cases e)
  case (Acquire count timeoutMs aborted now)
  then show ?thesis using assms(1) by (auto simp: pool_acquire_def Let_def readClock_frame split: sum.splits)
next
  case (AcquireTimer i g r now)
  then show ?thesis using assms(1)
    by (auto simp: handleTimeout_def Let_def readClock_frame intro!: awake_reject awake_upd_waiter split: sum.splits option.splits)
next
  case (RearmTimer i g now)
  then show ?thesis using assms(1)
    by (auto simp: rearm_step_def armTimeout_def readClock_frame intro!: awake_reject awake_upd_waiter
        split: sum.splits option.splits)
next
  case (Pump now)
  then show ?thesis using assms(1) by (auto simp: pump_step_def Let_def intro!: awake_dispatch) (auto simp: awake_def)
next
  case (CheckoutResumed now)
  have "pl_dispatching (finish_checkout k now (s\<lparr>pl_checkout := None\<rparr>)) = pl_dispatching s" for k
    by (auto simp: finish_checkout_def waiterCannotDispatch_def Let_def readClock_frame split: option.splits prod.splits sum.splits if_splits)
  with CheckoutResumed assms(1,2) show ?thesis
    by (auto simp: checkout_step_def core_inv_def intro!: awake_dispatch split: option.split)
next
  case (Release t b h)
  have "l_physical l \<in> set (pl_records s)" "p_destroy (pl_heap s (l_physical l)) = NotDestroyed"
    if "pl_leases s g = Some l" "l_active l" for g l
    using active_lease_place [of s g l] that assms(2) by (auto simp: core_inv_def place_ok_def)
  with Release assms(1) show ?thesis
    by (auto simp: pool_release_def activeLeaseRecord_iff upd_lease_def [symmetric] intro!: awake_release_physical split: sum.split option.split)
next
  case (DestroySettled p failure)
  then show ?thesis using assms(1)
    by (auto simp: destroy_settled_def finish_destroy_def fail_destroy_def Let_def
        intro!: awake_checkClosed awake_upd_physical intro: awake_shut split: option.split destroy_state.split)
next
  case (Shutdown retire timeoutMs)
  have "awake t" if "pl_phase t \<noteq> PoolOpen" for t using that by (simp add: awake_def)
  moreover have "pl_phase (checkClosed t) \<noteq> PoolOpen" if "pl_phase t \<noteq> PoolOpen" for t
    using that by (auto simp: checkClosed_def Let_def split: option.split)
  ultimately show ?thesis using Shutdown assms(1)
    by (auto simp: beginShutdown_def Let_def split: sum.split pool_phase.split)
qed (use assms awake_reset_settled in \<open>auto simp: abort_step_def awake_reject creationSucceeded_def creationFailed_def
    creationFailedAfterRemoval_def creationExpired_def validate_step_def use_begin_def use_end_def
    release_resumed_def destroy_expired_def fail_destroy_def shutdown_expired_def Let_def simp del: shut_frame
    intro!: awake_checkClosed split: sum.split option.split validation.split\<close>)

end
