(* ===== verification/PoolProperties.thy ===== *)
theory PoolProperties
  imports PoolLiveness
begin

text \<open>
  What the pool guarantees to its users, and where it falls short.
\<close>

definition sample_options :: pool_options where
  "sample_options = \<lparr>po_hasValidate = False, po_hasReset = True, po_maxConnections = 2, po_maxWaiters = 4,
     po_acquireTimeoutMs = 1000, po_lifecycleTimeoutMs = None, po_shutdownTimeoutMs = None, po_lowWater = None,
     po_idleHigh = None, po_validateOnCheckout = None, po_resetOnRelease = None\<rparr>"

definition sample_config :: pool_config where
  "sample_config = \<lparr>pc_maxConnections = 2, pc_maxWaiters = 4, pc_acquireTimeoutMs = 1000,
     pc_lifecycleTimeoutMs = 1000, pc_shutdownTimeoutMs = 1000, pc_lowWater = 0, pc_idleHigh = 2,
     pc_validateOnCheckout = False, pc_resetOnRelease = False, pc_hasReset = True\<rparr>"

lemma sample_configured: "pool_configure sample_options = Inr sample_config"
  by (simp add: pool_configure_def sample_options_def sample_config_def pool_integer_def pool_timeout_def
      MAX_TIMER_MS_def is_safe_integer_def max_safe_integer_def)

definition pool_run :: "pool_event list \<Rightarrow> pool \<Rightarrow> pool" where
  "pool_run es s = fold pool_step es s"

lemma pool_run_reachable: "pool_reachable s \<Longrightarrow> pool_reachable (pool_run es s)"
  unfolding pool_run_def by (induction es arbitrary: s) (simp_all add: pool_reachable.pool_stepped)

lemma sample_reachable: "pool_reachable (pool_run es (pool_new sample_config))"
  using sample_configured by (intro pool_run_reachable pool_reachable.pool_started)

text \<open>One connection is created for a first request and leased to it.\<close>

definition lease_one :: "pool_event list" where
  "lease_one = [Acquire 1 None False 0, Pump 0, CreationSettled 1 (Some 7), Pump 0, CheckoutResumed 0]"

lemma lease_one_run:
  "pl_settled (pool_run lease_one (pool_new sample_config)) = [(1, Inr [1])]"
  by code_simp

section \<open>Mutual exclusion\<close>

text \<open>C24. No connection is ever lent twice. In every reachable state of the pool two active leases have
different connections; the connection of an active lease is one of the pool's, is leased or being
reset under that lease, is not idle and not being destroyed, and carries the generation of the
lease; and at most one operation runs under it.\<close>

theorem pool_leases_exclusive:
  assumes "pool_reachable s" and "pl_leases s g = Some l" and "l_active l"
  shows "(\<forall>h k. pl_leases s h = Some k \<and> l_active k \<and> l_physical k = l_physical l \<longrightarrow> h = g) \<and>
    l_physical l \<in> set (pl_records s) \<and> l_physical l \<notin> set (pl_idle s) \<and>
    p_state (pl_heap s (l_physical l)) \<in> {PLeased, PResetting} \<and>
    p_destroy (pl_heap s (l_physical l)) = NotDestroyed \<and>
    p_generation (pl_heap s (l_physical l)) = g \<and> l_activeOperations l \<le> 1"
proof -
  have inv: "phys_inv {} s" "lease_inv s" using core_inv_reachable [OF assms(1)] by (simp_all add: core_inv_def)
  note at = active_lease_place [OF inv assms(2,3)]
  have "h = g" if "pl_leases s h = Some k" "l_active k" "l_physical k = l_physical l" for h k
    using lease_inv_D(6) [OF inv(2) that(1,2)] at(3) that(3) by simp
  with at lease_inv_D(3) [OF inv(2) assms(2)] show ?thesis by (auto simp: place_ok_def)
qed

lemma lease_one_lease: "\<exists>l. pl_leases (pool_run lease_one (pool_new sample_config)) 1 = Some l \<and> l_active l"
proof -
  have "pl_leases (pool_run lease_one (pool_new sample_config)) 1 =
      Some \<lparr>l_physical = 0, l_active = True, l_activeOperations = 0\<rparr>" by code_simp
  then show ?thesis by simp
qed

lemma pool_leases_exclusive_witness:
  "\<exists>l. pl_leases (pool_run lease_one (pool_new sample_config)) 1 = Some l \<and>
     l_physical l \<notin> set (pl_idle (pool_run lease_one (pool_new sample_config)))"
proof -
  obtain l where "pl_leases (pool_run lease_one (pool_new sample_config)) 1 = Some l" "l_active l"
    using lease_one_lease by blast
  with pool_leases_exclusive [OF sample_reachable this] show ?thesis by blast
qed

lemma state_count_filter:
  assumes "\<And>p. p \<in> set (pl_records s) \<Longrightarrow> P p \<longleftrightarrow> p_state (pl_heap s p) = x"
  shows "state_count x s = length (filter P (pl_records s))"
  unfolding state_count_def using assms by (intro arg_cong [of _ _ length] filter_cong) auto

text \<open>C25. The pool keeps its bounds: in every reachable state the connections the monitor reports, which
are those the pool has and those being created, never exceed \<open>maxConnections\<close>, the queue never exceeds
\<open>maxWaiters\<close>; and the monitor counts what the pool really does with its connections: as idle those in the idle
list, as validating the candidates of the running checkout, as leased those in the hands of a lease that are not
being reset, as resetting those with a reset under way, as closing those whose destruction has begun, as creating and
waiting the creations and requests under way.\<close>

theorem pool_bounds:
  assumes "pool_reachable s"
  shows "m_connections (pool_monitor s) = length (pl_records s) + length (pl_creating s) \<and>
    m_connections (pool_monitor s) \<le> pc_maxConnections (pl_config s) \<and>
    m_waiting (pool_monitor s) \<le> pc_maxWaiters (pl_config s) \<and>
    m_idle (pool_monitor s) = length (pl_idle s) \<and>
    m_validating (pool_monitor s) = length (filter (\<lambda>p. p \<in> set (pl_candidates s)) (pl_records s)) \<and>
    m_leased (pool_monitor s) = length (filter (\<lambda>p. leased s p \<and> p_reset (pl_heap s p) = None) (pl_records s)) \<and>
    m_resetting (pool_monitor s) = length (filter (\<lambda>p. p_reset (pl_heap s p) \<noteq> None) (pl_records s)) \<and>
    m_closing (pool_monitor s) = length (filter (\<lambda>p. p_destroy (pl_heap s p) \<noteq> NotDestroyed) (pl_records s)) \<and>
    m_creating (pool_monitor s) = length (pl_creating s) \<and> m_waiting (pool_monitor s) = length (pl_waiters s) \<and>
    distinct (pl_records s) \<and> distinct (pl_idle s) \<and>
    (\<forall>p\<in>set (pl_records s). (p \<in> set (pl_idle s) \<longleftrightarrow> p_state (pl_heap s p) = PIdle) \<and>
      (p \<in> set (pl_candidates s) \<longleftrightarrow> p_state (pl_heap s p) = PValidating) \<and>
      (p_destroy (pl_heap s p) \<noteq> NotDestroyed \<longleftrightarrow> p_state (pl_heap s p) = PClosing))"
proof -
  have inv: "phys_inv {} s" using core_inv_reachable [OF assms] by (simp add: core_inv_def)
  have place: "place_ok s p" if "p \<in> set (pl_records s)" for p
    using phys_inv_D(9) [OF inv that] by (simp add: physical_ok_def)
  then have places: "\<forall>p\<in>set (pl_records s). (p \<in> set (pl_idle s) \<longleftrightarrow> p_state (pl_heap s p) = PIdle) \<and>
      (p \<in> set (pl_candidates s) \<longleftrightarrow> p_state (pl_heap s p) = PValidating) \<and>
      (p_destroy (pl_heap s p) \<noteq> NotDestroyed \<longleftrightarrow> p_state (pl_heap s p) = PClosing)"
    by (auto simp: place_ok_def)
  then have "set (filter (\<lambda>p. p_state (pl_heap s p) = PIdle) (pl_records s)) = set (pl_idle s)"
    using phys_inv_D(4) [OF inv] by auto
  then have idle: "m_idle (pool_monitor s) = length (pl_idle s)"
    using phys_inv_D(1,3) [OF inv]
    by (simp add: pool_monitor_def state_count_def Let_def flip: distinct_card)
  have iffs: "p \<in> set (pl_candidates s) \<longleftrightarrow> p_state (pl_heap s p) = PValidating"
    "leased s p \<and> p_reset (pl_heap s p) = None \<longleftrightarrow> p_state (pl_heap s p) = PLeased"
    "p_reset (pl_heap s p) \<noteq> None \<longleftrightarrow> p_state (pl_heap s p) = PResetting"
    "p_destroy (pl_heap s p) \<noteq> NotDestroyed \<longleftrightarrow> p_state (pl_heap s p) = PClosing" if "p \<in> set (pl_records s)" for p
    using place [OF that] unfolding place_ok_def by (cases "p_state (pl_heap s p)"; auto)+
  have counts: "state_count PValidating s = length (filter (\<lambda>p. p \<in> set (pl_candidates s)) (pl_records s))"
    "state_count PLeased s = length (filter (\<lambda>p. leased s p \<and> p_reset (pl_heap s p) = None) (pl_records s))"
    "state_count PResetting s = length (filter (\<lambda>p. p_reset (pl_heap s p) \<noteq> None) (pl_records s))"
    "state_count PClosing s = length (filter (\<lambda>p. p_destroy (pl_heap s p) \<noteq> NotDestroyed) (pl_records s))"
    by (rule state_count_filter, erule iffs)+
  have monitor: "m_validating (pool_monitor s) = state_count PValidating s" "m_leased (pool_monitor s) = state_count PLeased s"
    "m_resetting (pool_monitor s) = state_count PResetting s" "m_closing (pool_monitor s) = state_count PClosing s"
    "m_creating (pool_monitor s) = length (pl_creating s)" "m_waiting (pool_monitor s) = length (pl_waiters s)"
    by (simp_all add: pool_monitor_def Let_def)
  have bounds: "pool_capacity s \<le> pc_maxConnections (pl_config s)" "length (pl_waiters s) \<le> pc_maxWaiters (pl_config s)"
    using cap_inv_reachable [OF assms] queue_inv_reachable [OF assms] by (simp_all add: cap_inv_def queue_inv_def)
  show ?thesis
    unfolding monitor_connections monitor counts idle using bounds places phys_inv_D(1,3) [OF inv]
    by (simp add: pool_capacity_def)
qed

lemma pool_bounds_witness:
  "m_connections (pool_monitor (pool_run lease_one (pool_new sample_config))) \<le> 2"
proof -
  have "pl_config (pool_run lease_one (pool_new sample_config)) = sample_config" by code_simp
  with pool_bounds [OF sample_reachable [of lease_one]] show ?thesis by (simp add: sample_config_def)
qed

text \<open>C26. Every request is answered once: of the numbers given to requests each is either still in the
queue or settled exactly once, and the queue is in the order of arrival.\<close>

theorem pool_acquire_settles_once:
  assumes "pool_reachable s"
  shows "distinct (map fst (pl_settled s)) \<and> sorted_wrt (<) (map w_id (pl_waiters s)) \<and>
    {1..<pl_nextWaiterId s} = w_id ` set (pl_waiters s) \<union> fst ` set (pl_settled s) \<and>
    w_id ` set (pl_waiters s) \<inter> fst ` set (pl_settled s) = {}"
  using queue_inv_reachable [OF assms] by (simp add: queue_inv_def)

lemma pool_acquire_settles_once_witness:
  "{1..<pl_nextWaiterId (pool_run lease_one (pool_new sample_config))} =
    w_id ` set (pl_waiters (pool_run lease_one (pool_new sample_config))) \<union> {1}"
  using pool_acquire_settles_once [OF sample_reachable [of lease_one]] lease_one_run by simp

section \<open>Shutdown\<close>

text \<open>C27. Closing is complete and only then reported: once the pool has left the open phase nobody waits
and nothing is idle; while it retires or closes something is still to be closed; the promise of
\<open>close\<close> is fulfilled only when no connection and no creation is left, and when none is left the
pool is closed and the promise settled.\<close>

theorem pool_shutdown_complete:
  assumes "pool_reachable s" and "pl_phase s \<noteq> PoolOpen"
  shows "pl_waiters s = [] \<and> pl_idle s = [] \<and>
    (pl_phase s = PoolClosed \<longleftrightarrow> pl_records s = [] \<and> pl_creating s = []) \<and>
    (pl_close s = CloseResolved \<longrightarrow> pl_phase s = PoolClosed) \<and>
    (pl_phase s = PoolClosed \<longrightarrow> pl_close s \<noteq> ClosePending \<and> pl_close s \<noteq> NotClosing)"
  using phase_inv_reachable [OF assms(1)] assms(2)
  by (cases "pl_phase s") (auto simp: phase_inv_def phase_pre_def)

lemma pool_shutdown_complete_witness:
  "pl_waiters (pool_run (lease_one @ [Shutdown False None]) (pool_new sample_config)) = []"
proof -
  have "pl_phase (pool_run (lease_one @ [Shutdown False None]) (pool_new sample_config)) \<noteq> PoolOpen" by code_simp
  from pool_shutdown_complete [OF sample_reachable this] show ?thesis by blast
qed

section \<open>Waiting\<close>

lemma run_awake:
  assumes "pool_configure options = Inr config" and "\<forall>e\<in>set es. \<forall>t. e \<noteq> ResetLease t"
  shows "awake (pool_run es (pool_new config)) \<and> no_lease_reset (pool_run es (pool_new config))"
proof -
  have "awake (fold pool_step es s) \<and> no_lease_reset (fold pool_step es s)"
    if "awake s" "no_lease_reset s" "pool_reachable s" for s
    using that assms(2)
    by (induction es arbitrary: s)
      (simp_all add: awake_step no_lease_reset_step core_inv_reachable pool_reachable.pool_stepped)
  moreover have "awake (pool_new config)" "no_lease_reset (pool_new config)"
    by (simp_all add: pool_new_def no_lease_reset_def)
  ultimately show ?thesis
    using pool_reachable.pool_started [OF assms(1)] by (simp add: pool_run_def)
qed

text \<open>C28. No lost wakeup, as long as no lease is reset in place: in a run without \<open>resetActiveLease\<close>, if
the pool is open, its pump is neither scheduled nor running and a request heads the queue, then
too few connections are idle for it, and either enough are on their way, or the pool is full, or a
connection is being destroyed, the end of which runs the pump again.\<close>

theorem pool_no_lost_wakeup:
  assumes "pool_configure options = Inr config" and "\<forall>e\<in>set es. \<forall>t. e \<noteq> ResetLease t"
    and "s = pool_run es (pool_new config)" and "pl_phase s = PoolOpen"
    and "\<not> pl_pumpScheduled s" and "\<not> pl_dispatching s" and "pl_waiters s = w # ws"
  shows "length (pl_idle s) < w_count w \<and>
    (w_count w \<le> expectedAvailable s \<or> pc_maxConnections (pl_config s) \<le> pool_capacity s \<or>
     (\<exists>p\<in>set (pl_records s). p_destroy (pl_heap s p) = DestroyRunning))"
  using run_awake [OF assms(1,2)] assms(3-7) by (simp add: awake_def head_waits_def)

definition wait_one :: "pool_event list" where
  "wait_one = [Acquire 2 None False 0, Pump 0, CreationSettled 1 (Some 7), Pump 0]"

lemma pool_no_lost_wakeup_witness:
  "let s = pool_run wait_one (pool_new sample_config) in
     pl_waiters s \<noteq> [] \<and> length (pl_idle s) < 2 \<and> (2 \<le> expectedAvailable s \<or> 2 \<le> pool_capacity s \<or>
     (\<exists>p\<in>set (pl_records s). p_destroy (pl_heap s p) = DestroyRunning))"
proof -
  let ?s = "pool_run wait_one (pool_new sample_config)"
  have w: "pl_phase ?s = PoolOpen" "\<not> pl_pumpScheduled ?s" "\<not> pl_dispatching ?s"
    "pl_waiters ?s = \<lparr>w_id = 1, w_count = 2, w_deadline = 1000, w_timeoutGeneration = 1, w_earlyTimeoutRearms = 0\<rparr> # []"
    "pl_config ?s = sample_config"
    by code_simp+
  have "\<forall>e\<in>set wait_one. \<forall>t. e \<noteq> ResetLease t" by (simp add: wait_one_def)
  from pool_no_lost_wakeup [OF sample_configured this refl w(1-4)] w(4,5) show ?thesis
    by (simp add: Let_def sample_config_def)
qed

section \<open>A lost wakeup\<close>

lemma lease_reset_running:
  assumes "pool_reachable s" and "p \<in> set (pl_records s)" and "p_reset (pl_heap s p) = Some (LeaseReset g)"
  obtains l where "pl_leases s g = Some l" "l_active l" "p_state (pl_heap s p) = PResetting"
proof -
  have "phys_inv {} s" using core_inv_reachable [OF assms(1)] by (simp add: core_inv_def)
  from phys_inv_D(9) [OF this assms(2)] have "place_ok s p" by (simp add: physical_ok_def)
  with assms(3) that show thesis by (auto simp: place_ok_def lease_reset_ok_def leased_def)
qed

lemma resetting_count_less:
  assumes "distinct (pl_records s)" and "p \<in> set (pl_records s)" and "p_state (pl_heap s p) = PResetting"
    and "pl_records s' = pl_records s" and "p_state (pl_heap s' p) \<noteq> PResetting"
    and "\<And>q. q \<noteq> p \<Longrightarrow> pl_heap s' q = pl_heap s q"
  shows "resetting_count s = Suc (resetting_count s')"
proof -
  have "{q \<in> set (pl_records s). p_state (pl_heap s q) = PResetting} =
      insert p {q \<in> set (pl_records s). p_state (pl_heap s' q) = PResetting}"
    using assms(2,3,6) by force
  moreover have "p \<notin> {q \<in> set (pl_records s). p_state (pl_heap s' q) = PResetting}" using assms(5) by simp
  ultimately have "card {q \<in> set (pl_records s). p_state (pl_heap s q) = PResetting} =
      Suc (card {q \<in> set (pl_records s). p_state (pl_heap s' q) = PResetting})" by simp
  then show ?thesis using assms(1,4) by (simp add: resetting_count_def flip: distinct_card)
qed

lemma reset_settled_lease:
  assumes "p \<in> set (pl_records s)" and "p_reset (pl_heap s p) = Some (LeaseReset g)"
    and "pl_leases s g = Some l" and "l_active l" and "p_state (pl_heap s p) = PResetting"
  shows "p_state (pl_heap (reset_settled p failure s) p) = PLeased"
    "\<And>q. q \<noteq> p \<Longrightarrow> pl_heap (reset_settled p failure s) q = pl_heap s q"
    "pl_idle (reset_settled p failure s) = pl_idle s" "pl_creating (reset_settled p failure s) = pl_creating s"
    "pl_records (reset_settled p failure s) = pl_records s" "pl_phase (reset_settled p failure s) = pl_phase s"
    "pl_pumpScheduled (reset_settled p failure s) = pl_pumpScheduled s"
    "pl_dispatching (reset_settled p failure s) = pl_dispatching s" "pl_waiters (reset_settled p failure s) = pl_waiters s"
    "pl_config (reset_settled p failure s) = pl_config s"
    "p_destroy (pl_heap (reset_settled p failure s) p) = p_destroy (pl_heap s p)"
  using assms
  by (cases failure; cases "failure = Some (pool_error ''LIFECYCLE_TIMEOUT'')";
      simp add: reset_settled_def Let_def upd_physical_def upd_lease_def count_timeout_def)+

text \<open>C29. A reset under a lease can lose a wakeup. However the reset ends, in any reachable state, it takes one
connection from those counted as on their way, gives it back to its lease and touches neither the queue nor the
pump. So whenever the request at the head of the queue relied on it - no more connections being on their way than
it needs - it is left behind: too few are on their way, and with room left in the pool and nothing being destroyed the
guarantee the pool gives without such resets is broken, for the pump stays neither scheduled nor running.\<close>

theorem pool_reset_loses_wakeup:
  assumes "pool_reachable s" and "p \<in> set (pl_records s)" and "p_reset (pl_heap s p) = Some (LeaseReset g)"
    and "pl_phase s = PoolOpen" and "\<not> pl_pumpScheduled s" and "\<not> pl_dispatching s"
    and "pl_waiters s = w # ws" and "expectedAvailable s \<le> w_count w"
    and "s' = pool_step (ResetSettled p failure) s"
  shows "p_state (pl_heap s' p) = PLeased \<and> pl_idle s' = pl_idle s \<and> pl_creating s' = pl_creating s \<and>
    pl_records s' = pl_records s \<and> pl_phase s' = PoolOpen \<and> \<not> pl_pumpScheduled s' \<and> \<not> pl_dispatching s' \<and>
    pl_waiters s' = w # ws \<and> Suc (expectedAvailable s') = expectedAvailable s \<and> expectedAvailable s' < w_count w \<and>
    pool_capacity s' = pool_capacity s \<and>
    (pool_capacity s < pc_maxConnections (pl_config s) \<and> (\<forall>q\<in>set (pl_records s). p_destroy (pl_heap s q) \<noteq> DestroyRunning) \<longrightarrow>
      \<not> (w_count w \<le> expectedAvailable s' \<or> pc_maxConnections (pl_config s') \<le> pool_capacity s' \<or>
        (\<exists>q\<in>set (pl_records s'). p_destroy (pl_heap s' q) = DestroyRunning)))"
proof -
  obtain l where l: "pl_leases s g = Some l" "l_active l" and state: "p_state (pl_heap s p) = PResetting"
    using assms(1-3) by (rule lease_reset_running)
  have s': "p_state (pl_heap s' p) = PLeased" "\<And>q. q \<noteq> p \<Longrightarrow> pl_heap s' q = pl_heap s q"
    "pl_idle s' = pl_idle s" "pl_creating s' = pl_creating s" "pl_records s' = pl_records s" "pl_phase s' = pl_phase s"
    "pl_pumpScheduled s' = pl_pumpScheduled s" "pl_dispatching s' = pl_dispatching s" "pl_waiters s' = pl_waiters s"
    "pl_config s' = pl_config s" "p_destroy (pl_heap s' p) = p_destroy (pl_heap s p)"
    using reset_settled_lease [OF assms(2,3) l state, where failure = failure] assms(9) by simp_all
  have "distinct (pl_records s)" using core_inv_reachable [OF assms(1)] by (simp add: core_inv_def phys_inv_def)
  from resetting_count_less [OF this assms(2) state s'(5) _ s'(2)] s'(1)
  have "Suc (expectedAvailable s') = expectedAvailable s" using s'(3,4) by (simp add: expectedAvailable_def)
  moreover have "p_destroy (pl_heap s' q) = p_destroy (pl_heap s q)" for q using s'(2,11) by (cases "q = p") auto
  ultimately show ?thesis using s'(1,3-10) assms(4-8) by (simp add: pool_capacity_def)
qed

definition relied_on :: "pool_event list" where
  "relied_on = lease_one @ [ResetLease \<lparr>t_ownPool = True, t_lease = Some 1\<rparr>, Acquire 1 None False 0, Pump 0]"

text \<open>A run that ends so: a pool of two, whose only connection was being reset when a request arrived.\<close>

theorem pool_reset_loses_wakeup_witness:
  "let s = pool_step (ResetSettled 0 None) (pool_run relied_on (pool_new sample_config)) in
     pl_phase s = PoolOpen \<and> map w_count (pl_waiters s) = [1] \<and> \<not> pl_pumpScheduled s \<and> \<not> pl_dispatching s \<and>
     pl_idle s = [] \<and> expectedAvailable s = 0 \<and> pool_capacity s < pc_maxConnections (pl_config s)"
proof -
  let ?s = "pool_run relied_on (pool_new sample_config)"
  let ?w = "\<lparr>w_id = 2, w_count = 1, w_deadline = 1000, w_timeoutGeneration = 1, w_earlyTimeoutRearms = 0\<rparr>"
  have w: "pl_waiters ?s = [?w]" by code_simp
  have s: "0 \<in> set (pl_records ?s)" "p_reset (pl_heap ?s 0) = Some (LeaseReset 1)" "pl_phase ?s = PoolOpen"
    "\<not> pl_pumpScheduled ?s" "\<not> pl_dispatching ?s" "expectedAvailable ?s = 1" "pl_idle ?s = []"
    "pool_capacity ?s = 1" "pc_maxConnections (pl_config (pool_step (ResetSettled 0 None) ?s)) = 2"
    by code_simp+
  from pool_reset_loses_wakeup [OF sample_reachable s(1-5) w _ refl, of None] s show ?thesis
    by (simp add: Let_def del: pool_step.simps)
qed

end
