(* ===== verification/PoolRelease.thy ===== *)
theory PoolRelease
  imports PoolProperties
begin

text \<open>
  The end of a lease is final: a token that was released is refused by every later call. And the
  loop that trims the idle connections down to their mark ends with the mark met.
\<close>

section \<open>Released leases\<close>

definition lease_ended :: "nat \<Rightarrow> pool \<Rightarrow> bool" where
  "lease_ended g s \<longleftrightarrow> (\<exists>l. pl_leases s g = Some l \<and> \<not> l_active l)"

lemma lease_ended_cong: "pl_leases t g = pl_leases s g \<Longrightarrow> lease_ended g t = lease_ended g s"
  by (simp add: lease_ended_def)

lemma lease_ended_upd_lease: "lease_ended g s \<Longrightarrow> (h = g \<Longrightarrow> \<not> l_active l) \<Longrightarrow> lease_ended g (upd_lease h l s)"
  by (simp add: lease_ended_def upd_lease_def)

lemma leases_lease_all: "g \<le> pl_lastLeaseGeneration s \<Longrightarrow> pl_leases (lease_all ps s) g = pl_leases s g"
proof (induction ps arbitrary: s)
  case (Cons p ps)
  have "pl_lastLeaseGeneration (pool_lease p s) = Suc (pl_lastLeaseGeneration s)"
    "pl_leases (pool_lease p s) g = pl_leases s g"
    using Cons.prems by (simp_all add: pool_lease_def Let_def upd_physical_def)
  with Cons.IH [of "pool_lease p s"] Cons.prems show ?case by (simp add: lease_all_def)
qed (simp add: lease_all_def)

lemma dispatch_leases: "pl_leases (pool_dispatch now s) = pl_leases s"
  by (rule pool_dispatch_rule [where P = "\<lambda>t. pl_leases t = pl_leases s"]) simp_all

lemma finish_leases:
  "g \<le> pl_lastLeaseGeneration s \<Longrightarrow> pl_leases (finish_checkout k now s) g = pl_leases s g"
  by (auto simp: finish_checkout_def waiterCannotDispatch_def Let_def readClock_frame leases_lease_all
      split: option.splits prod.splits sum.splits if_splits)

lemma lease_ended_step:
  assumes "lease_ended g s" and "lease_inv s"
  shows "lease_ended g (pool_step e s)"
proof -
  have le: "g \<le> pl_lastLeaseGeneration s" using assms by (auto simp: lease_ended_def dest: lease_inv_D)
  have same: "pl_leases t g = pl_leases s g \<Longrightarrow> lease_ended g t" for t
    using assms(1) lease_ended_cong by blast
  have upd: "lease_ended g (upd_lease h l s)" if "h = g \<Longrightarrow> \<not> l_active l" for h l
    using lease_ended_upd_lease [OF assms(1)] that .
  show ?thesis
  proof (cases e)
    case (AcquireTimer i g r now)
    then show ?thesis
      by (intro same) (auto simp: handleTimeout_def Let_def readClock_frame split: sum.splits option.splits)
  next
    case (Acquire count timeoutMs aborted now)
    then show ?thesis
      by (intro same) (auto simp: pool_acquire_def armTimeout_def Let_def readClock_frame split: sum.splits)
  next
    case (RearmTimer i g now)
    then show ?thesis
      by (intro same) (auto simp: rearm_step_def armTimeout_def readClock_frame split: sum.splits option.splits)
  next
    case (CheckoutResumed now)
    then show ?thesis using le
      by (intro same) (simp add: checkout_step_def dispatch_leases finish_leases split: option.split)
  next
    case (UseBegin t)
    then show ?thesis using assms(1) by (auto simp: use_begin_def activeLeaseRecord_iff lease_ended_def upd_lease_def
        split: sum.split)
  next
    case (UseEnd h)
    then show ?thesis using assms(1) by (auto simp: use_end_def lease_ended_def upd_lease_def split: option.split)
  next
    case (ResetLease t)
    then show ?thesis using assms(1)
      by (auto simp: resetActiveLease_def activeLeaseRecord_iff lease_ended_def upd_lease_def split: sum.split)
  next
    case (Release t reusable idleHigh)
    then show ?thesis using assms(1)
      by (auto simp: pool_release_def release_physical_def release_returned_def lease_ended_def upd_lease_def Let_def
          split: sum.split)
  next
    case (ResetSettled p failure)
    then show ?thesis using assms(1)
      by (auto simp: reset_settled_def release_returned_def lease_ended_def upd_lease_def Let_def
          split: option.split reset_owner.split)
  next
    case (DestroySettled p failure)
    then show ?thesis
      by (intro same) (simp add: destroy_settled_def finish_destroy_def fail_destroy_def Let_def
          split: option.split destroy_state.split)
  next
    case (Shutdown retire timeoutMs)
    then show ?thesis
      by (intro same) (simp add: beginShutdown_def Let_def split: sum.split pool_phase.split)
  qed (rule same, simp add: abort_step_def pump_step_def dispatch_leases creationSucceeded_def creationFailed_def
      creationFailedAfterRemoval_def creationExpired_def reject_owner_def validate_step_def release_resumed_def
      destroy_expired_def fail_destroy_def shutdown_expired_def Let_def
      split: sum.split option.split prod.split validation.split)+
qed

lemma lease_ended_run: "pool_reachable s \<Longrightarrow> lease_ended g s \<Longrightarrow> lease_ended g (pool_run es s)"
  by (induction es arbitrary: s)
    (simp_all add: pool_run_def lease_ended_step core_inv_reachable [unfolded core_inv_def] pool_reachable.pool_stepped)

lemma ended_lease_refused:
  assumes "t_ownPool t" and "t_lease t = Some g" and "lease_ended g s"
  shows "\<exists>e. e \<in> {pool_error ''STALE_LEASE'', pool_error ''DOUBLE_RELEASE''} \<and> activeLeaseRecord t s = Inl e"
  using assms by (auto simp: activeLeaseRecord_def lease_ended_def)

lemma released_lease_ended:
  assumes "pool_release t reusable idleHigh s = (Inr (), s')"
  shows "\<exists>g. t_ownPool t \<and> t_lease t = Some g \<and> lease_ended g s'"
  using assms
  by (auto simp: pool_release_def activeLeaseRecord_iff release_physical_def release_returned_def Let_def
      lease_ended_def upd_lease_def split: sum.splits if_splits)

text \<open>A released lease stays released: whatever the pool and its other users do after a successful
\<open>release\<close>, the token is refused as stale or doubly released by every operation that takes one, and
the refusal leaves the pool as it was.\<close>

theorem pool_released_token_dead:
  assumes "pool_reachable s" and "pool_release t reusable idleHigh s = (Inr (), s')"
  shows "\<exists>e. e \<in> {pool_error ''STALE_LEASE'', pool_error ''DOUBLE_RELEASE''} \<and>
    use_begin t (pool_run es s') = (Inl e, pool_run es s') \<and>
    resetActiveLease t (pool_run es s') = (Inl e, pool_run es s') \<and>
    pool_release t b None (pool_run es s') = (Inl e, pool_run es s')"
proof -
  obtain g where g: "t_ownPool t" "t_lease t = Some g" "lease_ended g s'"
    using released_lease_ended [OF assms(2)] by blast
  have "pool_reachable s'"
    using pool_reachable.pool_stepped [OF assms(1), of "Release t reusable idleHigh"] assms(2) by simp
  with g have "lease_ended g (pool_run es s')" by (simp add: lease_ended_run)
  from ended_lease_refused [OF g(1,2) this] show ?thesis
    by (auto simp: use_begin_def resetActiveLease_def pool_release_def)
qed

lemma pool_released_token_dead_witness:
  "let t = \<lparr>t_ownPool = True, t_lease = Some 1\<rparr>;
       s = snd (pool_release t None None (pool_run lease_one (pool_new sample_config)))
   in snd (use_begin t (pool_run [Acquire 1 None False 5, Pump 5, CheckoutResumed 6]  s)) =
      pool_run [Acquire 1 None False 5, Pump 5, CheckoutResumed 6] s"
proof -
  let ?t = "\<lparr>t_ownPool = True, t_lease = Some 1\<rparr>"
  let ?s = "pool_run lease_one (pool_new sample_config)"
  have "fst (pool_release ?t None None ?s) = Inr ()" by code_simp
  then have "pool_release ?t None None ?s = (Inr (), snd (pool_release ?t None None ?s))"
    by (simp add: prod_eq_iff)
  from pool_released_token_dead [OF sample_reachable this, of "[Acquire 1 None False 5, Pump 5, CheckoutResumed 6]"]
  show ?thesis unfolding Let_def by (metis snd_conv)
qed

section \<open>The high-water mark\<close>

lemma remove1_last: "distinct xs \<Longrightarrow> xs \<noteq> [] \<Longrightarrow> remove1 (last xs) xs = butlast xs"
  by (induction xs) auto

lemma trim_loop_idle:
  assumes "distinct (pl_idle s)" and "\<forall>p\<in>set (pl_idle s). p_destroy (pl_heap s p) = NotDestroyed"
    and "length (pl_idle s) \<le> fuel + high"
  shows "pl_idle (trim_loop fuel high s) = take high (pl_idle s)"
  using assms
proof (induction fuel arbitrary: s)
  case (Suc fuel)
  show ?case
  proof (cases "high < length (pl_idle s)")
    case True
    then have ne: "pl_idle s \<noteq> []" by auto
    let ?t = "pool_destroy (last (pl_idle s)) s"
    have idle: "pl_idle ?t = butlast (pl_idle s)"
      using Suc.prems(1,2) ne by (simp add: pool_destroy_def remove1_last upd_physical_def)
    have "last (pl_idle s) \<notin> set (butlast (pl_idle s))"
      using Suc.prems(1) ne by (metis append_butlast_last_id distinct_append distinct.simps(2) disjoint_iff list.set_intros(1))
    moreover have "pl_heap ?t p = pl_heap s p" if "p \<noteq> last (pl_idle s)" for p
      using that by (simp add: pool_destroy_def upd_physical_def)
    ultimately have "\<forall>p\<in>set (pl_idle ?t). p_destroy (pl_heap ?t p) = NotDestroyed"
      unfolding idle using Suc.prems(2) by (metis in_set_butlastD)
    with Suc.IH [of ?t] True Suc.prems(1,3) idle show ?thesis
      by (simp add: distinct_butlast take_butlast)
  qed simp
qed simp

lemma foldl_min_le: "foldl (\<lambda>h p. min h (f p)) (n::nat) ps \<le> n"
  by (induction ps arbitrary: n) (simp_all, metis min.bounded_iff)

lemma foldl_min_Min: "foldl (\<lambda>h p. min h (f p)) (n::nat) ps = Min (insert n (f ` set ps))"
proof (induction ps arbitrary: n)
  case (Cons p ps)
  have "insert (min n (f p)) (f ` set ps) \<noteq> {}" "finite (insert n (insert (f p) (f ` set ps)))" by simp_all
  have "Min (insert (min n (f p)) (f ` set ps)) = Min (insert n (insert (f p) (f ` set ps)))"
    by (cases "ps = []") (simp_all add: min.assoc)
  then show ?case using Cons.IH [of "min n (f p)"] by simp
qed simp

text \<open>C30. The trimming loop reaches its mark: on a reachable open pool with nobody waiting it keeps
exactly the oldest idle connections up to the mark, which is the smallest of \<open>idleHigh\<close> and the limits the idle
connections were recycled with, hence never more than any of them; and the fuel it is given is enough for that.\<close>

theorem pool_trim_reaches_mark:
  assumes "pool_reachable s" and "pl_phase s = PoolOpen" and "pl_waiters s = []"
  shows "pl_idle (trimIdleHigh s) = take (effective_high s) (pl_idle s) \<and>
    effective_high s = Min (insert (pc_idleHigh (pl_config s))
      {h. \<exists>p\<in>set (pl_idle s). p_recycleIdleHigh (pl_heap s p) = Some h}) \<and>
    length (pl_idle (trimIdleHigh s)) \<le> pc_idleHigh (pl_config s)"
proof -
  have core: "core_inv s" using assms(1) by (rule core_inv_reachable)
  then have "distinct (pl_idle s)" by (simp add: core_inv_def phys_inv_def)
  with idle_not_destroyed [OF core] assms(2,3)
  have idle: "pl_idle (trimIdleHigh s) = take (effective_high s) (pl_idle s)"
    by (simp add: trimIdleHigh_def Let_def trim_loop_idle)
  moreover have "effective_high s \<le> pc_idleHigh (pl_config s)" by (simp add: effective_high_def foldl_min_le)
  moreover have "insert (pc_idleHigh (pl_config s)) ((\<lambda>p. or_else (p_recycleIdleHigh (pl_heap s p)) (pc_idleHigh (pl_config s))) `
      set (pl_idle s)) = insert (pc_idleHigh (pl_config s)) {h. \<exists>p\<in>set (pl_idle s). p_recycleIdleHigh (pl_heap s p) = Some h}"
    (is "?l = ?r")
  proof
    have "or_else (p_recycleIdleHigh (pl_heap s p)) (pc_idleHigh (pl_config s)) \<in> ?r" if "p \<in> set (pl_idle s)" for p
      using that by (cases "p_recycleIdleHigh (pl_heap s p)") auto
    then show "?l \<subseteq> ?r" by auto
    show "?r \<subseteq> ?l" by (force intro!: image_eqI)
  qed
  ultimately show ?thesis unfolding effective_high_def foldl_min_Min by simp
qed

lemma pool_trim_reaches_mark_witness:
  "let s = pool_run (lease_one @ [Release \<lparr>t_ownPool = True, t_lease = Some 1\<rparr> None None]) (pool_new sample_config)
   in pl_idle s \<noteq> [] \<and> length (pl_idle (trimIdleHigh s)) \<le> 2"
proof -
  let ?s = "pool_run (lease_one @ [Release \<lparr>t_ownPool = True, t_lease = Some 1\<rparr> None None]) (pool_new sample_config)"
  have "pl_phase ?s = PoolOpen" "pl_waiters ?s = []" "pl_idle ?s \<noteq> []" "pc_idleHigh (pl_config ?s) = 2"
    by code_simp+
  with pool_trim_reaches_mark [OF sample_reachable this(1,2)] show ?thesis unfolding Let_def by metis
qed

end
