(* ===== verification/PoolDeadline.thy ===== *)
theory PoolDeadline
  imports PoolState
begin

text \<open>
  The lifecycle deadlines of the pool (\<open>#startRuntimeDeadline\<close>, \<open>#armRuntimeDeadline\<close>,
  \<open>#handleRuntimeDeadline\<close>, \<open>#expireRuntimeDeadline\<close>, \<open>#cancelRuntimeDeadline\<close>) and the lifecycle
  operations bounded by them (\<open>#startLifecycle\<close>). The scheduler is the environment: it may report any
  reading of its clock, may refuse to schedule, and may run any callback it was ever given, in any
  order and more than once. It does not run a callback while it is being asked to schedule one.
\<close>

section \<open>State\<close>

text \<open>\<open>d_tasks\<close> holds the callbacks handed to the scheduler, each with its generation and the delay
it was scheduled for, \<open>d_microtasks\<close> the rearmings queued, \<open>d_expiries\<close> the calls of \<open>onExpire\<close>.\<close>

record deadline =
  d_deadline :: int
  d_active :: bool
  d_generation :: nat
  d_earlyRearms :: nat
  d_clock :: "int option"
  d_tasks :: "(nat \<times> int) list"
  d_microtasks :: "nat list"
  d_expiries :: "js_error option list"

definition readLifecycleClock :: "int \<Rightarrow> deadline \<Rightarrow> deadline result" where
  "readLifecycleClock value d =
    (if (case d_clock d of None \<Rightarrow> False | Some previous \<Rightarrow> value < previous)
     then Inl (PlainError ''connection pool lifecycle scheduler clock must be finite and monotonic'')
     else Inr (d\<lparr>d_clock := Some value\<rparr>))"

section \<open>Operations\<close>

definition deadline_expire :: "js_error option \<Rightarrow> deadline \<Rightarrow> deadline" where
  "deadline_expire e d =
    d\<lparr>d_active := False, d_generation := Suc (d_generation d), d_expiries := d_expiries d @ [e]\<rparr>"

definition expireRuntimeDeadline :: "nat \<Rightarrow> js_error option \<Rightarrow> deadline \<Rightarrow> deadline" where
  "expireRuntimeDeadline generation e d =
    (if \<not> d_active d \<or> d_generation d \<noteq> generation then d else deadline_expire e d)"

definition cancelRuntimeDeadline :: "deadline \<Rightarrow> deadline" where
  "cancelRuntimeDeadline d =
    (if \<not> d_active d then d else d\<lparr>d_active := False, d_generation := Suc (d_generation d)\<rparr>)"

text \<open>Arming may throw, from the clock or from the scheduler; the state says how far it came.\<close>

definition armRuntimeDeadline :: "int \<Rightarrow> js_error option \<Rightarrow> deadline \<Rightarrow> js_error option \<times> deadline" where
  "armRuntimeDeadline now refusal d =
    (if \<not> d_active d then (None, d)
     else case readLifecycleClock now d of
       Inl e \<Rightarrow> (Some e, d)
     | Inr d \<Rightarrow>
         let remaining = max 0 (d_deadline d - now); generation = Suc (d_generation d)
         in (refusal, d\<lparr>d_generation := generation, d_tasks := d_tasks d @ [(generation, remaining)]\<rparr>))"

definition startRuntimeDeadline ::
    "int \<Rightarrow> int \<Rightarrow> int \<Rightarrow> js_error option \<Rightarrow> int option \<Rightarrow> deadline result" where
  "startRuntimeDeadline timeoutMs now armed refusal clock =
    rbind (readLifecycleClock now \<lparr>d_deadline = now + timeoutMs, d_active = True, d_generation = 0,
      d_earlyRearms = 0, d_clock = clock, d_tasks = [], d_microtasks = [], d_expiries = []\<rparr>) (\<lambda>d.
    case armRuntimeDeadline armed refusal d of
      (None, d) \<Rightarrow> Inr d
    | (Some e, d) \<Rightarrow> Inr (if d_active d then deadline_expire (Some e) d else d))"

definition no_progress :: js_error where
  "no_progress = PlainError ''connection pool scheduler fired a lifecycle deadline without bounded progress''"

definition handleRuntimeDeadline :: "nat \<Rightarrow> int \<Rightarrow> int \<Rightarrow> deadline \<Rightarrow> deadline" where
  "handleRuntimeDeadline generation scheduledRemaining now d =
    (if \<not> d_active d \<or> d_generation d \<noteq> generation then d
     else case readLifecycleClock now d of
       Inl e \<Rightarrow> expireRuntimeDeadline generation (Some e) d
     | Inr d \<Rightarrow>
         let remaining = d_deadline d - now in
         if remaining \<le> 0 then expireRuntimeDeadline generation None d
         else let d = d\<lparr>d_earlyRearms := Suc (d_earlyRearms d)\<rparr> in
           if scheduledRemaining \<le> remaining \<or> MAX_EARLY_TIMEOUT_REARMS < d_earlyRearms d
           then expireRuntimeDeadline generation (Some no_progress) d
           else d\<lparr>d_generation := Suc generation, d_microtasks := d_microtasks d @ [Suc generation]\<rparr>)"

definition rearmRuntimeDeadline :: "nat \<Rightarrow> int \<Rightarrow> js_error option \<Rightarrow> deadline \<Rightarrow> deadline" where
  "rearmRuntimeDeadline rearmGeneration now refusal d =
    (if \<not> d_active d \<or> d_generation d \<noteq> rearmGeneration then d
     else case armRuntimeDeadline now refusal d of
       (None, d) \<Rightarrow> d
     | (Some e, d) \<Rightarrow> expireRuntimeDeadline (d_generation d) (Some e) d)"

section \<open>The machine\<close>

text \<open>\<open>ClockMoves\<close> stands for another reading of the clock that all deadlines of the pool share.\<close>

datatype deadline_event =
    TaskRuns nat int
  | MicrotaskRuns nat int "js_error option"
  | ClockMoves int

fun deadline_step :: "deadline_event \<Rightarrow> deadline \<Rightarrow> deadline" where
  "deadline_step (TaskRuns i now) d =
    (if i < length (d_tasks d)
     then handleRuntimeDeadline (fst (d_tasks d ! i)) (snd (d_tasks d ! i)) now d else d)"
| "deadline_step (MicrotaskRuns i now refusal) d =
    (if i < length (d_microtasks d) then rearmRuntimeDeadline (d_microtasks d ! i) now refusal d else d)"
| "deadline_step (ClockMoves now) d = (case readLifecycleClock now d of Inl e \<Rightarrow> d | Inr d \<Rightarrow> d)"

definition deadline_run :: "deadline_event list \<Rightarrow> deadline \<Rightarrow> deadline" where
  "deadline_run es d = fold deadline_step es d"

section \<open>Lifecycle operations\<close>

record lifecycle =
  lc_deadline :: deadline
  lc_settled :: bool
  lc_expired :: bool
  lc_aborted :: "js_error option"
  lc_results :: "(js_error + nat) list"
  lc_timeouts :: nat

definition lifecycle_expire :: "js_error option \<Rightarrow> lifecycle \<Rightarrow> lifecycle" where
  "lifecycle_expire schedulingError l =
    (if lc_settled l then l
     else let e = or_else schedulingError (pool_error ''LIFECYCLE_TIMEOUT'') in
       l\<lparr>lc_settled := True, lc_expired := True,
         lc_timeouts := (if e = pool_error ''LIFECYCLE_TIMEOUT'' then Suc (lc_timeouts l) else lc_timeouts l),
         lc_aborted := Some e, lc_results := lc_results l @ [Inl e]\<rparr>)"

definition lifecycle_settle :: "js_error + nat \<Rightarrow> lifecycle \<Rightarrow> lifecycle" where
  "lifecycle_settle r l =
    (if lc_settled l then l
     else l\<lparr>lc_settled := True, lc_deadline := cancelRuntimeDeadline (lc_deadline l),
       lc_results := lc_results l @ [r]\<rparr>)"

text \<open>A step of the deadline, with the call of \<open>expire\<close> when the deadline made it.\<close>

definition lifecycle_deadline :: "deadline \<Rightarrow> lifecycle \<Rightarrow> lifecycle" where
  "lifecycle_deadline d l =
    fold lifecycle_expire (drop (length (d_expiries (lc_deadline l))) (d_expiries d)) (l\<lparr>lc_deadline := d\<rparr>)"

definition no_deadline :: "int option \<Rightarrow> deadline" where
  "no_deadline clock = \<lparr>d_deadline = 0, d_active = False, d_generation = 0, d_earlyRearms = 0,
     d_clock = clock, d_tasks = [], d_microtasks = [], d_expiries = []\<rparr>"

definition startLifecycle :: "int \<Rightarrow> int \<Rightarrow> int \<Rightarrow> js_error option \<Rightarrow> int option \<Rightarrow> lifecycle" where
  "startLifecycle timeoutMs now armed refusal clock =
    (let l = \<lparr>lc_deadline = no_deadline clock, lc_settled = False, lc_expired = False, lc_aborted = None,
       lc_results = [], lc_timeouts = 0\<rparr>
     in case startRuntimeDeadline timeoutMs now armed refusal clock of
       Inl e \<Rightarrow> lifecycle_expire (Some e) l
     | Inr d \<Rightarrow> lifecycle_deadline d l)"

datatype lifecycle_event =
    OnDeadline deadline_event
  | RawSettles "js_error + nat"

fun lifecycle_step :: "lifecycle_event \<Rightarrow> lifecycle \<Rightarrow> lifecycle" where
  "lifecycle_step (OnDeadline e) l = lifecycle_deadline (deadline_step e (lc_deadline l)) l"
| "lifecycle_step (RawSettles r) l = lifecycle_settle r l"

definition lifecycle_run :: "lifecycle_event list \<Rightarrow> lifecycle \<Rightarrow> lifecycle" where
  "lifecycle_run es l = fold lifecycle_step es l"

section \<open>The invariant\<close>

definition deadline_inv :: "deadline \<Rightarrow> bool" where
  "deadline_inv d \<longleftrightarrow> length (d_expiries d) \<le> 1 \<and>
     (d_active d \<longrightarrow> d_expiries d = [] \<and> d_earlyRearms d \<le> MAX_EARLY_TIMEOUT_REARMS \<and>
       (d_generation d \<in> fst ` set (d_tasks d) \<or> d_generation d \<in> set (d_microtasks d))) \<and>
     (None \<in> set (d_expiries d) \<longrightarrow> (\<exists>t. d_clock d = Some t \<and> d_deadline d \<le> t))"

lemma readLifecycle_frame:
  "readLifecycleClock now d = Inr d' \<longleftrightarrow> d' = d\<lparr>d_clock := Some now\<rparr> \<and>
    (case d_clock d of None \<Rightarrow> True | Some previous \<Rightarrow> previous \<le> now)"
  by (auto simp: readLifecycleClock_def split: option.splits)

lemma deadline_inv_start:
  "startRuntimeDeadline timeoutMs now armed refusal clock = Inr d \<Longrightarrow> deadline_inv d"
  by (auto simp: startRuntimeDeadline_def armRuntimeDeadline_def deadline_inv_def readLifecycle_frame
      deadline_expire_def Let_def split: sum.splits option.splits prod.splits if_splits)

lemma deadline_inv_arm:
  assumes "deadline_inv d" and "d_active d"
  shows "deadline_inv (snd (armRuntimeDeadline now refusal d)) \<or> fst (armRuntimeDeadline now refusal d) \<noteq> None"
    and "deadline_inv (deadline_expire (Some e) (snd (armRuntimeDeadline now refusal d)))"
  using assms
  by (auto simp: armRuntimeDeadline_def deadline_inv_def deadline_expire_def Let_def readLifecycle_frame
      split: sum.splits option.splits)

lemma active_arm: "d_active (snd (armRuntimeDeadline now refusal d)) = d_active d"
  by (auto simp: armRuntimeDeadline_def readLifecycle_frame Let_def split: sum.splits)

lemma deadline_inv_step: "deadline_inv d \<Longrightarrow> deadline_inv (deadline_step e d)"
proof (cases e)
  case (TaskRuns i now)
  then show "deadline_inv d \<Longrightarrow> ?thesis"
    by (auto simp: handleRuntimeDeadline_def expireRuntimeDeadline_def deadline_expire_def deadline_inv_def
        readLifecycle_frame MAX_EARLY_TIMEOUT_REARMS_def Let_def split: sum.splits option.splits)
next
  case (MicrotaskRuns i now refusal)
  show "?thesis" if inv: "deadline_inv d"
  proof (cases "d_active d")
    case True
    note arm = deadline_inv_arm [OF inv True]
    show ?thesis using arm(1) [of now refusal] arm(2) [of _ now refusal] active_arm [of now refusal d] MicrotaskRuns inv True
      by (auto simp: rearmRuntimeDeadline_def expireRuntimeDeadline_def split: prod.splits option.splits)
  qed (use MicrotaskRuns inv in \<open>simp add: rearmRuntimeDeadline_def\<close>)
next
  case (ClockMoves now)
  then show "deadline_inv d \<Longrightarrow> ?thesis"
    by (auto simp: deadline_inv_def readLifecycle_frame split: sum.splits option.splits)
qed

lemma deadline_inv_run: "deadline_inv d \<Longrightarrow> deadline_inv (deadline_run es d)"
  unfolding deadline_run_def by (induction es arbitrary: d) (simp_all add: deadline_inv_step)

lemma ended_step: "\<not> d_active d \<Longrightarrow> \<not> d_active (deadline_step e d) \<and> d_expiries (deadline_step e d) = d_expiries d"
  by (cases e) (auto simp: handleRuntimeDeadline_def rearmRuntimeDeadline_def readLifecycle_frame split: sum.splits)

lemma ended_run: "\<not> d_active d \<Longrightarrow> \<not> d_active (deadline_run es d) \<and> d_expiries (deadline_run es d) = d_expiries d"
  unfolding deadline_run_def by (induction es arbitrary: d) (simp_all add: ended_step)

lemma expiries_step:
  "d_expiries (deadline_step e d) = d_expiries d \<and> d_active (deadline_step e d) = d_active d \<or>
   (\<exists>x. d_active d \<and> d_expiries (deadline_step e d) = d_expiries d @ [x] \<and> \<not> d_active (deadline_step e d))"
proof (cases e)
  case (TaskRuns i now)
  then show ?thesis
    by (auto simp: handleRuntimeDeadline_def expireRuntimeDeadline_def deadline_expire_def readLifecycle_frame Let_def
        split: sum.splits)
next
  case (MicrotaskRuns i now refusal)
  then show ?thesis
    by (auto simp: rearmRuntimeDeadline_def armRuntimeDeadline_def expireRuntimeDeadline_def deadline_expire_def
        readLifecycle_frame Let_def split: sum.splits prod.splits option.splits if_splits)
qed (auto simp: readLifecycle_frame split: sum.splits)

definition lifecycle_inv :: "lifecycle \<Rightarrow> bool" where
  "lifecycle_inv l \<longleftrightarrow> deadline_inv (lc_deadline l) \<and> lc_settled l = (\<not> d_active (lc_deadline l)) \<and>
     length (lc_results l) = of_bool (lc_settled l) \<and> lc_expired l = (lc_aborted l \<noteq> None) \<and>
     (lc_expired l \<and> lc_timeouts l \<le> 1 \<or> lc_timeouts l = 0) \<and> (\<forall>e. lc_aborted l = Some e \<longrightarrow> lc_results l = [Inl e])"

lemma lifecycle_inv_deadline:
  assumes inv: "lifecycle_inv l"
  shows "lifecycle_inv (lifecycle_step e l)"
proof (cases e)
  case (OnDeadline f)
  let ?d = "lc_deadline l" and ?d' = "deadline_step f (lc_deadline l)"
  have d': "deadline_inv ?d'" using inv by (simp add: lifecycle_inv_def deadline_inv_step)
  from expiries_step [of f ?d] show ?thesis
  proof
    assume "d_expiries ?d' = d_expiries ?d \<and> d_active ?d' = d_active ?d"
    with d' inv OnDeadline show ?thesis by (auto simp: lifecycle_deadline_def lifecycle_inv_def)
  next
    assume "\<exists>x. d_active ?d \<and> d_expiries ?d' = d_expiries ?d @ [x] \<and> \<not> d_active ?d'"
    with d' inv OnDeadline show ?thesis
      by (auto simp: lifecycle_deadline_def lifecycle_expire_def lifecycle_inv_def Let_def)
  qed
next
  case (RawSettles r)
  have "deadline_inv (cancelRuntimeDeadline d) \<and> \<not> d_active (cancelRuntimeDeadline d)" if "deadline_inv d" for d
    using that by (auto simp: cancelRuntimeDeadline_def deadline_inv_def)
  with RawSettles inv show ?thesis by (auto simp: lifecycle_settle_def lifecycle_inv_def)
qed

lemma start_expiries:
  assumes "startRuntimeDeadline timeoutMs now armed refusal clock = Inr d"
  shows "d_active d \<and> d_expiries d = [] \<or> \<not> d_active d \<and> (\<exists>x. d_expiries d = [x])"
  using assms
  by (auto simp: startRuntimeDeadline_def armRuntimeDeadline_def deadline_expire_def readLifecycle_frame Let_def
      split: sum.splits prod.splits option.splits if_splits)

lemma lifecycle_inv_start: "lifecycle_inv (startLifecycle timeoutMs now armed refusal clock)"
proof (cases "startRuntimeDeadline timeoutMs now armed refusal clock")
  case (Inl e)
  then show ?thesis
    by (simp add: startLifecycle_def lifecycle_inv_def lifecycle_expire_def no_deadline_def deadline_inv_def Let_def)
next
  case (Inr d)
  with deadline_inv_start [OF Inr] start_expiries [OF Inr] show ?thesis
    by (auto simp: startLifecycle_def lifecycle_inv_def lifecycle_expire_def no_deadline_def Let_def lifecycle_deadline_def)
qed

lemma lifecycle_inv_run: "lifecycle_inv l \<Longrightarrow> lifecycle_inv (lifecycle_run es l)"
  unfolding lifecycle_run_def by (induction es arbitrary: l) (simp_all add: lifecycle_inv_deadline)

section \<open>Properties\<close>

text \<open>A lifecycle operation of the pool is settled at most once and cannot be left hanging: in every
run of the scheduler and the factory, an unsettled operation has an active deadline and a callback or
a rearming of its current generation that is still to come; a settled one has one result, that of the
factory unless the deadline came first, and then the signal was aborted with the same error and the
timeout counted at most once.\<close>

theorem pool_lifecycle_settles_once:
  "\<exists>l. l = lifecycle_run es (startLifecycle timeoutMs now armed refusal clock) \<and>
     (lc_settled l \<and> length (lc_results l) = 1 \<and> \<not> d_active (lc_deadline l) \<or>
      \<not> lc_settled l \<and> lc_results l = [] \<and> d_active (lc_deadline l) \<and>
      (d_generation (lc_deadline l) \<in> fst ` set (d_tasks (lc_deadline l)) \<or>
       d_generation (lc_deadline l) \<in> set (d_microtasks (lc_deadline l)))) \<and>
     (lc_aborted l = None \<and> \<not> lc_expired l \<or>
      (\<exists>e. lc_aborted l = Some e \<and> lc_expired l \<and> lc_results l = [Inl e])) \<and> lc_timeouts l \<le> 1"
proof -
  have "lifecycle_inv (lifecycle_run es (startLifecycle timeoutMs now armed refusal clock))"
    by (rule lifecycle_inv_run [OF lifecycle_inv_start])
  then show ?thesis
    by (auto simp: lifecycle_inv_def deadline_inv_def)
qed

text \<open>A deadline fires at most once, never early and never after it was cancelled. Whatever the
scheduler does, \<open>onExpire\<close> is called at most once; it is called without an error only when the clock
has reached the deadline; an active deadline has been rearmed early at most sixty-four times; and
after a cancellation no call is added.\<close>

theorem pool_deadline_fires_once:
  assumes "startRuntimeDeadline timeoutMs now armed refusal clock = Inr d"
  shows "length (d_expiries (deadline_run es d)) \<le> 1 \<and>
    (None \<in> set (d_expiries (deadline_run es d)) \<longrightarrow>
      (\<exists>t. d_clock (deadline_run es d) = Some t \<and> d_deadline (deadline_run es d) \<le> t)) \<and>
    (d_active (deadline_run es d) \<longrightarrow> d_earlyRearms (deadline_run es d) \<le> MAX_EARLY_TIMEOUT_REARMS) \<and>
    d_expiries (deadline_run fs (cancelRuntimeDeadline (deadline_run es d))) = d_expiries (deadline_run es d)"
proof -
  have "\<not> d_active (cancelRuntimeDeadline x) \<and> d_expiries (cancelRuntimeDeadline x) = d_expiries x" for x
    by (simp add: cancelRuntimeDeadline_def)
  then show ?thesis
    using deadline_inv_run [OF deadline_inv_start [OF assms], of es]
      ended_run [of "cancelRuntimeDeadline (deadline_run es d)" fs]
    by (auto simp: deadline_inv_def)
qed

lemma pool_deadline_fires_once_witness:
  "\<exists>d. startRuntimeDeadline 10 0 0 None None = Inr d \<and>
     d_expiries (deadline_run [TaskRuns 0 9, MicrotaskRuns 0 9 None, TaskRuns 1 10, TaskRuns 1 11] d) = [None] \<and>
     d_expiries (deadline_run [TaskRuns 0 10] (cancelRuntimeDeadline (deadline_run [] d))) = []"
proof -
  let ?es = "[TaskRuns 0 9, MicrotaskRuns 0 9 None, TaskRuns 1 10, TaskRuns 1 11]"
  obtain d where d: "startRuntimeDeadline 10 0 0 None None = Inr d" "d_expiries (deadline_run [] d) = []"
    by (simp add: startRuntimeDeadline_def readLifecycleClock_def armRuntimeDeadline_def deadline_run_def)
  have "d_expiries (deadline_run ?es (projr (startRuntimeDeadline 10 0 0 None None))) = [None]" by code_simp
  then show ?thesis using pool_deadline_fires_once [OF d(1), of "[]" "[TaskRuns 0 10]"] d by auto
qed

end
