(* ===== verification/TransactionControl.thy ===== *)
theory TransactionControl
  imports Prelude
begin

text \<open>
  How the transaction runtime (\<open>src/lifecycle/transaction-runtime.ts\<close>) reads the answer to
  \<open>BAPI_TRANSACTION_COMMIT\<close> and \<open>BAPI_TRANSACTION_ROLLBACK\<close>: \<open>resultObject\<close>, \<open>controlledReturnText\<close>,
  \<open>controlledReturnType\<close> and \<open>inspectControlReturn\<close>. Values come from the adapter; an object is the
  list of its own properties, each name at most once. Strings are taken over ASCII.
\<close>

section \<open>Values and errors\<close>

datatype js_value =
    VUndefined
  | VNull
  | VString string
  | VOther
  | VArray "js_value list"
  | VObject "(string \<times> js_value) list"

datatype control = Commit | Rollback

record bapi_return =
  br_type :: string
  br_id :: string
  br_number :: string
  br_message :: string

datatype txn_outcome = NoOutcome | OutcomeActive | Committed | RolledBack | Rejected | Ambiguous

text \<open>What is thrown: a failure of the adapter or of the scheduler by its number, or an error of the runtime.\<close>

datatype txn_error =
    External nat
  | RuntimeError string
  | TypeFailure
  | RangeFailure
  | BapiError control "bapi_return list"
  | TerminalError txn_outcome "txn_error list"
  | AggregateErrors "txn_error list"

definition invalid_control_result :: txn_error where
  "invalid_control_result = RuntimeError ''INVALID_CONTROL_RESULT''"

section \<open>Reading RETURN\<close>

definition resultObject :: "js_value \<Rightarrow> txn_error + (string \<times> js_value) list" where
  "resultObject v = (case v of VObject obj \<Rightarrow> Inr obj | _ \<Rightarrow> Inl invalid_control_result)"

text \<open>Reading a property that the object does not have gives \<open>undefined\<close>.\<close>

definition property_of :: "(string \<times> js_value) list \<Rightarrow> string \<Rightarrow> js_value" where
  "property_of obj name = (case map_of obj name of None \<Rightarrow> VUndefined | Some v \<Rightarrow> v)"

definition controlledReturnText :: "js_value \<Rightarrow> txn_error + string" where
  "controlledReturnText v = (case v of
      VUndefined \<Rightarrow> Inr []
    | VNull \<Rightarrow> Inr []
    | VString s \<Rightarrow> Inr (if length s \<le> 1024 then s else take 1024 s)
    | _ \<Rightarrow> Inl invalid_control_result)"

definition js_space :: "char \<Rightarrow> bool" where
  "js_space c \<longleftrightarrow> of_char c \<in> {9, 10, 11, 12, 13, 32 :: nat}"

definition js_trim :: "string \<Rightarrow> string" where
  "js_trim s = rev (dropWhile js_space (rev (dropWhile js_space s)))"

definition js_upper :: "char \<Rightarrow> char" where
  "js_upper c = (let n = of_char c :: nat in if 97 \<le> n \<and> n \<le> 122 then char_of (n - 32) else c)"

definition controlledReturnType :: "js_value \<Rightarrow> txn_error + string" where
  "controlledReturnType v = (case v of
      VString s \<Rightarrow>
        let type = map js_upper (js_trim s) in
        if type \<in> {'''', ''A'', ''E'', ''I'', ''S'', ''W'', ''X''} then Inr type else Inl invalid_control_result
    | _ \<Rightarrow> Inl invalid_control_result)"

definition return_row :: "js_value \<Rightarrow> txn_error + bapi_return" where
  "return_row row = (case row of
      VObject value \<Rightarrow>
        if map_of value ''TYPE'' = None then Inl invalid_control_result
        else rbind (controlledReturnType (property_of value ''TYPE'')) (\<lambda>type.
          rbind (controlledReturnText (property_of value ''ID'')) (\<lambda>id.
          rbind (controlledReturnText (property_of value ''NUMBER'')) (\<lambda>number.
          rbind (controlledReturnText (property_of value ''MESSAGE'')) (\<lambda>message.
          Inr \<lparr>br_type = type, br_id = id, br_number = number, br_message = message\<rparr>))))
    | _ \<Rightarrow> Inl invalid_control_result)"

fun return_rows :: "js_value list \<Rightarrow> txn_error + bapi_return list" where
  "return_rows [] = Inr []"
| "return_rows (row # rows) = rbind (return_row row) (\<lambda>item. rbind (return_rows rows) (\<lambda>items. Inr (item # items)))"

definition is_failure :: "bapi_return \<Rightarrow> bool" where
  "is_failure item \<longleftrightarrow> br_type item \<in> {''A'', ''E'', ''X''}"

definition rows_error :: "control \<Rightarrow> js_value list \<Rightarrow> txn_error option" where
  "rows_error operation rows = (case return_rows rows of
      Inl e \<Rightarrow> Some e
    | Inr items \<Rightarrow> if filter is_failure items \<noteq> [] then Some (BapiError operation (filter is_failure items)) else None)"

definition rows_of :: "js_value \<Rightarrow> js_value list" where
  "rows_of raw = (case raw of VArray rows \<Rightarrow> rows | _ \<Rightarrow> [raw])"

definition inspectControlReturn :: "control \<Rightarrow> (string \<times> js_value) list \<Rightarrow> txn_error option" where
  "inspectControlReturn operation result =
    (case map_of result ''RETURN'' of
       None \<Rightarrow> Some invalid_control_result
     | Some raw \<Rightarrow> if rows_of raw = [] then Some invalid_control_result else rows_error operation (rows_of raw))"

text \<open>The answer to a control invocation as a whole: no error, or the one to report.\<close>

definition control_error :: "control \<Rightarrow> js_value \<Rightarrow> txn_error option" where
  "control_error operation v =
    (case resultObject v of Inl e \<Rightarrow> Some e | Inr obj \<Rightarrow> inspectControlReturn operation obj)"

section \<open>What is accepted\<close>

lemma return_rows_iff:
  "return_rows rows = Inr items \<longleftrightarrow>
    length items = length rows \<and> (\<forall>i<length rows. return_row (rows ! i) = Inr (items ! i))"
proof (induction rows arbitrary: items)
  case (Cons row rows)
  then show ?case by (cases items) (auto simp: All_less_Suc2)
qed auto

definition acceptable_type :: "string \<Rightarrow> bool" where
  "acceptable_type s \<longleftrightarrow> map js_upper (js_trim s) \<in> {'''', ''I'', ''S'', ''W''}"

definition text_field :: "js_value \<Rightarrow> bool" where
  "text_field v \<longleftrightarrow> v \<in> {VUndefined, VNull} \<union> range VString"

definition acceptable_row :: "js_value \<Rightarrow> bool" where
  "acceptable_row row \<longleftrightarrow> (\<exists>value s. row = VObject value \<and> map_of value ''TYPE'' = Some (VString s) \<and>
     acceptable_type s \<and> (\<forall>name\<in>{''ID'', ''NUMBER'', ''MESSAGE''}. text_field (property_of value name)))"

lemma text_field_iff: "(\<exists>t. controlledReturnText v = Inr t) \<longleftrightarrow> text_field v"
  by (cases v) (auto simp: controlledReturnText_def text_field_def)

lemma return_type_iff:
  "controlledReturnType v = Inr t \<longleftrightarrow> (\<exists>s. v = VString s \<and> t = map js_upper (js_trim s) \<and>
    t \<in> {'''', ''A'', ''E'', ''I'', ''S'', ''W'', ''X''})"
  by (cases v) (auto simp: controlledReturnType_def Let_def)

lemma acceptable_row_iff: "(\<exists>item. return_row row = Inr item \<and> \<not> is_failure item) \<longleftrightarrow> acceptable_row row"
proof (cases row)
  case (VObject obj)
  show ?thesis
  proof (cases "map_of obj ''TYPE''")
    case (Some v)
    have p: "property_of obj ''TYPE'' = v" using Some by (simp add: property_of_def)
    let ?t = "\<lambda>name. property_of obj name"
    have "(\<exists>item. return_row row = Inr item \<and> \<not> is_failure item) \<longleftrightarrow>
       (\<exists>t. controlledReturnType v = Inr t \<and> t \<notin> {''A'', ''E'', ''X''}) \<and>
       (\<forall>name\<in>{''ID'', ''NUMBER'', ''MESSAGE''}. \<exists>t. controlledReturnText (?t name) = Inr t)"
      unfolding VObject return_row_def
      by (cases "controlledReturnType v"; cases "controlledReturnText (?t ''ID'')";
          cases "controlledReturnText (?t ''NUMBER'')"; cases "controlledReturnText (?t ''MESSAGE'')")
        (simp_all add: Some p is_failure_def)
    also have "(\<exists>t. controlledReturnType v = Inr t \<and> t \<notin> {''A'', ''E'', ''X''}) \<longleftrightarrow> (\<exists>s. v = VString s \<and> acceptable_type s)"
      unfolding return_type_iff acceptable_type_def by auto
    finally show ?thesis using VObject Some by (simp add: acceptable_row_def text_field_iff) blast
  qed (simp add: VObject return_row_def acceptable_row_def)
qed (simp_all add: return_row_def acceptable_row_def)

lemma control_error_cases:
  "control_error operation v = (case v of
      VObject obj \<Rightarrow> (case map_of obj ''RETURN'' of None \<Rightarrow> Some invalid_control_result
        | Some raw \<Rightarrow> if rows_of raw = [] then Some invalid_control_result else rows_error operation (rows_of raw))
    | _ \<Rightarrow> Some invalid_control_result)"
  by (simp add: control_error_def resultObject_def inspectControlReturn_def split: js_value.split option.split)

lemma return_rows_good:
  "(\<exists>items. return_rows rows = Inr items \<and> filter is_failure items = []) \<longleftrightarrow> (\<forall>row\<in>set rows. acceptable_row row)"
proof (induction rows)
  case (Cons row rows)
  have "(\<exists>items. return_rows (row # rows) = Inr items \<and> filter is_failure items = []) \<longleftrightarrow>
    (\<exists>item. return_row row = Inr item \<and> \<not> is_failure item) \<and>
    (\<exists>items. return_rows rows = Inr items \<and> filter is_failure items = [])" by (auto split: if_splits)
  then show ?case using Cons.IH acceptable_row_iff by simp
qed simp

lemma rows_error_None: "rows_error operation rows = None \<longleftrightarrow> (\<forall>row\<in>set rows. acceptable_row row)"
  unfolding return_rows_good [symmetric] by (auto simp: rows_error_def split: sum.splits if_splits)

lemma control_error_None_iff:
  "control_error operation v = None \<longleftrightarrow>
    (\<exists>obj raw. v = VObject obj \<and> map_of obj ''RETURN'' = Some raw \<and>
      rows_of raw \<noteq> [] \<and> (\<forall>row\<in>set (rows_of raw). acceptable_row row))"
  unfolding control_error_cases by (auto simp: rows_error_None split: js_value.splits option.splits if_splits)

lemma return_row_error:
  assumes "return_row row = Inl e"
  shows "e = invalid_control_result"
proof -
  have text_error: "controlledReturnText v = Inl e \<Longrightarrow> e = invalid_control_result" for v e
    by (cases v) (simp_all add: controlledReturnText_def)
  have type_error: "controlledReturnType v = Inl e \<Longrightarrow> e = invalid_control_result" for v e
    by (cases v) (simp_all add: controlledReturnType_def Let_def split: if_splits)
  show ?thesis
  proof (cases row)
    case (VObject obj)
    with assms show ?thesis
      by (auto simp: return_row_def rbind_eq_Inl split: if_splits dest: text_error type_error)
  qed (use assms in \<open>simp_all add: return_row_def\<close>)
qed

lemma rows_error_Some:
  assumes "rows_error operation rows = Some e"
  shows "e = invalid_control_result \<or> (\<exists>items. e = BapiError operation items \<and> items \<noteq> [] \<and> (\<forall>item\<in>set items. is_failure item))"
proof -
  have "return_rows rows = Inl e \<Longrightarrow> e = invalid_control_result" for rows e
    by (induction rows) (auto simp: rbind_eq_Inl dest: return_row_error)
  with assms show ?thesis by (auto simp: rows_error_def split: sum.splits if_splits)
qed

section \<open>Property\<close>

text \<open>C11. A commit or rollback counts as answered well exactly when the answer is an object whose \<open>RETURN\<close>
is one structure or a non-empty table of structures, each with a \<open>TYPE\<close> that is blank, \<open>I\<close>, \<open>S\<close> or
\<open>W\<close> up to case and surrounding blanks and with texts for \<open>ID\<close>, \<open>NUMBER\<close> and \<open>MESSAGE\<close> where they
are given. Otherwise it fails, and it fails as rejected only when every row could be read and some
row is an abort, an error or an exit.\<close>

theorem txn_control_answer:
  "(control_error operation v = None \<longleftrightarrow>
    (\<exists>obj raw. v = VObject obj \<and> map_of obj ''RETURN'' = Some raw \<and>
      rows_of raw \<noteq> [] \<and> list_all acceptable_row (rows_of raw))) \<and>
   (control_error operation v \<in> {None, Some invalid_control_result} \<or>
     (\<exists>items. control_error operation v = Some (BapiError operation items) \<and> items \<noteq> [] \<and>
       list_all is_failure items))"
proof -
  have "e = invalid_control_result \<or> (\<exists>items. e = BapiError operation items \<and> items \<noteq> [] \<and> list_all is_failure items)"
    if "control_error operation v = Some e" for e
    using that unfolding control_error_cases list_all_iff
    by (auto split: js_value.splits option.splits if_splits dest: rows_error_Some)
  then have "control_error operation v \<in> {None, Some invalid_control_result} \<or>
     (\<exists>items. control_error operation v = Some (BapiError operation items) \<and> items \<noteq> [] \<and>
       list_all is_failure items)" by (cases "control_error operation v") auto
  then show ?thesis by (intro conjI control_error_None_iff [folded list_all_iff])
qed

end
