(* ===== verification/TransactionState.thy ===== *)
theory TransactionState
  imports TransactionControl
begin

text \<open>
  The transaction runtime of \<open>src/lifecycle/transaction-runtime.ts\<close> as a machine. A method runs
  without a break up to its next \<open>await\<close>; what it then waits for is a field of the state, and the
  settlement arrives as an event. A lease is known by the number of the transaction it was acquired
  for. What \<open>#bounded\<close> reports is one of three settlements: the work was fulfilled, it failed (or
  was never started), or the deadline or the scheduler ended the wait while the work still runs, which
  detaches it. A synchronous throw of the adapter is its failure reported right away. The calls of
  the adapter are kept in a log. Callers do not reenter the runtime from option getters, from the
  classifier or from the scheduler; the timeout counter is left out.
\<close>

section \<open>State\<close>

datatype txn_phase = TxIdle | TxOpening | TxActive | TxCalling | TxCommitting | TxRollingBack | TxResetting
  | TxReleasing | TxClosing | TxFailed | TxClosed

datatype invocation_kind = Business | Control control

datatype release_reason = ByCommit | ByRollback | ByCloseRollback | ByBeginRollback | ByAmbiguous
  | ByControlRejected | ByResetFailed

datatype 'v settlement = Fulfilled 'v | Failed txn_error | Detached txn_error

datatype adapter_call =
    AcquireCall nat
  | InvokeCall nat invocation_kind
  | ResetCall nat
  | ReleaseCall nat bool release_reason txn_outcome

text \<open>Where \<open>begin\<close> waits; the flag says whether the adapter was called at all.\<close>

datatype opening_phase = NotOpening | Acquiring nat bool | UndoingBegin nat txn_error

datatype call_phase = NoCall | CallRunning bool | CallEvicting txn_error

datatype call_disposition = Stable | AmbiguousCall

text \<open>What is left to do with the lease: after a successful control invocation, with the cleanup
failures so far, or a release that ends everything.\<close>

datatype release_plan =
    AfterControl control release_reason "txn_error list"
  | ReleaseOnly "txn_error option" release_reason txn_outcome

datatype executor = NoExecutor | AwaitOpening | AwaitAcquires | AwaitCall
  | ControlRunning control release_reason bool
  | ResetRunning control release_reason bool
  | Converging release_plan
  | Releasing release_plan
  | Finished

datatype terminal = NoTerminal | TerminalPending | TerminalResolved | TerminalRejected txn_error

datatype late_release = NoLate | LateWaiting release_reason txn_outcome | LateReleasing | LateDone

record txn =
  tx_phase :: txn_phase
  tx_outcome :: txn_outcome
  tx_next :: nat
  tx_token :: "nat option"
  tx_lease :: "nat option"
  tx_opening :: opening_phase
  tx_acquires :: "(nat \<times> bool) list"
  tx_acquireFailure :: "txn_error option"
  tx_call :: call_phase
  tx_disposition :: "call_disposition option"
  tx_executor :: executor
  tx_terminal :: terminal
  tx_releaseClaimed :: bool
  tx_quarantine :: "nat option"
  tx_late :: late_release
  tx_beginCalls :: nat
  tx_beginFailures :: nat
  tx_businessCalls :: nat
  tx_businessFailures :: nat
  tx_commitCalls :: nat
  tx_rollbackCalls :: nat
  tx_closeCalls :: nat
  tx_cancelCalls :: nat
  tx_commitInvocations :: nat
  tx_rollbackInvocations :: nat
  tx_bapiRejections :: nat
  tx_ambiguousFailures :: nat
  tx_resetCalls :: nat
  tx_resetFailures :: nat
  tx_releaseAttempts :: nat
  tx_releaseCompletions :: nat
  tx_reusableReleaseAttempts :: nat
  tx_evictionAttempts :: nat
  tx_releaseFailures :: nat
  tx_lateEvictionFailures :: nat
  tx_log :: "adapter_call list"
  tx_acquired :: "nat list"
  tx_callResults :: "txn_error option list"

definition txn_new :: txn where
  "txn_new = \<lparr>tx_phase = TxIdle, tx_outcome = NoOutcome, tx_next = 1, tx_token = None, tx_lease = None,
     tx_opening = NotOpening, tx_acquires = [], tx_acquireFailure = None, tx_call = NoCall,
     tx_disposition = None, tx_executor = NoExecutor, tx_terminal = NoTerminal, tx_releaseClaimed = False,
     tx_quarantine = None, tx_late = NoLate, tx_beginCalls = 0, tx_beginFailures = 0, tx_businessCalls = 0,
     tx_businessFailures = 0, tx_commitCalls = 0, tx_rollbackCalls = 0, tx_closeCalls = 0, tx_cancelCalls = 0,
     tx_commitInvocations = 0, tx_rollbackInvocations = 0, tx_bapiRejections = 0, tx_ambiguousFailures = 0,
     tx_resetCalls = 0, tx_resetFailures = 0, tx_releaseAttempts = 0, tx_releaseCompletions = 0,
     tx_reusableReleaseAttempts = 0, tx_evictionAttempts = 0, tx_releaseFailures = 0,
     tx_lateEvictionFailures = 0, tx_log = [], tx_acquired = [], tx_callResults = []\<rparr>"

definition operation_timeout :: txn_error where
  "operation_timeout = RuntimeError ''OPERATION_TIMEOUT''"

definition add_log :: "bool \<Rightarrow> adapter_call \<Rightarrow> txn \<Rightarrow> txn" where
  "add_log called c s = (if called then s\<lparr>tx_log := tx_log s @ [c]\<rparr> else s)"

text \<open>A settlement that work which was never started can have.\<close>

definition possible :: "bool \<Rightarrow> 'v settlement \<Rightarrow> bool" where
  "possible called r \<longleftrightarrow> called \<or> (case r of Failed e \<Rightarrow> True | _ \<Rightarrow> False)"

section \<open>Guards\<close>

definition requireToken :: "nat \<Rightarrow> txn \<Rightarrow> txn_error option" where
  "requireToken token s =
    (if tx_token s = Some token then None else Some (RuntimeError ''INVALID_TRANSACTION_TOKEN''))"

definition requireState :: "txn_phase \<Rightarrow> txn \<Rightarrow> txn_error option" where
  "requireState expected s =
    (if tx_phase s = expected then None
     else Some (RuntimeError (if tx_phase s = TxClosing \<or> tx_phase s = TxClosed then ''TRANSACTION_CLOSING''
       else ''INVALID_TRANSACTION_STATE'')))"

definition first_error :: "txn_error option \<Rightarrow> txn_error option \<Rightarrow> txn_error option" where
  "first_error a b = (case a of None \<Rightarrow> b | Some e \<Rightarrow> Some e)"

section \<open>Releasing\<close>

text \<open>\<open>#releaseLease\<close> up to its wait, and its end.\<close>

definition releaseLease :: "nat \<Rightarrow> bool \<Rightarrow> release_reason \<Rightarrow> txn_outcome \<Rightarrow> txn \<Rightarrow> txn" where
  "releaseLease token reusable reason outcome s =
    (let s = s\<lparr>tx_log := tx_log s @ [ReleaseCall token reusable reason outcome],
               tx_releaseAttempts := Suc (tx_releaseAttempts s)\<rparr>
     in if reusable then s\<lparr>tx_reusableReleaseAttempts := Suc (tx_reusableReleaseAttempts s)\<rparr>
        else s\<lparr>tx_evictionAttempts := Suc (tx_evictionAttempts s)\<rparr>)"

definition lease_released :: "bool \<Rightarrow> txn_error option \<Rightarrow> txn \<Rightarrow> txn" where
  "lease_released published failure s =
    (let s = (case failure of None \<Rightarrow> s\<lparr>tx_releaseCompletions := Suc (tx_releaseCompletions s)\<rparr>
              | Some e \<Rightarrow> s\<lparr>tx_releaseFailures := Suc (tx_releaseFailures s)\<rparr>)
     in if published then s\<lparr>tx_lease := None\<rparr> else s)"

text \<open>Whether \<open>#releasePublishedLease\<close> has to wait, with the state after its call.\<close>

definition releasePublishedLease :: "bool \<Rightarrow> release_reason \<Rightarrow> txn_outcome \<Rightarrow> txn \<Rightarrow> bool \<times> txn" where
  "releasePublishedLease reusable reason outcome s =
    (if tx_releaseClaimed s then (False, s)
     else let s = s\<lparr>tx_releaseClaimed := True\<rparr> in
       case (tx_token s, tx_lease s) of
         (Some token, Some lease) \<Rightarrow>
           (True, releaseLease token reusable reason outcome (s\<lparr>tx_phase := TxReleasing\<rparr>))
       | _ \<Rightarrow> (False, s))"

definition finishClosed :: "txn \<Rightarrow> txn" where
  "finishClosed s = s\<lparr>tx_lease := None, tx_phase := TxClosed\<rparr>"

definition raiseTerminalFailure :: "txn_outcome \<Rightarrow> txn_error option \<Rightarrow> txn_error list \<Rightarrow> terminal" where
  "raiseTerminalFailure outcome primary cleanup =
    (case primary of
       None \<Rightarrow> if cleanup = [] then TerminalResolved else TerminalRejected (TerminalError outcome cleanup)
     | Some e \<Rightarrow> if cleanup = [] then TerminalRejected e else TerminalRejected (TerminalError outcome (e # cleanup)))"

text \<open>The terminal promise settles; an ambiguous call that waits for it returns its failure.\<close>

definition call_failure :: "txn_error \<Rightarrow> terminal \<Rightarrow> txn_error" where
  "call_failure failure t = (case t of
      TerminalRejected e \<Rightarrow>
        TerminalError Ambiguous (failure # (case e of TerminalError _ errors \<Rightarrow> errors | _ \<Rightarrow> [e]))
    | _ \<Rightarrow> failure)"

definition settleTerminal :: "terminal \<Rightarrow> txn \<Rightarrow> txn" where
  "settleTerminal t s =
    (let s = s\<lparr>tx_executor := Finished, tx_terminal := t\<rparr> in
     case tx_call s of
       CallEvicting failure \<Rightarrow> s\<lparr>tx_call := NoCall, tx_callResults := tx_callResults s @ [Some (call_failure failure t)]\<rparr>
     | _ \<Rightarrow> s)"

fun plan_outcome :: "release_plan \<Rightarrow> txn \<Rightarrow> txn_outcome" where
  "plan_outcome (AfterControl operation reason cleanup) s = tx_outcome s"
| "plan_outcome (ReleaseOnly primary reason outcome) s = outcome"

fun plan_reason :: "release_plan \<Rightarrow> release_reason" where
  "plan_reason (AfterControl operation reason cleanup) = (if cleanup = [] then reason else ByResetFailed)"
| "plan_reason (ReleaseOnly primary reason outcome) = reason"

fun plan_reusable :: "release_plan \<Rightarrow> bool" where
  "plan_reusable (AfterControl operation reason cleanup) \<longleftrightarrow> cleanup = []"
| "plan_reusable (ReleaseOnly primary reason outcome) \<longleftrightarrow> False"

text \<open>How the plan ends, given the further cleanup failures.\<close>

fun plan_terminal :: "release_plan \<Rightarrow> txn_error list \<Rightarrow> txn \<Rightarrow> terminal" where
  "plan_terminal (AfterControl operation reason cleanup) errors s =
    raiseTerminalFailure (tx_outcome s) None (cleanup @ errors)"
| "plan_terminal (ReleaseOnly primary reason outcome) errors s = raiseTerminalFailure outcome primary errors"

definition complete_plan :: "release_plan \<Rightarrow> txn_error list \<Rightarrow> txn \<Rightarrow> txn" where
  "complete_plan plan errors s = settleTerminal (plan_terminal plan errors s) (finishClosed s)"

definition release_now :: "release_plan \<Rightarrow> txn \<Rightarrow> txn" where
  "release_now plan s =
    (case releasePublishedLease (plan_reusable plan) (plan_reason plan) (plan_outcome plan s) s of
       (True, s) \<Rightarrow> s\<lparr>tx_executor := Releasing plan\<rparr>
     | (False, s) \<Rightarrow> complete_plan plan [] s)"

definition prepareReleaseAfterQuarantine :: "release_plan \<Rightarrow> txn \<Rightarrow> txn" where
  "prepareReleaseAfterQuarantine plan s =
    (case tx_quarantine s of None \<Rightarrow> release_now plan s | Some n \<Rightarrow> s\<lparr>tx_executor := Converging plan\<rparr>)"

definition trackOperationQuarantine :: "txn \<Rightarrow> txn" where
  "trackOperationQuarantine s =
    s\<lparr>tx_quarantine := Some (case tx_quarantine s of None \<Rightarrow> 1 | Some n \<Rightarrow> Suc n)\<rparr>"

definition track_detached :: "'v settlement \<Rightarrow> txn \<Rightarrow> txn" where
  "track_detached r s = (case r of Detached e \<Rightarrow> trackOperationQuarantine s | _ \<Rightarrow> s)"

section \<open>Terminal operations\<close>

definition claimTerminal :: "(txn \<Rightarrow> txn) \<Rightarrow> txn \<Rightarrow> txn" where
  "claimTerminal run s =
    (if tx_terminal s \<noteq> NoTerminal then s else run (s\<lparr>tx_terminal := TerminalPending\<rparr>))"

fun control_phase :: "control \<Rightarrow> txn_phase" where
  "control_phase Commit = TxCommitting"
| "control_phase Rollback = TxRollingBack"

fun control_outcome :: "control \<Rightarrow> txn_outcome" where
  "control_outcome Commit = Committed"
| "control_outcome Rollback = RolledBack"

text \<open>\<open>#finishControl\<close> up to its first wait; \<open>called\<close> says whether the wait got as far as the adapter.\<close>

definition finishControl :: "control \<Rightarrow> release_reason \<Rightarrow> bool \<Rightarrow> txn \<Rightarrow> txn" where
  "finishControl operation reason called s =
    (case (tx_token s, tx_lease s) of
       (Some token, Some lease) \<Rightarrow>
         add_log called (InvokeCall lease (Control operation))
           (s\<lparr>tx_phase := control_phase operation, tx_executor := ControlRunning operation reason called,
              tx_commitInvocations := (if operation = Commit then Suc (tx_commitInvocations s) else tx_commitInvocations s),
              tx_rollbackInvocations :=
                (if operation = Rollback then Suc (tx_rollbackInvocations s) else tx_rollbackInvocations s)\<rparr>)
     | _ \<Rightarrow> settleTerminal (TerminalRejected (RuntimeError ''INVALID_TRANSACTION_STATE'')) s)"

definition settlement_error :: "('v \<Rightarrow> txn_error option) \<Rightarrow> 'v settlement \<Rightarrow> txn_error option" where
  "settlement_error check r = (case r of Fulfilled v \<Rightarrow> check v | Failed e \<Rightarrow> Some e | Detached e \<Rightarrow> Some e)"

text \<open>The control invocation settles; on success the reset follows, \<open>called\<close> as above.\<close>

definition control_settled :: "js_value settlement \<Rightarrow> bool \<Rightarrow> txn \<Rightarrow> txn" where
  "control_settled r called s =
    (case tx_executor s of
       ControlRunning operation reason invoked \<Rightarrow>
         if \<not> possible invoked r then s
         else let s = track_detached r s in
           (case settlement_error (control_error operation) r of
              Some (BapiError operation' items) \<Rightarrow>
                prepareReleaseAfterQuarantine (ReleaseOnly (Some (BapiError operation' items)) ByControlRejected Rejected)
                  (s\<lparr>tx_outcome := Rejected, tx_bapiRejections := Suc (tx_bapiRejections s)\<rparr>)
            | Some e \<Rightarrow>
                prepareReleaseAfterQuarantine (ReleaseOnly (Some e) ByAmbiguous Ambiguous)
                  (s\<lparr>tx_outcome := Ambiguous, tx_ambiguousFailures := Suc (tx_ambiguousFailures s)\<rparr>)
            | None \<Rightarrow>
                add_log called (ResetCall (the (tx_lease s)))
                  (s\<lparr>tx_outcome := control_outcome operation, tx_phase := TxResetting,
                     tx_resetCalls := Suc (tx_resetCalls s), tx_executor := ResetRunning operation reason called\<rparr>))
     | _ \<Rightarrow> s)"

definition reset_settled_step :: "unit settlement \<Rightarrow> txn \<Rightarrow> txn" where
  "reset_settled_step r s =
    (case tx_executor s of
       ResetRunning operation reason called \<Rightarrow>
         if \<not> possible called r then s
         else let s = track_detached r s in
           (case settlement_error (\<lambda>_. None) r of
              None \<Rightarrow> prepareReleaseAfterQuarantine (AfterControl operation reason []) s
            | Some e \<Rightarrow> prepareReleaseAfterQuarantine (AfterControl operation reason [e])
                (s\<lparr>tx_resetFailures := Suc (tx_resetFailures s)\<rparr>))
     | _ \<Rightarrow> s)"

text \<open>The wait for the detached work ends: it converged, or the wait failed and the release comes late.\<close>

definition startLateRelease :: "release_reason \<Rightarrow> txn_outcome \<Rightarrow> txn \<Rightarrow> txn" where
  "startLateRelease reason outcome s =
    (if tx_late s \<noteq> NoLate then s else s\<lparr>tx_late := LateWaiting reason outcome\<rparr>)"

definition converged :: "txn_error option \<Rightarrow> txn \<Rightarrow> txn" where
  "converged failure s =
    (case tx_executor s of
       Converging plan \<Rightarrow>
         (case failure of
            None \<Rightarrow> if tx_quarantine s \<noteq> Some 0 then s else release_now plan (s\<lparr>tx_quarantine := None\<rparr>)
          | Some e \<Rightarrow>
              let s = (startLateRelease (plan_reason plan) (plan_outcome plan s) s)\<lparr>tx_phase := TxFailed\<rparr>
              in settleTerminal (plan_terminal plan [e] s) s)
     | _ \<Rightarrow> s)"

definition release_settled :: "txn_error option \<Rightarrow> txn \<Rightarrow> txn" where
  "release_settled failure s =
    (case tx_executor s of
       Releasing plan \<Rightarrow> complete_plan plan (case failure of None \<Rightarrow> [] | Some e \<Rightarrow> [e]) (lease_released True failure s)
     | _ \<Rightarrow> s)"

definition operation_settled :: "txn \<Rightarrow> txn" where
  "operation_settled s =
    (case tx_quarantine s of Some (Suc n) \<Rightarrow> s\<lparr>tx_quarantine := Some n\<rparr> | _ \<Rightarrow> s)"

definition late_start :: "txn \<Rightarrow> txn" where
  "late_start s =
    (case tx_late s of
       LateWaiting reason outcome \<Rightarrow>
         if tx_quarantine s \<noteq> Some 0 then s
         else (case releasePublishedLease False reason outcome (s\<lparr>tx_quarantine := None\<rparr>) of
             (True, s) \<Rightarrow> s\<lparr>tx_late := LateReleasing\<rparr>
           | (False, s) \<Rightarrow> finishClosed (s\<lparr>tx_late := LateDone\<rparr>))
     | _ \<Rightarrow> s)"

definition late_settled :: "txn_error option \<Rightarrow> txn \<Rightarrow> txn" where
  "late_settled failure s =
    (if tx_late s \<noteq> LateReleasing then s
     else let s = lease_released True failure s;
              s = (if failure = None then s else s\<lparr>tx_lateEvictionFailures := Suc (tx_lateEvictionFailures s)\<rparr>)
          in finishClosed (s\<lparr>tx_late := LateDone\<rparr>))"

section \<open>Begin\<close>

definition begin_step :: "bool \<Rightarrow> txn \<Rightarrow> txn" where
  "begin_step called s =
    (let s = s\<lparr>tx_beginCalls := Suc (tx_beginCalls s)\<rparr> in
     if tx_phase s \<noteq> TxIdle then s\<lparr>tx_beginFailures := Suc (tx_beginFailures s)\<rparr>
     else add_log called (AcquireCall (tx_next s))
       (s\<lparr>tx_phase := TxOpening, tx_acquireFailure := None, tx_next := Suc (tx_next s),
          tx_opening := Acquiring (tx_next s) called\<rparr>))"

definition begin_failed :: "txn \<Rightarrow> txn" where
  "begin_failed s =
    (let s = s\<lparr>tx_opening := NotOpening, tx_beginFailures := Suc (tx_beginFailures s)\<rparr> in
     if tx_phase s = TxOpening then s\<lparr>tx_phase := (if tx_acquires s = [] then TxIdle else TxFailed)\<rparr> else s)"

text \<open>The acquire settles; the value says whether it is an object.\<close>

definition acquire_settled :: "bool settlement \<Rightarrow> txn \<Rightarrow> txn" where
  "acquire_settled r s =
    (case tx_opening s of
       Acquiring n called \<Rightarrow>
         if \<not> possible called r then s
         else (case r of
             Fulfilled True \<Rightarrow>
               let s = s\<lparr>tx_acquired := tx_acquired s @ [n]\<rparr> in
               if tx_phase s = TxOpening
               then s\<lparr>tx_opening := NotOpening, tx_lease := Some n, tx_token := Some n, tx_phase := TxActive,
                      tx_outcome := OutcomeActive\<rparr>
               else releaseLease n False ByBeginRollback NoOutcome
                 (s\<lparr>tx_beginFailures := Suc (tx_beginFailures s),
                    tx_opening := UndoingBegin n (RuntimeError ''TRANSACTION_CLOSING'')\<rparr>)
           | Detached e \<Rightarrow> begin_failed (s\<lparr>tx_acquires := tx_acquires s @ [(n, False)]\<rparr>)
           | _ \<Rightarrow> begin_failed s)
     | _ \<Rightarrow> s)"

definition undo_settled :: "txn_error option \<Rightarrow> txn \<Rightarrow> txn" where
  "undo_settled failure s =
    (case tx_opening s of
       UndoingBegin n e \<Rightarrow>
         let s = (lease_released False failure s)\<lparr>tx_opening := NotOpening\<rparr> in
         (case failure of
            None \<Rightarrow> s
          | Some e' \<Rightarrow> if tx_phase s = TxClosing then s\<lparr>tx_acquireFailure := Some (AggregateErrors [e, e'])\<rparr> else s)
     | _ \<Rightarrow> s)"

definition settleAcquireQuarantineState :: "txn \<Rightarrow> txn" where
  "settleAcquireQuarantineState s =
    (if tx_acquires s \<noteq> [] \<or> tx_token s \<noteq> None \<or> tx_phase s \<noteq> TxFailed \<or> tx_acquireFailure s \<noteq> None then s
     else s\<lparr>tx_phase := (if tx_terminal s = NoTerminal then TxIdle else TxClosed)\<rparr>)"

text \<open>A detached acquire settles, with an object to hand back or without; then the handing back settles.\<close>

definition late_acquire :: "nat \<Rightarrow> bool \<Rightarrow> txn \<Rightarrow> txn" where
  "late_acquire n object s =
    (if (n, False) \<notin> set (tx_acquires s) then s
     else if object
     then releaseLease n False ByBeginRollback NoOutcome
       (s\<lparr>tx_acquires := map (\<lambda>a. if a = (n, False) then (n, True) else a) (tx_acquires s),
          tx_acquired := tx_acquired s @ [n]\<rparr>)
     else settleAcquireQuarantineState (s\<lparr>tx_acquires := filter (\<lambda>a. a \<noteq> (n, False)) (tx_acquires s)\<rparr>))"

definition late_acquire_released :: "nat \<Rightarrow> txn_error option \<Rightarrow> txn \<Rightarrow> txn" where
  "late_acquire_released n failure s =
    (if (n, True) \<notin> set (tx_acquires s) then s
     else let s = (lease_released False failure s)\<lparr>tx_acquires := filter (\<lambda>a. a \<noteq> (n, True)) (tx_acquires s)\<rparr>;
              s = (case failure of None \<Rightarrow> s
                   | Some e \<Rightarrow> s\<lparr>tx_acquireFailure := Some e, tx_lateEvictionFailures := Suc (tx_lateEvictionFailures s)\<rparr>)
          in settleAcquireQuarantineState s)"

section \<open>Business calls\<close>

datatype classification = Recoverable | NotRecoverable | ClassifierThrew txn_error

definition call_step :: "nat \<Rightarrow> txn_error option \<Rightarrow> bool \<Rightarrow> txn \<Rightarrow> (txn_error + unit) \<times> txn" where
  "call_step token invalid called s =
    (case first_error (requireToken token s) (first_error
        (if tx_phase s = TxCalling then Some (RuntimeError ''CONCURRENT_TRANSACTION_OPERATION'') else None)
        (first_error (requireState TxActive s) invalid)) of
       Some e \<Rightarrow> (Inl e, s)
     | None \<Rightarrow>
         (Inr (), add_log called (InvokeCall (the (tx_lease s)) Business)
           (s\<lparr>tx_call := CallRunning called, tx_disposition := None, tx_phase := TxCalling,
              tx_businessCalls := Suc (tx_businessCalls s)\<rparr>)))"

definition call_returns :: "txn_error option \<Rightarrow> txn \<Rightarrow> txn" where
  "call_returns e s = s\<lparr>tx_call := NoCall, tx_callResults := tx_callResults s @ [e]\<rparr>"

definition call_failed :: "txn_error \<Rightarrow> classification \<Rightarrow> txn \<Rightarrow> txn" where
  "call_failed e answer s =
    (let s = s\<lparr>tx_businessFailures := Suc (tx_businessFailures s)\<rparr> in
     if tx_phase s = TxClosing
     then call_returns (Some e) (if tx_disposition s = None
       then s\<lparr>tx_disposition := Some AmbiguousCall, tx_ambiguousFailures := Suc (tx_ambiguousFailures s)\<rparr> else s)
     else
       let (failure, recoverable) = (if e = operation_timeout then (e, False)
             else (case answer of Recoverable \<Rightarrow> (e, True) | NotRecoverable \<Rightarrow> (e, False)
               | ClassifierThrew e' \<Rightarrow> (AggregateErrors [e, e'], False)))
       in if recoverable then call_returns (Some failure) (s\<lparr>tx_phase := TxActive\<rparr>)
          else claimTerminal (prepareReleaseAfterQuarantine (ReleaseOnly None ByAmbiguous Ambiguous))
            (s\<lparr>tx_ambiguousFailures := Suc (tx_ambiguousFailures s), tx_outcome := Ambiguous, tx_phase := TxFailed,
               tx_call := CallEvicting failure\<rparr>))"

text \<open>The invocation settles; the value says whether it is an object, \<open>answer\<close> is the classifier's.\<close>

definition call_settled :: "bool settlement \<Rightarrow> classification \<Rightarrow> txn \<Rightarrow> txn" where
  "call_settled r answer s =
    (case tx_call s of
       CallRunning called \<Rightarrow>
         if \<not> possible called r then s
         else let s = track_detached r s in
           (case settlement_error (\<lambda>object. if object then None else Some invalid_control_result) r of
              None \<Rightarrow>
                if tx_phase s = TxClosing
                then call_failed (RuntimeError ''TRANSACTION_CLOSING'') answer (s\<lparr>tx_disposition := Some Stable\<rparr>)
                else call_returns None (s\<lparr>tx_phase := TxActive\<rparr>)
            | Some e \<Rightarrow> call_failed e answer s)
     | _ \<Rightarrow> s)"

section \<open>Commit, rollback, cancel, close\<close>

definition control_step :: "control \<Rightarrow> nat \<Rightarrow> bool \<Rightarrow> txn \<Rightarrow> (txn_error + unit) \<times> txn" where
  "control_step operation token called s =
    (let s = (case operation of Commit \<Rightarrow> s\<lparr>tx_commitCalls := Suc (tx_commitCalls s)\<rparr>
              | Rollback \<Rightarrow> s\<lparr>tx_rollbackCalls := Suc (tx_rollbackCalls s)\<rparr>) in
     case first_error (requireToken token s) (requireState TxActive s) of
       Some e \<Rightarrow> (Inl e, s)
     | None \<Rightarrow> (Inr (), claimTerminal
         (finishControl operation (if operation = Commit then ByCommit else ByRollback) called)
         (s\<lparr>tx_phase := control_phase operation\<rparr>)))"

definition closeDuringCall :: "txn \<Rightarrow> txn" where
  "closeDuringCall s = claimTerminal (\<lambda>s. s\<lparr>tx_executor := AwaitCall\<rparr>) (s\<lparr>tx_phase := TxClosing\<rparr>)"

definition cancel_step :: "nat \<Rightarrow> txn \<Rightarrow> (txn_error + unit) \<times> txn" where
  "cancel_step token s =
    (let s = s\<lparr>tx_cancelCalls := Suc (tx_cancelCalls s)\<rparr> in
     case first_error (requireToken token s) (requireState TxCalling s) of
       Some e \<Rightarrow> (Inl e, s)
     | None \<Rightarrow> (Inr (), closeDuringCall s))"

definition abort_transaction :: "nat \<Rightarrow> bool \<Rightarrow> txn \<Rightarrow> (txn_error + unit) \<times> txn" where
  "abort_transaction token called s =
    (case requireToken token s of
       Some e \<Rightarrow> (Inl e, s)
     | None \<Rightarrow>
         if tx_phase s = TxClosing \<and> tx_terminal s \<noteq> NoTerminal then (Inr (), s)
         else if tx_phase s = TxCalling then cancel_step token s
         else control_step Rollback token called s)"

definition close_step :: "bool \<Rightarrow> txn \<Rightarrow> (txn_error + unit) \<times> txn" where
  "close_step called s =
    (let s = s\<lparr>tx_closeCalls := Suc (tx_closeCalls s)\<rparr> in
     if tx_terminal s \<noteq> NoTerminal then (Inr (), s)
     else if tx_phase s = TxIdle then (Inr (), s\<lparr>tx_phase := TxClosed, tx_terminal := TerminalResolved\<rparr>)
     else if tx_phase s = TxOpening
     then (Inr (), claimTerminal (\<lambda>s. s\<lparr>tx_executor := AwaitOpening\<rparr>) (s\<lparr>tx_phase := TxClosing\<rparr>))
     else if tx_phase s = TxCalling then (Inr (), closeDuringCall s)
     else if tx_phase s = TxActive
     then (Inr (), claimTerminal (finishControl Rollback ByCloseRollback called) (s\<lparr>tx_phase := TxClosing\<rparr>))
     else if tx_phase s = TxClosed then (Inr (), s\<lparr>tx_terminal := TerminalResolved\<rparr>)
     else if tx_phase s = TxFailed \<and> tx_token s = None
     then (Inr (), claimTerminal (\<lambda>s. s\<lparr>tx_executor := AwaitOpening\<rparr>) (s\<lparr>tx_phase := TxClosing\<rparr>))
     else (Inl (RuntimeError ''INVALID_TRANSACTION_STATE''), s))"

section \<open>The terminal operation goes on\<close>

definition finish_close :: "txn \<Rightarrow> txn" where
  "finish_close s =
    (case tx_acquireFailure s of
       Some e \<Rightarrow> settleTerminal (TerminalRejected e) (s\<lparr>tx_phase := TxFailed\<rparr>)
     | None \<Rightarrow> settleTerminal TerminalResolved (s\<lparr>tx_phase := TxClosed\<rparr>))"

definition opening_done :: "txn \<Rightarrow> txn" where
  "opening_done s =
    (if tx_executor s \<noteq> AwaitOpening \<or> tx_opening s \<noteq> NotOpening then s
     else if tx_acquires s \<noteq> [] then s\<lparr>tx_executor := AwaitAcquires\<rparr>
     else finish_close s)"

definition acquires_done :: "txn_error option \<Rightarrow> txn \<Rightarrow> txn" where
  "acquires_done failure s =
    (if tx_executor s \<noteq> AwaitAcquires then s
     else case failure of
       Some e \<Rightarrow> settleTerminal (TerminalRejected e) (s\<lparr>tx_phase := TxFailed\<rparr>)
     | None \<Rightarrow> if tx_acquires s \<noteq> [] then s else finish_close s)"

definition call_done :: "bool \<Rightarrow> txn \<Rightarrow> txn" where
  "call_done called s =
    (if tx_executor s \<noteq> AwaitCall \<or> tx_call s \<noteq> NoCall then s
     else if tx_disposition s = Some Stable then finishControl Rollback ByCloseRollback called s
     else prepareReleaseAfterQuarantine (ReleaseOnly None ByAmbiguous Ambiguous) (s\<lparr>tx_outcome := Ambiguous\<rparr>))"

section \<open>The machine\<close>

datatype txn_event =
    BeginTxn bool
  | AcquireSettled "bool settlement"
  | UndoSettled "txn_error option"
  | LateAcquire nat bool
  | LateAcquireReleased nat "txn_error option"
  | CallTxn nat "txn_error option" bool
  | CallSettled "bool settlement" classification
  | ControlTxn control nat bool
  | CancelTxn nat
  | AbortTxn nat bool
  | CloseTxn bool
  | OpeningDone
  | AcquiresDone "txn_error option"
  | CallDone bool
  | ControlSettled "js_value settlement" bool
  | ResetDone "unit settlement"
  | Converged "txn_error option"
  | ReleaseDone "txn_error option"
  | OperationSettled
  | LateStart
  | LateSettled "txn_error option"

fun txn_step :: "txn_event \<Rightarrow> txn \<Rightarrow> txn" where
  "txn_step (BeginTxn called) s = begin_step called s"
| "txn_step (AcquireSettled r) s = acquire_settled r s"
| "txn_step (UndoSettled e) s = undo_settled e s"
| "txn_step (LateAcquire n object) s = late_acquire n object s"
| "txn_step (LateAcquireReleased n e) s = late_acquire_released n e s"
| "txn_step (CallTxn token invalid called) s = snd (call_step token invalid called s)"
| "txn_step (CallSettled r answer) s = call_settled r answer s"
| "txn_step (ControlTxn operation token called) s = snd (control_step operation token called s)"
| "txn_step (CancelTxn token) s = snd (cancel_step token s)"
| "txn_step (AbortTxn token called) s = snd (abort_transaction token called s)"
| "txn_step (CloseTxn called) s = snd (close_step called s)"
| "txn_step OpeningDone s = opening_done s"
| "txn_step (AcquiresDone e) s = acquires_done e s"
| "txn_step (CallDone called) s = call_done called s"
| "txn_step (ControlSettled r called) s = control_settled r called s"
| "txn_step (ResetDone r) s = reset_settled_step r s"
| "txn_step (Converged e) s = converged e s"
| "txn_step (ReleaseDone e) s = release_settled e s"
| "txn_step OperationSettled s = operation_settled s"
| "txn_step LateStart s = late_start s"
| "txn_step (LateSettled e) s = late_settled e s"

definition txn_run :: "txn_event list \<Rightarrow> txn" where
  "txn_run es = fold txn_step es txn_new"

text \<open>What \<open>monitor\<close> reports besides the counters.\<close>

definition txn_hasLease :: "txn \<Rightarrow> bool" where
  "txn_hasLease s \<longleftrightarrow> tx_lease s \<noteq> None"

definition txn_activeOperation :: "txn \<Rightarrow> bool" where
  "txn_activeOperation s \<longleftrightarrow> tx_phase s = TxCalling"

end
