(* ===== verification/TransactionSafety.thy ===== *)
theory TransactionSafety
  imports TransactionState
begin

text \<open>
  What the transaction runtime guarantees to the owner of the physical session. The adapter calls made
  for one lease follow a protocol, and the invariant ties the position in it to the state.
\<close>

section \<open>The protocol of a lease\<close>

datatype lease_phase = LFree | LHeld | LControlled control | LReset control | LReleased | LBroken

text \<open>One call, seen by the lease of transaction \<open>k\<close>.\<close>

fun lease_next :: "nat \<Rightarrow> adapter_call \<Rightarrow> lease_phase \<Rightarrow> lease_phase" where
  "lease_next k (AcquireCall n) p = (if n \<noteq> k then p else if p = LFree then LHeld else LBroken)"
| "lease_next k (InvokeCall n Business) p = (if n \<noteq> k then p else if p = LHeld then LHeld else LBroken)"
| "lease_next k (InvokeCall n (Control c)) p = (if n \<noteq> k then p else if p = LHeld then LControlled c else LBroken)"
| "lease_next k (ResetCall n) p =
    (if n \<noteq> k then p else case p of LControlled c \<Rightarrow> LReset c | _ \<Rightarrow> LBroken)"
| "lease_next k (ReleaseCall n reusable reason outcome) p =
    (if n \<noteq> k then p else case p of
       LHeld \<Rightarrow> if reusable then LBroken else LReleased
     | LControlled c \<Rightarrow> if reusable then LBroken else LReleased
     | LReset c \<Rightarrow> if reusable \<and> outcome \<noteq> control_outcome c then LBroken else LReleased
     | _ \<Rightarrow> LBroken)"

definition lease_position :: "nat \<Rightarrow> adapter_call list \<Rightarrow> lease_phase" where
  "lease_position k calls = fold (lease_next k) calls LFree"

lemma lease_position_simps [simp]:
  "lease_position k [] = LFree"
  "lease_position k (calls @ [c]) = lease_next k c (lease_position k calls)"
  by (simp_all add: lease_position_def)

abbreviation at_lease :: "nat \<Rightarrow> txn \<Rightarrow> lease_phase" where
  "at_lease k s \<equiv> lease_position k (tx_log s)"

section \<open>The invariant\<close>

definition releasable :: "lease_phase \<Rightarrow> bool" where
  "releasable p \<longleftrightarrow> p = LHeld \<or> (\<exists>c. p = LControlled c \<or> p = LReset c)"

lemma releasable_simps [simp]: "releasable LHeld" "releasable (LControlled c)" "releasable (LReset c)"
  by (simp_all add: releasable_def)

fun call_token :: "adapter_call \<Rightarrow> nat" where
  "call_token (AcquireCall n) = n"
| "call_token (InvokeCall n kind) = n"
| "call_token (ResetCall n) = n"
| "call_token (ReleaseCall n reusable reason outcome) = n"

lemma lease_next_other: "call_token c \<noteq> k \<Longrightarrow> lease_next k c p = p"
  by (cases "(k, c, p)" rule: lease_next.cases) auto

text \<open>The parts of the invariant that do not depend on the phase, over the fields they read: no call
breaks the protocol, an acquired lease is the published one or handed back, and what is being
acquired or acquired late is in the position that goes with it.\<close>

definition log_inv :: "nat \<Rightarrow> adapter_call list \<Rightarrow> bool" where
  "log_inv nx calls \<longleftrightarrow> (\<forall>k. lease_position k calls \<noteq> LBroken \<and> (nx \<le> k \<longrightarrow> lease_position k calls = LFree))"

definition acquired_inv :: "nat \<Rightarrow> nat option \<Rightarrow> nat list \<Rightarrow> adapter_call list \<Rightarrow> bool" where
  "acquired_inv nx published acquired calls \<longleftrightarrow>
    (\<forall>n\<in>set acquired. n < nx \<and> (published = Some n \<or> lease_position n calls = LReleased))"

fun opening_ok :: "opening_phase \<Rightarrow> nat \<Rightarrow> nat list \<Rightarrow> adapter_call list \<Rightarrow> bool" where
  "opening_ok NotOpening nx acquired calls \<longleftrightarrow> True"
| "opening_ok (Acquiring n called) nx acquired calls \<longleftrightarrow>
    n < nx \<and> n \<notin> set acquired \<and> lease_position n calls = (if called then LHeld else LFree)"
| "opening_ok (UndoingBegin n e) nx acquired calls \<longleftrightarrow> n < nx \<and> lease_position n calls = LReleased"

definition acquires_inv :: "(nat \<times> bool) list \<Rightarrow> nat \<Rightarrow> nat list \<Rightarrow> adapter_call list \<Rightarrow> bool" where
  "acquires_inv acquires nx acquired calls \<longleftrightarrow> acquires = [] \<or> (\<exists>n handed. acquires = [(n, handed)] \<and> n < nx \<and>
     (if handed then lease_position n calls = LReleased else lease_position n calls = LHeld \<and> n \<notin> set acquired))"

lemma acquires_inv_simps [simp]:
  "acquires_inv [] nx acquired calls"
  "acquires_inv [(n, handed)] nx acquired calls \<longleftrightarrow> n < nx \<and>
     (if handed then lease_position n calls = LReleased else lease_position n calls = LHeld \<and> n \<notin> set acquired)"
  by (auto simp: acquires_inv_def)

definition common_inv :: "txn \<Rightarrow> bool" where
  "common_inv s \<longleftrightarrow> log_inv (tx_next s) (tx_log s) \<and>
     acquired_inv (tx_next s) (tx_token s) (tx_acquired s) (tx_log s) \<and>
     opening_ok (tx_opening s) (tx_next s) (tx_acquired s) (tx_log s) \<and>
     acquires_inv (tx_acquires s) (tx_next s) (tx_acquired s) (tx_log s)"

lemma log_inv_snoc:
  assumes "log_inv nx calls" and "call_token c < nx"
    and "lease_next (call_token c) c (lease_position (call_token c) calls) \<noteq> LBroken"
  shows "log_inv nx (calls @ [c])"
proof -
  have "lease_next k c (lease_position k calls) \<noteq> LBroken \<and>
      (nx \<le> k \<longrightarrow> lease_next k c (lease_position k calls) = LFree)" for k
    using assms by (cases "call_token c = k") (auto simp: log_inv_def lease_next_other)
  then show ?thesis by (simp add: log_inv_def)
qed

lemma log_inv_fresh: "log_inv nx calls \<Longrightarrow> lease_position nx calls = LFree"
  by (simp add: log_inv_def)

lemma log_inv_Suc: "log_inv nx calls \<Longrightarrow> log_inv (Suc nx) calls"
  by (simp add: log_inv_def)

lemma acquired_inv_snoc:
  assumes "acquired_inv nx published acquired calls"
    and "call_token c \<notin> set acquired \<or> published = Some (call_token c) \<or>
      lease_next (call_token c) c (lease_position (call_token c) calls) = LReleased"
  shows "acquired_inv nx published acquired (calls @ [c])"
proof -
  have "published = Some n \<or> lease_next n c (lease_position n calls) = LReleased" if "n \<in> set acquired" for n
    using assms that by (cases "call_token c = n") (auto simp: acquired_inv_def lease_next_other)
  then show ?thesis using assms(1) by (simp add: acquired_inv_def)
qed

lemma acquired_inv_Suc: "acquired_inv nx published acquired calls \<Longrightarrow> acquired_inv (Suc nx) published acquired calls"
  by (auto simp: acquired_inv_def)

lemma acquired_inv_add:
  assumes "acquired_inv nx published acquired calls" and "n < nx"
    and "published' = Some n \<or> lease_position n calls = LReleased" and "published = None \<or> published' = published"
  shows "acquired_inv nx published' (acquired @ [n]) calls"
  using assms by (auto simp: acquired_inv_def)

lemma acquired_inv_lt: "acquired_inv nx published acquired calls \<Longrightarrow> n \<in> set acquired \<Longrightarrow> n < nx"
  by (simp add: acquired_inv_def)

text \<open>As long as no transaction was begun successfully.\<close>

fun free_ok :: "txn_phase \<Rightarrow> executor \<Rightarrow> terminal \<Rightarrow> opening_phase \<Rightarrow> (nat \<times> bool) list \<Rightarrow> bool" where
  "free_ok TxIdle x t opened acquires \<longleftrightarrow> x = NoExecutor \<and> t = NoTerminal \<and> opened = NotOpening \<and> acquires = []"
| "free_ok TxOpening x t opened acquires \<longleftrightarrow>
    x = NoExecutor \<and> t = NoTerminal \<and> (case opened of Acquiring n called \<Rightarrow> True | _ \<Rightarrow> False) \<and> acquires = []"
| "free_ok TxClosing x t opened acquires \<longleftrightarrow> t \<noteq> NoTerminal \<and>
    (x = AwaitOpening \<and> (opened = NotOpening \<or> acquires = []) \<or> x = AwaitAcquires \<and> opened = NotOpening)"
| "free_ok TxFailed x t opened acquires \<longleftrightarrow> opened = NotOpening \<and>
    (t = NoTerminal \<and> x = NoExecutor \<or> t \<noteq> NoTerminal \<and> x = Finished)"
| "free_ok TxClosed x t opened acquires \<longleftrightarrow> opened = NotOpening \<and> t \<noteq> NoTerminal \<and> (x = NoExecutor \<or> x = Finished)"
| "free_ok _ x t opened acquires \<longleftrightarrow> False"

definition free_inv :: "txn \<Rightarrow> bool" where
  "free_inv s \<longleftrightarrow> tx_lease s = None \<and> \<not> tx_releaseClaimed s \<and> tx_quarantine s = None \<and> tx_late s = NoLate \<and>
     tx_call s = NoCall \<and> tx_commitInvocations s = 0 \<and> tx_rollbackInvocations s = 0 \<and> tx_outcome s = NoOutcome \<and>
     free_ok (tx_phase s) (tx_executor s) (tx_terminal s) (tx_opening s) (tx_acquires s)"

lemma free_ok_opening:
  "free_ok p x t opened acquires \<Longrightarrow> opened \<noteq> NotOpening \<Longrightarrow>
    acquires = [] \<and> (p = TxOpening \<or> p = TxClosing \<and> x = AwaitOpening)"
  by (cases p) auto

lemma free_ok_more: "free_ok p x t NotOpening (a # acquires) \<Longrightarrow> free_ok p x t NotOpening acquires'"
  by (cases p) auto

lemma free_ok_undoing:
  "free_ok p x t (UndoingBegin n e) acquires \<Longrightarrow> acquires = [] \<and> p = TxClosing \<and> x = AwaitOpening \<and> t \<noteq> NoTerminal"
  by (cases p) auto

fun plan_ok :: "release_plan \<Rightarrow> txn \<Rightarrow> bool" where
  "plan_ok (AfterControl operation reason cleanup) s \<longleftrightarrow> tx_outcome s = control_outcome operation \<and>
     (if operation = Commit then tx_commitInvocations s = 1 \<and> tx_rollbackInvocations s = 0
      else tx_commitInvocations s = 0 \<and> tx_rollbackInvocations s = 1)"
| "plan_ok (ReleaseOnly primary reason outcome) s \<longleftrightarrow> tx_outcome s = outcome \<and> outcome \<in> {Ambiguous, Rejected} \<and>
     tx_commitInvocations s + tx_rollbackInvocations s = (if primary = None then 0 else 1)"

fun plan_at :: "release_plan \<Rightarrow> lease_phase \<Rightarrow> bool" where
  "plan_at (AfterControl operation reason cleanup) p \<longleftrightarrow>
    p = LReset operation \<or> cleanup \<noteq> [] \<and> p = LControlled operation"
| "plan_at (ReleaseOnly primary reason outcome) p \<longleftrightarrow> p = LHeld \<or> (\<exists>c. p = LControlled c)"

definition reused :: "nat \<Rightarrow> txn_outcome \<Rightarrow> adapter_call list \<Rightarrow> bool" where
  "reused t outcome calls \<longleftrightarrow> (\<exists>reason. ReleaseCall t True reason outcome \<in> set calls)"

definition honest_end :: "terminal \<Rightarrow> nat \<Rightarrow> nat \<Rightarrow> txn_outcome \<Rightarrow> nat \<Rightarrow> adapter_call list \<Rightarrow> bool" where
  "honest_end result commits rollbacks outcome t calls \<longleftrightarrow> result \<notin> {NoTerminal, TerminalPending} \<and>
     commits + rollbacks \<le> 1 \<and> outcome \<in> {Committed, RolledBack, Ambiguous, Rejected} \<and>
     (outcome = Committed \<longrightarrow> commits = 1) \<and> (outcome = RolledBack \<longrightarrow> rollbacks = 1) \<and>
     (result = TerminalResolved \<and> commits + rollbacks = 1 \<longrightarrow>
       outcome = (if commits = 1 then Committed else RolledBack) \<and>
       reused t outcome calls)"

lemma honest_end_snoc:
  assumes "honest_end result commits rollbacks outcome t calls"
  shows "honest_end result commits rollbacks outcome t (calls @ [c])"
proof -
  have "reused t outcome calls \<Longrightarrow> reused t outcome (calls @ [c])" by (auto simp: reused_def)
  with assms show ?thesis unfolding honest_end_def by blast
qed

abbreviation terminal_honest :: "nat \<Rightarrow> txn \<Rightarrow> bool" where
  "terminal_honest t s \<equiv> honest_end (tx_terminal s) (tx_commitInvocations s) (tx_rollbackInvocations s) (tx_outcome s) t (tx_log s)"

text \<open>Once transaction \<open>t\<close> was begun, by what its terminal operation does.\<close>

fun held_ok :: "executor \<Rightarrow> nat \<Rightarrow> txn \<Rightarrow> bool" where
  "held_ok NoExecutor t s \<longleftrightarrow> tx_terminal s = NoTerminal \<and> at_lease t s = LHeld \<and> tx_outcome s = OutcomeActive \<and>
     tx_commitInvocations s + tx_rollbackInvocations s = 0 \<and>
     (tx_phase s = TxActive \<and> tx_call s = NoCall \<or> tx_phase s = TxCalling \<and> (\<exists>c. tx_call s = CallRunning c))"
| "held_ok AwaitCall t s \<longleftrightarrow> tx_terminal s = TerminalPending \<and> at_lease t s = LHeld \<and> tx_outcome s = OutcomeActive \<and>
     tx_commitInvocations s + tx_rollbackInvocations s = 0 \<and> tx_phase s = TxClosing \<and>
     (tx_call s = NoCall \<or> (\<exists>c. tx_call s = CallRunning c))"
| "held_ok (ControlRunning operation reason called) t s \<longleftrightarrow> tx_terminal s = TerminalPending \<and>
     at_lease t s = (if called then LControlled operation else LHeld) \<and> tx_call s = NoCall \<and>
     tx_phase s = control_phase operation \<and>
     (if operation = Commit then tx_commitInvocations s = 1 \<and> tx_rollbackInvocations s = 0
      else tx_commitInvocations s = 0 \<and> tx_rollbackInvocations s = 1)"
| "held_ok (ResetRunning operation reason called) t s \<longleftrightarrow> tx_terminal s = TerminalPending \<and>
     at_lease t s = (if called then LReset operation else LControlled operation) \<and> tx_call s = NoCall \<and>
     tx_phase s = TxResetting \<and> plan_ok (AfterControl operation reason []) s"
| "held_ok (Converging plan) t s \<longleftrightarrow> tx_terminal s = TerminalPending \<and> plan_at plan (at_lease t s) \<and> plan_ok plan s \<and>
     (\<forall>c. tx_call s \<noteq> CallRunning c) \<and> tx_quarantine s \<noteq> None \<and> tx_phase s \<notin> {TxActive, TxCalling, TxClosed}"
| "held_ok (Releasing plan) t s \<longleftrightarrow> tx_terminal s = TerminalPending \<and> plan_ok plan s \<and> tx_phase s = TxReleasing \<and>
     (\<forall>c. tx_call s \<noteq> CallRunning c) \<and>
     ReleaseCall t (plan_reusable plan) (plan_reason plan) (tx_outcome s) \<in> set (tx_log s)"
| "held_ok Finished t s \<longleftrightarrow> terminal_honest t s \<and> tx_call s = NoCall"
| "held_ok _ t s \<longleftrightarrow> False"

fun late_ok :: "late_release \<Rightarrow> bool \<Rightarrow> txn_phase \<Rightarrow> nat option \<Rightarrow> bool \<Rightarrow> bool" where
  "late_ok NoLate claimed phase held quarantined \<longleftrightarrow> claimed \<and> phase = TxClosed \<and> held = None"
| "late_ok (LateWaiting reason outcome) claimed phase held quarantined \<longleftrightarrow>
    \<not> claimed \<and> phase = TxFailed \<and> quarantined"
| "late_ok LateReleasing claimed phase held quarantined \<longleftrightarrow> claimed \<and> phase = TxReleasing"
| "late_ok LateDone claimed phase held quarantined \<longleftrightarrow> claimed \<and> phase = TxClosed \<and> held = None"

definition is_releasing :: "executor \<Rightarrow> bool" where
  "is_releasing x \<longleftrightarrow> (\<exists>plan. x = Releasing plan)"

lemma is_releasing_simps [simp]:
  "is_releasing (Releasing plan)" "\<not> is_releasing NoExecutor" "\<not> is_releasing AwaitCall" "\<not> is_releasing Finished"
  "\<not> is_releasing (ControlRunning operation reason called)" "\<not> is_releasing (ResetRunning operation reason called)"
  "\<not> is_releasing (Converging plan)" "\<not> is_releasing AwaitOpening" "\<not> is_releasing AwaitAcquires"
  by (simp_all add: is_releasing_def)

definition held_inv :: "nat \<Rightarrow> txn \<Rightarrow> bool" where
  "held_inv t s \<longleftrightarrow> t \<in> set (tx_acquired s) \<and> tx_opening s = NotOpening \<and> tx_acquires s = [] \<and>
     tx_lease s \<in> {None, Some t} \<and> tx_phase s \<notin> {TxIdle, TxOpening} \<and>
     (if tx_releaseClaimed s then at_lease t s = LReleased else tx_lease s = Some t \<and> releasable (at_lease t s)) \<and>
     held_ok (tx_executor s) t s \<and>
     (if tx_executor s = Finished
      then late_ok (tx_late s) (tx_releaseClaimed s) (tx_phase s) (tx_lease s) (tx_quarantine s \<noteq> None)
      else tx_late s = NoLate \<and> tx_releaseClaimed s = is_releasing (tx_executor s))"

definition txn_inv :: "txn \<Rightarrow> bool" where
  "txn_inv s \<longleftrightarrow> common_inv s \<and> (case tx_token s of None \<Rightarrow> free_inv s | Some t \<Rightarrow> held_inv t s)"

lemma txn_inv_new: "txn_inv txn_new"
  by (simp add: txn_inv_def common_inv_def free_inv_def txn_new_def log_inv_def acquired_inv_def acquires_inv_def)

section \<open>While no lease is published\<close>

named_theorems txn_ops

lemmas [txn_ops] = begin_step_def begin_failed_def acquire_settled_def undo_settled_def late_acquire_def
  late_acquire_released_def settleAcquireQuarantineState_def opening_done_def acquires_done_def finish_close_def
  close_step_def claimTerminal_def settleTerminal_def releaseLease_def lease_released_def add_log_def possible_def

lemma txn_inv_free: "tx_token s = None \<Longrightarrow> txn_inv s \<longleftrightarrow> common_inv s \<and> free_inv s"
  by (simp add: txn_inv_def)

lemma txn_inv_held: "tx_token s = Some t \<Longrightarrow> txn_inv s \<longleftrightarrow> common_inv s \<and> held_inv t s"
  by (simp add: txn_inv_def)

lemma held_ok_cong:
  assumes "tx_terminal s' = tx_terminal s" "tx_log s' = tx_log s" "tx_outcome s' = tx_outcome s" "tx_phase s' = tx_phase s"
    "tx_commitInvocations s' = tx_commitInvocations s" "tx_rollbackInvocations s' = tx_rollbackInvocations s"
    "tx_call s' = tx_call s" "(tx_quarantine s' = None) = (tx_quarantine s = None)"
  shows "held_ok e t s' = held_ok e t s"
proof -
  have "plan_ok plan s' = plan_ok plan s" for plan using assms by (cases plan) simp_all
  then show ?thesis using assms by (cases e) simp_all
qed

lemma txn_inv_cong:
  assumes "tx_terminal s' = tx_terminal s" "tx_log s' = tx_log s" "tx_outcome s' = tx_outcome s" "tx_phase s' = tx_phase s"
    "tx_commitInvocations s' = tx_commitInvocations s" "tx_rollbackInvocations s' = tx_rollbackInvocations s"
    "tx_call s' = tx_call s" "(tx_quarantine s' = None) = (tx_quarantine s = None)" "tx_next s' = tx_next s" "tx_token s' = tx_token s"
    "tx_lease s' = tx_lease s" "tx_opening s' = tx_opening s" "tx_acquires s' = tx_acquires s"
    "tx_executor s' = tx_executor s" "tx_releaseClaimed s' = tx_releaseClaimed s" "tx_late s' = tx_late s"
    "tx_acquired s' = tx_acquired s"
  shows "txn_inv s' = txn_inv s"
proof -
  have "free_inv s' = free_inv s" using assms by (simp add: free_inv_def)
  moreover have "held_inv t s' = held_inv t s" for t
    using assms held_ok_cong [of s' s] by (simp add: held_inv_def)
  ultimately show ?thesis using assms by (cases "tx_token s") (simp_all add: txn_inv_def common_inv_def)
qed

lemma control_phase_ne [simp]:
  "control_phase c \<noteq> TxIdle" "control_phase c \<noteq> TxOpening" "control_phase c \<noteq> TxActive" "control_phase c \<noteq> TxCalling"
  "control_phase c \<noteq> TxClosing" "control_phase c \<noteq> TxClosed" "control_phase c \<noteq> TxFailed"
  "TxIdle \<noteq> control_phase c" "TxOpening \<noteq> control_phase c" "TxActive \<noteq> control_phase c" "TxCalling \<noteq> control_phase c"
  by (cases c; simp)+

lemma begin_inv: "txn_inv s \<Longrightarrow> txn_inv (begin_step called s)"
proof (cases "tx_phase s = TxIdle")
  case True
  assume inv: "txn_inv s"
  with True have tok: "tx_token s = None" by (auto simp: txn_inv_def held_inv_def split: option.splits)
  then have c: "common_inv s" and f: "free_inv s" using inv by (simp_all add: txn_inv_free)
  let ?n = "tx_next s"
  have acq: "tx_acquires s = []" "tx_opening s = NotOpening" "?n \<notin> set (tx_acquired s)"
    using c f True by (auto simp: free_inv_def common_inv_def dest: acquired_inv_lt)
  have log: "log_inv (Suc ?n) (tx_log s)" "lease_position ?n (tx_log s) = LFree"
    "acquired_inv (Suc ?n) None (tx_acquired s) (tx_log s)"
    using c tok by (simp_all add: common_inv_def log_inv_Suc log_inv_fresh acquired_inv_Suc)
  then have "log_inv (Suc ?n) (tx_log s @ [AcquireCall ?n])"
    "acquired_inv (Suc ?n) None (tx_acquired s) (tx_log s @ [AcquireCall ?n])"
    using acq by (simp_all add: log_inv_snoc acquired_inv_snoc)
  with log acq f tok True show ?thesis
    by (simp add: begin_step_def txn_inv_free add_log_def Let_def common_inv_def free_inv_def acquires_inv_def)
next
  case False
  assume inv: "txn_inv s"
  let ?s = "s\<lparr>tx_beginCalls := Suc (tx_beginCalls s), tx_beginFailures := Suc (tx_beginFailures s)\<rparr>"
  have "begin_step called s = ?s" using False by (simp add: begin_step_def)
  moreover have "txn_inv ?s = txn_inv s" by (rule txn_inv_cong) simp_all
  ultimately show ?thesis using inv by simp
qed

lemma acquire_inv:
  assumes inv: "txn_inv s"
  shows "txn_inv (acquire_settled r s)"
proof (cases "tx_opening s")
  case (Acquiring n called)
  then have tok: "tx_token s = None" using inv by (auto simp: txn_inv_def held_inv_def split: option.splits)
  then have c: "common_inv s" and f: "free_inv s" using inv by (simp_all add: txn_inv_free)
  have n: "n < tx_next s" "n \<notin> set (tx_acquired s)" "at_lease n s = (if called then LHeld else LFree)"
    "log_inv (tx_next s) (tx_log s)" "acquired_inv (tx_next s) None (tx_acquired s) (tx_log s)" "tx_acquires s = []"
    "tx_phase s = TxOpening \<or> tx_phase s = TxClosing"
    using c f Acquiring tok by (auto simp: common_inv_def free_inv_def dest: free_ok_opening)
  have failed: "txn_inv (begin_failed s)"
    using c f n Acquiring tok by (auto simp: begin_failed_def Let_def txn_inv_free common_inv_def free_inv_def)
  show ?thesis
  proof (cases "possible called r")
    case True
    then show ?thesis
    proof (cases r)
      case (Fulfilled object)
      then have called: "called" using True by (simp add: possible_def)
      show ?thesis
      proof (cases object)
        case obj: True
        show ?thesis
        proof (cases "tx_phase s = TxOpening")
          case True
          have "acquired_inv (tx_next s) (Some n) (tx_acquired s @ [n]) (tx_log s)"
            using n by (intro acquired_inv_add) auto
          then show ?thesis using Fulfilled obj Acquiring called n f True
            by (simp add: acquire_settled_def possible_def Let_def txn_inv_held common_inv_def held_inv_def
                acquires_inv_def releasable_def free_inv_def)
        next
          case False
          let ?log = "tx_log s @ [ReleaseCall n False ByBeginRollback NoOutcome]"
          have "lease_position n ?log = LReleased" using n called by simp
          moreover have "log_inv (tx_next s) ?log" using n called by (intro log_inv_snoc) simp_all
          moreover have "acquired_inv (tx_next s) None (tx_acquired s @ [n]) ?log"
            using n called by (intro acquired_inv_add [where published = None] acquired_inv_snoc) simp_all
          ultimately show ?thesis using Fulfilled obj Acquiring called n f False tok
            by (simp add: acquire_settled_def possible_def releaseLease_def Let_def txn_inv_free common_inv_def
                free_inv_def)
        qed
      qed (use failed Fulfilled True Acquiring in \<open>simp add: acquire_settled_def\<close>)
    next
      case (Detached e)
      then have called: "called" using True by (simp add: possible_def)
      then have "acquires_inv [(n, False)] (tx_next s) (tx_acquired s) (tx_log s)" using n by simp
      then show ?thesis using Detached True Acquiring n f c tok
        by (auto simp: acquire_settled_def begin_failed_def Let_def txn_inv_free common_inv_def free_inv_def)
    qed (use failed True Acquiring in \<open>simp add: acquire_settled_def\<close>)
  qed (use inv Acquiring in \<open>simp add: acquire_settled_def\<close>)
qed (use inv in \<open>simp_all add: acquire_settled_def\<close>)

lemma undo_inv:
  assumes inv: "txn_inv s"
  shows "txn_inv (undo_settled failure s)"
proof (cases "tx_opening s")
  case (UndoingBegin n e)
  then have tok: "tx_token s = None" using inv by (auto simp: txn_inv_def held_inv_def split: option.splits)
  then have c: "common_inv s" and f: "free_inv s" using inv by (simp_all add: txn_inv_free)
  then have "tx_acquires s = []" "tx_phase s = TxClosing" "tx_executor s = AwaitOpening" "tx_terminal s \<noteq> NoTerminal"
    using UndoingBegin by (auto simp: free_inv_def dest: free_ok_undoing)
  with c f tok UndoingBegin show ?thesis
    by (cases failure)
      (simp_all add: undo_settled_def lease_released_def Let_def txn_inv_free common_inv_def free_inv_def)
qed (use inv in \<open>simp_all add: undo_settled_def\<close>)

lemma settle_acquire_inv:
  assumes "common_inv s" and "tx_token s = None" and "free_inv s" and "tx_opening s = NotOpening"
  shows "txn_inv (settleAcquireQuarantineState s)"
  using assms by (auto simp: settleAcquireQuarantineState_def txn_inv_free common_inv_def free_inv_def)

lemma late_acquire_inv:
  assumes inv: "txn_inv s"
  shows "txn_inv (late_acquire n object s)"
proof (cases "(n, False) \<in> set (tx_acquires s)")
  case True
  then have tok: "tx_token s = None" using inv by (auto simp: txn_inv_def held_inv_def split: option.splits)
  then have c: "common_inv s" and f: "free_inv s" using inv by (simp_all add: txn_inv_free)
  then have n: "tx_acquires s = [(n, False)]" "n < tx_next s" "at_lease n s = LHeld" "n \<notin> set (tx_acquired s)"
    "tx_opening s = NotOpening" "log_inv (tx_next s) (tx_log s)"
    "acquired_inv (tx_next s) None (tx_acquired s) (tx_log s)"
    using True tok by (auto simp: common_inv_def acquires_inv_def free_inv_def dest: free_ok_opening)
  show ?thesis
  proof (cases object)
    case obj: True
    let ?log = "tx_log s @ [ReleaseCall n False ByBeginRollback NoOutcome]"
    have "lease_position n ?log = LReleased" using n by simp
    moreover have "log_inv (tx_next s) ?log" using n by (intro log_inv_snoc) simp_all
    moreover have "acquired_inv (tx_next s) None (tx_acquired s @ [n]) ?log"
      using n by (intro acquired_inv_add [where published = None] acquired_inv_snoc) simp_all
    ultimately show ?thesis using obj n f tok
      by (auto simp: late_acquire_def releaseLease_def Let_def txn_inv_free common_inv_def free_inv_def dest: free_ok_more)
  next
    case False
    then show ?thesis using n f tok c
      by (simp add: late_acquire_def, intro settle_acquire_inv)
        (auto simp: common_inv_def free_inv_def dest: free_ok_more)
  qed
qed (use inv in \<open>simp add: late_acquire_def\<close>)

lemma late_acquire_released_inv:
  assumes inv: "txn_inv s"
  shows "txn_inv (late_acquire_released n failure s)"
proof (cases "(n, True) \<in> set (tx_acquires s)")
  case True
  then have tok: "tx_token s = None" using inv by (auto simp: txn_inv_def held_inv_def split: option.splits)
  then have c: "common_inv s" and f: "free_inv s" using inv by (simp_all add: txn_inv_free)
  then have n: "tx_acquires s = [(n, True)]" "tx_opening s = NotOpening"
    using True tok by (auto simp: common_inv_def acquires_inv_def free_inv_def dest: free_ok_opening)
  then show ?thesis using f tok c True
    by (simp add: late_acquire_released_def Let_def, intro settle_acquire_inv)
      (auto simp: common_inv_def free_inv_def acquires_inv_def lease_released_def Let_def split: option.splits
        dest: free_ok_more)
qed (use inv in \<open>simp add: late_acquire_released_def\<close>)

lemma free_settle:
  assumes "common_inv s" and "free_inv s" and "tx_token s = None" and "tx_opening s = NotOpening"
    and "t \<noteq> NoTerminal" and "p = TxFailed \<or> p = TxClosed"
  shows "txn_inv (settleTerminal t (s\<lparr>tx_phase := p\<rparr>))"
  using assms by (auto simp: settleTerminal_def txn_inv_free common_inv_def free_inv_def)

lemma finish_close_inv:
  assumes "common_inv s" and "free_inv s" and "tx_token s = None" and "tx_opening s = NotOpening"
  shows "txn_inv (finish_close s)"
  using assms by (cases "tx_acquireFailure s") (simp_all add: finish_close_def free_settle)

lemma awaiting_free:
  assumes "txn_inv s" and "tx_executor s = AwaitOpening \<or> tx_executor s = AwaitAcquires"
  shows "common_inv s \<and> free_inv s \<and> tx_token s = None \<and> tx_phase s = TxClosing \<and> tx_terminal s \<noteq> NoTerminal \<and>
    (tx_executor s = AwaitAcquires \<longrightarrow> tx_opening s = NotOpening)"
proof -
  have tok: "tx_token s = None" using assms by (auto simp: txn_inv_def held_inv_def split: option.splits)
  with assms(1) have c: "common_inv s" "free_inv s" by (simp_all add: txn_inv_free)
  with assms(2) show ?thesis using tok by (cases "tx_phase s") (auto simp: free_inv_def)
qed

lemma opening_done_inv: "txn_inv s \<Longrightarrow> txn_inv (opening_done s)"
proof (cases "tx_executor s = AwaitOpening \<and> tx_opening s = NotOpening")
  case True
  assume "txn_inv s"
  note a = awaiting_free [OF this]
  show ?thesis
  proof (cases "tx_acquires s = []")
    case False
    with a True show ?thesis by (auto simp: opening_done_def txn_inv_free common_inv_def free_inv_def)
  qed (use a True in \<open>simp add: opening_done_def finish_close_inv\<close>)
qed (auto simp: opening_done_def)

lemma acquires_done_inv: "txn_inv s \<Longrightarrow> txn_inv (acquires_done failure s)"
proof (cases "tx_executor s = AwaitAcquires")
  case True
  assume inv: "txn_inv s"
  with awaiting_free [OF inv] True show ?thesis
    by (cases failure) (simp_all add: acquires_done_def finish_close_inv free_settle)
qed (simp add: acquires_done_def)

section \<open>With a published lease\<close>

definition held_base :: "nat \<Rightarrow> txn \<Rightarrow> bool" where
  "held_base t s \<longleftrightarrow> common_inv s \<and> tx_token s = Some t \<and> t \<in> set (tx_acquired s) \<and> tx_opening s = NotOpening \<and>
     tx_acquires s = [] \<and> tx_lease s = Some t \<and> \<not> tx_releaseClaimed s \<and> tx_late s = NoLate"

lemma held_base_cong:
  assumes "tx_next s' = tx_next s" "tx_log s' = tx_log s" "tx_token s' = tx_token s" "tx_acquired s' = tx_acquired s"
    "tx_opening s' = tx_opening s" "tx_acquires s' = tx_acquires s" "tx_lease s' = tx_lease s"
    "tx_releaseClaimed s' = tx_releaseClaimed s" "tx_late s' = tx_late s"
  shows "held_base t s' = held_base t s"
  using assms by (simp add: held_base_def common_inv_def)

lemma plan_releases:
  assumes "plan_at plan (at_lease t s)" and "plan_ok plan s"
  shows "lease_next t (ReleaseCall t (plan_reusable plan) (plan_reason plan) (plan_outcome plan s)) (at_lease t s) = LReleased"
    and "plan_outcome plan s = tx_outcome s" and "releasable (at_lease t s)"
  using assms by (cases plan; auto simp: releasable_def)+

lemma common_snoc:
  assumes "held_base t s" and "call_token c = t" and "lease_next t c (at_lease t s) \<noteq> LBroken"
  shows "common_inv (s\<lparr>tx_log := tx_log s @ [c]\<rparr>)"
  using assms by (auto simp: held_base_def common_inv_def acquires_inv_def acquired_inv_lt
      intro!: log_inv_snoc acquired_inv_snoc)

lemma release_now_inv:
  assumes base: "held_base t s" and plan: "plan_at plan (at_lease t s)" "plan_ok plan s"
    and s: "tx_terminal s = TerminalPending" "\<forall>c. tx_call s \<noteq> CallRunning c"
  shows "txn_inv (release_now plan s)"
proof -
  let ?c = "ReleaseCall t (plan_reusable plan) (plan_reason plan) (plan_outcome plan s)"
  let ?s = "(releaseLease t (plan_reusable plan) (plan_reason plan) (plan_outcome plan s)
    (s\<lparr>tx_releaseClaimed := True, tx_phase := TxReleasing\<rparr>))\<lparr>tx_executor := Releasing plan\<rparr>"
  note r = plan_releases [OF plan]
  have "release_now plan s = ?s" using base by (simp add: release_now_def releasePublishedLease_def held_base_def)
  moreover have "common_inv ?s"
    using common_snoc [OF base, of ?c] r(1)
    by (cases "plan_reusable plan") (simp_all add: releaseLease_def Let_def common_inv_def)
  moreover have "at_lease t ?s = LReleased"
    using r(1) by (cases "plan_reusable plan") (simp_all add: releaseLease_def Let_def del: lease_next.simps)
  moreover have "plan_ok plan ?s" using plan(2) by (cases plan) (simp_all add: releaseLease_def Let_def)
  moreover have "ReleaseCall t (plan_reusable plan) (plan_reason plan) (tx_outcome s) \<in> set (tx_log ?s)"
    using r(2) by (simp add: releaseLease_def Let_def)
  ultimately show ?thesis using base s
    by (auto simp: releaseLease_def Let_def txn_inv_held held_base_def held_inv_def
        simp del: lease_position_simps)
qed

lemma prepare_inv:
  assumes base: "held_base t s" and plan: "plan_at plan (at_lease t s)" "plan_ok plan s"
    and s: "tx_terminal s = TerminalPending" "\<forall>c. tx_call s \<noteq> CallRunning c"
      "tx_phase s \<notin> {TxActive, TxCalling, TxClosed, TxIdle, TxOpening}"
  shows "txn_inv (prepareReleaseAfterQuarantine plan s)"
proof (cases "tx_quarantine s")
  case None
  then show ?thesis using release_now_inv [OF base plan s(1,2)] by (simp add: prepareReleaseAfterQuarantine_def)
next
  case (Some n)
  have "plan_ok plan (s\<lparr>tx_executor := Converging plan\<rparr>)" using plan(2) by (cases plan) simp_all
  then show ?thesis using base plan plan_releases(3) [OF plan] s Some
    by (auto simp: prepareReleaseAfterQuarantine_def txn_inv_held held_base_def held_inv_def common_inv_def)
qed

lemma finishControl_inv:
  assumes base: "held_base t s" and s: "at_lease t s = LHeld" "tx_terminal s = TerminalPending" "tx_call s = NoCall"
      "tx_commitInvocations s + tx_rollbackInvocations s = 0"
  shows "txn_inv (finishControl operation reason called s)"
proof -
  have "common_inv (s\<lparr>tx_log := tx_log s @ [InvokeCall t (Control operation)]\<rparr>)"
    using s by (intro common_snoc [OF base]) simp_all
  then show ?thesis using base s
    by (cases called; cases operation)
      (simp_all add: finishControl_def add_log_def txn_inv_held held_base_def held_inv_def common_inv_def releasable_def)
qed

lemma held_cases:
  assumes "txn_inv s" and "tx_executor s \<notin> {NoExecutor, AwaitOpening, AwaitAcquires, Finished}"
  obtains t where "tx_token s = Some t" "held_inv t s" "common_inv s"
proof (cases "tx_token s")
  case None
  with assms show ?thesis by (cases "tx_phase s") (auto simp: txn_inv_free free_inv_def)
qed (use assms that in \<open>auto simp: txn_inv_held\<close>)

lemma held_inv_base: "held_inv t s \<Longrightarrow> tx_token s = Some t \<Longrightarrow> common_inv s \<Longrightarrow> \<not> tx_releaseClaimed s \<Longrightarrow> tx_late s = NoLate \<Longrightarrow>
    held_base t s"
  by (simp add: held_inv_def held_base_def)

lemma control_settled_inv:
  assumes inv: "txn_inv s"
  shows "txn_inv (control_settled r called s)"
proof (cases "tx_executor s")
  case (ControlRunning operation reason invoked)
  then obtain t where t: "tx_token s = Some t" "held_inv t s" "common_inv s" using held_cases [OF inv] by auto
  have base: "held_base t s" using t ControlRunning by (intro held_inv_base) (simp_all add: held_inv_def)
  have h: "tx_terminal s = TerminalPending" "at_lease t s = (if invoked then LControlled operation else LHeld)"
    "tx_call s = NoCall" "tx_phase s = control_phase operation"
    "if operation = Commit then tx_commitInvocations s = 1 \<and> tx_rollbackInvocations s = 0
     else tx_commitInvocations s = 0 \<and> tx_rollbackInvocations s = 1"
    using t(2) ControlRunning by (simp_all add: held_inv_def)
  show ?thesis
  proof (cases "possible invoked r")
    case True
    let ?s = "track_detached r s"
    have s': "held_base t ?s" "tx_terminal ?s = TerminalPending" "tx_log ?s = tx_log s" "tx_call ?s = NoCall"
      "tx_phase ?s = tx_phase s" "tx_commitInvocations ?s = tx_commitInvocations s"
      "tx_rollbackInvocations ?s = tx_rollbackInvocations s" "tx_lease ?s = Some t"
      using base h by (cases r; simp add: track_detached_def trackOperationQuarantine_def held_base_def common_inv_def)+
    have release: "txn_inv (prepareReleaseAfterQuarantine (ReleaseOnly (Some e) why out) u)"
      if "out = Ambiguous \<or> out = Rejected" "held_base t u = held_base t ?s" "tx_terminal u = tx_terminal ?s"
        "tx_log u = tx_log ?s" "tx_outcome u = out" "tx_call u = tx_call ?s" "tx_phase u = tx_phase ?s"
        "tx_commitInvocations u = tx_commitInvocations s" "tx_rollbackInvocations u = tx_rollbackInvocations s" for out e why u
    proof (rule prepare_inv)
      show "held_base t u" using s'(1) that(2) by simp
      show "plan_ok (ReleaseOnly (Some e) why out) u" using that h(5) by (auto split: if_splits)
    qed (use that s' h in \<open>simp_all\<close>)
    have rejected: "txn_inv (prepareReleaseAfterQuarantine (ReleaseOnly (Some e) ByControlRejected Rejected)
        (?s\<lparr>tx_outcome := Rejected, tx_bapiRejections := Suc (tx_bapiRejections ?s)\<rparr>))" for e
      by (rule release; (rule held_base_cong)?; simp add: s')
    have ambiguous: "txn_inv (prepareReleaseAfterQuarantine (ReleaseOnly (Some e) ByAmbiguous Ambiguous)
        (?s\<lparr>tx_outcome := Ambiguous, tx_ambiguousFailures := Suc (tx_ambiguousFailures ?s)\<rparr>))" for e
      by (rule release; (rule held_base_cong)?; simp add: s')
    show ?thesis
    proof (cases "settlement_error (control_error operation) r")
      case None
      then have "invoked" using True by (cases r) (simp_all add: settlement_error_def possible_def)
      moreover have "common_inv (?s\<lparr>tx_log := tx_log ?s @ [ResetCall t]\<rparr>)" if invoked
        using s' h that by (intro common_snoc [OF s'(1)]) simp_all
      ultimately show ?thesis using None True ControlRunning s' h
        by (cases called) (auto simp: control_settled_def add_log_def Let_def txn_inv_held held_base_def held_inv_def
          common_inv_def)
    next
      case (Some e)
      with rejected ambiguous True ControlRunning show ?thesis by (cases e) (simp_all add: control_settled_def Let_def)
    qed
  qed (use inv ControlRunning in \<open>simp add: control_settled_def\<close>)
qed (use inv in \<open>simp_all add: control_settled_def\<close>)

lemma track_detached_same:
  "tx_terminal (track_detached r s) = tx_terminal s" "tx_log (track_detached r s) = tx_log s"
  "tx_call (track_detached r s) = tx_call s" "tx_phase (track_detached r s) = tx_phase s"
  "tx_outcome (track_detached r s) = tx_outcome s" "tx_executor (track_detached r s) = tx_executor s"
  "tx_commitInvocations (track_detached r s) = tx_commitInvocations s"
  "tx_rollbackInvocations (track_detached r s) = tx_rollbackInvocations s"
  "tx_disposition (track_detached r s) = tx_disposition s" "tx_lease (track_detached r s) = tx_lease s"
  "held_base t (track_detached r s) = held_base t s"
  by (cases r; simp add: track_detached_def trackOperationQuarantine_def held_base_def common_inv_def)+

lemma reset_settled_inv:
  assumes inv: "txn_inv s"
  shows "txn_inv (reset_settled_step r s)"
proof (cases "tx_executor s")
  case (ResetRunning operation reason called)
  then obtain t where t: "tx_token s = Some t" "held_inv t s" "common_inv s" using held_cases [OF inv] by auto
  have base: "held_base t s" using t ResetRunning by (intro held_inv_base) (simp_all add: held_inv_def)
  have h: "tx_terminal s = TerminalPending" "at_lease t s = (if called then LReset operation else LControlled operation)"
    "tx_call s = NoCall" "tx_phase s = TxResetting" "plan_ok (AfterControl operation reason []) s"
    using t(2) ResetRunning by (simp_all add: held_inv_def)
  show ?thesis
  proof (cases "possible called r")
    case True
    let ?s = "track_detached r s"
    show ?thesis
    proof (cases "settlement_error (\<lambda>_. None) r")
      case None
      then have "called" using True by (cases r) (simp_all add: settlement_error_def possible_def)
      then have "txn_inv (prepareReleaseAfterQuarantine (AfterControl operation reason []) ?s)"
        using base h by (intro prepare_inv) (simp_all add: track_detached_same)
      then show ?thesis using ResetRunning True None by (simp add: reset_settled_step_def Let_def)
    next
      case (Some e)
      let ?u = "?s\<lparr>tx_resetFailures := Suc (tx_resetFailures ?s)\<rparr>"
      have "held_base t ?u = held_base t ?s" by (rule held_base_cong) simp_all
      then have "txn_inv (prepareReleaseAfterQuarantine (AfterControl operation reason [e]) ?u)"
        using base h by (intro prepare_inv [where t = t]) (simp_all add: track_detached_same)
      then show ?thesis using ResetRunning True Some by (simp add: reset_settled_step_def Let_def)
    qed
  qed (use inv ResetRunning in \<open>simp add: reset_settled_step_def\<close>)
qed (use inv in \<open>simp_all add: reset_settled_step_def\<close>)

lemma plan_terminal_fails: "errors \<noteq> [] \<Longrightarrow> \<exists>e. plan_terminal plan errors s = TerminalRejected e"
  by (cases plan) (auto simp: raiseTerminalFailure_def split: option.split)

lemma plan_ok_counts:
  "plan_ok plan s \<Longrightarrow> tx_commitInvocations s + tx_rollbackInvocations s \<le> 1 \<and>
    tx_outcome s \<in> {Committed, RolledBack, Ambiguous, Rejected} \<and>
    (tx_outcome s = Committed \<longrightarrow> tx_commitInvocations s = 1) \<and> (tx_outcome s = RolledBack \<longrightarrow> tx_rollbackInvocations s = 1)"
proof (cases plan)
  case (AfterControl operation reason cleanup)
  then show "plan_ok plan s \<Longrightarrow> ?thesis" by (cases operation) auto
qed (auto split: if_splits)

lemma terminal_cases: "plan_terminal plan errors s = TerminalResolved \<or> (\<exists>e. plan_terminal plan errors s = TerminalRejected e)"
  by (cases plan) (auto simp: raiseTerminalFailure_def split: option.split)

lemma converged_inv:
  assumes inv: "txn_inv s"
  shows "txn_inv (converged failure s)"
proof (cases "tx_executor s")
  case (Converging plan)
  then obtain t where t: "tx_token s = Some t" "held_inv t s" "common_inv s" using held_cases [OF inv] by auto
  have base: "held_base t s" using t Converging by (intro held_inv_base) (simp_all add: held_inv_def)
  have h: "tx_terminal s = TerminalPending" "plan_at plan (at_lease t s)" "plan_ok plan s"
    "\<forall>c. tx_call s \<noteq> CallRunning c" "tx_quarantine s \<noteq> None"
    using t(2) Converging by (simp_all add: held_inv_def)
  show ?thesis
  proof (cases failure)
    case None
    let ?u = "s\<lparr>tx_quarantine := None\<rparr>"
    have "held_base t ?u = held_base t s" "plan_ok plan ?u = plan_ok plan s"
      by (rule held_base_cong; simp) (cases plan; simp)
    then have "txn_inv (release_now plan ?u)" using base h by (intro release_now_inv [where t = t]) simp_all
    then show ?thesis using Converging None inv by (simp add: converged_def)
  next
    case (Some e)
    obtain f where "plan_terminal plan [e]
        ((startLateRelease (plan_reason plan) (plan_outcome plan s) s)\<lparr>tx_phase := TxFailed\<rparr>) = TerminalRejected f"
      using plan_terminal_fails by blast
    then show ?thesis using Converging Some t base h plan_releases(3) [OF h(2,3)] plan_ok_counts [OF h(3)]
      by (auto simp: converged_def startLateRelease_def settleTerminal_def Let_def txn_inv_held held_inv_def
          held_base_def common_inv_def honest_end_def split: call_phase.split)
  qed
qed (use inv in \<open>simp_all add: converged_def\<close>)

lemma complete_inv:
  assumes "common_inv s" "tx_token s = Some t" "t \<in> set (tx_acquired s)" "tx_opening s = NotOpening" "tx_acquires s = []"
    "tx_releaseClaimed s" "at_lease t s = LReleased" "tx_late s = NoLate" "\<forall>c. tx_call s \<noteq> CallRunning c"
    and honest: "honest_end result (tx_commitInvocations s) (tx_rollbackInvocations s) (tx_outcome s) t (tx_log s)"
  shows "txn_inv (settleTerminal result (finishClosed s))"
proof -
  define u where "u = settleTerminal result (finishClosed s)"
  have u: "tx_token u = Some t" "tx_log u = tx_log s" "tx_next u = tx_next s" "tx_acquired u = tx_acquired s"
    "tx_opening u = NotOpening" "tx_acquires u = []" "tx_releaseClaimed u" "tx_lease u = None" "tx_phase u = TxClosed"
    "tx_terminal u = result" "tx_executor u = Finished" "tx_late u = NoLate" "tx_call u = NoCall" "tx_outcome u = tx_outcome s"
    "tx_commitInvocations u = tx_commitInvocations s" "tx_rollbackInvocations u = tx_rollbackInvocations s"
    unfolding u_def using assms(1-9)
    by (cases "tx_call s"; simp add: settleTerminal_def finishClosed_def)+
  with honest assms(1-9) have "common_inv u" "held_inv t u"
    by (simp_all add: common_inv_def held_inv_def)
  with u(1) show ?thesis by (simp add: txn_inv_held flip: u_def)
qed

lemma plan_honest:
  assumes "plan_ok plan s" and "ReleaseCall t (plan_reusable plan) (plan_reason plan) (tx_outcome s) \<in> set (tx_log s)"
    and "tx_outcome u = tx_outcome s"
  shows "honest_end (plan_terminal plan errors u) (tx_commitInvocations s) (tx_rollbackInvocations s) (tx_outcome s) t (tx_log s)"
proof (cases plan)
  case (AfterControl operation reason cleanup)
  with assms show ?thesis
    by (cases operation; cases "cleanup @ errors") (auto simp: honest_end_def reused_def raiseTerminalFailure_def)
next
  case (ReleaseOnly primary reason outcome)
  with assms show ?thesis
    by (cases primary; cases errors) (auto simp: honest_end_def reused_def raiseTerminalFailure_def)
qed

lemma release_settled_inv:
  assumes inv: "txn_inv s"
  shows "txn_inv (release_settled failure s)"
proof (cases "tx_executor s")
  case (Releasing plan)
  then obtain t where t: "tx_token s = Some t" "held_inv t s" "common_inv s" using held_cases [OF inv] by auto
  have h: "tx_releaseClaimed s" "at_lease t s = LReleased" "plan_ok plan s" "tx_late s = NoLate"
    "\<forall>c. tx_call s \<noteq> CallRunning c" "t \<in> set (tx_acquired s)" "tx_opening s = NotOpening" "tx_acquires s = []"
    "ReleaseCall t (plan_reusable plan) (plan_reason plan) (tx_outcome s) \<in> set (tx_log s)"
    using t(2) Releasing by (simp_all add: held_inv_def)
  let ?errors = "case failure of None \<Rightarrow> [] | Some e \<Rightarrow> [e]" and ?u = "lease_released True failure s"
  have same: "tx_log ?u = tx_log s" "tx_outcome ?u = tx_outcome s" "tx_next ?u = tx_next s" "tx_token ?u = tx_token s"
    "tx_acquired ?u = tx_acquired s" "tx_opening ?u = tx_opening s" "tx_acquires ?u = tx_acquires s" "tx_late ?u = tx_late s"
    "tx_commitInvocations ?u = tx_commitInvocations s" "tx_rollbackInvocations ?u = tx_rollbackInvocations s"
    "tx_releaseClaimed ?u = tx_releaseClaimed s" "tx_call ?u = tx_call s"
    by (simp_all add: lease_released_def Let_def split: option.split)
  have "txn_inv (settleTerminal (plan_terminal plan ?errors ?u) (finishClosed ?u))"
    using t(1,3) h plan_honest [OF h(3,9) same(2)] by (intro complete_inv) (simp_all add: same common_inv_def)
  then show ?thesis using Releasing by (simp add: release_settled_def complete_plan_def)
qed (use inv in \<open>simp_all add: release_settled_def\<close>)

lemma operation_settled_inv: "txn_inv s \<Longrightarrow> txn_inv (operation_settled s)"
  by (subst txn_inv_cong [of _ s]) (simp_all add: operation_settled_def split: option.split nat.split)

lemma late_held:
  assumes "txn_inv s" and "tx_late s \<noteq> NoLate"
  obtains t where "tx_token s = Some t" "held_inv t s" "common_inv s" "tx_executor s = Finished"
proof (cases "tx_token s")
  case (Some t)
  with assms that show ?thesis by (auto simp: txn_inv_held held_inv_def split: if_splits)
qed (use assms in \<open>simp add: txn_inv_free free_inv_def\<close>)

lemma late_start_inv:
  assumes inv: "txn_inv s"
  shows "txn_inv (late_start s)"
proof (cases "tx_late s")
  case (LateWaiting reason outcome)
  then obtain t where t: "tx_token s = Some t" "held_inv t s" "common_inv s" "tx_executor s = Finished"
    using late_held [OF inv] by auto
  have h: "\<not> tx_releaseClaimed s" "tx_lease s = Some t" "releasable (at_lease t s)" "terminal_honest t s" "tx_call s = NoCall"
    "t \<in> set (tx_acquired s)" "tx_opening s = NotOpening" "tx_acquires s = []"
    using t(2,4) LateWaiting by (auto simp: held_inv_def)
  show ?thesis
  proof (cases "tx_quarantine s = Some 0")
    case True
    let ?c = "ReleaseCall t False reason outcome"
    have r: "lease_next t ?c (at_lease t s) = LReleased" using h(3) by (auto simp: releasable_def)
    have inv: "log_inv (tx_next s) (tx_log s)" "acquired_inv (tx_next s) (Some t) (tx_acquired s) (tx_log s)"
      using t(1,3) by (simp_all add: common_inv_def)
    then have "t < tx_next s" using h(6) acquired_inv_lt by blast
    then have "log_inv (tx_next s) (tx_log s @ [?c])"
      "acquired_inv (tx_next s) (Some t) (tx_acquired s) (tx_log s @ [?c])"
      using log_inv_snoc [OF inv(1), of ?c] acquired_inv_snoc [OF inv(2), of ?c] r by simp_all
    moreover have "honest_end (tx_terminal s) (tx_commitInvocations s) (tx_rollbackInvocations s) (tx_outcome s) t
        (tx_log s @ [?c])" using h(4) by (rule honest_end_snoc)
    ultimately show ?thesis using LateWaiting True t h r
      by (simp add: late_start_def releasePublishedLease_def releaseLease_def Let_def txn_inv_held held_inv_def
          common_inv_def del: lease_next.simps)
  qed (use inv LateWaiting in \<open>simp add: late_start_def\<close>)
qed (use inv in \<open>simp_all add: late_start_def\<close>)

lemma late_settled_inv:
  assumes inv: "txn_inv s"
  shows "txn_inv (late_settled failure s)"
proof (cases "tx_late s = LateReleasing")
  case True
  then obtain t where t: "tx_token s = Some t" "held_inv t s" "common_inv s" "tx_executor s = Finished"
    using late_held [OF inv] by auto
  with True show ?thesis
    by (cases failure) (simp_all add: late_settled_def lease_released_def finishClosed_def Let_def txn_inv_held
        held_inv_def common_inv_def)
qed (use inv in \<open>simp add: late_settled_def\<close>)

section \<open>Calls and the end of a transaction\<close>

lemma active_held:
  assumes "txn_inv s" and "tx_phase s = TxActive \<or> tx_phase s = TxCalling \<or> tx_call s \<noteq> NoCall \<and> tx_executor s = NoExecutor"
  obtains t where "tx_token s = Some t" "held_base t s" "tx_executor s = NoExecutor" "held_ok NoExecutor t s"
proof (cases "tx_token s")
  case None
  with assms show ?thesis by (auto simp: txn_inv_free free_inv_def)
next
  case (Some t)
  then have h: "held_inv t s" "common_inv s" using assms(1) by (simp_all add: txn_inv_held)
  then have "tx_executor s = NoExecutor"
    using assms(2) by (cases "tx_executor s"; cases "tx_late s") (auto simp: held_inv_def)
  then show ?thesis using that [of t] Some h by (simp add: held_inv_def held_base_def)
qed

lemma call_step_inv:
  assumes inv: "txn_inv s"
  shows "txn_inv (snd (call_step token invalid called s))"
proof (cases "first_error (requireToken token s) (first_error
        (if tx_phase s = TxCalling then Some (RuntimeError ''CONCURRENT_TRANSACTION_OPERATION'') else None)
        (first_error (requireState TxActive s) invalid))")
  case None
  then have active: "tx_phase s = TxActive"
    by (auto simp: first_error_def requireState_def split: option.splits if_splits)
  obtain t where t: "tx_token s = Some t" "held_base t s" "tx_executor s = NoExecutor" "held_ok NoExecutor t s"
    using active_held [OF inv] active by auto
  have "common_inv (s\<lparr>tx_log := tx_log s @ [InvokeCall t Business]\<rparr>)"
    using t by (intro common_snoc [OF t(2)]) simp_all
  then show ?thesis using None t active
    by (cases called) (auto simp: call_step_def add_log_def txn_inv_held held_inv_def held_base_def common_inv_def)
qed (use inv in \<open>simp add: call_step_def\<close>)

lemma control_step_inv:
  assumes inv: "txn_inv s"
  shows "txn_inv (snd (control_step operation token called s))"
proof -
  define u where "u = (case operation of Commit \<Rightarrow> s\<lparr>tx_commitCalls := Suc (tx_commitCalls s)\<rparr>
      | Rollback \<Rightarrow> s\<lparr>tx_rollbackCalls := Suc (tx_rollbackCalls s)\<rparr>)"
  have "txn_inv u = txn_inv s" unfolding u_def by (cases operation; simp; rule txn_inv_cong; simp)
  with inv have inv: "txn_inv u" by simp
  show ?thesis
  proof (cases "first_error (requireToken token u) (requireState TxActive u)")
    case None
    then have active: "tx_phase u = TxActive"
      by (auto simp: first_error_def requireState_def split: option.splits if_splits)
    obtain t where t: "tx_token u = Some t" "held_base t u" "tx_executor u = NoExecutor" "held_ok NoExecutor t u"
      using active_held [OF inv] active by auto
    let ?v = "u\<lparr>tx_phase := control_phase operation, tx_terminal := TerminalPending\<rparr>"
    have "held_base t ?v = held_base t u" by (rule held_base_cong) simp_all
    then have "txn_inv (finishControl operation (if operation = Commit then ByCommit else ByRollback) called ?v)"
      using t active by (intro finishControl_inv [where t = t]) auto
    then show ?thesis using None t by (simp add: control_step_def claimTerminal_def Let_def flip: u_def)
  qed (use inv in \<open>simp add: control_step_def Let_def flip: u_def\<close>)
qed

lemma closeDuringCall_inv:
  assumes inv: "txn_inv s" and "tx_phase s = TxCalling"
  shows "txn_inv (closeDuringCall s)"
proof -
  obtain t where "tx_token s = Some t" "held_base t s" "tx_executor s = NoExecutor" "held_ok NoExecutor t s"
    using active_held [OF inv] assms(2) by auto
  then show ?thesis using assms(2)
    by (auto simp: closeDuringCall_def claimTerminal_def txn_inv_held held_inv_def held_base_def common_inv_def)
qed

lemma cancel_inv:
  assumes inv: "txn_inv s"
  shows "txn_inv (snd (cancel_step token s))"
proof -
  have "txn_inv (s\<lparr>tx_cancelCalls := Suc (tx_cancelCalls s)\<rparr>) = txn_inv s" by (rule txn_inv_cong) simp_all
  with inv show ?thesis
    by (auto simp: cancel_step_def Let_def first_error_def requireState_def intro!: closeDuringCall_inv
        split: option.splits if_splits)
qed

lemma abort_inv: "txn_inv s \<Longrightarrow> txn_inv (snd (abort_transaction token called s))"
  by (simp add: abort_transaction_def cancel_inv control_step_inv split: option.split)

lemma close_inv:
  assumes inv: "txn_inv s"
  shows "txn_inv (snd (close_step called s))"
proof -
  define u where "u = s\<lparr>tx_closeCalls := Suc (tx_closeCalls s)\<rparr>"
  have "txn_inv u = txn_inv s" unfolding u_def by (rule txn_inv_cong) simp_all
  with inv have inv: "txn_inv u" by simp
  have step: "close_step called s =
     (if tx_terminal u \<noteq> NoTerminal then (Inr (), u)
     else if tx_phase u = TxIdle then (Inr (), u\<lparr>tx_phase := TxClosed, tx_terminal := TerminalResolved\<rparr>)
     else if tx_phase u = TxOpening
     then (Inr (), claimTerminal (\<lambda>s. s\<lparr>tx_executor := AwaitOpening\<rparr>) (u\<lparr>tx_phase := TxClosing\<rparr>))
     else if tx_phase u = TxCalling then (Inr (), closeDuringCall u)
     else if tx_phase u = TxActive
     then (Inr (), claimTerminal (finishControl Rollback ByCloseRollback called) (u\<lparr>tx_phase := TxClosing\<rparr>))
     else if tx_phase u = TxClosed then (Inr (), u\<lparr>tx_terminal := TerminalResolved\<rparr>)
     else if tx_phase u = TxFailed \<and> tx_token u = None
     then (Inr (), claimTerminal (\<lambda>s. s\<lparr>tx_executor := AwaitOpening\<rparr>) (u\<lparr>tx_phase := TxClosing\<rparr>))
     else (Inl (RuntimeError ''INVALID_TRANSACTION_STATE''), u))"
    unfolding close_step_def Let_def u_def [symmetric] ..
  show ?thesis
  proof (cases "tx_token u")
    case None
    with inv show ?thesis unfolding step
      by (cases "tx_phase u") (auto simp: txn_inv_free common_inv_def free_inv_def claimTerminal_def)
  next
    case (Some t)
    then have h: "held_inv t u" "common_inv u" using inv by (simp_all add: txn_inv_held)
    show ?thesis
    proof (cases "tx_terminal u = NoTerminal")
      case True
      then have x: "tx_executor u = NoExecutor" using h(1)
        by (cases "tx_executor u") (auto simp: held_inv_def honest_end_def)
      then have base: "held_base t u" using h Some by (simp add: held_inv_def held_base_def)
      show ?thesis
      proof (cases "tx_phase u = TxActive")
        case active: True
        let ?v = "u\<lparr>tx_phase := TxClosing, tx_terminal := TerminalPending\<rparr>"
        have "held_base t ?v = held_base t u" by (rule held_base_cong) simp_all
        then have "txn_inv (finishControl Rollback ByCloseRollback called ?v)"
          using h(1) x active base by (intro finishControl_inv [where t = t]) (auto simp: held_inv_def)
        then show ?thesis using True active by (simp add: step claimTerminal_def)
      next
        case False
        then have "tx_phase u = TxCalling" using h(1) x by (simp add: held_inv_def)
        then show ?thesis using True closeDuringCall_inv [OF inv] by (simp add: step)
      qed
    qed (use inv in \<open>simp add: step\<close>)
  qed
qed

lemma call_done_inv:
  assumes inv: "txn_inv s"
  shows "txn_inv (call_done called s)"
proof (cases "tx_executor s = AwaitCall \<and> tx_call s = NoCall")
  case True
  then obtain t where t: "tx_token s = Some t" "held_inv t s" "common_inv s" using held_cases [OF inv] by auto
  have base: "held_base t s" using t True by (intro held_inv_base) (simp_all add: held_inv_def)
  have h: "tx_terminal s = TerminalPending" "at_lease t s = LHeld" "tx_phase s = TxClosing"
    "tx_commitInvocations s + tx_rollbackInvocations s = 0"
    using t(2) True by (simp_all add: held_inv_def)
  have "held_base t (s\<lparr>tx_outcome := Ambiguous\<rparr>) = held_base t s" by (rule held_base_cong) simp_all
  then have "txn_inv (prepareReleaseAfterQuarantine (ReleaseOnly None ByAmbiguous Ambiguous) (s\<lparr>tx_outcome := Ambiguous\<rparr>))"
    using base h True by (intro prepare_inv [where t = t]) simp_all
  then show ?thesis using True finishControl_inv [OF base, of Rollback ByCloseRollback called] h
    by (simp add: call_done_def)
qed (use inv in \<open>auto simp: call_done_def\<close>)

lemma calling_held:
  assumes inv: "txn_inv s" and call: "tx_call s = CallRunning c"
  obtains t where "tx_token s = Some t" "held_base t s" "at_lease t s = LHeld" "tx_outcome s = OutcomeActive"
    "tx_commitInvocations s = 0" "tx_rollbackInvocations s = 0"
    "tx_executor s = NoExecutor \<and> tx_phase s = TxCalling \<and> tx_terminal s = NoTerminal \<or>
     tx_executor s = AwaitCall \<and> tx_phase s = TxClosing \<and> tx_terminal s = TerminalPending"
proof (cases "tx_token s")
  case None
  with assms show ?thesis by (simp add: txn_inv_free free_inv_def)
next
  case (Some t)
  then have h: "held_inv t s" "common_inv s" using inv by (simp_all add: txn_inv_held)
  then have "tx_executor s = NoExecutor \<or> tx_executor s = AwaitCall"
    using call by (cases "tx_executor s") (auto simp: held_inv_def)
  then show ?thesis using that [of t] Some h call by (auto simp: held_inv_def held_base_def)
qed

lemma call_failed_inv:
  assumes base: "held_base t s" and at: "at_lease t s = LHeld"
    and none: "tx_commitInvocations s = 0" "tx_rollbackInvocations s = 0" and out: "tx_outcome s = OutcomeActive"
    and state: "tx_executor s = NoExecutor \<and> tx_phase s = TxCalling \<and> tx_terminal s = NoTerminal \<or>
     tx_executor s = AwaitCall \<and> tx_phase s = TxClosing \<and> tx_terminal s = TerminalPending"
  shows "txn_inv (call_failed e answer s)"
proof (cases "tx_phase s = TxClosing")
  case True
  then show ?thesis using base at none out state
    by (auto simp: call_failed_def call_returns_def Let_def txn_inv_held held_inv_def held_base_def common_inv_def)
next
  case False
  define u where "u = s\<lparr>tx_businessFailures := Suc (tx_businessFailures s)\<rparr>"
  define chosen where "chosen = (if e = operation_timeout then (e, False)
             else (case answer of Recoverable \<Rightarrow> (e, True) | NotRecoverable \<Rightarrow> (e, False)
               | ClassifierThrew e' \<Rightarrow> (AggregateErrors [e, e'], False)))"
  obtain failure recoverable where c: "chosen = (failure, recoverable)" by (cases chosen)
  have u: "held_base t u" "at_lease t u = LHeld" "tx_commitInvocations u = 0" "tx_rollbackInvocations u = 0"
    "tx_outcome u = OutcomeActive" "tx_executor u = NoExecutor" "tx_phase u = TxCalling" "tx_terminal u = NoTerminal"
    using base at none out state False by (auto simp: u_def held_base_def common_inv_def)
  have step: "call_failed e answer s = (if recoverable then call_returns (Some failure) (u\<lparr>tx_phase := TxActive\<rparr>)
          else claimTerminal (prepareReleaseAfterQuarantine (ReleaseOnly None ByAmbiguous Ambiguous))
            (u\<lparr>tx_ambiguousFailures := Suc (tx_ambiguousFailures u), tx_outcome := Ambiguous, tx_phase := TxFailed,
               tx_call := CallEvicting failure\<rparr>))"
    using False unfolding call_failed_def Let_def u_def [symmetric] chosen_def [symmetric] c by (simp add: u_def)
  show ?thesis
  proof (cases recoverable)
    case True
    then show ?thesis using u unfolding step
      by (auto simp: call_returns_def txn_inv_held held_inv_def held_base_def common_inv_def)
  next
    case False
    let ?v = "u\<lparr>tx_ambiguousFailures := Suc (tx_ambiguousFailures u), tx_outcome := Ambiguous, tx_phase := TxFailed,
               tx_call := CallEvicting failure, tx_terminal := TerminalPending\<rparr>"
    have "held_base t ?v = held_base t u" by (rule held_base_cong) simp_all
    then have "txn_inv (prepareReleaseAfterQuarantine (ReleaseOnly None ByAmbiguous Ambiguous) ?v)"
      using u by (intro prepare_inv [where t = t]) simp_all
    then show ?thesis using False u(8) by (simp add: step claimTerminal_def)
  qed
qed

lemma call_settled_inv:
  assumes inv: "txn_inv s"
  shows "txn_inv (call_settled r answer s)"
proof (cases "tx_call s")
  case (CallRunning called)
  obtain t where t: "tx_token s = Some t" "held_base t s" "at_lease t s = LHeld" "tx_outcome s = OutcomeActive"
    "tx_commitInvocations s = 0" "tx_rollbackInvocations s = 0"
    "tx_executor s = NoExecutor \<and> tx_phase s = TxCalling \<and> tx_terminal s = NoTerminal \<or>
     tx_executor s = AwaitCall \<and> tx_phase s = TxClosing \<and> tx_terminal s = TerminalPending"
    by (rule calling_held [OF inv CallRunning])
  let ?s = "track_detached r s"
  note same = track_detached_same [where r = r and s = s]
  show ?thesis
  proof (cases "settlement_error (\<lambda>object. if object then None else Some invalid_control_result) r")
    case None
    have "held_base t (?s\<lparr>tx_disposition := Some Stable\<rparr>) = held_base t ?s" by (rule held_base_cong) simp_all
    then have "txn_inv (call_failed e answer (?s\<lparr>tx_disposition := Some Stable\<rparr>))" for e
      using t same by (intro call_failed_inv [where t = t]) simp_all
    moreover have "txn_inv (call_returns None (?s\<lparr>tx_phase := TxActive\<rparr>))" if "tx_phase s \<noteq> TxClosing"
    proof -
      have b: "held_base t ?s" using t(2) same by simp
      show ?thesis using that b t(3-7) same
        by (auto simp: call_returns_def txn_inv_held held_inv_def held_base_def common_inv_def)
    qed
    ultimately show ?thesis using None CallRunning inv same by (simp add: call_settled_def Let_def)
  next
    case (Some e)
    have "txn_inv (call_failed e answer ?s)" using t same by (intro call_failed_inv [where t = t]) simp_all
    then show ?thesis using Some CallRunning inv by (simp add: call_settled_def Let_def)
  qed
qed (use inv in \<open>simp_all add: call_settled_def\<close>)

theorem txn_inv_step: "txn_inv s \<Longrightarrow> txn_inv (txn_step e s)"
  by (cases e) (simp_all add: begin_inv acquire_inv undo_inv late_acquire_inv late_acquire_released_inv call_step_inv
      call_settled_inv control_step_inv cancel_inv abort_inv close_inv opening_done_inv acquires_done_inv call_done_inv
      control_settled_inv reset_settled_inv converged_inv release_settled_inv operation_settled_inv late_start_inv
      late_settled_inv)

lemma txn_inv_run: "txn_inv (txn_run es)"
proof -
  have "txn_inv s \<Longrightarrow> txn_inv (fold txn_step es s)" for s
    by (induction es arbitrary: s) (simp_all add: txn_inv_step)
  then show ?thesis by (simp add: txn_run_def txn_inv_new)
qed

end
