(* ===== verification/TransactionAnswers.thy ===== *)
theory TransactionAnswers
  imports TransactionSafety
begin

text \<open>
  What the answer to a commit or rollback has to do with the end of the transaction: a lease is handed back as
  reusable only after its control invocation was answered well, and with the outcome of that invocation.
\<close>

text \<open>An answer that counts as success: \<open>RETURN\<close> is a structure or a non-empty table, and every row of it is
of a type that is neither an error nor an abort.\<close>

definition good_answer :: "js_value \<Rightarrow> bool" where
  "good_answer v \<longleftrightarrow> (\<exists>obj raw. v = VObject obj \<and> map_of obj ''RETURN'' = Some raw \<and>
     rows_of raw \<noteq> [] \<and> list_all acceptable_row (rows_of raw))"

lemma good_answer_iff: "control_error operation v = None \<longleftrightarrow> good_answer v"
  unfolding good_answer_def list_all_iff by (rule control_error_None_iff)

text \<open>In the course of the events, the adapter's answer to the control invocation made for lease \<open>n\<close> arrived while
the runtime waited for it, and it was good.\<close>

definition answered_well :: "nat \<Rightarrow> control \<Rightarrow> txn_event list \<Rightarrow> bool" where
  "answered_well n operation es \<longleftrightarrow> (\<exists>before reason v called later.
     es = before @ ControlSettled (Fulfilled v) called # later \<and>
     tx_executor (txn_run before) = ControlRunning operation reason True \<and>
     tx_token (txn_run before) = Some n \<and> good_answer v)"

lemma answered_well_more: "answered_well n operation es \<Longrightarrow> answered_well n operation (es @ fs)"
  unfolding answered_well_def by fastforce

text \<open>The control invocation whose success the terminal operation has taken note of.\<close>

fun noted :: "executor \<Rightarrow> control option" where
  "noted (ResetRunning operation reason called) = Some operation"
| "noted (Converging (AfterControl operation reason cleanup)) = Some operation"
| "noted (Releasing (AfterControl operation reason cleanup)) = Some operation"
| "noted x = None"

definition answers_inv :: "(nat \<times> control) set \<Rightarrow> txn \<Rightarrow> bool" where
  "answers_inv A s \<longleftrightarrow>
     (\<forall>operation. noted (tx_executor s) = Some operation \<longrightarrow> (\<exists>t. tx_token s = Some t \<and> (t, operation) \<in> A)) \<and>
     (\<forall>n reason outcome. ReleaseCall n True reason outcome \<in> set (tx_log s) \<longrightarrow>
        (\<exists>operation. (n, operation) \<in> A \<and> outcome = control_outcome operation))"

lemma answers_frame:
  assumes "answers_inv A s" and "tx_log s' = tx_log s @ calls" and "\<And>n reason outcome. ReleaseCall n True reason outcome \<notin> set calls"
    and "noted (tx_executor s') = None \<or> tx_executor s' = tx_executor s \<and> tx_token s' = tx_token s"
  shows "answers_inv A s'"
  using assms unfolding answers_inv_def by auto

lemma answers_same:
  assumes "answers_inv A s" and "tx_log s' = tx_log s"
    and "noted (tx_executor s') = None \<or> tx_executor s' = tx_executor s \<and> tx_token s' = tx_token s"
  shows "answers_inv A s'"
  using answers_frame [of A s s' "[]"] assms by simp

lemma noted_held:
  assumes "txn_inv s" and "noted (tx_executor s) = Some operation"
  obtains t where "tx_token s = Some t" "held_inv t s" "common_inv s"
proof -
  have "tx_executor s \<notin> {NoExecutor, AwaitOpening, AwaitAcquires, Finished}" using assms(2) by auto
  from held_cases [OF assms(1) this] show thesis using that by blast
qed

lemma token_free: "txn_inv s \<Longrightarrow> tx_opening s \<noteq> NotOpening \<or> tx_acquires s \<noteq> [] \<Longrightarrow> tx_token s = None \<and> noted (tx_executor s) = None"
proof -
  assume a: "txn_inv s" "tx_opening s \<noteq> NotOpening \<or> tx_acquires s \<noteq> []"
  then have "tx_token s = None" by (auto simp: txn_inv_def held_inv_def split: option.splits)
  moreover have "noted (tx_executor s) = None"
  proof (rule ccontr)
    assume "noted (tx_executor s) \<noteq> None"
    then obtain operation where "noted (tx_executor s) = Some operation" by auto
    from noted_held [OF a(1) this] show False using calculation by auto
  qed
  ultimately show ?thesis ..
qed

section \<open>Steps\<close>

lemma answers_mono: "answers_inv A s \<Longrightarrow> A \<subseteq> B \<Longrightarrow> answers_inv B s"
  unfolding answers_inv_def by blast

lemma settleTerminal_log [simp]: "tx_log (settleTerminal t s) = tx_log s" "tx_executor (settleTerminal t s) = Finished"
  by (simp_all add: settleTerminal_def Let_def split: call_phase.split)

lemma complete_plan_answers: "answers_inv A s \<Longrightarrow> tx_log s' = tx_log s \<Longrightarrow> answers_inv A (complete_plan plan errors s')"
  by (erule answers_same) (simp_all add: complete_plan_def finishClosed_def)

lemma release_now_answers:
  assumes "answers_inv A s"
    and "\<And>operation reason cleanup. plan = AfterControl operation reason cleanup \<Longrightarrow>
      (\<exists>t. tx_token s = Some t \<and> (t, operation) \<in> A) \<and> tx_outcome s = control_outcome operation"
  shows "answers_inv A (release_now plan s)"
proof (cases "tx_releaseClaimed s \<or> tx_token s = None \<or> tx_lease s = None")
  case True
  then have "release_now plan s = complete_plan plan [] s \<or> release_now plan s = complete_plan plan [] (s\<lparr>tx_releaseClaimed := True\<rparr>)"
    by (auto simp: release_now_def releasePublishedLease_def Let_def split: option.splits)
  then show ?thesis using complete_plan_answers [OF assms(1)] by auto
next
  case False
  then obtain t l where t: "tx_token s = Some t" "tx_lease s = Some l" "\<not> tx_releaseClaimed s" by auto
  let ?u = "release_now plan s"
  have u: "tx_executor ?u = Releasing plan" "tx_token ?u = Some t"
    "tx_log ?u = tx_log s @ [ReleaseCall t (plan_reusable plan) (plan_reason plan) (plan_outcome plan s)]"
    using t by (simp_all add: release_now_def releasePublishedLease_def releaseLease_def Let_def)
  show ?thesis
  proof (cases plan)
    case (AfterControl operation reason cleanup)
    then show ?thesis using assms(1) assms(2) [OF AfterControl] t(1) unfolding answers_inv_def u by auto
  next
    case (ReleaseOnly primary reason outcome)
    then show ?thesis using assms(1) unfolding answers_inv_def u by auto
  qed
qed

lemma prepare_answers:
  assumes "answers_inv A s"
    and "\<And>operation reason cleanup. plan = AfterControl operation reason cleanup \<Longrightarrow>
      (\<exists>t. tx_token s = Some t \<and> (t, operation) \<in> A) \<and> tx_outcome s = control_outcome operation"
  shows "answers_inv A (prepareReleaseAfterQuarantine plan s)"
proof (cases "tx_quarantine s")
  case None
  then show ?thesis using release_now_answers [OF assms] by (simp add: prepareReleaseAfterQuarantine_def)
next
  case (Some n)
  then show ?thesis using assms
    by (cases plan) (auto simp: prepareReleaseAfterQuarantine_def answers_inv_def)
qed

text \<open>What an event adds to the good answers.\<close>

definition new_answer :: "txn_event \<Rightarrow> txn \<Rightarrow> (nat \<times> control) set" where
  "new_answer e s = {(t, operation). \<exists>reason v called. e = ControlSettled (Fulfilled v) called \<and>
     tx_executor s = ControlRunning operation reason True \<and> tx_token s = Some t \<and> good_answer v}"

lemma control_settled_answers:
  assumes inv: "txn_inv s" and a: "answers_inv A s"
  shows "answers_inv (A \<union> new_answer (ControlSettled r called) s) (control_settled r called s)"
proof -
  let ?A = "A \<union> new_answer (ControlSettled r called) s"
  have a': "answers_inv ?A s" using a by (rule answers_mono) simp
  show ?thesis
  proof (cases "tx_executor s")
    case (ControlRunning operation reason invoked)
    then obtain t where t: "tx_token s = Some t" using held_cases [OF inv] by auto
    let ?s = "track_detached r s"
    show ?thesis
    proof (cases "possible invoked r")
      case True
      show ?thesis
      proof (cases "settlement_error (control_error operation) r")
        case None
        then obtain v where v: "r = Fulfilled v" "good_answer v"
          by (cases r) (auto simp: settlement_error_def good_answer_iff)
        then have "invoked" using True by (simp add: possible_def)
        then have "(t, operation) \<in> ?A" using v ControlRunning t by (auto simp: new_answer_def)
        then show ?thesis using a' None True ControlRunning t v
          by (cases called) (auto simp: control_settled_def Let_def add_log_def track_detached_def answers_inv_def)
      next
        case (Some e)
        have "answers_inv ?A (prepareReleaseAfterQuarantine (ReleaseOnly p why out) u)"
          if "tx_log u = tx_log s" "tx_executor u = tx_executor s" for p why out u
          by (rule prepare_answers) (use that a' ControlRunning in \<open>auto intro: answers_same\<close>)
        then show ?thesis using Some True ControlRunning
          by (cases e) (simp_all add: control_settled_def Let_def track_detached_same)
      qed
    qed (use a' ControlRunning in \<open>simp add: control_settled_def\<close>)
  qed (use a' in \<open>simp_all add: control_settled_def\<close>)
qed

lemma reset_settled_answers:
  assumes inv: "txn_inv s" and a: "answers_inv A s"
  shows "answers_inv A (reset_settled_step r s)"
proof (cases "tx_executor s")
  case (ResetRunning operation reason called)
  then obtain t where t: "tx_token s = Some t" "held_inv t s" using held_cases [OF inv] by auto
  then have o': "tx_outcome s = control_outcome operation" using ResetRunning by (simp add: held_inv_def)
  have A: "(t, operation) \<in> A" using a t ResetRunning by (simp add: answers_inv_def)
  have "answers_inv A (prepareReleaseAfterQuarantine (AfterControl operation reason errors) u)"
    if "tx_log u = tx_log s" "tx_executor u = tx_executor s" "tx_token u = tx_token s" "tx_outcome u = tx_outcome s" for errors u
    by (rule prepare_answers) (use that a A o' t(1) in \<open>auto intro: answers_same\<close>)
  moreover have "tx_token (track_detached r s) = tx_token s"
    by (cases r) (simp_all add: track_detached_def trackOperationQuarantine_def)
  ultimately show ?thesis using ResetRunning a
    by (simp add: reset_settled_step_def Let_def track_detached_same split: option.split)
qed (use a in \<open>simp_all add: reset_settled_step_def\<close>)

lemma answers_tame:
  assumes "answers_inv A s"
    and "\<exists>calls. tx_log s' = tx_log s @ calls \<and> (\<forall>n reason outcome. ReleaseCall n True reason outcome \<notin> set calls)"
    and "noted (tx_executor s') = None \<or> tx_executor s' = tx_executor s \<and> tx_token s' = tx_token s"
  shows "answers_inv A s'"
  using assms answers_frame by blast

lemma add_log_tame [simp]:
  "tx_log (add_log called c s) = tx_log s @ (if called then [c] else [])" "tx_executor (add_log called c s) = tx_executor s"
  "tx_token (add_log called c s) = tx_token s"
  by (simp_all add: add_log_def)

lemma finishControl_answers:
  assumes "answers_inv A s" and "tx_log s' = tx_log s"
  shows "answers_inv A (finishControl operation reason called s')"
  using assms
  by (auto simp: finishControl_def split: option.split intro!: answers_tame [OF assms(1)])

lemma claim_answers:
  assumes "answers_inv A s" and "tx_log s' = tx_log s" and "tx_executor s' = tx_executor s" and "tx_token s' = tx_token s"
    and "\<And>u. tx_log u = tx_log s \<Longrightarrow> tx_executor u = tx_executor s \<Longrightarrow> tx_token u = tx_token s \<Longrightarrow> answers_inv A (run u)"
  shows "answers_inv A (claimTerminal run s')"
  using assms by (auto simp: claimTerminal_def intro: answers_same)

lemma releaseOnly_answers:
  assumes "answers_inv A s" and "tx_log u = tx_log s" and "tx_executor u = tx_executor s" and "tx_token u = tx_token s"
  shows "answers_inv A (prepareReleaseAfterQuarantine (ReleaseOnly primary reason outcome) u)"
  by (rule prepare_answers) (use assms in \<open>auto intro: answers_same\<close>)

lemma begin_answers: "answers_inv A s \<Longrightarrow> answers_inv A (begin_step called s)"
  by (auto simp: begin_step_def Let_def intro!: answers_tame [of A s])

lemma released_log [simp]:
  "tx_log (lease_released p f s) = tx_log s" "tx_executor (lease_released p f s) = tx_executor s"
  "tx_token (lease_released p f s) = tx_token s"
  by (cases f; cases p; simp add: lease_released_def Let_def)+

lemma releaseLease_log [simp]:
  "tx_log (releaseLease t reusable reason outcome s) = tx_log s @ [ReleaseCall t reusable reason outcome]"
  "tx_executor (releaseLease t reusable reason outcome s) = tx_executor s"
  "tx_token (releaseLease t reusable reason outcome s) = tx_token s"
  by (simp_all add: releaseLease_def Let_def)

lemma begin_failed_log [simp]:
  "tx_log (begin_failed s) = tx_log s" "tx_executor (begin_failed s) = tx_executor s" "tx_token (begin_failed s) = tx_token s"
  by (simp_all add: begin_failed_def Let_def)

lemma settle_acquire_log [simp]:
  "tx_log (settleAcquireQuarantineState s) = tx_log s" "tx_executor (settleAcquireQuarantineState s) = tx_executor s"
  "tx_token (settleAcquireQuarantineState s) = tx_token s"
  by (simp_all add: settleAcquireQuarantineState_def)

lemma acquire_answers:
  assumes "txn_inv s" and "answers_inv A s"
  shows "answers_inv A (acquire_settled r s)"
proof (cases "tx_opening s")
  case (Acquiring n called)
  then have "noted (tx_executor s) = None" using token_free [OF assms(1)] by simp
  then show ?thesis using assms(2) Acquiring
    by (cases r) (auto simp: acquire_settled_def Let_def split: bool.split
        intro!: answers_tame [OF assms(2)])
qed (use assms in \<open>simp_all add: acquire_settled_def\<close>)

lemma undo_answers: "answers_inv A s \<Longrightarrow> answers_inv A (undo_settled f s)"
  by (auto simp: undo_settled_def Let_def split: opening_phase.split option.split intro!: answers_same [of A s])

lemma late_acquire_answers: "answers_inv A s \<Longrightarrow> answers_inv A (late_acquire n object s)"
  by (auto simp: late_acquire_def intro!: answers_tame [of A s])

lemma late_acquire_released_answers: "answers_inv A s \<Longrightarrow> answers_inv A (late_acquire_released n f s)"
  by (auto simp: late_acquire_released_def Let_def split: option.split intro!: answers_same [of A s])

lemma call_step_answers: "answers_inv A s \<Longrightarrow> answers_inv A (snd (call_step token invalid called s))"
  by (auto simp: call_step_def split: option.split intro!: answers_tame [of A s])

lemma call_returns_log [simp]:
  "tx_log (call_returns e s) = tx_log s" "tx_executor (call_returns e s) = tx_executor s" "tx_token (call_returns e s) = tx_token s"
  by (simp_all add: call_returns_def)

lemma call_failed_answers:
  assumes "answers_inv A s" and "tx_log u = tx_log s" "tx_executor u = tx_executor s" "tx_token u = tx_token s"
  shows "answers_inv A (call_failed e answer u)"
  using assms
  by (auto simp: call_failed_def Let_def split: prod.split
      intro!: claim_answers [OF assms(1)] releaseOnly_answers [OF assms(1)] intro: answers_same [OF assms(1)])

lemma track_detached_token [simp]: "tx_token (track_detached r s) = tx_token s"
  by (cases r) (simp_all add: track_detached_def trackOperationQuarantine_def)

lemma call_settled_answers: "answers_inv A s \<Longrightarrow> answers_inv A (call_settled r answer s)"
  by (auto simp: call_settled_def Let_def track_detached_same split: call_phase.split option.split
      intro!: call_failed_answers [of A s] intro: answers_same [of A s])

lemma control_step_answers: "answers_inv A s \<Longrightarrow> answers_inv A (snd (control_step operation token called s))"
  by (cases operation) (auto simp: control_step_def Let_def split: option.split
      intro!: claim_answers [of A s] finishControl_answers [of A s] intro: answers_same [of A s])

lemma closeDuringCall_answers:
  assumes "answers_inv A s" and "tx_log u = tx_log s" "tx_executor u = tx_executor s" "tx_token u = tx_token s"
  shows "answers_inv A (closeDuringCall u)"
  using assms by (auto simp: closeDuringCall_def intro!: claim_answers [OF assms(1)] intro: answers_same [OF assms(1)])

lemma cancel_answers: "answers_inv A s \<Longrightarrow> answers_inv A (snd (cancel_step token s))"
  by (auto simp: cancel_step_def Let_def split: option.split intro!: closeDuringCall_answers [of A s] intro: answers_same [of A s])

lemma abort_answers: "answers_inv A s \<Longrightarrow> answers_inv A (snd (abort_transaction token called s))"
  by (auto simp: abort_transaction_def split: option.split intro: cancel_answers control_step_answers)

lemma close_answers: "answers_inv A s \<Longrightarrow> answers_inv A (snd (close_step called s))"
  by (auto simp: close_step_def Let_def
      intro!: closeDuringCall_answers [of A s] claim_answers [of A s] finishControl_answers [of A s] intro: answers_same [of A s])

lemma opening_done_answers: "answers_inv A s \<Longrightarrow> answers_inv A (opening_done s)"
  by (auto simp: opening_done_def finish_close_def split: option.split intro!: answers_same [of A s])

lemma acquires_done_answers: "answers_inv A s \<Longrightarrow> answers_inv A (acquires_done f s)"
  by (auto simp: acquires_done_def finish_close_def split: option.split intro!: answers_same [of A s])

lemma call_done_answers: "answers_inv A s \<Longrightarrow> answers_inv A (call_done called s)"
  by (auto simp: call_done_def intro!: finishControl_answers [of A s] releaseOnly_answers [of A s])

lemma converged_answers:
  assumes inv: "txn_inv s" and a: "answers_inv A s"
  shows "answers_inv A (converged f s)"
proof (cases "tx_executor s")
  case (Converging plan)
  have p: "(\<exists>t. tx_token s = Some t \<and> (t, operation) \<in> A) \<and> tx_outcome s = control_outcome operation"
    if "plan = AfterControl operation reason cleanup" for operation reason cleanup
  proof -
    have n: "noted (tx_executor s) = Some operation" using Converging that by simp
    from noted_held [OF inv n] obtain t where "held_inv t s" by blast
    then have "plan_ok plan s" using Converging by (simp add: held_inv_def)
    then show ?thesis using a n that by (simp add: answers_inv_def)
  qed
  have "answers_inv A (release_now plan (s\<lparr>tx_quarantine := None\<rparr>))"
  proof (rule release_now_answers)
    show "answers_inv A (s\<lparr>tx_quarantine := None\<rparr>)" by (rule answers_same [OF a]) simp_all
  qed (use p in auto)
  moreover have "tx_log (startLateRelease reason outcome s) = tx_log s" for reason outcome by (simp add: startLateRelease_def)
  ultimately show ?thesis using a Converging
    by (auto simp: converged_def Let_def split: option.split intro!: answers_same [OF a])
qed (use a in \<open>simp_all add: converged_def\<close>)

lemma release_settled_answers: "answers_inv A s \<Longrightarrow> answers_inv A (release_settled f s)"
  by (auto simp: release_settled_def split: executor.split option.split intro!: complete_plan_answers [of A s])

lemma operation_settled_answers: "answers_inv A s \<Longrightarrow> answers_inv A (operation_settled s)"
  by (auto simp: operation_settled_def split: option.split nat.split intro!: answers_same [of A s])

lemma late_start_answers: "answers_inv A s \<Longrightarrow> answers_inv A (late_start s)"
  by (auto simp: late_start_def releasePublishedLease_def finishClosed_def Let_def split: late_release.split option.split
      intro!: answers_tame [of A s])

lemma late_settled_answers: "answers_inv A s \<Longrightarrow> answers_inv A (late_settled f s)"
  by (auto simp: late_settled_def finishClosed_def Let_def intro!: answers_same [of A s])

section \<open>Runs\<close>

lemma answers_step:
  assumes "txn_inv s" and "answers_inv A s"
  shows "answers_inv (A \<union> new_answer e s) (txn_step e s)"
proof (cases "\<exists>r called. e = ControlSettled r called")
  case True
  then show ?thesis using control_settled_answers [OF assms] by auto
next
  case False
  then have "new_answer e s = {}" by (auto simp: new_answer_def)
  then show ?thesis using False assms
    by (cases e) (simp_all add: begin_answers acquire_answers undo_answers late_acquire_answers late_acquire_released_answers
        call_step_answers call_settled_answers control_step_answers cancel_answers abort_answers close_answers
        opening_done_answers acquires_done_answers call_done_answers reset_settled_answers converged_answers
        release_settled_answers operation_settled_answers late_start_answers late_settled_answers)
qed

lemma answers_run: "answers_inv {(n, operation). answered_well n operation es} (txn_run es)"
proof (induction es rule: rev_induct)
  case Nil
  show ?case by (simp add: answers_inv_def txn_run_def txn_new_def)
next
  case (snoc e es)
  let ?A = "{(n, operation). answered_well n operation es}"
  have "answers_inv (?A \<union> new_answer e (txn_run es)) (txn_step e (txn_run es))"
    by (rule answers_step [OF txn_inv_run snoc])
  moreover have "?A \<union> new_answer e (txn_run es) \<subseteq> {(n, operation). answered_well n operation (es @ [e])}"
    using answered_well_more by (fastforce simp: new_answer_def answered_well_def)
  ultimately show ?case by (auto simp: txn_run_def intro: answers_mono)
qed

lemma reusable_release_answered:
  assumes "ReleaseCall n True reason outcome \<in> set (tx_log (txn_run es))"
  shows "\<exists>operation. answered_well n operation es \<and> outcome = control_outcome operation"
  using answers_run [of es] assms unfolding answers_inv_def by blast

end
