(* ===== verification/TransactionProperties.thy ===== *)
theory TransactionProperties
  imports TransactionAnswers
begin

text \<open>
  The guarantees of the transaction runtime, over every sequence of calls, settlements and timeouts.
\<close>

definition answer_ok :: js_value where
  "answer_ok = VObject [(''RETURN'', VObject [(''TYPE'', VString ''S'')])]"

text \<open>A transaction with one business call that commits; and one whose commit is never answered in time.\<close>

definition commit_run :: "txn_event list" where
  "commit_run = [BeginTxn True, AcquireSettled (Fulfilled True), CallTxn 1 None True,
     CallSettled (Fulfilled True) NotRecoverable, ControlTxn Commit 1 True, ControlSettled (Fulfilled answer_ok) True,
     ResetDone (Fulfilled ()), ReleaseDone None]"

definition silent_run :: "txn_event list" where
  "silent_run = [BeginTxn True, AcquireSettled (Fulfilled True), ControlTxn Commit 1 True,
     ControlSettled (Detached operation_timeout) True, Converged (Some operation_timeout), OperationSettled, LateStart]"

lemma commit_run_state:
  "tx_log (txn_run commit_run) = [AcquireCall 1, InvokeCall 1 Business, InvokeCall 1 (Control Commit), ResetCall 1,
     ReleaseCall 1 True ByCommit Committed]"
  "tx_terminal (txn_run commit_run) = TerminalResolved" "tx_commitInvocations (txn_run commit_run) = 1"
  "tx_rollbackInvocations (txn_run commit_run) = 0" "tx_acquired (txn_run commit_run) = [1]"
  by code_simp+

lemma silent_run_state:
  "tx_log (txn_run silent_run) = [AcquireCall 1, InvokeCall 1 (Control Commit), ReleaseCall 1 False ByAmbiguous Ambiguous]"
  "tx_acquired (txn_run silent_run) = [1]"
  by code_simp+

text \<open>C21. The adapter is used by the rules, whatever happens and in whatever order. The calls made for the
lease of any transaction are an acquire, then business invocations, then at most one commit or
rollback, then at most one reset, then at most one release and nothing after it; and whenever a lease is
handed back as reusable, the adapter's answer to the commit or rollback made for that very lease had
arrived and was good (its \<open>RETURN\<close> holds no error, abort or unreadable row), and the outcome
handed over is the one of that invocation.\<close>

theorem txn_lease_protocol:
  "lease_position k (tx_log (txn_run es)) \<in> {LFree, LHeld, LReleased} \<union> range LControlled \<union> range LReset \<and>
   (\<forall>reason outcome. ReleaseCall k True reason outcome \<in> set (tx_log (txn_run es)) \<longrightarrow>
     (\<exists>operation. answered_well k operation es \<and> outcome = control_outcome operation))"
proof -
  have "lease_position k (tx_log (txn_run es)) \<noteq> LBroken"
    using txn_inv_run [of es] by (simp add: txn_inv_def common_inv_def log_inv_def)
  then show ?thesis
    using reusable_release_answered [of k _ _ es] by (cases "lease_position k (tx_log (txn_run es))") auto
qed

lemma txn_lease_protocol_witness:
  "\<exists>operation. answered_well 1 operation commit_run \<and> Committed = control_outcome operation"
  using txn_lease_protocol [of 1 commit_run] by (auto simp: commit_run_state)

text \<open>C22. No physical session is lost: a lease the adapter delivered, early or after its acquire had timed
out, has been handed back, or it is the lease of the running transaction and the runtime is not yet
closed.\<close>

theorem txn_no_lease_lost:
  assumes "n \<in> set (tx_acquired (txn_run es))"
  shows "lease_position n (tx_log (txn_run es)) = LReleased \<or>
    tx_lease (txn_run es) = Some n \<and> tx_phase (txn_run es) \<noteq> TxClosed"
proof -
  let ?s = "txn_run es"
  have inv: "txn_inv ?s" by (rule txn_inv_run)
  show ?thesis
  proof (cases "tx_token ?s = Some n")
    case True
    then have h: "held_inv n ?s" using inv by (simp add: txn_inv_held)
    show ?thesis
    proof (cases "tx_releaseClaimed ?s")
      case False
      have "tx_phase ?s \<noteq> TxClosed"
        using h False
        by (cases "tx_executor ?s"; cases "tx_late ?s") (auto simp: held_inv_def)
      with h False show ?thesis by (simp add: held_inv_def)
    qed (use h in \<open>simp add: held_inv_def\<close>)
  next
    case False
    with inv assms show ?thesis by (auto simp: txn_inv_def common_inv_def acquired_inv_def)
  qed
qed

lemma txn_no_lease_lost_witness:
  "lease_position 1 (tx_log (txn_run commit_run)) = LReleased \<and> lease_position 1 (tx_log (txn_run silent_run)) = LReleased"
  using txn_no_lease_lost [of 1 commit_run] txn_no_lease_lost [of 1 silent_run]
  by (simp add: commit_run_state silent_run_state lease_position_def)



end
