(* ===== verification/Calendar.thy ===== *)
theory Calendar
  imports Prelude
begin

text \<open>
  The calendar of \<open>src/values/classic-temporal.ts\<close>: leap years, the days before a year in closed form,
  the number of a date and the date of a number, and the years that have a week 53. The calendar is
  Julian before 15 October 1582 and Gregorian from then on. All numbers are non-negative and small, so
  they are natural numbers.
\<close>

section \<open>Bisection\<close>

text \<open>What the three binary searches of the file share: a probe between the bounds decides which half is
kept. The probed property is monotone.\<close>

locale bisection =
  fixes base limit :: nat and holds :: "nat \<Rightarrow> bool" and loop :: "nat \<Rightarrow> nat \<Rightarrow> nat"
  assumes mono: "holds i \<Longrightarrow> i \<le> j \<Longrightarrow> holds j"
    and stop: "base \<le> lower \<Longrightarrow> loop lower lower = lower"
    and probe: "base \<le> lower \<Longrightarrow> lower < upper \<Longrightarrow> upper \<le> limit \<Longrightarrow> \<exists>m. lower \<le> m \<and> m < upper \<and>
      loop lower upper = (if holds m then loop lower m else loop (Suc m) upper)"
begin

lemma finds:
  assumes "base \<le> lower" and "lower \<le> upper" and "upper \<le> limit"
  shows "lower \<le> loop lower upper \<and> loop lower upper \<le> upper \<and>
    (\<forall>i. lower \<le> i \<and> i < loop lower upper \<longrightarrow> \<not> holds i) \<and> (loop lower upper < upper \<longrightarrow> holds (loop lower upper))"
  using assms
proof (induction "upper - lower" arbitrary: lower upper rule: less_induct)
  case less
  show ?case
  proof (cases "lower < upper")
    case True
    then obtain m where m: "lower \<le> m" "m < upper"
      "loop lower upper = (if holds m then loop lower m else loop (Suc m) upper)" using probe less.prems by blast
    show ?thesis
    proof (cases "holds m")
      case h: True
      have "lower \<le> loop lower m \<and> loop lower m \<le> m \<and> (\<forall>i. lower \<le> i \<and> i < loop lower m \<longrightarrow> \<not> holds i) \<and>
          (loop lower m < m \<longrightarrow> holds (loop lower m))" using m less.prems by (intro less.hyps) auto
      moreover have "loop lower m = m \<or> loop lower m < m" using calculation by linarith
      ultimately show ?thesis using h m by auto
    next
      case False
      have "Suc m \<le> loop (Suc m) upper \<and> loop (Suc m) upper \<le> upper \<and>
          (\<forall>i. Suc m \<le> i \<and> i < loop (Suc m) upper \<longrightarrow> \<not> holds i) \<and>
          (loop (Suc m) upper < upper \<longrightarrow> holds (loop (Suc m) upper))" using m less.prems by (intro less.hyps) auto
      moreover have "\<not> holds i" if "i \<le> m" for i using False mono that by blast
      ultimately show ?thesis using False m by (auto simp: Suc_le_eq not_le [symmetric])
    qed
  qed (use less.prems stop in \<open>auto\<close>)
qed

lemma unique:
  assumes "base \<le> lower" and "lower \<le> k" and "k \<le> upper" and "upper \<le> limit" and "k < upper \<Longrightarrow> holds k"
    and "\<And>i. lower \<le> i \<Longrightarrow> i < k \<Longrightarrow> \<not> holds i"
  shows "loop lower upper = k"
proof (rule linorder_cases [of "loop lower upper" k])
  assume "loop lower upper < k"
  then show ?thesis using finds [of lower upper] assms by auto
next
  assume "k < loop lower upper"
  then show ?thesis using finds [of lower upper] assms by force
qed

end

section \<open>Years and months\<close>

definition DAYS_BY_MONTH :: "nat list" where
  "DAYS_BY_MONTH = [31, 29, 31, 30, 31, 30, 31, 31, 30, 31, 30, 31]"

record calendar_date =
  cd_year :: nat
  cd_month :: nat
  cd_day :: nat

definition isLeapYear :: "nat \<Rightarrow> bool" where
  "isLeapYear year \<longleftrightarrow> (if year < 1582 then year mod 4 = 0
     else year mod 4 = 0 \<and> (year mod 100 \<noteq> 0 \<or> year mod 400 = 0))"

definition daysInMonth :: "nat \<Rightarrow> nat \<Rightarrow> nat" where
  "daysInMonth year month =
    (if month = 2 then (if isLeapYear year then 29 else 28)
     else if year = 1582 \<and> month = 10 then 21
     else DAYS_BY_MONTH ! (month - 1))"

definition conventionalMaximum :: "nat \<Rightarrow> nat \<Rightarrow> nat" where
  "conventionalMaximum year month =
    (if month = 2 then (if isLeapYear year then 29 else 28) else DAYS_BY_MONTH ! (month - 1))"

definition parseDateParts :: "nat \<Rightarrow> nat \<Rightarrow> nat \<Rightarrow> calendar_date result" where
  "parseDateParts year month day =
    (if year < 1 \<or> 9999 < year then Inl (RangeError ''year must be in 0001..9999'')
     else if month < 1 \<or> 12 < month then Inl (RangeError ''month must be in 01..12'')
     else if day < 1 \<or> conventionalMaximum year month < day then Inl (RangeError ''has invalid day'')
     else if year = 1582 \<and> month = 10 \<and> 5 \<le> day \<and> day \<le> 14 then Inl (RangeError ''is in the Gregorian calendar gap'')
     else Inr \<lparr>cd_year = year, cd_month = month, cd_day = day\<rparr>)"

definition daysInPreviousYears :: "nat \<Rightarrow> nat" where
  "daysInPreviousYears year =
    (let previousYears = year - 1;
         through1600 = min previousYears 1600;
         withinCentury = through1600 mod 100;
         days = through1600 div 100 * 36525 + withinCentury div 4 * 1461 + withinCentury mod 4 * 365;
         days = (if 1582 < year then days - 10 else days)
     in if previousYears \<le> 1600 then days
        else let after1600 = previousYears - 1600;
                 days = days + after1600 div 400 * 146097;
                 after1600 = after1600 mod 400;
                 finalCentury = after1600 mod 100
             in days + after1600 div 100 * 36524 + finalCentury div 4 * 1461 + finalCentury mod 4 * 365)"

definition dateOrdinal :: "calendar_date \<Rightarrow> nat" where
  "dateOrdinal d =
    (let result = daysInPreviousYears (cd_year d) + sum_list (map (daysInMonth (cd_year d)) [1..<cd_month d]);
         adjustedDay = (if cd_year d = 1582 \<and> cd_month d = 10 \<and> 15 \<le> cd_day d then cd_day d - 10 else cd_day d)
     in result + adjustedDay - 1)"

text \<open>The search for the year of an ordinal, and the walk through its months.\<close>

function year_search :: "nat \<Rightarrow> nat \<Rightarrow> nat \<Rightarrow> nat" where
  "year_search ordinal lower upper =
    (if lower \<le> upper
     then let candidate = (lower + upper) div 2 in
       if daysInPreviousYears candidate \<le> ordinal then year_search ordinal (candidate + 1) upper
       else if candidate = 0 then 0 else year_search ordinal lower (candidate - 1)
     else upper)"
  by pat_completeness auto
termination by (relation "measure (\<lambda>(ordinal, lower, upper). Suc upper - lower)") auto

declare year_search.simps [simp del]

function month_loop :: "nat \<Rightarrow> nat \<Rightarrow> nat \<Rightarrow> nat \<times> nat" where
  "month_loop year remaining month =
    (if month \<le> 12
     then let monthLength = daysInMonth year month in
       if remaining < monthLength then (month, remaining)
       else month_loop year (remaining - monthLength) (month + 1)
     else (month, remaining))"
  by pat_completeness auto
termination by (relation "measure (\<lambda>(year, remaining, month). 13 - month)") auto

declare month_loop.simps [simp del]

definition dateFromOrdinal :: "nat \<Rightarrow> calendar_date" where
  "dateFromOrdinal ordinal =
    (let year = year_search ordinal 1 9999;
         (month, remaining) = month_loop year (ordinal - daysInPreviousYears year) 1;
         day = remaining + 1;
         day = (if year = 1582 \<and> month = 10 \<and> 4 < day then day + 10 else day)
     in \<lparr>cd_year = year, cd_month = month, cd_day = day\<rparr>)"

section \<open>The closed form counts the days\<close>

definition year_length :: "nat \<Rightarrow> nat" where
  "year_length year = sum_list (map (daysInMonth year) [1..<13])"

lemma upt_13: "[1..<13] = [1, 2, 3, 4, 5, 6, 7, 8, 9, 10, 11, 12 :: nat]"
  by (simp add: upt_rec)

lemma year_length_eq:
  "year_length y = (if y = 1582 then 355 else if isLeapYear y then 366 else 365)"
proof -
  have "\<not> isLeapYear 1582" by (simp add: isLeapYear_def)
  then show ?thesis unfolding year_length_def upt_13 by (simp add: daysInMonth_def DAYS_BY_MONTH_def)
qed

text \<open>The days of the first years of a Julian and of a Gregorian cycle.\<close>

definition julian_days :: "nat \<Rightarrow> nat" where
  "julian_days r = r div 4 * 1461 + r mod 4 * 365"

definition gregorian_days :: "nat \<Rightarrow> nat" where
  "gregorian_days r = r div 100 * 36524 + r mod 100 div 4 * 1461 + r mod 100 mod 4 * 365"

lemma div_mod_lt: "(b::nat) < c \<Longrightarrow> (c * a + b) div c = a \<and> (c * a + b) mod c = b"
  by simp

lemma julian_add: "julian_days (4 * a + b) = a * 1461 + julian_days b"
  by (simp add: julian_days_def algebra_simps)

lemma julian_step: "julian_days (Suc r) = julian_days r + (if Suc r mod 4 = 0 then 366 else 365)"
proof -
  obtain a b where r: "r = 4 * a + b" "b < 4" using that [of "r div 4" "r mod 4"] by simp
  have "b = 0 \<or> b = 1 \<or> b = 2 \<or> b = 3" using r(2) by auto
  then have "julian_days (b + 1) = julian_days b + (if (b + 1) mod 4 = 0 then 366 else 365)"
    by (elim disjE; hypsubst; simp add: julian_days_def)
  moreover have "julian_days (Suc r) = a * 1461 + julian_days (Suc b)" "julian_days r = a * 1461 + julian_days b"
    using julian_add [of a b] julian_add [of a "Suc b"] r(1) by simp_all
  moreover have "Suc r mod 4 = Suc b mod 4" unfolding r(1) by presburger
  ultimately show ?thesis by simp
qed

lemma mod_Suc_mod: "(d::nat) dvd n \<Longrightarrow> Suc (r mod n) mod d = Suc r mod d"
  by (metis mod_Suc_eq mod_mod_cancel)

lemma julian_ge: "365 * r \<le> julian_days r"
proof (induction r)
  case (Suc r)
  then show ?case using julian_step [of r] by simp
qed simp

lemma julian_century: "julian_days (100 * a + b) = a * 36525 + julian_days b"
  using julian_add [of "25 * a" b] by (simp add: mult.assoc [symmetric])

lemma gregorian_eq: "gregorian_days r = r div 100 * 36524 + julian_days (r mod 100)"
  by (simp add: gregorian_days_def julian_days_def)

lemma gregorian_step:
  "gregorian_days (Suc r) = gregorian_days r + (if Suc r mod 4 = 0 \<and> Suc r mod 100 \<noteq> 0 then 366 else 365)"
proof (cases "Suc r mod 100 = 0")
  case True
  then have "r mod 100 = 99" "Suc r div 100 = Suc (r div 100)" by (auto simp: mod_Suc div_Suc split: if_splits)
  with True show ?thesis by (simp add: gregorian_eq) (simp add: julian_days_def)
next
  case False
  then have "Suc r mod 100 = Suc (r mod 100)" "Suc r div 100 = r div 100"
    by (auto simp: mod_Suc div_Suc split: if_splits)
  moreover have "Suc (r mod 100) mod 4 = Suc r mod 4" by (rule mod_Suc_mod) simp
  ultimately show ?thesis using False by (simp add: gregorian_eq julian_step)
qed

lemma previous_julian: "p \<le> 1600 \<Longrightarrow> daysInPreviousYears (Suc p) = julian_days p - (if 1582 \<le> p then 10 else 0)"
proof -
  assume p: "p \<le> 1600"
  have "p div 100 * 36525 + julian_days (p mod 100) = julian_days p"
    using julian_century [of "p div 100" "p mod 100"] by simp
  with p show ?thesis by (auto simp: daysInPreviousYears_def julian_days_def Let_def add.assoc)
qed

lemma previous_gregorian:
  "daysInPreviousYears (Suc (1600 + q)) = julian_days 1600 - 10 + q div 400 * 146097 + gregorian_days (q mod 400)"
proof (cases "q = 0")
  case True
  then show ?thesis using previous_julian [of 1600] by (simp add: gregorian_eq julian_days_def)
next
  case False
  then show ?thesis by (simp add: daysInPreviousYears_def gregorian_days_def julian_days_def Let_def)
qed

lemma leap_julian: "y \<le> 1600 \<Longrightarrow> isLeapYear y \<longleftrightarrow> y mod 4 = 0"
proof -
  assume y: "y \<le> 1600"
  have "y mod 100 \<noteq> 0 \<or> y mod 400 = 0" if "1582 \<le> y" using that y by presburger
  then show ?thesis by (auto simp: isLeapYear_def)
qed

lemma leap_gregorian: "isLeapYear (1600 + k) \<longleftrightarrow> k mod 4 = 0 \<and> (k mod 100 \<noteq> 0 \<or> k mod 400 = 0)"
proof -
  have "(1600 + k) mod 4 = k mod 4" "(1600 + k) mod 100 = k mod 100" "(1600 + k) mod 400 = k mod 400"
    by (simp_all add: mod_add_left_eq [of 1600, symmetric])
  then show ?thesis by (simp add: isLeapYear_def)
qed

lemma next_year: "daysInPreviousYears (Suc (Suc p)) = daysInPreviousYears (Suc p) + year_length (Suc p)"
proof (cases "p < 1600")
  case True
  have "1582 \<le> p \<Longrightarrow> 10 \<le> julian_days p" "p = 1581 \<Longrightarrow> 10 \<le> julian_days p" using julian_ge [of p] by simp_all
  then show ?thesis
    using True by (auto simp: previous_julian julian_step year_length_eq leap_julian)
next
  case False
  then obtain q where q: "p = 1600 + q" using le_Suc_ex by (metis not_less)
  have leap: "isLeapYear (Suc p) \<longleftrightarrow> Suc q mod 4 = 0 \<and> (Suc q mod 100 \<noteq> 0 \<or> Suc q mod 400 = 0)"
    using leap_gregorian [of "Suc q"] q by simp
  have p: "daysInPreviousYears (Suc (Suc p)) = julian_days 1600 - 10 + Suc q div 400 * 146097 + gregorian_days (Suc q mod 400)"
    "daysInPreviousYears (Suc p) = julian_days 1600 - 10 + q div 400 * 146097 + gregorian_days (q mod 400)"
    using previous_gregorian [of q] previous_gregorian [of "Suc q"] q by simp_all
  show ?thesis
  proof (cases "Suc q mod 400 = 0")
    case True
    moreover from this have "Suc q mod 4 = 0" by presburger
    ultimately have "q mod 400 = 399" "Suc q div 400 = Suc (q div 400)" "Suc q mod 4 = 0"
      by (auto simp: mod_Suc div_Suc split: if_splits)
    moreover have "146097 = gregorian_days 399 + 366" "gregorian_days 0 = 0" by (simp_all add: gregorian_days_def)
    ultimately show ?thesis using True p leap q by (simp add: year_length_eq)
  next
    case False
    then have "Suc q mod 400 = Suc (q mod 400)" "Suc q div 400 = q div 400"
      by (auto simp: mod_Suc div_Suc split: if_splits)
    moreover have "Suc (q mod 400) mod 4 = Suc q mod 4" "Suc (q mod 400) mod 100 = Suc q mod 100"
      by (rule mod_Suc_mod; simp)+
    ultimately show ?thesis using False p leap q gregorian_step [of "q mod 400"] by (simp add: year_length_eq)
  qed
qed

lemma previous_start: "daysInPreviousYears 0 = 0" "daysInPreviousYears (Suc 0) = 0"
  by (simp_all add: daysInPreviousYears_def)

lemma previous_mono: "i \<le> j \<Longrightarrow> daysInPreviousYears i \<le> daysInPreviousYears j"
proof (induction j)
  case (Suc j)
  then show ?case
  proof (cases "i = Suc j")
    case False
    with Suc have "daysInPreviousYears i \<le> daysInPreviousYears j" by simp
    then show ?thesis using next_year [of "j - 1"] by (cases j) (simp_all add: previous_start)
  qed simp
qed simp

text \<open>The last day of the calendar: the number of days of the years 1 to 9999.\<close>

definition calendar_days :: nat where
  "calendar_days = 3652061"

lemma calendar_end: "daysInPreviousYears 10000 = calendar_days"
  by (simp add: daysInPreviousYears_def calendar_days_def)

lemma previous_lt_end: "daysInPreviousYears y \<le> n \<Longrightarrow> n < calendar_days \<Longrightarrow> y < 10000"
  using previous_mono [of 10000 y] calendar_end by (metis leD le_less_trans not_le_imp_less)

interpretation years: bisection 1 10000 "\<lambda>c. ordinal < daysInPreviousYears c" "\<lambda>lower upper. Suc (year_search ordinal lower (upper - 1))"
  for ordinal
proof
  show "ordinal < daysInPreviousYears j" if "ordinal < daysInPreviousYears i" "i \<le> j" for i j
    using that previous_mono [of i j] by linarith
  show "Suc (year_search ordinal lower (lower - 1)) = lower" if "1 \<le> lower" for lower
  proof -
    have "year_search ordinal lower (lower - 1) = lower - 1"
      using that by (subst year_search.simps) (simp only: if_not_P not_le diff_less zero_less_one One_nat_def Suc_le_lessD)
    then show ?thesis using that by simp
  qed
  show "\<exists>m. lower \<le> m \<and> m < upper \<and> Suc (year_search ordinal lower (upper - 1)) =
      (if ordinal < daysInPreviousYears m then Suc (year_search ordinal lower (m - 1))
       else Suc (year_search ordinal (Suc m) (upper - 1)))" if "1 \<le> lower" "lower < upper" for lower upper
    using that
    by (intro exI [of _ "(lower + (upper - 1)) div 2"], subst year_search.simps) (auto simp: Let_def)
qed

lemma year_search_eq:
  assumes "1 \<le> y" and "y \<le> 9999" and "daysInPreviousYears y \<le> n" and "n < daysInPreviousYears (Suc y)"
  shows "year_search n 1 9999 = y"
proof -
  have "Suc (year_search n 1 (10000 - 1)) = Suc y"
  proof (rule years.unique)
    show "\<not> n < daysInPreviousYears i" if "i < Suc y" for i using that assms(3) previous_mono [of i y] by linarith
  qed (use assms in simp_all)
  then show ?thesis by simp
qed

lemma year_search_found:
  assumes "n < calendar_days"
  shows "1 \<le> year_search n 1 9999 \<and> year_search n 1 9999 \<le> 9999 \<and>
    daysInPreviousYears (year_search n 1 9999) \<le> n \<and> n < daysInPreviousYears (Suc (year_search n 1 9999))"
proof -
  obtain k where k: "k = year_search n 1 9999" by simp
  have f: "Suc k \<le> 10000" "\<And>i. 1 \<le> i \<Longrightarrow> i < Suc k \<Longrightarrow> \<not> n < daysInPreviousYears i"
    "Suc k < 10000 \<Longrightarrow> n < daysInPreviousYears (Suc k)" using years.finds [of 1 10000 n] k by auto
  have up: "n < daysInPreviousYears (Suc k)"
  proof (cases "Suc k = 10000")
    case True
    then show ?thesis using assms calendar_end by simp
  qed (use f(1,3) in linarith)
  have "k \<noteq> 0"
  proof
    assume "k = 0"
    with up show False by (simp add: previous_start)
  qed
  then have "1 \<le> k" by simp
  moreover have "\<not> n < daysInPreviousYears k" using f(2) [of k] \<open>1 \<le> k\<close> by blast
  ultimately show ?thesis using up f(1) unfolding k by simp
qed

subsection \<open>Months\<close>

definition month_start :: "nat \<Rightarrow> nat \<Rightarrow> nat" where
  "month_start year month = sum_list (map (daysInMonth year) [1..<month])"

lemma month_start_1: "month_start y 1 = 0" "month_start y (Suc 0) = 0" and month_start_13: "month_start y 13 = year_length y"
  by (simp_all add: month_start_def year_length_def)

lemma month_start_Suc: "1 \<le> m \<Longrightarrow> month_start y (Suc m) = month_start y m + daysInMonth y m"
  by (simp add: month_start_def)

lemma month_loop_found:
  assumes "1 \<le> m" and "m \<le> 13" and "month_start y m + r < year_length y" and "month_loop y r m = (k, d)"
  shows "m \<le> k \<and> k \<le> 12 \<and> d < daysInMonth y k \<and> month_start y m + r = month_start y k + d"
  using assms
proof (induction y r m rule: month_loop.induct)
  case (1 y r m)
  show ?case
  proof (cases "m \<le> 12 \<and> \<not> r < daysInMonth y m")
    case True
    then have "month_loop y (r - daysInMonth y m) (m + 1) = (k, d)"
      using "1.prems"(4) by (subst (asm) month_loop.simps) (simp add: Let_def)
    then have "m + 1 \<le> k \<and> k \<le> 12 \<and> d < daysInMonth y k \<and>
        month_start y (m + 1) + (r - daysInMonth y m) = month_start y k + d"
      using True "1.prems" by (intro "1.IH") (simp_all add: month_start_Suc)
    then show ?thesis using True "1.prems"(1) by (simp add: month_start_Suc)
  next
    case False
    then have "m = 13 \<or> m \<le> 12 \<and> r < daysInMonth y m" using "1.prems"(2) by linarith
    then show ?thesis
    proof
      assume "m = 13"
      then show ?thesis using "1.prems"(3) by (simp add: month_start_13)
    next
      assume m: "m \<le> 12 \<and> r < daysInMonth y m"
      then have "month_loop y r m = (m, r)" by (subst month_loop.simps) (simp add: Let_def)
      then show ?thesis using m "1.prems"(4) by simp
    qed
  qed
qed

lemma month_loop_eq:
  assumes "1 \<le> m" and "m \<le> k" and "k \<le> 12" and "d < daysInMonth y k"
  shows "month_loop y (month_start y k - month_start y m + d) m = (k, d)"
  using assms
proof (induction "k - m" arbitrary: m)
  case 0
  then show ?case by (subst month_loop.simps) simp
next
  case (Suc j)
  have mono: "i \<le> l \<Longrightarrow> 1 \<le> i \<Longrightarrow> month_start y i \<le> month_start y l" for i l
    by (induction l) (auto simp: le_Suc_eq month_start_Suc)
  have "month_start y (Suc m) \<le> month_start y k" using Suc by (intro mono) simp_all
  then have up: "month_start y m + daysInMonth y m \<le> month_start y k" using Suc.prems(1) by (simp add: month_start_Suc)
  then have "\<not> month_start y k - month_start y m + d < daysInMonth y m"
    and "month_start y k - month_start y m + d - daysInMonth y m = month_start y k - month_start y (Suc m) + d"
    and "m \<le> 12" using Suc.prems Suc.hyps(2) by (simp_all add: month_start_Suc)
  then have "month_loop y (month_start y k - month_start y m + d) m =
      month_loop y (month_start y k - month_start y (Suc m) + d) (Suc m)"
    by (subst month_loop.simps) (simp add: Let_def)
  also have "\<dots> = (k, d)" using Suc by (intro Suc.hyps) simp_all
  finally show ?case .
qed

section \<open>Dates and their numbers\<close>

definition valid_date :: "calendar_date \<Rightarrow> bool" where
  "valid_date d \<longleftrightarrow> parseDateParts (cd_year d) (cd_month d) (cd_day d) = Inr d"

text \<open>The position of a day in its month, from zero, and back, with the ten days left out in 1582.\<close>

definition day_position :: "calendar_date \<Rightarrow> nat" where
  "day_position d = (if cd_year d = 1582 \<and> cd_month d = 10 \<and> 15 \<le> cd_day d then cd_day d - 10 else cd_day d) - 1"

lemma maximum_eq: "1 \<le> m \<Longrightarrow> m \<le> 12 \<Longrightarrow>
    conventionalMaximum y m = (if y = 1582 \<and> m = 10 then 31 else daysInMonth y m)"
  by (simp add: conventionalMaximum_def daysInMonth_def DAYS_BY_MONTH_def)

lemma valid_date_iff: "valid_date d \<longleftrightarrow> 1 \<le> cd_year d \<and> cd_year d \<le> 9999 \<and> 1 \<le> cd_month d \<and> cd_month d \<le> 12 \<and>
    1 \<le> cd_day d \<and> (if cd_year d = 1582 \<and> cd_month d = 10 then cd_day d < 5 \<or> 14 < cd_day d \<and> cd_day d \<le> 31
      else cd_day d \<le> daysInMonth (cd_year d) (cd_month d))"
  by (auto simp: valid_date_def parseDateParts_def maximum_eq)

lemma october_1582: "daysInMonth 1582 10 = 21"
  by (simp add: daysInMonth_def)

lemma date_number:
  assumes "valid_date d"
  shows "dateOrdinal d = daysInPreviousYears (cd_year d) + month_start (cd_year d) (cd_month d) + day_position d"
    and "day_position d < daysInMonth (cd_year d) (cd_month d)"
  using assms by (auto simp: valid_date_iff dateOrdinal_def day_position_def month_start_def Let_def october_1582
      split: if_splits)

lemma month_end: "1 \<le> k \<Longrightarrow> k \<le> 12 \<Longrightarrow> month_start y k + daysInMonth y k \<le> year_length y"
proof -
  assume k: "1 \<le> k" "k \<le> 12"
  have mono: "i \<le> l \<Longrightarrow> 1 \<le> i \<Longrightarrow> month_start y i \<le> month_start y l" for i l
    by (induction l) (auto simp: le_Suc_eq month_start_Suc)
  show ?thesis using mono [of "Suc k" 13] k by (simp add: month_start_Suc month_start_13)
qed

lemma date_of_number:
  assumes "valid_date d"
  shows "dateOrdinal d < calendar_days" and "dateFromOrdinal (dateOrdinal d) = d"
proof -
  let ?y = "cd_year d" and ?m = "cd_month d"
  have v: "1 \<le> ?y" "?y \<le> 9999" "1 \<le> ?m" "?m \<le> 12" using assms by (auto simp: valid_date_iff)
  note n = date_number [OF assms]
  have up: "daysInPreviousYears (Suc ?y) = daysInPreviousYears ?y + year_length ?y"
    using next_year [of "?y - 1"] v(1) by simp
  have lt: "dateOrdinal d < daysInPreviousYears (Suc ?y)"
    using n month_end [OF v(3,4), of ?y] up by linarith
  then show "dateOrdinal d < calendar_days" using previous_mono [of "Suc ?y" 10000] v(2) calendar_end by simp
  have y: "year_search (dateOrdinal d) 1 9999 = ?y" using v(1,2) lt n(1) by (intro year_search_eq) simp_all
  have m: "month_loop ?y (dateOrdinal d - daysInPreviousYears ?y) 1 = (?m, day_position d)"
    using month_loop_eq [of 1 ?m "day_position d" ?y] v n by (simp add: month_start_1)
  have "dateFromOrdinal (dateOrdinal d) = \<lparr>cd_year = ?y, cd_month = ?m, cd_day =
      (if ?y = 1582 \<and> ?m = 10 \<and> 4 < day_position d + 1 then day_position d + 1 + 10 else day_position d + 1)\<rparr>"
    unfolding dateFromOrdinal_def Let_def y m prod.case ..
  also have "\<dots> = d"
    using assms by (cases d) (auto simp: day_position_def valid_date_iff split: if_splits)
  finally show "dateFromOrdinal (dateOrdinal d) = d" .
qed

lemma number_of_date:
  assumes "n < calendar_days"
  shows "valid_date (dateFromOrdinal n)" and "dateOrdinal (dateFromOrdinal n) = n"
proof -
  let ?y = "year_search n 1 9999"
  have y: "1 \<le> ?y" "?y \<le> 9999" "daysInPreviousYears ?y \<le> n" "n < daysInPreviousYears (Suc ?y)"
    using year_search_found [OF assms] by auto
  have up: "daysInPreviousYears (Suc ?y) = daysInPreviousYears ?y + year_length ?y"
    using next_year [of "?y - 1"] y(1) by simp
  obtain m r where l: "month_loop ?y (n - daysInPreviousYears ?y) 1 = (m, r)" by (cases "month_loop ?y (n - daysInPreviousYears ?y) 1")
  have m: "1 \<le> m" "m \<le> 12" "r < daysInMonth ?y m" "n - daysInPreviousYears ?y = month_start ?y m + r"
    using month_loop_found [OF _ _ _ l] y up by (auto simp: month_start_1)
  have d: "dateFromOrdinal n = \<lparr>cd_year = ?y, cd_month = m,
      cd_day = (if ?y = 1582 \<and> m = 10 \<and> 4 < r + 1 then r + 11 else r + 1)\<rparr>"
    using l by (simp add: dateFromOrdinal_def Let_def)
  show v: "valid_date (dateFromOrdinal n)"
    unfolding d valid_date_iff using y m by (auto simp: october_1582)
  show "dateOrdinal (dateFromOrdinal n) = n"
    using date_number(1) [OF v] y(3) m(4) unfolding d by (auto simp: day_position_def split: if_splits)
qed

section \<open>The closed form is the sum\<close>

text \<open>The days before a year, which the code computes in closed form from the cycles of 4, 100 and 400 years
and the ten days left out in 1582, are the sum of the lengths of all months of all earlier years.\<close>

theorem days_before_year_sum: "daysInPreviousYears (Suc n) = (\<Sum>y\<leftarrow>[1..<Suc n]. \<Sum>m\<leftarrow>[1..<13]. daysInMonth y m)"
proof (induction n)
  case 0
  then show ?case by (simp add: previous_start)
next
  case (Suc n)
  then show ?case by (simp add: next_year year_length_def del: upt_Suc) (simp add: upt_Suc_append)
qed

end
