(* ===== verification/CalendarWeeks.thy ===== *)
theory CalendarWeeks
  imports Calendar
begin

text \<open>
  The calendar weeks of \<open>src/values/classic-temporal.ts\<close>: which years have a week 53, the table of those
  years and the number of a week. The table is searched by bisection, and so is the year of a week
  number; both are instances of \<open>bisection\<close>.
\<close>

definition calendarYearHasWeek53 :: "nat \<Rightarrow> bool" where
  "calendarYearHasWeek53 year =
    (let januaryFirst = (5 + daysInPreviousYears year) mod 7
     in januaryFirst = 3 \<or> januaryFirst = 2 \<and> isLeapYear year)"

definition YEARS_WITH_WEEK_53 :: "nat list" where
  "YEARS_WITH_WEEK_53 = filter calendarYearHasWeek53 [1..<10000]"

function prior_search :: "nat \<Rightarrow> nat \<Rightarrow> nat \<Rightarrow> nat" where
  "prior_search year lower upper =
    (if lower < upper
     then let middle = (lower + upper) div 2 in
       if YEARS_WITH_WEEK_53 ! middle < year then prior_search year (middle + 1) upper
       else prior_search year lower middle
     else lower)"
  by pat_completeness auto
termination by (relation "measure (\<lambda>(year, lower, upper). upper - lower)") auto

declare prior_search.simps [simp del]

definition priorWeek53Count :: "nat \<Rightarrow> nat" where
  "priorWeek53Count year = prior_search year 0 (length YEARS_WITH_WEEK_53)"

definition weekOrdinal :: "nat \<Rightarrow> nat \<Rightarrow> nat result" where
  "weekOrdinal year week =
    (if year = 0
     then if week = 53 then Inr 0 else Inl (RangeError ''DTWEEK year zero permits only 0000-W53'')
     else let priorLongYears = priorWeek53Count year in
       if week = 53 \<and> \<not> (priorLongYears < length YEARS_WITH_WEEK_53 \<and> YEARS_WITH_WEEK_53 ! priorLongYears = year)
       then Inl (RangeError ''does not have week 53'')
       else Inr (priorLongYears * 53 + (year - 1 - priorLongYears) * 52 + week))"

function week_search :: "nat \<Rightarrow> nat \<Rightarrow> nat \<Rightarrow> nat" where
  "week_search ordinal lower upper =
    (if lower < upper
     then let year = (lower + upper) div 2;
              throughYear = year * 52 + priorWeek53Count (year + 1) in
       if ordinal \<le> throughYear then week_search ordinal lower year
       else week_search ordinal (year + 1) upper
     else lower)"
  by pat_completeness auto
termination by (relation "measure (\<lambda>(ordinal, lower, upper). upper - lower)") auto

declare week_search.simps [simp del]

definition weekFromOrdinal :: "nat \<Rightarrow> nat \<times> nat" where
  "weekFromOrdinal ordinal =
    (if ordinal = 0 then (0, 53)
     else let year = week_search ordinal 1 9999;
              beforeYear = (year - 1) * 52 + priorWeek53Count year
          in (year, ordinal - beforeYear))"

section \<open>Counting the years with a week 53\<close>

definition long_years :: "nat \<Rightarrow> nat \<Rightarrow> nat" where
  "long_years a b = length (filter calendarYearHasWeek53 [a..<b])"

lemma long_years_split: "a \<le> b \<Longrightarrow> b \<le> c \<Longrightarrow> long_years a c = long_years a b + long_years b c"
  using upt_add_eq_append [of a b "c - b"] by (simp add: long_years_def)

lemma long_years_Suc: "a \<le> b \<Longrightarrow> long_years a (Suc b) = long_years a b + (if calendarYearHasWeek53 b then 1 else 0)"
  by (simp add: long_years_def)

lemma long_years_mono: "b \<le> c \<Longrightarrow> long_years a b \<le> long_years a c"
  by (induction c) (auto simp: le_Suc_eq long_years_def)

lemma long_years_le: "long_years a b \<le> b - a"
  unfolding long_years_def using length_filter_le [of calendarYearHasWeek53 "[a..<b]"] by simp

text \<open>The weeks before a year in the code's count of long years, and the same number from the days alone: the
year has a week 53 exactly if it brings a multiple of seven more days. The ten days left out in 1582 cost one
week of that count.\<close>

definition weeks_before :: "nat \<Rightarrow> nat" where
  "weeks_before year = (year - 1) * 52 + long_years 1 year"

lemma weeks_before_1: "weeks_before 1 = 0" "weeks_before (Suc 0) = 0"
  by (simp_all add: weeks_before_def long_years_def)

lemma weeks_before_Suc:
  "1 \<le> y \<Longrightarrow> weeks_before (Suc y) = weeks_before y + (if calendarYearHasWeek53 y then 53 else 52)"
  by (cases y) (simp_all add: weeks_before_def long_years_Suc)

lemma weeks_before_days: "weeks_before (Suc p) = (daysInPreviousYears (Suc p) + (if 1582 \<le> p then 8 else 1)) div 7"
proof (induction p)
  case 0
  then show ?case by (simp add: weeks_before_1 previous_start)
next
  case (Suc p)
  define D where "D = daysInPreviousYears (Suc p)"
  have long: "calendarYearHasWeek53 (Suc p) \<longleftrightarrow> (5 + D) mod 7 = 3 \<or> (5 + D) mod 7 = 2 \<and> isLeapYear (Suc p)"
    by (simp add: calendarYearHasWeek53_def Let_def D_def)
  have up: "weeks_before (Suc (Suc p)) = weeks_before (Suc p) + (if calendarYearHasWeek53 (Suc p) then 53 else 52)"
    by (rule weeks_before_Suc) simp
  show ?case
  proof (cases "p = 1581")
    case True
    have "D = 577460" "daysInPreviousYears 1582 = 577460" unfolding D_def True by (simp_all add: daysInPreviousYears_def)
    then show ?thesis using Suc up long unfolding next_year year_length_eq D_def [symmetric] True by simp
  next
    case False
    then have c: "(1582 \<le> Suc p) = (1582 \<le> p)" by linarith
    have y: "year_length (Suc p) = (if isLeapYear (Suc p) then 366 else 365)" using False by (simp add: year_length_eq)
    have week: "(D + c) div 7 + (if (5 + D) mod 7 = 3 \<or> (5 + D) mod 7 = 2 \<and> leap then 53 else 52) =
        (D + (if leap then 366 else 365) + c) div 7" if "c = 8 \<or> c = 1" for c :: nat and leap
    proof -
      have step: "E div 7 + (if (E + 4) mod 7 = 3 \<or> (E + 4) mod 7 = 2 \<and> leap then 53 else 52) =
          (E + (if leap then 366 else 365)) div 7" for E :: nat
      proof -
        obtain q r where E: "E = r + q * 7" "r < 7" by (rule that [of "E mod 7" "E div 7"]) simp_all
        have shift: "(r + q * 7 + k) div 7 = q + (r + k) div 7" "(r + q * 7 + k) mod 7 = (r + k) mod 7" for k
          using div_mult_self1 [of 7 "r + k" q] mod_mult_self1 [of "r + k" q 7] by (simp_all add: ac_simps)
        have "r \<in> {0, 1, 2, 3, 4, 5, 6}" using E(2) by auto
        then have "r div 7 + (if (r + 4) mod 7 = 3 \<or> (r + 4) mod 7 = 2 \<and> leap then 53 else 52) =
            (r + (if leap then 366 else 365)) div 7"
          by (cases leap) (elim insertE emptyE; hypsubst; simp)+
        then show ?thesis unfolding E(1) shift shift(1) [of 0, unfolded add_0_right] by simp
      qed
      have "(D + c + 4) mod 7 = (5 + D) mod 7" using that by presburger
      then show ?thesis using step [of "D + c"] by (simp only: ac_simps)
    qed
    show ?thesis unfolding up long next_year c y Suc.IH D_def [symmetric] by (rule week) simp
  qed
qed

lemma weeks_before_mono: "i \<le> j \<Longrightarrow> weeks_before i \<le> weeks_before j"
  using long_years_mono [of i j 1] by (simp add: weeks_before_def add_mono)

lemma weeks_before_end: "weeks_before 10000 = 521724"
  using weeks_before_days [of 9999] calendar_end by (simp add: calendar_days_def)

section \<open>The searches\<close>

lemma years_table_split:
  assumes "1 \<le> y" and "y \<le> 10000"
  shows "YEARS_WITH_WEEK_53 = filter calendarYearHasWeek53 [1..<y] @ filter calendarYearHasWeek53 [y..<10000]"
  using assms upt_add_eq_append [of 1 y "10000 - y"] by (simp add: YEARS_WITH_WEEK_53_def)

interpretation prior: bisection 0 "length YEARS_WITH_WEEK_53"
    "\<lambda>i. length YEARS_WITH_WEEK_53 \<le> i \<or> \<not> YEARS_WITH_WEEK_53 ! i < year" "prior_search year"
  for year
proof
  have sorted: "sorted YEARS_WITH_WEEK_53" by (simp add: YEARS_WITH_WEEK_53_def sorted_wrt_filter)
  show "length YEARS_WITH_WEEK_53 \<le> j \<or> \<not> YEARS_WITH_WEEK_53 ! j < year"
    if "length YEARS_WITH_WEEK_53 \<le> i \<or> \<not> YEARS_WITH_WEEK_53 ! i < year" "i \<le> j" for i j
    using that sorted_nth_mono [OF sorted, of i j] by linarith
  show "prior_search year lower lower = lower" for lower by (subst prior_search.simps) simp
  show "\<exists>m. lower \<le> m \<and> m < upper \<and> prior_search year lower upper =
      (if length YEARS_WITH_WEEK_53 \<le> m \<or> \<not> YEARS_WITH_WEEK_53 ! m < year then prior_search year lower m
       else prior_search year (Suc m) upper)" if "lower < upper" "upper \<le> length YEARS_WITH_WEEK_53" for lower upper
  proof (intro exI conjI)
    show "lower \<le> (lower + upper) div 2" "(lower + upper) div 2 < upper" using that(1) by auto
    then show "prior_search year lower upper =
      (if length YEARS_WITH_WEEK_53 \<le> (lower + upper) div 2 \<or> \<not> YEARS_WITH_WEEK_53 ! ((lower + upper) div 2) < year
       then prior_search year lower ((lower + upper) div 2) else prior_search year (Suc ((lower + upper) div 2)) upper)"
      using that by (subst prior_search.simps) (simp add: Let_def)
  qed
qed

lemma priorWeek53Count_eq:
  assumes "1 \<le> y" and "y \<le> 10000"
  shows "priorWeek53Count y = long_years 1 y"
  unfolding priorWeek53Count_def
proof (rule prior.unique)
  let ?before = "filter calendarYearHasWeek53 [1..<y]" and ?after = "filter calendarYearHasWeek53 [y..<10000]"
  note split = years_table_split [OF assms]
  show "long_years 1 y \<le> length YEARS_WITH_WEEK_53" by (simp add: split long_years_def)
  show "length YEARS_WITH_WEEK_53 \<le> long_years 1 y \<or> \<not> YEARS_WITH_WEEK_53 ! long_years 1 y < y"
  proof (cases ?after)
    case (Cons z zs)
    then have "z \<in> set ?after" by simp
    then have "y \<le> z" by simp
    then show ?thesis using Cons by (simp add: split long_years_def nth_append)
  qed (simp add: split long_years_def)
  show "\<not> (length YEARS_WITH_WEEK_53 \<le> i \<or> \<not> YEARS_WITH_WEEK_53 ! i < y)" if "i < long_years 1 y" for i
    using that nth_mem [of i ?before] by (auto simp: split long_years_def nth_append)
qed simp_all

lemma prior_hit:
  assumes "1 \<le> y" and "y \<le> 9999"
  shows "priorWeek53Count y < length YEARS_WITH_WEEK_53 \<and> YEARS_WITH_WEEK_53 ! priorWeek53Count y = y \<longleftrightarrow> calendarYearHasWeek53 y"
proof -
  have up: "[y..<10000] = y # [Suc y..<10000]" using assms by (simp add: upt_conv_Cons)
  have "filter calendarYearHasWeek53 [Suc y..<10000] = [] \<or> hd (filter calendarYearHasWeek53 [Suc y..<10000]) \<in> {Suc y..<10000}"
    using hd_in_set [of "filter calendarYearHasWeek53 [Suc y..<10000]"] by fastforce
  then show ?thesis using assms
    by (cases "filter calendarYearHasWeek53 [Suc y..<10000]")
       (auto simp: priorWeek53Count_eq years_table_split [of y] long_years_def nth_append up)
qed

lemma week_number:
  assumes "1 \<le> y" and "y \<le> 9999"
  shows "weekOrdinal y w = (if w = 53 \<and> \<not> calendarYearHasWeek53 y then Inl (RangeError ''does not have week 53'')
    else Inr (weeks_before y + w))"
proof -
  have "long_years 1 y \<le> y - 1" using long_years_le [of 1 y] by simp
  then show ?thesis using assms unfolding weekOrdinal_def Let_def prior_hit [OF assms]
    by (simp add: priorWeek53Count_eq weeks_before_def algebra_simps)
qed

interpretation weeks: bisection 1 9999 "\<lambda>y. ordinal \<le> weeks_before (Suc y)" "week_search ordinal"
  for ordinal
proof
  show "ordinal \<le> weeks_before (Suc j)" if "ordinal \<le> weeks_before (Suc i)" "i \<le> j" for i j
    using that weeks_before_mono [of "Suc i" "Suc j"] by simp
  show "week_search ordinal lower lower = lower" for lower by (subst week_search.simps) simp
  show "\<exists>m. lower \<le> m \<and> m < upper \<and> week_search ordinal lower upper =
      (if ordinal \<le> weeks_before (Suc m) then week_search ordinal lower m else week_search ordinal (Suc m) upper)"
    if "1 \<le> lower" "lower < upper" "upper \<le> 9999" for lower upper
  proof (intro exI conjI)
    show m: "lower \<le> (lower + upper) div 2" "(lower + upper) div 2 < upper" using that by auto
    have "priorWeek53Count (Suc ((lower + upper) div 2)) = long_years 1 (Suc ((lower + upper) div 2))"
      using m that by (intro priorWeek53Count_eq) simp_all
    then have "(lower + upper) div 2 * 52 + priorWeek53Count (Suc ((lower + upper) div 2)) = weeks_before (Suc ((lower + upper) div 2))"
      by (simp add: weeks_before_def)
    then show "week_search ordinal lower upper = (if ordinal \<le> weeks_before (Suc ((lower + upper) div 2))
        then week_search ordinal lower ((lower + upper) div 2) else week_search ordinal (Suc ((lower + upper) div 2)) upper)"
      using that by (subst week_search.simps) (simp add: Let_def)
  qed
qed

text \<open>The year and the week of a week number, in both directions.\<close>

definition valid_week :: "nat \<Rightarrow> nat \<Rightarrow> bool" where
  "valid_week year week \<longleftrightarrow> year = 0 \<and> week = 53 \<or>
    1 \<le> year \<and> year \<le> 9999 \<and> 1 \<le> week \<and> week \<le> (if calendarYearHasWeek53 year then 53 else 52)"

lemma weekOrdinal_valid:
  assumes "year \<le> 9999" and "1 \<le> week" and "week \<le> 53"
  shows "weekOrdinal year week = Inr n \<longleftrightarrow>
    valid_week year week \<and> n = (if year = 0 then 0 else weeks_before year + week)"
proof (cases "year = 0")
  case True
  then show ?thesis using assms by (auto simp: weekOrdinal_def valid_week_def)
next
  case False
  then have "1 \<le> year" by simp
  show ?thesis unfolding week_number [OF \<open>1 \<le> year\<close> assms(1)] using False assms by (auto simp: valid_week_def)
qed

lemma week_of_number:
  assumes "valid_week year week" and "weekOrdinal year week = Inr n"
  shows "weekFromOrdinal n = (year, week)" and "n \<le> 521724"
proof -
  consider "year = 0" "week = 53" "n = 0" | "1 \<le> year" "year \<le> 9999" "1 \<le> week" "week \<le> 53"
      "week \<le> (if calendarYearHasWeek53 year then 53 else 52)" "n = weeks_before year + week"
    using assms weekOrdinal_valid [of year week n] by (auto simp: valid_week_def weekOrdinal_def split: if_splits)
  then have "weekFromOrdinal n = (year, week) \<and> n \<le> 521724"
  proof cases
    case 2
    have up: "n \<le> weeks_before (Suc year)" using 2 weeks_before_Suc [of year] by simp
    have "week_search n 1 9999 = year"
    proof (rule weeks.unique)
      show "\<not> n \<le> weeks_before (Suc i)" if "i < year" for i using that 2 weeks_before_mono [of "Suc i" year] by simp
    qed (use 2 up in simp_all)
    moreover have "n - ((year - 1) * 52 + priorWeek53Count year) = week"
      using 2 by (simp add: priorWeek53Count_eq weeks_before_def)
    moreover have "n \<le> 521724" using up weeks_before_mono [of "Suc year" 10000] 2 weeks_before_end by simp
    ultimately show ?thesis using 2 by (simp add: weekFromOrdinal_def Let_def)
  qed (simp add: weekFromOrdinal_def)
  then show "weekFromOrdinal n = (year, week)" and "n \<le> 521724" by simp_all
qed

lemma number_of_week:
  assumes "n \<le> 521724" and "weekFromOrdinal n = (year, week)"
  shows "valid_week year week" and "weekOrdinal year week = Inr n"
proof -
  have "valid_week year week \<and> weekOrdinal year week = Inr n"
  proof (cases "n = 0")
    case True
    then show ?thesis using assms by (auto simp: weekFromOrdinal_def valid_week_def weekOrdinal_def)
  next
    case False
    define y where "y = week_search n 1 9999"
    have f: "1 \<le> y" "y \<le> 9999" "\<And>i. 1 \<le> i \<Longrightarrow> i < y \<Longrightarrow> \<not> n \<le> weeks_before (Suc i)"
      "y < 9999 \<Longrightarrow> n \<le> weeks_before (Suc y)" using weeks.finds [of 1 9999 n] unfolding y_def by auto
    have up: "n \<le> weeks_before (Suc y)"
    proof (cases "y = 9999")
      case True
      then show ?thesis using assms(1) weeks_before_end by simp
    qed (use f in simp)
    have low: "weeks_before y < n"
    proof (cases "y = 1")
      case True
      then show ?thesis using False weeks_before_1 by simp
    next
      case False
      then have "1 \<le> y - 1" "y - 1 < y" "Suc (y - 1) = y" using f(1) by linarith+
      then show ?thesis using f(3) [of "y - 1"] by (metis not_le)
    qed
    have eq: "year = y" "week = n - weeks_before y"
      using assms(2) False f(1,2) by (auto simp: weekFromOrdinal_def Let_def y_def [unfolded One_nat_def, symmetric] priorWeek53Count_eq weeks_before_def)
    have w: "1 \<le> week" "week \<le> (if calendarYearHasWeek53 y then 53 else 52)"
      using low up weeks_before_Suc [OF f(1)] eq(2) by (auto split: if_splits)
    then have "valid_week y week" using f(1,2) by (simp add: valid_week_def)
    moreover have "weekOrdinal y week = Inr n" using w low f(1,2) eq(2) by (auto simp: week_number split: if_splits)
    ultimately show ?thesis using eq(1) by simp
  qed
  then show "valid_week year week" and "weekOrdinal year week = Inr n" by simp_all
qed

section \<open>Weeks from days\<close>

text \<open>The weeks before a year, counted by the table of the years with a week 53, are the whole weeks among the
days before it; from 1583 on the code counts one week more than the days give, for the ten days left out.\<close>

theorem weeks_before_year_days:
  "1 \<le> y \<Longrightarrow> y \<le> 10000 \<Longrightarrow>
    (y - 1) * 52 + priorWeek53Count y = (daysInPreviousYears y + (if 1582 < y then 8 else 1)) div 7"
  using weeks_before_days [of "y - 1"] by (simp add: priorWeek53Count_eq weeks_before_def Suc_le_eq)

lemma weeks_before_year_days_witness: "2023 * 52 + priorWeek53Count 2024 = 105556"
  using weeks_before_year_days [of 2024] by (simp add: daysInPreviousYears_def)

end
