(* ===== verification/TextForms.thy ===== *)
theory TextForms
  imports Prelude
begin

text \<open>
  Fixed-width decimal text, as the temporal values of \<open>src/values/classic-temporal.ts\<close> use it:
  \<open>Number.toString\<close>, \<open>padStart\<close>, and the anchored patterns whose only variable parts are groups
  \<open>(\d{n})\<close>. A pattern is a list of parts; matching it yields the numbers of its groups.
\<close>

definition is_digit_char :: "char \<Rightarrow> bool" where
  "is_digit_char c \<longleftrightarrow> 48 \<le> (of_char c :: nat) \<and> (of_char c :: nat) \<le> 57"

definition digit_value :: "char \<Rightarrow> nat" where
  "digit_value c = of_char c - 48"

definition digit_char :: "nat \<Rightarrow> char" where
  "digit_char d = char_of (48 + d)"

text \<open>\<open>Number(text)\<close> of a text of digits, \<open>value.toString()\<close>, and \<open>text.padStart(width, "0")\<close>.\<close>

definition digits_number :: "string \<Rightarrow> nat" where
  "digits_number = foldl (\<lambda>n c. n * 10 + digit_value c) 0"

fun decimal_string :: "nat \<Rightarrow> string" where
  "decimal_string n = (if n < 10 then [digit_char n] else decimal_string (n div 10) @ [digit_char (n mod 10)])"

declare decimal_string.simps [simp del]

definition pad_start :: "nat \<Rightarrow> char \<Rightarrow> string \<Rightarrow> string" where
  "pad_start width c s = replicate (width - length s) c @ s"

datatype form_part = Digits nat | Literal char

fun match_form :: "form_part list \<Rightarrow> string \<Rightarrow> nat list option" where
  "match_form [] s = (if s = [] then Some [] else None)"
| "match_form (Literal c # ps) s = (case s of [] \<Rightarrow> None | x # xs \<Rightarrow> if x = c then match_form ps xs else None)"
| "match_form (Digits n # ps) s =
    (if n \<le> length s \<and> list_all is_digit_char (take n s)
     then map_option ((#) (digits_number (take n s))) (match_form ps (drop n s))
     else None)"

text \<open>The text of given numbers in a form, and the numbers that fit its groups.\<close>

fun form_text :: "form_part list \<Rightarrow> nat list \<Rightarrow> string" where
  "form_text [] vs = []"
| "form_text (Literal c # ps) vs = c # form_text ps vs"
| "form_text (Digits n # ps) (v # vs) = pad_start n (CHR ''0'') (decimal_string v) @ form_text ps vs"
| "form_text (Digits n # ps) [] = []"

fun form_fits :: "form_part list \<Rightarrow> nat list \<Rightarrow> bool" where
  "form_fits [] vs = (vs = [])"
| "form_fits (Literal c # ps) vs = form_fits ps vs"
| "form_fits (Digits n # ps) vs = (case vs of [] \<Rightarrow> False | v # vs' \<Rightarrow> 0 < n \<and> v < 10 ^ n \<and> form_fits ps vs')"

section \<open>Digits\<close>

lemma digit_char_digit [simp]: "d < 10 \<Longrightarrow> is_digit_char (digit_char d)" "d < 10 \<Longrightarrow> digit_value (digit_char d) = d"
  by (simp_all add: is_digit_char_def digit_char_def digit_value_def)

lemma digit_value_char [simp]: "is_digit_char c \<Longrightarrow> digit_char (digit_value c) = c"
  by (simp add: is_digit_char_def digit_char_def digit_value_def)

lemma digit_value_less: "is_digit_char c \<Longrightarrow> digit_value c < 10"
  unfolding is_digit_char_def digit_value_def by linarith

lemma digit_char_0: "digit_char 0 = CHR ''0''"
  by (simp add: digit_char_def char_of_def bit_iff_odd)

lemma digits_number_simps [simp]:
  "digits_number [] = 0" "digits_number (s @ [c]) = digits_number s * 10 + digit_value c"
  by (simp_all add: digits_number_def)

fun fixed_digits :: "nat \<Rightarrow> nat \<Rightarrow> string" where
  "fixed_digits 0 v = []"
| "fixed_digits (Suc n) v = fixed_digits n (v div 10) @ [digit_char (v mod 10)]"

lemma fixed_digits_basic [simp]: "length (fixed_digits n v) = n" "list_all is_digit_char (fixed_digits n v)"
  by (induction n arbitrary: v) simp_all

lemma fixed_digits_zero: "fixed_digits n 0 = replicate n (CHR ''0'')"
  by (induction n) (simp_all add: digit_char_0 replicate_append_same)

lemma digits_number_fixed [simp]: "digits_number (fixed_digits n v) = v mod 10 ^ n"
proof (induction n arbitrary: v)
  case (Suc n)
  have "v mod 10 ^ Suc n = v div 10 mod 10 ^ n * 10 + v mod 10"
    using mod_mult2_eq [of v 10 "10 ^ n"] by (simp add: mult.commute)
  then show ?case using Suc by simp
qed simp

lemma digits_number_less: "list_all is_digit_char s \<Longrightarrow> digits_number s < 10 ^ length s"
proof (induction s rule: rev_induct)
  case (snoc c s)
  then show ?case using digit_value_less [of c] by simp
qed simp

lemma fixed_digits_number: "list_all is_digit_char s \<Longrightarrow> fixed_digits (length s) (digits_number s) = s"
  by (induction s rule: rev_induct) (simp_all add: digit_value_less)

lemma decimal_string_fixed: "decimal_string v = fixed_digits (length (decimal_string v)) v"
proof (induction v rule: decimal_string.induct)
  case (1 n)
  then show ?case by (cases "n < 10") (simp_all add: decimal_string.simps [of n])
qed

lemma decimal_string_length: "0 < n \<Longrightarrow> v < 10 ^ n \<Longrightarrow> length (decimal_string v) \<le> n"
proof (induction n arbitrary: v)
  case (Suc n)
  show ?case
  proof (cases "v < 10")
    case False
    then have "0 < n" using Suc.prems by (cases n) auto
    moreover have "v div 10 < 10 ^ n" using Suc.prems by (simp add: less_mult_imp_div_less mult.commute)
    ultimately show ?thesis using Suc.IH [of "v div 10"] False by (simp add: decimal_string.simps [of v])
  qed (simp add: decimal_string.simps)
qed simp

lemma fixed_digits_pad:
  "n \<le> m \<Longrightarrow> v < 10 ^ n \<Longrightarrow> fixed_digits m v = replicate (m - n) (CHR ''0'') @ fixed_digits n v"
proof (induction n arbitrary: m v)
  case (Suc n)
  then obtain k where m: "m = Suc k" by (cases m) auto
  have "v div 10 < 10 ^ n" using Suc.prems by (simp add: less_mult_imp_div_less mult.commute)
  then show ?case using Suc.IH [of k "v div 10"] Suc.prems(1) by (simp add: m)
qed (simp add: fixed_digits_zero)

lemma decimal_string_bound: "v < 10 ^ length (decimal_string v)"
proof (induction v rule: decimal_string.induct)
  case (1 n)
  show ?case
  proof (cases "n < 10")
    case False
    then have "n div 10 < 10 ^ length (decimal_string (n div 10))" using 1 by simp
    then have "n < 10 * 10 ^ length (decimal_string (n div 10))" by simp
    then show ?thesis using False by (simp add: decimal_string.simps [of n])
  qed (simp add: decimal_string.simps)
qed

lemma pad_start_fixed: "0 < n \<Longrightarrow> v < 10 ^ n \<Longrightarrow> pad_start n (CHR ''0'') (decimal_string v) = fixed_digits n v"
  unfolding pad_start_def using fixed_digits_pad [OF decimal_string_length decimal_string_bound] decimal_string_fixed [of v]
  by simp

section \<open>Matching inverts printing\<close>

definition form_ok :: "form_part list \<Rightarrow> bool" where
  "form_ok ps \<longleftrightarrow> list_all (\<lambda>p. p \<noteq> Digits 0) ps"

lemma match_form_iff: "form_ok ps \<Longrightarrow> match_form ps s = Some vs \<longleftrightarrow> form_fits ps vs \<and> s = form_text ps vs"
proof (induction ps s arbitrary: vs rule: match_form.induct)
  case (1 s)
  then show ?case by auto
next
  case (2 c ps s)
  then show ?case by (cases s) (auto simp: form_ok_def)
next
  case (3 n ps s)
  have ok: "0 < n" "form_ok ps" using "3.prems" by (auto simp: form_ok_def)
  show ?case
  proof
    assume "match_form (Digits n # ps) s = Some vs"
    then obtain vs' where m: "n \<le> length s" "list_all is_digit_char (take n s)" "vs = digits_number (take n s) # vs'"
      "match_form ps (drop n s) = Some vs'" by (auto split: if_splits)
    then have "form_fits ps vs'" "drop n s = form_text ps vs'" using 3 ok(2) by auto
    moreover have "digits_number (take n s) < 10 ^ n" using digits_number_less [OF m(2)] m(1) by simp
    moreover have "fixed_digits n (digits_number (take n s)) = take n s" using fixed_digits_number [OF m(2)] m(1) by simp
    ultimately show "form_fits (Digits n # ps) vs \<and> s = form_text (Digits n # ps) vs"
      using m(3) ok(1) by (simp add: pad_start_fixed) (metis append_take_drop_id)
  next
    assume f: "form_fits (Digits n # ps) vs \<and> s = form_text (Digits n # ps) vs"
    then obtain v vs' where v: "vs = v # vs'" "v < 10 ^ n" "form_fits ps vs'" by (cases vs) auto
    then have s: "s = fixed_digits n v @ form_text ps vs'" using f ok(1) by (simp add: pad_start_fixed)
    have "match_form ps (form_text ps vs') = Some vs'" using "3.IH" ok(2) v(3) s by simp
    then show "match_form (Digits n # ps) s = Some vs" using v s by simp
  qed
qed

lemma form_fits_Digits [simp]:
  "form_fits (Digits n # ps) vs \<longleftrightarrow> (\<exists>v vs'. vs = v # vs' \<and> 0 < n \<and> v < 10 ^ n \<and> form_fits ps vs')"
  by (cases vs) auto

declare form_fits.simps(3) [simp del]

end
