(* ===== verification/ClassicTemporal.thy ===== *)
theory ClassicTemporal
  imports CalendarWeeks TextForms
begin

text \<open>
  The compact temporal values of \<open>src/values/classic-temporal.ts\<close>: nine kinds of a date, a clock time or
  a point in time, each a fixed text form for the caller and a signed little-endian integer on the wire,
  zero for the initial value. The texts are matched by the patterns of \<open>TextForms\<close>, the calendar is
  \<open>Calendar\<close> and \<open>CalendarWeeks\<close>. An exid is a constructor named after the specification it selects;
  \<open>exid_of_char\<close> is \<open>isClassicTemporalExid\<close>.
\<close>

datatype temporal_exid = UTCLONG | UTCSECOND | UTCMINUTE | DTDAY | DTWEEK | DTMONTH | TSECOND | TMINUTE | CDAY

definition exid_of_char :: "char \<Rightarrow> temporal_exid option" where
  "exid_of_char c =
    (if c = CHR ''p'' then Some UTCLONG else if c = CHR ''n'' then Some UTCSECOND
     else if c = CHR ''w'' then Some UTCMINUTE else if c = CHR ''d'' then Some DTDAY
     else if c = CHR ''7'' then Some DTWEEK else if c = CHR ''x'' then Some DTMONTH
     else if c = CHR ''t'' then Some TSECOND else if c = CHR ''i'' then Some TMINUTE
     else if c = CHR ''c'' then Some CDAY else None)"

text \<open>\<open>SPECIFICATIONS\<close>: the width in bytes and the largest raw value.\<close>

fun spec_byteLength :: "temporal_exid \<Rightarrow> nat" where
  "spec_byteLength UTCLONG = 8"
| "spec_byteLength UTCSECOND = 8"
| "spec_byteLength UTCMINUTE = 8"
| "spec_byteLength DTDAY = 4"
| "spec_byteLength DTWEEK = 4"
| "spec_byteLength DTMONTH = 4"
| "spec_byteLength TSECOND = 4"
| "spec_byteLength TMINUTE = 2"
| "spec_byteLength CDAY = 2"

fun spec_maximumRaw :: "temporal_exid \<Rightarrow> nat" where
  "spec_maximumRaw UTCLONG = 3155380704000000000"
| "spec_maximumRaw UTCSECOND = 315538070400"
| "spec_maximumRaw UTCMINUTE = 5258967840"
| "spec_maximumRaw DTDAY = 3652061"
| "spec_maximumRaw DTWEEK = 521725"
| "spec_maximumRaw DTMONTH = 119988"
| "spec_maximumRaw TSECOND = 86401"
| "spec_maximumRaw TMINUTE = 1441"
| "spec_maximumRaw CDAY = 366"

definition UTCLONG_INITIAL :: string where
  "UTCLONG_INITIAL = ''0000-00-00T00:00:00.0000000''"

definition classicTemporalInitialValue :: "temporal_exid \<Rightarrow> string" where
  "classicTemporalInitialValue exid = (if exid = UTCLONG then UTCLONG_INITIAL else '''')"

section \<open>Clock times\<close>

record clock_time =
  ct_hour :: nat
  ct_minute :: nat
  ct_second :: nat

definition parseClock :: "nat \<Rightarrow> nat \<Rightarrow> nat \<Rightarrow> bool \<Rightarrow> clock_time result" where
  "parseClock hour minute second allowEndOfDay =
    (let maximumHour = (if allowEndOfDay then 24 else 23) in
     if maximumHour < hour then Inl (RangeError ''hours must be in 00..'')
     else if 59 < minute then Inl (RangeError ''minutes must be in 00..59'')
     else if 59 < second then Inl (RangeError ''seconds must be in 00..59'')
     else if hour = 24 \<and> (minute \<noteq> 0 \<or> second \<noteq> 0) then Inl (RangeError ''must not exceed'')
     else Inr \<lparr>ct_hour = hour, ct_minute = minute, ct_second = second\<rparr>)"

definition clockSeconds :: "clock_time \<Rightarrow> nat" where
  "clockSeconds clock = ct_hour clock * 3600 + ct_minute clock * 60 + ct_second clock"

definition twoDigits :: "nat \<Rightarrow> string" where
  "twoDigits v = pad_start 2 (CHR ''0'') (decimal_string v)"

definition fourDigits :: "nat \<Rightarrow> string" where
  "fourDigits v = pad_start 4 (CHR ''0'') (decimal_string v)"

definition formatDate :: "calendar_date \<Rightarrow> string" where
  "formatDate d = fourDigits (cd_year d) @ ''-'' @ twoDigits (cd_month d) @ ''-'' @ twoDigits (cd_day d)"

definition formatClock :: "nat \<Rightarrow> bool \<Rightarrow> string" where
  "formatClock seconds includeSeconds =
    (let hour = seconds div 3600;
         afterHours = seconds mod 3600;
         minute = afterHours div 60
     in if \<not> includeSeconds then twoDigits hour @ '':'' @ twoDigits minute
        else twoDigits hour @ '':'' @ twoDigits minute @ '':'' @ twoDigits (afterHours mod 60))"

section \<open>The raw value\<close>

definition encodeRaw :: "temporal_exid \<Rightarrow> int \<Rightarrow> bytes result" where
  "encodeRaw exid raw =
    (if raw < 0 \<or> int (spec_maximumRaw exid) < raw then Inl (RangeError ''is outside its valid raw range'')
     else Inr (le_encode (spec_byteLength exid) (from_signed (spec_byteLength exid) raw)))"

definition rawValue :: "temporal_exid \<Rightarrow> bytes \<Rightarrow> int result" where
  "rawValue exid bs =
    (if length bs \<noteq> spec_byteLength exid then Inl (RangeError ''raw bytes; received'')
     else let raw = to_signed (spec_byteLength exid) (le_decode bs) in
       if raw < 0 \<or> int (spec_maximumRaw exid) < raw then Inl (RangeError ''is outside its valid raw range'')
       else Inr raw)"

section \<open>Texts to raw values\<close>

definition expectForm :: "form_part list \<Rightarrow> string \<Rightarrow> nat list result" where
  "expectForm form s = (case match_form form s of None \<Rightarrow> Inl (TypeError ''expects'') | Some m \<Rightarrow> Inr m)"

definition date_form :: "form_part list" where
  "date_form = [Digits 4, Literal (CHR ''-''), Digits 2, Literal (CHR ''-''), Digits 2]"

definition minute_form :: "form_part list" where
  "minute_form = [Digits 2, Literal (CHR '':''), Digits 2]"

definition second_form :: "form_part list" where
  "second_form = minute_form @ [Literal (CHR '':''), Digits 2]"

fun temporal_raw :: "temporal_exid \<Rightarrow> string \<Rightarrow> nat result" where
  "temporal_raw UTCLONG s =
    rbind (expectForm (date_form @ Literal (CHR ''T'') # second_form @ [Literal (CHR ''.''), Digits 7]) s) (\<lambda>m.
    rbind (parseDateParts (m ! 0) (m ! 1) (m ! 2)) (\<lambda>date.
    rbind (parseClock (m ! 3) (m ! 4) (m ! 5) False) (\<lambda>clock.
    Inr ((dateOrdinal date * 86400 + clockSeconds clock) * 10000000 + m ! 6 + 1))))"
| "temporal_raw UTCSECOND s =
    rbind (expectForm (date_form @ Literal (CHR ''T'') # second_form) s) (\<lambda>m.
    rbind (parseDateParts (m ! 0) (m ! 1) (m ! 2)) (\<lambda>date.
    rbind (parseClock (m ! 3) (m ! 4) (m ! 5) False) (\<lambda>clock.
    Inr (dateOrdinal date * 86400 + clockSeconds clock + 1))))"
| "temporal_raw UTCMINUTE s =
    rbind (expectForm (date_form @ Literal (CHR ''T'') # minute_form) s) (\<lambda>m.
    rbind (parseDateParts (m ! 0) (m ! 1) (m ! 2)) (\<lambda>date.
    rbind (parseClock (m ! 3) (m ! 4) 0 False) (\<lambda>clock.
    Inr (dateOrdinal date * 1440 + ct_hour clock * 60 + ct_minute clock + 1))))"
| "temporal_raw DTDAY s =
    rbind (expectForm date_form s) (\<lambda>m.
    rbind (parseDateParts (m ! 0) (m ! 1) (m ! 2)) (\<lambda>date. Inr (dateOrdinal date + 1)))"
| "temporal_raw DTWEEK s =
    rbind (expectForm [Digits 4, Literal (CHR ''-''), Literal (CHR ''W''), Digits 2] s) (\<lambda>m.
    let year = m ! 0; week = m ! 1 in
    if week < 1 \<or> 53 < week then Inl (RangeError ''week must be in 01..53'')
    else rbind (weekOrdinal year week) (\<lambda>n. Inr (n + 1)))"
| "temporal_raw DTMONTH s =
    rbind (expectForm [Digits 4, Literal (CHR ''-''), Digits 2] s) (\<lambda>m.
    let year = m ! 0; month = m ! 1 in
    if year < 1 \<or> 9999 < year then Inl (RangeError ''year must be in 0001..9999'')
    else if month < 1 \<or> 12 < month then Inl (RangeError ''month must be in 01..12'')
    else Inr ((year - 1) * 12 + month))"
| "temporal_raw TSECOND s =
    rbind (expectForm second_form s) (\<lambda>m.
    rbind (parseClock (m ! 0) (m ! 1) (m ! 2) True) (\<lambda>clock. Inr (clockSeconds clock + 1)))"
| "temporal_raw TMINUTE s =
    rbind (expectForm minute_form s) (\<lambda>m.
    rbind (parseClock (m ! 0) (m ! 1) 0 True) (\<lambda>clock. Inr (ct_hour clock * 60 + ct_minute clock + 1)))"
| "temporal_raw CDAY s =
    rbind (expectForm [Digits 2, Literal (CHR ''-''), Digits 2] s) (\<lambda>m.
    let month = m ! 0; day = m ! 1 in
    if month < 1 \<or> 12 < month then Inl (RangeError ''month must be in 01..12'')
    else if day < 1 \<or> DAYS_BY_MONTH ! (month - 1) < day then Inl (RangeError ''has invalid day'')
    else Inr (day + sum_list (map (\<lambda>c. DAYS_BY_MONTH ! (c - 1)) [1..<month])))"

definition encodeClassicTemporal :: "temporal_exid \<Rightarrow> string \<Rightarrow> bytes result" where
  "encodeClassicTemporal exid s =
    (if s = '''' \<or> exid = UTCLONG \<and> s = UTCLONG_INITIAL then encodeRaw exid 0
     else rbind (temporal_raw exid s) (\<lambda>raw. encodeRaw exid (int raw)))"

section \<open>Raw values to texts\<close>

text \<open>The walk through the months of a leap year; past December the array read is \<open>undefined\<close> and the loop
stops.\<close>

function cday_loop :: "nat \<Rightarrow> nat \<Rightarrow> nat \<times> nat" where
  "cday_loop remaining month =
    (if month \<le> 12 \<and> DAYS_BY_MONTH ! (month - 1) \<le> remaining
     then cday_loop (remaining - DAYS_BY_MONTH ! (month - 1)) (month + 1)
     else (month, remaining))"
  by pat_completeness auto
termination by (relation "measure (\<lambda>(remaining, month). 13 - month)") auto

declare cday_loop.simps [simp del]

fun temporal_text :: "temporal_exid \<Rightarrow> nat \<Rightarrow> string" where
  "temporal_text UTCLONG n =
    (let dayOrdinal = n div 864000000000;
         withinDay = n mod 864000000000;
         seconds = withinDay div 10000000;
         fraction = withinDay mod 10000000
     in formatDate (dateFromOrdinal dayOrdinal) @ ''T'' @ formatClock seconds True @ ''.'' @
        pad_start 7 (CHR ''0'') (decimal_string fraction))"
| "temporal_text UTCSECOND n =
    (let dayOrdinal = n div 86400; seconds = n mod 86400
     in formatDate (dateFromOrdinal dayOrdinal) @ ''T'' @ formatClock seconds True)"
| "temporal_text UTCMINUTE n =
    (let dayOrdinal = n div 1440; minutes = n mod 1440
     in formatDate (dateFromOrdinal dayOrdinal) @ ''T'' @ twoDigits (minutes div 60) @ '':'' @ twoDigits (minutes mod 60))"
| "temporal_text DTDAY n = formatDate (dateFromOrdinal n)"
| "temporal_text DTWEEK n = (let (year, week) = weekFromOrdinal n in fourDigits year @ ''-W'' @ twoDigits week)"
| "temporal_text DTMONTH n = fourDigits (n div 12 + 1) @ ''-'' @ twoDigits (n mod 12 + 1)"
| "temporal_text TSECOND n = formatClock n True"
| "temporal_text TMINUTE n = twoDigits (n div 60) @ '':'' @ twoDigits (n mod 60)"
| "temporal_text CDAY n = (let (month, remaining) = cday_loop n 1 in twoDigits month @ ''-'' @ twoDigits (remaining + 1))"

definition decodeClassicTemporal :: "temporal_exid \<Rightarrow> bytes \<Rightarrow> string result" where
  "decodeClassicTemporal exid bs =
    rbind (rawValue exid bs) (\<lambda>raw.
    if raw = 0 then Inr (classicTemporalInitialValue exid)
    else Inr (temporal_text exid (nat (raw - 1))))"

section \<open>Date and time fields\<close>

text \<open>The character fields DATE and TIME: digits, or blanks, which the caller sees as the empty text.\<close>

definition all_digits :: "nat \<Rightarrow> string \<Rightarrow> bool" where
  "all_digits n s \<longleftrightarrow> length s = n \<and> list_all is_digit_char s"

definition assertClassicDate :: "string \<Rightarrow> unit result" where
  "assertClassicDate s = guard_that (all_digits 8 s \<or> s = replicate 8 CHR '' '' \<or> s = '''')
     (TypeError ''expects YYYYMMDD, an empty string, or eight spaces'')"

definition assertClassicTime :: "string \<Rightarrow> unit result" where
  "assertClassicTime s = guard_that (all_digits 6 s \<or> s = replicate 6 CHR '' '' \<or> s = '''')
     (TypeError ''expects HHMMSS, an empty string, or six spaces'')"

definition classicDateWireText :: "string \<Rightarrow> string result" where
  "classicDateWireText s = rbind (assertClassicDate s) (\<lambda>_. Inr (if s = '''' then replicate 8 CHR '' '' else s))"

definition classicDatePublicText :: "string \<Rightarrow> string result" where
  "classicDatePublicText s =
    (if \<not> (all_digits 8 s \<or> s = replicate 8 CHR '' '') then Inl (TypeError ''expects YYYYMMDD or eight spaces from the wire'')
     else Inr (if s = replicate 8 CHR '' '' then '''' else s))"

definition classicTimeWireText :: "string \<Rightarrow> string result" where
  "classicTimeWireText s = rbind (assertClassicTime s) (\<lambda>_. Inr (if s = '''' then replicate 6 CHR '' '' else s))"

definition classicTimePublicText :: "string \<Rightarrow> string result" where
  "classicTimePublicText s =
    (if \<not> (all_digits 6 s \<or> s = replicate 6 CHR '' '') then Inl (TypeError ''expects HHMMSS or six spaces from the wire'')
     else Inr (if s = replicate 6 CHR '' '' then '''' else s))"

lemma date_field_roundtrip:
  "classicDateWireText s = Inr w \<Longrightarrow> classicDatePublicText w = Inr (if s = replicate 8 CHR '' '' then '''' else s)"
  "classicTimeWireText s = Inr w \<Longrightarrow> classicTimePublicText w = Inr (if s = replicate 6 CHR '' '' then '''' else s)"
  by (auto simp: classicDateWireText_def classicDatePublicText_def assertClassicDate_def
      classicTimeWireText_def classicTimePublicText_def assertClassicTime_def split: if_splits)

end
