(* ===== verification/TemporalCodec.thy ===== *)
theory TemporalCodec
  imports ClassicTemporal
begin

text \<open>
  The compact temporal values are dense numberings: the texts of a kind that its encoder accepts and the raw
  values from one to the maximum correspond one to one. Each kind is shown to be an instance of
  \<open>numbered_text\<close>: its pattern, the numbers of a raw value, and the raw value of the numbers.
\<close>

locale numbered_text =
  fixes form :: "form_part list" and number :: "nat list \<Rightarrow> nat result" and parts :: "nat \<Rightarrow> nat list" and limit :: nat
  assumes ok: "form_ok form"
    and number_of_parts: "n < limit \<Longrightarrow> form_fits form (parts n) \<and> number (parts n) = Inr (Suc n)"
    and parts_of_number: "form_fits form vs \<Longrightarrow> number vs = Inr raw \<Longrightarrow> 1 \<le> raw \<and> raw \<le> limit \<and> parts (raw - 1) = vs"
begin

lemma parse_print: "n < limit \<Longrightarrow> rbind (expectForm form (form_text form (parts n))) number = Inr (Suc n)"
  using number_of_parts [of n] match_form_iff [OF ok, of "form_text form (parts n)" "parts n"]
  by (simp add: expectForm_def)

lemma print_parse:
  assumes "rbind (expectForm form s) number = Inr raw"
  shows "1 \<le> raw \<and> raw \<le> limit \<and> form_text form (parts (raw - 1)) = s"
proof -
  obtain vs where vs: "match_form form s = Some vs" "number vs = Inr raw"
    using assms by (auto simp: expectForm_def split: option.splits)
  then show ?thesis using parts_of_number [of vs raw] match_form_iff [OF ok, of s vs] by simp
qed

end

section \<open>Dates and clocks as numbers\<close>

definition date_parts :: "nat \<Rightarrow> nat list" where
  "date_parts n = (let d = dateFromOrdinal n in [cd_year d, cd_month d, cd_day d])"

definition clock_parts :: "nat \<Rightarrow> nat list" where
  "clock_parts n = [n div 3600, n mod 3600 div 60, n mod 3600 mod 60]"

lemma parseDateParts_eq: "parseDateParts y m d = Inr date \<longleftrightarrow>
    date = \<lparr>cd_year = y, cd_month = m, cd_day = d\<rparr> \<and> valid_date \<lparr>cd_year = y, cd_month = m, cd_day = d\<rparr>"
  by (auto simp: parseDateParts_def valid_date_def)

lemma days_le_31: "1 \<le> m \<Longrightarrow> m \<le> 12 \<Longrightarrow> DAYS_BY_MONTH ! (m - 1) \<le> 31"
proof -
  assume "1 \<le> m" "m \<le> 12"
  then have "DAYS_BY_MONTH ! (m - 1) \<in> set DAYS_BY_MONTH" by (intro nth_mem) (simp add: DAYS_BY_MONTH_def)
  then show ?thesis by (auto simp: DAYS_BY_MONTH_def)
qed

lemma valid_date_bounds:
  "valid_date d \<Longrightarrow> 1 \<le> cd_year d \<and> cd_year d \<le> 9999 \<and> 1 \<le> cd_month d \<and> cd_month d \<le> 12 \<and> 1 \<le> cd_day d \<and> cd_day d \<le> 31"
proof -
  assume v: "valid_date d"
  have "daysInMonth (cd_year d) (cd_month d) \<le> 31" using v days_le_31 [of "cd_month d"]
    by (auto simp: valid_date_iff daysInMonth_def)
  then show ?thesis using v by (auto simp: valid_date_iff split: if_splits)
qed

lemma date_parts_valid:
  assumes "n < calendar_days"
  shows "\<exists>y m d. date_parts n = [y, m, d] \<and> y \<le> 9999 \<and> m < 100 \<and> d < 100 \<and>
    (\<exists>date. parseDateParts y m d = Inr date \<and> dateOrdinal date = n)"
  using number_of_date [OF assms] valid_date_bounds [of "dateFromOrdinal n"]
  by (cases "dateFromOrdinal n") (auto simp: date_parts_def parseDateParts_eq)

lemma date_parts_number:
  assumes "parseDateParts y m d = Inr date"
  shows "dateOrdinal date < calendar_days \<and> date_parts (dateOrdinal date) = [y, m, d]"
  using date_of_number [of date] assms by (auto simp: date_parts_def parseDateParts_eq)

lemma parseClock_eq: "parseClock h m s e = Inr c \<longleftrightarrow> c = \<lparr>ct_hour = h, ct_minute = m, ct_second = s\<rparr> \<and>
    (h \<le> 23 \<and> m \<le> 59 \<and> s \<le> 59 \<or> e \<and> h = 24 \<and> m = 0 \<and> s = 0)"
  by (auto simp: parseClock_def Let_def)

lemma clock_number: "clockSeconds \<lparr>ct_hour = n div 3600, ct_minute = n mod 3600 div 60, ct_second = n mod 3600 mod 60\<rparr> = n"
  using div_mult_mod_eq [of n 3600] div_mult_mod_eq [of "n mod 3600" 60] by (simp add: clockSeconds_def)

lemma clock_parts_number:
  assumes "m \<le> 59" and "s \<le> 59"
  shows "clock_parts (clockSeconds \<lparr>ct_hour = h, ct_minute = m, ct_second = s\<rparr>) = [h, m, s]"
proof -
  have n: "clockSeconds \<lparr>ct_hour = h, ct_minute = m, ct_second = s\<rparr> = 3600 * h + (60 * m + s)" by (simp add: clockSeconds_def)
  have "60 * m + s < 3600" using assms by simp
  from div_mod_lt [OF this, of h] div_mod_lt [of s 60 m] assms show ?thesis unfolding n clock_parts_def by simp
qed

lemma clock_parts_bound: "n < 86400 \<Longrightarrow> n div 3600 \<le> 23 \<and> n mod 3600 div 60 \<le> 59 \<and> n mod 3600 mod 60 \<le> 59" for n :: nat
proof -
  assume "n < 86400"
  then have "n div 3600 < 24" by (simp add: less_mult_imp_div_less)
  moreover have "n mod 3600 div 60 < 60" by (rule less_mult_imp_div_less) simp
  moreover have "n mod 3600 mod 60 < 60" by simp
  ultimately show ?thesis by linarith
qed

section \<open>The texts are the texts of the numbers\<close>

lemma two_four: "form_text (Digits 2 # ps) (v # vs) = twoDigits v @ form_text ps vs"
  "form_text (Digits 4 # ps) (v # vs) = fourDigits v @ form_text ps vs"
  by (simp_all add: twoDigits_def fourDigits_def)

lemmas temporal_forms = date_form_def minute_form_def second_form_def

lemma formatDate_text: "formatDate (dateFromOrdinal n) @ form_text ps vs = form_text (date_form @ ps) (date_parts n @ vs)"
  by (simp add: formatDate_def date_parts_def Let_def temporal_forms two_four del: form_text.simps(3))

lemma formatClock_text: "formatClock n True @ form_text ps vs = form_text (second_form @ ps) (clock_parts n @ vs)"
  by (simp add: formatClock_def clock_parts_def Let_def temporal_forms two_four del: form_text.simps(3))

section \<open>Every kind is a dense numbering\<close>

text \<open>What the encoder does with the numbers of a text, and the numbers of a raw value less one.\<close>

definition utclong_number :: "nat list \<Rightarrow> nat result" where
  "utclong_number m = rbind (parseDateParts (m ! 0) (m ! 1) (m ! 2)) (\<lambda>date.
    rbind (parseClock (m ! 3) (m ! 4) (m ! 5) False) (\<lambda>clock.
    Inr ((dateOrdinal date * 86400 + clockSeconds clock) * 10000000 + m ! 6 + 1)))"

definition utcsecond_number :: "nat list \<Rightarrow> nat result" where
  "utcsecond_number m = rbind (parseDateParts (m ! 0) (m ! 1) (m ! 2)) (\<lambda>date.
    rbind (parseClock (m ! 3) (m ! 4) (m ! 5) False) (\<lambda>clock.
    Inr (dateOrdinal date * 86400 + clockSeconds clock + 1)))"

definition utcminute_number :: "nat list \<Rightarrow> nat result" where
  "utcminute_number m = rbind (parseDateParts (m ! 0) (m ! 1) (m ! 2)) (\<lambda>date.
    rbind (parseClock (m ! 3) (m ! 4) 0 False) (\<lambda>clock.
    Inr (dateOrdinal date * 1440 + ct_hour clock * 60 + ct_minute clock + 1)))"

lemma mixed_radix: "s < b \<Longrightarrow> (d * b + s) div b = d \<and> (d * b + s) mod b = s" for b :: nat
  by simp

lemma date_form_fits: "form_fits (date_form @ ps) vs \<longleftrightarrow>
    (\<exists>y m d vs'. vs = y # m # d # vs' \<and> y < 10000 \<and> m < 100 \<and> d < 100 \<and> form_fits ps vs')"
  by (auto simp: date_form_def)

lemma second_form_fits: "form_fits (second_form @ ps) vs \<longleftrightarrow>
    (\<exists>h m s vs'. vs = h # m # s # vs' \<and> h < 100 \<and> m < 100 \<and> s < 100 \<and> form_fits ps vs')"
  by (auto simp: second_form_def minute_form_def)

lemma minute_form_fits: "form_fits minute_form vs \<longleftrightarrow> (\<exists>h m. vs = [h, m] \<and> h < 100 \<and> m < 100)"
  by (auto simp: minute_form_def)

lemmas form_fits_units = date_form_fits second_form_fits minute_form_fits
  date_form_fits [where ps = "[]", unfolded append_Nil2] second_form_fits [where ps = "[]", unfolded append_Nil2]

interpretation dtday: numbered_text date_form
    "\<lambda>m. rbind (parseDateParts (m ! 0) (m ! 1) (m ! 2)) (\<lambda>date. Inr (dateOrdinal date + 1))" date_parts calendar_days
proof
  show "form_ok date_form" by (simp add: form_ok_def date_form_def)
  show "form_fits date_form (date_parts n) \<and>
      rbind (parseDateParts (date_parts n ! 0) (date_parts n ! 1) (date_parts n ! 2)) (\<lambda>date. Inr (dateOrdinal date + 1)) = Inr (Suc n)"
    if "n < calendar_days" for n using date_parts_valid [OF that] by (fastforce simp: form_fits_units)
  show "1 \<le> raw \<and> raw \<le> calendar_days \<and> date_parts (raw - 1) = vs"
    if "form_fits date_form vs" "rbind (parseDateParts (vs ! 0) (vs ! 1) (vs ! 2)) (\<lambda>date. Inr (dateOrdinal date + 1)) = Inr raw"
    for vs raw using that date_parts_number by (fastforce simp: form_fits_units Suc_le_eq)
qed

interpretation utclong: numbered_text "date_form @ Literal (CHR ''T'') # second_form @ [Literal (CHR ''.''), Digits 7]"
    utclong_number
    "\<lambda>n. date_parts (n div 864000000000) @ clock_parts (n mod 864000000000 div 10000000) @ [n mod 864000000000 mod 10000000]"
    "calendar_days * 864000000000"
proof
  show "form_ok (date_form @ Literal (CHR ''T'') # second_form @ [Literal (CHR ''.''), Digits 7])"
    by (simp add: form_ok_def temporal_forms)
next
  fix n assume n: "n < calendar_days * 864000000000"
  define D S F where "D = n div 864000000000" and "S = n mod 864000000000 div 10000000" and "F = n mod 864000000000 mod 10000000"
  have D: "D < calendar_days" unfolding D_def using n by (simp add: less_mult_imp_div_less)
  have S: "S < 86400" unfolding S_def by (rule less_mult_imp_div_less) simp
  have F: "F < 10000000" by (simp add: F_def)
  have split: "(D * 86400 + S) * 10000000 + F = n"
    using div_mult_mod_eq [of n 864000000000] div_mult_mod_eq [of "n mod 864000000000" 10000000] by (simp add: D_def S_def F_def)
  obtain y m d date where date: "date_parts D = [y, m, d]" "y \<le> 9999" "m < 100" "d < 100"
    "parseDateParts y m d = Inr date" "dateOrdinal date = D" using date_parts_valid [OF D] by blast
  show "form_fits (date_form @ Literal (CHR ''T'') # second_form @ [Literal (CHR ''.''), Digits 7])
        (date_parts D @ clock_parts S @ [F]) \<and> utclong_number (date_parts D @ clock_parts S @ [F]) = Inr (Suc n)"
    using date clock_parts_bound [OF S] F split clock_number [of S]
    by (auto simp: form_fits_units utclong_number_def clock_parts_def parseClock_eq)
next
  fix vs raw
  assume fits: "form_fits (date_form @ Literal (CHR ''T'') # second_form @ [Literal (CHR ''.''), Digits 7]) vs"
    and num: "utclong_number vs = Inr raw"
  then obtain y m d h mi s f where vs: "vs = [y, m, d, h, mi, s, f]" "f < 10000000" by (auto simp: form_fits_units)
  obtain date where date: "parseDateParts y m d = Inr date" using num by (auto simp: vs utclong_number_def)
  define S where "S = clockSeconds \<lparr>ct_hour = h, ct_minute = mi, ct_second = s\<rparr>"
  have clock: "h \<le> 23" "mi \<le> 59" "s \<le> 59" "raw = (dateOrdinal date * 86400 + S) * 10000000 + f + 1"
    using num date by (auto simp: vs utclong_number_def parseClock_eq S_def)
  have "S < 86400" using clock by (simp add: S_def clockSeconds_def)
  have r: "raw - 1 = dateOrdinal date * 864000000000 + (S * 10000000 + f)" using clock(4) by simp
  have "S * 10000000 + f < 864000000000" using \<open>S < 86400\<close> vs(2) by simp
  then have "(raw - 1) div 864000000000 = dateOrdinal date" "(raw - 1) mod 864000000000 = S * 10000000 + f"
    unfolding r using mixed_radix by blast+
  moreover have "(S * 10000000 + f) div 10000000 = S" "(S * 10000000 + f) mod 10000000 = f" using vs(2) mixed_radix by blast+
  moreover have "raw \<le> calendar_days * 864000000000"
    using date_parts_number [OF date] \<open>S < 86400\<close> vs(2) clock(4) by simp
  ultimately show "1 \<le> raw \<and> raw \<le> calendar_days * 864000000000 \<and> date_parts ((raw - 1) div 864000000000) @
      clock_parts ((raw - 1) mod 864000000000 div 10000000) @ [(raw - 1) mod 864000000000 mod 10000000] = vs"
    using date_parts_number [OF date] clock_parts_number [OF clock(2,3), of h] clock(4)
    by (simp only: S_def [symmetric] vs append.simps) simp
qed

interpretation utcsecond: numbered_text "date_form @ Literal (CHR ''T'') # second_form" utcsecond_number
    "\<lambda>n. date_parts (n div 86400) @ clock_parts (n mod 86400)" "calendar_days * 86400"
proof
  show "form_ok (date_form @ Literal (CHR ''T'') # second_form)" by (simp add: form_ok_def temporal_forms)
next
  fix n assume n: "n < calendar_days * 86400"
  have D: "n div 86400 < calendar_days" using n by (simp add: less_mult_imp_div_less)
  have S: "n mod 86400 < 86400" by simp
  obtain y m d date where date: "date_parts (n div 86400) = [y, m, d]" "y \<le> 9999" "m < 100" "d < 100"
    "parseDateParts y m d = Inr date" "dateOrdinal date = n div 86400" using date_parts_valid [OF D] by blast
  have "dateOrdinal date * 86400 + n mod 86400 = n" unfolding date(6) by (rule div_mult_mod_eq)
  then show "form_fits (date_form @ Literal (CHR ''T'') # second_form) (date_parts (n div 86400) @ clock_parts (n mod 86400)) \<and>
      utcsecond_number (date_parts (n div 86400) @ clock_parts (n mod 86400)) = Inr (Suc n)"
    using date(1-5) clock_parts_bound [OF S] clock_number [of "n mod 86400"]
    by (auto simp: form_fits_units utcsecond_number_def clock_parts_def parseClock_eq)
next
  fix vs raw
  assume fits: "form_fits (date_form @ Literal (CHR ''T'') # second_form) vs" and num: "utcsecond_number vs = Inr raw"
  then obtain y m d h mi s where vs: "vs = [y, m, d, h, mi, s]" by (auto simp: form_fits_units)
  obtain date where date: "parseDateParts y m d = Inr date" using num by (auto simp: vs utcsecond_number_def)
  define S where "S = clockSeconds \<lparr>ct_hour = h, ct_minute = mi, ct_second = s\<rparr>"
  have clock: "h \<le> 23" "mi \<le> 59" "s \<le> 59" "raw = dateOrdinal date * 86400 + S + 1"
    using num date by (auto simp: vs utcsecond_number_def parseClock_eq S_def)
  have "S < 86400" using clock by (simp add: S_def clockSeconds_def)
  then have "(raw - 1) div 86400 = dateOrdinal date" "(raw - 1) mod 86400 = S" "raw \<le> calendar_days * 86400"
    using mixed_radix [of S 86400] clock(4) date_parts_number [OF date] by simp_all
  then show "1 \<le> raw \<and> raw \<le> calendar_days * 86400 \<and> date_parts ((raw - 1) div 86400) @ clock_parts ((raw - 1) mod 86400) = vs"
    using date_parts_number [OF date] clock_parts_number [OF clock(2,3), of h] clock(4)
    by (simp only: S_def [symmetric] vs append.simps) simp
qed

interpretation utcminute: numbered_text "date_form @ Literal (CHR ''T'') # minute_form" utcminute_number
    "\<lambda>n. date_parts (n div 1440) @ [n mod 1440 div 60, n mod 1440 mod 60]" "calendar_days * 1440"
proof
  show "form_ok (date_form @ Literal (CHR ''T'') # minute_form)" by (simp add: form_ok_def temporal_forms)
next
  fix n assume n: "n < calendar_days * 1440"
  have D: "n div 1440 < calendar_days" using n by (simp add: less_mult_imp_div_less)
  have S: "n mod 1440 div 60 \<le> 23" "n mod 1440 mod 60 \<le> 59"
    using less_mult_imp_div_less [of "n mod 1440" 24 60] mod_less_divisor [of 60 "n mod 1440"] by simp_all
  obtain y m d date where date: "date_parts (n div 1440) = [y, m, d]" "y \<le> 9999" "m < 100" "d < 100"
    "parseDateParts y m d = Inr date" "dateOrdinal date = n div 1440" using date_parts_valid [OF D] by blast
  have "dateOrdinal date * 1440 + n mod 1440 div 60 * 60 + n mod 1440 mod 60 = n"
    using div_mult_mod_eq [of n 1440] div_mult_mod_eq [of "n mod 1440" 60] unfolding date(6) by simp
  then show "form_fits (date_form @ Literal (CHR ''T'') # minute_form) (date_parts (n div 1440) @ [n mod 1440 div 60, n mod 1440 mod 60]) \<and>
      utcminute_number (date_parts (n div 1440) @ [n mod 1440 div 60, n mod 1440 mod 60]) = Inr (Suc n)"
    using date(1-5) S by (auto simp: form_fits_units utcminute_number_def parseClock_eq)
next
  fix vs raw
  assume fits: "form_fits (date_form @ Literal (CHR ''T'') # minute_form) vs" and num: "utcminute_number vs = Inr raw"
  then obtain y m d h mi where vs: "vs = [y, m, d, h, mi]" by (auto simp: form_fits_units)
  obtain date where date: "parseDateParts y m d = Inr date" using num by (auto simp: vs utcminute_number_def)
  have clock: "h \<le> 23" "mi \<le> 59" "raw = dateOrdinal date * 1440 + (h * 60 + mi) + 1"
    using num date by (auto simp: vs utcminute_number_def parseClock_eq)
  have "h * 60 + mi < 1440" using clock by simp
  then have "(raw - 1) div 1440 = dateOrdinal date" "(raw - 1) mod 1440 = h * 60 + mi" "raw \<le> calendar_days * 1440"
    using mixed_radix [of "h * 60 + mi" 1440] clock(3) date_parts_number [OF date] by simp_all
  moreover have "(h * 60 + mi) div 60 = h" "(h * 60 + mi) mod 60 = mi" using mixed_radix [of mi 60 h] clock(2) by simp_all
  ultimately show "1 \<le> raw \<and> raw \<le> calendar_days * 1440 \<and>
      date_parts ((raw - 1) div 1440) @ [(raw - 1) mod 1440 div 60, (raw - 1) mod 1440 mod 60] = vs"
    using date_parts_number [OF date] clock(3) by (simp only: vs append.simps) simp
qed

definition dtweek_number :: "nat list \<Rightarrow> nat result" where
  "dtweek_number m = (let year = m ! 0; week = m ! 1 in
    if week < 1 \<or> 53 < week then Inl (RangeError ''week must be in 01..53'')
    else rbind (weekOrdinal year week) (\<lambda>n. Inr (n + 1)))"

interpretation dtweek: numbered_text "[Digits 4, Literal (CHR ''-''), Literal (CHR ''W''), Digits 2]" dtweek_number
    "\<lambda>n. let (year, week) = weekFromOrdinal n in [year, week]" 521725
proof
  show "form_ok [Digits 4, Literal (CHR ''-''), Literal (CHR ''W''), Digits 2]" by (simp add: form_ok_def)
next
  fix n assume n: "n < (521725 :: nat)"
  obtain y w where yw: "weekFromOrdinal n = (y, w)" by (cases "weekFromOrdinal n")
  have v: "valid_week y w" "weekOrdinal y w = Inr n" using number_of_week [OF _ yw] n by simp_all
  then have "y \<le> 9999" "1 \<le> w" "w \<le> 53" by (auto simp: valid_week_def split: if_splits)
  then show "form_fits [Digits 4, Literal (CHR ''-''), Literal (CHR ''W''), Digits 2] (let (year, week) = weekFromOrdinal n in [year, week]) \<and>
      dtweek_number (let (year, week) = weekFromOrdinal n in [year, week]) = Inr (Suc n)"
    using v(2) by (simp add: yw dtweek_number_def)
next
  fix vs raw
  assume fits: "form_fits [Digits 4, Literal (CHR ''-''), Literal (CHR ''W''), Digits 2] vs" and num: "dtweek_number vs = Inr raw"
  then obtain y w where vs: "vs = [y, w]" "y \<le> 9999" by fastforce
  obtain n where n: "1 \<le> w" "w \<le> 53" "weekOrdinal y w = Inr n" "raw = Suc n"
    using num by (auto simp: vs dtweek_number_def Let_def split: if_splits)
  have "valid_week y w" using weekOrdinal_valid [OF vs(2) n(1,2), of n] n(3) by simp
  from week_of_number [OF this n(3)] n(4) vs
  show "1 \<le> raw \<and> raw \<le> 521725 \<and> (let (year, week) = weekFromOrdinal (raw - 1) in [year, week]) = vs" by simp
qed

definition dtmonth_number :: "nat list \<Rightarrow> nat result" where
  "dtmonth_number m = (let year = m ! 0; month = m ! 1 in
    if year < 1 \<or> 9999 < year then Inl (RangeError ''year must be in 0001..9999'')
    else if month < 1 \<or> 12 < month then Inl (RangeError ''month must be in 01..12'')
    else Inr ((year - 1) * 12 + month))"

interpretation dtmonth: numbered_text "[Digits 4, Literal (CHR ''-''), Digits 2]" dtmonth_number
    "\<lambda>n. [n div 12 + 1, n mod 12 + 1]" 119988
proof
  show "form_ok [Digits 4, Literal (CHR ''-''), Digits 2]" by (simp add: form_ok_def)
next
  fix n assume n: "n < (119988 :: nat)"
  have "n div 12 < 9999" "n mod 12 < 12" using n by (simp_all add: less_mult_imp_div_less)
  then show "form_fits [Digits 4, Literal (CHR ''-''), Digits 2] [n div 12 + 1, n mod 12 + 1] \<and>
      dtmonth_number [n div 12 + 1, n mod 12 + 1] = Inr (Suc n)"
    using div_mult_mod_eq [of n 12] by (simp add: dtmonth_number_def)
next
  fix vs raw
  assume "form_fits [Digits 4, Literal (CHR ''-''), Digits 2] vs" and num: "dtmonth_number vs = Inr raw"
  then obtain y m where vs: "vs = [y, m]" by auto
  have v: "1 \<le> y" "y \<le> 9999" "1 \<le> m" "m \<le> 12" "raw = (y - 1) * 12 + m"
    using num by (auto simp: vs dtmonth_number_def Let_def split: if_splits)
  have "raw - 1 = (y - 1) * 12 + (m - 1)" using v(3,5) by simp
  then have "(raw - 1) div 12 = y - 1" "(raw - 1) mod 12 = m - 1" using mixed_radix [of "m - 1" 12 "y - 1"] v(4) by simp_all
  moreover have "raw \<le> 9998 * 12 + 12" using v(1,2,4,5) by simp
  ultimately show "1 \<le> raw \<and> raw \<le> 119988 \<and> [(raw - 1) div 12 + 1, (raw - 1) mod 12 + 1] = vs" using v vs by simp
qed

interpretation tsecond: numbered_text second_form
    "\<lambda>m. rbind (parseClock (m ! 0) (m ! 1) (m ! 2) True) (\<lambda>clock. Inr (clockSeconds clock + 1))" clock_parts 86401
proof
  show "form_ok second_form" by (simp add: form_ok_def temporal_forms)
  have end_of_day: "clock_parts 86400 = [24, 0, 0]" by (simp add: clock_parts_def)
  show "form_fits second_form (clock_parts n) \<and> rbind (parseClock (clock_parts n ! 0) (clock_parts n ! 1) (clock_parts n ! 2) True)
      (\<lambda>clock. Inr (clockSeconds clock + 1)) = Inr (Suc n)" if "n < 86401" for n
  proof (cases "n = 86400")
    case True
    then show ?thesis by (simp add: end_of_day form_fits_units parseClock_eq clockSeconds_def)
  next
    case False
    then have "n < 86400" using that by simp
    from clock_parts_bound [OF this] clock_number [of n] show ?thesis
      by (auto simp: clock_parts_def form_fits_units parseClock_eq)
  qed
  show "1 \<le> raw \<and> raw \<le> 86401 \<and> clock_parts (raw - 1) = vs" if fits: "form_fits second_form vs" and num:
    "rbind (parseClock (vs ! 0) (vs ! 1) (vs ! 2) True) (\<lambda>clock. Inr (clockSeconds clock + 1)) = Inr raw" for vs raw
  proof -
    obtain h m s where vs: "vs = [h, m, s]" using fits by (auto simp: form_fits_units)
    have c: "m \<le> 59" "s \<le> 59" "h \<le> 23 \<or> h = 24 \<and> m = 0 \<and> s = 0"
      "raw - 1 = clockSeconds \<lparr>ct_hour = h, ct_minute = m, ct_second = s\<rparr>" "1 \<le> raw"
      using num by (auto simp: vs parseClock_eq)
    have "raw - 1 \<le> 86400" unfolding c(4) using c(1-3) by (auto simp: clockSeconds_def)
    then show ?thesis using c clock_parts_number [OF c(1,2), of h] vs by simp
  qed
qed

interpretation tminute: numbered_text minute_form
    "\<lambda>m. rbind (parseClock (m ! 0) (m ! 1) 0 True) (\<lambda>clock. Inr (ct_hour clock * 60 + ct_minute clock + 1))"
    "\<lambda>n. [n div 60, n mod 60]" 1441
proof
  show "form_ok minute_form" by (simp add: form_ok_def temporal_forms)
  show "form_fits minute_form [n div 60, n mod 60] \<and> rbind (parseClock ([n div 60, n mod 60] ! 0) ([n div 60, n mod 60] ! 1) 0 True)
      (\<lambda>clock. Inr (ct_hour clock * 60 + ct_minute clock + 1)) = Inr (Suc n)" if "n < 1441" for n
  proof (cases "n = 1440")
    case True
    then show ?thesis by (simp add: form_fits_units parseClock_eq)
  next
    case False
    then have "n div 60 < 24" "n mod 60 < 60" using that by (simp_all add: less_mult_imp_div_less)
    then show ?thesis by (auto simp: form_fits_units parseClock_eq)
  qed
  show "1 \<le> raw \<and> raw \<le> 1441 \<and> [(raw - 1) div 60, (raw - 1) mod 60] = vs" if fits: "form_fits minute_form vs" and num:
    "rbind (parseClock (vs ! 0) (vs ! 1) 0 True) (\<lambda>clock. Inr (ct_hour clock * 60 + ct_minute clock + 1)) = Inr raw" for vs raw
  proof -
    obtain h m where vs: "vs = [h, m]" using fits by (auto simp: form_fits_units)
    have c: "m \<le> 59" "h \<le> 23 \<or> h = 24 \<and> m = 0" "raw = h * 60 + m + 1" using num by (auto simp: vs parseClock_eq)
    then show ?thesis using mixed_radix [of m 60 h] by (auto simp: vs)
  qed
qed

text \<open>A day without a year is a day of a leap year.\<close>

definition cday_number :: "nat list \<Rightarrow> nat result" where
  "cday_number m = (let month = m ! 0; day = m ! 1 in
    if month < 1 \<or> 12 < month then Inl (RangeError ''month must be in 01..12'')
    else if day < 1 \<or> DAYS_BY_MONTH ! (month - 1) < day then Inl (RangeError ''has invalid day'')
    else Inr (day + sum_list (map (\<lambda>c. DAYS_BY_MONTH ! (c - 1)) [1..<month])))"

lemma days_of_leap_year: "1 \<le> m \<Longrightarrow> daysInMonth 4 m = DAYS_BY_MONTH ! (m - 1)"
  by (simp add: daysInMonth_def isLeapYear_def DAYS_BY_MONTH_def)

lemma cday_start: "sum_list (map (\<lambda>c. DAYS_BY_MONTH ! (c - 1)) [1..<month]) = month_start 4 month"
  unfolding month_start_def by (rule arg_cong [of _ _ sum_list], rule map_cong) (simp_all add: days_of_leap_year)

lemma cday_loop_eq: "1 \<le> month \<Longrightarrow> cday_loop remaining month = month_loop 4 remaining month"
proof (induction remaining month rule: cday_loop.induct)
  case (1 remaining month)
  then show ?case
    by (subst cday_loop.simps, subst month_loop.simps) (auto simp: Let_def days_of_leap_year)
qed

lemma year_length_4: "year_length 4 = 366"
  by (simp add: year_length_eq isLeapYear_def)

interpretation cday: numbered_text "[Digits 2, Literal (CHR ''-''), Digits 2]" cday_number
    "\<lambda>n. let (month, remaining) = cday_loop n 1 in [month, remaining + 1]" 366
proof
  show "form_ok [Digits 2, Literal (CHR ''-''), Digits 2]" by (simp add: form_ok_def)
next
  fix n assume n: "n < (366 :: nat)"
  obtain k d where kd: "cday_loop n 1 = (k, d)" by (cases "cday_loop n 1")
  then have loop: "month_loop 4 n 1 = (k, d)" using cday_loop_eq [of 1 n] by simp
  have f: "1 \<le> k" "k \<le> 12" "d < daysInMonth 4 k" "n = month_start 4 k + d"
    using month_loop_found [OF _ _ _ loop] n by (auto simp: month_start_1 year_length_4)
  then have "d < DAYS_BY_MONTH ! (k - 1)" using days_of_leap_year [of k] by simp
  then show "form_fits [Digits 2, Literal (CHR ''-''), Digits 2] (let (month, remaining) = cday_loop n 1 in [month, remaining + 1]) \<and>
      cday_number (let (month, remaining) = cday_loop n 1 in [month, remaining + 1]) = Inr (Suc n)"
    using f days_le_31 [of k] unfolding kd cday_number_def cday_start by simp
next
  fix vs raw
  assume "form_fits [Digits 2, Literal (CHR ''-''), Digits 2] vs" and num: "cday_number vs = Inr raw"
  then obtain m d where vs: "vs = [m, d]" by auto
  have v: "1 \<le> m" "m \<le> 12" "1 \<le> d" "d \<le> DAYS_BY_MONTH ! (m - 1)" "raw = d + month_start 4 m"
    using num unfolding vs cday_number_def cday_start by (auto simp: Let_def split: if_splits)
  have len: "daysInMonth 4 m = DAYS_BY_MONTH ! (m - 1)" using days_of_leap_year v(1) .
  have "month_loop 4 (month_start 4 m - month_start 4 1 + (d - 1)) 1 = (m, d - 1)"
    using v len by (intro month_loop_eq) simp_all
  moreover have "month_start 4 m - month_start 4 1 + (d - 1) = raw - 1" using v(3,5) by (simp add: month_start_1)
  ultimately have "cday_loop (raw - 1) 1 = (m, d - 1)" using cday_loop_eq [of 1] by simp
  moreover have "raw \<le> 366" using month_end [OF v(1,2), of 4] v len by (simp add: year_length_4)
  ultimately show "1 \<le> raw \<and> raw \<le> 366 \<and> (let (month, remaining) = cday_loop (raw - 1) 1 in [month, remaining + 1]) = vs"
    using v vs by simp
qed

section \<open>The texts of a kind and its raw values\<close>

lemma minute_text: "form_text minute_form [h, m] = twoDigits h @ '':'' @ twoDigits m"
  by (simp add: minute_form_def two_four del: form_text.simps(3))

lemma temporal_text_forms:
  "temporal_text UTCLONG n = form_text (date_form @ Literal (CHR ''T'') # second_form @ [Literal (CHR ''.''), Digits 7])
    (date_parts (n div 864000000000) @ clock_parts (n mod 864000000000 div 10000000) @ [n mod 864000000000 mod 10000000])"
  "temporal_text UTCSECOND n = form_text (date_form @ Literal (CHR ''T'') # second_form)
    (date_parts (n div 86400) @ clock_parts (n mod 86400))"
  "temporal_text UTCMINUTE n = form_text (date_form @ Literal (CHR ''T'') # minute_form)
    (date_parts (n div 1440) @ [n mod 1440 div 60, n mod 1440 mod 60])"
  "temporal_text DTDAY n = form_text date_form (date_parts n)"
  "temporal_text DTWEEK n = form_text [Digits 4, Literal (CHR ''-''), Literal (CHR ''W''), Digits 2]
    (let (year, week) = weekFromOrdinal n in [year, week])"
  "temporal_text DTMONTH n = form_text [Digits 4, Literal (CHR ''-''), Digits 2] [n div 12 + 1, n mod 12 + 1]"
  "temporal_text TSECOND n = form_text second_form (clock_parts n)"
  "temporal_text TMINUTE n = form_text minute_form [n div 60, n mod 60]"
  "temporal_text CDAY n = form_text [Digits 2, Literal (CHR ''-''), Digits 2]
    (let (month, remaining) = cday_loop n 1 in [month, remaining + 1])"
  using formatClock_text [of n "[]" "[]"] formatClock_text [of "n mod 86400" "[]" "[]"] formatDate_text [of n "[]" "[]"]
  by (simp_all add: Let_def minute_text two_four flip: formatDate_text formatClock_text split: prod.split del: form_text.simps(3))
     (simp add: pad_start_def)?

lemmas temporal_numbers = utclong_number_def utcsecond_number_def utcminute_number_def dtweek_number_def dtmonth_number_def cday_number_def

lemma temporal_raw_forms:
  "temporal_raw UTCLONG s = rbind (expectForm (date_form @ Literal (CHR ''T'') # second_form @ [Literal (CHR ''.''), Digits 7]) s) utclong_number"
  "temporal_raw UTCSECOND s = rbind (expectForm (date_form @ Literal (CHR ''T'') # second_form) s) utcsecond_number"
  "temporal_raw UTCMINUTE s = rbind (expectForm (date_form @ Literal (CHR ''T'') # minute_form) s) utcminute_number"
  "temporal_raw DTWEEK s = rbind (expectForm [Digits 4, Literal (CHR ''-''), Literal (CHR ''W''), Digits 2] s) dtweek_number"
  "temporal_raw DTMONTH s = rbind (expectForm [Digits 4, Literal (CHR ''-''), Digits 2] s) dtmonth_number"
  "temporal_raw CDAY s = rbind (expectForm [Digits 2, Literal (CHR ''-''), Digits 2] s) cday_number"
  by (simp_all only: temporal_raw.simps temporal_numbers [abs_def])

lemma calendar_limits: "calendar_days * 864000000000 = 3155380704000000000" "calendar_days * 86400 = 315538070400"
  "calendar_days * 1440 = 5258967840" "calendar_days = 3652061"
  by (simp_all add: calendar_days_def)

lemmas print_parse = utclong.print_parse utcsecond.print_parse utcminute.print_parse dtday.print_parse
  dtweek.print_parse dtmonth.print_parse tsecond.print_parse tminute.print_parse cday.print_parse

lemmas parse_print = utclong.parse_print utcsecond.parse_print utcminute.parse_print dtday.parse_print
  dtweek.parse_print dtmonth.parse_print tsecond.parse_print tminute.parse_print cday.parse_print

text \<open>An accepted text is the text of its raw value, which is in range; and the text of a raw value is accepted.\<close>

lemma raw_of_text: "temporal_raw x s = Inr raw \<Longrightarrow> 1 \<le> raw \<and> raw \<le> spec_maximumRaw x \<and> temporal_text x (raw - 1) = s"
  by (cases x; hypsubst; unfold temporal_raw_forms temporal_raw.simps(4,7,8) temporal_text_forms spec_maximumRaw.simps)
    (drule print_parse [unfolded calendar_limits(1-3), unfolded calendar_limits(4)], assumption)+

lemma text_of_raw: "n < spec_maximumRaw x \<Longrightarrow> temporal_raw x (temporal_text x n) = Inr (Suc n)"
  by (cases x; hypsubst; unfold temporal_raw_forms temporal_raw.simps(4,7,8) temporal_text_forms spec_maximumRaw.simps)
    (drule parse_print [unfolded calendar_limits(1-3), unfolded calendar_limits(4)], assumption)+

section \<open>Raw values to bytes\<close>

lemma raw_fits: "int (spec_maximumRaw x) * 2 < 256 ^ spec_byteLength x"
  by (cases x) simp_all

lemma encodeRaw_Inr: "encodeRaw x r = Inr b \<longleftrightarrow> 0 \<le> r \<and> r \<le> int (spec_maximumRaw x) \<and>
    b = le_encode (spec_byteLength x) (from_signed (spec_byteLength x) r)"
  by (auto simp: encodeRaw_def)

lemma rawValue_encodeRaw: "encodeRaw x r = Inr b \<Longrightarrow> rawValue x b = Inr r"
proof -
  assume "encodeRaw x r = Inr b"
  then have r: "0 \<le> r" "r \<le> int (spec_maximumRaw x)" and b: "b = le_encode (spec_byteLength x) (from_signed (spec_byteLength x) r)"
    by (auto simp: encodeRaw_Inr)
  have "to_signed (spec_byteLength x) (from_signed (spec_byteLength x) r) = r"
    using r raw_fits [of x] by (intro to_from_signed) (linarith | simp)+
  then show ?thesis using r by (simp add: rawValue_def b from_signed_less)
qed

lemma encodeRaw_rawValue: "rawValue x b = Inr r \<Longrightarrow> encodeRaw x r = Inr b \<and> 0 \<le> r \<and> r \<le> int (spec_maximumRaw x)"
proof -
  assume v: "rawValue x b = Inr r"
  then have len: "length b = spec_byteLength x" by (auto simp: rawValue_def split: if_splits)
  have less: "le_decode b < 256 ^ spec_byteLength x" using le_decode_less [of b] len by simp
  have "r = to_signed (spec_byteLength x) (le_decode b)" "0 \<le> r" "r \<le> int (spec_maximumRaw x)"
    using v len by (auto simp: rawValue_def Let_def split: if_splits)
  moreover have "le_encode (spec_byteLength x) (le_decode b) = b" using le_encode_decode [of b] len by simp
  ultimately show ?thesis using from_to_signed [OF less] by (simp add: encodeRaw_Inr)
qed

section \<open>The codec\<close>

lemma not_a_value: "temporal_raw x '''' = Inl (TypeError ''expects'')"
  by (cases x) (simp_all add: temporal_forms expectForm_def)

lemma initial_not_a_value: "temporal_raw UTCLONG UTCLONG_INITIAL \<noteq> Inr raw"
proof
  assume "temporal_raw UTCLONG UTCLONG_INITIAL = Inr raw"
  then obtain m date where m: "match_form (date_form @ Literal (CHR ''T'') # second_form @ [Literal (CHR ''.''), Digits 7]) UTCLONG_INITIAL = Some m"
    and "parseDateParts (m ! 0) (m ! 1) (m ! 2) = Inr date" by (auto simp: expectForm_def split: option.splits)
  then have "m ! 0 \<noteq> 0" by (auto simp: parseDateParts_def split: if_splits)
  then show False using m by (auto simp: temporal_forms UTCLONG_INITIAL_def digits_number_def digit_value_def split: if_splits)
qed

lemma temporal_text_proper:
  assumes "n < spec_maximumRaw x"
  shows "temporal_text x n \<noteq> ''''" and "x = UTCLONG \<Longrightarrow> temporal_text x n \<noteq> UTCLONG_INITIAL"
  using text_of_raw [OF assms] not_a_value [of x] initial_not_a_value by (auto simp del: temporal_text.simps temporal_raw.simps)

text \<open>Bytes that the temporal decoder accepts are exactly what the encoder makes of the text it returned: the
decoder invents no value and the wire form of a value is unique, for each of the nine kinds and the initial
value.\<close>

theorem temporal_decode_encode: "decodeClassicTemporal x b = Inr s \<Longrightarrow> encodeClassicTemporal x s = Inr b"
proof -
  assume "decodeClassicTemporal x b = Inr s"
  then obtain r where r: "rawValue x b = Inr r"
    and s: "s = (if r = 0 then classicTemporalInitialValue x else temporal_text x (nat (r - 1)))"
    by (auto simp: decodeClassicTemporal_def split: if_splits)
  note e = encodeRaw_rawValue [OF r]
  show ?thesis
  proof (cases "r = 0")
    case True
    then show ?thesis using e s by (auto simp: encodeClassicTemporal_def classicTemporalInitialValue_def)
  next
    case False
    then have n: "nat (r - 1) < spec_maximumRaw x" "int (Suc (nat (r - 1))) = r" using e by linarith+
    show ?thesis using False s e n(2) temporal_text_proper [OF n(1)] text_of_raw [OF n(1)]
      by (auto simp: encodeClassicTemporal_def simp del: temporal_text.simps temporal_raw.simps)
  qed
qed

lemma temporal_read_back:
  "encodeClassicTemporal x s = Inr b \<Longrightarrow>
    decodeClassicTemporal x b = Inr (if s = '''' then classicTemporalInitialValue x else s)"
proof -
  assume enc: "encodeClassicTemporal x s = Inr b"
  show ?thesis
  proof (cases "s = '''' \<or> x = UTCLONG \<and> s = UTCLONG_INITIAL")
    case True
    then have "encodeRaw x 0 = Inr b" using enc by (auto simp: encodeClassicTemporal_def)
    from rawValue_encodeRaw [OF this] True show ?thesis
      by (auto simp: decodeClassicTemporal_def classicTemporalInitialValue_def)
  next
    case False
    then obtain raw where raw: "temporal_raw x s = Inr raw" "encodeRaw x (int raw) = Inr b"
      using enc by (auto simp: encodeClassicTemporal_def simp del: temporal_raw.simps)
    have "nat (int raw - 1) = raw - 1" by simp
    then show ?thesis using raw_of_text [OF raw(1)] rawValue_encodeRaw [OF raw(2)] False
      by (auto simp: decodeClassicTemporal_def simp del: temporal_text.simps)
  qed
qed

text \<open>C40. Every temporal text that the encoder accepts comes back from the decoder: the text itself, or the
initial text of its kind for an empty one. Decoding never fails on what was encoded.\<close>

theorem temporal_encode_decode:
  "encodeClassicTemporal x s = Inr b \<Longrightarrow>
    decodeClassicTemporal x b = Inr (if s = '''' then classicTemporalInitialValue x else s)"
  by (rule temporal_read_back)


lemma raw_guard_elsewhere: "temporal_raw x s \<noteq> Inl (RangeError ''is outside its valid raw range'')"
  by (cases x) (auto simp: rbind_eq_Inl expectForm_def parseDateParts_def parseClock_def weekOrdinal_def Let_def
      split: option.splits if_splits)

text \<open>The guard of the raw range never rejects a temporal text: whatever text is given, the encoder either
accepts it, rejects its form, or names the part that is out of range; the number it computes always fits.\<close>

theorem temporal_range_guard_silent:
  "encodeClassicTemporal x s \<noteq> Inl (RangeError ''is outside its valid raw range'')"
proof
  assume bad: "encodeClassicTemporal x s = Inl (RangeError ''is outside its valid raw range'')"
  then obtain raw where "temporal_raw x s = Inr raw" "spec_maximumRaw x < raw"
    using raw_guard_elsewhere [of x s]
    by (auto simp: encodeClassicTemporal_def rbind_eq_Inl encodeRaw_def simp del: temporal_raw.simps split: if_splits)
  then show False using raw_of_text [of x s raw] by linarith
qed

text \<open>The pattern of a kind, and the type of what the decoder returns.\<close>

fun temporal_form :: "temporal_exid \<Rightarrow> form_part list" where
  "temporal_form UTCLONG = date_form @ Literal (CHR ''T'') # second_form @ [Literal (CHR ''.''), Digits 7]"
| "temporal_form UTCSECOND = date_form @ Literal (CHR ''T'') # second_form"
| "temporal_form UTCMINUTE = date_form @ Literal (CHR ''T'') # minute_form"
| "temporal_form DTDAY = date_form"
| "temporal_form DTWEEK = [Digits 4, Literal (CHR ''-''), Literal (CHR ''W''), Digits 2]"
| "temporal_form DTMONTH = [Digits 4, Literal (CHR ''-''), Digits 2]"
| "temporal_form TSECOND = second_form"
| "temporal_form TMINUTE = minute_form"
| "temporal_form CDAY = [Digits 2, Literal (CHR ''-''), Digits 2]"

lemma raw_has_form: "temporal_raw x s = Inr raw \<Longrightarrow> match_form (temporal_form x) s \<noteq> None"
  by (cases x) (auto simp: expectForm_def simp del: match_form.simps split: option.splits)

text \<open>What the temporal decoder returns is a text of its kind: the initial text, or a text in the fixed form
of the kind, so every digit group has its full width.\<close>

theorem temporal_decode_typed:
  "decodeClassicTemporal x b = Inr s \<Longrightarrow> s = classicTemporalInitialValue x \<or> match_form (temporal_form x) s \<noteq> None"
proof -
  assume d: "decodeClassicTemporal x b = Inr s"
  show ?thesis
  proof (cases "s = classicTemporalInitialValue x")
    case False
    then obtain r where r: "rawValue x b = Inr r" "r \<noteq> 0" "s = temporal_text x (nat (r - 1))"
      using d by (auto simp: decodeClassicTemporal_def split: if_splits)
    have "nat (r - 1) < spec_maximumRaw x" using encodeRaw_rawValue [OF r(1)] r(2) by linarith
    from raw_has_form [OF text_of_raw [OF this]] r(3) show ?thesis by auto
  qed simp
qed

section \<open>Samples\<close>

lemma one_minute: "decodeClassicTemporal TMINUTE [2, 0] = Inr ''00:01''"
  by (simp add: decodeClassicTemporal_def rawValue_def to_signed_def twoDigits_def pad_start_def decimal_string.simps
      digit_char_def char_of_def bit_iff_odd)

lemma temporal_decode_encode_witness:
  "decodeClassicTemporal TMINUTE [2, 0] = Inr ''00:01'' \<and> encodeClassicTemporal TMINUTE ''00:01'' = Inr [2, 0]"
  using temporal_decode_encode [OF one_minute] one_minute by simp

lemma one_minute_encoded: "encodeClassicTemporal TMINUTE ''00:01'' = Inr [2, 0]"
  by (simp add: encodeClassicTemporal_def encodeRaw_def from_signed_def minute_form_def expectForm_def is_digit_char_def
      digits_number_def digit_value_def parseClock_def byte_eval)

lemma temporal_encode_decode_witness:
  "encodeClassicTemporal TMINUTE ''00:01'' = Inr [2, 0] \<and> decodeClassicTemporal TMINUTE [2, 0] = Inr ''00:01''"
  using temporal_encode_decode [OF one_minute_encoded] one_minute_encoded by simp

lemma temporal_decode_typed_witness:
  "decodeClassicTemporal TMINUTE [2, 0] = Inr ''00:01'' \<and> match_form minute_form ''00:01'' = Some [0, 1]"
  using temporal_decode_typed [OF one_minute] one_minute
  by (simp add: minute_form_def is_digit_char_def digits_number_def digit_value_def)

end
