(* ===== verification/CpicLogon.thy ===== *)
theory CpicLogon
  imports CpicRequest
begin

text \<open>
  The initial logon request of \<open>src/protocol/cpic.ts\<close> with its two credentials: the scrambled password of
  \<open>src/protocol/password-scramble.ts\<close> and the logon ticket of \<open>src/protocol/logon-ticket.ts\<close>. What
  \<open>randomBytes\<close> of the runtime returns is a parameter: the seed and the session identifier that are drawn
  when the caller gives none.
\<close>

section \<open>The scrambled password\<close>

definition PASSWORD_SCRAMBLE_TABLE :: bytes where
  "PASSWORD_SCRAMBLE_TABLE =
    [0xf0, 0xed, 0x53, 0xb8, 0x32, 0x44, 0xf1, 0xf8, 0x76, 0xc6, 0x79, 0x59, 0xfd,
     0x4f, 0x13, 0xa2, 0xc1, 0x51, 0x95, 0xec, 0x54, 0x83, 0xc2, 0x34, 0x77, 0x49,
     0x43, 0xa2, 0x7d, 0xe2, 0x65, 0x96, 0x5e, 0x53, 0x98, 0x78, 0x9a, 0x17, 0xa3,
     0x3c, 0xd3, 0x83, 0xa8, 0xb8, 0x29, 0xfb, 0xdc, 0xa5, 0x55, 0xd7, 0x02, 0x77,
     0x84, 0x13, 0xac, 0xdd, 0xf9, 0xb8, 0x31, 0x16, 0x61, 0x0e, 0x6d, 0xfa]"

definition ascii_printable :: "js_string \<Rightarrow> bool" where
  "ascii_printable s \<longleftrightarrow> list_all (\<lambda>c. 0x20 \<le> unat c \<and> unat c \<le> 0x7e) s"

definition ascii_of :: "js_string \<Rightarrow> bytes" where
  "ascii_of s = map (\<lambda>c. word_of_nat (unat c)) s"

unbundle bit_operations_syntax

text \<open>The byte that is mixed into the character at a position.\<close>

definition scramble_start :: "32 word \<Rightarrow> 32 word" where
  "scramble_start actualSeed = (let mixedSeed = actualSeed XOR drop_bit 5 actualSeed in mixedSeed XOR push_bit 1 actualSeed)"

definition scramble_key :: "32 word \<Rightarrow> nat \<Rightarrow> byte" where
  "scramble_key actualSeed index =
    (let tableValue = PASSWORD_SCRAMBLE_TABLE ! ((unat (scramble_start actualSeed) + index) mod 64);
         seedTerm = word_of_int (int (unat actualSeed) * int index * int index - int index)
     in tableValue XOR seedTerm)"

definition scramble_bytes :: "32 word \<Rightarrow> nat \<Rightarrow> bytes \<Rightarrow> bytes" where
  "scramble_bytes seed start clear = map (\<lambda>(index, c). c XOR scramble_key seed index) (zip [start..<start + length clear] clear)"

definition scrambleRfcPassword :: "nat \<Rightarrow> js_string \<Rightarrow> int option \<Rightarrow> bytes result" where
  "scrambleRfcPassword randomSeed password seed =
    (if 40 < length password then Inl (RangeError ''password must contain at most 40 bytes'')
     else if \<not> ascii_printable password
     then Inl (RangeError ''password contains characters outside the proven ASCII baseline'')
     else let clear = ascii_of password; actualSeed = or_else seed (int randomSeed) in
       if \<not> is_safe_integer actualSeed \<or> actualSeed < 0 \<or> 0xffffffff < actualSeed
       then Inl (RangeError ''password seed must be an unsigned 32-bit integer'')
       else Inr (le_encode 4 (nat actualSeed) @ scramble_bytes (word_of_int actualSeed) 0 clear))"

section \<open>The logon ticket\<close>

text \<open>\<open>String.prototype.trim\<close> and \<open>decodeURIComponent\<close>.\<close>

definition js_white :: "16 word \<Rightarrow> bool" where
  "js_white c \<longleftrightarrow> unat c \<in> {9, 10, 11, 12, 13, 32, 160, 0x1680, 0x2028, 0x2029, 0x202f, 0x205f, 0x3000, 0xfeff} \<or>
     0x2000 \<le> unat c \<and> unat c \<le> 0x200a"

definition trim_units :: "js_string \<Rightarrow> js_string" where
  "trim_units s = rev (dropWhile js_white (rev (dropWhile js_white s)))"

definition hex_value :: "16 word \<Rightarrow> nat option" where
  "hex_value c = (let n = unat c in
     if 48 \<le> n \<and> n \<le> 57 then Some (n - 48)
     else if 65 \<le> n \<and> n \<le> 70 then Some (n - 55)
     else if 97 \<le> n \<and> n \<le> 102 then Some (n - 87) else None)"

fun percent_byte :: "js_string \<Rightarrow> (nat \<times> js_string) option" where
  "percent_byte (p # h # l # rest) =
    (if p = 0x25 then case (hex_value h, hex_value l) of (Some a, Some b) \<Rightarrow> Some (a * 16 + b, rest) | _ \<Rightarrow> None
     else None)"
| "percent_byte s = None"

fun percent_bytes :: "nat \<Rightarrow> js_string \<Rightarrow> (nat list \<times> js_string) option" where
  "percent_bytes 0 s = Some ([], s)"
| "percent_bytes (Suc n) s = (case percent_byte s of None \<Rightarrow> None
     | Some (b, rest) \<Rightarrow> if b < 0x80 \<or> 0xbf < b then None
         else (case percent_bytes n rest of None \<Rightarrow> None | Some (bs, rest') \<Rightarrow> Some (b # bs, rest')))"

definition utf8_length :: "nat \<Rightarrow> nat option" where
  "utf8_length b = (if 0xc0 \<le> b \<and> b \<le> 0xdf then Some 2 else if 0xe0 \<le> b \<and> b \<le> 0xef then Some 3
     else if 0xf0 \<le> b \<and> b \<le> 0xf7 then Some 4 else None)"

definition utf8_point :: "nat \<Rightarrow> nat \<Rightarrow> nat list \<Rightarrow> nat option" where
  "utf8_point n b bs = (let v = foldl (\<lambda>v c. v * 64 + (c - 0x80)) (b mod 2 ^ (7 - n)) bs in
     if v < (if n = 2 then 0x80 else if n = 3 then 0x800 else 0x10000) \<or> 0x10ffff < v \<or> 0xd800 \<le> v \<and> v \<le> 0xdfff
     then None else Some v)"

definition utf16_of :: "nat \<Rightarrow> js_string" where
  "utf16_of v = (if v < 0x10000 then [word_of_nat v]
     else [word_of_nat (0xd800 + (v - 0x10000) div 0x400), word_of_nat (0xdc00 + (v - 0x10000) mod 0x400)])"

lemma percent_byte_shorter: "percent_byte s = Some (b, rest) \<Longrightarrow> length rest < length s"
  by (induction s rule: percent_byte.induct) (auto split: if_splits option.splits)

lemma percent_bytes_shorter: "percent_bytes n s = Some (bs, rest) \<Longrightarrow> length rest \<le> length s"
proof (induction n arbitrary: s bs)
  case (Suc n)
  then show ?case by (fastforce split: option.splits if_splits dest: percent_byte_shorter)
qed simp

function decode_uri :: "js_string \<Rightarrow> js_string option" where
  "decode_uri s =
    (case s of [] \<Rightarrow> Some []
     | c # cs \<Rightarrow>
       if c \<noteq> 0x25 then map_option ((#) c) (decode_uri cs)
       else case percent_byte s of None \<Rightarrow> None
         | Some (b, rest) \<Rightarrow>
           if b < 0x80 then map_option ((#) (word_of_nat b)) (decode_uri rest)
           else case utf8_length b of None \<Rightarrow> None
             | Some n \<Rightarrow> (case percent_bytes (n - 1) rest of None \<Rightarrow> None
                 | Some (bs, rest') \<Rightarrow> (case utf8_point n b bs of None \<Rightarrow> None
                     | Some v \<Rightarrow> map_option ((@) (utf16_of v)) (decode_uri rest'))))"
  by pat_completeness auto
termination
  by (relation "measure length") (auto dest!: percent_byte_shorter percent_bytes_shorter)

declare decode_uri.simps [simp del]

definition is_base64_unit :: "16 word \<Rightarrow> bool" where
  "is_base64_unit c \<longleftrightarrow> (let n = unat c in 65 \<le> n \<and> n \<le> 90 \<or> 97 \<le> n \<and> n \<le> 122 \<or> 48 \<le> n \<and> n \<le> 57 \<or> n = 43 \<or> n = 47)"

definition padding_run :: "js_string \<Rightarrow> nat" where
  "padding_run s = length (takeWhile (\<lambda>c. c = 0x3d) (rev s))"

definition configuredMaximum :: "int option \<Rightarrow> int result" where
  "configuredMaximum value = (let maximum = or_else value (16 * 1024) in
     if \<not> is_safe_integer maximum \<or> maximum < 1 \<or> 16 * 1024 < maximum
     then Inl (RangeError ''maxLength must be an integer in range'') else Inr maximum)"

definition normalizeRfcLogonTicket :: "js_string \<Rightarrow> int option \<Rightarrow> js_string result" where
  "normalizeRfcLogonTicket input maxLength =
    rbind (configuredMaximum maxLength) (\<lambda>maximum.
    if maximum * 3 + 2 < int (length input) then Inl (RangeError ''mysapsso2 exceeds canonical ASCII bytes'')
    else case decode_uri (trim_units input) of
      None \<Rightarrow> Inl (RangeError ''mysapsso2 contains invalid percent encoding'')
    | Some decoded \<Rightarrow>
      let normalized = map (\<lambda>c. if c = 0x21 then 0x2f else c) decoded in
      if length normalized < 1 \<or> maximum < int (length normalized)
      then Inl (RangeError ''mysapsso2 must contain canonical ASCII bytes'')
      else let paddingLength = (if 2 \<le> padding_run normalized then 2 :: nat else if 1 \<le> padding_run normalized then 1 else 0) in
        if \<not> (padding_run normalized \<le> 2 \<and> padding_run normalized < length normalized \<and>
              list_all is_base64_unit (take (length normalized - padding_run normalized) normalized)) \<or>
           length normalized mod 4 = 1 \<or> (0 < paddingLength \<and> length normalized mod 4 \<noteq> 0)
        then Inl (RangeError ''mysapsso2 must contain canonical base64 ticket text'')
        else Inr normalized)"

definition encodeRfcLogonTicket :: "js_string \<Rightarrow> bytes result" where
  "encodeRfcLogonTicket input = rbind (normalizeRfcLogonTicket input None) (\<lambda>ticket. Inr (utf16le ticket))"

section \<open>The request\<close>

abbreviation (input) T_User :: int where "T_User \<equiv> 0x0111"
abbreviation (input) T_Client :: int where "T_Client \<equiv> 0x0114"
abbreviation (input) T_Language :: int where "T_Language \<equiv> 0x0115"
abbreviation (input) T_Password :: int where "T_Password \<equiv> 0x0117"
abbreviation (input) T_Program :: int where "T_Program \<equiv> 0x0130"
abbreviation (input) T_UnicodeIndicator :: int where "T_UnicodeIndicator \<equiv> 0x0501"
abbreviation (input) T_ClientAddress :: int where "T_ClientAddress \<equiv> 0x0007"
abbreviation (input) T_PartnerHost :: int where "T_PartnerHost \<equiv> 0x0008"
abbreviation (input) T_Destination :: int where "T_Destination \<equiv> 0x0006"
abbreviation (input) T_ConnectionType :: int where "T_ConnectionType \<equiv> 0x0011"
abbreviation (input) T_KernelRelease :: int where "T_KernelRelease \<equiv> 0x0012"
abbreviation (input) T_KernelPatch :: int where "T_KernelPatch \<equiv> 0x0013"
abbreviation (input) T_PartnerSystem :: int where "T_PartnerSystem \<equiv> 0x0018"
abbreviation (input) T_Ticket :: int where "T_Ticket \<equiv> 0x0670"

definition INITIAL_CPIC_SIGNATURE :: bytes where
  "INITIAL_CPIC_SIGNATURE = [0xd9, 0xc6, 0xc3, 0xf0, 0xf0, 0xf0, 0xf0, 0xf0, 0xf0, 0xf0, 0xf0, 0xf0]"

definition INITIAL_CPIC_PREFIX :: bytes where
  "INITIAL_CPIC_PREFIX = [0x01, 0x01, 0x00, 0x08, 0x03, 0x01]"

text \<open>\<open>ascii\<close>: printable text of a bounded length.\<close>

definition cpic_ascii :: "js_string \<Rightarrow> nat \<Rightarrow> nat \<Rightarrow> bytes result" where
  "cpic_ascii value minimum maximum =
    (if \<not> ascii_printable value \<or> length value < minimum \<or> maximum < length value
     then Inl (RangeError ''must contain ASCII bytes'') else Inr (ascii_of value))"

record logon_input =
  lg_client :: js_string
  lg_user :: js_string
  lg_language :: js_string
  lg_clientAddress :: js_string
  lg_partnerSystem :: "js_string option"
  lg_partnerHostName :: js_string
  lg_destination :: js_string
  lg_programName :: js_string
  lg_functionName :: "js_string option"
  lg_kernelRelease :: "js_string option"
  lg_sessionId :: "bytes option"
  lg_maximumRfcPacketSize :: "int option"
  lg_password :: "js_string option"
  lg_passwordSeed :: "int option"
  lg_ticket :: "js_string option"

definition logon_language :: "js_string \<Rightarrow> bool" where
  "logon_language s \<longleftrightarrow> (case s of [c] \<Rightarrow> (let n = unat c in 65 \<le> n \<and> n \<le> 90 \<or> 97 \<le> n \<and> n \<le> 122 \<or> 48 \<le> n \<and> n \<le> 57)
     | _ \<Rightarrow> False)"

definition logon_credential :: "nat \<Rightarrow> logon_input \<Rightarrow> (int \<times> bytes) result" where
  "logon_credential randomSeed input =
    (let hasPassword = (lg_password input \<noteq> None); hasTicket = (lg_ticket input \<noteq> None) in
     if hasPassword = hasTicket
     then Inl (TypeError ''initial CPIC logon requires exactly one of password or ticket'')
     else if hasTicket \<and> lg_passwordSeed input \<noteq> None
     then Inl (TypeError ''passwordSeed cannot be combined with ticket'')
     else if hasTicket
     then rbind (encodeRfcLogonTicket (or_else (lg_ticket input) [])) (\<lambda>c. Inr (T_Ticket, c))
     else rbind (scrambleRfcPassword randomSeed (or_else (lg_password input) []) (lg_passwordSeed input)) (\<lambda>c. Inr (T_Password, c)))"

text \<open>The array of fields. \<open>''::1''\<close> and \<open>''RFCPING''\<close> are the defaults of two of them.\<close>

definition default_system :: js_string where
  "default_system = [0x3a, 0x3a, 0x31]"

definition default_function :: js_string where
  "default_function = [0x52, 0x46, 0x43, 0x50, 0x49, 0x4e, 0x47]"

definition logon_fields :: "logon_input \<Rightarrow> js_string \<Rightarrow> bytes \<Rightarrow> int \<times> bytes \<Rightarrow> cpic_field list result" where
  "logon_fields input kernelRelease sessionId credential =
    rbind (cpic_ascii (lg_user input) 1 40) (\<lambda>user.
    rbind (cpic_ascii (lg_clientAddress input) 1 64) (\<lambda>clientAddress.
    rbind (cpic_ascii (or_else (lg_partnerSystem input) default_system) 1 64) (\<lambda>partnerSystem.
    rbind (cpic_ascii (lg_partnerHostName input) 1 120) (\<lambda>partnerHostName.
    rbind (cpic_ascii (lg_destination input) 1 120) (\<lambda>destination.
    rbind (cpic_ascii (lg_programName input) 1 64) (\<lambda>programName.
    rbind (cpic_ascii (or_else (lg_functionName input) default_function) 1 40) (\<lambda>functionName.
    Inr [fld T_Start [], fld T_ProtocolVersion INITIAL_PROTOCOL_VERSION, fld T_Capabilities INITIAL_CAPABILITIES,
      fld T_LogonMarker [], fld T_Session sessionId, fld T_Client (ascii_of (lg_client input)), fld T_User user,
      fld (fst credential) (snd credential), fld T_Language (ascii_of (lg_language input)), fld T_UnicodeIndicator [1],
      fld T_ClientAddress clientAddress, fld T_PartnerSystem partnerSystem, fld T_ConnectionType [0x45],
      fld T_KernelRelease (ascii_of kernelRelease), fld T_KernelPatch (ascii_of kernelRelease),
      fld T_PartnerHost partnerHostName, fld T_Destination destination, fld T_Program programName,
      fld T_ContextEnd [], fld T_Kernel (ascii_of kernelRelease), fld T_Function functionName, fld T_End []])))))))"

definition encodeCpicInitialLogonRequest :: "nat \<Rightarrow> bytes \<Rightarrow> logon_input \<Rightarrow> bytes result" where
  "encodeCpicInitialLogonRequest randomSeed randomSession input =
    (if \<not> is_release (lg_client input) then Inl (RangeError ''client must contain exactly three ASCII digits'')
     else if \<not> logon_language (lg_language input) then Inl (RangeError ''language must contain one ASCII letter or digit'')
     else let kernelRelease = or_else (lg_kernelRelease input) default_release in
     if \<not> is_release kernelRelease then Inl (RangeError ''kernelRelease must contain exactly three ASCII digits'')
     else
     rbind (checkedMaximumRfcPacketSize (lg_maximumRfcPacketSize input)) (\<lambda>maximumRfcPacketSize.
     rbind (logon_credential randomSeed input) (\<lambda>credential.
     rbind (cpic_exactBytes (or_else (lg_sessionId input) randomSession) 16) (\<lambda>sessionId.
     rbind (logon_fields input kernelRelease sessionId credential) (\<lambda>fs.
     rbind (cpicFieldChainByteLength T_Start fs no_limits) (\<lambda>chainByteLength.
     let cpicPacketSize = int (length INITIAL_CPIC_SIGNATURE) + int (length INITIAL_CPIC_PREFIX) + chainByteLength + 2 in
     if 0xffff < cpicPacketSize then Inl (RangeError ''initial CPIC packet size exceeds 65535'')
     else rbind (encodeCpicFieldChain T_Start fs no_limits) (\<lambda>chain.
     Inr (INITIAL_CPIC_SIGNATURE @ INITIAL_CPIC_PREFIX @ chain @
       be_encode 2 0xffff @ be_encode 2 0 @ be_encode 2 (nat cpicPacketSize) @ be_encode 4 (nat maximumRfcPacketSize)))))))))"

section \<open>Its decoder\<close>

definition INITIAL_TAG_ORDER :: "int list" where
  "INITIAL_TAG_ORDER = [T_Start, T_ProtocolVersion, T_Capabilities, T_LogonMarker, T_Session, T_Client, T_User,
     T_Password, T_Language, T_UnicodeIndicator, T_ClientAddress, T_PartnerSystem, T_ConnectionType, T_KernelRelease,
     T_KernelPatch, T_PartnerHost, T_Destination, T_Program, T_ContextEnd, T_Kernel, T_Function, T_End]"

record decoded_logon_request =
  dr_fields :: "(int \<times> nat) list"
  dr_cpicPacketSize :: nat
  dr_maximumRfcPacketSize :: nat

definition structural :: "cpic_field list \<Rightarrow> (int \<times> nat) list" where
  "structural fs = map (\<lambda>f. (cf_tag f, length (cf_value f))) fs"

definition logon_tags_ok :: "cpic_field list \<Rightarrow> bool" where
  "logon_tags_ok fs \<longleftrightarrow> length fs = length INITIAL_TAG_ORDER \<and>
     list_all (\<lambda>(index, f). if index = 7 then cf_tag f = T_Password \<or> cf_tag f = T_Ticket
       else cf_tag f = INITIAL_TAG_ORDER ! index) (zip [0..<length fs] fs)"

definition decodeCpicInitialLogonRequest :: "bytes \<Rightarrow> decoded_logon_request result" where
  "decodeCpicInitialLogonRequest encoded =
    (let prefixLength = length INITIAL_CPIC_SIGNATURE + length INITIAL_CPIC_PREFIX in
     if length encoded < prefixLength + 10 then Inl (RangeError ''initial CPIC logon request is truncated'')
     else if take 12 encoded \<noteq> INITIAL_CPIC_SIGNATURE then Inl (PlainError ''initial CPIC logon signature is invalid'')
     else if slice 12 (prefixLength - 12) encoded \<noteq> INITIAL_CPIC_PREFIX then Inl (PlainError ''initial CPIC logon prefix is invalid'')
     else
     rbind (decodeCpicFieldChainPrefix (drop prefixLength encoded) T_Start T_End no_limits) (\<lambda>(fs, bytesConsumed).
     if \<not> logon_tags_ok fs
     then Inl (PlainError ''initial CPIC logon fields do not match the required tag order'')
     else if cf_value (fs ! 1) \<noteq> INITIAL_PROTOCOL_VERSION
     then Inl (PlainError ''initial CPIC protocol-version field is unsupported'')
     else if cf_value (fs ! 2) \<noteq> INITIAL_CAPABILITIES
     then Inl (PlainError ''initial CPIC capabilities field is unsupported'')
     else let trailerOffset = prefixLength + bytesConsumed in
     if int (length encoded) - int trailerOffset \<noteq> 10
     then Inl (PlainError ''initial CPIC logon request has an invalid trailer length'')
     else let trailer = drop trailerOffset encoded in
     if be_decode (slice 0 2 trailer) \<noteq> 0xffff \<or> be_decode (slice 2 2 trailer) \<noteq> 0
     then Inl (PlainError ''initial CPIC logon trailer marker is invalid'')
     else let cpicPacketSize = be_decode (slice 4 2 trailer) in
     if cpicPacketSize \<noteq> trailerOffset + 2
     then Inl (PlainError ''initial CPIC packet size does not match derived size'')
     else Inr \<lparr>dr_fields = structural fs, dr_cpicPacketSize = cpicPacketSize,
                dr_maximumRfcPacketSize = be_decode (slice 6 4 trailer)\<rparr>))"

end
