(* ===== verification/CpicLogonCodec.thy ===== *)
theory CpicLogonCodec
  imports CpicLogon
begin

text \<open>
  The logon request as a codec: what is encoded is accepted by the structural decoder, which reports its
  fields, and the scrambled password can be undone by whoever knows the table.
\<close>

section \<open>The password\<close>

lemma xor_twice: "(a XOR b) XOR b = a" for a b :: "'a::len word"
  by (simp add: xor.assoc)

lemma length_scramble_bytes [simp]: "length (scramble_bytes seed n bs) = length bs"
  by (simp add: scramble_bytes_def)

lemma scramble_bytes_nth: "i < length bs \<Longrightarrow> scramble_bytes seed n bs ! i = bs ! i XOR scramble_key seed (n + i)"
  by (simp add: scramble_bytes_def)

lemma scramble_bytes_twice: "scramble_bytes seed n (scramble_bytes seed n bs) = bs"
  by (rule nth_equalityI) (simp_all add: scramble_bytes_nth xor_twice)

text \<open>A scrambled password is no secret: from the bytes of the field alone, its seed in front and the public
table, the same scrambling gives the password back, character by character.\<close>

theorem password_scramble_reversible:
  assumes "scrambleRfcPassword randomSeed password seed = Inr b"
  shows "scramble_bytes (word_of_nat (le_decode (take 4 b))) 0 (drop 4 b) = ascii_of password"
proof -
  define actual where "actual = or_else seed (int randomSeed)"
  have a: "0 \<le> actual" "actual \<le> 0xffffffff"
    and b: "b = le_encode 4 (nat actual) @ scramble_bytes (word_of_int actual) 0 (ascii_of password)"
    using assms by (auto simp: scrambleRfcPassword_def Let_def actual_def split: if_splits)
  have "le_decode (take 4 b) = nat actual" using a by (simp add: b)
  moreover have "word_of_nat (nat actual) = (word_of_int actual :: 32 word)" using a by (simp add: of_nat_nat)
  ultimately show ?thesis by (simp add: b scramble_bytes_twice)
qed

section \<open>The request\<close>

lemma logon_credential_tag: "logon_credential r input = Inr c \<Longrightarrow> fst c = T_Password \<or> fst c = T_Ticket"
  by (auto simp: logon_credential_def Let_def split: if_splits)

lemma logon_fields_shape:
  assumes "logon_fields input release sessionId credential = Inr fs" and "fst credential = T_Password \<or> fst credential = T_Ticket"
  shows "\<exists>gs. fs = gs @ [fld T_End []] \<and> (\<forall>g \<in> set gs. cf_tag g \<noteq> T_End) \<and> logon_tags_ok fs \<and>
    cf_value (fs ! 1) = INITIAL_PROTOCOL_VERSION \<and> cf_value (fs ! 2) = INITIAL_CAPABILITIES"
proof -
  obtain user clientAddress partnerSystem partnerHostName destination programName functionName where
    fs: "fs = [fld T_Start [], fld T_ProtocolVersion INITIAL_PROTOCOL_VERSION, fld T_Capabilities INITIAL_CAPABILITIES,
      fld T_LogonMarker [], fld T_Session sessionId, fld T_Client (ascii_of (lg_client input)), fld T_User user,
      fld (fst credential) (snd credential), fld T_Language (ascii_of (lg_language input)), fld T_UnicodeIndicator [1],
      fld T_ClientAddress clientAddress, fld T_PartnerSystem partnerSystem, fld T_ConnectionType [0x45],
      fld T_KernelRelease (ascii_of release), fld T_KernelPatch (ascii_of release),
      fld T_PartnerHost partnerHostName, fld T_Destination destination, fld T_Program programName,
      fld T_ContextEnd [], fld T_Kernel (ascii_of release), fld T_Function functionName] @ [fld T_End []]"
    using assms(1) by (auto simp: logon_fields_def simp del: append.simps)
  have "logon_tags_ok fs" using assms(2) unfolding fs logon_tags_ok_def INITIAL_TAG_ORDER_def
    by (simp add: upt_rec fld_def)
  moreover have "cf_value (fs ! 1) = INITIAL_PROTOCOL_VERSION" "cf_value (fs ! 2) = INITIAL_CAPABILITIES"
    by (simp_all add: fs fld_def)
  moreover have "\<forall>g \<in> set (butlast fs). cf_tag g \<noteq> T_End" using assms(2) by (auto simp: fs fld_def butlast_append)
  ultimately show ?thesis using fs by (intro exI [of _ "butlast fs"]) (simp add: butlast_append)
qed

lemma chain_byte_length:
  assumes "cpicFieldChainByteLength p fs no_limits = Inr n" and "encodeCpicFieldChain p fs no_limits = Inr chain"
  shows "n = int (length chain)"
proof -
  have l: "limits_ok default_limits" by (simp add: limits_ok_def default_limits_def max_safe_integer_def)
  have "chain_length_loop default_limits fs 0 = Inr n" using assms(1)
    by (auto simp: cpicFieldChainByteLength_def split: if_splits)
  then show ?thesis using chain_length_loop_iff [of 0 default_limits fs n p] l assms(2)
    by (auto simp: encodeCpicFieldChain_iff limits_ok_def)
qed

text \<open>What follows the chain of a request: an end marker, the packet size and the packet limit.\<close>

lemma logon_trailer:
  assumes "k < 65536" and "limit < 4294967296"
  defines "t \<equiv> be_encode 2 0xffff @ be_encode 2 0 @ be_encode 2 k @ be_encode 4 limit"
  shows "length t = 10" and "be_decode (slice 0 2 t) = 0xffff" and "be_decode (slice 2 2 t) = 0"
    and "be_decode (slice 4 2 t) = k" and "be_decode (slice 6 4 t) = limit"
proof -
  have s: "slice 0 2 t = be_encode 2 0xffff" "slice 2 2 t = be_encode 2 0" "slice 4 2 t = be_encode 2 k" "slice 6 4 t = be_encode 4 limit"
    by (simp_all add: t_def slice_def)
  show "length t = 10" by (simp add: t_def)
  show "be_decode (slice 0 2 t) = 0xffff" "be_decode (slice 2 2 t) = 0" "be_decode (slice 4 2 t) = k" "be_decode (slice 6 4 t) = limit"
    using assms(1,2) unfolding s by simp_all
qed

text \<open>C6. Every initial logon request that the encoder produces is accepted by the structural decoder, which
reports the tag and length of each of its fields, the packet size it announces, eight bytes less than the
request, and the packet limit asked for; and its field chain carries exactly the fields built from the
input.\<close>

theorem logon_request_roundtrip:
  assumes "encodeCpicInitialLogonRequest randomSeed randomSession input = Inr b"
  shows "\<exists>release sessionId credential fs. logon_credential randomSeed input = Inr credential \<and>
    logon_fields input release sessionId credential = Inr fs \<and>
    decodeCpicInitialLogonRequest b = Inr \<lparr>dr_fields = structural fs, dr_cpicPacketSize = length b - 8,
      dr_maximumRfcPacketSize = nat (or_else (lg_maximumRfcPacketSize input) 0x8500)\<rparr> \<and>
    decodeCpicFieldChainPrefix (drop 18 b) T_Start T_End no_limits = Inr (fs, length b - 28)"
proof -
  let ?release = "or_else (lg_kernelRelease input) default_release"
  obtain limit credential sessionId fs n chain where
    limit: "checkedMaximumRfcPacketSize (lg_maximumRfcPacketSize input) = Inr limit"
    and cred: "logon_credential randomSeed input = Inr credential"
    and fs: "logon_fields input ?release sessionId credential = Inr fs"
    and n: "cpicFieldChainByteLength T_Start fs no_limits = Inr n" "20 + n \<le> 0xffff"
    and chain: "encodeCpicFieldChain T_Start fs no_limits = Inr chain"
    and b: "b = INITIAL_CPIC_SIGNATURE @ INITIAL_CPIC_PREFIX @ chain @
       be_encode 2 0xffff @ be_encode 2 0 @ be_encode 2 (nat (20 + n)) @ be_encode 4 (nat limit)"
    using assms by (auto simp: encodeCpicInitialLogonRequest_def Let_def INITIAL_CPIC_SIGNATURE_def INITIAL_CPIC_PREFIX_def
        split: if_splits)
  have limit_is: "limit = or_else (lg_maximumRfcPacketSize input) 0x8500" "0 \<le> limit" "limit \<le> 0xffffffff"
    using limit by (auto simp: checkedMaximumRfcPacketSize_def Let_def split: if_splits)
  have len: "n = int (length chain)" using chain_byte_length [OF n(1) chain] .
  obtain gs where gs: "fs = gs @ [fld T_End []]" "\<forall>g \<in> set gs. cf_tag g \<noteq> T_End" and ok: "logon_tags_ok fs"
    "cf_value (fs ! 1) = INITIAL_PROTOCOL_VERSION" "cf_value (fs ! 2) = INITIAL_CAPABILITIES"
    using logon_fields_shape [OF fs logon_credential_tag [OF cred]] by blast
  define t where "t = be_encode 2 0xffff @ be_encode 2 0 @ be_encode 2 (nat (20 + n)) @ be_encode 4 (nat limit)"
  have t: "length t = 10" "be_decode (slice 0 2 t) = 0xffff" "be_decode (slice 2 2 t) = 0"
    "be_decode (slice 4 2 t) = nat (20 + n)" "be_decode (slice 6 4 t) = nat limit"
    unfolding t_def using n(2) len limit_is(2,3) by (intro logon_trailer; simp)+
  have "decodeCpicFieldChainPrefix (chain @ t) T_Start (cf_tag (fld T_End [])) no_limits = Inr (gs @ [fld T_End []], length chain)"
    using chain gs unfolding gs(1) by (intro decode_encoded_prefix) (auto simp: fld_def)
  then have prefix: "decodeCpicFieldChainPrefix (chain @ t) T_Start T_End no_limits = Inr (fs, length chain)"
    by (simp add: gs(1) fld_def)
  have b': "b = INITIAL_CPIC_SIGNATURE @ INITIAL_CPIC_PREFIX @ chain @ t" using b by (simp add: t_def)
  have s: "length INITIAL_CPIC_SIGNATURE = 12" "length INITIAL_CPIC_PREFIX = 6"
    by (simp_all add: INITIAL_CPIC_SIGNATURE_def INITIAL_CPIC_PREFIX_def)
  have size: "length b = 28 + length chain" using t(1) s by (simp add: b')
  have drops: "drop 18 b = chain @ t" "take 12 b = INITIAL_CPIC_SIGNATURE" "slice 12 6 b = INITIAL_CPIC_PREFIX"
    "drop (18 + length chain) b = t"
    using s by (simp_all add: b' slice_def)
  have "decodeCpicInitialLogonRequest b = Inr \<lparr>dr_fields = structural fs, dr_cpicPacketSize = length b - 8,
      dr_maximumRfcPacketSize = nat limit\<rparr>"
    unfolding decodeCpicInitialLogonRequest_def Let_def s
    using size drops prefix ok t len by (simp del: be_decode_encode_id)
  then show ?thesis using cred fs prefix drops(1) size limit_is(1) by auto
qed

section \<open>Samples\<close>

definition sample_logon :: logon_input where
  "sample_logon = \<lparr>lg_client = [0x31, 0x30, 0x30], lg_user = [0x55], lg_language = [0x45], lg_clientAddress = [0x41],
     lg_partnerSystem = None, lg_partnerHostName = [0x48], lg_destination = [0x44], lg_programName = [0x50],
     lg_functionName = None, lg_kernelRelease = None, lg_sessionId = None, lg_maximumRfcPacketSize = None,
     lg_password = Some [0x70], lg_passwordSeed = Some 7, lg_ticket = None\<rparr>"

lemma sample_scrambled: "\<exists>b. scrambleRfcPassword 0 [0x70] (Some 7) = Inr b \<and> length b = 5"
  by (simp add: scrambleRfcPassword_def Let_def ascii_printable_def is_safe_integer_def max_safe_integer_def ascii_of_def)

lemma password_scramble_reversible_witness:
  "\<exists>b. scrambleRfcPassword 0 [0x70] (Some 7) = Inr b \<and>
    scramble_bytes (word_of_nat (le_decode (take 4 b))) 0 (drop 4 b) = ascii_of [0x70]"
  using sample_scrambled password_scramble_reversible by blast

lemma sample_logon_encoded: "\<exists>b. encodeCpicInitialLogonRequest 0 (replicate 16 0) sample_logon = Inr b"
proof -
  obtain c where c: "scrambleRfcPassword 0 [0x70] (Some 7) = Inr c" "length c = 5" using sample_scrambled by blast
  have l: "limits_ok default_limits" by (simp add: limits_ok_def default_limits_def max_safe_integer_def)
  obtain fs where fs: "logon_fields sample_logon default_release (replicate 16 0) (T_Password, c) = Inr fs"
    and fits: "encodeCpicFieldChain T_Start fs no_limits = Inr (chain_bytes T_Start fs)" "length (chain_bytes T_Start fs) < 1000"
    using c(2) by (simp add: logon_fields_def cpic_ascii_def ascii_printable_def sample_logon_def default_system_def default_function_def
        encodeCpicFieldChain_iff field_fits_def fld_def default_limits_def field_bytes_def rfc_pro_header_length
        ascii_of_def default_release_def INITIAL_PROTOCOL_VERSION_def INITIAL_CAPABILITIES_def)
  obtain n where n: "cpicFieldChainByteLength T_Start fs no_limits = Inr n"
    using fits(1) by (auto simp: encodeCpicFieldChain_def)
  have "n = int (length (chain_bytes T_Start fs))" using chain_byte_length [OF n fits(1)] .
  then show ?thesis using c fs fits n
    by (simp add: encodeCpicInitialLogonRequest_def Let_def sample_logon_def is_release_def is_digit_def default_release_def
        logon_language_def checkedMaximumRfcPacketSize_def is_safe_integer_def max_safe_integer_def logon_credential_def
        cpic_exactBytes_def INITIAL_CPIC_SIGNATURE_def INITIAL_CPIC_PREFIX_def)
qed

lemma logon_request_roundtrip_witness:
  "\<exists>b fs. encodeCpicInitialLogonRequest 0 (replicate 16 0) sample_logon = Inr b \<and>
    decodeCpicInitialLogonRequest b = Inr \<lparr>dr_fields = structural fs, dr_cpicPacketSize = length b - 8,
      dr_maximumRfcPacketSize = nat (or_else (lg_maximumRfcPacketSize sample_logon) 0x8500)\<rparr>"
  using sample_logon_encoded logon_request_roundtrip by blast

end
