(* ===== verification/RfcErrorEnvelope.thy ===== *)
theory RfcErrorEnvelope
  imports CpicRequest
begin

text \<open>
  The error and control part of a decoded response, \<open>src/protocol/rfc-error-envelope.ts\<close>. A response is
  its list of CPIC fields. The decoder demands one empty End field at the end, collects the error facts as
  texts, counts the controls, refuses unknown tags, and then decides what the response is: a declared
  exception, a runtime error, a message, or a success. Texts are lists of UTF-16 code units.
\<close>

section \<open>Tags and limits\<close>

abbreviation (input) E_ExceptionKey :: int where "E_ExceptionKey \<equiv> 0x0401"
abbreviation (input) E_ErrorMessage :: int where "E_ErrorMessage \<equiv> 0x0402"
abbreviation (input) E_RuntimeId :: int where "E_RuntimeId \<equiv> 0x0403"
abbreviation (input) E_T100Text :: int where "E_T100Text \<equiv> 0x0404"
abbreviation (input) E_MessageV1 :: int where "E_MessageV1 \<equiv> 0x0411"
abbreviation (input) E_MessageV2 :: int where "E_MessageV2 \<equiv> 0x0412"
abbreviation (input) E_MessageV3 :: int where "E_MessageV3 \<equiv> 0x0413"
abbreviation (input) E_MessageV4 :: int where "E_MessageV4 \<equiv> 0x0414"
abbreviation (input) E_MessageClass :: int where "E_MessageClass \<equiv> 0x0415"
abbreviation (input) E_MessageType :: int where "E_MessageType \<equiv> 0x0416"
abbreviation (input) E_MessageNumber :: int where "E_MessageNumber \<equiv> 0x0417"
abbreviation (input) E_CallStack :: int where "E_CallStack \<equiv> 0x0418"
abbreviation (input) E_Unresolved0420 :: int where "E_Unresolved0420 \<equiv> 0x0420"
abbreviation (input) E_UseClassExceptions :: int where "E_UseClassExceptions \<equiv> 0x0421"
abbreviation (input) E_ClassExceptionInfo :: int where "E_ClassExceptionInfo \<equiv> 0x0422"
abbreviation (input) E_ClassException :: int where "E_ClassException \<equiv> 0x0423"
abbreviation (input) E_ClassExceptionEnd :: int where "E_ClassExceptionEnd \<equiv> 0x0424"

definition CLASSIC_RESPONSE_DATA_TAGS :: "int list" where
  "CLASSIC_RESPONSE_DATA_TAGS =
    [0x0102, 0x0201, 0x0203, 0x0205, 0x0301, 0x0302, 0x0303, 0x0304, 0x0502, 0x0503, 0x0512, 0x0514]"

definition TEXT_TAGS :: "int list" where
  "TEXT_TAGS = [E_ExceptionKey, E_ErrorMessage, E_RuntimeId, E_T100Text, E_MessageV1, E_MessageV2, E_MessageV3,
     E_MessageV4, E_MessageClass, E_MessageType, E_MessageNumber, E_CallStack]"

definition CLASS_EXCEPTION_TAGS :: "int list" where
  "CLASS_EXCEPTION_TAGS = [E_ClassExceptionInfo, E_ClassException, E_ClassExceptionEnd]"

definition MESSAGE_TEXT_TAGS :: "int list" where
  "MESSAGE_TEXT_TAGS = [E_ErrorMessage, E_T100Text]"

definition MESSAGE_IDENTITY_TAGS :: "int list" where
  "MESSAGE_IDENTITY_TAGS = [E_MessageClass, E_MessageType, E_MessageNumber]"

definition SECONDARY_ERROR_TAGS :: "int list" where
  "SECONDARY_ERROR_TAGS = [E_MessageV1, E_MessageV2, E_MessageV3, E_MessageV4, E_CallStack] @ MESSAGE_TEXT_TAGS @
     MESSAGE_IDENTITY_TAGS"

datatype text_encoding = Utf16Text | AsciiText

record envelope_options =
  eo_textEncoding :: "text_encoding option"
  eo_maxTextByteLength :: "int option"
  eo_maxTotalTextByteLength :: "int option"
  eo_maxControlByteLength :: "int option"
  eo_maxTotalControlByteLength :: "int option"
  eo_maxControlCount :: "int option"
  eo_maxFieldCount :: "int option"
  eo_additionalAllowedTags :: "int list"

definition no_options :: envelope_options where
  "no_options = \<lparr>eo_textEncoding = None, eo_maxTextByteLength = None, eo_maxTotalTextByteLength = None,
     eo_maxControlByteLength = None, eo_maxTotalControlByteLength = None, eo_maxControlCount = None,
     eo_maxFieldCount = None, eo_additionalAllowedTags = []\<rparr>"

record envelope_limits =
  el_ascii :: bool
  el_maxText :: int
  el_maxTotalText :: int
  el_maxControl :: int
  el_maxTotalControl :: int
  el_maxControlCount :: int
  el_maxFieldCount :: int
  el_allowedTags :: "int list"

fun check_tags :: "int list \<Rightarrow> unit result" where
  "check_tags [] = Inr ()"
| "check_tags (tag # tags) = rbind (cpic_boundedInteger tag 0 0xffff) (\<lambda>_. check_tags tags)"

text \<open>The options with their defaults: the first part of \<open>decodeRfcErrorEnvelope\<close>.\<close>

definition envelope_limits_of :: "envelope_options \<Rightarrow> envelope_limits result" where
  "envelope_limits_of options =
    (let limits = \<lparr>el_ascii = (or_else (eo_textEncoding options) Utf16Text = AsciiText),
           el_maxText = or_else (eo_maxTextByteLength options) (1024 * 1024),
           el_maxTotalText = or_else (eo_maxTotalTextByteLength options) (4 * 1024 * 1024),
           el_maxControl = or_else (eo_maxControlByteLength options) (4 * 1024),
           el_maxTotalControl = or_else (eo_maxTotalControlByteLength options) (64 * 1024),
           el_maxControlCount = or_else (eo_maxControlCount options) 64,
           el_maxFieldCount = or_else (eo_maxFieldCount options) 256,
           el_allowedTags = CLASSIC_RESPONSE_DATA_TAGS @ eo_additionalAllowedTags options\<rparr> in
     rbind (cpic_boundedInteger (el_maxText limits) 0 0x7fffffff) (\<lambda>_.
     rbind (cpic_boundedInteger (el_maxTotalText limits) 0 0x7fffffff) (\<lambda>_.
     rbind (cpic_boundedInteger (el_maxControl limits) 0 0x7fffffff) (\<lambda>_.
     rbind (cpic_boundedInteger (el_maxTotalControl limits) 0 0x7fffffff) (\<lambda>_.
     rbind (cpic_boundedInteger (el_maxControlCount limits) 0 0x7fffffff) (\<lambda>_.
     rbind (cpic_boundedInteger (el_maxFieldCount limits) 1 0x7fffffff) (\<lambda>_.
     rbind (check_tags (eo_additionalAllowedTags options)) (\<lambda>_. Inr limits))))))))"

definition envelope_error :: "string \<Rightarrow> js_error" where
  "envelope_error reasonCode = CodedError ''RfcErrorEnvelopeProtocolError'' (''RFC_ERROR_ENVELOPE_'' @ reasonCode)"

section \<open>Texts\<close>

fun utf16_units :: "bytes \<Rightarrow> js_string" where
  "utf16_units (a # b # bs) = word_of_nat (le_decode [a, b]) # utf16_units bs"
| "utf16_units bs = []"

text \<open>\<open>replace(/ +$/u, "")\<close>.\<close>

definition strip_spaces :: "js_string \<Rightarrow> js_string" where
  "strip_spaces s = rev (dropWhile (\<lambda>c. c = 0x20) (rev s))"

fun check_units :: "js_string \<Rightarrow> unit result" where
  "check_units [] = Inr ()"
| "check_units (c # cs) =
    (if c = 0 then Inl (envelope_error ''EMBEDDED_NUL'')
     else if is_high_surrogate c
     then case cs of
         [] \<Rightarrow> Inl (envelope_error ''UNPAIRED_SURROGATE'')
       | low # rest \<Rightarrow> if \<not> is_low_surrogate low then Inl (envelope_error ''UNPAIRED_SURROGATE'') else check_units rest
     else if is_low_surrogate c then Inl (envelope_error ''UNPAIRED_SURROGATE'')
     else check_units cs)"

definition decodeStrictUtf16Le :: "bytes \<Rightarrow> int \<Rightarrow> js_string result" where
  "decodeStrictUtf16Le value maximumByteLength =
    (if maximumByteLength < int (length value) then Inl (envelope_error ''TEXT_TOO_LARGE'')
     else if odd (length value) then Inl (envelope_error ''ODD_UTF16_LENGTH'')
     else rbind (check_units (utf16_units value)) (\<lambda>_. Inr (strip_spaces (utf16_units value))))"

fun check_ascii :: "bytes \<Rightarrow> unit result" where
  "check_ascii [] = Inr ()"
| "check_ascii (b # bs) =
    (if b = 0 then Inl (envelope_error ''EMBEDDED_NUL'')
     else if 0x7f < unat b then Inl (envelope_error ''NON_ASCII_TEXT'')
     else check_ascii bs)"

definition decodeStrictAscii :: "bytes \<Rightarrow> js_string result" where
  "decodeStrictAscii value = rbind (check_ascii value) (\<lambda>_. Inr (strip_spaces (map (\<lambda>b. word_of_nat (unat b)) value)))"

definition hex_digit :: "nat \<Rightarrow> char" where
  "hex_digit d = char_of (if d < 10 then 48 + d else 87 + d)"

definition hex_text :: "bytes \<Rightarrow> string" where
  "hex_text bs = concat (map (\<lambda>b. [hex_digit (unat b div 16), hex_digit (unat b mod 16)]) bs)"

section \<open>Scanning the fields\<close>

record fact_provenance =
  fp_tag :: int
  fp_ordinal :: nat
  fp_byteLength :: nat

record control_fact =
  uc_ordinal :: nat
  uc_byteLength :: nat
  uc_valueHex :: string

text \<open>The variables of the loop over the fields; a text tag is present exactly if it has a value.\<close>

record envelope_scan =
  es_values :: "int \<rightharpoonup> js_string"
  es_provenance :: "fact_provenance list"
  es_unresolved0420 :: "control_fact list"
  es_totalText :: int
  es_totalControl :: int
  es_controlCount :: int
  es_sawUseClassExceptions :: bool
  es_sawInfo :: bool

definition scan_new :: envelope_scan where
  "scan_new = \<lparr>es_values = Map.empty, es_provenance = [], es_unresolved0420 = [], es_totalText = 0,
     es_totalControl = 0, es_controlCount = 0, es_sawUseClassExceptions = False, es_sawInfo = False\<rparr>"

definition scan_text :: "envelope_limits \<Rightarrow> nat \<Rightarrow> cpic_field \<Rightarrow> envelope_scan \<Rightarrow> envelope_scan result" where
  "scan_text limits ordinal f s =
    (let tag = cf_tag f; n = length (cf_value f) in
     if es_values s tag \<noteq> None then Inl (envelope_error ''DUPLICATE_FACT'')
     else if el_maxText limits < int n then Inl (envelope_error ''TEXT_TOO_LARGE'')
     else if el_maxTotalText limits - int n < es_totalText s then Inl (envelope_error ''TOTAL_TEXT_TOO_LARGE'')
     else rbind (if el_ascii limits then decodeStrictAscii (cf_value f)
                 else decodeStrictUtf16Le (cf_value f) (el_maxText limits)) (\<lambda>v.
       Inr (s\<lparr>es_totalText := es_totalText s + int n, es_values := (es_values s)(tag \<mapsto> v),
              es_provenance := es_provenance s @ [\<lparr>fp_tag = tag, fp_ordinal = ordinal, fp_byteLength = n\<rparr>]\<rparr>)))"

text \<open>The checks that the three controls share, with the one for a repeated singleton in its place.\<close>

definition scan_control :: "envelope_limits \<Rightarrow> nat \<Rightarrow> cpic_field \<Rightarrow> bool \<Rightarrow> envelope_scan \<Rightarrow> envelope_scan result" where
  "scan_control limits ordinal f repeated s =
    (let n = length (cf_value f) in
     if el_maxControlCount limits \<le> es_controlCount s then Inl (envelope_error ''TOO_MANY_CONTROLS'')
     else if repeated then Inl (envelope_error ''DUPLICATE_FACT'')
     else if el_maxControl limits < int n then Inl (envelope_error ''CONTROL_TOO_LARGE'')
     else if el_maxTotalControl limits - int n < es_totalControl s then Inl (envelope_error ''TOTAL_CONTROL_TOO_LARGE'')
     else Inr (s\<lparr>es_controlCount := es_controlCount s + 1, es_totalControl := es_totalControl s + int n,
                 es_provenance := es_provenance s @ [\<lparr>fp_tag = cf_tag f, fp_ordinal = ordinal, fp_byteLength = n\<rparr>]\<rparr>))"

definition scan_field :: "envelope_limits \<Rightarrow> nat \<Rightarrow> cpic_field \<Rightarrow> envelope_scan \<Rightarrow> envelope_scan result" where
  "scan_field limits ordinal f s =
    (if cf_tag f \<in> set TEXT_TAGS then scan_text limits ordinal f s
     else if cf_tag f = E_Unresolved0420
     then rbind (scan_control limits ordinal f False s) (\<lambda>s.
       Inr (s\<lparr>es_unresolved0420 := es_unresolved0420 s @ [\<lparr>uc_ordinal = ordinal, uc_byteLength = length (cf_value f),
              uc_valueHex = hex_text (cf_value f)\<rparr>]\<rparr>))
     else if cf_tag f = E_UseClassExceptions
     then rbind (scan_control limits ordinal f (es_sawUseClassExceptions s) s) (\<lambda>s. Inr (s\<lparr>es_sawUseClassExceptions := True\<rparr>))
     else if cf_tag f = E_ClassExceptionInfo
     then rbind (scan_control limits ordinal f (es_sawInfo s) s) (\<lambda>s. Inr (s\<lparr>es_sawInfo := True\<rparr>))
     else if cf_tag f \<in> set CLASS_EXCEPTION_TAGS then Inl (envelope_error ''CLASS_EXCEPTION_UNSUPPORTED'')
     else if cf_tag f \<notin> set (el_allowedTags limits) then Inl (envelope_error ''UNKNOWN_TAG'')
     else Inr s)"

fun scan_fields :: "envelope_limits \<Rightarrow> nat \<Rightarrow> cpic_field list \<Rightarrow> envelope_scan \<Rightarrow> envelope_scan result" where
  "scan_fields limits ordinal [] s = Inr s"
| "scan_fields limits ordinal (f # fs) s = rbind (scan_field limits ordinal f s) (scan_fields limits (Suc ordinal) fs)"

section \<open>What the response is\<close>

datatype envelope_outcome = OutSuccess | AbapException | AbapRuntime | AbapMessage

record error_facts =
  ef_exceptionKey :: js_string
  ef_plainText :: js_string
  ef_runtimeId :: js_string
  ef_t100Text :: js_string
  ef_messageClass :: js_string
  ef_messageType :: js_string
  ef_messageNumber :: js_string
  ef_messageV1 :: js_string
  ef_messageV2 :: js_string
  ef_messageV3 :: js_string
  ef_messageV4 :: js_string
  ef_callStack :: js_string
  ef_provenance :: "fact_provenance list"
  ef_unresolved0420 :: "control_fact list"

text \<open>\<open>successControl\<close> is \<open>zeroControl\<close> exactly with the outcome \<open>success\<close>; a boolean keeps it.\<close>

record envelope =
  en_outcome :: envelope_outcome
  en_zeroControl :: bool
  en_facts :: error_facts

definition fact_of :: "envelope_scan \<Rightarrow> int \<Rightarrow> js_string" where
  "fact_of s tag = or_else (es_values s tag) []"

definition fact_present :: "envelope_scan \<Rightarrow> int \<Rightarrow> bool" where
  "fact_present s tag \<longleftrightarrow> es_values s tag \<noteq> None"

definition hasNonEmptyFact :: "int list \<Rightarrow> envelope_scan \<Rightarrow> bool" where
  "hasNonEmptyFact tags s \<longleftrightarrow> list_ex (\<lambda>tag. fact_present s tag \<and> 0 < length (fact_of s tag)) tags"

definition hasCoherentMessageIdentity :: "envelope_scan \<Rightarrow> bool" where
  "hasCoherentMessageIdentity s \<longleftrightarrow> list_all (\<lambda>tag. fact_present s tag \<and> 0 < length (fact_of s tag)) MESSAGE_IDENTITY_TAGS"

definition hasAnyTag :: "int list \<Rightarrow> envelope_scan \<Rightarrow> bool" where
  "hasAnyTag tags s \<longleftrightarrow> list_ex (fact_present s) tags"

definition check_discriminators :: "envelope_scan \<Rightarrow> unit result" where
  "check_discriminators s =
    (if fact_present s E_ExceptionKey \<and> fact_of s E_ExceptionKey = [] then Inl (envelope_error ''EMPTY_DISCRIMINATOR'')
     else if fact_present s E_RuntimeId \<and> fact_of s E_RuntimeId = [] then Inl (envelope_error ''EMPTY_DISCRIMINATOR'')
     else if fact_present s E_ExceptionKey \<and> fact_present s E_RuntimeId
     then Inl (envelope_error ''CONFLICTING_DISCRIMINATORS'')
     else if es_sawInfo s \<and> (\<not> fact_present s E_ExceptionKey \<or> es_sawUseClassExceptions s)
     then Inl (envelope_error ''CLASS_EXCEPTION_UNSUPPORTED'')
     else Inr ())"

definition classify :: "envelope_scan \<Rightarrow> envelope_outcome result" where
  "classify s =
    (if fact_present s E_ExceptionKey then Inr AbapException
     else if fact_present s E_RuntimeId then Inr AbapRuntime
     else if hasNonEmptyFact MESSAGE_TEXT_TAGS s \<or> hasCoherentMessageIdentity s then Inr AbapMessage
     else if hasAnyTag SECONDARY_ERROR_TAGS s then Inl (envelope_error ''AMBIGUOUS_FACTS'')
     else case es_unresolved0420 s of
       [control] \<Rightarrow> if uc_byteLength control \<noteq> 4 \<or> uc_valueHex control \<noteq> ''00000000''
         then Inl (envelope_error ''UNRESOLVED_SUCCESS_CONTROL'') else Inr OutSuccess
     | _ \<Rightarrow> Inl (envelope_error ''UNRESOLVED_SUCCESS_CONTROL''))"

definition facts_of :: "envelope_scan \<Rightarrow> error_facts" where
  "facts_of s = \<lparr>ef_exceptionKey = fact_of s E_ExceptionKey, ef_plainText = fact_of s E_ErrorMessage,
     ef_runtimeId = fact_of s E_RuntimeId, ef_t100Text = fact_of s E_T100Text, ef_messageClass = fact_of s E_MessageClass,
     ef_messageType = fact_of s E_MessageType, ef_messageNumber = fact_of s E_MessageNumber,
     ef_messageV1 = fact_of s E_MessageV1, ef_messageV2 = fact_of s E_MessageV2, ef_messageV3 = fact_of s E_MessageV3,
     ef_messageV4 = fact_of s E_MessageV4, ef_callStack = fact_of s E_CallStack,
     ef_provenance = es_provenance s, ef_unresolved0420 = es_unresolved0420 s\<rparr>"

text \<open>The positions of the End fields, and what is demanded of them.\<close>

definition check_end :: "cpic_field list \<Rightarrow> unit result" where
  "check_end fs =
    (let endIndices = filter (\<lambda>i. cf_tag (fs ! i) = 0xffff) [0..<length fs] in
     case endIndices of
       [] \<Rightarrow> Inl (envelope_error ''MISSING_END'')
     | endIndex # _ \<Rightarrow>
         if length endIndices \<noteq> 1 \<or> endIndex \<noteq> length fs - 1 \<or> length (cf_value (fs ! endIndex)) \<noteq> 0
         then Inl (envelope_error ''INVALID_END'') else Inr ())"

definition field_valid :: "cpic_field \<Rightarrow> bool" where
  "field_valid f \<longleftrightarrow> is_safe_integer (cf_tag f) \<and> 0 \<le> cf_tag f \<and> cf_tag f \<le> 0xffff"

definition decodeRfcErrorEnvelope :: "cpic_field list \<Rightarrow> envelope_options \<Rightarrow> envelope result" where
  "decodeRfcErrorEnvelope fs options =
    rbind (envelope_limits_of options) (\<lambda>limits.
    if el_maxFieldCount limits < int (length fs) then Inl (envelope_error ''TOO_MANY_FIELDS'')
    else if \<not> list_all field_valid fs then Inl (envelope_error ''INVALID_FIELD'')
    else
    rbind (check_end fs) (\<lambda>_.
    rbind (scan_fields limits 0 (butlast fs) scan_new) (\<lambda>s.
    rbind (check_discriminators s) (\<lambda>_.
    rbind (classify s) (\<lambda>outcome.
    Inr \<lparr>en_outcome = outcome, en_zeroControl = (outcome = OutSuccess), en_facts = facts_of s\<rparr>)))))"

end
