(* ===== verification/CpicResponse.thy ===== *)
theory CpicResponse
  imports RfcErrorEnvelope CpicLogon
begin

text \<open>
  The response decoders of \<open>src/protocol/cpic.ts\<close>: the first response after logon in its regular, composite
  and error forms, the responses to function calls, the reply to a reset of the server context and the first
  call after it. A failure of the logon decoder keeps the stage or the structural rule that the code records
  for diagnosis.
\<close>

abbreviation (input) T_LogonStatus :: int where "T_LogonStatus \<equiv> 0x0161"
abbreviation (input) T_SystemCodePage :: int where "T_SystemCodePage \<equiv> 0x0016"
abbreviation (input) T_Unresolved0420 :: int where "T_Unresolved0420 \<equiv> 0x0420"
abbreviation (input) T_ResponseStart :: int where "T_ResponseStart \<equiv> 0x0500"
abbreviation (input) T_ResponseContext :: int where "T_ResponseContext \<equiv> 0x0503"
abbreviation (input) T_RfcServerResetDone :: int where "T_RfcServerResetDone \<equiv> 0x0523"
abbreviation (input) T_Unresolved0450 :: int where "T_Unresolved0450 \<equiv> 0x0450"

definition INITIAL_CPIC_RESPONSE_PREFIX :: bytes where
  "INITIAL_CPIC_RESPONSE_PREFIX = [0x01, 0x01, 0x00, 0x08, 0x01, 0x01, 0x01, 0x05, 0x04, 0x01, 0x00, 0x03]"

definition INITIAL_CPIC_ERROR_RESPONSE_PREFIX :: bytes where
  "INITIAL_CPIC_ERROR_RESPONSE_PREFIX = [0x01, 0x01, 0x00, 0x08, 0x01, 0x01, 0x01, 0x01, 0x01, 0x01, 0x00, 0x00]"

definition CPIC_FUNCTION_RESPONSE_PREFIX :: bytes where
  "CPIC_FUNCTION_RESPONSE_PREFIX = [0x05, 0x00, 0x00, 0x00]"

definition INITIAL_CPIC_REGULAR_RESPONSE_TAGS :: "int list" where
  "INITIAL_CPIC_REGULAR_RESPONSE_TAGS = [T_Start, T_ProtocolVersion, T_Capabilities, T_LogonStatus, T_Unresolved0420,
     T_Unresolved0450, T_SystemCodePage, T_End]"

section \<open>Grammars of logon responses\<close>

text \<open>A coordinate pins its width to one or a few values, or bounds it from above and demands one byte.\<close>

datatype coordinate_width = Exactly nat | OneOf "nat list" | AtMost nat

record coordinate =
  gc_tag :: int
  gc_width :: coordinate_width
  gc_optional :: bool

definition required :: "int \<Rightarrow> coordinate_width \<Rightarrow> coordinate" where
  "required tag width = \<lparr>gc_tag = tag, gc_width = width, gc_optional = False\<rparr>"

definition optional :: "int \<Rightarrow> coordinate_width \<Rightarrow> coordinate" where
  "optional tag width = \<lparr>gc_tag = tag, gc_width = width, gc_optional = True\<rparr>"

definition INITIAL_CPIC_ERROR_PREAMBLE_GRAMMAR :: "coordinate list" where
  "INITIAL_CPIC_ERROR_PREAMBLE_GRAMMAR =
    [required T_ProtocolVersion (Exactly 4), required T_Capabilities (Exactly 11), optional T_LogonStatus (Exactly 1),
     required T_SystemCodePage (OneOf [4, 8]), optional T_Unresolved0450 (Exactly 3), required T_ClientAddress (AtMost 255),
     optional 0x0020 (Exactly 46), optional 0x0021 (Exactly 10), required T_PartnerSystem (AtMost 255),
     required T_PartnerHost (AtMost 255), required T_ConnectionType (OneOf [1, 2]), required T_KernelPatch (OneOf [4, 8]),
     required T_KernelRelease (OneOf [4, 8]), required T_Destination (AtMost 255), required T_Program (AtMost 255),
     required T_ResponseStart (Exactly 0)]"

definition INITIAL_CPIC_RICH_RFCPING_PREAMBLE_GRAMMAR :: "coordinate list" where
  "INITIAL_CPIC_RICH_RFCPING_PREAMBLE_GRAMMAR =
    [required T_ProtocolVersion (Exactly 4), required T_Capabilities (Exactly 11), optional T_LogonStatus (Exactly 1),
     required T_SystemCodePage (Exactly 8), optional T_Unresolved0450 (Exactly 6), optional 0x0451 (Exactly 20),
     optional 0x0452 (Exactly 4), optional 0x0453 (AtMost 255), required T_ClientAddress (AtMost 255),
     optional 0x0020 (Exactly 92), optional 0x0021 (Exactly 20), required T_PartnerSystem (AtMost 255),
     required T_PartnerHost (AtMost 255), required T_ConnectionType (Exactly 2), required T_KernelPatch (Exactly 8),
     required T_KernelRelease (Exactly 8), optional T_Destination (AtMost 255), required T_Program (AtMost 255),
     required 0x0150 (Exactly 24), required 0x0151 (Exactly 6), required 0x0152 (Exactly 2)]"

definition INITIAL_CPIC_RICH_RFCPING_RESPONSE_GRAMMAR :: "coordinate list" where
  "INITIAL_CPIC_RICH_RFCPING_RESPONSE_GRAMMAR =
    [required T_ResponseStart (Exactly 0), required T_ResponseContext (Exactly 0), required T_Session (Exactly 16),
     required T_Unresolved0420 (Exactly 4), required T_CallContext (Exactly 0), required T_Program (AtMost 255),
     required 0x0667 (Exactly 8), optional 0x0126 (Exactly 4), required T_End (Exactly 0)]"

definition INITIAL_CPIC_RICH_RFCPING_GRAMMAR :: "coordinate list" where
  "INITIAL_CPIC_RICH_RFCPING_GRAMMAR = INITIAL_CPIC_RICH_RFCPING_PREAMBLE_GRAMMAR @ INITIAL_CPIC_RICH_RFCPING_RESPONSE_GRAMMAR"

definition matchesInitialCpicGrammarCoordinate :: "cpic_field \<Rightarrow> coordinate \<Rightarrow> bool" where
  "matchesInitialCpicGrammarCoordinate f c \<longleftrightarrow> cf_tag f = gc_tag c \<and>
    (let n = length (cf_value f) in case gc_width c of
       Exactly k \<Rightarrow> n = k | OneOf ks \<Rightarrow> n \<in> set ks | AtMost k \<Rightarrow> 1 \<le> n \<and> n \<le> k)"

text \<open>The walk over the coordinates with the fields still to match; the fields consumed are returned.\<close>

fun error_walk :: "coordinate list \<Rightarrow> cpic_field list \<Rightarrow> nat \<Rightarrow> int list \<Rightarrow> (nat \<times> int list) option" where
  "error_walk [] fs fieldIndex allowedTags = Some (fieldIndex, allowedTags)"
| "error_walk (c # cs) fs fieldIndex allowedTags =
    (case fs of
       f # fs' \<Rightarrow> if matchesInitialCpicGrammarCoordinate f c
         then error_walk cs fs' (fieldIndex + 1) (allowedTags @ [gc_tag c])
         else if gc_optional c then error_walk cs fs fieldIndex allowedTags else None
     | [] \<Rightarrow> if gc_optional c then error_walk cs fs fieldIndex allowedTags else None)"

definition matchInitialCpicErrorPreamble :: "cpic_field list \<Rightarrow> (nat \<times> int list) option" where
  "matchInitialCpicErrorPreamble fs = error_walk INITIAL_CPIC_ERROR_PREAMBLE_GRAMMAR fs 0 []"

fun rich_walk :: "coordinate list \<Rightarrow> cpic_field list \<Rightarrow> nat \<Rightarrow> nat option \<Rightarrow> int list \<Rightarrow>
    (nat option \<times> int list \<times> cpic_field list) option" where
  "rich_walk [] fs fieldIndex preamble embedded = Some (preamble, embedded, fs)"
| "rich_walk (c # cs) fs fieldIndex preamble embedded =
    (case fs of
       f # fs' \<Rightarrow> if matchesInitialCpicGrammarCoordinate f c
         then rich_walk cs fs' (fieldIndex + 1) (if gc_tag c = T_ResponseStart then Some fieldIndex else preamble)
           (if gc_tag c = 0x0126 then embedded @ [0x0126] else embedded)
         else if gc_optional c then rich_walk cs fs fieldIndex preamble embedded else None
     | [] \<Rightarrow> if gc_optional c then rich_walk cs fs fieldIndex preamble embedded else None)"

definition matchInitialCpicRichGrammar :: "cpic_field list \<Rightarrow> (nat \<times> int list) option" where
  "matchInitialCpicRichGrammar fs =
    (case rich_walk INITIAL_CPIC_RICH_RFCPING_GRAMMAR fs 0 None [] of
       Some (Some preambleFieldCount, embedded, []) \<Rightarrow> Some (preambleFieldCount, embedded)
     | _ \<Rightarrow> None)"

definition tag_count :: "int \<Rightarrow> int list \<Rightarrow> nat" where
  "tag_count tag tags = length (filter (\<lambda>t. t = tag) tags)"

definition hasInitialCpicCompositeDuplicate :: "cpic_field list \<Rightarrow> bool" where
  "hasInitialCpicCompositeDuplicate fs \<longleftrightarrow> list_ex (\<lambda>tag.
     tag_count tag (map gc_tag INITIAL_CPIC_RICH_RFCPING_GRAMMAR) < tag_count tag (map cf_tag fs))
     (map gc_tag INITIAL_CPIC_RICH_RFCPING_GRAMMAR)"

section \<open>Function responses\<close>

record function_result =
  rs_success :: bool
  rs_status :: "nat option"
  rs_envelope :: envelope
  rs_fields :: "cpic_field list"

text \<open>\<open>Number.parseInt(text, 16)\<close> of lower-case hexadecimal digits.\<close>

definition parse_hex :: "string \<Rightarrow> nat" where
  "parse_hex s = foldl (\<lambda>v c. v * 16 + (if of_char c < (58 :: nat) then of_char c - 48 else of_char c - 87)) 0 s"

definition function_options :: "int list \<Rightarrow> envelope_options" where
  "function_options additional = no_options\<lparr>eo_maxFieldCount := Some DEFAULT_MAX_CPIC_FIELD_COUNT,
     eo_additionalAllowedTags := [T_Program, 0x0667] @ additional\<rparr>"

definition decodeCpicFunctionResponseFields :: "cpic_field list \<Rightarrow> int list \<Rightarrow> function_result result" where
  "decodeCpicFunctionResponseFields fs additional =
    rbind (decodeRfcErrorEnvelope fs (function_options additional)) (\<lambda>en.
    let success = (en_outcome en = OutSuccess) in
    Inr \<lparr>rs_success = success,
         rs_status = (case ef_unresolved0420 (en_facts en) of
             [control] \<Rightarrow> if success \<and> uc_byteLength control = 4 then Some (parse_hex (uc_valueHex control)) else None
           | _ \<Rightarrow> None),
         rs_envelope = en, rs_fields = fs\<rparr>)"

definition decodeCpicFunctionResponseEnvelope :: "bytes \<Rightarrow> int list \<Rightarrow> function_result result" where
  "decodeCpicFunctionResponseEnvelope data additional =
    (if length data < length CPIC_FUNCTION_RESPONSE_PREFIX + 8 then Inl (RangeError ''CPIC function response is truncated'')
     else if take (length CPIC_FUNCTION_RESPONSE_PREFIX) data \<noteq> CPIC_FUNCTION_RESPONSE_PREFIX
     then Inl (PlainError ''CPIC function response prefix is invalid'')
     else
     rbind (decodeCpicFieldChainPrefix (drop (length CPIC_FUNCTION_RESPONSE_PREFIX) data) T_ResponseStart T_End no_limits)
       (\<lambda>(fs, bytesConsumed).
     let trailerOffset = length CPIC_FUNCTION_RESPONSE_PREFIX + bytesConsumed in
     if int (length data) - int trailerOffset \<noteq> 2 \<or> be_decode (slice trailerOffset 2 data) \<noteq> 0xffff
     then Inl (PlainError ''CPIC function response trailer is invalid'')
     else decodeCpicFunctionResponseFields fs additional))"

definition decodeCpicFunctionResultFields :: "bytes \<Rightarrow> function_result result" where
  "decodeCpicFunctionResultFields data = decodeCpicFunctionResponseEnvelope data [T_XRfcParameter, T_XRfcData]"

definition decodeCpicResetServerContextResultFields :: "bytes \<Rightarrow> function_result result" where
  "decodeCpicResetServerContextResultFields data =
    rbind (decodeCpicFunctionResponseEnvelope data [T_RfcServerResetDone]) (\<lambda>decoded.
    let resetDone = filter (\<lambda>f. cf_tag f = T_RfcServerResetDone) (rs_fields decoded) in
    if 1 < length resetDone \<or> length resetDone = 1 \<and> length (cf_value (resetDone ! 0)) \<noteq> 0
    then Inl (PlainError ''SYSTEM_RESET_RFC_SERVER response reset-done control must be empty and unique'')
    else Inr decoded)"

record function_response =
  fo_success :: bool
  fo_outcome :: envelope_outcome
  fo_status :: "nat option"
  fo_exceptionKey :: "js_string option"
  fo_fields :: "(int \<times> nat) list"

definition decodeCpicFunctionResponse :: "bytes \<Rightarrow> function_response result" where
  "decodeCpicFunctionResponse data =
    rbind (decodeCpicFunctionResponseEnvelope data [T_XRfcParameter, T_XRfcData]) (\<lambda>decoded.
    Inr \<lparr>fo_success = rs_success decoded, fo_outcome = en_outcome (rs_envelope decoded), fo_status = rs_status decoded,
         fo_exceptionKey = (if en_outcome (rs_envelope decoded) \<noteq> AbapException then None
           else Some (ef_exceptionKey (en_facts (rs_envelope decoded)))),
         fo_fields = structural (rs_fields decoded)\<rparr>)"

end
