(* ===== verification/CpicLogonResponse.thy ===== *)
theory CpicLogonResponse
  imports CpicResponse
begin

text \<open>
  The response to the initial logon and the first response after a reset of the server context,
  \<open>src/protocol/cpic.ts\<close>. Every rejection of the logon decoder keeps the stage it happened in; a structural
  one keeps its rule and the tags and lengths of the fields.
\<close>

section \<open>Failures\<close>

datatype structure_rule = UnsupportedField | UnsupportedFieldZeroLogonStatus | InvalidEndField | InvalidStartField
  | MalformedVendorLogonControl | DuplicateControlField | MalformedOneByteStatus | MalformedCallStatus
  | MissingLogonStatus | NonzeroCallStatus

datatype parse_stage = StageTruncated | StagePrefix | StageFieldChain | StageTrailer | StageProtocol
  | StageErrorPreamble | StageErrorEnvelope | StageStructural

datatype logon_failure =
    ParseFailure parse_stage js_error
  | StructureFailure structure_rule "(int \<times> nat) list"
  | EmbeddedFailure js_error  \<comment> \<open>thrown by the decoder of the embedded response, without a stage\<close>

definition at_stage :: "parse_stage \<Rightarrow> 'a result \<Rightarrow> logon_failure + 'a" where
  "at_stage stage r = (case r of Inl e \<Rightarrow> Inl (ParseFailure stage e) | Inr x \<Rightarrow> Inr x)"

text \<open>The stage by which \<open>projectInitialCpicLogonParseStage\<close> would name a failure.\<close>

definition failure_stage :: "logon_failure \<Rightarrow> parse_stage option" where
  "failure_stage e = (case e of ParseFailure stage _ \<Rightarrow> Some stage | StructureFailure _ _ \<Rightarrow> Some StageStructural
     | EmbeddedFailure _ \<Rightarrow> None)"

record logon_rejection =
  rj_outcome :: envelope_outcome
  rj_messageClass :: js_string
  rj_messageType :: js_string
  rj_messageNumber :: js_string
  rj_exceptionKey :: js_string
  rj_runtimeId :: js_string
  rj_text :: js_string

record logon_response =
  lr_success :: bool
  lr_status :: "nat option"
  lr_rejection :: "logon_rejection option"
  lr_protocolVersion :: nat
  lr_fields :: "(int \<times> nat) list"

definition with_tag :: "int \<Rightarrow> cpic_field list \<Rightarrow> cpic_field list" where
  "with_tag tag fs = filter (\<lambda>f. cf_tag f = tag) fs"

definition value_length :: "cpic_field list \<Rightarrow> nat" where
  "value_length fs = length (cf_value (fs ! 0))"

definition end_invalid :: "cpic_field list \<Rightarrow> bool" where
  "end_invalid fs \<longleftrightarrow> length (with_tag T_End fs) \<noteq> 1 \<or> fs = [] \<or> cf_tag (last fs) \<noteq> T_End \<or> value_length (with_tag T_End fs) \<noteq> 0"

section \<open>The composite response\<close>

definition decodeRichInitialCpicRfcPingResponse :: "cpic_field list \<Rightarrow> cpic_field \<Rightarrow> logon_failure + logon_response" where
  "decodeRichInitialCpicRfcPingResponse fs protocol =
    (let oneByteStatuses = with_tag T_LogonStatus fs; callStatuses = with_tag T_Unresolved0420 fs in
     if end_invalid fs then Inl (StructureFailure InvalidEndField (structural fs))
     else if 1 < length oneByteStatuses \<or> length oneByteStatuses = 1 \<and> value_length oneByteStatuses \<noteq> 1
     then Inl (StructureFailure MalformedOneByteStatus (structural fs))
     else if length callStatuses \<noteq> 1 \<or> value_length callStatuses \<noteq> 4
     then Inl (StructureFailure MalformedCallStatus (structural fs))
     else if hasInitialCpicCompositeDuplicate fs then Inl (StructureFailure DuplicateControlField (structural fs))
     else let status = (if length oneByteStatuses = 1 then unat (cf_value (oneByteStatuses ! 0) ! 0) else 0) in
     case matchInitialCpicRichGrammar fs of
       None \<Rightarrow> Inl (StructureFailure (if status = 0 then UnsupportedFieldZeroLogonStatus else UnsupportedField) (structural fs))
     | Some (preambleFieldCount, embeddedAllowedTags) \<Rightarrow>
       if status \<noteq> 0
       then Inr \<lparr>lr_success = False, lr_status = Some status, lr_rejection = None,
                 lr_protocolVersion = be_decode (cf_value protocol), lr_fields = structural fs\<rparr>
       else if be_decode (cf_value (callStatuses ! 0)) \<noteq> 0 then Inl (StructureFailure NonzeroCallStatus (structural fs))
       else case decodeCpicFunctionResponseFields (drop (preambleFieldCount + 1) fs) embeddedAllowedTags of
           Inl e \<Rightarrow> Inl (EmbeddedFailure e)
         | Inr embedded \<Rightarrow>
             if \<not> rs_success embedded then Inl (StructureFailure NonzeroCallStatus (structural fs))
             else Inr \<lparr>lr_success = True, lr_status = Some status, lr_rejection = None,
                       lr_protocolVersion = be_decode (cf_value protocol), lr_fields = structural fs\<rparr>)"

section \<open>The regular response\<close>

definition vendor_control_bad :: "cpic_field list \<Rightarrow> bool" where
  "vendor_control_bad fs \<longleftrightarrow>
    (let observedS4Controls = with_tag T_Unresolved0450 fs;
         semanticFields = (if length (with_tag T_Start fs) = 1 then drop 1 fs else fs)
     in 1 < length observedS4Controls \<or>
        length observedS4Controls = 1 \<and>
          (value_length observedS4Controls \<noteq> 6 \<or>
           \<not> (4 < length semanticFields \<and> cf_tag (semanticFields ! 4) = T_Unresolved0450) \<or>
           \<not> (3 < length semanticFields \<and> cf_tag (semanticFields ! 3) = T_Unresolved0420)))"

definition decodeRegularInitialResponse :: "cpic_field list \<Rightarrow> cpic_field \<Rightarrow> logon_failure + logon_response" where
  "decodeRegularInitialResponse fs protocol =
    (let startFields = with_tag T_Start fs; oneByteStatuses = with_tag T_LogonStatus fs;
         callStatuses = with_tag T_Unresolved0420 fs in
     if \<not> list_all (\<lambda>f. cf_tag f \<in> set INITIAL_CPIC_REGULAR_RESPONSE_TAGS) fs
     then Inl (StructureFailure UnsupportedField (structural fs))
     else if end_invalid fs then Inl (StructureFailure InvalidEndField (structural fs))
     else if 1 < length startFields \<or> length startFields = 1 \<and> (cf_tag (fs ! 0) \<noteq> T_Start \<or> value_length startFields \<noteq> 0)
     then Inl (StructureFailure InvalidStartField (structural fs))
     else if vendor_control_bad fs then Inl (StructureFailure MalformedVendorLogonControl (structural fs))
     else if 1 < length (with_tag T_Capabilities fs) \<or> 1 < length (with_tag T_SystemCodePage fs)
     then Inl (StructureFailure DuplicateControlField (structural fs))
     else if 1 < length oneByteStatuses \<or> length oneByteStatuses = 1 \<and> value_length oneByteStatuses \<noteq> 1
     then Inl (StructureFailure MalformedOneByteStatus (structural fs))
     else if 1 < length callStatuses \<or> length callStatuses = 1 \<and> value_length callStatuses \<noteq> 4
     then Inl (StructureFailure MalformedCallStatus (structural fs))
     else if length oneByteStatuses = 0 \<and> length callStatuses = 0
     then Inl (StructureFailure MissingLogonStatus (structural fs))
     else if length callStatuses = 1 \<and> be_decode (cf_value (callStatuses ! 0)) \<noteq> 0
     then Inl (StructureFailure NonzeroCallStatus (structural fs))
     else let status = (if length oneByteStatuses = 1 then unat (cf_value (oneByteStatuses ! 0) ! 0) else 0) in
       Inr \<lparr>lr_success = (status = 0), lr_status = Some status, lr_rejection = None,
            lr_protocolVersion = be_decode (cf_value protocol), lr_fields = structural fs\<rparr>)"

section \<open>The error response\<close>

definition decodeErrorInitialResponse :: "cpic_field list \<Rightarrow> cpic_field \<Rightarrow> logon_failure + logon_response" where
  "decodeErrorInitialResponse fs protocol =
    (case matchInitialCpicErrorPreamble fs of
       None \<Rightarrow> Inl (ParseFailure StageErrorPreamble (PlainError ''initial CPIC logon error response has an invalid preamble''))
     | Some (fieldCount, allowedTags) \<Rightarrow>
       if length fs \<le> fieldCount + 1
       then Inl (ParseFailure StageErrorPreamble (PlainError ''initial CPIC logon error response has an invalid preamble''))
       else if \<not> list_all (\<lambda>tag. length (with_tag tag fs) = 1) allowedTags
       then Inl (ParseFailure StageErrorPreamble (PlainError ''initial CPIC logon error response has duplicate preamble fields''))
       else let codePage = with_tag T_SystemCodePage fs in
       rbind (at_stage StageErrorEnvelope (decodeRfcErrorEnvelope fs (no_options\<lparr>eo_additionalAllowedTags := allowedTags,
           eo_textEncoding := Some (if value_length codePage = 4 then AsciiText else Utf16Text)\<rparr>))) (\<lambda>en.
       if en_outcome en = OutSuccess
       then Inl (ParseFailure StageErrorEnvelope (PlainError ''initial CPIC logon error response lacks a rejected outcome''))
       else let facts = en_facts en in
         Inr \<lparr>lr_success = False, lr_status = None,
              lr_rejection = Some \<lparr>rj_outcome = en_outcome en, rj_messageClass = ef_messageClass facts,
                rj_messageType = ef_messageType facts, rj_messageNumber = ef_messageNumber facts,
                rj_exceptionKey = ef_exceptionKey facts, rj_runtimeId = ef_runtimeId facts, rj_text = ef_plainText facts\<rparr>,
              lr_protocolVersion = be_decode (cf_value protocol), lr_fields = structural fs\<rparr>))"

section \<open>The decoder\<close>

definition decodeCpicInitialLogonResponse :: "bytes \<Rightarrow> logon_failure + logon_response" where
  "decodeCpicInitialLogonResponse encoded =
    (let prefixLength = length INITIAL_CPIC_RESPONSE_PREFIX; prefix = take prefixLength encoded;
         isRegularResponse = (prefix = INITIAL_CPIC_RESPONSE_PREFIX);
         isErrorResponse = (prefix = INITIAL_CPIC_ERROR_RESPONSE_PREFIX) in
     if length encoded < prefixLength + 8
     then Inl (ParseFailure StageTruncated (RangeError ''initial CPIC logon response is truncated''))
     else if \<not> isRegularResponse \<and> \<not> isErrorResponse
     then Inl (ParseFailure StagePrefix (PlainError ''initial CPIC logon response prefix is invalid''))
     else
     rbind (at_stage StageFieldChain (decodeCpicFieldChainPrefix (drop prefixLength encoded) T_Start T_End no_limits))
       (\<lambda>(fs, bytesConsumed).
     let trailerOffset = prefixLength + bytesConsumed in
     if int (length encoded) - int trailerOffset \<noteq> 2 \<or> be_decode (slice trailerOffset 2 encoded) \<noteq> 0xffff
     then Inl (ParseFailure StageTrailer (PlainError ''initial CPIC logon response trailer is invalid''))
     else let protocols = with_tag T_ProtocolVersion fs in
     if protocols = [] \<or> value_length protocols \<noteq> 4
     then Inl (ParseFailure StageProtocol (PlainError ''initial CPIC logon response lacks its protocol version''))
     else if isErrorResponse then decodeErrorInitialResponse fs (protocols ! 0)
     else if length protocols \<noteq> 1
     then Inl (ParseFailure StageProtocol (PlainError ''initial CPIC logon response lacks its protocol version''))
     else if list_ex (\<lambda>f. cf_tag f = T_ResponseStart) fs
     then decodeRichInitialCpicRfcPingResponse fs (protocols ! 0)
     else decodeRegularInitialResponse fs (protocols ! 0)))"

section \<open>After a reset\<close>

definition SESSION_REFRESH_PREAMBLE_TAGS :: "int list" where
  "SESSION_REFRESH_PREAMBLE_TAGS = [T_ProtocolVersion, T_Capabilities, T_LogonStatus, T_SystemCodePage, T_ClientAddress,
     T_PartnerSystem, T_PartnerHost, T_ConnectionType, T_KernelRelease, T_KernelPatch, T_Destination, T_Program,
     0x0020, 0x0021, T_Unresolved0450, 0x0451, 0x0452, 0x0453]"

fun check_refresh_preamble :: "int list \<Rightarrow> nat \<Rightarrow> cpic_field list \<Rightarrow> unit result" where
  "check_refresh_preamble seen preambleBytes [] = Inr ()"
| "check_refresh_preamble seen preambleBytes (f # fs) =
    (if cf_tag f \<notin> set SESSION_REFRESH_PREAMBLE_TAGS \<or> cf_tag f \<in> set seen
     then Inl (PlainError ''CPIC session-refresh preamble contains an unknown or duplicate field'')
     else let preambleBytes = preambleBytes + length (cf_value f) in
       if 16 * 1024 < preambleBytes then Inl (RangeError ''CPIC session-refresh preamble exceeds its byte limit'')
       else check_refresh_preamble (cf_tag f # seen) preambleBytes fs)"

definition decodeCpicSessionRefreshResultFields :: "bytes \<Rightarrow> function_result result" where
  "decodeCpicSessionRefreshResultFields encoded =
    (let prefixLength = length INITIAL_CPIC_RESPONSE_PREFIX in
     if length encoded < prefixLength + 8 then Inl (RangeError ''CPIC session-refresh response is truncated'')
     else if take prefixLength encoded \<noteq> INITIAL_CPIC_RESPONSE_PREFIX
     then Inl (PlainError ''CPIC session-refresh response prefix is invalid'')
     else
     rbind (decodeCpicFieldChainPrefix (drop prefixLength encoded) T_Start T_End no_limits) (\<lambda>(fs, bytesConsumed).
     let trailerOffset = prefixLength + bytesConsumed in
     if int (length encoded) - int trailerOffset \<noteq> 2 \<or> be_decode (slice trailerOffset 2 encoded) \<noteq> 0xffff
     then Inl (PlainError ''CPIC session-refresh response trailer is invalid'')
     else let responseStarts = filter (\<lambda>i. cf_tag (fs ! i) = T_ResponseStart) [0..<length fs] in
     if length responseStarts \<noteq> 1 \<or> length (cf_value (fs ! (responseStarts ! 0))) \<noteq> 0
     then Inl (PlainError ''CPIC session-refresh response must contain one empty embedded response marker'')
     else let responseStartIndex = responseStarts ! 0 in
     if responseStartIndex < 2 \<or> 32 < responseStartIndex
     then Inl (PlainError ''CPIC session-refresh preamble field count is invalid'')
     else
     rbind (check_refresh_preamble [] 0 (take responseStartIndex fs)) (\<lambda>_.
     if cf_tag (fs ! 0) \<noteq> T_ProtocolVersion \<or> length (cf_value (fs ! 0)) \<noteq> 4 \<or>
        cf_tag (fs ! 1) \<noteq> T_Capabilities \<or> length (cf_value (fs ! 1)) \<noteq> length INITIAL_CAPABILITIES
     then Inl (PlainError ''CPIC session-refresh preamble lacks its protocol and Unicode headers'')
     else if (case with_tag T_LogonStatus (take responseStartIndex fs) of
                [] \<Rightarrow> False
              | logonStatus # _ \<Rightarrow> length (cf_value logonStatus) \<noteq> 1 \<or> cf_value logonStatus ! 0 \<noteq> 0)
     then Inl (PlainError ''CPIC session-refresh preamble has a nonzero status'')
     else decodeCpicFunctionResponseFields (drop (responseStartIndex + 1) fs) [])))"

end
