(* ===== verification/RfcErrorOutcome.thy ===== *)
theory RfcErrorOutcome
  imports RfcErrorEnvelope
begin

text \<open>
  What the envelope decoder concludes. The scan is characterised by the fields it saw: which texts it holds,
  which controls, and its totals; from that follow the outcome and the facts of an accepted response.
\<close>

section \<open>The scan in terms of the fields\<close>

definition tags_of :: "cpic_field list \<Rightarrow> int set" where
  "tags_of fs = cf_tag ` set fs"

lemma tags_of_simps [simp]: "tags_of [] = {}" "tags_of (f # fs) = insert (cf_tag f) (tags_of fs)"
  "tags_of (fs @ gs) = tags_of fs \<union> tags_of gs"
  by (auto simp: tags_of_def)

text \<open>The text of a field under the encoding in force.\<close>

definition field_text :: "envelope_limits \<Rightarrow> cpic_field \<Rightarrow> js_string result" where
  "field_text limits f = (if el_ascii limits then decodeStrictAscii (cf_value f)
     else decodeStrictUtf16Le (cf_value f) (el_maxText limits))"

definition controls_of :: "nat \<Rightarrow> cpic_field list \<Rightarrow> control_fact list" where
  "controls_of n fs = map (\<lambda>(i, f). \<lparr>uc_ordinal = i, uc_byteLength = length (cf_value f), uc_valueHex = hex_text (cf_value f)\<rparr>)
     (filter (\<lambda>(i, f). cf_tag f = E_Unresolved0420) (zip [n..<n + length fs] fs))"

lemma controls_of_Nil: "controls_of n [] = []"
  by (simp add: controls_of_def)

lemma controls_of_Cons: "controls_of n (f # fs) = (if cf_tag f = E_Unresolved0420
    then [\<lparr>uc_ordinal = n, uc_byteLength = length (cf_value f), uc_valueHex = hex_text (cf_value f)\<rparr>] else []) @ controls_of (Suc n) fs"
  by (simp add: controls_of_def upt_conv_Cons del: upt_Suc)

text \<open>What one field adds to the scan.\<close>

definition scanned :: "envelope_limits \<Rightarrow> nat \<Rightarrow> cpic_field list \<Rightarrow> envelope_scan \<Rightarrow> envelope_scan \<Rightarrow> bool" where
  "scanned limits n fs s s' \<longleftrightarrow>
    dom (es_values s') = dom (es_values s) \<union> (set TEXT_TAGS \<inter> tags_of fs) \<and>
    es_values s \<subseteq>\<^sub>m es_values s' \<and>
    (\<forall>f \<in> set fs. cf_tag f \<in> set TEXT_TAGS \<longrightarrow> field_text limits f = Inr (fact_of s' (cf_tag f))) \<and>
    distinct (map cf_tag (filter (\<lambda>f. cf_tag f \<in> set TEXT_TAGS) fs)) \<and>
    dom (es_values s) \<inter> (set TEXT_TAGS \<inter> tags_of fs) = {} \<and>
    es_unresolved0420 s' = es_unresolved0420 s @ controls_of n fs \<and>
    es_sawInfo s' = (es_sawInfo s \<or> E_ClassExceptionInfo \<in> tags_of fs) \<and>
    (es_totalText s \<le> el_maxTotalText limits \<longrightarrow> es_totalText s' \<le> el_maxTotalText limits) \<and>
    es_totalText s' = es_totalText s + int (sum_list (map (\<lambda>f. length (cf_value f)) (filter (\<lambda>f. cf_tag f \<in> set TEXT_TAGS) fs)))"

lemma scan_control_same: "scan_control limits n f b s = Inr s' \<Longrightarrow> es_values s' = es_values s \<and>
    es_unresolved0420 s' = es_unresolved0420 s \<and> es_sawInfo s' = es_sawInfo s \<and> es_totalText s' = es_totalText s"
  by (auto simp: scan_control_def Let_def split: if_splits)

lemma text_tags_apart: "E_Unresolved0420 \<notin> set TEXT_TAGS" "E_UseClassExceptions \<notin> set TEXT_TAGS" "E_ClassExceptionInfo \<notin> set TEXT_TAGS"
  by (simp_all add: TEXT_TAGS_def)

lemma scan_field_one: "scan_field limits n f s = Inr s' \<Longrightarrow> scanned limits n [f] s s'"
proof -
  assume step: "scan_field limits n f s = Inr s'"
  show ?thesis
  proof (cases "cf_tag f \<in> set TEXT_TAGS")
    case True
    then have "scan_text limits n f s = Inr s'" using step by (simp add: scan_field_def)
    then show ?thesis using True text_tags_apart
      by (auto simp: scan_text_def scanned_def Let_def field_text_def fact_of_def controls_of_Cons controls_of_Nil map_le_def dom_def split: if_splits)
  next
    case False
    then show ?thesis using step scan_control_same
      by (fastforce simp: scan_field_def scanned_def controls_of_Cons controls_of_Nil split: if_splits)
  qed
qed

lemma scannedD:
  assumes "scanned limits n fs s s'"
  shows "dom (es_values s') = dom (es_values s) \<union> (set TEXT_TAGS \<inter> tags_of fs)" "es_values s \<subseteq>\<^sub>m es_values s'"
    "f \<in> set fs \<Longrightarrow> cf_tag f \<in> set TEXT_TAGS \<Longrightarrow> field_text limits f = Inr (fact_of s' (cf_tag f))"
    "distinct (map cf_tag (filter (\<lambda>f. cf_tag f \<in> set TEXT_TAGS) fs))"
    "dom (es_values s) \<inter> (set TEXT_TAGS \<inter> tags_of fs) = {}"
    "es_unresolved0420 s' = es_unresolved0420 s @ controls_of n fs"
    "es_sawInfo s' = (es_sawInfo s \<or> E_ClassExceptionInfo \<in> tags_of fs)"
    "es_totalText s \<le> el_maxTotalText limits \<Longrightarrow> es_totalText s' \<le> el_maxTotalText limits"
    "es_totalText s' = es_totalText s + int (sum_list (map (\<lambda>f. length (cf_value f)) (filter (\<lambda>f. cf_tag f \<in> set TEXT_TAGS) fs)))"
  using assms unfolding scanned_def by (elim conjE; blast)+

lemma scanned_trans:
  assumes "scanned limits n [f] s t" and "scanned limits (Suc n) fs t u"
  shows "scanned limits n (f # fs) s u"
proof -
  note a = scannedD [OF assms(1)] and b = scannedD [OF assms(2)]
  have kept: "fact_of u tag = fact_of t tag" if "tag \<in> dom (es_values t)" for tag
    using b(2) that by (auto simp: fact_of_def map_le_def dom_def or_else_def split: option.splits)
  have seen: "cf_tag f \<in> dom (es_values t)" if "cf_tag f \<in> set TEXT_TAGS" using a(1) that by simp
  have texts: "\<forall>g \<in> set (f # fs). cf_tag g \<in> set TEXT_TAGS \<longrightarrow> field_text limits g = Inr (fact_of u (cf_tag g))"
  proof (intro ballI impI)
    fix g assume g: "g \<in> set (f # fs)" "cf_tag g \<in> set TEXT_TAGS"
    show "field_text limits g = Inr (fact_of u (cf_tag g))"
    proof (cases "g = f")
      case True
      then show ?thesis using a(3) [of f] g(2) kept [OF seen] by simp
    next
      case False
      then show ?thesis using b(3) [of g] g by simp
    qed
  qed
  have new: "cf_tag f \<notin> tags_of fs" if "cf_tag f \<in> set TEXT_TAGS" using seen [OF that] b(5) that by blast
  have dist: "distinct (map cf_tag (filter (\<lambda>f. cf_tag f \<in> set TEXT_TAGS) (f # fs)))"
    using b(4) new by (auto simp: tags_of_def)
  have doms: "dom (es_values u) = dom (es_values s) \<union> (set TEXT_TAGS \<inter> tags_of (f # fs))"
    unfolding b(1) a(1) by auto
  have fresh: "dom (es_values s) \<inter> (set TEXT_TAGS \<inter> tags_of (f # fs)) = {}" using a(5) b(5) unfolding a(1) by auto
  have "es_values s \<subseteq>\<^sub>m es_values u" using map_le_trans [OF a(2) b(2)] .
  moreover have "es_unresolved0420 u = es_unresolved0420 s @ controls_of n (f # fs)"
    using a(6) b(6) by (simp add: controls_of_Cons controls_of_Nil)
  moreover have "es_sawInfo u = (es_sawInfo s \<or> E_ClassExceptionInfo \<in> tags_of (f # fs))" using a(7) b(7) by simp
  moreover have "es_totalText s \<le> el_maxTotalText limits \<longrightarrow> es_totalText u \<le> el_maxTotalText limits" using a(8) b(8) by blast
  moreover have "es_totalText u = es_totalText s +
      int (sum_list (map (\<lambda>f. length (cf_value f)) (filter (\<lambda>f. cf_tag f \<in> set TEXT_TAGS) (f # fs))))" using a(9) b(9) by simp
  ultimately show ?thesis unfolding scanned_def using texts dist doms fresh by blast
qed

lemma scan_fields_scanned: "scan_fields limits n fs s = Inr s' \<Longrightarrow> scanned limits n fs s s'"
proof (induction fs arbitrary: n s)
  case Nil
  then show ?case by (simp add: scanned_def controls_of_Nil)
next
  case (Cons f fs)
  then obtain t where "scan_field limits n f s = Inr t" "scan_fields limits (Suc n) fs t = Inr s'" by auto
  then show ?case using scanned_trans [OF scan_field_one] Cons.IH by blast
qed

section \<open>An accepted response\<close>

lemma check_end_shape:
  assumes "check_end fs = Inr ()"
  shows "\<exists>f. fs = butlast fs @ [f] \<and> cf_tag f = 0xffff \<and> cf_value f = [] \<and> 0xffff \<notin> tags_of (butlast fs)"
proof -
  let ?ends = "filter (\<lambda>i. cf_tag (fs ! i) = 0xffff) [0..<length fs]"
  obtain k where k: "?ends = [k]" "k = length fs - 1" "cf_value (fs ! k) = []"
    using assms by (auto simp: check_end_def Let_def length_Suc_conv split: list.splits if_splits)
  then have in_ends: "k \<in> set ?ends" by simp
  then have ne: "fs \<noteq> []" and tag: "cf_tag (fs ! k) = 0xffff" by auto
  have "0xffff \<notin> tags_of (butlast fs)"
  proof
    assume "0xffff \<in> tags_of (butlast fs)"
    then obtain i where i: "i < length fs - 1" "cf_tag (butlast fs ! i) = 0xffff" by (auto simp: tags_of_def in_set_conv_nth)
    then have "i \<in> set ?ends" by (auto simp: nth_butlast)
    then show False using k i(1) by simp
  qed
  moreover have "fs = butlast fs @ [fs ! k]" using ne k(2) using append_butlast_last_id [OF ne] by (simp add: last_conv_nth [OF ne])
  ultimately show ?thesis using tag k(3) by metis
qed

lemma decode_envelope_shape:
  assumes "decodeRfcErrorEnvelope fs options = Inr e"
  shows "\<exists>limits s f. envelope_limits_of options = Inr limits \<and> int (length fs) \<le> el_maxFieldCount limits \<and>
    fs = butlast fs @ [f] \<and> cf_tag f = 0xffff \<and> cf_value f = [] \<and> 0xffff \<notin> tags_of (butlast fs) \<and>
    scanned limits 0 (butlast fs) scan_new s \<and> check_discriminators s = Inr () \<and>
    classify s = Inr (en_outcome e) \<and> en_facts e = facts_of s \<and> en_zeroControl e = (en_outcome e = OutSuccess)"
proof -
  obtain limits s where l: "envelope_limits_of options = Inr limits" "int (length fs) \<le> el_maxFieldCount limits"
    "check_end fs = Inr ()" and s: "scan_fields limits 0 (butlast fs) scan_new = Inr s"
    "check_discriminators s = Inr ()" "classify s = Inr (en_outcome e)" "en_facts e = facts_of s"
    "en_zeroControl e = (en_outcome e = OutSuccess)"
    using assms by (auto simp: decodeRfcErrorEnvelope_def split: if_splits)
  then show ?thesis using check_end_shape [OF l(3)] scan_fields_scanned [OF s(1)] by blast
qed

lemma end_not_text: "0xffff \<notin> set TEXT_TAGS"
  by (simp add: TEXT_TAGS_def)

lemma present_iff: "scanned limits 0 fs scan_new s \<Longrightarrow> fact_present s t \<longleftrightarrow> t \<in> set TEXT_TAGS \<and> t \<in> tags_of fs"
  by (auto simp: scanned_def scan_new_def fact_present_def dom_def set_eq_iff)

lemma secondary_text: "set TEXT_TAGS = set SECONDARY_ERROR_TAGS \<union> {E_ExceptionKey, E_RuntimeId}"
  by (auto simp: TEXT_TAGS_def SECONDARY_ERROR_TAGS_def MESSAGE_TEXT_TAGS_def MESSAGE_IDENTITY_TAGS_def)

lemma hex_digit_0: "d < 16 \<Longrightarrow> hex_digit d = CHR ''0'' \<longleftrightarrow> d = 0"
proof
  assume d: "d < 16" and "hex_digit d = CHR ''0''"
  then have "of_char (hex_digit d) = (48 :: nat)" by simp
  then show "d = 0" using d by (auto simp: hex_digit_def split: if_splits)
qed (simp add: hex_digit_def char_of_def bit_iff_odd)

lemma byte_0: "unat (b :: byte) div 16 = 0 \<and> unat b mod 16 = 0 \<longleftrightarrow> b = 0"
proof
  assume "unat b div 16 = 0 \<and> unat b mod 16 = 0"
  then have "unat b = 0" using div_mult_mod_eq [of "unat b" 16] by simp
  then show "b = 0" by (simp add: unat_eq_0)
qed simp

lemma hex_zero: "hex_text bs = replicate (2 * length bs) (CHR ''0'') \<longleftrightarrow> list_all (\<lambda>b. b = 0) bs"
proof (induction bs)
  case (Cons b bs)
  have d: "unat b div 16 < 16" "unat b mod 16 < 16" using unat_byte_less [of b] by (simp_all add: less_mult_imp_div_less)
  have "hex_text (b # bs) = replicate (2 * length (b # bs)) (CHR ''0'') \<longleftrightarrow>
      (unat b div 16 = 0 \<and> unat b mod 16 = 0) \<and> hex_text bs = replicate (2 * length bs) (CHR ''0'')"
    unfolding hex_digit_0 [OF d(1), symmetric] hex_digit_0 [OF d(2), symmetric] by (simp add: hex_text_def)
  then show ?case unfolding byte_0 Cons.IH by simp
qed (simp add: hex_text_def)

lemma controls_single:
  assumes "controls_of n fs = [c]"
  shows "\<exists>f. filter (\<lambda>f. cf_tag f = E_Unresolved0420) fs = [f] \<and> uc_byteLength c = length (cf_value f) \<and> uc_valueHex c = hex_text (cf_value f)"
proof -
  have "map (\<lambda>c. (uc_byteLength c, uc_valueHex c)) (controls_of n fs) =
      map (\<lambda>f. (length (cf_value f), hex_text (cf_value f))) (filter (\<lambda>f. cf_tag f = E_Unresolved0420) fs)" for n
    by (induction fs arbitrary: n) (auto simp: controls_of_Nil controls_of_Cons)
  from this [of n] show ?thesis using assms by (auto simp: Cons_eq_map_conv)
qed

lemma success_control:
  assumes "classify s = Inr OutSuccess" and "es_unresolved0420 s = controls_of n fs"
  shows "map cf_value (filter (\<lambda>f. cf_tag f = E_Unresolved0420) fs) = [[0, 0, 0, 0]]"
proof -
  obtain c where c: "controls_of n fs = [c]" "uc_byteLength c = 4" "uc_valueHex c = ''00000000''"
    using assms by (auto simp: classify_def split: if_splits list.splits)
  obtain f where f: "filter (\<lambda>f. cf_tag f = E_Unresolved0420) fs = [f]" "length (cf_value f) = 4" "hex_text (cf_value f) = ''00000000''"
    using controls_single [OF c(1)] c(2,3) by auto
  have "''00000000'' = replicate (2 * length (cf_value f)) (CHR ''0'')" using f(2) by (simp add: numeral_nat)
  then have "list_all (\<lambda>b. b = 0) (cf_value f)" using f(3) hex_zero by metis
  then have "cf_value f = [0, 0, 0, 0]" using f(2) by (auto simp: length_Suc_conv numeral_nat)
  then show ?thesis using f(1) by simp
qed

section \<open>Properties\<close>

text \<open>C2. What the outcome of an accepted response means. It is a success only if the response carries no error
fact at all and exactly one \<open>0x0420\<close> control, of four zero bytes; a declared exception only with a
non-empty exception key and no runtime identifier, a runtime error only the other way round; and a message
only with neither, when a message text or a whole message identity is there.\<close>

theorem envelope_outcome_sound:
  assumes "decodeRfcErrorEnvelope fs options = Inr e"
  shows "case en_outcome e of
      OutSuccess \<Rightarrow> tags_of fs \<inter> set TEXT_TAGS = {} \<and>
        map cf_value (filter (\<lambda>f. cf_tag f = E_Unresolved0420) fs) = [[0, 0, 0, 0]]
    | AbapException \<Rightarrow> E_ExceptionKey \<in> tags_of fs \<and> E_RuntimeId \<notin> tags_of fs \<and> ef_exceptionKey (en_facts e) \<noteq> []
    | AbapRuntime \<Rightarrow> E_RuntimeId \<in> tags_of fs \<and> E_ExceptionKey \<notin> tags_of fs \<and> ef_runtimeId (en_facts e) \<noteq> []
    | AbapMessage \<Rightarrow> E_ExceptionKey \<notin> tags_of fs \<and> E_RuntimeId \<notin> tags_of fs \<and>
        (ef_plainText (en_facts e) \<noteq> [] \<or> ef_t100Text (en_facts e) \<noteq> [] \<or>
         ef_messageClass (en_facts e) \<noteq> [] \<and> ef_messageType (en_facts e) \<noteq> [] \<and> ef_messageNumber (en_facts e) \<noteq> [])"
proof -
  obtain limits s f where s: "fs = butlast fs @ [f]" "cf_tag f = 0xffff" "scanned limits 0 (butlast fs) scan_new s"
    "check_discriminators s = Inr ()" "classify s = Inr (en_outcome e)" "en_facts e = facts_of s"
    using decode_envelope_shape [OF assms] by blast
  have tags: "t \<in> tags_of fs \<longleftrightarrow> t \<in> tags_of (butlast fs) \<or> t = 0xffff" for t
    using s(2) by (subst s(1)) auto
  have present: "fact_present s t \<longleftrightarrow> t \<in> set TEXT_TAGS \<and> t \<in> tags_of fs" for t
    using present_iff [OF s(3)] tags end_not_text by auto
  have d: "E_ExceptionKey \<in> set TEXT_TAGS" "E_RuntimeId \<in> set TEXT_TAGS" by (simp_all add: TEXT_TAGS_def)
  note disc = s(4) [unfolded check_discriminators_def]
  show ?thesis
  proof (cases "en_outcome e")
    case OutSuccess
    then have "classify s = Inr OutSuccess" using s(5) by simp
    moreover have "es_unresolved0420 s = controls_of 0 (butlast fs)" using s(3) by (simp add: scanned_def scan_new_def)
    ultimately have "map cf_value (filter (\<lambda>f. cf_tag f = E_Unresolved0420) (butlast fs)) = [[0, 0, 0, 0]]"
      by (rule success_control)
    moreover have "filter (\<lambda>f. cf_tag f = E_Unresolved0420) fs = filter (\<lambda>f. cf_tag f = E_Unresolved0420) (butlast fs)"
      using s(2) by (subst s(1)) simp
    moreover have "\<not> fact_present s t" if "t \<in> set TEXT_TAGS" for t
      using s(5) OutSuccess that unfolding secondary_text classify_def hasAnyTag_def list_ex_iff
      by (auto split: if_splits)
    ultimately show ?thesis using OutSuccess present by auto
  next
    case AbapException
    then show ?thesis using s(5,6) disc present d
      by (auto simp: classify_def facts_of_def split: if_splits list.splits)
  next
    case AbapRuntime
    then show ?thesis using s(5,6) disc present d
      by (auto simp: classify_def facts_of_def split: if_splits list.splits)
  next
    case AbapMessage
    then show ?thesis using s(5,6) present d
      by (auto simp: classify_def facts_of_def hasNonEmptyFact_def hasCoherentMessageIdentity_def MESSAGE_TEXT_TAGS_def
          MESSAGE_IDENTITY_TAGS_def split: if_splits list.splits)
  qed
qed

text \<open>The facts of a response with their tags.\<close>

definition fact_list :: "error_facts \<Rightarrow> (int \<times> js_string) list" where
  "fact_list facts = [(E_ExceptionKey, ef_exceptionKey facts), (E_ErrorMessage, ef_plainText facts),
     (E_RuntimeId, ef_runtimeId facts), (E_T100Text, ef_t100Text facts), (E_MessageV1, ef_messageV1 facts),
     (E_MessageV2, ef_messageV2 facts), (E_MessageV3, ef_messageV3 facts), (E_MessageV4, ef_messageV4 facts),
     (E_MessageClass, ef_messageClass facts), (E_MessageType, ef_messageType facts),
     (E_MessageNumber, ef_messageNumber facts), (E_CallStack, ef_callStack facts)]"

lemma fact_list_of: "fact_list (facts_of s) = map (\<lambda>t. (t, fact_of s t)) TEXT_TAGS"
  by (simp add: fact_list_def facts_of_def TEXT_TAGS_def)

lemma distinct_tags_filter:
  "distinct (map cf_tag (filter (\<lambda>f. cf_tag f \<in> T) fs)) \<Longrightarrow> f \<in> set fs \<Longrightarrow> cf_tag f \<in> T \<Longrightarrow>
    filter (\<lambda>g. cf_tag g = cf_tag f) fs = [f]"
proof (induction fs)
  case (Cons g fs)
  show ?case
  proof (cases "g = f")
    case True
    then have "cf_tag f \<notin> cf_tag ` set fs" using Cons.prems by auto
    then have "filter (\<lambda>g. cf_tag g = cf_tag f) fs = []" by (auto simp: filter_empty_conv image_iff)
    then show ?thesis using True by simp
  next
    case False
    then have f: "f \<in> set fs" using Cons.prems(2) by simp
    then have "cf_tag g \<noteq> cf_tag f" using Cons.prems(1,3) by (auto split: if_splits)
    then show ?thesis using Cons f by (auto split: if_splits)
  qed
qed simp

text \<open>C3. Every text fact of an accepted response is the text of the only field with its tag, decoded without
NUL, lone surrogates or trailing blanks, and empty if there is no such field; all of them together stay
within the limit on texts.\<close>

theorem envelope_facts_faithful:
  assumes "decodeRfcErrorEnvelope fs options = Inr e" and "envelope_limits_of options = Inr limits"
  shows "list_all (\<lambda>(t, v). case filter (\<lambda>f. cf_tag f = t) fs of
        [] \<Rightarrow> v = [] | [f] \<Rightarrow> field_text limits f = Inr v | _ \<Rightarrow> False) (fact_list (en_facts e)) \<and>
    int (sum_list (map (\<lambda>f. length (cf_value f)) (filter (\<lambda>f. cf_tag f \<in> set TEXT_TAGS) fs))) \<le> el_maxTotalText limits"
proof -
  obtain s f where s: "fs = butlast fs @ [f]" "cf_tag f = 0xffff" "scanned limits 0 (butlast fs) scan_new s"
    "en_facts e = facts_of s" using decode_envelope_shape [OF assms(1)] assms(2) by auto
  note d = scannedD [OF s(3)]
  have same: "filter P fs = filter P (butlast fs)" if "\<not> P f" for P using that by (subst s(1)) simp
  have text_fields: "filter (\<lambda>f. cf_tag f \<in> set TEXT_TAGS) fs = filter (\<lambda>f. cf_tag f \<in> set TEXT_TAGS) (butlast fs)"
    using s(2) end_not_text by (intro same) simp
  have "0 \<le> el_maxTotalText limits" using assms(2)
    by (auto simp: envelope_limits_of_def Let_def cpic_boundedInteger_def)
  then have "int (sum_list (map (\<lambda>f. length (cf_value f)) (filter (\<lambda>f. cf_tag f \<in> set TEXT_TAGS) fs))) \<le> el_maxTotalText limits"
    using d(8,9) unfolding text_fields by (simp add: scan_new_def)
  moreover have "case filter (\<lambda>f. cf_tag f = t) fs of [] \<Rightarrow> fact_of s t = [] | [f] \<Rightarrow> field_text limits f = Inr (fact_of s t) | _ \<Rightarrow> False"
    if t: "t \<in> set TEXT_TAGS" for t
  proof -
    have f: "filter (\<lambda>f. cf_tag f = t) fs = filter (\<lambda>f. cf_tag f = t) (butlast fs)"
      using s(2) t end_not_text by (intro same) auto
    show ?thesis
    proof (cases "t \<in> tags_of (butlast fs)")
      case True
      then obtain g where g: "g \<in> set (butlast fs)" "cf_tag g = t" by (auto simp: tags_of_def)
      then have "filter (\<lambda>f. cf_tag f = t) (butlast fs) = [g]" using distinct_tags_filter [OF d(4)] t by auto
      then show ?thesis using f d(3) [OF g(1)] g(2) t by simp
    next
      case False
      then have "filter (\<lambda>f. cf_tag f = t) (butlast fs) = []" by (auto simp: tags_of_def filter_empty_conv)
      moreover have "es_values s t = None" using d(1) False by (auto simp: scan_new_def dom_def)
      ultimately show ?thesis using f by (simp add: fact_of_def)
    qed
  qed
  ultimately show ?thesis unfolding s(4) fact_list_of by (simp add: list_all_iff)
qed

end
