(* ===== verification/CpicLogonSafety.thy ===== *)
theory CpicLogonSafety
  imports CpicLogonResponse RfcErrorOutcome
begin

text \<open>
  What the response decoders guarantee: the greedy walk accepts exactly the words of the grammar of a composite
  response, a logon counts as successful only if every status in the response is zero, a function result has a
  status exactly if it succeeded, and the response after a reset has a clean preamble.
\<close>

section \<open>The grammar\<close>

text \<open>The words of a list of coordinates: each coordinate takes one field, or none if it is optional.\<close>

inductive grammar_word :: "coordinate list \<Rightarrow> cpic_field list \<Rightarrow> bool" where
  gw_end: "grammar_word [] []"
| gw_take: "matchesInitialCpicGrammarCoordinate f c \<Longrightarrow> grammar_word cs fs \<Longrightarrow> grammar_word (c # cs) (f # fs)"
| gw_skip: "gc_optional c \<Longrightarrow> grammar_word cs fs \<Longrightarrow> grammar_word (c # cs) fs"

inductive_simps grammar_word_simps: "grammar_word [] fs" "grammar_word (c # cs) []" "grammar_word (c # cs) (f # fs)"

text \<open>An optional coordinate whose tag comes again later would make a greedy choice wrong.\<close>

fun unambiguous :: "coordinate list \<Rightarrow> bool" where
  "unambiguous [] = True"
| "unambiguous (c # cs) = (\<not> (gc_optional c \<and> gc_tag c \<in> gc_tag ` set cs) \<and> unambiguous cs)"

lemma grammar_word_first: "grammar_word cs (f # fs) \<Longrightarrow> cf_tag f \<in> gc_tag ` set cs"
  by (induction cs "f # fs" rule: grammar_word.induct) (auto simp: matchesInitialCpicGrammarCoordinate_def)

lemma rich_walk_word: "unambiguous cs \<Longrightarrow>
    (\<exists>p e. rich_walk cs fs n pre emb = Some (p, e, [])) \<longleftrightarrow> grammar_word cs fs"
proof (induction cs arbitrary: fs n pre emb)
  case Nil
  then show ?case by (auto simp: grammar_word_simps)
next
  case (Cons c cs)
  show ?case
  proof (cases fs)
    case Nil
    then show ?thesis using Cons by (simp add: grammar_word_simps)
  next
    case (Cons f fs')
    have "\<not> grammar_word cs (f # fs')" if "matchesInitialCpicGrammarCoordinate f c" "gc_optional c"
      using that Cons.prems grammar_word_first [of cs f fs'] by (auto simp: matchesInitialCpicGrammarCoordinate_def)
    then show ?thesis using Cons Cons.IH Cons.prems by (auto simp: grammar_word_simps)
  qed
qed

lemma rich_walk_preamble: "rich_walk cs fs n pre emb = Some (p, e, rest) \<Longrightarrow>
    pre \<noteq> None \<or> (\<exists>c \<in> set cs. gc_tag c = T_ResponseStart \<and> \<not> gc_optional c) \<Longrightarrow> p \<noteq> None"
proof (induction cs arbitrary: fs n pre emb)
  case (Cons c cs)
  then show ?case by (auto split: list.splits if_splits)
qed simp

lemma rich_grammar_facts: "unambiguous INITIAL_CPIC_RICH_RFCPING_GRAMMAR"
  "\<exists>c \<in> set INITIAL_CPIC_RICH_RFCPING_GRAMMAR. gc_tag c = T_ResponseStart \<and> \<not> gc_optional c"
  by (simp_all add: INITIAL_CPIC_RICH_RFCPING_GRAMMAR_def INITIAL_CPIC_RICH_RFCPING_PREAMBLE_GRAMMAR_def
      INITIAL_CPIC_RICH_RFCPING_RESPONSE_GRAMMAR_def required_def optional_def)

text \<open>C4. The single greedy pass over the fields of a composite logon response accepts exactly the words of its
grammar: every coordinate in order, optional ones at most once, no field left over. Backtracking would accept
nothing more.\<close>

theorem rich_grammar_match_complete:
  "(matchInitialCpicRichGrammar fs = None) = (\<not> grammar_word INITIAL_CPIC_RICH_RFCPING_GRAMMAR fs)"
proof -
  have "(\<exists>p e. rich_walk INITIAL_CPIC_RICH_RFCPING_GRAMMAR fs 0 None [] = Some (p, e, [])) \<longleftrightarrow>
      grammar_word INITIAL_CPIC_RICH_RFCPING_GRAMMAR fs" using rich_grammar_facts(1) by (rule rich_walk_word)
  moreover have "p \<noteq> None" if "rich_walk INITIAL_CPIC_RICH_RFCPING_GRAMMAR fs 0 None [] = Some (p, e, rest)" for p e rest
    using rich_walk_preamble [OF that] rich_grammar_facts(2) by blast
  ultimately show ?thesis
    unfolding matchInitialCpicRichGrammar_def by (fastforce split: option.splits prod.splits list.splits)
qed

section \<open>Logon responses\<close>

lemma be_decode_zero: "be_decode bs = 0 \<Longrightarrow> bs = replicate (length bs) 0"
proof -
  assume "be_decode bs = 0"
  then have "bs = be_encode (length bs) 0" using be_encode_decode [of bs] by simp
  also have "be_encode n 0 = replicate n 0" for n by (induction n) (simp_all add: be_encode.simps replicate_append_same)
  finally show ?thesis .
qed

lemma with_tag_one:
  assumes "length (with_tag t fs) \<le> 1" and "f \<in> set fs" and "cf_tag f = t"
  shows "with_tag t fs = [f]"
proof -
  have "f \<in> set (with_tag t fs)" using assms by (simp add: with_tag_def)
  then show ?thesis using assms(1) by (cases "with_tag t fs") auto
qed

text \<open>All statuses of a response are zero, and there is one.\<close>

definition statuses_zero :: "cpic_field list \<Rightarrow> bool" where
  "statuses_zero fs \<longleftrightarrow>
    list_all (\<lambda>f. (cf_tag f = T_LogonStatus \<longrightarrow> cf_value f = [0]) \<and> (cf_tag f = T_Unresolved0420 \<longrightarrow> cf_value f = [0, 0, 0, 0])) fs \<and>
    list_ex (\<lambda>f. cf_tag f = T_LogonStatus \<or> cf_tag f = T_Unresolved0420) fs"

lemma statuses_zeroI:
  assumes "with_tag T_LogonStatus fs = [] \<or> (\<exists>f. with_tag T_LogonStatus fs = [f] \<and> cf_value f = [0])"
    and "with_tag T_Unresolved0420 fs = [] \<or> (\<exists>f. with_tag T_Unresolved0420 fs = [f] \<and> cf_value f = [0, 0, 0, 0])"
    and "with_tag T_LogonStatus fs \<noteq> [] \<or> with_tag T_Unresolved0420 fs \<noteq> []"
  shows "statuses_zero fs"
proof -
  have "cf_value f = [0]" if "f \<in> set fs" "cf_tag f = T_LogonStatus" for f
    using with_tag_one [OF _ that] assms(1) by (auto simp: with_tag_def filter_empty_conv that)
  moreover have "cf_value f = [0, 0, 0, 0]" if "f \<in> set fs" "cf_tag f = T_Unresolved0420" for f
    using with_tag_one [OF _ that] assms(2) by (auto simp: with_tag_def filter_empty_conv that)
  moreover have "list_ex (\<lambda>f. cf_tag f = T_LogonStatus \<or> cf_tag f = T_Unresolved0420) fs"
    using assms(3) by (auto simp: with_tag_def list_ex_iff filter_empty_conv)
  ultimately show ?thesis by (simp add: statuses_zero_def list_all_iff)
qed

lemma status_byte: "value_length [f] = 1 \<Longrightarrow> unat (cf_value f ! 0) = 0 \<Longrightarrow> cf_value f = [0]"
  by (auto simp: value_length_def length_Suc_conv unat_eq_0)

lemma status_word: "value_length [f] = 4 \<Longrightarrow> be_decode (cf_value f) = 0 \<Longrightarrow> cf_value f = [0, 0, 0, 0]"
  using be_decode_zero [of "cf_value f"] by (simp add: value_length_def numeral_nat)

lemma none_one_many: obtains "xs = []" | x where "xs = [x]" | "1 < length xs" "xs \<noteq> []"
  by (cases xs; cases "tl xs") auto

lemma regular_success:
  assumes "decodeRegularInitialResponse fs protocol = Inr r" and "lr_success r"
  shows "statuses_zero fs \<and> lr_status r = Some 0 \<and> lr_protocolVersion r = be_decode (cf_value protocol)"
proof -
  let ?S = "with_tag T_LogonStatus fs" and ?C = "with_tag T_Unresolved0420 fs"
  have s: "length ?S \<le> 1" "length ?S = 1 \<longrightarrow> value_length ?S = 1 \<and> unat (cf_value (?S ! 0) ! 0) = 0" "length ?C \<le> 1"
    "length ?C = 1 \<longrightarrow> value_length ?C = 4 \<and> be_decode (cf_value (?C ! 0)) = 0" "length ?S \<noteq> 0 \<or> length ?C \<noteq> 0"
    "lr_status r = Some 0" "lr_protocolVersion r = be_decode (cf_value protocol)"
    using assms unfolding decodeRegularInitialResponse_def Let_def by (auto split: if_splits)
  have "?S = [] \<or> (\<exists>f. ?S = [f] \<and> cf_value f = [0])"
    by (rule none_one_many [of ?S]) (use s(1,2) status_byte in \<open>auto\<close>)
  moreover have "?C = [] \<or> (\<exists>f. ?C = [f] \<and> cf_value f = [0, 0, 0, 0])"
    by (rule none_one_many [of ?C]) (use s(3,4) status_word in \<open>auto\<close>)
  ultimately show ?thesis using s(5-7) statuses_zeroI by auto
qed

lemma rich_success:
  assumes "decodeRichInitialCpicRfcPingResponse fs protocol = Inr r" and "lr_success r"
  shows "statuses_zero fs \<and> lr_status r = Some 0 \<and> lr_protocolVersion r = be_decode (cf_value protocol)"
proof -
  let ?S = "with_tag T_LogonStatus fs" and ?C = "with_tag T_Unresolved0420 fs"
  have s: "length ?S \<le> 1" "length ?S = 1 \<longrightarrow> value_length ?S = 1 \<and> unat (cf_value (?S ! 0) ! 0) = 0" "length ?C = 1"
    "value_length ?C = 4 \<and> be_decode (cf_value (?C ! 0)) = 0"
    "lr_status r = Some 0" "lr_protocolVersion r = be_decode (cf_value protocol)"
    using assms unfolding decodeRichInitialCpicRfcPingResponse_def Let_def
    by (auto split: if_splits option.splits sum.splits prod.splits)
  have "?S = [] \<or> (\<exists>f. ?S = [f] \<and> cf_value f = [0])"
    by (rule none_one_many [of ?S]) (use s(1,2) status_byte in \<open>auto\<close>)
  moreover have "?C \<noteq> [] \<and> (\<exists>f. ?C = [f] \<and> cf_value f = [0, 0, 0, 0])"
    by (rule none_one_many [of ?C]) (use s(3,4) status_word in \<open>auto\<close>)
  ultimately show ?thesis using s(5,6) statuses_zeroI by auto
qed

lemma error_no_success: "decodeErrorInitialResponse fs protocol = Inr r \<Longrightarrow> \<not> lr_success r"
  by (auto simp: decodeErrorInitialResponse_def Let_def at_stage_def split: option.splits if_splits sum.splits)

lemmas response_prefixes = INITIAL_CPIC_RESPONSE_PREFIX_def INITIAL_CPIC_ERROR_RESPONSE_PREFIX_def

text \<open>C1. A logon is reported as successful only if the response says so: it has the prefix of a regular response,
its field chain decodes and ends the response but for the closing marker, every logon status in it is one zero byte and
every call status four, at least one of them is there, and the reported protocol version is that of the only version
field.\<close>

theorem logon_success_honest:
  assumes "decodeCpicInitialLogonResponse b = Inr r" and "lr_success r"
  shows "\<exists>fs n protocol. take 12 b = INITIAL_CPIC_RESPONSE_PREFIX \<and> length b = 12 + n + 2 \<and>
    decodeCpicFieldChainPrefix (drop 12 b) T_Start T_End no_limits = Inr (fs, n) \<and>
    statuses_zero fs \<and> lr_status r = Some 0 \<and> with_tag T_ProtocolVersion fs = [protocol] \<and>
    lr_protocolVersion r = be_decode (cf_value protocol)"
proof -
  have len: "length INITIAL_CPIC_RESPONSE_PREFIX = 12" by (simp add: response_prefixes)
  obtain fs n where chain: "decodeCpicFieldChainPrefix (drop 12 b) T_Start T_End no_limits = Inr (fs, n)"
    and rest: "int (length b) - int (12 + n) = 2" "with_tag T_ProtocolVersion fs \<noteq> []"
    and cases: "take 12 b = INITIAL_CPIC_ERROR_RESPONSE_PREFIX \<and> decodeErrorInitialResponse fs (with_tag T_ProtocolVersion fs ! 0) = Inr r \<or>
      take 12 b = INITIAL_CPIC_RESPONSE_PREFIX \<and> length (with_tag T_ProtocolVersion fs) = 1 \<and>
       (decodeRichInitialCpicRfcPingResponse fs (with_tag T_ProtocolVersion fs ! 0) = Inr r \<or>
        decodeRegularInitialResponse fs (with_tag T_ProtocolVersion fs ! 0) = Inr r)"
    using assms(1) unfolding decodeCpicInitialLogonResponse_def Let_def len
    by (auto simp: at_stage_def split: if_splits sum.splits)
  have "take 12 b = INITIAL_CPIC_RESPONSE_PREFIX" "length (with_tag T_ProtocolVersion fs) = 1"
    "decodeRichInitialCpicRfcPingResponse fs (with_tag T_ProtocolVersion fs ! 0) = Inr r \<or>
      decodeRegularInitialResponse fs (with_tag T_ProtocolVersion fs ! 0) = Inr r"
    using cases error_no_success assms(2) by blast+
  moreover from this obtain protocol where "with_tag T_ProtocolVersion fs = [protocol]" by (auto simp: length_Suc_conv)
  moreover have "length b = 12 + n + 2" using rest(1) by linarith
  ultimately show ?thesis using chain rich_success regular_success assms(2) by fastforce
qed

section \<open>Function responses\<close>

lemma hex_value_zero: "parse_hex ''00000000'' = 0"
  by (simp add: parse_hex_def)

lemma response_fields_status:
  assumes "decodeCpicFunctionResponseFields fs additional = Inr r"
  shows "rs_fields r = fs \<and> rs_status r = (if rs_success r then Some 0 else None)"
proof -
  obtain en where en: "decodeRfcErrorEnvelope fs (function_options additional) = Inr en"
    and r: "rs_success r = (en_outcome en = OutSuccess)" "rs_fields r = fs"
      "rs_status r = (case ef_unresolved0420 (en_facts en) of
          [control] \<Rightarrow> if en_outcome en = OutSuccess \<and> uc_byteLength control = 4 then Some (parse_hex (uc_valueHex control)) else None
        | _ \<Rightarrow> None)"
    using assms by (auto simp: decodeCpicFunctionResponseFields_def Let_def)
  obtain s where s: "classify s = Inr (en_outcome en)" "en_facts en = facts_of s"
    using decode_envelope_shape [OF en] by blast
  show ?thesis
  proof (cases "en_outcome en = OutSuccess")
    case True
    then obtain c where "es_unresolved0420 s = [c]" "uc_byteLength c = 4" "uc_valueHex c = ''00000000''"
      using s(1) by (auto simp: classify_def split: if_splits list.splits)
    then show ?thesis using r s(2) True by (simp add: facts_of_def hex_value_zero)
  qed (use r in \<open>auto split: list.splits\<close>)
qed

text \<open>The result of a function call has a status exactly if the call succeeded, and then the status is zero; the
fields handed to the value codecs are those of the chain behind the response prefix, up to its closing marker.\<close>

theorem function_result_status:
  assumes "decodeCpicFunctionResponseEnvelope data additional = Inr r"
  shows "rs_status r = (if rs_success r then Some 0 else None) \<and>
    decodeCpicFieldChainPrefix (drop 4 data) T_ResponseStart T_End no_limits = Inr (rs_fields r, length data - 6)"
proof -
  have len: "length CPIC_FUNCTION_RESPONSE_PREFIX = 4" by (simp add: CPIC_FUNCTION_RESPONSE_PREFIX_def)
  obtain fs n where f: "decodeCpicFieldChainPrefix (drop 4 data) T_ResponseStart T_End no_limits = Inr (fs, n)"
    "int (length data) - int (4 + n) = 2" "decodeCpicFunctionResponseFields fs additional = Inr r"
    using assms unfolding decodeCpicFunctionResponseEnvelope_def Let_def len by (auto split: if_splits)
  have "n = length data - 6" using f(2) by linarith
  then show ?thesis using f(1) response_fields_status [OF f(3)] by simp
qed

section \<open>After a reset\<close>

lemma refresh_preamble: "check_refresh_preamble seen n fs = Inr () \<Longrightarrow>
    distinct (map cf_tag fs) \<and> set (map cf_tag fs) \<inter> set seen = {} \<and> set (map cf_tag fs) \<subseteq> set SESSION_REFRESH_PREAMBLE_TAGS \<and>
    (fs \<noteq> [] \<longrightarrow> n + sum_list (map (\<lambda>f. length (cf_value f)) fs) \<le> 16 * 1024)"
proof (induction fs arbitrary: seen n)
  case (Cons f fs)
  then have c: "cf_tag f \<in> set SESSION_REFRESH_PREAMBLE_TAGS" "cf_tag f \<notin> set seen" "n + length (cf_value f) \<le> 16 * 1024"
    "check_refresh_preamble (cf_tag f # seen) (n + length (cf_value f)) fs = Inr ()"
    by (auto simp: Let_def split: if_splits)
  then show ?case using Cons.IH [OF c(4)] by (cases fs) auto
qed simp

text \<open>C5. The first response after a reset of the server context is accepted only with a clean preamble: at least two and at
most 32 fields of known tags, none twice, at most 16 KiB together, a logon status only if it is one zero byte, then one
empty marker; and the result carries exactly the fields behind the marker.\<close>

theorem session_refresh_sound:
  assumes "decodeCpicSessionRefreshResultFields b = Inr r"
  shows "\<exists>pre marker n. decodeCpicFieldChainPrefix (drop 12 b) T_Start T_End no_limits = Inr (pre @ marker # rs_fields r, n) \<and>
    cf_tag marker = T_ResponseStart \<and> cf_value marker = [] \<and> 2 \<le> length pre \<and> length pre \<le> 32 \<and>
    distinct (map cf_tag pre) \<and> set (map cf_tag pre) \<subseteq> set SESSION_REFRESH_PREAMBLE_TAGS \<and>
    sum_list (map (\<lambda>f. length (cf_value f)) pre) \<le> 16384 \<and>
    list_all (\<lambda>f. cf_tag f \<noteq> T_LogonStatus \<or> cf_value f = [0]) pre \<and>
    rs_status r = (if rs_success r then Some 0 else None)"
proof -
  have len: "length INITIAL_CPIC_RESPONSE_PREFIX = 12" by (simp add: response_prefixes)
  obtain fs n i where chain: "decodeCpicFieldChainPrefix (drop 12 b) T_Start T_End no_limits = Inr (fs, n)"
    and start: "filter (\<lambda>i. cf_tag (fs ! i) = T_ResponseStart) [0..<length fs] = [i]" "length (cf_value (fs ! i)) = 0"
    and bounds: "2 \<le> i" "i \<le> 32"
    and pre: "check_refresh_preamble [] 0 (take i fs) = Inr ()"
    and status: "\<not> (case with_tag T_LogonStatus (take i fs) of [] \<Rightarrow> False
              | logonStatus # _ \<Rightarrow> length (cf_value logonStatus) \<noteq> 1 \<or> cf_value logonStatus ! 0 \<noteq> 0)"
    and r: "decodeCpicFunctionResponseFields (drop (i + 1) fs) [] = Inr r"
    using assms unfolding decodeCpicSessionRefreshResultFields_def Let_def len
    by (auto simp: length_Suc_conv split: if_splits)
  have "i \<in> set (filter (\<lambda>i. cf_tag (fs ! i) = T_ResponseStart) [0..<length fs])" using start(1) by simp
  then have i: "i < length fs" "cf_tag (fs ! i) = T_ResponseStart" by auto
  have fs: "fs = take i fs @ fs ! i # drop (i + 1) fs" using id_take_nth_drop [OF i(1)] by simp
  note p = refresh_preamble [OF pre]
  have "cf_value f = [0]" if "f \<in> set (take i fs)" "cf_tag f = T_LogonStatus" for f
  proof -
    have "length (with_tag T_LogonStatus (take i fs)) \<le> 1"
      using p distinct_tags_filter [of UNIV "take i fs" f] that by (simp add: with_tag_def)
    then have "with_tag T_LogonStatus (take i fs) = [f]" using that by (rule with_tag_one)
    then show ?thesis using status by (auto simp: length_Suc_conv)
  qed
  then have "list_all (\<lambda>f. cf_tag f \<noteq> T_LogonStatus \<or> cf_value f = [0]) (take i fs)" by (auto simp: list_all_iff)
  moreover have "sum_list (map (\<lambda>f. length (cf_value f)) (take i fs)) \<le> 16384" using p by (cases "take i fs") auto
  moreover have "length (take i fs) = i" using i(1) by simp
  ultimately show ?thesis using chain fs i(2) start(2) bounds p response_fields_status [OF r]
    by (intro exI [of _ "take i fs"] exI [of _ "fs ! i"] exI [of _ n]) auto
qed

section \<open>Samples\<close>

lemma sample_chain:
  assumes "encodeCpicFieldChain p (gs @ [fld T_End []]) no_limits = Inr chain" and "list_all (\<lambda>g. cf_tag g \<noteq> T_End) gs"
  shows "decodeCpicFieldChainPrefix (chain @ [0xff, 0xff]) p T_End no_limits = Inr (gs @ [fld T_End []], length chain)"
  using decode_encoded_prefix [of p gs "fld T_End []" no_limits chain "[0xff, 0xff]"] assms by (simp add: fld_def list_all_iff)

lemmas chain_accepts = encodeCpicFieldChain_iff field_fits_def default_limits_def field_bytes_def rfc_pro_header_length

definition sample_logon_answer :: bytes where
  "sample_logon_answer = INITIAL_CPIC_RESPONSE_PREFIX @
     chain_bytes T_Start ([fld T_ProtocolVersion [0, 0, 0, 1], fld T_LogonStatus [0]] @ [fld T_End []]) @ [0xff, 0xff]"

lemma sample_logon_accepted:
  "\<exists>r. decodeCpicInitialLogonResponse sample_logon_answer = Inr r \<and> lr_success r"
proof -
  let ?gs = "[fld T_ProtocolVersion [0, 0, 0, 1], fld T_LogonStatus [0]]"
  let ?chain = "chain_bytes T_Start (?gs @ [fld T_End []])"
  have e: "encodeCpicFieldChain T_Start (?gs @ [fld T_End []]) no_limits = Inr ?chain" and n: "6 < length ?chain"
    by (simp_all add: chain_accepts fld_def)
  have d: "decodeCpicFieldChainPrefix (?chain @ [0xff, 0xff]) T_Start T_End no_limits = Inr (?gs @ [fld T_End []], length ?chain)"
    by (rule sample_chain [OF e]) (simp add: fld_def)
  have len: "length INITIAL_CPIC_RESPONSE_PREFIX = 12" by (simp add: response_prefixes)
  define b where "b = INITIAL_CPIC_RESPONSE_PREFIX @ ?chain @ [0xff, 0xff]"
  have b: "length b = 12 + length ?chain + 2" "take 12 b = INITIAL_CPIC_RESPONSE_PREFIX" "drop 12 b = ?chain @ [0xff, 0xff]"
    "slice (12 + length ?chain) 2 b = [0xff, 0xff]"
    using len by (simp_all add: b_def slice_def)
  have "be_decode [0xff, 0xff] = 0xffff" by (simp add: be_decode_def)
  then show ?thesis unfolding sample_logon_answer_def b_def [symmetric] decodeCpicInitialLogonResponse_def Let_def len
    using b n d by (simp add: at_stage_def with_tag_def value_length_def fld_def response_prefixes decodeRegularInitialResponse_def
        INITIAL_CPIC_REGULAR_RESPONSE_TAGS_def end_invalid_def vendor_control_bad_def)
qed

lemma logon_success_honest_witness:
  "\<exists>r fs n. decodeCpicInitialLogonResponse sample_logon_answer = Inr r \<and> lr_success r \<and>
    decodeCpicFieldChainPrefix (drop 12 sample_logon_answer) T_Start T_End no_limits = Inr (fs, n) \<and> statuses_zero fs"
  using sample_logon_accepted logon_success_honest by blast

lemma sample_result_fields:
  "\<exists>r. decodeCpicFunctionResponseFields [fld T_Unresolved0420 [0, 0, 0, 0], fld T_End []] additional = Inr r"
  if "list_all (\<lambda>t. 0 \<le> t \<and> t \<le> 0xffff) additional" for additional
proof -
  have "check_tags tags = Inr ()" if "list_all (\<lambda>t. 0 \<le> t \<and> t \<le> 0xffff) tags" for tags
    using that by (induction tags) (auto simp: cpic_boundedInteger_def is_safe_integer_def max_safe_integer_def)
  moreover have "hex_text [0, 0, 0, 0] = ''00000000''" using hex_zero [of "[0, 0, 0, 0]"] by (simp add: numeral_nat)
  ultimately show ?thesis using that
    by (simp add: decodeCpicFunctionResponseFields_def Let_def decodeRfcErrorEnvelope_def envelope_limits_of_def function_options_def
        no_options_def cpic_boundedInteger_def is_safe_integer_def max_safe_integer_def DEFAULT_MAX_CPIC_FIELD_COUNT_def
        field_valid_def fld_def check_end_def scan_field_def scan_control_def scan_new_def TEXT_TAGS_def upt_rec
        check_discriminators_def fact_present_def classify_def hasNonEmptyFact_def hasCoherentMessageIdentity_def hasAnyTag_def
        MESSAGE_TEXT_TAGS_def MESSAGE_IDENTITY_TAGS_def SECONDARY_ERROR_TAGS_def)
qed

lemma envelope_sample: "\<exists>e. decodeRfcErrorEnvelope [fld T_Unresolved0420 [0, 0, 0, 0], fld T_End []] (function_options []) = Inr e"
  using sample_result_fields [of "[]"] by (auto simp: decodeCpicFunctionResponseFields_def)

lemma envelope_outcome_sound_witness:
  "\<exists>e. decodeRfcErrorEnvelope [fld T_Unresolved0420 [0, 0, 0, 0], fld T_End []] (function_options []) = Inr e \<and>
    en_outcome e \<noteq> AbapException \<and> en_outcome e \<noteq> AbapRuntime"
proof -
  obtain e where e: "decodeRfcErrorEnvelope [fld T_Unresolved0420 [0, 0, 0, 0], fld T_End []] (function_options []) = Inr e"
    using envelope_sample by blast
  from envelope_outcome_sound [OF e] have "en_outcome e \<noteq> AbapException \<and> en_outcome e \<noteq> AbapRuntime"
    by (cases "en_outcome e") (simp_all add: fld_def)
  with e show ?thesis by blast
qed

lemma envelope_facts_faithful_witness:
  "\<exists>e limits. decodeRfcErrorEnvelope [fld T_Unresolved0420 [0, 0, 0, 0], fld T_End []] (function_options []) = Inr e \<and>
    envelope_limits_of (function_options []) = Inr limits \<and> ef_plainText (en_facts e) = []"
proof -
  obtain e where e: "decodeRfcErrorEnvelope [fld T_Unresolved0420 [0, 0, 0, 0], fld T_End []] (function_options []) = Inr e"
    using envelope_sample by blast
  then obtain limits where l: "envelope_limits_of (function_options []) = Inr limits" by (auto simp: decodeRfcErrorEnvelope_def)
  from envelope_facts_faithful [OF e l] have "ef_plainText (en_facts e) = []" by (simp add: fact_list_def fld_def)
  with e l show ?thesis by blast
qed

definition sample_result :: bytes where
  "sample_result = CPIC_FUNCTION_RESPONSE_PREFIX @
     chain_bytes T_ResponseStart ([fld T_Unresolved0420 [0, 0, 0, 0]] @ [fld T_End []]) @ [0xff, 0xff]"

lemma sample_result_accepted: "\<exists>r. decodeCpicFunctionResponseEnvelope sample_result [] = Inr r"
proof -
  let ?chain = "chain_bytes T_ResponseStart ([fld T_Unresolved0420 [0, 0, 0, 0]] @ [fld T_End []])"
  have e: "encodeCpicFieldChain T_ResponseStart ([fld T_Unresolved0420 [0, 0, 0, 0]] @ [fld T_End []]) no_limits = Inr ?chain"
    and n: "6 < length ?chain" by (simp_all add: chain_accepts fld_def)
  have d: "decodeCpicFieldChainPrefix (?chain @ [0xff, 0xff]) T_ResponseStart T_End no_limits =
      Inr ([fld T_Unresolved0420 [0, 0, 0, 0]] @ [fld T_End []], length ?chain)"
    by (rule sample_chain [OF e]) (simp add: fld_def)
  have len: "length CPIC_FUNCTION_RESPONSE_PREFIX = 4" by (simp add: CPIC_FUNCTION_RESPONSE_PREFIX_def)
  define b where "b = CPIC_FUNCTION_RESPONSE_PREFIX @ ?chain @ [0xff, 0xff]"
  have b: "length b = 4 + length ?chain + 2" "take 4 b = CPIC_FUNCTION_RESPONSE_PREFIX" "drop 4 b = ?chain @ [0xff, 0xff]"
    "slice (4 + length ?chain) 2 b = [0xff, 0xff]"
    using len by (simp_all add: b_def slice_def)
  have "be_decode [0xff, 0xff] = 0xffff" by (simp add: be_decode_def)
  then have "decodeCpicFunctionResponseEnvelope b [] = decodeCpicFunctionResponseFields ([fld T_Unresolved0420 [0, 0, 0, 0]] @ [fld T_End []]) []"
    unfolding decodeCpicFunctionResponseEnvelope_def Let_def len using b n d by simp
  then show ?thesis using sample_result_fields [of "[]"] by (simp add: sample_result_def b_def)
qed

lemma function_result_status_witness:
  "\<exists>r. decodeCpicFunctionResponseEnvelope sample_result [] = Inr r \<and> rs_status r = (if rs_success r then Some 0 else None)"
  using sample_result_accepted function_result_status by blast

definition sample_refresh :: bytes where
  "sample_refresh = INITIAL_CPIC_RESPONSE_PREFIX @ chain_bytes T_Start
     ([fld T_ProtocolVersion [0, 0, 0, 1], fld T_Capabilities INITIAL_CAPABILITIES, fld T_ResponseStart [],
       fld T_Unresolved0420 [0, 0, 0, 0]] @ [fld T_End []]) @ [0xff, 0xff]"

lemma sample_refresh_accepted: "\<exists>r. decodeCpicSessionRefreshResultFields sample_refresh = Inr r"
proof -
  let ?gs = "[fld T_ProtocolVersion [0, 0, 0, 1], fld T_Capabilities INITIAL_CAPABILITIES, fld T_ResponseStart [],
       fld T_Unresolved0420 [0, 0, 0, 0]]"
  let ?chain = "chain_bytes T_Start (?gs @ [fld T_End []])"
  have e: "encodeCpicFieldChain T_Start (?gs @ [fld T_End []]) no_limits = Inr ?chain"
    and n: "6 < length ?chain" by (simp_all add: chain_accepts fld_def INITIAL_CAPABILITIES_def)
  have d: "decodeCpicFieldChainPrefix (?chain @ [0xff, 0xff]) T_Start T_End no_limits = Inr (?gs @ [fld T_End []], length ?chain)"
    by (rule sample_chain [OF e]) (simp add: fld_def)
  have len: "length INITIAL_CPIC_RESPONSE_PREFIX = 12" by (simp add: response_prefixes)
  define b where "b = INITIAL_CPIC_RESPONSE_PREFIX @ ?chain @ [0xff, 0xff]"
  have b: "length b = 12 + length ?chain + 2" "take 12 b = INITIAL_CPIC_RESPONSE_PREFIX" "drop 12 b = ?chain @ [0xff, 0xff]"
    "slice (12 + length ?chain) 2 b = [0xff, 0xff]"
    using len by (simp_all add: b_def slice_def)
  have "be_decode [0xff, 0xff] = 0xffff" by (simp add: be_decode_def)
  then have "decodeCpicSessionRefreshResultFields b = decodeCpicFunctionResponseFields [fld T_Unresolved0420 [0, 0, 0, 0], fld T_End []] []"
    unfolding decodeCpicSessionRefreshResultFields_def Let_def len using b n d
    by (simp add: fld_def upt_rec INITIAL_CAPABILITIES_def SESSION_REFRESH_PREAMBLE_TAGS_def with_tag_def numeral_2_eq_2)
  then show ?thesis using sample_result_fields [of "[]"] by (simp add: sample_refresh_def b_def)
qed

lemma session_refresh_sound_witness:
  "\<exists>r. decodeCpicSessionRefreshResultFields sample_refresh = Inr r \<and> rs_status r = (if rs_success r then Some 0 else None)"
  using sample_refresh_accepted session_refresh_sound by blast

end
