(* ===== verification/AbapText.thy ===== *)
theory AbapText
  imports CpicRequest TextForms
begin

text \<open>
  Character data of the classic protocol: the surrogate check and the XML references of
  \<open>src/values/unicode-scalar.ts\<close>, and the fixed-width CHAR values of \<open>src/protocol/classic-rfc.ts\<close>.
  A text is its list of UTF-16 code units, as in \<open>CpicRequest\<close>.
\<close>

section \<open>Unicode scalar text\<close>

text \<open>The scan by code units; past the end \<open>charCodeAt\<close> is NaN, which no range contains.\<close>

fun scalar_scan :: "js_string \<Rightarrow> unit result" where
  "scalar_scan [] = Inr ()"
| "scalar_scan (c # cs) =
    (if is_high_surrogate c
     then case cs of
         [] \<Rightarrow> Inl (RangeError ''contains an isolated surrogate code unit'')
       | low # rest \<Rightarrow> if \<not> is_low_surrogate low
           then Inl (RangeError ''contains an isolated surrogate code unit'') else scalar_scan rest
     else if is_low_surrogate c then Inl (RangeError ''contains an isolated surrogate code unit'')
     else scalar_scan cs)"

definition assertUnicodeScalarText :: "js_string \<Rightarrow> unit result" where
  "assertUnicodeScalarText value = scalar_scan value"

definition assertNulFreeUnicodeScalarText :: "js_string \<Rightarrow> unit result" where
  "assertNulFreeUnicodeScalarText value = rbind (assertUnicodeScalarText value) (\<lambda>_.
     if 0 \<in> set value then Inl (RangeError ''contains NUL'') else Inr ())"

section \<open>XML references\<close>

definition units :: "string \<Rightarrow> js_string" where
  "units s = map (\<lambda>c. word_of_nat (of_char c)) s"

definition NAMED_XML_ENTITY_CODE_POINTS :: "(js_string \<times> nat) list" where
  "NAMED_XML_ENTITY_CODE_POINTS =
    [(units ''amp'', 0x26), (units ''lt'', 0x3c), (units ''gt'', 0x3e), (units ''quot'', 0x22), (units ''apos'', 0x27)]"

definition MAXIMUM_CHARACTER_REFERENCE_RUN :: nat where
  "MAXIMUM_CHARACTER_REFERENCE_RUN = 32"

text \<open>The value of a digit of \<open>[0-9]\<close> and of \<open>[0-9A-Fa-f]\<close>.\<close>

definition decimal_digit :: "16 word \<Rightarrow> nat option" where
  "decimal_digit c = (if is_digit c then Some (unat c - 0x30) else None)"

definition hexadecimal_digit :: "16 word \<Rightarrow> nat option" where
  "hexadecimal_digit c =
    (if is_digit c then Some (unat c - 0x30)
     else if 0x41 \<le> unat c \<and> unat c \<le> 0x46 then Some (unat c - 0x37)
     else if 0x61 \<le> unat c \<and> unat c \<le> 0x66 then Some (unat c - 0x57) else None)"

definition run_value :: "nat \<Rightarrow> (16 word \<Rightarrow> nat option) \<Rightarrow> js_string \<Rightarrow> nat" where
  "run_value radix digit s = foldl (\<lambda>n c. n * radix + the (digit c)) 0 s"

definition characterReferenceValue :: "js_string \<Rightarrow> nat \<Rightarrow> (16 word \<Rightarrow> nat option) \<Rightarrow> nat result" where
  "characterReferenceValue digits radix digit =
    (if MAXIMUM_CHARACTER_REFERENCE_RUN < length digits \<or> digits = [] \<or> \<not> list_all (\<lambda>c. digit c \<noteq> None) digits
     then Inl (PlainError ''contains an unsupported XML entity'')
     else let stripped = dropWhile (\<lambda>c. c = 0x30) digits;
              significant = (if stripped = [] then [0x30] else stripped)
          in Inr (run_value radix digit significant))"

text \<open>The reference that starts with the ampersand before \<open>rest\<close>: its code point and its length.\<close>

definition decodeXmlEntityReference :: "js_string \<Rightarrow> (nat \<times> nat) result" where
  "decodeXmlEntityReference rest =
    (let body = takeWhile (\<lambda>c. c \<noteq> 0x3b) rest in
     if length body = length rest then Inl (PlainError ''contains a truncated XML entity'')
     else rbind
       (if body = [] then Inl (PlainError ''contains an empty XML entity'')
        else if body ! 0 \<noteq> 0x23
        then case map_of NAMED_XML_ENTITY_CODE_POINTS body of
            None \<Rightarrow> Inl (PlainError ''contains an unsupported XML entity'')
          | Some named \<Rightarrow> Inr named
        else if 1 < length body \<and> body ! 1 = 0x78
        then characterReferenceValue (drop 2 body) 16 hexadecimal_digit
        else characterReferenceValue (drop 1 body) 10 decimal_digit)
       (\<lambda>codePoint.
        if 0x10ffff < codePoint \<or> (0xd800 \<le> codePoint \<and> codePoint \<le> 0xdfff)
        then Inl (PlainError ''contains an out-of-range XML entity'')
        else Inr (codePoint, length body + 2)))"

section \<open>CHAR values\<close>

definition space_unit :: "16 word" where
  "space_unit = 0x20"

definition characterCount :: "int \<Rightarrow> unit result" where
  "characterCount value = guard_that (is_safe_integer value \<and> 0 \<le> value \<and> value \<le> 0x7fff)
     (RangeError ''must be an integer in 0..32767'')"

definition encodeAbapChar :: "js_string \<Rightarrow> int \<Rightarrow> bytes result" where
  "encodeAbapChar value characters =
    rbind (characterCount characters) (\<lambda>_.
    rbind (assertUnicodeScalarText value) (\<lambda>_.
    if characters < int (length value) then Inl (RangeError ''ABAP CHAR value does not fit'')
    else Inr (utf16le (value @ replicate (nat characters - length value) space_unit))))"

text \<open>\<open>encoded.toString("utf16le")\<close>: pairs of bytes, least significant first.\<close>

fun utf16le_text :: "bytes \<Rightarrow> js_string" where
  "utf16le_text (low # high # bs) = word_of_nat (unat low + 256 * unat high) # utf16le_text bs"
| "utf16le_text _ = []"

definition decodeAbapCharacterBytes :: "bytes \<Rightarrow> int option \<Rightarrow> js_string result" where
  "decodeAbapCharacterBytes encoded expectedCharacters =
    (if odd (length encoded) then Inl (RangeError ''Unicode ABAP CHAR must have an even byte length'')
     else rbind (case expectedCharacters of
         None \<Rightarrow> Inr ()
       | Some n \<Rightarrow> rbind (characterCount n) (\<lambda>_.
           if int (length encoded) \<noteq> n * 2
           then Inl (RangeError ''Unicode ABAP CHAR must contain an exact number of bytes'') else Inr ()))
     (\<lambda>_. let decoded = utf16le_text encoded in
       rbind (assertUnicodeScalarText decoded) (\<lambda>_. Inr decoded)))"

definition strip_trailing :: "js_string \<Rightarrow> js_string" where
  "strip_trailing s = rev (dropWhile (\<lambda>c. c = space_unit) (rev s))"

definition decodeAbapChar :: "bytes \<Rightarrow> int option \<Rightarrow> js_string result" where
  "decodeAbapChar value expectedCharacters =
    rbind (decodeAbapCharacterBytes value expectedCharacters) (\<lambda>decoded. Inr (strip_trailing decoded))"

definition decodeAbapFixedChar :: "bytes \<Rightarrow> int \<Rightarrow> js_string result" where
  "decodeAbapFixedChar value expectedCharacters = decodeAbapCharacterBytes value (Some expectedCharacters)"

section \<open>The scan is the absence of lone surrogates\<close>

lemma scalar_scan_eq: "scalar_scan s = (if has_lone_surrogate s then Inl (RangeError ''contains an isolated surrogate code unit'') else Inr ())"
proof (induction s rule: has_lone_surrogate.induct)
  case (3 c d cs)
  have "is_high_surrogate c \<Longrightarrow> \<not> is_low_surrogate c" by (simp add: is_high_surrogate_def is_low_surrogate_def)
  with 3 show ?case by (cases "is_high_surrogate c"; cases "is_low_surrogate d"; cases "is_low_surrogate c") simp_all
qed simp_all

lemma assert_scalar_iff [simp]: "assertUnicodeScalarText s = Inr u \<longleftrightarrow> \<not> has_lone_surrogate s"
  by (simp add: assertUnicodeScalarText_def scalar_scan_eq)

lemma is_high_space [simp]: "\<not> is_high_surrogate space_unit" "\<not> is_low_surrogate space_unit"
  by (simp_all add: space_unit_def is_high_surrogate_def is_low_surrogate_def)

lemma lone_spaces [simp]: "\<not> has_lone_surrogate (replicate n space_unit)"
proof (induction n)
  case (Suc n)
  then show ?case by (cases n) simp_all
qed simp

lemma lone_append_spaces: "has_lone_surrogate (s @ replicate n space_unit) \<longleftrightarrow> has_lone_surrogate s"
proof (induction s rule: has_lone_surrogate.induct)
  case 1
  then show ?case by simp
next
  case (2 c)
  have "has_lone_surrogate (c # replicate n space_unit) \<longleftrightarrow> is_high_surrogate c \<or> is_low_surrogate c"
    using lone_spaces [of n] by (cases n) auto
  then show ?case by simp
next
  case (3 c d cs)
  then show ?case by simp
qed

section \<open>CHAR round trips\<close>

lemma utf16le_Cons: "utf16le (c # s) = word_of_nat (unat c) # word_of_nat (unat c div 256) # utf16le s"
  by (simp add: utf16le_def numeral_2_eq_2)

lemma utf16le_text_utf16le [simp]: "utf16le_text (utf16le s) = s"
proof (induction s)
  case (Cons c s)
  have "unat c < 65536" using unsigned_less [of c] by simp
  then have "unat (word_of_nat (unat c) :: byte) + 256 * unat (word_of_nat (unat c div 256) :: byte) = unat c"
    by (simp del: of_nat_unat)
  then show ?case using Cons by (simp add: utf16le_Cons del: of_nat_add of_nat_mult)
qed (simp add: utf16le_def)

lemma utf16le_utf16le_text: "even (length bs) \<Longrightarrow> utf16le (utf16le_text bs) = bs"
proof (induction bs rule: utf16le_text.induct)
  case (1 low high bs)
  have "unat low + 256 * unat high < 65536"
    using unat_byte_less [of low] unat_byte_less [of high] by linarith
  then have "unat (word_of_nat (unat low + 256 * unat high) :: 16 word) = unat low + 256 * unat high"
    by (simp add: unsigned_of_nat take_bit_nat_eq_self del: of_nat_add of_nat_mult of_nat_unat)
  moreover have "word_of_nat (unat low + 256 * unat high) = (low :: byte)"
    using word_of_nat_mult_add [of "unat high" low] by (simp add: ac_simps)
  ultimately show ?case using 1 unat_byte_less [of low] by (simp add: utf16le_Cons)
qed (simp_all add: utf16le_def)

lemma length_utf16le_text: "length (utf16le_text bs) = length bs div 2"
  by (induction bs rule: utf16le_text.induct) simp_all

lemma strip_trailing_padded: "strip_trailing (s @ replicate n space_unit) = strip_trailing s"
  by (induction n) (simp_all add: strip_trailing_def replicate_append_same flip: append_assoc)

lemma strip_trailing_same: "s = [] \<or> last s \<noteq> space_unit \<Longrightarrow> strip_trailing s = s"
  by (cases s rule: rev_cases) (simp_all add: strip_trailing_def)

lemma encodeAbapChar_iff:
  "encodeAbapChar s n = Inr bs \<longleftrightarrow>
     0 \<le> n \<and> n \<le> 0x7fff \<and> \<not> has_lone_surrogate s \<and> length s \<le> nat n \<and>
     bs = utf16le (s @ replicate (nat n - length s) space_unit)"
  by (auto simp: encodeAbapChar_def characterCount_def is_safe_integer_def max_safe_integer_def)

lemma decodeAbapFixedChar_iff:
  "decodeAbapFixedChar bs n = Inr s \<longleftrightarrow>
     0 \<le> n \<and> n \<le> 0x7fff \<and> int (length bs) = n * 2 \<and> s = utf16le_text bs \<and> \<not> has_lone_surrogate s"
proof -
  have "int (length bs) = n * 2 \<Longrightarrow> even (length bs)" using even_of_nat [of "length bs", where ?'a = int] by simp
  then show ?thesis
    by (auto simp: decodeAbapFixedChar_def decodeAbapCharacterBytes_def characterCount_def is_safe_integer_def
        max_safe_integer_def Let_def)
qed

lemma decodeAbapChar_fixed: "decodeAbapChar bs (Some n) = rbind (decodeAbapFixedChar bs n) (\<lambda>s. Inr (strip_trailing s))"
  by (simp add: decodeAbapChar_def decodeAbapFixedChar_def)

lemma abap_char_roundtrip:
  assumes "encodeAbapChar s n = Inr bs"
  shows "decodeAbapChar bs (Some n) = Inr (strip_trailing s)"
    and "decodeAbapFixedChar bs n = Inr (s @ replicate (nat n - length s) space_unit)"
    and "length bs = 2 * nat n"
proof -
  have h: "0 \<le> n" "n \<le> 0x7fff" "\<not> has_lone_surrogate s" "length s \<le> nat n"
    and bs: "bs = utf16le (s @ replicate (nat n - length s) space_unit)"
    using assms by (auto simp: encodeAbapChar_iff)
  show l: "length bs = 2 * nat n" using h by (simp add: bs)
  show f: "decodeAbapFixedChar bs n = Inr (s @ replicate (nat n - length s) space_unit)"
    using h l by (simp add: decodeAbapFixedChar_iff bs lone_append_spaces)
  show "decodeAbapChar bs (Some n) = Inr (strip_trailing s)"
    by (simp add: decodeAbapChar_fixed f strip_trailing_padded)
qed

end
