(* ===== verification/ClassicRfc.thy ===== *)
theory ClassicRfc
  imports AbapText Bytes
begin

text \<open>
  The parameter records of a classic RFC response, \<open>src/protocol/classic-rfc.ts\<close>: the decoder that groups
  the decoded fields of a reply into requested outputs, scalars, tables and xRFC parameters, with the two
  passes that bound the bytes it will produce, and the rows of the metadata function interface.

  Buffers are values: a buffer that borrows the reply and one that copies it are the same list of bytes,
  so the two entry points \<open>decodeClassicRfcResult\<close> and \<open>decodeOwnedClassicRfcResult\<close> are one function.
  The walk over \<open>fields\<close> by an index is a recursion over the fields from that index on.
\<close>

abbreviation (input) TR_Program :: int where "TR_Program \<equiv> 0x0130"
abbreviation (input) T_TableContent :: int where "T_TableContent \<equiv> 0x0303"
abbreviation (input) TR_ResponseContext :: int where "TR_ResponseContext \<equiv> 0x0503"
abbreviation (input) TR_Unresolved0420 :: int where "TR_Unresolved0420 \<equiv> 0x0420"

record rfc_table_header =
  th_declaredRowByteLength :: nat
  th_rowCount :: nat

datatype row_encoding = RowsFlat | RowsStructured | RowsMixed | RowsEmpty
datatype row_compression = CompressionNone | CompressionSimple | CompressionMixed | CompressionEmpty

record classic_table =
  tb_name :: js_string
  tb_declaredRowByteLength :: nat
  tb_rowByteLength :: nat
  tb_rowEncoding :: row_encoding
  tb_rowCompression :: row_compression
  tb_rows :: "bytes list"

record classic_xrfc =
  xp_value :: bytes
  xp_chunkCount :: nat

record classic_result =
  cr_requestedOutputs :: "js_string list"
  cr_scalars :: "(js_string \<times> bytes) list"
  cr_tables :: "classic_table list"
  cr_xrfcParameters :: "classic_xrfc list"

section \<open>Names, headers and rows\<close>

definition decodeParameterName :: "bytes \<Rightarrow> js_string result" where
  "decodeParameterName value =
    rbind (decodeAbapChar value None) (\<lambda>name.
    if name = [] \<or> list_ex (\<lambda>c. unat c \<le> 0x1f \<or> unat c = 0x7f) name
    then Inl (PlainError ''is not a valid non-empty RFC parameter name'') else Inr name)"

definition decodeRfcTableHeader :: "bytes \<Rightarrow> rfc_table_header result" where
  "decodeRfcTableHeader value =
    (if length value \<noteq> 8 then Inl (RangeError ''classic RFC table header must contain exactly 8 bytes'')
     else rbind (readUInt32BE (reader_new value)) (\<lambda>(declaredRowByteLength, r).
          rbind (readUInt32BE r) (\<lambda>(rowCount, r).
          rbind (reader_finish r) (\<lambda>_.
          Inr \<lparr>th_declaredRowByteLength = declaredRowByteLength, th_rowCount = rowCount\<rparr>))))"

definition NON_APPLICATION_TAGS :: "int list" where
  "NON_APPLICATION_TAGS =
    [TR_ResponseContext, T_Session, TR_Unresolved0420, T_CallContext, TR_Program, 0x0667, T_End]"

definition decodeSimpleCompressedTableRow :: "bytes \<Rightarrow> nat \<Rightarrow> bytes result" where
  "decodeSimpleCompressedTableRow value declaredRowByteLength =
    (let encodedByteLength = length value in
     if encodedByteLength = 0 then Inl (PlainError ''simple-compressed row is empty'')
     else if declaredRowByteLength < encodedByteLength
     then Inl (PlainError ''simple-compressed row has more encoded bytes than the declared row width'')
     else if encodedByteLength = declaredRowByteLength then Inr value
     else if DEFAULT_MAX_CPIC_FIELD_LENGTH < int declaredRowByteLength
     then Inl (RangeError ''simple-compressed row expands beyond the maximum'')
     else let decoded = replicate declaredRowByteLength (value ! (encodedByteLength - 1))
          in Inr (splice 0 value decoded))"

section \<open>The two passes before the decoder\<close>

fun result_bytes_loop :: "int \<Rightarrow> cpic_field list \<Rightarrow> unit result" where
  "result_bytes_loop valueBytes [] = Inr ()"
| "result_bytes_loop valueBytes (field # fs) =
    (let valueBytes = valueBytes + int (length (cf_value field)) in
     if DEFAULT_MAX_CPIC_FIELD_CHAIN_LENGTH < valueBytes
     then Inl (RangeError ''classic RFC result field bytes exceed the maximum'')
     else result_bytes_loop valueBytes fs)"

definition preflightClassicRfcResultBytes :: "cpic_field list \<Rightarrow> unit result" where
  "preflightClassicRfcResultBytes fs =
    (if DEFAULT_MAX_CPIC_FIELD_COUNT < int (length fs)
     then Inl (RangeError ''classic RFC result field count exceeds the maximum'')
     else result_bytes_loop 0 fs)"

definition is_row :: "cpic_field \<Rightarrow> bool" where
  "is_row field \<longleftrightarrow> cf_tag field = T_TableContent \<or> cf_tag field = T_TableCompr"

text \<open>The rows of one table from the cursor on: their number, their decoded bytes, and the fields behind.\<close>

fun preflight_rows :: "rfc_table_header \<Rightarrow> nat \<Rightarrow> int \<Rightarrow> cpic_field list \<Rightarrow> (nat \<times> int \<times> cpic_field list) result" where
  "preflight_rows header rowCount tableDecodedBytes [] = Inr (rowCount, tableDecodedBytes, [])"
| "preflight_rows header rowCount tableDecodedBytes (row # fs) =
    (if \<not> (rowCount < th_rowCount header \<and> is_row row) then Inr (rowCount, tableDecodedBytes, row # fs)
     else let encodedByteLength = length (cf_value row) in
       if encodedByteLength = 0 then Inl (PlainError ''row is empty'')
       else if th_declaredRowByteLength header < encodedByteLength
       then Inl (PlainError ''row has more bytes than the declared row width'')
       else if cf_tag row = T_TableCompr \<and> encodedByteLength < th_declaredRowByteLength header \<and>
          DEFAULT_MAX_CPIC_FIELD_LENGTH < int (th_declaredRowByteLength header)
       then Inl (RangeError ''simple-compressed row expands beyond the maximum'')
       else preflight_rows header (rowCount + 1)
         (tableDecodedBytes + int (if cf_tag row = T_TableCompr then th_declaredRowByteLength header else encodedByteLength))
         fs)"

definition DEFAULT_MAX_CLASSIC_RFC_TABLE_DECODED_BYTES :: int where
  "DEFAULT_MAX_CLASSIC_RFC_TABLE_DECODED_BYTES = DEFAULT_MAX_CPIC_FIELD_CHAIN_LENGTH"

definition DEFAULT_MAX_CLASSIC_RFC_RESULT_TABLE_DECODED_BYTES :: int where
  "DEFAULT_MAX_CLASSIC_RFC_RESULT_TABLE_DECODED_BYTES = DEFAULT_MAX_CPIC_FIELD_CHAIN_LENGTH"

lemma preflight_rows_shorter:
  "preflight_rows header n b fs = Inr (m, c, rest) \<Longrightarrow> length rest \<le> length fs"
  by (induction header n b fs rule: preflight_rows.induct) (auto simp: Let_def split: if_splits)

function preflight_tables :: "int \<Rightarrow> cpic_field list \<Rightarrow> unit result" where
  "preflight_tables resultDecodedBytes [] = Inr ()"
| "preflight_tables resultDecodedBytes (field # fs) =
    (if cf_tag field \<noteq> T_TableName then preflight_tables resultDecodedBytes fs
     else case fs of
       [] \<Rightarrow> preflight_tables resultDecodedBytes fs
     | headerField # rowFields \<Rightarrow>
         if cf_tag headerField \<noteq> T_TableHeader then preflight_tables resultDecodedBytes fs
         else case decodeParameterName (cf_value field) of
           Inl e \<Rightarrow> Inl e
         | Inr _ \<Rightarrow> (case decodeRfcTableHeader (cf_value headerField) of
             Inl e \<Rightarrow> Inl e
           | Inr header \<Rightarrow> (case preflight_rows header 0 0 rowFields of
               Inl e \<Rightarrow> Inl e
             | Inr (rowCount, tableDecodedBytes, rest) \<Rightarrow>
                 if rowCount \<noteq> th_rowCount header then Inl (PlainError ''declares another number of rows'')
                 else if DEFAULT_MAX_CLASSIC_RFC_TABLE_DECODED_BYTES < tableDecodedBytes
                 then Inl (RangeError ''decoded bytes exceed table limit'')
                 else if DEFAULT_MAX_CLASSIC_RFC_RESULT_TABLE_DECODED_BYTES < resultDecodedBytes + tableDecodedBytes
                 then Inl (RangeError ''decoded table bytes exceed result limit'')
                 else preflight_tables (resultDecodedBytes + tableDecodedBytes) rest)))"
  by pat_completeness auto
termination
  by (relation "measure (length \<circ> snd)") (auto dest!: preflight_rows_shorter)

declare preflight_tables.simps(2) [simp del]

definition preflightClassicRfcTableBytes :: "cpic_field list \<Rightarrow> unit result" where
  "preflightClassicRfcTableBytes fs = preflight_tables 0 fs"

section \<open>The decoder\<close>

text \<open>The data chunks between two xRFC boundaries: the chunks and the fields behind them.\<close>

fun xrfc_chunk_loop :: "int \<Rightarrow> bytes list \<Rightarrow> cpic_field list \<Rightarrow> (bytes list \<times> cpic_field list) result" where
  "xrfc_chunk_loop byteLength chunks [] = Inr (chunks, [])"
| "xrfc_chunk_loop byteLength chunks (field # fs) =
    (if cf_tag field \<noteq> T_XRfcData then Inr (chunks, field # fs)
     else let chunk = cf_value field in
       if length chunk = 0 then Inl (PlainError ''classic RFC xRFC XML data chunk must not be empty'')
       else let byteLength = byteLength + int (length chunk) in
         if \<not> is_safe_integer byteLength \<or> DEFAULT_MAX_CPIC_FIELD_CHAIN_LENGTH < byteLength
         then Inl (RangeError ''classic RFC xRFC XML parameter exceeds the maximum'')
         else xrfc_chunk_loop byteLength (chunks @ [chunk]) fs)"

definition decode_row :: "rfc_table_header \<Rightarrow> cpic_field \<Rightarrow> bytes result" where
  "decode_row header rowField =
    (let encoded = cf_value rowField in
     if cf_tag rowField = T_TableCompr
     then decodeSimpleCompressedTableRow encoded (th_declaredRowByteLength header)
     else if length encoded = 0 then Inl (PlainError ''uncompressed row is empty'')
     else if th_declaredRowByteLength header < length encoded
     then Inl (PlainError ''uncompressed row has more bytes than the declared row width'')
     else Inr encoded)"

text \<open>The row fields the loop consumes with the row each gives; \<open>saw\<close> remembers the kinds of rows seen.\<close>

fun table_row_loop :: "rfc_table_header \<Rightarrow> bytes list \<Rightarrow> bool \<times> bool \<Rightarrow> cpic_field list
    \<Rightarrow> (bytes list \<times> (bool \<times> bool) \<times> cpic_field list) result" where
  "table_row_loop header rows saw [] = Inr (rows, saw, [])"
| "table_row_loop header rows saw (rowField # fs) =
    (if \<not> (length rows < th_rowCount header \<and> is_row rowField) then Inr (rows, saw, rowField # fs)
     else case decode_row header rowField of
       Inl e \<Rightarrow> Inl e
     | Inr row \<Rightarrow> table_row_loop header (rows @ [row])
         (fst saw \<or> cf_tag rowField \<noteq> T_TableCompr, snd saw \<or> cf_tag rowField = T_TableCompr) fs)"

lemma table_row_loop_shorter:
  "table_row_loop header rows saw fs = Inr (rows', saw', rest) \<Longrightarrow> length rest \<le> length fs"
  by (induction header rows saw fs rule: table_row_loop.induct) (auto split: if_splits sum.splits)

lemma xrfc_chunk_loop_shorter:
  "xrfc_chunk_loop n cs fs = Inr (cs', rest) \<Longrightarrow> length rest \<le> length fs"
  by (induction n cs fs rule: xrfc_chunk_loop.induct) (fastforce simp: Let_def split: if_splits)+

fun row_kind :: "bool \<times> bool \<Rightarrow> row_encoding \<times> row_compression" where
  "row_kind (True, True) = (RowsMixed, CompressionMixed)"
| "row_kind (True, False) = (RowsFlat, CompressionNone)"
| "row_kind (False, True) = (RowsStructured, CompressionSimple)"
| "row_kind (False, False) = (RowsEmpty, CompressionEmpty)"

definition table_value :: "js_string \<Rightarrow> rfc_table_header \<Rightarrow> bytes list \<Rightarrow> bool \<times> bool \<Rightarrow> classic_table" where
  "table_value name header rows saw =
    \<lparr>tb_name = name,
     tb_declaredRowByteLength = th_declaredRowByteLength header,
     tb_rowByteLength = (case rows of [] \<Rightarrow> th_declaredRowByteLength header | row # _ \<Rightarrow> length row),
     tb_rowEncoding = fst (row_kind saw),
     tb_rowCompression = snd (row_kind saw),
     tb_rows = rows\<rparr>"

text \<open>A table: its header behind its name, the rows the header declares, and the fields behind them.\<close>

definition decode_table :: "js_string set \<Rightarrow> bytes \<Rightarrow> cpic_field list \<Rightarrow> (classic_table \<times> cpic_field list) result" where
  "decode_table names nameBytes fs =
    rbind (decodeParameterName nameBytes) (\<lambda>name.
    case fs of
      [] \<Rightarrow> Inl (PlainError ''classic RFC table is not followed by its header'')
    | headerField # rowFields \<Rightarrow>
        if cf_tag headerField \<noteq> T_TableHeader
        then Inl (PlainError ''classic RFC table is not followed by its header'')
        else if name \<in> names then Inl (PlainError ''classic RFC response contains duplicate parameter'')
        else rbind (decodeRfcTableHeader (cf_value headerField)) (\<lambda>header.
          rbind (table_row_loop header [] (False, False) rowFields) (\<lambda>(rows, saw, rest).
          if length rows \<noteq> th_rowCount header then Inl (PlainError ''declares another number of rows'')
          else Inr (table_value name header rows saw, rest))))"

definition decode_scalar :: "js_string set \<Rightarrow> bytes \<Rightarrow> cpic_field list \<Rightarrow> ((js_string \<times> bytes) \<times> cpic_field list) result" where
  "decode_scalar names nameBytes fs =
    rbind (decodeParameterName nameBytes) (\<lambda>name.
    case fs of
      [] \<Rightarrow> Inl (PlainError ''classic RFC scalar is not followed by its value'')
    | valueField # rest \<Rightarrow>
        if cf_tag valueField \<noteq> T_ParameterValue
        then Inl (PlainError ''classic RFC scalar is not followed by its value'')
        else if name \<in> names then Inl (PlainError ''classic RFC response contains duplicate parameter'')
        else Inr ((name, cf_value valueField), rest))"

definition decode_xrfc :: "bytes \<Rightarrow> cpic_field list \<Rightarrow> (classic_xrfc \<times> cpic_field list) result" where
  "decode_xrfc opening fs =
    (if length opening \<noteq> 0 then Inl (PlainError ''classic RFC xRFC XML opening boundary must be empty'')
     else rbind (xrfc_chunk_loop 0 [] fs) (\<lambda>(chunks, rest).
       if length chunks = 0 then Inl (PlainError ''classic RFC xRFC XML boundary contains no data chunk'')
       else case rest of
         [] \<Rightarrow> Inl (PlainError ''classic RFC xRFC XML parameter lacks its closing boundary'')
       | closing # rest' \<Rightarrow>
           if cf_tag closing \<noteq> T_XRfcParameter
           then Inl (PlainError ''classic RFC xRFC XML parameter lacks its closing boundary'')
           else if length (cf_value closing) \<noteq> 0
           then Inl (PlainError ''classic RFC xRFC XML closing boundary must be empty'')
           else Inr (\<lparr>xp_value = concat chunks, xp_chunkCount = length chunks\<rparr>, rest')))"

lemma decode_table_shorter: "decode_table names b fs = Inr (t, rest) \<Longrightarrow> length rest \<le> length fs"
  by (cases fs) (auto simp: decode_table_def split: if_splits dest!: table_row_loop_shorter)

lemma decode_scalar_shorter: "decode_scalar names b fs = Inr (v, rest) \<Longrightarrow> length rest \<le> length fs"
  by (cases fs) (auto simp: decode_scalar_def split: if_splits)

lemma decode_xrfc_iff:
  "decode_xrfc b fs = Inr (v, rest) \<longleftrightarrow>
     b = [] \<and> (\<exists>chunks closing. xrfc_chunk_loop 0 [] fs = Inr (chunks, closing # rest) \<and> chunks \<noteq> [] \<and>
       cf_tag closing = T_XRfcParameter \<and> cf_value closing = [] \<and>
       v = \<lparr>xp_value = concat chunks, xp_chunkCount = length chunks\<rparr>)"
proof (cases "xrfc_chunk_loop 0 [] fs")
  case (Inr p)
  obtain chunks rest' where p: "p = (chunks, rest')" by (cases p)
  show ?thesis by (cases rest') (auto simp: decode_xrfc_def Inr p)
qed (auto simp: decode_xrfc_def)

lemma decode_xrfc_shorter: "decode_xrfc b fs = Inr (v, rest) \<Longrightarrow> length rest \<le> length fs"
  by (auto simp: decode_xrfc_iff dest!: xrfc_chunk_loop_shorter)

definition empty_result :: classic_result where
  "empty_result = \<lparr>cr_requestedOutputs = [], cr_scalars = [], cr_tables = [], cr_xrfcParameters = []\<rparr>"

text \<open>The loop over the fields, with the values found so far and the names taken.\<close>

function result_loop :: "classic_result \<Rightarrow> js_string set \<Rightarrow> cpic_field list \<Rightarrow> classic_result result" where
  "result_loop acc names [] = Inr acc"
| "result_loop acc names (field # fs) =
    (let tag = cf_tag field; value = cf_value field in
     if tag \<in> set NON_APPLICATION_TAGS then result_loop acc names fs
     else if tag = T_RequestedOutput
     then (case decodeParameterName value of
         Inl e \<Rightarrow> Inl e
       | Inr name \<Rightarrow> result_loop (acc\<lparr>cr_requestedOutputs := cr_requestedOutputs acc @ [name]\<rparr>) names fs)
     else if tag = T_XRfcData
     then Inl (PlainError ''classic RFC response contains xRFC XML data without an opening boundary'')
     else if tag = T_XRfcParameter
     then (case decode_xrfc value fs of
         Inl e \<Rightarrow> Inl e
       | Inr (parameter, rest) \<Rightarrow>
           result_loop (acc\<lparr>cr_xrfcParameters := cr_xrfcParameters acc @ [parameter]\<rparr>) names rest)
     else if tag = T_ParameterValue
     then Inl (PlainError ''classic RFC response contains a value without a parameter name'')
     else if tag = T_TableHeader \<or> tag = T_TableContent \<or> tag = T_TableCompr
     then Inl (PlainError ''classic RFC response contains a table record without a table name'')
     else if tag = T_ParameterName
     then (case decode_scalar names value fs of
         Inl e \<Rightarrow> Inl e
       | Inr (scalar, rest) \<Rightarrow>
           result_loop (acc\<lparr>cr_scalars := cr_scalars acc @ [scalar]\<rparr>) (insert (fst scalar) names) rest)
     else if tag = T_TableName
     then (case decode_table names value fs of
         Inl e \<Rightarrow> Inl e
       | Inr (table, rest) \<Rightarrow>
           result_loop (acc\<lparr>cr_tables := cr_tables acc @ [table]\<rparr>) (insert (tb_name table) names) rest)
     else Inl (PlainError ''classic RFC response contains unsupported tag''))"
  by pat_completeness auto
termination
  by (relation "measure (length \<circ> snd \<circ> snd)")
    (auto dest: decode_table_shorter decode_scalar_shorter decode_xrfc_shorter)

declare result_loop.simps(2) [simp del]

definition decodeClassicRfcResult :: "cpic_field list \<Rightarrow> classic_result result" where
  "decodeClassicRfcResult fs =
    rbind (preflightClassicRfcResultBytes fs) (\<lambda>_.
    rbind (preflightClassicRfcTableBytes fs) (\<lambda>_.
    result_loop empty_result {} fs))"

end
