(* ===== verification/ClassicRfcGrammar.thy ===== *)
theory ClassicRfcGrammar
  imports ClassicRfc
begin

text \<open>
  The language of replies that \<open>ClassicRfc\<close> accepts, stated without its loops: a reply is a sequence of
  items, each with the fields it occupies and the value it contributes. The decoder accepts exactly the
  sequences of well-formed items with distinct parameter names within the limits, and returns what they
  contribute. The parameter fields that \<open>CpicRequest\<close> writes are such a sequence.
\<close>

datatype reply_item =
    SkippedItem cpic_field
  | OutputItem bytes js_string
  | ScalarItem bytes js_string bytes
  | TableItem bytes js_string bytes rfc_table_header "cpic_field list"
  | XrfcItem "bytes list"

fun item_fields :: "reply_item \<Rightarrow> cpic_field list" where
  "item_fields (SkippedItem f) = [f]"
| "item_fields (OutputItem nb name) = [fld T_RequestedOutput nb]"
| "item_fields (ScalarItem nb name v) = [fld T_ParameterName nb, fld T_ParameterValue v]"
| "item_fields (TableItem nb name hb header rows) = fld T_TableName nb # fld T_TableHeader hb # rows"
| "item_fields (XrfcItem chunks) = fld T_XRfcParameter [] # map (fld T_XRfcData) chunks @ [fld T_XRfcParameter []]"

text \<open>A row: its bytes fit the width, and a compressed row that has to be expanded stays within the
field limit. The row it gives repeats its last byte up to the width.\<close>

definition row_ok :: "rfc_table_header \<Rightarrow> cpic_field \<Rightarrow> bool" where
  "row_ok header f \<longleftrightarrow> is_row f \<and> cf_value f \<noteq> [] \<and> length (cf_value f) \<le> th_declaredRowByteLength header \<and>
     (cf_tag f \<noteq> T_TableCompr \<or> length (cf_value f) = th_declaredRowByteLength header \<or>
      int (th_declaredRowByteLength header) \<le> DEFAULT_MAX_CPIC_FIELD_LENGTH)"

definition row_bytes :: "rfc_table_header \<Rightarrow> cpic_field \<Rightarrow> bytes" where
  "row_bytes header f =
    (if cf_tag f = T_TableCompr
     then cf_value f @ replicate (th_declaredRowByteLength header - length (cf_value f)) (last (cf_value f))
     else cf_value f)"

fun item_ok :: "reply_item \<Rightarrow> bool" where
  "item_ok (SkippedItem f) \<longleftrightarrow> cf_tag f \<in> set NON_APPLICATION_TAGS"
| "item_ok (OutputItem nb name) \<longleftrightarrow> decodeParameterName nb = Inr name"
| "item_ok (ScalarItem nb name v) \<longleftrightarrow> decodeParameterName nb = Inr name"
| "item_ok (TableItem nb name hb header rows) \<longleftrightarrow> decodeParameterName nb = Inr name \<and>
     decodeRfcTableHeader hb = Inr header \<and> length rows = th_rowCount header \<and> list_all (row_ok header) rows"
| "item_ok (XrfcItem chunks) \<longleftrightarrow> chunks \<noteq> [] \<and> list_all (\<lambda>c. c \<noteq> []) chunks \<and>
     int (length (concat chunks)) \<le> DEFAULT_MAX_CPIC_FIELD_CHAIN_LENGTH"

fun item_names :: "reply_item \<Rightarrow> js_string list" where
  "item_names (ScalarItem nb name v) = [name]"
| "item_names (TableItem nb name hb header rows) = [name]"
| "item_names _ = []"

definition rows_seen :: "cpic_field list \<Rightarrow> bool \<times> bool" where
  "rows_seen rows = (list_ex (\<lambda>f. cf_tag f \<noteq> T_TableCompr) rows, list_ex (\<lambda>f. cf_tag f = T_TableCompr) rows)"

fun add_item :: "classic_result \<Rightarrow> reply_item \<Rightarrow> classic_result" where
  "add_item acc (SkippedItem f) = acc"
| "add_item acc (OutputItem nb name) = acc\<lparr>cr_requestedOutputs := cr_requestedOutputs acc @ [name]\<rparr>"
| "add_item acc (ScalarItem nb name v) = acc\<lparr>cr_scalars := cr_scalars acc @ [(name, v)]\<rparr>"
| "add_item acc (TableItem nb name hb header rows) =
     acc\<lparr>cr_tables := cr_tables acc @ [table_value name header (map (row_bytes header) rows) (rows_seen rows)]\<rparr>"
| "add_item acc (XrfcItem chunks) =
     acc\<lparr>cr_xrfcParameters := cr_xrfcParameters acc @ [\<lparr>xp_value = concat chunks, xp_chunkCount = length chunks\<rparr>]\<rparr>"

fun item_table_bytes :: "reply_item \<Rightarrow> nat" where
  "item_table_bytes (TableItem nb name hb header rows) = length (concat (map (row_bytes header) rows))"
| "item_table_bytes _ = 0"

section \<open>The loops of the decoder\<close>

lemma decode_simple_row:
  assumes "v \<noteq> []" and "length v \<le> n" and "length v = n \<or> int n \<le> DEFAULT_MAX_CPIC_FIELD_LENGTH"
  shows "decodeSimpleCompressedTableRow v n = Inr (v @ replicate (n - length v) (last v))"
  using assms by (auto simp: decodeSimpleCompressedTableRow_def splice_def last_conv_nth Let_def)

lemma decode_row_iff: "is_row f \<Longrightarrow> decode_row header f = Inr row \<longleftrightarrow> row_ok header f \<and> row = row_bytes header f"
proof (cases "cf_tag f = T_TableCompr")
  case True
  assume "is_row f"
  show ?thesis
  proof (cases "row_ok header f")
    case True
    then show ?thesis using \<open>cf_tag f = T_TableCompr\<close>
      by (auto simp: decode_row_def row_ok_def row_bytes_def decode_simple_row)
  next
    case False
    then show ?thesis using \<open>cf_tag f = T_TableCompr\<close> \<open>is_row f\<close>
      by (auto simp: decode_row_def row_ok_def decodeSimpleCompressedTableRow_def Let_def split: if_splits)
  qed
qed (auto simp: decode_row_def row_ok_def row_bytes_def Let_def split: if_splits)

lemma table_row_loop_complete:
  "list_all (row_ok header) rs \<Longrightarrow> length rows + length rs = th_rowCount header \<Longrightarrow>
     table_row_loop header rows saw (rs @ rest) =
       Inr (rows @ map (row_bytes header) rs, (fst saw \<or> fst (rows_seen rs), snd saw \<or> snd (rows_seen rs)), rest)"
proof (induction rs arbitrary: rows saw)
  case Nil
  then show ?case by (cases rest) (simp_all add: rows_seen_def)
next
  case (Cons f rs)
  then have "decode_row header f = Inr (row_bytes header f)" using decode_row_iff [of f header] by (simp add: row_ok_def)
  then show ?case using Cons.prems Cons.IH by (simp add: row_ok_def rows_seen_def disj_ac)
qed

lemma table_row_loop_sound:
  "table_row_loop header rows saw fs = Inr (rows', saw', rest) \<Longrightarrow>
     \<exists>rs. fs = rs @ rest \<and> list_all (row_ok header) rs \<and> rows' = rows @ map (row_bytes header) rs \<and>
       saw' = (fst saw \<or> fst (rows_seen rs), snd saw \<or> snd (rows_seen rs))"
proof (induction header rows saw fs rule: table_row_loop.induct)
  case (1 header rows saw)
  then show ?case by (simp add: rows_seen_def)
next
  case (2 header rows saw f fs)
  show ?case
  proof (cases "length rows < th_rowCount header \<and> is_row f")
    case False
    then show ?thesis using "2.prems" by (intro exI [of _ "[]"]) (auto simp: rows_seen_def)
  next
    case True
    then obtain row where row: "decode_row header f = Inr row" using "2.prems" by (auto split: sum.splits)
    then have ok: "row_ok header f" "row = row_bytes header f" using decode_row_iff True by auto
    obtain rs where "fs = rs @ rest" "list_all (row_ok header) rs" "rows' = (rows @ [row]) @ map (row_bytes header) rs"
      "saw' = ((fst saw \<or> cf_tag f \<noteq> T_TableCompr) \<or> fst (rows_seen rs), (snd saw \<or> cf_tag f = T_TableCompr) \<or> snd (rows_seen rs))"
      using "2.IH" [OF _ row] "2.prems" True row by auto
    then show ?thesis using ok by (intro exI [of _ "f # rs"]) (auto simp: rows_seen_def)
  qed
qed

lemma xrfc_chunk_loop_complete:
  "list_all (\<lambda>c. c \<noteq> []) cs \<Longrightarrow> 0 \<le> n \<Longrightarrow> n + int (length (concat cs)) \<le> DEFAULT_MAX_CPIC_FIELD_CHAIN_LENGTH \<Longrightarrow>
   f = fld T_XRfcParameter [] \<Longrightarrow>
     xrfc_chunk_loop n acc (map (fld T_XRfcData) cs @ f # rest) = Inr (acc @ cs, f # rest)"
proof (induction cs arbitrary: n acc)
  case (Cons c cs)
  then have "is_safe_integer (n + int (length c))"
    by (auto simp: is_safe_integer_def max_safe_integer_def cpic_defaults)
  then show ?case using Cons by (simp add: fld_def)
qed (simp add: fld_def)

lemma xrfc_chunk_loop_sound:
  "xrfc_chunk_loop n acc fs = Inr (cs, rest) \<Longrightarrow> n \<le> DEFAULT_MAX_CPIC_FIELD_CHAIN_LENGTH \<Longrightarrow>
     \<exists>cs'. cs = acc @ cs' \<and> fs = map (fld T_XRfcData) cs' @ rest \<and> list_all (\<lambda>c. c \<noteq> []) cs' \<and>
       n + int (length (concat cs')) \<le> DEFAULT_MAX_CPIC_FIELD_CHAIN_LENGTH"
proof (induction n acc fs rule: xrfc_chunk_loop.induct)
  case (2 n acc f fs)
  show ?case
  proof (cases "cf_tag f = T_XRfcData")
    case True
    then have run: "xrfc_chunk_loop (n + int (length (cf_value f))) (acc @ [cf_value f]) fs = Inr (cs, rest)"
      and ok: "cf_value f \<noteq> []" "n + int (length (cf_value f)) \<le> DEFAULT_MAX_CPIC_FIELD_CHAIN_LENGTH"
        "is_safe_integer (n + int (length (cf_value f)))"
      using "2.prems" by (auto simp: Let_def split: if_splits)
    obtain cs' where "cs = (acc @ [cf_value f]) @ cs'" "fs = map (fld T_XRfcData) cs' @ rest"
      "list_all (\<lambda>c. c \<noteq> []) cs'"
      "n + int (length (cf_value f)) + int (length (concat cs')) \<le> DEFAULT_MAX_CPIC_FIELD_CHAIN_LENGTH"
      using "2.IH" [OF _ refl _ refl _ run] True ok by auto
    then show ?thesis using True ok
      by (intro exI [of _ "cf_value f # cs'"]) (simp add: fld_def)
  qed (use 2 in simp)
qed simp

lemmas fld_parts [simp] = fld_def [THEN arg_cong [where f = cf_tag], simplified]
  fld_def [THEN arg_cong [where f = cf_value], simplified]

section \<open>One item\<close>

lemma fld_of_field: "cf_tag f = t \<Longrightarrow> f = fld t (cf_value f)"
  by (simp add: fld_def)

lemma decode_scalar_iff:
  "decode_scalar names nb fs = Inr (v, rest) \<longleftrightarrow>
     (\<exists>name x. decodeParameterName nb = Inr name \<and> fs = fld T_ParameterValue x # rest \<and> name \<notin> names \<and> v = (name, x))"
proof (cases fs)
  case (Cons f fs')
  show ?thesis
    by (auto simp: Cons decode_scalar_def fld_def intro!: exI [of _ "cf_value f"] split: if_splits)
qed (auto simp: decode_scalar_def)

lemma decode_table_iff:
  "decode_table names nb fs = Inr (t, rest) \<longleftrightarrow>
     (\<exists>name hb header rows. decodeParameterName nb = Inr name \<and> fs = fld T_TableHeader hb # rows @ rest \<and>
       name \<notin> names \<and> decodeRfcTableHeader hb = Inr header \<and> length rows = th_rowCount header \<and>
       list_all (row_ok header) rows \<and>
       t = table_value name header (map (row_bytes header) rows) (rows_seen rows))"
  (is "?l \<longleftrightarrow> ?r")
proof
  assume ?l
  then obtain name where name: "decodeParameterName nb = Inr name" by (auto simp: decode_table_def)
  with \<open>?l\<close> obtain f fs' where fs: "fs = f # fs'" by (cases fs) (auto simp: decode_table_def)
  with \<open>?l\<close> name obtain header rows saw where
    h: "cf_tag f = T_TableHeader" "name \<notin> names" "decodeRfcTableHeader (cf_value f) = Inr header"
      "table_row_loop header [] (False, False) fs' = Inr (rows, saw, rest)" "length rows = th_rowCount header"
      "t = table_value name header rows saw"
    by (auto simp: decode_table_def split: if_splits)
  show ?r using table_row_loop_sound [OF h(4)] h name fs
    by (auto intro!: exI [of _ name] exI [of _ "cf_value f"] exI [of _ header] simp: fld_def)
next
  assume ?r
  then show ?l by (auto simp: decode_table_def table_row_loop_complete)
qed

lemma result_loop_item:
  assumes "item_ok i" and "set (item_names i) \<inter> names = {}"
  shows "result_loop acc names (item_fields i @ rest) = result_loop (add_item acc i) (set (item_names i) \<union> names) rest"
proof (cases i)
  case (XrfcItem cs)
  then have "decode_xrfc [] (map (fld T_XRfcData) cs @ fld T_XRfcParameter [] # rest) =
      Inr (\<lparr>xp_value = concat cs, xp_chunkCount = length cs\<rparr>, rest)"
    using assms xrfc_chunk_loop_complete [of cs 0 "fld T_XRfcParameter []" "[]" rest] by (auto simp: decode_xrfc_iff)
  then show ?thesis by (simp add: XrfcItem result_loop.simps(2) Let_def NON_APPLICATION_TAGS_def)
next
  case (TableItem nb name hb header rows)
  then have "decode_table names nb (fld T_TableHeader hb # rows @ rest) =
      Inr (table_value name header (map (row_bytes header) rows) (rows_seen rows), rest)"
    using assms by (auto simp: decode_table_iff)
  then show ?thesis
    by (simp add: TableItem result_loop.simps(2) Let_def NON_APPLICATION_TAGS_def table_value_def)
next
  case (ScalarItem nb name v)
  then have "decode_scalar names nb (fld T_ParameterValue v # rest) = Inr ((name, v), rest)"
    using assms by (auto simp: decode_scalar_iff)
  then show ?thesis by (simp add: ScalarItem result_loop.simps(2) Let_def NON_APPLICATION_TAGS_def)
next
  case (SkippedItem f)
  then show ?thesis using assms by (simp add: result_loop.simps(2) Let_def)
next
  case (OutputItem nb name)
  then show ?thesis using assms by (simp add: result_loop.simps(2) Let_def NON_APPLICATION_TAGS_def)
qed

section \<open>The whole reply\<close>

abbreviation all_fields :: "reply_item list \<Rightarrow> cpic_field list" where
  "all_fields items \<equiv> concat (map item_fields items)"

abbreviation all_names :: "reply_item list \<Rightarrow> js_string list" where
  "all_names items \<equiv> concat (map item_names items)"

lemma result_loop_complete:
  "list_all item_ok items \<Longrightarrow> distinct (all_names items) \<Longrightarrow> set (all_names items) \<inter> names = {} \<Longrightarrow>
     result_loop acc names (all_fields items) = Inr (foldl add_item acc items)"
proof (induction items arbitrary: acc names)
  case (Cons i items)
  have "result_loop acc names (all_fields (i # items)) =
      result_loop (add_item acc i) (set (item_names i) \<union> names) (all_fields items)"
    using Cons.prems result_loop_item [of i names acc "all_fields items"] by auto
  also have "\<dots> = Inr (foldl add_item (add_item acc i) items)" using Cons.prems by (intro Cons.IH) auto
  finally show ?case by simp
qed simp

text \<open>Conversely the first field of an accepted reply starts an item.\<close>

lemma result_loop_step:
  assumes "result_loop acc names (f # fs) = Inr r"
  obtains i rest where "f # fs = item_fields i @ rest" "item_ok i" "distinct (item_names i)"
    "set (item_names i) \<inter> names = {}"
    "result_loop (add_item acc i) (set (item_names i) \<union> names) rest = Inr r" "length rest \<le> length fs"
proof -
  let ?t = "cf_tag f"
  consider "?t \<in> set NON_APPLICATION_TAGS" | "?t = T_RequestedOutput" | "?t = T_XRfcParameter"
    | "?t = T_ParameterName" | "?t = T_TableName"
    using assms by (auto simp: result_loop.simps(2) Let_def split: if_splits)
  then show thesis
  proof cases
    case 1
    then show thesis using assms that [of "SkippedItem f" fs] by (simp add: result_loop.simps(2) Let_def)
  next
    case 2
    then obtain name where "decodeParameterName (cf_value f) = Inr name"
      using assms by (auto simp: result_loop.simps(2) Let_def NON_APPLICATION_TAGS_def split: sum.splits)
    then show thesis using assms 2 that [of "OutputItem (cf_value f) name" fs]
      by (simp add: result_loop.simps(2) Let_def NON_APPLICATION_TAGS_def fld_def)
  next
    case 3
    obtain nb where f: "f = fld T_XRfcParameter nb" using fld_of_field [OF 3] by blast
    obtain v rest where v: "decode_xrfc nb fs = Inr (v, rest)"
      using assms by (auto simp: f result_loop.simps(2) Let_def NON_APPLICATION_TAGS_def split: sum.splits)
    then obtain cs closing where cs: "nb = []" "xrfc_chunk_loop 0 [] fs = Inr (cs, closing # rest)" "cs \<noteq> []"
      "cf_tag closing = T_XRfcParameter" "cf_value closing = []"
      "v = \<lparr>xp_value = concat cs, xp_chunkCount = length cs\<rparr>" by (auto simp: decode_xrfc_iff)
    then have ok: "fs = map (fld T_XRfcData) cs @ closing # rest" "item_ok (XrfcItem cs)" "closing = fld T_XRfcParameter []"
      using xrfc_chunk_loop_sound [OF cs(2)] by (auto simp: cpic_defaults fld_def)
    show thesis using assms cs(1,6) ok v that [of "XrfcItem cs" rest]
      by (simp add: result_loop.simps(2) Let_def NON_APPLICATION_TAGS_def f)
  next
    case 4
    obtain nb where f: "f = fld T_ParameterName nb" using fld_of_field [OF 4] by blast
    obtain v rest where v: "decode_scalar names nb fs = Inr (v, rest)"
      using assms by (auto simp: f result_loop.simps(2) Let_def NON_APPLICATION_TAGS_def split: sum.splits)
    then obtain name x where x: "decodeParameterName nb = Inr name" "fs = fld T_ParameterValue x # rest"
      "name \<notin> names" "v = (name, x)" by (auto simp: decode_scalar_iff)
    show thesis using assms v x that [of "ScalarItem nb name x" rest]
      by (simp add: result_loop.simps(2) Let_def NON_APPLICATION_TAGS_def f)
  next
    case 5
    obtain nb where f: "f = fld T_TableName nb" using fld_of_field [OF 5] by blast
    obtain t rest where t: "decode_table names nb fs = Inr (t, rest)"
      using assms by (auto simp: f result_loop.simps(2) Let_def NON_APPLICATION_TAGS_def split: sum.splits)
    then obtain name hb header rows where x: "decodeParameterName nb = Inr name"
      "fs = fld T_TableHeader hb # rows @ rest" "name \<notin> names" "decodeRfcTableHeader hb = Inr header"
      "length rows = th_rowCount header" "list_all (row_ok header) rows"
      "t = table_value name header (map (row_bytes header) rows) (rows_seen rows)" by (auto simp: decode_table_iff)
    show thesis using assms t x that [of "TableItem nb name hb header rows" rest]
      by (simp add: result_loop.simps(2) Let_def NON_APPLICATION_TAGS_def f table_value_def)
  qed
qed

lemma result_loop_sound:
  "result_loop acc names fs = Inr r \<Longrightarrow>
     \<exists>items. fs = all_fields items \<and> list_all item_ok items \<and> distinct (all_names items) \<and>
       set (all_names items) \<inter> names = {} \<and> r = foldl add_item acc items"
proof (induction fs arbitrary: acc names rule: measure_induct_rule [of length])
  case (less fs)
  show ?case
  proof (cases fs)
    case Nil
    then show ?thesis using less.prems by (intro exI [of _ "[]"]) simp
  next
    case (Cons f fs')
    from less.prems [unfolded Cons] obtain i rest where
      i: "f # fs' = item_fields i @ rest" "item_ok i" "distinct (item_names i)" "set (item_names i) \<inter> names = {}"
        "result_loop (add_item acc i) (set (item_names i) \<union> names) rest = Inr r" "length rest \<le> length fs'"
      by (rule result_loop_step)
    from less.IH [OF _ i(5)] i(6) Cons obtain items where
      "rest = all_fields items" "list_all item_ok items" "distinct (all_names items)"
      "set (all_names items) \<inter> (set (item_names i) \<union> names) = {}" "r = foldl add_item (add_item acc i) items" by auto
    then show ?thesis using i Cons by (intro exI [of _ "i # items"]) auto
  qed
qed

section \<open>The limits\<close>

lemma result_bytes_loop_iff:
  "n \<le> DEFAULT_MAX_CPIC_FIELD_CHAIN_LENGTH \<Longrightarrow> result_bytes_loop n fs = Inr u \<longleftrightarrow>
     n + int (sum_list (map (length \<circ> cf_value) fs)) \<le> DEFAULT_MAX_CPIC_FIELD_CHAIN_LENGTH"
  by (induction n fs rule: result_bytes_loop.induct) (auto simp: Let_def)

lemma length_row_bytes:
  "row_ok header f \<Longrightarrow> length (row_bytes header f) =
     (if cf_tag f = T_TableCompr then th_declaredRowByteLength header else length (cf_value f))"
  by (simp add: row_ok_def row_bytes_def)

lemma preflight_rows_complete:
  "list_all (row_ok header) rs \<Longrightarrow> n + length rs = th_rowCount header \<Longrightarrow>
     preflight_rows header n b (rs @ rest) =
       Inr (th_rowCount header, b + int (length (concat (map (row_bytes header) rs))), rest)"
proof (induction rs arbitrary: n b)
  case Nil
  then show ?case by (cases rest) simp_all
next
  case (Cons f rs)
  then have "row_ok header f" by simp
  then have "\<not> (cf_tag f = T_TableCompr \<and> length (cf_value f) < th_declaredRowByteLength header \<and>
      DEFAULT_MAX_CPIC_FIELD_LENGTH < int (th_declaredRowByteLength header))" "is_row f" "cf_value f \<noteq> []"
    "\<not> th_declaredRowByteLength header < length (cf_value f)"
    by (auto simp: row_ok_def)
  then show ?case using Cons.prems Cons.IH length_row_bytes [OF \<open>row_ok header f\<close>] by (simp add: Let_def)
qed

lemma preflight_skip: "cf_tag f \<noteq> T_TableName \<Longrightarrow> preflight_tables n (f # fs) = preflight_tables n fs"
  by (simp add: preflight_tables.simps(2))

lemma preflight_skip_chunks: "preflight_tables n (map (fld T_XRfcData) cs @ fs) = preflight_tables n fs"
  by (induction cs) (simp_all add: preflight_skip)

lemma preflight_item:
  assumes "item_ok i" and "0 \<le> n" and "n \<le> DEFAULT_MAX_CPIC_FIELD_CHAIN_LENGTH"
  shows "preflight_tables n (item_fields i @ rest) = Inr u \<longleftrightarrow>
     n + int (item_table_bytes i) \<le> DEFAULT_MAX_CPIC_FIELD_CHAIN_LENGTH \<and>
     preflight_tables (n + int (item_table_bytes i)) rest = Inr u"
proof (cases i)
  case (TableItem nb name hb header rows)
  then show ?thesis using assms
    by (auto simp: preflight_tables.simps(2) preflight_rows_complete DEFAULT_MAX_CLASSIC_RFC_TABLE_DECODED_BYTES_def
        DEFAULT_MAX_CLASSIC_RFC_RESULT_TABLE_DECODED_BYTES_def)
next
  case (SkippedItem f)
  then have "cf_tag f \<noteq> T_TableName" using assms by (auto simp: NON_APPLICATION_TAGS_def)
  then show ?thesis using assms SkippedItem by (simp add: preflight_skip)
qed (use assms in \<open>simp_all add: preflight_skip preflight_skip_chunks\<close>)

lemma preflight_items:
  "list_all item_ok items \<Longrightarrow> 0 \<le> n \<Longrightarrow> n \<le> DEFAULT_MAX_CPIC_FIELD_CHAIN_LENGTH \<Longrightarrow>
     preflight_tables n (all_fields items) = Inr u \<longleftrightarrow>
       n + int (sum_list (map item_table_bytes items)) \<le> DEFAULT_MAX_CPIC_FIELD_CHAIN_LENGTH"
proof (induction items arbitrary: n)
  case (Cons i items)
  then show ?case using preflight_item [of i n "all_fields items" u] by (fastforce simp: algebra_simps)
qed simp

definition reply_within_limits :: "reply_item list \<Rightarrow> bool" where
  "reply_within_limits items \<longleftrightarrow>
     int (length (all_fields items)) \<le> DEFAULT_MAX_CPIC_FIELD_COUNT \<and>
     int (sum_list (map (length \<circ> cf_value) (all_fields items))) \<le> DEFAULT_MAX_CPIC_FIELD_CHAIN_LENGTH \<and>
     int (sum_list (map item_table_bytes items)) \<le> DEFAULT_MAX_CPIC_FIELD_CHAIN_LENGTH"

definition reply_of :: "reply_item list \<Rightarrow> cpic_field list \<Rightarrow> bool" where
  "reply_of items fs \<longleftrightarrow> fs = all_fields items \<and> list_all item_ok items \<and> distinct (all_names items) \<and>
     reply_within_limits items"

lemma preflight_result_bytes_iff:
  "preflightClassicRfcResultBytes fs = Inr u \<longleftrightarrow> int (length fs) \<le> DEFAULT_MAX_CPIC_FIELD_COUNT \<and>
     int (sum_list (map (length \<circ> cf_value) fs)) \<le> DEFAULT_MAX_CPIC_FIELD_CHAIN_LENGTH"
proof -
  have "(0 :: int) \<le> DEFAULT_MAX_CPIC_FIELD_CHAIN_LENGTH" by (simp add: cpic_defaults)
  then show ?thesis using result_bytes_loop_iff [of 0 fs u] by (auto simp: preflightClassicRfcResultBytes_def)
qed

lemma decode_result_items: "decodeClassicRfcResult fs = Inr r \<longleftrightarrow> (\<exists>items. reply_of items fs \<and> r = foldl add_item empty_result items)"
  (is "?l \<longleftrightarrow> ?r")
proof -
  have max: "(0 :: int) \<le> DEFAULT_MAX_CPIC_FIELD_CHAIN_LENGTH" by (simp add: cpic_defaults)
  show ?thesis
  proof
    assume ?l
    then have h: "preflightClassicRfcResultBytes fs = Inr ()" "preflight_tables 0 fs = Inr ()" "result_loop empty_result {} fs = Inr r"
      by (auto simp: decodeClassicRfcResult_def preflightClassicRfcTableBytes_def)
    from result_loop_sound [OF h(3)] obtain items where i: "fs = all_fields items" "list_all item_ok items"
      "distinct (all_names items)" "r = foldl add_item empty_result items" by auto
    then have "reply_within_limits items"
      using h(1,2) preflight_items [OF i(2) order_refl max] unfolding reply_within_limits_def preflight_result_bytes_iff by auto
    then show ?r using i unfolding reply_of_def by blast
  next
    assume ?r
    then obtain items where i: "fs = all_fields items" "list_all item_ok items" "distinct (all_names items)"
      "reply_within_limits items" "r = foldl add_item empty_result items" unfolding reply_of_def by blast
    have "preflightClassicRfcResultBytes fs = Inr ()" "preflight_tables 0 fs = Inr ()"
      using i(4) preflight_items [OF i(2) order_refl max] unfolding reply_within_limits_def preflight_result_bytes_iff i(1) by auto
    then show ?l using result_loop_complete [OF i(2,3), of "{}" empty_result] i(1,5)
      by (simp add: decodeClassicRfcResult_def preflightClassicRfcTableBytes_def)
  qed
qed

text \<open>C16. The decoder of classic RFC replies accepts exactly the sequences of well-formed items - skipped
control fields, requested outputs, name and value of a scalar, name, header and the declared number of rows
of a table, XML chunks between two boundaries - with distinct parameter names and within the limits on
fields, bytes and expanded table bytes; what it returns is what the items contribute, in their order.\<close>

theorem classic_result_grammar:
  "(decodeClassicRfcResult fs = Inr r) = (\<exists>items. reply_of items fs \<and> r = foldl add_item empty_result items)"
  by (rule decode_result_items)

section \<open>Names and headers that are read back\<close>

definition clean_name :: "js_string \<Rightarrow> bool" where
  "clean_name s \<longleftrightarrow> s \<noteq> [] \<and> \<not> has_lone_surrogate s \<and> last s \<noteq> space_unit \<and>
     \<not> list_ex (\<lambda>c. unat c \<le> 0x1f \<or> unat c = 0x7f) s"

lemma decode_clean_name: "clean_name s \<Longrightarrow> decodeParameterName (utf16le s) = Inr s"
  by (auto simp: clean_name_def decodeParameterName_def decodeAbapChar_def decodeAbapCharacterBytes_def strip_trailing_same
      Let_def)

lemma decode_table_header:
  assumes "w < 4294967296" and "n < 4294967296"
  shows "decodeRfcTableHeader (be_encode 4 w @ be_encode 4 n) = Inr \<lparr>th_declaredRowByteLength = w, th_rowCount = n\<rparr>"
  using assms by (simp add: decodeRfcTableHeader_def reader_new_on reader_fields)

section \<open>What an accepted reply guarantees\<close>

fun item_tables :: "reply_item \<Rightarrow> classic_table list" where
  "item_tables (TableItem nb name hb header rows) = [table_value name header (map (row_bytes header) rows) (rows_seen rows)]"
| "item_tables _ = []"

fun item_scalars :: "reply_item \<Rightarrow> (js_string \<times> bytes) list" where
  "item_scalars (ScalarItem nb name v) = [(name, v)]"
| "item_scalars _ = []"

lemma add_items_parts:
  "cr_tables (foldl add_item acc items) = cr_tables acc @ concat (map item_tables items)"
  "cr_scalars (foldl add_item acc items) = cr_scalars acc @ concat (map item_scalars items)"
proof (induction items arbitrary: acc)
  case (Cons i items)
  { case 1 show ?case by (cases i) (simp_all add: Cons.IH) }
  { case 2 show ?case by (cases i) (simp_all add: Cons.IH) }
qed simp_all

definition table_wf :: "classic_table \<Rightarrow> bool" where
  "table_wf t \<longleftrightarrow> list_all (\<lambda>row. row \<noteq> [] \<and> length row \<le> tb_declaredRowByteLength t \<and>
       (tb_rowCompression t = CompressionSimple \<longrightarrow> length row = tb_declaredRowByteLength t)) (tb_rows t) \<and>
     (tb_rows t = [] \<longleftrightarrow> tb_rowCompression t = CompressionEmpty)"

lemma item_table_wf: "item_ok i \<Longrightarrow> t \<in> set (item_tables i) \<Longrightarrow> table_wf t"
proof (cases i)
  case (TableItem nb name hb header rows)
  assume "item_ok i" "t \<in> set (item_tables i)"
  then have t: "t = table_value name header (map (row_bytes header) rows) (rows_seen rows)"
    and ok: "list_all (row_ok header) rows" using TableItem by auto
  have simple: "cf_tag f = T_TableCompr" if "f \<in> set rows" "\<not> fst (rows_seen rows)" for f
    using that by (auto simp: rows_seen_def list_ex_iff)
  have "rows = [] \<longleftrightarrow> rows_seen rows = (False, False)" by (cases rows) (auto simp: rows_seen_def)
  then have "rows = [] \<longleftrightarrow> tb_rowCompression t = CompressionEmpty"
    unfolding t by (cases "rows_seen rows" rule: row_kind.cases) (auto simp: table_value_def)
  moreover have "\<not> fst (rows_seen rows)" if "tb_rowCompression t = CompressionSimple"
    using that unfolding t by (cases "rows_seen rows" rule: row_kind.cases) (auto simp: table_value_def)
  moreover have "row_bytes header f \<noteq> []" "length (row_bytes header f) \<le> th_declaredRowByteLength header"
    if "f \<in> set rows" for f
    using that ok by (auto simp: list_all_iff row_ok_def row_bytes_def)
  ultimately show ?thesis using ok simple unfolding t table_wf_def
    by (auto simp: table_value_def list_all_iff length_row_bytes)
qed auto

lemma item_table_length: "sum_list (map (\<lambda>t. length (concat (tb_rows t))) (item_tables i)) = item_table_bytes i"
  by (cases i) (simp_all add: table_value_def)

lemma item_value_names: "map fst (item_scalars i) @ map tb_name (item_tables i) = item_names i"
  by (cases i) (simp_all add: table_value_def)

lemma sum_item_tables:
  "sum_list (map (\<lambda>t. length (concat (tb_rows t))) (concat (map item_tables items))) = sum_list (map item_table_bytes items)"
  by (induction items) (simp_all add: item_table_length del: length_concat)

lemma all_value_names: "set (map fst (concat (map item_scalars items))) \<union> set (map tb_name (concat (map item_tables items))) =
    set (all_names items)"
  using item_value_names by (fastforce simp: set_concat simp flip: item_value_names)

lemma value_names_distinct:
  "distinct (all_names items) \<Longrightarrow>
     distinct (map fst (concat (map item_scalars items)) @ map tb_name (concat (map item_tables items)))"
proof (induction items)
  case (Cons i items)
  define names tables where parts: "names = map fst (concat (map item_scalars items))"
    "tables = map tb_name (concat (map item_tables items))"
  have "distinct (names @ tables)" using Cons unfolding parts by auto
  moreover have "set (item_names i) \<inter> (set names \<union> set tables) = {}"
    using Cons.prems all_value_names [of items] unfolding parts by auto
  ultimately have "distinct (map fst (item_scalars i) @ names @ map tb_name (item_tables i) @ tables)"
    using item_value_names [of i] by (cases i) auto
  then show ?case unfolding parts by simp
qed simp

text \<open>An accepted reply is safe to hand on: no parameter name occurs twice among its scalars and tables,
every row is non-empty and no wider than the declared width (exactly that wide in a table of compressed rows),
and the rows of all tables together, expanded, stay within 256 MiB - a compressed reply cannot make the
client allocate more.\<close>

theorem classic_result_bounded:
  assumes "decodeClassicRfcResult fs = Inr r"
  shows "distinct (map fst (cr_scalars r) @ map tb_name (cr_tables r)) \<and>
    list_all table_wf (cr_tables r) \<and>
    sum_list (map (\<lambda>t. length (concat (tb_rows t))) (cr_tables r)) \<le> 268435456"
proof -
  from assms obtain items where "reply_of items fs" and r: "r = foldl add_item empty_result items"
    by (auto simp: decode_result_items)
  then have i: "list_all item_ok items" "distinct (all_names items)"
    "int (sum_list (map item_table_bytes items)) \<le> 268435456"
    unfolding reply_of_def reply_within_limits_def cpic_defaults by simp_all
  have t: "cr_tables r = concat (map item_tables items)" "cr_scalars r = concat (map item_scalars items)"
    by (simp_all add: r add_items_parts empty_result_def)
  have "list_all table_wf (cr_tables r)"
    using i(1) item_table_wf unfolding t by (fastforce simp: list_all_iff)
  moreover have "sum_list (map (\<lambda>t. length (concat (tb_rows t))) (cr_tables r)) \<le> 268435456"
    using i(3) unfolding t sum_item_tables by linarith
  ultimately show ?thesis using value_names_distinct [OF i(2)] unfolding t by blast
qed

theorem classic_result_bounded_witness:
  "sum_list (map (\<lambda>t. length (concat (tb_rows t)))
     [table_value (units ''T'') \<lparr>th_declaredRowByteLength = 3, th_rowCount = 1\<rparr> [[7, 7, 7]] (False, True)]) \<le> 268435456"
proof -
  have name: "clean_name [0x54]"
    by (simp add: clean_name_def units_def space_unit_def is_high_surrogate_def is_low_surrogate_def)
  have "decodeClassicRfcResult [fld T_TableName (utf16le (units ''T'')), fld T_TableHeader (be_encode 4 3 @ be_encode 4 1),
      fld T_TableCompr [7]] = Inr (empty_result\<lparr>cr_tables := [table_value (units ''T'')
        \<lparr>th_declaredRowByteLength = 3, th_rowCount = 1\<rparr> [[7, 7, 7]] (False, True)]\<rparr>)"
    unfolding decode_result_items
    by (intro exI [of _ "[TableItem (utf16le (units ''T'')) (units ''T'') (be_encode 4 3 @ be_encode 4 1)
          \<lparr>th_declaredRowByteLength = 3, th_rowCount = 1\<rparr> [fld T_TableCompr [7]]]"])
      (simp add: reply_of_def reply_within_limits_def cpic_defaults row_ok_def is_row_def row_bytes_def rows_seen_def
        decode_table_header decode_clean_name [OF name] empty_result_def units_def numeral_2_eq_2 numeral_3_eq_3)
  from classic_result_bounded [OF this] show ?thesis by simp
qed

end
