(* ===== verification/ClassicRfcSent.thy ===== *)
theory ClassicRfcSent
  imports ClassicRfcGrammar
begin

text \<open>
  The two ends of the classic protocol together: the parameter fields that the request writer of
  \<open>CpicRequest\<close> emits are, read by the reply decoder of \<open>ClassicRfc\<close>, the parameters of the caller.
\<close>
section \<open>The parameters of a request are a reply\<close>

definition sent_table :: "cpic_table \<Rightarrow> classic_table" where
  "sent_table t = table_value (ct_name t)
     \<lparr>th_declaredRowByteLength = nat (ct_rowByteLength t), th_rowCount = length (ct_rows t)\<rparr>
     (ct_rows t) (False, ct_rows t \<noteq> [])"

definition sent_xrfc :: "js_string \<times> bytes \<Rightarrow> classic_xrfc" where
  "sent_xrfc p = \<lparr>xp_value = snd p, xp_chunkCount = length (xrfc_chunks (snd p))\<rparr>"

definition sent_result :: "cpic_cut_input \<Rightarrow> classic_result" where
  "sent_result input =
    \<lparr>cr_requestedOutputs = cu_requestedOutputs input, cr_scalars = cu_imports input,
     cr_tables = map sent_table (cu_tables input), cr_xrfcParameters = map sent_xrfc (cu_xrfcParameters input)\<rparr>"

definition output_item :: "js_string \<Rightarrow> reply_item" where
  "output_item s = OutputItem (utf16le s) s"

definition import_item :: "js_string \<times> bytes \<Rightarrow> reply_item" where
  "import_item p = ScalarItem (utf16le (fst p)) (fst p) (snd p)"

definition table_item :: "cpic_table \<Rightarrow> reply_item" where
  "table_item t = TableItem (utf16le (ct_name t)) (ct_name t)
     (be_encode 4 (nat (ct_rowByteLength t)) @ be_encode 4 (length (ct_rows t)))
     \<lparr>th_declaredRowByteLength = nat (ct_rowByteLength t), th_rowCount = length (ct_rows t)\<rparr>
     (map (fld T_TableCompr) (ct_rows t))"

definition xrfc_item :: "js_string \<times> bytes \<Rightarrow> reply_item" where
  "xrfc_item p = XrfcItem (map cf_value (xrfc_chunks (snd p)))"

lemmas sent_items = output_item_def import_item_def table_item_def xrfc_item_def

lemma table_rows_fields:
  "table_rows w rows = Inr fs \<longleftrightarrow> list_all (\<lambda>row. int (length row) = w) rows \<and> fs = map (fld T_TableCompr) rows"
  by (induction rows arbitrary: fs) auto

lemma chunk_fields: "map (fld T_XRfcData) (map cf_value (xrfc_chunks v)) = xrfc_chunks v"
  using xrfc_chunks_concat [of v] by (auto simp: list_all_iff fld_def intro!: map_idI)

lemma sent_output: "output_field s = Inr fs \<Longrightarrow> clean_name s \<Longrightarrow> fs = item_fields (output_item s) \<and> item_ok (output_item s)"
  by (auto simp: output_field_def output_item_def unicode_value decode_clean_name dest: unicode_value)

lemma sent_import: "import_fields p = Inr fs \<Longrightarrow> clean_name (fst p) \<Longrightarrow> fs = item_fields (import_item p) \<and> item_ok (import_item p)"
  by (auto simp: import_fields_def import_item_def decode_clean_name dest: unicode_value)

lemma sent_table_rows:
  "table_fields t = Inr fs \<Longrightarrow> clean_name (ct_name t) \<Longrightarrow>
     fs = item_fields (table_item t) \<and> item_ok (table_item t) \<and>
     item_table_bytes (table_item t) = length (concat (ct_rows t)) \<and>
     item_tables (table_item t) = [sent_table t]"
proof -
  assume "table_fields t = Inr fs" and clean: "clean_name (ct_name t)"
  then obtain n rows where b: "0 \<le> ct_rowByteLength t" "ct_rowByteLength t \<le> 0xffffffff" "length (ct_rows t) \<le> 0xffffffff"
      "ct_rows t = [] \<or> ct_rowByteLength t \<noteq> 0" "cpic_unicode (ct_name t) 30 = Inr n"
      "table_rows (ct_rowByteLength t) (ct_rows t) = Inr rows"
    and fs: "fs = fld T_TableName n # fld T_TableHeader (be_encode 4 (nat (ct_rowByteLength t)) @ be_encode 4 (length (ct_rows t))) # rows"
    by (auto simp: table_fields_def split: if_splits)
  let ?h = "\<lparr>th_declaredRowByteLength = nat (ct_rowByteLength t), th_rowCount = length (ct_rows t)\<rparr>"
  have len: "length row = nat (ct_rowByteLength t)" if "row \<in> set (ct_rows t)" for row
    using that b(6) by (auto simp: table_rows_fields list_all_iff)
  have same: "row_bytes ?h (fld T_TableCompr row) = row" if "row \<in> set (ct_rows t)" for row
    using len [OF that] by (simp add: row_bytes_def)
  then have rows: "map (row_bytes ?h) (map (fld T_TableCompr) (ct_rows t)) = ct_rows t"
    by (simp add: map_idI)
  have "row_ok ?h (fld T_TableCompr row)" if "row \<in> set (ct_rows t)" for row
    using len [OF that] b(1,4) that by (auto simp: row_ok_def is_row_def)
  moreover have "rows_seen (map (fld T_TableCompr) (ct_rows t)) = (False, ct_rows t \<noteq> [])"
    by (cases "ct_rows t") (auto simp: rows_seen_def list_ex_iff)
  moreover have "decodeRfcTableHeader (be_encode 4 (nat (ct_rowByteLength t)) @ be_encode 4 (length (ct_rows t))) = Inr ?h"
    using b(2,3) by (intro decode_table_header) auto
  ultimately show ?thesis
    using fs b(6) clean unicode_value [OF b(5)] rows
    by (simp add: table_item_def sent_table_def table_rows_fields decode_clean_name list_all_iff del: map_map)
qed

lemma sent_xrfc_chunks:
  "xrfc_fields p = Inr fs \<Longrightarrow> length (snd p) \<le> 268435456 \<Longrightarrow> fs = item_fields (xrfc_item p) \<and> item_ok (xrfc_item p)"
proof -
  assume "xrfc_fields p = Inr fs" and small: "length (snd p) \<le> 268435456"
  then have fs: "fs = fld T_XRfcParameter [] # xrfc_chunks (snd p) @ [fld T_XRfcParameter []]" and "snd p \<noteq> []"
    by (auto simp: xrfc_fields_def split: if_splits)
  moreover from this have "xrfc_chunks (snd p) \<noteq> []" by (subst xrfc_chunks.simps) simp
  ultimately show ?thesis
    using xrfc_chunks_concat [of "snd p"] small chunk_fields [of "snd p"]
    by (auto simp: xrfc_item_def cpic_defaults list_all_iff)
qed

lemma sent_list:
  assumes "map_result f xs = Inr ys" and "\<And>x y. x \<in> set xs \<Longrightarrow> f x = Inr y \<Longrightarrow> y = item_fields (g x) \<and> item_ok (g x)"
  shows "concat ys = all_fields (map g xs) \<and> list_all item_ok (map g xs)"
  using assms
proof (induction xs arbitrary: ys)
  case (Cons x xs)
  then obtain y ys' where "f x = Inr y" "map_result f xs = Inr ys'" "ys = y # ys'" by auto
  then show ?case using Cons.IH [of ys'] Cons.prems(2) [of x y] Cons.prems(2) by auto
qed simp

lemma foldl_outputs: "foldl add_item acc (map output_item xs) = acc\<lparr>cr_requestedOutputs := cr_requestedOutputs acc @ xs\<rparr>"
  by (induction xs arbitrary: acc) (simp_all add: output_item_def)

lemma foldl_imports: "foldl add_item acc (map import_item xs) = acc\<lparr>cr_scalars := cr_scalars acc @ xs\<rparr>"
  by (induction xs arbitrary: acc) (simp_all add: import_item_def)

lemma foldl_tables:
  "list_all (\<lambda>t. item_tables (table_item t) = [sent_table t]) xs \<Longrightarrow>
     foldl add_item acc (map table_item xs) = acc\<lparr>cr_tables := cr_tables acc @ map sent_table xs\<rparr>"
  by (induction xs arbitrary: acc) (simp_all add: table_item_def)

lemma foldl_xrfc: "foldl add_item acc (map xrfc_item xs) = acc\<lparr>cr_xrfcParameters := cr_xrfcParameters acc @ map sent_xrfc xs\<rparr>"
  by (induction xs arbitrary: acc) (simp_all add: xrfc_item_def sent_xrfc_def xrfc_chunks_concat)

text \<open>The sizes: what the items hold is not more than what their fields hold.\<close>

abbreviation value_bytes :: "cpic_field list \<Rightarrow> nat" where
  "value_bytes fs \<equiv> sum_list (map (length \<circ> cf_value) fs)"

lemma value_bytes_member: "f \<in> set fss \<Longrightarrow> value_bytes f \<le> value_bytes (concat fss)"
  by (induction fss) auto

lemma value_bytes_rows: "value_bytes (map (fld t) rows) = length (concat rows)"
  by (induction rows) simp_all

lemma sum_list_le: "list_all (\<lambda>i. f i \<le> (g i :: nat)) xs \<Longrightarrow> sum_list (map f xs) \<le> sum_list (map g xs)"
  by (induction xs) auto

lemma value_bytes_items: "value_bytes (all_fields items) = sum_list (map (value_bytes \<circ> item_fields) items)"
  by (induction items) simp_all

definition cut_items :: "cpic_cut_input \<Rightarrow> reply_item list" where
  "cut_items input = map output_item (cu_requestedOutputs input) @ map import_item (cu_imports input) @
     map table_item (cu_tables input) @ map xrfc_item (cu_xrfcParameters input)"

lemma cut_items_names: "all_names (cut_items input) = map fst (cu_imports input) @ map ct_name (cu_tables input)"
proof -
  have "all_names (map output_item os) = []" for os by (induction os) (simp_all add: output_item_def)
  moreover have "all_names (map import_item ims) = map fst ims" for ims by (induction ims) (simp_all add: import_item_def)
  moreover have "all_names (map table_item ts) = map ct_name ts" for ts by (induction ts) (simp_all add: table_item_def)
  moreover have "all_names (map xrfc_item xs) = []" for xs by (induction xs) (simp_all add: xrfc_item_def)
  ultimately show ?thesis by (simp only: cut_items_def map_append concat_append append_Nil append_Nil2)
qed

lemma xrfc_small:
  assumes "map_result xrfc_fields ps = Inr xs" and "p \<in> set ps"
  shows "length (snd p) \<le> value_bytes (concat xs)"
  using assms
proof (induction ps arbitrary: xs)
  case (Cons q ps)
  then obtain y ys where y: "xrfc_fields q = Inr y" "map_result xrfc_fields ps = Inr ys" "xs = y # ys" by auto
  have "value_bytes y = length (snd q)" if "q = p"
  proof -
    have "y = fld T_XRfcParameter [] # xrfc_chunks (snd q) @ [fld T_XRfcParameter []]"
      using y(1) by (auto simp: xrfc_fields_def split: if_splits)
    then have "value_bytes y = length (concat (map cf_value (xrfc_chunks (snd q))))" by (simp add: length_concat)
    then show ?thesis using xrfc_chunks_concat [of "snd q"] by simp
  qed
  then show ?case using Cons.IH [OF y(2)] Cons.prems(2) unfolding y(3) by (cases "q = p") (auto simp: o_def)
qed simp

lemma cut_items_bytes:
  assumes "list_all (\<lambda>t. item_tables (table_item t) = [sent_table t] \<and>
      item_table_bytes (table_item t) = length (concat (ct_rows t))) (cu_tables input)"
  shows "list_all (\<lambda>i. item_table_bytes i \<le> (value_bytes \<circ> item_fields) i) (cut_items input)"
proof -
  have "length (concat (ct_rows t)) \<le> value_bytes (item_fields (table_item t))" for t
    using value_bytes_rows [of T_TableCompr "ct_rows t"] by (simp add: table_item_def)
  then show ?thesis using assms by (auto simp: cut_items_def list_all_iff output_item_def import_item_def xrfc_item_def)
qed

text \<open>C17. What a CUT request carries is what a classic reply carries: the parameter fields the request
writer emits for a caller's outputs, imports, tables and xRFC documents are decoded to exactly these
parameters, rows and documents, provided that every output, import and table name is not empty, does not end in a
blank and has no control character and no lone surrogate (the writer accepts names that end in blanks or have control
characters, of which the reader strips the former and refuses the latter), that the import and table names are distinct, and that the fields number at most 100000 and carry at most
256 MiB, the limits of the decoder.\<close>

theorem classic_request_read_back:
  assumes "cut_fields input = Inr fs"
    and "distinct (map fst (cu_imports input) @ map ct_name (cu_tables input))"
    and "list_all clean_name (cu_requestedOutputs input @ map fst (cu_imports input) @ map ct_name (cu_tables input))"
    and "length fs \<le> 100000" and "sum_list (map (length \<circ> cf_value) fs) \<le> 268435456"
  shows "decodeClassicRfcResult fs = Inr (sent_result input)"
proof -
  from assms(1) obtain os ims ts xs where parts:
    "map_result output_field (cu_requestedOutputs input) = Inr os"
    "map_result import_fields (cu_imports input) = Inr ims"
    "map_result table_fields (cu_tables input) = Inr ts"
    "map_result xrfc_fields (cu_xrfcParameters input) = Inr xs"
    and fs: "fs = concat os @ concat ims @ concat ts @ concat xs"
    unfolding cut_fields_def by auto
  have o: "concat os = all_fields (map output_item (cu_requestedOutputs input)) \<and>
      list_all item_ok (map output_item (cu_requestedOutputs input))"
    using assms(3) by (intro sent_list [OF parts(1)] sent_output) (auto simp: list_all_iff)
  have i: "concat ims = all_fields (map import_item (cu_imports input)) \<and> list_all item_ok (map import_item (cu_imports input))"
    using assms(3) by (intro sent_list [OF parts(2)] sent_import) (auto simp: list_all_iff)
  have clean: "clean_name (ct_name t)" if "t \<in> set (cu_tables input)" for t
    using assms(3) that by (auto simp: list_all_iff)
  have t: "concat ts = all_fields (map table_item (cu_tables input)) \<and> list_all item_ok (map table_item (cu_tables input))"
    using clean sent_table_rows by (intro sent_list [OF parts(3)]) blast
  have small: "length (snd p) \<le> 268435456" if "p \<in> set (cu_xrfcParameters input)" for p
    using xrfc_small [OF parts(4) that] assms(5) by (simp add: fs)
  have x: "concat xs = all_fields (map xrfc_item (cu_xrfcParameters input)) \<and> list_all item_ok (map xrfc_item (cu_xrfcParameters input))"
    using small by (intro sent_list [OF parts(4)] sent_xrfc_chunks) auto
  have fields: "fs = all_fields (cut_items input)" "list_all item_ok (cut_items input)"
    using o i t x by (simp_all add: fs cut_items_def)
  have tables: "list_all (\<lambda>t. item_tables (table_item t) = [sent_table t] \<and>
      item_table_bytes (table_item t) = length (concat (ct_rows t))) (cu_tables input)"
    using map_result_all [OF parts(3)] clean sent_table_rows by (fastforce simp: list_all_iff)
  have "sum_list (map item_table_bytes (cut_items input)) \<le> value_bytes fs"
    unfolding fields(1) value_bytes_items using tables by (intro sum_list_le) (rule cut_items_bytes)
  then have "reply_within_limits (cut_items input)"
    using assms(4,5) unfolding reply_within_limits_def cpic_defaults fields(1) [symmetric] by linarith
  then have "reply_of (cut_items input) fs"
    using fields assms(2) unfolding reply_of_def cut_items_names by blast
  moreover have "foldl add_item empty_result (cut_items input) = sent_result input"
    using tables by (simp add: cut_items_def foldl_outputs foldl_imports foldl_tables foldl_xrfc sent_result_def
        empty_result_def list_all_iff)
  ultimately show ?thesis by (auto simp: decode_result_items)
qed

theorem classic_request_read_back_witness:
  "decodeClassicRfcResult [fld T_RequestedOutput (utf16le [0x41]), fld T_ParameterName (utf16le [0x42]),
     fld T_ParameterValue [1, 2, 3]] = Inr \<lparr>cr_requestedOutputs = [[0x41]], cr_scalars = [([0x42], [1, 2, 3])],
       cr_tables = [], cr_xrfcParameters = []\<rparr>"
proof -
  define input where "input = \<lparr>cu_functionName = [0x52, 0x46, 0x43], cu_requestedOutputs = [[0x41]],
     cu_imports = [([0x42], [1, 2, 3])], cu_tables = [], cu_xrfcParameters = [], cu_kernelRelease = None,
     cu_maximumRfcPacketSize = None\<rparr>"
  have names: "clean_name [0x41]" "clean_name [0x42]"
    by (simp_all add: clean_name_def space_unit_def is_high_surrogate_def is_low_surrogate_def)
  have "cut_fields input = Inr [fld T_RequestedOutput (utf16le [0x41]), fld T_ParameterName (utf16le [0x42]),
      fld T_ParameterValue [1, 2, 3]]"
    by (simp add: cut_fields_def input_def output_field_def import_fields_def cpic_unicode_def is_high_surrogate_def
        is_low_surrogate_def del: rbind_eq_Inr)
  from classic_request_read_back [OF this] show ?thesis
    using names by (simp add: input_def sent_result_def)
qed

end
