(* ===== verification/RfcFunint.thy ===== *)
theory RfcFunint
  imports ClassicRfc
begin

text \<open>
  The rows of the function interface (RFC_FUNINT) of \<open>src/protocol/classic-rfc.ts\<close>: a fixed prefix of
  402 bytes of CHAR and signed little-endian integer fields, and whatever a later release appends to it.
\<close>

definition RFC_FUNINT_UNICODE_ROW_LENGTH :: nat where
  "RFC_FUNINT_UNICODE_ROW_LENGTH = 402"

record rfc_funint =
  fp_parameterClass :: js_string
  fp_parameterName :: js_string
  fp_tableName :: js_string
  fp_fieldName :: js_string
  fp_exid :: js_string
  fp_position :: int
  fp_offset :: int
  fp_internalLength :: int
  fp_decimals :: int
  fp_defaultValue :: js_string
  fp_parameterText :: js_string
  fp_optional :: bool

text \<open>\<open>decodeAbapChar(reader.readBytes(2 * n), n)\<close>.\<close>

definition read_char :: "reader \<Rightarrow> nat \<Rightarrow> (js_string \<times> reader) result" where
  "read_char r n = rbind (readBytes r (2 * int n)) (\<lambda>(b, r).
     rbind (decodeAbapChar b (Some (int n))) (\<lambda>s. Inr (s, r)))"

definition decodeRfcFunintRow :: "bytes \<Rightarrow> rfc_funint result" where
  "decodeRfcFunintRow value =
    (if length value < RFC_FUNINT_UNICODE_ROW_LENGTH
     then Inl (RangeError ''Unicode RFC_FUNINT row must contain at least the stable prefix'')
     else
     rbind (read_char (reader_new (take RFC_FUNINT_UNICODE_ROW_LENGTH value)) 1) (\<lambda>(parameterClass, r).
     rbind (read_char r 30) (\<lambda>(parameterName, r).
     rbind (read_char r 30) (\<lambda>(tableName, r).
     rbind (read_char r 30) (\<lambda>(fieldName, r).
     rbind (read_char r 1) (\<lambda>(exid, r).
     rbind (readInt32LE r) (\<lambda>(position, r).
     rbind (readInt32LE r) (\<lambda>(offset, r).
     rbind (readInt32LE r) (\<lambda>(internalLength, r).
     rbind (readInt32LE r) (\<lambda>(decimals, r).
     rbind (read_char r 21) (\<lambda>(defaultValue, r).
     rbind (read_char r 79) (\<lambda>(parameterText, r).
     rbind (read_char r 1) (\<lambda>(optionalText, r).
     rbind (reader_finish r) (\<lambda>_.
     if optionalText \<noteq> [] \<and> optionalText \<noteq> units ''X''
     then Inl (PlainError ''RFC_FUNINT OPTIONAL contains unsupported value'')
     else Inr \<lparr>fp_parameterClass = parameterClass, fp_parameterName = parameterName, fp_tableName = tableName,
       fp_fieldName = fieldName, fp_exid = exid, fp_position = position, fp_offset = offset,
       fp_internalLength = internalLength, fp_decimals = decimals, fp_defaultValue = defaultValue,
       fp_parameterText = parameterText, fp_optional = (optionalText = units ''X'')\<rparr>))))))))))))))"

section \<open>Rows are read back\<close>

definition char_field :: "nat \<Rightarrow> js_string \<Rightarrow> bytes" where
  "char_field n s = utf16le (s @ replicate (n - length s) space_unit)"

definition char_fits :: "nat \<Rightarrow> js_string \<Rightarrow> bool" where
  "char_fits n s \<longleftrightarrow> length s \<le> n \<and> \<not> has_lone_surrogate s \<and> (s = [] \<or> last s \<noteq> space_unit)"

definition int_fits :: "int \<Rightarrow> bool" where
  "int_fits v \<longleftrightarrow> - 0x80000000 \<le> v \<and> v \<le> 0x7fffffff"

lemma length_char_field [simp]: "length s \<le> n \<Longrightarrow> length (char_field n s) = 2 * n"
  by (simp add: char_field_def)

lemma decode_char_field:
  assumes "char_fits n s" and "n \<le> 32767"
  shows "decodeAbapChar (char_field n s) (Some (int n)) = Inr s"
proof -
  have "encodeAbapChar s (int n) = Inr (char_field n s)"
    using assms by (simp add: encodeAbapChar_iff char_fits_def char_field_def)
  from abap_char_roundtrip(1) [OF this] show ?thesis using assms(1) by (simp add: char_fits_def strip_trailing_same)
qed

lemma reads_char [reader_fields]:
  "char_fits n s \<Longrightarrow> 0 < n \<Longrightarrow> n \<le> 32767 \<Longrightarrow>
     read_char (reader_on pre (char_field n s @ rest)) n = Inr (s, reader_on (pre @ char_field n s) rest)"
  by (simp add: read_char_def reads_bytes char_fits_def decode_char_field [unfolded char_fits_def])

lemma reads_int32LE [reader_fields]:
  assumes "int_fits v"
  shows "readInt32LE (reader_on pre (le_encode 4 (from_signed 4 v) @ rest)) =
     Inr (v, reader_on (pre @ le_encode 4 (from_signed 4 v)) rest)"
proof -
  have "to_signed 4 (from_signed 4 v) = v" using assms by (intro to_from_signed) (auto simp: int_fits_def)
  moreover have "le_decode (le_encode 4 (from_signed 4 v)) = from_signed 4 v"
    using from_signed_less [of 4 v] by (intro le_decode_encode_id)
  moreover have "reader_ensure (reader_on pre (le_encode 4 (from_signed 4 v) @ rest)) 4 = Inr ()"
    by (simp add: reader_ensure_small)
  ultimately show ?thesis by (simp add: readInt32LE_def slice_unread)
qed

definition int_field :: "int \<Rightarrow> bytes" where
  "int_field v = le_encode 4 (from_signed 4 v)"

lemmas reads_char_last = reads_char [where rest = "[]", unfolded append_Nil2]
lemmas reads_int_field = reads_int32LE [folded int_field_def]

definition funint_fits :: "rfc_funint \<Rightarrow> bool" where
  "funint_fits p \<longleftrightarrow> char_fits 1 (fp_parameterClass p) \<and> char_fits 30 (fp_parameterName p) \<and>
     char_fits 30 (fp_tableName p) \<and> char_fits 30 (fp_fieldName p) \<and> char_fits 1 (fp_exid p) \<and>
     int_fits (fp_position p) \<and> int_fits (fp_offset p) \<and> int_fits (fp_internalLength p) \<and> int_fits (fp_decimals p) \<and>
     char_fits 21 (fp_defaultValue p) \<and> char_fits 79 (fp_parameterText p)"

definition funint_row :: "rfc_funint \<Rightarrow> bytes" where
  "funint_row p =
     char_field 1 (fp_parameterClass p) @ char_field 30 (fp_parameterName p) @ char_field 30 (fp_tableName p) @
     char_field 30 (fp_fieldName p) @ char_field 1 (fp_exid p) @ int_field (fp_position p) @ int_field (fp_offset p) @
     int_field (fp_internalLength p) @ int_field (fp_decimals p) @ char_field 21 (fp_defaultValue p) @
     char_field 79 (fp_parameterText p) @ char_field 1 (if fp_optional p then units ''X'' else [])"

lemma units_X: "char_fits 1 (if b then units ''X'' else [])"
  by (simp add: char_fits_def units_def space_unit_def is_high_surrogate_def is_low_surrogate_def)

lemma length_funint_row: "funint_fits p \<Longrightarrow> length (funint_row p) = 402"
  using units_X [of "fp_optional p"] by (auto simp: funint_row_def int_field_def funint_fits_def char_fits_def)

text \<open>A row of the function interface is read back field by field, whatever a later release of the
peer appends to the 402 bytes the client knows.\<close>

theorem funint_row_forward_compatible:
  assumes "funint_fits p"
  shows "decodeRfcFunintRow (funint_row p @ appended) = Inr p"
proof -
  define t where "t = (if fp_optional p then units ''X'' else [])"
  have t: "char_fits 1 t" "t = [] \<or> t = units ''X''" "(t = units ''X'') = fp_optional p"
    using units_X [of "fp_optional p"] by (auto simp: t_def units_def)
  note f = assms [unfolded funint_fits_def]
  have row: "take RFC_FUNINT_UNICODE_ROW_LENGTH (funint_row p @ appended) = funint_row p"
    "\<not> length (funint_row p @ appended) < RFC_FUNINT_UNICODE_ROW_LENGTH"
    using length_funint_row [OF assms] by (simp_all add: RFC_FUNINT_UNICODE_ROW_LENGTH_def)
  show ?thesis
    unfolding decodeRfcFunintRow_def row if_not_P [OF row(2)] unfolding funint_row_def t_def [symmetric] reader_new_on
    using f t by (simp only: reads_char reads_char_last reads_int_field rbind_Inr prod.case reads_end conj_assoc
        zero_less_one zero_less_numeral one_le_numeral numeral_le_iff Num.le_num_simps) auto
qed

definition sample_funint :: rfc_funint where
  "sample_funint = \<lparr>fp_parameterClass = units ''I'', fp_parameterName = units ''NAME'', fp_tableName = [],
     fp_fieldName = [], fp_exid = units ''C'', fp_position = 1, fp_offset = 0, fp_internalLength = 60, fp_decimals = 0,
     fp_defaultValue = [], fp_parameterText = [], fp_optional = True\<rparr>"

theorem funint_row_forward_compatible_witness:
  "decodeRfcFunintRow (funint_row sample_funint @ [0, 0]) = Inr sample_funint"
  by (rule funint_row_forward_compatible)
    (simp add: sample_funint_def funint_fits_def char_fits_def int_fits_def units_def space_unit_def is_high_surrogate_def
      is_low_surrogate_def)

end
