(* ===== verification/DecimalText.thy ===== *)
theory DecimalText
  imports Complex_Main AbapText
begin

text \<open>
  Decimal texts, as \<open>src/values/packed-decimal.ts\<close> and \<open>src/values/decimal-float.ts\<close> accept and print
  them: the pattern they share, the value of a text that matches it, and the ways a caller can supply one.
  A string of decimal digits is the list of its digits.
\<close>

type_synonym digits = "nat list"

definition digit_text :: "digits \<Rightarrow> js_string" where
  "digit_text ds = map (\<lambda>d. word_of_nat (0x30 + d)) ds"

definition digits_of :: "js_string \<Rightarrow> digits" where
  "digits_of s = map (\<lambda>c. unat c - 0x30) s"

definition digits_value :: "digits \<Rightarrow> nat" where
  "digits_value ds = foldl (\<lambda>n d. n * 10 + d) 0 ds"

definition digits_ok :: "digits \<Rightarrow> bool" where
  "digits_ok ds \<longleftrightarrow> list_all (\<lambda>d. d < 10) ds"

text \<open>\<open>replace(/^0+/u, "")\<close>, the same with \<open>(?=\d)\<close> that keeps the last digit, and \<open>padStart(n, "0")\<close>.\<close>

definition strip_zeros :: "digits \<Rightarrow> digits" where
  "strip_zeros ds = dropWhile (\<lambda>d. d = 0) ds"

definition strip_zeros_keep :: "digits \<Rightarrow> digits" where
  "strip_zeros_keep ds = (if ds \<noteq> [] \<and> strip_zeros ds = [] then [0] else strip_zeros ds)"

definition pad_zeros :: "nat \<Rightarrow> digits \<Rightarrow> digits" where
  "pad_zeros n ds = replicate (n - length ds) 0 @ ds"

definition digits_nonzero :: "digits \<Rightarrow> bool" where
  "digits_nonzero ds \<longleftrightarrow> list_ex (\<lambda>d. d \<noteq> 0) ds"

section \<open>The pattern\<close>

record decimal_parts =
  dp_negative :: bool
  dp_integer :: digits
  dp_fraction :: digits
  dp_exponent :: "int option"

abbreviation (input) u_minus :: "16 word" where "u_minus \<equiv> 0x2d"
abbreviation (input) u_plus :: "16 word" where "u_plus \<equiv> 0x2b"
abbreviation (input) u_point :: "16 word" where "u_point \<equiv> 0x2e"

text \<open>\<open>[+-]?\<close>: whether the sign is a minus, and the rest.\<close>

fun split_sign :: "js_string \<Rightarrow> bool \<times> js_string" where
  "split_sign (c # s) = (if c = u_minus then (True, s) else if c = u_plus then (False, s) else (False, c # s))"
| "split_sign [] = (False, [])"

text \<open>\<open>(?:[eE]([+-]?\d+))?$\<close>.\<close>

definition match_exponent :: "js_string \<Rightarrow> int option option" where
  "match_exponent s = (case s of
      [] \<Rightarrow> Some None
    | c # rest \<Rightarrow> if c \<noteq> 0x65 \<and> c \<noteq> 0x45 then None
        else let (negative, ds) = split_sign rest in
          if ds = [] \<or> \<not> list_all is_digit ds then None
          else Some (Some (if negative then - int (digits_value (digits_of ds)) else int (digits_value (digits_of ds)))))"

text \<open>\<open>^([+-]?)(?:(\d+)(?:\.(\d*))?|\.(\d+))(?:[eE]([+-]?\d+))?$\<close>. What may follow a run of digits is never
a digit, so the greedy runs are the only match.\<close>

definition decimal_match :: "js_string \<Rightarrow> decimal_parts option" where
  "decimal_match s =
    (let (negative, body) = split_sign s;
         integer = takeWhile is_digit body;
         behind = dropWhile is_digit body;
         (point, afterPoint) = (case behind of c # r \<Rightarrow> if c = u_point then (True, r) else (False, behind) | [] \<Rightarrow> (False, []));
         fraction = (if point then takeWhile is_digit afterPoint else []);
         tail = (if point then dropWhile is_digit afterPoint else behind)
     in if integer = [] \<and> (\<not> point \<or> fraction = []) then None
        else map_option (\<lambda>e. \<lparr>dp_negative = negative, dp_integer = digits_of integer,
               dp_fraction = digits_of fraction, dp_exponent = e\<rparr>) (match_exponent tail))"

text \<open>The number a matched text stands for.\<close>

definition coefficient :: "decimal_parts \<Rightarrow> digits" where
  "coefficient m = dp_integer m @ dp_fraction m"

definition decimal_value :: "decimal_parts \<Rightarrow> rat" where
  "decimal_value m = (if dp_negative m then - 1 else 1) * of_nat (digits_value (coefficient m)) *
     10 powi (or_else (dp_exponent m) 0 - int (length (dp_fraction m)))"

section \<open>Inputs\<close>

text \<open>What a caller passes: a string, a number (whether it is finite, whether it is the negative zero, and
the text of its \<open>toString\<close>), a bigint, an object (with the string its \<open>toString\<close> returns, if it is a
function that returns a string), or anything else.\<close>

datatype decimal_input =
    InputText js_string
  | InputNumber bool bool js_string
  | InputBigint int
  | InputObject "js_string option"
  | InputOther

fun natural_digits :: "nat \<Rightarrow> digits" where
  "natural_digits n = (if n < 10 then [n] else natural_digits (n div 10) @ [n mod 10])"

declare natural_digits.simps [simp del]

definition bigint_text :: "int \<Rightarrow> js_string" where
  "bigint_text v = (if v < 0 then u_minus # digit_text (natural_digits (nat (- v))) else digit_text (natural_digits (nat v)))"

section \<open>Digits\<close>

lemma digits_value_simps [simp]:
  "digits_value [] = 0" "digits_value (ds @ [d]) = digits_value ds * 10 + d"
  by (simp_all add: digits_value_def)

lemma digits_value_append: "digits_value (xs @ ys) = digits_value xs * 10 ^ length ys + digits_value ys"
proof (induction ys rule: rev_induct)
  case (snoc y ys)
  then show ?case by (simp add: algebra_simps flip: append_assoc)
qed simp

lemma digits_value_Cons: "digits_value (d # ds) = d * 10 ^ length ds + digits_value ds"
  using digits_value_append [of "[d]" ds] digits_value_simps(2) [of "[]" d] by simp

lemma digits_value_zeros [simp]: "digits_value (replicate n 0) = 0"
  by (induction n) (simp_all add: digits_value_Cons)

lemma digits_ok_simps [simp]:
  "digits_ok []" "digits_ok (d # ds) \<longleftrightarrow> d < 10 \<and> digits_ok ds" "digits_ok (xs @ ys) \<longleftrightarrow> digits_ok xs \<and> digits_ok ys"
  "digits_ok (replicate n 0)"
  by (auto simp: digits_ok_def list_all_iff)

lemma digits_value_less: "digits_ok ds \<Longrightarrow> digits_value ds < 10 ^ length ds"
proof (induction ds rule: rev_induct)
  case (snoc d ds)
  then have "digits_value ds + 1 \<le> 10 ^ length ds" "d < 10" by simp_all
  then show ?case by simp
qed simp

lemma digits_value_zero: "digits_value ds = 0 \<longleftrightarrow> \<not> digits_nonzero ds"
  by (induction ds) (auto simp: digits_nonzero_def digits_value_Cons)

lemma strip_zeros_value [simp]: "digits_value (strip_zeros ds) = digits_value ds"
  by (induction ds) (simp_all add: strip_zeros_def digits_value_Cons)

lemma strip_zeros_keep_value [simp]: "digits_value (strip_zeros_keep ds) = digits_value ds"
proof (cases "ds \<noteq> [] \<and> strip_zeros ds = []")
  case True
  then have "digits_value ds = 0" using strip_zeros_value [of ds] by simp
  then show ?thesis using True by (simp add: strip_zeros_keep_def digits_value_Cons)
qed (auto simp: strip_zeros_keep_def)

lemma strip_zeros_ok [simp]: "digits_ok ds \<Longrightarrow> digits_ok (strip_zeros ds)"
  by (auto simp: digits_ok_def strip_zeros_def list_all_iff dest: set_dropWhileD)

lemma strip_zeros_keep_ok [simp]: "digits_ok ds \<Longrightarrow> digits_ok (strip_zeros_keep ds)"
  by (simp add: strip_zeros_keep_def)

lemma strip_zeros_keep_nonempty [simp]: "ds \<noteq> [] \<Longrightarrow> strip_zeros_keep ds \<noteq> []"
  by (simp add: strip_zeros_keep_def)

lemma strip_zeros_hd: "strip_zeros ds = d # r \<Longrightarrow> d \<noteq> 0"
  unfolding strip_zeros_def by (induction ds) (auto split: if_splits)

text \<open>Without leading zeros, the length is the size of the number.\<close>

lemma strip_zeros_bound: "digits_ok ds \<Longrightarrow> length (strip_zeros ds) \<le> n \<longleftrightarrow> digits_value ds < 10 ^ n"
proof -
  assume ok: "digits_ok ds"
  show ?thesis
  proof (cases "strip_zeros ds")
    case Nil
    then show ?thesis using strip_zeros_value [of ds] by simp
  next
    case (Cons d r)
    then have v: "digits_value ds = d * 10 ^ length r + digits_value r" "1 \<le> d"
      using strip_zeros_value [of ds] strip_zeros_hd [OF Cons] by (simp_all add: digits_value_Cons)
    have "digits_ok (d # r)" using strip_zeros_ok [OF ok] Cons by simp
    then have less: "digits_value ds < 10 ^ Suc (length r)" using digits_value_less [of "d # r"] v by (simp add: digits_value_Cons)
    have geq: "10 ^ length r \<le> digits_value ds" using v(2) unfolding v(1) by (simp add: trans_le_add1)
    show ?thesis
    proof
      assume "length (strip_zeros ds) \<le> n"
      then have "(10::nat) ^ Suc (length r) \<le> 10 ^ n" using Cons by (intro power_increasing) auto
      then show "digits_value ds < 10 ^ n" using less by linarith
    next
      assume "digits_value ds < 10 ^ n"
      then have "(10::nat) ^ length r < 10 ^ n" using geq by linarith
      then show "length (strip_zeros ds) \<le> n" using Cons by simp
    qed
  qed
qed

lemma pad_zeros_basic [simp]:
  "digits_value (pad_zeros n ds) = digits_value ds" "digits_ok ds \<Longrightarrow> digits_ok (pad_zeros n ds)"
  "length ds \<le> n \<Longrightarrow> length (pad_zeros n ds) = n"
  by (simp_all add: pad_zeros_def digits_value_append)

text \<open>A width and a value determine the digits.\<close>

lemma digits_unique: "digits_ok xs \<Longrightarrow> digits_ok ys \<Longrightarrow> length xs = length ys \<Longrightarrow> digits_value xs = digits_value ys \<Longrightarrow> xs = ys"
proof (induction xs arbitrary: ys rule: rev_induct)
  case (snoc x xs)
  then obtain y ys' where ys: "ys = ys' @ [y]" by (cases ys rule: rev_cases) auto
  have eq: "digits_value xs * 10 + x = digits_value ys' * 10 + y" "x < 10" "y < 10" using snoc.prems ys by auto
  then have "x = y" by presburger
  moreover from this have "digits_value xs = digits_value ys'" using eq(1) by simp
  ultimately show ?case using snoc ys by auto
qed simp

lemma natural_digits_basic [simp]: "digits_ok (natural_digits n)" "digits_value (natural_digits n) = n" "natural_digits n \<noteq> []"
proof (induction n rule: natural_digits.induct)
  case (1 n)
  { case 1 show ?case using "1.IH"(1) by (subst natural_digits.simps) simp }
  { case 2 show ?case using "1.IH"(2) by (subst natural_digits.simps) (simp add: digits_value_Cons) }
  { case 3 show ?case by (subst natural_digits.simps) simp }
qed

section \<open>Texts of digits\<close>

lemma digit_text_append [simp]: "digit_text (xs @ ys) = digit_text xs @ digit_text ys"
  by (simp add: digit_text_def)

lemma digit_unit: "d < 10 \<Longrightarrow> is_digit (word_of_nat (0x30 + d)) \<and> unat (word_of_nat (0x30 + d) :: 16 word) = 0x30 + d"
  by (simp add: is_digit_def unsigned_of_nat take_bit_nat_eq_self del: of_nat_add)

lemma digit_text_digits: "digits_ok ds \<Longrightarrow> list_all is_digit (digit_text ds)"
  using digit_unit by (auto simp: digit_text_def digits_ok_def list_all_iff)

lemma digits_of_text [simp]: "digits_ok ds \<Longrightarrow> digits_of (digit_text ds) = ds"
proof (induction ds)
  case (Cons d ds)
  then show ?case using digit_unit [of d] by (simp add: digit_text_def digits_of_def del: of_nat_add)
qed (simp add: digit_text_def digits_of_def)

lemma digits_of_ok: "list_all is_digit s \<Longrightarrow> digits_ok (digits_of s)"
  by (induction s) (auto simp: digits_of_def is_digit_def)

lemma length_digit_text [simp]: "length (digit_text ds) = length ds" "length (digits_of s) = length s"
  by (simp_all add: digit_text_def digits_of_def)

lemma digits_of_Nil [simp]: "digits_of [] = []" "digit_text [] = []" "digit_text ds = [] \<longleftrightarrow> ds = []" "digits_of s = [] \<longleftrightarrow> s = []"
  by (simp_all add: digits_of_def digit_text_def)

lemma takeWhile_digits: "digits_ok ds \<Longrightarrow> (case r of [] \<Rightarrow> True | c # _ \<Rightarrow> \<not> is_digit c) \<Longrightarrow>
    takeWhile is_digit (digit_text ds @ r) = digit_text ds \<and> dropWhile is_digit (digit_text ds @ r) = r"
  using digit_text_digits [of ds] by (cases r) (auto simp: list_all_iff takeWhile_append dropWhile_append)

section \<open>Printed texts match\<close>

lemma split_sign_digits:
  assumes "digits_ok ds" and "ds \<noteq> []"
  shows "split_sign ((if n then [u_minus] else []) @ digit_text ds @ r) = (n, digit_text ds @ r)"
proof -
  obtain d ds' where ds: "ds = d # ds'" "d < 10" using assms by (cases ds) auto
  let ?c = "word_of_nat (0x30 + d) :: 16 word"
  have "unat ?c = 0x30 + d" using digit_unit [OF ds(2)] by blast
  then have "unat ?c \<noteq> unat u_minus" "unat ?c \<noteq> unat u_plus" by simp_all
  then have "?c \<noteq> u_minus" "?c \<noteq> u_plus" by metis+
  then show ?thesis using ds(1) by (simp add: digit_text_def del: of_nat_add)
qed

definition tail_ok :: "js_string \<Rightarrow> bool" where
  "tail_ok r \<longleftrightarrow> (case r of [] \<Rightarrow> True | c # _ \<Rightarrow> \<not> is_digit c \<and> c \<noteq> u_point)"

lemma decimal_match_printed:
  assumes i: "digits_ok i" "i \<noteq> []" and f: "digits_ok f" and r: "tail_ok r"
  shows "decimal_match ((if n then [u_minus] else []) @ digit_text i @ (if p then u_point # digit_text f else []) @ r) =
    map_option (\<lambda>e. \<lparr>dp_negative = n, dp_integer = i, dp_fraction = (if p then f else []), dp_exponent = e\<rparr>) (match_exponent r)"
proof -
  let ?t = "(if p then u_point # digit_text f else []) @ r"
  have behind: "case ?t of [] \<Rightarrow> True | c # _ \<Rightarrow> \<not> is_digit c"
    using r by (cases r) (simp_all add: tail_ok_def is_digit_def)
  have tail: "case r of [] \<Rightarrow> True | c # _ \<Rightarrow> \<not> is_digit c" using r by (cases r) (simp_all add: tail_ok_def)
  have ti: "takeWhile is_digit (digit_text i @ ?t) = digit_text i" "dropWhile is_digit (digit_text i @ ?t) = ?t"
    using takeWhile_digits [OF i(1) behind] by auto
  have tf: "takeWhile is_digit (digit_text f @ r) = digit_text f" "dropWhile is_digit (digit_text f @ r) = r"
    using takeWhile_digits [OF f tail] by auto
  have s: "split_sign ((if n then [u_minus] else []) @ digit_text i @ ?t) = (n, digit_text i @ ?t)"
    by (rule split_sign_digits [OF i])
  have rp: "r \<noteq> u_point # x" for x using r by (auto simp: tail_ok_def)
  show ?thesis
  proof (cases p)
    case True
    then show ?thesis using s ti tf i f by (simp add: decimal_match_def)
  next
    case False
    then have "(case r of [] \<Rightarrow> (False, []) | c # x \<Rightarrow> if c = u_point then (True, x) else (False, r)) = (False, r)"
      using rp by (cases r) auto
    then show ?thesis using False s ti i by (simp add: decimal_match_def)
  qed
qed

lemma split_sign_number:
  "digits_ok ds \<Longrightarrow> ds \<noteq> [] \<Longrightarrow> split_sign ((if n then u_minus else u_plus) # digit_text ds) = (n, digit_text ds)"
  by simp

lemma match_exponent_printed:
  assumes "digits_ok ds" and "ds \<noteq> []"
  shows "match_exponent (0x45 # (if n then u_minus else u_plus) # digit_text ds) =
    Some (Some (if n then - int (digits_value ds) else int (digits_value ds)))"
  using assms digit_text_digits [OF assms(1)] by (simp add: match_exponent_def)

lemma decimal_match_ok:
  assumes "decimal_match s = Some m"
  shows "digits_ok (coefficient m)" "coefficient m \<noteq> []" "length (coefficient m) \<le> length s"
proof -
  obtain n body where s: "split_sign s = (n, body)" by (cases "split_sign s")
  have len: "length body \<le> length s" using s by (cases s rule: split_sign.cases) (auto split: if_splits)
  let ?i = "takeWhile is_digit body" and ?b = "dropWhile is_digit body"
  obtain p a where pa: "(case ?b of c # r \<Rightarrow> if c = u_point then (True, r) else (False, ?b) | [] \<Rightarrow> (False, [])) = (p, a)"
    by (cases "case ?b of c # r \<Rightarrow> if c = u_point then (True, r) else (False, ?b) | [] \<Rightarrow> (False, [])")
  have "length a' \<le> length xs"
    if "(case xs of c # r \<Rightarrow> if c = u_point then (True, r) else (False, xs) | [] \<Rightarrow> (False, [])) = (p', a')" for xs p' a'
    using that by (cases xs) (auto split: if_splits)
  from this [OF pa] have a: "length a \<le> length ?b" .
  let ?f = "if p then takeWhile is_digit a else []"
  from assms have m: "dp_integer m = digits_of ?i" "dp_fraction m = digits_of ?f" "\<not> (?i = [] \<and> (\<not> p \<or> ?f = []))"
    by (auto simp: decimal_match_def s pa Let_def split: if_splits)
  have "list_all is_digit ?i" "list_all is_digit ?f" by (auto simp: list_all_iff dest: set_takeWhileD)
  then show "digits_ok (coefficient m)" by (simp add: coefficient_def m(1,2) digits_of_ok)
  show "coefficient m \<noteq> []" using m by (auto simp: coefficient_def)
  have "length ?i + length ?b = length body" by (simp flip: length_append)
  moreover have "length ?f \<le> length a" by (simp add: length_takeWhile_le)
  ultimately show "length (coefficient m) \<le> length s" using a len by (simp add: coefficient_def m(1,2))
qed

end
