(* ===== verification/PackedDecimal.thy ===== *)
theory PackedDecimal
  imports DecimalText
begin

text \<open>
  Packed decimals, \<open>src/values/packed-decimal.ts\<close>: an ABAP number of type P is a row of decimal digits, two
  to a byte, behind which a nibble holds the sign. The encoder scales the caller's decimal text to the
  declared decimals and refuses every text it would have to round or truncate.
\<close>

definition MAX_PACKED_DECIMAL_TEXT_LENGTH :: nat where
  "MAX_PACKED_DECIMAL_TEXT_LENGTH = 4096"

section \<open>The caller's text\<close>

definition packed_text :: "decimal_input \<Rightarrow> js_string result" where
  "packed_text value = (case value of
      InputNumber isFinite minusZero s \<Rightarrow> if \<not> isFinite then Inl (TypeError ''expects a finite decimal'') else Inr s
    | InputText s \<Rightarrow> Inr (if length s = 0 then units ''0'' else s)
    | InputBigint v \<Rightarrow> Inr (if length (bigint_text v) = 0 then units ''0'' else bigint_text v)
    | InputOther \<Rightarrow> Inl (TypeError ''expects a decimal string, number, bigint, or decimal object'')
    | InputObject s \<Rightarrow> (case s of
          None \<Rightarrow> Inl (TypeError ''decimal object must provide toString() that returns a string'')
        | Some s \<Rightarrow> Inr (if length s = 0 then units ''0'' else s)))"

section \<open>Scaling\<close>

text \<open>The sum of two safe integers as a JavaScript number: exact up to \<open>2^53\<close>, rounded to the even neighbour
above (a sum of two is less than \<open>2^54\<close>).\<close>

definition number_add :: "int \<Rightarrow> int \<Rightarrow> int" where
  "number_add a b =
    (let x = a + b in
     if (- (2 ^ 53) \<le> x \<and> x \<le> 2 ^ 53) \<or> even x then x else if (x + 1) mod 4 = 0 then x + 1 else x - 1)"

definition capacity_error :: js_error where
  "capacity_error = RangeError ''exceeds its packed capacity''"

definition fraction_error :: js_error where
  "fraction_error = RangeError ''has more than the declared fractional digits''"

text \<open>The branch for an exponent or a shift that is not a safe integer.\<close>

definition unsafe_scale :: "bool \<Rightarrow> int \<Rightarrow> (digits \<times> bool) result" where
  "unsafe_scale nonzero n =
    (if \<not> nonzero then Inr ([0], False) else if 0 < n then Inl capacity_error else Inl fraction_error)"

definition shift_digits :: "digits \<Rightarrow> int \<Rightarrow> nat \<Rightarrow> digits result" where
  "shift_digits c shift capacity =
    (if 0 \<le> shift
     then let significantLength = length (strip_zeros c) in
       if int capacity < int significantLength + shift then Inl capacity_error
       else Inr (c @ replicate (nat shift) 0)
     else let removedLength = nat (- shift); split = length c - removedLength in
       if digits_nonzero (drop split c) then Inl fraction_error
       else Inr (if take split c = [] then [0] else take split c))"

definition scaledDigits :: "js_string \<Rightarrow> nat \<Rightarrow> nat \<Rightarrow> (digits \<times> bool) result" where
  "scaledDigits text decimals capacity = (case decimal_match text of
      None \<Rightarrow> Inl (TypeError ''is not a decimal value'')
    | Some m \<Rightarrow>
        let c = coefficient m; nonzero = digits_nonzero c; exponent = or_else (dp_exponent m) 0 in
        if \<not> is_safe_integer exponent then unsafe_scale nonzero exponent
        else let shift = number_add (number_add exponent (int decimals)) (- int (length (dp_fraction m))) in
        if \<not> is_safe_integer shift then unsafe_scale nonzero shift
        else rbind (shift_digits c shift capacity) (\<lambda>scaled.
          let significant = strip_zeros_keep scaled in
          if capacity < length significant then Inl capacity_error
          else Inr (significant, dp_negative m \<and> digits_nonzero significant)))"

section \<open>Encoder and decoder\<close>

definition geometry :: "int \<Rightarrow> int \<Rightarrow> nat result" where
  "geometry byteLength decimals =
    (if \<not> is_safe_integer byteLength \<or> byteLength < 1 \<or> 16 < byteLength
     then Inl (RangeError ''packed length must be an integer in 1..16'')
     else let digits = byteLength * 2 - 1; maximumDecimals = min 14 digits in
       if \<not> is_safe_integer decimals \<or> decimals < 0 \<or> maximumDecimals < decimals
       then Inl (RangeError ''decimals must be an integer in range'')
       else Inr (nat digits))"

fun nibble_bytes :: "nat list \<Rightarrow> bytes" where
  "nibble_bytes (high # low # ns) = word_of_nat (high * 16 + low) # nibble_bytes ns"
| "nibble_bytes _ = []"

definition byte_nibbles :: "bytes \<Rightarrow> nat list" where
  "byte_nibbles bs = concat (map (\<lambda>b. [unat b div 16, unat b mod 16]) bs)"

definition encodePackedDecimal :: "decimal_input \<Rightarrow> int \<Rightarrow> int \<Rightarrow> bytes result" where
  "encodePackedDecimal value byteLength decimals =
    rbind (geometry byteLength decimals) (\<lambda>capacity.
    rbind (packed_text value) (\<lambda>text.
    if MAX_PACKED_DECIMAL_TEXT_LENGTH < length text then Inl (RangeError ''decimal text exceeds 4096 characters'')
    else rbind (scaledDigits text (nat decimals) capacity) (\<lambda>(scaled, negative).
      let digits = pad_zeros capacity scaled; nibbles = digits @ [if negative then 0xd else 0xc]
      in Inr (nibble_bytes nibbles))))"

definition positive_sign :: "nat \<Rightarrow> bool" where
  "positive_sign s \<longleftrightarrow> s = 0xa \<or> s = 0xc \<or> s = 0xe \<or> s = 0xf"

definition negative_sign :: "nat \<Rightarrow> bool" where
  "negative_sign s \<longleftrightarrow> s = 0xb \<or> s = 0xd"

definition packed_output :: "digits \<Rightarrow> nat \<Rightarrow> bool \<Rightarrow> js_string" where
  "packed_output digits decimals negative =
    (let split = length digits - decimals;
         integerDigits = (if decimals = 0 then digits else if take split digits = [] then [0] else take split digits);
         fraction = (if decimals = 0 then [] else drop split digits)
     in (if negative \<and> digits_nonzero digits then [u_minus] else []) @ digit_text (strip_zeros_keep integerDigits) @
        (if decimals = 0 then [] else u_point # digit_text fraction))"

definition decodePackedDecimal :: "bytes \<Rightarrow> int \<Rightarrow> js_string result" where
  "decodePackedDecimal value decimals =
    rbind (geometry (int (length value)) decimals) (\<lambda>capacity.
    let hex = byte_nibbles value; digits = take capacity hex in
    if digits = [] \<or> \<not> digits_ok digits then Inl (PlainError ''contains a non-decimal digit nibble'')
    else let sign = (if list_all (\<lambda>d. d = 0) hex then 0xc else last hex) in
      if \<not> positive_sign sign \<and> \<not> negative_sign sign then Inl (PlainError ''contains invalid sign nibble'')
      else Inr (packed_output digits (nat decimals) (negative_sign sign)))"

end
