(* ===== verification/PackedCodec.thy ===== *)
theory PackedCodec
  imports PackedDecimal
begin

text \<open>
  Packed decimals are exact: what the encoder of \<open>PackedDecimal\<close> accepts is decoded to a text of the same
  value, and a non-zero text is accepted exactly when its value fits the declared digits and decimals.
\<close>

section \<open>The shift\<close>

lemma number_add_close:
  "number_add a b = a + b \<or> \<bar>number_add a b - (a + b)\<bar> \<le> 1 \<and> 2 ^ 53 < \<bar>a + b\<bar> \<and> 2 ^ 53 \<le> \<bar>number_add a b\<bar>"
  unfolding number_add_def Let_def by (simp split: if_split) linarith

lemma shift_exact:
  assumes "is_safe_integer e" and "d \<le> 14" and "f \<le> 4096"
    and "is_safe_integer (number_add (number_add e (int d)) (- int f))"
    and "number_add (number_add e (int d)) (- int f) \<le> 100"
  shows "number_add (number_add e (int d)) (- int f) = e + int d - int f"
proof -
  have e: "- 9007199254740991 \<le> e" "e \<le> 9007199254740991" using assms(1) by (auto simp: is_safe_integer_def max_safe_integer_def)
  have d: "int d \<le> 14" "int f \<le> 4096" using assms(2,3) by linarith+
  let ?s = "number_add e (int d)" and ?t = "number_add (number_add e (int d)) (- int f)"
  have t: "\<not> 2 ^ 53 \<le> \<bar>?t\<bar>" using assms(4) by (auto simp: is_safe_integer_def max_safe_integer_def)
  then have exact: "?t = ?s + - int f" using number_add_close [of ?s "- int f"] by blast
  have "?s \<le> 5000" using exact assms(5) d(2) by linarith
  then have "\<not> 2 ^ 53 \<le> \<bar>?s\<bar> \<or> ?s \<le> - (2 ^ 53)" by (simp add: abs_if)
  then have "?s = e + int d"
    using number_add_close [of e "int d"] e d(1) by (auto simp: abs_if split: if_splits)
  then show ?thesis using exact by simp
qed

section \<open>Scaling is exact\<close>

abbreviation sign_factor :: "bool \<Rightarrow> rat" where
  "sign_factor n \<equiv> if n then - 1 else 1"

lemma shift_digits_value:
  assumes "shift_digits c shift capacity = Inr ds" and "digits_ok c" and "c \<noteq> []"
  shows "digits_ok ds" "ds \<noteq> []" "(of_nat (digits_value ds) :: rat) = of_nat (digits_value c) * 10 powi shift"
    "shift \<le> int capacity"
proof -
  have "digits_ok ds \<and> ds \<noteq> [] \<and> (of_nat (digits_value ds) :: rat) = of_nat (digits_value c) * 10 powi shift \<and> shift \<le> int capacity"
  proof (cases "0 \<le> shift")
    case True
    then show ?thesis using assms
      by (auto simp: shift_digits_def Let_def digits_value_append power_int_def split: if_splits)
  next
    case False
    define n k where n: "n = nat (- shift)" and k: "k = length c - n"
    have h: "\<not> digits_nonzero (drop k c)" "ds = (if take k c = [] then [0] else take k c)"
      using assms(1) False by (auto simp: shift_digits_def Let_def n k split: if_splits)
    have "digits_value c = digits_value (take k c) * 10 ^ length (drop k c) + digits_value (drop k c)"
      using digits_value_append [of "take k c" "drop k c"] by simp
    moreover have zero: "digits_value (drop k c) = 0" using h(1) digits_value_zero by blast
    ultimately have c: "digits_value c = digits_value (take k c) * 10 ^ length (drop k c)" by simp
    have "digits_value c = digits_value ds * 10 ^ n"
    proof (cases "n \<le> length c")
      case True
      then have "length (drop k c) = n" by (simp add: k)
      then show ?thesis using c h(2) by (auto simp: digits_value_Cons)
    next
      case False
      then have "k = 0" by (simp add: k)
      then show ?thesis using zero h(2) by (simp add: digits_value_Cons)
    qed
    then have "(of_nat (digits_value ds) :: rat) = of_nat (digits_value c) * 10 powi shift"
      using False by (simp add: n power_int_def power_inverse divide_simps)
    moreover have "digits_ok (take k c)" using assms(2) by (metis append_take_drop_id digits_ok_simps(3))
    ultimately show ?thesis using h(2) False by auto
  qed
  then show "digits_ok ds" "ds \<noteq> []" "(of_nat (digits_value ds) :: rat) = of_nat (digits_value c) * 10 powi shift"
    "shift \<le> int capacity" by simp_all
qed

lemma scaled_value:
  assumes "decimal_match text = Some m"
    and "(of_nat v :: rat) = of_nat (digits_value (coefficient m)) *
      10 powi (or_else (dp_exponent m) 0 + int decimals - int (length (dp_fraction m)))"
  shows "decimal_value m * 10 ^ decimals = sign_factor (dp_negative m) * of_nat v"
proof -
  have "(10 :: rat) powi (or_else (dp_exponent m) 0 + int decimals - int (length (dp_fraction m))) =
      10 powi (or_else (dp_exponent m) 0 - int (length (dp_fraction m))) * 10 ^ decimals"
    using power_int_add [of "10 :: rat" "or_else (dp_exponent m) 0 - int (length (dp_fraction m))" "int decimals"]
    by (simp add: algebra_simps)
  then show ?thesis using assms(2) by (simp add: decimal_value_def)
qed

lemma zero_value: "\<not> digits_nonzero (coefficient m) \<Longrightarrow> decimal_value m = 0"
  by (simp add: decimal_value_def digits_value_zero [symmetric])

lemma fraction_length: "decimal_match s = Some m \<Longrightarrow> length (dp_fraction m) \<le> length s"
  using decimal_match_ok(3) [of s m] by (simp add: coefficient_def)

lemma scaledDigits_sound:
  assumes "scaledDigits text decimals capacity = Inr (ds, negative)"
    and bounds: "length text \<le> 4096" "decimals \<le> 14" "0 < capacity" "capacity \<le> 31"
  obtains m where "decimal_match text = Some m" "digits_ok ds" "ds \<noteq> []" "length ds \<le> capacity"
    "decimal_value m * 10 ^ decimals = sign_factor (dp_negative m) * of_nat (digits_value ds)"
    "negative = (dp_negative m \<and> digits_nonzero ds)"
proof -
  obtain m where m: "decimal_match text = Some m"
    using assms(1) by (auto simp: scaledDigits_def split: option.splits)
  note c = decimal_match_ok [OF m]
  have f: "length (dp_fraction m) \<le> 4096" using fraction_length [OF m] bounds(1) by simp
  let ?e = "or_else (dp_exponent m) 0"
  let ?s = "number_add (number_add ?e (int decimals)) (- int (length (dp_fraction m)))"
  show thesis
  proof (cases "is_safe_integer ?e \<and> is_safe_integer ?s")
    case True
    then obtain scaled where scaled: "shift_digits (coefficient m) ?s capacity = Inr scaled"
      and ds: "ds = strip_zeros_keep scaled" "length ds \<le> capacity" "negative = (dp_negative m \<and> digits_nonzero ds)"
      using assms(1) by (auto simp: scaledDigits_def m Let_def split: if_splits)
    note v = shift_digits_value [OF scaled c(1,2)]
    have "?s = ?e + int decimals - int (length (dp_fraction m))"
      using True bounds f v(4) by (intro shift_exact) auto
    then have "(of_nat (digits_value ds) :: rat) = of_nat (digits_value (coefficient m)) *
        10 powi (?e + int decimals - int (length (dp_fraction m)))"
      using v(3) by (simp add: ds(1))
    from scaled_value [OF m this] show thesis
      using that [OF m] ds v(1,2) by simp
  next
    case False
    then have "\<not> digits_nonzero (coefficient m)" "ds = [0]" "\<not> negative"
      using assms(1) by (auto simp: scaledDigits_def m Let_def unsafe_scale_def split: if_splits)
    then show thesis using that [OF m] zero_value [of m] bounds(3) by (simp add: digits_nonzero_def digits_value_Cons)
  qed
qed

section \<open>Nibbles\<close>

lemma nibbles_bytes: "even (length ns) \<Longrightarrow> list_all (\<lambda>n. n < 16) ns \<Longrightarrow> byte_nibbles (nibble_bytes ns) = ns"
  by (induction ns rule: nibble_bytes.induct) (simp_all add: byte_nibbles_def del: of_nat_add of_nat_mult)

lemma length_nibble_bytes [simp]: "length (nibble_bytes ns) = length ns div 2"
  by (induction ns rule: nibble_bytes.induct) simp_all

lemma geometry_iff:
  "geometry n d = Inr cap \<longleftrightarrow> 1 \<le> n \<and> n \<le> 16 \<and> 0 \<le> d \<and> d \<le> min 14 (2 * n - 1) \<and> cap = nat (2 * n - 1)"
  by (auto simp: geometry_def is_safe_integer_def max_safe_integer_def Let_def min_def split: if_splits)

section \<open>The printed number\<close>

lemma packed_output_value:
  assumes "digits_ok ds" and "ds \<noteq> []" and "d \<le> length ds"
  obtains m where "decimal_match (packed_output ds d negative) = Some m"
    "decimal_value m = sign_factor (negative \<and> digits_nonzero ds) * of_nat (digits_value ds) / 10 ^ d"
proof -
  define k where "k = length ds - d"
  define i where "i = strip_zeros_keep (if d = 0 then ds else if take k ds = [] then [0] else take k ds)"
  define f where "f = drop k ds"
  define p where "p \<longleftrightarrow> d \<noteq> 0"
  define m where "m = \<lparr>dp_negative = negative \<and> digits_nonzero ds, dp_integer = i, dp_fraction = (if p then f else []),
    dp_exponent = None\<rparr>"
  have split: "digits_ok (take k ds)" "digits_ok f"
    using assms(1) unfolding f_def by (metis append_take_drop_id digits_ok_simps(3))+
  then have i: "digits_ok i" "i \<noteq> []" using assms by (auto simp: i_def)
  have out: "packed_output ds d negative =
      (if negative \<and> digits_nonzero ds then [u_minus] else []) @ digit_text i @ (if p then u_point # digit_text f else []) @ []"
    by (simp add: packed_output_def Let_def i_def f_def k_def p_def)
  have "decimal_match (packed_output ds d negative) = Some m"
    unfolding out by (subst decimal_match_printed [OF i split(2)]) (simp_all add: tail_ok_def match_exponent_def m_def)
  moreover have "digits_value (coefficient m) = digits_value ds"
  proof (cases p)
    case True
    have "digits_value ds = digits_value (take k ds) * 10 ^ length f + digits_value f"
      using digits_value_append [of "take k ds" f] by (simp add: f_def)
    moreover have "digits_value i = digits_value (take k ds)" using True by (simp add: i_def p_def digits_value_Cons)
    ultimately show ?thesis using True by (simp add: coefficient_def m_def digits_value_append)
  qed (simp add: coefficient_def m_def i_def p_def)
  moreover have "length (dp_fraction m) = d" using assms(3) by (simp add: m_def p_def f_def k_def)
  ultimately show thesis using that [of m] by (simp add: decimal_value_def m_def power_int_minus divide_inverse)
qed

section \<open>The properties\<close>

lemma encodePackedDecimal_sound:
  assumes "encodePackedDecimal value n d = Inr bs"
  obtains given m ds where "packed_text value = Inr given" "decimal_match given = Some m"
    "1 \<le> n" "n \<le> 16" "0 \<le> d" "d \<le> 14" "d < 2 * n" "digits_ok ds" "length ds = nat (2 * n - 1)"
    "decimal_value m * 10 ^ nat d = sign_factor (dp_negative m) * of_nat (digits_value ds)"
    "bs = nibble_bytes (ds @ [if dp_negative m \<and> digits_nonzero ds then 0xd else 0xc])"
proof -
  from assms obtain cap given scaled negative where g: "geometry n d = Inr cap" and t: "packed_text value = Inr given"
    and l: "length given \<le> 4096" and s: "scaledDigits given (nat d) cap = Inr (scaled, negative)"
    and bs: "bs = nibble_bytes (pad_zeros cap scaled @ [if negative then 0xd else 0xc])"
    by (auto simp: encodePackedDecimal_def MAX_PACKED_DECIMAL_TEXT_LENGTH_def Let_def split: if_splits)
  have b: "1 \<le> n" "n \<le> 16" "0 \<le> d" "d \<le> 14" "d < 2 * n" "cap = nat (2 * n - 1)" using g by (auto simp: geometry_iff)
  then have cap: "nat d \<le> 14" "0 < cap" "cap \<le> 31" by linarith+
  obtain m where m: "decimal_match given = Some m" "digits_ok scaled" "scaled \<noteq> []" "length scaled \<le> cap"
    "decimal_value m * 10 ^ nat d = sign_factor (dp_negative m) * of_nat (digits_value scaled)"
    "negative = (dp_negative m \<and> digits_nonzero scaled)"
    by (rule scaledDigits_sound [OF s l cap])
  have "digits_nonzero (pad_zeros cap scaled) = digits_nonzero scaled"
    using digits_value_zero [of scaled] digits_value_zero [of "pad_zeros cap scaled"] by auto
  then show thesis using that [OF t m(1) b(1-5), of "pad_zeros cap scaled"] m b(6) bs by simp
qed

lemma packed_read_back:
  assumes "encodePackedDecimal value n d = Inr bs"
  shows "length bs = nat n \<and> (\<exists>given m out m'. packed_text value = Inr given \<and> decimal_match given = Some m \<and>
    decodePackedDecimal bs d = Inr out \<and> decimal_match out = Some m' \<and> decimal_value m' = decimal_value m)"
proof -
  from assms obtain given m ds where t: "packed_text value = Inr given" "decimal_match given = Some m"
    and b: "1 \<le> n" "n \<le> 16" "0 \<le> d" "d \<le> 14" "d < 2 * n" and ds: "digits_ok ds" "length ds = nat (2 * n - 1)"
    and v: "decimal_value m * 10 ^ nat d = sign_factor (dp_negative m) * of_nat (digits_value ds)"
    and bs: "bs = nibble_bytes (ds @ [if dp_negative m \<and> digits_nonzero ds then 0xd else 0xc])"
    by (rule encodePackedDecimal_sound)
  let ?s = "if dp_negative m \<and> digits_nonzero ds then 0xd else 0xc :: nat"
  have len: "length bs = nat n" using ds(2) b by (simp add: bs)
  have hex: "byte_nibbles bs = ds @ [?s]"
    using ds b unfolding bs by (intro nibbles_bytes) (auto simp: digits_ok_def list_all_iff even_nat_iff)
  have "2 * n - 1 \<ge> 1" "d \<le> 2 * n - 1" using b by linarith+
  then have nonempty: "ds \<noteq> []" "nat d \<le> length ds" using ds(2) by auto
  have "geometry (int (length bs)) d = Inr (length ds)" using b ds(2) len by (auto simp: geometry_iff)
  moreover obtain s where s: "s = (if dp_negative m \<and> digits_nonzero ds then 0xd else 0xc :: nat)"
    "s = 0xc \<or> s = 0xd" "negative_sign s = (dp_negative m \<and> digits_nonzero ds)" by (simp add: negative_sign_def)
  ultimately have "decodePackedDecimal bs d = Inr (packed_output ds (nat d) (dp_negative m \<and> digits_nonzero ds))"
    using ds(1) nonempty(1)
    by (auto simp: decodePackedDecimal_def hex [folded s(1)] s(3) [symmetric] Let_def positive_sign_def negative_sign_def del: rbind_eq_Inr)
  moreover obtain m' where m': "decimal_match (packed_output ds (nat d) (dp_negative m \<and> digits_nonzero ds)) = Some m'"
    "decimal_value m' = sign_factor (dp_negative m \<and> digits_nonzero ds) * of_nat (digits_value ds) / 10 ^ nat d"
    by (rule packed_output_value [OF ds(1) nonempty, of "dp_negative m \<and> digits_nonzero ds"]) (auto simp: conj_assoc)
  moreover have "decimal_value m' = decimal_value m"
  proof (cases "digits_nonzero ds")
    case True
    then have "decimal_value m' * 10 ^ nat d = decimal_value m * 10 ^ nat d" using v m'(2) by simp
    then show ?thesis by simp
  next
    case False
    then show ?thesis using v m'(2) by (simp add: digits_value_zero [symmetric])
  qed
  ultimately show ?thesis using t len by blast
qed

text \<open>C18. Packed decimals are lossless: whatever text, number, bigint or decimal object the encoder accepts,
it writes exactly the declared number of bytes, and the decoder reads from them a decimal text of the same
value.\<close>

theorem packed_encode_lossless:
  assumes "encodePackedDecimal value n d = Inr bs"
  shows "length bs = nat n \<and> (\<exists>given m out m'. packed_text value = Inr given \<and> decimal_match given = Some m \<and>
    decodePackedDecimal bs d = Inr out \<and> decimal_match out = Some m' \<and> decimal_value m' = decimal_value m)"
  using assms by (rule packed_read_back)

theorem packed_encode_lossless_witness:
  "decodePackedDecimal (nibble_bytes [0, 1, 2, 3, 4, 5, 0, 0xd]) 2 = Inr (units ''-1234.50'')"
proof -
  have "encodePackedDecimal (InputText (units ''-1234.5'')) 4 2 = Inr (nibble_bytes [0, 1, 2, 3, 4, 5, 0, 0xd])"
    by code_simp
  from packed_encode_lossless [OF this] obtain out m where "decodePackedDecimal (nibble_bytes [0, 1, 2, 3, 4, 5, 0, 0xd]) 2 = Inr out"
    by blast
  then show ?thesis by code_simp
qed

section \<open>What the encoder accepts\<close>

lemma power_bounds:
  assumes "(of_nat k :: rat) = of_nat v * 10 powi x" and "0 < v" "v < 10 ^ 4096" "k < 10 ^ c" "c \<le> 31"
  shows "x < 31" "- 4096 < x"
proof -
  have k: "0 < k" using assms(1,2) by (metis of_nat_0_less_iff zero_less_mult_iff zero_less_power_int zero_less_numeral)
  show "x < 31"
  proof (rule ccontr)
    assume "\<not> x < 31"
    then obtain j where x: "31 \<le> j" "x = int j" by (cases x) auto
    have "(of_nat k :: rat) = of_nat (v * 10 ^ j)" using assms(1) by (simp add: x(2))
    then have "k = v * 10 ^ j" using of_nat_eq_iff by blast
    moreover have "(10 :: nat) ^ c \<le> 10 ^ j" using assms(5) x(1) by (intro power_increasing) auto
    moreover have "10 ^ j \<le> v * 10 ^ j" using assms(2) by simp
    ultimately show False using assms(4) by linarith
  qed
  show "- 4096 < x"
  proof (rule ccontr)
    assume "\<not> - 4096 < x"
    then have "4096 \<le> nat (- x)" "x = - int (nat (- x))" by linarith+
    then obtain j where x: "4096 \<le> j" "x = - int j" by blast
    have "(of_nat (k * 10 ^ j) :: rat) = of_nat v"
      using assms(1) by (simp add: x(2) power_int_minus field_simps)
    then have "k * 10 ^ j = v" using of_nat_eq_iff by blast
    moreover have "(10 :: nat) ^ 4096 \<le> 10 ^ j" using x(1) by (intro power_increasing) auto
    moreover have "10 ^ j \<le> k * 10 ^ j" using k by simp
    ultimately show False using assms(3) by linarith
  qed
qed

lemma shift_digits_complete:
  assumes "(of_nat k :: rat) = of_nat (digits_value c) * 10 powi x" and "digits_ok c" and "0 < digits_value c"
    and "k < 10 ^ cap"
  shows "\<exists>ds. shift_digits c x cap = Inr ds"
proof (cases "0 \<le> x")
  case True
  have "(of_nat k :: rat) = of_nat (digits_value c * 10 ^ nat x)" using assms(1) True by (simp add: power_int_def)
  then have k: "k = digits_value c * 10 ^ nat x" using of_nat_eq_iff by blast
  have "nat x \<le> cap"
  proof (rule ccontr)
    assume "\<not> nat x \<le> cap"
    then have "(10 :: nat) ^ cap \<le> 10 ^ nat x" by (intro power_increasing) auto
    then show False using assms(3,4) k by (metis One_nat_def Suc_leI leD le_trans mult_le_mono1 nat_mult_1)
  qed
  then have "(10 :: nat) ^ cap = 10 ^ (cap - nat x) * 10 ^ nat x" by (simp flip: power_add)
  then have "digits_value c < 10 ^ (cap - nat x)" using assms(4) by (simp add: k)
  then have "length (strip_zeros c) \<le> cap - nat x" using strip_zeros_bound [OF assms(2)] by blast
  then show ?thesis using True \<open>nat x \<le> cap\<close> by (simp add: shift_digits_def Let_def)
next
  case False
  define n where "n = nat (- x)"
  have "(of_nat (k * 10 ^ n) :: rat) = of_nat (digits_value c)"
    using assms(1) False by (simp add: n_def power_int_def power_inverse divide_simps)
  then have k: "digits_value c = k * 10 ^ n" using of_nat_eq_iff by metis
  have "n \<le> length c"
  proof (rule ccontr)
    assume "\<not> n \<le> length c"
    then have "(10 :: nat) ^ length c \<le> 10 ^ n" by (intro power_increasing) auto
    moreover have "10 ^ n \<le> k * 10 ^ n" using assms(3) k by simp
    ultimately show False using digits_value_less [OF assms(2)] k by linarith
  qed
  let ?l = "length c - n"
  have "digits_ok (drop ?l c)" using assms(2) by (metis append_take_drop_id digits_ok_simps(3))
  then have "digits_value (drop ?l c) < 10 ^ n" using digits_value_less [of "drop ?l c"] \<open>n \<le> length c\<close> by simp
  moreover have "digits_value c = digits_value (take ?l c) * 10 ^ n + digits_value (drop ?l c)"
    using digits_value_append [of "take ?l c" "drop ?l c"] \<open>n \<le> length c\<close> by simp
  ultimately have "digits_value (drop ?l c) = digits_value c mod 10 ^ n" by simp
  then have "\<not> digits_nonzero (drop ?l c)" using k digits_value_zero [of "drop ?l c"] by simp
  then show ?thesis using False by (simp add: shift_digits_def Let_def n_def)
qed

lemma keep_length: "digits_ok ds \<Longrightarrow> digits_value ds < 10 ^ c \<Longrightarrow> 0 < c \<Longrightarrow> length (strip_zeros_keep ds) \<le> c"
  using strip_zeros_bound [of ds c] by (simp add: strip_zeros_keep_def)

text \<open>C19. The encoder of packed decimals rounds nothing, and refuses a text it could write only for its length:
a non-zero decimal text is accepted exactly when it has at most 4096 characters and its value, scaled by the
declared decimals, is a whole number of at most the declared digits.\<close>

theorem packed_accepts_representable:
  assumes "geometry n d = Inr cap" and "packed_text value = Inr given"
    and "decimal_match given = Some m" and "digits_nonzero (coefficient m)"
  shows "(\<exists>bs. encodePackedDecimal value n d = Inr bs) =
    (length given \<le> 4096 \<and> (\<exists>k. k < 10 ^ cap \<and> \<bar>decimal_value m\<bar> * 10 ^ nat d = of_nat k))"
    (is "?l = ?r")
proof
  assume ?l
  then obtain bs where "encodePackedDecimal value n d = Inr bs" by blast
  then obtain given' m' ds where "packed_text value = Inr given'" "decimal_match given' = Some m'"
    and b: "1 \<le> n" "n \<le> 16" "0 \<le> d" "d \<le> 14" "d < 2 * n" and ds: "digits_ok ds" "length ds = nat (2 * n - 1)"
    and v: "decimal_value m' * 10 ^ nat d = sign_factor (dp_negative m') * of_nat (digits_value ds)"
    and bs: "bs = nibble_bytes (ds @ [if dp_negative m' \<and> digits_nonzero ds then 0xd else 0xc])"
    by (rule encodePackedDecimal_sound)
  then have "m' = m" "length ds = cap" using assms by (auto simp: geometry_iff)
  then have "\<bar>decimal_value m\<bar> * 10 ^ nat d = of_nat (digits_value ds)"
    using arg_cong [OF v, of abs] by (auto simp: abs_mult split: if_splits)
  moreover from \<open>encodePackedDecimal value n d = Inr bs\<close> have "length given \<le> 4096"
    using assms(2) by (auto simp: encodePackedDecimal_def MAX_PACKED_DECIMAL_TEXT_LENGTH_def split: if_splits)
  ultimately show ?r using digits_value_less [OF ds(1)] \<open>length ds = cap\<close> by blast
next
  assume ?r
  then obtain k where short: "length given \<le> 4096" and k: "k < 10 ^ cap" "\<bar>decimal_value m\<bar> * 10 ^ nat d = of_nat k"
    by blast
  obtain D where D: "nat d = D" by simp
  have d: "D \<le> 14" "0 < cap" "cap \<le> 31" using assms(1) by (auto simp: geometry_iff simp flip: D)
  note c = decimal_match_ok [OF assms(3)]
  have pos: "0 < digits_value (coefficient m)" using assms(4) digits_value_zero by (metis not_gr_zero)
  have "(10 :: nat) ^ length (coefficient m) \<le> 10 ^ 4096" using c(3) short by (intro power_increasing) auto
  then have small: "digits_value (coefficient m) < 10 ^ 4096" using digits_value_less [OF c(1)] by linarith
  let ?e = "or_else (dp_exponent m) 0" and ?f = "length (dp_fraction m)"
  let ?x = "?e + int D - int ?f"
  have "\<bar>decimal_value m\<bar> = of_nat (digits_value (coefficient m)) * 10 powi (?e - int ?f)"
    by (simp add: decimal_value_def abs_mult)
  then have kx: "(of_nat k :: rat) = of_nat (digits_value (coefficient m)) * 10 powi ?x"
    using k(2) [unfolded D] power_int_add [of "10 :: rat" "?e - int ?f" "int D"] by (simp add: algebra_simps)
  note x = power_bounds [OF kx pos small k(1) d(3)]
  have f: "?f \<le> 4096" using fraction_length [OF assms(3)] short by simp
  have e: "- 10000 < ?e" "?e < 10000" using x f d by linarith+
  then have safe: "is_safe_integer ?e" by (simp add: is_safe_integer_def max_safe_integer_def)
  have s: "number_add (number_add ?e (int D)) (- int ?f) = ?x"
    using x e d f by (simp add: number_add_def Let_def)
  have safe': "is_safe_integer ?x" using x by (simp add: is_safe_integer_def max_safe_integer_def)
  obtain ds where ds: "shift_digits (coefficient m) ?x cap = Inr ds" using shift_digits_complete [OF kx c(1) pos k(1)] by blast
  note v = shift_digits_value [OF ds c(1,2)]
  have "digits_value ds = k" using v(3) kx by (metis of_nat_eq_iff)
  then have "length (strip_zeros_keep ds) \<le> cap" using keep_length [OF v(1)] k(1) d(2) by simp
  then have "\<exists>r. scaledDigits given D cap = Inr r"
    using safe safe' ds by (simp add: scaledDigits_def assms(3) Let_def s)
  then show ?l using assms(1,2) short by (auto simp: encodePackedDecimal_def D MAX_PACKED_DECIMAL_TEXT_LENGTH_def Let_def)
qed

theorem packed_accepts_representable_witness:
  "(\<exists>bs. encodePackedDecimal (InputText (units ''12e1'')) 2 0 = Inr bs) =
     (length (units ''12e1'') \<le> 4096 \<and>
      (\<exists>k. k < (10::nat) ^ 3 \<and> \<bar>decimal_value \<lparr>dp_negative = False, dp_integer = [1, 2], dp_fraction = [], dp_exponent = Some 1\<rparr>\<bar> * 10 ^ nat 0 = of_nat k))"
proof (rule packed_accepts_representable [where given = "units ''12e1''"])
  show "geometry 2 0 = Inr 3" by (simp add: geometry_iff)
  show "packed_text (InputText (units ''12e1'')) = Inr (units ''12e1'')" by (simp add: packed_text_def units_def)
  show "decimal_match (units ''12e1'') = Some \<lparr>dp_negative = False, dp_integer = [1, 2], dp_fraction = [], dp_exponent = Some 1\<rparr>"
    by code_simp
qed (simp_all add: units_def coefficient_def digits_nonzero_def)

text \<open>The refusal of a zero depends on its spelling: with an exponent that is a safe integer but exceeds the
capacity, zero is refused, with one that is not a safe integer it is written.\<close>

lemma packed_zero_spelling:
  "encodePackedDecimal (InputText (units ''0e50'')) 8 2 = Inl capacity_error"
  "encodePackedDecimal (InputText (units ''0e9007199254740992'')) 8 2 = Inr (nibble_bytes (replicate 15 0 @ [0xc]))"
proof -
  have m: "decimal_match (units ''0e50'') = Some \<lparr>dp_negative = False, dp_integer = [0], dp_fraction = [], dp_exponent = Some 50\<rparr>"
    "decimal_match (units ''0e9007199254740992'') =
      Some \<lparr>dp_negative = False, dp_integer = [0], dp_fraction = [], dp_exponent = Some 9007199254740992\<rparr>"
    by (simp_all add: decimal_match_def match_exponent_def units_def is_digit_def digits_of_def digits_value_def)
  have g: "geometry 8 2 = Inr 15" by (simp add: geometry_iff)
  have scaled: "scaledDigits (units ''0e50'') 2 15 = Inl capacity_error"
    "scaledDigits (units ''0e9007199254740992'') 2 15 = Inr ([0], False)"
    by (simp_all add: scaledDigits_def m coefficient_def digits_nonzero_def number_add_def is_safe_integer_def
        max_safe_integer_def shift_digits_def strip_zeros_def unsafe_scale_def)
  have zeros: "pad_zeros 15 [0] = replicate 15 0" by code_simp
  show "encodePackedDecimal (InputText (units ''0e50'')) 8 2 = Inl capacity_error"
    "encodePackedDecimal (InputText (units ''0e9007199254740992'')) 8 2 = Inr (nibble_bytes (replicate 15 0 @ [0xc]))"
    by (simp_all add: encodePackedDecimal_def g scaled zeros packed_text_def MAX_PACKED_DECIMAL_TEXT_LENGTH_def
        del: rbind_eq_Inr) (simp_all add: units_def)
qed

end
