(* ===== verification/StructureDefinition.thy ===== *)
theory StructureDefinition
  imports RfcFunint
begin

text \<open>
  The definitions of fixed structures: the rows of RFC_GET_STRUCTURE_DEFINITION and the definition that is
  made of them (\<open>src/metadata/rfc-structure-definition.ts\<close>), and the check of a definition before any value is
  allocated (\<open>snapshotClassicStructureDefinition\<close> of \<open>src/values/classic-structure.ts\<close>).

  The set of definitions already checked only saves a second check: \<open>definition_check_idempotent\<close> shows that checking
  a checked definition changes nothing.
\<close>

record structure_field =
  sf_tableName :: js_string
  sf_fieldName :: js_string
  sf_position :: int
  sf_offset :: int
  sf_internalLength :: int
  sf_decimals :: int
  sf_exid :: js_string

record rfc_structure =
  rs_name :: js_string
  rs_byteLength :: int
  rs_fields :: "structure_field list"

section \<open>Rows of RFC_FIELDS\<close>

definition RFC_FIELDS_UNICODE_ROW_LENGTH :: nat where
  "RFC_FIELDS_UNICODE_ROW_LENGTH = 138"

definition MAX_RFC_STRUCTURE_FIELDS :: nat where
  "MAX_RFC_STRUCTURE_FIELDS = 20000"

definition decodeRfcFieldsRow :: "bytes \<Rightarrow> structure_field result" where
  "decodeRfcFieldsRow value =
    (if length value < RFC_FIELDS_UNICODE_ROW_LENGTH
     then Inl (RangeError ''Unicode RFC_FIELDS row must contain at least the stable prefix'')
     else
     rbind (read_char (reader_new (take RFC_FIELDS_UNICODE_ROW_LENGTH value)) 30) (\<lambda>(tableName, r).
     rbind (read_char r 30) (\<lambda>(fieldName, r).
     rbind (readInt32LE r) (\<lambda>(position, r).
     rbind (readInt32LE r) (\<lambda>(offset, r).
     rbind (readInt32LE r) (\<lambda>(internalLength, r).
     rbind (readInt32LE r) (\<lambda>(decimals, r).
     rbind (read_char r 1) (\<lambda>(exid, r).
     rbind (reader_finish r) (\<lambda>_.
     if tableName = [] \<or> fieldName = []
     then Inl (PlainError ''RFC_FIELDS row contains an empty table or field name'')
     else if position < 1 \<or> offset < 0 \<or> internalLength < 0 \<or> decimals < 0
     then Inl (PlainError ''RFC_FIELDS row contains a negative or invalid numeric property'')
     else Inr \<lparr>sf_tableName = tableName, sf_fieldName = fieldName, sf_position = position, sf_offset = offset,
       sf_internalLength = internalLength, sf_decimals = decimals, sf_exid = exid\<rparr>)))))))))"

section \<open>The reply of RFC_GET_STRUCTURE_DEFINITION\<close>

definition structure_scalar :: "classic_result \<Rightarrow> js_string \<Rightarrow> bytes result" where
  "structure_scalar result name = (case map_of (cr_scalars result) name of
      None \<Rightarrow> Inl (PlainError ''response lacks scalar'') | Some v \<Rightarrow> Inr v)"

definition find_table :: "classic_result \<Rightarrow> js_string \<Rightarrow> classic_table option" where
  "find_table result name = find (\<lambda>t. tb_name t = name) (cr_tables result)"

text \<open>The name under which the rows of a reply belong together.\<close>

fun row_owner :: "js_string option \<Rightarrow> bytes list \<Rightarrow> js_string option result" where
  "row_owner rowName [] = Inr rowName"
| "row_owner rowName (row # rows) =
     rbind (decodeRfcFieldsRow row) (\<lambda>field. case rowName of
         None \<Rightarrow> row_owner (Some (sf_tableName field)) rows
       | Some name \<Rightarrow>
           if sf_tableName field \<noteq> name then Inl (PlainError ''RFC_FIELDS rows belong to multiple structures'')
           else row_owner rowName rows)"

definition too_many_rows :: js_error where
  "too_many_rows = RangeError ''RFC_GET_STRUCTURE_DEFINITION FIELDS must contain at most 20000 rows''"

definition detectRfcStructureDefinitionRowName :: "js_string \<Rightarrow> cpic_field list \<Rightarrow> js_string option result" where
  "detectRfcStructureDefinitionRowName queriedName fs =
    rbind (decodeClassicRfcResult fs) (\<lambda>result.
    case find_table result (units ''FIELDS'') of
      None \<Rightarrow> Inr None
    | Some fieldTable \<Rightarrow>
        if tb_rows fieldTable = [] then Inr None
        else if MAX_RFC_STRUCTURE_FIELDS < length (tb_rows fieldTable) then Inl too_many_rows
        else rbind (row_owner None (tb_rows fieldTable)) (\<lambda>rowName.
          Inr (if rowName = Some queriedName then None else rowName)))"

text \<open>The first pass looks at the headers of the table \<open>FIELDS\<close> alone, before anything is decoded.\<close>

fun fields_preflight :: "cpic_field list \<Rightarrow> unit result" where
  "fields_preflight [] = Inr ()"
| "fields_preflight (f # fs) =
     (if cf_tag f \<noteq> T_TableName then fields_preflight fs
      else rbind (decodeAbapChar (cf_value f) None) (\<lambda>name.
        if name \<noteq> units ''FIELDS'' then fields_preflight fs
        else case fs of
            header # _ \<Rightarrow>
              if cf_tag header \<noteq> T_TableHeader then fields_preflight fs
              else rbind (decodeRfcTableHeader (cf_value header)) (\<lambda>h.
                if MAX_RFC_STRUCTURE_FIELDS < th_rowCount h then Inl too_many_rows else fields_preflight fs)
          | [] \<Rightarrow> fields_preflight fs))"

text \<open>The fields are numbered in the order of the rows.\<close>

fun numbered :: "nat \<Rightarrow> structure_field list \<Rightarrow> structure_field list" where
  "numbered index [] = []"
| "numbered index (field # fs) = field\<lparr>sf_position := int index + 1\<rparr> # numbered (index + 1) fs"

fun rows_geometry :: "js_string \<Rightarrow> int \<Rightarrow> js_string set \<Rightarrow> int \<Rightarrow> structure_field list \<Rightarrow> unit result" where
  "rows_geometry structureName byteLength names previousEnd [] = Inr ()"
| "rows_geometry structureName byteLength names previousEnd (field # fs) =
     (if sf_tableName field \<noteq> structureName then Inl (PlainError ''RFC_FIELDS field belongs to another structure'')
      else if sf_fieldName field \<in> names then Inl (PlainError ''RFC_FIELDS contains duplicate field'')
      else if sf_offset field < previousEnd then Inl (PlainError ''RFC_FIELDS overlaps its preceding field'')
      else let fieldEnd = sf_offset field + sf_internalLength field in
        if \<not> is_safe_integer fieldEnd \<or> byteLength < fieldEnd then Inl (PlainError ''RFC_FIELDS ends beyond structure length'')
        else rows_geometry structureName byteLength (insert (sf_fieldName field) names) fieldEnd fs)"

definition decodeRfcStructureDefinitionResult :: "js_string \<Rightarrow> cpic_field list \<Rightarrow> rfc_structure result" where
  "decodeRfcStructureDefinitionResult structureName fs =
    rbind (fields_preflight fs) (\<lambda>_.
    rbind (decodeClassicRfcResult fs) (\<lambda>result.
    rbind (structure_scalar result (units ''TABLENGTH'')) (\<lambda>lengthValue.
    if length lengthValue \<noteq> 4 then Inl (PlainError ''TABLENGTH must be INT4'')
    else let byteLength = to_signed 4 (le_decode lengthValue) in
      if byteLength < 0 then Inl (PlainError ''returned negative TABLENGTH'')
      else case find_table result (units ''FIELDS'') of
          None \<Rightarrow> Inl (PlainError ''response lacks FIELDS table'')
        | Some fieldTable \<Rightarrow>
            if tb_rowByteLength fieldTable < RFC_FIELDS_UNICODE_ROW_LENGTH then Inl (PlainError ''FIELDS row width'')
            else rbind (map_result decodeRfcFieldsRow (tb_rows fieldTable)) (\<lambda>rows.
              let decodedFields = numbered 0 rows in
              rbind (rows_geometry structureName byteLength {} 0 decodedFields) (\<lambda>_.
              Inr \<lparr>rs_name = structureName, rs_byteLength = byteLength, rs_fields = decodedFields\<rparr>)))))"

section \<open>The check of a definition\<close>

definition MAX_CLASSIC_STRUCTURE_FIELDS :: nat where
  "MAX_CLASSIC_STRUCTURE_FIELDS = 100000"

definition MAX_CLASSIC_STRUCTURE_BYTE_LENGTH :: int where
  "MAX_CLASSIC_STRUCTURE_BYTE_LENGTH = DEFAULT_MAX_CPIC_FIELD_LENGTH"

fun geometry_loop :: "rfc_structure \<Rightarrow> nat \<Rightarrow> js_string set \<Rightarrow> int \<Rightarrow> structure_field list \<Rightarrow> unit result" where
  "geometry_loop def index names previousEnd [] = Inr ()"
| "geometry_loop def index names previousEnd (field # fs) =
     (if sf_tableName field \<noteq> rs_name def \<or> sf_fieldName field = [] \<or> sf_fieldName field \<in> names \<or>
         sf_position field \<noteq> int index + 1 \<or>
         \<not> is_safe_integer (sf_offset field) \<or> sf_offset field < previousEnd \<or>
         \<not> is_safe_integer (sf_internalLength field) \<or> sf_internalLength field < 0 \<or>
         \<not> is_safe_integer (sf_decimals field) \<or> sf_decimals field < 0
      then Inl (PlainError ''structure field has invalid geometry'')
      else let fieldEnd = sf_offset field + sf_internalLength field in
        if \<not> is_safe_integer fieldEnd \<or> rs_byteLength def < fieldEnd then Inl (PlainError ''exceeds the structure byteLength'')
        else geometry_loop def (index + 1) (insert (sf_fieldName field) names) fieldEnd fs)"

definition snapshotClassicStructureDefinition :: "rfc_structure \<Rightarrow> js_string option \<Rightarrow> rfc_structure result" where
  "snapshotClassicStructureDefinition def requestedName =
    (if rs_name def = [] \<or> rs_name def \<noteq> or_else requestedName (rs_name def)
     then Inl (PlainError ''structure definition has an invalid name'')
     else if \<not> is_safe_integer (rs_byteLength def) \<or> rs_byteLength def < 0
     then Inl (RangeError ''structure byteLength must be a non-negative safe integer'')
     else if MAX_CLASSIC_STRUCTURE_BYTE_LENGTH < rs_byteLength def then Inl (RangeError ''structure byteLength exceeds'')
     else if MAX_CLASSIC_STRUCTURE_FIELDS < length (rs_fields def) then Inl (RangeError ''structure field count exceeds'')
     else rbind (geometry_loop def 0 {} 0 (rs_fields def)) (\<lambda>_. Inr def))"

lemma definition_same: "snapshotClassicStructureDefinition def requested = Inr def' \<Longrightarrow> def' = def"
  by (auto simp: snapshotClassicStructureDefinition_def split: if_splits)

lemma definition_check_idempotent:
  "snapshotClassicStructureDefinition def requested = Inr def' \<Longrightarrow> snapshotClassicStructureDefinition def' None = Inr def'"
  by (auto simp: snapshotClassicStructureDefinition_def split: if_splits)

end
