(* ===== verification/DecimalFloat.thy ===== *)
theory DecimalFloat
  imports DecimalText
begin

unbundle bit_operations_syntax

text \<open>
  Decimal floating point, \<open>src/values/decimal-float.ts\<close>: the IEEE 754 decimal interchange formats of 8 and
  16 bytes with densely packed digits, three decimal digits to ten bits. Bigints and the small integers of the
  bit operations are natural numbers; a field \<open>a << n | b\<close> is written as in the source.
\<close>

record decfloat_format =
  ff_byteLength :: nat
  ff_precision :: nat
  ff_exponentContinuationBits :: nat
  ff_coefficientContinuationBits :: nat
  ff_exponentBias :: nat

definition DECF16 :: decfloat_format where
  "DECF16 = \<lparr>ff_byteLength = 8, ff_precision = 16, ff_exponentContinuationBits = 8,
     ff_coefficientContinuationBits = 50, ff_exponentBias = 398\<rparr>"

definition DECF34 :: decfloat_format where
  "DECF34 = \<lparr>ff_byteLength = 16, ff_precision = 34, ff_exponentContinuationBits = 12,
     ff_coefficientContinuationBits = 110, ff_exponentBias = 6176\<rparr>"

record finite_decimal =
  fd_negative :: bool
  fd_coefficient :: digits
  fd_exponent :: int

datatype special_kind = KindInfinity | KindNan | KindSnan

record special_decimal =
  sd_negative :: bool
  sd_kind :: special_kind
  sd_diagnostic :: digits

definition MAX_DECIMAL_FLOAT_TEXT_LENGTH :: nat where
  "MAX_DECIMAL_FLOAT_TEXT_LENGTH = 4096"

section \<open>Densely packed digits\<close>

definition encodeDpdDeclet :: "nat \<Rightarrow> nat" where
  "encodeDpdDeclet value =
    (let left = value div 100; middle = value div 10 mod 10; right = value mod 10;
         largePattern = (if 8 \<le> left then 4 else 0) OR (if 8 \<le> middle then 2 else 0) OR (if 8 \<le> right then 1 else 0 :: nat)
     in if largePattern = 0 then push_bit 7 left OR push_bit 4 middle OR right
        else if largePattern = 1 then push_bit 7 left OR push_bit 4 middle OR 0b1000 OR (right AND 1)
        else if largePattern = 2
        then push_bit 7 left OR push_bit 4 ((right AND 0b110) OR (middle AND 1)) OR 0b1010 OR (right AND 1)
        else if largePattern = 4
        then push_bit 7 ((right AND 0b110) OR (left AND 1)) OR push_bit 4 middle OR 0b1100 OR (right AND 1)
        else if largePattern = 6
        then push_bit 7 ((right AND 0b110) OR (left AND 1)) OR push_bit 4 (middle AND 1) OR 0b1110 OR (right AND 1)
        else if largePattern = 5
        then push_bit 7 ((middle AND 0b110) OR (left AND 1)) OR push_bit 4 (0b010 OR (middle AND 1)) OR 0b1110 OR (right AND 1)
        else if largePattern = 3
        then push_bit 7 left OR push_bit 4 (0b100 OR (middle AND 1)) OR 0b1110 OR (right AND 1)
        else push_bit 7 (left AND 1) OR push_bit 4 (0b110 OR (middle AND 1)) OR 0b1110 OR (right AND 1))"

text \<open>The three digits of a declet.\<close>

definition dpd_digits :: "nat \<Rightarrow> nat \<times> nat \<times> nat" where
  "dpd_digits code =
    (let pqr = drop_bit 7 code AND 0b111; stu = drop_bit 4 code AND 0b111; v = drop_bit 3 code AND 1;
         w = drop_bit 2 code AND 1; x = drop_bit 1 code AND 1; y = code AND 1
     in if v = 0 then (pqr, stu, code AND 0b111)
        else if w = 0 \<and> x = 0 then (pqr, stu, 8 + y)
        else if w = 0 \<and> x = 1
        then (pqr, 8 + (drop_bit 4 code AND 1),
              push_bit 2 (drop_bit 6 code AND 1) OR push_bit 1 (drop_bit 5 code AND 1) OR y)
        else if w = 1 \<and> x = 0
        then (8 + (drop_bit 7 code AND 1), stu,
              push_bit 2 (drop_bit 9 code AND 1) OR push_bit 1 (drop_bit 8 code AND 1) OR y)
        else let st = drop_bit 5 code AND 0b11 in
          if st = 0
          then (8 + (drop_bit 7 code AND 1), 8 + (drop_bit 4 code AND 1),
                push_bit 2 (drop_bit 9 code AND 1) OR push_bit 1 (drop_bit 8 code AND 1) OR y)
          else if st = 1
          then (8 + (drop_bit 7 code AND 1),
                push_bit 2 (drop_bit 9 code AND 1) OR push_bit 1 (drop_bit 8 code AND 1) OR (drop_bit 4 code AND 1), 8 + y)
          else if st = 2 then (pqr, 8 + (drop_bit 4 code AND 1), 8 + y)
          else (8 + (drop_bit 7 code AND 1), 8 + (drop_bit 4 code AND 1), 8 + y))"

definition decodeDpdDeclet :: "nat \<Rightarrow> nat" where
  "decodeDpdDeclet code = (case dpd_digits code of (left, middle, right) \<Rightarrow> left * 100 + middle * 10 + right)"

function coefficient_loop :: "nat \<Rightarrow> digits \<Rightarrow> nat" where
  "coefficient_loop encoded ds =
    (if ds = [] then encoded
     else coefficient_loop (push_bit 10 encoded OR encodeDpdDeclet (digits_value (take 3 ds))) (drop 3 ds))"
  by pat_completeness auto
termination by (relation "measure (length \<circ> snd)") auto

declare coefficient_loop.simps [simp del]

definition encodeCoefficientContinuation :: "digits \<Rightarrow> nat" where
  "encodeCoefficientContinuation ds = coefficient_loop 0 ds"

text \<open>The groups are filled from the last one.\<close>

fun declet_groups :: "nat \<Rightarrow> nat \<Rightarrow> digits" where
  "declet_groups 0 remainder = []"
| "declet_groups (Suc n) remainder =
     declet_groups n (drop_bit 10 remainder) @ pad_zeros 3 (natural_digits (decodeDpdDeclet (remainder AND 0x3ff)))"

definition decodeCoefficientContinuation :: "nat \<Rightarrow> nat \<Rightarrow> digits" where
  "decodeCoefficientContinuation bits digitCount = declet_groups (digitCount div 3) bits"

section \<open>The caller's text\<close>

definition decfloat_text :: "decimal_input \<Rightarrow> js_string result" where
  "decfloat_text value = (case value of
      InputNumber isFinite minusZero s \<Rightarrow> Inr (if minusZero then units ''-0'' else s)
    | InputText s \<Rightarrow> Inr s
    | InputBigint v \<Rightarrow> Inr (bigint_text v)
    | InputOther \<Rightarrow> Inl (TypeError ''expects a string, number, bigint, or decimal object'')
    | InputObject s \<Rightarrow> (case s of
          None \<Rightarrow> Inl (TypeError ''expects a decimal object whose toString() returns a string'')
        | Some s \<Rightarrow> Inr s))"

definition trailingZeroCount :: "digits \<Rightarrow> nat" where
  "trailingZeroCount ds = length (takeWhile (\<lambda>d. d = 0) (rev ds))"

text \<open>Case folding of the flags \<open>iu\<close>: the Latin capitals, and the long s, which folds to \<open>s\<close>.\<close>

definition fold_case :: "16 word \<Rightarrow> 16 word" where
  "fold_case c = (if 0x41 \<le> unat c \<and> unat c \<le> 0x5a then c + 0x20 else if c = 0x17f then 0x73 else c)"

definition is_lower_snan :: "js_string \<Rightarrow> bool" where
  "is_lower_snan s \<longleftrightarrow> map (\<lambda>c. if 0x41 \<le> unat c \<and> unat c \<le> 0x5a then c + 0x20 else c) s = units ''snan''"

text \<open>\<open>^([+-]?)(s?nan)(\d*)$\<close>: the word and the digits behind it.\<close>

definition match_nan :: "js_string \<Rightarrow> (js_string \<times> js_string) option" where
  "match_nan body =
    (let folded = map fold_case body;
         n = (if take 4 folded = units ''snan'' then 4 else if take 3 folded = units ''nan'' then 3 else 0)
     in if n \<noteq> 0 \<and> list_all is_digit (drop n body) then Some (take n body, drop n body) else None)"

definition parseSpecial :: "js_string \<Rightarrow> decfloat_format \<Rightarrow> special_decimal option result" where
  "parseSpecial s format =
    (let (negative, body) = split_sign s; folded = map fold_case body in
     if folded = units ''inf'' \<or> folded = units ''infinity''
     then Inr (Some \<lparr>sd_negative = negative, sd_kind = KindInfinity, sd_diagnostic = []\<rparr>)
     else case match_nan body of
       None \<Rightarrow> Inr None
     | Some (name, payload) \<Rightarrow>
         let diagnostic = strip_zeros (digits_of payload); capacity = ff_precision format - 1 in
         if capacity < length diagnostic then Inl (RangeError ''exceeds its NaN payload'')
         else Inr (Some \<lparr>sd_negative = negative, sd_kind = (if is_lower_snan name then KindSnan else KindNan),
           sd_diagnostic = diagnostic\<rparr>))"

text \<open>More significant digits than the format holds have to end in zeros.\<close>

definition trim_coefficient :: "decfloat_format \<Rightarrow> digits \<Rightarrow> int \<Rightarrow> (digits \<times> int) result" where
  "trim_coefficient format c exponent =
    (if c \<noteq> [0] \<and> ff_precision format < length c
     then let excessDigits = length c - ff_precision format in
       if trailingZeroCount c < excessDigits then Inl (RangeError ''exceeds significant digits without rounding'')
       else Inr (take (length c - excessDigits) c, exponent + int excessDigits)
     else Inr (c, exponent))"

definition maximum_encoded_exponent :: "decfloat_format \<Rightarrow> int" where
  "maximum_encoded_exponent format = 3 * 2 ^ ff_exponentContinuationBits format - 1"

text \<open>The exponent is brought into range by moving zeros between it and the coefficient.\<close>

definition fit_exponent :: "decfloat_format \<Rightarrow> digits \<Rightarrow> int \<Rightarrow> (digits \<times> int) result" where
  "fit_exponent format c exponent =
    (let minimumExponent = - int (ff_exponentBias format);
         maximumExponent = maximum_encoded_exponent format - int (ff_exponentBias format)
     in if c = [0] then Inr (c, min (max exponent minimumExponent) maximumExponent)
        else if maximumExponent < exponent
        then let requiredZeros = exponent - maximumExponent; availableDigits = int (ff_precision format) - int (length c) in
          if availableDigits < requiredZeros then Inl (RangeError ''is outside range without rounding'')
          else Inr (c @ replicate (nat requiredZeros) 0, maximumExponent)
        else if exponent < minimumExponent
        then let requiredZeros = minimumExponent - exponent; trailingZeros = trailingZeroCount c in
          if int trailingZeros < requiredZeros then Inl (RangeError ''is outside range without rounding'')
          else Inr (take (length c - nat requiredZeros) c, minimumExponent)
        else Inr (c, exponent))"

definition parseFinite :: "js_string \<Rightarrow> decfloat_format \<Rightarrow> finite_decimal result" where
  "parseFinite s format = (case decimal_match s of
      None \<Rightarrow> Inl (TypeError ''expects a valid decimal'')
    | Some m \<Rightarrow>
        let unpadded = strip_zeros (coefficient m);
            c = (if unpadded = [] then [0] else unpadded);
            exponent = or_else (dp_exponent m) 0 - int (length (dp_fraction m))
        in rbind (trim_coefficient format c exponent) (\<lambda>(c, exponent).
           rbind (fit_exponent format c exponent) (\<lambda>(c, exponent).
           Inr \<lparr>fd_negative = dp_negative m, fd_coefficient = c, fd_exponent = exponent\<rparr>)))"

section \<open>Encoder\<close>

definition total_bits :: "decfloat_format \<Rightarrow> nat" where
  "total_bits format = ff_byteLength format * 8"

definition sign_bit :: "decfloat_format \<Rightarrow> bool \<Rightarrow> nat" where
  "sign_bit format negative = (if negative then push_bit (total_bits format - 1) 1 else 0)"

definition encodeSpecial :: "special_decimal \<Rightarrow> decfloat_format \<Rightarrow> bytes" where
  "encodeSpecial value format =
    (let combinationShift = total_bits format - 6; sgn = sign_bit format (sd_negative value) in
     if sd_kind value = KindInfinity
     then le_encode (ff_byteLength format) (sgn OR push_bit combinationShift 0b11110)
     else let diagnosticDigits = pad_zeros (ff_precision format - 1) (sd_diagnostic value);
              diagnostic = encodeCoefficientContinuation diagnosticDigits;
              signaling = (if sd_kind value = KindSnan
                then push_bit (ff_coefficientContinuationBits format + ff_exponentContinuationBits format - 1) 1 else 0)
          in le_encode (ff_byteLength format) (sgn OR push_bit combinationShift 0b11111 OR signaling OR diagnostic))"

definition encode_finite :: "finite_decimal \<Rightarrow> decfloat_format \<Rightarrow> bytes" where
  "encode_finite value format =
    (let digits = pad_zeros (ff_precision format) (fd_coefficient value);
         mostSignificantDigit = digits ! 0;
         coefficientContinuation = encodeCoefficientContinuation (drop 1 digits);
         encodedExponent = nat (fd_exponent value + int (ff_exponentBias format));
         exponentMostSignificant = drop_bit (ff_exponentContinuationBits format) encodedExponent;
         exponentContinuationMask = push_bit (ff_exponentContinuationBits format) 1 - 1;
         exponentContinuation = encodedExponent AND exponentContinuationMask;
         combination = (if mostSignificantDigit \<le> 7 then push_bit 3 exponentMostSignificant OR mostSignificantDigit
           else 0b11000 OR push_bit 1 exponentMostSignificant OR (mostSignificantDigit - 8));
         encoded = sign_bit format (fd_negative value) OR push_bit (total_bits format - 6) combination OR
           push_bit (ff_coefficientContinuationBits format) exponentContinuation OR coefficientContinuation
     in le_encode (ff_byteLength format) encoded)"

definition encodeDecimalFloat :: "decimal_input \<Rightarrow> decfloat_format \<Rightarrow> bytes result" where
  "encodeDecimalFloat value format =
    rbind (decfloat_text value) (\<lambda>given.
    if MAX_DECIMAL_FLOAT_TEXT_LENGTH < length given then Inl (RangeError ''decimal text exceeds 4096 characters'')
    else rbind (parseSpecial given format) (\<lambda>special. case special of
        Some sp \<Rightarrow> Inr (encodeSpecial sp format)
      | None \<Rightarrow> rbind (parseFinite given format) (\<lambda>value. Inr (encode_finite value format))))"

section \<open>Decoder\<close>

definition exponent_text :: "int \<Rightarrow> js_string" where
  "exponent_text e = (if 0 \<le> e then [u_plus] else []) @ bigint_text e"

definition formatFinite :: "bool \<Rightarrow> digits \<Rightarrow> int \<Rightarrow> js_string" where
  "formatFinite negative c exponent =
    (let digits = (if strip_zeros c = [] then [0] else strip_zeros c);
         adjustedExponent = exponent + int (length digits) - 1;
         body = (if exponent \<le> 0 \<and> - 6 \<le> adjustedExponent
           then if exponent = 0 then digit_text digits
             else let point = int (length digits) + exponent in
               if 0 < point then digit_text (take (nat point) digits) @ u_point # digit_text (drop (nat point) digits)
               else digit_text [0] @ u_point # digit_text (replicate (nat (- point)) 0 @ digits)
           else (if length digits = 1 then digit_text digits else digit_text [hd digits] @ u_point # digit_text (drop 1 digits)) @
             0x45 # exponent_text adjustedExponent)
     in (if negative then [u_minus] else []) @ body)"

definition decodeDecimalFloat :: "bytes \<Rightarrow> decfloat_format \<Rightarrow> js_string result" where
  "decodeDecimalFloat value format =
    (if length value \<noteq> ff_byteLength format then Inl (RangeError ''expects exactly the bytes of its format'')
     else let encoded = le_decode value;
              negative = (drop_bit (total_bits format - 1) encoded AND 1 = 1);
              minus = (if negative then [u_minus] else []);
              combination = drop_bit (total_bits format - 6) encoded AND 0b11111;
              coefficientMask = push_bit (ff_coefficientContinuationBits format) 1 - 1;
              coefficientContinuation = encoded AND coefficientMask
          in if combination = 0b11110 then Inr (minus @ units ''Infinity'')
             else if combination = 0b11111
             then let signalingBit = ff_coefficientContinuationBits format + ff_exponentContinuationBits format - 1;
                      signaling = (drop_bit signalingBit encoded AND 1 = 1);
                      diagnostic = strip_zeros (decodeCoefficientContinuation coefficientContinuation (ff_precision format - 1))
                  in Inr (minus @ (if signaling then units ''sNaN'' else units ''NaN'') @ digit_text diagnostic)
             else let exponentMostSignificant = (if combination < 0b11000 then drop_bit 3 combination else drop_bit 1 combination AND 0b11);
                      mostSignificantDigit = (if combination < 0b11000 then combination AND 0b111 else 8 + (combination AND 1));
                      exponentContinuationMask = push_bit (ff_exponentContinuationBits format) 1 - 1;
                      exponentContinuation = drop_bit (ff_coefficientContinuationBits format) encoded AND exponentContinuationMask;
                      exponent = push_bit (ff_exponentContinuationBits format) exponentMostSignificant OR exponentContinuation;
                      c = mostSignificantDigit # decodeCoefficientContinuation coefficientContinuation (ff_precision format - 1)
                  in Inr (formatFinite negative c (int exponent - int (ff_exponentBias format))))"

definition encodeDecimalFloat16 :: "decimal_input \<Rightarrow> bytes result" where
  "encodeDecimalFloat16 value = encodeDecimalFloat value DECF16"

definition decodeDecimalFloat16 :: "bytes \<Rightarrow> js_string result" where
  "decodeDecimalFloat16 value = decodeDecimalFloat value DECF16"

definition encodeDecimalFloat34 :: "decimal_input \<Rightarrow> bytes result" where
  "encodeDecimalFloat34 value = encodeDecimalFloat value DECF34"

definition decodeDecimalFloat34 :: "bytes \<Rightarrow> js_string result" where
  "decodeDecimalFloat34 value = decodeDecimalFloat value DECF34"

end
