(* ===== verification/ClassicStructure.thy ===== *)
theory ClassicStructure
  imports StructureDefinition TemporalCodec PackedCodec DecimalFloat
begin

text \<open>
  Fixed structures, \<open>src/values/classic-structure.ts\<close>, with the projections of \<open>src/values/classic-int8.ts\<close> and
  \<open>src/values/classic-bcd.ts\<close>: each field of a definition is written into its place of a buffer of zeros and
  read from it.

  A JavaScript number is its 64 bits with its decimal text; which integer it is, if it is one, is read from the
  bits. A string of a caller is a list of UTF-16 units; the patterns of dates and times hold ASCII characters
  only, so a text with another character fails them.
\<close>

section \<open>Values\<close>

datatype js_field =
    FText js_string
  | FNumber "64 word" js_string
  | FBigint int
  | FBytes bytes
  | FObject "js_string option"  \<comment> \<open>with the string its \<open>toString\<close> returns, if it does\<close>
  | FOther

datatype field_output =
    OutText js_string
  | OutInteger int
  | OutDouble "64 word"
  | OutBigint int
  | OutBytes bytes
  | OutNumberOf js_string  \<comment> \<open>\<open>Number(text)\<close>\<close>

definition double_exponent :: "64 word \<Rightarrow> nat" where
  "double_exponent bits = unat bits div 2 ^ 52 mod 2 ^ 11"

definition double_fraction :: "64 word \<Rightarrow> nat" where
  "double_fraction bits = unat bits mod 2 ^ 52"

definition double_negative :: "64 word \<Rightarrow> bool" where
  "double_negative bits \<longleftrightarrow> 2 ^ 63 \<le> unat bits"

definition double_finite :: "64 word \<Rightarrow> bool" where
  "double_finite bits \<longleftrightarrow> double_exponent bits \<noteq> 2047"

text \<open>\<open>Number.isSafeInteger\<close>: the integer that a number is, when its magnitude is below \<open>2 ^ 53\<close>.\<close>

definition safe_integer_of :: "64 word \<Rightarrow> int option" where
  "safe_integer_of bits =
    (let e = double_exponent bits; f = double_fraction bits;
         magnitude = (if e = 0 then if f = 0 then Some 0 else None
           else if e < 1023 \<or> 1075 < e then None
           else if 2 ^ (1075 - e) dvd 2 ^ 52 + f then Some ((2 ^ 52 + f) div 2 ^ (1075 - e)) else None)
     in map_option (\<lambda>m. if double_negative bits then - int m else int m) magnitude)"

definition minus_zero_bits :: "64 word" where
  "minus_zero_bits = 0x8000000000000000"

text \<open>The text of a byte array: its numbers with commas between them.\<close>

fun byte_array_text :: "bytes \<Rightarrow> js_string" where
  "byte_array_text [] = []"
| "byte_array_text [b] = digit_text (natural_digits (unat b))"
| "byte_array_text (b # bs) = digit_text (natural_digits (unat b)) @ 0x2c # byte_array_text bs"

definition decimal_of_field :: "js_field \<Rightarrow> decimal_input" where
  "decimal_of_field v = (case v of
      FText s \<Rightarrow> InputText s
    | FNumber bits s \<Rightarrow> InputNumber (double_finite bits) (bits = minus_zero_bits) s
    | FBigint i \<Rightarrow> InputBigint i
    | FBytes b \<Rightarrow> InputObject (Some (byte_array_text b))
    | FObject s \<Rightarrow> InputObject s
    | FOther \<Rightarrow> InputOther)"

section \<open>INT8\<close>

datatype int8_mode = Int8Number | Int8Bigint | Int8String

definition snapshotClassicInt8Mode :: "js_field option \<Rightarrow> int8_mode result" where
  "snapshotClassicInt8Mode value =
    (if value = None then Inr Int8Bigint
     else if value = Some (FText (units ''number'')) then Inr Int8Number
     else if value = Some (FText (units ''bigint'')) then Inr Int8Bigint
     else if value = Some (FText (units ''string'')) then Inr Int8String
     else Inl (TypeError ''must be number, bigint, or string''))"

definition assertSignedInt8 :: "int \<Rightarrow> int result" where
  "assertSignedInt8 value =
    (if value < - (2 ^ 63) \<or> 2 ^ 63 - 1 < value then Inl (RangeError ''expects a signed 64-bit integer'') else Inr value)"

text \<open>\<open>^(?:0|-[1-9][0-9]*|[1-9][0-9]*)$\<close> and the number it spells.\<close>

definition canonical_digits :: "js_string \<Rightarrow> bool" where
  "canonical_digits s \<longleftrightarrow> s \<noteq> [] \<and> list_all is_digit s \<and> hd s \<noteq> 0x30"

definition canonical_signed_decimal :: "js_string \<Rightarrow> int option" where
  "canonical_signed_decimal s =
    (if s = [0x30] then Some 0
     else if s \<noteq> [] \<and> hd s = u_minus
     then if canonical_digits (tl s) then Some (- int (digits_value (digits_of (tl s)))) else None
     else if canonical_digits s then Some (int (digits_value (digits_of s))) else None)"

definition encodeClassicInt8 :: "js_field \<Rightarrow> int8_mode \<Rightarrow> int result" where
  "encodeClassicInt8 value mode = (case mode of
      Int8Number \<Rightarrow> (case value of
          FNumber bits _ \<Rightarrow> (case safe_integer_of bits of
              Some i \<Rightarrow> assertSignedInt8 i
            | None \<Rightarrow> Inl (RangeError ''expects a safe integer number in number mode''))
        | _ \<Rightarrow> Inl (RangeError ''expects a safe integer number in number mode''))
    | Int8Bigint \<Rightarrow> (case value of
          FBigint i \<Rightarrow> assertSignedInt8 i
        | FNumber bits _ \<Rightarrow> (case safe_integer_of bits of
              Some i \<Rightarrow> assertSignedInt8 i
            | None \<Rightarrow> Inl (RangeError ''expects a signed 64-bit integer''))
        | _ \<Rightarrow> Inl (RangeError ''expects a signed 64-bit integer''))
    | Int8String \<Rightarrow> (case value of
          FText s \<Rightarrow>
            if 20 < length s then Inl (TypeError ''expects a canonical signed decimal string in string mode'')
            else (case canonical_signed_decimal s of
              Some i \<Rightarrow> assertSignedInt8 i
            | None \<Rightarrow> Inl (TypeError ''expects a canonical signed decimal string in string mode''))
        | _ \<Rightarrow> Inl (TypeError ''expects a canonical signed decimal string in string mode'')))"

definition decodeClassicInt8 :: "int \<Rightarrow> int8_mode \<Rightarrow> field_output result" where
  "decodeClassicInt8 value mode =
    rbind (assertSignedInt8 value) (\<lambda>normalized. case mode of
        Int8Bigint \<Rightarrow> Inr (OutBigint normalized)
      | Int8String \<Rightarrow> Inr (OutText (bigint_text normalized))
      | Int8Number \<Rightarrow>
          if \<not> is_safe_integer normalized then Inl (RangeError ''INT8 result exceeds the safe integer range'')
          else Inr (OutInteger normalized))"

definition classicInt8InitialValue :: "int8_mode \<Rightarrow> js_field" where
  "classicInt8InitialValue mode = (case mode of
      Int8Number \<Rightarrow> FNumber 0 (units ''0'') | Int8Bigint \<Rightarrow> FBigint 0 | Int8String \<Rightarrow> FText (units ''0''))"

section \<open>The projection of decimals\<close>

text \<open>A converter is a function of the caller; None is a throw.\<close>

datatype bcd_mode = BcdString | BcdNumber | BcdConverter "js_string \<Rightarrow> field_output option"

datatype bcd_option = BcdUndefined | BcdText js_string | BcdFunction "js_string \<Rightarrow> field_output option" | BcdOther

definition snapshotClassicBcdMode :: "bcd_option \<Rightarrow> bcd_mode result" where
  "snapshotClassicBcdMode value = (case value of
      BcdUndefined \<Rightarrow> Inr BcdString
    | BcdText s \<Rightarrow> if s = units ''string'' then Inr BcdString
        else if s = units ''number'' then Inr BcdNumber
        else Inl (TypeError ''must be string, number, or a function'')
    | BcdFunction f \<Rightarrow> Inr (BcdConverter f)
    | BcdOther \<Rightarrow> Inl (TypeError ''must be string, number, or a function''))"

definition projectClassicBcdOutput :: "js_string \<Rightarrow> bcd_mode \<Rightarrow> field_output result" where
  "projectClassicBcdOutput value mode = (case mode of
      BcdString \<Rightarrow> Inr (OutText value)
    | BcdNumber \<Rightarrow> Inr (OutNumberOf value)
    | BcdConverter f \<Rightarrow> (case f value of
        Some v \<Rightarrow> Inr v
      | None \<Rightarrow> Inl (CodedError ''ClassicBcdConversionError'' ''BCD output conversion failed'')))"

section \<open>The kinds of fields\<close>

text \<open>\<open>exid\<close>, one character: the compact temporal kinds, and the kinds of the \<open>switch\<close>.\<close>

datatype field_kind =
    KTemporal temporal_exid
  | KChar | KNumc | KDate | KTime | KRaw | KFloat | KInt4 | KInt2 | KInt1 | KInt8 | KPacked | KDecf16 | KDecf34
  | KString | KXstring

definition field_kind_of :: "js_string \<Rightarrow> field_kind option" where
  "field_kind_of exid = (case exid of
      [u] \<Rightarrow>
        if 127 < unat u then None
        else let c = char_of (unat u) :: char in (case exid_of_char c of
            Some x \<Rightarrow> Some (KTemporal x)
          | None \<Rightarrow>
              if c = CHR ''C'' then Some KChar else if c = CHR ''N'' then Some KNumc
              else if c = CHR ''D'' then Some KDate else if c = CHR ''T'' then Some KTime
              else if c = CHR ''X'' then Some KRaw else if c = CHR ''F'' then Some KFloat
              else if c = CHR ''I'' then Some KInt4 else if c = CHR ''s'' then Some KInt2
              else if c = CHR ''b'' then Some KInt1 else if c = CHR ''8'' then Some KInt8
              else if c = CHR ''P'' then Some KPacked else if c = CHR ''a'' then Some KDecf16
              else if c = CHR ''e'' then Some KDecf34 else if c = CHR ''g'' then Some KString
              else if c = CHR ''y'' then Some KXstring else None)
    | _ \<Rightarrow> None)"

definition not_implemented :: js_error where
  "not_implemented = PlainError ''classic RFC type is not implemented''"

definition must_occupy :: "structure_field \<Rightarrow> int \<Rightarrow> unit result" where
  "must_occupy field n = guard_that (sf_internalLength field = n) (PlainError ''must occupy its bytes'')"

definition characterLength :: "structure_field \<Rightarrow> int result" where
  "characterLength field =
    (if odd (sf_internalLength field) then Inl (PlainError ''Unicode character width must be even'')
     else Inr (sf_internalLength field div 2))"

definition initialValue :: "structure_field \<Rightarrow> int8_mode \<Rightarrow> js_field result" where
  "initialValue field int8Mode = (case field_kind_of (sf_exid field) of
      Some (KTemporal x) \<Rightarrow> Inr (FText (units (classicTemporalInitialValue x)))
    | Some KChar \<Rightarrow> Inr (FText [])
    | Some KNumc \<Rightarrow> rbind (characterLength field) (\<lambda>n. Inr (FText (replicate (nat n) 0x30)))
    | Some KDate \<Rightarrow> Inr (FText (units ''00000000''))
    | Some KTime \<Rightarrow> Inr (FText (units ''000000''))
    | Some KRaw \<Rightarrow> Inr (FBytes [])
    | Some KFloat \<Rightarrow> Inr (FNumber 0 (units ''0''))
    | Some KInt4 \<Rightarrow> Inr (FNumber 0 (units ''0''))
    | Some KInt2 \<Rightarrow> Inr (FNumber 0 (units ''0''))
    | Some KInt1 \<Rightarrow> Inr (FNumber 0 (units ''0''))
    | Some KInt8 \<Rightarrow> Inr (classicInt8InitialValue int8Mode)
    | Some KPacked \<Rightarrow> Inr (FText (units ''0''))
    | Some KDecf16 \<Rightarrow> Inr (FText (units ''0''))
    | Some KDecf34 \<Rightarrow> Inr (FText (units ''0''))
    | _ \<Rightarrow> Inl not_implemented)"

definition assertFieldCodec :: "structure_field \<Rightarrow> unit result" where
  "assertFieldCodec field = (case field_kind_of (sf_exid field) of
      Some (KTemporal x) \<Rightarrow> must_occupy field (int (spec_byteLength x))
    | Some KChar \<Rightarrow> rbind (characterLength field) (\<lambda>_. Inr ())
    | Some KNumc \<Rightarrow> rbind (characterLength field) (\<lambda>_. Inr ())
    | Some KDate \<Rightarrow> must_occupy field 16
    | Some KTime \<Rightarrow> must_occupy field 12
    | Some KRaw \<Rightarrow> Inr ()
    | Some KFloat \<Rightarrow> must_occupy field 8
    | Some KInt4 \<Rightarrow> must_occupy field 4
    | Some KInt2 \<Rightarrow> must_occupy field 2
    | Some KInt1 \<Rightarrow> must_occupy field 1
    | Some KInt8 \<Rightarrow> must_occupy field 8
    | Some KPacked \<Rightarrow> rbind (encodePackedDecimal (InputText (units ''0'')) (sf_internalLength field) (sf_decimals field)) (\<lambda>_. Inr ())
    | Some KDecf16 \<Rightarrow> must_occupy field 8
    | Some KDecf34 \<Rightarrow> must_occupy field 16
    | Some KString \<Rightarrow> must_occupy field 8
    | Some KXstring \<Rightarrow> must_occupy field 8
    | None \<Rightarrow> Inl not_implemented)"

definition validateClassicStructureCodec :: "rfc_structure \<Rightarrow> js_string option \<Rightarrow> rfc_structure result" where
  "validateClassicStructureCodec def requestedName =
    rbind (snapshotClassicStructureDefinition def requestedName) (\<lambda>normalized.
    rbind (map_result assertFieldCodec (rs_fields normalized)) (\<lambda>_. Inr normalized))"

definition dynamic_field :: "structure_field \<Rightarrow> bool" where
  "dynamic_field field \<longleftrightarrow> field_kind_of (sf_exid field) = Some KString \<or> field_kind_of (sf_exid field) = Some KXstring"

definition classicStructureHasDynamicFields :: "rfc_structure \<Rightarrow> bool result" where
  "classicStructureHasDynamicFields def =
    rbind (validateClassicStructureCodec def None) (\<lambda>normalized. Inr (list_ex dynamic_field (rs_fields normalized)))"

definition assertFixedStructure :: "rfc_structure \<Rightarrow> unit result" where
  "assertFixedStructure def =
    rbind (classicStructureHasDynamicFields def) (\<lambda>dynamic.
    if dynamic then Inl (PlainError ''contains STRING/XSTRING fields and requires xRFC XML serialization'') else Inr ())"

section \<open>Writing\<close>

text \<open>The units of a text as ASCII characters; none for a text with another character.\<close>

definition ascii_chars :: "js_string \<Rightarrow> string option" where
  "ascii_chars s = (if list_all (\<lambda>u. unat u < 128) s then Some (map (\<lambda>u. char_of (unat u)) s) else None)"

definition caller_text :: "js_field \<Rightarrow> js_string result" where
  "caller_text value = (case value of FText s \<Rightarrow> Inr s | _ \<Rightarrow> Inl (TypeError ''expects a string''))"

definition field_integer :: "js_field \<Rightarrow> int \<Rightarrow> int \<Rightarrow> int result" where
  "field_integer value minimum maximum = (case value of
      FNumber bits _ \<Rightarrow> (case safe_integer_of bits of
          Some i \<Rightarrow> if i < minimum \<or> maximum < i then Inl (RangeError ''must be an integer in range'') else Inr i
        | None \<Rightarrow> Inl (RangeError ''must be an integer in range''))
    | _ \<Rightarrow> Inl (RangeError ''must be an integer in range''))"

text \<open>The bytes that \<open>writeValue\<close> puts at the offset of the field.\<close>

definition writeValue :: "structure_field \<Rightarrow> js_field \<Rightarrow> int8_mode \<Rightarrow> bytes result" where
  "writeValue field value int8Mode = (case field_kind_of (sf_exid field) of
      Some (KTemporal x) \<Rightarrow>
        rbind (must_occupy field (int (spec_byteLength x))) (\<lambda>_.
        rbind (caller_text value) (\<lambda>s. case ascii_chars s of
            None \<Rightarrow> Inl (TypeError ''expects'')
          | Some t \<Rightarrow> encodeClassicTemporal x t))
    | Some KChar \<Rightarrow>
        rbind (caller_text value) (\<lambda>s. rbind (characterLength field) (\<lambda>n. encodeAbapChar s n))
    | Some KNumc \<Rightarrow>
        rbind (characterLength field) (\<lambda>characters.
        rbind (caller_text value) (\<lambda>s.
        if \<not> list_all is_digit s \<or> characters < int (length s) then Inl (TypeError ''expects decimal digits'')
        else encodeAbapChar (replicate (nat characters - length s) 0x30 @ s) characters))
    | Some KDate \<Rightarrow>
        rbind (must_occupy field 16) (\<lambda>_.
        rbind (caller_text value) (\<lambda>s. case ascii_chars s of
            None \<Rightarrow> Inl (TypeError ''expects YYYYMMDD, an empty string, or eight spaces'')
          | Some t \<Rightarrow> rbind (classicDateWireText t) (\<lambda>w. Inr (utf16le (units w)))))
    | Some KTime \<Rightarrow>
        rbind (must_occupy field 12) (\<lambda>_.
        rbind (caller_text value) (\<lambda>s. case ascii_chars s of
            None \<Rightarrow> Inl (TypeError ''expects HHMMSS, an empty string, or six spaces'')
          | Some t \<Rightarrow> rbind (classicTimeWireText t) (\<lambda>w. Inr (utf16le (units w)))))
    | Some KRaw \<Rightarrow> (case value of
          FBytes b \<Rightarrow> if sf_internalLength field < int (length b) then Inl (RangeError ''accepts at most'') else Inr b
        | _ \<Rightarrow> Inl (TypeError ''expects Uint8Array bytes''))
    | Some KFloat \<Rightarrow> (case value of
          FNumber bits _ \<Rightarrow>
            if sf_internalLength field \<noteq> 8 \<or> \<not> double_finite bits then Inl (TypeError ''expects a finite 8-byte float'')
            else Inr (le_encode 8 (unat bits))
        | _ \<Rightarrow> Inl (TypeError ''expects a finite 8-byte float''))
    | Some KInt4 \<Rightarrow>
        rbind (must_occupy field 4) (\<lambda>_.
        rbind (field_integer value (- 0x80000000) 0x7fffffff) (\<lambda>i. Inr (le_encode 4 (from_signed 4 i))))
    | Some KInt2 \<Rightarrow>
        rbind (must_occupy field 2) (\<lambda>_.
        rbind (field_integer value (- 0x8000) 0x7fff) (\<lambda>i. Inr (le_encode 2 (from_signed 2 i))))
    | Some KInt1 \<Rightarrow>
        rbind (must_occupy field 1) (\<lambda>_. rbind (field_integer value 0 0xff) (\<lambda>i. Inr [word_of_int i]))
    | Some KInt8 \<Rightarrow>
        rbind (must_occupy field 8) (\<lambda>_.
        rbind (encodeClassicInt8 value int8Mode) (\<lambda>i. Inr (le_encode 8 (from_signed 8 i))))
    | Some KPacked \<Rightarrow> encodePackedDecimal (decimal_of_field value) (sf_internalLength field) (sf_decimals field)
    | Some KDecf16 \<Rightarrow> rbind (must_occupy field 8) (\<lambda>_. encodeDecimalFloat16 (decimal_of_field value))
    | Some KDecf34 \<Rightarrow> rbind (must_occupy field 16) (\<lambda>_. encodeDecimalFloat34 (decimal_of_field value))
    | _ \<Rightarrow> Inl not_implemented)"

definition unicode_field :: "structure_field \<Rightarrow> bool" where
  "unicode_field field \<longleftrightarrow> field_kind_of (sf_exid field) = Some KChar \<or> field_kind_of (sf_exid field) = Some KNumc"

definition next_offset :: "rfc_structure \<Rightarrow> structure_field list \<Rightarrow> int" where
  "next_offset def rest = (case rest of [] \<Rightarrow> rs_byteLength def | field # _ \<Rightarrow> sf_offset field)"

text \<open>The gap behind a character field belongs to it and is filled with its blank.\<close>

definition write_padding :: "rfc_structure \<Rightarrow> structure_field \<Rightarrow> structure_field list \<Rightarrow> bytes \<Rightarrow> bytes result" where
  "write_padding def field rest result =
    (if unicode_field field
     then let fieldEnd = sf_offset field + sf_internalLength field; paddingLength = next_offset def rest - fieldEnd in
       if odd paddingLength then Inl (PlainError ''has an odd Unicode alignment tail'')
       else if 0 < paddingLength
       then let fill = (if field_kind_of (sf_exid field) = Some KChar then 0x20 else 0x30) in
         Inr (splice (nat fieldEnd) (utf16le (replicate (nat (paddingLength div 2)) fill)) result)
       else Inr result
     else Inr result)"

type_synonym structure_input = "(js_string \<times> js_field) list"

text \<open>The caller's value of a field, or the initial value of its kind.\<close>

definition field_given :: "structure_input \<Rightarrow> int8_mode \<Rightarrow> structure_field \<Rightarrow> js_field result" where
  "field_given input int8Mode field = (case map_of input (sf_fieldName field) of
      Some v \<Rightarrow> Inr v | None \<Rightarrow> initialValue field int8Mode)"

fun write_fields :: "rfc_structure \<Rightarrow> structure_input \<Rightarrow> int8_mode \<Rightarrow> structure_field list \<Rightarrow> bytes \<Rightarrow> bytes result" where
  "write_fields def input int8Mode [] result = Inr result"
| "write_fields def input int8Mode (field # rest) result =
     rbind (field_given input int8Mode field) (\<lambda>value.
     rbind (writeValue field value int8Mode) (\<lambda>bs.
     rbind (write_padding def field rest (splice (nat (sf_offset field)) bs result)) (\<lambda>result.
     write_fields def input int8Mode rest result)))"

record structure_options =
  so_int8Mode :: "js_field option"
  so_bcd :: bcd_option

definition encodeClassicStructure :: "rfc_structure \<Rightarrow> structure_input \<Rightarrow> structure_options \<Rightarrow> bytes result" where
  "encodeClassicStructure def input options =
    rbind (snapshotClassicInt8Mode (so_int8Mode options)) (\<lambda>int8Mode.
    rbind (snapshotClassicBcdMode (so_bcd options)) (\<lambda>_.
    rbind (validateClassicStructureCodec def None) (\<lambda>normalized.
    rbind (assertFixedStructure normalized) (\<lambda>_.
    if \<not> fst ` set input \<subseteq> sf_fieldName ` set (rs_fields normalized) then Inl (PlainError ''contains unknown field'')
    else write_fields normalized input int8Mode (rs_fields normalized) (replicate (nat (rs_byteLength normalized)) 0)))))"

section \<open>Reading\<close>

definition readValue :: "bytes \<Rightarrow> structure_field \<Rightarrow> int8_mode \<Rightarrow> bcd_mode \<Rightarrow> field_output result" where
  "readValue source field int8Mode bcd =
    (let value = slice (nat (sf_offset field)) (nat (sf_internalLength field)) source in
     case field_kind_of (sf_exid field) of
      Some (KTemporal x) \<Rightarrow> rbind (decodeClassicTemporal x value) (\<lambda>t. Inr (OutText (units t)))
    | Some KChar \<Rightarrow> rbind (characterLength field) (\<lambda>n. rbind (decodeAbapChar value (Some n)) (\<lambda>s. Inr (OutText s)))
    | Some KNumc \<Rightarrow> rbind (characterLength field) (\<lambda>n. rbind (decodeAbapChar value (Some n)) (\<lambda>s. Inr (OutText s)))
    | Some KDate \<Rightarrow>
        rbind (characterLength field) (\<lambda>n. rbind (decodeAbapFixedChar value n) (\<lambda>decoded. case ascii_chars decoded of
            None \<Rightarrow> Inl (TypeError ''expects YYYYMMDD or eight spaces from the wire'')
          | Some t \<Rightarrow> rbind (classicDatePublicText t) (\<lambda>s. Inr (OutText (units s)))))
    | Some KTime \<Rightarrow>
        rbind (characterLength field) (\<lambda>n. rbind (decodeAbapFixedChar value n) (\<lambda>decoded. case ascii_chars decoded of
            None \<Rightarrow> Inl (TypeError ''expects HHMMSS or six spaces from the wire'')
          | Some t \<Rightarrow> rbind (classicTimePublicText t) (\<lambda>s. Inr (OutText (units s)))))
    | Some KRaw \<Rightarrow> Inr (OutBytes value)
    | Some KFloat \<Rightarrow>
        rbind (must_occupy field 8) (\<lambda>_.
        let decoded = word_of_nat (le_decode value) in
        if \<not> double_finite decoded then Inl (TypeError ''received a non-finite 8-byte float'') else Inr (OutDouble decoded))
    | Some KInt4 \<Rightarrow> rbind (must_occupy field 4) (\<lambda>_. Inr (OutInteger (to_signed 4 (le_decode value))))
    | Some KInt2 \<Rightarrow> rbind (must_occupy field 2) (\<lambda>_. Inr (OutInteger (to_signed 2 (le_decode value))))
    | Some KInt1 \<Rightarrow> rbind (must_occupy field 1) (\<lambda>_. Inr (OutInteger (int (le_decode value))))
    | Some KInt8 \<Rightarrow> rbind (must_occupy field 8) (\<lambda>_. decodeClassicInt8 (to_signed 8 (le_decode value)) int8Mode)
    | Some KPacked \<Rightarrow> rbind (decodePackedDecimal value (sf_decimals field)) (\<lambda>t. projectClassicBcdOutput t bcd)
    | Some KDecf16 \<Rightarrow> rbind (decodeDecimalFloat16 value) (\<lambda>t. projectClassicBcdOutput t bcd)
    | Some KDecf34 \<Rightarrow> rbind (decodeDecimalFloat34 value) (\<lambda>t. projectClassicBcdOutput t bcd)
    | _ \<Rightarrow> Inl not_implemented)"

definition read_field :: "bytes \<Rightarrow> int8_mode \<Rightarrow> bcd_mode \<Rightarrow> structure_field \<Rightarrow> (js_string \<times> field_output) result" where
  "read_field source int8Mode bcd field =
    rbind (readValue source field int8Mode bcd) (\<lambda>v. Inr (sf_fieldName field, v))"

text \<open>None is a value that is not a \<open>Uint8Array\<close>.\<close>

definition decodeClassicStructure ::
    "rfc_structure \<Rightarrow> bytes option \<Rightarrow> structure_options \<Rightarrow> (js_string \<times> field_output) list result" where
  "decodeClassicStructure def value options =
    rbind (snapshotClassicInt8Mode (so_int8Mode options)) (\<lambda>int8Mode.
    rbind (snapshotClassicBcdMode (so_bcd options)) (\<lambda>bcd.
    rbind (validateClassicStructureCodec def None) (\<lambda>normalized.
    rbind (assertFixedStructure normalized) (\<lambda>_.
    case value of
      None \<Rightarrow> Inl (TypeError ''structure expects Uint8Array bytes'')
    | Some source \<Rightarrow>
        if int (length source) \<noteq> rs_byteLength normalized then Inl (RangeError ''structure must contain exactly its bytes'')
        else map_result (read_field source int8Mode bcd) (rs_fields normalized)))))"

end
