(* ===== verification/DensePacked.thy ===== *)
theory DensePacked
  imports DecimalFloat
begin

text \<open>
  The densely packed digits of \<open>DecimalFloat\<close>: every declet of three digits is decoded to itself, and so is
  every coefficient.
\<close>

section \<open>Bit fields of naturals\<close>

lemma push_or: "c < 2 ^ n \<Longrightarrow> push_bit n y OR c = y * 2 ^ n + (c :: nat)"
proof -
  assume c: "c < 2 ^ n"
  have "bit (push_bit n y OR c) k = bit (push_bit n y + c) k" for k
  proof (cases "k < n")
    case True
    then have "bit (push_bit n y + c) k \<longleftrightarrow> bit (take_bit n (push_bit n y + c)) k" by (simp add: bit_take_bit_iff)
    also have "take_bit n (push_bit n y + c) = take_bit n c" by (simp add: take_bit_eq_mod push_bit_eq_mult)
    finally show ?thesis using True by (simp add: bit_or_iff bit_push_bit_iff bit_take_bit_iff)
  next
    case False
    then obtain j where k: "k = j + n" using le_Suc_ex [of n k] by (auto simp: add.commute)
    have "\<not> bit c k" using c False by (metis bit_take_bit_iff linorder_not_less take_bit_nat_eq_self)
    moreover have "bit (push_bit n y + c) k \<longleftrightarrow> bit (drop_bit n (push_bit n y + c)) j" by (simp add: bit_drop_bit_eq k add.commute)
    moreover have "drop_bit n (push_bit n y + c) = y" using c by (simp add: drop_bit_eq_div push_bit_eq_mult)
    ultimately show ?thesis by (simp add: bit_or_iff bit_push_bit_iff k)
  qed
  then show ?thesis by (simp add: bit_eq_iff push_bit_eq_mult)
qed

lemma and_bits: "x AND 1 = x mod (2 :: nat)" "x AND 3 = x mod (4 :: nat)" "x AND 7 = x mod (8 :: nat)"
  "x AND 31 = x mod (32 :: nat)" "x AND 1023 = x mod (1024 :: nat)"
proof -
  have "x AND (2 ^ n - 1) = x mod 2 ^ n" for n :: nat
    using take_bit_eq_mask [of n x] by (simp add: mask_eq_exp_minus_1 take_bit_eq_mod)
  from this [of 1] this [of 2] this [of 3] this [of 5] this [of 10]
  show "x AND 1 = x mod 2" "x AND 3 = x mod 4" "x AND 7 = x mod 8" "x AND 31 = x mod 32" "x AND 1023 = x mod 1024"
    by simp_all
qed

lemma less_8_cases: "(r :: nat) < 8 \<Longrightarrow> r = 0 \<or> r = 1 \<or> r = 2 \<or> r = 3 \<or> r = 4 \<or> r = 5 \<or> r = 6 \<or> r = 7"
  by linarith

lemma digit_bits: "r < 8 \<Longrightarrow> r AND 6 = 2 * (r div 2 :: nat)"
  using less_8_cases [of r] by auto

lemma or_one: "2 * a OR x mod 2 = 2 * a + x mod (2 :: nat)"
  using push_or [of "x mod 2" 1 a] by (simp add: push_bit_eq_mult mult.commute)

lemma or_const: "8 OR x mod 2 = 8 + x mod (2 :: nat)" "10 OR x mod 2 = 10 + x mod (2 :: nat)"
  "12 OR x mod 2 = 12 + x mod (2 :: nat)" "14 OR x mod 2 = 14 + x mod (2 :: nat)"
  "2 OR x mod 2 = 2 + x mod (2 :: nat)" "4 OR x mod 2 = 4 + x mod (2 :: nat)" "6 OR x mod 2 = 6 + x mod (2 :: nat)"
  using mod_less_divisor [of 2 x] less_2_cases [of "x mod 2"] by auto

section \<open>Declets\<close>

lemma declet_fields: "m < 8 \<Longrightarrow> c < 16 \<Longrightarrow> push_bit 7 l OR (push_bit 4 m OR c) = 128 * l + 16 * m + (c :: nat)"
  using push_or [of c 4 m] push_or [of "m * 16 + c" 7 l] by simp

text \<open>The encoding by the digits that are eight or nine.\<close>

lemma encode_declet:
  assumes "l < 10" and "m < 10" and "r < 10"
  shows "encodeDpdDeclet (l * 100 + m * 10 + r) =
    (if l < 8 then
       if m < 8 then if r < 8 then 128 * l + 16 * m + r else 128 * l + 16 * m + (8 + r mod 2)
       else if r < 8 then 128 * l + 16 * (2 * (r div 2) + m mod 2) + (10 + r mod 2)
       else 128 * l + 16 * (4 + m mod 2) + (14 + r mod 2)
     else
       if m < 8 then if r < 8 then 128 * (2 * (r div 2) + l mod 2) + 16 * m + (12 + r mod 2)
         else 128 * (2 * (m div 2) + l mod 2) + 16 * (2 + m mod 2) + (14 + r mod 2)
       else if r < 8 then 128 * (2 * (r div 2) + l mod 2) + 16 * (m mod 2) + (14 + r mod 2)
       else 128 * (l mod 2) + 16 * (6 + m mod 2) + (14 + r mod 2))"
proof -
  have e: "l * 100 + m * 10 + r = r + (l * 10 + m) * 10" "l * 100 + m * 10 + r = (m * 10 + r) + l * 100" by simp_all
  have d: "(l * 100 + m * 10 + r) div 100 = l" using assms unfolding e(2) by simp
  have "(r + (l * 10 + m) * 10) div 10 = (l * 10 + m) + r div 10" by (rule div_mult_self1) simp
  then have d': "(l * 100 + m * 10 + r) div 10 mod 10 = m" "(l * 100 + m * 10 + r) mod 10 = r"
    using assms unfolding e(1) by (simp_all del: distrib_right_numeral add: mod_mult_self1)
  have half: "2 * (r div 2) + m mod 2 < 8" if "r < 8" for r m :: nat using that by presburger
  show ?thesis
    unfolding encodeDpdDeclet_def d d' Let_def
    using half [of r m] half [of r l] half [of m l]
    by (simp add: declet_fields or.assoc and_bits digit_bits or_one or_const not_less [symmetric])
qed

lemma decode_declet:
  assumes "p < 8" and "q < 8" and "c < 16"
  shows "dpd_digits (128 * p + 16 * q + c) =
    (if c < 8 then (p, q, c)
     else if c < 10 then (p, q, 8 + c mod 2)
     else if c < 12 then (p, 8 + q mod 2, 4 * (q div 4) + 2 * (q div 2 mod 2) + c mod 2)
     else if c < 14 then (8 + p mod 2, q, 4 * (p div 4) + 2 * (p div 2 mod 2) + c mod 2)
     else if q < 2 then (8 + p mod 2, 8 + q mod 2, 4 * (p div 4) + 2 * (p div 2 mod 2) + c mod 2)
     else if q < 4 then (8 + p mod 2, 4 * (p div 4) + 2 * (p div 2 mod 2) + q mod 2, 8 + c mod 2)
     else if q < 6 then (p, 8 + q mod 2, 8 + c mod 2)
     else (8 + p mod 2, 8 + q mod 2, 8 + c mod 2))"
proof -
  let ?n = "128 * p + 16 * q + c"
  have f: "drop_bit 7 ?n AND 7 = p" "drop_bit 4 ?n AND 7 = q" "drop_bit 3 ?n AND 1 = c div 8" "drop_bit 2 ?n AND 1 = c div 4 mod 2"
    "drop_bit 1 ?n AND 1 = c div 2 mod 2" "?n AND 1 = c mod 2" "?n AND 7 = c mod 8" "drop_bit 4 ?n AND 1 = q mod 2"
    "drop_bit 6 ?n AND 1 = q div 4" "drop_bit 5 ?n AND 1 = q div 2 mod 2" "drop_bit 7 ?n AND 1 = p mod 2"
    "drop_bit 9 ?n AND 1 = p div 4" "drop_bit 8 ?n AND 1 = p div 2 mod 2" "drop_bit 5 ?n AND 3 = q div 2"
  proof -
    define u where "u = 8 * p + q"
    have n: "?n = 16 * u + c" by (simp add: u_def)
    have hi: "drop_bit 4 ?n = u" using assms(3) by (simp add: n drop_bit_eq_div)
    have up: "drop_bit 7 ?n = p" "drop_bit 9 ?n = p div 4" "drop_bit 8 ?n = p div 2" "drop_bit 6 ?n = u div 4" "drop_bit 5 ?n = u div 2"
    proof -
      have d: "drop_bit (j + 4) ?n = u div 2 ^ j" for j by (metis drop_bit_drop_bit drop_bit_eq_div hi)
      have "u div 8 = p" "u div 32 = p div 4" "u div 16 = p div 2"
        using assms(2) div_mult2_eq [of u 8 4] div_mult2_eq [of u 8 2] by (simp_all add: u_def)
      then show "drop_bit 7 ?n = p" "drop_bit 9 ?n = p div 4" "drop_bit 8 ?n = p div 2" "drop_bit 6 ?n = u div 4" "drop_bit 5 ?n = u div 2"
        using d [of 3] d [of 5] d [of 4] d [of 2] d [of 1] by simp_all
    qed
    have lo: "drop_bit 3 ?n = 2 * u + c div 8" "drop_bit 2 ?n = 4 * u + c div 4" "drop_bit 1 ?n = 8 * u + c div 2"
      by (simp_all add: n drop_bit_eq_div)
    have low: "(2 * u + c div 8) mod 2 = c div 8" "(4 * u + c div 4) mod 2 = c div 4 mod 2" "(8 * u + c div 2) mod 2 = c div 2 mod 2"
    proof -
      have even: "(2 * k + x) mod 2 = x mod 2" for k x :: nat by simp
      have "c div 8 < 2" using assms(3) by simp
      then show "(2 * u + c div 8) mod 2 = c div 8" "(4 * u + c div 4) mod 2 = c div 4 mod 2" "(8 * u + c div 2) mod 2 = c div 2 mod 2"
        using even [of u "c div 8"] even [of "2 * u" "c div 4"] even [of "4 * u" "c div 2"] by simp_all
    qed
    have uq: "u mod 8 = q" "u mod 2 = q mod 2" "u div 4 mod 2 = q div 4" "u div 2 mod 2 = q div 2 mod 2" "u div 2 mod 4 = q div 2"
    proof -
      have "u div 4 = 2 * p + q div 4" "u div 2 = 4 * p + q div 2" by (simp_all add: u_def)
      moreover have "(2 * p + x) mod 2 = x mod 2" "(2 * (2 * p) + x) mod 2 = x mod 2" "(4 * p + x) mod 4 = x mod 4" for x
        using mod_mult_self4 [of 2 p x] mod_mult_self4 [of 2 "2 * p" x] mod_mult_self4 [of 4 p x] by simp_all
      moreover have "q div 4 < 2" "q div 2 < 4" using assms(2) by simp_all
      ultimately show "u mod 8 = q" "u mod 2 = q mod 2" "u div 4 mod 2 = q div 4" "u div 2 mod 2 = q div 2 mod 2" "u div 2 mod 4 = q div 2"
        using assms(2) mod_mult_self4 [of 2 "4 * p" q] by (simp_all add: u_def)
    qed
    have nl: "?n mod 2 = c mod 2" "?n mod 8 = c mod 8"
      using mod_mult_self4 [of 2 "8 * u" c] mod_mult_self4 [of 8 "2 * u" c] unfolding n by simp_all
    show "drop_bit 7 ?n AND 7 = p" "drop_bit 4 ?n AND 7 = q" "drop_bit 3 ?n AND 1 = c div 8" "drop_bit 2 ?n AND 1 = c div 4 mod 2"
      "drop_bit 1 ?n AND 1 = c div 2 mod 2" "?n AND 1 = c mod 2" "?n AND 7 = c mod 8" "drop_bit 4 ?n AND 1 = q mod 2"
      "drop_bit 6 ?n AND 1 = q div 4" "drop_bit 5 ?n AND 1 = q div 2 mod 2" "drop_bit 7 ?n AND 1 = p mod 2"
      "drop_bit 9 ?n AND 1 = p div 4" "drop_bit 8 ?n AND 1 = p div 2 mod 2" "drop_bit 5 ?n AND 3 = q div 2"
      unfolding and_bits hi up lo low uq nl using assms(1) by simp_all
  qed
  have or3: "push_bit 2 a OR push_bit 1 b OR e = 4 * a + 2 * b + (e :: nat)" if "b < 2" "e < 2" for a b e
    using that push_or [of e 1 b] push_or [of "b * 2 + e" 2 a] by (simp add: or.assoc)
  have or: "push_bit 2 (p div 4) OR push_bit 1 (p div 2 mod 2) OR x mod 2 = 4 * (p div 4) + 2 * (p div 2 mod 2) + x mod 2"
    "push_bit 2 (q div 4) OR push_bit 1 (q div 2 mod 2) OR x mod 2 = 4 * (q div 4) + 2 * (q div 2 mod 2) + x mod 2" for x
    by (intro or3; simp)+
  have c: "c < 8 \<Longrightarrow> c div 8 = 0 \<and> c mod 8 = c" "8 \<le> c \<Longrightarrow> c < 10 \<Longrightarrow> c div 8 = 1 \<and> c div 4 mod 2 = 0 \<and> c div 2 mod 2 = 0"
    "10 \<le> c \<Longrightarrow> c < 12 \<Longrightarrow> c div 8 = 1 \<and> c div 4 mod 2 = 0 \<and> c div 2 mod 2 = 1"
    "12 \<le> c \<Longrightarrow> c < 14 \<Longrightarrow> c div 8 = 1 \<and> c div 4 mod 2 = 1 \<and> c div 2 mod 2 = 0"
    "14 \<le> c \<Longrightarrow> c div 8 = 1 \<and> c div 4 mod 2 = 1 \<and> c div 2 mod 2 = 1"
  proof -
    have "c < 8 \<or> c = 8 \<or> c = 9 \<or> c = 10 \<or> c = 11 \<or> c = 12 \<or> c = 13 \<or> c = 14 \<or> c = 15" using assms(3) by linarith
    then show "c < 8 \<Longrightarrow> c div 8 = 0 \<and> c mod 8 = c" "8 \<le> c \<Longrightarrow> c < 10 \<Longrightarrow> c div 8 = 1 \<and> c div 4 mod 2 = 0 \<and> c div 2 mod 2 = 0"
      "10 \<le> c \<Longrightarrow> c < 12 \<Longrightarrow> c div 8 = 1 \<and> c div 4 mod 2 = 0 \<and> c div 2 mod 2 = 1"
      "12 \<le> c \<Longrightarrow> c < 14 \<Longrightarrow> c div 8 = 1 \<and> c div 4 mod 2 = 1 \<and> c div 2 mod 2 = 0"
      "14 \<le> c \<Longrightarrow> c div 8 = 1 \<and> c div 4 mod 2 = 1 \<and> c div 2 mod 2 = 1" by auto
  qed
  have q: "q < 2 \<Longrightarrow> q div 2 = 0" "2 \<le> q \<Longrightarrow> q < 4 \<Longrightarrow> q div 2 = 1" "4 \<le> q \<Longrightarrow> q < 6 \<Longrightarrow> q div 2 = 2"
    "6 \<le> q \<Longrightarrow> q div 2 = 3" using less_8_cases [OF assms(2)] by auto
  define t where "t = q div 2"
  define v w x where "v = c div 8" and "w = c div 4 mod 2" and "x = c div 2 mod 2"
  have dig: "dpd_digits ?n =
    (if v = 0 then (p, q, c mod 8)
     else if w = 0 \<and> x = 0 then (p, q, 8 + c mod 2)
     else if w = 0 \<and> x = 1 then (p, 8 + q mod 2, 4 * (q div 4) + 2 * (q div 2 mod 2) + c mod 2)
     else if w = 1 \<and> x = 0 then (8 + p mod 2, q, 4 * (p div 4) + 2 * (p div 2 mod 2) + c mod 2)
     else if t = 0 then (8 + p mod 2, 8 + q mod 2, 4 * (p div 4) + 2 * (p div 2 mod 2) + c mod 2)
     else if t = 1 then (8 + p mod 2, 4 * (p div 4) + 2 * (p div 2 mod 2) + q mod 2, 8 + c mod 2)
     else if t = 2 then (p, 8 + q mod 2, 8 + c mod 2)
     else (8 + p mod 2, 8 + q mod 2, 8 + c mod 2))"
    unfolding dpd_digits_def Let_def f or t_def v_def w_def x_def by (rule refl)
  consider "c < 8" "v = 0" "c mod 8 = c" | "\<not> c < 8" "c < 10" "v = 1" "w = 0" "x = 0"
    | "\<not> c < 10" "c < 12" "v = 1" "w = 0" "x = 1" | "\<not> c < 12" "c < 14" "v = 1" "w = 1" "x = 0" | "\<not> c < 14" "v = 1" "w = 1" "x = 1"
    using c unfolding v_def w_def x_def by (meson not_le_imp_less)
  then show ?thesis
  proof cases
    case 5
    consider "q < 2" "t = 0" | "\<not> q < 2" "q < 4" "t = 1" | "\<not> q < 4" "q < 6" "t = 2" | "\<not> q < 6" "t = 3"
      using q unfolding t_def by (meson not_le_imp_less)
    then show ?thesis unfolding dig using 5 by cases auto
  qed (simp_all add: dig)
qed

lemma eight_or_nine: "\<not> d < 8 \<Longrightarrow> d < (10 :: nat) \<Longrightarrow> d = 8 \<or> d = 9"
  by linarith

lemma eight_parity: "\<not> d < 8 \<Longrightarrow> d < (10 :: nat) \<Longrightarrow> 8 + d mod 2 = d"
  using eight_or_nine [of d] by auto

lemma split_digit:
  "a < 8 \<Longrightarrow> 4 * ((2 * (a div 2) + x mod 2) div 4) + 2 * ((2 * (a div 2) + x mod 2) div 2 mod 2) + a mod 2 = (a :: nat)"
  "a < 8 \<Longrightarrow> 2 * (a div 2) + x mod 2 < (8 :: nat)"
  "(2 * a + x mod 2) mod 2 = x mod (2 :: nat)"
proof -
  have x: "x mod 2 = 0 \<or> x mod 2 = 1" by linarith
  show "4 * ((2 * (a div 2) + x mod 2) div 4) + 2 * ((2 * (a div 2) + x mod 2) div 2 mod 2) + a mod 2 = a" if "a < 8"
    using less_8_cases [OF that] x by (elim disjE) simp_all
  show "2 * (a div 2) + x mod 2 < 8" if "a < 8" using less_8_cases [OF that] x by (elim disjE) simp_all
  show "(2 * a + x mod 2) mod 2 = x mod 2" by simp
qed

text \<open>The table of \<open>decode_declet\<close> by the last bits \<open>b\<close> and \<open>d\<close> of the fields.\<close>

lemma decode_small: "p < 8 \<Longrightarrow> q < 8 \<Longrightarrow> c < 8 \<Longrightarrow> dpd_digits (128 * p + 16 * q + c) = (p, q, c)"
  using decode_declet [of p q c] by simp

lemma decode_large:
  assumes "p < 8" and "b < 2"
  shows "q < 8 \<Longrightarrow> dpd_digits (128 * p + 16 * q + (8 + b)) = (p, q, 8 + b)"
    and "q < 8 \<Longrightarrow> dpd_digits (128 * p + 16 * q + (10 + b)) = (p, 8 + q mod 2, 4 * (q div 4) + 2 * (q div 2 mod 2) + b)"
    and "q < 8 \<Longrightarrow> dpd_digits (128 * p + 16 * q + (12 + b)) = (8 + p mod 2, q, 4 * (p div 4) + 2 * (p div 2 mod 2) + b)"
    and "d < 2 \<Longrightarrow> dpd_digits (128 * p + 16 * d + (14 + b)) = (8 + p mod 2, 8 + d, 4 * (p div 4) + 2 * (p div 2 mod 2) + b)"
    and "d < 2 \<Longrightarrow> dpd_digits (128 * p + 16 * (2 + d) + (14 + b)) = (8 + p mod 2, 4 * (p div 4) + 2 * (p div 2 mod 2) + d, 8 + b)"
    and "d < 2 \<Longrightarrow> dpd_digits (128 * p + 16 * (4 + d) + (14 + b)) = (p, 8 + d, 8 + b)"
    and "d < 2 \<Longrightarrow> dpd_digits (128 * p + 16 * (6 + d) + (14 + b)) = (8 + p mod 2, 8 + d, 8 + b)"
proof -
  have b: "b = 0 \<or> b = 1" using assms(2) by linarith
  have d: "d < 2 \<Longrightarrow> d = 0 \<or> d = 1" for d :: nat by linarith
  show "q < 8 \<Longrightarrow> dpd_digits (128 * p + 16 * q + (8 + b)) = (p, q, 8 + b)"
    using b assms(1) decode_declet [of p q 8] decode_declet [of p q 9] by (elim disjE) simp_all
  show "q < 8 \<Longrightarrow> dpd_digits (128 * p + 16 * q + (10 + b)) = (p, 8 + q mod 2, 4 * (q div 4) + 2 * (q div 2 mod 2) + b)"
    using b assms(1) decode_declet [of p q 10] decode_declet [of p q 11] by (elim disjE) simp_all
  show "q < 8 \<Longrightarrow> dpd_digits (128 * p + 16 * q + (12 + b)) = (8 + p mod 2, q, 4 * (p div 4) + 2 * (p div 2 mod 2) + b)"
    using b assms(1) decode_declet [of p q 12] decode_declet [of p q 13] by (elim disjE) simp_all
  show "d < 2 \<Longrightarrow> dpd_digits (128 * p + 16 * d + (14 + b)) = (8 + p mod 2, 8 + d, 4 * (p div 4) + 2 * (p div 2 mod 2) + b)"
    using b assms(1) decode_declet [of p d 14] decode_declet [of p d 15] by (elim disjE) simp_all
  show "d < 2 \<Longrightarrow> dpd_digits (128 * p + 16 * (2 + d) + (14 + b)) = (8 + p mod 2, 4 * (p div 4) + 2 * (p div 2 mod 2) + d, 8 + b)"
    using b d [of d] assms(1) decode_declet [of p "2 + d" 14] decode_declet [of p "2 + d" 15] by (elim disjE) simp_all
  show "d < 2 \<Longrightarrow> dpd_digits (128 * p + 16 * (4 + d) + (14 + b)) = (p, 8 + d, 8 + b)"
    using b d [of d] assms(1) decode_declet [of p "4 + d" 14] decode_declet [of p "4 + d" 15] by (elim disjE) auto
  show "d < 2 \<Longrightarrow> dpd_digits (128 * p + 16 * (6 + d) + (14 + b)) = (8 + p mod 2, 8 + d, 8 + b)"
    using b d [of d] assms(1) decode_declet [of p "6 + d" 14] decode_declet [of p "6 + d" 15] by (elim disjE) auto
qed

lemma declet_digits:
  assumes "l < 10" and "m < 10" and "r < 10"
  shows "dpd_digits (encodeDpdDeclet (l * 100 + m * 10 + r)) = (l, m, r) \<and> encodeDpdDeclet (l * 100 + m * 10 + r) < 1024"
proof -
  note e = encode_declet [OF assms]
  note eight = eight_parity [OF _ assms(1)] eight_parity [OF _ assms(2)] eight_parity [OF _ assms(3)]
  have two: "x mod 2 < 2" "x mod 2 < 8" for x :: nat by simp_all
  have bound: "128 * p + 16 * q + c < 1024" if "p < 8" "q < 8" "c < 16" for p q c :: nat using that by linarith
  have tails: "8 + x mod 2 < 16" "10 + x mod 2 < 16" "12 + x mod 2 < 16" "14 + x mod 2 < 16"
    "2 + x mod 2 < 8" "4 + x mod 2 < 8" "6 + x mod 2 < 8" for x :: nat by (use two(1) [of x] in linarith)+
  show ?thesis
  proof (cases "l < 8"; cases "m < 8"; cases "r < 8")
    assume h: "l < 8" "m < 8" "r < 8"
    show ?thesis unfolding e if_P [OF h(1)] if_P [OF h(2)] if_P [OF h(3)]
      using decode_small [OF h] bound [OF h(1,2), of r] h(3) by simp
  next
    assume h: "l < 8" "m < 8" "\<not> r < 8"
    show ?thesis unfolding e if_P [OF h(1)] if_P [OF h(2)] if_not_P [OF h(3)] decode_large(1) [OF h(1) two(1) h(2)]
      using bound [OF h(1,2) tails(1) [of r]] eight(3) [OF h(3)] by simp
  next
    assume h: "l < 8" "\<not> m < 8" "r < 8"
    show ?thesis unfolding e if_P [OF h(1)] if_not_P [OF h(2)] if_P [OF h(3)]
        decode_large(2) [OF h(1) two(1) split_digit(2) [OF h(3)]] split_digit(1) [OF h(3)] split_digit(3)
      using bound [OF h(1) split_digit(2) [OF h(3)] tails(2)] eight(2) [OF h(2)] by blast
  next
    assume h: "l < 8" "\<not> m < 8" "\<not> r < 8"
    show ?thesis unfolding e if_P [OF h(1)] if_not_P [OF h(2)] if_not_P [OF h(3)] decode_large(6) [OF h(1) two(1) two(1)]
      using bound [OF h(1) tails(6) tails(4)] eight(2) [OF h(2)] eight(3) [OF h(3)] by simp
  next
    assume h: "\<not> l < 8" "m < 8" "r < 8"
    show ?thesis unfolding e if_not_P [OF h(1)] if_P [OF h(2)] if_P [OF h(3)]
        decode_large(3) [OF split_digit(2) [OF h(3)] two(1) h(2)] split_digit(1) [OF h(3)] split_digit(3)
      using bound [OF split_digit(2) [OF h(3)] h(2) tails(3)] eight(1) [OF h(1)] by blast
  next
    assume h: "\<not> l < 8" "m < 8" "\<not> r < 8"
    show ?thesis unfolding e if_not_P [OF h(1)] if_P [OF h(2)] if_not_P [OF h(3)]
        decode_large(5) [OF split_digit(2) [OF h(2)] two(1) two(1)] split_digit(1) [OF h(2)] split_digit(3)
      using bound [OF split_digit(2) [OF h(2)] tails(5) tails(4)] eight(1) [OF h(1)] eight(3) [OF h(3)] by blast
  next
    assume h: "\<not> l < 8" "\<not> m < 8" "r < 8"
    show ?thesis unfolding e if_not_P [OF h(1)] if_not_P [OF h(2)] if_P [OF h(3)]
        decode_large(4) [OF split_digit(2) [OF h(3)] two(1) two(1)] split_digit(1) [OF h(3)] split_digit(3)
      using bound [OF split_digit(2) [OF h(3)] two(2) tails(4)] eight(1) [OF h(1)] eight(2) [OF h(2)] by blast
  next
    assume h: "\<not> l < 8" "\<not> m < 8" "\<not> r < 8"
    show ?thesis unfolding e if_not_P [OF h(1)] if_not_P [OF h(2)] if_not_P [OF h(3)] decode_large(7) [OF two(2) two(1) two(1)]
      using bound [OF two(2) tails(7) tails(4)] eight(1) [OF h(1)] eight(2) [OF h(2)] eight(3) [OF h(3)] by simp
  qed
qed

section \<open>Coefficients\<close>

lemma natural_digits_length: "0 < n \<Longrightarrow> v < 10 ^ n \<Longrightarrow> length (natural_digits v) \<le> n"
proof (induction n arbitrary: v)
  case (Suc n)
  show ?case
  proof (cases "v < 10")
    case False
    then have "0 < n" using Suc.prems by (cases n) auto
    moreover have "v div 10 < 10 ^ n" using Suc.prems by (simp add: less_mult_imp_div_less mult.commute)
    ultimately show ?thesis using Suc.IH [of "v div 10"] False by (simp add: natural_digits.simps [of v])
  qed (simp add: natural_digits.simps)
qed simp

lemma three_digits: "digits_ok [a, b, c] \<Longrightarrow> pad_zeros 3 (natural_digits (a * 100 + b * 10 + c)) = [a, b, c]"
proof (rule digits_unique)
  assume ok: "digits_ok [a, b, c]"
  then have "a * 100 + b * 10 + c < 10 ^ 3" by simp
  then show "length (pad_zeros 3 (natural_digits (a * 100 + b * 10 + c))) = length [a, b, c]"
    using natural_digits_length [of 3 "a * 100 + b * 10 + c"] by simp
  show "digits_value (pad_zeros 3 (natural_digits (a * 100 + b * 10 + c))) = digits_value [a, b, c]"
    by (simp add: digits_value_Cons)
qed simp_all

lemma coefficient_loop_append:
  "length xs mod 3 = 0 \<Longrightarrow> coefficient_loop e (xs @ ys) = coefficient_loop (coefficient_loop e xs) ys"
proof (induction e xs rule: coefficient_loop.induct)
  case (1 e xs)
  show ?case
  proof (cases "xs = []")
    case False
    have "3 \<le> length xs" using False "1.prems" by (metis length_0_conv mod_less not_le)
    moreover from this have "length (drop 3 xs) mod 3 = 0" using "1.prems" by (simp add: le_mod_geq)
    ultimately show ?thesis using "1.IH" False
      by (simp add: coefficient_loop.simps [of e "xs @ ys"] coefficient_loop.simps [of e xs])
  qed (simp add: coefficient_loop.simps [of e "[]"])
qed

lemma coefficient_snoc:
  assumes "length xs = 3 * n"
  shows "encodeCoefficientContinuation (xs @ [a, b, c]) =
    push_bit 10 (encodeCoefficientContinuation xs) OR encodeDpdDeclet (a * 100 + b * 10 + c)"
  using assms coefficient_loop_append [of xs 0 "[a, b, c]"]
  by (simp add: encodeCoefficientContinuation_def coefficient_loop.simps [of _ "[a, b, c]"] coefficient_loop.simps [of _ "[]"]
      digits_value_Cons algebra_simps)

lemma last_three: "length ds = 3 * Suc n \<Longrightarrow> \<exists>xs a b c. ds = xs @ [a, b, c] \<and> length xs = 3 * n"
proof -
  assume len: "length ds = 3 * Suc n"
  then have "length (drop (3 * n) ds) = Suc (Suc (Suc 0))" by simp
  then obtain a b c where "drop (3 * n) ds = [a, b, c]" by (auto simp only: length_Suc_conv length_0_conv)
  then have "ds = take (3 * n) ds @ [a, b, c]" by (metis append_take_drop_id)
  then show ?thesis using len by (intro exI [of _ "take (3 * n) ds"]) auto
qed

lemma coefficient_roundtrip:
  "digits_ok ds \<Longrightarrow> length ds = 3 * n \<Longrightarrow>
     declet_groups n (encodeCoefficientContinuation ds) = ds \<and> encodeCoefficientContinuation ds < 2 ^ (10 * n)"
proof (induction n arbitrary: ds)
  case 0
  then show ?case by (simp add: encodeCoefficientContinuation_def coefficient_loop.simps)
next
  case (Suc n)
  then obtain xs a b c where ds: "ds = xs @ [a, b, c]" and len: "length xs = 3 * n" using last_three by blast
  then have ok: "digits_ok xs" "digits_ok [a, b, c]" using Suc.prems by auto
  define e d where "e = encodeCoefficientContinuation xs" and "d = encodeDpdDeclet (a * 100 + b * 10 + c)"
  have ih: "declet_groups n e = xs" "e < 2 ^ (10 * n)" using Suc.IH [OF ok(1) len] by (simp_all add: e_def)
  have d: "dpd_digits d = (a, b, c)" "d < 1024" using declet_digits [of a b c] ok(2) by (simp_all add: d_def)
  have enc: "encodeCoefficientContinuation ds = e * 1024 + d"
    using push_or [of d 10 e] d(2) by (simp add: ds coefficient_snoc [OF len] e_def d_def)
  have "drop_bit 10 (e * 1024 + d) = e" "(e * 1024 + d) AND 1023 = d" using d(2) by (simp_all add: drop_bit_eq_div and_bits)
  moreover have "pad_zeros 3 (natural_digits (decodeDpdDeclet d)) = [a, b, c]"
    using three_digits [OF ok(2)] d(1) by (simp add: decodeDpdDeclet_def)
  moreover have "e * 1024 + d < 2 ^ (10 * Suc n)"
  proof -
    have "Suc e \<le> 2 ^ (10 * n)" using ih(2) by simp
    then have "Suc e * 1024 \<le> 2 ^ (10 * n) * 1024" by (rule mult_le_mono1)
    then show ?thesis using d(2) by (simp add: power_add)
  qed
  ultimately show ?case unfolding enc using ih(1) by (simp add: ds)
qed

end
