(* ===== verification/DecimalFloatCodec.thy ===== *)
theory DecimalFloatCodec
  imports DensePacked
begin

text \<open>
  Decimal floats are exact: what the encoder of \<open>DecimalFloat\<close> accepts is decoded to a text of the same value
  and sign, or to the same infinity or NaN with its payload.
\<close>

section \<open>The fields of an encoded value\<close>

definition decfloat_ok :: "decfloat_format \<Rightarrow> bool" where
  "decfloat_ok format \<longleftrightarrow> format = DECF16 \<or> format = DECF34"

lemma decfloat_facts:
  assumes "decfloat_ok format"
  shows "total_bits format = ff_coefficientContinuationBits format + ff_exponentContinuationBits format + 6"
    "ff_precision format = Suc (3 * ((ff_precision format - 1) div 3))"
    "ff_coefficientContinuationBits format = 10 * ((ff_precision format - 1) div 3)"
    "0 < ff_exponentContinuationBits format" "(256 :: nat) ^ ff_byteLength format = 2 ^ total_bits format"
  using assms by (auto simp: decfloat_ok_def DECF16_def DECF34_def total_bits_def)

text \<open>Sign, combination, exponent continuation and coefficient continuation, from the top.\<close>

definition decfloat_fields :: "decfloat_format \<Rightarrow> nat \<Rightarrow> nat \<Rightarrow> nat \<Rightarrow> nat \<Rightarrow> nat" where
  "decfloat_fields format s comb ec cc =
    ((s * 32 + comb) * 2 ^ ff_exponentContinuationBits format + ec) * 2 ^ ff_coefficientContinuationBits format + cc"

lemma fields_of_bits:
  assumes "decfloat_ok format" and "comb < 32" and "ec < 2 ^ ff_exponentContinuationBits format"
    and "cc < 2 ^ ff_coefficientContinuationBits format"
  shows "sign_bit format neg OR push_bit (total_bits format - 6) comb OR push_bit (ff_coefficientContinuationBits format) ec OR cc =
    decfloat_fields format (if neg then 1 else 0) comb ec cc"
proof -
  let ?c = "ff_coefficientContinuationBits format" and ?e = "ff_exponentContinuationBits format"
  let ?s = "if neg then 1 else 0 :: nat"
  have t: "total_bits format - 1 = ?c + (?e + 5)" "total_bits format - 6 = ?c + ?e"
    using decfloat_facts(1) [OF assms(1)] by simp_all
  have "push_bit (total_bits format - 1) (1 :: nat) = push_bit ?c (push_bit ?e (push_bit 5 1))" unfolding t(1) by (simp only: push_bit_push_bit add.assoc)
  then obtain t where t': "sign_bit format neg = push_bit ?c (push_bit ?e t)" "t = push_bit 5 ?s"
    by (cases neg) (simp_all only: sign_bit_def if_True if_False push_bit_of_0 simp_thms)
  have comb: "push_bit (total_bits format - 6) comb = push_bit ?c (push_bit ?e comb)" by (simp add: t)
  have "t OR comb = ?s * 32 + comb" using push_or [of comb 5 ?s] assms(2) by (simp add: t'(2))
  then have "(sign_bit format neg OR push_bit (total_bits format - 6) comb) OR push_bit ?c ec =
      push_bit ?c (push_bit ?e (?s * 32 + comb) OR ec)" by (simp only: t'(1) comb push_bit_or [symmetric])
  then show ?thesis
    using push_or [OF assms(3), of "?s * 32 + comb"] push_or [OF assms(4), of "(?s * 32 + comb) * 2 ^ ?e + ec"]
    by (simp add: decfloat_fields_def or.assoc [symmetric])
qed

lemma and_low_mask: "x AND (push_bit n 1 - 1) = x mod (2 ^ n :: nat)"
  using take_bit_eq_mask [of n x] by (simp add: mask_eq_exp_minus_1 take_bit_eq_mod push_bit_eq_mult)

lemma bits_of_fields:
  assumes "decfloat_ok format" and "s < 2" and "comb < 32" and "ec < 2 ^ ff_exponentContinuationBits format"
    and "cc < 2 ^ ff_coefficientContinuationBits format"
  defines "v \<equiv> decfloat_fields format s comb ec cc"
  shows "v < 256 ^ ff_byteLength format" "drop_bit (total_bits format - 1) v AND 1 = s"
    "drop_bit (total_bits format - 6) v AND 31 = comb"
    "v AND (push_bit (ff_coefficientContinuationBits format) 1 - 1) = cc"
    "drop_bit (ff_coefficientContinuationBits format) v AND (push_bit (ff_exponentContinuationBits format) 1 - 1) = ec"
    "drop_bit (ff_coefficientContinuationBits format + ff_exponentContinuationBits format - 1) v AND 1 =
       ec div 2 ^ (ff_exponentContinuationBits format - 1)"
proof -
  let ?c = "ff_coefficientContinuationBits format" and ?e = "ff_exponentContinuationBits format"
  note t = decfloat_facts [OF assms(1)]
  have low: "v div 2 ^ ?c = (s * 32 + comb) * 2 ^ ?e + ec" "v mod 2 ^ ?c = cc"
    using assms(5) by (simp_all add: v_def decfloat_fields_def)
  then have mid: "v div 2 ^ (?c + ?e) = s * 32 + comb" using assms(4) by (simp add: power_add div_mult2_eq)
  then have top: "v div 2 ^ (?c + ?e + 5) = s" using assms(3) by (simp add: power_add div_mult2_eq)
  show "drop_bit (total_bits format - 1) v AND 1 = s" proof -
    have "total_bits format - 1 = ?c + ?e + 5" using t(1) by simp
    then show ?thesis using top assms(2) by (simp only: drop_bit_eq_div and_bits) simp
  qed
  show "drop_bit (total_bits format - 6) v AND 31 = comb" using mid assms(3) by (simp add: t(1) drop_bit_eq_div and_bits)
  show "v AND (push_bit ?c 1 - 1) = cc" using low by (simp only: and_low_mask)
  show "drop_bit ?c v AND (push_bit ?e 1 - 1) = ec" using low(1) assms(4) by (simp only: and_low_mask drop_bit_eq_div) simp
  have "v div 2 ^ ?c div 2 ^ (?e - 1) = (s * 32 + comb) * 2 + ec div 2 ^ (?e - 1)"
  proof -
    have "(2 :: nat) ^ ?e = 2 * 2 ^ (?e - 1)" using t(4) by (simp flip: power_Suc)
    then have "v div 2 ^ ?c = ec + ((s * 32 + comb) * 2) * 2 ^ (?e - 1)" by (simp add: low(1))
    then show ?thesis by simp
  qed
  moreover have "ec div 2 ^ (?e - 1) < 2"
    using assms(4) t(4) by (simp add: less_mult_imp_div_less flip: power_Suc)
  moreover have "(2 :: nat) ^ (?c + ?e - 1) = 2 ^ ?c * 2 ^ (?e - 1)" using t(4) by (simp flip: power_add)
  ultimately show "drop_bit (?c + ?e - 1) v AND 1 = ec div 2 ^ (?e - 1)"
    using mod_mult_self3 [of "s * 32 + comb" 2 "ec div 2 ^ (?e - 1)"] by (simp only: drop_bit_eq_div and_bits div_mult2_eq) simp
  have "s * 32 + comb < 2 ^ 6" using assms(2,3) by simp
  then have "v div 2 ^ (?c + ?e) < 2 ^ 6" by (simp only: mid)
  then have "v < 2 ^ 6 * 2 ^ (?c + ?e)" by (simp add: div_less_iff_less_mult)
  then show "v < 256 ^ ff_byteLength format" unfolding t(5) t(1) by (simp add: power_add mult.commute)
qed

section \<open>Printed texts\<close>

lemma exponent_printed: "match_exponent (0x45 # exponent_text e) = Some (Some e)"
proof (cases "0 \<le> e")
  case True
  then show ?thesis using match_exponent_printed [of "natural_digits (nat e)" False] by (simp add: exponent_text_def bigint_text_def)
next
  case False
  then show ?thesis using match_exponent_printed [of "natural_digits (nat (- e))" True] by (simp add: exponent_text_def bigint_text_def)
qed

lemma formatFinite_value:
  assumes "digits_ok c"
  obtains m where "decimal_match (formatFinite negative c e) = Some m" "dp_negative m = negative"
    "decimal_value m = (if negative then - 1 else 1) * of_nat (digits_value c) * 10 powi e"
proof -
  define ds where "ds = (if strip_zeros c = [] then [0] else strip_zeros c)"
  define adj where "adj = e + int (length ds) - 1"
  have ds: "digits_ok ds" "ds \<noteq> []" using assms by (simp_all add: ds_def)
  have dv: "digits_value ds = digits_value c" using strip_zeros_value [of c] by (cases "strip_zeros c = []") (simp_all add: ds_def digits_value_Cons)
  note goal = that
  have printed: thesis
    if "formatFinite negative c e = (if negative then [u_minus] else []) @ digit_text i @ (if p then u_point # digit_text f else []) @ r"
      "digits_ok i" "i \<noteq> []" "digits_ok f" "tail_ok r" "match_exponent r = Some x"
      "digits_value (i @ (if p then f else [])) = digits_value c" "or_else x 0 - int (length (if p then f else [])) = e"
    for i f p r x
  proof -
    define m where "m = \<lparr>dp_negative = negative, dp_integer = i, dp_fraction = (if p then f else []), dp_exponent = x\<rparr>"
    have "decimal_match (formatFinite negative c e) = Some m"
      unfolding that(1) by (subst decimal_match_printed [OF that(2-5)]) (simp add: that(6) m_def)
    moreover have "decimal_value m = (if negative then - 1 else 1) * of_nat (digits_value c) * 10 powi e"
      using that(7,8) by (simp add: decimal_value_def coefficient_def m_def)
    ultimately show thesis by (intro goal [of m]) (simp_all add: m_def)
  qed
  have tail: "tail_ok (0x45 # t)" "tail_ok []" for t by (simp_all add: tail_ok_def is_digit_def)
  consider "e = 0" "- 6 \<le> adj" | "e < 0" "- 6 \<le> adj" "0 < int (length ds) + e" | "e < 0" "- 6 \<le> adj" "\<not> 0 < int (length ds) + e"
    | "\<not> (e \<le> 0 \<and> - 6 \<le> adj)" by linarith
  then show thesis
  proof cases
    case 1
    then show thesis using printed [of ds False "[]" "[]" None] ds dv tail
      by (simp add: formatFinite_def Let_def match_exponent_def flip: ds_def adj_def)
  next
    case 2
    let ?k = "nat (int (length ds) + e)"
    have "digits_ok (take ?k ds)" "digits_ok (drop ?k ds)" using ds(1) by (metis append_take_drop_id digits_ok_simps(3))+
    then show thesis using 2 printed [of "take ?k ds" True "drop ?k ds" "[]" None] ds dv tail
      by (simp add: formatFinite_def Let_def match_exponent_def flip: ds_def adj_def)
  next
    case 3
    let ?z = "replicate (nat (- (int (length ds) + e))) 0"
    have "formatFinite negative c e = (if negative then [u_minus] else []) @ digit_text [0] @ u_point # digit_text (?z @ ds)"
      unfolding formatFinite_def Let_def ds_def [symmetric] adj_def [symmetric] using 3 by simp
    then show thesis using 3 printed [of "[0]" True "?z @ ds" "[]" None] ds dv tail
      by (simp add: match_exponent_def digits_value_append digits_value_Cons)
  next
    case 4
    obtain d r where dr: "ds = d # r" using ds(2) by (cases ds) auto
    show thesis
    proof (cases "r = []")
      case True
      then show thesis using 4 printed [of ds False "[]" "0x45 # exponent_text adj" "Some adj"] ds dv tail
        by (auto simp: formatFinite_def Let_def exponent_printed adj_def dr simp flip: ds_def)
    next
      case False
      then show thesis using 4 printed [of "[d]" True r "0x45 # exponent_text adj" "Some adj"] ds dv tail
        by (auto simp: formatFinite_def Let_def exponent_printed adj_def dr simp flip: ds_def)
    qed
  qed
qed

section \<open>Finite values\<close>

lemma pad_nth: "digits_ok c \<Longrightarrow> length c \<le> p \<Longrightarrow> 0 < p \<Longrightarrow>
    pad_zeros p c ! 0 < 10 \<and> pad_zeros p c = pad_zeros p c ! 0 # drop 1 (pad_zeros p c)"
proof -
  assume "digits_ok c" "length c \<le> p" "0 < p"
  then have "digits_ok (pad_zeros p c)" "length (pad_zeros p c) = p" by simp_all
  then show ?thesis using \<open>0 < p\<close> by (cases "pad_zeros p c") auto
qed

lemma format_padded: "formatFinite negative (pad_zeros p c) e = formatFinite negative c e"
proof -
  have "strip_zeros (replicate n 0 @ c) = strip_zeros c" for n by (induction n) (simp_all add: strip_zeros_def)
  then show ?thesis by (simp add: formatFinite_def pad_zeros_def)
qed

definition finite_fits :: "decfloat_format \<Rightarrow> finite_decimal \<Rightarrow> bool" where
  "finite_fits format v \<longleftrightarrow> digits_ok (fd_coefficient v) \<and> length (fd_coefficient v) \<le> ff_precision format \<and>
     - int (ff_exponentBias format) \<le> fd_exponent v \<and>
     fd_exponent v + int (ff_exponentBias format) \<le> maximum_encoded_exponent format"

lemma combination_split:
  assumes "d < (10 :: nat)" and "x \<le> 2"
  defines "comb \<equiv> (if d \<le> 7 then push_bit 3 x OR d else 24 OR push_bit 1 x OR (d - 8))"
  shows "comb < 30" "(if comb < 24 then drop_bit 3 comb else drop_bit 1 comb AND 3) = x"
    "(if comb < 24 then comb AND 7 else 8 + (comb AND 1)) = d"
proof -
  have x: "x = 0 \<or> x = 1 \<or> x = 2" using assms(2) by linarith
  show "comb < 30" "(if comb < 24 then drop_bit 3 comb else drop_bit 1 comb AND 3) = x"
    "(if comb < 24 then comb AND 7 else 8 + (comb AND 1)) = d"
  proof (atomize (full), cases "d < 8")
    case True
    then have "comb = x * 8 + d" using push_or [of d 3 x] by (simp add: comb_def)
    then show "comb < 30 \<and> (if comb < 24 then drop_bit 3 comb else drop_bit 1 comb AND 3) = x \<and>
        (if comb < 24 then comb AND 7 else 8 + (comb AND 1)) = d"
      using True x by (auto simp: drop_bit_eq_div and_bits)
  next
    case False
    then have "d = 8 \<or> d = 9" using assms(1) by linarith
    then show "comb < 30 \<and> (if comb < 24 then drop_bit 3 comb else drop_bit 1 comb AND 3) = x \<and>
        (if comb < 24 then comb AND 7 else 8 + (comb AND 1)) = d"
      using x by (auto simp: comb_def)
  qed
qed

lemma decode_encode_finite:
  assumes "decfloat_ok format" and "finite_fits format v"
  shows "decodeDecimalFloat (encode_finite v format) format = Inr (formatFinite (fd_negative v) (fd_coefficient v) (fd_exponent v))"
    and "length (encode_finite v format) = ff_byteLength format"
proof -
  note t = decfloat_facts [OF assms(1)]
  let ?C = "ff_coefficientContinuationBits format" and ?E = "ff_exponentContinuationBits format"
  define n where "n = (ff_precision format - 1) div 3"
  define ds where "ds = pad_zeros (ff_precision format) (fd_coefficient v)"
  define x where "x = nat (fd_exponent v + int (ff_exponentBias format))"
  define cc where "cc = encodeCoefficientContinuation (drop 1 ds)"
  have fits: "digits_ok (fd_coefficient v)" "length (fd_coefficient v) \<le> ff_precision format"
    "0 \<le> fd_exponent v + int (ff_exponentBias format)"
    "fd_exponent v + int (ff_exponentBias format) < 3 * 2 ^ ?E"
    using assms(2) by (simp_all add: finite_fits_def maximum_encoded_exponent_def)
  have p: "0 < ff_precision format" "ff_precision format - 1 = 3 * n" using t(2) by (simp_all add: n_def)
  have ds: "digits_ok ds" "length ds = ff_precision format" using fits by (simp_all add: ds_def)
  have hd: "ds ! 0 < 10" "ds = ds ! 0 # drop 1 ds" using pad_nth [OF fits(1,2) p(1)] by (simp_all add: ds_def)
  have tail: "digits_ok (drop 1 ds)" "length (drop 1 ds) = 3 * n"
    using ds p(2) by (metis digits_ok_simps(3) append_take_drop_id, simp)
  have cc: "declet_groups n cc = drop 1 ds" "cc < 2 ^ ?C"
    using coefficient_roundtrip [OF tail] t(3) by (simp_all add: cc_def n_def)
  have x: "int x = fd_exponent v + int (ff_exponentBias format)" using fits(3) by (simp add: x_def)
  have "int x < 3 * 2 ^ ?E" using x fits(4) by simp
  then have "x < 3 * 2 ^ ?E" by (metis of_nat_less_iff of_nat_mult of_nat_numeral of_nat_power)
  then have hi: "x div 2 ^ ?E \<le> 2" by (simp add: less_mult_imp_div_less flip: less_Suc_eq_le)
  define comb where "comb = (if ds ! 0 \<le> 7 then push_bit 3 (x div 2 ^ ?E) OR ds ! 0 else 24 OR push_bit 1 (x div 2 ^ ?E) OR (ds ! 0 - 8))"
  note cb = combination_split [OF hd(1) hi, folded comb_def]
  have comb: "comb < 32" "comb \<noteq> 30" "comb \<noteq> 31" using cb(1) by auto
  let ?ec = "x mod 2 ^ ?E" and ?s = "if fd_negative v then 1 else 0 :: nat"
  have enc: "encode_finite v format = le_encode (ff_byteLength format) (decfloat_fields format ?s comb ?ec cc)"
    using fields_of_bits [OF assms(1) comb(1) _ cc(2), of ?ec "fd_negative v"]
    unfolding encode_finite_def Let_def ds_def [symmetric] x_def [symmetric] cc_def [symmetric] and_low_mask drop_bit_eq_div
    by (simp add: comb_def)
  have s: "?s < 2" and ec: "?ec < 2 ^ ?E" by simp_all
  note b = bits_of_fields [OF assms(1) s comb(1) ec cc(2)]
  show len: "length (encode_finite v format) = ff_byteLength format" by (simp add: enc)
  have exponent: "push_bit ?E (x div 2 ^ ?E) OR ?ec = x" using push_or [OF ec, of "x div 2 ^ ?E"] by (simp add: div_mult_mod_eq)
  have coeff: "decodeCoefficientContinuation cc (ff_precision format - 1) = drop 1 ds"
    unfolding decodeCoefficientContinuation_def p(2) using cc(1) by simp
  have le: "le_decode (encode_finite v format) = decfloat_fields format ?s comb ?ec cc"
    using b(1) by (simp add: enc)
  have neg: "(?s = 1) = fd_negative v" by simp
  have "decodeDecimalFloat (encode_finite v format) format =
      Inr (formatFinite (fd_negative v) (ds ! 0 # drop 1 ds) (int x - int (ff_exponentBias format)))"
    unfolding decodeDecimalFloat_def len Let_def le b(2-5) neg cb(2,3) exponent coeff
    using comb by simp
  then show "decodeDecimalFloat (encode_finite v format) format = Inr (formatFinite (fd_negative v) (fd_coefficient v) (fd_exponent v))"
    unfolding hd(2) [symmetric] x by (simp add: ds_def format_padded)
qed

section \<open>Special values\<close>

definition special_text :: "special_decimal \<Rightarrow> js_string" where
  "special_text v = (if sd_negative v then [u_minus] else []) @
    (case sd_kind v of KindInfinity \<Rightarrow> units ''Infinity''
     | KindNan \<Rightarrow> units ''NaN'' @ digit_text (sd_diagnostic v) | KindSnan \<Rightarrow> units ''sNaN'' @ digit_text (sd_diagnostic v))"

definition special_fits :: "decfloat_format \<Rightarrow> special_decimal \<Rightarrow> bool" where
  "special_fits format v \<longleftrightarrow> digits_ok (sd_diagnostic v) \<and> length (sd_diagnostic v) \<le> ff_precision format - 1 \<and>
     strip_zeros (sd_diagnostic v) = sd_diagnostic v"

lemma strip_padded: "strip_zeros (pad_zeros n c) = strip_zeros c"
proof -
  have "strip_zeros (replicate k 0 @ c) = strip_zeros c" for k by (induction k) (simp_all add: strip_zeros_def)
  then show ?thesis by (simp add: pad_zeros_def)
qed

lemma decode_encode_special:
  assumes "decfloat_ok format" and "special_fits format v"
  shows "decodeDecimalFloat (encodeSpecial v format) format = Inr (special_text v)"
    and "length (encodeSpecial v format) = ff_byteLength format"
proof -
  note t = decfloat_facts [OF assms(1)]
  let ?C = "ff_coefficientContinuationBits format" and ?E = "ff_exponentContinuationBits format"
  let ?s = "if sd_negative v then 1 else 0 :: nat"
  show len: "length (encodeSpecial v format) = ff_byteLength format" by (simp add: encodeSpecial_def Let_def)
  have s: "?s < 2" and neg: "(?s = 1) = sd_negative v" by simp_all
  show "decodeDecimalFloat (encodeSpecial v format) format = Inr (special_text v)"
  proof (cases "sd_kind v = KindInfinity")
    case True
    have enc: "encodeSpecial v format = le_encode (ff_byteLength format) (decfloat_fields format ?s 30 0 0)"
      using fields_of_bits [OF assms(1), of 30 0 0 "sd_negative v"] True by (simp add: encodeSpecial_def Let_def)
    note b = bits_of_fields [OF assms(1) s, of 30 0 0]
    have le: "le_decode (encodeSpecial v format) = decfloat_fields format ?s 30 0 0" using b(1) by (simp add: enc)
    show ?thesis using True b(2,3) neg unfolding decodeDecimalFloat_def len Let_def le by (simp add: special_text_def)
  next
    case False
    define n where "n = (ff_precision format - 1) div 3"
    define ds where "ds = pad_zeros (ff_precision format - 1) (sd_diagnostic v)"
    define cc where "cc = encodeCoefficientContinuation ds"
    define ec where "ec = (if sd_kind v = KindSnan then 2 ^ (?E - 1) else 0 :: nat)"
    have p: "ff_precision format - 1 = 3 * n" using t(2) by (simp add: n_def)
    have ds: "digits_ok ds" "length ds = 3 * n" using assms(2) p by (simp_all add: ds_def special_fits_def)
    have cc: "declet_groups n cc = ds" "cc < 2 ^ ?C" using coefficient_roundtrip [OF ds] t(3) by (simp_all add: cc_def n_def)
    have ec: "ec < 2 ^ ?E" using t(4) by (simp add: ec_def)
    have half: "ec div 2 ^ (?E - 1) = (if sd_kind v = KindSnan then 1 else 0)" by (simp add: ec_def)
    have "(if sd_kind v = KindSnan then push_bit (?C + ?E - 1) 1 else 0 :: nat) = push_bit ?C ec"
      using t(4) by (simp add: ec_def push_bit_eq_mult add.commute flip: power_add)
    then have enc: "encodeSpecial v format = le_encode (ff_byteLength format) (decfloat_fields format ?s 31 ec cc)"
      using fields_of_bits [OF assms(1) _ ec cc(2), of 31 "sd_negative v"] False
      by (simp add: encodeSpecial_def Let_def ds_def cc_def)
    note b = bits_of_fields [OF assms(1) s _ ec cc(2), of 31]
    have le: "le_decode (encodeSpecial v format) = decfloat_fields format ?s 31 ec cc" using b(1) by (simp add: enc)
    have diag: "strip_zeros (decodeCoefficientContinuation cc (ff_precision format - 1)) = sd_diagnostic v"
      using cc(1) assms(2) p by (simp add: decodeCoefficientContinuation_def ds_def strip_padded special_fits_def)
    have b31: "(31 :: nat) < 32" "(31 :: nat) \<noteq> 30" by simp_all
    show ?thesis
      unfolding decodeDecimalFloat_def len Let_def le b(2,3,4,6) [OF b31(1)] neg half diag
      using False by (cases "sd_kind v") (simp_all add: special_text_def)
  qed
qed

section \<open>Parsed values fit and keep their number\<close>

lemma trailing_zeros_value:
  assumes "k \<le> trailingZeroCount c"
  shows "digits_value c = digits_value (take (length c - k) c) * 10 ^ k"
proof -
  have all: "\<forall>d \<in> set (take k (rev c)). d = 0"
  proof
    fix d assume "d \<in> set (take k (rev c))"
    moreover have "take k (rev c) = take k (takeWhile (\<lambda>d. d = 0) (rev c))"
      using assms takeWhile_dropWhile_id [of "\<lambda>d. d = 0" "rev c"] unfolding trailingZeroCount_def
      by (metis append_Nil2 diff_is_0_eq take0 take_append)
    ultimately show "d = 0" using set_takeWhileD by (metis in_set_takeD)
  qed
  have k: "k \<le> length c" using assms length_takeWhile_le [of "\<lambda>d. d = 0" "rev c"] by (simp add: trailingZeroCount_def)
  have "drop (length c - k) c = rev (take k (rev c))" by (simp add: rev_take)
  then have "drop (length c - k) c = replicate k 0"
    using all k by (intro replicate_eqI) auto
  then have "digits_value (take (length c - k) c @ drop (length c - k) c) = digits_value (take (length c - k) c) * 10 ^ k"
    by (simp add: digits_value_append)
  then show ?thesis by simp
qed

lemma scaled_exponent: "w = v * 10 ^ k \<Longrightarrow> (of_nat v :: rat) * 10 powi (e + int k) = of_nat w * 10 powi e"
  by (simp add: power_int_add)

lemma trim_sound:
  assumes "trim_coefficient format c e = Inr (c', e')" and "digits_ok c"
  shows "digits_ok c'" "c = [0] \<and> c' = c \<or> length c' \<le> ff_precision format"
    "(of_nat (digits_value c') :: rat) * 10 powi e' = of_nat (digits_value c) * 10 powi e"
proof -
  have "digits_ok c' \<and> (c = [0] \<and> c' = c \<or> length c' \<le> ff_precision format) \<and>
      (of_nat (digits_value c') :: rat) * 10 powi e' = of_nat (digits_value c) * 10 powi e"
  proof (cases "c \<noteq> [0] \<and> ff_precision format < length c")
    case True
    let ?k = "length c - ff_precision format"
    have h: "?k \<le> trailingZeroCount c" "c' = take (length c - ?k) c" "e' = e + int ?k"
      using assms(1) True by (auto simp: trim_coefficient_def Let_def split: if_splits)
    have "digits_ok c'" using assms(2) h(2) by (metis append_take_drop_id digits_ok_simps(3))
    moreover have "(of_nat (digits_value c') :: rat) * 10 powi e' = of_nat (digits_value c) * 10 powi e"
      using scaled_exponent [OF trailing_zeros_value [OF h(1)], of e] unfolding h(2) [symmetric] h(3) .
    ultimately show ?thesis using h(2) True by simp
  next
    case False
    then show ?thesis using assms by (auto simp: trim_coefficient_def)
  qed
  then show "digits_ok c'" "c = [0] \<and> c' = c \<or> length c' \<le> ff_precision format"
    "(of_nat (digits_value c') :: rat) * 10 powi e' = of_nat (digits_value c) * 10 powi e" by simp_all
qed

lemma fit_sound:
  assumes "fit_exponent format c e = Inr (c', e')" and "digits_ok c"
    and "length c \<le> ff_precision format" and "decfloat_ok format"
  shows "finite_fits format \<lparr>fd_negative = n, fd_coefficient = c', fd_exponent = e'\<rparr>"
    "(of_nat (digits_value c') :: rat) * 10 powi e' = of_nat (digits_value c) * 10 powi e"
proof -
  let ?lo = "- int (ff_exponentBias format)" and ?hi = "maximum_encoded_exponent format - int (ff_exponentBias format)"
  have range: "?lo \<le> ?hi" using assms(4) by (auto simp: decfloat_ok_def DECF16_def DECF34_def maximum_encoded_exponent_def)
  have "finite_fits format \<lparr>fd_negative = n, fd_coefficient = c', fd_exponent = e'\<rparr> \<and>
      (of_nat (digits_value c') :: rat) * 10 powi e' = of_nat (digits_value c) * 10 powi e"
  proof (cases "c = [0]")
    case True
    then show ?thesis using assms range
      by (auto simp: fit_exponent_def finite_fits_def Let_def digits_value_Cons min_def max_def)
  next
    case False
    consider "?hi < e" | "e < ?lo" "\<not> ?hi < e" | "?lo \<le> e" "e \<le> ?hi" by linarith
    then show ?thesis
    proof cases
      case 1
      define k where "k = nat (e - ?hi)"
      have h: "c' = c @ replicate k 0" "e' = ?hi" "k \<le> ff_precision format - length c"
        using assms(1,3) False 1 by (auto simp: fit_exponent_def Let_def k_def split: if_splits)
      have e: "e = e' + int k" using 1 by (simp add: h(2) k_def)
      have "digits_value c' = digits_value c * 10 ^ k" by (simp add: h(1) digits_value_append)
      from scaled_exponent [OF this, of e'] have value': "(of_nat (digits_value c') :: rat) * 10 powi e' = of_nat (digits_value c) * 10 powi e"
        unfolding e by (rule sym)
      have "finite_fits format \<lparr>fd_negative = n, fd_coefficient = c', fd_exponent = e'\<rparr>"
        using h assms(2,3) range by (simp add: finite_fits_def)
      with value' show ?thesis by blast
    next
      case 2
      define k where "k = nat (?lo - e)"
      have h: "c' = take (length c - k) c" "e' = ?lo" "k \<le> trailingZeroCount c"
        using assms(1) False 2 by (auto simp: fit_exponent_def Let_def k_def split: if_splits)
      have e: "e' = e + int k" using 2 by (simp add: h(2) k_def)
      have "digits_ok c'" using assms(2) h(1) by (metis append_take_drop_id digits_ok_simps(3))
      then have "finite_fits format \<lparr>fd_negative = n, fd_coefficient = c', fd_exponent = e'\<rparr>"
        using h(1,2) assms(3) range by (simp add: finite_fits_def)
      moreover have "(of_nat (digits_value c') :: rat) * 10 powi e' = of_nat (digits_value c) * 10 powi e"
        using scaled_exponent [OF trailing_zeros_value [OF h(3)], of e] unfolding h(1) [symmetric] e .
      ultimately show ?thesis by blast
    next
      case 3
      then show ?thesis using assms(1-3) False by (auto simp: fit_exponent_def Let_def finite_fits_def split: if_splits)
    qed
  qed
  then show "finite_fits format \<lparr>fd_negative = n, fd_coefficient = c', fd_exponent = e'\<rparr>"
    "(of_nat (digits_value c') :: rat) * 10 powi e' = of_nat (digits_value c) * 10 powi e" by simp_all
qed

lemma parseFinite_sound:
  assumes "parseFinite s format = Inr v" and "decfloat_ok format"
  obtains m where "decimal_match s = Some m" "finite_fits format v" "fd_negative v = dp_negative m"
    "decimal_value m = (if dp_negative m then - 1 else 1) * of_nat (digits_value (fd_coefficient v)) * 10 powi fd_exponent v"
proof -
  obtain m where m: "decimal_match s = Some m" using assms(1) by (auto simp: parseFinite_def split: option.splits)
  define c where "c = (if strip_zeros (coefficient m) = [] then [0] else strip_zeros (coefficient m))"
  define e where "e = or_else (dp_exponent m) 0 - int (length (dp_fraction m))"
  have c: "digits_ok c" "digits_value c = digits_value (coefficient m)"
    using decimal_match_ok(1) [OF m] strip_zeros_value [of "coefficient m"] strip_zeros_ok [of "coefficient m"]
    by (cases "strip_zeros (coefficient m) = []"; simp add: c_def digits_value_Cons)+
  from assms(1) obtain c1 e1 c2 e2 where t: "trim_coefficient format c e = Inr (c1, e1)"
    and f: "fit_exponent format c1 e1 = Inr (c2, e2)"
    and v: "v = \<lparr>fd_negative = dp_negative m, fd_coefficient = c2, fd_exponent = e2\<rparr>"
    unfolding parseFinite_def m by (auto simp: Let_def c_def e_def)
  note t' = trim_sound [OF t c(1)]
  have "length c1 \<le> ff_precision format" using t'(2) assms(2) by (auto simp: decfloat_ok_def DECF16_def DECF34_def)
  note f' = fit_sound [OF f t'(1) this assms(2)]
  have "decimal_value m = (if dp_negative m then - 1 else 1) * of_nat (digits_value (fd_coefficient v)) * 10 powi fd_exponent v"
    using f'(2) t'(3) c(2) by (simp add: v decimal_value_def e_def)
  then show thesis using that [OF m] f'(1) [of "dp_negative m"] v by simp
qed

lemma parseSpecial_sound: "parseSpecial s format = Inr (Some v) \<Longrightarrow> special_fits format v"
proof -
  assume h: "parseSpecial s format = Inr (Some v)"
  have digits: "match_nan b = Some (x, y) \<Longrightarrow> list_all is_digit y" for b x y
    by (auto simp: match_nan_def Let_def split: if_splits)
  have idem: "strip_zeros (strip_zeros ds) = strip_zeros ds" for ds unfolding strip_zeros_def by simp
  show ?thesis using h digits digits_of_ok strip_zeros_ok idem
    by (auto simp: parseSpecial_def special_fits_def Let_def strip_zeros_def split: prod.splits option.splits if_splits)
qed

section \<open>The property\<close>

lemma decfloat_read_back:
  assumes "encodeDecimalFloat value format = Inr bs" and "format = DECF16 \<or> format = DECF34"
  shows "length bs = ff_byteLength format \<and> (\<exists>given. decfloat_text value = Inr given \<and>
    (case parseSpecial given format of
       Inr (Some v) \<Rightarrow> decodeDecimalFloat bs format = Inr (special_text v)
     | _ \<Rightarrow> \<exists>out m m'. decodeDecimalFloat bs format = Inr out \<and> decimal_match given = Some m \<and> decimal_match out = Some m' \<and>
         decimal_value m' = decimal_value m \<and> dp_negative m' = dp_negative m))"
proof -
  have ok: "decfloat_ok format" using assms(2) by (simp add: decfloat_ok_def)
  from assms(1) obtain given special where g: "decfloat_text value = Inr given" "parseSpecial given format = Inr special"
    and enc: "(case special of Some sp \<Rightarrow> Inr (encodeSpecial sp format)
      | None \<Rightarrow> rbind (parseFinite given format) (\<lambda>value. Inr (encode_finite value format))) = Inr bs"
    by (auto simp: encodeDecimalFloat_def split: if_splits)
  show ?thesis
  proof (cases special)
    case (Some v)
    then show ?thesis using enc g decode_encode_special [OF ok parseSpecial_sound [OF g(2) [unfolded Some]]] by auto
  next
    case None
    then obtain v where v: "parseFinite given format = Inr v" "bs = encode_finite v format" using enc by auto
    obtain m where m: "decimal_match given = Some m" "finite_fits format v" "fd_negative v = dp_negative m"
      "decimal_value m = (if dp_negative m then - 1 else 1) * of_nat (digits_value (fd_coefficient v)) * 10 powi fd_exponent v"
      by (rule parseFinite_sound [OF v(1) ok])
    note d = decode_encode_finite [OF ok m(2), folded v(2)]
    have "digits_ok (fd_coefficient v)" using m(2) by (simp add: finite_fits_def)
    then obtain m' where "decimal_match (formatFinite (fd_negative v) (fd_coefficient v) (fd_exponent v)) = Some m'"
      "dp_negative m' = fd_negative v"
      "decimal_value m' = (if fd_negative v then - 1 else 1) * of_nat (digits_value (fd_coefficient v)) * 10 powi fd_exponent v"
      by (rule formatFinite_value)
    then show ?thesis using d g m None by auto
  qed
qed

text \<open>C20. Decimal floats are lossless in both formats: whatever the encoder accepts it writes in the bytes of
the format, and the decoder returns the same infinity or NaN with its payload, or a decimal text with the same
value and the same sign, also of zero. Nothing is ever rounded.\<close>

theorem decfloat_encode_lossless:
  assumes "encodeDecimalFloat value format = Inr bs" and "format = DECF16 \<or> format = DECF34"
  shows "length bs = ff_byteLength format \<and> (\<exists>given. decfloat_text value = Inr given \<and>
    (case parseSpecial given format of
       Inr (Some v) \<Rightarrow> decodeDecimalFloat bs format = Inr (special_text v)
     | _ \<Rightarrow> \<exists>out m m'. decodeDecimalFloat bs format = Inr out \<and> decimal_match given = Some m \<and> decimal_match out = Some m' \<and>
         decimal_value m' = decimal_value m \<and> dp_negative m' = dp_negative m))"
  using assms by (rule decfloat_read_back)

theorem decfloat_encode_lossless_witness:
  "\<exists>bs. encodeDecimalFloat (InputText (units ''Infinity'')) DECF16 = Inr bs \<and> length bs = 8 \<and>
     decodeDecimalFloat bs DECF16 = Inr (units ''Infinity'')"
proof -
  have t: "decfloat_text (InputText (units ''Infinity'')) = Inr (units ''Infinity'')" by code_simp
  have s: "parseSpecial (units ''Infinity'') format = Inr (Some \<lparr>sd_negative = False, sd_kind = KindInfinity, sd_diagnostic = []\<rparr>)"
    for format by code_simp
  have len: "\<not> MAX_DECIMAL_FLOAT_TEXT_LENGTH < length (units ''Infinity'')"
    by (simp add: MAX_DECIMAL_FLOAT_TEXT_LENGTH_def units_def)
  have e: "encodeDecimalFloat (InputText (units ''Infinity'')) DECF16 =
      Inr (encodeSpecial \<lparr>sd_negative = False, sd_kind = KindInfinity, sd_diagnostic = []\<rparr> DECF16)"
    unfolding encodeDecimalFloat_def t s rbind_Inr using len by simp
  have "special_text \<lparr>sd_negative = False, sd_kind = KindInfinity, sd_diagnostic = []\<rparr> = units ''Infinity''" by code_simp
  then show ?thesis using e decfloat_encode_lossless [OF e] t s by (simp add: DECF16_def)
qed

end
