(* ===== verification/StructureCodec.thy ===== *)
theory StructureCodec
  imports ClassicStructure DecimalFloatCodec
begin

text \<open>
  What fixed structures promise: every field comes back from its place in the buffer, whatever the layout of
  the definition, and a definition made from the peer's reply is one the codec accepts.
\<close>

section \<open>ASCII texts\<close>

lemma ascii_chars_units:
  assumes "ascii_chars s = Some t"
  shows "units t = s" "length t = length s" "ascii_chars (units t) = Some t" "\<not> has_lone_surrogate s"
proof -
  have all: "\<forall>u \<in> set s. unat u < 128" and t: "t = map (\<lambda>u. char_of (unat u)) s"
    using assms by (auto simp: ascii_chars_def list_all_iff split: if_splits)
  show u: "units t = s" unfolding units_def t map_map
  proof (rule map_idI)
    fix u assume "u \<in> set s"
    then have "unat u mod 256 = unat u" using all by fastforce
    then show "((\<lambda>c. word_of_nat (of_char c)) \<circ> (\<lambda>u. char_of (unat u))) u = u" by simp
  qed
  show "length t = length s" by (simp add: t)
  show "ascii_chars (units t) = Some t" using assms u by simp
  from all show "\<not> has_lone_surrogate s"
    by (induction s rule: has_lone_surrogate.induct)
      (auto simp: is_high_surrogate_def is_low_surrogate_def)
qed

lemma units_ascii: "list_all (\<lambda>c. of_char c < (128 :: nat)) w \<Longrightarrow> ascii_chars (units w) = Some w"
proof -
  assume "list_all (\<lambda>c. of_char c < (128 :: nat)) w"
  then have "\<forall>c \<in> set w. unat (word_of_nat (of_char c) :: 16 word) = of_char c \<and> of_char c < (128 :: nat)"
    by (auto simp: list_all_iff unat_of_nat)
  then show ?thesis by (auto simp: ascii_chars_def units_def list_all_iff intro!: map_idI)
qed

lemma blanks_ascii [simp]: "ascii_chars (units (replicate n CHR '' '')) = Some (replicate n CHR '' '')"
  by (rule units_ascii) (simp add: list_all_iff)

lemma wire_text_read:
  assumes "ascii_chars (units w) = Some w" and "length w = n" and "n \<le> 32767"
  shows "decodeAbapFixedChar (utf16le (units w)) (int n) = Inr (units w)" "length (utf16le (units w)) = 2 * n"
  using ascii_chars_units(4) [OF assms(1)] assms(2,3) by (simp_all add: decodeAbapFixedChar_iff units_def)

lemma date_wire:
  assumes "classicDateWireText t = Inr w" and "ascii_chars s = Some t"
  shows "length w = 8" "ascii_chars (units w) = Some w"
    "classicDatePublicText w = Inr (if t = replicate 8 CHR '' '' then '''' else t)"
  using assms(1) ascii_chars_units(3) [OF assms(2)] date_field_roundtrip(1) [OF assms(1)]
  by (auto simp: classicDateWireText_def assertClassicDate_def all_digits_def split: if_splits)

lemma time_wire:
  assumes "classicTimeWireText t = Inr w" and "ascii_chars s = Some t"
  shows "length w = 6" "ascii_chars (units w) = Some w"
    "classicTimePublicText w = Inr (if t = replicate 6 CHR '' '' then '''' else t)"
  using assms(1) ascii_chars_units(3) [OF assms(2)] date_field_roundtrip(2) [OF assms(1)]
  by (auto simp: classicTimeWireText_def assertClassicTime_def all_digits_def split: if_splits)

section \<open>Integers\<close>

lemma signed_read:
  assumes "- (256 ^ n) \<le> 2 * i" "2 * i < 256 ^ n"
  shows "to_signed n (le_decode (le_encode n (from_signed n i))) = i"
  using to_from_signed [OF assms] from_signed_less [of n i] by simp

lemma safe_integer_of_safe: "safe_integer_of bits = Some i \<Longrightarrow> is_safe_integer i"
proof -
  assume h: "safe_integer_of bits = Some i"
  have f: "double_fraction bits < 2 ^ 52" by (simp add: double_fraction_def)
  have d: "(2 ^ 52 + double_fraction bits) div 2 ^ k \<le> 2 ^ 53 - 1" for k :: nat
    by (rule order_trans [OF div_le_dividend]) (use f in simp)
  obtain m :: nat where "m \<le> 2 ^ 53 - 1" "i = int m \<or> i = - int m"
    using h d [of "1075 - double_exponent bits"] unfolding safe_integer_of_def Let_def map_option_eq_Some
    by (auto split: if_splits)
  then show ?thesis by (auto simp: is_safe_integer_def max_safe_integer_def)
qed

lemma word_bits_read: "word_of_nat (le_decode (le_encode 8 (unat (bits :: 64 word)))) = bits"
  using unsigned_less [of bits, where ?'a = nat] by simp

lemma natural_digits_0 [simp]: "natural_digits 0 = [0]"
  by (subst natural_digits.simps) simp

lemma natural_digits_value: "digits_ok ds \<Longrightarrow> ds \<noteq> [] \<Longrightarrow> hd ds \<noteq> 0 \<Longrightarrow> natural_digits (digits_value ds) = ds"
proof (induction ds rule: rev_induct)
  case (snoc d ds)
  show ?case
  proof (cases "ds = []")
    case True
    then show ?thesis using snoc.prems by (simp add: digits_value_Cons natural_digits.simps [of d])
  next
    case False
    have IH: "natural_digits (digits_value ds) = ds" using snoc False by simp
    have "digits_value ds \<noteq> 0"
    proof
      assume "digits_value ds = 0"
      then have "ds = [0]" using IH by simp
      then show False using snoc.prems by simp
    qed
    then show ?thesis using IH snoc.prems by (subst natural_digits.simps) simp
  qed
qed simp

lemma text_of_digits: "list_all is_digit s \<Longrightarrow> digit_text (digits_of s) = s"
  by (induction s) (auto simp: digit_text_def digits_of_def is_digit_def simp del: of_nat_add)

lemma canonical_digits_text: "canonical_digits s \<Longrightarrow>
    0 < digits_value (digits_of s) \<and> digit_text (natural_digits (digits_value (digits_of s))) = s"
proof -
  assume c: "canonical_digits s"
  have ok: "digits_ok (digits_of s)" "digits_of s \<noteq> []" using c by (auto simp: canonical_digits_def digits_of_ok)
  have "hd (digits_of s) \<noteq> 0"
    using c by (cases s) (auto simp: canonical_digits_def digits_of_def is_digit_def word_unat_eq_iff)
  note n = natural_digits_value [OF ok this]
  have "digits_value (digits_of s) \<noteq> 0"
  proof
    assume "digits_value (digits_of s) = 0"
    then have "digits_of s = [0]" using n by simp
    then show False using \<open>hd (digits_of s) \<noteq> 0\<close> by simp
  qed
  then show ?thesis using n text_of_digits c by (simp add: canonical_digits_def)
qed

lemma canonical_text: "canonical_signed_decimal s = Some i \<Longrightarrow> bigint_text i = s"
proof -
  assume h: "canonical_signed_decimal s = Some i"
  consider "s = [0x30]" | "s \<noteq> [0x30]" "s \<noteq> []" "hd s = u_minus" | "s \<noteq> [0x30]" "\<not> (s \<noteq> [] \<and> hd s = u_minus)" by blast
  then show ?thesis
  proof cases
    case 1
    then show ?thesis using h
      by (simp add: canonical_signed_decimal_def bigint_text_def digit_text_def)
  next
    case 2
    then show ?thesis using h canonical_digits_text [of "tl s"]
      by (cases s) (auto simp: canonical_signed_decimal_def bigint_text_def split: if_splits)
  next
    case 3
    then show ?thesis using h canonical_digits_text [of s]
      by (auto simp: canonical_signed_decimal_def bigint_text_def split: if_splits)
  qed
qed

section \<open>One field\<close>

text \<open>What the caller reads from a field that was given a value.\<close>

definition decfloat_reads :: "decfloat_format \<Rightarrow> js_field \<Rightarrow> js_string \<Rightarrow> bool" where
  "decfloat_reads format v t \<longleftrightarrow> (\<exists>given. decfloat_text (decimal_of_field v) = Inr given \<and>
     (case parseSpecial given format of
        Inr (Some special) \<Rightarrow> t = special_text special
      | _ \<Rightarrow> \<exists>m m'. decimal_match given = Some m \<and> decimal_match t = Some m' \<and>
          decimal_value m' = decimal_value m \<and> dp_negative m' = dp_negative m))"

definition packed_reads :: "js_field \<Rightarrow> js_string \<Rightarrow> bool" where
  "packed_reads v t \<longleftrightarrow> (\<exists>given m m'. packed_text (decimal_of_field v) = Inr given \<and> decimal_match given = Some m \<and>
     decimal_match t = Some m' \<and> decimal_value m' = decimal_value m)"

definition integer_reads :: "js_field \<Rightarrow> field_output \<Rightarrow> bool" where
  "integer_reads v out \<longleftrightarrow> (\<exists>bits t i. v = FNumber bits t \<and> safe_integer_of bits = Some i \<and> out = OutInteger i)"

definition int8_reads :: "int8_mode \<Rightarrow> js_field \<Rightarrow> field_output \<Rightarrow> bool" where
  "int8_reads mode v out \<longleftrightarrow> (case mode of
      Int8Number \<Rightarrow> integer_reads v out
    | Int8Bigint \<Rightarrow> \<exists>i. (v = FBigint i \<or> (\<exists>bits t. v = FNumber bits t \<and> safe_integer_of bits = Some i)) \<and> out = OutBigint i
    | Int8String \<Rightarrow> \<exists>s. v = FText s \<and> out = OutText s)"

definition field_reads :: "structure_field \<Rightarrow> int8_mode \<Rightarrow> bcd_mode \<Rightarrow> js_field \<Rightarrow> field_output \<Rightarrow> bool" where
  "field_reads f mode bcd v out \<longleftrightarrow> (let n = nat (sf_internalLength f) in case field_kind_of (sf_exid f) of
      Some (KTemporal x) \<Rightarrow> \<exists>s. v = FText s \<and> out = OutText (if s = [] then units (classicTemporalInitialValue x) else s)
    | Some KChar \<Rightarrow> \<exists>s. v = FText s \<and> out = OutText (strip_trailing s)
    | Some KNumc \<Rightarrow> \<exists>s. v = FText s \<and> out = OutText (replicate (n div 2 - length s) 0x30 @ s)
    | Some KDate \<Rightarrow> \<exists>s. v = FText s \<and> out = OutText (if s = replicate 8 space_unit then [] else s)
    | Some KTime \<Rightarrow> \<exists>s. v = FText s \<and> out = OutText (if s = replicate 6 space_unit then [] else s)
    | Some KRaw \<Rightarrow> \<exists>b. v = FBytes b \<and> out = OutBytes (b @ replicate (n - length b) 0)
    | Some KFloat \<Rightarrow> \<exists>bits t. v = FNumber bits t \<and> out = OutDouble bits
    | Some KInt4 \<Rightarrow> integer_reads v out
    | Some KInt2 \<Rightarrow> integer_reads v out
    | Some KInt1 \<Rightarrow> integer_reads v out
    | Some KInt8 \<Rightarrow> int8_reads mode v out
    | Some KPacked \<Rightarrow> \<exists>t. packed_reads v t \<and> projectClassicBcdOutput t bcd = Inr out
    | Some KDecf16 \<Rightarrow> \<exists>t. decfloat_reads DECF16 v t \<and> projectClassicBcdOutput t bcd = Inr out
    | Some KDecf34 \<Rightarrow> \<exists>t. decfloat_reads DECF34 v t \<and> projectClassicBcdOutput t bcd = Inr out
    | _ \<Rightarrow> False)"

definition projects :: "bcd_mode \<Rightarrow> bool" where
  "projects bcd \<longleftrightarrow> (\<forall>t. \<exists>out. projectClassicBcdOutput t bcd = Inr out)"

text \<open>The place of a field holds what was written there, and zeros behind a short value.\<close>

definition holds :: "bytes \<Rightarrow> structure_field \<Rightarrow> bytes \<Rightarrow> bool" where
  "holds source f bs \<longleftrightarrow> length bs \<le> nat (sf_internalLength f) \<and>
     slice (nat (sf_offset f)) (nat (sf_internalLength f)) source = bs @ replicate (nat (sf_internalLength f) - length bs) 0"

lemma must_occupy_iff [simp]: "must_occupy f n = Inr u \<longleftrightarrow> sf_internalLength f = n"
  by (simp add: must_occupy_def)

lemma must_occupy_same [simp]: "sf_internalLength f = n \<Longrightarrow> must_occupy f n = Inr ()"
  by (simp add: must_occupy_def)

lemma characterLength_iff: "characterLength f = Inr n \<longleftrightarrow> even (sf_internalLength f) \<and> n = sf_internalLength f div 2"
  by (auto simp: characterLength_def)

lemma caller_text_iff [simp]: "caller_text v = Inr s \<longleftrightarrow> v = FText s"
  by (cases v) (auto simp: caller_text_def)

lemma field_integer_iff: "field_integer v lo hi = Inr i \<longleftrightarrow>
    (\<exists>bits t. v = FNumber bits t \<and> safe_integer_of bits = Some i \<and> lo \<le> i \<and> i \<le> hi)"
  by (cases v) (auto simp: field_integer_def split: option.splits)

text \<open>\<open>read_ok f\<close>: the written bytes are read back from the field's place.\<close>

definition read_ok :: "structure_field \<Rightarrow> int8_mode \<Rightarrow> bcd_mode \<Rightarrow> js_field \<Rightarrow> bytes \<Rightarrow> bool" where
  "read_ok f mode bcd v bs \<longleftrightarrow> length bs \<le> nat (sf_internalLength f) \<and>
     (\<forall>source. holds source f bs \<longrightarrow> (\<exists>out. readValue source f mode bcd = Inr out \<and> field_reads f mode bcd v out))"

lemma read_okI:
  assumes "length bs \<le> nat (sf_internalLength f)"
    and "\<And>source. slice (nat (sf_offset f)) (nat (sf_internalLength f)) source = bs @ replicate (nat (sf_internalLength f) - length bs) 0
      \<Longrightarrow> \<exists>out. readValue source f mode bcd = Inr out \<and> field_reads f mode bcd v out"
  shows "read_ok f mode bcd v bs"
  using assms by (auto simp: read_ok_def holds_def)

lemma temporal_length:
  assumes "encodeClassicTemporal x t = Inr bs"
  shows "length bs = spec_byteLength x"
proof -
  have "decodeClassicTemporal x bs \<noteq> Inl (RangeError ''raw bytes; received'')"
    using temporal_read_back [OF assms] by simp
  then show ?thesis by (auto simp: decodeClassicTemporal_def rawValue_def split: if_splits)
qed

lemma temporal_field:
  assumes k: "field_kind_of (sf_exid f) = Some (KTemporal x)" and w: "writeValue f v mode = Inr bs"
  shows "read_ok f mode bcd v bs"
proof -
  obtain s t where v: "v = FText s" and a: "ascii_chars s = Some t" and e: "encodeClassicTemporal x t = Inr bs"
    and n: "sf_internalLength f = int (spec_byteLength x)"
    using w by (auto simp: writeValue_def k split: option.splits)
  have len: "length bs = nat (sf_internalLength f)" using temporal_length [OF e] n by simp
  show ?thesis
  proof (rule read_okI)
    fix source
    assume "slice (nat (sf_offset f)) (nat (sf_internalLength f)) source = bs @ replicate (nat (sf_internalLength f) - length bs) 0"
    then have src: "slice (nat (sf_offset f)) (nat (sf_internalLength f)) source = bs" using len by simp
    have "(t = '''') = (s = [])" using ascii_chars_units(2) [OF a] by auto
    then show "\<exists>out. readValue source f mode bcd = Inr out \<and> field_reads f mode bcd v out"
      using temporal_read_back [OF e] ascii_chars_units(1) [OF a]
      by (simp add: readValue_def field_reads_def Let_def k src v)
  qed (simp add: len)
qed

lemma exact_read:
  assumes "length bs = nat (sf_internalLength f)"
    and "\<And>source. slice (nat (sf_offset f)) (nat (sf_internalLength f)) source = bs
      \<Longrightarrow> \<exists>out. readValue source f mode bcd = Inr out \<and> field_reads f mode bcd v out"
  shows "read_ok f mode bcd v bs"
  by (rule read_okI) (use assms in simp_all)

lemma char_field_read:
  assumes k: "field_kind_of (sf_exid f) = Some KChar" and w: "writeValue f v mode = Inr bs"
  shows "read_ok f mode bcd v bs"
proof -
  obtain s n where v: "v = FText s" "characterLength f = Inr n" and e: "encodeAbapChar s n = Inr bs"
    using w by (auto simp: writeValue_def k)
  note r = abap_char_roundtrip [OF e]
  have "0 \<le> n" using e by (simp add: encodeAbapChar_iff)
  then have "nat (sf_internalLength f) = 2 * nat n" using v(2) by (auto simp: characterLength_iff)
  then show ?thesis using r v by (intro exact_read) (simp_all add: readValue_def field_reads_def Let_def k)
qed

lemma digits_not_space: "list_all is_digit s \<Longrightarrow> strip_trailing s = s"
  by (intro strip_trailing_same) (cases s rule: rev_cases; auto simp: is_digit_def space_unit_def)

lemma numc_field_read:
  assumes k: "field_kind_of (sf_exid f) = Some KNumc" and w: "writeValue f v mode = Inr bs"
  shows "read_ok f mode bcd v bs"
proof -
  obtain s n where v: "v = FText s" "characterLength f = Inr n" and d: "list_all is_digit s" "int (length s) \<le> n"
    and e: "encodeAbapChar (replicate (nat n - length s) 0x30 @ s) n = Inr bs"
    using w by (auto simp: writeValue_def k split: if_splits)
  note r = abap_char_roundtrip [OF e]
  have "0 \<le> n" using e by (simp add: encodeAbapChar_iff)
  then have n: "nat (sf_internalLength f) = 2 * nat n" using v(2) by (auto simp: characterLength_iff)
  have "list_all is_digit (replicate (nat n - length s) 0x30 @ s)" using d(1) by (auto simp: list_all_iff is_digit_def)
  then show ?thesis using r v n digits_not_space
    by (intro exact_read) (simp_all add: readValue_def field_reads_def Let_def k)
qed

lemma blanks_units: "units (replicate n CHR '' '') = replicate n space_unit"
  by (simp add: units_def space_unit_def)

lemma date_field_read:
  assumes k: "field_kind_of (sf_exid f) = Some KDate" and w: "writeValue f v mode = Inr bs"
  shows "read_ok f mode bcd v bs"
proof -
  obtain s t d where v: "v = FText s" "sf_internalLength f = 16" and a: "ascii_chars s = Some t"
    and e: "classicDateWireText t = Inr d" and bs: "bs = utf16le (units d)"
    using w by (auto simp: writeValue_def k split: option.splits)
  note p = date_wire [OF e a]
  have r: "decodeAbapFixedChar bs 8 = Inr (units d)" "length bs = 16"
    using wire_text_read [OF p(2,1)] by (simp_all add: bs)
  have "(t = replicate 8 CHR '' '') = (s = replicate 8 space_unit)"
    using ascii_chars_units(1) [OF a] a blanks_ascii [of 8] by (metis blanks_units option.inject)
  then show ?thesis using v r p ascii_chars_units(1) [OF a]
    by (intro exact_read) (simp_all add: readValue_def field_reads_def Let_def k characterLength_def units_def)
qed

lemma time_field_read:
  assumes k: "field_kind_of (sf_exid f) = Some KTime" and w: "writeValue f v mode = Inr bs"
  shows "read_ok f mode bcd v bs"
proof -
  obtain s t d where v: "v = FText s" "sf_internalLength f = 12" and a: "ascii_chars s = Some t"
    and e: "classicTimeWireText t = Inr d" and bs: "bs = utf16le (units d)"
    using w by (auto simp: writeValue_def k split: option.splits)
  note p = time_wire [OF e a]
  have r: "decodeAbapFixedChar bs 6 = Inr (units d)" "length bs = 12"
    using wire_text_read [OF p(2,1)] by (simp_all add: bs)
  have "(t = replicate 6 CHR '' '') = (s = replicate 6 space_unit)"
    using ascii_chars_units(1) [OF a] a blanks_ascii [of 6] by (metis blanks_units option.inject)
  then show ?thesis using v r p ascii_chars_units(1) [OF a]
    by (intro exact_read) (simp_all add: readValue_def field_reads_def Let_def k characterLength_def units_def)
qed

lemma raw_field_read:
  assumes k: "field_kind_of (sf_exid f) = Some KRaw" and w: "writeValue f v mode = Inr bs"
  shows "read_ok f mode bcd v bs"
proof -
  have v: "v = FBytes bs" "int (length bs) \<le> sf_internalLength f"
    using w by (auto simp: writeValue_def k split: js_field.splits if_splits)
  show ?thesis by (rule read_okI) (use v in \<open>auto simp: readValue_def field_reads_def Let_def k\<close>)
qed

lemma float_field_read:
  assumes k: "field_kind_of (sf_exid f) = Some KFloat" and w: "writeValue f v mode = Inr bs"
  shows "read_ok f mode bcd v bs"
proof -
  obtain bits t where v: "v = FNumber bits t" "double_finite bits" "sf_internalLength f = 8" "bs = le_encode 8 (unat bits)"
    using w by (auto simp: writeValue_def k split: js_field.splits if_splits)
  then show ?thesis using word_bits_read [of bits]
    by (intro exact_read) (simp_all add: readValue_def field_reads_def Let_def k del: le_decode_encode_id)
qed

lemma integer_field_read:
  assumes k: "field_kind_of (sf_exid f) \<in> {Some KInt4, Some KInt2, Some KInt1}" and w: "writeValue f v mode = Inr bs"
  shows "read_ok f mode bcd v bs"
proof -
  consider "field_kind_of (sf_exid f) = Some KInt4" | "field_kind_of (sf_exid f) = Some KInt2"
    | "field_kind_of (sf_exid f) = Some KInt1" using k by blast
  then show ?thesis
  proof cases
    case 1
    obtain bits t i where v: "v = FNumber bits t" "safe_integer_of bits = Some i" "- 0x80000000 \<le> i" "i \<le> 0x7fffffff"
      and n: "sf_internalLength f = 4" "bs = le_encode 4 (from_signed 4 i)"
      using w by (auto simp: writeValue_def 1 field_integer_iff)
    have "to_signed 4 (le_decode bs) = i" unfolding n(2) by (rule signed_read) (use v in simp_all)
    then show ?thesis using v n
      by (intro exact_read) (auto simp: readValue_def field_reads_def Let_def 1 integer_reads_def)
  next
    case 2
    obtain bits t i where v: "v = FNumber bits t" "safe_integer_of bits = Some i" "- 0x8000 \<le> i" "i \<le> 0x7fff"
      and n: "sf_internalLength f = 2" "bs = le_encode 2 (from_signed 2 i)"
      using w by (auto simp: writeValue_def 2 field_integer_iff)
    have "to_signed 2 (le_decode bs) = i" unfolding n(2) by (rule signed_read) (use v in simp_all)
    then show ?thesis using v n
      by (intro exact_read) (auto simp: readValue_def field_reads_def Let_def 2 integer_reads_def)
  next
    case 3
    obtain bits t i where v: "v = FNumber bits t" "safe_integer_of bits = Some i" "0 \<le> i" "i \<le> 0xff"
      and n: "sf_internalLength f = 1" "bs = [word_of_int i]"
      using w by (auto simp: writeValue_def 3 field_integer_iff)
    have "int (le_decode bs) = i" using v by (simp add: n(2) uint_nat [symmetric] unsigned_of_int take_bit_int_eq_self)
    then show ?thesis using v n
      by (intro exact_read) (auto simp: readValue_def field_reads_def Let_def 3 integer_reads_def)
  qed
qed

lemma assertSignedInt8_iff: "assertSignedInt8 i = Inr j \<longleftrightarrow> j = i \<and> - (2 ^ 63) \<le> i \<and> i \<le> 2 ^ 63 - 1"
  by (auto simp: assertSignedInt8_def)

lemma int8_value:
  assumes "encodeClassicInt8 v mode = Inr i"
  shows "- (2 ^ 63) \<le> i" "i \<le> 2 ^ 63 - 1" "\<exists>out. decodeClassicInt8 i mode = Inr out \<and> int8_reads mode v out"
proof -
  have "(- (2 ^ 63) \<le> i \<and> i \<le> 2 ^ 63 - 1) \<and> (\<exists>out. decodeClassicInt8 i mode = Inr out \<and> int8_reads mode v out)"
  proof (cases mode)
    case Int8Number
    then obtain bits t where "v = FNumber bits t" "safe_integer_of bits = Some i" "assertSignedInt8 i = Inr i"
      using assms by (auto simp: encodeClassicInt8_def assertSignedInt8_iff split: js_field.splits option.splits)
    then show ?thesis using safe_integer_of_safe Int8Number
      by (auto simp: decodeClassicInt8_def int8_reads_def integer_reads_def assertSignedInt8_iff)
  next
    case Int8Bigint
    then show ?thesis using assms
      by (auto simp: encodeClassicInt8_def decodeClassicInt8_def int8_reads_def assertSignedInt8_iff
          split: js_field.splits option.splits)
  next
    case Int8String
    then obtain s where "v = FText s" "canonical_signed_decimal s = Some i" "assertSignedInt8 i = Inr i"
      using assms by (auto simp: encodeClassicInt8_def assertSignedInt8_iff split: js_field.splits option.splits if_splits)
    then show ?thesis using canonical_text Int8String
      by (auto simp: decodeClassicInt8_def int8_reads_def assertSignedInt8_iff)
  qed
  then show "- (2 ^ 63) \<le> i" "i \<le> 2 ^ 63 - 1" "\<exists>out. decodeClassicInt8 i mode = Inr out \<and> int8_reads mode v out"
    by blast+
qed

lemma int8_field_read:
  assumes k: "field_kind_of (sf_exid f) = Some KInt8" and w: "writeValue f v mode = Inr bs"
  shows "read_ok f mode bcd v bs"
proof -
  obtain i where i: "encodeClassicInt8 v mode = Inr i" and n: "sf_internalLength f = 8" "bs = le_encode 8 (from_signed 8 i)"
    using w by (auto simp: writeValue_def k)
  have "to_signed 8 (le_decode bs) = i" unfolding n(2) by (rule signed_read) (use int8_value [OF i] in simp_all)
  then show ?thesis using int8_value(3) [OF i] n
    by (intro exact_read) (auto simp: readValue_def field_reads_def Let_def k)
qed

lemma packed_field_read:
  assumes k: "field_kind_of (sf_exid f) = Some KPacked" and w: "writeValue f v mode = Inr bs" and p: "projects bcd"
  shows "read_ok f mode bcd v bs"
proof -
  have e: "encodePackedDecimal (decimal_of_field v) (sf_internalLength f) (sf_decimals f) = Inr bs"
    using w by (simp add: writeValue_def k)
  obtain given m t m' where r: "length bs = nat (sf_internalLength f)" "packed_text (decimal_of_field v) = Inr given"
    "decimal_match given = Some m" "decodePackedDecimal bs (sf_decimals f) = Inr t" "decimal_match t = Some m'"
    "decimal_value m' = decimal_value m"
    using packed_read_back [OF e] by blast
  obtain out where "projectClassicBcdOutput t bcd = Inr out" using p by (auto simp: projects_def)
  then show ?thesis using r
    by (intro exact_read) (auto simp: readValue_def field_reads_def Let_def k packed_reads_def)
qed

lemma decfloat_value_read:
  assumes "encodeDecimalFloat (decimal_of_field v) format = Inr bs" and "format = DECF16 \<or> format = DECF34"
  shows "length bs = ff_byteLength format \<and> (\<exists>t. decodeDecimalFloat bs format = Inr t \<and> decfloat_reads format v t)"
proof -
  obtain given where l: "length bs = ff_byteLength format" and g: "decfloat_text (decimal_of_field v) = Inr given"
    and r: "case parseSpecial given format of
       Inr (Some v) \<Rightarrow> decodeDecimalFloat bs format = Inr (special_text v)
     | _ \<Rightarrow> \<exists>out m m'. decodeDecimalFloat bs format = Inr out \<and> decimal_match given = Some m \<and> decimal_match out = Some m' \<and>
         decimal_value m' = decimal_value m \<and> dp_negative m' = dp_negative m"
    using decfloat_read_back [OF assms] by blast
  show ?thesis
  proof (cases "\<exists>special. parseSpecial given format = Inr (Some special)")
    case True
    then show ?thesis using l g r by (auto simp: decfloat_reads_def)
  next
    case False
    then obtain out m m' where "decodeDecimalFloat bs format = Inr out" "decimal_match given = Some m" "decimal_match out = Some m'"
      "decimal_value m' = decimal_value m" "dp_negative m' = dp_negative m"
      using r by (auto split: sum.splits option.splits)
    then show ?thesis using l g False by (auto simp: decfloat_reads_def split: sum.splits option.splits)
  qed
qed

lemma decfloat_field_read:
  assumes k: "field_kind_of (sf_exid f) \<in> {Some KDecf16, Some KDecf34}" and w: "writeValue f v mode = Inr bs" and p: "projects bcd"
  shows "read_ok f mode bcd v bs"
proof -
  consider "field_kind_of (sf_exid f) = Some KDecf16" | "field_kind_of (sf_exid f) = Some KDecf34" using k by blast
  then show ?thesis
  proof cases
    case 1
    then have n: "sf_internalLength f = 8" and e: "encodeDecimalFloat (decimal_of_field v) DECF16 = Inr bs"
      using w by (auto simp: writeValue_def encodeDecimalFloat16_def)
    obtain t where t: "length bs = 8" "decodeDecimalFloat16 bs = Inr t" "decfloat_reads DECF16 v t"
      using decfloat_value_read [OF e] by (auto simp: decodeDecimalFloat16_def DECF16_def)
    obtain out where "projectClassicBcdOutput t bcd = Inr out" using p by (auto simp: projects_def)
    then show ?thesis using t n
      by (intro exact_read) (auto simp: readValue_def field_reads_def Let_def 1)
  next
    case 2
    then have n: "sf_internalLength f = 16" and e: "encodeDecimalFloat (decimal_of_field v) DECF34 = Inr bs"
      using w by (auto simp: writeValue_def encodeDecimalFloat34_def)
    obtain t where t: "length bs = 16" "decodeDecimalFloat34 bs = Inr t" "decfloat_reads DECF34 v t"
      using decfloat_value_read [OF e] by (auto simp: decodeDecimalFloat34_def DECF34_def)
    obtain out where "projectClassicBcdOutput t bcd = Inr out" using p by (auto simp: projects_def)
    then show ?thesis using t n
      by (intro exact_read) (auto simp: readValue_def field_reads_def Let_def 2)
  qed
qed

lemma field_read:
  assumes w: "writeValue f v mode = Inr bs" and p: "projects bcd"
  shows "read_ok f mode bcd v bs"
proof (cases "field_kind_of (sf_exid f)")
  case None
  then show ?thesis using w by (simp add: writeValue_def)
next
  case (Some k)
  then show ?thesis
    using w p temporal_field char_field_read numc_field_read date_field_read time_field_read raw_field_read float_field_read
      integer_field_read int8_field_read packed_field_read decfloat_field_read
    by (cases k) (auto simp: writeValue_def)
qed

section \<open>The layout\<close>

fun laid_out :: "int \<Rightarrow> int \<Rightarrow> structure_field list \<Rightarrow> bool" where
  "laid_out full start [] \<longleftrightarrow> True"
| "laid_out full start (f # fs) \<longleftrightarrow> start \<le> sf_offset f \<and> 0 \<le> sf_internalLength f \<and>
     sf_offset f + sf_internalLength f \<le> full \<and> laid_out full (sf_offset f + sf_internalLength f) fs"

lemma geometry_laid_out: "geometry_loop def index names start fs = Inr u \<Longrightarrow> laid_out (rs_byteLength def) start fs"
  by (induction def index names start fs rule: geometry_loop.induct) (auto simp: Let_def split: if_splits)

lemma laid_out_from: "laid_out full start fs \<Longrightarrow> (case fs of [] \<Rightarrow> True | f # _ \<Rightarrow> start' \<le> sf_offset f) \<Longrightarrow> laid_out full start' fs"
  by (cases fs) auto

lemma slice_of_take: "off + n \<le> k \<Longrightarrow> slice off n (take k xs) = slice off n xs"
  by (simp add: slice_def drop_take min_def)

lemma splice_append: "splice (length xs) ys (xs @ zs) = xs @ ys @ drop (length ys) zs"
  by (simp add: splice_def)

text \<open>The buffer after one field: what stood before it, its bytes, and the filled gap.\<close>

lemma padded_buffer:
  assumes "write_padding def f rest (splice (nat (sf_offset f)) bs r) = Inr r2"
    and "0 \<le> sf_offset f" "length bs \<le> nat (sf_internalLength f)" "0 \<le> sf_internalLength f"
    and "sf_offset f + sf_internalLength f \<le> next_offset def rest" "next_offset def rest \<le> int (length r)"
    and z: "drop (nat (sf_offset f)) r = replicate (length r - nat (sf_offset f)) 0"
  obtains pad where "r2 = take (nat (sf_offset f)) r @ (bs @ replicate (nat (sf_internalLength f) - length bs) 0) @ pad @
      replicate (length r - (nat (sf_offset f) + nat (sf_internalLength f) + length pad)) 0"
    and "sf_offset f + sf_internalLength f + int (length pad) \<le> next_offset def rest"
proof -
  define o' where "o' = nat (sf_offset f)"
  define n where "n = nat (sf_internalLength f)"
  have on: "nat (sf_offset f + sf_internalLength f) = o' + n" "sf_offset f + sf_internalLength f = int (o' + n)"
    using assms(2,4) by (simp_all add: o'_def n_def nat_add_distrib)
  have le: "length bs \<le> n" using assms(3) by (simp add: n_def)
  have "int (o' + n) \<le> int (length r)" using assms(5,6) on(2) by linarith
  then have le: "length bs \<le> n" "o' + n \<le> length r" using le by simp_all
  have "drop (o' + length bs) r = replicate (length r - (o' + length bs)) 0"
    using arg_cong [OF z, of "drop (length bs)"] by (simp add: o'_def add.commute)
  also have "\<dots> = replicate (n - length bs) 0 @ replicate (length r - (o' + n)) 0"
    using le by (simp flip: replicate_add)
  finally have r1: "splice o' bs r = take o' r @ (bs @ replicate (n - length bs) 0) @ replicate (length r - (o' + n)) 0"
    by (simp add: splice_def)
  show thesis
  proof (cases "unicode_field f \<and> 0 < next_offset def rest - (sf_offset f + sf_internalLength f)")
    case False
    then have "r2 = splice o' bs r" using assms(1) by (auto simp: write_padding_def Let_def o'_def split: if_splits)
    then show thesis using that [of "[]"] r1 assms(5) by (simp add: o'_def n_def)
  next
    case True
    define g where "g = nat (next_offset def rest - (sf_offset f + sf_internalLength f))"
    obtain fill where r2: "r2 = splice (o' + n) (utf16le (replicate (g div 2) fill)) (splice o' bs r)" and "even g"
      using assms(1) True on by (auto simp: write_padding_def Let_def o'_def g_def nat_div_distrib even_nat_iff split: if_splits)
    define pad where "pad = utf16le (replicate (g div 2) fill)"
    have pad: "length pad = g" using \<open>even g\<close> by (simp add: pad_def)
    have g2: "int (o' + n + g) = next_offset def rest" using True on(2) by (simp add: g_def)
    then have "int (o' + n + g) \<le> int (length r)" using assms(6) by linarith
    then have g: "o' + n + g \<le> length r" "int (o' + n + g) = next_offset def rest" using g2 by simp_all
    have pre: "length (take o' r @ (bs @ replicate (n - length bs) 0)) = o' + n" using le by simp
    have "splice (o' + n) pad ((take o' r @ (bs @ replicate (n - length bs) 0)) @ replicate (length r - (o' + n)) 0) =
        (take o' r @ (bs @ replicate (n - length bs) 0)) @ pad @ replicate (length r - (o' + n + g)) 0"
      using splice_append [of "take o' r @ (bs @ replicate (n - length bs) 0)" pad, unfolded pre] pad by (simp only: drop_replicate) simp
    then have "r2 = take o' r @ (bs @ replicate (n - length bs) 0) @ pad @ replicate (length r - (o' + n + length pad)) 0"
      by (simp add: r2 pad_def [symmetric] r1 pad)
    then show thesis using that [of pad] g(2) on(2) pad by (simp add: o'_def n_def)
  qed
qed

lemma write_fields_hold:
  assumes "write_fields def input mode fs r = Inr r'" and "laid_out (rs_byteLength def) start fs"
    and "int (length r) = rs_byteLength def" "0 \<le> start" "start \<le> rs_byteLength def"
    and "drop (nat start) r = replicate (length r - nat start) 0"
  shows "length r' = length r \<and> take (nat start) r' = take (nat start) r \<and>
    (\<forall>f \<in> set fs. \<exists>v bs. field_given input mode f = Inr v \<and>
       writeValue f v mode = Inr bs \<and> holds r' f bs)"
  using assms
proof (induction fs arbitrary: r start)
  case (Cons f rest)
  obtain v bs r2 where v: "field_given input mode f = Inr v"
    and w: "writeValue f v mode = Inr bs" and p: "write_padding def f rest (splice (nat (sf_offset f)) bs r) = Inr r2"
    and rest: "write_fields def input mode rest r2 = Inr r'"
    using Cons.prems(1) by auto
  have lay: "start \<le> sf_offset f" "0 \<le> sf_internalLength f" "sf_offset f + sf_internalLength f \<le> rs_byteLength def"
    "laid_out (rs_byteLength def) (sf_offset f + sf_internalLength f) rest" using Cons.prems(2) by auto
  define o' where "o' = nat (sf_offset f)"
  define n where "n = nat (sf_internalLength f)"
  have off: "0 \<le> sf_offset f" "nat start \<le> o'" "sf_offset f + sf_internalLength f = int (o' + n)"
    using lay Cons.prems(4) by (simp_all add: o'_def n_def)
  have len: "length bs \<le> n" using field_read [OF w, of BcdString] by (simp add: projects_def projectClassicBcdOutput_def read_ok_def n_def)
  have next': "sf_offset f + sf_internalLength f \<le> next_offset def rest" "next_offset def rest \<le> int (length r)"
    using lay Cons.prems(3) by (cases rest; simp add: next_offset_def)+
  have "drop o' r = replicate (length r - o') 0"
    using arg_cong [OF Cons.prems(6), of "drop (o' - nat start)"] off(2) by simp
  then obtain pad where r2: "r2 = take o' r @ (bs @ replicate (n - length bs) 0) @ pad @ replicate (length r - (o' + n + length pad)) 0"
    and pad: "int (o' + n) + int (length pad) \<le> next_offset def rest"
    using padded_buffer [OF p off(1) len [unfolded n_def] lay(2) next'] off(3) by (auto simp: o'_def n_def)
  define s where "s = int (o' + n + length pad)"
  have s: "s \<le> next_offset def rest" "nat s = o' + n + length pad" "0 \<le> s" "o' + n + length pad \<le> length r"
    using pad next'(2) by (simp_all add: s_def)
  have l2: "length r2 = length r" using s(4) len by (simp add: r2)
  have "laid_out (rs_byteLength def) s rest"
    by (rule laid_out_from [OF lay(4)]) (use s(1) in \<open>auto simp: next_offset_def split: list.splits\<close>)
  moreover have "drop (nat s) r2 = replicate (length r2 - nat s) 0"
    using s(2,4) len l2 by (simp add: r2)
  ultimately have IH: "length r' = length r2" "take (nat s) r' = take (nat s) r2"
    "\<forall>f \<in> set rest. \<exists>v bs. field_given input mode f = Inr v \<and>
       writeValue f v mode = Inr bs \<and> holds r' f bs"
    using Cons.IH [OF rest, of s] l2 Cons.prems(3) s by auto
  have "take (nat start) r' = take (nat start) (take (nat s) r')" using off(2) s(2) by (simp add: min_def)
  also have "\<dots> = take (nat start) r2" unfolding IH(2) using off(2) s(2) by (simp add: min_def)
  also have "\<dots> = take (nat start) r" using off(2) s(4) by (simp add: r2 min_def)
  finally have t: "take (nat start) r' = take (nat start) r" .
  have "slice o' n r' = slice o' n (take (nat s) r')" using s(2) by (simp add: slice_of_take)
  also have "\<dots> = slice o' n r2" unfolding IH(2) using s(2) by (simp add: slice_of_take)
  also have "\<dots> = bs @ replicate (n - length bs) 0" using len s(4) by (simp add: r2 slice_def)
  finally have "holds r' f bs" using len by (simp add: holds_def o'_def n_def)
  then show ?case using IH l2 t v w by auto
qed simp

section \<open>Whole structures\<close>

lemma validate_same: "validateClassicStructureCodec def requested = Inr def' \<Longrightarrow> def' = def"
  using definition_same by (auto simp: validateClassicStructureCodec_def)

lemma validate_geometry:
  assumes "validateClassicStructureCodec def requested = Inr def'"
  shows "0 \<le> rs_byteLength def" "laid_out (rs_byteLength def) 0 (rs_fields def)"
proof -
  have "snapshotClassicStructureDefinition def requested = Inr def"
    using assms definition_same by (auto simp: validateClassicStructureCodec_def)
  then show "0 \<le> rs_byteLength def" "laid_out (rs_byteLength def) 0 (rs_fields def)"
    by (auto simp: snapshotClassicStructureDefinition_def intro: geometry_laid_out split: if_splits)
qed

lemma map_result_list_all2:
  "(\<And>x. x \<in> set xs \<Longrightarrow> \<exists>y. f x = Inr y \<and> P x y) \<Longrightarrow> \<exists>ys. map_result f xs = Inr ys \<and> list_all2 P xs ys"
proof (induction xs)
  case (Cons x xs)
  then obtain y ys where "f x = Inr y" "P x y" "map_result f xs = Inr ys" "list_all2 P xs ys" by (metis list.set_intros)
  then show ?case by auto
qed simp

text \<open>C8. A fixed structure is read back field by field: whatever definition the codec accepts, with any offsets,
gaps and kinds of fields, the encoded buffer has exactly the declared length, decoding it succeeds, and each field
shows the value the caller gave, or the initial value of its kind, as its kind presents it: blanks of a character
field cut, digits padded, raw bytes filled with zeros, decimals of the same value, all others the same.\<close>

theorem structure_read_back:
  assumes "encodeClassicStructure def input options = Inr bs"
    and "snapshotClassicInt8Mode (so_int8Mode options) = Inr mode" "snapshotClassicBcdMode (so_bcd options) = Inr bcd"
    and "\<And>t. \<exists>out. projectClassicBcdOutput t bcd = Inr out"
  shows "int (length bs) = rs_byteLength def \<and> (\<exists>outs. decodeClassicStructure def (Some bs) options = Inr outs \<and>
    list_all2 (\<lambda>f out. fst out = sf_fieldName f \<and>
      (\<exists>v. field_given input mode f = Inr v \<and> field_reads f mode bcd v (snd out))) (rs_fields def) outs)"
proof -
  obtain n where v: "validateClassicStructureCodec def None = Inr n" "assertFixedStructure n = Inr ()"
    and w: "write_fields n input mode (rs_fields n) (replicate (nat (rs_byteLength n)) 0) = Inr bs"
    using assms(1,2) by (auto simp: encodeClassicStructure_def split: if_splits)
  have n: "n = def" using validate_same [OF v(1)] .
  note g = validate_geometry [OF v(1)]
  have h: "length bs = nat (rs_byteLength def)"
    "\<forall>f \<in> set (rs_fields def). \<exists>v bytes. field_given input mode f = Inr v \<and> writeValue f v mode = Inr bytes \<and> holds bs f bytes"
    using write_fields_hold [OF w [unfolded n] g(2)] g(1) by simp_all
  define P where "P f out \<longleftrightarrow> fst out = sf_fieldName f \<and>
    (\<exists>v. field_given input mode f = Inr v \<and> field_reads f mode bcd v (snd out))" for f and out :: "js_string \<times> field_output"
  have "\<exists>out. read_field bs mode bcd f = Inr out \<and> P f out" if f: "f \<in> set (rs_fields def)" for f
  proof -
    obtain v bytes where "field_given input mode f = Inr v" "writeValue f v mode = Inr bytes" "holds bs f bytes"
      using h(2) f by blast
    moreover have "projects bcd" using assms(4) by (simp add: projects_def)
    ultimately show ?thesis using field_read [of f v mode bytes bcd] by (auto simp: read_ok_def read_field_def P_def)
  qed
  then obtain outs where outs: "map_result (read_field bs mode bcd) (rs_fields def) = Inr outs" "list_all2 P (rs_fields def) outs"
    using map_result_list_all2 [of "rs_fields def" "read_field bs mode bcd" P] by blast
  moreover have "decodeClassicStructure def (Some bs) options = map_result (read_field bs mode bcd) (rs_fields def)"
    unfolding decodeClassicStructure_def assms(2,3) rbind_Inr v [unfolded n] using h(1) g(1) by simp
  ultimately show ?thesis using h(1) g(1) outs unfolding P_def by simp
qed

definition sample_structure :: rfc_structure where
  "sample_structure = \<lparr>rs_name = units ''S'', rs_byteLength = 10,
     rs_fields = [\<lparr>sf_tableName = units ''S'', sf_fieldName = units ''A'', sf_position = 1, sf_offset = 0,
         sf_internalLength = 4, sf_decimals = 0, sf_exid = units ''C''\<rparr>,
       \<lparr>sf_tableName = units ''S'', sf_fieldName = units ''B'', sf_position = 2, sf_offset = 6,
         sf_internalLength = 3, sf_decimals = 0, sf_exid = units ''X''\<rparr>]\<rparr>"

definition structure_sample_options :: structure_options where
  "structure_sample_options = \<lparr>so_int8Mode = None, so_bcd = BcdUndefined\<rparr>"

lemma structure_modes:
  "snapshotClassicInt8Mode (so_int8Mode structure_sample_options) = Inr Int8Bigint"
  "snapshotClassicBcdMode (so_bcd structure_sample_options) = Inr BcdString"
  by (simp_all add: structure_sample_options_def snapshotClassicInt8Mode_def snapshotClassicBcdMode_def)

lemma structure_valid:
  "validateClassicStructureCodec sample_structure None = Inr sample_structure"
  "assertFixedStructure sample_structure = Inr ()"
proof -
  have s: "snapshotClassicStructureDefinition sample_structure None = Inr sample_structure"
    by (simp add: snapshotClassicStructureDefinition_def sample_structure_def MAX_CLASSIC_STRUCTURE_BYTE_LENGTH_def
        DEFAULT_MAX_CPIC_FIELD_LENGTH_def MAX_CLASSIC_STRUCTURE_FIELDS_def is_safe_integer_def max_safe_integer_def units_def)
  have "map_result assertFieldCodec (rs_fields sample_structure) = Inr [(), ()]" by code_simp
  then show v: "validateClassicStructureCodec sample_structure None = Inr sample_structure"
    by (simp add: validateClassicStructureCodec_def s)
  have "\<not> list_ex dynamic_field (rs_fields sample_structure)" by code_simp
  then show "assertFixedStructure sample_structure = Inr ()"
    by (simp add: assertFixedStructure_def classicStructureHasDynamicFields_def v)
qed

lemma sample_written:
  "write_fields sample_structure [(units ''B'', FBytes [7, 8]), (units ''A'', FText (units ''z''))] Int8Bigint
     (rs_fields sample_structure) (replicate 10 0) = Inr [0x7a, 0, 0x20, 0, 0x20, 0, 7, 8, 0, 0]"
proof -
  have k: "field_kind_of (units ''C'') = Some KChar" "field_kind_of (units ''X'') = Some KRaw" by code_simp+
  have nil: "utf16le [] = []" by (simp add: utf16le_def)
  have z: "encodeAbapChar (units ''z'') 2 = Inr [0x7a, 0, 0x20, 0]"
    by (simp add: encodeAbapChar_iff units_def is_high_surrogate_def is_low_surrogate_def space_unit_def utf16le_Cons nil)
  have p: "utf16le [0x20] = [0x20, 0]" by (simp add: utf16le_Cons nil)
  have two: "replicate 2 x = [x, x]" for x :: byte by (simp add: numeral_2_eq_2)
  have d: "units ''A'' \<noteq> units ''B''" by (simp add: units_def)
  show ?thesis
    by (simp add: sample_structure_def field_given_def d d [symmetric] writeValue_def k z characterLength_def write_padding_def
        unicode_field_def next_offset_def splice_def p two)
qed

theorem structure_read_back_witness:
  "encodeClassicStructure sample_structure [(units ''B'', FBytes [7, 8]), (units ''A'', FText (units ''z''))] structure_sample_options =
     Inr [0x7a, 0, 0x20, 0, 0x20, 0, 7, 8, 0, 0] \<and>
   (\<exists>outs. decodeClassicStructure sample_structure (Some [0x7a, 0, 0x20, 0, 0x20, 0, 7, 8, 0, 0]) structure_sample_options = Inr outs \<and>
     map fst outs = [units ''A'', units ''B''])"
proof -
  have e: "encodeClassicStructure sample_structure [(units ''B'', FBytes [7, 8]), (units ''A'', FText (units ''z''))] structure_sample_options =
     Inr [0x7a, 0, 0x20, 0, 0x20, 0, 7, 8, 0, 0]"
    using sample_written unfolding encodeClassicStructure_def structure_modes rbind_Inr structure_valid
    by (simp add: sample_structure_def)
  have "\<exists>out. projectClassicBcdOutput t BcdString = Inr out" for t by (simp add: projectClassicBcdOutput_def)
  from structure_read_back [OF e structure_modes this] show ?thesis
    using e by (auto simp: sample_structure_def list_all2_Cons1)
qed

end
