(* ===== verification/StructureMetadata.thy ===== *)
theory StructureMetadata
  imports StructureDefinition ClassicRfcGrammar
begin

text \<open>
  From the peer's reply to the codec: a structure definition decoded from a reply of RFC_GET_STRUCTURE_DEFINITION
  passes the check that the structure codec makes before it allocates anything, and agrees with the row
  owner that the detection of table types reports.
\<close>

section \<open>Rows\<close>

lemma readInt32LE_safe:
  assumes "readInt32LE r = Inr (v, r')"
  shows "is_safe_integer v"
proof -
  have v: "v = to_signed 4 (le_decode (slice (roffset r) 4 (rdata r)))"
    using assms by (auto simp: readInt32LE_def)
  have "length (slice (roffset r) 4 (rdata r)) \<le> 4" by (simp add: slice_def)
  then have "(256 :: nat) ^ length (slice (roffset r) 4 (rdata r)) \<le> 256 ^ 4" by (intro power_increasing) simp_all
  then have "le_decode (slice (roffset r) 4 (rdata r)) < 256 ^ 4" using le_decode_less le_less_trans less_le_trans by blast
  from to_signed_bounds [OF this] have "- 4294967296 \<le> 2 * v" "2 * v < 4294967296" by (simp_all add: v)
  then have "\<bar>v\<bar> \<le> 9007199254740991" by linarith
  then show ?thesis by (rule is_safe_integer_of_small)
qed

definition row_fine :: "structure_field \<Rightarrow> bool" where
  "row_fine f \<longleftrightarrow> sf_tableName f \<noteq> [] \<and> sf_fieldName f \<noteq> [] \<and> is_safe_integer (sf_offset f) \<and> 0 \<le> sf_offset f \<and>
     is_safe_integer (sf_internalLength f) \<and> 0 \<le> sf_internalLength f \<and> is_safe_integer (sf_decimals f) \<and> 0 \<le> sf_decimals f"

lemma fields_row_fine: "decodeRfcFieldsRow b = Inr f \<Longrightarrow> row_fine f"
  using readInt32LE_safe by (fastforce simp: decodeRfcFieldsRow_def row_fine_def split: if_splits)

lemma rows_fine: "map_result decodeRfcFieldsRow rows = Inr fs \<Longrightarrow> list_all row_fine fs"
  by (induction rows arbitrary: fs) (auto dest: fields_row_fine)

lemma length_numbered [simp]: "length (numbered i fs) = length fs"
  by (induction fs arbitrary: i) auto

lemma rows_geometry_accepted:
  "rows_geometry (rs_name def) (rs_byteLength def) names start (numbered i fs) = Inr u \<Longrightarrow> list_all row_fine fs \<Longrightarrow>
     geometry_loop def i names start (numbered i fs) = Inr ()"
  by (induction fs arbitrary: i names start) (auto simp: row_fine_def Let_def split: if_splits)

section \<open>The preflight\<close>

lemma parameter_char: "decodeParameterName b = Inr n \<Longrightarrow> decodeAbapChar b None = Inr n"
  by (auto simp: decodeParameterName_def split: if_splits)

lemma preflight_rest: "fields_preflight (f # fs) = Inr u \<Longrightarrow> fields_preflight fs = Inr ()"
  by (cases fs) (auto split: if_splits)

lemma preflight_table:
  "fields_preflight (pre @ fld T_TableName nb # fld T_TableHeader hb # post) = Inr u \<Longrightarrow>
     decodeAbapChar nb None = Inr (units ''FIELDS'') \<Longrightarrow> decodeRfcTableHeader hb = Inr header \<Longrightarrow>
     th_rowCount header \<le> MAX_RFC_STRUCTURE_FIELDS"
proof (induction pre)
  case Nil
  then show ?case by (auto split: if_splits)
next
  case (Cons f pre)
  then have "fields_preflight (pre @ fld T_TableName nb # fld T_TableHeader hb # post) = Inr u"
    using preflight_rest by (metis append_Cons old.unit.exhaust)
  then show ?case using Cons by simp
qed

lemma add_item_tables:
  "t \<in> set (cr_tables (foldl add_item acc items)) \<Longrightarrow> t \<in> set (cr_tables acc) \<or>
     (\<exists>nb name hb header rows. TableItem nb name hb header rows \<in> set items \<and> tb_name t = name \<and> length (tb_rows t) = length rows)"
proof (induction items arbitrary: acc)
  case (Cons i items)
  have "t \<in> set (cr_tables (add_item acc i)) \<Longrightarrow> t \<in> set (cr_tables acc) \<or>
     (\<exists>nb name hb header rows. i = TableItem nb name hb header rows \<and> tb_name t = name \<and> length (tb_rows t) = length rows)"
    by (cases i) (auto simp: table_value_def split: prod.splits)
  with Cons show ?case by fastforce
qed simp

lemma fields_table_bounded:
  assumes "fields_preflight fs = Inr u" "decodeClassicRfcResult fs = Inr result" "find_table result (units ''FIELDS'') = Some t"
  shows "length (tb_rows t) \<le> MAX_RFC_STRUCTURE_FIELDS"
proof -
  obtain items where i: "reply_of items fs" "result = foldl add_item empty_result items"
    using assms(2) decode_result_items by blast
  have "t \<in> set (cr_tables result)" "tb_name t = units ''FIELDS''"
    using assms(3) unfolding find_table_def find_Some_iff by (auto simp: in_set_conv_nth)
  then obtain nb hb header rows where it: "TableItem nb (units ''FIELDS'') hb header rows \<in> set items"
    "length (tb_rows t) = length rows"
    using add_item_tables [of t empty_result items] i(2) by (auto simp: empty_result_def)
  obtain as bs where split: "items = as @ TableItem nb (units ''FIELDS'') hb header rows # bs"
    using it(1) by (auto dest: split_list)
  have ok: "item_ok (TableItem nb (units ''FIELDS'') hb header rows)" using i(1) split by (auto simp: reply_of_def)
  have fs: "fs = all_fields as @ fld T_TableName nb # fld T_TableHeader hb # rows @ all_fields bs"
    using i(1) split by (simp add: reply_of_def)
  have "decodeAbapChar nb None = Inr (units ''FIELDS'')" using ok parameter_char by simp
  then show ?thesis using preflight_table [OF assms(1) [unfolded fs]] ok it(2) by auto
qed

section \<open>The definition\<close>

lemma numbered_owner:
  "rows_geometry n full names start (numbered i fs) = Inr u \<Longrightarrow> list_all (\<lambda>f. sf_tableName f = n) fs"
  by (induction fs arbitrary: i names start) (auto simp: Let_def split: if_splits)

lemma row_owner_same:
  "map_result decodeRfcFieldsRow rows = Inr fs \<Longrightarrow> list_all (\<lambda>f. sf_tableName f = n) fs \<Longrightarrow>
     row_owner (Some n) rows = Inr (Some n)"
  by (induction rows arbitrary: fs) auto

lemma row_owner_start:
  "map_result decodeRfcFieldsRow rows = Inr fs \<Longrightarrow> list_all (\<lambda>f. sf_tableName f = n) fs \<Longrightarrow> rows \<noteq> [] \<Longrightarrow>
     row_owner None rows = Inr (Some n)"
  using row_owner_same by (cases rows) auto

lemma definition_parts:
  assumes "decodeRfcStructureDefinitionResult name fs = Inr d"
  obtains result t rows where "fields_preflight fs = Inr ()" "decodeClassicRfcResult fs = Inr result"
    "find_table result (units ''FIELDS'') = Some t" "map_result decodeRfcFieldsRow (tb_rows t) = Inr rows"
    "rows_geometry name (rs_byteLength d) {} 0 (numbered 0 rows) = Inr ()"
    "rs_name d = name" "rs_fields d = numbered 0 rows" "0 \<le> rs_byteLength d" "is_safe_integer (rs_byteLength d)"
proof -
  from assms obtain result v t rows where h: "fields_preflight fs = Inr ()" "decodeClassicRfcResult fs = Inr result"
    "find_table result (units ''FIELDS'') = Some t" "map_result decodeRfcFieldsRow (tb_rows t) = Inr rows"
    "rows_geometry name (rs_byteLength d) {} 0 (numbered 0 rows) = Inr ()"
    "rs_name d = name" "rs_fields d = numbered 0 rows"
    and v: "rs_byteLength d = to_signed 4 (le_decode v)" "length v = 4" "0 \<le> rs_byteLength d"
    by (auto simp: decodeRfcStructureDefinitionResult_def Let_def split: if_splits option.splits)
  have "le_decode v < 256 ^ 4" using le_decode_less [of v] v(2) by simp
  from to_signed_bounds [OF this] have "2 * rs_byteLength d < 4294967296" by (simp add: v(1))
  then have "is_safe_integer (rs_byteLength d)" using v(3) by (intro is_safe_integer_of_small) linarith
  then show thesis using that h v(3) by blast
qed

text \<open>C9. A structure definition made from a reply of the peer is sound up to its size: a definition of a named
structure that the metadata decoder returns passes the check the structure codec makes exactly when the length the
peer states is at most the 256 MiB of a CPIC field; a larger one is refused with the length error. The definition has
the name asked for, at most 20000 fields and a length of at least 0; and the detection of table types, on the same reply, reports no other row owner.\<close>

theorem structure_reply_accepted:
  assumes "decodeRfcStructureDefinitionResult name fs = Inr d" and "name \<noteq> []"
  shows "snapshotClassicStructureDefinition d (Some name) =
      (if rs_byteLength d \<le> 268435456 then Inr d else Inl (RangeError ''structure byteLength exceeds'')) \<and>
    rs_name d = name \<and> 0 \<le> rs_byteLength d \<and> length (rs_fields d) \<le> MAX_RFC_STRUCTURE_FIELDS \<and>
    detectRfcStructureDefinitionRowName name fs = Inr None"
proof -
  obtain result t rows where h: "fields_preflight fs = Inr ()" "decodeClassicRfcResult fs = Inr result"
    "find_table result (units ''FIELDS'') = Some t" "map_result decodeRfcFieldsRow (tb_rows t) = Inr rows"
    and g: "rows_geometry name (rs_byteLength d) {} 0 (numbered 0 rows) = Inr ()"
    and d: "rs_name d = name" "rs_fields d = numbered 0 rows" "0 \<le> rs_byteLength d" "is_safe_integer (rs_byteLength d)"
    by (rule definition_parts [OF assms(1)])
  have bound: "length (tb_rows t) \<le> MAX_RFC_STRUCTURE_FIELDS" using fields_table_bounded [OF h(1-3)] .
  then have len: "length rows \<le> MAX_RFC_STRUCTURE_FIELDS" using map_result_length [OF h(4)] by simp
  have "geometry_loop d 0 {} 0 (numbered 0 rows) = Inr ()"
    by (rule rows_geometry_accepted) (use g d(1) rows_fine [OF h(4)] in simp_all)
  then have "snapshotClassicStructureDefinition d (Some name) =
      (if rs_byteLength d \<le> 268435456 then Inr d else Inl (RangeError ''structure byteLength exceeds''))"
    using d assms(2) len
    by (simp add: snapshotClassicStructureDefinition_def MAX_RFC_STRUCTURE_FIELDS_def MAX_CLASSIC_STRUCTURE_FIELDS_def
        MAX_CLASSIC_STRUCTURE_BYTE_LENGTH_def DEFAULT_MAX_CPIC_FIELD_LENGTH_def)
  moreover have "detectRfcStructureDefinitionRowName name fs = Inr None"
    using h bound row_owner_start [OF h(4) numbered_owner [OF g]]
    by (simp add: detectRfcStructureDefinitionRowName_def)
  ultimately show ?thesis using len d(1-3) by simp
qed

section \<open>Rows that are read back\<close>

definition fields_row :: "structure_field \<Rightarrow> bytes" where
  "fields_row f = char_field 30 (sf_tableName f) @ char_field 30 (sf_fieldName f) @ int_field (sf_position f) @
     int_field (sf_offset f) @ int_field (sf_internalLength f) @ int_field (sf_decimals f) @ char_field 1 (sf_exid f)"

definition fields_fit :: "structure_field \<Rightarrow> bool" where
  "fields_fit f \<longleftrightarrow> char_fits 30 (sf_tableName f) \<and> char_fits 30 (sf_fieldName f) \<and> int_fits (sf_position f) \<and>
     int_fits (sf_offset f) \<and> int_fits (sf_internalLength f) \<and> int_fits (sf_decimals f) \<and> char_fits 1 (sf_exid f) \<and>
     sf_tableName f \<noteq> [] \<and> sf_fieldName f \<noteq> [] \<and> 1 \<le> sf_position f \<and> 0 \<le> sf_offset f \<and>
     0 \<le> sf_internalLength f \<and> 0 \<le> sf_decimals f"

lemma length_fields_row: "fields_fit f \<Longrightarrow> length (fields_row f) = 138"
  by (simp add: fields_row_def fields_fit_def char_fits_def int_field_def)

text \<open>A row is read back whatever a later release of the peer appends to the 138 bytes the client knows.\<close>

lemma fields_row_forward_compatible: "fields_fit f \<Longrightarrow> decodeRfcFieldsRow (fields_row f @ appended) = Inr f"
proof -
  assume fit: "fields_fit f"
  note f = fit [unfolded fields_fit_def]
  have row: "take RFC_FIELDS_UNICODE_ROW_LENGTH (fields_row f @ appended) = fields_row f"
    "\<not> length (fields_row f @ appended) < RFC_FIELDS_UNICODE_ROW_LENGTH"
    using length_fields_row [OF fit] by (simp_all add: RFC_FIELDS_UNICODE_ROW_LENGTH_def)
  show ?thesis
    unfolding decodeRfcFieldsRow_def row if_not_P [OF row(2)] unfolding fields_row_def reader_new_on
    using f by (simp only: reads_char reads_char_last reads_int_field rbind_Inr prod.case reads_end conj_assoc
        zero_less_one zero_less_numeral one_le_numeral numeral_le_iff Num.le_num_simps) auto
qed

section \<open>A reply\<close>

definition sample_row :: structure_field where
  "sample_row = \<lparr>sf_tableName = units ''S'', sf_fieldName = units ''A'', sf_position = 7, sf_offset = 2,
     sf_internalLength = 4, sf_decimals = 0, sf_exid = units ''C''\<rparr>"

definition sample_items :: "reply_item list" where
  "sample_items =
    [ScalarItem (utf16le (units ''TABLENGTH'')) (units ''TABLENGTH'') [10, 0, 0, 0],
     TableItem (utf16le (units ''FIELDS'')) (units ''FIELDS'') [0, 0, 0, 138, 0, 0, 0, 1]
       \<lparr>th_declaredRowByteLength = 138, th_rowCount = 1\<rparr> [fld T_TableContent (fields_row sample_row)]]"

lemma reply_row_fits: "fields_fit sample_row"
  by (simp add: sample_row_def fields_fit_def char_fits_def int_fits_def units_def space_unit_def is_high_surrogate_def
      is_low_surrogate_def)

lemma reply_names:
  "decodeParameterName (utf16le (units ''TABLENGTH'')) = Inr (units ''TABLENGTH'')"
  "decodeParameterName (utf16le (units ''FIELDS'')) = Inr (units ''FIELDS'')"
  "decodeRfcTableHeader [0, 0, 0, 138, 0, 0, 0, 1] = Inr \<lparr>th_declaredRowByteLength = 138, th_rowCount = 1\<rparr>"
proof -
  show "decodeParameterName (utf16le (units ''TABLENGTH'')) = Inr (units ''TABLENGTH'')"
    "decodeParameterName (utf16le (units ''FIELDS'')) = Inr (units ''FIELDS'')"
    by (rule decode_clean_name; simp add: clean_name_def units_def space_unit_def is_high_surrogate_def is_low_surrogate_def)+
  show "decodeRfcTableHeader [0, 0, 0, 138, 0, 0, 0, 1] = Inr \<lparr>th_declaredRowByteLength = 138, th_rowCount = 1\<rparr>"
    using decode_table_header [of 138 1] by (simp add: byte_eval)
qed

lemma reply_decoded: "decodeClassicRfcResult (all_fields sample_items) = Inr (foldl add_item empty_result sample_items)"
proof -
  have "row_ok \<lparr>th_declaredRowByteLength = 138, th_rowCount = 1\<rparr> (fld T_TableContent (fields_row sample_row))"
    using length_fields_row [OF reply_row_fits] by (auto simp: row_ok_def is_row_def fld_def)
  then have "list_all item_ok sample_items" by (simp add: sample_items_def reply_names)
  moreover have "reply_within_limits sample_items"
    using length_fields_row [OF reply_row_fits]
    by (simp add: reply_within_limits_def sample_items_def cpic_defaults DEFAULT_MAX_CPIC_FIELD_COUNT_def units_def row_bytes_def fld_def)
  ultimately have "reply_of sample_items (all_fields sample_items)"
    by (simp add: reply_of_def sample_items_def units_def)
  then show ?thesis using decode_result_items by blast
qed

definition sample_table :: classic_table where
  "sample_table = table_value (units ''FIELDS'') \<lparr>th_declaredRowByteLength = 138, th_rowCount = 1\<rparr>
     [fields_row sample_row] (True, False)"

lemma reply_parts:
  "structure_scalar (foldl add_item empty_result sample_items) (units ''TABLENGTH'') = Inr [10, 0, 0, 0]"
  "find_table (foldl add_item empty_result sample_items) (units ''FIELDS'') = Some sample_table"
  "tb_rowByteLength sample_table = 138" "tb_rows sample_table = [fields_row sample_row]"
  using length_fields_row [OF reply_row_fits]
  by (simp_all add: sample_items_def structure_scalar_def find_table_def empty_result_def sample_table_def table_value_def
      row_bytes_def rows_seen_def fld_def)

definition sample_definition :: rfc_structure where
  "sample_definition = \<lparr>rs_name = units ''S'', rs_byteLength = 10, rs_fields = [sample_row\<lparr>sf_position := 1\<rparr>]\<rparr>"

theorem structure_reply_accepted_witness:
  "decodeRfcStructureDefinitionResult (units ''S'') (all_fields sample_items) = Inr sample_definition \<and>
   snapshotClassicStructureDefinition sample_definition (Some (units ''S'')) = Inr sample_definition"
proof -
  have pre: "fields_preflight (all_fields sample_items) = Inr ()"
    using parameter_char [OF reply_names(2)] reply_names(3)
    by (simp add: sample_items_def fld_def MAX_RFC_STRUCTURE_FIELDS_def)
  have row: "decodeRfcFieldsRow (fields_row sample_row) = Inr sample_row"
    using fields_row_forward_compatible [OF reply_row_fits, of "[]"] by simp
  have geometry: "rows_geometry (units ''S'') 10 {} 0 [sample_row\<lparr>sf_position := 1\<rparr>] = Inr ()"
    by (simp add: sample_row_def is_safe_integer_def max_safe_integer_def)
  have e: "decodeRfcStructureDefinitionResult (units ''S'') (all_fields sample_items) = Inr sample_definition"
    unfolding decodeRfcStructureDefinitionResult_def pre reply_decoded rbind_Inr reply_parts(1,2)
    using row reply_parts(3,4) geometry by (simp add: to_signed_def RFC_FIELDS_UNICODE_ROW_LENGTH_def sample_definition_def del: rows_geometry.simps)
  have "units ''S'' \<noteq> []" by (simp add: units_def)
  then show ?thesis using structure_reply_accepted [OF e] e by (simp add: sample_definition_def)
qed

end
