(* ===== verification/FunctionInterface.thy ===== *)
theory FunctionInterface
  imports StructureMetadata
begin

text \<open>
  The interface of a function module, \<open>src/metadata/rfc-function-interface.ts\<close>: the reply of
  RFC_GET_FUNCTION_INTERFACE with its rows split into parameters and exceptions.
\<close>

record function_interface =
  fi_name :: js_string
  fi_remoteBasxmlSupported :: bool
  fi_remoteCall :: js_string
  fi_updateTask :: bool
  fi_parameters :: "rfc_funint list"
  fi_exceptions :: "js_string list"
  fi_resumableExceptionRowCount :: nat

definition interface_scalar :: "classic_result \<Rightarrow> js_string \<Rightarrow> bytes result" where
  "interface_scalar result name = (case map_of (cr_scalars result) name of
      None \<Rightarrow> Inl (PlainError ''RFC_GET_FUNCTION_INTERFACE response lacks scalar'') | Some v \<Rightarrow> Inr v)"

definition interface_flag :: "bytes \<Rightarrow> bool result" where
  "interface_flag value = rbind (decodeAbapChar value (Some 1)) (\<lambda>decoded.
     if decoded \<noteq> [] \<and> decoded \<noteq> units ''X'' then Inl (PlainError ''contains unsupported flag value'')
     else Inr (decoded = units ''X''))"

definition is_exception_row :: "rfc_funint \<Rightarrow> bool" where
  "is_exception_row p \<longleftrightarrow> fp_parameterClass p = units ''X''"

definition decodeRfcFunctionInterfaceResult :: "js_string \<Rightarrow> cpic_field list \<Rightarrow> function_interface result" where
  "decodeRfcFunctionInterfaceResult functionName fs =
    rbind (decodeClassicRfcResult fs) (\<lambda>result.
    case find_table result (units ''PARAMS'') of
      None \<Rightarrow> Inl (PlainError ''RFC_GET_FUNCTION_INTERFACE response lacks PARAMS table'')
    | Some params \<Rightarrow>
        if tb_rowByteLength params < RFC_FUNINT_UNICODE_ROW_LENGTH
        then Inl (PlainError ''RFC_GET_FUNCTION_INTERFACE PARAMS row width'')
        else case find_table result (units ''RESUMABLE_EXCEPTIONS'') of
          None \<Rightarrow> Inl (PlainError ''RFC_GET_FUNCTION_INTERFACE response lacks RESUMABLE_EXCEPTIONS table'')
        | Some resumableExceptions \<Rightarrow>
            rbind (map_result decodeRfcFunintRow (tb_rows params)) (\<lambda>rows.
            let parameters = filter (\<lambda>p. \<not> is_exception_row p) rows;
                exceptions = map fp_parameterName (filter is_exception_row rows)
            in
            rbind (interface_scalar result (units ''REMOTE_BASXML_SUPPORTED'')) (\<lambda>basxml.
            rbind (interface_flag basxml) (\<lambda>remoteBasxmlSupported.
            rbind (interface_scalar result (units ''REMOTE_CALL'')) (\<lambda>call.
            rbind (decodeAbapChar call (Some 1)) (\<lambda>remoteCall.
            rbind (interface_scalar result (units ''UPDATE_TASK'')) (\<lambda>task.
            rbind (interface_flag task) (\<lambda>updateTask.
            Inr \<lparr>fi_name = functionName, fi_remoteBasxmlSupported = remoteBasxmlSupported, fi_remoteCall = remoteCall,
              fi_updateTask = updateTask, fi_parameters = parameters, fi_exceptions = exceptions,
              fi_resumableExceptionRowCount = length (tb_rows resumableExceptions)\<rparr>))))))))"

section \<open>The requests\<close>

definition FUNCTION_INTERFACE_OUTPUTS :: "js_string list" where
  "FUNCTION_INTERFACE_OUTPUTS = [units ''REMOTE_BASXML_SUPPORTED'', units ''REMOTE_CALL'', units ''UPDATE_TASK'',
     units ''PARAMS'', units ''RESUMABLE_EXCEPTIONS'']"

definition buildRfcGetFunctionInterfaceRequest :: "js_string \<Rightarrow> bytes result" where
  "buildRfcGetFunctionInterfaceRequest functionName =
    rbind (encodeAbapChar functionName 30) (\<lambda>funcname.
    rbind (encodeAbapChar (units ''X'') 1) (\<lambda>x.
    encodeCpicCutFunctionRequest \<lparr>cu_functionName = units ''RFC_GET_FUNCTION_INTERFACE'',
      cu_requestedOutputs = FUNCTION_INTERFACE_OUTPUTS,
      cu_imports = [(units ''FUNCNAME'', funcname), (units ''NONE_UNICODE_LENGTH'', x)],
      cu_tables = [], cu_xrfcParameters = [], cu_kernelRelease = None, cu_maximumRfcPacketSize = None\<rparr>))"

definition buildRfcGetStructureDefinitionRequest :: "js_string \<Rightarrow> bytes result" where
  "buildRfcGetStructureDefinitionRequest structureName =
    rbind (encodeAbapChar structureName 30) (\<lambda>tabname.
    encodeCpicCutFunctionRequest \<lparr>cu_functionName = units ''RFC_GET_STRUCTURE_DEFINITION'',
      cu_requestedOutputs = [units ''TABLENGTH'', units ''FIELDS''], cu_imports = [(units ''TABNAME'', tabname)],
      cu_tables = [], cu_xrfcParameters = [], cu_kernelRelease = None, cu_maximumRfcPacketSize = None\<rparr>)"

section \<open>Rows\<close>

lemma funint_rows_read:
  "list_all2 (\<lambda>p row. funint_fits p \<and> (\<exists>appended. row = funint_row p @ appended)) ps rows \<Longrightarrow>
     map_result decodeRfcFunintRow rows = Inr ps"
  by (induction rule: list_all2_induct) (auto simp: funint_row_forward_compatible)

text \<open>An accepted reply whose rows spell the interface, each with whatever a later release appends, gives its
parameters and the names of its exceptions, in the order of the rows.\<close>

lemma function_interface_rows:
  assumes "decodeRfcFunctionInterfaceResult name fs = Inr fi" "decodeClassicRfcResult fs = Inr r"
    and "find_table r (units ''PARAMS'') = Some t"
    and "list_all2 (\<lambda>p row. funint_fits p \<and> (\<exists>appended. row = funint_row p @ appended)) ps (tb_rows t)"
  shows "fi_name fi = name" "fi_parameters fi = filter (\<lambda>p. \<not> is_exception_row p) ps"
    "fi_exceptions fi = map fp_parameterName (filter is_exception_row ps)"
  using assms(1-3) funint_rows_read [OF assms(4)]
  by (auto simp: decodeRfcFunctionInterfaceResult_def Let_def split: if_splits option.splits)

end
