(* ===== verification/TextSplit.thy ===== *)
theory TextSplit
  imports Ascii TextForms
begin

text \<open>
  \<open>text.split(separator)\<close> for a separator of one character, and \<open>parts.join(separator)\<close>: joining undoes
  splitting, and splitting undoes joining when no part holds the separator.
\<close>

fun split_on :: "'a \<Rightarrow> 'a list \<Rightarrow> 'a list list" where
  "split_on c [] = [[]]"
| "split_on c (x # xs) =
     (if x = c then [] # split_on c xs
      else (case split_on c xs of p # ps \<Rightarrow> (x # p) # ps | [] \<Rightarrow> [[x]]))"

fun join_with :: "'a \<Rightarrow> 'a list list \<Rightarrow> 'a list" where
  "join_with c [] = []"
| "join_with c [p] = p"
| "join_with c (p # q # ps) = p @ c # join_with c (q # ps)"

lemma split_on_nonempty [simp]: "split_on c xs \<noteq> []"
  by (cases xs) (auto split: list.splits)

lemma split_on_parts: "p \<in> set (split_on c xs) \<Longrightarrow> c \<notin> set p"
  by (induction xs arbitrary: p) (auto split: if_splits list.splits)

lemma join_with_Cons: "ps \<noteq> [] \<Longrightarrow> join_with c (p # ps) = p @ c # join_with c ps"
  by (cases ps) auto

lemma join_split: "join_with c (split_on c xs) = xs"
proof (induction xs)
  case (Cons x xs)
  obtain p ps where s: "split_on c xs = p # ps" using split_on_nonempty [of c xs] by (cases "split_on c xs") auto
  then show ?case using Cons by (cases ps) auto
qed simp

lemma split_on_none: "c \<notin> set p \<Longrightarrow> split_on c p = [p]"
  by (induction p) auto

lemma split_on_append: "c \<notin> set p \<Longrightarrow> split_on c (p @ c # xs) = p # split_on c xs"
  by (induction p) auto

lemma split_append_sep: "split_on c (xs @ c # ys) = split_on c xs @ split_on c ys"
proof (induction xs)
  case (Cons x xs)
  obtain p ps where "split_on c xs = p # ps" using split_on_nonempty [of c xs] by (cases "split_on c xs") auto
  then show ?case using Cons by auto
qed simp

lemma split_join: "ps \<noteq> [] \<Longrightarrow> (\<And>p. p \<in> set ps \<Longrightarrow> c \<notin> set p) \<Longrightarrow> split_on c (join_with c ps) = ps"
proof (induction ps)
  case (Cons p ps)
  then show ?case by (cases "ps = []") (auto simp: join_with_Cons split_on_none split_on_append)
qed simp

text \<open>Canonical decimal numbers: no leading zero.\<close>

definition canonical_number :: "string \<Rightarrow> bool" where
  "canonical_number s \<longleftrightarrow> s \<noteq> [] \<and> list_all is_digit_char s \<and> (length s = 1 \<or> hd s \<noteq> CHR ''0'')"

lemma decimal_string_step: "0 < n \<Longrightarrow> decimal_string (n * 10 + d) = decimal_string n @ [digit_char d]" if "d < 10"
  using that by (subst decimal_string.simps) simp

lemma digit_value_zero: "is_digit_char c \<Longrightarrow> digit_value c = 0 \<longleftrightarrow> c = CHR ''0''"
  using digit_value_char [of c] digit_char_0 by (auto simp: digit_value_def)

lemma digits_number_pos: "list_all is_digit_char s \<Longrightarrow> s \<noteq> [] \<Longrightarrow> hd s \<noteq> CHR ''0'' \<Longrightarrow> 0 < digits_number s"
proof (induction s rule: rev_induct)
  case (snoc c s)
  then show ?case
  proof (cases "s = []")
    case True
    then show ?thesis using snoc.prems digit_value_zero [of c] by (simp add: digits_number_def)
  qed simp
qed simp

lemma decimal_string_number: "canonical_number s \<Longrightarrow> decimal_string (digits_number s) = s"
proof (induction s rule: rev_induct)
  case (snoc c s)
  show ?case
  proof (cases "s = []")
    case True
    then show ?thesis using snoc.prems digit_value_less [of c]
      by (simp add: canonical_number_def digits_number_def decimal_string.simps [of "digit_value c"])
  next
    case False
    have d: "list_all is_digit_char s" "is_digit_char c" "hd s \<noteq> CHR ''0''" "canonical_number s"
      using snoc.prems False by (auto simp: canonical_number_def hd_append split: if_splits)
    then show ?thesis using snoc.IH digits_number_pos [OF d(1) False d(3)] digit_value_less [OF d(2)]
      by (simp add: decimal_string_step)
  qed
qed (simp add: canonical_number_def)

lemma decimal_string_canonical: "canonical_number (decimal_string n)" "digits_number (decimal_string n) = n"
proof (induction n rule: decimal_string.induct)
  case (1 n)
  { case 1
    show ?case
    proof (cases "n < 10")
      case False
      then have c: "canonical_number (decimal_string (n div 10))" using "1.IH"(1) by simp
      have "hd (decimal_string (n div 10)) \<noteq> CHR ''0''"
      proof
        assume z: "hd (decimal_string (n div 10)) = CHR ''0''"
        then have "length (decimal_string (n div 10)) = 1" using c by (simp add: canonical_number_def)
        then have "decimal_string (n div 10) = ''0''" using z by (cases "decimal_string (n div 10)") auto
        then have "n div 10 = 0" using "1.IH"(2) False by (auto simp: digits_number_def digit_value_def)
        then show False using False by simp
      qed
      then show ?thesis using c False
        by (simp add: decimal_string.simps [of n] canonical_number_def hd_append digit_char_digit)
    qed (simp add: decimal_string.simps canonical_number_def digit_char_digit) }
  { case 2
    show ?case using "1.IH"(2) by (cases "n < 10") (simp_all add: decimal_string.simps [of n] digits_number_def) }
qed

end
