(* ===== verification/Gateway.thy ===== *)
theory Gateway
  imports TextSplit
begin

text \<open>
  The gateway's normal-client record, \<open>src/protocol/gateway.ts\<close>: the 64 bytes exchanged before the APPC setup,
  with an IPv4 address, four padded names and a signed index.

  \<open>isIPv4\<close> of Node accepts four decimal numbers up to 255 without leading zeros.
\<close>

definition GATEWAY_NORMAL_CLIENT_LENGTH :: int where
  "GATEWAY_NORMAL_CLIENT_LENGTH = 64"

definition GATEWAY_PROTOCOL_VERSION :: int where
  "GATEWAY_PROTOCOL_VERSION = 2"

definition GATEWAY_NORMAL_CLIENT_REQUEST :: int where
  "GATEWAY_NORMAL_CLIENT_REQUEST = 3"

record gateway_record =
  gw_address :: string
  gw_service :: string
  gw_codePage :: string
  gw_gatewayOptionLevel :: int
  gw_logicalUnit :: string
  gw_transactionProgram :: string
  gw_conversationId :: string
  gw_appcHeaderVersion :: int
  gw_acceptInfo :: int
  gw_index :: int
  gw_returnCode :: int
  gw_echoData :: int

definition gw_encodeAscii :: "string \<Rightarrow> nat \<Rightarrow> byte \<Rightarrow> bytes result" where
  "gw_encodeAscii value width padding =
    (if width < length value \<or> \<not> list_all printable value then Inl (RangeError ''must contain at most ASCII bytes'')
     else Inr (splice 0 (ascii_bytes value) (replicate width padding)))"

definition gw_decodeAscii :: "bytes \<Rightarrow> string result" where
  "gw_decodeAscii data =
    (if list_ex (\<lambda>b. b \<noteq> 0 \<and> (unat b < 0x20 \<or> 0x7e < unat b)) data then Inl (PlainError ''contains a non-ASCII byte'')
     else Inr (strip_padding (ascii_string data)))"

definition ipv4_octet :: "string \<Rightarrow> nat option" where
  "ipv4_octet s = (if canonical_number s \<and> length s \<le> 3 \<and> digits_number s \<le> 255 then Some (digits_number s) else None)"

definition isIPv4 :: "string \<Rightarrow> bool" where
  "isIPv4 s \<longleftrightarrow> (let parts = split_on (CHR ''.'') s in length parts = 4 \<and> list_all (\<lambda>p. ipv4_octet p \<noteq> None) parts)"

definition encodeIpv4 :: "string \<Rightarrow> bytes result" where
  "encodeIpv4 address =
    (if \<not> isIPv4 address then Inl (RangeError ''address must be an IPv4 address for gateway protocol version 2'')
     else Inr (map (\<lambda>p. word_of_nat (digits_number p)) (split_on (CHR ''.'') address)))"

definition decodeIpv4 :: "bytes \<Rightarrow> string" where
  "decodeIpv4 data = join_with (CHR ''.'') (map (\<lambda>b. decimal_string (unat b)) data)"

definition validateSigned16 :: "int \<Rightarrow> unit result" where
  "validateSigned16 value = guard_that (is_safe_integer value \<and> - 0x8000 \<le> value \<and> value \<le> 0x7fff)
     (RangeError ''index must be a signed 16-bit integer'')"

definition encodeGatewayNormalClient :: "gateway_record \<Rightarrow> bytes result" where
  "encodeGatewayNormalClient r =
    rbind (validateSigned16 (gw_index r)) (\<lambda>_.
    if \<not> (length (gw_codePage r) = 4 \<and> list_all is_digit_char (gw_codePage r))
    then Inl (RangeError ''codePage must contain exactly four ASCII digits'')
    else
    rbind (writer_new GATEWAY_NORMAL_CLIENT_LENGTH) (\<lambda>w.
    rbind (writeUInt8 w GATEWAY_PROTOCOL_VERSION) (\<lambda>w.
    rbind (writeUInt8 w GATEWAY_NORMAL_CLIENT_REQUEST) (\<lambda>w.
    rbind (encodeIpv4 (gw_address r)) (\<lambda>address.
    rbind (writeBytes w address) (\<lambda>w.
    rbind (writeUInt32BE w 0) (\<lambda>w.
    rbind (gw_encodeAscii (gw_service r) 10 0) (\<lambda>service.
    rbind (writeBytes w service) (\<lambda>w.
    rbind (writeBytes w (ascii_bytes (gw_codePage r))) (\<lambda>w.
    rbind (writeBytes w (replicate 5 0)) (\<lambda>w.
    rbind (writeUInt8 w (gw_gatewayOptionLevel r)) (\<lambda>w.
    rbind (gw_encodeAscii (gw_logicalUnit r) 8 0x20) (\<lambda>logicalUnit.
    rbind (writeBytes w logicalUnit) (\<lambda>w.
    rbind (gw_encodeAscii (gw_transactionProgram r) 8 0x20) (\<lambda>transactionProgram.
    rbind (writeBytes w transactionProgram) (\<lambda>w.
    rbind (gw_encodeAscii (gw_conversationId r) 8 0x20) (\<lambda>conversationId.
    rbind (writeBytes w conversationId) (\<lambda>w.
    rbind (writeUInt8 w (gw_appcHeaderVersion r)) (\<lambda>w.
    rbind (writeUInt8 w (gw_acceptInfo r)) (\<lambda>w.
    rbind (writeUInt16BE w (gw_index r mod 0x10000)) (\<lambda>w.
    rbind (writeUInt32BE w (gw_returnCode r)) (\<lambda>w.
    rbind (writeUInt8 w (gw_echoData r)) (\<lambda>w.
    rbind (writeUInt8 w 0) (\<lambda>w.
    writer_finish w))))))))))))))))))))))))"

definition decodeGatewayNormalClient :: "bytes \<Rightarrow> gateway_record result" where
  "decodeGatewayNormalClient data =
    (if length data < 2 then Inl (RangeError ''gateway normal-client record needs at least 2 bytes'')
     else let version = int (unat (data ! 0)) in
     if version = 3 then Inl (PlainError ''gateway protocol version 3 IPv6 records are not implemented'')
     else if version \<noteq> GATEWAY_PROTOCOL_VERSION then Inl (PlainError ''unsupported gateway protocol version'')
     else if int (length data) \<noteq> GATEWAY_NORMAL_CLIENT_LENGTH
     then Inl (RangeError ''gateway version-2 normal-client record needs its bytes'')
     else
     rbind (readUInt8 (reader_new data)) (\<lambda>(_, r).
     rbind (readUInt8 r) (\<lambda>(requestType, r).
     if int requestType \<noteq> GATEWAY_NORMAL_CLIENT_REQUEST then Inl (PlainError ''expected GW_NORMAL_CLIENT request type 3'')
     else
     rbind (readBytes r 4) (\<lambda>(addressBytes, r).
     let address = decodeIpv4 addressBytes in
     rbind (readUInt32BE r) (\<lambda>(reserved1, r).
     if reserved1 \<noteq> 0 then Inl (PlainError ''gateway normal-client reserved1 field must be zero'')
     else
     rbind (readBytes r 10) (\<lambda>(b, r). rbind (gw_decodeAscii b) (\<lambda>service.
     rbind (readBytes r 4) (\<lambda>(b, r). rbind (gw_decodeAscii b) (\<lambda>codePage.
     rbind (readBytes r 5) (\<lambda>(reserved2, r).
     if reserved2 \<noteq> replicate 5 0 then Inl (PlainError ''gateway normal-client reserved2 field must be zero'')
     else
     rbind (readUInt8 r) (\<lambda>(gatewayOptionLevel, r).
     rbind (readBytes r 8) (\<lambda>(b, r). rbind (gw_decodeAscii b) (\<lambda>logicalUnit.
     rbind (readBytes r 8) (\<lambda>(b, r). rbind (gw_decodeAscii b) (\<lambda>transactionProgram.
     rbind (readBytes r 8) (\<lambda>(b, r). rbind (gw_decodeAscii b) (\<lambda>conversationId.
     rbind (readUInt8 r) (\<lambda>(appcHeaderVersion, r).
     rbind (readUInt8 r) (\<lambda>(acceptInfo, r).
     rbind (readUInt16BE r) (\<lambda>(unsignedIndex, r).
     let index = (if 0x7fff < unsignedIndex then int unsignedIndex - 0x10000 else int unsignedIndex) in
     rbind (readUInt32BE r) (\<lambda>(returnCode, r).
     rbind (readUInt8 r) (\<lambda>(echoData, r).
     rbind (readUInt8 r) (\<lambda>(filler, r).
     if filler \<noteq> 0 then Inl (PlainError ''gateway normal-client filler field must be zero'')
     else rbind (reader_finish r) (\<lambda>_.
     Inr \<lparr>gw_address = address, gw_service = service, gw_codePage = codePage,
       gw_gatewayOptionLevel = int gatewayOptionLevel, gw_logicalUnit = logicalUnit,
       gw_transactionProgram = transactionProgram, gw_conversationId = conversationId,
       gw_appcHeaderVersion = int appcHeaderVersion, gw_acceptInfo = int acceptInfo, gw_index = index,
       gw_returnCode = int returnCode, gw_echoData = int echoData\<rparr>))))))))))))))))))))))))"

section \<open>Names and addresses\<close>

lemma gw_encodeAscii_iff: "gw_encodeAscii v w p = Inr b \<longleftrightarrow> list_all printable v \<and> length v \<le> w \<and> b = padded_field w p v"
  by (auto simp: gw_encodeAscii_def padded_field_def splice_def)

lemma strip_padding_append: "strip_padding (s @ replicate n (CHR 0x20)) = strip_padding s"
    "strip_padding (s @ replicate n (CHR 0x00)) = strip_padding s"
  by (induction n) (simp_all add: strip_padding_def replicate_append_same flip: append_assoc)

lemma gw_decodeAscii_field:
  assumes "list_all printable v" and "p = 0 \<or> p = 0x20"
  shows "gw_decodeAscii (padded_field w p v) = Inr (strip_padding v)"
proof -
  have "\<not> list_ex (\<lambda>b. b \<noteq> 0 \<and> (unat b < 0x20 \<or> 0x7e < unat b)) (padded_field w p v)"
    using assms by (auto simp: padded_field_def list_ex_iff ascii_bytes_def list_all_iff printable_def)
  moreover have "ascii_string (padded_field w p v) = v @ replicate (w - length v) (char_of (unat p mod 128))"
    using assms(1) by (simp add: padded_field_def ascii_string_bytes) (simp add: ascii_string_def)
  moreover have "char_of (unat p mod 128) = CHR 0x20 \<or> char_of (unat p mod 128) = CHR 0x00"
    using assms(2) by (auto simp: char_of_def bit_iff_odd)
  ultimately show ?thesis using strip_padding_append by (auto simp: gw_decodeAscii_def)
qed

lemma digits_printable: "list_all is_digit_char s \<Longrightarrow> list_all printable s \<and> strip_padding s = s"
proof -
  assume d: "list_all is_digit_char s"
  then have "list_all printable s" by (auto simp: list_all_iff is_digit_char_def printable_def)
  moreover have "s \<noteq> [] \<longrightarrow> last s \<noteq> CHR 0x20" using d by (fastforce simp: list_all_iff is_digit_char_def dest: last_in_set)
  ultimately show ?thesis using strip_padding_pads [of s "CHR 0x20" 0] by simp
qed

lemma ipv4_read_back:
  assumes "encodeIpv4 address = Inr b"
  shows "length b = 4 \<and> decodeIpv4 b = address"
proof -
  let ?ps = "split_on (CHR ''.'') address"
  have ps: "length ?ps = 4" "\<forall>p \<in> set ?ps. ipv4_octet p \<noteq> None" "b = map (\<lambda>p. word_of_nat (digits_number p)) ?ps"
    using assms by (auto simp: encodeIpv4_def isIPv4_def Let_def list_all_iff split: if_splits)
  have "decimal_string (unat (word_of_nat (digits_number p) :: byte)) = p" if "p \<in> set ?ps" for p
    using ps(2) that decimal_string_number [of p] by (auto simp: ipv4_octet_def split: if_splits)
  then have "map (\<lambda>b. decimal_string (unat b)) b = ?ps" by (simp add: ps(3) map_idI)
  then show ?thesis using ps(1,3) by (simp add: decodeIpv4_def join_split)
qed

section \<open>The record\<close>

definition gateway_bytes :: "gateway_record \<Rightarrow> bytes \<Rightarrow> bytes" where
  "gateway_bytes r address =
     be_encode 1 2 @ be_encode 1 3 @ address @ be_encode 4 0 @ padded_field 10 0 (gw_service r) @ ascii_bytes (gw_codePage r) @
     replicate 5 0 @ be_encode 1 (nat (gw_gatewayOptionLevel r)) @ padded_field 8 0x20 (gw_logicalUnit r) @
     padded_field 8 0x20 (gw_transactionProgram r) @ padded_field 8 0x20 (gw_conversationId r) @
     be_encode 1 (nat (gw_appcHeaderVersion r)) @ be_encode 1 (nat (gw_acceptInfo r)) @
     be_encode 2 (nat (gw_index r mod 0x10000)) @ be_encode 4 (nat (gw_returnCode r)) @
     be_encode 1 (nat (gw_echoData r)) @ be_encode 1 0"

definition gateway_fits :: "gateway_record \<Rightarrow> bool" where
  "gateway_fits r \<longleftrightarrow> - 0x8000 \<le> gw_index r \<and> gw_index r \<le> 0x7fff \<and> length (gw_codePage r) = 4 \<and>
     list_all is_digit_char (gw_codePage r) \<and> list_all printable (gw_service r) \<and> length (gw_service r) \<le> 10 \<and>
     list_all printable (gw_logicalUnit r) \<and> length (gw_logicalUnit r) \<le> 8 \<and>
     list_all printable (gw_transactionProgram r) \<and> length (gw_transactionProgram r) \<le> 8 \<and>
     list_all printable (gw_conversationId r) \<and> length (gw_conversationId r) \<le> 8 \<and>
     0 \<le> gw_gatewayOptionLevel r \<and> gw_gatewayOptionLevel r \<le> 0xff \<and> 0 \<le> gw_appcHeaderVersion r \<and> gw_appcHeaderVersion r \<le> 0xff \<and>
     0 \<le> gw_acceptInfo r \<and> gw_acceptInfo r \<le> 0xff \<and> 0 \<le> gw_returnCode r \<and> gw_returnCode r \<le> 0xffffffff \<and>
     0 \<le> gw_echoData r \<and> gw_echoData r \<le> 0xff"

lemma write_ranges:
  "writeUInt8 w v = Inr w' \<Longrightarrow> 0 \<le> v \<and> v \<le> 0xff" "writeUInt32BE w v = Inr w' \<Longrightarrow> 0 \<le> v \<and> v \<le> 0xffffffff"
  by (auto simp: writeUInt8_def writeUInt32BE_def writer_integer_def)

lemma gateway_encode_fits: "encodeGatewayNormalClient r = Inr bs \<Longrightarrow> gateway_fits r \<and> (\<exists>address. encodeIpv4 (gw_address r) = Inr address)"
  by (auto simp: encodeGatewayNormalClient_def validateSigned16_def gw_encodeAscii_iff gateway_fits_def dest!: write_ranges
      split: if_splits)

lemma gateway_encode:
  assumes "gateway_fits r" and "encodeIpv4 (gw_address r) = Inr address"
  shows "encodeGatewayNormalClient r = Inr (gateway_bytes r address)" "length (gateway_bytes r address) = 64"
proof -
  have e: "list_all printable v \<Longrightarrow> length v \<le> w \<Longrightarrow> gw_encodeAscii v w p = Inr (padded_field w p v)" for v w p
    by (simp add: gw_encodeAscii_iff)
  have m: "0 \<le> gw_index r mod 65536 \<and> gw_index r mod 65536 \<le> 65535" by simp
  show l: "length (gateway_bytes r address) = 64"
    using assms(1) ipv4_read_back [OF assms(2)] by (simp add: gateway_bytes_def gateway_fits_def)
  show "encodeGatewayNormalClient r = Inr (gateway_bytes r address)"
    using assms ipv4_read_back [OF assms(2)] m
    by (simp add: encodeGatewayNormalClient_def GATEWAY_NORMAL_CLIENT_LENGTH_def GATEWAY_PROTOCOL_VERSION_def
        GATEWAY_NORMAL_CLIENT_REQUEST_def validateSigned16_def is_safe_integer_def max_safe_integer_def writer_simps e
        gateway_fits_def gateway_bytes_def del: rbind_eq_Inr be_encode.simps)
qed

lemma signed16_wraps:
  assumes "- 0x8000 \<le> i" "i \<le> 0x7fff"
  shows "(if 0x7fff < nat (i mod 0x10000) then int (nat (i mod 0x10000)) - 0x10000 else int (nat (i mod 0x10000))) = i"
proof (cases "0 \<le> i")
  case True
  then have "i mod 0x10000 = i" using assms by (intro mod_pos_pos_trivial) simp_all
  then show ?thesis using True assms by (simp add: nat_less_iff)
next
  case False
  have "i mod 0x10000 = (i + 0x10000) mod 0x10000" by simp
  also have "\<dots> = i + 0x10000" using False assms by (intro mod_pos_pos_trivial) simp_all
  finally show ?thesis using False assms by simp
qed

text \<open>What comes back of a record: the names without the blanks at their end.\<close>

definition gateway_normal :: "gateway_record \<Rightarrow> gateway_record" where
  "gateway_normal r = r\<lparr>gw_service := strip_padding (gw_service r), gw_logicalUnit := strip_padding (gw_logicalUnit r),
     gw_transactionProgram := strip_padding (gw_transactionProgram r), gw_conversationId := strip_padding (gw_conversationId r)\<rparr>"

lemma gateway_decode:
  assumes "gateway_fits r" and "encodeIpv4 (gw_address r) = Inr address"
  shows "decodeGatewayNormalClient (gateway_bytes r address) = Inr (gateway_normal r)"
proof -
  have f: "padded_field 4 0 (gw_codePage r) = ascii_bytes (gw_codePage r)"
    using assms(1) by (simp add: padded_field_def gateway_fits_def)
  have code: "gw_decodeAscii (ascii_bytes (gw_codePage r)) = Inr (gw_codePage r)"
    using assms(1) digits_printable [of "gw_codePage r"] gw_decodeAscii_field [of "gw_codePage r" 0 4] f
    by (simp add: gateway_fits_def)
  have idx: "(if 0x7fff < nat (gw_index r mod 0x10000) then int (nat (gw_index r mod 0x10000)) - 0x10000
      else int (nat (gw_index r mod 0x10000))) = gw_index r"
    using assms(1) by (intro signed16_wraps) (simp_all add: gateway_fits_def)
  have head: "gateway_bytes r address ! 0 = 2" "\<not> length (gateway_bytes r address) < 2" "int (length (gateway_bytes r address)) = 64"
    using gateway_encode(2) [OF assms] by (simp_all add: gateway_bytes_def)
  have m: "nat (gw_index r mod 65536) < 65536" by (simp add: nat_less_iff)
  show ?thesis
    unfolding decodeGatewayNormalClient_def Let_def head if_not_P [OF head(2)]
    using assms ipv4_read_back [OF assms(2)] m idx
    by (simp add: gateway_bytes_def GATEWAY_NORMAL_CLIENT_LENGTH_def GATEWAY_PROTOCOL_VERSION_def
        GATEWAY_NORMAL_CLIENT_REQUEST_def reader_fields gw_decodeAscii_field code nat_less_iff gateway_fits_def gateway_normal_def
        del: rbind_eq_Inr be_encode.simps)
qed

text \<open>The gateway record makes the trip: whatever record the encoder accepts takes 64 bytes and is decoded to the same
address, numbers and signed index, and the same names without the blanks at their end.\<close>

theorem gateway_roundtrip:
  "encodeGatewayNormalClient r = Inr bs \<Longrightarrow> length bs = 64 \<and> decodeGatewayNormalClient bs = Inr (gateway_normal r)"
  using gateway_encode_fits [of r bs] gateway_encode [of r] gateway_decode [of r] by auto

definition sample_gateway :: gateway_record where
  "sample_gateway = \<lparr>gw_address = ''10.0.0.255'', gw_service = ''sapgw00'', gw_codePage = ''4103'',
     gw_gatewayOptionLevel = 6, gw_logicalUnit = ''host'', gw_transactionProgram = ''sapgw00'', gw_conversationId = [],
     gw_appcHeaderVersion = 6, gw_acceptInfo = 203, gw_index = - 1, gw_returnCode = 0, gw_echoData = 0\<rparr>"

theorem gateway_roundtrip_witness:
  "\<exists>bs. encodeGatewayNormalClient sample_gateway = Inr bs \<and> length bs = 64 \<and>
     decodeGatewayNormalClient bs = Inr sample_gateway"
proof -
  have "gateway_fits sample_gateway" by (simp add: sample_gateway_def gateway_fits_def printable_def is_digit_char_def)
  moreover have "encodeIpv4 (gw_address sample_gateway) = Inr [10, 0, 0, 255]"
    by (simp add: sample_gateway_def encodeIpv4_def isIPv4_def ipv4_octet_def canonical_number_def is_digit_char_def
        digits_number_def digit_value_def)
  ultimately have e: "encodeGatewayNormalClient sample_gateway = Inr (gateway_bytes sample_gateway [10, 0, 0, 255])"
    by (rule gateway_encode)
  have "gateway_normal sample_gateway = sample_gateway"
    by (simp add: gateway_normal_def sample_gateway_def strip_padding_def)
  then show ?thesis using gateway_roundtrip [OF e] e by simp
qed

end
