(* ===== verification/SapRouterRoute.thy ===== *)
theory SapRouterRoute
  imports TextSplit
begin

text \<open>
  SAProuter routes, \<open>src/transport/saprouter-route.ts\<close>: the parser of route strings at the trust boundary, the
  completion of a route prefix with the gateway's endpoint, the NI_ROUTE request and the acknowledgement.

  A route string is a list of 8-bit characters; a string with any other character fails the first test of the
  source. The internal hops, which the source keeps in a side table, are a field of the admitted route; \<open>firstHop\<close> repeats the head of the hops.
\<close>

definition SAPROUTER_DEFAULT_SERVICE :: string where
  "SAPROUTER_DEFAULT_SERVICE = ''3299''"

definition SAPROUTER_ROUTE_INFORMATION_VERSION :: nat where
  "SAPROUTER_ROUTE_INFORMATION_VERSION = 2"

definition SAPROUTER_DEFAULT_NI_VERSION :: int where
  "SAPROUTER_DEFAULT_NI_VERSION = 40"

definition SAPROUTER_ROUTE_HEADER_LENGTH :: nat where
  "SAPROUTER_ROUTE_HEADER_LENGTH = 24"

definition SAPROUTER_MAX_ROUTE_BYTES :: nat where
  "SAPROUTER_MAX_ROUTE_BYTES = 2048"

definition SAPROUTER_MAX_ROUTE_HOPS :: nat where
  "SAPROUTER_MAX_ROUTE_HOPS = 255"

definition SAPROUTER_MAX_RESPONSE_PAYLOAD_BYTES :: nat where
  "SAPROUTER_MAX_RESPONSE_PAYLOAD_BYTES = 1048576"

record router_hop =
  rh_host :: string
  rh_service :: "string option"  \<comment> \<open>None is written as an empty field and means service 3299\<close>
  rh_password :: "string option"

record router_view =
  rv_host :: string
  rv_service :: string
  rv_usesDefaultService :: bool
  rv_passwordProtected :: bool

record admitted_route =
  ar_hopCount :: nat
  ar_byteLength :: nat
  ar_hops :: "router_view list"
  ar_redactedRouteString :: string
  ar_internal :: "router_hop list"

section \<open>The parser\<close>

definition invalidRoute :: js_error where
  "invalidRoute = RangeError ''SAProuter route string is invalid''"

datatype route_field_kind = HostField | ServiceField | PasswordField

definition is_alphanumeric :: "char \<Rightarrow> bool" where
  "is_alphanumeric c \<longleftrightarrow> (let n = of_char c :: nat in 0x41 \<le> n \<and> n \<le> 0x5a \<or> 0x61 \<le> n \<and> n \<le> 0x7a \<or> 0x30 \<le> n \<and> n \<le> 0x39)"

fun route_char :: "route_field_kind \<Rightarrow> char \<Rightarrow> bool" where
  "route_char HostField c \<longleftrightarrow> is_alphanumeric c \<or> c \<in> set ''_.:%[]-''"
| "route_char ServiceField c \<longleftrightarrow> is_alphanumeric c \<or> c \<in> set ''_.-''"
| "route_char PasswordField c \<longleftrightarrow> printable c \<and> c \<noteq> CHR ''/''"

fun route_field_ok :: "route_field_kind \<Rightarrow> string \<Rightarrow> bool" where
  "route_field_ok HostField s \<longleftrightarrow> 2 \<le> length s \<and> length s \<le> 255 \<and> list_all (route_char HostField) s"
| "route_field_ok ServiceField s \<longleftrightarrow> s \<noteq> [] \<and> length s \<le> 63 \<and> list_all (route_char ServiceField) s"
| "route_field_ok PasswordField s \<longleftrightarrow> s \<noteq> [] \<and> length s \<le> 255 \<and> list_all (route_char PasswordField) s"

definition routeField :: "string option \<Rightarrow> route_field_kind \<Rightarrow> string result" where
  "routeField value kind = (case value of
      None \<Rightarrow> Inl invalidRoute
    | Some s \<Rightarrow> if route_field_ok kind s then Inr s else Inl invalidRoute)"

definition part_at :: "string list \<Rightarrow> string option" where
  "part_at parts = (case parts of [] \<Rightarrow> None | p # _ \<Rightarrow> Some p)"

text \<open>The service and password behind a host, up to the next \<open>H\<close>; \<open>passwordSeen\<close> is set with the password.\<close>

function hop_options :: "string option \<Rightarrow> string option \<Rightarrow> string list \<Rightarrow> (string option \<times> string option \<times> string list) result" where
  "hop_options service password parts = (case parts of
      [] \<Rightarrow> Inr (service, password, [])
    | token # rest \<Rightarrow>
        if token = ''H'' then Inr (service, password, parts)
        else if token = ''S''
        then if service \<noteq> None \<or> password \<noteq> None then Inl invalidRoute
          else (case routeField (part_at rest) ServiceField of
              Inl e \<Rightarrow> Inl e | Inr v \<Rightarrow> hop_options (Some v) password (drop 1 rest))
        else if token = ''W''
        then if password \<noteq> None then Inl invalidRoute
          else (case routeField (part_at rest) PasswordField of
              Inl e \<Rightarrow> Inl e | Inr v \<Rightarrow> hop_options service (Some v) (drop 1 rest))
        else Inl invalidRoute)"
  by pat_completeness auto
termination by (relation "measure (\<lambda>(_, _, parts). length parts)") auto

declare hop_options.simps [simp del]

lemma hop_options_shorter: "hop_options s w parts = Inr (s', w', rest) \<Longrightarrow> length rest \<le> length parts"
proof (induction s w parts rule: hop_options.induct)
  case (1 service password parts)
  show ?case
  proof (cases parts)
    case Nil
    then show ?thesis using "1.prems" by (simp add: hop_options.simps)
  next
    case (Cons token rest)
    then show ?thesis using "1.prems" "1.IH"(1) [OF Cons] "1.IH"(2) [OF Cons]
      by (subst (asm) hop_options.simps) (fastforce split: if_splits sum.splits)
  qed
qed

text \<open>The hops from \<open>parts\<close> on, with the number already found.\<close>

function route_hops :: "nat \<Rightarrow> string list \<Rightarrow> router_hop list result" where
  "route_hops count parts = (case parts of
      [] \<Rightarrow> Inr []
    | token # rest \<Rightarrow>
        if token \<noteq> ''H'' then Inl invalidRoute
        else (case routeField (part_at rest) HostField of
            Inl e \<Rightarrow> Inl e
          | Inr host \<Rightarrow> (case hop_options None None (drop 1 rest) of
              Inl e \<Rightarrow> Inl e
            | Inr (service, password, parts') \<Rightarrow>
                if SAPROUTER_MAX_ROUTE_HOPS < count + 1 then Inl invalidRoute
                else rbind (route_hops (count + 1) parts') (\<lambda>hops.
                  Inr (\<lparr>rh_host = host, rh_service = service, rh_password = password\<rparr> # hops)))))"
  by pat_completeness auto
termination by (relation "measure (\<lambda>(_, parts). length parts)") (auto dest!: hop_options_shorter)

declare route_hops.simps [simp del]

definition internalHopByteLength :: "router_hop \<Rightarrow> nat" where
  "internalHopByteLength hop = length (rh_host hop) + 1 + length (or_else (rh_service hop) []) + 1 +
     length (or_else (rh_password hop) []) + 1"

definition REDACTED :: string where
  "REDACTED = ''[REDACTED]''"

definition redactedRoute :: "router_hop list \<Rightarrow> string" where
  "redactedRoute hops = concat (map (\<lambda>hop. ''/H/'' @ rh_host hop @
     (case rh_service hop of None \<Rightarrow> [] | Some s \<Rightarrow> ''/S/'' @ s) @
     (case rh_password hop of None \<Rightarrow> [] | Some _ \<Rightarrow> ''/W/'' @ REDACTED)) hops)"

definition hop_view :: "router_hop \<Rightarrow> router_view" where
  "hop_view hop = \<lparr>rv_host = rh_host hop, rv_service = or_else (rh_service hop) SAPROUTER_DEFAULT_SERVICE,
     rv_usesDefaultService = (rh_service hop = None), rv_passwordProtected = (rh_password hop \<noteq> None)\<rparr>"

definition route_of_hops :: "router_hop list \<Rightarrow> admitted_route" where
  "route_of_hops hops = \<lparr>ar_hopCount = length hops, ar_byteLength = sum_list (map internalHopByteLength hops),
     ar_hops = map hop_view hops, ar_redactedRouteString = redactedRoute hops, ar_internal = hops\<rparr>"

definition admitSapRouterRoute :: "string \<Rightarrow> admitted_route result" where
  "admitSapRouterRoute input =
    (if SAPROUTER_MAX_ROUTE_BYTES < length input \<or> input = [] \<or> \<not> list_all printable input then Inl invalidRoute
     else let parts = split_on (CHR ''/'') input in
       if hd parts \<noteq> [] \<or> length parts < 5 then Inl invalidRoute
       else rbind (route_hops 0 (tl parts)) (\<lambda>hops.
         if length hops < 2 \<or> rh_password (last hops) \<noteq> None then Inl invalidRoute
         else let byteLength = sum_list (map internalHopByteLength hops) in
           if SAPROUTER_MAX_ROUTE_BYTES < byteLength then Inl invalidRoute else Inr (route_of_hops hops)))"

section \<open>Completion of a prefix\<close>

definition ROUTE_PREFIX_SENTINEL_HOST :: string where
  "ROUTE_PREFIX_SENTINEL_HOST = ''open-rfc-target.invalid''"

definition ROUTE_PREFIX_SENTINEL_PORT :: nat where
  "ROUTE_PREFIX_SENTINEL_PORT = 65535"

definition ends_with :: "string \<Rightarrow> string \<Rightarrow> bool" where
  "ends_with s suf \<longleftrightarrow> length suf \<le> length s \<and> drop (length s - length suf) s = suf"

definition assertSapRouterRoutePrefix :: "string \<Rightarrow> unit result" where
  "assertSapRouterRoutePrefix input =
    (if \<not> ends_with input ''/H/'' \<or> SAPROUTER_MAX_ROUTE_BYTES < length input \<or> input = [] \<or> \<not> list_all printable input
     then Inl invalidRoute
     else rbind (admitSapRouterRoute (input @ ROUTE_PREFIX_SENTINEL_HOST @ ''/S/'' @ decimal_string ROUTE_PREFIX_SENTINEL_PORT))
       (\<lambda>_. Inr ()))"

definition completeSapRouterRoute :: "string \<Rightarrow> string option \<Rightarrow> int \<Rightarrow> admitted_route result" where
  "completeSapRouterRoute prefix gatewayHost gatewayPort =
    rbind (assertSapRouterRoutePrefix prefix) (\<lambda>_.
    rbind (routeField gatewayHost HostField) (\<lambda>host.
    if \<not> is_safe_integer gatewayPort \<or> gatewayPort < 1 \<or> 0xffff < gatewayPort then Inl invalidRoute
    else admitSapRouterRoute (prefix @ host @ ''/S/'' @ decimal_string (nat gatewayPort))))"

section \<open>The request\<close>

definition SAPROUTER_ROUTE_EYECATCHER :: bytes where
  "SAPROUTER_ROUTE_EYECATCHER = ascii_bytes ''NI_ROUTE'' @ [0]"

definition normalizedNiVersion :: "int \<Rightarrow> int result" where
  "normalizedNiVersion value =
    (if \<not> is_safe_integer value \<or> value < 1 \<or> 255 < value then Inl (RangeError ''niVersion must be an integer in 1..255'')
     else Inr value)"

definition hop_bytes :: "router_hop \<Rightarrow> bytes" where
  "hop_bytes hop = concat (map (\<lambda>f. ascii_bytes f @ [0]) [rh_host hop, or_else (rh_service hop) [], or_else (rh_password hop) []])"

text \<open>The header is 24 bytes, written field by field; the hops are appended behind it.\<close>

definition encodeSapRouterRouteRequestPayload :: "admitted_route \<Rightarrow> int option \<Rightarrow> bytes result" where
  "encodeSapRouterRouteRequestPayload route niVersion =
    rbind (normalizedNiVersion (or_else niVersion SAPROUTER_DEFAULT_NI_VERSION)) (\<lambda>niVersion.
    let hops = ar_internal route;
        header = SAPROUTER_ROUTE_EYECATCHER @
          [word_of_nat SAPROUTER_ROUTE_INFORMATION_VERSION, word_of_int niVersion, word_of_nat (length hops), 0] @
          be_encode 2 0 @ [word_of_nat (length hops - 1)] @ be_encode 4 (ar_byteLength route) @
          be_encode 4 (internalHopByteLength (hd hops));
        payload = header @ concat (map hop_bytes hops)
    in if length payload \<noteq> SAPROUTER_ROUTE_HEADER_LENGTH + ar_byteLength route
       then Inl (PlainError ''internal SAProuter route length mismatch'') else Inr payload)"

section \<open>The acknowledgement\<close>

definition SAPROUTER_PONG :: bytes where
  "SAPROUTER_PONG = ascii_bytes ''NI_PONG'' @ [0]"

definition SAPROUTER_ERROR_EYECATCHER :: bytes where
  "SAPROUTER_ERROR_EYECATCHER = ascii_bytes ''NI_RTERR'' @ [0]"

datatype route_response = RouteAccepted | RouteRejected nat int nat

definition response_error :: js_error where
  "response_error = RangeError ''SAProuter route response is invalid''"

definition decodeSapRouterRouteResponse :: "bytes \<Rightarrow> route_response result" where
  "decodeSapRouterRouteResponse payload =
    (if SAPROUTER_MAX_RESPONSE_PAYLOAD_BYTES < length payload then Inl response_error
     else if payload = SAPROUTER_PONG then Inr RouteAccepted
     else if \<not> (length SAPROUTER_ERROR_EYECATCHER \<le> length payload \<and>
        take (length SAPROUTER_ERROR_EYECATCHER) payload = SAPROUTER_ERROR_EYECATCHER) then Inl response_error
     else if length payload < 20 then Inl response_error
     else let niVersion = unat (payload ! 9); opcode = payload ! 10; padding = payload ! 11;
              returnCode = to_signed 4 (be_decode (slice 12 4 payload));
              errorTextByteLength = be_decode (slice 16 4 payload)
       in if niVersion = 0 \<or> opcode \<noteq> 0 \<or> padding \<noteq> 0 \<or> 0 \<le> returnCode then Inl response_error
          else let documentedLength = 20 + errorTextByteLength; modernLength = documentedLength + 4 in
            if length payload \<noteq> documentedLength \<and> length payload \<noteq> modernLength then Inl response_error
            else if length payload = modernLength \<and> be_decode (slice documentedLength 4 payload) \<noteq> 0 then Inl response_error
            else Inr (RouteRejected niVersion returnCode errorTextByteLength))"

end
