(* ===== verification/SapRouterGrammar.thy ===== *)
theory SapRouterGrammar
  imports SapRouterRoute
begin

text \<open>
  Route strings have one meaning: the parser accepts exactly the canonical texts of well-formed hops, the
  completion of a prefix adds one hop and changes none, and the request spells the hops so that they can be
  read back from its bytes.
\<close>

section \<open>Hops and their texts\<close>

definition hop_ok :: "router_hop \<Rightarrow> bool" where
  "hop_ok h \<longleftrightarrow> route_field_ok HostField (rh_host h) \<and>
     (\<forall>s. rh_service h = Some s \<longrightarrow> route_field_ok ServiceField s) \<and>
     (\<forall>w. rh_password h = Some w \<longrightarrow> route_field_ok PasswordField w)"

definition option_parts :: "string option \<Rightarrow> string option \<Rightarrow> string list" where
  "option_parts s w = (case s of None \<Rightarrow> [] | Some v \<Rightarrow> [''S'', v]) @ (case w of None \<Rightarrow> [] | Some v \<Rightarrow> [''W'', v])"

definition hop_parts :: "router_hop \<Rightarrow> string list" where
  "hop_parts h = ''H'' # rh_host h # option_parts (rh_service h) (rh_password h)"

definition slashed :: "string list \<Rightarrow> string" where
  "slashed ps = concat (map (\<lambda>p. CHR ''/'' # p) ps)"

definition route_text :: "router_hop list \<Rightarrow> string" where
  "route_text hops = slashed (concat (map hop_parts hops))"

lemma route_text_hops: "route_text hops = concat (map (\<lambda>h. ''/H/'' @ rh_host h @
     (case rh_service h of None \<Rightarrow> [] | Some s \<Rightarrow> ''/S/'' @ s) @
     (case rh_password h of None \<Rightarrow> [] | Some w \<Rightarrow> ''/W/'' @ w)) hops)"
  by (induction hops) (auto simp: route_text_def slashed_def hop_parts_def option_parts_def split: option.splits)

lemma alphanumeric_printable: "is_alphanumeric c \<Longrightarrow> printable c \<and> c \<noteq> CHR ''/''"
  by (auto simp: is_alphanumeric_def printable_def Let_def)

lemma route_char_printable: "route_char kind c \<Longrightarrow> printable c \<and> c \<noteq> CHR ''/''"
  using alphanumeric_printable by (cases kind) (auto simp: printable_def)

lemma route_field_printable: "route_field_ok kind s \<Longrightarrow> list_all printable s \<and> CHR ''/'' \<notin> set s"
proof -
  assume "route_field_ok kind s"
  then have "list_all (route_char kind) s" by (cases kind) (simp_all del: route_char.simps)
  then show ?thesis using route_char_printable unfolding list_all_iff by blast
qed

declare route_field_ok.simps [simp del] route_char.simps [simp del]

lemma hop_parts_printable: "hop_ok h \<Longrightarrow> p \<in> set (hop_parts h) \<Longrightarrow> list_all printable p \<and> CHR ''/'' \<notin> set p"
  by (cases "rh_service h"; cases "rh_password h")
    (auto dest: route_field_printable simp: hop_ok_def hop_parts_def option_parts_def printable_def)

lemma slashed_join: "ps \<noteq> [] \<Longrightarrow> slashed ps = join_with (CHR ''/'') ([] # ps)"
proof (induction ps)
  case (Cons p ps)
  then show ?case by (cases ps) (auto simp: slashed_def)
qed simp

lemma split_slashed:
  assumes "ps \<noteq> []" and "\<And>p. p \<in> set ps \<Longrightarrow> CHR ''/'' \<notin> set p"
  shows "split_on (CHR ''/'') (slashed ps) = [] # ps"
  unfolding slashed_join [OF assms(1)] by (rule split_join) (use assms(2) in auto)

lemma slashed_split: "split_on (CHR ''/'') s = [] # ps \<Longrightarrow> ps \<noteq> [] \<Longrightarrow> s = slashed ps"
  using join_split [of "CHR ''/''" s] by (simp add: slashed_join)

lemma routeField_iff: "routeField v kind = Inr s \<longleftrightarrow> v = Some s \<and> route_field_ok kind s"
  by (auto simp: routeField_def split: option.splits)

lemma routeField_fine: "route_field_ok kind s \<Longrightarrow> routeField (Some s) kind = Inr s"
  by (simp add: routeField_iff)

section \<open>The parser\<close>

definition at_hop :: "string list \<Rightarrow> bool" where
  "at_hop rest \<longleftrightarrow> rest = [] \<or> hd rest = ''H''"

lemma part_at_Cons [simp]: "part_at (p # ps) = Some p"
  by (simp add: part_at_def)

lemma part_at_iff: "part_at ps = Some v \<longleftrightarrow> (\<exists>rest. ps = v # rest)"
  by (cases ps) (auto simp: part_at_def)

lemma options_done: "hop_options s (Some w) ps = Inr (s', w', rest) \<longleftrightarrow> s' = s \<and> w' = Some w \<and> rest = ps \<and> at_hop ps"
  by (subst hop_options.simps) (auto simp: at_hop_def split: list.splits sum.splits)

lemma options_service:
  "hop_options (Some v) None ps = Inr (s', w', rest) \<longleftrightarrow>
     s' = Some v \<and> (\<forall>w. w' = Some w \<longrightarrow> route_field_ok PasswordField w) \<and>
     ps = (case w' of None \<Rightarrow> [] | Some w \<Rightarrow> [''W'', w]) @ rest \<and> at_hop rest"
  by (subst hop_options.simps)
    (auto simp: at_hop_def options_done routeField_iff routeField_fine part_at_iff split: list.splits sum.splits option.splits)

lemma options_start:
  "hop_options None None ps = Inr (s', w', rest) \<longleftrightarrow>
     (\<forall>s. s' = Some s \<longrightarrow> route_field_ok ServiceField s) \<and> (\<forall>w. w' = Some w \<longrightarrow> route_field_ok PasswordField w) \<and>
     ps = option_parts s' w' @ rest \<and> at_hop rest"
  by (subst hop_options.simps)
    (auto simp: at_hop_def options_done options_service option_parts_def routeField_iff routeField_fine part_at_iff
      split: list.splits sum.splits option.splits)

lemma hops_at_hop: "at_hop (concat (map hop_parts hops))"
  by (cases hops) (auto simp: at_hop_def hop_parts_def)

lemma route_hops_complete:
  "list_all hop_ok hops \<Longrightarrow> n + length hops \<le> SAPROUTER_MAX_ROUTE_HOPS \<Longrightarrow>
     route_hops n (concat (map hop_parts hops)) = Inr hops"
proof (induction hops arbitrary: n)
  case (Cons h hops)
  have o': "hop_options None None (option_parts (rh_service h) (rh_password h) @ concat (map hop_parts hops)) =
      Inr (rh_service h, rh_password h, concat (map hop_parts hops))"
    using Cons.prems(1) hops_at_hop by (simp add: options_start hop_ok_def)
  have f: "routeField (Some (rh_host h)) HostField = Inr (rh_host h)"
    using Cons.prems(1) by (simp add: routeField_iff hop_ok_def)
  have "route_hops (n + 1) (concat (map hop_parts hops)) = Inr hops" using Cons.IH [of "n + 1"] Cons.prems by simp
  then show ?case using Cons.prems(2) by (subst route_hops.simps) (simp add: hop_parts_def part_at_def f o')
qed (simp add: route_hops.simps)

lemma route_hops_sound:
  "route_hops n ps = Inr hops \<Longrightarrow> n \<le> SAPROUTER_MAX_ROUTE_HOPS \<Longrightarrow>
     list_all hop_ok hops \<and> n + length hops \<le> SAPROUTER_MAX_ROUTE_HOPS \<and> ps = concat (map hop_parts hops)"
proof (induction n ps arbitrary: hops rule: route_hops.induct)
  case (1 n ps)
  show ?case
  proof (cases ps)
    case Nil
    then show ?thesis using "1.prems" by (simp add: route_hops.simps)
  next
    case (Cons token rest)
    obtain host s w ps' hops' where h: "token = ''H''" "routeField (part_at rest) HostField = Inr host"
      "hop_options None None (drop 1 rest) = Inr (s, w, ps')" "\<not> SAPROUTER_MAX_ROUTE_HOPS < n + 1"
      "route_hops (n + 1) ps' = Inr hops'" "hops = \<lparr>rh_host = host, rh_service = s, rh_password = w\<rparr> # hops'"
      using "1.prems"(1) Cons by (subst (asm) route_hops.simps) (auto split: if_splits sum.splits)
    have "list_all hop_ok hops' \<and> n + 1 + length hops' \<le> SAPROUTER_MAX_ROUTE_HOPS \<and> ps' = concat (map hop_parts hops')"
      using "1.IH" [OF Cons _ h(2,3) _ _ h(4,5)] h(1,4) by simp
    moreover have "hop_parts \<lparr>rh_host = host, rh_service = s, rh_password = w\<rparr> = ''H'' # host # option_parts s w"
      by (simp add: hop_parts_def)
    moreover have "hop_ok \<lparr>rh_host = host, rh_service = s, rh_password = w\<rparr>"
      using h(2,3) by (simp add: hop_ok_def routeField_iff options_start)
    ultimately show ?thesis using h Cons by (auto simp: routeField_iff part_at_iff options_start)
  qed
qed

section \<open>Admitted routes\<close>

definition route_ok :: "router_hop list \<Rightarrow> bool" where
  "route_ok hops \<longleftrightarrow> list_all hop_ok hops \<and> 2 \<le> length hops \<and> length hops \<le> SAPROUTER_MAX_ROUTE_HOPS \<and>
     rh_password (last hops) = None \<and> sum_list (map internalHopByteLength hops) \<le> SAPROUTER_MAX_ROUTE_BYTES \<and>
     length (route_text hops) \<le> SAPROUTER_MAX_ROUTE_BYTES"

lemma admit_route_iff: "admitSapRouterRoute s = Inr r \<longleftrightarrow> (\<exists>hops. route_ok hops \<and> s = route_text hops \<and> r = route_of_hops hops)"
proof
  assume h: "admitSapRouterRoute s = Inr r"
  let ?ps = "split_on (CHR ''/'') s"
  obtain hops where a: "length s \<le> SAPROUTER_MAX_ROUTE_BYTES" "hd ?ps = []" "route_hops 0 (tl ?ps) = Inr hops"
    "2 \<le> length hops" "rh_password (last hops) = None" "sum_list (map internalHopByteLength hops) \<le> SAPROUTER_MAX_ROUTE_BYTES"
    "r = route_of_hops hops" "5 \<le> length ?ps"
    using h by (auto simp: admitSapRouterRoute_def Let_def split: if_splits)
  have g: "list_all hop_ok hops" "length hops \<le> SAPROUTER_MAX_ROUTE_HOPS" "tl ?ps = concat (map hop_parts hops)"
    using route_hops_sound [OF a(3)] by simp_all
  have "?ps = [] # tl ?ps" using a(2) split_on_nonempty [of "CHR ''/''" s] by (metis list.collapse)
  moreover have "tl ?ps \<noteq> []" using a(8) by (cases ?ps) auto
  ultimately have "s = route_text hops" using slashed_split g(3) by (metis route_text_def)
  then show "\<exists>hops. route_ok hops \<and> s = route_text hops \<and> r = route_of_hops hops"
    using a g by (auto simp: route_ok_def)
next
  assume "\<exists>hops. route_ok hops \<and> s = route_text hops \<and> r = route_of_hops hops"
  then obtain hops where o': "route_ok hops" "s = route_text hops" "r = route_of_hops hops" by blast
  then have ok: "list_all hop_ok hops" "2 \<le> length hops" by (simp_all add: route_ok_def)
  let ?ps = "concat (map hop_parts hops)"
  have parts: "list_all printable p \<and> CHR ''/'' \<notin> set p" if "p \<in> set ?ps" for p
    using that ok(1) hop_parts_printable by (auto simp: list_all_iff)
  obtain a b more where hops: "hops = a # b # more" using ok(2) by (cases hops; cases "tl hops") auto
  then have ne: "?ps \<noteq> []" "4 \<le> length ?ps" by (simp_all add: hop_parts_def)
  have s: "split_on (CHR ''/'') s = [] # ?ps" unfolding o'(2) route_text_def using split_slashed ne(1) parts by blast
  have p: "list_all printable s" using parts by (auto simp: o'(2) route_text_def slashed_def list_all_iff printable_def)
  have "s \<noteq> []" using s ne(1) by auto
  moreover have "route_hops 0 ?ps = Inr hops" using o'(1) by (intro route_hops_complete) (simp_all add: route_ok_def)
  ultimately show "admitSapRouterRoute s = Inr r"
    using o' p s ne(2) by (simp add: admitSapRouterRoute_def route_ok_def)
qed

text \<open>C10. Route strings have exactly one reading: the parser admits just the canonical texts of routes of two to 255
well-formed hops, none with a password behind the last router, within both length limits, and what it shows of
them follows from the hops.\<close>

theorem sap_route_grammar:
  "(admitSapRouterRoute s = Inr r) = (\<exists>hops. route_ok hops \<and> s = route_text hops \<and> r = route_of_hops hops)"
  by (rule admit_route_iff)

lemma route_text_append: "route_text (xs @ ys) = route_text xs @ route_text ys"
  by (simp add: route_text_def slashed_def)

lemma decimal_service: "1 \<le> p \<Longrightarrow> p \<le> 65535 \<Longrightarrow> route_field_ok ServiceField (decimal_string (nat p))"
proof -
  assume "1 \<le> p" "p \<le> 65535"
  then have "length (decimal_string (nat p)) \<le> 5" by (intro decimal_string_length) (simp_all add: nat_less_iff)
  moreover have "canonical_number (decimal_string (nat p))" by (rule decimal_string_canonical)
  ultimately show ?thesis
    by (auto simp: route_field_ok.simps route_char.simps canonical_number_def list_all_iff is_digit_char_def is_alphanumeric_def Let_def)
qed

text \<open>The reading of a text that ends in a host and a service.\<close>

lemma last_hop_split:
  assumes "route_ok hops" and "route_text hops = pre @ ''/H/'' @ host @ ''/S/'' @ service"
    and "route_field_ok HostField host" "route_field_ok ServiceField service"
  shows "\<exists>routers. hops = routers @ [\<lparr>rh_host = host, rh_service = Some service, rh_password = None\<rparr>] \<and> pre = route_text routers"
proof -
  let ?target = "\<lparr>rh_host = host, rh_service = Some service, rh_password = None\<rparr>"
  have ok: "list_all hop_ok hops" "hops \<noteq> []" using assms(1) by (auto simp: route_ok_def)
  have sl: "CHR ''/'' \<notin> set host" "CHR ''/'' \<notin> set service" using route_field_printable assms(3,4) by blast+
  have all: "CHR ''/'' \<notin> set p" if "p \<in> set (concat (map hop_parts hops))" for p
    using that ok(1) hop_parts_printable by (auto simp: list_all_iff)
  have ne: "concat (map hop_parts hops) \<noteq> []" using ok(2) by (cases hops) (auto simp: hop_parts_def)
  have "[] # concat (map hop_parts hops) = split_on (CHR ''/'') (pre @ ''/H/'' @ host @ ''/S/'' @ service)"
    using split_slashed [OF ne all] assms(2) by (simp add: route_text_def)
  also have "\<dots> = split_on (CHR ''/'') pre @ [''H'', host, ''S'', service]"
    using sl by (simp add: split_append_sep split_on_append split_on_none)
  finally have eq: "[] # concat (map hop_parts hops) = split_on (CHR ''/'') pre @ [''H'', host, ''S'', service]" .
  then obtain ps where pre: "split_on (CHR ''/'') pre = [] # ps" using split_on_nonempty [of "CHR ''/''" pre]
    by (cases "split_on (CHR ''/'') pre") auto
  then have ps: "concat (map hop_parts hops) = ps @ [''H'', host, ''S'', service]" using eq by simp
  obtain routers h where h: "hops = routers @ [h]" using ok(2) by (cases hops rule: rev_cases) auto
  have pw: "rh_password h = None" using assms(1) by (simp add: route_ok_def h)
  then obtain s where s: "rh_service h = Some s" using ps by (cases "rh_service h") (auto simp: h hop_parts_def option_parts_def)
  then have "h = ?target" "concat (map hop_parts routers) = ps"
    using ps pw by (auto simp: h hop_parts_def option_parts_def)
  moreover have "pre = slashed ps"
    using join_split [of "CHR ''/''" pre] slashed_join [of ps] pre by (cases "ps = []") (auto simp: slashed_def)
  ultimately show ?thesis using h by (auto simp: route_text_def)
qed

text \<open>C11. Completing a prefix adds exactly one hop, the gateway's, and changes none: whatever the prefix and the host
are, the routers of the completed route are the ones the prefix spells, the last hop is the given endpoint without
a password, and nothing in the host can add a hop of its own.\<close>

theorem sap_route_completion:
  assumes "completeSapRouterRoute prefix (Some host) port = Inr r"
  shows "\<exists>routers. ar_internal r = routers @ [\<lparr>rh_host = host, rh_service = Some (decimal_string (nat port)), rh_password = None\<rparr>] \<and>
    prefix = route_text routers @ ''/H/'' \<and> routers \<noteq> []"
proof -
  have h: "assertSapRouterRoutePrefix prefix = Inr ()" "route_field_ok HostField host" "1 \<le> port" "port \<le> 65535"
    "admitSapRouterRoute (prefix @ host @ ''/S/'' @ decimal_string (nat port)) = Inr r"
    using assms by (auto simp: completeSapRouterRoute_def routeField_iff split: if_splits)
  have "ends_with prefix ''/H/''" using h(1) by (auto simp: assertSapRouterRoutePrefix_def split: if_splits)
  then obtain pre where pre: "prefix = pre @ ''/H/''" unfolding ends_with_def by (metis append_take_drop_id)
  obtain hops where o': "route_ok hops" "pre @ ''/H/'' @ host @ ''/S/'' @ decimal_string (nat port) = route_text hops"
    "r = route_of_hops hops" using h(5) unfolding admit_route_iff pre by auto
  obtain routers where r: "hops = routers @ [\<lparr>rh_host = host, rh_service = Some (decimal_string (nat port)), rh_password = None\<rparr>]"
    "pre = route_text routers"
    using last_hop_split [OF o'(1) o'(2) [symmetric] h(2) decimal_service [OF h(3,4)]] by blast
  have "routers \<noteq> []" using o'(1) r(1) by (auto simp: route_ok_def)
  then show ?thesis using r o'(3) pre by (auto simp: route_of_hops_def)
qed

section \<open>The request\<close>

lemma hop_bytes_length [simp]: "length (hop_bytes h) = internalHopByteLength h"
  by (simp add: hop_bytes_def internalHopByteLength_def)

lemma hops_bytes_length: "length (concat (map hop_bytes hops)) = sum_list (map internalHopByteLength hops)"
  by (induction hops) simp_all

text \<open>Reading a NUL-separated route: three fields for each hop, an empty one for none.\<close>

fun read_hops :: "bytes list \<Rightarrow> router_hop list" where
  "read_hops (h # s # w # rest) =
     \<lparr>rh_host = ascii_string h, rh_service = (if s = [] then None else Some (ascii_string s)),
       rh_password = (if w = [] then None else Some (ascii_string w))\<rparr> # read_hops rest"
| "read_hops _ = []"

definition hop_field_bytes :: "router_hop \<Rightarrow> bytes list" where
  "hop_field_bytes h = map ascii_bytes [rh_host h, or_else (rh_service h) [], or_else (rh_password h) []]"

lemma empty_field [simp]: "\<not> route_field_ok kind []"
  by (cases kind) (simp_all add: route_field_ok.simps)

lemma ascii_bytes_Nil [simp]: "ascii_bytes s = [] \<longleftrightarrow> s = []"
  by (simp add: ascii_bytes_def)

lemma route_bytes_of: "route_field_ok kind s \<Longrightarrow> 0 \<notin> set (ascii_bytes s) \<and> ascii_string (ascii_bytes s) = s"
proof -
  assume ok: "route_field_ok kind s"
  have "0 \<notin> set (ascii_bytes s)"
  proof
    assume "0 \<in> set (ascii_bytes s)"
    then obtain c where "c \<in> set s" "(word_of_nat (of_char c) :: byte) = 0" by (auto simp: ascii_bytes_def)
    then show False using route_field_printable [OF ok] unat_of_char_byte [of c] by (auto simp: list_all_iff printable_def)
  qed
  then show ?thesis using route_field_printable [OF ok] ascii_string_bytes by simp
qed

lemma hop_read:
  assumes "hop_ok h"
  shows "0 \<notin> set (ascii_bytes (rh_host h))" "0 \<notin> set (ascii_bytes (or_else (rh_service h) []))"
    "0 \<notin> set (ascii_bytes (or_else (rh_password h) []))" "read_hops (hop_field_bytes h @ rest) = h # read_hops rest"
proof -
  show "0 \<notin> set (ascii_bytes (rh_host h))" "0 \<notin> set (ascii_bytes (or_else (rh_service h) []))"
    "0 \<notin> set (ascii_bytes (or_else (rh_password h) []))"
    using assms route_bytes_of by (cases "rh_service h"; cases "rh_password h"; auto simp: hop_ok_def ascii_bytes_def)+
  show "read_hops (hop_field_bytes h @ rest) = h # read_hops rest"
    using assms route_bytes_of by (cases "rh_service h"; cases "rh_password h") (auto simp: hop_ok_def hop_field_bytes_def)
qed

lemma read_hops_back: "list_all hop_ok hops \<Longrightarrow> read_hops (split_on 0 (concat (map hop_bytes hops))) = hops"
proof (induction hops)
  case (Cons h hops)
  have "split_on 0 (concat (map hop_bytes (h # hops))) = hop_field_bytes h @ split_on 0 (concat (map hop_bytes hops))"
    using hop_read(1-3) [of h] Cons.prems by (simp add: hop_bytes_def hop_field_bytes_def split_on_append)
  then show ?case using Cons hop_read(4) by simp
qed simp

lemma hop_length_at_most: "h \<in> set hops \<Longrightarrow> internalHopByteLength h \<le> sum_list (map internalHopByteLength hops)"
  by (induction hops) auto

text \<open>C12. The request carries the route: for every admitted route and NI version the encoder succeeds; each of the 24
bytes of its header is as the protocol wants it - the eye catcher with its terminator, the version of the route
information, the NI version, the number of hops, three zero bytes, the number of hops left, the bytes of the whole
route and the bytes of the first hop, both most significant byte first; and the route is read back from the bytes
behind the header, so two routes with the same request are the same.\<close>

theorem sap_route_request:
  assumes "admitSapRouterRoute s = Inr r" and "1 \<le> version" "version \<le> 255"
  shows "\<exists>payload. encodeSapRouterRouteRequestPayload r (Some version) = Inr payload \<and>
    length payload = 24 + ar_byteLength r \<and>
    take 9 payload = ascii_bytes ''NI_ROUTE'' @ [0] \<and> payload ! 9 = 2 \<and> payload ! 10 = word_of_int version \<and>
    unat (payload ! 11) = ar_hopCount r \<and> slice 12 3 payload = [0, 0, 0] \<and> unat (payload ! 15) = ar_hopCount r - 1 \<and>
    be_decode (slice 16 4 payload) = ar_byteLength r \<and>
    be_decode (slice 20 4 payload) = internalHopByteLength (hd (ar_internal r)) \<and>
    read_hops (split_on 0 (drop 24 payload)) = ar_internal r"
proof -
  obtain hops where o': "route_ok hops" "r = route_of_hops hops" using assms(1) admit_route_iff by blast
  then have ok: "list_all hop_ok hops" "2 \<le> length hops" "length hops \<le> 255" "sum_list (map internalHopByteLength hops) \<le> 2048"
    by (simp_all add: route_ok_def SAPROUTER_MAX_ROUTE_HOPS_def SAPROUTER_MAX_ROUTE_BYTES_def)
  have first: "internalHopByteLength (hd hops) \<le> 2048"
    using hop_length_at_most [of "hd hops" hops] ok(2,4) by (cases hops) auto
  define header where "header = ascii_bytes ''NI_ROUTE'' @ [0, 2, word_of_int version, word_of_nat (length hops), 0] @
     be_encode 2 0 @ [word_of_nat (length hops - 1)] @ be_encode 4 (sum_list (map internalHopByteLength hops)) @
     be_encode 4 (internalHopByteLength (hd hops))"
  let ?payload = "header @ concat (map hop_bytes hops)"
  have l: "length header = 24" by (simp add: header_def)
  have e: "encodeSapRouterRouteRequestPayload r (Some version) = Inr ?payload"
    using assms(2,3) l
    by (simp add: encodeSapRouterRouteRequestPayload_def normalizedNiVersion_def is_safe_integer_def max_safe_integer_def o'(2)
        route_of_hops_def header_def SAPROUTER_ROUTE_EYECATCHER_def SAPROUTER_ROUTE_INFORMATION_VERSION_def
        SAPROUTER_ROUTE_HEADER_LENGTH_def hops_bytes_length del: be_encode.simps)
  have n: "header ! 9 = 2" "header ! 10 = word_of_int version" "header ! 11 = word_of_nat (length hops)"
    "header ! 15 = word_of_nat (length hops - 1)" "take 9 header = ascii_bytes ''NI_ROUTE'' @ [0]" "slice 12 3 header = [0, 0, 0]"
    "slice 16 4 header = be_encode 4 (sum_list (map internalHopByteLength hops))"
    "slice 20 4 header = be_encode 4 (internalHopByteLength (hd hops))"
    by (simp_all add: header_def ascii_bytes_def slice_def byte_eval)
  have "slice k j ?payload = slice k j header" if "k + j \<le> 24" for k j using l that by (simp add: slice_def)
  then have parts: "slice 12 3 ?payload = [0, 0, 0]" "be_decode (slice 16 4 ?payload) = sum_list (map internalHopByteLength hops)"
    "be_decode (slice 20 4 ?payload) = internalHopByteLength (hd hops)"
    using ok(4) first by (simp_all add: n(6-8) be_decode_encode del: be_encode.simps)
  have small: "unat (word_of_nat k :: byte) = k" if "k < 256" for k using that by simp
  have "unat (word_of_nat (length hops) :: byte) = length hops" "unat (word_of_nat (length hops - 1) :: byte) = length hops - 1"
    using ok(2,3) small [of "length hops"] small [of "length hops - 1"] by (auto simp del: of_nat_diff)
  with e n(1-5) l parts read_hops_back [OF ok(1)] assms(2,3) show ?thesis
    by (auto simp: o'(2) route_of_hops_def nth_append hops_bytes_length simp del: of_nat_diff)
qed

section \<open>An example\<close>

definition sample_hop :: "string \<Rightarrow> string option \<Rightarrow> string option \<Rightarrow> router_hop" where
  "sample_hop host service password = \<lparr>rh_host = host, rh_service = service, rh_password = password\<rparr>"

lemma sample_route_admitted:
  "admitSapRouterRoute ''/H/router/W/pw/H/gw/S/3300'' =
     Inr (route_of_hops [sample_hop ''router'' None (Some ''pw''), sample_hop ''gw'' (Some ''3300'') None])"
proof -
  let ?hops = "[sample_hop ''router'' None (Some ''pw''), sample_hop ''gw'' (Some ''3300'') None]"
  have "route_ok ?hops"
    by (simp add: route_ok_def hop_ok_def sample_hop_def route_field_ok.simps route_char.simps is_alphanumeric_def printable_def
        SAPROUTER_MAX_ROUTE_HOPS_def SAPROUTER_MAX_ROUTE_BYTES_def internalHopByteLength_def route_text_hops)
  moreover have "''/H/router/W/pw/H/gw/S/3300'' = route_text ?hops" by (simp add: route_text_hops sample_hop_def)
  ultimately show ?thesis unfolding admit_route_iff by blast
qed

theorem sap_route_request_witness:
  "\<exists>payload. encodeSapRouterRouteRequestPayload
       (route_of_hops [sample_hop ''router'' None (Some ''pw''), sample_hop ''gw'' (Some ''3300'') None]) (Some 40) = Inr payload \<and>
     read_hops (split_on 0 (drop 24 payload)) = [sample_hop ''router'' None (Some ''pw''), sample_hop ''gw'' (Some ''3300'') None]"
  using sap_route_request [OF sample_route_admitted, of 40] by (auto simp: route_of_hops_def)

theorem sap_route_completion_witness:
  "\<exists>r. completeSapRouterRoute ''/H/router/W/pw/H/'' (Some ''gw'') 3300 = Inr r \<and>
     ar_internal r = [sample_hop ''router'' None (Some ''pw''), sample_hop ''gw'' (Some ''3300'') None]"
proof -
  let ?hops = "[sample_hop ''router'' None (Some ''pw''), sample_hop ''gw'' (Some ''3300'') None]"
  let ?sentinel = "[sample_hop ''router'' None (Some ''pw''), sample_hop ROUTE_PREFIX_SENTINEL_HOST (Some ''65535'') None]"
  have port: "decimal_string 3300 = ''3300''" "decimal_string 65535 = ''65535''"
    using decimal_string_number [of "''3300''"] decimal_string_number [of "''65535''"]
    by (simp_all add: canonical_number_def is_digit_char_def digits_number_def digit_value_def)
  have "route_ok ?sentinel"
    by (simp add: route_ok_def hop_ok_def sample_hop_def route_field_ok.simps route_char.simps is_alphanumeric_def printable_def
        SAPROUTER_MAX_ROUTE_HOPS_def SAPROUTER_MAX_ROUTE_BYTES_def internalHopByteLength_def route_text_hops
        ROUTE_PREFIX_SENTINEL_HOST_def)
  moreover have "''/H/router/W/pw/H/'' @ ROUTE_PREFIX_SENTINEL_HOST @ ''/S/'' @ decimal_string ROUTE_PREFIX_SENTINEL_PORT =
      route_text ?sentinel"
    by (simp add: route_text_hops sample_hop_def ROUTE_PREFIX_SENTINEL_PORT_def port)
  ultimately have "admitSapRouterRoute (''/H/router/W/pw/H/'' @ ROUTE_PREFIX_SENTINEL_HOST @ ''/S/'' @
      decimal_string ROUTE_PREFIX_SENTINEL_PORT) = Inr (route_of_hops ?sentinel)" unfolding admit_route_iff by blast
  then have p: "assertSapRouterRoutePrefix ''/H/router/W/pw/H/'' = Inr ()"
    by (simp add: assertSapRouterRoutePrefix_def ends_with_def SAPROUTER_MAX_ROUTE_BYTES_def printable_def)
  have h: "routeField (Some ''gw'') HostField = Inr ''gw''"
    by (simp add: routeField_iff route_field_ok.simps route_char.simps is_alphanumeric_def)
  have c: "completeSapRouterRoute ''/H/router/W/pw/H/'' (Some ''gw'') 3300 = Inr (route_of_hops ?hops)"
    unfolding completeSapRouterRoute_def p h rbind_Inr
    using sample_route_admitted by (simp add: is_safe_integer_def max_safe_integer_def port)
  then show ?thesis using sap_route_completion [OF c] by (simp add: route_of_hops_def)
qed

end
