(* ===== verification/FastSerializer.thy ===== *)
theory FastSerializer
  imports Lz4Block CpicRequest
begin

text \<open>
  The fast serializer's framing, \<open>src/protocol/fast-serializer.ts\<close>: self-closing items, compressed
  blocks, tagged records, field-description announcements, and the elementary scalar parameter that is
  carried as one item. An input is a buffer with an offset, as in the code; a name is its list of UTF-16
  code units. The offset that an error carries for diagnostics and the wiping of buffers are left out.

  \<open>Buffer.from(text, "ascii")\<close> keeps the low byte of every code unit, and \<open>toString("ascii")\<close> drops
  the highest bit of every byte, as Node documents.
\<close>

definition FAST_SERIALIZER_PARAMETER_ITEM_ID :: nat where "FAST_SERIALIZER_PARAMETER_ITEM_ID = 0x5001"
definition DEFAULT_MAX_FAST_SERIALIZER_ITEM_LENGTH :: int where "DEFAULT_MAX_FAST_SERIALIZER_ITEM_LENGTH = 0xffff"
definition DEFAULT_MAX_FAST_SERIALIZER_ITEMS :: int where "DEFAULT_MAX_FAST_SERIALIZER_ITEMS = 1024"
definition DEFAULT_MAX_FAST_SERIALIZER_RECORDS :: int where "DEFAULT_MAX_FAST_SERIALIZER_RECORDS = 65536"

text \<open>The two constant enumerations, which the compiler replaces by their numbers.\<close>

definition TagPadded :: nat where "TagPadded = 0x30"
definition TagCharacter :: nat where "TagCharacter = 0x43"
definition TagEnd :: nat where "TagEnd = 0x45"
definition TagInt4 :: nat where "TagInt4 = 0x4e"
definition TagDescriptor :: nat where "TagDescriptor = 0x50"
definition TagString :: nat where "TagString = 0x53"

definition CodeInt1 :: nat where "CodeInt1 = 0x01"
definition CodeInt2 :: nat where "CodeInt2 = 0x02"
definition CodeInt4 :: nat where "CodeInt4 = 0x03"
definition CodeCharacter :: nat where "CodeCharacter = 0x06"
definition CodeDate :: nat where "CodeDate = 0x0c"
definition CodeTime :: nat where "CodeTime = 0x0e"
definition CodeFloat :: nat where "CodeFloat = 0x13"
definition CodeRaw :: nat where "CodeRaw = 0x17"
definition CodeString :: nat where "CodeString = 0x18"
definition CodeXString :: nat where "CodeXString = 0x19"

lemmas fs_tags = TagPadded_def TagCharacter_def TagEnd_def TagInt4_def TagDescriptor_def TagString_def
lemmas fs_codes = CodeInt1_def CodeInt2_def CodeInt4_def CodeCharacter_def CodeDate_def CodeTime_def
  CodeFloat_def CodeRaw_def CodeString_def CodeXString_def

definition PARAMETER_HEADER :: byte where "PARAMETER_HEADER = 0x44"
definition CHARACTER_FLAG :: byte where "CHARACTER_FLAG = 0x80"
definition COMPRESSION_HEADER_LENGTH :: nat where "COMPRESSION_HEADER_LENGTH = 8"
definition MAX_STRING_RECORD_LENGTH :: nat where "MAX_STRING_RECORD_LENGTH = 0x3fff"
definition MAX_LITERAL_SCALAR_VALUE_LENGTH :: nat where "MAX_LITERAL_SCALAR_VALUE_LENGTH = 512"
definition TYPE_DESCRIPTOR_PREFIX :: bytes where "TYPE_DESCRIPTOR_PREFIX = [0x5c, 0x54, 0x59, 0x50, 0x45, 0x3d]"
definition SCALAR_FIELD_NAME :: bytes where
  "SCALAR_FIELD_NAME = [0x54, 0x41, 0x42, 0x4c, 0x45, 0x5f, 0x4c, 0x49, 0x4e, 0x45]"

abbreviation fs_error :: "string \<Rightarrow> js_error" where
  "fs_error code \<equiv> CodedError ''FastSerializerProtocolError'' code"

definition to_ascii :: "js_string \<Rightarrow> bytes" where
  "to_ascii s = map (\<lambda>c. word_of_nat (unat c)) s"

definition from_ascii :: "bytes \<Rightarrow> js_string" where
  "from_ascii bs = map (\<lambda>b. word_of_nat (unat b mod 128)) bs"

record fs_item =
  item_id :: nat
  item_data :: bytes
  item_offset :: nat
  item_consumed :: nat

record fs_block =
  block_data :: bytes
  block_offset :: nat
  block_compressedLength :: nat
  block_uncompressedLength :: nat
  block_consumed :: nat

record fs_record =
  rec_tag :: nat
  rec_value :: bytes
  rec_offset :: nat
  rec_consumed :: nat

record fs_field =
  fld_typeCode :: nat
  fld_width :: "int option"
  fld_name :: js_string

record fs_announcement =
  ann_typeName :: js_string
  ann_generated :: bool
  ann_fields :: "fs_field list"
  ann_offset :: nat
  ann_consumed :: nat

record fs_scalar =
  sc_typeName :: js_string
  sc_generated :: bool
  sc_compressed :: bool
  sc_typeCode :: nat
  sc_width :: "int option"
  sc_value :: bytes
  sc_consumed :: nat

record fs_scalar_input =
  in_typeName :: js_string
  in_typeCode :: nat
  in_width :: "int option"
  in_value :: bytes

section \<open>Checked arguments\<close>

definition fs_configuredInteger :: "int option \<Rightarrow> int \<Rightarrow> int \<Rightarrow> int result" where
  "fs_configuredInteger v fallback maximum =
    (let selected = or_else v fallback in
     if \<not> is_safe_integer selected \<or> selected < 0 \<or> maximum < selected
     then Inl (fs_error ''INVALID_ARGUMENT'') else Inr selected)"

definition fs_inputOffset :: "int \<Rightarrow> nat \<Rightarrow> nat result" where
  "fs_inputOffset v n =
    (if \<not> is_safe_integer v \<or> v < 0 \<or> int n < v then Inl (fs_error ''INVALID_ARGUMENT'') else Inr (nat v))"

definition fs_requireBytes :: "bytes \<Rightarrow> nat \<Rightarrow> nat \<Rightarrow> unit result" where
  "fs_requireBytes input offset n =
    guard_that (\<not> int (length input) - int offset < int n) (fs_error ''TRUNCATED_INPUT'')"

section \<open>Items\<close>

definition decodeItemFromSnapshot :: "bytes \<Rightarrow> nat \<Rightarrow> int \<Rightarrow> fs_item result" where
  "decodeItemFromSnapshot input offset maxItemLength =
    rbind (fs_requireBytes input offset 4) (\<lambda>_.
    let id' = be_decode (slice offset 2 input);
        dataLength = be_decode (slice (offset + 2) 2 input)
    in if maxItemLength < int dataLength then Inl (fs_error ''ITEM_LIMIT_EXCEEDED'')
    else let dataOffset = offset + 4 in
    rbind (fs_requireBytes input dataOffset (dataLength + 2)) (\<lambda>_.
    let closingIdOffset = dataOffset + dataLength in
    if be_decode (slice closingIdOffset 2 input) \<noteq> id' then Inl (fs_error ''MALFORMED_ITEM'')
    else Inr \<lparr>item_id = id', item_data = slice dataOffset dataLength input, item_offset = offset,
      item_consumed = 6 + dataLength\<rparr>))"

definition decodeFastSerializerItem :: "bytes \<Rightarrow> int \<Rightarrow> int option \<Rightarrow> fs_item result" where
  "decodeFastSerializerItem input offset maxItemLength =
    rbind (fs_inputOffset offset (length input)) (\<lambda>start.
    rbind (fs_configuredInteger maxItemLength DEFAULT_MAX_FAST_SERIALIZER_ITEM_LENGTH 0xffff) (\<lambda>limit.
    decodeItemFromSnapshot input start limit))"

lemma decodeItem_consumes:
  "decodeItemFromSnapshot input offset m = Inr item \<Longrightarrow> 0 < item_consumed item"
  by (auto simp: decodeItemFromSnapshot_def Let_def split: if_splits)

text \<open>The loop of \<open>decodeFastSerializerItems\<close>, with the number of items it has read.\<close>

function fs_itemLoop :: "bytes \<Rightarrow> int \<Rightarrow> int \<Rightarrow> int \<Rightarrow> nat \<Rightarrow> fs_item list result" where
  "fs_itemLoop input maxItemLength maxItems count offset =
    (if offset < length input
     then if count = maxItems then Inl (fs_error ''ITEM_LIMIT_EXCEEDED'')
     else (case decodeItemFromSnapshot input offset maxItemLength of
         Inl e \<Rightarrow> Inl e
       | Inr item \<Rightarrow> rbind (fs_itemLoop input maxItemLength maxItems (count + 1) (offset + item_consumed item))
           (\<lambda>rest. Inr (item # rest)))
     else Inr [])"
  by pat_completeness auto
termination
  by (relation "measure (\<lambda>(input, l, m, c, offset). length input - offset)") (auto dest: decodeItem_consumes)

declare fs_itemLoop.simps [simp del]

definition decodeFastSerializerItems :: "bytes \<Rightarrow> int option \<Rightarrow> int option \<Rightarrow> fs_item list result" where
  "decodeFastSerializerItems input maxItemLength maxItems =
    rbind (fs_configuredInteger maxItemLength DEFAULT_MAX_FAST_SERIALIZER_ITEM_LENGTH 0xffff) (\<lambda>itemLimit.
    rbind (fs_configuredInteger maxItems DEFAULT_MAX_FAST_SERIALIZER_ITEMS DEFAULT_MAX_FAST_SERIALIZER_ITEMS)
      (\<lambda>countLimit. fs_itemLoop input itemLimit countLimit 0 0))"

definition encodeFastSerializerItem :: "int \<Rightarrow> bytes \<Rightarrow> bytes result" where
  "encodeFastSerializerItem id' data =
    (if \<not> is_safe_integer id' \<or> id' < 0 \<or> 0xffff < id' then Inl (fs_error ''INVALID_ARGUMENT'')
     else if 0xffff < length data then Inl (fs_error ''ITEM_LIMIT_EXCEEDED'')
     else Inr (be_encode 2 (nat id') @ be_encode 2 (length data) @ data @ be_encode 2 (nat id')))"

section \<open>Compressed blocks\<close>

definition fs_blockLimit :: "int option \<Rightarrow> int result" where
  "fs_blockLimit v = fs_configuredInteger v (int MAX_LZ4_BLOCK_LENGTH) (int MAX_LZ4_BLOCK_LENGTH)"

text \<open>A caught error of the given class becomes a protocol error; any other is thrown again.\<close>

definition fs_rethrow :: "string \<Rightarrow> string \<Rightarrow> 'a result \<Rightarrow> 'a result" where
  "fs_rethrow errorClass code r =
    (case r of
       Inl (CodedError name c) \<Rightarrow> if name = errorClass then Inl (fs_error code) else Inl (CodedError name c)
     | _ \<Rightarrow> r)"

definition decodeFastSerializerCompressedBlock ::
    "bytes \<Rightarrow> int \<Rightarrow> int option \<Rightarrow> int option \<Rightarrow> fs_block result" where
  "decodeFastSerializerCompressedBlock input offset maxCompressed maxUncompressed =
    rbind (fs_inputOffset offset (length input)) (\<lambda>start.
    rbind (fs_requireBytes input start COMPRESSION_HEADER_LENGTH) (\<lambda>_.
    let uncompressedLength = le_decode (slice start 4 input);
        compressedLength = le_decode (slice (start + 4) 4 input) in
    rbind (fs_blockLimit maxCompressed) (\<lambda>maxCompressedLength.
    rbind (fs_blockLimit maxUncompressed) (\<lambda>maxUncompressedLength.
    if compressedLength = 0 \<or> uncompressedLength = 0 \<or> uncompressedLength < compressedLength
    then Inl (fs_error ''MALFORMED_COMPRESSION'')
    else if maxCompressedLength < int compressedLength \<or> maxUncompressedLength < int uncompressedLength
    then Inl (fs_error ''COMPRESSION_LIMIT_EXCEEDED'')
    else let blockOffset = start + COMPRESSION_HEADER_LENGTH in
    rbind (fs_requireBytes input blockOffset compressedLength) (\<lambda>_.
    rbind (fs_rethrow ''Lz4BlockDecodeError'' ''MALFORMED_COMPRESSION''
        (decodeLz4Block (slice blockOffset compressedLength input) (int uncompressedLength)
          (Some maxCompressedLength) (Some maxUncompressedLength))) (\<lambda>data.
    Inr \<lparr>block_data = data, block_offset = start, block_compressedLength = compressedLength,
      block_uncompressedLength = uncompressedLength,
      block_consumed = COMPRESSION_HEADER_LENGTH + compressedLength\<rparr>))))))"

definition encodeFastSerializerCompressedBlock :: "bytes \<Rightarrow> int option \<Rightarrow> int option \<Rightarrow> bytes result" where
  "encodeFastSerializerCompressedBlock input maxCompressed maxUncompressed =
    rbind (fs_blockLimit maxCompressed) (\<lambda>maxCompressedLength.
    rbind (fs_blockLimit maxUncompressed) (\<lambda>maxUncompressedLength.
    if input = [] then Inl (fs_error ''MALFORMED_COMPRESSION'')
    else if maxUncompressedLength < int (length input) then Inl (fs_error ''COMPRESSION_LIMIT_EXCEEDED'')
    else rbind (fs_rethrow ''Lz4BlockEncodeError'' ''COMPRESSION_LIMIT_EXCEEDED''
        (encodeLz4Block input (Some maxUncompressedLength) (Some maxCompressedLength))) (\<lambda>block.
    if length input < length block then Inl (fs_error ''COMPRESSION_NOT_BENEFICIAL'')
    else Inr (le_encode 4 (length input) @ le_encode 4 (length block) @ block))))"

definition isExactCompressedEnvelope :: "bytes \<Rightarrow> bool" where
  "isExactCompressedEnvelope input \<longleftrightarrow>
    (if length input < COMPRESSION_HEADER_LENGTH then False
     else let uncompressedLength = le_decode (slice 0 4 input);
              compressedLength = le_decode (slice 4 4 input)
     in 0 < uncompressedLength \<and> uncompressedLength \<le> MAX_LZ4_BLOCK_LENGTH \<and>
        0 < compressedLength \<and> compressedLength \<le> uncompressedLength \<and>
        compressedLength \<le> MAX_LZ4_BLOCK_LENGTH \<and>
        COMPRESSION_HEADER_LENGTH + compressedLength = length input)"

section \<open>Records\<close>

text \<open>The \<open>switch\<close> of \<open>decodeRecordFromSnapshot\<close>: the length of the value and where it starts.\<close>

definition fs_valueWindow :: "bytes \<Rightarrow> nat \<Rightarrow> nat \<Rightarrow> (nat \<times> nat) result" where
  "fs_valueWindow input tag valueOffset =
    (if tag = TagInt4 then Inr (4, valueOffset)
     else if tag = TagDescriptor then
       rbind (fs_requireBytes input valueOffset 1) (\<lambda>_. Inr (unat (input ! valueOffset), valueOffset + 1))
     else if tag = TagCharacter then
       rbind (fs_requireBytes input valueOffset 2) (\<lambda>_.
       if input ! (valueOffset + 1) \<noteq> CHARACTER_FLAG then Inl (fs_error ''MALFORMED_RECORD'')
       else Inr (unat (input ! valueOffset), valueOffset + 2))
     else if tag = TagPadded then
       rbind (fs_requireBytes input valueOffset 2) (\<lambda>_.
       Inr (be_decode (slice valueOffset 2 input), valueOffset + 2))
     else if tag = TagString then
       rbind (fs_requireBytes input valueOffset 4) (\<lambda>_.
       let flaggedLength = le_decode (slice valueOffset 2 input);
           plainLength = le_decode (slice (valueOffset + 2) 2 input)
       in if and flaggedLength 0xc000 \<noteq> 0xc000 \<or> and flaggedLength 0x3fff \<noteq> plainLength
          then Inl (fs_error ''MALFORMED_RECORD'')
          else Inr (plainLength, valueOffset + 4))
     else Inl (fs_error ''UNSUPPORTED_RECORD_TAG''))"

definition decodeRecordFromSnapshot :: "bytes \<Rightarrow> nat \<Rightarrow> fs_record result" where
  "decodeRecordFromSnapshot input offset =
    rbind (fs_requireBytes input offset 1) (\<lambda>_.
    let tag = unat (input ! offset) in
    if tag = TagEnd then Inr \<lparr>rec_tag = tag, rec_value = [], rec_offset = offset, rec_consumed = 1\<rparr>
    else rbind (fs_valueWindow input tag (offset + 1)) (\<lambda>(valueLength, valueOffset).
    if valueLength = 0 then Inl (fs_error ''MALFORMED_RECORD'')
    else rbind (fs_requireBytes input valueOffset valueLength) (\<lambda>_.
    Inr \<lparr>rec_tag = tag, rec_value = slice valueOffset valueLength input, rec_offset = offset,
      rec_consumed = valueOffset + valueLength - offset\<rparr>)))"

definition decodeFastSerializerRecord :: "bytes \<Rightarrow> int \<Rightarrow> fs_record result" where
  "decodeFastSerializerRecord input offset =
    rbind (fs_inputOffset offset (length input)) (decodeRecordFromSnapshot input)"

lemma fs_valueWindow_offset: "fs_valueWindow input tag v = Inr (n, w) \<Longrightarrow> v \<le> w"
  by (auto simp: fs_valueWindow_def Let_def split: if_splits)

lemma decodeRecord_consumes: "decodeRecordFromSnapshot input offset = Inr r \<Longrightarrow> 0 < rec_consumed r"
  by (auto simp: decodeRecordFromSnapshot_def Let_def split: if_splits dest!: fs_valueWindow_offset)

function fs_recordLoop :: "bytes \<Rightarrow> int \<Rightarrow> int \<Rightarrow> nat \<Rightarrow> fs_record list result" where
  "fs_recordLoop input maxRecords count offset =
    (if offset < length input
     then if count = maxRecords then Inl (fs_error ''RECORD_LIMIT_EXCEEDED'')
     else (case decodeRecordFromSnapshot input offset of
         Inl e \<Rightarrow> Inl e
       | Inr r \<Rightarrow> rbind (fs_recordLoop input maxRecords (count + 1) (offset + rec_consumed r))
           (\<lambda>rest. Inr (r # rest)))
     else Inr [])"
  by pat_completeness auto
termination
  by (relation "measure (\<lambda>(input, m, c, offset). length input - offset)") (auto dest: decodeRecord_consumes)

declare fs_recordLoop.simps [simp del]

definition decodeFastSerializerRecords :: "bytes \<Rightarrow> int option \<Rightarrow> fs_record list result" where
  "decodeFastSerializerRecords input maxRecords =
    rbind (fs_configuredInteger maxRecords DEFAULT_MAX_FAST_SERIALIZER_RECORDS DEFAULT_MAX_FAST_SERIALIZER_RECORDS)
      (\<lambda>limit. fs_recordLoop input limit 0 0)"

definition encodeFastSerializerRecord :: "nat \<Rightarrow> bytes \<Rightarrow> bytes result" where
  "encodeFastSerializerRecord tag value =
    (let n = length value in
     if tag = TagEnd then if n \<noteq> 0 then Inl (fs_error ''MALFORMED_RECORD'') else Inr [word_of_nat tag]
     else if tag = TagInt4 then
       if n \<noteq> 4 then Inl (fs_error ''MALFORMED_RECORD'') else Inr ([word_of_nat tag] @ value)
     else if tag = TagDescriptor then
       if n = 0 \<or> 0xff < n then Inl (fs_error ''MALFORMED_RECORD'')
       else Inr ([word_of_nat tag, word_of_nat n] @ value)
     else if tag = TagCharacter then
       if n = 0 \<or> 0xff < n then Inl (fs_error ''MALFORMED_RECORD'')
       else Inr ([word_of_nat tag, word_of_nat n, CHARACTER_FLAG] @ value)
     else if tag = TagPadded then
       if n = 0 \<or> 0xffff < n then Inl (fs_error ''MALFORMED_RECORD'')
       else Inr ([word_of_nat tag] @ be_encode 2 n @ value)
     else if tag = TagString then
       if n = 0 \<or> MAX_STRING_RECORD_LENGTH < n then Inl (fs_error ''MALFORMED_RECORD'')
       else Inr ([word_of_nat tag] @ le_encode 2 (or 0xc000 n) @ le_encode 2 n @ value)
     else Inl (fs_error ''UNSUPPORTED_RECORD_TAG''))"

definition encodeFastSerializerRecords :: "(nat \<times> bytes) list \<Rightarrow> int option \<Rightarrow> bytes result" where
  "encodeFastSerializerRecords records maxRecords =
    rbind (fs_configuredInteger maxRecords DEFAULT_MAX_FAST_SERIALIZER_RECORDS DEFAULT_MAX_FAST_SERIALIZER_RECORDS)
      (\<lambda>limit. if limit < int (length records) then Inl (fs_error ''RECORD_LIMIT_EXCEEDED'')
        else rbind (map_result (\<lambda>(tag, value). encodeFastSerializerRecord tag value) records)
          (\<lambda>parts. Inr (concat parts)))"

section \<open>Announcements\<close>

definition isPlainName :: "bytes \<Rightarrow> bool \<Rightarrow> bool" where
  "isPlainName value allowGeneratedTypeMarker \<longleftrightarrow> value \<noteq> [] \<and>
    (\<forall>index < length value. let b = unat (value ! index) in
       (0x41 \<le> b \<and> b \<le> 0x5a) \<or> (0x30 \<le> b \<and> b \<le> 0x39) \<or> b = 0x5f \<or> b = 0x2f \<or>
       (allowGeneratedTypeMarker \<and> index = 0 \<and> b = 0x25))"

definition fastSerializerTypeName :: "fs_record \<Rightarrow> js_string option" where
  "fastSerializerTypeName r =
    (if rec_tag r \<noteq> TagDescriptor \<or> length (rec_value r) \<le> length TYPE_DESCRIPTOR_PREFIX \<or>
        take (length TYPE_DESCRIPTOR_PREFIX) (rec_value r) \<noteq> TYPE_DESCRIPTOR_PREFIX
     then None
     else let raw = drop (length TYPE_DESCRIPTOR_PREFIX) (rec_value r) in
       if \<not> isPlainName raw True then None else Some (from_ascii raw))"

definition knownTypeCode :: "nat \<Rightarrow> bool" where
  "knownTypeCode v \<longleftrightarrow> v = CodeInt1 \<or> v = CodeInt2 \<or> v = CodeInt4 \<or> v = CodeCharacter \<or> v = CodeDate \<or>
     v = CodeTime \<or> v = CodeFloat \<or> v = CodeRaw \<or> v = CodeString \<or> v = CodeXString"

definition fs_generated :: "js_string \<Rightarrow> bool" where
  "fs_generated typeName \<longleftrightarrow> take 3 typeName = [0x25, 0x5f, 0x54]"

text \<open>The body of the loop over the fields, then the loop: the fields and the final cursor.\<close>

definition decodeFieldDescription :: "bytes \<Rightarrow> nat \<Rightarrow> (fs_field \<times> nat) result" where
  "decodeFieldDescription input cursor =
    rbind (fs_requireBytes input cursor 1) (\<lambda>_.
    let rawTypeCode = unat (input ! cursor); cursor = cursor + 1 in
    if \<not> knownTypeCode rawTypeCode then Inl (fs_error ''UNSUPPORTED_TYPE_CODE'')
    else
    rbind (if rawTypeCode = CodeCharacter \<or> rawTypeCode = CodeRaw
           then rbind (fs_requireBytes input cursor 2) (\<lambda>_.
             Inr (Some (int (le_decode (slice cursor 2 input))), cursor + 2))
           else Inr (None, cursor)) (\<lambda>(width, cursor).
    rbind (fs_requireBytes input cursor 1) (\<lambda>_.
    let nameLength = unat (input ! cursor); cursor = cursor + 1 in
    rbind (fs_requireBytes input cursor nameLength) (\<lambda>_.
    let rawName = slice cursor nameLength input in
    if \<not> isPlainName rawName False then Inl (fs_error ''MALFORMED_PARAMETER'')
    else Inr (\<lparr>fld_typeCode = rawTypeCode, fld_width = width, fld_name = from_ascii rawName\<rparr>,
      cursor + nameLength)))))"

fun fs_fieldLoop :: "bytes \<Rightarrow> nat \<Rightarrow> nat \<Rightarrow> (fs_field list \<times> nat) result" where
  "fs_fieldLoop input 0 cursor = Inr ([], cursor)"
| "fs_fieldLoop input (Suc n) cursor =
    rbind (decodeFieldDescription input cursor) (\<lambda>(field, cursor).
    rbind (fs_fieldLoop input n cursor) (\<lambda>(rest, cursor). Inr (field # rest, cursor)))"

definition decodeParameterFromSnapshot :: "bytes \<Rightarrow> nat \<Rightarrow> fs_announcement result" where
  "decodeParameterFromSnapshot input offset =
    rbind (fs_requireBytes input offset 2) (\<lambda>_.
    if input ! offset \<noteq> PARAMETER_HEADER then Inl (fs_error ''MALFORMED_PARAMETER'')
    else let fieldCount = unat (input ! (offset + 1)); cursor = offset + 2 in
    rbind (decodeRecordFromSnapshot input cursor) (\<lambda>descriptor.
    case fastSerializerTypeName descriptor of
      None \<Rightarrow> Inl (fs_error ''MALFORMED_PARAMETER'')
    | Some typeName \<Rightarrow>
        rbind (fs_fieldLoop input fieldCount (cursor + rec_consumed descriptor)) (\<lambda>(fields', cursor).
        Inr \<lparr>ann_typeName = typeName, ann_generated = fs_generated typeName, ann_fields = fields',
          ann_offset = offset, ann_consumed = cursor - offset\<rparr>)))"

definition decodeFastSerializerParameterAnnouncement :: "bytes \<Rightarrow> int \<Rightarrow> fs_announcement result" where
  "decodeFastSerializerParameterAnnouncement input offset =
    rbind (fs_inputOffset offset (length input)) (decodeParameterFromSnapshot input)"

definition encodeFieldDescription :: "fs_field \<Rightarrow> bytes result" where
  "encodeFieldDescription field =
    (let typeCode = fld_typeCode field; width = fld_width field; name = to_ascii (fld_name field) in
     if \<not> knownTypeCode typeCode then Inl (fs_error ''UNSUPPORTED_TYPE_CODE'')
     else if length name \<noteq> length (fld_name field) \<or> 0xff < length name \<or> \<not> isPlainName name False
     then Inl (fs_error ''MALFORMED_PARAMETER'')
     else if typeCode = CodeCharacter \<or> typeCode = CodeRaw
     then (case width of
         None \<Rightarrow> Inl (fs_error ''MALFORMED_PARAMETER'')
       | Some w \<Rightarrow> if \<not> is_safe_integer w \<or> w < 0 \<or> 0xffff < w then Inl (fs_error ''MALFORMED_PARAMETER'')
           else Inr ([word_of_nat typeCode] @ le_encode 2 (nat w) @ [word_of_nat (length name)] @ name))
     else if width \<noteq> None then Inl (fs_error ''MALFORMED_PARAMETER'')
     else Inr ([word_of_nat typeCode, word_of_nat (length name)] @ name))"

definition encodeFastSerializerParameterAnnouncement :: "js_string \<Rightarrow> fs_field list \<Rightarrow> bytes result" where
  "encodeFastSerializerParameterAnnouncement typeNameText fields' =
    (let typeName = to_ascii typeNameText in
     if length typeName \<noteq> length typeNameText \<or> \<not> isPlainName typeName True
     then Inl (fs_error ''MALFORMED_PARAMETER'')
     else let descriptorLength = length TYPE_DESCRIPTOR_PREFIX + length typeName in
     if 0xff < descriptorLength then Inl (fs_error ''MALFORMED_PARAMETER'')
     else if 0xff < length fields' then Inl (fs_error ''MALFORMED_PARAMETER'')
     else
     rbind (encodeFastSerializerRecord TagDescriptor (TYPE_DESCRIPTOR_PREFIX @ typeName)) (\<lambda>descriptor.
     rbind (map_result encodeFieldDescription fields') (\<lambda>parts.
     Inr ([PARAMETER_HEADER, word_of_nat (length fields')] @ descriptor @ concat parts))))"

section \<open>Elementary scalar parameters\<close>

text \<open>The tag of the value record and whether an end record follows.\<close>

definition scalarRule :: "nat \<Rightarrow> (nat \<times> bool) option" where
  "scalarRule typeCode =
    (if typeCode = CodeInt4 then Some (TagInt4, True)
     else if typeCode = CodeCharacter then Some (TagCharacter, True)
     else if typeCode = CodeString then Some (TagString, False)
     else None)"

definition decodeScalarParameterFromSnapshot :: "bytes \<Rightarrow> bool \<Rightarrow> nat \<Rightarrow> fs_scalar result" where
  "decodeScalarParameterFromSnapshot input compressed bytesConsumed =
    rbind (decodeRecordFromSnapshot input 0) (\<lambda>descriptor.
    case fastSerializerTypeName descriptor of
      None \<Rightarrow> Inl (fs_error ''MALFORMED_PARAMETER'')
    | Some typeName \<Rightarrow>
    let cursor = rec_consumed descriptor in
    rbind (fs_requireBytes input cursor 1) (\<lambda>_.
    let typeCode = unat (input ! cursor); cursor = cursor + 1 in
    case scalarRule typeCode of
      None \<Rightarrow> Inl (fs_error ''UNSUPPORTED_TYPE_CODE'')
    | Some (valueTag, terminalEnd) \<Rightarrow>
    rbind (if typeCode = CodeCharacter
           then rbind (fs_requireBytes input cursor 2) (\<lambda>_.
             let width = le_decode (slice cursor 2 input) in
             if width = 0 \<or> width mod 2 \<noteq> 0 then Inl (fs_error ''MALFORMED_PARAMETER'')
             else Inr (Some (int width), cursor + 2))
           else Inr (None, cursor)) (\<lambda>(width, cursor).
    rbind (fs_requireBytes input cursor 1) (\<lambda>_.
    let nameLength = unat (input ! cursor); cursor = cursor + 1 in
    rbind (fs_requireBytes input cursor nameLength) (\<lambda>_.
    if slice cursor nameLength input \<noteq> SCALAR_FIELD_NAME then Inl (fs_error ''MALFORMED_PARAMETER'')
    else let cursor = cursor + nameLength in
    rbind (decodeRecordFromSnapshot input cursor) (\<lambda>value.
    if rec_tag value \<noteq> valueTag then Inl (fs_error ''MALFORMED_PARAMETER'')
    else if \<not> compressed \<and> MAX_LITERAL_SCALAR_VALUE_LENGTH < length (rec_value value)
    then Inl (fs_error ''COMPRESSION_LIMIT_EXCEEDED'')
    else let cursor = cursor + rec_consumed value in
    rbind (if terminalEnd
           then rbind (decodeRecordFromSnapshot input cursor) (\<lambda>terminal.
             if rec_tag terminal \<noteq> TagEnd then Inl (fs_error ''MALFORMED_PARAMETER'')
             else Inr (cursor + rec_consumed terminal))
           else Inr cursor) (\<lambda>cursor.
    if cursor \<noteq> length input then Inl (fs_error ''MALFORMED_PARAMETER'')
    else Inr \<lparr>sc_typeName = typeName, sc_generated = fs_generated typeName, sc_compressed = compressed,
      sc_typeCode = typeCode, sc_width = width, sc_value = rec_value value, sc_consumed = bytesConsumed\<rparr>)))))))"

definition decodeFastSerializerScalarParameter :: "bytes \<Rightarrow> fs_scalar result" where
  "decodeFastSerializerScalarParameter input =
    (if \<not> isExactCompressedEnvelope input then decodeScalarParameterFromSnapshot input False (length input)
     else rbind (decodeFastSerializerCompressedBlock input 0 None None) (\<lambda>compressed.
       if block_consumed compressed \<noteq> length input then Inl (fs_error ''MALFORMED_COMPRESSION'')
       else decodeScalarParameterFromSnapshot (block_data compressed) True (length input)))"

definition encodeFastSerializerScalarParameter :: "fs_scalar_input \<Rightarrow> bytes result" where
  "encodeFastSerializerScalarParameter p =
    (case scalarRule (in_typeCode p) of
       None \<Rightarrow> Inl (fs_error ''UNSUPPORTED_TYPE_CODE'')
     | Some (valueTag, terminalEnd) \<Rightarrow>
     if in_typeCode p = CodeCharacter \<and>
        (case in_width p of None \<Rightarrow> True | Some width \<Rightarrow> width = 0 \<or> width mod 2 \<noteq> 0)
     then Inl (fs_error ''MALFORMED_PARAMETER'')
     else
     rbind (encodeFastSerializerParameterAnnouncement (in_typeName p)
        [\<lparr>fld_typeCode = in_typeCode p, fld_width = in_width p, fld_name = from_ascii SCALAR_FIELD_NAME\<rparr>])
        (\<lambda>announcement.
     rbind (encodeFastSerializerRecord valueTag (in_value p)) (\<lambda>encodedValue.
     let terminal = (if terminalEnd then [word_of_nat TagEnd] else []);
         literal = drop 2 announcement @ encodedValue @ terminal
     in if length (in_value p) \<le> MAX_LITERAL_SCALAR_VALUE_LENGTH then Inr literal
        else encodeFastSerializerCompressedBlock literal None None)))"

text \<open>The item that carries a scalar: the parameter, its offset and the bytes consumed.\<close>

definition decodeFastSerializerScalarParameterItem ::
    "bytes \<Rightarrow> int \<Rightarrow> int option \<Rightarrow> (fs_scalar \<times> nat \<times> nat) result" where
  "decodeFastSerializerScalarParameterItem input offset maxItemLength =
    rbind (decodeFastSerializerItem input offset maxItemLength) (\<lambda>item.
    if item_id item \<noteq> FAST_SERIALIZER_PARAMETER_ITEM_ID then Inl (fs_error ''MALFORMED_ITEM'')
    else rbind (decodeFastSerializerScalarParameter (item_data item)) (\<lambda>parameter.
    Inr (parameter, item_offset item, item_consumed item)))"

definition encodeFastSerializerScalarParameterItem :: "fs_scalar_input \<Rightarrow> bytes result" where
  "encodeFastSerializerScalarParameterItem p =
    rbind (encodeFastSerializerScalarParameter p)
      (encodeFastSerializerItem (int FAST_SERIALIZER_PARAMETER_ITEM_ID))"

end
