(* ===== verification/FastSerializerCodec.thy ===== *)
theory FastSerializerCodec
  imports FastSerializer
begin

text \<open>
  What the fast serializer's framing guarantees: a record is read back from any place of a buffer, a
  record stream is accepted exactly when it is the encoding of its records, an announcement and an
  elementary scalar item are read back.
\<close>

section \<open>Reading behind a prefix\<close>

lemma fs_require_here [simp]:
  "off + n \<le> length input \<Longrightarrow> fs_requireBytes input off n = Inr ()"
  by (simp add: fs_requireBytes_def)

lemma fs_require_Inr: "fs_requireBytes input off n = Inr u \<longleftrightarrow> off + n \<le> length input"
  by (auto simp: fs_requireBytes_def)

lemma slice_behind: "slice (length pre + k) n (pre @ xs) = slice k n xs"
  by (simp add: slice_def)

lemma slice_behind_all: "slice (length pre) n (pre @ xs) = take n xs"
  by (simp add: slice_def)

lemma nth_behind: "(pre @ xs) ! (length pre + k) = xs ! k"
  by (simp add: nth_append)

lemma nth_behind_all: "(pre @ xs) ! length pre = xs ! 0"
  by (simp add: nth_append)

lemmas fs_behind = slice_behind slice_behind_all nth_behind nth_behind_all

lemma slice_parts:
  "slice 0 n (a @ b) = (if n \<le> length a then take n a else a @ take (n - length a) b)"
  by (simp add: slice_def)

lemma word_byte [simp]: "v < 256 \<Longrightarrow> unat (word_of_nat v :: byte) = v"
  by simp

lemma string_flags:
  assumes "n < 16384"
  shows "or 0xc000 n < 65536" and "and (or 0xc000 n) 0xc000 = (0xc000 :: nat)" and "and (or 0xc000 n) 0x3fff = n"
proof -
  have n: "take_bit 14 n = n" using assms by (simp add: take_bit_nat_eq_self)
  have c: "(0xc000 :: nat) = push_bit 14 3" and m: "(0x3fff :: nat) = mask 14"
    by (simp_all add: push_bit_eq_mult mask_eq_exp_minus_1)
  have "or (push_bit k a) (take_bit k b) = push_bit k a + take_bit k b" for k a b :: nat
    by (rule disjunctive_add [symmetric]) (auto simp: bit_simps)
  from this [of 14 3 n] show "or 0xc000 n < 65536" using assms unfolding n by (simp add: push_bit_eq_mult)
  have absorb: "and (or a b) a = a" for a b :: nat
    by (rule bit_eqI) (auto simp: bit_and_iff bit_or_iff)
  show "and (or 0xc000 n) 0xc000 = (0xc000 :: nat)" by (rule absorb)
  show "and (or 0xc000 n) 0x3fff = n"
    unfolding c m by (simp only: n take_bit_or flip: take_bit_eq_mask) (simp add: take_bit_push_bit)
qed

lemma string_flags_unique:
  assumes "f < 65536" and "and f 0xc000 = (0xc000 :: nat)" and "and f 0x3fff = n"
  shows "or 0xc000 n = f"
proof -
  have dist: "or (and f c) (and f m) = and f (or c m)" for c m :: nat
    by (rule bit_eqI) (auto simp: bit_and_iff bit_or_iff)
  have "or (and f 0xc000) (and f 0x3fff) = and f (0xffff :: nat)"
    unfolding dist by simp
  also have "\<dots> = take_bit 16 f" by (simp add: take_bit_eq_mask mask_eq_exp_minus_1)
  also have "\<dots> = f" using assms(1) by (simp add: take_bit_nat_eq_self)
  finally show ?thesis using assms(2,3) by simp
qed

section \<open>Records\<close>

definition fs_record_at :: "nat \<Rightarrow> nat \<Rightarrow> bytes \<Rightarrow> nat \<Rightarrow> fs_record" where
  "fs_record_at offset tag value n = \<lparr>rec_tag = tag, rec_value = value, rec_offset = offset, rec_consumed = n\<rparr>"

lemma fs_record_at_simps [simp]:
  "rec_tag (fs_record_at off tag v n) = tag" "rec_value (fs_record_at off tag v n) = v"
  "rec_offset (fs_record_at off tag v n) = off" "rec_consumed (fs_record_at off tag v n) = n"
  by (simp_all add: fs_record_at_def)

lemma string_header_read:
  assumes "n < 16384"
  shows "le_decode (le_encode 2 (or 0xc000 n)) = or 0xc000 n" and "le_decode (le_encode 2 n) = n"
  using assms string_flags(1) [OF assms] by simp_all

lemma record_reads:
  assumes "encodeFastSerializerRecord tag value = Inr bs"
  shows "decodeRecordFromSnapshot (pre @ bs @ rest) (length pre) =
    Inr (fs_record_at (length pre) tag value (length bs))"
proof -
  let ?n = "length value"
  consider (fin) "tag = TagEnd" "bs = [0x45]" "value = []"
    | (int4) "tag = TagInt4" "bs = [0x4e] @ value" "?n = 4"
    | (descriptor) "tag = TagDescriptor" "bs = [0x50, word_of_nat ?n] @ value" "0 < ?n" "?n < 256"
    | (character) "tag = TagCharacter" "bs = [0x43, word_of_nat ?n, 0x80] @ value" "0 < ?n" "?n < 256"
    | (padded) "tag = TagPadded" "bs = [0x30] @ be_encode 2 ?n @ value" "0 < ?n" "?n < 65536"
    | (string) "tag = TagString" "bs = [0x53] @ le_encode 2 (or 0xc000 ?n) @ le_encode 2 ?n @ value"
        "0 < ?n" "?n < 16384"
    using assms unfolding encodeFastSerializerRecord_def Let_def
    by (auto simp: fs_tags CHARACTER_FLAG_def MAX_STRING_RECORD_LENGTH_def split: if_splits)
  then show ?thesis
    by cases (simp_all add: decodeRecordFromSnapshot_def fs_valueWindow_def fs_tags nth_append slice_def
      fs_record_at_def Let_def CHARACTER_FLAG_def string_header_read string_flags fs_require_Inr fs_requireBytes_def guard_that_def)
qed

lemma be_decode_two:
  assumes "length h = 2"
  shows "be_decode h < 65536" and "be_encode 2 (be_decode h) = h" and "le_decode h < 65536" and "le_encode 2 (le_decode h) = h"
  using be_decode_less [of h] be_encode_decode [of h] le_decode_less [of h] le_encode_decode [of h] assms by simp_all

lemma record_header_cases:
  assumes "decodeRecordFromSnapshot (pre @ xs) (length pre) = Inr r"
  obtains (fin) ys where "xs = 0x45 # ys" "r = fs_record_at (length pre) TagEnd [] 1"
  | (int4) ys where "xs = 0x4e # ys" "4 \<le> length ys" "r = fs_record_at (length pre) TagInt4 (take 4 ys) 5"
  | (descriptor) l ys where "xs = 0x50 # l # ys" "0 < unat l" "unat l \<le> length ys"
      "r = fs_record_at (length pre) TagDescriptor (take (unat l) ys) (2 + unat l)"
  | (character) l ys where "xs = 0x43 # l # 0x80 # ys" "0 < unat l" "unat l \<le> length ys"
      "r = fs_record_at (length pre) TagCharacter (take (unat l) ys) (3 + unat l)"
  | (padded) h ys where "xs = 0x30 # h @ ys" "length h = 2" "0 < be_decode h" "be_decode h \<le> length ys"
      "r = fs_record_at (length pre) TagPadded (take (be_decode h) ys) (3 + be_decode h)"
  | (string) h h' ys where "xs = 0x53 # h @ h' @ ys" "length h = 2" "length h' = 2" "0 < le_decode h'"
      "and (le_decode h) 0xc000 = 0xc000" "and (le_decode h) 0x3fff = le_decode h'" "le_decode h' \<le> length ys"
      "r = fs_record_at (length pre) TagString (take (le_decode h') ys) (5 + le_decode h')"
proof -
  obtain t zs where xs: "xs = t # zs"
    using assms by (cases xs) (auto simp: decodeRecordFromSnapshot_def fs_require_Inr)
  have t: "t = word_of_nat (unat t)" by simp
  note dec = assms [unfolded xs decodeRecordFromSnapshot_def Let_def fs_valueWindow_def fs_behind]
  consider "unat t = TagEnd" | "unat t = TagInt4" | "unat t = TagDescriptor" | "unat t = TagCharacter"
    | "unat t = TagPadded" | "unat t = TagString"
    using dec by (auto simp: fs_require_Inr split: if_splits)
  then show thesis
  proof cases
    case 1
    then show thesis using dec xs t by (intro fin [of zs]) (auto simp: fs_tags fs_record_at_def)
  next
    case 2
    then show thesis using dec xs t
      by (intro int4 [of zs]) (auto simp: fs_tags fs_record_at_def fs_require_Inr slice_def)
  next
    case 3
    then obtain l ys where "zs = l # ys" using dec by (cases zs) (auto simp: fs_tags fs_require_Inr)
    with 3 show thesis using dec xs t
      by (intro descriptor [of l ys]) (auto simp: fs_tags fs_record_at_def fs_require_Inr slice_def nth_append split: if_splits)
  next
    case 4
    then obtain l f ys where "zs = l # f # ys"
      using dec by (cases zs; cases "tl zs") (auto simp: fs_tags fs_require_Inr)
    with 4 show thesis using dec xs t
      by (intro character [of l ys]) (auto simp: fs_tags fs_record_at_def fs_require_Inr slice_def nth_append CHARACTER_FLAG_def split: if_splits)
  next
    case 5
    let ?h = "take 2 zs" and ?ys = "drop 2 zs"
    have "2 \<le> length zs" using 5 dec by (auto simp: fs_tags fs_require_Inr)
    then have "zs = ?h @ ?ys" "length ?h = 2" by simp_all
    with 5 show thesis using dec xs t
      by (intro padded [of ?h ?ys]) (auto simp: fs_tags fs_record_at_def fs_require_Inr slice_def split: if_splits)
  next
    case 6
    let ?h = "take 2 zs" and ?k = "take 2 (drop 2 zs)" and ?ys = "drop 4 zs"
    have "4 \<le> length zs" using 6 dec by (auto simp: fs_tags fs_require_Inr)
    moreover from this have "zs = ?h @ ?k @ ?ys"
      by (metis (no_types) append_take_drop_id drop_drop numeral_plus_numeral semiring_norm(2,6,8))
    ultimately show thesis using 6 dec xs t
      by (intro string [of ?h ?k ?ys]) (auto simp: fs_tags fs_record_at_def fs_require_Inr slice_def split: if_splits)
  qed
qed

lemma record_writes_back:
  assumes "decodeRecordFromSnapshot (pre @ xs) (length pre) = Inr r"
  shows "\<exists>bs rest. xs = bs @ rest \<and> encodeFastSerializerRecord (rec_tag r) (rec_value r) = Inr bs"
  using assms
proof (cases rule: record_header_cases)
  case (fin ys)
  then show ?thesis
    by (intro exI [of _ "[0x45]"] exI [of _ ys]) (simp add: encodeFastSerializerRecord_def fs_tags)
next
  case (int4 ys)
  then show ?thesis
    by (intro exI [of _ "0x4e # take 4 ys"] exI [of _ "drop 4 ys"]) (simp add: encodeFastSerializerRecord_def fs_tags)
next
  case (descriptor l ys)
  then show ?thesis
    by (intro exI [of _ "0x50 # l # take (unat l) ys"] exI [of _ "drop (unat l) ys"])
      (use unat_byte_less [of l] in \<open>simp add: encodeFastSerializerRecord_def fs_tags min_def del: unat_byte_less\<close>)
next
  case (character l ys)
  then show ?thesis
    by (intro exI [of _ "0x43 # l # 0x80 # take (unat l) ys"] exI [of _ "drop (unat l) ys"])
      (use unat_byte_less [of l] in
        \<open>simp add: encodeFastSerializerRecord_def fs_tags min_def CHARACTER_FLAG_def del: unat_byte_less\<close>)
next
  case (padded h ys)
  then show ?thesis
    by (intro exI [of _ "0x30 # h @ take (be_decode h) ys"] exI [of _ "drop (be_decode h) ys"])
      (use be_decode_two [of h] in \<open>simp add: encodeFastSerializerRecord_def fs_tags min_def\<close>)
next
  case (string h h' ys)
  have "or 0xc000 (le_decode h') = le_decode h"
    using string be_decode_two [of h] by (intro string_flags_unique) auto
  moreover have "le_decode h' < 16384"
  proof -
    have "le_decode h' = take_bit 14 (le_decode h)"
      using string(6) by (simp add: take_bit_eq_mask mask_eq_exp_minus_1)
    then show ?thesis using take_bit_nat_less_exp [of 14 "le_decode h"] by simp
  qed
  ultimately show ?thesis using string be_decode_two [of h] be_decode_two [of h']
    by (intro exI [of _ "0x53 # h @ h' @ take (le_decode h') ys"] exI [of _ "drop (le_decode h') ys"])
      (simp add: encodeFastSerializerRecord_def fs_tags min_def MAX_STRING_RECORD_LENGTH_def)
qed

lemma record_canonical:
  assumes "decodeRecordFromSnapshot (pre @ xs) (length pre) = Inr r"
  obtains bs rest where "xs = bs @ rest" "encodeFastSerializerRecord (rec_tag r) (rec_value r) = Inr bs"
    "r = fs_record_at (length pre) (rec_tag r) (rec_value r) (length bs)"
proof -
  from record_writes_back [OF assms] obtain bs rest where bs: "xs = bs @ rest"
      "encodeFastSerializerRecord (rec_tag r) (rec_value r) = Inr bs" by blast
  with record_reads [OF bs(2), of pre rest] assms show thesis by (intro that) (simp_all add: eq_commute [of r])
qed

lemma record_nonempty: "encodeFastSerializerRecord tag value = Inr bs \<Longrightarrow> bs \<noteq> []"
  by (auto simp: encodeFastSerializerRecord_def Let_def split: if_splits)

section \<open>Record streams\<close>

text \<open>The records of a stream, each at the place where its bytes start.\<close>

fun fs_records_from :: "nat \<Rightarrow> (nat \<times> bytes) list \<Rightarrow> bytes list \<Rightarrow> fs_record list" where
  "fs_records_from off ((tag, value) # rs) (bs # parts) =
     fs_record_at off tag value (length bs) # fs_records_from (off + length bs) rs parts"
| "fs_records_from off rs parts = []"

lemma fs_recordLoop_complete:
  assumes "map_result (\<lambda>(tag, value). encodeFastSerializerRecord tag value) rs = Inr parts"
    and "count + int (length rs) \<le> limit"
  shows "fs_recordLoop (pre @ concat parts) limit count (length pre) = Inr (fs_records_from (length pre) rs parts)"
  using assms
proof (induction rs arbitrary: parts pre count)
  case Nil
  then show ?case by (simp add: fs_recordLoop.simps)
next
  case (Cons rec rs)
  obtain tag v where rec: "rec = (tag, v)" by (cases rec)
  from Cons.prems rec obtain bs rest where parts: "parts = bs # rest"
      and bs: "encodeFastSerializerRecord tag v = Inr bs"
      and rest: "map_result (\<lambda>(tag, value). encodeFastSerializerRecord tag value) rs = Inr rest" by auto
  have "fs_recordLoop ((pre @ bs) @ concat rest) limit (count + 1) (length (pre @ bs)) =
      Inr (fs_records_from (length (pre @ bs)) rs rest)"
    using Cons.prems(2) by (intro Cons.IH [OF rest]) simp
  moreover have "0 < length bs" "count \<noteq> limit" using record_nonempty [OF bs] Cons.prems(2) by auto
  ultimately show ?case
    using record_reads [OF bs, of pre "concat rest"]
    by (subst fs_recordLoop.simps) (simp add: parts rec)
qed

lemma fs_recordLoop_sound:
  assumes "fs_recordLoop input limit count off = Inr rs" and "off \<le> length input" and "count \<le> limit"
  shows "count + int (length rs) \<le> limit \<and>
    (\<exists>parts. map_result (\<lambda>(tag, value). encodeFastSerializerRecord tag value)
        (map (\<lambda>r. (rec_tag r, rec_value r)) rs) = Inr parts \<and> drop off input = concat parts)"
  using assms
proof (induction input limit count off arbitrary: rs rule: fs_recordLoop.induct)
  case (1 input limit count off)
  show ?case
  proof (cases "off < length input")
    case False
    then show ?thesis using "1.prems" by (simp add: fs_recordLoop.simps)
  next
    case True
    let ?pre = "take off input" and ?xs = "drop off input"
    from True "1.prems"(1) obtain r rest where dec: "decodeRecordFromSnapshot input off = Inr r"
        and loop: "fs_recordLoop input limit (count + 1) (off + rec_consumed r) = Inr rest"
        and rs: "rs = r # rest" and count: "count \<noteq> limit"
      by (subst (asm) fs_recordLoop.simps) (auto split: if_splits sum.splits)
    have "decodeRecordFromSnapshot (?pre @ ?xs) (length ?pre) = Inr r" using dec True by simp
    from record_canonical [OF this] obtain bs tail where bs: "?xs = bs @ tail"
        "encodeFastSerializerRecord (rec_tag r) (rec_value r) = Inr bs" "rec_consumed r = length bs"
      by (metis fs_record_at_simps(4))
    have len: "off + length bs \<le> length input" using arg_cong [OF bs(1), of length] True by simp
    have "drop (off + length bs) input = tail"
      using bs(1) by (metis add.commute append_eq_conv_conj drop_drop)
    with "1.IH" [OF True count dec loop] len count "1.prems"(3) bs show ?thesis
      unfolding rs by fastforce
  qed
qed

definition record_view :: "fs_record \<Rightarrow> nat \<times> bytes" where
  "record_view r = (rec_tag r, rec_value r)"

lemma fs_records_from_view:
  "length parts = length rs \<Longrightarrow> map record_view (fs_records_from off rs parts) = rs"
  by (induction off rs parts rule: fs_records_from.induct) (auto simp: record_view_def)

text \<open>C14. The record grammar is exact: a byte string is accepted as a record stream, with given tags and
  values and under a given record limit, exactly when it is what the encoder writes for them. So no two
  byte strings decode to the same records, and nothing but complete, minimal records is accepted.\<close>

theorem fast_record_stream_exact:
  "(\<exists>rs. decodeFastSerializerRecords input limit = Inr rs \<and> map record_view rs = records) \<longleftrightarrow>
   encodeFastSerializerRecords records limit = Inr input"
proof
  assume "\<exists>rs. decodeFastSerializerRecords input limit = Inr rs \<and> map record_view rs = records"
  then obtain rs m where rs: "map record_view rs = records" "fs_recordLoop input m 0 0 = Inr rs"
      and m: "fs_configuredInteger limit DEFAULT_MAX_FAST_SERIALIZER_RECORDS DEFAULT_MAX_FAST_SERIALIZER_RECORDS = Inr m"
    by (auto simp: decodeFastSerializerRecords_def)
  moreover have "0 \<le> m" using m by (auto simp: fs_configuredInteger_def Let_def split: if_splits)
  ultimately show "encodeFastSerializerRecords records limit = Inr input"
    using fs_recordLoop_sound [OF rs(2)]
    by (auto simp: encodeFastSerializerRecords_def not_less record_view_def [abs_def])
next
  assume "encodeFastSerializerRecords records limit = Inr input"
  then obtain m parts where m:
      "fs_configuredInteger limit DEFAULT_MAX_FAST_SERIALIZER_RECORDS DEFAULT_MAX_FAST_SERIALIZER_RECORDS = Inr m"
      and parts: "map_result (\<lambda>(tag, value). encodeFastSerializerRecord tag value) records = Inr parts"
      "input = concat parts" and len: "int (length records) \<le> m"
    by (auto simp: encodeFastSerializerRecords_def split: if_splits)
  have "fs_recordLoop input m 0 0 = Inr (fs_records_from 0 records parts)"
    using fs_recordLoop_complete [OF parts(1), of 0 m "[]"] len parts(2) by simp
  then show "\<exists>rs. decodeFastSerializerRecords input limit = Inr rs \<and> map record_view rs = records"
    using m fs_records_from_view [OF map_result_length [OF parts(1)]]
    by (auto simp: decodeFastSerializerRecords_def)
qed

section \<open>Names\<close>

lemma length_to_ascii [simp]: "length (to_ascii s) = length s"
  by (simp add: to_ascii_def)

lemma length_from_ascii [simp]: "length (from_ascii bs) = length bs"
  by (simp add: from_ascii_def)

lemma plain_name_byte:
  "isPlainName bs b \<Longrightarrow> i < length bs \<Longrightarrow> unat (bs ! i) < 128"
  by (auto simp: isPlainName_def Let_def)

text \<open>What a name becomes on its way through the wire: its low bytes, seven bits wide when it is plain.\<close>

definition wire_name :: "js_string \<Rightarrow> js_string" where
  "wire_name s = from_ascii (to_ascii s)"

lemma wire_name_ascii:
  assumes "\<forall>c \<in> set s. unat c < 128"
  shows "wire_name s = s"
proof -
  have "(word_of_nat (unat (word_of_nat (unat c) :: byte) mod 128) :: 16 word) = c" if "unat c < 128" for c :: "16 word"
    using that by (simp only: unat_word_of_nat_byte mod_less) simp
  with assms show ?thesis
    unfolding wire_name_def from_ascii_def to_ascii_def map_map by (intro map_idI) (simp only: o_def)
qed

lemma to_ascii_scalar_name [simp]: "to_ascii (from_ascii SCALAR_FIELD_NAME) = SCALAR_FIELD_NAME"
  by (simp add: SCALAR_FIELD_NAME_def from_ascii_def to_ascii_def)

lemma plain_name_all:
  "isPlainName v False \<longleftrightarrow> v \<noteq> [] \<and> list_all (\<lambda>w. let b = unat w in
     (0x41 \<le> b \<and> b \<le> 0x5a) \<or> (0x30 \<le> b \<and> b \<le> 0x39) \<or> b = 0x5f \<or> b = 0x2f) v"
  by (auto simp: isPlainName_def Let_def list_all_length)

lemma scalar_name_plain [simp]: "isPlainName SCALAR_FIELD_NAME False"
  by (simp add: plain_name_all SCALAR_FIELD_NAME_def Let_def)

section \<open>Announcements\<close>

lemma plain_name_limits: "isPlainName v m \<Longrightarrow> v \<noteq> []"
  by (simp add: isPlainName_def)

lemma fs_field_reads:
  assumes "encodeFieldDescription f = Inr bs"
  shows "decodeFieldDescription (pre @ bs @ rest) (length pre) =
    Inr (f\<lparr>fld_name := wire_name (fld_name f)\<rparr>, length pre + length bs)"
proof -
  obtain code w s where f: "f = \<lparr>fld_typeCode = code, fld_width = w, fld_name = s\<rparr>" by (cases f)
  let ?name = "to_ascii s"
  have known: "knownTypeCode code" "length ?name < 256" "isPlainName ?name False"
    using assms by (auto simp: f encodeFieldDescription_def Let_def split: if_splits)
  have code: "code < 256" using known(1) by (auto simp: knownTypeCode_def fs_codes)
  show ?thesis
  proof (cases "code = CodeCharacter \<or> code = CodeRaw")
    case True
    then obtain n where w: "w = Some n" "0 \<le> n" "n \<le> 0xffff"
      using assms by (auto simp: f encodeFieldDescription_def Let_def split: if_splits option.splits)
    have bs: "bs = word_of_nat code # le_encode 2 (nat n) @ word_of_nat (length ?name) # ?name"
      using assms True w by (auto simp: f encodeFieldDescription_def Let_def split: if_splits)
    have n: "le_decode (le_encode 2 (nat n)) = nat n" using w by simp
    show ?thesis
      using known code True w n
      by (simp add: f bs decodeFieldDescription_def nth_append slice_def wire_name_def)
  next
    case False
    have w: "w = None" and bs: "bs = word_of_nat code # word_of_nat (length ?name) # ?name"
      using assms False by (auto simp: f encodeFieldDescription_def Let_def split: if_splits)
    show ?thesis
      using known code False w
      by (simp add: f bs decodeFieldDescription_def nth_append slice_def wire_name_def)
  qed
qed

lemma fs_fieldLoop_reads:
  assumes "map_result encodeFieldDescription fs = Inr parts"
  shows "fs_fieldLoop (pre @ concat parts @ rest) (length fs) (length pre) =
    Inr (map (\<lambda>f. f\<lparr>fld_name := wire_name (fld_name f)\<rparr>) fs, length pre + length (concat parts))"
  using assms
proof (induction fs arbitrary: parts pre)
  case Nil
  then show ?case by simp
next
  case (Cons f fs)
  then obtain bs parts' where parts: "parts = bs # parts'" and bs: "encodeFieldDescription f = Inr bs"
      and parts': "map_result encodeFieldDescription fs = Inr parts'" by auto
  show ?case
    using fs_field_reads [OF bs, of pre "concat parts' @ rest"] Cons.IH [OF parts', of "pre @ bs"]
    by (simp add: parts add.assoc)
qed

lemma type_name_reads:
  assumes "isPlainName (to_ascii s) True"
  shows "fastSerializerTypeName (fs_record_at off TagDescriptor (TYPE_DESCRIPTOR_PREFIX @ to_ascii s) n) = Some (wire_name s)"
  using assms plain_name_limits [OF assms] by (auto simp: fastSerializerTypeName_def wire_name_def to_ascii_def)

lemma announcement_parts:
  assumes "encodeFastSerializerParameterAnnouncement s fs = Inr bs"
  obtains d parts where "bs = [0x44, word_of_nat (length fs)] @ d @ concat parts" "length fs < 256"
    "isPlainName (to_ascii s) True" "length s < 250"
    "encodeFastSerializerRecord TagDescriptor (TYPE_DESCRIPTOR_PREFIX @ to_ascii s) = Inr d"
    "map_result encodeFieldDescription fs = Inr parts"
  using assms
  by (auto simp: encodeFastSerializerParameterAnnouncement_def Let_def PARAMETER_HEADER_def TYPE_DESCRIPTOR_PREFIX_def
      split: if_splits)

text \<open>C15. An announcement is read back from any place of a buffer, whatever follows it: the same type
  codes and widths in the same order, the number of bytes the encoder wrote, and every name as its low
  bytes. A name outside ASCII therefore comes back as another name instead of being refused.\<close>

theorem fast_announcement_read_back:
  assumes "encodeFastSerializerParameterAnnouncement typeName fs = Inr bs"
    and "int (length pre) \<le> max_safe_integer"
  shows "decodeFastSerializerParameterAnnouncement (pre @ bs @ rest) (int (length pre)) =
    Inr \<lparr>ann_typeName = wire_name typeName, ann_generated = fs_generated (wire_name typeName),
      ann_fields = map (\<lambda>f. f\<lparr>fld_name := wire_name (fld_name f)\<rparr>) fs,
      ann_offset = length pre, ann_consumed = length bs\<rparr>"
proof -
  obtain d parts where bs: "bs = [0x44, word_of_nat (length fs)] @ d @ concat parts" "length fs < 256"
      and name: "isPlainName (to_ascii typeName) True"
      and d: "encodeFastSerializerRecord TagDescriptor (TYPE_DESCRIPTOR_PREFIX @ to_ascii typeName) = Inr d"
      and parts: "map_result encodeFieldDescription fs = Inr parts"
    using announcement_parts [OF assms(1)] by metis
  let ?pre = "pre @ [0x44, word_of_nat (length fs)]"
  have r: "decodeRecordFromSnapshot (pre @ bs @ rest) (length pre + 2) =
      Inr (fs_record_at (length pre + 2) TagDescriptor (TYPE_DESCRIPTOR_PREFIX @ to_ascii typeName) (length d))"
    using record_reads [OF d, of ?pre "concat parts @ rest"] by (simp add: bs)
  have l: "fs_fieldLoop (pre @ bs @ rest) (length fs) (length pre + 2 + length d) =
      Inr (map (\<lambda>f. f\<lparr>fld_name := wire_name (fld_name f)\<rparr>) fs, length pre + length bs)"
    using fs_fieldLoop_reads [OF parts, of "?pre @ d" rest] by (simp add: bs add.assoc)
  have h: "(pre @ bs @ rest) ! length pre = PARAMETER_HEADER" "unat ((pre @ bs @ rest) ! (length pre + 1)) = length fs"
    using bs(2) by (simp_all add: bs(1) nth_append PARAMETER_HEADER_def)
  have req: "fs_requireBytes (pre @ bs @ rest) (length pre) 2 = Inr ()" by (simp add: bs(1))
  show ?thesis
    unfolding decodeFastSerializerParameterAnnouncement_def decodeParameterFromSnapshot_def
    using assms(2) r l h req type_name_reads [OF name]
    by (simp add: fs_inputOffset_def is_safe_integer_def del: rbind_eq_Inr)
qed

section \<open>Compressed blocks\<close>

lemma lz4_explicit_limits [simp]:
  "lz4_configuredLimit (Some (int MAX_LZ4_BLOCK_LENGTH)) MAX_LZ4_ENCODED_BLOCK_LENGTH MAX_LZ4_ENCODED_BLOCK_LENGTH =
     Inr MAX_LZ4_BLOCK_LENGTH"
  "lz4_configuredLimit (Some (int MAX_LZ4_BLOCK_LENGTH)) MAX_LZ4_BLOCK_LENGTH MAX_LZ4_BLOCK_LENGTH =
     Inr MAX_LZ4_BLOCK_LENGTH"
  "lz4_configuredEncodeLimit (Some (int MAX_LZ4_BLOCK_LENGTH)) MAX_LZ4_BLOCK_LENGTH MAX_LZ4_BLOCK_LENGTH =
     Inr MAX_LZ4_BLOCK_LENGTH"
  "lz4_configuredEncodeLimit (Some (int MAX_LZ4_BLOCK_LENGTH)) MAX_LZ4_ENCODED_BLOCK_LENGTH
     MAX_LZ4_ENCODED_BLOCK_LENGTH = Inr MAX_LZ4_BLOCK_LENGTH"
  by (simp_all add: lz4_configuredLimit_def lz4_configuredEncodeLimit_def MAX_LZ4_ENCODED_BLOCK_LENGTH_def
      MAX_LZ4_BLOCK_LENGTH_def is_safe_integer_def max_safe_integer_def)

lemma fs_blockLimit_None [simp]: "fs_blockLimit None = Inr (int MAX_LZ4_BLOCK_LENGTH)"
  by (simp add: fs_blockLimit_def fs_configuredInteger_def MAX_LZ4_BLOCK_LENGTH_def is_safe_integer_def max_safe_integer_def)

lemma encodedLengthBound_ge: "n \<le> encodedLengthBound n"
  by (simp add: encodedLengthBound_def)

lemma lz4_limits_slack:
  assumes "encodedLengthBound (length source) \<le> MAX_LZ4_BLOCK_LENGTH"
  shows "encodeLz4Block source (Some (int MAX_LZ4_BLOCK_LENGTH)) (Some (int MAX_LZ4_BLOCK_LENGTH)) =
    encodeLz4Block source None None"
proof -
  have "MAX_LZ4_BLOCK_LENGTH \<le> MAX_LZ4_ENCODED_BLOCK_LENGTH" by (simp add: MAX_LZ4_ENCODED_BLOCK_LENGTH_def)
  then have "min (encodedLengthBound (length source)) MAX_LZ4_BLOCK_LENGTH =
      min (encodedLengthBound (length source)) MAX_LZ4_ENCODED_BLOCK_LENGTH"
    using assms by simp
  then show ?thesis by (simp add: encodeLz4Block_def del: rbind_eq_Inr)
qed

lemma lz4_block_reads:
  assumes "encodedLengthBound (length source) \<le> MAX_LZ4_BLOCK_LENGTH" and "source \<noteq> []"
  obtains block where
    "encodeLz4Block source (Some (int MAX_LZ4_BLOCK_LENGTH)) (Some (int MAX_LZ4_BLOCK_LENGTH)) = Inr block"
    "block \<noteq> []" "length block \<le> MAX_LZ4_BLOCK_LENGTH"
    "decodeLz4Block block (int (length source)) (Some (int MAX_LZ4_BLOCK_LENGTH)) (Some (int MAX_LZ4_BLOCK_LENGTH)) = Inr source"
proof -
  have n: "length source \<le> MAX_LZ4_BLOCK_LENGTH" using assms(1) encodedLengthBound_ge le_trans by blast
  from encodeLz4Block_emits [OF assms(2) n] obtain out where out: "encodeLz4Block source None None = Inr out" "out \<noteq> []"
      "length out \<le> encodedLengthBound (length source)"
      "lz4_loop MAX_LZ4_BLOCK_LENGTH (length source) out [] = Inr source" by blast
  have len: "length out \<le> MAX_LZ4_BLOCK_LENGTH" using out(3) assms(1) by simp
  have safe: "int MAX_LZ4_BLOCK_LENGTH \<le> max_safe_integer" by (simp add: MAX_LZ4_BLOCK_LENGTH_def max_safe_integer_def)
  have "decodeLz4Block out (int (length source)) (Some (int MAX_LZ4_BLOCK_LENGTH)) (Some (int MAX_LZ4_BLOCK_LENGTH)) = Inr source"
    using out n len safe by (simp add: decodeLz4Block_def lz4_boundedLength_def is_safe_integer_def del: rbind_eq_Inr)
  with out(1,2) len lz4_limits_slack [OF assms(1)] show thesis by (intro that) simp_all
qed

lemma block_reads:
  assumes "encodeFastSerializerCompressedBlock input None None = Inr bs"
    and "encodedLengthBound (length input) \<le> MAX_LZ4_BLOCK_LENGTH"
  shows "isExactCompressedEnvelope bs"
    and "decodeFastSerializerCompressedBlock bs 0 None None =
      Inr \<lparr>block_data = input, block_offset = 0, block_compressedLength = length bs - 8,
        block_uncompressedLength = length input, block_consumed = length bs\<rparr>"
proof -
  have ne: "input \<noteq> []" using assms(1) by (auto simp: encodeFastSerializerCompressedBlock_def)
  from lz4_block_reads [OF assms(2) ne] obtain block where block:
    "encodeLz4Block input (Some (int MAX_LZ4_BLOCK_LENGTH)) (Some (int MAX_LZ4_BLOCK_LENGTH)) = Inr block"
    "block \<noteq> []" "length block \<le> MAX_LZ4_BLOCK_LENGTH"
    "decodeLz4Block block (int (length input)) (Some (int MAX_LZ4_BLOCK_LENGTH)) (Some (int MAX_LZ4_BLOCK_LENGTH)) = Inr input" .
  have n: "length input \<le> MAX_LZ4_BLOCK_LENGTH" using assms(2) encodedLengthBound_ge le_trans by blast
  have bs: "bs = le_encode 4 (length input) @ le_encode 4 (length block) @ block" and shorter: "length block \<le> length input"
    using assms(1) block(1) ne n
    by (auto simp: encodeFastSerializerCompressedBlock_def fs_rethrow_def split: if_splits)
  have parts: "slice 0 4 bs = le_encode 4 (length input)" "slice 4 4 bs = le_encode 4 (length block)"
      "slice 8 (length block) bs = block"
    by (simp_all add: bs slice_def)
  have lens: "le_decode (le_encode 4 (length input)) = length input" "le_decode (le_encode 4 (length block)) = length block"
    using n block(3) by (simp_all add: MAX_LZ4_BLOCK_LENGTH_def)
  have nz: "0 < length input" "0 < length block" using ne block(2) by simp_all
  have len: "length bs = 8 + length block" by (simp add: bs)
  show "isExactCompressedEnvelope bs"
    using nz n shorter block(3) by (simp add: isExactCompressedEnvelope_def parts lens len COMPRESSION_HEADER_LENGTH_def)
  have zero: "fs_inputOffset 0 (length bs) = Inr 0" by (simp add: fs_inputOffset_def is_safe_integer_def max_safe_integer_def)
  show "decodeFastSerializerCompressedBlock bs 0 None None =
      Inr \<lparr>block_data = input, block_offset = 0, block_compressedLength = length bs - 8,
        block_uncompressedLength = length input, block_consumed = length bs\<rparr>"
    unfolding decodeFastSerializerCompressedBlock_def zero rbind_Inr
    using nz n shorter block(3,4)
    by (simp add: parts lens len COMPRESSION_HEADER_LENGTH_def fs_rethrow_def Let_def del: rbind_eq_Inr)
qed

section \<open>Elementary scalars\<close>

text \<open>The literal block that a scalar input stands for.\<close>

definition fs_literal :: "fs_scalar_input \<Rightarrow> bytes \<Rightarrow> bytes \<Rightarrow> bytes \<Rightarrow> bool \<Rightarrow> bytes" where
  "fs_literal p d f v fin = d @ f @ v @ (if fin then [0x45] else [])"

lemma scalar_parts:
  assumes "encodeFastSerializerScalarParameter p = Inr bs"
  obtains tag fin d f v where "scalarRule (in_typeCode p) = Some (tag, fin)"
    "in_typeCode p = CodeCharacter \<longrightarrow> (\<exists>w. in_width p = Some w \<and> w \<noteq> 0 \<and> w mod 2 = 0)"
    "isPlainName (to_ascii (in_typeName p)) True" "length (in_typeName p) < 250"
    "encodeFastSerializerRecord TagDescriptor (TYPE_DESCRIPTOR_PREFIX @ to_ascii (in_typeName p)) = Inr d"
    "encodeFieldDescription \<lparr>fld_typeCode = in_typeCode p, fld_width = in_width p,
       fld_name = from_ascii SCALAR_FIELD_NAME\<rparr> = Inr f"
    "encodeFastSerializerRecord tag (in_value p) = Inr v"
    "if length (in_value p) \<le> 512 then bs = fs_literal p d f v fin
     else encodeFastSerializerCompressedBlock (fs_literal p d f v fin) None None = Inr bs"
proof -
  obtain tag fin where rule: "scalarRule (in_typeCode p) = Some (tag, fin)"
    using assms by (auto simp: encodeFastSerializerScalarParameter_def split: option.splits)
  have width: "in_typeCode p = CodeCharacter \<longrightarrow> (\<exists>w. in_width p = Some w \<and> w \<noteq> 0 \<and> w mod 2 = 0)"
    using assms by (auto simp: encodeFastSerializerScalarParameter_def rule split: option.splits if_splits)
  obtain a v where a: "encodeFastSerializerParameterAnnouncement (in_typeName p)
        [\<lparr>fld_typeCode = in_typeCode p, fld_width = in_width p, fld_name = from_ascii SCALAR_FIELD_NAME\<rparr>] = Inr a"
      and v: "encodeFastSerializerRecord tag (in_value p) = Inr v"
      and bs: "if length (in_value p) \<le> 512 then bs = drop 2 a @ v @ (if fin then [word_of_nat TagEnd] else [])
        else encodeFastSerializerCompressedBlock (drop 2 a @ v @ (if fin then [word_of_nat TagEnd] else [])) None None = Inr bs"
    using assms
    by (auto simp: encodeFastSerializerScalarParameter_def rule MAX_LITERAL_SCALAR_VALUE_LENGTH_def Let_def
        split: if_splits)
  obtain d parts where d: "a = [0x44, word_of_nat (Suc 0)] @ d @ concat parts" "isPlainName (to_ascii (in_typeName p)) True"
      "length (in_typeName p) < 250"
      "encodeFastSerializerRecord TagDescriptor (TYPE_DESCRIPTOR_PREFIX @ to_ascii (in_typeName p)) = Inr d"
      "map_result encodeFieldDescription [\<lparr>fld_typeCode = in_typeCode p, fld_width = in_width p,
         fld_name = from_ascii SCALAR_FIELD_NAME\<rparr>] = Inr parts"
    by (rule announcement_parts [OF a]) auto
  obtain f where f: "encodeFieldDescription \<lparr>fld_typeCode = in_typeCode p, fld_width = in_width p,
       fld_name = from_ascii SCALAR_FIELD_NAME\<rparr> = Inr f" "parts = [f]"
    using d(5) by auto
  have end_byte: "(word_of_nat TagEnd :: byte) = 0x45" by (simp add: TagEnd_def)
  have lit: "drop 2 a @ v @ (if fin then [word_of_nat TagEnd] else []) = fs_literal p d f v fin"
    unfolding end_byte by (simp add: d(1) f(2) fs_literal_def)
  show thesis by (rule that [OF rule width d(2-4) f(1) v bs [unfolded lit]])
qed

lemma scalar_field_bytes:
  assumes "encodeFieldDescription \<lparr>fld_typeCode = code, fld_width = w, fld_name = from_ascii SCALAR_FIELD_NAME\<rparr> = Inr f"
    and "scalarRule code = Some (tag, fin)"
  shows "f = word_of_nat code # (if code = CodeCharacter then le_encode 2 (nat (the w)) else []) @ 10 # SCALAR_FIELD_NAME"
    and "if code = CodeCharacter then \<exists>n. w = Some (int n) \<and> n < 65536 else w = None"
    and "code < 256"
proof -
  have code: "code \<noteq> CodeRaw" "code < 256" and len: "length SCALAR_FIELD_NAME = 10"
    using assms(2) by (auto simp: scalarRule_def fs_codes SCALAR_FIELD_NAME_def split: if_splits)
  show "f = word_of_nat code # (if code = CodeCharacter then le_encode 2 (nat (the w)) else []) @ 10 # SCALAR_FIELD_NAME"
      "code < 256"
    using assms(1) code by (auto simp: encodeFieldDescription_def Let_def len split: if_splits option.splits)
  show "if code = CodeCharacter then \<exists>n. w = Some (int n) \<and> n < 65536 else w = None"
    using assms(1) code
    by (auto simp: encodeFieldDescription_def Let_def split: if_splits option.splits intro!: exI [of _ "nat (the w)"])
qed

lemma record_reads_here:
  "encodeFastSerializerRecord tag v = Inr bs \<Longrightarrow> input = pre @ bs @ rest \<Longrightarrow> length pre = off \<Longrightarrow>
    decodeRecordFromSnapshot input off = Inr (fs_record_at off tag v (length bs))"
  using record_reads by auto

lemma end_record_here:
  "input = pre @ [0x45] \<Longrightarrow> length pre = off \<Longrightarrow> decodeRecordFromSnapshot input off = Inr (fs_record_at off TagEnd [] 1)"
  using record_reads [of TagEnd "[]" "[0x45]" pre "[]"] by (simp add: encodeFastSerializerRecord_def TagEnd_def)

lemma literal_reads:
  assumes rule: "scalarRule (in_typeCode p) = Some (tag, fin)"
    and width: "in_typeCode p = CodeCharacter \<longrightarrow> (\<exists>w. in_width p = Some w \<and> w \<noteq> 0 \<and> w mod 2 = 0)"
    and name: "isPlainName (to_ascii (in_typeName p)) True"
    and d: "encodeFastSerializerRecord TagDescriptor (TYPE_DESCRIPTOR_PREFIX @ to_ascii (in_typeName p)) = Inr d"
    and f: "encodeFieldDescription \<lparr>fld_typeCode = in_typeCode p, fld_width = in_width p,
       fld_name = from_ascii SCALAR_FIELD_NAME\<rparr> = Inr f"
    and v: "encodeFastSerializerRecord tag (in_value p) = Inr v"
    and size: "compressed \<or> length (in_value p) \<le> 512"
  shows "decodeScalarParameterFromSnapshot (fs_literal p d f v fin) compressed consumed =
    Inr \<lparr>sc_typeName = wire_name (in_typeName p), sc_generated = fs_generated (wire_name (in_typeName p)),
      sc_compressed = compressed, sc_typeCode = in_typeCode p, sc_width = in_width p,
      sc_value = in_value p, sc_consumed = consumed\<rparr>"
proof -
  let ?code = "in_typeCode p" and ?tail = "if fin then [0x45 :: byte] else []"
  let ?wb = "if ?code = CodeCharacter then le_encode 2 (nat (the (in_width p))) else []"
  let ?input = "fs_literal p d f v fin"
  let ?c = "length d + 1 + length ?wb"
  note fb = scalar_field_bytes [OF f rule]
  have input: "?input = d @ word_of_nat ?code # ?wb @ 10 # SCALAR_FIELD_NAME @ v @ ?tail"
    unfolding fs_literal_def fb(1) by simp
  have len: "length SCALAR_FIELD_NAME = 10" by (simp add: SCALAR_FIELD_NAME_def)
  have r1: "decodeRecordFromSnapshot ?input 0 =
      Inr (fs_record_at 0 TagDescriptor (TYPE_DESCRIPTOR_PREFIX @ to_ascii (in_typeName p)) (length d))"
    by (rule record_reads_here [OF d, where pre = "[]"]) (simp_all add: fs_literal_def)
  have r2: "decodeRecordFromSnapshot ?input (?c + 11) = Inr (fs_record_at (?c + 11) tag (in_value p) (length v))"
    by (rule record_reads_here [OF v, where pre = "d @ word_of_nat ?code # ?wb @ 10 # SCALAR_FIELD_NAME" and rest = ?tail])
      (simp_all add: input len)
  have r3: "decodeRecordFromSnapshot ?input (?c + 11 + length v) = Inr (fs_record_at (?c + 11 + length v) TagEnd [] 1)" if fin
    unfolding input using that
    by (intro end_record_here [where pre = "d @ word_of_nat ?code # ?wb @ 10 # SCALAR_FIELD_NAME @ v"])
      (simp_all add: len)
  have code: "unat (?input ! length d) = ?code" using fb(3) by (simp add: input nth_append)
  have w: "(if ?code = CodeCharacter
           then rbind (fs_requireBytes ?input (length d + 1) 2) (\<lambda>_.
             let width = le_decode (slice (length d + 1) 2 ?input) in
             if width = 0 \<or> width mod 2 \<noteq> 0 then Inl (fs_error ''MALFORMED_PARAMETER'')
             else Inr (Some (int width), length d + 1 + 2))
           else Inr (None, length d + 1)) = Inr (in_width p, ?c)"
  proof (cases "?code = CodeCharacter")
    case True
    then obtain n where n: "in_width p = Some (int n)" "n < 65536" "n \<noteq> 0" "n mod 2 = 0"
      using fb(2) width by auto
    have "slice (length d + 1) 2 ?input = le_encode 2 n" unfolding input using True n by (simp add: slice_def)
    moreover have "le_decode (le_encode 2 n) = n" using n by simp
    ultimately show ?thesis using True n by (simp add: input Let_def)
  next
    case False
    then show ?thesis using fb(2) by simp
  qed
  have nl: "unat (?input ! ?c) = 10" by (simp add: input nth_append)
  have nm: "slice (?c + 1) 10 ?input = SCALAR_FIELD_NAME" by (simp add: input slice_def len)
  have total: "length ?input = ?c + 11 + length v + length ?tail" by (simp add: input len)
  have reqs: "fs_requireBytes ?input (length d) 1 = Inr ()" "fs_requireBytes ?input ?c 1 = Inr ()"
      "fs_requireBytes ?input (?c + 1) 10 = Inr ()"
    by (simp_all add: total)
  have plus: "?c + 1 + 10 = ?c + 11" by simp
  have value_tag: "\<not> (\<not> compressed \<and> 512 < length (in_value p))" using size by auto
  show ?thesis
    unfolding decodeScalarParameterFromSnapshot_def r1 rbind_Inr fs_record_at_simps type_name_reads [OF name]
      option.case Let_def reqs code rule prod.case w [unfolded Let_def] nl nm plus r2 MAX_LITERAL_SCALAR_VALUE_LENGTH_def
      if_not_P [OF value_tag] total
    using r3 by (cases fin) (simp_all del: rbind_eq_Inr)
qed

lemma descriptor_bytes:
  "encodeFastSerializerRecord TagDescriptor (TYPE_DESCRIPTOR_PREFIX @ name) = Inr d \<Longrightarrow>
    d = [0x50, word_of_nat (6 + length name), 0x5c, 0x54, 0x59, 0x50, 0x45, 0x3d] @ name \<and> length name < 250"
  by (auto simp: encodeFastSerializerRecord_def Let_def fs_tags TYPE_DESCRIPTOR_PREFIX_def split: if_splits)

text \<open>The fourth byte of a literal block is the \<open>T\<close> of its descriptor: read as a length it exceeds 16 MiB.\<close>

lemma literal_not_envelope:
  assumes "encodeFastSerializerRecord TagDescriptor (TYPE_DESCRIPTOR_PREFIX @ name) = Inr d"
  shows "\<not> isExactCompressedEnvelope (fs_literal p d f v fin)"
proof -
  have "slice 0 4 (fs_literal p d f v fin) = [0x50, word_of_nat (6 + length name), 0x5c, 0x54]"
    using descriptor_bytes [OF assms] by (simp add: fs_literal_def slice_def)
  then have "MAX_LZ4_BLOCK_LENGTH < le_decode (slice 0 4 (fs_literal p d f v fin))"
    by (simp add: MAX_LZ4_BLOCK_LENGTH_def)
  then show ?thesis by (auto simp: isExactCompressedEnvelope_def Let_def)
qed

lemma literal_length:
  assumes "scalarRule code = Some (tag, fin)"
    and "encodeFastSerializerRecord TagDescriptor (TYPE_DESCRIPTOR_PREFIX @ name) = Inr d"
    and "encodeFieldDescription \<lparr>fld_typeCode = code, fld_width = w, fld_name = from_ascii SCALAR_FIELD_NAME\<rparr> = Inr f"
    and "encodeFastSerializerRecord tag x = Inr v"
  shows "length (fs_literal p d f v fin) < 17000"
proof -
  have "length d < 258" using descriptor_bytes [OF assms(2)] by auto
  moreover have "length f \<le> 14"
    using scalar_field_bytes(1) [OF assms(3,1)] by (simp add: SCALAR_FIELD_NAME_def)
  moreover have "length v \<le> 16388"
    using assms(1,4)
    by (auto simp: encodeFastSerializerRecord_def scalarRule_def Let_def fs_tags MAX_STRING_RECORD_LENGTH_def split: if_splits)
  ultimately show ?thesis by (simp add: fs_literal_def)
qed

lemma small_block_bound:
  assumes "n < 17000"
  shows "encodedLengthBound n \<le> MAX_LZ4_BLOCK_LENGTH"
proof -
  have "n + n div 255 + 16 \<le> 16777216"
    using assms div_le_dividend [of n 255] by linarith
  then show ?thesis by (simp add: encodedLengthBound_def MAX_LZ4_BLOCK_LENGTH_def)
qed

lemma scalar_reads:
  assumes "encodeFastSerializerScalarParameter p = Inr bs"
  shows "decodeFastSerializerScalarParameter bs =
    Inr \<lparr>sc_typeName = wire_name (in_typeName p), sc_generated = fs_generated (wire_name (in_typeName p)),
      sc_compressed = (512 < length (in_value p)), sc_typeCode = in_typeCode p, sc_width = in_width p,
      sc_value = in_value p, sc_consumed = length bs\<rparr>"
proof (rule scalar_parts [OF assms], goal_cases)
  case (1 tag fin d f v)
  note lit = literal_reads [OF 1(1-3,5-7)]
  show ?case
  proof (cases "length (in_value p) \<le> 512")
    case True
    then have "bs = fs_literal p d f v fin" using 1(8) by simp
    then show ?thesis
      using True literal_not_envelope [OF 1(5)] lit
      by (simp add: decodeFastSerializerScalarParameter_def)
  next
    case False
    then have "encodeFastSerializerCompressedBlock (fs_literal p d f v fin) None None = Inr bs" using 1(8) by simp
    note block_reads [OF this small_block_bound [OF literal_length [OF 1(1,5-7)]]]
    then show ?thesis
      using False lit by (simp add: decodeFastSerializerScalarParameter_def del: rbind_eq_Inr)
  qed
qed

lemma item_reads:
  assumes "encodeFastSerializerItem i data = Inr bs" and "int (length pre) \<le> max_safe_integer"
  shows "decodeFastSerializerItem (pre @ bs @ rest) (int (length pre)) None =
    Inr \<lparr>item_id = nat i, item_data = data, item_offset = length pre, item_consumed = length bs\<rparr>"
proof -
  have i: "0 \<le> i" "i \<le> 0xffff" "length data \<le> 0xffff"
      and bs: "bs = be_encode 2 (nat i) @ be_encode 2 (length data) @ data @ be_encode 2 (nat i)"
    using assms(1) by (auto simp: encodeFastSerializerItem_def split: if_splits)
  have ids: "be_decode (be_encode 2 (nat i)) = nat i" "be_decode (be_encode 2 (length data)) = length data"
    using i by simp_all
  let ?s = "pre @ bs @ rest"
  have parts: "slice (length pre) 2 ?s = be_encode 2 (nat i)" "slice (length pre + 2) 2 ?s = be_encode 2 (length data)"
      "slice (length pre + 4) (length data) ?s = data"
      "slice (length pre + 4 + length data) 2 ?s = be_encode 2 (nat i)"
    by (simp_all add: bs slice_def)
  have reqs: "fs_requireBytes ?s (length pre) 4 = Inr ()"
      "fs_requireBytes ?s (length pre + 4) (length data + 2) = Inr ()"
    by (simp_all add: bs)
  have args: "fs_inputOffset (int (length pre)) (length ?s) = Inr (length pre)"
      "fs_configuredInteger None DEFAULT_MAX_FAST_SERIALIZER_ITEM_LENGTH 0xffff = Inr 0xffff"
    using assms(2) by (simp_all add: fs_inputOffset_def fs_configuredInteger_def is_safe_integer_def
        max_safe_integer_def DEFAULT_MAX_FAST_SERIALIZER_ITEM_LENGTH_def)
  show ?thesis
    unfolding decodeFastSerializerItem_def args rbind_Inr decodeItemFromSnapshot_def reqs parts ids Let_def
    using i(3) by (simp add: bs)
qed

text \<open>C13. A scalar that the encoder accepts is read back from any place of a buffer and whatever follows
  its item: type code, declared width and every byte of the value, under the name's low bytes. Values
  above 512 bytes, and no others, travel compressed; a literal block is never mistaken for a compressed
  one.\<close>

theorem fast_scalar_read_back:
  assumes "encodeFastSerializerScalarParameterItem p = Inr bs" and "int (length pre) \<le> max_safe_integer"
  shows "decodeFastSerializerScalarParameterItem (pre @ bs @ rest) (int (length pre)) None =
    Inr (\<lparr>sc_typeName = wire_name (in_typeName p), sc_generated = fs_generated (wire_name (in_typeName p)),
      sc_compressed = (512 < length (in_value p)), sc_typeCode = in_typeCode p, sc_width = in_width p,
      sc_value = in_value p, sc_consumed = length bs - 6\<rparr>, length pre, length bs)"
proof -
  obtain data where data: "encodeFastSerializerScalarParameter p = Inr data"
      and item: "encodeFastSerializerItem (int FAST_SERIALIZER_PARAMETER_ITEM_ID) data = Inr bs"
    using assms(1) by (auto simp: encodeFastSerializerScalarParameterItem_def)
  have "length bs - 6 = length data"
    using item by (auto simp: encodeFastSerializerItem_def split: if_splits)
  then show ?thesis
    unfolding decodeFastSerializerScalarParameterItem_def item_reads [OF item assms(2)] rbind_Inr
    using scalar_reads [OF data] by (simp del: rbind_eq_Inr)
qed

lemma length_scalar_name: "length SCALAR_FIELD_NAME = 10"
  by (simp add: SCALAR_FIELD_NAME_def)

text \<open>A type name of one letter outside ASCII: its low byte is an \<open>A\<close>, and so it is announced.\<close>

lemma fast_announcement_read_back_witness:
  "rbind (encodeFastSerializerParameterAnnouncement [0x141]
      [\<lparr>fld_typeCode = 6, fld_width = Some 20, fld_name = [0x43]\<rparr>])
    (\<lambda>bs. decodeFastSerializerParameterAnnouncement (1 # bs @ [2]) 1) =
   Inr \<lparr>ann_typeName = [0x41], ann_generated = False,
     ann_fields = [\<lparr>fld_typeCode = 6, fld_width = Some 20, fld_name = [0x43]\<rparr>],
     ann_offset = 1, ann_consumed = 16\<rparr>"
proof -
  have enc: "encodeFastSerializerParameterAnnouncement [0x141]
      [\<lparr>fld_typeCode = 6, fld_width = Some 20, fld_name = [0x43]\<rparr>] =
    Inr [0x44, 1, 0x50, 7, 0x5c, 0x54, 0x59, 0x50, 0x45, 0x3d, 0x41, 6, 20, 0, 1, 0x43]"
    by (simp add: encodeFastSerializerParameterAnnouncement_def encodeFieldDescription_def to_ascii_def isPlainName_def
        TYPE_DESCRIPTOR_PREFIX_def encodeFastSerializerRecord_def fs_tags knownTypeCode_def fs_codes Let_def
        PARAMETER_HEADER_def is_safe_integer_def max_safe_integer_def byte_eval del: rbind_eq_Inr)
  show ?thesis
    unfolding enc rbind_Inr
    using fast_announcement_read_back [OF enc, of "[1]" "[2]"]
    by (simp add: max_safe_integer_def wire_name_def to_ascii_def from_ascii_def fs_generated_def)
qed

lemma fast_scalar_read_back_witness:
  "rbind (encodeFastSerializerScalarParameterItem
      \<lparr>in_typeName = [0x25, 0x5f, 0x54, 0x41], in_typeCode = 3, in_width = None, in_value = [7, 0, 0, 0]\<rparr>)
    (\<lambda>bs. decodeFastSerializerScalarParameterItem (9 # bs @ [9]) 1 None) =
   Inr (\<lparr>sc_typeName = [0x25, 0x5f, 0x54, 0x41], sc_generated = True, sc_compressed = False, sc_typeCode = 3,
     sc_width = None, sc_value = [7, 0, 0, 0], sc_consumed = 30\<rparr>, 1, 36)"
proof -
  let ?p = "\<lparr>in_typeName = [0x25, 0x5f, 0x54, 0x41], in_typeCode = 3, in_width = None, in_value = [7, 0, 0, 0]\<rparr>"
  have name: "isPlainName [0x25, 0x5f, 0x54, 0x41] True"
    by (simp add: isPlainName_def All_less_Suc Let_def)
  have enc: "encodeFastSerializerScalarParameterItem ?p = Inr ([0x50, 0x01, 0, 30, 0x50, 10, 0x5c, 0x54, 0x59, 0x50, 0x45, 0x3d,
      0x25, 0x5f, 0x54, 0x41, 3, 10] @ SCALAR_FIELD_NAME @ [0x4e, 7, 0, 0, 0, 0x45, 0x50, 0x01])"
    using name
    by (simp add: encodeFastSerializerScalarParameterItem_def encodeFastSerializerScalarParameter_def
        encodeFastSerializerParameterAnnouncement_def encodeFieldDescription_def to_ascii_def [of "[0x25, 0x5f, 0x54, 0x41]"]
        TYPE_DESCRIPTOR_PREFIX_def encodeFastSerializerRecord_def fs_tags knownTypeCode_def fs_codes Let_def
        PARAMETER_HEADER_def is_safe_integer_def max_safe_integer_def byte_eval scalarRule_def
        MAX_LITERAL_SCALAR_VALUE_LENGTH_def encodeFastSerializerItem_def FAST_SERIALIZER_PARAMETER_ITEM_ID_def
        length_scalar_name be_encode.simps del: rbind_eq_Inr)
  show ?thesis
    unfolding enc rbind_Inr
    using fast_scalar_read_back [OF enc, of "[9]" "[9]"]
    by (simp add: max_safe_integer_def wire_name_def to_ascii_def from_ascii_def fs_generated_def SCALAR_FIELD_NAME_def)
qed

end
