(* ===== verification/Spec2Isabelle.thy ===== *)
theory Spec2Isabelle
  imports NiFrame Lz4Block AppcSession AppcDecoder DirectRequest PoolRelease PoolDeadline TransactionProperties
    TemporalCodec CpicLogonCodec CpicLogonSafety ClassicRfcSent RfcFunint PackedCodec StructureCodec FunctionInterface
    Gateway SapRouterGrammar FastSerializerCodec
begin

text \<open>
  open-rfc is a client for SAP's RFC protocol in TypeScript. This development models its protocol core, the
  codecs of its values and structures, SAProuter routes, its connection pool and its transaction runtime, and proves
  what makes them correct.

  \<^bold>\<open>How the program is put together.\<close> A call is turned into a chain of tagged CPIC fields
  (\<open>src/protocol/cpic.ts\<close>). The chain is cut into APPC data fragments, each with an 80-byte header, and
  sent as records under a setup state machine (\<open>src/protocol/appc.ts\<close>,
  \<open>src/client/direct-cpic-session.ts\<close>). Records travel in NI frames (\<open>src/protocol/ni.ts\<close>). In the
  other direction frames become records, records become messages, and messages become field chains, of
  which the error part is classified by \<open>src/protocol/rfc-error-envelope.ts\<close> and the parameters are grouped by
  \<open>src/protocol/classic-rfc.ts\<close> or, where the peer uses it, read by \<open>src/protocol/fast-serializer.ts\<close>. The bytes of
  a parameter become values by the codecs of \<open>src/values\<close>, which for structures follow a definition that the
  client asked the peer for (\<open>src/metadata\<close>). Behind a SAProuter a connection starts with a route request
  (\<open>src/transport/saprouter-route.ts\<close>). Sessions are lent by the
  pool (\<open>src/pool/connection-pool-runtime.ts\<close>), and a transaction runtime
  (\<open>src/lifecycle/transaction-runtime.ts\<close>) drives commit and rollback over a leased session.

  \<^bold>\<open>Conventions.\<close> A \<open>Buffer\<close> is a list of 8-bit words. A number that the code checks with
  \<open>Number.isSafeInteger\<close> is an \<open>int\<close>, a length or index a \<open>nat\<close>, a 32-bit quantity a word where its
  wrap-around matters. A JavaScript string is a list of UTF-16 code units (\<open>js_string\<close>), or a list of characters
  where only ASCII text is meant. A thrown exception is the left value of a sum, with the constant part of its
  message. An object with methods is a record and a step function; a promise that settles is an event of a run.

  \<^bold>\<open>The theories.\<close>
  \<^item> \<open>Prelude\<close>: errors as values, big- and little-endian integers, two's complement, byte windows, and the
    interfaces \<open>prefix_codec\<close>, \<open>exact_codec\<close> and \<open>stream_decoder\<close> of the codecs, each interpreted on
    the model where it is provided. \<open>Ascii\<close>, \<open>Bytes\<close>: fixed ASCII fields, the checked reader and writer
    (\<open>src/protocol/bytes.ts\<close>).
  \<^item> \<open>NiFrame\<close> (\<open>ni.ts\<close>): the chunk queue and its refinement to the concatenated bytes.
    \<open>RfcPro\<close> (\<open>rfcpro.ts\<close>): field headers. \<open>Lz4Block\<close> (\<open>lz4-block.ts\<close>): both directions of the codec
    with its hash table and limits.
  \<^item> \<open>AppcRecord\<close>, \<open>AppcInfo\<close>, \<open>AppcPlan\<close>, \<open>AppcSession\<close>, \<open>AppcDecoder\<close> (\<open>appc.ts\<close>): the record header,
    the setup parameters, the plan of an outgoing message with its acknowledgement barriers, the setup state
    machine, and the reassembly of incoming messages. \<open>DirectWrite\<close> (\<open>direct-cpic-session.ts\<close>): writing
    a plan to a peer.
  \<^item> \<open>CpicFields\<close>, \<open>CpicRequest\<close>, \<open>CpicLogon\<close>, \<open>CpicLogonCodec\<close>, \<open>CpicResponse\<close>,
    \<open>CpicLogonResponse\<close>, \<open>CpicLogonSafety\<close> (\<open>cpic.ts\<close>, \<open>password-scramble.ts\<close>, \<open>logon-ticket.ts\<close>): the
    field chain, the three requests, the grammars of logon responses and all response decoders.
    \<open>RfcErrorEnvelope\<close>, \<open>RfcErrorOutcome\<close> (\<open>rfc-error-envelope.ts\<close>): the scan of the error facts and the
    outcome. \<open>DirectRequest\<close> composes request, plan and writer.
  \<^item> \<open>PoolState\<close> and \<open>PoolSteps\<close> (\<open>connection-pool-runtime.ts\<close>): the state of the pool and one step per
    operation, timer, abort signal and settlement. \<open>PoolFrame\<close>, \<open>PoolInvariant\<close>, \<open>PoolSafety\<close>,
    \<open>PoolQueue\<close>, \<open>PoolLiveness\<close>: what each step leaves alone, and the invariants, kept by every step.
    \<open>PoolProperties\<close>, \<open>PoolRelease\<close>, \<open>PoolDeadline\<close>: what follows for reachable states, ended leases, trimming,
    and the deadlines of the runtime.
  \<^item> \<open>TransactionControl\<close>, \<open>TransactionState\<close> (\<open>transaction-runtime.ts\<close>): the reading of a commit or rollback
    answer, and the machine. \<open>TransactionSafety\<close>: the protocol of a lease as an automaton over the adapter calls,
    and the invariant that every step keeps. \<open>TransactionAnswers\<close>: the invariant that ties a reusable release to a
    good answer of the adapter among the events so far. \<open>TransactionProperties\<close>: the consequences.
  \<^item> \<open>Calendar\<close>, \<open>CalendarWeeks\<close>, \<open>TextForms\<close>, \<open>ClassicTemporal\<close>, \<open>TemporalCodec\<close>
    (\<open>src/values/classic-temporal.ts\<close>): the mixed calendar with its closed forms and binary searches (the interface
    \<open>bisection\<close>), fixed decimal text, and the nine kinds of values as instances of \<open>numbered_text\<close>.
  \<^item> \<open>AbapText\<close> (\<open>unicode-scalar.ts\<close>, CHAR values), \<open>ClassicRfc\<close>, \<open>RfcFunint\<close> (\<open>classic-rfc.ts\<close>): the decoder of
    classic replies and the rows of a function interface. \<open>ClassicRfcGrammar\<close>: the language of accepted replies,
    stated without loops. \<open>ClassicRfcSent\<close>: a request read as a reply.
  \<^item> \<open>DecimalText\<close>, \<open>PackedDecimal\<close>, \<open>PackedCodec\<close> (\<open>packed-decimal.ts\<close>), \<open>DecimalFloat\<close>, \<open>DensePacked\<close>,
    \<open>DecimalFloatCodec\<close> (\<open>decimal-float.ts\<close>): decimal texts with their rational values, and the two codecs, which
    keep the value.
  \<^item> \<open>StructureDefinition\<close>, \<open>ClassicStructure\<close>, \<open>StructureCodec\<close> (\<open>classic-structure.ts\<close>, \<open>classic-int8.ts\<close>,
    \<open>classic-bcd.ts\<close>): definitions of structures with their check, and the codec. \<open>StructureMetadata\<close>,
    \<open>FunctionInterface\<close> (\<open>rfc-structure-definition.ts\<close>, \<open>rfc-function-interface.ts\<close>): the definitions read from
    replies.
  \<^item> \<open>Gateway\<close> (\<open>gateway.ts\<close>): the record that opens a gateway connection. \<open>TextSplit\<close>, \<open>SapRouterRoute\<close>,
    \<open>SapRouterGrammar\<close> (\<open>saprouter-route.ts\<close>): splitting of texts, the parser, completion and request of routes, and
    their grammar.
  \<^item> \<open>FastSerializer\<close>, \<open>FastSerializerCodec\<close> (\<open>fast-serializer.ts\<close>): items, compressed blocks, records, announcements
    and scalar parameters, and what is read back.

  \<^bold>\<open>What the lemmas show.\<close> Codecs are shown to be inverse to each other on what they accept and to stay within their
  limits; decoders to accept only what they should (statuses, grammars, discriminators) and to be independent of how
  the transport cuts the stream; the state machines by invariants over all runs from the initial state, and by sample
  runs that reach the interesting states; closed forms and searches by their plain definitions. A finding is a lemma
  on the inputs or states in which the code does not do what it means to, with a concrete run or input.

  \<^bold>\<open>Bounds.\<close> No definition runs on fuel that could be used up: loops are structural or have a measure, and where a
  definition takes a bound on its steps (\<open>trim_loop\<close>), it is at least the number of elements the loop can
  remove. The calendar is bounded by the year 9999 as in the code.

  \<^bold>\<open>Assumptions about the environment.\<close> The pool reads its clock once per step, the functions handed to it do not call
  back into it while they run, and a settled promise and the reaction to it are one step. The transaction runtime
  sees its adapter through settlements, in any order and possibly late or never; the timer inside its \<open>#bounded\<close>
  is one of them. \<open>randomBytes\<close> and the peer of a writer are parameters.

  \<^bold>\<open>Not modelled.\<close> Sockets, tunnels and timers (the rest of \<open>src/transport\<close>, the exchange loop of the direct session), the
  xRFC value codecs (\<open>src/values\<close> apart from the above), the recursive metadata and its caches (\<open>src/metadata\<close> apart from
  the above), callbacks and the message server protocol (\<open>src/protocol\<close>), the assembly of invocations and failures
  (\<open>src/client\<close>), the node-rfc compatible surface (\<open>src/compat\<close>), destinations, diagnostics, and the session context
  runtime. Defensive copies of typed arrays, the wiping of secrets, object freezing and the run-time type checks of
  arguments have no counterpart: values in the model have their types and cannot change. These parts are listed in the
  manifest with the reason.
\<close>

end
